(* ===== verification/PyString.thy ===== *)
theory PyString
  imports Prelude
begin

text \<open>
  The string operations of the sources: prefix tests, \<open>find\<close>, \<open>split\<close>, \<open>join\<close>, \<open>strip\<close>,
  \<open>replace\<close>, case conversion, the parsing of integers by \<open>int()\<close> and their printing by
  \<open>str()\<close>, with the round trips between them. A position that Python gives as an index is a
  \<^typ>\<open>nat\<close> here, the -1 of \<open>find\<close> is \<^const>\<open>None\<close>.
\<close>

section \<open>Prefixes and searching\<close>

definition startswith :: "'a list \<Rightarrow> 'a list \<Rightarrow> bool" where
  "startswith s p \<longleftrightarrow> take (length p) s = p"

lemma startswith_append [simp, str_simps]: "startswith (p @ s) p"
  by (simp add: startswith_def)

lemma startswith_iff: "startswith s p \<longleftrightarrow> (\<exists>t. s = p @ t)"
  by (metis startswith_def append_take_drop_id append_eq_conv_conj)

lemma startswith_Nil [simp]: "startswith s []"
  by (simp add: startswith_def)

lemma startswith_Cons [simp]:
  "startswith (c # s) (d # p) \<longleftrightarrow> c = d \<and> startswith s p"
  by (auto simp: startswith_def)

lemma startswith_Nil_Cons [simp]: "\<not> startswith [] (d # p)"
  by (simp add: startswith_def)

text \<open>\<open>s.find(p)\<close>\<close>

fun py_find :: "'a list \<Rightarrow> 'a list \<Rightarrow> nat option" where
  "py_find [] p = (if p = [] then Some 0 else None)"
| "py_find (c # s) p = (if startswith (c # s) p then Some 0 else map_option Suc (py_find s p))"

lemma py_find_Some:
  "py_find s p = Some i \<Longrightarrow> i \<le> length s \<and> startswith (drop i s) p"
  by (induction s arbitrary: i) (auto split: if_splits)

lemma py_find_None: "py_find s p = None \<Longrightarrow> p \<noteq> [] \<and> (\<forall>i. \<not> startswith (drop i s) p)"
proof (induction s)
  case (Cons c s)
  then show ?case
    by (auto split: if_splits simp: drop_Cons split: nat.splits)
qed (auto split: if_splits simp: startswith_def)

lemma py_find_least: "py_find s p = Some i \<Longrightarrow> j < i \<Longrightarrow> \<not> startswith (drop j s) p"
proof (induction s arbitrary: i j)
  case (Cons c s)
  then show ?case
    by (cases j) (auto split: if_splits)
qed (auto split: if_splits)

lemma py_find_0 [str_simps]: "py_find s p = Some 0 \<longleftrightarrow> startswith s p"
  by (cases s) (auto simp: startswith_def)

lemma py_find_append_notin:
  "c \<notin> set a \<Longrightarrow> py_find (a @ c # b) (c # p) =
     (if startswith b p then Some (length a) else map_option (\<lambda>i. Suc (length a + i)) (py_find b (c # p)))"
  by (induction a) (auto simp: option.map_comp comp_def)

lemma py_find_notin: "c \<notin> set s \<Longrightarrow> py_find s (c # p) = None"
  by (induction s) auto

definition contains :: "'a list \<Rightarrow> 'a list \<Rightarrow> bool" where
  "contains s p \<longleftrightarrow> py_find s p \<noteq> None"

text \<open>\<open>s.rfind(p)\<close> for a non-empty \<open>p\<close>\<close>

fun py_rfind :: "'a list \<Rightarrow> 'a list \<Rightarrow> nat option" where
  "py_rfind [] p = (if p = [] then Some 0 else None)"
| "py_rfind (c # s) p =
     (case py_rfind s p of
        Some i \<Rightarrow> Some (Suc i)
      | None \<Rightarrow> (if startswith (c # s) p then Some 0 else None))"

section \<open>Splitting and joining\<close>

text \<open>\<open>s.split(c)\<close> for a one-character separator; the result is never empty.\<close>

fun split_on :: "'a \<Rightarrow> 'a list \<Rightarrow> 'a list list" where
  "split_on c [] = [[]]"
| "split_on c (x # xs) =
     (if x = c then [] # split_on c xs
      else (case split_on c xs of [] \<Rightarrow> [[x]] | y # ys \<Rightarrow> (x # y) # ys))"

text \<open>\<open>c.join(parts)\<close>\<close>

fun join_with :: "'a list \<Rightarrow> 'a list list \<Rightarrow> 'a list" where
  "join_with sep [] = []"
| "join_with sep [x] = x"
| "join_with sep (x # y # ys) = x @ sep @ join_with sep (y # ys)"

lemma split_on_nonempty [simp]: "split_on c s \<noteq> []"
  by (induction s) (auto split: list.splits)

lemma join_split_on [simp, str_simps]: "join_with [c] (split_on c s) = s"
proof (induction s)
  case (Cons x xs)
  then show ?case
    by (cases "split_on c xs") (auto, metis join_with.simps(2,3) append_Cons neq_Nil_conv)
qed simp

lemma split_on_no_sep [str_simps]: "c \<notin> set s \<Longrightarrow> split_on c s = [s]"
  by (induction s) auto

lemma split_on_append [str_simps]:
  "c \<notin> set s \<Longrightarrow> split_on c (s @ c # t) = s # split_on c t"
  by (induction s) auto

lemma split_join_on:
  "xs \<noteq> [] \<Longrightarrow> (\<forall>x \<in> set xs. c \<notin> set x) \<Longrightarrow> split_on c (join_with [c] xs) = xs"
  by (induction "[c]" xs rule: join_with.induct) (auto simp: str_simps)

lemma split_on_parts: "x \<in> set (split_on c s) \<Longrightarrow> c \<notin> set x"
proof (induction s arbitrary: x)
  case (Cons a s)
  then show ?case
    by (cases "split_on c s") (auto split: if_splits)
qed simp

text \<open>\<open>s.split(sep)\<close> for a longer separator: the recursion skips what it has matched.\<close>

lemma py_find_shrink:
  "sep \<noteq> [] \<Longrightarrow> py_find s sep = Some i \<Longrightarrow> length s - (i + length sep) < length s"
  by (cases s; cases sep) auto

function split_str :: "'a list \<Rightarrow> 'a list \<Rightarrow> 'a list list" where
  "split_str sep s =
     (if sep = [] then [s]
      else (case py_find s sep of
              None \<Rightarrow> [s]
            | Some i \<Rightarrow> take i s # split_str sep (drop (i + length sep) s)))"
  by pat_completeness auto
termination
  by (relation "measure (\<lambda>(sep, s). length s)") (auto intro: py_find_shrink)

declare split_str.simps [simp del]

lemma join_split_str: "sep \<noteq> [] \<Longrightarrow> join_with sep (split_str sep s) = s"
proof (induction sep s rule: split_str.induct)
  case (1 sep s)
  show ?case
  proof (cases "py_find s sep")
    case None
    with "1.prems" show ?thesis by (simp add: split_str.simps)
  next
    case (Some i)
    have ne: "split_str sep t \<noteq> []" for t
      by (subst split_str.simps) (auto split: option.splits)
    have "drop i s = sep @ drop (i + length sep) s"
      using py_find_Some [OF Some] by (metis add.commute append_take_drop_id drop_drop startswith_def)
    moreover have "join_with sep (split_str sep (drop (i + length sep) s)) = drop (i + length sep) s"
      using "1.IH" [OF "1.prems"] Some "1.prems" by simp
    moreover obtain y ys where "split_str sep (drop (i + length sep) s) = y # ys"
      using ne by (meson neq_Nil_conv)
    ultimately show ?thesis
      using Some "1.prems" by (subst split_str.simps) (simp, metis append_take_drop_id)
  qed
qed

text \<open>\<open>s.partition(c)\<close>: what is before, whether the separator was found, what is after.\<close>

fun partition_on :: "'a \<Rightarrow> 'a list \<Rightarrow> 'a list \<times> bool \<times> 'a list" where
  "partition_on c [] = ([], False, [])"
| "partition_on c (x # xs) =
     (if x = c then ([], True, xs)
      else (case partition_on c xs of (a, f, b) \<Rightarrow> (x # a, f, b)))"

lemma partition_on_found [simp, str_simps]:
  "c \<notin> set a \<Longrightarrow> partition_on c (a @ c # b) = (a, True, b)"
  by (induction a) auto

lemma partition_on_none [simp, str_simps]: "c \<notin> set a \<Longrightarrow> partition_on c a = (a, False, [])"
  by (induction a) auto

section \<open>Stripping\<close>

definition lstrip :: "('a \<Rightarrow> bool) \<Rightarrow> 'a list \<Rightarrow> 'a list" where
  "lstrip P s = dropWhile P s"

definition rstrip :: "('a \<Rightarrow> bool) \<Rightarrow> 'a list \<Rightarrow> 'a list" where
  "rstrip P s = rev (dropWhile P (rev s))"

definition strip :: "('a \<Rightarrow> bool) \<Rightarrow> 'a list \<Rightarrow> 'a list" where
  "strip P s = rstrip P (lstrip P s)"

text \<open>No blank at either end: what a stripped text looks like.\<close>

definition stripped :: "('a \<Rightarrow> bool) \<Rightarrow> 'a list \<Rightarrow> bool" where
  "stripped P s \<longleftrightarrow> (s = [] \<or> (\<not> P (hd s) \<and> \<not> P (last s)))"

lemma rstrip_last: "s \<noteq> [] \<Longrightarrow> \<not> P (last s) \<Longrightarrow> rstrip P s = s"
  by (cases s rule: rev_cases) (auto simp: rstrip_def)

lemma lstrip_hd: "s \<noteq> [] \<Longrightarrow> \<not> P (hd s) \<Longrightarrow> lstrip P s = s"
  by (cases s) (auto simp: lstrip_def)

lemma strip_stripped [simp, str_simps]: "stripped P s \<Longrightarrow> strip P s = s"
  by (cases "s = []") (auto simp: strip_def stripped_def lstrip_hd rstrip_last, auto simp: lstrip_def rstrip_def)

lemma rstrip_Nil [simp]: "rstrip P [] = []"
  by (simp add: rstrip_def)

lemma strip_Nil [simp]: "strip P [] = []"
  by (simp add: strip_def lstrip_def)

lemma rstrip_snoc: "P x \<Longrightarrow> rstrip P (s @ [x]) = rstrip P s"
  by (simp add: rstrip_def)

lemma rstrip_decomp: "\<exists>t. s = rstrip P s @ t \<and> (\<forall>c \<in> set t. P c)"
proof -
  have "rev s = takeWhile P (rev s) @ dropWhile P (rev s)" by simp
  then have "s = rev (dropWhile P (rev s)) @ rev (takeWhile P (rev s))"
    by (metis rev_append rev_rev_ident)
  then show ?thesis
    by (metis rstrip_def set_rev set_takeWhileD)
qed

lemma stripped_strip: "stripped P (strip P s)"
proof (cases "strip P s = []")
  case False
  define u where "u = lstrip P s"
  obtain t where t: "u = rstrip P u @ t" using rstrip_decomp by metis
  have ne: "rstrip P u \<noteq> []" using False by (simp add: strip_def u_def)
  then have "u \<noteq> []" by (auto simp: rstrip_def)
  then have "\<not> P (hd u)" using hd_dropWhile [of P s] by (simp add: u_def lstrip_def)
  then have "\<not> P (hd (rstrip P u))" using t ne by (metis hd_append2)
  moreover have "\<not> P (last (rstrip P u))"
    using ne hd_dropWhile [of P "rev u"] by (auto simp: rstrip_def last_rev)
  ultimately show ?thesis by (simp add: stripped_def strip_def u_def)
qed (simp add: stripped_def)

lemma set_rstrip: "set (rstrip P s) \<subseteq> set s"
  by (auto simp: rstrip_def dest: set_dropWhileD)

lemma set_strip: "set (strip P s) \<subseteq> set s"
  using set_rstrip by (force simp: strip_def lstrip_def dest: set_dropWhileD)

text \<open>White space: of \<open>bytes.strip()\<close> and \<open>bytes.split()\<close>, and of the methods of \<open>str\<close>.\<close>

definition is_bspace :: "char \<Rightarrow> bool" where
  "is_bspace c \<longleftrightarrow> c \<in> {CHR 0x09, CHR 0x0A, CHR 0x0B, CHR 0x0C, CHR 0x0D, CHR '' ''}"

definition is_space :: "char \<Rightarrow> bool" where
  "is_space c \<longleftrightarrow>
     is_bspace c \<or> c \<in> {CHR 0x1C, CHR 0x1D, CHR 0x1E, CHR 0x1F}"

text \<open>\<open>s.split()\<close>: the maximal runs of other characters.\<close>

fun split_ws_aux :: "(char \<Rightarrow> bool) \<Rightarrow> string \<Rightarrow> string \<Rightarrow> string list" where
  "split_ws_aux P acc [] = (if acc = [] then [] else [rev acc])"
| "split_ws_aux P acc (c # s) =
     (if P c then (if acc = [] then split_ws_aux P [] s else rev acc # split_ws_aux P [] s)
      else split_ws_aux P (c # acc) s)"

definition split_ws :: "(char \<Rightarrow> bool) \<Rightarrow> string \<Rightarrow> string list" where
  "split_ws P s = split_ws_aux P [] s"

lemma split_ws_aux_word:
  "(\<forall>c \<in> set w. \<not> P c) \<Longrightarrow> split_ws_aux P acc (w @ s) = split_ws_aux P (rev w @ acc) s"
  by (induction w arbitrary: acc) auto

lemma split_ws_two:
  assumes "\<forall>c \<in> set a. \<not> P c" and "\<forall>c \<in> set b. \<not> P c" and "P x" and "a \<noteq> []" and "b \<noteq> []"
  shows "split_ws P (a @ x # b) = [a, b]"
  using assms split_ws_aux_word [of b P "[]" "[]"]
  by (simp add: split_ws_def split_ws_aux_word)

section \<open>Replacing and case\<close>

text \<open>\<open>s.replace(c, r)\<close> for a one-character pattern\<close>

definition replace_char :: "'a \<Rightarrow> 'a list \<Rightarrow> 'a list \<Rightarrow> 'a list" where
  "replace_char c r s = concat (map (\<lambda>x. if x = c then r else [x]) s)"

definition replace_str :: "'a list \<Rightarrow> 'a list \<Rightarrow> 'a list \<Rightarrow> 'a list" where
  "replace_str p r s = join_with r (split_str p s)"

text \<open>\<open>s.replace(p, r, 1)\<close>\<close>

definition replace_first :: "'a list \<Rightarrow> 'a list \<Rightarrow> 'a list \<Rightarrow> 'a list" where
  "replace_first p r s =
     (case py_find s p of None \<Rightarrow> s | Some i \<Rightarrow> take i s @ r @ drop (i + length p) s)"

lemma replace_first_prefix [simp, str_simps]: "replace_first p [] (p @ s) = s"
  using py_find_0 [of "p @ s" p] by (simp add: replace_first_def)

text \<open>\<open>lower\<close> and \<open>upper\<close> of ASCII letters; other characters are left alone, as the methods of
  \<open>bytes\<close> do.\<close>

definition lower_char :: "char \<Rightarrow> char" where
  "lower_char c = (let n = (of_char c :: nat) in if 65 \<le> n \<and> n \<le> 90 then char_of (n + 32) else c)"

definition upper_char :: "char \<Rightarrow> char" where
  "upper_char c = (let n = (of_char c :: nat) in if 97 \<le> n \<and> n \<le> 122 then char_of (n - 32) else c)"

definition py_lower :: "string \<Rightarrow> string" where
  "py_lower s = map lower_char s"

definition py_upper :: "string \<Rightarrow> string" where
  "py_upper s = map upper_char s"

lemma lower_char_idem [simp]: "lower_char (lower_char c) = lower_char c"
  by (auto simp: lower_char_def Let_def)

lemma py_lower_idem [simp, str_simps]: "py_lower (py_lower s) = py_lower s"
  by (induction s) (auto simp: py_lower_def)

section \<open>UTF-8\<close>

definition is_cont :: "char \<Rightarrow> bool" where
  "is_cont c \<longleftrightarrow> (let n = (of_char c :: nat) in 128 \<le> n \<and> n < 192)"

text \<open>What \<open>bytes.decode('utf-8')\<close> accepts: no overlong form, no surrogate, nothing above U+10FFFF.\<close>

fun valid_utf8 :: "string \<Rightarrow> bool" where
  "valid_utf8 [] = True"
| "valid_utf8 (a # r) =
     (let n = (of_char a :: nat) in
      if n < 128 then valid_utf8 r
      else (case r of
        [] \<Rightarrow> False
      | b # r1 \<Rightarrow>
          if 194 \<le> n \<and> n \<le> 223 \<and> is_cont b then valid_utf8 r1
          else (case r1 of
            [] \<Rightarrow> False
          | c # r2 \<Rightarrow>
              if 224 \<le> n \<and> n \<le> 239 \<and> is_cont b \<and> is_cont c
                 \<and> (n = 224 \<longrightarrow> 160 \<le> (of_char b :: nat)) \<and> (n = 237 \<longrightarrow> (of_char b :: nat) < 160)
              then valid_utf8 r2
              else (case r2 of
                [] \<Rightarrow> False
              | d # r3 \<Rightarrow>
                  240 \<le> n \<and> n \<le> 244 \<and> is_cont b \<and> is_cont c \<and> is_cont d
                  \<and> (n = 240 \<longrightarrow> 144 \<le> (of_char b :: nat)) \<and> (n = 244 \<longrightarrow> (of_char b :: nat) < 144)
                  \<and> valid_utf8 r3))))"

definition is_ascii :: "string \<Rightarrow> bool" where
  "is_ascii s \<longleftrightarrow> list_all (\<lambda>c. (of_char c :: nat) < 128) s"

lemma valid_utf8_ascii: "is_ascii s \<Longrightarrow> valid_utf8 s"
  by (induction s) (auto simp: is_ascii_def)

text \<open>Decoding with \<open>errors='ignore'\<close> or \<open>errors='replace'\<close>: a byte that starts no character goes,
  with the part of a character after it, for the replacement. A byte starts as many continuation
  bytes, the first of them in a range, as this table says.\<close>

definition utf8_need :: "nat \<Rightarrow> nat \<times> nat \<times> nat" where
  "utf8_need n =
     (if 194 \<le> n \<and> n \<le> 223 then (1, 128, 191)
      else if n = 224 then (2, 160, 191)
      else if n = 237 then (2, 128, 159)
      else if 225 \<le> n \<and> n \<le> 239 then (2, 128, 191)
      else if n = 240 then (3, 144, 191)
      else if 241 \<le> n \<and> n \<le> 243 then (3, 128, 191)
      else if n = 244 then (3, 128, 143)
      else (0, 0, 0))"

definition good_conts :: "nat \<times> nat \<times> nat \<Rightarrow> string \<Rightarrow> nat" where
  "good_conts need s =
     (case (need, s) of
        ((k, lo, hi), b # r) \<Rightarrow>
          if 0 < k \<and> lo \<le> (of_char b :: nat) \<and> (of_char b :: nat) \<le> hi
          then 1 + length (takeWhile is_cont (take (k - 1) r)) else 0
      | _ \<Rightarrow> 0)"

function utf8_fix :: "string \<Rightarrow> string \<Rightarrow> string" where
  "utf8_fix repl [] = []"
| "utf8_fix repl (c # s) =
     (let n = (of_char c :: nat) in
      if n < 128 then c # utf8_fix repl s
      else let need = utf8_need n; v = good_conts need s in
        (if fst need \<noteq> 0 \<and> v = fst need then c # take v s else repl) @ utf8_fix repl (drop v s))"
  by pat_completeness auto
termination
  by (relation "measure (\<lambda>(_, s). length s)") auto

lemma utf8_fix_ascii [str_simps]: "is_ascii s \<Longrightarrow> utf8_fix repl s = s"
  by (induction s) (auto simp: is_ascii_def)

end
