(* ===== verification/PyInt.thy ===== *)
theory PyInt
  imports PyString
begin

text \<open>
  Integers as text: Python's \<open>int(s)\<close> (surrounding white space, a sign, digits with single
  underscores between them; anything else is a ValueError) and \<open>str(n)\<close>, and the round trip
  between them, on which the object identifiers of every tree of the media server rest.
\<close>

section \<open>Digits\<close>

definition digit_char :: "nat \<Rightarrow> char" where
  "digit_char d = char_of (48 + d)"

definition is_digit :: "char \<Rightarrow> bool" where
  "is_digit c \<longleftrightarrow> (let n = (of_char c :: nat) in 48 \<le> n \<and> n \<le> 57)"

definition digit_val :: "char \<Rightarrow> nat" where
  "digit_val c = of_char c - 48"

lemma of_char_digit_char [simp]: "d < 10 \<Longrightarrow> (of_char (digit_char d) :: nat) = 48 + d"
  by (simp add: digit_char_def)

lemma is_digit_digit_char [simp]: "d < 10 \<Longrightarrow> is_digit (digit_char d)"
  by (simp add: is_digit_def)

lemma digit_val_digit_char [simp]: "d < 10 \<Longrightarrow> digit_val (digit_char d) = d"
  by (simp add: digit_val_def)

lemma is_digit_nonspecial:
  assumes "is_digit c"
  shows "\<not> is_space c" and "\<not> is_bspace c" and "c \<noteq> CHR ''-''" and "c \<noteq> CHR ''+''"
    and "c \<noteq> CHR ''_''" and "c \<noteq> CHR ''$''" and "c \<noteq> CHR '':''" and "c \<noteq> CHR ''/''"
    and "c \<noteq> CHR 0x0A"
  using assms by (auto simp: is_digit_def is_space_def is_bspace_def)

section \<open>int()\<close>

fun digits_val :: "nat \<Rightarrow> bool \<Rightarrow> string \<Rightarrow> nat option" where
  "digits_val acc ok [] = (if ok then Some acc else None)"
| "digits_val acc ok (c # s) =
     (if is_digit c then digits_val (10 * acc + digit_val c) True s
      else if c = CHR ''_'' \<and> ok then digits_val acc False s
      else None)"

definition nat_res :: "string \<Rightarrow> nat res" where
  "nat_res s = (case digits_val 0 False s of None \<Rightarrow> Inl ValueError | Some n \<Rightarrow> Inr n)"

definition py_int_with :: "(char \<Rightarrow> bool) \<Rightarrow> string \<Rightarrow> int res" where
  "py_int_with P s =
     (case strip P s of
        [] \<Rightarrow> Inl ValueError
      | c # r \<Rightarrow>
          (if c = CHR ''-'' then bindR (nat_res r) (\<lambda>n. Inr (- int n))
           else if c = CHR ''+'' then bindR (nat_res r) (\<lambda>n. Inr (int n))
           else bindR (nat_res (c # r)) (\<lambda>n. Inr (int n))))"

definition py_int :: "string \<Rightarrow> int res" where
  "py_int s = py_int_with is_space s"

definition py_int_bytes :: "string \<Rightarrow> int res" where
  "py_int_bytes s = py_int_with is_bspace s"

section \<open>str()\<close>

fun str_nat :: "nat \<Rightarrow> string" where
  "str_nat n = (if n < 10 then [digit_char n] else str_nat (n div 10) @ [digit_char (n mod 10)])"

declare str_nat.simps [simp del]

definition str_int :: "int \<Rightarrow> string" where
  "str_int i = (if i < 0 then CHR ''-'' # str_nat (nat (- i)) else str_nat (nat i))"

lemma str_nat_nonempty [simp]: "str_nat n \<noteq> []"
  by (subst str_nat.simps) simp

lemma str_nat_digits: "c \<in> set (str_nat n) \<Longrightarrow> is_digit c"
proof (induction n rule: str_nat.induct)
  case (1 n)
  then show ?case
    by (cases "n < 10") (auto simp: str_nat.simps [of n])
qed

lemma digits_val_str_nat:
  "digits_val acc ok (str_nat n @ t) = digits_val (acc * 10 ^ length (str_nat n) + n) True t"
proof (induction n arbitrary: acc ok t rule: str_nat.induct)
  case (1 n)
  show ?case
  proof (cases "n < 10")
    case True
    then show ?thesis by (simp add: str_nat.simps [of n] mult.commute)
  next
    case False
    have arith: "10 * (acc * 10 ^ k + n div 10) + n mod 10 = acc * (10 * 10 ^ k) + n" for k :: nat
    proof -
      have "10 * (n div 10) + n mod 10 = n" by simp
      then show ?thesis by (simp add: algebra_simps)
    qed
    have "digits_val acc ok (str_nat n @ t) =
        digits_val (10 * (acc * 10 ^ length (str_nat (n div 10)) + n div 10) + n mod 10) True t"
      using False "1.IH" [of acc ok "digit_char (n mod 10) # t"] by (simp add: str_nat.simps [of n])
    also have "\<dots> = digits_val (acc * 10 ^ length (str_nat n) + n) True t"
      using False by (simp only: arith) (simp add: str_nat.simps [of n])
    finally show ?thesis .
  qed
qed

lemma nat_res_str_nat [simp]: "nat_res (str_nat n) = Inr n"
  using digits_val_str_nat [of 0 False n "[]"] by (simp add: nat_res_def)

lemma str_int_nonempty [simp]: "str_int i \<noteq> []"
  by (simp add: str_int_def)

lemma set_str_int: "c \<in> set (str_int i) \<Longrightarrow> is_digit c \<or> c = CHR ''-''"
  by (auto simp: str_int_def dest: str_nat_digits split: if_splits)

lemma str_int_notin: "\<not> is_digit c \<Longrightarrow> c \<noteq> CHR ''-'' \<Longrightarrow> c \<notin> set (str_int i)"
  using set_str_int by blast

lemma str_int_no [simp, str_simps]:
  "CHR ''$'' \<notin> set (str_int i)" "CHR '':'' \<notin> set (str_int i)" "CHR ''/'' \<notin> set (str_int i)"
  "CHR '' '' \<notin> set (str_int i)" "CHR 0x0A \<notin> set (str_int i)" "CHR ''e'' \<notin> set (str_int i)"
  by (rule str_int_notin; simp add: is_digit_def)+

lemma digit_sign_no_space:
  assumes "is_digit c \<or> c = CHR ''-''"
  shows "\<not> is_space c" and "\<not> is_bspace c"
proof -
  have "\<not> is_space CHR ''-'' \<and> \<not> is_bspace CHR ''-''" by (simp add: is_space_def is_bspace_def)
  then show "\<not> is_space c" and "\<not> is_bspace c"
    using assms is_digit_nonspecial(1,2) [of c] by blast+
qed

lemma str_int_no_space: "c \<in> set (str_int i) \<Longrightarrow> \<not> is_space c \<and> \<not> is_bspace c"
  using set_str_int digit_sign_no_space by blast

lemma py_int_with_str_int:
  assumes "\<And>c. is_digit c \<or> c = CHR ''-'' \<Longrightarrow> \<not> P c"
  shows "py_int_with P (str_int i) = Inr i"
proof -
  have "stripped P (str_int i)"
    unfolding stripped_def using assms set_str_int by (meson hd_in_set last_in_set)
  then have strip: "strip P (str_int i) = str_int i" by simp
  show ?thesis
  proof (cases "i < 0")
    case True
    then show ?thesis using strip by (simp add: py_int_with_def str_int_def)
  next
    case False
    obtain c r where cr: "str_nat (nat i) = c # r"
      by (meson str_nat_nonempty neq_Nil_conv)
    then have "is_digit c" using str_nat_digits [of c "nat i"] by simp
    then have "c \<noteq> CHR ''-''" "c \<noteq> CHR ''+''" by (auto dest: is_digit_nonspecial)
    then show ?thesis
      using strip False cr nat_res_str_nat [of "nat i"] by (simp add: py_int_with_def str_int_def)
  qed
qed

lemma py_int_str_int [simp, str_simps]: "py_int (str_int i) = Inr i"
  unfolding py_int_def by (rule py_int_with_str_int, rule digit_sign_no_space(1))

lemma py_int_bytes_str_int [simp, str_simps]: "py_int_bytes (str_int i) = Inr i"
  unfolding py_int_bytes_def by (rule py_int_with_str_int, rule digit_sign_no_space(2))

lemma str_int_inj [simp]: "str_int i = str_int j \<longleftrightarrow> i = j"
  by (metis py_int_str_int sum.inject(2))

lemma py_int_raises: "py_int s = Inl e \<Longrightarrow> e = ValueError"
  by (auto simp: py_int_def py_int_with_def nat_res_def res_simps split: list.splits if_splits option.splits)

lemma py_int_Nil [simp]: "py_int [] = Inl ValueError"
  by (simp add: py_int_def py_int_with_def)

text \<open>A non-negative result can only come from a text with a digit.\<close>

lemma digits_val_nonempty: "digits_val acc False s = Some n \<Longrightarrow> s \<noteq> []"
  by (cases s) auto

end
