(* ===== verification/CmdTalk.thy ===== *)
theory CmdTalk
  imports PyInt
begin

text \<open>
  The pipe protocol between upmpdcli and its media server plugins
  (\<open>pycommon/cmdtalk.py\<close>, \<open>pycommon/cmdtalkplugin.py\<close>). The standard input is the list of the
  bytes not read yet; reading a parameter returns what is left. The answers are the bytes
  written. The plugin's own code (\<open>processor.process\<close>) is a function of its state, which
  returns a dictionary or raises.
\<close>

type_synonym bytes = string
type_synonym params = "(string \<times> string) list"
type_synonym fields = "(string \<times> string option) list"

section \<open>Reading\<close>

definition makebytes :: "string option \<Rightarrow> bytes" where
  "makebytes data = (case data of None \<Rightarrow> [] | Some d \<Rightarrow> d)"

text \<open>\<open>readline\<close>: up to and including the first newline, and what follows it.\<close>

fun readline :: "bytes \<Rightarrow> bytes \<times> bytes" where
  "readline [] = ([], [])"
| "readline (c # s) =
     (if c = CHR 0x0A then ([c], s) else (case readline s of (l, r) \<Rightarrow> (c # l, r)))"

definition readparam :: "bool \<Rightarrow> bytes \<Rightarrow> ((string \<times> string) \<times> bytes) res" where
  "readparam nodecodeinput inp =
     (case readline inp of (line, rest) \<Rightarrow>
       if line = [] then Inl (SystemExit 0)
       else let s = rstrip (\<lambda>c. c = CHR 0x0A) line in
         if s = [] then Inr (([], []), rest)
         else let l = split_ws is_bspace s in
           if length l \<noteq> 2 then Inl (SystemExit 1)
           else if \<not> is_ascii (l ! 0) then Inl ValueError
           else let paramname = rstrip (\<lambda>c. c = CHR '':'') (l ! 0) in
             bindR (py_int_bytes (l ! 1)) (\<lambda>paramsize.
               if 0 < paramsize \<and> length rest < nat paramsize then Inl (SystemExit 1)
               else let paramdata = take (nat paramsize) rest;
                        value = (if \<not> nodecodeinput \<and> \<not> valid_utf8 paramdata then [] else paramdata)
                    in Inr ((paramname, value), drop (nat paramsize) rest)))"

text \<open>One message: at most \<open>n\<close> parameters, up to an empty parameter name.\<close>

fun readmessage :: "nat \<Rightarrow> bool \<Rightarrow> params \<Rightarrow> bytes \<Rightarrow> (params \<times> bytes) res" where
  "readmessage 0 nodec params inp = Inr (params, inp)"
| "readmessage (Suc n) nodec params inp =
     bindR (readparam nodec inp) (\<lambda>((paramname, paramdata), rest).
       if paramname = [] then Inr (params, rest)
       else readmessage n nodec (AList.update paramname paramdata params) rest)"

section \<open>Writing\<close>

definition senditem :: "string \<Rightarrow> string option \<Rightarrow> bytes" where
  "senditem nm data =
     (let d = makebytes data in nm @ '': '' @ str_int (int (length d)) @ [CHR 0x0A] @ d)"

definition answer :: "fields \<Rightarrow> bytes" where
  "answer outfields = concat (map (\<lambda>(nm, value). senditem nm value) outfields) @ [CHR 0x0A]"

section \<open>The message loop\<close>

type_synonym 'st processor = "params \<Rightarrow> 'st \<Rightarrow> 'st \<times> fields res"

text \<open>What the processor raised is answered, as a status and a text (\<open>str(err)\<close>), but for an exit, which is
  not an \<open>Exception\<close> and ends the plugin without an answer.\<close>

definition error_fields :: "(py_error \<Rightarrow> string) \<Rightarrow> py_error \<Rightarrow> fields" where
  "error_fields errstr err =
     [(''cmdtalkstatus'', Some ''1''), (''cmdtalkerrstr'', Some (errstr err))]"

definition processmessage ::
  "(py_error \<Rightarrow> string) \<Rightarrow> 'st processor \<Rightarrow> params \<Rightarrow> 'st \<Rightarrow> 'st \<times> bytes res" where
  "processmessage errstr process params st =
     (case process params st of
        (st', Inr outfields) \<Rightarrow> (st', Inr (answer outfields))
      | (st', Inl (SystemExit status)) \<Rightarrow> (st', Inl (SystemExit status))
      | (st', Inl err) \<Rightarrow> (st', Inr (answer (error_fields errstr err))))"

lemma readline_length: "length (fst (readline s)) + length (snd (readline s)) = length s"
  by (induction s) (auto split: prod.splits)

lemma readline_eq_Nil: "fst (readline s) = [] \<longleftrightarrow> s = []"
  by (cases s) (auto split: prod.splits)

lemma readparam_shorter: "readparam nd inp = Inr (p, rest) \<Longrightarrow> length rest < length inp"
proof -
  assume r: "readparam nd inp = Inr (p, rest)"
  obtain line rest0 where l: "readline inp = (line, rest0)" by fastforce
  with r have "line \<noteq> []" by (auto simp: readparam_def)
  then have "length rest0 < length inp" using readline_length [of inp] l by (cases line) auto
  moreover have "length rest \<le> length rest0"
    using r l by (auto simp: readparam_def Let_def bindR_eq_Inr split: if_splits)
  ultimately show ?thesis by simp
qed

lemma readmessage_le: "readmessage n nd params inp = Inr (ps, rest) \<Longrightarrow> length rest \<le> length inp"
proof (induction n arbitrary: params inp)
  case (Suc n)
  then show ?case
    by (fastforce simp: bindR_eq_Inr split: if_splits dest: readparam_shorter)
qed simp

lemma readmessage_shorter:
  "readmessage (Suc n) nd params inp = Inr (ps, rest) \<Longrightarrow> length rest < length inp"
  by (fastforce simp: bindR_eq_Inr split: if_splits dest: readparam_shorter readmessage_le)

text \<open>
  The loop ends only by an exit or by an error of the protocol, which the result keeps; it
  terminates because every message takes at least one byte from the input.
\<close>

function mainloop ::
  "bool \<Rightarrow> (py_error \<Rightarrow> string) \<Rightarrow> 'st processor \<Rightarrow> 'st \<Rightarrow> bytes \<Rightarrow> 'st \<times> bytes \<times> py_error" where
  "mainloop nd errstr process st inp =
     (case readmessage 10 nd [] inp of
        Inl e \<Rightarrow> (st, [], e)
      | Inr (params, rest) \<Rightarrow>
          (case processmessage errstr process params st of
             (st', Inl e) \<Rightarrow> (st', [], e)
           | (st', Inr out) \<Rightarrow>
               (case mainloop nd errstr process st' rest of (st'', out', e) \<Rightarrow> (st'', out @ out', e))))"
  by pat_completeness auto
termination
  by (relation "measure (\<lambda>(nd, errstr, process, st, inp). length inp)")
    (auto intro: readmessage_shorter [of 9, simplified] simp: eval_nat_numeral)

declare mainloop.simps [simp del]

section \<open>The dispatcher\<close>

type_synonym ('st) handlers = "(string \<times> (params \<Rightarrow> 'st \<Rightarrow> 'st \<times> fields res)) list"

definition dispatch_record ::
  "string \<Rightarrow> (params \<Rightarrow> 'st \<Rightarrow> 'st \<times> fields res) \<Rightarrow> 'st handlers \<Rightarrow> 'st handlers" where
  "dispatch_record nm func m = AList.update nm func m"

definition dispatch_run :: "'st handlers \<Rightarrow> string \<Rightarrow> 'st processor" where
  "dispatch_run m nm params st =
     (case map_of m nm of None \<Rightarrow> (st, Inl KeyError) | Some func \<Rightarrow> func params st)"

definition prcnmkey :: string where
  "prcnmkey = ''cmdtalk:proc''"

definition processor_process :: "'st handlers \<Rightarrow> 'st processor" where
  "processor_process m params st =
     (case map_of params prcnmkey of
        None \<Rightarrow> (st, Inl (Raised (prcnmkey @ '' not in args'')))
      | Some nm \<Rightarrow> dispatch_run m nm params st)"

section \<open>Chunked writes\<close>

text \<open>On Windows a write is broken up: the list of the chunks written, in order. The loop's
  variables are the bytes left and the offset.\<close>

fun breakwrite_loop :: "nat \<Rightarrow> nat \<Rightarrow> bytes \<Rightarrow> bytes list" where
  "breakwrite_loop tot offset data =
     (if 0 < tot
      then (let tow = (if tot < 4096 then tot else 4096)
            in take tow (drop offset data) # breakwrite_loop (tot - tow) (offset + tow) data)
      else [])"

declare breakwrite_loop.simps [simp del]

definition breakwrite :: "bool \<Rightarrow> bytes \<Rightarrow> bytes list" where
  "breakwrite win32 data = (if win32 then breakwrite_loop (length data) 0 data else [data])"

lemma breakwrite_loop_concat:
  "offset + tot = length data \<Longrightarrow> concat (breakwrite_loop tot offset data) = drop offset data"
proof (induction tot offset data rule: breakwrite_loop.induct)
  case (1 tot offset data)
  show ?case
  proof (cases "0 < tot")
    case True
    define tow where "tow = (if tot < 4096 then tot else 4096)"
    have "tow \<le> tot" by (simp add: tow_def)
    then have "concat (breakwrite_loop (tot - tow) (offset + tow) data) = drop (offset + tow) data"
      using "1.IH" [OF True tow_def] "1.prems" by simp
    then show ?thesis
      using True by (simp add: breakwrite_loop.simps [of tot] tow_def [symmetric] Let_def)
        (metis add.commute append_take_drop_id drop_drop)
  next
    case False
    with "1.prems" show ?thesis by (subst breakwrite_loop.simps) simp
  qed
qed

lemma breakwrite_loop_chunks: "c \<in> set (breakwrite_loop tot offset data) \<Longrightarrow> length c \<le> 4096"
proof (induction tot offset data rule: breakwrite_loop.induct)
  case (1 tot offset data)
  then show ?case
    by (subst (asm) breakwrite_loop.simps) (auto simp: Let_def split: if_splits)
qed

text \<open>Breaking a write up loses, repeats and reorders nothing, and on Windows no chunk is larger
  than 4096 bytes.\<close>

theorem breakwrite_writes_data:
  "concat (breakwrite win32 data) = data \<and>
   (if win32 then list_all (\<lambda>c. length c \<le> 4096) (breakwrite win32 data) else True)"
  using breakwrite_loop_concat [of 0 "length data" data] breakwrite_loop_chunks
  by (auto simp: breakwrite_def list_all_iff)

section \<open>Round trips\<close>

text \<open>A parameter name that the protocol can carry.\<close>

definition good_name :: "string \<Rightarrow> bool" where
  "good_name nm \<longleftrightarrow>
     nm \<noteq> [] \<and> is_ascii nm \<and> list_all (\<lambda>c. \<not> is_bspace c) nm \<and> last nm \<noteq> CHR '':''"

definition good_message :: "bool \<Rightarrow> params \<Rightarrow> bool" where
  "good_message nodec ps \<longleftrightarrow>
     distinct (map fst ps) \<and> list_all (\<lambda>(nm, d). good_name nm \<and> (nodec \<or> valid_utf8 d)) ps"

definition enc_message :: "params \<Rightarrow> bytes" where
  "enc_message ps = answer (map (\<lambda>(nm, d). (nm, Some d)) ps)"

lemma readline_append:
  "CHR 0x0A \<notin> set a \<Longrightarrow> readline (a @ CHR 0x0A # b) = (a @ [CHR 0x0A], b)"
  by (induction a) auto

lemma good_name_no_newline: "good_name nm \<Longrightarrow> CHR 0x0A \<notin> set nm"
  by (auto simp: good_name_def list_all_iff is_bspace_def)

lemma is_ascii_append [simp]: "is_ascii (a @ b) \<longleftrightarrow> is_ascii a \<and> is_ascii b"
  by (simp add: is_ascii_def)

lemma rstrip_newline_line:
  "CHR 0x0A \<notin> set (s @ str_int k) \<Longrightarrow> rstrip (\<lambda>c. c = CHR 0x0A) (s @ str_int k @ [CHR 0x0A]) = s @ str_int k"
proof -
  assume no: "CHR 0x0A \<notin> set (s @ str_int k)"
  have "rstrip (\<lambda>c. c = CHR 0x0A) (s @ str_int k @ [CHR 0x0A]) = rstrip (\<lambda>c. c = CHR 0x0A) (s @ str_int k)"
    by (simp add: rstrip_def)
  also have "\<dots> = s @ str_int k"
    by (rule rstrip_last) (simp, metis no last_in_set append_is_Nil_conv str_int_nonempty)
  finally show ?thesis .
qed

lemma readparam_senditem:
  assumes "good_name nm" and "nodec \<or> valid_utf8 d"
  shows "readparam nodec (senditem nm (Some d) @ rest) = Inr ((nm, d), rest)"
proof -
  let ?k = "str_int (int (length d))"
  let ?line = "nm @ '': '' @ ?k"
  have no: "CHR 0x0A \<notin> set ?line" using good_name_no_newline [OF assms(1)] by simp
  have rl: "readline (senditem nm (Some d) @ rest) = (?line @ [CHR 0x0A], d @ rest)"
    using readline_append [OF no, of "d @ rest"] by (simp add: senditem_def makebytes_def Let_def)
  have rs: "rstrip (\<lambda>c. c = CHR 0x0A) (?line @ [CHR 0x0A]) = ?line"
    using rstrip_newline_line [of "nm @ '': ''"] no by simp
  have nmb: "\<forall>c \<in> set nm. \<not> is_bspace c" using assms(1) by (simp add: good_name_def list_all_iff)
  have sp: "split_ws is_bspace ?line = [nm @ '':'', ?k]"
    using split_ws_two [of "nm @ '':''" is_bspace ?k "CHR '' ''"] nmb str_int_no_space
    by (simp add: is_bspace_def)
  have nm': "rstrip (\<lambda>c. c = CHR '':'') (nm @ '':'') = nm"
    using assms(1) rstrip_last [of nm] by (simp add: rstrip_def good_name_def)
  show ?thesis
    using assms rl rs sp nm' by (auto simp: readparam_def Let_def good_name_def is_ascii_def)
qed

lemma readparam_end: "readparam nodec (CHR 0x0A # rest) = Inr (([], []), rest)"
  by (simp add: readparam_def rstrip_def)

lemma answer_Cons: "answer ((nm, v) # fs) = senditem nm v @ answer fs"
  by (simp add: answer_def)

lemma readmessage_enc:
  assumes "length ps < n" and "good_message nodec (qs @ ps)"
  shows "readmessage n nodec qs (enc_message ps @ rest) = Inr (qs @ ps, rest)"
  using assms
proof (induction ps arbitrary: n qs)
  case Nil
  then obtain m where "n = Suc m" by (cases n) auto
  then show ?case by (simp add: enc_message_def answer_def readparam_end)
next
  case (Cons p ps)
  obtain nm d where p: "p = (nm, d)" by fastforce
  obtain m where n: "n = Suc m" using Cons.prems(1) by (cases n) auto
  have good: "good_name nm" "nodec \<or> valid_utf8 d" "nm \<notin> fst ` set qs"
    using Cons.prems(2) p by (auto simp: good_message_def)
  have "nm \<noteq> []" using good(1) by (simp add: good_name_def)
  have "readmessage n nodec qs (enc_message (p # ps) @ rest) =
      readmessage m nodec (qs @ [p]) (enc_message ps @ rest)"
    using readparam_senditem [OF good(1,2)] \<open>nm \<noteq> []\<close>
    by (simp add: n p enc_message_def answer_Cons dict_set_new [OF good(3)])
  also have "\<dots> = Inr ((qs @ [p]) @ ps, rest)"
    by (rule Cons.IH) (use Cons.prems n in auto)
  finally show ?case by simp
qed

text \<open>
  What a server loop needs of the framing of its messages: a message written is read back and
  what follows it is left; the end of the input ends the loop. The client's side is any loop
  that reads, serves and goes on.
\<close>

fun serve :: "('m \<Rightarrow> 'st \<Rightarrow> 'st \<times> bytes res) \<Rightarrow> 'st \<Rightarrow> 'm list \<Rightarrow> 'st \<times> bytes \<times> py_error" where
  "serve handle st [] = (st, [], SystemExit 0)"
| "serve handle st (m # ms) =
     (case handle m st of
        (st', Inl e) \<Rightarrow> (st', [], e)
      | (st', Inr out) \<Rightarrow> (case serve handle st' ms of (st'', out', e) \<Rightarrow> (st'', out @ out', e)))"

text \<open>The answers of a processor that never exits: one for each message, in order.\<close>

fun answers :: "(py_error \<Rightarrow> string) \<Rightarrow> 'st processor \<Rightarrow> 'st \<Rightarrow> params list \<Rightarrow> 'st \<times> bytes list" where
  "answers errstr process st [] = (st, [])"
| "answers errstr process st (m # ms) =
     (case process m st of (st', r) \<Rightarrow> (case answers errstr process st' ms of (st'', outs) \<Rightarrow>
        (st'', (case r of Inr outfields \<Rightarrow> answer outfields | Inl err \<Rightarrow> answer (error_fields errstr err)) # outs)))"

lemma serve_answers:
  assumes "\<forall>ps st status. snd (process ps st) \<noteq> Inl (SystemExit status)"
  shows "serve (processmessage errstr process) st ms =
    (fst (answers errstr process st ms), concat (snd (answers errstr process st ms)), SystemExit 0)"
proof (induction ms arbitrary: st)
  case (Cons m ms)
  obtain st' r where p: "process m st = (st', r)" by fastforce
  obtain st'' outs where a: "answers errstr process st' ms = (st'', outs)" by fastforce
  have "processmessage errstr process m st =
      (st', Inr (case r of Inr outfields \<Rightarrow> answer outfields | Inl err \<Rightarrow> answer (error_fields errstr err)))"
    using assms [rule_format, of m st] p
    by (auto simp: processmessage_def split: sum.splits py_error.splits)
  with Cons.IH [of st'] a p show ?case by simp
qed simp

locale framing =
  fixes enc :: "'m \<Rightarrow> bytes"
    and dec :: "bytes \<Rightarrow> ('m \<times> bytes) res"
    and good :: "'m \<Rightarrow> bool"
  assumes dec_enc: "good m \<Longrightarrow> dec (enc m @ rest) = Inr (m, rest)"
    and dec_end: "dec [] = Inl (SystemExit 0)"
begin

lemma loop_serves:
  assumes loop: "\<And>st inp. loop st inp =
      (case dec inp of Inl e \<Rightarrow> (st, [], e)
       | Inr (m, rest) \<Rightarrow> (case handle m st of
             (st', Inl e) \<Rightarrow> (st', [], e)
           | (st', Inr out) \<Rightarrow> (case loop st' rest of (st'', out', e) \<Rightarrow> (st'', out @ out', e))))"
    and "list_all good ms"
  shows "loop st (concat (map enc ms)) = serve handle st ms"
  using assms(2)
proof (induction ms arbitrary: st)
  case Nil
  show ?case by (subst loop) (simp add: dec_end)
next
  case (Cons m ms)
  have d: "dec (concat (map enc (m # ms))) = Inr (m, concat (map enc ms))" using Cons.prems by (simp add: dec_enc)
  show ?case
    by (subst loop) (use Cons.prems Cons.IH in \<open>simp add: d split: prod.splits sum.splits del: list.map concat.simps\<close>)
qed

end

lemma readmessage_end: "readmessage 10 nodec [] [] = Inl (SystemExit 0)"
  by (simp add: eval_nat_numeral readparam_def)

interpretation cmdtalk: framing enc_message "readmessage 10 nodec []"
    "\<lambda>ps. length ps < 10 \<and> good_message nodec ps" for nodec
proof unfold_locales
  show "readmessage 10 nodec [] (enc_message m @ rest) = Inr (m, rest)"
    if "length m < 10 \<and> good_message nodec m" for m rest
    using readmessage_enc [of m 10 nodec "[]"] that by simp
qed (rule readmessage_end)

text \<open>C1. The plugin serves the requests of its parent one by one and in order: on an input made
  of well-formed requests of fewer than ten parameters it calls the processor once for each, with
  exactly the parameters that were sent, writes exactly one answer for each, and then exits with
  status 0. Only a processor that exits ends the plugin earlier, after the answers to the requests before.\<close>

theorem mainloop_serves_requests:
  assumes "list_all (\<lambda>ps. length ps < 10 \<and> good_message nodec ps) ms"
  shows "mainloop nodec errstr process st (concat (map enc_message ms)) = serve (processmessage errstr process) st ms \<and>
    ((\<forall>ps st status. snd (process ps st) \<noteq> Inl (SystemExit status)) \<longrightarrow>
       mainloop nodec errstr process st (concat (map enc_message ms)) =
         (fst (answers errstr process st ms), concat (snd (answers errstr process st ms)), SystemExit 0))"
proof -
  have "mainloop nodec errstr process st (concat (map enc_message ms)) = serve (processmessage errstr process) st ms"
    by (rule cmdtalk.loop_serves [where loop = "mainloop nodec errstr process", OF _ assms])
      (subst mainloop.simps, rule refl)
  then show ?thesis using serve_answers by metis
qed

definition echo_process :: "int processor" where
  "echo_process ps st = (st + 1, (case map_of ps ''objid'' of
      None \<Rightarrow> Inl KeyError | Some v \<Rightarrow> Inr [(''id'', Some v)]))"

definition demo_requests :: "params list" where
  "demo_requests = [[(''cmdtalk:proc'', ''browse''), (''objid'', ''0$x'')], [(''flag'', ''meta'')]]"

theorem mainloop_serves_requests_witness:
  "list_all (\<lambda>ps. length ps < 10 \<and> good_message False ps) demo_requests \<and>
   mainloop False (\<lambda>_. ''err'') echo_process 5 (concat (map enc_message demo_requests)) =
    (7, answer [(''id'', Some ''0$x'')] @ answer [(''cmdtalkstatus'', Some ''1''), (''cmdtalkerrstr'', Some ''err'')],
     SystemExit 0)"
proof -
  have h: "list_all (\<lambda>ps. length ps < 10 \<and> good_message False ps) demo_requests"
    by code_simp
  show ?thesis
    using h mainloop_serves_requests [OF h, of "\<lambda>_. ''err''" echo_process 5]
    by (simp add: demo_requests_def echo_process_def error_fields_def split: option.splits)
qed

text \<open>The bound of ten parameters: of a request of exactly ten, all are delivered, but its
  terminating empty line is left in the input and is then read as one more, empty, request.\<close>

theorem readmessage_ten_parameters:
  assumes "length ps = 10" and "good_message nodec ps"
  shows "readmessage 10 nodec [] (enc_message ps @ rest) = Inr (ps, CHR 0x0A # rest) \<and>
    readmessage 10 nodec [] (CHR 0x0A # rest) = Inr ([], rest)"
proof -
  have "readmessage (length ps) nodec qs (enc_message ps @ rest) = Inr (qs @ ps, CHR 0x0A # rest)"
    if "good_message nodec (qs @ ps)" for qs
    using that
  proof (induction ps arbitrary: qs)
    case Nil
    show ?case by (simp add: enc_message_def answer_def)
  next
    case (Cons p ps)
    obtain nm d where p: "p = (nm, d)" by fastforce
    have good: "good_name nm" "nodec \<or> valid_utf8 d" "nm \<notin> fst ` set qs"
      using Cons.prems p by (auto simp: good_message_def)
    have "nm \<noteq> []" using good(1) by (simp add: good_name_def)
    then show ?case
      using Cons.IH [of "qs @ [p]"] Cons.prems readparam_senditem [OF good(1,2)]
      by (simp add: p enc_message_def answer_Cons dict_set_new [OF good(3)])
  qed
  from this [of "[]"] assms show ?thesis by (simp add: readparam_end eval_nat_numeral)
qed

definition ten_params :: params where
  "ten_params = map (\<lambda>i. (''p'' @ str_nat i, ''v'')) [0..<10]"

theorem readmessage_ten_parameters_witness:
  "length ten_params = 10 \<and> good_message False ten_params \<and>
   readmessage 10 False [] (enc_message ten_params @ []) = Inr (ten_params, [CHR 0x0A])"
proof -
  have h: "length ten_params = 10" "good_message False ten_params" by code_simp+
  show ?thesis using h readmessage_ten_parameters [OF h, of "[]"] by simp
qed

end
