(* ===== verification/ConfStrings.thy ===== *)
theory ConfStrings
  imports PyInt
begin

text \<open>
  Lists of strings in configuration values (\<open>pycommon/conftree.py\<close>): \<open>stringToStrings\<close>,
  \<open>stringsToString\<close> and \<open>valToBool\<close>. \<open>stringToStrings\<close> drives Python's \<open>shlex\<close> in POSIX mode with
  \<open>whitespace_split\<close>, so the tokenizer of that library is written out for that mode.
\<close>

section \<open>The tokenizer\<close>

record shlex_conf =
  sh_quotes :: string
  sh_escape :: string
  sh_escapedquotes :: string
  sh_whitespace :: string

definition shlex_default :: shlex_conf where
  "shlex_default = \<lparr>sh_quotes = [CHR 0x27, CHR 0x22], sh_escape = [CHR 0x5C],
     sh_escapedquotes = [CHR 0x22], sh_whitespace = [CHR '' '', CHR 0x09, CHR 0x0D, CHR 0x0A]\<rparr>"

datatype shlex_state =
    Space
  | Word
  | Quote char
  | EscWord char
  | EscQuote char char

fun skip_line :: "string \<Rightarrow> string" where
  "skip_line [] = []"
| "skip_line (c # s) = (if c = CHR 0x0A then s else skip_line s)"

lemma skip_line_length [termination_simp]: "length (skip_line s) \<le> length s"
  by (induction s) auto

lemma skip_line_less [termination_simp]: "length (skip_line s) < Suc (length s)"
  using skip_line_length [of s] by simp

text \<open>The reader of tokens takes an empty token for the end.\<close>

definition emit :: "string \<Rightarrow> string list res \<Rightarrow> string list res" where
  "emit tok rest = (if tok = [] then Inr [] else bindR rest (\<lambda>ts. Inr (tok # ts)))"

lemma emit_cong [fundef_cong]: "tok = tok' \<Longrightarrow> rest = rest' \<Longrightarrow> emit tok rest = emit tok' rest'"
  by simp

fun shlex_run :: "shlex_conf \<Rightarrow> shlex_state \<Rightarrow> string \<Rightarrow> bool \<Rightarrow> string \<Rightarrow> string list res" where
  "shlex_run cf Space tok quoted [] = Inr []"
| "shlex_run cf Space tok quoted (c # s) =
     (if c \<in> set (sh_whitespace cf) then shlex_run cf Space [] False s
      else if c = CHR ''#'' then shlex_run cf Space [] False (skip_line s)
      else if c \<in> set (sh_escape cf) then shlex_run cf (EscWord c) [] False s
      else if c \<in> set (sh_quotes cf) then shlex_run cf (Quote c) [] False s
      else shlex_run cf Word [c] False s)"
| "shlex_run cf Word tok quoted [] = emit tok (Inr [])"
| "shlex_run cf Word tok quoted (c # s) =
     (if c \<in> set (sh_whitespace cf) then
        (if tok \<noteq> [] \<or> quoted then emit tok (shlex_run cf Space [] False s)
         else shlex_run cf Space [] False s)
      else if c = CHR ''#'' then
        (if tok \<noteq> [] \<or> quoted then emit tok (shlex_run cf Space [] False (skip_line s))
         else shlex_run cf Space [] False (skip_line s))
      else if c \<in> set (sh_quotes cf) then shlex_run cf (Quote c) tok quoted s
      else if c \<in> set (sh_escape cf) then shlex_run cf (EscWord c) tok quoted s
      else shlex_run cf Word (tok @ [c]) quoted s)"
| "shlex_run cf (Quote q) tok quoted [] = Inl ValueError"
| "shlex_run cf (Quote q) tok quoted (c # s) =
     (if c = q then shlex_run cf Word tok True s
      else if c \<in> set (sh_escape cf) \<and> q \<in> set (sh_escapedquotes cf)
      then shlex_run cf (EscQuote c q) tok True s
      else shlex_run cf (Quote q) (tok @ [c]) True s)"
| "shlex_run cf (EscWord e) tok quoted [] = Inl ValueError"
| "shlex_run cf (EscWord e) tok quoted (c # s) = shlex_run cf Word (tok @ [c]) quoted s"
| "shlex_run cf (EscQuote e q) tok quoted [] = Inl ValueError"
| "shlex_run cf (EscQuote e q) tok quoted (c # s) =
     shlex_run cf (Quote q) (if c \<noteq> e \<and> c \<noteq> q then tok @ [e, c] else tok @ [c]) quoted s"

section \<open>Splitting and joining\<close>

definition stringToStrings ::
  "string \<Rightarrow> string option \<Rightarrow> string option \<Rightarrow> string option \<Rightarrow> string option \<Rightarrow> string list res" where
  "stringToStrings s quotes escape escapedquotes whitespace =
     (let cf = shlex_default;
          cf = (case quotes of None \<Rightarrow> cf | Some q \<Rightarrow> cf\<lparr>sh_quotes := q\<rparr>);
          cf = (case escape of None \<Rightarrow> cf | Some e \<Rightarrow> cf\<lparr>sh_escape := e\<rparr>);
          cf = (case escapedquotes of None \<Rightarrow> cf | Some e \<Rightarrow> cf\<lparr>sh_escapedquotes := e\<rparr>);
          cf = (case whitespace of None \<Rightarrow> cf | Some w \<Rightarrow> cf\<lparr>sh_whitespace := w\<rparr>)
      in shlex_run cf Space [] False s)"

text \<open>The call with the default arguments.\<close>

definition stringToStrings_dflt :: "string \<Rightarrow> string list res" where
  "stringToStrings_dflt s =
     stringToStrings s (Some [CHR 0x22]) (Some [CHR 0x5C]) (Some [CHR 0x22]) None"

definition needs_quotes :: "string \<Rightarrow> bool" where
  "needs_quotes s \<longleftrightarrow>
     CHR '' '' \<in> set s \<or> CHR 0x09 \<in> set s \<or> CHR 0x5C \<in> set s \<or> CHR 0x22 \<in> set s"

definition quote_string :: "string \<Rightarrow> string" where
  "quote_string s =
     (if needs_quotes s
      then [CHR 0x22] @ replace_char (CHR 0x22) [CHR 0x5C, CHR 0x22]
             (replace_char (CHR 0x5C) [CHR 0x5C, CHR 0x5C] s) @ [CHR 0x22]
      else s)"

definition stringsToString :: "string list \<Rightarrow> string" where
  "stringsToString vs = join_with '' '' (map quote_string vs)"

text \<open>Truth values: an integer other than 0, or a first letter among \<open>tTyY\<close>.\<close>

definition valToBool :: "string \<Rightarrow> bool" where
  "valToBool s =
     (case s of
        [] \<Rightarrow> False
      | c # _ \<Rightarrow>
          (case py_int s of
             Inr val \<Rightarrow> val \<noteq> 0
           | Inl _ \<Rightarrow> c \<in> {CHR ''t'', CHR ''T'', CHR ''y'', CHR ''Y''}))"

section \<open>Round trip\<close>

definition dflt_conf :: shlex_conf where
  "dflt_conf = \<lparr>sh_quotes = [CHR 0x22], sh_escape = [CHR 0x5C], sh_escapedquotes = [CHR 0x22],
     sh_whitespace = [CHR '' '', CHR 0x09, CHR 0x0D, CHR 0x0A]\<rparr>"

lemma stringToStrings_dflt_run: "stringToStrings_dflt s = shlex_run dflt_conf Space [] False s"
  by (simp add: stringToStrings_dflt_def stringToStrings_def shlex_default_def dflt_conf_def)

definition esc_char :: "char \<Rightarrow> string" where
  "esc_char c = (if c = CHR 0x5C then [CHR 0x5C, CHR 0x5C]
                 else if c = CHR 0x22 then [CHR 0x5C, CHR 0x22] else [c])"

lemma escape_chars:
  "replace_char (CHR 0x22) [CHR 0x5C, CHR 0x22] (replace_char (CHR 0x5C) [CHR 0x5C, CHR 0x5C] s) =
   concat (map esc_char s)"
  by (induction s) (auto simp: replace_char_def esc_char_def)

lemma shlex_quoted_body:
  "shlex_run dflt_conf (Quote (CHR 0x22)) tok quoted (concat (map esc_char s) @ CHR 0x22 # rest) =
   shlex_run dflt_conf Word (tok @ s) True rest"
proof (induction s arbitrary: tok quoted)
  case Nil
  show ?case by (simp add: dflt_conf_def)
next
  case (Cons c s)
  then show ?case by (auto simp: esc_char_def dflt_conf_def)
qed

text \<open>A string that can be written as one word of a list: quoted, or free of comment signs and
  line ends.\<close>

definition good_word :: "string \<Rightarrow> bool" where
  "good_word s \<longleftrightarrow> s \<noteq> [] \<and>
     (needs_quotes s \<or> (CHR ''#'' \<notin> set s \<and> CHR 0x0A \<notin> set s \<and> CHR 0x0D \<notin> set s))"

lemma shlex_plain_word:
  assumes "\<not> needs_quotes s" and "CHR ''#'' \<notin> set s" and "CHR 0x0A \<notin> set s" and "CHR 0x0D \<notin> set s"
  shows "shlex_run dflt_conf Word tok quoted (s @ rest) = shlex_run dflt_conf Word (tok @ s) quoted rest"
  using assms
  by (induction s arbitrary: tok) (auto simp: needs_quotes_def dflt_conf_def)

lemma shlex_word:
  assumes "good_word s"
  shows "shlex_run dflt_conf Space [] False (quote_string s @ rest) =
    shlex_run dflt_conf Word s (needs_quotes s) rest"
proof (cases "needs_quotes s")
  case True
  have "shlex_run dflt_conf Space [] False (quote_string s @ rest) =
      shlex_run dflt_conf (Quote (CHR 0x22)) [] False (concat (map esc_char s) @ CHR 0x22 # rest)"
    using True by (simp add: quote_string_def escape_chars) (simp add: dflt_conf_def)
  then show ?thesis using True shlex_quoted_body [of "[]" False s rest] by simp
next
  case False
  with assms obtain c s' where s: "s = c # s'" by (auto simp: good_word_def neq_Nil_conv)
  have "shlex_run dflt_conf Space [] False (quote_string s @ rest) =
      shlex_run dflt_conf Word [c] False (s' @ rest)"
    using False assms s by (auto simp: quote_string_def good_word_def needs_quotes_def dflt_conf_def)
  also have "\<dots> = shlex_run dflt_conf Word s False rest"
    using shlex_plain_word [of s' "[c]" False rest] False assms s
    by (simp add: good_word_def needs_quotes_def)
  finally show ?thesis using False by simp
qed

lemma split_joined_words:
  assumes "list_all good_word vs"
  shows "stringToStrings_dflt (stringsToString vs) = Inr vs"
  unfolding stringToStrings_dflt_run stringsToString_def
  using assms
proof (induction vs)
  case Nil
  show ?case by simp
next
  case (Cons v vs)
  have ne: "v \<noteq> []" using Cons.prems by (simp add: good_word_def)
  have q: "shlex_run dflt_conf Space [] False (quote_string v @ rest) =
      shlex_run dflt_conf Word v (needs_quotes v) rest" for rest
    using shlex_word Cons.prems by simp
  show ?case
  proof (cases vs)
    case Nil
    then show ?thesis using q [of "[]"] ne by (simp add: emit_def)
  next
    case (Cons w ws)
    let ?rest = "join_with '' '' (map quote_string vs)"
    have "shlex_run dflt_conf Space [] False (join_with '' '' (map quote_string (v # vs))) =
        shlex_run dflt_conf Word v (needs_quotes v) (CHR '' '' # ?rest)"
      using q [of "CHR '' '' # ?rest"] Cons by simp
    also have "\<dots> = emit v (shlex_run dflt_conf Space [] False ?rest)"
      using ne by (simp add: dflt_conf_def)
    finally show ?thesis using Cons.IH Cons.prems ne by (simp add: emit_def)
  qed
qed

text \<open>C22. A list of strings written as one configuration value by stringsToString is read back
  unchanged by stringToStrings, whatever blanks, quotes and backslashes the strings hold, provided
  that none is empty and that a comment sign or a line end only occurs in a string that is quoted
  for another reason.\<close>

theorem stringToStrings_stringsToString:
  assumes "list_all good_word vs"
  shows "stringToStrings_dflt (stringsToString vs) = Inr vs"
  using assms by (rule split_joined_words)

definition demo_words :: "string list" where
  "demo_words = [''/music'', ''/my music/a#b'', [CHR 0x22, CHR 0x5C]]"

theorem stringToStrings_stringsToString_witness:
  "list_all good_word demo_words \<and> stringToStrings_dflt (stringsToString demo_words) = Inr demo_words"
proof -
  have h: "list_all good_word demo_words" by code_simp
  show ?thesis using h stringToStrings_stringsToString [OF h] by simp
qed

text \<open>The two exceptions are real: an empty string ends the list, so that it and everything
  after it are lost, and an unquoted comment sign hides the rest of its line.\<close>

lemma stringToStrings_losses:
  "stringToStrings_dflt (CHR 0x22 # CHR 0x22 # CHR '' '' # s) = Inr [] \<and>
   stringToStrings_dflt (stringsToString [''/music#1'', ''/other'']) = Inr [''/music'']"
proof
  show "stringToStrings_dflt (CHR 0x22 # CHR 0x22 # CHR '' '' # s) = Inr []"
    by (simp add: stringToStrings_dflt_run dflt_conf_def emit_def)
  show "stringToStrings_dflt (stringsToString [''/music#1'', ''/other'']) = Inr [''/music'']"
    by code_simp
qed

end
