(* ===== verification/PyPath.thy ===== *)
theory PyPath
  imports PyString
begin

text \<open>
  The functions of \<open>os.path\<close> on a POSIX system that the sources call, on \<open>str\<close> and \<open>bytes\<close> alike,
  and the facts about them that the trees of the media server need.
\<close>

definition isabs :: "string \<Rightarrow> bool" where
  "isabs p \<longleftrightarrow> startswith p ''/''"

fun endswith_slash :: "string \<Rightarrow> bool" where
  "endswith_slash [] = False"
| "endswith_slash (c # s) = (last (c # s) = CHR ''/'')"

definition path_join :: "string \<Rightarrow> string \<Rightarrow> string" where
  "path_join a b =
     (if startswith b ''/'' then b
      else if a = [] \<or> endswith_slash a then a @ b
      else a @ ''/'' @ b)"

text \<open>\<open>os.path.split\<close>: the last component, and what precedes it without its final slashes unless
  it is made of slashes only.\<close>

fun path_cut :: "string \<Rightarrow> string \<times> string" where
  "path_cut [] = ([], [])"
| "path_cut (c # s) =
     (case path_cut s of (f, t) \<Rightarrow>
        if f \<noteq> [] then (c # f, t) else if c = CHR ''/'' then ([c], t) else ([], c # t))"

definition path_tail :: "string \<Rightarrow> string" where
  "path_tail p = snd (path_cut p)"

definition path_front :: "string \<Rightarrow> string" where
  "path_front p = fst (path_cut p)"

definition is_slash :: "char \<Rightarrow> bool" where
  "is_slash c \<longleftrightarrow> c = CHR ''/''"

definition os_basename :: "string \<Rightarrow> string" where
  "os_basename p = path_tail p"

definition os_dirname :: "string \<Rightarrow> string" where
  "os_dirname p =
     (let h = path_front p
      in if list_all is_slash h then h else rstrip is_slash h)"

definition path_split :: "string \<Rightarrow> string \<times> string" where
  "path_split p = (os_dirname p, os_basename p)"

text \<open>\<open>os.path.splitext\<close>: the extension starts at the last dot of the last component, provided
  that something other than a dot precedes it there.\<close>

definition splitext :: "string \<Rightarrow> string \<times> string" where
  "splitext p =
     (let base = path_tail p;
          ext = rev (takeWhile (\<lambda>c. c \<noteq> CHR ''.'') (rev base));
          stem = rev (drop 1 (dropWhile (\<lambda>c. c \<noteq> CHR ''.'') (rev base)))
      in if CHR ''.'' \<in> set base \<and> list_ex (\<lambda>c. c \<noteq> CHR ''.'') stem
         then (path_front p @ stem, ''.'' @ ext) else (p, []))"

text \<open>\<open>os.path.normpath\<close>\<close>

definition initial_slashes :: "string \<Rightarrow> nat" where
  "initial_slashes p =
     (if startswith p ''//'' \<and> \<not> startswith p ''///'' then 2 else if startswith p ''/'' then 1 else 0)"

fun norm_comps :: "nat \<Rightarrow> string list \<Rightarrow> string list \<Rightarrow> string list" where
  "norm_comps sl acc [] = acc"
| "norm_comps sl acc (c # cs) =
     (if c = [] \<or> c = ''.'' then norm_comps sl acc cs
      else if c \<noteq> ''..'' \<or> (sl = 0 \<and> acc = []) \<or> (acc \<noteq> [] \<and> last acc = ''..'')
      then norm_comps sl (acc @ [c]) cs
      else if acc \<noteq> [] then norm_comps sl (butlast acc) cs
      else norm_comps sl acc cs)"

definition normpath :: "string \<Rightarrow> string" where
  "normpath p =
     (if p = [] then ''.''
      else let sl = initial_slashes p;
               r = replicate sl (CHR ''/'') @ join_with ''/'' (norm_comps sl [] (split_on (CHR ''/'') p))
           in if r = [] then ''.'' else r)"

section \<open>Facts\<close>

lemma path_cut_props:
  "path_cut p = (f, t) \<Longrightarrow> p = f @ t \<and> CHR ''/'' \<notin> set t \<and> (f = [] \<or> last f = CHR ''/'')"
  by (induction p arbitrary: f t) (auto split: prod.splits if_splits)

lemma path_cut_no_slash: "CHR ''/'' \<notin> set t \<Longrightarrow> path_cut t = ([], t)"
  by (induction t) auto

lemma path_cut_append [simp, str_simps]:
  "CHR ''/'' \<notin> set t \<Longrightarrow> path_cut (d @ CHR ''/'' # t) = (d @ ''/'', t)"
  by (induction d) (auto simp: path_cut_no_slash)

lemma path_front_tail: "path_front p @ path_tail p = p"
  using path_cut_props [of p "path_front p" "path_tail p"] by (simp add: path_front_def path_tail_def)

lemma path_tail_no_slash [simp]: "CHR ''/'' \<notin> set (path_tail p)"
  using path_cut_props [of p "path_front p" "path_tail p"] by (simp add: path_front_def path_tail_def)

lemma path_front_last: "path_front p = [] \<or> last (path_front p) = CHR ''/''"
  using path_cut_props [of p "path_front p" "path_tail p"] by (simp add: path_front_def path_tail_def)

lemma path_tail_append [simp, str_simps]: "CHR ''/'' \<notin> set t \<Longrightarrow> path_tail (d @ CHR ''/'' # t) = t"
  by (simp add: path_tail_def)

lemma os_basename_append [simp, str_simps]:
  "CHR ''/'' \<notin> set t \<Longrightarrow> os_basename (d @ CHR ''/'' # t) = t"
  by (simp add: os_basename_def)

lemma rstrip_slash_snoc: "rstrip is_slash (d @ ''/'') = rstrip is_slash d"
  by (simp add: rstrip_def is_slash_def)

lemma os_dirname_append [simp, str_simps]:
  assumes "CHR ''/'' \<notin> set t" and "d \<noteq> []" and "last d \<noteq> CHR ''/''"
  shows "os_dirname (d @ CHR ''/'' # t) = d"
proof -
  have "\<not> list_all is_slash d"
    unfolding list_all_iff is_slash_def using assms(2,3) last_in_set [of d] by blast
  moreover have "rstrip is_slash d = d" using assms(2,3) by (simp add: rstrip_last is_slash_def)
  ultimately show ?thesis
    using assms(1) by (simp add: os_dirname_def path_front_def Let_def rstrip_slash_snoc)
qed

lemma os_dirname_prefix: "\<exists>t. p = os_dirname p @ t"
proof -
  obtain t where t: "path_front p = rstrip is_slash (path_front p) @ t"
    using rstrip_decomp by metis
  show ?thesis
  proof (cases "list_all is_slash (path_front p)")
    case True
    then have "os_dirname p = path_front p" by (simp add: os_dirname_def Let_def)
    then have "p = os_dirname p @ path_tail p" using path_front_tail [of p] by simp
    then show ?thesis by (rule exI)
  next
    case False
    then have "os_dirname p = rstrip is_slash (path_front p)" by (simp add: os_dirname_def Let_def)
    then have "p = os_dirname p @ (t @ path_tail p)" using path_front_tail [of p] t by (metis append.assoc)
    then show ?thesis by blast
  qed
qed

lemma os_dirname_shorter: "os_dirname p \<noteq> p \<Longrightarrow> length (os_dirname p) < length p"
  using os_dirname_prefix [of p] by (metis append_Nil2 length_append length_greater_0_conv less_add_same_cancel1)

lemma os_dirname_fixed_slashes:
  assumes "os_dirname p = p"
  shows "list_all is_slash p"
proof (rule ccontr)
  assume ne: "\<not> ?thesis"
  show False
  proof (cases "list_all is_slash (path_front p)")
    case True
    then have "path_front p = p" using assms by (simp add: os_dirname_def Let_def)
    with True ne show False by simp
  next
    case False
    then have eq: "rstrip is_slash (path_front p) = p" using assms by (simp add: os_dirname_def Let_def)
    have ne': "path_front p \<noteq> []" using False by auto
    then obtain h where h: "path_front p = h @ ''/''"
      using path_front_last [of p] by (metis append_butlast_last_id)
    have "length (rstrip is_slash h) \<le> length h" using rstrip_decomp [of h is_slash] by (metis le_add1 length_append)
    then have "length p \<le> length h" using eq h by (simp add: rstrip_slash_snoc)
    then show False using path_front_tail [of p] h by (metis append.assoc append_Cons append_Nil le_add1 length_append length_Cons not_less_eq_eq le_trans add_Suc_right)
  qed
qed

lemma path_join_abs [simp, str_simps]: "path_join a (CHR ''/'' # b) = CHR ''/'' # b"
  by (simp add: path_join_def)

end
