(* ===== verification/ConfTree.thy ===== *)
theory ConfTree
  imports ConfStrings PyPath
begin

text \<open>
  The configuration files (\<open>pycommon/conftree.py\<close>): the dictionaries of a ConfSimple object, which
  are case-sensitive or not, the parser of the file, the lookups of ConfSimple, ConfTree and
  ConfStack, and the writer. Lookups rest on the locale \<open>keyed_store\<close>, of which the dictionaries
  are the interpretation.
\<close>

section \<open>Dictionaries, case-sensitive or not\<close>

text \<open>
  A \<open>CaseInsensitiveDict\<close> stores under the lowercased key the key as last set and the value. With
  \<open>cs = True\<close> the same functions are a plain \<open>dict\<close>.
\<close>

type_synonym 'v cdict = "(string \<times> (string \<times> 'v)) list"

definition fold_key :: "bool \<Rightarrow> string \<Rightarrow> string" where
  "fold_key cs k = (if cs then k else py_lower k)"

definition cd_set :: "bool \<Rightarrow> string \<Rightarrow> 'v \<Rightarrow> 'v cdict \<Rightarrow> 'v cdict" where
  "cd_set cs k v d = AList.update (fold_key cs k) (k, v) d"

definition cd_get :: "bool \<Rightarrow> string \<Rightarrow> 'v cdict \<Rightarrow> 'v option" where
  "cd_get cs k d = map_option snd (map_of d (fold_key cs k))"

definition cd_in :: "bool \<Rightarrow> string \<Rightarrow> 'v cdict \<Rightarrow> bool" where
  "cd_in cs k d \<longleftrightarrow> cd_get cs k d \<noteq> None"

definition cd_del :: "bool \<Rightarrow> string \<Rightarrow> 'v cdict \<Rightarrow> 'v cdict res" where
  "cd_del cs k d =
     (if cd_in cs k d then Inr (AList.delete (fold_key cs k) d) else Inl KeyError)"

definition cd_items :: "'v cdict \<Rightarrow> (string \<times> 'v) list" where
  "cd_items d = map snd d"

definition cd_keys :: "'v cdict \<Rightarrow> string list" where
  "cd_keys d = map fst (cd_items d)"

definition cd_lower_items :: "'v cdict \<Rightarrow> (string \<times> 'v) list" where
  "cd_lower_items d = map (\<lambda>(lk, (k, v)). (lk, v)) d"

text \<open>What a store keyed up to an equivalence of keys promises.\<close>

locale keyed_store =
  fixes put :: "'k \<Rightarrow> 'v \<Rightarrow> 's \<Rightarrow> 's"
    and look :: "'k \<Rightarrow> 's \<Rightarrow> 'v option"
    and same :: "'k \<Rightarrow> 'k \<Rightarrow> bool"
  assumes look_put: "look k (put k' v s) = (if same k k' then Some v else look k s)"
    and same_equiv: "same k k" "same k k' \<Longrightarrow> same k' k" "same k k' \<Longrightarrow> same k' k'' \<Longrightarrow> same k k''"
    and look_same: "same k k' \<Longrightarrow> look k s = look k' s"
begin

lemma put_put: "same k k' \<Longrightarrow> look j (put k v (put k' w s)) = look j (put k v s)"
  by (metis look_put same_equiv(2,3))

lemma put_commute:
  "\<not> same k k' \<Longrightarrow> look j (put k v (put k' w s)) = look j (put k' w (put k v s))"
  by (metis look_put same_equiv(2,3))

lemma look_fold_other:
  "\<forall>a \<in> fst ` set kvs. \<not> same k a \<Longrightarrow> look k (fold (\<lambda>(k, v). put k v) kvs s) = look k s"
  by (induction kvs arbitrary: s) (auto simp: look_put)

lemma look_fold_put:
  assumes "sorted_wrt (\<lambda>a b. \<not> same (fst a) (fst b)) kvs" and "(k', v) \<in> set kvs" and "same k k'"
  shows "look k (fold (\<lambda>(k, v). put k v) kvs s) = Some v"
  using assms(1,2)
proof (induction kvs arbitrary: s)
  case (Cons kv kvs)
  show ?case
  proof (cases "kv = (k', v)")
    case True
    have "\<forall>a \<in> fst ` set kvs. \<not> same k a"
    proof
      fix a assume a: "a \<in> fst ` set kvs"
      then have "\<not> same k' a" using Cons.prems(1) True by auto
      then show "\<not> same k a" using same_equiv(2,3) assms(3) by blast
    qed
    then show ?thesis using True look_fold_other [of kvs k] assms(3) by (simp add: look_put)
  next
    case False
    then show ?thesis using Cons by (auto split: prod.splits)
  qed
qed simp

end

lemma cd_get_set [simp, dict_simps]:
  "cd_get cs k (cd_set cs k' v d) = (if fold_key cs k = fold_key cs k' then Some v else cd_get cs k d)"
  by (simp add: cd_get_def cd_set_def)

interpretation cdict: keyed_store "cd_set cs" "cd_get cs" "\<lambda>k k'. fold_key cs k = fold_key cs k'" for cs
  by unfold_locales (auto, simp add: cd_get_def)

section \<open>Configuration objects\<close>

record conf =
  casesens :: bool
  submaps :: "string cdict cdict"
  subkeys_unsorted :: "string list"
  dotildexpand :: bool
  readonly :: bool

definition empty_conf :: "bool \<Rightarrow> bool \<Rightarrow> bool \<Rightarrow> conf" where
  "empty_conf tildexp ro cs =
     \<lparr>casesens = cs, submaps = cd_set cs [] [] [], subkeys_unsorted = [],
      dotildexpand = tildexp, readonly = ro\<rparr>"

text \<open>\<open>self.submaps[sk][nm] = value\<close>, where a missing section is made first\<close>

definition sub_put :: "bool \<Rightarrow> string \<Rightarrow> string \<Rightarrow> string \<Rightarrow> string cdict cdict \<Rightarrow> string cdict cdict" where
  "sub_put cs sk nm value sm =
     AList.map_entry (fold_key cs sk) (apsnd (cd_set cs nm value))
       (if cd_in cs sk sm then sm else cd_set cs sk [] sm)"

definition sub_get :: "bool \<Rightarrow> string \<Rightarrow> string \<Rightarrow> string cdict cdict \<Rightarrow> string option" where
  "sub_get cs sk nm sm = (case cd_get cs sk sm of None \<Rightarrow> None | Some mp \<Rightarrow> cd_get cs nm mp)"

definition conf_put :: "string \<Rightarrow> string \<Rightarrow> string \<Rightarrow> conf \<Rightarrow> conf" where
  "conf_put sk nm value c = c\<lparr>submaps := sub_put (casesens c) sk nm value (submaps c)\<rparr>"

section \<open>Parsing\<close>

record parse_state =
  ps_appending :: bool
  ps_line :: string
  ps_submapkey :: string
  ps_conf :: conf

definition is_bracket :: "char \<Rightarrow> bool" where
  "is_bracket c \<longleftrightarrow> c = CHR 0x5B \<or> c = CHR 0x5D"

definition is_crlf :: "char \<Rightarrow> bool" where
  "is_crlf c \<longleftrightarrow> c = CHR 0x0D \<or> c = CHR 0x0A"

definition parse_line :: "(string \<Rightarrow> string) \<Rightarrow> string \<Rightarrow> parse_state \<Rightarrow> parse_state" where
  "parse_line expanduser cline0 st =
     (let cline = rstrip is_crlf cline0;
          line = strip is_bspace (if ps_appending st then ps_line st @ cline else cline);
          st = st\<lparr>ps_line := line\<rparr>
      in if line = [] \<or> hd line = CHR ''#'' then st
         else if last line = CHR 0x5C then st\<lparr>ps_line := butlast line, ps_appending := True\<rparr>
         else let st = st\<lparr>ps_appending := False\<rparr>; c = ps_conf st in
           if hd line = CHR 0x5B then
             (let name = strip is_bracket line;
                  key = (if dotildexpand c then expanduser name else name)
              in st\<lparr>ps_line := name, ps_submapkey := key,
                    ps_conf := c\<lparr>subkeys_unsorted := subkeys_unsorted c @ [key]\<rparr>\<rparr>)
           else (case partition_on (CHR ''='') line of (nm, sep, value) \<Rightarrow>
             if \<not> sep then st
             else st\<lparr>ps_conf := conf_put (ps_submapkey st) (strip is_bspace nm)
                                  (strip is_bspace value) c\<rparr>))"

definition parse_lines :: "(string \<Rightarrow> string) \<Rightarrow> string list \<Rightarrow> parse_state \<Rightarrow> parse_state" where
  "parse_lines expanduser = fold (parse_line expanduser)"

definition parseinput :: "(string \<Rightarrow> string) \<Rightarrow> string list \<Rightarrow> conf \<Rightarrow> conf" where
  "parseinput expanduser f c =
     ps_conf (parse_lines expanduser f
       \<lparr>ps_appending = False, ps_line = [], ps_submapkey = [], ps_conf = c\<rparr>)"

text \<open>The constructor: \<open>None\<close> stands for a file that cannot be opened.\<close>

definition ConfSimple_init ::
  "(string \<Rightarrow> string) \<Rightarrow> string list option \<Rightarrow> bool \<Rightarrow> bool \<Rightarrow> bool \<Rightarrow> conf" where
  "ConfSimple_init expanduser f tildexp ro cs =
     (case f of None \<Rightarrow> empty_conf tildexp ro cs
      | Some ls \<Rightarrow> parseinput expanduser ls (empty_conf tildexp ro cs))"

section \<open>Lookups\<close>

definition simple_getbin :: "conf \<Rightarrow> string \<Rightarrow> string \<Rightarrow> string option" where
  "simple_getbin c nm sk = sub_get (casesens c) sk nm (submaps c)"

text \<open>\<open>get\<close> with a \<open>str\<close> name decodes the value.\<close>

definition decode_value :: "string option \<Rightarrow> string option res" where
  "decode_value v =
     (case v of None \<Rightarrow> Inr None
      | Some s \<Rightarrow> if valid_utf8 s then Inr (Some s) else Inl ValueError)"

definition simple_get :: "conf \<Rightarrow> string \<Rightarrow> string \<Rightarrow> string option res" where
  "simple_get c nm sk = decode_value (simple_getbin c nm sk)"

definition getSubKeys_unsorted :: "conf \<Rightarrow> string list res" where
  "getSubKeys_unsorted c =
     mapR (\<lambda>k. if valid_utf8 k then Inr k else Inl ValueError) (subkeys_unsorted c)"

definition getNamesbin :: "conf \<Rightarrow> string \<Rightarrow> string list option" where
  "getNamesbin c sk = map_option cd_keys (cd_get (casesens c) sk (submaps c))"

definition getNames :: "conf \<Rightarrow> string \<Rightarrow> string list option res" where
  "getNames c sk =
     (case getNamesbin c sk of
        None \<Rightarrow> Inr None
      | Some names \<Rightarrow>
          bindR (mapR (\<lambda>k. if valid_utf8 k then Inr k else Inl ValueError) names) (\<lambda>l. Inr (Some l)))"

text \<open>ConfTree: the loop walks up the path until a section exists.\<close>

function tree_walk :: "conf \<Rightarrow> string \<Rightarrow> string \<Rightarrow> string option" where
  "tree_walk c nm sk =
     (if cd_in (casesens c) sk (submaps c) then simple_getbin c nm sk
      else if cd_in (casesens c) (sk @ ''/'') (submaps c) then simple_getbin c nm (sk @ ''/'')
      else if os_dirname sk = sk then simple_getbin c nm []
      else tree_walk c nm (os_dirname sk))"
  by pat_completeness auto
termination
  by (relation "measure (\<lambda>(c, nm, sk). length sk)") (auto intro: os_dirname_shorter)

declare tree_walk.simps [simp del]

definition tree_getbin :: "conf \<Rightarrow> string \<Rightarrow> string \<Rightarrow> string option" where
  "tree_getbin c nm sk = (if sk = [] then simple_getbin c nm sk else tree_walk c nm sk)"

text \<open>ConfStack: the first configuration with a value wins.\<close>

fun stack_getbin :: "(conf \<Rightarrow> string \<Rightarrow> string \<Rightarrow> string option) \<Rightarrow> conf list \<Rightarrow> string \<Rightarrow> string \<Rightarrow> string option" where
  "stack_getbin getb [] nm sk = None"
| "stack_getbin getb (c # cs) nm sk =
     (case getb c nm sk of Some v \<Rightarrow> Some v | None \<Rightarrow> stack_getbin getb cs nm sk)"

definition stack_get :: "(conf \<Rightarrow> string \<Rightarrow> string \<Rightarrow> string option) \<Rightarrow> conf list \<Rightarrow> string \<Rightarrow> string \<Rightarrow> string option res" where
  "stack_get getb cs nm sk = decode_value (stack_getbin getb cs nm sk)"

text \<open>The constructor builds the list anew for every directory it meets; with no directory at all
  the list is never made.\<close>

definition stack_construct :: "(string \<Rightarrow> conf) \<Rightarrow> string list \<Rightarrow> conf list" where
  "stack_construct open_conf fnames = map open_conf fnames"

fun stack_init_loop ::
  "(string \<Rightarrow> conf) \<Rightarrow> string \<Rightarrow> string list \<Rightarrow> string list \<Rightarrow> conf list option \<Rightarrow> conf list option" where
  "stack_init_loop open_conf nm fnames [] confs = confs"
| "stack_init_loop open_conf nm fnames (d # ds) confs =
     (let fnames' = fnames @ [path_join d nm]
      in stack_init_loop open_conf nm fnames' ds (Some (stack_construct open_conf fnames')))"

definition ConfStack_init :: "(string \<Rightarrow> conf) \<Rightarrow> string \<Rightarrow> string list \<Rightarrow> conf list option" where
  "ConfStack_init open_conf nm dirs = stack_init_loop open_conf nm [] dirs None"

section \<open>Writing\<close>

definition item_line :: "string \<times> string \<Rightarrow> string" where
  "item_line nv = (case nv of (nm, value) \<Rightarrow> nm @ ''='' @ value @ [CHR 0x0A])"

definition section_lines :: "string \<times> string cdict \<Rightarrow> string list" where
  "section_lines s =
     (case s of (sk, mp) \<Rightarrow>
        ([CHR 0x5B] @ sk @ [CHR 0x5D, CHR 0x0A]) # map item_line (cd_items mp))"

text \<open>The lines of the new file: the unnamed section first, then the others.\<close>

definition rewrite :: "conf \<Rightarrow> string list res" where
  "rewrite c =
     (if readonly c then Inl (Raised ''ConfSimple is readonly'')
      else Inr ((case cd_get (casesens c) [] (submaps c) of
                   None \<Rightarrow> [] | Some mp \<Rightarrow> map item_line (cd_items mp))
                @ concat (map section_lines (filter (\<lambda>s. fst s \<noteq> []) (cd_items (submaps c))))))"

text \<open>\<open>set\<close> stores the value and writes the file.\<close>

definition conf_set :: "string \<Rightarrow> string \<Rightarrow> string \<Rightarrow> conf \<Rightarrow> (conf \<times> string list) res" where
  "conf_set nm value sk c =
     (if readonly c then Inl (Raised ''ConfSimple is readonly'')
      else let c' = conf_put sk nm value c in bindR (rewrite c') (\<lambda>f. Inr (c', f)))"

section \<open>Stores and lookups\<close>

definition same_entry :: "bool \<Rightarrow> string \<times> string \<Rightarrow> string \<times> string \<Rightarrow> bool" where
  "same_entry cs a b \<longleftrightarrow>
     fold_key cs (fst a) = fold_key cs (fst b) \<and> fold_key cs (snd a) = fold_key cs (snd b)"

lemma sub_get_put:
  "sub_get cs sk' nm' (sub_put cs sk nm v sm) =
     (if fold_key cs sk' = fold_key cs sk \<and> fold_key cs nm' = fold_key cs nm then Some v
      else sub_get cs sk' nm' sm)"
  by (auto simp: sub_get_def sub_put_def cd_get_def cd_in_def cd_set_def AList.map_of_map_entry
      split: option.splits)

interpretation entries: keyed_store
    "\<lambda>k v. sub_put cs (fst k) (snd k) v" "\<lambda>k. sub_get cs (fst k) (snd k)" "same_entry cs" for cs
  by unfold_locales (auto simp: sub_get_put same_entry_def, simp add: sub_get_def cd_get_def split: option.splits)

text \<open>After a successful set, the file object answers the new value under the given name and
  section, spelled in any way that the case sensitivity allows, and its old answer under every
  other name or section; a read-only object refuses.\<close>

theorem conf_set_then_get:
  "conf_set nm value sk c = Inl (Raised ''ConfSimple is readonly'') \<and> readonly c \<or>
   (\<exists>c' f. conf_set nm value sk c = Inr (c', f) \<and> \<not> readonly c \<and>
      (\<forall>nm' sk'. simple_getbin c' nm' sk' =
         (if same_entry (casesens c) (sk', nm') (sk, nm) then Some value else simple_getbin c nm' sk')))"
  by (cases "readonly c")
    (simp_all add: conf_set_def conf_put_def rewrite_def simple_getbin_def entries.look_put
      sub_get_put same_entry_def Let_def)

section \<open>Paths of sections\<close>

function ancestors :: "string \<Rightarrow> string list" where
  "ancestors sk = sk # (if os_dirname sk = sk then [] else ancestors (os_dirname sk))"
  by pat_completeness auto
termination
  by (relation "measure length") (auto intro: os_dirname_shorter)

declare ancestors.simps [simp del]

definition nearest_section :: "conf \<Rightarrow> string \<Rightarrow> string" where
  "nearest_section c sk =
     (case List.find (\<lambda>s. cd_in (casesens c) s (submaps c))
             (concat (map (\<lambda>p. [p, p @ ''/'']) (ancestors sk))) of
        None \<Rightarrow> [] | Some s \<Rightarrow> s)"

lemma tree_walk_nearest: "tree_walk c nm sk = simple_getbin c nm (nearest_section c sk)"
proof (induction c nm sk rule: tree_walk.induct)
  case (1 c nm sk)
  show ?case
  proof (cases "cd_in (casesens c) sk (submaps c) \<or> cd_in (casesens c) (sk @ ''/'') (submaps c)")
    case True
    then show ?thesis
      by (subst tree_walk.simps) (auto simp: nearest_section_def ancestors.simps [of sk])
  next
    case False
    then have "nearest_section c sk = (if os_dirname sk = sk then [] else nearest_section c (os_dirname sk))"
      by (simp add: nearest_section_def ancestors.simps [of sk])
    with False "1.IH" show ?thesis by (subst tree_walk.simps) simp
  qed
qed

text \<open>The hierarchical lookup answers from exactly one section: the first one that exists among
  the path, the path with a slash, and its ancestors in turn, or else the unnamed section.\<close>

theorem tree_getbin_nearest:
  "tree_getbin c nm sk = simple_getbin c nm (if sk = [] then [] else nearest_section c sk)"
  by (simp add: tree_getbin_def tree_walk_nearest)

text \<open>So a section that exists hides its ancestors altogether: a name it does not hold is not
  searched in them, although the class comment promises that it is.\<close>

theorem tree_getbin_hides_ancestors:
  assumes "sk \<noteq> []" and "cd_in (casesens c) sk (submaps c)"
  shows "tree_getbin c nm sk = simple_getbin c nm sk"
  using assms by (simp add: tree_getbin_def tree_walk.simps [of c nm sk])

definition demo_conf :: conf where
  "demo_conf = parseinput id
     [''[/a]\<newline>'', ''name = x\<newline>'', ''[/a/b]\<newline>'', ''other = y\<newline>''] (empty_conf False True True)"

theorem tree_getbin_hides_ancestors_witness:
  "tree_getbin demo_conf ''name'' ''/a/b'' = None \<and> simple_getbin demo_conf ''name'' ''/a'' = Some ''x'' \<and>
   tree_getbin demo_conf ''name'' ''/a/c'' = Some ''x''"
proof -
  have "cd_in (casesens demo_conf) ''/a/b'' (submaps demo_conf)" by code_simp
  then have "tree_getbin demo_conf ''name'' ''/a/b'' = simple_getbin demo_conf ''name'' ''/a/b''"
    by (intro tree_getbin_hides_ancestors) simp_all
  also have "\<dots> = None" by code_simp
  finally show ?thesis by (intro conjI) (assumption, code_simp+)
qed

lemma stack_init_loop_eq:
  "stack_init_loop open_conf nm fnames ds confs =
     (if ds = [] then confs
      else Some (map open_conf (fnames @ map (\<lambda>d. path_join d nm) ds)))"
  by (induction ds arbitrary: fnames confs) (auto simp: stack_construct_def Let_def)

text \<open>Building the list of a configuration stack anew for every directory yields, in the order
  of the directories, the file of each; with no directory there is no list at all.\<close>

lemma ConfStack_init_eq:
  "ConfStack_init open_conf nm dirs =
     (if dirs = [] then None else Some (map (\<lambda>d. open_conf (path_join d nm)) dirs))"
  by (simp add: ConfStack_init_def stack_init_loop_eq comp_def)

section \<open>The writer and the parser\<close>

text \<open>A dictionary made by stores: each key stands under its folded form, once.\<close>

definition cd_wf :: "bool \<Rightarrow> 'v cdict \<Rightarrow> bool" where
  "cd_wf cs d \<longleftrightarrow> distinct (map fst d) \<and> list_all (\<lambda>(fk, (k, v)). fk = fold_key cs k) d"

lemma cd_wf_Nil [simp]: "cd_wf cs []"
  by (simp add: cd_wf_def)

lemma cd_wf_Cons:
  "cd_wf cs ((fk, (k, v)) # d) \<longleftrightarrow> fk = fold_key cs k \<and> fk \<notin> fst ` set d \<and> cd_wf cs d"
  by (auto simp: cd_wf_def)

lemma cd_wf_set: "cd_wf cs d \<Longrightarrow> cd_wf cs (cd_set cs k v d)"
proof (induction d)
  case (Cons p d)
  obtain fk k0 v0 where p: "p = (fk, (k0, v0))" by (metis surj_pair)
  with Cons show ?case by (force simp: cd_set_def cd_wf_Cons dom_update)
qed (simp add: cd_set_def cd_wf_def)

lemma cd_wf_items_distinct:
  "cd_wf cs d \<Longrightarrow> sorted_wrt (\<lambda>a b. fold_key cs (fst a) \<noteq> fold_key cs (fst b)) (cd_items d)"
proof (induction d)
  case (Cons p d)
  obtain fk k v where p: "p = (fk, (k, v))" by (metis surj_pair)
  have "\<forall>b \<in> set (cd_items d). fold_key cs k \<noteq> fold_key cs (fst b)"
    using Cons.prems p by (force simp: cd_wf_def cd_items_def list_all_iff)
  with Cons p show ?case by (simp add: cd_items_def cd_wf_Cons)
qed (simp add: cd_items_def)

lemma cd_get_items: "cd_wf cs d \<Longrightarrow> cd_get cs k d = Some v \<Longrightarrow> \<exists>k'. (k', v) \<in> set (cd_items d) \<and> fold_key cs k' = fold_key cs k"
  by (force simp: cd_get_def cd_wf_def cd_items_def list_all_iff dest: map_of_SomeD)

lemma cd_items_get: "cd_wf cs d \<Longrightarrow> (k, v) \<in> set (cd_items d) \<Longrightarrow> cd_get cs k d = Some v"
proof (induction d)
  case (Cons p d)
  obtain fk k' v' where p: "p = (fk, (k', v'))" by (metis surj_pair)
  have "fold_key cs k \<noteq> fk" if "(k, v) \<in> set (cd_items d)"
    using Cons.prems(1) p that by (force simp: cd_wf_def cd_items_def list_all_iff)
  with Cons p show ?case by (auto simp: cd_get_def cd_items_def cd_wf_Cons)
qed (simp add: cd_items_def)

text \<open>Names, values and section names that survive the syntax of the file.\<close>

definition clean_name :: "string \<Rightarrow> bool" where
  "clean_name nm \<longleftrightarrow> nm \<noteq> [] \<and> stripped is_bspace nm \<and> CHR ''='' \<notin> set nm \<and> CHR 0x0A \<notin> set nm
     \<and> hd nm \<noteq> CHR ''#'' \<and> hd nm \<noteq> CHR 0x5B"

definition clean_value :: "string \<Rightarrow> bool" where
  "clean_value v \<longleftrightarrow> stripped is_bspace v \<and> CHR 0x0A \<notin> set v \<and> (v = [] \<or> last v \<noteq> CHR 0x5C)"

definition clean_section :: "string \<Rightarrow> bool" where
  "clean_section sk \<longleftrightarrow> sk \<noteq> [] \<and> stripped is_bracket sk \<and> CHR 0x0A \<notin> set sk"

definition clean_conf :: "conf \<Rightarrow> bool" where
  "clean_conf c \<longleftrightarrow> cd_wf (casesens c) (submaps c) \<and>
     list_all (\<lambda>(sk, mp). cd_wf (casesens c) mp \<and> (sk = [] \<or> clean_section sk) \<and>
       list_all (\<lambda>(nm, v). clean_name nm \<and> clean_value v) (cd_items mp)) (cd_items (submaps c))"

lemma rstrip_line_end: "(s = [] \<or> \<not> is_crlf (last s)) \<Longrightarrow> rstrip is_crlf (s @ [CHR 0x0A]) = s"
  using rstrip_last [of s is_crlf] by (cases "s = []") (auto simp: rstrip_def is_crlf_def)

lemma bspace_crlf: "\<not> is_bspace c \<Longrightarrow> \<not> is_crlf c"
  by (auto simp: is_bspace_def is_crlf_def)

lemma parse_item_line:
  assumes "clean_name nm" and "clean_value v" and "\<not> ps_appending st"
  shows "\<exists>l. parse_line e (item_line (nm, v)) st =
    st\<lparr>ps_line := l, ps_conf := conf_put (ps_submapkey st) nm v (ps_conf st)\<rparr>"
proof -
  let ?l = "nm @ CHR ''='' # v"
  have last: "\<not> is_bspace (last ?l)" "last ?l \<noteq> CHR 0x5C"
    using assms(2) by (auto simp: clean_value_def stripped_def is_bspace_def)
  have hd: "hd ?l = hd nm" "\<not> is_bspace (hd nm)"
    using assms(1) by (auto simp: clean_name_def stripped_def)
  have r: "rstrip is_crlf (item_line (nm, v)) = ?l"
    using rstrip_line_end [of ?l] bspace_crlf [OF last(1)] by (simp add: item_line_def)
  have "stripped is_bspace ?l" using last hd by (simp add: stripped_def)
  then have s: "strip is_bspace ?l = ?l" by simp
  have "parse_line e (item_line (nm, v)) st =
      st\<lparr>ps_line := ?l, ps_appending := False, ps_conf := conf_put (ps_submapkey st) nm v (ps_conf st)\<rparr>"
    using assms r s last hd by (simp add: parse_line_def Let_def clean_name_def clean_value_def)
  then show ?thesis using assms(3) by (intro exI [of _ ?l]) simp
qed

lemma parse_item_lines:
  assumes "list_all (\<lambda>(nm, v). clean_name nm \<and> clean_value v) kvs" and "\<not> ps_appending st"
  shows "\<exists>l. parse_lines e (map item_line kvs) st =
    st\<lparr>ps_line := l, ps_conf := fold (\<lambda>(nm, v). conf_put (ps_submapkey st) nm v) kvs (ps_conf st)\<rparr>"
  using assms
proof (induction kvs arbitrary: st)
  case Nil
  show ?case by (intro exI [of _ "ps_line st"]) (simp add: parse_lines_def)
next
  case (Cons kv kvs)
  obtain nm v where kv: "kv = (nm, v)" by fastforce
  obtain l where l: "parse_line e (item_line (nm, v)) st =
      st\<lparr>ps_line := l, ps_conf := conf_put (ps_submapkey st) nm v (ps_conf st)\<rparr>"
    using parse_item_line [of nm v st] Cons.prems kv by auto
  then show ?case
    using Cons.IH [of "st\<lparr>ps_line := l, ps_conf := conf_put (ps_submapkey st) nm v (ps_conf st)\<rparr>"]
      Cons.prems kv by (simp add: parse_lines_def)
qed

lemma parse_section_line:
  assumes "clean_section sk" and "\<not> ps_appending st" and "\<not> dotildexpand (ps_conf st)"
  shows "\<exists>l. parse_line e ([CHR 0x5B] @ sk @ [CHR 0x5D, CHR 0x0A]) st =
    st\<lparr>ps_line := l, ps_submapkey := sk,
       ps_conf := (ps_conf st)\<lparr>subkeys_unsorted := subkeys_unsorted (ps_conf st) @ [sk]\<rparr>\<rparr>"
proof -
  let ?l = "CHR 0x5B # sk @ [CHR 0x5D]"
  have r: "rstrip is_crlf (?l @ [CHR 0x0A]) = ?l"
    by (rule rstrip_line_end) (simp add: is_crlf_def)
  have "stripped is_bspace ?l" by (simp add: stripped_def is_bspace_def)
  then have s: "strip is_bspace ?l = ?l" by simp
  have "lstrip is_bracket ?l = sk @ [CHR 0x5D]"
    using assms(1) by (cases sk) (auto simp: clean_section_def stripped_def lstrip_def is_bracket_def)
  moreover have "rstrip is_bracket sk = sk"
    using assms(1) rstrip_last [of sk is_bracket] by (auto simp: clean_section_def stripped_def)
  ultimately have "strip is_bracket ?l = sk"
    using rstrip_snoc [of is_bracket "CHR 0x5D" sk] by (simp add: strip_def is_bracket_def)
  then show ?thesis
    using assms r s by (intro exI [of _ sk]) (simp add: parse_line_def Let_def)
qed

text \<open>Only the sections and the case sensitivity matter to a lookup.\<close>

definition put_all :: "bool \<Rightarrow> ((string \<times> string) \<times> string) list \<Rightarrow> string cdict cdict \<Rightarrow> string cdict cdict" where
  "put_all cs = fold (\<lambda>(k, v). sub_put cs (fst k) (snd k) v)"

definition section_entries :: "string \<times> string cdict \<Rightarrow> ((string \<times> string) \<times> string) list" where
  "section_entries s = map (\<lambda>(nm, v). ((fst s, nm), v)) (cd_items (snd s))"

lemma fold_conf_put:
  "fold (\<lambda>(nm, v). conf_put sk nm v) kvs c =
   c\<lparr>submaps := put_all (casesens c) (map (\<lambda>(nm, v). ((sk, nm), v)) kvs) (submaps c)\<rparr>"
  by (induction kvs arbitrary: c) (auto simp: put_all_def conf_put_def)

lemma parse_section:
  assumes "clean_section sk" and "list_all (\<lambda>(nm, v). clean_name nm \<and> clean_value v) (cd_items mp)"
    and "\<not> ps_appending st" and "\<not> dotildexpand (ps_conf st)"
  shows "\<exists>st'. parse_lines e (section_lines (sk, mp)) st = st' \<and> \<not> ps_appending st' \<and>
    \<not> dotildexpand (ps_conf st') \<and> casesens (ps_conf st') = casesens (ps_conf st) \<and>
    submaps (ps_conf st') = put_all (casesens (ps_conf st)) (section_entries (sk, mp)) (submaps (ps_conf st))"
proof -
  obtain l where l: "parse_line e ([CHR 0x5B] @ sk @ [CHR 0x5D, CHR 0x0A]) st =
    st\<lparr>ps_line := l, ps_submapkey := sk,
       ps_conf := (ps_conf st)\<lparr>subkeys_unsorted := subkeys_unsorted (ps_conf st) @ [sk]\<rparr>\<rparr>" (is "_ = ?st1")
    using parse_section_line [OF assms(1,3,4)] by blast
  obtain l' where "parse_lines e (map item_line (cd_items mp)) ?st1 =
    ?st1\<lparr>ps_line := l', ps_conf := fold (\<lambda>(nm, v). conf_put sk nm v) (cd_items mp) (ps_conf ?st1)\<rparr>"
    using parse_item_lines [OF assms(2), of ?st1] assms(3) by auto
  then show ?thesis
    using l assms by (simp add: section_lines_def parse_lines_def fold_conf_put section_entries_def)
qed

lemma parse_sections:
  assumes "list_all (\<lambda>(sk, mp). clean_section sk \<and>
      list_all (\<lambda>(nm, v). clean_name nm \<and> clean_value v) (cd_items mp)) ss"
    and "\<not> ps_appending st" and "\<not> dotildexpand (ps_conf st)"
  shows "\<exists>st'. parse_lines e (concat (map section_lines ss)) st = st' \<and>
    casesens (ps_conf st') = casesens (ps_conf st) \<and>
    submaps (ps_conf st') =
      put_all (casesens (ps_conf st)) (concat (map section_entries ss)) (submaps (ps_conf st))"
  using assms
proof (induction ss arbitrary: st)
  case Nil
  then show ?case by (simp add: parse_lines_def put_all_def)
next
  case (Cons s ss)
  obtain sk mp where s: "s = (sk, mp)" by fastforce
  then show ?case
    using parse_section [of sk mp st e] Cons.IH [of "parse_lines e (section_lines (sk, mp)) st"] Cons.prems
    by (auto simp: parse_lines_def put_all_def)
qed

lemma conf_cases_unnamed:
  assumes "cd_wf cs sm"
  shows "set (cd_items sm) =
    set (case cd_get cs [] sm of None \<Rightarrow> [] | Some mp \<Rightarrow> [([], mp)]) \<union>
    set (filter (\<lambda>s. fst s \<noteq> []) (cd_items sm))"
proof -
  have "cd_get cs [] sm = Some mp \<longleftrightarrow> ([], mp) \<in> set (cd_items sm)" for mp
    using cd_items_get [OF assms, of "[]" mp] cd_get_items [OF assms, of "[]" mp]
    by (auto simp: fold_key_def py_lower_def split: if_splits)
  then have "set (case cd_get cs [] sm of None \<Rightarrow> [] | Some mp \<Rightarrow> [([], mp)]) =
      {s \<in> set (cd_items sm). fst s = []}"
    by (force split: option.splits)
  then show ?thesis by auto
qed

lemma section_entries_unnamed: "section_entries ([], mp) = map (\<lambda>(nm, v). (([], nm), v)) (cd_items mp)"
  by (simp add: section_entries_def)

text \<open>The sections in the order in which they are written.\<close>

definition written_sections :: "conf \<Rightarrow> (string \<times> string cdict) list" where
  "written_sections c =
     (case cd_get (casesens c) [] (submaps c) of None \<Rightarrow> [] | Some mp \<Rightarrow> [([], mp)])
     @ filter (\<lambda>s. fst s \<noteq> []) (cd_items (submaps c))"

definition unnamed_items :: "conf \<Rightarrow> (string \<times> string) list" where
  "unnamed_items c =
     (case cd_get (casesens c) [] (submaps c) of None \<Rightarrow> [] | Some mp \<Rightarrow> cd_items mp)"

definition named_sections :: "conf \<Rightarrow> (string \<times> string cdict) list" where
  "named_sections c = filter (\<lambda>s. fst s \<noteq> []) (cd_items (submaps c))"

lemma rewrite_lines:
  "rewrite c = Inr f \<Longrightarrow> f = map item_line (unnamed_items c) @ concat (map section_lines (named_sections c))"
  by (auto simp: rewrite_def unnamed_items_def named_sections_def split: if_splits option.splits)

lemma written_entries_split:
  "concat (map section_entries (written_sections c)) =
     map (\<lambda>(nm, v). (([], nm), v)) (unnamed_items c) @ concat (map section_entries (named_sections c))"
  by (simp add: written_sections_def unnamed_items_def named_sections_def section_entries_unnamed
      split: option.splits)

lemma parse_rewrite_entries:
  assumes "clean_conf c" and "rewrite c = Inr f"
  shows "submaps (ConfSimple_init e (Some f) False ro (casesens c)) =
      put_all (casesens c) (concat (map section_entries (written_sections c)))
        (cd_set (casesens c) [] [] []) \<and>
    casesens (ConfSimple_init e (Some f) False ro (casesens c)) = casesens c"
proof -
  let ?cs = "casesens c"
  let ?st = "\<lparr>ps_appending = False, ps_line = [], ps_submapkey = [], ps_conf = empty_conf False ro ?cs\<rparr>"
  have clean: "(sk, mp) \<in> set (cd_items (submaps c)) \<Longrightarrow>
      (sk = [] \<or> clean_section sk) \<and> list_all (\<lambda>(nm, v). clean_name nm \<and> clean_value v) (cd_items mp)" for sk mp
    using assms(1) by (auto simp: clean_conf_def list_all_iff)
  have wf: "cd_wf ?cs (submaps c)" using assms(1) by (simp add: clean_conf_def)
  have un: "list_all (\<lambda>(nm, v). clean_name nm \<and> clean_value v) (unnamed_items c)"
  proof (cases "cd_get ?cs [] (submaps c)")
    case (Some mp)
    then have "([], mp) \<in> set (cd_items (submaps c))" unfolding conf_cases_unnamed [OF wf] by simp
    with clean Some show ?thesis by (simp add: unnamed_items_def)
  qed (simp add: unnamed_items_def)
  obtain l where l: "parse_lines e (map item_line (unnamed_items c)) ?st =
      ?st\<lparr>ps_line := l, ps_conf := fold (\<lambda>(nm, v). conf_put [] nm v) (unnamed_items c) (empty_conf False ro ?cs)\<rparr>"
    using parse_item_lines [OF un, of ?st e] by auto
  let ?st1 = "parse_lines e (map item_line (unnamed_items c)) ?st"
  have st1: "\<not> ps_appending ?st1" "\<not> dotildexpand (ps_conf ?st1)" "casesens (ps_conf ?st1) = ?cs"
    "submaps (ps_conf ?st1) =
       put_all ?cs (map (\<lambda>(nm, v). (([], nm), v)) (unnamed_items c)) (cd_set ?cs [] [] [])"
    unfolding l by (simp_all add: fold_conf_put empty_conf_def)
  have oth: "list_all (\<lambda>(sk, mp). clean_section sk \<and>
      list_all (\<lambda>(nm, v). clean_name nm \<and> clean_value v) (cd_items mp)) (named_sections c)"
    unfolding list_all_iff [of _ "named_sections c"] using clean by (auto simp: named_sections_def)
  have f: "ConfSimple_init e (Some f) False ro ?cs =
      ps_conf (parse_lines e (concat (map section_lines (named_sections c))) ?st1)"
    using rewrite_lines [OF assms(2)] by (simp add: ConfSimple_init_def parseinput_def parse_lines_def)
  show ?thesis
    using parse_sections [OF oth st1(1,2), of e] st1(3,4)
    unfolding f written_entries_split by (auto simp: put_all_def)
qed

lemma written_entries_distinct:
  assumes "cd_wf cs sm" and "list_all (\<lambda>(sk, mp). cd_wf cs mp) (cd_items sm)"
    and "sorted_wrt (\<lambda>a b. fold_key cs (fst a) \<noteq> fold_key cs (fst b)) ss" and "set ss \<subseteq> set (cd_items sm)"
  shows "sorted_wrt (\<lambda>a b. \<not> same_entry cs (fst a) (fst b)) (concat (map section_entries ss))"
  using assms(3,4)
proof (induction ss)
  case (Cons s ss)
  obtain sk mp where s: "s = (sk, mp)" by fastforce
  have "sorted_wrt (\<lambda>a b. fold_key cs (fst a) \<noteq> fold_key cs (fst b)) (cd_items mp)"
    by (rule cd_wf_items_distinct) (use assms(2) Cons.prems(2) s in \<open>auto simp: list_all_iff\<close>)
  then have "sorted_wrt (\<lambda>a b. \<not> same_entry cs (fst a) (fst b)) (section_entries (sk, mp))"
    by (auto simp: section_entries_def sorted_wrt_map same_entry_def elim!: sorted_wrt_mono_rel [rotated])
  moreover have "\<not> same_entry cs (fst a) (fst b)"
    if "a \<in> set (section_entries s)" "b \<in> set (concat (map section_entries ss))" for a b
    using Cons.prems(1) that by (auto simp: section_entries_def same_entry_def)
  ultimately show ?case using Cons s by (simp add: sorted_wrt_append)
qed simp

lemma cd_items_filter_sorted:
  "cd_wf cs sm \<Longrightarrow> sorted_wrt (\<lambda>a b. fold_key cs (fst a) \<noteq> fold_key cs (fst b))
     ((case cd_get cs [] sm of None \<Rightarrow> [] | Some mp \<Rightarrow> [([], mp)]) @ filter (\<lambda>s. fst s \<noteq> []) (cd_items sm))"
  using cd_wf_items_distinct [of cs sm]
  by (auto simp: sorted_wrt_append sorted_wrt_filter fold_key_def py_lower_def split: option.splits)

text \<open>C10. What the writer of a configuration file writes, the parser reads back: a new object on
  the written lines answers every lookup, under every name and section, as the old one did,
  provided that the names, values and section names are free of what the syntax reserves.\<close>

theorem rewrite_parse_roundtrip:
  assumes "clean_conf c" and "rewrite c = Inr f"
  shows "simple_getbin (ConfSimple_init e (Some f) False ro (casesens c)) nm sk = simple_getbin c nm sk"
proof -
  let ?cs = "casesens c" and ?kvs = "concat (map section_entries (written_sections c))"
  have wf: "cd_wf ?cs (submaps c)" "list_all (\<lambda>(sk, mp). cd_wf ?cs mp) (cd_items (submaps c))"
    using assms(1) by (auto simp: clean_conf_def list_all_iff)
  have ws: "set (written_sections c) = set (cd_items (submaps c))"
    using conf_cases_unnamed [OF wf(1)] by (simp add: written_sections_def)
  have dist: "sorted_wrt (\<lambda>a b. \<not> same_entry ?cs (fst a) (fst b)) ?kvs"
    by (rule written_entries_distinct [OF wf])
      (use cd_items_filter_sorted [OF wf(1)] ws in \<open>simp_all add: written_sections_def\<close>)
  have lhs: "simple_getbin (ConfSimple_init e (Some f) False ro ?cs) nm sk =
      sub_get ?cs sk nm (put_all ?cs ?kvs (cd_set ?cs [] [] []))"
    using parse_rewrite_entries [OF assms] by (simp add: simple_getbin_def)
  show ?thesis
  proof (cases "sub_get ?cs sk nm (submaps c)")
    case (Some v)
    then obtain mp where mp: "cd_get ?cs sk (submaps c) = Some mp" "cd_get ?cs nm mp = Some v"
      by (auto simp: sub_get_def split: option.splits)
    obtain sk' where sk': "(sk', mp) \<in> set (cd_items (submaps c))" "fold_key ?cs sk' = fold_key ?cs sk"
      using cd_get_items [OF wf(1) mp(1)] by blast
    have wfm: "cd_wf ?cs mp" using wf(2) sk'(1) by (auto simp: list_all_iff)
    obtain nm' where nm': "(nm', v) \<in> set (cd_items mp)" "fold_key ?cs nm' = fold_key ?cs nm"
      using cd_get_items [OF wfm mp(2)] by auto
    have "((sk', nm'), v) \<in> set ?kvs" using ws sk'(1) nm'(1) by (force simp: section_entries_def)
    then have "sub_get ?cs sk nm (put_all ?cs ?kvs (cd_set ?cs [] [] [])) = Some v"
      using entries.look_fold_put [OF dist, of "(sk', nm')" v "(sk, nm)"] sk'(2) nm'(2)
      by (simp add: put_all_def same_entry_def)
    with lhs Some show ?thesis by (simp add: simple_getbin_def)
  next
    case None
    have "\<not> same_entry ?cs (sk, nm) (fst kv)" if "kv \<in> set ?kvs" for kv
    proof
      assume same: "same_entry ?cs (sk, nm) (fst kv)"
      obtain sk' nm' mp v where kv: "kv = ((sk', nm'), v)" "(sk', mp) \<in> set (cd_items (submaps c))"
        "(nm', v) \<in> set (cd_items mp)"
        using \<open>kv \<in> set ?kvs\<close> ws by (force simp: section_entries_def)
      have "cd_wf ?cs mp" using wf(2) kv(2) by (auto simp: list_all_iff)
      then have "sub_get ?cs sk' nm' (submaps c) = Some v"
        using cd_items_get [OF wf(1) kv(2)] cd_items_get kv(3) by (simp add: sub_get_def)
      then show False using None entries.look_same [OF same] kv(1) by simp
    qed
    then have "sub_get ?cs sk nm (put_all ?cs ?kvs (cd_set ?cs [] [] [])) =
        sub_get ?cs sk nm (cd_set ?cs [] [] [])"
      using entries.look_fold_other [of ?kvs ?cs "(sk, nm)"] by (simp add: put_all_def)
    also have "\<dots> = None" by (simp add: sub_get_def cd_get_def cd_set_def)
    finally show ?thesis using lhs None by (simp add: simple_getbin_def)
  qed
qed

definition demo_settings :: conf where
  "demo_settings = conf_put ''/a'' ''Name'' (''x '' @ [CHR 0x5C] @ ''y'') (conf_put [] ''Cache Dir'' ''/tmp/c = d'' (empty_conf False False False))"

theorem rewrite_parse_roundtrip_witness:
  "\<exists>f. clean_conf demo_settings \<and> rewrite demo_settings = Inr f \<and>
     simple_getbin (ConfSimple_init id (Some f) False True (casesens demo_settings)) ''cache dir'' [] = Some ''/tmp/c = d''"
proof -
  have c: "clean_conf demo_settings" by code_simp
  have "\<exists>f. rewrite demo_settings = Inr f"
    by (simp add: rewrite_def demo_settings_def conf_put_def empty_conf_def)
  then obtain f where f: "rewrite demo_settings = Inr f" ..
  have "simple_getbin demo_settings ''cache dir'' [] = Some ''/tmp/c = d''" by code_simp
  with c f rewrite_parse_roundtrip [OF c f, of id True "''cache dir''" "[]"] show ?thesis by auto
qed

end
