(* ===== verification/PyTree.thy ===== *)
theory PyTree
  imports PyInt
begin

text \<open>
  The values that \<open>json.loads\<close> makes of the answer of a web service, and what Python does with them:
  subscripts, membership, iteration, truth and \<open>str\<close>, with the exception of every case that fails.
  Numbers that are not integers are kept as the text Python shows for them.
\<close>

datatype json = NullJ | BoolJ bool | IntJ int | FloatJ string | StrJ string | ArrJ "json list"
  | ObjJ "(string \<times> json) list"

section \<open>Looking into a value\<close>

text \<open>\<open>v[k]\<close> with a text as the key\<close>

fun jt_get :: "json \<Rightarrow> string \<Rightarrow> json res" where
  "jt_get (ObjJ d) k = dict_get d k"
| "jt_get _ k = Inl TypeError"

text \<open>\<open>v.get(k)\<close>\<close>

fun jt_find :: "json \<Rightarrow> string \<Rightarrow> json res" where
  "jt_find (ObjJ d) k = Inr (case map_of d k of Some v \<Rightarrow> v | None \<Rightarrow> NullJ)"
| "jt_find _ k = Inl AttributeError"

text \<open>\<open>k in v\<close>\<close>

fun jt_in :: "string \<Rightarrow> json \<Rightarrow> bool res" where
  "jt_in k (ObjJ d) = Inr (has_key d k)"
| "jt_in k (StrJ s) = Inr (contains s k)"
| "jt_in k (ArrJ xs) = Inr (StrJ k \<in> set xs)"
| "jt_in k _ = Inl TypeError"

text \<open>\<open>v[0]\<close>; as the key of a dictionary, 0 is not there.\<close>

fun jt_first :: "json \<Rightarrow> json res" where
  "jt_first (ArrJ xs) = (case xs of [] \<Rightarrow> Inl IndexError | x # _ \<Rightarrow> Inr x)"
| "jt_first (StrJ s) = (case s of [] \<Rightarrow> Inl IndexError | c # _ \<Rightarrow> Inr (StrJ [c]))"
| "jt_first (ObjJ d) = Inl KeyError"
| "jt_first _ = Inl TypeError"

text \<open>\<open>for x in v\<close>\<close>

fun jt_iter :: "json \<Rightarrow> json list res" where
  "jt_iter (ArrJ xs) = Inr xs"
| "jt_iter (ObjJ d) = Inr (map (\<lambda>(k, v). StrJ k) d)"
| "jt_iter (StrJ s) = Inr (map (\<lambda>c. StrJ [c]) s)"
| "jt_iter _ = Inl TypeError"

text \<open>\<open>len(v)\<close>\<close>

definition jt_len :: "json \<Rightarrow> nat res" where
  "jt_len v = bindR (jt_iter v) (\<lambda>xs. Inr (length xs))"

text \<open>\<open>v.items()\<close>\<close>

fun jt_items :: "json \<Rightarrow> (string \<times> json) list res" where
  "jt_items (ObjJ d) = Inr d"
| "jt_items _ = Inl AttributeError"

definition float_zero :: "string \<Rightarrow> bool" where
  "float_zero t \<longleftrightarrow> t = ''0.0'' \<or> t = ''-0.0''"

fun jt_true :: "json \<Rightarrow> bool" where
  "jt_true NullJ = False"
| "jt_true (BoolJ b) = b"
| "jt_true (IntJ i) = (i \<noteq> 0)"
| "jt_true (FloatJ t) = (\<not> float_zero t)"
| "jt_true (StrJ s) = (s \<noteq> [])"
| "jt_true (ArrJ xs) = (xs \<noteq> [])"
| "jt_true (ObjJ d) = (d \<noteq> [])"

section \<open>Scalars as text\<close>

text \<open>\<open>str(v)\<close> of a scalar. A list or a dictionary where the services send a scalar is an error here.\<close>

fun jt_str :: "json \<Rightarrow> string res" where
  "jt_str NullJ = Inr ''None''"
| "jt_str (BoolJ b) = Inr (if b then ''True'' else ''False'')"
| "jt_str (IntJ i) = Inr (str_int i)"
| "jt_str (FloatJ t) = Inr t"
| "jt_str (StrJ s) = Inr s"
| "jt_str _ = Inl TypeError"

text \<open>A value that must be a text, and one that must be a text or null: titles, names, addresses. Another
  value is passed on by the code and ends up in the answer; here it is an error.\<close>

fun jt_text :: "json \<Rightarrow> string res" where
  "jt_text (StrJ s) = Inr s"
| "jt_text _ = Inl TypeError"

fun jt_opt_text :: "json \<Rightarrow> string option res" where
  "jt_opt_text (StrJ s) = Inr (Some s)"
| "jt_opt_text NullJ = Inr None"
| "jt_opt_text _ = Inl TypeError"

text \<open>\<open>int(v)\<close>; a fraction, written without an exponent, is cut at its point.\<close>

fun jt_int :: "json \<Rightarrow> int res" where
  "jt_int (IntJ i) = Inr i"
| "jt_int (BoolJ b) = Inr (if b then 1 else 0)"
| "jt_int (StrJ s) = py_int s"
| "jt_int (FloatJ t) = py_int (takeWhile (\<lambda>c. c \<noteq> CHR ''.'') t)"
| "jt_int _ = Inl TypeError"

section \<open>Paths of keys\<close>

text \<open>\<open>v[k1][k2]...\<close>\<close>

fun jt_path :: "json \<Rightarrow> string list \<Rightarrow> json res" where
  "jt_path v [] = Inr v"
| "jt_path v (k # ks) = bindR (jt_get v k) (\<lambda>w. jt_path w ks)"

text \<open>\<open>[parse(x) for x in v[k1][k2]...]\<close>\<close>

definition jt_map :: "(json \<Rightarrow> 'a res) \<Rightarrow> json \<Rightarrow> string list \<Rightarrow> 'a list res" where
  "jt_map parse v ks = bindR (jt_path v ks) (\<lambda>w. bindR (jt_iter w) (mapR parse))"

lemma jt_map_length:
  "jt_map parse v ks = Inr ys \<Longrightarrow> jt_path v ks = Inr w \<Longrightarrow> jt_len w = Inr (length ys)"
  by (auto simp: jt_map_def jt_len_def bindR_eq_Inr dest: mapR_Inr_length)

end
