(* ===== verification/PlgUtils.thy ===== *)
theory PlgUtils
  imports ConfTree PyTree
begin

text \<open>
  What the streaming service plugins share (\<open>pycommon/upmplgutils.py\<close>, \<open>pycommon/upmplgmodels.py\<close>,
  \<open>pycommon/xbmcplug.py\<close>): directory entries, option lookup, the track and album objects with
  their default values, the translation of tracks into entries and the permanent track URLs. An
  entry is the dictionary that is sent to the parent: its order does not matter, so it is a map.
\<close>

type_synonym entry = "string \<rightharpoonup> string"

definition truthy :: "string option \<Rightarrow> bool" where
  "truthy v \<longleftrightarrow> (case v of None \<Rightarrow> False | Some s \<Rightarrow> s \<noteq> [])"

lemma truthy_simps [simp]: "\<not> truthy None" "truthy (Some s) \<longleftrightarrow> s \<noteq> []"
  by (simp_all add: truthy_def)

text \<open>\<open>if v: e[k] = v\<close>\<close>

definition set_if :: "string \<Rightarrow> string option \<Rightarrow> entry \<Rightarrow> entry" where
  "set_if k v e = (if truthy v then e(k := v) else e)"

lemma set_if_apply [simp, dict_simps]:
  "set_if k v e k' = (if truthy v \<and> k' = k then v else e k')"
  by (simp add: set_if_def)

section \<open>Directory entries\<close>

definition direntry ::
  "string \<Rightarrow> string \<Rightarrow> string \<Rightarrow> string option \<Rightarrow> string option \<Rightarrow> string option \<Rightarrow> string \<Rightarrow>
   string option \<Rightarrow> string option \<Rightarrow> entry" where
  "direntry i pid title arturi artist upnpclass searchable date description =
     (let ret = [''id'' \<mapsto> i, ''pid'' \<mapsto> pid, ''tt'' \<mapsto> title, ''tp'' \<mapsto> ''ct'', ''searchable'' \<mapsto> searchable];
          ret = set_if ''upnp:albumArtURI'' arturi ret;
          ret = set_if ''upnp:artist'' artist ret;
          ret = set_if ''dc:date'' date ret;
          ret = (if truthy upnpclass then ret(''upnp:class'' := upnpclass)
                 else ret(''upnp:class'' \<mapsto> ''object.container.storageFolder''))
      in set_if ''dc:description'' description ret)"

text \<open>The call with an identifier, a parent and a title.\<close>

definition direntry3 :: "string \<Rightarrow> string \<Rightarrow> string \<Rightarrow> entry" where
  "direntry3 i pid title = direntry i pid title None None None ''1'' None None"

lemma direntry_fields [simp, dict_simps]:
  "direntry i pid title arturi artist upnpclass searchable date description ''id'' = Some i"
  "direntry i pid title arturi artist upnpclass searchable date description ''pid'' = Some pid"
  "direntry i pid title arturi artist upnpclass searchable date description ''tt'' = Some title"
  "direntry i pid title arturi artist upnpclass searchable date description ''tp'' = Some ''ct''"
  by (simp_all add: direntry_def Let_def)

lemma direntry3_fields [simp, dict_simps]:
  "direntry3 i pid title ''id'' = Some i" "direntry3 i pid title ''pid'' = Some pid"
  "direntry3 i pid title ''tt'' = Some title" "direntry3 i pid title ''tp'' = Some ''ct''"
  by (simp_all add: direntry3_def)

section \<open>Options\<close>

text \<open>The configuration file, then the environment, then the default.\<close>

definition getOptionValue :: "conf \<Rightarrow> (string \<rightharpoonup> string) \<Rightarrow> string \<Rightarrow> string option \<Rightarrow> string option res" where
  "getOptionValue upconfig environ nm dflt =
     bindR (simple_get upconfig nm []) (\<lambda>value.
       case value of
         Some v \<Rightarrow> Inr (Some v)
       | None \<Rightarrow> (case environ (''UPMPD_'' @ py_upper nm) of Some v \<Rightarrow> Inr (Some v) | None \<Rightarrow> Inr dflt))"

definition getserviceuserpass ::
  "conf \<Rightarrow> (string \<rightharpoonup> string) \<Rightarrow> conf \<Rightarrow> string \<Rightarrow> (string option \<times> string option) res" where
  "getserviceuserpass upconfig environ altconf servicename =
     bindR (getOptionValue upconfig environ (servicename @ ''user'') None) (\<lambda>username.
     bindR (getOptionValue upconfig environ (servicename @ ''pass'') None) (\<lambda>password.
       if \<not> truthy username \<or> \<not> truthy password then
         bindR (simple_get altconf (servicename @ ''user'') []) (\<lambda>username.
         bindR (simple_get altconf (servicename @ ''pass'') []) (\<lambda>password.
           Inr (username, password)))
       else Inr (username, password)))"

section \<open>Track objects\<close>

text \<open>The objects of \<open>upmplgmodels.py\<close>. What is only turned into text later is kept as it came from the
  service; an identifier is kept as its text.\<close>

record artist_model =
  art_id :: string
  art_name :: string
  art_image :: "string option"

definition artist_defaults :: artist_model where
  "artist_defaults = \<lparr>art_id = ''None'', art_name = ''Unknown'', art_image = None\<rparr>"

record album_model =
  alb_id :: string
  alb_name :: string
  alb_image :: "string option"
  alb_artist :: "artist_model option"
  alb_num_tracks :: json
  alb_duration :: json
  alb_release_date :: "string option"
  alb_description :: "string option"
  alb_available :: bool
  alb_maxsamprate :: string
  alb_maxbitdepth :: string

definition album_defaults :: "string \<Rightarrow> album_model" where
  "album_defaults i =
     \<lparr>alb_id = i, alb_name = ''Unknown'', alb_image = None, alb_artist = None, alb_num_tracks = IntJ (-1),
      alb_duration = IntJ (-1), alb_release_date = None, alb_description = None, alb_available = True,
      alb_maxsamprate = ''44.1'', alb_maxbitdepth = ''16''\<rparr>"

record playlist_model =
  pl_id :: string
  pl_name :: string
  pl_image :: "string option"
  pl_artist :: "artist_model option"
  pl_description :: "string option"
  pl_num_tracks :: json
  pl_duration :: json
  pl_userid :: "string option"

definition playlist_defaults :: "string \<Rightarrow> string \<Rightarrow> playlist_model" where
  "playlist_defaults i nm =
     \<lparr>pl_id = i, pl_name = nm, pl_image = None, pl_artist = None, pl_description = None,
      pl_num_tracks = IntJ (-1), pl_duration = IntJ (-1), pl_userid = None\<rparr>"

record track_model =
  trk_id :: string
  trk_name :: string
  trk_image :: "string option"
  trk_upnpclass :: string
  trk_duration :: json
  trk_track_num :: json
  trk_disc_num :: json
  trk_artist :: "artist_model option"
  trk_album :: "album_model option"
  trk_available :: bool

definition track_defaults :: "string \<Rightarrow> string \<Rightarrow> track_model" where
  "track_defaults i nm =
     \<lparr>trk_id = i, trk_name = nm, trk_image = None, trk_upnpclass = ''object.item.audioItem.musicTrack'',
      trk_duration = IntJ (-1), trk_track_num = IntJ (-1), trk_disc_num = IntJ 1, trk_artist = None,
      trk_album = None, trk_available = True\<rparr>"

section \<open>Tracks to entries\<close>

definition track_path :: "string \<Rightarrow> string \<Rightarrow> string" where
  "track_path pathprefix i = path_join pathprefix (''track?version=1&trackId='' @ i)"

definition trackentry ::
  "string \<Rightarrow> string \<Rightarrow> string \<Rightarrow> string \<Rightarrow> string \<Rightarrow> track_model \<Rightarrow> entry res" where
  "trackentry default_mime default_samplerate httphp pathprefix objid track =
     (let li = [''pid'' \<mapsto> objid, ''id'' \<mapsto> objid @ ''$'' @ trk_id track, ''tt'' \<mapsto> trk_name track,
                ''uri'' \<mapsto> ''http://'' @ httphp @ track_path pathprefix (trk_id track), ''tp'' \<mapsto> ''it''];
          li = set_if ''upnp:albumArtURI'' (trk_image track) li;
          li = (case trk_album track of
                  None \<Rightarrow> li
                | Some album \<Rightarrow>
                    let li = li(''upnp:album'' \<mapsto> alb_name album);
                        li = (if \<not> truthy (trk_image track)
                              then set_if ''upnp:albumArtURI'' (alb_image album) li else li)
                    in set_if ''releasedate'' (alb_release_date album) li)
      in bindR (jt_str (trk_track_num track)) (\<lambda>track_num.
           case trk_artist track of
             None \<Rightarrow> Inl AttributeError
           | Some artist \<Rightarrow>
               bindR (jt_str (trk_disc_num track)) (\<lambda>disc_num.
               bindR (jt_str (trk_duration track)) (\<lambda>duration.
                 Inr (li(''upnp:originalTrackNumber'' \<mapsto> track_num,
                     ''upnp:artist'' \<mapsto> art_name artist, ''dc:title'' \<mapsto> trk_name track,
                     ''discnumber'' \<mapsto> disc_num, ''duration'' \<mapsto> duration,
                     ''upnp:class'' \<mapsto> trk_upnpclass track, ''res:mime'' \<mapsto> default_mime,
                     ''res:samplefreq'' \<mapsto> default_samplerate))))))"

definition trackentries ::
  "string \<Rightarrow> string \<Rightarrow> string \<Rightarrow> string \<Rightarrow> string \<Rightarrow> track_model list \<Rightarrow> entry list res" where
  "trackentries default_mime default_samplerate httphp pathprefix objid tracks =
     mapR (trackentry default_mime default_samplerate httphp pathprefix objid)
       (filter trk_available tracks)"

text \<open>
  The regular expression is the path prefix, \<open>track?version=1&trackId=\<close> and \<open>(.+)$\<close>: the group takes
  the rest of the line, and \<open>$\<close> allows one line end after it. The prefix is taken literally, which
  is what the expression means for a prefix without metacharacters.
\<close>

definition trackid_from_urlpath :: "string \<Rightarrow> (string \<rightharpoonup> string) \<Rightarrow> string res" where
  "trackid_from_urlpath pathprefix a =
     (case a ''path'' of
        None \<Rightarrow> Inl (Raised ''trackuri: no path in args'')
      | Some path \<Rightarrow>
          (let lead = track_path pathprefix [];
               rest = drop (length lead) path;
               grp = takeWhile (\<lambda>c. c \<noteq> CHR 0x0A) rest
           in if startswith path lead \<and> grp \<noteq> [] \<and> drop (length grp) rest \<in> {[], [CHR 0x0A]}
              then Inr grp else Inl (Raised ''trackuri: path does not match'')))"

lemma track_path_append: "track_path pathprefix i = track_path pathprefix [] @ i"
  by (simp add: track_path_def path_join_def)

lemma trackid_from_track_path:
  assumes "i \<noteq> []" and "CHR 0x0A \<notin> set i"
  shows "trackid_from_urlpath pathprefix [''path'' \<mapsto> track_path pathprefix i] = Inr i"
proof -
  have tw: "takeWhile (\<lambda>c. c \<noteq> CHR 0x0A) i = i" using assms(2) by (auto simp: takeWhile_eq_all_conv)
  show ?thesis
    using assms(1) track_path_append [of pathprefix i]
    by (simp add: trackid_from_urlpath_def Let_def tw del: takeWhile_eq_all_conv)
qed

lemma trackentry_fields:
  assumes "trackentry m s httphp pathprefix objid track = Inr e"
  shows "e ''id'' = Some (objid @ ''$'' @ trk_id track)" and "e ''tt'' = Some (trk_name track)"
    and "e ''uri'' = Some (''http://'' @ httphp @ track_path pathprefix (trk_id track))"
    and "e ''tp'' = Some ''it''"
  using assms by (auto simp: trackentry_def Let_def bindR_eq_Inr split: option.splits if_splits)

lemma trackentry_number:
  "trackentry m s httphp pathprefix objid track = Inr e \<Longrightarrow>
   jt_str (trk_track_num track) = Inr (the (e ''upnp:originalTrackNumber''))"
  by (auto simp: trackentry_def Let_def bindR_eq_Inr split: option.splits if_splits)

definition good_track :: "track_model \<Rightarrow> bool" where
  "good_track t \<longleftrightarrow> trk_artist t \<noteq> None \<and> trk_id t \<noteq> [] \<and> CHR 0x0A \<notin> set (trk_id t) \<and>
     is_ok (jt_str (trk_track_num t)) \<and> is_ok (jt_str (trk_disc_num t)) \<and> is_ok (jt_str (trk_duration t))"

lemma trackentry_returns: "good_track t \<Longrightarrow> \<exists>e. trackentry m s h p objid t = Inr e"
  by (auto simp: trackentry_def Let_def good_track_def is_ok_iff)

text \<open>An entry made for a track, with a URL that leads back to the track.\<close>

definition leads_back :: "string \<Rightarrow> string \<Rightarrow> string \<Rightarrow> track_model \<Rightarrow> entry \<Rightarrow> bool" where
  "leads_back httphp pathprefix objid t e \<longleftrightarrow>
     e ''id'' = Some (objid @ ''$'' @ trk_id t) \<and>
     (\<exists>p. e ''uri'' = Some (''http://'' @ httphp @ p) \<and>
        trackid_from_urlpath pathprefix [''path'' \<mapsto> p] = Inr (trk_id t))"

lemma trackentry_leads_back:
  "good_track t \<Longrightarrow> \<exists>e. trackentry m s httphp pathprefix objid t = Inr e \<and> leads_back httphp pathprefix objid t e"
  using trackentry_returns [of t m s httphp pathprefix objid] trackentry_fields(1,3) [of m s httphp pathprefix objid t]
    trackid_from_track_path [of "trk_id t" pathprefix]
  unfolding good_track_def leads_back_def by blast

text \<open>The tracks of a listing become entries one for one, in order, without those that are not
  available; and the URL of each entry is permanent: the HTTP server that is asked for its path
  finds in it exactly the identifier of the track it was made for.\<close>

theorem trackentries_permanent_urls:
  assumes "list_all (\<lambda>t. \<not> trk_available t \<or> good_track t) tracks"
  shows "\<exists>es. trackentries m s httphp pathprefix objid tracks = Inr es \<and>
    list_all2 (leads_back httphp pathprefix objid) (filter trk_available tracks) es"
  using assms
proof (induction tracks)
  case (Cons t tracks)
  obtain es where es: "trackentries m s httphp pathprefix objid tracks = Inr es"
    "list_all2 (leads_back httphp pathprefix objid) (filter trk_available tracks) es"
    using Cons by auto
  show ?case
  proof (cases "trk_available t")
    case True
    then obtain e where "trackentry m s httphp pathprefix objid t = Inr e" "leads_back httphp pathprefix objid t e"
      using Cons.prems trackentry_leads_back by fastforce
    with es True show ?thesis by (simp add: trackentries_def)
  qed (use es in \<open>simp add: trackentries_def\<close>)
qed (simp add: trackentries_def)

definition demo_tracks :: "track_model list" where
  "demo_tracks =
     [(track_defaults ''17'' ''One'')\<lparr>trk_artist := Some \<lparr>art_id = ''1'', art_name = ''X'', art_image = None\<rparr>\<rparr>,
      (track_defaults ''18'' ''Gone'')\<lparr>trk_available := False\<rparr>]"

theorem trackentries_permanent_urls_witness:
  "list_all (\<lambda>t. \<not> trk_available t \<or> good_track t) demo_tracks \<and>
   (\<exists>e. trackentries ''audio/mpeg'' ''44100'' ''h:1'' ''/qobuz'' ''0$qobuz$/album/3'' demo_tracks = Inr [e] \<and>
     e ''id'' = Some ''0$qobuz$/album/3$17'')"
proof -
  have h: "list_all (\<lambda>t. \<not> trk_available t \<or> good_track t) demo_tracks" by code_simp
  have "filter trk_available demo_tracks = [hd demo_tracks]" "trk_id (hd demo_tracks) = ''17''"
    by (simp_all add: demo_tracks_def track_defaults_def)
  with h trackentries_permanent_urls [OF h, of "''audio/mpeg''" "''44100''" "''h:1''" "''/qobuz''" "''0$qobuz$/album/3''"]
  show ?thesis by (auto simp: list_all2_Cons1 leads_back_def)
qed

section \<open>Item views\<close>

record item_model =
  it_id :: string
  it_name :: string
  it_maxsamprate :: string
  it_maxbitdepth :: string
  it_image :: "string option"
  it_upnpclass :: "string option"
  it_artname :: "string option"
  it_description :: "string option"

text \<open>The URLs of the items whose identifier is not itself a URL.\<close>

definition urls_from_id :: "(string \<Rightarrow> string res) \<Rightarrow> item_model list \<Rightarrow> string list res" where
  "urls_from_id url_for items =
     mapR (\<lambda>item. url_for (it_id item)) (filter (\<lambda>item. py_find (it_id item) ''http'' \<noteq> Some 0) items)"

definition view_title :: "item_model \<Rightarrow> string" where
  "view_title item =
     (if it_maxsamprate item \<noteq> ''44.1'' \<or> it_maxbitdepth item \<noteq> ''16''
      then it_name item @ '' ('' @ it_maxbitdepth item @ ''/'' @ it_maxsamprate item @ '')''
      else it_name item)"

definition view_entry :: "string \<Rightarrow> string \<Rightarrow> item_model \<Rightarrow> string \<Rightarrow> entry" where
  "view_entry idprefix objid item url =
     direntry (idprefix @ url) objid (view_title item) (it_image item) (it_artname item)
       (it_upnpclass item) ''1'' None (it_description item)"

definition view :: "string \<Rightarrow> string \<Rightarrow> item_model list \<Rightarrow> string list \<Rightarrow> entry list \<Rightarrow> entry list" where
  "view idprefix objid data_items urls entries =
     entries @ map (\<lambda>(item, url). view_entry idprefix objid item url) (zip data_items urls)"

text \<open>Where no item has a URL as its identifier, the view shows every item under its own URL,
  in order.\<close>

lemma view_shows_items:
  assumes "list_all (\<lambda>it. \<not> startswith (it_id it) ''http'') items"
    and "urls_from_id (\<lambda>i. Inr (url i)) items = Inr urls"
  shows "view idprefix objid items urls entries =
    entries @ map (\<lambda>it. view_entry idprefix objid it (url (it_id it))) items"
proof -
  have "filter (\<lambda>item. py_find (it_id item) ''http'' \<noteq> Some 0) items = items"
    using assms(1) py_find_0 [of _ "''http''"] by (auto simp: list_all_iff filter_id_conv)
  moreover have "mapR (\<lambda>it. Inr (url (it_id it))) items = Inr (map (\<lambda>it. url (it_id it)) items)"
    by (rule mapR_total) simp
  ultimately have "urls = map (\<lambda>it. url (it_id it)) items"
    using assms(2) by (simp add: urls_from_id_def)
  then show ?thesis by (simp add: view_def zip_map2 comp_def zip_same_conv_map)
qed

definition demo_item :: "string \<Rightarrow> string \<Rightarrow> item_model" where
  "demo_item i nm = \<lparr>it_id = i, it_name = nm, it_maxsamprate = ''96'', it_maxbitdepth = ''24'',
     it_image = None, it_upnpclass = None, it_artname = None, it_description = None\<rparr>"

lemma view_shows_items_example:
  "list_all (\<lambda>it. \<not> startswith (it_id it) ''http'') [demo_item ''3'' ''A''] \<and>
   urls_from_id (\<lambda>i. Inr (''/album/'' @ i)) [demo_item ''3'' ''A''] = Inr [''/album/3''] \<and>
   view ''0$q$'' ''0$q$'' [demo_item ''3'' ''A''] [''/album/3''] [] =
     [view_entry ''0$q$'' ''0$q$'' (demo_item ''3'' ''A'') ''/album/3'']"
proof -
  have h: "list_all (\<lambda>it. \<not> startswith (it_id it) ''http'') [demo_item ''3'' ''A'']"
    "urls_from_id (\<lambda>i. Inr (''/album/'' @ i)) [demo_item ''3'' ''A''] = Inr [''/album/3'']"
    by code_simp+
  show ?thesis using h view_shows_items [OF h, of "''0$q$''" "''0$q$''" "[]"] by (simp add: demo_item_def)
qed

text \<open>With such an item the pairing slips: the URLs leave it out but the items do not, so it
  appears under the URL of the item after it, and the last item is lost.\<close>

lemma view_misaligned:
  assumes "urls_from_id (\<lambda>i. Inr (url i)) [a, b] = Inr urls"
    and "startswith (it_id a) ''http''" and "\<not> startswith (it_id b) ''http''"
  shows "view idprefix objid [a, b] urls [] = [view_entry idprefix objid a (url (it_id b))]"
  using assms by (auto simp: urls_from_id_def view_def py_find_0)

lemma view_misaligned_example:
  "view ''0$q$'' ''0$q$'' [demo_item ''http://x'' ''A'', demo_item ''3'' ''B''] [''/album/3''] [] =
     [view_entry ''0$q$'' ''0$q$'' (demo_item ''http://x'' ''A'') ''/album/3'']"
proof -
  have h: "urls_from_id (\<lambda>i. Inr (''/album/'' @ i)) [demo_item ''http://x'' ''A'', demo_item ''3'' ''B'']
      = Inr [''/album/3'']"
    "startswith (it_id (demo_item ''http://x'' ''A'')) ''http''"
    "\<not> startswith (it_id (demo_item ''3'' ''B'')) ''http''"
    by code_simp+
  show ?thesis using view_misaligned [OF h, of "''0$q$''" "''0$q$''"] by (simp add: demo_item_def)
qed

end
