(* ===== verification/PySort.thy ===== *)
theory PySort
  imports Prelude "HOL-Library.Multiset"
begin

text \<open>
  Python's stable sort with a comparison that may raise (\<open>functools.cmp_to_key\<close>), and the
  contract of a comparison function as the locale \<open>cmp_order\<close>: on the elements that satisfy
  \<open>ok\<close> it returns, it is antisymmetric and transitive. Inside the locale: sorting then succeeds,
  the result is sorted, is a permutation of the input and keeps the order of equal elements. The
  comparison functions of the sources are interpretations of it.
\<close>

section \<open>Stable sorting\<close>

text \<open>The sort only asks whether an element is less than one that precedes it.\<close>

fun ins_byR :: "('a \<Rightarrow> 'a \<Rightarrow> int res) \<Rightarrow> 'a \<Rightarrow> 'a list \<Rightarrow> 'a list res" where
  "ins_byR cmp x [] = Inr [x]"
| "ins_byR cmp x (y # ys) =
     bindR (cmp y x) (\<lambda>r. if r < 0 then bindR (ins_byR cmp x ys) (\<lambda>zs. Inr (y # zs))
                          else Inr (x # y # ys))"

fun sortR :: "('a \<Rightarrow> 'a \<Rightarrow> int res) \<Rightarrow> 'a list \<Rightarrow> 'a list res" where
  "sortR cmp [] = Inr []"
| "sortR cmp (x # xs) = bindR (sortR cmp xs) (ins_byR cmp x)"

lemma ins_byR_mset: "ins_byR cmp x ys = Inr zs \<Longrightarrow> mset zs = add_mset x (mset ys)"
  by (induction ys arbitrary: zs) (auto simp: bindR_eq_Inr split: if_splits)

lemma sortR_mset: "sortR cmp xs = Inr zs \<Longrightarrow> mset zs = mset xs"
  by (induction xs arbitrary: zs) (auto simp: bindR_eq_Inr dest: ins_byR_mset)

lemma sortR_set: "sortR cmp xs = Inr zs \<Longrightarrow> set zs = set xs"
  by (metis sortR_mset set_mset_mset)

lemma sortR_length: "sortR cmp xs = Inr zs \<Longrightarrow> length zs = length xs"
  by (metis sortR_mset size_mset)

section \<open>The contract of a comparison\<close>

locale cmp_order =
  fixes cmp :: "'a \<Rightarrow> 'a \<Rightarrow> int res"
    and ok :: "'a \<Rightarrow> bool"
  assumes cmp_returns: "ok a \<Longrightarrow> ok b \<Longrightarrow> \<exists>r. cmp a b = Inr r"
    and cmp_flip: "ok a \<Longrightarrow> ok b \<Longrightarrow> cmp a b = Inr r \<Longrightarrow> cmp b a = Inr r' \<Longrightarrow> r < 0 \<longleftrightarrow> 0 < r'"
    and cmp_trans: "ok a \<Longrightarrow> ok b \<Longrightarrow> ok c \<Longrightarrow> cmp a b = Inr r \<Longrightarrow> r \<le> 0 \<Longrightarrow> cmp b c = Inr r' \<Longrightarrow> r' \<le> 0
      \<Longrightarrow> \<exists>r''. cmp a c = Inr r'' \<and> r'' \<le> 0"
begin

definition le :: "'a \<Rightarrow> 'a \<Rightarrow> bool" where
  "le a b \<longleftrightarrow> (\<exists>r. cmp a b = Inr r \<and> r \<le> 0)"

definition equiv :: "'a \<Rightarrow> 'a \<Rightarrow> bool" where
  "equiv a b \<longleftrightarrow> le a b \<and> le b a"

lemma le_total: "ok a \<Longrightarrow> ok b \<Longrightarrow> \<not> le a b \<Longrightarrow> le b a"
  using cmp_returns [of a b] cmp_returns [of b a] cmp_flip [of b a] by (force simp: le_def)

lemma le_trans: "ok a \<Longrightarrow> ok b \<Longrightarrow> ok c \<Longrightarrow> le a b \<Longrightarrow> le b c \<Longrightarrow> le a c"
  unfolding le_def using cmp_trans by blast

lemma less_iff_not_le: "ok a \<Longrightarrow> ok b \<Longrightarrow> cmp b a = Inr r \<Longrightarrow> r < 0 \<longleftrightarrow> \<not> le a b"
  using cmp_returns [of a b] cmp_flip [of b a r] by (force simp: le_def)

lemma ins_sorted:
  assumes "ok x" and "\<forall>y \<in> set ys. ok y" and "sorted_wrt le ys"
  shows "\<exists>zs. ins_byR cmp x ys = Inr zs \<and> sorted_wrt le zs"
  using assms(2,3)
proof (induction ys)
  case (Cons y ys)
  obtain r where r: "cmp y x = Inr r" using cmp_returns Cons.prems(1) assms(1) by (meson list.set_intros(1))
  from Cons obtain zs where zs: "ins_byR cmp x ys = Inr zs" "sorted_wrt le zs" by auto
  then have set: "set zs = insert x (set ys)" by (metis ins_byR_mset set_mset_add_mset_insert set_mset_mset)
  show ?case
  proof (cases "r < 0")
    case True
    then have "le y x" using r by (auto simp: le_def)
    with True r zs set Cons.prems show ?thesis by auto
  next
    case False
    then have "le x y" using less_iff_not_le [OF assms(1) _ r] Cons.prems(1) by simp
    moreover have "le x z" if "z \<in> set ys" for z
      using le_trans [OF assms(1), of y z] Cons.prems that \<open>le x y\<close> by auto
    ultimately show ?thesis using False r Cons.prems(2) by simp
  qed
qed simp

lemma sort_sorted:
  assumes "\<forall>x \<in> set xs. ok x"
  shows "\<exists>zs. sortR cmp xs = Inr zs \<and> sorted_wrt le zs"
  using assms
proof (induction xs)
  case (Cons x xs)
  then obtain zs where zs: "sortR cmp xs = Inr zs" "sorted_wrt le zs" by auto
  moreover have "\<forall>z \<in> set zs. ok z" using sortR_set [OF zs(1)] Cons.prems by simp
  ultimately show ?case using ins_sorted [of x zs] Cons.prems by simp
qed simp

lemma ins_stable:
  assumes "ok a" and "ok x" and "\<forall>y \<in> set ys. ok y" and "ins_byR cmp x ys = Inr zs"
  shows "filter (equiv a) zs = filter (equiv a) (x # ys)"
  using assms(3,4)
proof (induction ys arbitrary: zs)
  case (Cons y ys)
  obtain r where r: "cmp y x = Inr r" using cmp_returns Cons.prems(1) assms(2) by (meson list.set_intros(1))
  show ?case
  proof (cases "r < 0")
    case True
    then obtain us where us: "ins_byR cmp x ys = Inr us" "zs = y # us"
      using Cons.prems(2) r by (auto simp: bindR_eq_Inr)
    have "\<not> le x y" using less_iff_not_le [OF assms(2) _ r] Cons.prems(1) True by simp
    then have "\<not> (equiv a x \<and> equiv a y)"
      using le_trans [of x a y] assms(1,2) Cons.prems(1) by (auto simp: equiv_def)
    with us Cons.IH [of us] Cons.prems(1) show ?thesis by auto
  next
    case False
    with Cons.prems(2) r show ?thesis by simp
  qed
qed simp

text \<open>Elements that compare equal keep the order they had.\<close>

lemma sort_stable:
  assumes "ok a" and "\<forall>x \<in> set xs. ok x" and "sortR cmp xs = Inr zs"
  shows "filter (equiv a) zs = filter (equiv a) xs"
  using assms(2,3)
proof (induction xs arbitrary: zs)
  case (Cons x xs)
  then obtain us where us: "sortR cmp xs = Inr us" "ins_byR cmp x us = Inr zs"
    by (auto simp: bindR_eq_Inr)
  have "\<forall>u \<in> set us. ok u" using sortR_set [OF us(1)] Cons.prems(1) by simp
  then have "filter (equiv a) zs = filter (equiv a) (x # us)"
    using ins_stable [OF assms(1) _ _ us(2)] Cons.prems(1) by simp
  with Cons.IH [OF _ us(1)] Cons.prems(1) show ?case by simp
qed simp

end

section \<open>Lexicographic comparisons\<close>

text \<open>The three-way comparison of two keys, and the chain "compare by this key, then by the rest".\<close>

definition cmp_key :: "'k::linorder \<Rightarrow> 'k \<Rightarrow> int" where
  "cmp_key a b = (if a < b then -1 else if b < a then 1 else 0)"

definition then_cmp :: "int \<Rightarrow> int \<Rightarrow> int" where
  "then_cmp r s = (if r = 0 then s else r)"

lemma cmp_key_simps [simp]:
  "cmp_key a b = 0 \<longleftrightarrow> a = b" "cmp_key a b < 0 \<longleftrightarrow> a < b" "0 < cmp_key a b \<longleftrightarrow> b < a"
  "cmp_key a b \<le> 0 \<longleftrightarrow> a \<le> b"
  by (auto simp: cmp_key_def)

definition good_cmp :: "('a \<Rightarrow> 'a \<Rightarrow> int) \<Rightarrow> bool" where
  "good_cmp f \<longleftrightarrow>
     (\<forall>a b. f a b < 0 \<longleftrightarrow> 0 < f b a) \<and> (\<forall>a b c. f a b \<le> 0 \<longrightarrow> f b c \<le> 0 \<longrightarrow> f a c \<le> 0)"

lemma good_cmp_key: "good_cmp (\<lambda>a b. cmp_key (key a) (key b))"
  by (auto simp: good_cmp_def)

lemma good_then_cmp:
  assumes "good_cmp f" and "good_cmp g"
  shows "good_cmp (\<lambda>a b. then_cmp (f a b) (g a b))"
proof -
  have flip: "f a b < 0 \<longleftrightarrow> 0 < f b a" "g a b < 0 \<longleftrightarrow> 0 < g b a" for a b
    using assms by (auto simp: good_cmp_def)
  have trans: "f a b \<le> 0 \<Longrightarrow> f b c \<le> 0 \<Longrightarrow> f a c \<le> 0" "g a b \<le> 0 \<Longrightarrow> g b c \<le> 0 \<Longrightarrow> g a c \<le> 0" for a b c
    using assms unfolding good_cmp_def by blast+
  have zero: "f a b = 0 \<longleftrightarrow> f b a = 0" for a b using flip(1) [of a b] flip(1) [of b a] by linarith
  have eq: "f a b = 0 \<Longrightarrow> f b c = 0 \<Longrightarrow> f a c = 0" for a b c
    using trans(1) [of a b c] trans(1) [of c b a] zero flip(1) [of a c] flip(1) [of c a]
    by (metis order.order_iff_strict less_le_not_le)
  have strict: "f a c < 0" if "f a b \<le> 0" "f b c \<le> 0" "f a b < 0 \<or> f b c < 0" for a b c
  proof (rule ccontr)
    assume "\<not> f a c < 0"
    then have "f a c = 0" using trans(1) [OF that(1,2)] by simp
    then have "f c a \<le> 0" using zero [of a c] by simp
    then have "f b a \<le> 0" "f c b \<le> 0" using trans(1) that(1,2) by blast+
    then show False using that flip(1) by (meson not_le)
  qed
  show ?thesis
    unfolding good_cmp_def
  proof (intro conjI allI impI)
    fix a b show "then_cmp (f a b) (g a b) < 0 \<longleftrightarrow> 0 < then_cmp (f b a) (g b a)"
      using flip zero by (auto simp: then_cmp_def)
  next
    fix a b c assume "then_cmp (f a b) (g a b) \<le> 0" "then_cmp (f b c) (g b c) \<le> 0"
    then show "then_cmp (f a c) (g a c) \<le> 0"
      using strict [of a b c] eq [of a b c] trans(2) [of a b c]
      by (auto simp: then_cmp_def split: if_splits)
  qed
qed

lemma cmp_order_of_good:
  assumes "good_cmp f" and "\<And>a b. ok a \<Longrightarrow> ok b \<Longrightarrow> cmp a b = Inr (f a b)"
  shows "cmp_order cmp ok"
  using assms by unfold_locales (auto simp: good_cmp_def)

end
