(* ===== verification/Radios.thy ===== *)
theory Radios
  imports PlgUtils PySort
begin

text \<open>
  The Internet radios (\<open>pycommon/upradioconf.py\<close>, \<open>upradios/upradios-app.py\<close>): reading their
  definitions from the configuration, where one thread per radio fetches its stream URL and writes
  it in its own slot, and their entries. The helper program that a thread runs is a function from
  the configured URL to its output, if it succeeds.
\<close>

record radio =
  rd_title :: string
  rd_streamUri :: string
  rd_uri :: "string option"
  rd_artUri :: "string option"
  rd_mime :: "string option"

section \<open>Reading the configuration\<close>

text \<open>Output that does not decode is kept as the bytes it is.\<close>

record radio_task =
  tk_index :: nat
  tk_title :: string
  tk_uri :: "string option"
  tk_artUri :: "string option"
  tk_mime :: "string option"

definition fetchStream :: "(string option \<Rightarrow> string option) \<Rightarrow> radio_task \<Rightarrow> radio option list \<Rightarrow> radio option list" where
  "fetchStream run t radios =
     (let streamUri = (case run (tk_uri t) of
            None \<Rightarrow> []
          | Some out \<Rightarrow> if valid_utf8 out then strip is_crlf out else out)
      in if streamUri \<noteq> []
         then radios[tk_index t := Some \<lparr>rd_title = tk_title t, rd_streamUri = streamUri,
                rd_uri = tk_uri t, rd_artUri = tk_artUri t, rd_mime = tk_mime t\<rparr>]
         else radios)"

text \<open>The loop over the sections: a slot and a task for each whose name starts with \<open>radio\<close>.\<close>

fun radio_tasks :: "conf \<Rightarrow> string list \<Rightarrow> nat \<Rightarrow> radio_task list res" where
  "radio_tasks conf [] n = Inr []"
| "radio_tasks conf (k # ks) n =
     (if startswith k ''radio'' then
        bindR (simple_get conf ''url'' k) (\<lambda>uri.
        bindR (simple_get conf ''artUrl'' k) (\<lambda>artUri.
        bindR (simple_get conf ''mime'' k) (\<lambda>mime.
        bindR (radio_tasks conf ks (Suc n)) (\<lambda>ts.
          Inr (\<lparr>tk_index = n, tk_title = drop 6 k, tk_uri = uri, tk_artUri = artUri, tk_mime = mime\<rparr> # ts)))))
      else radio_tasks conf ks n)"

text \<open>The threads run in any order; \<open>order\<close> is the order in which they write.\<close>

definition run_tasks ::
  "(string option \<Rightarrow> string option) \<Rightarrow> radio_task list \<Rightarrow> radio option list \<Rightarrow> radio option list" where
  "run_tasks run order radios = fold (fetchStream run) order radios"

text \<open>The empty slots are dropped at the end, keeping the order.\<close>

definition compact :: "radio option list \<Rightarrow> radio list" where
  "compact radios = map the (filter (\<lambda>rd. rd \<noteq> None) radios)"

definition readRadiosFromConf ::
  "(string option \<Rightarrow> string option) \<Rightarrow> (radio_task list \<Rightarrow> radio_task list) \<Rightarrow> conf \<Rightarrow> radio list \<Rightarrow> radio list res" where
  "readRadiosFromConf run schedule conf radios =
     bindR (getSubKeys_unsorted conf) (\<lambda>keys.
     bindR (radio_tasks conf keys (length radios)) (\<lambda>ts.
       Inr (compact (run_tasks run (schedule ts) (map Some radios @ replicate (length ts) None)))))"

text \<open>The main configuration file first, then the radio list, if there is one. The number of threads
  after which the reader waits only has to be a number: waiting does not change what is read.\<close>

definition readRadios ::
  "(string option \<Rightarrow> string option) \<Rightarrow> (radio_task list \<Rightarrow> radio_task list) \<Rightarrow> conf \<Rightarrow> conf option \<Rightarrow> radio list res" where
  "readRadios run schedule upconfig radioconf =
     bindR (simple_get upconfig ''upradiosmaxthreads'' []) (\<lambda>m.
     bindR (if truthy m then py_int (the m) else Inr 5) (\<lambda>maxthreads.
     bindR (readRadiosFromConf run schedule upconfig []) (\<lambda>radios.
       case radioconf of
         None \<Rightarrow> Inr radios
       | Some rc \<Rightarrow> readRadiosFromConf run schedule rc radios)))"

section \<open>Access and entries\<close>

definition get_radio :: "radio list \<Rightarrow> int \<Rightarrow> (int \<times> radio) res" where
  "get_radio radios idx =
     (if idx < 0 \<or> int (length radios) < idx then Inl IndexError
      else bindR (py_index radios idx) (\<lambda>radio. Inr (idx, radio)))"

text \<open>Iterating: one \<open>get_radio\<close> per index, up to the length.\<close>

definition radio_iter :: "radio list \<Rightarrow> (int \<times> radio) list res" where
  "radio_iter radios = mapR (\<lambda>i. get_radio radios (int i)) [0..<length radios]"

text \<open>A value None is sent as null: the key is absent from the map.\<close>

definition radioToEntry :: "string \<Rightarrow> string option \<Rightarrow> int \<times> radio \<Rightarrow> entry res" where
  "radioToEntry pid i ir =
     (case ir of (index, radio) \<Rightarrow>
       bindR (case i of
           None \<Rightarrow> (if pid = [] then Inl IndexError
                    else Inr ((if last pid \<noteq> CHR ''$'' then pid @ ''$'' else pid) @ ''e'' @ str_int index))
         | Some objid \<Rightarrow> Inr objid) (\<lambda>objid.
       let mime = (if truthy (rd_mime radio) then rd_mime radio else Some ''audio/mpeg'') in
       Inr ([''pid'' \<mapsto> pid, ''id'' \<mapsto> objid, ''uri'' \<mapsto> rd_streamUri radio, ''tp'' \<mapsto> ''it'',
            ''res:mime'' \<mapsto> the mime, ''upnp:class'' \<mapsto> ''object.item.audioItem.musicTrack'',
            ''tt'' \<mapsto> rd_title radio, ''upnp:artist'' \<mapsto> ''Internet Radio'']
            (''upnp:albumArtURI'' := rd_artUri radio))))"

definition radioIndexFromId :: "string \<Rightarrow> int res" where
  "radioIndexFromId objid =
     (case py_find objid ''$e'' of
        None \<Rightarrow> Inl (Raised ''Bad objid'')
      | Some stridx \<Rightarrow> py_int (drop (stridx + 2) objid))"

text \<open>The browse request of the radios plugin; a failure while answering for one object yields an
  empty list.\<close>

definition upradios_browse :: "radio list \<Rightarrow> (string \<rightharpoonup> string) \<Rightarrow> entry list res" where
  "upradios_browse radios a =
     (case a ''objid'' of
        None \<Rightarrow> Inl (Raised ''No objid in args'')
      | Some objid \<Rightarrow>
          (let bflg = (case a ''flag'' of None \<Rightarrow> ''children'' | Some f \<Rightarrow> f) in
           if bflg = ''meta'' then
             (case bindR (radioIndexFromId objid) (\<lambda>idx.
                   bindR (get_radio radios idx) (radioToEntry ''0$upradios$'' (Some objid))) of
                Inl _ \<Rightarrow> Inr [] | Inr e \<Rightarrow> Inr [e])
           else bindR (radio_iter radios) (mapR (radioToEntry objid None))))"

section \<open>The threads do not interfere\<close>

lemma radio_tasks_indexes: "radio_tasks conf ks n = Inr ts \<Longrightarrow> map tk_index ts = [n..<n + length ts]"
proof (induction ks arbitrary: n ts)
  case (Cons k ks)
  show ?case
  proof (cases "startswith k ''radio''")
    case True
    then obtain t us where ts: "ts = t # us" "tk_index t = n" "radio_tasks conf ks (Suc n) = Inr us"
      using Cons.prems by (auto simp: bindR_eq_Inr)
    from Cons.IH [OF ts(3)] ts(1,2) show ?thesis by (simp add: upt_conv_Cons del: upt_Suc)
  next
    case False
    with Cons show ?thesis by simp
  qed
qed simp

lemma fetchStream_commute:
  "tk_index t \<noteq> tk_index u \<Longrightarrow>
   fetchStream run t (fetchStream run u radios) = fetchStream run u (fetchStream run t radios)"
  by (auto simp: fetchStream_def Let_def list_update_swap)

lemma run_tasks_perm:
  assumes "mset order = mset ts" and "distinct (map tk_index ts)"
  shows "run_tasks run order radios = run_tasks run ts radios"
proof -
  have "fetchStream run x \<circ> fetchStream run y = fetchStream run y \<circ> fetchStream run x"
    if "x \<in> set ts" "y \<in> set ts" for x y
  proof (cases "tk_index x = tk_index y")
    case True
    then have "x = y" using assms(2) that by (auto simp: distinct_map inj_on_def)
    then show ?thesis by simp
  next
    case False
    then show ?thesis by (intro ext) (simp add: fetchStream_commute)
  qed
  then have "fold (fetchStream run) ts = fold (fetchStream run) order"
    by (rule fold_multiset_equiv) (simp_all add: assms(1))
  then show ?thesis by (simp add: run_tasks_def)
qed

text \<open>C21. The radio list does not depend on the order in which the fetching threads finish: any
  schedule of the writes gives the list of the configuration's order.\<close>

theorem readRadios_schedule_independent:
  assumes "\<And>ts. mset (schedule ts) = mset ts"
  shows "readRadiosFromConf run schedule conf radios = readRadiosFromConf run id conf radios"
proof -
  have "run_tasks run (schedule ts) rs = run_tasks run ts rs"
    if "radio_tasks conf keys (length radios) = Inr ts" for keys ts rs
    using run_tasks_perm [of "schedule ts" ts] assms radio_tasks_indexes [OF that] by simp
  then show ?thesis
    by (auto simp: readRadiosFromConf_def bindR_def split: sum.splits)
qed

definition demo_radios :: conf where
  "demo_radios = parseinput id
     [''[radio A]\<newline>'', ''url = http://a\<newline>'', ''[radio B]\<newline>'', ''url = http://b\<newline>''] (empty_conf False True True)"

theorem readRadios_schedule_independent_witness:
  "(\<forall>ts. mset (rev ts) = mset (ts :: radio_task list)) \<and>
   map_sum id (map rd_title) (readRadiosFromConf id rev demo_radios []) = Inr [''A'', ''B'']"
proof
  show "\<forall>ts. mset (rev ts) = mset (ts :: radio_task list)" by (intro allI mset_rev)
  have "readRadiosFromConf id rev demo_radios [] = readRadiosFromConf id id demo_radios []"
    by (rule readRadios_schedule_independent) simp
  also have "map_sum id (map rd_title) \<dots> = Inr [''A'', ''B'']" by code_simp
  finally show "map_sum id (map rd_title) (readRadiosFromConf id rev demo_radios []) = Inr [''A'', ''B'']" .
qed

section \<open>Indexes and identifiers\<close>

lemma get_radio_eq:
  "get_radio radios idx =
     (if 0 \<le> idx \<and> idx < int (length radios) then Inr (idx, radios ! nat idx) else Inl IndexError)"
  by (auto simp: get_radio_def py_index_def nth_res_def)

lemma radio_iter_total:
  "radio_iter radios = Inr (map (\<lambda>i. (int i, radios ! i)) [0..<length radios])"
  unfolding radio_iter_def by (rule mapR_total) (auto simp: get_radio_eq)

lemma find_e_append:
  "py_find p ''$e'' = None \<Longrightarrow> last p \<noteq> CHR ''$'' \<Longrightarrow> py_find (p @ ''$e'' @ s) ''$e'' = Some (length p)"
proof (induction p)
  case (Cons c p)
  then show ?case by (cases p) (auto split: if_splits)
qed simp

lemma find_e_append_dollar:
  "py_find p ''$e'' = None \<Longrightarrow> p \<noteq> [] \<Longrightarrow> last p = CHR ''$'' \<Longrightarrow>
   py_find (p @ ''e'' @ s) ''$e'' = Some (length p - 1)"
proof (induction p)
  case (Cons c p)
  then show ?case by (cases p) (auto split: if_splits)
qed simp

text \<open>The identifier of a radio leads back to it: in a container whose identifier holds no
  \<open>$e\<close>, the entry made for the radio at an index gets an identifier from which exactly that index
  is read, and browsing its metadata returns that radio.\<close>

theorem radio_id_roundtrip:
  assumes "pid \<noteq> []" and "py_find pid ''$e'' = None" and "i < length radios"
    and "radioToEntry pid None (int i, radios ! i) = Inr e" and "e ''id'' = Some objid"
  shows "radioIndexFromId objid = Inr (int i) \<and>
    (\<exists>e'. upradios_browse radios [''objid'' \<mapsto> objid, ''flag'' \<mapsto> ''meta''] = Inr [e'] \<and>
       e' ''id'' = Some objid \<and> e' ''uri'' = Some (rd_streamUri (radios ! i)))"
proof -
  have objid: "objid = (if last pid \<noteq> CHR ''$'' then pid @ ''$'' else pid) @ ''e'' @ str_int (int i)"
    using assms(1,4,5) by (auto simp: radioToEntry_def Let_def)
  have idx: "radioIndexFromId objid = Inr (int i)"
  proof (cases "last pid = CHR ''$''")
    case True
    have "drop (length pid - 1 + 2) (pid @ ''e'' @ str_int (int i)) = str_int (int i)"
      using assms(1) by (cases pid) auto
    then show ?thesis
      using find_e_append_dollar [OF assms(2,1) True, of "str_int (int i)"] True
      by (simp add: objid radioIndexFromId_def)
  next
    case False
    then show ?thesis
      using find_e_append [OF assms(2) False, of "str_int (int i)"]
      by (simp add: objid radioIndexFromId_def)
  qed
  then show ?thesis
    using assms(3) by (simp add: upradios_browse_def get_radio_eq radioToEntry_def Let_def)
qed

definition demo_radio :: radio where
  "demo_radio = \<lparr>rd_title = ''R'', rd_streamUri = ''http://s'', rd_uri = None, rd_artUri = None, rd_mime = None\<rparr>"

lemma str_int_1: "str_int 1 = ''1''"
  by code_simp

theorem radio_id_roundtrip_witness:
  "radioIndexFromId ''0$upradios$e1'' = Inr 1 \<and>
   (\<exists>e'. upradios_browse [demo_radio, demo_radio] [''objid'' \<mapsto> ''0$upradios$e1'', ''flag'' \<mapsto> ''meta''] = Inr [e'])"
proof -
  obtain e where e: "radioToEntry ''0$upradios$'' None (int 1, [demo_radio, demo_radio] ! 1) = Inr e"
    by (simp add: radioToEntry_def Let_def)
  then have id: "e ''id'' = Some ''0$upradios$e1''"
    using str_int_1 by (auto simp: radioToEntry_def Let_def)
  show ?thesis
    using radio_id_roundtrip [of "''0$upradios$''" 1 "[demo_radio, demo_radio]" e "''0$upradios$e1''"] e id
    by auto
qed

end
