(* ===== verification/PyUrl.thy ===== *)
theory PyUrl
  imports PyInt
begin

text \<open>
  \<open>urllib.parse.quote\<close>, \<open>urllib.parse.unquote_to_bytes\<close> and \<open>xml.sax.saxutils.escape\<close>: what the
  sources use of the standard library to make URLs and XML fragments. Unquoting undoes quoting.
\<close>

definition hex_char :: "nat \<Rightarrow> char" where
  "hex_char d = (if d < 10 then char_of (48 + d) else char_of (55 + d))"

definition hex_val :: "char \<Rightarrow> nat option" where
  "hex_val c =
     (let n = (of_char c :: nat) in
      if 48 \<le> n \<and> n \<le> 57 then Some (n - 48)
      else if 65 \<le> n \<and> n \<le> 70 then Some (n - 55)
      else if 97 \<le> n \<and> n \<le> 102 then Some (n - 87)
      else None)"

lemma hex_val_char [simp]: "d < 16 \<Longrightarrow> hex_val (hex_char d) = Some d"
  by (auto simp: hex_val_def hex_char_def Let_def)

text \<open>The characters left alone: letters, digits, \<open>_.-~\<close> and the slash.\<close>

definition url_safe :: "char \<Rightarrow> bool" where
  "url_safe c \<longleftrightarrow>
     (let n = (of_char c :: nat) in
      (65 \<le> n \<and> n \<le> 90) \<or> (97 \<le> n \<and> n \<le> 122) \<or> (48 \<le> n \<and> n \<le> 57)) \<or>
     c \<in> {CHR ''_'', CHR ''.'', CHR ''-'', CHR ''~'', CHR ''/''}"

definition quote_char :: "char \<Rightarrow> string" where
  "quote_char c =
     (if url_safe c then [c]
      else [CHR 0x25, hex_char (of_char c div 16), hex_char (of_char c mod 16)])"

definition urlquote :: "string \<Rightarrow> string" where
  "urlquote s = concat (map quote_char s)"

fun unquote :: "string \<Rightarrow> string" where
  "unquote [] = []"
| "unquote [c] = [c]"
| "unquote [c, d] = [c, d]"
| "unquote (c # d # e # s) =
     (if c = CHR 0x25
      then (case (hex_val d, hex_val e) of
              (Some h, Some l) \<Rightarrow> char_of (16 * h + l) # unquote s
            | _ \<Rightarrow> c # unquote (d # e # s))
      else c # unquote (d # e # s))"

lemma unquote_Cons: "c \<noteq> CHR 0x25 \<Longrightarrow> unquote (c # s) = c # unquote s"
  by (cases s; cases "tl s") auto

lemma char_lt: "(of_char (c :: char) :: nat) < 256"
  by (metis nat_of_char_less_256)

lemma unquote_quote_char: "unquote (quote_char c @ s) = c # unquote s"
proof (cases "url_safe c")
  case True
  then have "c \<noteq> CHR 0x25" by (auto simp: url_safe_def)
  with True show ?thesis by (simp add: quote_char_def unquote_Cons)
next
  case False
  have "(of_char c :: nat) div 16 < 16" using char_lt [of c] by linarith
  then show ?thesis
    using False by (simp add: quote_char_def mult_div_mod_eq)
qed

lemma unquote_urlquote [simp, str_simps]: "unquote (urlquote s) = s"
  by (induction s) (simp_all add: urlquote_def unquote_quote_char)

lemma urlquote_append: "urlquote (a @ b) = urlquote a @ urlquote b"
  by (simp add: urlquote_def)

definition xml_escape :: "string \<Rightarrow> string" where
  "xml_escape s = replace_char (CHR ''<'') ''&lt;'' (replace_char (CHR ''>'') ''&gt;''
     (replace_char (CHR ''&'') ''&amp;'' s))"

end
