(* ===== verification/UprclUtils.thy ===== *)
theory UprclUtils
  imports PlgUtils PySort PyPath PyUrl
begin

text \<open>
  The shared part of the local media library, \<open>uprcl/uprclutils.py\<close>: documents of the Recoll index
  to entries, URLs, cover art with its cache of one answer per folder, the orders of containers and
  of item lists, and playlist files. A Recoll document is the function from its field names to their
  values, where a missing field is the empty string, with the binary form of its URL; the file
  system is what \<open>os.path.exists\<close> and \<open>os.listdir\<close> answer.
\<close>

record doc =
  d_val :: "string \<Rightarrow> string"
  d_binurl :: string

record fsenv =
  fe_exists :: "string \<Rightarrow> bool"
  fe_listdir :: "string \<Rightarrow> string list option"
  fe_resultstore :: bool

definition audiomtypes :: "string list" where
  "audiomtypes =
     [''audio/mpeg'', ''audio/flac'', ''application/flac'', ''audio/x-dsf'', ''audio/x-dff'', ''audio/x-aiff'',
      ''audio/x-flac'', ''application/x-flac'', ''application/ogg'', ''audio/aac'', ''audio/mp4'', ''video/mp4'',
      ''audio/x-aiff'', ''audio/x-musepack'', ''audio/ape'', ''audio/x-wav'', ''audio/x-wavpack'',
      ''inode/directory'', ''audio/x-mpegurl'']"

definition upnp2rclfields :: "(string \<times> string) list" where
  "upnp2rclfields =
     [(''upnp:album'', ''album''), (''upnp:albumArtURI'', ''albumarturi''), (''upnp:artist'', ''artist''),
      (''dc:description'', ''comment''), (''composer'', ''composer''), (''conductor'', ''conductor''),
      (''dc:date'', ''date''), (''upnp:genre'', ''genre''), (''duration'', ''duration''),
      (''res:bitrate'', ''bitrate''), (''res:bitsPerSample'', ''bits_per_sample''), (''res:channels'', ''channels''),
      (''res:mime'', ''mtype''), (''res:samplefreq'', ''sample_rate''), (''res:size'', ''fbytes''),
      (''tt'', ''title''), (''dc:title'', ''title''), (''upnp:originalTrackNumber'', ''tracknumber'')]"

section \<open>Paths and URLs\<close>

definition httpurl :: "string \<Rightarrow> string \<Rightarrow> string \<Rightarrow> string" where
  "httpurl httphp path query = ''http://'' @ httphp @ urlquote path @ query"

definition docpath :: "fsenv \<Rightarrow> doc \<Rightarrow> string" where
  "docpath fe doc =
     (if fe_resultstore fe
      then (let p = drop 7 (d_val doc ''url'') in if fe_exists fe p then p else unquote p)
      else drop 7 (d_binurl doc))"

definition docfolder :: "fsenv \<Rightarrow> doc \<Rightarrow> string res" where
  "docfolder fe doc =
     (let path = docpath fe doc;
          path = (if d_val doc ''mtype'' \<noteq> ''inode/directory'' then os_dirname path else path)
      in if path = [] then Inl IndexError
         else Inr (if last path \<noteq> CHR ''/'' then path @ ''/'' else path))"

text \<open>\<open>dirname\<close> and \<open>basename\<close> which look behind a final slash\<close>

definition utl_dirname :: "string \<Rightarrow> string res" where
  "utl_dirname path =
     (if path = [] then Inl IndexError
      else if last path = CHR ''/'' \<and> path \<noteq> ''/'' then Inr (os_dirname (butlast path))
      else Inr (os_dirname path))"

definition utl_basename :: "string \<Rightarrow> string res" where
  "utl_basename path =
     (if path = [] then Inl IndexError
      else if last path = CHR ''/'' \<and> path \<noteq> ''/'' then Inr (os_basename (butlast path))
      else Inr (os_basename path))"

definition tag2fn :: "string \<Rightarrow> string" where
  "tag2fn s =
     fold (\<lambda>c. replace_char c [])
       [CHR 0x22, CHR ''*'', CHR ''/'', CHR '':'', CHR ''<'', CHR ''>'', CHR ''?'', CHR 0x5C, CHR 0x7C] s"

section \<open>Cover art\<close>

definition embdimgurl :: "fsenv \<Rightarrow> doc \<Rightarrow> string \<Rightarrow> string \<Rightarrow> string option" where
  "embdimgurl fe doc httphp binpathprefix =
     (let url = (\<lambda>ext. Some (httpurl httphp (path_join binpathprefix (docpath fe doc @ ext)) ''?embed=1''))
      in if d_val doc ''embdimg'' = ''jpg'' then url ''.jpg''
         else if d_val doc ''embdimg'' = ''png'' then url ''.png''
         else None)"

definition artexts :: "string list" where
  "artexts = [''.jpg'', ''.png'']"

definition artnamegen :: "string \<Rightarrow> string list" where
  "artnamegen base = map (\<lambda>ext. base @ ext) artexts"

definition folderartnames :: "string list" where
  "folderartnames = concat (map artnamegen [''cover'', ''folder''])"

definition trackarturi :: "fsenv \<Rightarrow> doc \<Rightarrow> string \<Rightarrow> string \<Rightarrow> string \<Rightarrow> string option" where
  "trackarturi fe doc objpath httphp bpp =
     (case List.find (fe_exists fe) (artnamegen (fst (splitext objpath))) of
        Some artpath \<Rightarrow> Some (httpurl httphp (path_join bpp artpath) [])
      | None \<Rightarrow>
          if d_val doc ''embdimg'' \<noteq> [] then embdimgurl fe doc httphp bpp else None)"

text \<open>The answer for a folder: its first file, in the order of the names, called like a cover in any
  mix of cases. A folder that cannot be listed has none.\<close>

definition look_folder :: "fsenv \<Rightarrow> string \<Rightarrow> string \<Rightarrow> string \<Rightarrow> string option" where
  "look_folder fe httphp bpp folder =
     (case fe_listdir fe folder of
        None \<Rightarrow> None
      | Some names \<Rightarrow>
          (case List.find (\<lambda>f. py_lower (os_basename f) \<in> set folderartnames) (sort names) of
             None \<Rightarrow> None
           | Some f \<Rightarrow> Some (httpurl httphp (path_join (path_join bpp folder) (os_basename f)) [])))"

type_synonym artcache = "string \<rightharpoonup> string option"

definition folderart ::
  "fsenv \<Rightarrow> doc \<Rightarrow> string \<Rightarrow> string \<Rightarrow> string option \<Rightarrow> artcache \<Rightarrow> (string option \<times> artcache) res" where
  "folderart fe doc httphp bpp albtitle cache =
     bindR (docfolder fe doc) (\<lambda>folder.
       case (if truthy albtitle
             then List.find (\<lambda>p. fe_exists fe p) (map (path_join folder) (artnamegen (the albtitle)))
             else None) of
         Some path \<Rightarrow> Inr (Some (httpurl httphp path []), cache)
       | None \<Rightarrow>
           (case cache folder of
              Some arturi \<Rightarrow> Inr (arturi, cache)
            | None \<Rightarrow> (let arturi = look_folder fe httphp bpp folder in Inr (arturi, cache(folder \<mapsto> arturi)))))"

definition docarturi ::
  "fsenv \<Rightarrow> doc \<Rightarrow> string \<Rightarrow> string \<Rightarrow> bool \<Rightarrow> string option \<Rightarrow> artcache \<Rightarrow> (string option \<times> artcache) res" where
  "docarturi fe doc httphp bpp preferfolder albtitle cache =
     (let objpath = docpath fe doc;
          track = trackarturi fe doc objpath httphp bpp
      in if \<not> preferfolder \<and> truthy track then Inr (track, cache)
         else
           (case (if d_val doc ''group'' \<noteq> []
                  then List.find (fe_exists fe)
                         (artnamegen (path_join (os_dirname objpath) (tag2fn (d_val doc ''group''))))
                  else None) of
              Some artpath \<Rightarrow> Inr (Some (httpurl httphp (path_join bpp artpath) []), cache)
            | None \<Rightarrow>
                bindR (folderart fe doc httphp bpp albtitle cache) (\<lambda>(arturi, cache).
                  if truthy arturi then Inr (arturi, cache)
                  else if preferfolder then Inr (track, cache)
                  else Inr (arturi, cache))))"

section \<open>Documents to entries\<close>

definition set_fields :: "doc \<Rightarrow> (string \<times> string) list \<Rightarrow> entry \<Rightarrow> entry" where
  "set_fields doc names li =
     fold (\<lambda>(oname, dname) li. set_if oname (Some (d_val doc dname)) li) names li"

definition didl_role :: "string \<Rightarrow> string \<Rightarrow> string" where
  "didl_role role who =
     (if who = [] then []
      else ''<upnp:artist role='' @ [CHR 0x22] @ role @ [CHR 0x22] @ ''>'' @ xml_escape who @ ''</upnp:artist>'')"

text \<open>The part of a URL after its \<open>//\<close>; \<open>find\<close> answers -1 for a URL without it.\<close>

definition url_split :: "string \<Rightarrow> string \<times> string" where
  "url_split path =
     (let k = (case py_find path ''//'' of None \<Rightarrow> 1 | Some i \<Rightarrow> i + 2) in (take k path, drop k path))"

text \<open>What the index knows: the type and the fields with a value.\<close>

definition index_entry :: "string \<Rightarrow> string \<Rightarrow> doc \<Rightarrow> entry" where
  "index_entry i pid doc =
     (let li = [''pid'' \<mapsto> pid, ''id'' \<mapsto> i] in
      set_fields doc upnp2rclfields
        (if d_val doc ''mtype'' = ''inode/directory''
         then li(''tp'' \<mapsto> ''ct'', ''upnp:class'' \<mapsto> ''object.container'')
         else li(''tp'' \<mapsto> ''it'', ''upnp:class'' \<mapsto> ''object.item.audioItem.musicTrack'')))"

text \<open>The rest, once the cover art is known.\<close>

definition finish_entry :: "fsenv \<Rightarrow> string \<Rightarrow> doc \<Rightarrow> string option \<Rightarrow> entry \<Rightarrow> entry" where
  "finish_entry fe httphp doc arturi li =
     (let li = set_if ''upnp:albumArtURI'' arturi li;
          li = (if li ''upnp:artist'' = None
                then set_if ''upnp:artist'' (Some (d_val doc ''albumartist'')) li else li);
          li = set_if ''didlfrag''
                 (Some (didl_role ''Composer'' (d_val doc ''composer'') @
                        didl_role ''Conductor'' (d_val doc ''conductor''))) li;
          li = (case li ''upnp:originalTrackNumber'' of
                  None \<Rightarrow> li
                | Some val \<Rightarrow> li(''upnp:originalTrackNumber'' \<mapsto> hd (split_on (CHR ''/'') val)));
          path = d_val doc ''url'';
          li = (if startswith path ''file://''
                then li(''uri'' \<mapsto> httpurl httphp (docpath fe doc) [])
                else li(''uri'' \<mapsto> fst (url_split path) @ urlquote (snd (url_split path))))
      in if li ''tt'' = None then li(''tt'' \<mapsto> os_basename (snd (url_split path))) else li)"

definition rcldoctoentry ::
  "fsenv \<Rightarrow> string \<Rightarrow> string \<Rightarrow> string \<Rightarrow> string \<Rightarrow> doc \<Rightarrow> artcache \<Rightarrow> (entry \<times> artcache) res" where
  "rcldoctoentry fe i pid httphp pathprefix doc cache =
     (if d_val doc ''mtype'' \<notin> set audiomtypes then Inr (Map.empty, cache)
      else
        let li = index_entry i pid doc in
        bindR (if li ''upnp:albumArtURI'' = None
               then docarturi fe doc httphp pathprefix False None cache
               else Inr (None, cache)) (\<lambda>(arturi, cache).
          Inr (finish_entry fe httphp doc arturi li, cache)))"

definition waitentry :: "string \<Rightarrow> string \<Rightarrow> string \<Rightarrow> string \<Rightarrow> entry" where
  "waitentry i pid httphp msg =
     [''tp'' \<mapsto> ''it'', ''id'' \<mapsto> i, ''pid'' \<mapsto> pid,
      ''upnp:class'' \<mapsto> ''object.item.audioItem.musicTrack'', ''tt'' \<mapsto> msg,
      ''uri'' \<mapsto> ''http://'' @ httphp @ ''/waiting'', ''res.mime'' \<mapsto> ''audio/mpeg'']"

section \<open>The order of entries\<close>

definition key_or_empty :: "string \<Rightarrow> entry \<Rightarrow> string" where
  "key_or_empty k e = (case e k of None \<Rightarrow> [] | Some v \<Rightarrow> v)"

text \<open>The track number, 0 where there is none or it is not a number\<close>

definition entry_trackno :: "entry \<Rightarrow> int" where
  "entry_trackno e =
     (case e ''upnp:originalTrackNumber'' of
        None \<Rightarrow> 0
      | Some v \<Rightarrow> (case py_int v of Inl _ \<Rightarrow> 0 | Inr n \<Rightarrow> n))"

definition cmpentries_func :: "entry \<Rightarrow> entry \<Rightarrow> int res" where
  "cmpentries_func e1 e2 =
     bindR (map_get e1 ''tp'') (\<lambda>tp1.
     bindR (map_get e2 ''tp'') (\<lambda>tp2.
       let isct1 = (tp1 = ''ct''); isct2 = (tp2 = ''ct'') in
       if isct1 \<and> \<not> isct2 then Inr (-1)
       else if \<not> isct1 \<and> isct2 then Inr 1
       else if isct1 \<and> isct2 then
         bindR (map_get e1 ''tt'') (\<lambda>tt1. bindR (map_get e2 ''tt'') (\<lambda>tt2.
           Inr (cmp_key (py_lower tt1) (py_lower tt2))))
       else
         let r = cmp_key (key_or_empty ''upnp:album'' e1) (key_or_empty ''upnp:album'' e2) in
         if r \<noteq> 0 then Inr r
         else
           bindR (map_get e1 ''uri'') (\<lambda>uri1. bindR (map_get e2 ''uri'') (\<lambda>uri2.
             Inr (then_cmp (cmp_key (os_dirname uri1) (os_dirname uri2))
                   (then_cmp (cmp_key (entry_trackno e1) (entry_trackno e2))
                     (cmp_key (os_basename uri1) (os_basename uri2))))))))"

definition cmpitems_func :: "entry \<Rightarrow> entry \<Rightarrow> int res" where
  "cmpitems_func e1 e2 =
     Inr (then_cmp (cmp_key (key_or_empty ''tt'' e1) (key_or_empty ''tt'' e2))
           (cmp_key (key_or_empty ''upnp:album'' e1) (key_or_empty ''upnp:album'' e2)))"

section \<open>Playlist files\<close>

definition is_alpha :: "char \<Rightarrow> bool" where
  "is_alpha c \<longleftrightarrow>
     (let n = (of_char c :: nat) in (65 \<le> n \<and> n \<le> 90) \<or> (97 \<le> n \<and> n \<le> 122))"

text \<open>\<open>[a-zA-Z]+://\<close>\<close>

definition urlRE_match :: "string \<Rightarrow> bool" where
  "urlRE_match line \<longleftrightarrow>
     takeWhile is_alpha line \<noteq> [] \<and> startswith (dropWhile is_alpha line) ''://''"

definition is_cr_or_blank :: "char \<Rightarrow> bool" where
  "is_cr_or_blank c \<longleftrightarrow> c = CHR '' '' \<or> c = CHR 0x0D"

text \<open>A byte order mark is dropped when the file decodes.\<close>

definition drop_bom :: "string \<Rightarrow> string" where
  "drop_bom data =
     (if valid_utf8 data \<and> startswith data [CHR 0xEF, CHR 0xBB, CHR 0xBF] then drop 3 data else data)"

definition m3u_line :: "string \<Rightarrow> string \<Rightarrow> string option" where
  "m3u_line dn line0 =
     (let line = strip is_cr_or_blank line0 in
      if line = [] \<or> hd line = CHR ''#'' then None
      else if urlRE_match line then Some line
      else if isabs line then Some (normpath line)
      else Some (normpath (path_join dn line)))"

text \<open>\<open>fn\<close> is the path of the file from the root, so that \<open>os.path.abspath\<close> only normalizes it.\<close>

definition M3u :: "string \<Rightarrow> string \<Rightarrow> string list" where
  "M3u fn data = List.map_filter (m3u_line (os_dirname (normpath fn))) (split_on (CHR 0x0A) (drop_bom data))"

section \<open>The entries of documents\<close>

lemma set_fields_other: "k \<notin> fst ` set names \<Longrightarrow> set_fields doc names li k = li k"
  by (induction names arbitrary: li) (auto simp: set_fields_def set_if_apply)

lemma index_entry_fields [simp]:
  "index_entry i pid doc ''pid'' = Some pid" "index_entry i pid doc ''id'' = Some i"
  "index_entry i pid doc ''tp'' = Some (if d_val doc ''mtype'' = ''inode/directory'' then ''ct'' else ''it'')"
  by (simp_all add: index_entry_def set_fields_other upnp2rclfields_def Let_def)

lemma index_entry_title:
  "index_entry i pid doc ''tt'' = (if d_val doc ''title'' \<noteq> [] then Some (d_val doc ''title'') else None)"
  by (simp add: index_entry_def upnp2rclfields_def set_fields_def set_if_apply Let_def)

lemma finish_entry_keeps:
  "k \<notin> {''upnp:albumArtURI'', ''upnp:artist'', ''didlfrag'', ''upnp:originalTrackNumber'', ''uri'', ''tt''} \<Longrightarrow>
   finish_entry fe httphp doc arturi li k = li k"
  by (simp add: finish_entry_def Let_def set_if_apply split: option.splits)

lemma finish_entry_uri:
  "finish_entry fe httphp doc arturi li ''uri'' =
     Some (if startswith (d_val doc ''url'') ''file://'' then httpurl httphp (docpath fe doc) []
           else fst (url_split (d_val doc ''url'')) @ urlquote (snd (url_split (d_val doc ''url''))))"
  by (simp add: finish_entry_def Let_def)

lemma finish_entry_title:
  "finish_entry fe httphp doc arturi li ''tt'' =
     (case li ''tt'' of Some t \<Rightarrow> Some t | None \<Rightarrow> Some (os_basename (snd (url_split (d_val doc ''url'')))))"
  by (simp add: finish_entry_def Let_def set_if_apply split: option.splits)

lemma rcldoctoentry_eq:
  assumes "rcldoctoentry fe i pid httphp pathprefix doc cache = Inr (e, cache')"
    and "d_val doc ''mtype'' \<in> set audiomtypes"
  obtains arturi where "e = finish_entry fe httphp doc arturi (index_entry i pid doc)"
  using assms by (auto simp: rcldoctoentry_def bindR_eq_Inr Let_def)

text \<open>The entry of an audio document carries the identifiers it was asked for, is a container
  exactly for a directory, has a title, and, for a document of the file system, its URL on the media
  server unquotes to the path of the file.\<close>

theorem rcldoctoentry_describes_document:
  assumes "rcldoctoentry fe i pid httphp pathprefix doc cache = Inr (e, cache')"
    and "d_val doc ''mtype'' \<in> set audiomtypes"
  shows "e ''id'' = Some i \<and> e ''pid'' = Some pid \<and>
    e ''tp'' = Some (if d_val doc ''mtype'' = ''inode/directory'' then ''ct'' else ''it'') \<and>
    e ''tt'' = Some (if d_val doc ''title'' \<noteq> [] then d_val doc ''title''
                     else os_basename (snd (url_split (d_val doc ''url'')))) \<and>
    (startswith (d_val doc ''url'') ''file://'' \<longrightarrow>
       (\<exists>q. e ''uri'' = Some (''http://'' @ httphp @ q) \<and> unquote q = docpath fe doc))"
proof -
  obtain arturi where e: "e = finish_entry fe httphp doc arturi (index_entry i pid doc)"
    using rcldoctoentry_eq [OF assms] .
  show ?thesis
    by (simp add: e finish_entry_keeps finish_entry_uri finish_entry_title index_entry_title httpurl_def)
qed

definition demo_fs :: fsenv where
  "demo_fs = \<lparr>fe_exists = (\<lambda>p. p = ''/m/a b.flac''), fe_listdir = (\<lambda>p. if p = ''/m/'' then Some [''Cover.JPG''] else None),
              fe_resultstore = True\<rparr>"

definition demo_doc :: doc where
  "demo_doc = \<lparr>d_val = (\<lambda>k. if k = ''mtype'' then ''audio/flac'' else if k = ''url'' then ''file:///m/a b.flac'' else []),
               d_binurl = []\<rparr>"

theorem rcldoctoentry_describes_document_witness:
  "\<exists>e c. rcldoctoentry demo_fs ''i1'' ''p'' ''h:1'' ''/uprcl'' demo_doc Map.empty = Inr (e, c) \<and>
     e ''id'' = Some ''i1'' \<and> e ''tt'' = Some ''a b.flac''"
proof -
  have "is_ok (rcldoctoentry demo_fs ''i1'' ''p'' ''h:1'' ''/uprcl'' demo_doc Map.empty)" by code_simp
  then obtain e c where e: "rcldoctoentry demo_fs ''i1'' ''p'' ''h:1'' ''/uprcl'' demo_doc Map.empty = Inr (e, c)"
    by (auto simp: is_ok_iff)
  have "d_val demo_doc ''mtype'' \<in> set audiomtypes" by code_simp
  note rcldoctoentry_describes_document [OF e this]
  moreover have "d_val demo_doc ''title'' = [] \<and> os_basename (snd (url_split (d_val demo_doc ''url''))) = ''a b.flac''"
    by code_simp
  ultimately show ?thesis using e by auto
qed

section \<open>The cache of cover art\<close>

text \<open>Every answer the cache holds is the one a fresh look at the folder gives.\<close>

definition cache_ok :: "fsenv \<Rightarrow> string \<Rightarrow> string \<Rightarrow> artcache \<Rightarrow> bool" where
  "cache_ok fe httphp bpp cache \<longleftrightarrow> (\<forall>f v. cache f = Some v \<longrightarrow> v = look_folder fe httphp bpp f)"

lemma cache_ok_empty [simp, intro]: "cache_ok fe httphp bpp Map.empty"
  by (simp add: cache_ok_def)

text \<open>The result of a look-up with any sound cache, against that with an empty one.\<close>

definition same_art :: "fsenv \<Rightarrow> string \<Rightarrow> string \<Rightarrow> ('a \<times> artcache) res \<Rightarrow> ('a \<times> artcache) res \<Rightarrow> bool" where
  "same_art fe httphp bpp r r0 \<longleftrightarrow>
     map_sum id fst r = map_sum id fst r0 \<and> (\<forall>x c. r = Inr (x, c) \<longrightarrow> cache_ok fe httphp bpp c)"

lemma folderart_cache:
  "cache_ok fe httphp bpp cache \<Longrightarrow>
   same_art fe httphp bpp (folderart fe doc httphp bpp albtitle cache)
     (folderart fe doc httphp bpp albtitle Map.empty)"
  by (cases "docfolder fe doc")
    (auto simp: folderart_def same_art_def cache_ok_def Let_def split: option.splits)

lemma same_art_bind:
  assumes "same_art fe httphp bpp r r0"
    and "\<And>x c c0. cache_ok fe httphp bpp c \<Longrightarrow> same_art fe httphp bpp (f (x, c)) (g (x, c0))"
  shows "same_art fe httphp bpp (bindR r f) (bindR r0 g)"
  using assms unfolding same_art_def
  by (cases r; cases r0) force+

lemma docarturi_cache:
  assumes "cache_ok fe httphp bpp cache"
  shows "same_art fe httphp bpp (docarturi fe doc httphp bpp preferfolder albtitle cache)
     (docarturi fe doc httphp bpp preferfolder albtitle Map.empty)"
proof -
  let ?f = "\<lambda>(arturi, cache). if truthy arturi then Inr (arturi, cache)
      else if preferfolder then Inr (trackarturi fe doc (docpath fe doc) httphp bpp, cache)
      else Inr (arturi, cache)"
  have pure: "same_art fe httphp bpp (Inr (x, cache)) (Inr (x, Map.empty))" for x :: "string option"
    using assms by (simp add: same_art_def)
  have "same_art fe httphp bpp (bindR (folderart fe doc httphp bpp albtitle cache) ?f)
      (bindR (folderart fe doc httphp bpp albtitle Map.empty) ?f)"
    by (rule same_art_bind [OF folderart_cache [OF assms]]) (simp add: same_art_def)
  with pure show ?thesis
    by (simp add: docarturi_def Let_def split: option.split)
qed

text \<open>Remembering the cover art of folders never changes an entry: whatever entries were made
  before, the entry of a document is the one made with nothing remembered, and what is remembered
  stays true to the file system.\<close>

theorem rcldoctoentry_cache_transparent:
  assumes "cache_ok fe httphp pathprefix cache"
  shows "map_sum id fst (rcldoctoentry fe i pid httphp pathprefix doc cache) =
           map_sum id fst (rcldoctoentry fe i pid httphp pathprefix doc Map.empty) \<and>
         (\<forall>e c. rcldoctoentry fe i pid httphp pathprefix doc cache = Inr (e, c) \<longrightarrow> cache_ok fe httphp pathprefix c)"
proof -
  let ?f = "\<lambda>(arturi, c). Inr (finish_entry fe httphp doc arturi (index_entry i pid doc), c)"
  have "same_art fe httphp pathprefix (bindR (docarturi fe doc httphp pathprefix False None cache) ?f)
      (bindR (docarturi fe doc httphp pathprefix False None Map.empty) ?f)"
    by (rule same_art_bind [OF docarturi_cache [OF assms]]) (simp add: same_art_def)
  then have "same_art fe httphp pathprefix (rcldoctoentry fe i pid httphp pathprefix doc cache)
      (rcldoctoentry fe i pid httphp pathprefix doc Map.empty)"
    using assms by (simp add: rcldoctoentry_def Let_def same_art_def)
  then show ?thesis by (simp add: same_art_def)
qed

theorem rcldoctoentry_cache_transparent_witness:
  "map_sum id (\<lambda>(e, c). e ''upnp:albumArtURI'')
     (rcldoctoentry demo_fs ''i1'' ''p'' ''h:1'' ''/uprcl'' demo_doc [''/m/'' \<mapsto> Some ''http://h:1/m/Cover.JPG'']) =
   Inr (Some ''http://h:1/m/Cover.JPG'')"
proof -
  have "look_folder demo_fs ''h:1'' ''/uprcl'' ''/m/'' = Some ''http://h:1/m/Cover.JPG''" by code_simp
  then have "cache_ok demo_fs ''h:1'' ''/uprcl'' [''/m/'' \<mapsto> Some ''http://h:1/m/Cover.JPG'']"
    by (simp add: cache_ok_def)
  note t = rcldoctoentry_cache_transparent [OF this, of "''i1''" "''p''" demo_doc, THEN conjunct1]
  have "map_sum id (\<lambda>(e, c). e ''upnp:albumArtURI'')
     (rcldoctoentry demo_fs ''i1'' ''p'' ''h:1'' ''/uprcl'' demo_doc Map.empty) =
     Inr (Some ''http://h:1/m/Cover.JPG'')"
    by code_simp
  moreover have "map_sum id (\<lambda>(e, c). e ''upnp:albumArtURI'') r = map_sum id (\<lambda>e. e ''upnp:albumArtURI'') (map_sum id fst r)"
    for r :: "(entry \<times> artcache) res"
    by (cases r) auto
  ultimately show ?thesis using t by metis
qed

section \<open>Sorting entries\<close>

definition is_container :: "entry \<Rightarrow> bool" where
  "is_container e \<longleftrightarrow> e ''tp'' = Some ''ct''"

text \<open>The entries the order is defined on.\<close>

definition sortable :: "entry \<Rightarrow> bool" where
  "sortable e \<longleftrightarrow> e ''tp'' \<noteq> None \<and> (if is_container e then e ''tt'' \<noteq> None else e ''uri'' \<noteq> None)"

definition ct_title :: "entry \<Rightarrow> string" where
  "ct_title e = (if is_container e then py_lower (key_or_empty ''tt'' e) else [])"

definition it_key :: "(string \<Rightarrow> string) \<Rightarrow> string \<Rightarrow> entry \<Rightarrow> string" where
  "it_key f k e = (if is_container e then [] else f (key_or_empty k e))"

definition it_number :: "entry \<Rightarrow> int" where
  "it_number e = (if is_container e then 0 else entry_trackno e)"

definition entry_order :: "entry \<Rightarrow> entry \<Rightarrow> int" where
  "entry_order a b =
     then_cmp (cmp_key (\<not> is_container a) (\<not> is_container b))
    (then_cmp (cmp_key (ct_title a) (ct_title b))
    (then_cmp (cmp_key (it_key id ''upnp:album'' a) (it_key id ''upnp:album'' b))
    (then_cmp (cmp_key (it_key os_dirname ''uri'' a) (it_key os_dirname ''uri'' b))
    (then_cmp (cmp_key (it_number a) (it_number b))
      (cmp_key (it_key os_basename ''uri'' a) (it_key os_basename ''uri'' b))))))"

lemma good_entry_order: "good_cmp entry_order"
  unfolding entry_order_def by (intro good_then_cmp good_cmp_key)

lemma cmp_key_bool [simp]: "cmp_key (b :: bool) b = 0" "cmp_key False True = -1" "cmp_key True False = 1"
  by (simp_all add: cmp_key_def)

lemma then_cmp_simps [simp]: "then_cmp 0 r = r" "r \<noteq> 0 \<Longrightarrow> then_cmp r s = r"
  by (simp_all add: then_cmp_def)

lemma cmp_key_refl [simp]: "cmp_key a a = 0"
  by simp

lemma cmpentries_func_eq:
  assumes "sortable a" and "sortable b"
  shows "cmpentries_func a b = Inr (entry_order a b)"
proof -
  obtain ta tb where tp: "a ''tp'' = Some ta" "b ''tp'' = Some tb"
    using assms by (auto simp: sortable_def)
  show ?thesis
    using assms tp
    by (cases "ta = ''ct''"; cases "tb = ''ct''")
      (auto simp: cmpentries_func_def entry_order_def sortable_def is_container_def map_get_def
        ct_title_def it_key_def it_number_def key_or_empty_def then_cmp_def Let_def)
qed

interpretation entries_order: cmp_order cmpentries_func sortable
  by (rule cmp_order_of_good [OF good_entry_order cmpentries_func_eq])

interpretation items_order: cmp_order cmpitems_func "\<lambda>_. True"
  by (rule cmp_order_of_good [of "\<lambda>a b. then_cmp (cmp_key (key_or_empty ''tt'' a) (key_or_empty ''tt'' b))
        (cmp_key (key_or_empty ''upnp:album'' a) (key_or_empty ''upnp:album'' b))"])
    (intro good_then_cmp good_cmp_key, simp add: cmpitems_func_def)

lemma entries_le_containers:
  "sortable a \<Longrightarrow> sortable b \<Longrightarrow> entries_order.le a b \<Longrightarrow> is_container b \<Longrightarrow> is_container a"
  by (cases "is_container a") (auto simp: entries_order.le_def cmpentries_func_eq entry_order_def)

lemma sorted_wrt_partition:
  "sorted_wrt R xs \<Longrightarrow> (\<And>a b. a \<in> set xs \<Longrightarrow> b \<in> set xs \<Longrightarrow> R a b \<Longrightarrow> P b \<Longrightarrow> P a) \<Longrightarrow>
   xs = filter P xs @ filter (\<lambda>x. \<not> P x) xs"
proof (induction xs)
  case (Cons x xs)
  have IH: "xs = filter P xs @ filter (\<lambda>x. \<not> P x) xs"
    using Cons.prems by (intro Cons.IH) auto
  show ?case
  proof (cases "P x")
    case True
    with IH show ?thesis by simp
  next
    case False
    then have "\<not> P y" if "y \<in> set xs" for y
      using Cons.prems(1) Cons.prems(2) [of x y] that by auto
    then show ?thesis using False by simp
  qed
qed simp

text \<open>Sorting the entries of a container never fails on entries with a type, a title or a URL; it
  shows each entry once, the containers first, all in the order of the comparison, and entries the
  comparison cannot tell apart keep the order they had.\<close>

theorem sort_entries:
  assumes "\<forall>e \<in> set es. sortable e"
  shows "\<exists>zs. sortR cmpentries_func es = Inr zs \<and> mset zs = mset es \<and>
    zs = filter is_container zs @ filter (\<lambda>e. \<not> is_container e) zs \<and>
    sorted_wrt (\<lambda>a b. \<exists>r. cmpentries_func a b = Inr r \<and> r \<le> 0) zs \<and>
    (\<forall>a \<in> set es. filter (\<lambda>b. cmpentries_func a b = Inr 0) zs = filter (\<lambda>b. cmpentries_func a b = Inr 0) es)"
proof -
  obtain zs where zs: "sortR cmpentries_func es = Inr zs" "sorted_wrt entries_order.le zs"
    using entries_order.sort_sorted [OF assms] by auto
  have ok: "\<forall>z \<in> set zs. sortable z" using assms sortR_set [OF zs(1)] by simp
  have "zs = filter is_container zs @ filter (\<lambda>e. \<not> is_container e) zs"
    using zs(2) by (rule sorted_wrt_partition) (use ok entries_le_containers in blast)
  moreover have "filter (\<lambda>b. cmpentries_func a b = Inr 0) zs = filter (\<lambda>b. cmpentries_func a b = Inr 0) es"
    if "a \<in> set es" for a
  proof -
    have eq: "cmpentries_func a b = Inr 0 \<longleftrightarrow> entries_order.equiv a b" if "sortable b" for b
      using good_entry_order assms \<open>a \<in> set es\<close> that
      by (auto simp: entries_order.equiv_def entries_order.le_def cmpentries_func_eq good_cmp_def)
        (metis antisym_conv3 less_le_not_le order.order_iff_strict)+
    show ?thesis
      using entries_order.sort_stable [OF _ assms zs(1), of a] assms that ok
      by (simp add: eq cong: filter_cong)
  qed
  ultimately show ?thesis
    using zs sortR_mset [OF zs(1)] by (auto simp: entries_order.le_def [abs_def])
qed

definition demo_entries :: "entry list" where
  "demo_entries =
     [[''tp'' \<mapsto> ''it'', ''uri'' \<mapsto> ''/m/10.flac'', ''upnp:originalTrackNumber'' \<mapsto> ''10''],
      [''tp'' \<mapsto> ''it'', ''uri'' \<mapsto> ''/m/9.flac'', ''upnp:originalTrackNumber'' \<mapsto> ''9''],
      [''tp'' \<mapsto> ''ct'', ''tt'' \<mapsto> ''b''], [''tp'' \<mapsto> ''ct'', ''tt'' \<mapsto> ''A'']]"

theorem sort_entries_witness:
  "map_sum id (map (\<lambda>e. (e ''tt'', e ''uri''))) (sortR cmpentries_func demo_entries) =
     Inr [(Some ''A'', None), (Some ''b'', None), (None, Some ''/m/9.flac''), (None, Some ''/m/10.flac'')] \<and>
   (\<exists>zs. sortR cmpentries_func demo_entries = Inr zs \<and> mset zs = mset demo_entries)"
proof
  have "\<forall>e \<in> set demo_entries. sortable e" by code_simp
  from sort_entries [OF this]
  show "\<exists>zs. sortR cmpentries_func demo_entries = Inr zs \<and> mset zs = mset demo_entries" by blast
  show "map_sum id (map (\<lambda>e. (e ''tt'', e ''uri''))) (sortR cmpentries_func demo_entries) =
     Inr [(Some ''A'', None), (Some ''b'', None), (None, Some ''/m/9.flac''), (None, Some ''/m/10.flac'')]"
    by code_simp
qed

section \<open>Playlist paths\<close>

definition real_comp :: "string \<Rightarrow> bool" where
  "real_comp c \<longleftrightarrow> c \<noteq> [] \<and> c \<noteq> ''.'' \<and> c \<noteq> ''..''"

lemma norm_comps_clean:
  assumes "sl \<noteq> 0"
  shows "Ball (set acc) real_comp \<Longrightarrow> Ball (set (norm_comps sl acc cs)) real_comp"
proof (induction cs arbitrary: acc)
  case (Cons c cs)
  have last: "last acc \<noteq> ''..''" if "acc \<noteq> []"
    using Cons.prems that last_in_set [of acc] unfolding real_comp_def by blast
  consider "c = [] \<or> c = ''.''" | "real_comp c" | "c \<noteq> []" "c \<noteq> ''.''" "c = ''..''" "acc = []"
    | "c \<noteq> []" "c \<noteq> ''.''" "c = ''..''" "acc \<noteq> []"
    unfolding real_comp_def by blast
  then show ?case
  proof cases
    case 1
    with Cons show ?thesis by simp
  next
    case 2
    then have "norm_comps sl acc (c # cs) = norm_comps sl (acc @ [c]) cs" unfolding real_comp_def by simp
    moreover have "Ball (set (acc @ [c])) real_comp" using 2 Cons.prems by auto
    ultimately show ?thesis using Cons.IH by metis
  next
    case 3
    with Cons.IH [of "[]"] assms show ?thesis by simp
  next
    case 4
    have "Ball (set (butlast acc)) real_comp" using Cons.prems by (meson in_set_butlastD)
    with 4 last assms Cons.IH show ?thesis by simp
  qed
qed simp

lemma norm_comps_subset: "set (norm_comps sl acc cs) \<subseteq> set acc \<union> set cs"
  by (induction sl acc cs rule: norm_comps.induct) (auto dest: in_set_butlastD split: if_splits)

lemma initial_slashes_abs: "isabs p \<Longrightarrow> initial_slashes p \<in> {1, 2}"
  by (auto simp: isabs_def initial_slashes_def)

lemma split_on_rooted:
  assumes "\<forall>c \<in> set cs. CHR ''/'' \<notin> set c" and "n \<noteq> 0"
  shows "set (split_on (CHR ''/'') (replicate n (CHR ''/'') @ join_with ''/'' cs)) \<subseteq> insert [] (set cs)"
proof -
  have "set (split_on (CHR ''/'') (join_with ''/'' cs)) \<subseteq> insert [] (set cs)"
    using split_join_on [of cs "CHR ''/''"] assms(1) by (cases cs) auto
  moreover have "set (split_on (CHR ''/'') (replicate (Suc m) (CHR ''/'') @ s)) = insert [] (set (split_on (CHR ''/'') s))"
    for s m by (induction m) auto
  ultimately show ?thesis using assms(2) by (cases n) auto
qed

text \<open>An absolute path without \<open>.\<close> and \<open>..\<close>.\<close>

definition clean_abs :: "string \<Rightarrow> bool" where
  "clean_abs p \<longleftrightarrow> isabs p \<and> ''.'' \<notin> set (split_on (CHR ''/'') p) \<and> ''..'' \<notin> set (split_on (CHR ''/'') p)"

lemma normpath_clean: "isabs p \<Longrightarrow> clean_abs (normpath p)"
proof -
  assume p: "isabs p"
  let ?cs = "norm_comps (initial_slashes p) [] (split_on (CHR ''/'') p)"
  have sl: "initial_slashes p \<noteq> 0" using initial_slashes_abs [OF p] by auto
  have n: "normpath p = replicate (initial_slashes p) (CHR ''/'') @ join_with ''/'' ?cs"
    using p sl by (auto simp: normpath_def isabs_def Let_def)
  have "\<forall>c \<in> set ?cs. CHR ''/'' \<notin> set c"
    using norm_comps_subset [of "initial_slashes p" "[]" "split_on (CHR ''/'') p"]
    by (auto dest!: split_on_parts)
  then have "set (split_on (CHR ''/'') (normpath p)) \<subseteq> insert [] (set ?cs)"
    using sl unfolding n by (rule split_on_rooted)
  moreover have "isabs (normpath p)"
    unfolding n using sl by (cases "initial_slashes p") (auto simp: isabs_def)
  ultimately show ?thesis
    using norm_comps_clean [OF sl, of "[]" "split_on (CHR ''/'') p"] by (auto simp: clean_abs_def real_comp_def)
qed

lemma isabs_iff: "isabs p \<longleftrightarrow> (\<exists>s. p = CHR ''/'' # s)"
  by (auto simp: isabs_def startswith_iff)

lemma isabs_join: "isabs a \<Longrightarrow> isabs (path_join a b)"
  by (auto simp: isabs_iff path_join_def startswith_iff)

lemma isabs_dirname: "isabs p \<Longrightarrow> isabs (os_dirname p)"
proof -
  assume "isabs p"
  then obtain s where "p = CHR ''/'' # s" by (auto simp: isabs_iff)
  then obtain f where f: "path_front p = CHR ''/'' # f"
    by (cases "path_cut s"; cases "fst (path_cut s)") (simp_all add: path_front_def)
  obtain t where "path_front p = rstrip is_slash (path_front p) @ t" "\<forall>c \<in> set t. is_slash c"
    using rstrip_decomp [of "path_front p" is_slash] by auto
  then show ?thesis
    using f by (cases "rstrip is_slash (path_front p)") (auto simp: os_dirname_def Let_def isabs_iff list_all_iff)
qed

text \<open>Every element of a playlist file becomes a URL, or an absolute path without \<open>.\<close> and
  \<open>..\<close> components, whatever the file holds.\<close>

theorem M3u_elements:
  assumes "isabs fn" and "u \<in> set (M3u fn data)"
  shows "urlRE_match u \<or> clean_abs u"
proof -
  have "isabs (normpath fn)" using normpath_clean [OF assms(1)] by (simp add: clean_abs_def)
  note dn = isabs_dirname [OF this]
  obtain line where "m3u_line (os_dirname (normpath fn)) line = Some u"
    using assms(2) by (auto simp: M3u_def List.map_filter_def)
  then show ?thesis
    using isabs_join [OF dn]
    by (auto simp: m3u_line_def Let_def normpath_clean split: if_splits)
qed

theorem M3u_elements_witness:
  "M3u ''/m/pl/l.m3u'' (''#EXTM3U'' @ [CHR 0x0D, CHR 0x0A] @ ''../a//b.mp3'' @ [CHR 0x0A] @ ''http://x/y'') =
     [''/m/a/b.mp3'', ''http://x/y''] \<and> clean_abs ''/m/a/b.mp3''"
proof
  show eq: "M3u ''/m/pl/l.m3u'' (''#EXTM3U'' @ [CHR 0x0D, CHR 0x0A] @ ''../a//b.mp3'' @ [CHR 0x0A] @ ''http://x/y'') =
     [''/m/a/b.mp3'', ''http://x/y'']" by code_simp
  have "isabs ''/m/pl/l.m3u''" by code_simp
  moreover have "''/m/a/b.mp3'' \<in> set (M3u ''/m/pl/l.m3u'' (''#EXTM3U'' @ [CHR 0x0D, CHR 0x0A] @ ''../a//b.mp3'' @ [CHR 0x0A] @ ''http://x/y''))"
    unfolding eq by simp
  ultimately have "urlRE_match ''/m/a/b.mp3'' \<or> clean_abs ''/m/a/b.mp3''" by (rule M3u_elements)
  moreover have "\<not> urlRE_match ''/m/a/b.mp3''" by code_simp
  ultimately show "clean_abs ''/m/a/b.mp3''" by blast
qed

end
