(* ===== verification/Folders.thy ===== *)
theory Folders
  imports UprclUtils
begin

text \<open>
  The folder tree of the local media library, \<open>uprcl/uprclfolders.py\<close>: one dictionary per directory,
  from names to pairs of a directory index and a document index, either of which may be -1; entry 0
  holds the top directories under their paths. The functions build the tree from the documents,
  fill the playlists, browse it, and find paths and documents in it. Indexing is Python's: index -1
  is the last element.
\<close>

type_synonym dirent = "(string \<times> (int \<times> int)) list"

record folders =
  fo_rcldocs :: "doc list"
  fo_moredocs :: "doc list"
  fo_dirvec :: "dirent list"
  fo_playlists :: "int list"

record fo_conf =
  fc_fs :: fsenv
  fc_httphp :: string
  fc_pprefix :: string
  fc_enabletags :: bool
  fc_notagview :: bool
  fc_readfile :: "string \<Rightarrow> string option"

definition idprefix :: string where
  "idprefix = ''0$uprcl$folders''"

section \<open>Building the tree\<close>

text \<open>\<open>self._dirvec[i][nm] = v\<close>\<close>

definition dir_put :: "dirent list \<Rightarrow> int \<Rightarrow> string \<Rightarrow> int \<times> int \<Rightarrow> dirent list res" where
  "dir_put dv i nm v =
     (let j = (if 0 \<le> i then i else int (length dv) + i) in
      if 0 \<le> j \<and> j < int (length dv)
      then Inr (dv[nat j := AList.update nm v (dv ! nat j)]) else Inl IndexError)"

definition createdir :: "int \<Rightarrow> int \<Rightarrow> string \<Rightarrow> dirent list \<Rightarrow> (int \<times> dirent list) res" where
  "createdir fathidx docidx nm dv =
     (let dv = dv @ [[]]; thisidx = int (length dv) - 1 in
      bindR (dir_put dv fathidx nm (thisidx, docidx)) (\<lambda>dv.
      bindR (dir_put dv (-1) ''..'' (fathidx, -1)) (\<lambda>dv.
      bindR (dir_put dv (-1) ''.'' (thisidx, docidx)) (\<lambda>dv.
        Inr (int (length dv) - 1, dv)))))"

definition createpldir :: "int \<Rightarrow> int \<Rightarrow> string \<Rightarrow> dirent list \<times> int list \<Rightarrow> (int \<times> dirent list \<times> int list) res" where
  "createpldir fathidx docidx nm st =
     (case st of (dv, playlists) \<Rightarrow>
       bindR (createdir fathidx docidx nm dv) (\<lambda>(myidx, dv).
       bindR (dir_put dv myidx ''.'' (myidx, docidx)) (\<lambda>dv.
         Inr (myidx, dv, playlists @ [myidx]))))"

text \<open>The top directory a path belongs to is the first entry of the root whose name starts the
  path. The rest of the path is split, with the group of the document, if any, as a directory of
  its own. None: no top directory, or nothing left.\<close>

definition pathbeyondtopdirs :: "fsenv \<Rightarrow> dirent list \<Rightarrow> doc \<Rightarrow> (int \<times> string list) option res" where
  "pathbeyondtopdirs fe dv doc =
     (let url = utf8_fix [CHR 0xEF, CHR 0xBF, CHR 0xBD] (docpath fe doc) in
      bindR (py_index dv 0) (\<lambda>root.
        case List.find (\<lambda>(rtpath, _). startswith url rtpath) root of
          None \<Rightarrow> Inr None
        | Some (rtpath, (diridx, _)) \<Rightarrow>
            if diridx = -1 then Inr None
            else
              let url1 = drop (length rtpath) url;
                  url2 = (if d_val doc ''group'' \<noteq> []
                          then path_join (path_join (os_dirname url1) (d_val doc ''group'')) (os_basename url1)
                          else url1)
              in if url1 = [] then Inr None
                 else Inr (Some (diridx, tl (split_on (CHR ''/'') url2)))))"

text \<open>The walk down the elements of a path, creating what is missing.\<close>

fun add_path ::
  "int \<Rightarrow> string \<Rightarrow> int \<Rightarrow> string list \<Rightarrow> dirent list \<times> int list \<Rightarrow> (dirent list \<times> int list) res" where
  "add_path docidx mtype fathidx [] st = Inr st"
| "add_path docidx mtype fathidx (elt # rest) (dv, playlists) =
     bindR (py_index dv fathidx) (\<lambda>d.
       case map_of d elt of
         Some (di, _) \<Rightarrow>
           bindR (if rest = [] then dir_put dv fathidx elt (di, docidx) else Inr dv) (\<lambda>dv.
             add_path docidx mtype di rest (dv, playlists))
       | None \<Rightarrow>
           if rest \<noteq> [] then
             bindR (createdir fathidx (-1) elt dv) (\<lambda>(fathidx, dv).
               add_path docidx mtype fathidx rest (dv, playlists))
           else if mtype = ''inode/directory'' then
             bindR (createdir fathidx docidx elt dv) (\<lambda>(_, dv). Inr (dv, playlists))
           else if mtype = ''audio/x-mpegurl'' then
             bindR (createpldir fathidx docidx elt (dv, playlists)) (\<lambda>(_, st). Inr st)
           else bindR (dir_put dv fathidx elt (-1, docidx)) (\<lambda>dv. Inr (dv, playlists)))"

definition add_doc :: "fsenv \<Rightarrow> nat \<times> doc \<Rightarrow> dirent list \<times> int list \<Rightarrow> (dirent list \<times> int list) res" where
  "add_doc fe idoc st =
     (case idoc of (docidx, doc) \<Rightarrow>
       if d_val doc ''mtype'' \<notin> set audiomtypes then Inr st
       else bindR (pathbeyondtopdirs fe (fst st) doc) (\<lambda>r.
         case r of
           None \<Rightarrow> Inr st
         | Some (fathidx, path) \<Rightarrow>
             if fathidx = 0 then Inr st else add_path (int docidx) (d_val doc ''mtype'') fathidx path st))"

text \<open>The root, with one directory per top directory.\<close>

definition init_root :: "string list \<Rightarrow> dirent list" where
  "init_root topdirs =
     fold (\<lambda>d dv. (let dv = dv @ [[]] in
             (dv[0 := AList.update d (int (length dv) - 1, -1) (dv ! 0)])[length dv - 1 := [(''..'', (0, -1))]]))
       topdirs [[(''..'', (0, -1))]]"

section \<open>Finding paths\<close>

fun stat_walk :: "dirent list \<Rightarrow> int \<Rightarrow> int \<Rightarrow> string list \<Rightarrow> (int \<times> int) res" where
  "stat_walk dv fathidx docidx [] = Inr (fathidx, docidx)"
| "stat_walk dv fathidx docidx (elt # rest) =
     bindR (py_index dv fathidx) (\<lambda>d.
       case map_of d elt of
         None \<Rightarrow> Inr (-1, -1)
       | Some (di, dx) \<Rightarrow> stat_walk dv di dx rest)"

definition fo_stat :: "fsenv \<Rightarrow> dirent list \<Rightarrow> doc \<Rightarrow> (int \<times> int) res" where
  "fo_stat fe dv doc =
     bindR (pathbeyondtopdirs fe dv doc) (\<lambda>r.
       case r of
         None \<Rightarrow> Inr (-1, -1)
       | Some (fathidx, pathl) \<Rightarrow>
           if fathidx = 0 then Inr (-1, -1) else stat_walk dv fathidx (-1) pathl)"

definition empty_doc :: doc where
  "empty_doc = \<lparr>d_val = (\<lambda>_. []), d_binurl = []\<rparr>"

text \<open>The document index for a path of a playlist; the temporary document holds only the URL.\<close>

definition statpath :: "fsenv \<Rightarrow> folders \<Rightarrow> string \<Rightarrow> string \<Rightarrow> int option res" where
  "statpath fe fo plpath path0 =
     (let path = (if isabs path0 then path0 else path_join (os_dirname plpath) path0);
          url = ''file://'' @ path;
          doc = (if fe_resultstore fe then empty_doc\<lparr>d_val := (\<lambda>_. [])(''url'' := url)\<rparr>
                 else empty_doc\<lparr>d_binurl := url\<rparr>)
      in bindR (fo_stat fe (fo_dirvec fo) doc) (\<lambda>(fathidx, docidx).
           Inr (if 0 \<le> docidx \<and> docidx < int (length (fo_rcldocs fo)) then Some docidx else None)))"

section \<open>Playlists\<close>

definition docforurl :: "string \<Rightarrow> doc" where
  "docforurl url =
     (let tt = utf8_fix [] (os_basename url) in
      empty_doc\<lparr>d_val := (\<lambda>_. [])(''url'' := url, ''title'' := tt, ''text'' := tt, ''mtype'' := ''audio/mpeg'')\<rparr>)"

definition playlist_element :: "fsenv \<Rightarrow> int \<Rightarrow> string \<Rightarrow> string \<Rightarrow> folders \<Rightarrow> folders res" where
  "playlist_element fe diridx plpath url fo =
     (if urlRE_match url then
        let doc = docforurl url;
            mr = fo_moredocs fo @ [doc];
            docidx = int (length (fo_rcldocs fo)) + int (length mr) - 1;
            tt = (if d_val doc ''title'' = [] then d_val doc ''text'' else d_val doc ''title'')
        in bindR (dir_put (fo_dirvec fo) diridx tt (-1, docidx)) (\<lambda>dv.
             Inr (fo\<lparr>fo_moredocs := mr, fo_dirvec := dv\<rparr>))
      else
        bindR (statpath fe fo plpath url) (\<lambda>docidx.
          case docidx of
            None \<Rightarrow> Inr fo
          | Some i \<Rightarrow>
              if i = 0 then Inr fo
              else bindR (dir_put (fo_dirvec fo) diridx (os_basename url) (-1, i)) (\<lambda>dv.
                     Inr (fo\<lparr>fo_dirvec := dv\<rparr>))))"

text \<open>A playlist whose file cannot be read is skipped.\<close>

definition init_playlist :: "fo_conf \<Rightarrow> int \<Rightarrow> folders \<Rightarrow> folders res" where
  "init_playlist fc diridx fo =
     bindR (py_index (fo_dirvec fo) diridx) (\<lambda>d.
     bindR (dict_get d ''.'') (\<lambda>(_, pldocidx).
     bindR (py_index (fo_rcldocs fo) pldocidx) (\<lambda>pldoc.
       let plpath = docpath (fc_fs fc) pldoc in
       case fc_readfile fc plpath of
         None \<Rightarrow> Inr fo
       | Some data \<Rightarrow> foldR (playlist_element (fc_fs fc) diridx plpath) (M3u plpath data) fo)))"

definition initplaylists :: "fo_conf \<Rightarrow> folders \<Rightarrow> folders res" where
  "initplaylists fc fo = foldR (init_playlist fc) (fo_playlists fo) fo"

text \<open>\<open>topdirs\<close> are the words of the configuration value, with the home directory expanded.\<close>

definition rcl2folders :: "fo_conf \<Rightarrow> string list \<Rightarrow> doc list \<Rightarrow> folders res" where
  "rcl2folders fc topdirs docs =
     bindR (foldR (add_doc (fc_fs fc)) (List.enumerate 0 docs) (init_root (map (rstrip is_slash) topdirs), []))
       (\<lambda>(dv, playlists).
         initplaylists fc \<lparr>fo_rcldocs = docs, fo_moredocs = [], fo_dirvec = dv, fo_playlists = playlists\<rparr>)"

text \<open>The documents of the index; without the result store, the alias tags are applied here.\<close>

definition apply_alias :: "string \<times> string \<times> bool \<Rightarrow> doc \<Rightarrow> doc" where
  "apply_alias a doc =
     (case a of (orig, target, rep) \<Rightarrow>
       let val = d_val doc orig in
       if val \<noteq> [] \<and> (rep \<or> d_val doc target = []) then doc\<lparr>d_val := (d_val doc)(target := val)\<rparr> else doc)"

definition fetchalldocs :: "fsenv \<Rightarrow> (string \<times> string \<times> bool) list \<Rightarrow> doc list \<Rightarrow> doc list" where
  "fetchalldocs fe tagaliases rclq =
     (if fe_resultstore fe then rclq else map (fold apply_alias tagaliases) rclq)"

section \<open>Browsing\<close>

text \<open>Is it an item, its index, and what follows: the empty string for the root.\<close>

definition parse_objid :: "string \<Rightarrow> (bool \<times> int \<times> string option) res" where
  "parse_objid dirpth =
     (if dirpth = [] then Inr (False, 0, Some [])
      else if take 2 dirpth = ''$d'' \<or> take 2 dirpth = ''$i'' then
        (case map_option Suc (py_find (tl dirpth) ''$'') of
           None \<Rightarrow> bindR (py_int (drop 2 dirpth)) (\<lambda>idx. Inr (take 2 dirpth = ''$i'', idx, None))
         | Some nextdol \<Rightarrow>
             bindR (py_int (drop 2 (take nextdol dirpth))) (\<lambda>idx.
               Inr (take 2 dirpth = ''$i'', idx, Some (drop nextdol dirpth))))
      else Inl (Raised ''folders:browse: called on non dir objid''))"

definition objidtoidx :: "folders \<Rightarrow> string \<Rightarrow> (bool \<times> int \<times> string option) res" where
  "objidtoidx fo pid =
     (if \<not> startswith pid idprefix then Inl (Raised ''folders.browse: bad pid'')
      else if fo_rcldocs fo = [] then Inl (Raised ''folders:browse: no docs'')
      else bindR (parse_objid (drop (length idprefix) pid)) (\<lambda>(isitem, idx, pathremain).
        if isitem \<and> int (length (fo_rcldocs fo)) \<le> idx
        then Inl (Raised ''folders:browse: bad pid exceeds rcldocs size'')
        else if \<not> isitem \<and> int (length (fo_dirvec fo)) \<le> idx
        then Inl (Raised ''folders:browse: bad pid exceeds dirvec size'')
        else Inr (isitem, idx, pathremain)))"

definition fo_rootentries :: "string \<Rightarrow> entry list" where
  "fo_rootentries pid = [direntry3 (pid @ ''folders'') pid ''[folders]'']"

definition docforidx :: "folders \<Rightarrow> int \<Rightarrow> doc res" where
  "docforidx fo docidx =
     (if docidx < int (length (fo_rcldocs fo)) then py_index (fo_rcldocs fo) docidx
      else py_index (fo_moredocs fo) (docidx - int (length (fo_rcldocs fo))))"

text \<open>The first cover found among the documents of a directory.\<close>

fun art_among :: "fo_conf \<Rightarrow> doc list \<Rightarrow> dirent \<Rightarrow> artcache \<Rightarrow> (string option \<times> artcache) res" where
  "art_among fc docs [] cache = Inr (None, cache)"
| "art_among fc docs ((nm, (di, docidx)) # d) cache =
     (if 0 \<le> docidx \<and> docidx < int (length docs) then
        bindR (docarturi (fc_fs fc) (docs ! nat docidx) (fc_httphp fc) (fc_pprefix fc) True None cache)
          (\<lambda>(arturi, cache).
             if truthy arturi then Inr (arturi, cache) else art_among fc docs d cache)
      else art_among fc docs d cache)"

definition arturifordir :: "fo_conf \<Rightarrow> folders \<Rightarrow> int \<Rightarrow> artcache \<Rightarrow> (string option \<times> artcache) res" where
  "arturifordir fc fo diridx cache =
     bindR (py_index (fo_dirvec fo) diridx) (\<lambda>d. art_among fc (fo_rcldocs fo) d cache)"

text \<open>The metadata of an item. For a directory the lookup \<open>ids[1]\<close> in its dictionary fails and is
  given up: no entry. The result None is Python's.\<close>

definition browsemeta ::
  "fo_conf \<Rightarrow> folders \<Rightarrow> string \<Rightarrow> bool \<Rightarrow> int \<Rightarrow> artcache \<Rightarrow> (entry list option \<times> artcache) res" where
  "browsemeta fc fo pid isitem idx cache =
     (let docidx = (if isitem then idx else -1) in
      if docidx = -1 then Inr (None, cache)
      else bindR (docforidx fo docidx) (\<lambda>doc.
           bindR (rcldoctoentry (fc_fs fc) (idprefix @ ''$i'' @ str_int docidx) pid
                    (fc_httphp fc) (fc_pprefix fc) doc cache) (\<lambda>(e, cache).
             Inr (Some [e], cache))))"

text \<open>One name of the directory being browsed: the entries so far, whether the art of the directory
  is still wanted for the tag view, and the cache.\<close>

definition browse_name ::
  "fo_conf \<Rightarrow> folders \<Rightarrow> string \<Rightarrow> string \<times> (int \<times> int) \<Rightarrow> entry list \<times> bool \<times> artcache \<Rightarrow>
   (entry list \<times> bool \<times> artcache) res" where
  "browse_name fc fo pid name st =
     (case name of (nm, (thisdiridx, thisdocidx)) \<Rightarrow> case st of (entries, showtopart, cache) \<Rightarrow>
       if nm = ''..'' \<or> nm = ''.'' then Inr st
       else if 0 \<le> thisdiridx then
         bindR (py_index (fo_dirvec fo) thisdiridx) (\<lambda>d.
           if length d = 1 then Inr st
           else bindR (arturifordir fc fo thisdiridx cache) (\<lambda>(arturi, cache).
             Inr (entries @ [direntry (idprefix @ ''$d'' @ str_int thisdiridx) pid (os_basename nm)
                               arturi None None ''1'' None None], False, cache)))
       else if thisdocidx = -1 then Inr st
       else bindR (docforidx fo thisdocidx) (\<lambda>doc.
            bindR (rcldoctoentry (fc_fs fc) (idprefix @ ''$i'' @ str_int thisdocidx) pid
                     (fc_httphp fc) (fc_pprefix fc) doc cache) (\<lambda>(e, cache).
              Inr (if e ''id'' \<noteq> None then entries @ [e] else entries, showtopart, cache))))"

text \<open>\<open>tagview\<close> is the tag browser for a sub-tree, which gets the path of the directory.\<close>

definition pwd_find :: "dirent \<Rightarrow> int \<Rightarrow> string option" where
  "pwd_find d diridx = map_option fst (List.find (\<lambda>(nm, (di, _)). di = diridx) d)"

function pwd_loop :: "dirent list \<Rightarrow> int \<Rightarrow> string list \<Rightarrow> string list option res" where
  "pwd_loop dv diridx lpath =
     bindR (py_index dv diridx) (\<lambda>d.
     bindR (dict_get d ''..'') (\<lambda>(fathidx, _).
     bindR (py_index dv fathidx) (\<lambda>fd.
       case pwd_find fd diridx of
         None \<Rightarrow> Inr None
       | Some nm \<Rightarrow>
           if 200 < length (lpath @ [nm]) then Inr None
           else if fathidx = 0 then Inr (Some (lpath @ [nm]))
           else pwd_loop dv fathidx (lpath @ [nm]))))"
  by pat_completeness auto
termination
  by (relation "measure (\<lambda>(_, _, lpath). 201 - length lpath)") auto

declare pwd_loop.simps [simp del]

definition dirpath :: "folders \<Rightarrow> string \<Rightarrow> string res" where
  "dirpath fo objid =
     (case objidtoidx fo objid of
        Inl _ \<Rightarrow> Inr []
      | Inr (isitem, diridx, pthremain) \<Rightarrow>
          if isitem then Inl NameError
          else if diridx = 0 then Inr ''/''
          else bindR (pwd_loop (fo_dirvec fo) diridx []) (\<lambda>r.
            case r of
              None \<Rightarrow> Inr ''/''
            | Some lpath \<Rightarrow>
                Inr (if lpath = [] then ''/'' else concat (map (\<lambda>elt. elt @ ''/'') (rev lpath)))))"

text \<open>The entries of a directory: sorted unless it is a playlist, below the entry of the tag view.\<close>

definition list_dir :: "fo_conf \<Rightarrow> folders \<Rightarrow> string \<Rightarrow> int \<Rightarrow> artcache \<Rightarrow> (entry list \<times> artcache) res" where
  "list_dir fc fo pid idx cache =
     bindR (py_index (fo_dirvec fo) idx) (\<lambda>d.
     bindR (foldR (browse_name fc fo pid) d ([], True, cache)) (\<lambda>(entries, showtopart, cache).
     bindR (if idx \<notin> set (fo_playlists fo) then sortR cmpentries_func entries else Inr entries) (\<lambda>entries.
       if \<not> fc_notagview fc \<and> pid \<noteq> idprefix \<and> fc_enabletags fc then
         bindR (if showtopart then arturifordir fc fo idx cache else Inr (None, cache)) (\<lambda>(arturi, cache).
           Inr (direntry (pid @ ''$tagview.0'') pid ''>> Tag View'' arturi None None ''1'' None None # entries, cache))
       else Inr (entries, cache))))"

definition fo_browse ::
  "fo_conf \<Rightarrow> (string \<Rightarrow> string \<Rightarrow> string \<Rightarrow> string \<Rightarrow> entry list res) \<Rightarrow> folders \<Rightarrow> string \<Rightarrow> string \<Rightarrow>
   artcache \<Rightarrow> (entry list option \<times> artcache) res" where
  "fo_browse fc tagview fo pid flag cache =
     bindR (objidtoidx fo pid) (\<lambda>(isitem, idx0, pthremain).
       if truthy pthremain then
         (if \<not> startswith (the pthremain) ''$tagview.0'' then Inl (Raised ''bad pthremain'')
          else bindR (dirpath fo pid) (\<lambda>path.
               bindR (tagview pid flag (the pthremain) path) (\<lambda>es. Inr (Some es, cache))))
       else
         bindR (py_index (fo_dirvec fo) 0) (\<lambda>root.
         let idx = (if \<not> isitem \<and> idx0 = 0 \<and> length root = 2 then 1 else idx0) in
         if flag = ''meta'' then
           (if \<not> isitem then Inl (Raised ''browsemeta on non-item'')
            else browsemeta fc fo pid isitem idx cache)
         else bindR (list_dir fc fo pid idx cache) (\<lambda>(entries, cache). Inr (Some entries, cache))))"

definition objidforpath :: "fsenv \<Rightarrow> folders \<Rightarrow> doc \<Rightarrow> string res" where
  "objidforpath fe fo doc =
     bindR (fo_stat fe (fo_dirvec fo) doc) (\<lambda>(fathidx, docidx). Inr (idprefix @ ''$d'' @ str_int fathidx))"

definition objidfordoc :: "fsenv \<Rightarrow> folders \<Rightarrow> doc \<Rightarrow> string res" where
  "objidfordoc fe fo doc =
     (if d_val doc ''mtype'' = ''inode/directory'' then objidforpath fe fo doc
      else Inr (idprefix @ ''$xdocid'' @ d_val doc ''xdocid''))"

section \<open>Building never fails\<close>

text \<open>The element an index of Python selects.\<close>

definition slot :: "'a list \<Rightarrow> int \<Rightarrow> nat" where
  "slot xs i = (if 0 \<le> i then nat i else length xs - 1)"

definition in_dirvec :: "dirent list \<Rightarrow> int \<Rightarrow> bool" where
  "in_dirvec dv i \<longleftrightarrow> dv \<noteq> [] \<and> -1 \<le> i \<and> i < int (length dv)"

lemma in_dirvec_cases:
  assumes "in_dirvec dv i"
  obtains "i = -1" | "0 \<le> i" "nat i < length dv"
proof -
  have "i = -1 \<or> (0 \<le> i \<and> nat i < length dv)" using assms unfolding in_dirvec_def by linarith
  then show ?thesis using that by blast
qed

lemma slot_less [simp]: "in_dirvec dv i \<Longrightarrow> slot dv i < length dv"
  unfolding in_dirvec_def slot_def by (cases "0 \<le> i") auto

lemma in_dirvec_neg: "in_dirvec dv i \<Longrightarrow> \<not> 0 \<le> i \<Longrightarrow> i = -1 \<and> dv \<noteq> []"
  unfolding in_dirvec_def by linarith

lemma py_index_slot [simp]: "in_dirvec dv i \<Longrightarrow> py_index dv i = Inr (dv ! slot dv i)"
proof (cases "0 \<le> i")
  case False
  assume "in_dirvec dv i"
  from in_dirvec_neg [OF this False] show ?thesis by (simp add: slot_def py_index_def nth_res_def Suc_le_eq)
qed (auto simp: in_dirvec_def slot_def py_index_def nth_res_def)

lemma dir_put_slot [simp]:
  "in_dirvec dv i \<Longrightarrow> dir_put dv i nm v = Inr (dv[slot dv i := AList.update nm v (dv ! slot dv i)])"
proof (cases "0 \<le> i")
  case False
  assume "in_dirvec dv i"
  from in_dirvec_neg [OF this False] show ?thesis
    by (cases dv) (auto simp: slot_def dir_put_def Let_def)
qed (simp add: in_dirvec_def slot_def dir_put_def Let_def)

lemma set_dict_update: "set (AList.update k v d) \<subseteq> insert (k, v) (set d)"
  by (induction d) auto

definition ent_ok :: "nat \<Rightarrow> nat \<Rightarrow> int \<times> int \<Rightarrow> bool" where
  "ent_ok n nd e \<longleftrightarrow> -1 \<le> fst e \<and> fst e < int n \<and> -1 \<le> snd e \<and> snd e < int nd"

definition dir_ok :: "nat \<Rightarrow> nat \<Rightarrow> dirent \<Rightarrow> bool" where
  "dir_ok n nd d \<longleftrightarrow> has_key d ''..'' \<and> (\<forall>e \<in> set d. ent_ok n nd (snd e))"

text \<open>All indexes are in range, every directory has a parent, every playlist its own entry.\<close>

definition tree_ok :: "nat \<Rightarrow> dirent list \<times> int list \<Rightarrow> bool" where
  "tree_ok nd st \<longleftrightarrow>
     (case st of (dv, playlists) \<Rightarrow>
        dv \<noteq> [] \<and> (\<forall>d \<in> set dv. dir_ok (length dv) nd d) \<and>
        distinct playlists \<and> (playlists \<noteq> [] \<longrightarrow> 0 < nd) \<and>
        (\<forall>i \<in> set playlists. 0 \<le> i \<and> i < int (length dv) \<and> has_key (dv ! nat i) ''.''))"

lemma ent_ok_mono: "ent_ok n nd e \<Longrightarrow> n \<le> n' \<Longrightarrow> nd \<le> nd' \<Longrightarrow> ent_ok n' nd' e"
  by (auto simp: ent_ok_def)

lemma dir_ok_mono: "dir_ok n nd d \<Longrightarrow> n \<le> n' \<Longrightarrow> nd \<le> nd' \<Longrightarrow> dir_ok n' nd' d"
  using ent_ok_mono by (auto simp: dir_ok_def)

lemma dir_ok_update: "dir_ok n nd d \<Longrightarrow> ent_ok n nd v \<Longrightarrow> dir_ok n nd (AList.update nm v d)"
  using set_dict_update [of nm v d] by (auto simp: dir_ok_def)

lemma dir_ok_get: "dir_ok n nd d \<Longrightarrow> map_of d nm = Some e \<Longrightarrow> ent_ok n nd e"
  by (auto simp: dir_ok_def dest!: map_of_SomeD)

lemma tree_ok_nonempty: "tree_ok nd (dv, pl) \<Longrightarrow> dv \<noteq> []"
  by (simp add: tree_ok_def)

lemma tree_ok_dir: "tree_ok nd (dv, pl) \<Longrightarrow> j < length dv \<Longrightarrow> dir_ok (length dv) nd (dv ! j)"
  by (simp add: tree_ok_def)

lemma tree_ok_entry:
  assumes "tree_ok nd (dv, pl)" and "in_dirvec dv i" and "map_of (dv ! slot dv i) nm = Some (di, dx)"
  shows "in_dirvec dv di" and "-1 \<le> dx" and "dx < int nd"
  using dir_ok_get [OF tree_ok_dir [OF assms(1)] assms(3)] assms(1,2)
  by (auto simp: ent_ok_def in_dirvec_def tree_ok_def)

lemma tree_ok_put:
  assumes "tree_ok nd (dv, pl)" and "in_dirvec dv i" and "ent_ok (length dv) nd v"
  shows "tree_ok nd (dv[slot dv i := AList.update nm v (dv ! slot dv i)], pl)"
  using assms unfolding tree_ok_def
  by (auto simp: nth_list_update dir_ok_update dest!: set_update_subset_insert [THEN subsetD])

lemma createdir_eq:
  assumes "in_dirvec dv f"
  shows "createdir f docidx nm dv = Inr (int (length dv),
    (if f = -1 then dv @ [AList.update ''.'' (int (length dv), docidx)
           (AList.update ''..'' (-1, -1) [(nm, (int (length dv), docidx))])]
     else dv[nat f := AList.update nm (int (length dv), docidx) (dv ! nat f)] @
          [[(''..'', (f, -1)), (''.'', (int (length dv), docidx))]]))"
  using assms
  by (cases rule: in_dirvec_cases)
    (auto simp: createdir_def Let_def in_dirvec_def slot_def list_update_append nth_append)

lemma createdir_ok:
  assumes "tree_ok nd (dv, pl)" and "in_dirvec dv f" and "-1 \<le> docidx" and "docidx < int nd"
  shows "\<exists>dv'. createdir f docidx nm dv = Inr (int (length dv), dv') \<and> tree_ok nd (dv', pl) \<and>
    length dv' = Suc (length dv) \<and> has_key (dv' ! length dv) ''.''"
proof -
  have old: "\<forall>d \<in> set dv. dir_ok (Suc (length dv)) nd d"
    using assms(1) dir_ok_mono [of "length dv" nd _ "Suc (length dv)" nd] by (auto simp: tree_ok_def)
  have new: "ent_ok (Suc (length dv)) nd (int (length dv), docidx)" "ent_ok (Suc (length dv)) nd (f, -1)"
    using assms(2-4) by (auto simp: ent_ok_def in_dirvec_def)
  have pl: "\<forall>i \<in> set pl. 0 \<le> i \<and> i < int (length dv) \<and> has_key (dv ! nat i) ''.''"
    "distinct pl" "pl \<noteq> [] \<longrightarrow> 0 < nd"
    using assms(1) by (auto simp: tree_ok_def)
  show ?thesis
  proof (cases "f = -1")
    case True
    have "dir_ok (Suc (length dv)) nd (AList.update ''.'' (int (length dv), docidx)
        (AList.update ''..'' (-1, -1) [(nm, (int (length dv), docidx))]))"
      using new True by (auto simp: dir_ok_def has_key_def dest!: set_dict_update [THEN subsetD])
    then show ?thesis
      using True old pl createdir_eq [OF assms(2)] by (auto simp: tree_ok_def nth_append)
  next
    case False
    then have f: "nat f < length dv" using assms(2) by (auto simp: in_dirvec_def)
    have "dir_ok (Suc (length dv)) nd [(''..'', (f, -1)), (''.'', (int (length dv), docidx))]"
      using new by (simp add: dir_ok_def has_key_def)
    moreover have "dir_ok (Suc (length dv)) nd (AList.update nm (int (length dv), docidx) (dv ! nat f))"
      using old f new by (simp add: dir_ok_update)
    ultimately show ?thesis
      using False f old pl createdir_eq [OF assms(2)]
      by (auto simp: tree_ok_def nth_append nth_list_update has_key_def
          dest!: set_update_subset_insert [THEN subsetD])
  qed
qed

lemma createdir_fresh: "tree_ok nd (dv, pl) \<Longrightarrow> int (length dv) \<notin> set pl"
  by (auto simp: tree_ok_def)

lemma add_path_ok:
  "tree_ok nd (dv, pl) \<Longrightarrow> in_dirvec dv f \<Longrightarrow> k < nd \<Longrightarrow>
   \<exists>st'. add_path (int k) mtype f path (dv, pl) = Inr st' \<and> tree_ok nd st' \<and> length dv \<le> length (fst st')"
proof (induction path arbitrary: f dv)
  case (Cons elt rest)
  let ?d = "dv ! slot dv f"
  show ?case
  proof (cases "map_of ?d elt")
    case None
    obtain dv1 where dv1: "createdir f (-1) elt dv = Inr (int (length dv), dv1)" "tree_ok nd (dv1, pl)"
        "length dv1 = Suc (length dv)"
      using createdir_ok [OF Cons.prems(1,2), of "-1" elt] by auto
    obtain dv2 where dv2: "createdir f (int k) elt dv = Inr (int (length dv), dv2)" "tree_ok nd (dv2, pl)"
        "length dv2 = Suc (length dv)" "has_key (dv2 ! length dv) ''.''"
      using createdir_ok [OF Cons.prems(1,2), of "int k" elt] Cons.prems(3) by auto
    have "in_dirvec dv1 (int (length dv))" using dv1 by (simp add: in_dirvec_def tree_ok_def)
    from Cons.IH [OF dv1(2) this Cons.prems(3)] dv1(3) have 1: "rest \<noteq> [] \<Longrightarrow> ?thesis"
      using None Cons.prems dv1 by fastforce
    have in2: "in_dirvec dv2 (int (length dv))" using dv2 by (simp add: in_dirvec_def tree_ok_def)
    have "ent_ok (length dv2) nd (int (length dv), int k)" using dv2(3) Cons.prems(3) by (simp add: ent_ok_def)
    from tree_ok_put [OF dv2(2) in2 this, of "''.''"] dv2(3)
    have "tree_ok nd (dv2[slot dv2 (int (length dv)) := AList.update ''.'' (int (length dv), int k)
        (dv2 ! slot dv2 (int (length dv)))], pl @ [int (length dv)])"
      using dv2(3,4) createdir_fresh [OF Cons.prems(1)] Cons.prems(3)
      by (auto simp: tree_ok_def slot_def nth_list_update)
    then have 2: "rest = [] \<Longrightarrow> mtype = ''audio/x-mpegurl'' \<Longrightarrow> ?thesis"
      using None Cons.prems dv2 in2 by (simp add: createpldir_def)
    have "ent_ok (length dv) nd (-1, int k)"
      using Cons.prems(2,3) by (auto simp: ent_ok_def in_dirvec_def)
    from tree_ok_put [OF Cons.prems(1,2) this, of elt]
    have 3: "rest = [] \<Longrightarrow> mtype \<noteq> ''inode/directory'' \<Longrightarrow> mtype \<noteq> ''audio/x-mpegurl'' \<Longrightarrow> ?thesis"
      using None Cons.prems by simp
    have 4: "rest = [] \<Longrightarrow> mtype = ''inode/directory'' \<Longrightarrow> ?thesis"
      using None Cons.prems dv2 by simp
    from 1 2 3 4 show ?thesis by blast
  next
    case (Some e)
    then obtain di dx where e: "map_of ?d elt = Some (di, dx)" by (cases e) auto
    note di = tree_ok_entry [OF Cons.prems(1,2) e]
    have "ent_ok (length dv) nd (di, int k)"
      using di(1) Cons.prems(3) by (auto simp: ent_ok_def in_dirvec_def)
    from tree_ok_put [OF Cons.prems(1,2) this, of elt] e Cons.prems
    have 1: "rest = [] \<Longrightarrow> ?thesis" by simp
    have 2: "rest \<noteq> [] \<Longrightarrow> ?thesis"
      using Cons.IH [OF Cons.prems(1) di(1) Cons.prems(3)] e Cons.prems(2) by simp
    from 1 2 show ?thesis by blast
  qed
qed simp

lemma find_Some_set: "List.find P xs = Some x \<Longrightarrow> x \<in> set xs \<and> P x"
  by (induction xs) (auto split: if_splits)

lemma pathbeyondtopdirs_ok:
  assumes "tree_ok nd (dv, pl)"
  shows "\<exists>r. pathbeyondtopdirs fe dv doc = Inr r \<and> (\<forall>f p. r = Some (f, p) \<longrightarrow> in_dirvec dv f \<and> 0 \<le> f)"
proof -
  have in0: "in_dirvec dv 0" using assms by (auto simp: in_dirvec_def tree_ok_def)
  then have root: "py_index dv 0 = Inr (dv ! 0)" by (simp add: slot_def)
  have "in_dirvec dv f \<and> (f \<noteq> -1 \<longrightarrow> 0 \<le> f)" if "(nm, (f, x)) \<in> set (dv ! 0)" for nm f x
    using tree_ok_dir [OF assms, of 0] in0 that by (fastforce simp: dir_ok_def ent_ok_def in_dirvec_def)
  note entry = this
  show ?thesis
  proof (cases "List.find (\<lambda>(rtpath, _). startswith (utf8_fix [CHR 0xEF, CHR 0xBF, CHR 0xBD] (docpath fe doc)) rtpath) (dv ! 0)")
    case None
    then show ?thesis by (simp add: pathbeyondtopdirs_def root)
  next
    case (Some e)
    then obtain nm f x where e: "e = (nm, (f, x))" "(nm, (f, x)) \<in> set (dv ! 0)"
      by (cases e) (auto dest!: find_Some_set)
    then show ?thesis
      using Some entry [OF e(2)] by (auto simp: pathbeyondtopdirs_def root Let_def)
  qed
qed

lemma add_doc_ok:
  assumes "tree_ok nd st" and "k < nd"
  shows "\<exists>st'. add_doc fe (k, doc) st = Inr st' \<and> tree_ok nd st'"
proof -
  obtain dv pl where st: "st = (dv, pl)" by (cases st)
  obtain r where r: "pathbeyondtopdirs fe dv doc = Inr r" "\<forall>f p. r = Some (f, p) \<longrightarrow> in_dirvec dv f \<and> 0 \<le> f"
    using pathbeyondtopdirs_ok assms(1) unfolding st by blast
  have "\<exists>st'. add_path (int k) m f p (dv, pl) = Inr st' \<and> tree_ok nd st'" if "r = Some (f, p)" for m f p
    using add_path_ok [OF _ _ assms(2), of dv pl f m p] assms(1) r(2) that unfolding st by blast
  then show ?thesis
    using assms(1) r(1) by (auto simp: add_doc_def st split: option.split)
qed

lemma init_root_ok: "tree_ok nd (init_root topdirs, [])"
proof -
  have step: "tree_ok nd ((dv @ [[]])[0 := AList.update d (int (length (dv @ [[]])) - 1, -1) ((dv @ [[]]) ! 0),
      length (dv @ [[]]) - 1 := [(''..'', (0, -1))]], [])" if dv: "tree_ok nd (dv, [])" for d dv
  proof -
    obtain r rs where "dv = r # rs" using dv by (cases dv) (auto simp: tree_ok_def)
    moreover have "dir_ok (Suc (length dv)) nd x" if "x \<in> set dv" for x
      using dv that dir_ok_mono [of "length dv" nd x "Suc (length dv)" nd] by (auto simp: tree_ok_def)
    ultimately show ?thesis
      by (auto simp: tree_ok_def intro!: dir_ok_update) (auto simp: ent_ok_def dir_ok_def has_key_def)
  qed
  have "tree_ok nd (fold (\<lambda>d dv. let dv = dv @ [[]] in
      (dv[0 := AList.update d (int (length dv) - 1, -1) (dv ! 0)])[length dv - 1 := [(''..'', (0, -1))]])
      topdirs dv, [])" if "tree_ok nd (dv, [])" for dv
    using that by (induction topdirs arbitrary: dv) (use step in \<open>simp_all add: Let_def\<close>)
  moreover have "tree_ok nd ([[(''..'', (0, -1))]], [])"
    by (simp add: tree_ok_def dir_ok_def ent_ok_def has_key_def)
  ultimately show ?thesis unfolding init_root_def by blast
qed

lemma build_ok:
  "tree_ok nd st \<Longrightarrow> \<forall>x \<in> set xs. fst x < nd \<Longrightarrow>
   \<exists>st'. foldR (add_doc fe) xs st = Inr st' \<and> tree_ok nd st'"
proof (induction xs arbitrary: st)
  case (Cons x xs)
  then obtain st1 where "add_doc fe x st = Inr st1" "tree_ok nd st1"
    using add_doc_ok [OF Cons.prems(1), of "fst x" fe "snd x"] by auto
  with Cons show ?case by simp
qed simp

lemma stat_walk_total:
  "tree_ok nd (dv, pl) \<Longrightarrow> in_dirvec dv f \<Longrightarrow> \<exists>r. stat_walk dv f dx path = Inr r"
proof (induction path arbitrary: f dx)
  case (Cons elt rest)
  show ?case
  proof (cases "map_of (dv ! slot dv f) elt")
    case (Some e)
    then obtain di dx' where e: "map_of (dv ! slot dv f) elt = Some (di, dx')" by (cases e) auto
    from Cons.IH [OF Cons.prems(1) tree_ok_entry(1) [OF Cons.prems e]] e Cons.prems show ?thesis by simp
  qed (simp add: Cons.prems)
qed simp

lemma statpath_total:
  assumes "tree_ok nd (fo_dirvec fo, pl)"
  shows "\<exists>r. statpath fe fo plpath path = Inr r \<and>
    (\<forall>i. r = Some i \<longrightarrow> 0 \<le> i \<and> i < int (length (fo_rcldocs fo)))"
proof -
  have "\<exists>a b. fo_stat fe (fo_dirvec fo) doc = Inr (a, b)" for doc
  proof -
    obtain r where r: "pathbeyondtopdirs fe (fo_dirvec fo) doc = Inr r"
        "\<forall>f p. r = Some (f, p) \<longrightarrow> in_dirvec (fo_dirvec fo) f \<and> 0 \<le> f"
      using pathbeyondtopdirs_ok [OF assms] by blast
    show ?thesis
    proof (cases r)
      case (Some fp)
      then obtain f p where "r = Some (f, p)" by (cases fp) auto
      with r stat_walk_total [OF assms, of f "-1" p] show ?thesis by (simp add: fo_stat_def)
    qed (simp add: fo_stat_def r)
  qed
  note stat = this
  let ?path = "if isabs path then path else path_join (os_dirname plpath) path"
  show ?thesis
    using stat [of "if fe_resultstore fe then empty_doc\<lparr>d_val := (\<lambda>_. [])(''url'' := ''file://'' @ ?path)\<rparr>
                    else empty_doc\<lparr>d_binurl := ''file://'' @ ?path\<rparr>"]
    by (auto simp: statpath_def Let_def)
qed

text \<open>What filling the playlists keeps: with \<open>n\<close> documents of the index, the playlists still to be
  filled have their own entry, which names a document of the index.\<close>

definition fo_ok :: "folders \<Rightarrow> bool" where
  "fo_ok fo \<longleftrightarrow>
     tree_ok (length (fo_rcldocs fo) + length (fo_moredocs fo)) (fo_dirvec fo, [])"

definition waiting :: "folders \<Rightarrow> int \<Rightarrow> bool" where
  "waiting fo i \<longleftrightarrow> 0 \<le> i \<and> i < int (length (fo_dirvec fo)) \<and> fo_rcldocs fo \<noteq> [] \<and>
     (\<exists>a k. map_of (fo_dirvec fo ! nat i) ''.'' = Some (a, k) \<and> -1 \<le> k \<and> k < int (length (fo_rcldocs fo)))"

text \<open>What changes while a playlist is filled: its own directory and the additional documents.\<close>

definition fills :: "int \<Rightarrow> folders \<Rightarrow> folders \<Rightarrow> bool" where
  "fills i fo fo' \<longleftrightarrow> fo_ok fo' \<and> fo_rcldocs fo' = fo_rcldocs fo \<and> fo_playlists fo' = fo_playlists fo \<and>
     length (fo_dirvec fo') = length (fo_dirvec fo) \<and>
     (\<forall>j. j \<noteq> nat i \<longrightarrow> fo_dirvec fo' ! j = fo_dirvec fo ! j)"

lemma fills_refl: "fo_ok fo \<Longrightarrow> fills i fo fo"
  by (simp add: fills_def)

lemma fills_trans: "fills i fo fo' \<Longrightarrow> fills i fo' fo'' \<Longrightarrow> fills i fo fo''"
  by (simp add: fills_def)

lemma fo_ok_put:
  assumes "fo_ok fo" and "0 \<le> i" and "i < int (length (fo_dirvec fo))"
    and "ent_ok (length (fo_dirvec fo)) (length (fo_rcldocs fo) + length mr) v"
    and "length (fo_moredocs fo) \<le> length mr"
  shows "\<exists>dv'. dir_put (fo_dirvec fo) i nm v = Inr dv' \<and>
    fills i fo (fo\<lparr>fo_moredocs := mr, fo_dirvec := dv'\<rparr>)"
proof -
  have in_i: "in_dirvec (fo_dirvec fo) i" using assms(2,3) by (auto simp: in_dirvec_def)
  have "tree_ok (length (fo_rcldocs fo) + length mr) (fo_dirvec fo, [])"
    using assms(1,5) dir_ok_mono by (fastforce simp: fo_ok_def tree_ok_def)
  from tree_ok_put [OF this in_i assms(4), of nm] show ?thesis
    using in_i assms(2) by (auto simp: fills_def fo_ok_def slot_def)
qed

lemma playlist_element_ok:
  assumes "fo_ok fo" and "0 \<le> i" and "i < int (length (fo_dirvec fo))"
  shows "\<exists>fo'. playlist_element fe i plpath url fo = Inr fo' \<and> fills i fo fo'"
proof (cases "urlRE_match url")
  case True
  let ?tt = "if d_val (docforurl url) ''title'' = [] then d_val (docforurl url) ''text''
      else d_val (docforurl url) ''title''"
  have "ent_ok (length (fo_dirvec fo)) (length (fo_rcldocs fo) + length (fo_moredocs fo @ [docforurl url]))
      (-1, int (length (fo_rcldocs fo)) + int (length (fo_moredocs fo @ [docforurl url])) - 1)"
    by (simp add: ent_ok_def)
  from fo_ok_put [OF assms this, of ?tt] show ?thesis
    using True unfolding playlist_element_def Let_def by fastforce
next
  case False
  obtain r where r: "statpath fe fo plpath url = Inr r" "\<forall>k. r = Some k \<longrightarrow> 0 \<le> k \<and> k < int (length (fo_rcldocs fo))"
    using statpath_total [of _ fo "[]"] assms(1) unfolding fo_ok_def by blast
  show ?thesis
  proof (cases r)
    case (Some k)
    with r(2) have "ent_ok (length (fo_dirvec fo)) (length (fo_rcldocs fo) + length (fo_moredocs fo)) (-1, k)"
      by (auto simp: ent_ok_def)
    from fo_ok_put [OF assms this, of "os_basename url"] show ?thesis
      using False r(1) Some fills_refl [OF assms(1)] by (auto simp: playlist_element_def)
  qed (use False r(1) fills_refl [OF assms(1)] in \<open>simp add: playlist_element_def\<close>)
qed

lemma playlist_elements_ok:
  assumes "fo_ok fo" and "0 \<le> i" and "i < int (length (fo_dirvec fo))"
  shows "\<exists>fo'. foldR (playlist_element fe i plpath) urls fo = Inr fo' \<and> fills i fo fo'"
  using assms
proof (induction urls arbitrary: fo)
  case (Cons u urls)
  obtain fo1 where fo1: "playlist_element fe i plpath u fo = Inr fo1" "fills i fo fo1"
    using playlist_element_ok [OF Cons.prems] by blast
  then have "fo_ok fo1" "i < int (length (fo_dirvec fo1))" using Cons.prems(3) by (auto simp: fills_def)
  from Cons.IH [OF this(1) Cons.prems(2) this(2)] fo1 fills_trans show ?case by (simp, blast)
qed (simp add: fills_refl)

lemma init_playlist_ok:
  assumes "fo_ok fo" and "waiting fo i"
  shows "\<exists>fo'. init_playlist fc i fo = Inr fo' \<and> fills i fo fo'"
proof -
  obtain a k where k: "map_of (fo_dirvec fo ! nat i) ''.'' = Some (a, k)" "-1 \<le> k" "k < int (length (fo_rcldocs fo))"
    using assms(2) by (auto simp: waiting_def)
  have i: "0 \<le> i" "i < int (length (fo_dirvec fo))" using assms(2) by (auto simp: waiting_def)
  then have "in_dirvec (fo_dirvec fo) i" by (auto simp: in_dirvec_def)
  moreover have "\<exists>d. py_index (fo_rcldocs fo) k = Inr d"
  proof (cases "0 \<le> k")
    case False
    then have "k = -1" using k(2) by simp
    then show ?thesis using assms(2) by (simp add: py_index_def nth_res_def waiting_def Suc_le_eq)
  qed (use k(3) in \<open>auto simp: py_index_def nth_res_def\<close>)
  ultimately show ?thesis
    using k(1) i playlist_elements_ok [OF assms(1) i] fills_refl [OF assms(1)]
    by (auto simp: init_playlist_def dict_get_def slot_def Let_def split: option.splits)
qed

lemma waiting_fills: "waiting fo j \<Longrightarrow> fills i fo fo' \<Longrightarrow> i \<noteq> j \<Longrightarrow> 0 \<le> i \<Longrightarrow> waiting fo' j"
  by (auto simp: waiting_def fills_def)

lemma initplaylists_ok:
  assumes "fo_ok fo" and "distinct pl" and "\<forall>i \<in> set pl. waiting fo i"
  shows "\<exists>fo'. foldR (init_playlist fc) pl fo = Inr fo' \<and> fo_ok fo' \<and> fo_rcldocs fo' = fo_rcldocs fo \<and>
    fo_playlists fo' = fo_playlists fo \<and> length (fo_dirvec fo') = length (fo_dirvec fo)"
  using assms
proof (induction pl arbitrary: fo)
  case (Cons i pl)
  obtain fo1 where fo1: "init_playlist fc i fo = Inr fo1" "fills i fo fo1"
    using init_playlist_ok [OF Cons.prems(1), of i fc] Cons.prems(3) by auto
  have "0 \<le> i" using Cons.prems(3) by (auto simp: waiting_def)
  then have "\<forall>j \<in> set pl. waiting fo1 j"
    using Cons.prems(2,3) waiting_fills [OF _ fo1(2)] by auto
  with Cons.IH [of fo1] Cons.prems(2) fo1 show ?case by (auto simp: fills_def)
qed simp

text \<open>C5. The tree is built without failing, whatever the documents, their paths and groups, the top
  directories and the playlist files are; in the result every directory index and every document
  index is in range or -1, every directory knows its parent, and every playlist is a directory.\<close>

theorem rcl2folders_total:
  "\<exists>fo. rcl2folders fc topdirs docs = Inr fo \<and> fo_rcldocs fo = docs \<and> fo_dirvec fo \<noteq> [] \<and>
     list_all (\<lambda>d. has_key d ''..'' \<and>
       list_all (\<lambda>(nm, (di, dx)). -1 \<le> di \<and> di < int (length (fo_dirvec fo)) \<and>
           -1 \<le> dx \<and> dx < int (length docs + length (fo_moredocs fo))) d) (fo_dirvec fo) \<and>
     list_all (\<lambda>i. 0 \<le> i \<and> i < int (length (fo_dirvec fo))) (fo_playlists fo)"
proof -
  obtain dv pl where b: "foldR (add_doc (fc_fs fc)) (List.enumerate 0 docs) (init_root (map (rstrip is_slash) topdirs), [])
      = Inr (dv, pl)" "tree_ok (length docs) (dv, pl)"
    using build_ok [OF init_root_ok, of "List.enumerate 0 docs" "length docs" "fc_fs fc" "map (rstrip is_slash) topdirs"]
    by (force simp: in_set_enumerate_eq)
  define fo where "fo = \<lparr>fo_rcldocs = docs, fo_moredocs = [], fo_dirvec = dv, fo_playlists = pl\<rparr>"
  have ok: "fo_ok fo" using b(2) by (auto simp: fo_ok_def fo_def tree_ok_def)
  have pl: "\<forall>i \<in> set pl. 0 \<le> i \<and> i < int (length dv) \<and> has_key (dv ! nat i) ''.''" "distinct pl" "pl \<noteq> [] \<longrightarrow> docs \<noteq> []"
    using b(2) by (auto simp: tree_ok_def)
  have "waiting fo i" if i: "i \<in> set pl" for i
  proof -
    have "nat i < length dv" using pl(1) i by auto
    moreover obtain a k where ak: "map_of (dv ! nat i) ''.'' = Some (a, k)"
      using pl(1) i unfolding has_key_def by fastforce
    ultimately have "ent_ok (length dv) (length docs) (a, k)"
      using dir_ok_get [OF tree_ok_dir [OF b(2)] ak] by blast
    then show ?thesis using pl i ak by (auto simp: waiting_def fo_def ent_ok_def)
  qed
  then obtain fo' where "initplaylists fc fo = Inr fo'" "fo_ok fo'" "fo_rcldocs fo' = docs" "fo_playlists fo' = pl"
      "length (fo_dirvec fo') = length dv"
    using initplaylists_ok [OF ok pl(2), of fc] by (auto simp: initplaylists_def fo_def)
  then show ?thesis
    using b(1) pl(1) by (auto simp: rcl2folders_def fo_def fo_ok_def tree_ok_def dir_ok_def ent_ok_def list_all_iff split_beta)
qed

section \<open>What was added is found\<close>

text \<open>No name disappears, and no name changes its directory.\<close>

definition grows :: "dirent list \<Rightarrow> dirent list \<Rightarrow> bool" where
  "grows dv dv' \<longleftrightarrow> length dv \<le> length dv' \<and>
     (\<forall>j nm di dx. j < length dv \<longrightarrow> map_of (dv ! j) nm = Some (di, dx) \<longrightarrow>
        (\<exists>dx'. map_of (dv' ! j) nm = Some (di, dx')))"

lemma grows_refl [simp]: "grows dv dv"
  by (simp add: grows_def)

lemma grows_trans: "grows a b \<Longrightarrow> grows b c \<Longrightarrow> grows a c"
  unfolding grows_def by (meson le_trans less_le_trans)

lemma grows_get:
  "grows dv dv' \<Longrightarrow> j < length dv \<Longrightarrow> map_of (dv ! j) nm = Some (di, dx) \<Longrightarrow>
   \<exists>dx'. map_of (dv' ! j) nm = Some (di, dx')"
  by (auto simp: grows_def)

lemma grows_put:
  "(\<And>di' k'. map_of (dv ! j) nm = Some (di', k') \<Longrightarrow> di' = di) \<Longrightarrow>
   grows dv (dv[j := AList.update nm (di, k) (dv ! j)])"
  by (cases "j < length dv") (auto simp: grows_def nth_list_update)

lemma createdir_result:
  assumes "in_dirvec dv f" and "map_of (dv ! slot dv f) nm = None" and "createdir f k nm dv = Inr (n, dv')"
  shows "grows dv dv'" and "n = int (length dv)" and "length dv' = Suc (length dv)"
    and "0 \<le> f \<Longrightarrow> map_of (dv' ! nat f) nm = Some (n, k)"
    and "0 \<le> f \<Longrightarrow> x \<noteq> ''..'' \<Longrightarrow> x \<noteq> ''.'' \<Longrightarrow> map_of (dv' ! length dv) x = None"
    and "0 \<le> f \<Longrightarrow> j < length dv \<Longrightarrow> j \<noteq> nat f \<Longrightarrow> dv' ! j = dv ! j"
  using assms
  by (auto simp: createdir_eq grows_def nth_append nth_list_update slot_def in_dirvec_def split: if_splits)

lemma createpldir_result:
  assumes "in_dirvec dv f" and "map_of (dv ! slot dv f) nm = None"
    and "createpldir f k nm (dv, pl) = Inr (n, dv', pl')"
  shows "grows dv dv'" and "n = int (length dv)" and "length dv' = Suc (length dv)"
    and "0 \<le> f \<Longrightarrow> map_of (dv' ! nat f) nm = Some (n, k)"
    and "0 \<le> f \<Longrightarrow> j < length dv \<Longrightarrow> j \<noteq> nat f \<Longrightarrow> dv' ! j = dv ! j"
proof -
  obtain dv1 where dv1: "createdir f k nm dv = Inr (int (length dv), dv1)" using createdir_eq [OF assms(1)] by auto
  note c = createdir_result [OF assms(1,2) dv1]
  have "in_dirvec dv1 (int (length dv))" using c(3) by (auto simp: in_dirvec_def)
  then have eq: "n = int (length dv)" "dv' = dv1[length dv := AList.update ''.'' (int (length dv), k) (dv1 ! length dv)]"
    using assms(3) dv1 by (auto simp: createpldir_def slot_def)
  show "n = int (length dv)" "length dv' = Suc (length dv)" using eq c(3) by simp_all
  show "grows dv dv'" using c(1,3) by (simp add: eq grows_def nth_list_update)
  have f: "0 \<le> f \<Longrightarrow> nat f < length dv" using assms(1) by (auto simp: in_dirvec_def)
  show "0 \<le> f \<Longrightarrow> map_of (dv' ! nat f) nm = Some (n, k)" using c(4) f eq by simp
  show "0 \<le> f \<Longrightarrow> j < length dv \<Longrightarrow> j \<noteq> nat f \<Longrightarrow> dv' ! j = dv ! j" using c(6) eq by simp
qed

text \<open>The part of a path that exists consists of directories below the root.\<close>

fun dirs_only :: "dirent list \<Rightarrow> int \<Rightarrow> string list \<Rightarrow> bool" where
  "dirs_only dv f [] = True"
| "dirs_only dv f (elt # rest) =
     (elt \<noteq> ''..'' \<and> elt \<noteq> ''.'' \<and>
      (case map_of (dv ! nat f) elt of
         None \<Rightarrow> list_all (\<lambda>e. e \<noteq> ''..'' \<and> e \<noteq> ''.'') rest
       | Some (di, _) \<Rightarrow> rest = [] \<or> (0 < di \<and> dirs_only dv di rest)))"

lemma dirs_only_new:
  "(\<And>x. x \<noteq> ''..'' \<Longrightarrow> x \<noteq> ''.'' \<Longrightarrow> map_of (dv ! nat f) x = None) \<Longrightarrow>
   list_all (\<lambda>e. e \<noteq> ''..'' \<and> e \<noteq> ''.'') path \<Longrightarrow> dirs_only dv f path"
  by (cases path) auto

lemma add_path_found:
  assumes "tree_ok nd (dv, pl)" and "0 < f" and "in_dirvec dv f" and "k < nd" and "dirs_only dv f path"
    and "add_path (int k) mtype f path (dv, pl) = Inr (dv', pl')"
  shows "grows dv dv' \<and> dv' ! 0 = dv ! 0 \<and>
    (path \<noteq> [] \<longrightarrow> (\<exists>di. stat_walk dv' f dx path = Inr (di, int k)))"
  using assms
proof (induction path arbitrary: f dv dx)
  case (Cons elt rest)
  note ok = Cons.prems(1) and f = Cons.prems(2,3)
  have slot: "slot dv f = nat f" "nat f \<noteq> 0" "nat f < length dv" "0 \<le> f" "0 < length dv"
    using f by (auto simp: slot_def in_dirvec_def)
  have walk: "stat_walk dv' f dx (elt # rest) = stat_walk dv' di k' rest"
    if "grows dv dv'" "map_of (dv' ! nat f) elt = Some (di, k')" for di k'
  proof -
    have "in_dirvec dv' f" using that(1) f by (auto simp: in_dirvec_def grows_def)
    then show ?thesis using that(2) slot(4) by (simp add: slot_def)
  qed
  show ?case
  proof (cases "map_of (dv ! nat f) elt")
    case None
    then have no: "map_of (dv ! slot dv f) elt = None" by (simp add: slot)
    show ?thesis
    proof (cases "rest = []")
      case False
      obtain n dv1 where dv1: "createdir f (-1) elt dv = Inr (n, dv1)"
        using createdir_eq [OF f(2)] by auto
      note c = createdir_result [OF f(2) no dv1]
      obtain dv1' where "createdir f (-1) elt dv = Inr (int (length dv), dv1')" "tree_ok nd (dv1', pl)"
        using createdir_ok [OF ok f(2), of "-1" elt] by auto
      then have ok1: "tree_ok nd (dv1, pl)" using dv1 by simp
      have n: "0 < n" "in_dirvec dv1 n" "nat n = length dv"
        using c(2,3) slot(5) by (auto simp: in_dirvec_def)
      have "dirs_only dv1 n rest"
        using c(5) Cons.prems(5) None slot(4) n(3) by (intro dirs_only_new) auto
      moreover have "add_path (int k) mtype n rest (dv1, pl) = Inr (dv', pl')"
        using Cons.prems(6) no f False dv1 by simp
      ultimately have IH: "grows dv1 dv'" "dv' ! 0 = dv1 ! 0" "\<exists>di. stat_walk dv' n dx rest = Inr (di, int k)" for dx
        using Cons.IH [OF ok1 n(1,2) Cons.prems(4)] False by blast+
      have g: "grows dv dv'" using grows_trans [OF c(1) IH(1)] .
      obtain k' where "map_of (dv' ! nat f) elt = Some (n, k')"
        using grows_get [OF IH(1) _ c(4)] c(3) slot by auto
      from walk [OF g this] IH(3) [of k'] g IH(2) c(6) [of 0] slot show ?thesis by simp
    next
      case True
      show ?thesis
      proof (cases "mtype = ''inode/directory''")
        case dir: True
        with True no f Cons.prems(6) obtain n where cd: "createdir f (int k) elt dv = Inr (n, dv')"
          by (auto simp: bindR_eq_Inr)
        note c = createdir_result [OF f(2) no cd]
        from walk [OF c(1) c(4)] c(1) c(6) [of 0] slot True show ?thesis by simp
      next
        case nodir: False
        show ?thesis
        proof (cases "mtype = ''audio/x-mpegurl''")
          case pls: True
          with True nodir no f Cons.prems(6) obtain n where cd: "createpldir f (int k) elt (dv, pl) = Inr (n, dv', pl')"
            by (auto simp: bindR_eq_Inr)
          note c = createpldir_result [OF f(2) no cd]
          from walk [OF c(1) c(4)] c(1) c(5) [of 0] slot True show ?thesis by simp
        next
          case False
          with True nodir no f Cons.prems(6)
          have dv': "dv' = dv[nat f := AList.update elt (-1, int k) (dv ! nat f)]" by (simp add: slot)
          have g: "grows dv dv'" unfolding dv' using None by (intro grows_put) simp
          from walk [OF g, of "-1" "int k"] g True slot show ?thesis by (simp add: dv')
        qed
      qed
    qed
  next
    case (Some e)
    then obtain di x where e: "map_of (dv ! nat f) elt = Some (di, x)" by (cases e) auto
    then have e': "map_of (dv ! slot dv f) elt = Some (di, x)" by (simp add: slot)
    show ?thesis
    proof (cases "rest = []")
      case True
      with e e' f Cons.prems(6) have dv': "dv' = dv[nat f := AList.update elt (di, int k) (dv ! nat f)]"
        by (simp add: slot)
      have g: "grows dv dv'" unfolding dv' using e by (intro grows_put) simp
      from walk [OF g, of di "int k"] g True slot show ?thesis by (simp add: dv')
    next
      case False
      with e Cons.prems(5) have di: "0 < di" "dirs_only dv di rest" by auto
      have "add_path (int k) mtype di rest (dv, pl) = Inr (dv', pl')"
        using Cons.prems(6) e' f False by simp
      then have IH: "grows dv dv'" "dv' ! 0 = dv ! 0" "\<exists>d. stat_walk dv' di dx rest = Inr (d, int k)" for dx
        using Cons.IH [OF ok di(1) tree_ok_entry(1) [OF ok f(2) e'] Cons.prems(4) di(2)] False by blast+
      obtain k' where "map_of (dv' ! nat f) elt = Some (di, k')"
        using grows_get [OF IH(1) slot(3) e] by blast
      from walk [OF IH(1) this] IH(3) [of k'] IH(1,2) show ?thesis by simp
    qed
  qed
qed simp

text \<open>C6. A document that has been added is found: when the existing part of its path consists of
  directories, looking its path up in the tree afterwards gives its own index, and every name that
  was in the tree before is still there, with the same directory.\<close>

theorem add_doc_then_stat:
  assumes "tree_ok nd (dv, pl)" and "k < nd" and "d_val doc ''mtype'' \<in> set audiomtypes"
    and "pathbeyondtopdirs fe dv doc = Inr (Some (f, path))" and "0 < f" and "path \<noteq> []"
    and "dirs_only dv f path"
    and "add_doc fe (k, doc) (dv, pl) = Inr (dv', pl')"
  shows "(\<exists>di. fo_stat fe dv' doc = Inr (di, int k)) \<and> grows dv dv'"
proof -
  have f: "in_dirvec dv f"
    using pathbeyondtopdirs_ok [OF assms(1), of fe doc] assms(4) by auto
  have "add_path (int k) (d_val doc ''mtype'') f path (dv, pl) = Inr (dv', pl')"
    using assms(3,4,5,8) by (simp add: add_doc_def)
  from add_path_found [OF assms(1,5) f assms(2,7) this, of "-1"]
  have found: "grows dv dv'" "dv' ! 0 = dv ! 0" "\<exists>di. stat_walk dv' f (-1) path = Inr (di, int k)"
    using assms(6) by auto
  have "dv \<noteq> []" "dv' \<noteq> []" using assms(1) found(1) by (auto simp: tree_ok_def grows_def)
  then have "py_index dv' 0 = py_index dv 0" using found(2) by (simp add: py_index_def nth_res_def)
  then have "pathbeyondtopdirs fe dv' doc = Inr (Some (f, path))"
    using assms(4) by (simp add: pathbeyondtopdirs_def)
  then show ?thesis using found(1,3) assms(5) by (simp add: fo_stat_def)
qed

definition demo_track :: "string \<Rightarrow> string \<Rightarrow> doc" where
  "demo_track mtype url =
     \<lparr>d_val = (\<lambda>k. if k = ''mtype'' then mtype else if k = ''url'' then url else []), d_binurl = []\<rparr>"

definition demo_fsenv :: fsenv where
  "demo_fsenv = \<lparr>fe_exists = (\<lambda>_. False), fe_listdir = (\<lambda>_. Some []), fe_resultstore = True\<rparr>"

theorem add_doc_then_stat_witness:
  "\<exists>dv' pl' di. add_doc demo_fsenv (0, demo_track ''audio/flac'' ''file:///m/a/1.flac'') (init_root [''/m''], []) = Inr (dv', pl') \<and>
     fo_stat demo_fsenv dv' (demo_track ''audio/flac'' ''file:///m/a/1.flac'') = Inr (di, 0)"
proof -
  let ?doc = "demo_track ''audio/flac'' ''file:///m/a/1.flac''"
  obtain st where st: "add_doc demo_fsenv (0, ?doc) (init_root [''/m''], []) = Inr st"
    using add_doc_ok [OF init_root_ok, of 0 1] zero_less_one by blast
  have h: "d_val ?doc ''mtype'' \<in> set audiomtypes" "dirs_only (init_root [''/m'']) 1 [''a'', ''1.flac'']"
    "pathbeyondtopdirs demo_fsenv (init_root [''/m'']) ?doc = Inr (Some (1, [''a'', ''1.flac'']))"
    by code_simp+
  have "\<exists>di. fo_stat demo_fsenv (fst st) ?doc = Inr (di, int 0)"
    by (rule add_doc_then_stat [THEN conjunct1, OF init_root_ok [of 1] _ h(1,3) _ _ h(2), of 0 "fst st" "snd st"]) (simp_all add: st)
  then show ?thesis using st by (cases st) auto
qed

section \<open>Identifiers\<close>

lemma idprefix_simps:
  "startswith (idprefix @ s) idprefix" "drop (length idprefix) (idprefix @ s) = s"
  by simp_all

lemma no_dollar_str_int: "py_find (str_int i) ''$'' = None"
  by (rule py_find_notin) simp

lemma objidtoidx_new:
  assumes "fo_rcldocs fo \<noteq> []" and "c = CHR ''d'' \<or> c = CHR ''i''"
  shows "objidtoidx fo (idprefix @ CHR ''$'' # c # str_int i) =
    (if c = CHR ''i'' \<and> int (length (fo_rcldocs fo)) \<le> i
     then Inl (Raised ''folders:browse: bad pid exceeds rcldocs size'')
     else if c = CHR ''d'' \<and> int (length (fo_dirvec fo)) \<le> i
     then Inl (Raised ''folders:browse: bad pid exceeds dirvec size'')
     else Inr (c = CHR ''i'', i, None))"
proof -
  have "py_find (c # str_int i) ''$'' = None" using assms(2) no_dollar_str_int [of i] by auto
  then show ?thesis using assms by (auto simp: objidtoidx_def parse_objid_def)
qed

lemma py_find_single: "py_find s [c] = None \<longleftrightarrow> c \<notin> set s"
  by (induction s) auto

lemma parse_objid_short: "parse_objid [c] = Inl (Raised ''folders:browse: called on non dir objid'')"
  by (simp add: parse_objid_def)

lemma parse_objid_Cons:
  "parse_objid (c # k # r) =
     (if c = CHR ''$'' \<and> (k = CHR ''d'' \<or> k = CHR ''i'') then
        (case py_find r ''$'' of
           None \<Rightarrow> bindR (py_int r) (\<lambda>idx. Inr (k = CHR ''i'', idx, None))
         | Some n \<Rightarrow> bindR (py_int (take n r)) (\<lambda>idx. Inr (k = CHR ''i'', idx, Some (drop n r))))
      else Inl (Raised ''folders:browse: called on non dir objid''))"
  by (auto simp: parse_objid_def split: option.split)

lemma parse_objid_dir:
  assumes "parse_objid (c # k # r) = Inr (False, idx, None)"
  shows "c = CHR ''$''" and "k = CHR ''d''" and "py_find r ''$'' = None" and "py_int r = Inr idx"
proof -
  show c: "c = CHR ''$''" using assms unfolding parse_objid_Cons by (rule_tac ccontr) simp
  have "k = CHR ''d'' \<or> k = CHR ''i''" using assms unfolding parse_objid_Cons by (rule_tac ccontr) simp
  then show k: "k = CHR ''d''"
    using assms unfolding parse_objid_Cons c
    by (cases "py_find r ''$''") (auto simp: bindR_def split: sum.splits)
  show "py_find r ''$'' = None" "py_int r = Inr idx"
    using assms unfolding c k parse_objid_Cons
    by (cases "py_find r ''$''"; cases "py_int r"; simp add: bindR_eq_Inr)+
qed

lemma parse_objid_tagview:
  assumes "parse_objid p = Inr (False, idx, None)"
  shows "parse_objid (p @ ''$tagview.0'') = Inr (False, idx, Some ''$tagview.0'')"
proof -
  have "p \<noteq> []" using assms by (auto simp: parse_objid_def)
  then obtain c q where q: "p = c # q" by (cases p) blast
  then have "q \<noteq> []" using assms parse_objid_short [of c] by (metis Inl_Inr_False)
  then obtain k r where p: "p = c # k # r" using q by (metis neq_Nil_conv)
  note kc = parse_objid_dir [OF assms [unfolded p]]
  have "CHR ''$'' \<notin> set r" using kc(3) by (simp add: py_find_single)
  from py_find_append_notin [OF this, of "''tagview.0''" "[]"]
  have find: "py_find (r @ ''$tagview.0'') ''$'' = Some (length r)" by simp
  have "p @ ''$tagview.0'' = CHR ''$'' # CHR ''d'' # (r @ ''$tagview.0'')" unfolding p kc(1,2) by simp
  then show ?thesis
    by (simp only: parse_objid_Cons find option.case) (simp add: kc(4))
qed

lemma objidtoidx_tagview:
  assumes "objidtoidx fo pid = Inr (False, idx, None)"
  shows "objidtoidx fo (pid @ ''$tagview.0'') = Inr (False, idx, Some ''$tagview.0'')"
proof -
  have pre: "startswith pid idprefix" "fo_rcldocs fo \<noteq> []"
    using assms by (auto simp: objidtoidx_def split: if_splits)
  then have "parse_objid (drop (length idprefix) pid) = Inr (False, idx, None)" "\<not> int (length (fo_dirvec fo)) \<le> idx"
    using assms by (auto simp: objidtoidx_def bindR_eq_Inr split: if_splits)
  moreover have "drop (length idprefix) (pid @ t) = drop (length idprefix) pid @ t" "startswith (pid @ t) idprefix" for t
    using pre(1) by (auto simp: startswith_iff)
  ultimately show ?thesis using pre parse_objid_tagview by (simp add: objidtoidx_def)
qed

text \<open>The identifier and the title under which a name of a directory is listed, if it is: a
  sub-directory that is not empty under its number and the last part of its name; an item with an
  audio type under the number of its document and the title of it, else the last part of its path.\<close>

definition doc_at :: "folders \<Rightarrow> int \<Rightarrow> doc" where
  "doc_at fo dx = (fo_rcldocs fo @ fo_moredocs fo) ! nat dx"

definition doc_title :: "doc \<Rightarrow> string" where
  "doc_title doc = (if d_val doc ''title'' \<noteq> [] then d_val doc ''title'' else os_basename (snd (url_split (d_val doc ''url''))))"

definition listed_as :: "folders \<Rightarrow> string \<times> (int \<times> int) \<Rightarrow> (string \<times> string) option" where
  "listed_as fo name =
     (case name of (nm, (di, dx)) \<Rightarrow>
       if nm \<in> {''.'', ''..''} then None
       else if 0 \<le> di then
         (if length (fo_dirvec fo ! nat di) \<noteq> 1 then Some (idprefix @ ''$d'' @ str_int di, os_basename nm) else None)
       else if 0 \<le> dx \<and> d_val (doc_at fo dx) ''mtype'' \<in> set audiomtypes
       then Some (idprefix @ ''$i'' @ str_int dx, doc_title (doc_at fo dx)) else None)"

definition tagview_listed :: "fo_conf \<Rightarrow> string \<Rightarrow> (string \<times> string) list" where
  "tagview_listed fc pid =
     (if fc_enabletags fc \<and> \<not> fc_notagview fc \<and> pid \<noteq> idprefix then [(pid @ ''$tagview.0'', ''>> Tag View'')] else [])"

text \<open>What such an identifier stands for when it is browsed; the elements of playlists that have a URL
  are listed under identifiers that browsing refuses.\<close>

definition leads_to :: "folders \<Rightarrow> int \<Rightarrow> int \<Rightarrow> (bool \<times> int \<times> string option) res" where
  "leads_to fo di dx =
     (if 0 \<le> di then Inr (False, di, None)
      else if dx < int (length (fo_rcldocs fo)) then Inr (True, dx, None)
      else Inl (Raised ''folders:browse: bad pid exceeds rcldocs size''))"

definition id_and_title :: "entry \<Rightarrow> string option \<times> string option \<times> string option" where
  "id_and_title e = (e ''id'', e ''tt'', e ''pid'')"

definition listed_under :: "string \<Rightarrow> string \<times> string \<Rightarrow> string option \<times> string option \<times> string option" where
  "listed_under pid it = (Some (fst it), Some (snd it), Some pid)"

lemma fo_ok_in: "fo_ok fo \<Longrightarrow> i < length (fo_dirvec fo) \<Longrightarrow> e \<in> set (fo_dirvec fo ! i) \<Longrightarrow>
    ent_ok (length (fo_dirvec fo)) (length (fo_rcldocs fo) + length (fo_moredocs fo)) (snd e)"
  unfolding fo_ok_def using tree_ok_dir by (fastforce simp: dir_ok_def)

lemma rcldoctoentry_listed:
  assumes "rcldoctoentry fe i pid httphp pp doc cache = Inr (e, cache')"
  shows "e ''id'' \<noteq> None \<longleftrightarrow> d_val doc ''mtype'' \<in> set audiomtypes"
    and "d_val doc ''mtype'' \<in> set audiomtypes \<Longrightarrow> id_and_title e = listed_under pid (i, doc_title doc)"
proof -
  have *: "id_and_title e = listed_under pid (i, doc_title doc)" if mt: "d_val doc ''mtype'' \<in> set audiomtypes"
  proof -
    obtain arturi where "e = finish_entry fe httphp doc arturi (index_entry i pid doc)"
      using rcldoctoentry_eq [OF assms mt] .
    then show ?thesis
      by (simp add: id_and_title_def listed_under_def doc_title_def finish_entry_keeps finish_entry_title index_entry_title)
  qed
  then show "d_val doc ''mtype'' \<in> set audiomtypes \<Longrightarrow> id_and_title e = listed_under pid (i, doc_title doc)" .
  show "e ''id'' \<noteq> None \<longleftrightarrow> d_val doc ''mtype'' \<in> set audiomtypes"
  proof (cases "d_val doc ''mtype'' \<in> set audiomtypes")
    case True
    with * show ?thesis by (simp add: id_and_title_def listed_under_def)
  next
    case False
    then show ?thesis using assms by (auto simp: rcldoctoentry_def)
  qed
qed

lemma docforidx_at:
  assumes "0 \<le> dx" and "dx < int (length (fo_rcldocs fo) + length (fo_moredocs fo))"
  shows "docforidx fo dx = Inr (doc_at fo dx)"
  using assms by (auto simp: docforidx_def doc_at_def py_index_def nth_res_def nth_append nat_diff_distrib)

lemma browse_name_lists:
  assumes "fo_ok fo" and "i < length (fo_dirvec fo)" and "name \<in> set (fo_dirvec fo ! i)"
    and "browse_name fc fo pid name (es, b, cache) = Inr (es', b', cache')"
  shows "map id_and_title es' = map id_and_title es @ map (listed_under pid) (List.map_filter (listed_as fo) [name])"
proof -
  obtain nm di dx where name: "name = (nm, (di, dx))" by (cases name) auto
  have ok: "-1 \<le> di" "di < int (length (fo_dirvec fo))" "-1 \<le> dx"
      "dx < int (length (fo_rcldocs fo) + length (fo_moredocs fo))"
    using fo_ok_in [OF assms(1-3)] by (auto simp: name ent_ok_def)
  consider "nm = ''..'' \<or> nm = ''.''" | "nm \<noteq> ''..''" "nm \<noteq> ''.''" "0 \<le> di"
    | "nm \<noteq> ''..''" "nm \<noteq> ''.''" "\<not> 0 \<le> di" "dx = -1"
    | "nm \<noteq> ''..''" "nm \<noteq> ''.''" "\<not> 0 \<le> di" "0 \<le> dx" using ok(3) by linarith
  then show ?thesis
  proof cases
    case 1
    with assms(4) show ?thesis by (auto simp: browse_name_def name listed_as_def map_filter_simps)
  next
    case 2
    then have "py_index (fo_dirvec fo) di = Inr (fo_dirvec fo ! nat di)"
      using ok(2) by (simp add: py_index_def nth_res_def nat_less_iff)
    with 2 assms(4) show ?thesis
      by (auto simp: browse_name_def name listed_as_def map_filter_simps bindR_eq_Inr id_and_title_def listed_under_def
          split: if_splits)
  next
    case 3
    with assms(4) show ?thesis by (auto simp: browse_name_def name listed_as_def map_filter_simps)
  next
    case 4
    obtain e c where e: "rcldoctoentry (fc_fs fc) (idprefix @ ''$i'' @ str_int dx) pid (fc_httphp fc) (fc_pprefix fc)
          (doc_at fo dx) cache = Inr (e, c)" "es' = (if e ''id'' \<noteq> None then es @ [e] else es)"
      using assms(4) 4 docforidx_at [OF 4(4) ok(4)] by (auto simp: browse_name_def name bindR_eq_Inr)
    show ?thesis
      using 4 rcldoctoentry_listed [OF e(1)] e(2)
      by (auto simp: listed_as_def name map_filter_simps)
  qed
qed

lemma browse_names_list:
  assumes "fo_ok fo" and "i < length (fo_dirvec fo)"
    and "foldR (browse_name fc fo pid) names (es, b, cache) = Inr (es', b', cache')"
    and "set names \<subseteq> set (fo_dirvec fo ! i)"
  shows "map id_and_title es' = map id_and_title es @ map (listed_under pid) (List.map_filter (listed_as fo) names)"
  using assms(3,4)
proof (induction names arbitrary: es b cache)
  case (Cons n names)
  then obtain es1 b1 c1 where n: "browse_name fc fo pid n (es, b, cache) = Inr (es1, b1, c1)"
      "foldR (browse_name fc fo pid) names (es1, b1, c1) = Inr (es', b', cache')"
    by (auto simp: bindR_eq_Inr)
  with Cons.IH [OF n(2)] browse_name_lists [OF assms(1,2) _ n(1)] Cons.prems show ?case
    by (simp add: map_filter_simps split: option.splits)
qed (simp add: map_filter_simps)

lemma list_dir_lists:
  assumes "fo_ok fo" and "0 \<le> i" and "list_dir fc fo pid i cache = Inr (es, cache')"
  shows "nat i < length (fo_dirvec fo)"
    and "mset (map id_and_title es) =
       mset (map (listed_under pid) (tagview_listed fc pid @ List.map_filter (listed_as fo) (fo_dirvec fo ! nat i)))"
    and "i \<in> set (fo_playlists fo) \<Longrightarrow> map id_and_title es =
       map (listed_under pid) (tagview_listed fc pid @ List.map_filter (listed_as fo) (fo_dirvec fo ! nat i))"
proof -
  obtain d where d: "py_index (fo_dirvec fo) i = Inr d"
    using assms(3) by (cases "py_index (fo_dirvec fo) i") (simp_all add: list_dir_def)
  obtain es0 b c where names: "foldR (browse_name fc fo pid) d ([], True, cache) = Inr (es0, b, c)"
    using assms(3) by (cases "foldR (browse_name fc fo pid) d ([], True, cache)") (auto simp: list_dir_def d)
  obtain es1 where srt: "(if i \<notin> set (fo_playlists fo) then sortR cmpentries_func es0 else Inr es0) = Inr es1"
    using assms(3) by (cases "if i \<notin> set (fo_playlists fo) then sortR cmpentries_func es0 else Inr es0")
      (auto simp: list_dir_def d names)
  have res: "map id_and_title es = map (listed_under pid) (tagview_listed fc pid) @ map id_and_title es1"
    using assms(3) unfolding list_dir_def d names srt
    by (cases "if b then arturifordir fc fo i c else Inr (None, c)")
      (auto simp: d names srt bindR_def tagview_listed_def id_and_title_def listed_under_def split: if_splits prod.splits)
  show j: "nat i < length (fo_dirvec fo)"
    using d assms(2) by (auto simp: py_index_def nth_res_def split: if_splits)
  have dj: "d = fo_dirvec fo ! nat i" using d assms(2) by (auto simp: py_index_def nth_res_def split: if_splits)
  have es0: "map id_and_title es0 = map (listed_under pid) (List.map_filter (listed_as fo) (fo_dirvec fo ! nat i))"
    using browse_names_list [OF assms(1) j names] dj by simp
  have "mset es1 = mset es0" using srt sortR_mset [of cmpentries_func es0 es1] by (auto split: if_splits)
  then have "mset (map id_and_title es1) = mset (map id_and_title es0)" by simp
  then show "mset (map id_and_title es) =
       mset (map (listed_under pid) (tagview_listed fc pid @ List.map_filter (listed_as fo) (fo_dirvec fo ! nat i)))"
    unfolding res es0 by simp
  show "map id_and_title es =
       map (listed_under pid) (tagview_listed fc pid @ List.map_filter (listed_as fo) (fo_dirvec fo ! nat i))"
    if "i \<in> set (fo_playlists fo)"
  proof -
    have "es1 = es0" using srt that by simp
    then show ?thesis by (simp only: res es0 map_append)
  qed
qed

lemma listed_leads_to:
  assumes "fo_ok fo" and "fo_rcldocs fo \<noteq> []" and "i < length (fo_dirvec fo)" and "(nm, (di, dx)) \<in> set (fo_dirvec fo ! i)"
    and "listed_as fo (nm, (di, dx)) = Some (oid, tt)"
  shows "objidtoidx fo oid = leads_to fo di dx"
  using assms(5) fo_ok_in [OF assms(1,3,4)] objidtoidx_new [OF assms(2), of "CHR ''d''" di]
    objidtoidx_new [OF assms(2), of "CHR ''i''" dx]
  by (auto simp: listed_as_def leads_to_def ent_ok_def split: if_splits)

text \<open>C9. Listing a directory gives, with the identifier of the directory as their parent, the tag view
  of the directory where there is one, and exactly one entry for every name that is to be listed,
  with the identifier and the title that belong to the name; the entries of a playlist are in the
  order of the playlist. Browsing the identifier listed for a name leads to the directory or the
  document of that name, and the one of the tag view to the tag view of this directory. The
  exception are the URL elements of playlists: the identifiers they are listed under are refused.
  (A root with one directory shows that directory.)\<close>

theorem browse_identifiers:
  assumes "fo_ok fo" and "objidtoidx fo pid = Inr (False, idx, None)" and "0 \<le> idx"
    and "fo_browse fc tagview fo pid ''children'' cache = Inr (Some es, cache')"
    and "shown = (if idx = 0 \<and> length (fo_dirvec fo ! 0) = 2 then 1 else nat idx)"
  shows "mset (map id_and_title es) =
      mset (map (listed_under pid) (tagview_listed fc pid @ List.map_filter (listed_as fo) (fo_dirvec fo ! shown))) \<and>
    (int shown \<in> set (fo_playlists fo) \<longrightarrow> map id_and_title es =
      map (listed_under pid) (tagview_listed fc pid @ List.map_filter (listed_as fo) (fo_dirvec fo ! shown))) \<and>
    (\<forall>(nm, (di, dx)) \<in> set (fo_dirvec fo ! shown). \<forall>oid tt.
       listed_as fo (nm, (di, dx)) = Some (oid, tt) \<longrightarrow> objidtoidx fo oid = leads_to fo di dx) \<and>
    objidtoidx fo (pid @ ''$tagview.0'') = Inr (False, idx, Some ''$tagview.0'')"
proof -
  have docs: "fo_rcldocs fo \<noteq> []" using assms(2) by (auto simp: objidtoidx_def split: if_splits)
  obtain root where root: "py_index (fo_dirvec fo) 0 = Inr root"
    using assms(4) unfolding fo_browse_def assms(2) by (cases "py_index (fo_dirvec fo) 0") simp_all
  then have "root = fo_dirvec fo ! 0" by (auto simp: py_index_def nth_res_def split: if_splits)
  with root obtain c where ld: "list_dir fc fo pid (int shown) cache = Inr (es, c)"
    using assms(3-5) unfolding fo_browse_def assms(2) by (auto simp: bindR_eq_Inr Let_def split: if_splits)
  note l = list_dir_lists [OF assms(1) _ ld, simplified]
  have "\<forall>(nm, (di, dx)) \<in> set (fo_dirvec fo ! shown). \<forall>oid tt.
       listed_as fo (nm, (di, dx)) = Some (oid, tt) \<longrightarrow> objidtoidx fo oid = leads_to fo di dx"
    using listed_leads_to [OF assms(1) docs l(1)] by blast
  then show ?thesis using l(2,3) objidtoidx_tagview [OF assms(2)] by simp
qed

definition demo_folders :: folders where
  "demo_folders =
     \<lparr>fo_rcldocs = [demo_track ''audio/flac'' ''file:///m/a/1.flac''], fo_moredocs = [],
      fo_dirvec = [[(''..'', (0, -1)), (''/m'', (1, -1))], [(''..'', (0, -1)), (''a'', (2, -1))],
                   [(''..'', (1, -1)), (''.'', (2, -1)), (''1.flac'', (-1, 0))]],
      fo_playlists = []\<rparr>"

definition demo_fo_conf :: fo_conf where
  "demo_fo_conf = \<lparr>fc_fs = demo_fsenv, fc_httphp = ''h:1'', fc_pprefix = ''/uprcl'', fc_enabletags = True,
     fc_notagview = False, fc_readfile = (\<lambda>_. None)\<rparr>"

theorem browse_identifiers_witness:
  "\<exists>es c. fo_browse demo_fo_conf (\<lambda>_ _ _ _. Inr []) demo_folders (idprefix @ ''$d1'') ''children'' Map.empty = Inr (Some es, c) \<and>
     mset (map id_and_title es) =
       {#(Some (idprefix @ ''$d1$tagview.0''), Some ''>> Tag View'', Some (idprefix @ ''$d1'')),
         (Some (idprefix @ ''$d2''), Some ''a'', Some (idprefix @ ''$d1''))#} \<and>
     objidtoidx demo_folders (idprefix @ ''$d2'') = Inr (False, 2, None)"
proof -
  let ?r = "fo_browse demo_fo_conf (\<lambda>_ _ _ _. Inr []) demo_folders (idprefix @ ''$d1'') ''children'' Map.empty"
  have "map_sum id (map_option length \<circ> fst) ?r = Inr (Some 2)" by code_simp
  then obtain es c where es: "?r = Inr (Some es, c)" by (cases ?r) auto
  have ok: "fo_ok demo_folders" by code_simp
  have idx: "objidtoidx demo_folders (idprefix @ ''$d1'') = Inr (False, 1, None)" by code_simp
  have dir: "fo_dirvec demo_folders ! 1 = [(''..'', (0, -1)), (''a'', (2, -1))]" by (simp add: demo_folders_def)
  have listed: "List.map_filter (listed_as demo_folders) [(''..'', (0, -1)), (''a'', (2, -1))] = [(idprefix @ ''$d2'', ''a'')]"
      "tagview_listed demo_fo_conf (idprefix @ ''$d1'') = [(idprefix @ ''$d1$tagview.0'', ''>> Tag View'')]"
      "listed_as demo_folders (''a'', (2, -1)) = Some (idprefix @ ''$d2'', ''a'')" "leads_to demo_folders 2 (-1) = Inr (False, 2, None)"
    by code_simp+
  note b = browse_identifiers [OF ok idx _ es, of 1, simplified dir listed]
  have "objidtoidx demo_folders (idprefix @ ''$d2'') = Inr (False, 2, None)" using b listed(3,4) by simp
  then show ?thesis using b es by (simp add: listed_under_def)
qed

section \<open>Paths of directories\<close>

definition dot :: "string \<Rightarrow> bool" where
  "dot nm \<longleftrightarrow> nm = ''..'' \<or> nm = ''.''"

text \<open>The directories form a tree: the index of a directory is above that of the one it is in, which
  it names as its parent, and it has one name there.\<close>

definition child :: "dirent list \<Rightarrow> nat \<Rightarrow> string \<Rightarrow> nat \<Rightarrow> bool" where
  "child dv f nm j \<longleftrightarrow> f < length dv \<and> \<not> dot nm \<and> (\<exists>dx. map_of (dv ! f) nm = Some (int j, dx))"

definition shape :: "dirent list \<Rightarrow> bool" where
  "shape dv \<longleftrightarrow> dv \<noteq> [] \<and>
     (\<forall>f nm j. child dv f nm j \<longrightarrow> f < j \<and> j < length dv \<and> map_of (dv ! j) ''..'' = Some (int f, -1)) \<and>
     (\<forall>f nm nm' j. child dv f nm j \<longrightarrow> child dv f nm' j \<longrightarrow> nm = nm') \<and>
     (\<forall>f < length dv. distinct (map fst (dv ! f)) \<and>
        (\<forall>g x. map_of (dv ! f) ''..'' = Some (g, x) \<longrightarrow> 0 \<le> g \<and> g \<le> int f) \<and>
        (\<forall>g x. map_of (dv ! f) ''.'' = Some (g, x) \<longrightarrow> g = int f))"

text \<open>The names on the way from the root.\<close>

inductive leads :: "dirent list \<Rightarrow> string list \<Rightarrow> nat \<Rightarrow> bool" for dv where
  root: "leads dv [] 0"
| step: "leads dv p f \<Longrightarrow> child dv f nm j \<Longrightarrow> leads dv (p @ [nm]) j"

inductive_cases leads_NilE: "leads dv [] j"
inductive_simps leads_Nil: "leads dv [] j"

lemma shape_child:
  assumes "shape dv" and "child dv f nm j"
  shows "f < j" and "j < length dv" and "map_of (dv ! j) ''..'' = Some (int f, -1)"
  using assms unfolding shape_def by blast+

lemma leads_pos: "shape dv \<Longrightarrow> leads dv p j \<Longrightarrow> p \<noteq> [] \<Longrightarrow> 0 < j"
  by (erule leads.cases) (use shape_child(1) in fastforce)+

lemma pwd_find_child:
  assumes "shape dv" and "child dv f nm j"
  shows "pwd_find (dv ! f) (int j) = Some nm"
proof -
  have f: "f < length dv" using assms(2) by (simp add: child_def)
  have distinct: "distinct (map fst (dv ! f))" using assms(1) f unfolding shape_def by blast
  obtain dx where "map_of (dv ! f) nm = Some (int j, dx)" using assms(2) by (auto simp: child_def)
  then have "List.find (\<lambda>(nm, (di, _)). di = int j) (dv ! f) \<noteq> None"
    by (auto simp: find_None_iff dest!: map_of_SomeD)
  then obtain n d x where e: "List.find (\<lambda>(nm, (di, _)). di = int j) (dv ! f) = Some (n, (d, x))" by auto
  from find_Some_set [OF e] have n: "map_of (dv ! f) n = Some (int j, x)" "d = int j"
    using distinct by auto
  have "\<not> dot n"
  proof
    assume "dot n"
    then have "int j \<le> int f" using n(1) assms(1) f unfolding dot_def shape_def by (metis order_refl)
    then show False using shape_child(1) [OF assms] by simp
  qed
  then have "child dv f n j" using n f by (auto simp: child_def)
  then have "n = nm" using assms unfolding shape_def by blast
  then show ?thesis using e by (simp add: pwd_find_def)
qed

lemma pwd_loop_leads:
  assumes "leads dv p j" and "shape dv"
  shows "p \<noteq> [] \<Longrightarrow> length acc + length p \<le> 200 \<Longrightarrow> pwd_loop dv (int j) acc = Inr (Some (acc @ rev p))"
  using assms
proof (induction arbitrary: acc)
  case (step p f nm j)
  note c = shape_child [OF step.prems(3) step.hyps(2)]
  have f: "f < length dv" using step.hyps(2) by (simp add: child_def)
  have eq: "pwd_loop dv (int j) acc =
     (if 200 < Suc (length acc) then Inr None else if f = 0 then Inr (Some (acc @ [nm]))
      else pwd_loop dv (int f) (acc @ [nm]))"
    using c f pwd_find_child [OF step.prems(3) step.hyps(2)]
    by (subst pwd_loop.simps) (simp add: dict_get_def)
  show ?case
  proof (cases "p = []")
    case True
    then have "f = 0" using step.hyps(1) by (simp add: leads_Nil)
    then show ?thesis using eq True step.prems(2) by simp
  next
    case False
    then have "0 < f" using leads_pos [OF step.prems(3) step.hyps(1)] by simp
    then show ?thesis using eq step.IH [OF False, of "acc @ [nm]"] step.prems(2,3) False by simp
  qed
qed simp

lemma child_put:
  assumes "j < length dv" and "\<not> dot nm" and "\<And>e. map_of (dv ! j) nm = Some e \<Longrightarrow> fst e = di"
    and "map_of (dv ! j) nm = None \<Longrightarrow> di = -1"
  shows "child (dv[j := AList.update nm (di, k) (dv ! j)]) f n i = child dv f n i"
  using assms by (cases "map_of (dv ! j) nm") (auto simp: child_def nth_list_update)

lemma shape_put:
  assumes "shape dv" and "j < length dv" and "\<not> dot nm" and "\<And>e. map_of (dv ! j) nm = Some e \<Longrightarrow> fst e = di"
    and "map_of (dv ! j) nm = None \<Longrightarrow> di = -1"
  shows "shape (dv[j := AList.update nm (di, k) (dv ! j)])"
proof -
  have same: "map_of (dv[j := AList.update nm (di, k) (dv ! j)] ! i) x = map_of (dv ! i) x" if "dot x" for i x
    using assms(2,3) that by (cases "i = j") auto
  have ch: "child (dv[j := AList.update nm (di, k) (dv ! j)]) = child dv"
    using assms by (intro ext child_put) auto
  have keys: "distinct (map fst (dv[j := AList.update nm (di, k) (dv ! j)] ! i))" if "i < length dv" for i
    using assms(1) that by (cases "i = j") (auto simp: shape_def)
  have dots: "dot ''..''" "dot ''.''" by (simp_all add: dot_def)
  show ?thesis
    using assms(1) keys unfolding shape_def ch same [OF dots(1)] same [OF dots(2)] by simp
qed

lemma shape_createdir:
  assumes "shape dv" and "f < length dv" and "\<not> dot nm" and "map_of (dv ! f) nm = None"
  shows "shape (dv[f := AList.update nm (int (length dv), k) (dv ! f)] @
           [[(''..'', (int f, -1)), (''.'', (int (length dv), k'))]])" (is "shape ?dv")
proof -
  have ch: "child ?dv g n j \<longleftrightarrow> child dv g n j \<or> (g = f \<and> n = nm \<and> j = length dv)" for g n j
    using assms by (auto simp: child_def nth_append nth_list_update dot_def split: if_splits)
  have old: "map_of (?dv ! i) x = map_of (dv ! i) x" if "dot x" "i < length dv" for i x
    using assms(2,3) that by (auto simp: nth_append nth_list_update)
  have new: "?dv ! length dv = [(''..'', (int f, -1)), (''.'', (int (length dv), k'))]" by (simp add: nth_append)
  have lt: "child dv g n j \<Longrightarrow> j < length dv" for g n j using shape_child(2) [OF assms(1)] by blast
  have 1: "g < j \<and> j < length ?dv \<and> map_of (?dv ! j) ''..'' = Some (int g, -1)" if "child ?dv g n j" for g n j
    using that shape_child [OF assms(1), of g n j] assms(2) old [of "''..''" j] new unfolding ch
    by (auto simp: dot_def)
  have 2: "n = n'" if "child ?dv g n j" "child ?dv g n' j" for g n n' j
    using that assms(1) lt unfolding ch shape_def by blast
  have 3: "distinct (map fst (?dv ! g)) \<and>
        (\<forall>h x. map_of (?dv ! g) ''..'' = Some (h, x) \<longrightarrow> 0 \<le> h \<and> h \<le> int g) \<and>
        (\<forall>h x. map_of (?dv ! g) ''.'' = Some (h, x) \<longrightarrow> h = int g)" if "g < length ?dv" for g
  proof (cases "g = length dv")
    case True
    then show ?thesis using new assms(2) by auto
  next
    case False
    then have g: "g < length dv" using that by simp
    have "distinct (map fst (?dv ! g))"
      using assms(1,2) g by (cases "g = f") (auto simp: shape_def nth_append)
    then show ?thesis
      using assms(1) g old [of "''..''" g] old [of "''.''" g] by (auto simp: shape_def dot_def)
  qed
  show ?thesis unfolding shape_def using 1 2 3 by blast
qed

lemma dirs_only_dot: "dirs_only dv f (elt # rest) \<Longrightarrow> \<not> dot elt"
  by (simp add: dot_def)

lemma shape_create:
  assumes "shape dv" and "in_dirvec dv f" and "0 \<le> f" and "\<not> dot nm" and "map_of (dv ! nat f) nm = None"
    and "createdir f k nm dv = Inr (n, dv')"
  shows "shape dv'"
proof -
  have "nat f < length dv" using assms(2,3) by (auto simp: in_dirvec_def)
  from shape_createdir [OF assms(1) this assms(4,5), of k k] show ?thesis
    using assms(2,3,6) by (auto simp: createdir_eq)
qed

lemma shape_createpl:
  assumes "shape dv" and "in_dirvec dv f" and "0 \<le> f" and "\<not> dot nm" and "map_of (dv ! nat f) nm = None"
    and "createpldir f k nm (dv, pl) = Inr (n, dv', pl')"
  shows "shape dv'"
proof -
  have f: "nat f < length dv" "f \<noteq> -1" using assms(2,3) by (auto simp: in_dirvec_def)
  let ?dv = "dv[nat f := AList.update nm (int (length dv), k) (dv ! nat f)] @
           [[(''..'', (f, -1)), (''.'', (int (length dv), k))]]"
  have "in_dirvec ?dv (int (length dv))" by (simp add: in_dirvec_def)
  then have "dv' = ?dv"
    using assms(2,6) f createdir_eq [OF assms(2), of k nm]
    by (auto simp: createpldir_def slot_def nth_append list_update_append)
  then show ?thesis using shape_createdir [OF assms(1) f(1) assms(4,5), of k k] assms(3) by simp
qed

lemma add_path_shape:
  assumes "tree_ok nd (dv, pl)" and "shape dv" and "0 < f" and "in_dirvec dv f" and "k < nd" and "dirs_only dv f path"
    and "add_path (int k) mtype f path (dv, pl) = Inr (dv', pl')"
  shows "shape dv'"
  using assms
proof (induction path arbitrary: f dv)
  case (Cons elt rest)
  note ok = Cons.prems(1,2) and f = Cons.prems(3,4)
  have nd: "\<not> dot elt" using dirs_only_dot [OF Cons.prems(6)] .
  have slot: "slot dv f = nat f" "nat f < length dv" "0 \<le> f"
    using f by (auto simp: slot_def in_dirvec_def)
  show ?case
  proof (cases "map_of (dv ! nat f) elt")
    case None
    then have no: "map_of (dv ! slot dv f) elt = None" by (simp add: slot)
    show ?thesis
    proof (cases "rest = []")
      case False
      obtain dv1 where dv1: "createdir f (-1) elt dv = Inr (int (length dv), dv1)" "tree_ok nd (dv1, pl)"
        using createdir_ok [OF ok(1) f(2), of "-1" elt] by auto
      note c = createdir_result [OF f(2) no dv1(1)]
      have n: "0 < int (length dv)" "in_dirvec dv1 (int (length dv))"
        using c(3) slot by (auto simp: in_dirvec_def)
      have "dirs_only dv1 (int (length dv)) rest"
        using c(5) Cons.prems(6) None slot(3) by (intro dirs_only_new) auto
      moreover have "add_path (int k) mtype (int (length dv)) rest (dv1, pl) = Inr (dv', pl')"
        using Cons.prems(7) no f False dv1 by simp
      ultimately show ?thesis
        using Cons.IH [OF dv1(2) shape_create [OF ok(2) f(2) slot(3) nd None dv1(1)] n Cons.prems(5)] by blast
    next
      case True
      then consider n where "createdir f (int k) elt dv = Inr (n, dv')"
        | n where "createpldir f (int k) elt (dv, pl) = Inr (n, dv', pl')"
        | "dv' = dv[nat f := AList.update elt (-1, int k) (dv ! nat f)]"
        using no f Cons.prems(7) by (auto simp: bindR_eq_Inr slot split: if_splits)
      then show ?thesis
        using shape_create [OF ok(2) f(2) slot(3) nd None] shape_createpl [OF ok(2) f(2) slot(3) nd None]
          shape_put [OF ok(2) slot(2) nd, of "-1" "int k"] None by cases auto
    qed
  next
    case (Some e)
    then obtain di x where e: "map_of (dv ! nat f) elt = Some (di, x)" by (cases e) auto
    then have e': "map_of (dv ! slot dv f) elt = Some (di, x)" by (simp add: slot)
    show ?thesis
    proof (cases "rest = []")
      case True
      with e e' f Cons.prems(7) have "dv' = dv[nat f := AList.update elt (di, int k) (dv ! nat f)]"
        by (simp add: slot)
      then show ?thesis using shape_put [OF ok(2) slot(2) nd, of di "int k"] e by simp
    next
      case False
      with e Cons.prems(6) have di: "0 < di" "dirs_only dv di rest" by auto
      have "add_path (int k) mtype di rest (dv, pl) = Inr (dv', pl')"
        using Cons.prems(7) e' f False by simp
      then show ?thesis
        using Cons.IH [OF ok di(1) tree_ok_entry(1) [OF ok(1) f(2) e'] Cons.prems(5) di(2)] by blast
    qed
  qed
qed simp

text \<open>C26. The path computed for a directory is the way to it: in a tree of directories, which adding
  a document preserves when the existing part of its path consists of directories, the path of the
  directory that a list of at most 200 names leads to is these names, each followed by a slash.\<close>

theorem dirpath_inverts_walk:
  assumes "tree_ok nd (dv, pl)" and "shape dv" and "k < nd" and "d_val doc ''mtype'' \<in> set audiomtypes"
    and "pathbeyondtopdirs fe dv doc = Inr (Some (f, path))" and "0 < f" and "dirs_only dv f path"
    and "add_doc fe (k, doc) (dv, pl) = Inr (fo_dirvec fo, pl')"
    and "leads (fo_dirvec fo) p j" and "p \<noteq> []" and "length p \<le> 200" and "fo_rcldocs fo \<noteq> []"
  shows "shape (fo_dirvec fo) \<and>
    dirpath fo (idprefix @ ''$d'' @ str_int (int j)) = Inr (concat (map (\<lambda>nm. nm @ ''/'') p))"
proof -
  have f: "in_dirvec dv f" using pathbeyondtopdirs_ok [OF assms(1), of fe doc] assms(5) by auto
  have "add_path (int k) (d_val doc ''mtype'') f path (dv, pl) = Inr (fo_dirvec fo, pl')"
    using assms(4,5,6,8) by (simp add: add_doc_def)
  from add_path_shape [OF assms(1,2,6) f assms(3,7) this] have sh: "shape (fo_dirvec fo)" .
  have j: "0 < j" "j < length (fo_dirvec fo)"
    using leads_pos [OF sh assms(9,10)] assms(9,10) shape_child(2) [OF sh] by (auto elim: leads.cases)
  have "pwd_loop (fo_dirvec fo) (int j) [] = Inr (Some (rev p))"
    using pwd_loop_leads [OF assms(9) sh assms(10), of "[]"] assms(11) by simp
  moreover have "objidtoidx fo (idprefix @ ''$d'' @ str_int (int j)) = Inr (False, int j, None)"
    using objidtoidx_new [OF assms(12), of "CHR ''d''" "int j"] j by simp
  ultimately have "dirpath fo (idprefix @ ''$d'' @ str_int (int j)) = Inr (concat (map (\<lambda>nm. nm @ ''/'') p))"
    using j(1) assms(10) by (simp add: dirpath_def)
  with sh show ?thesis by blast
qed

lemma shape_demo: "shape [[(''..'', (0, -1)), (''/m'', (1, -1))], [(''..'', (0, -1))]]" (is "shape ?dv")
proof -
  have ch: "child ?dv f nm j \<longleftrightarrow> f = 0 \<and> nm = ''/m'' \<and> j = 1" for f nm j
    by (cases f) (auto simp: child_def dot_def less_Suc_eq split: if_splits)
  have nth: "\<And>P. (\<forall>f < length ?dv. P f) \<longleftrightarrow> P 0 \<and> P 1"
    by (auto simp: All_less_Suc)
  show ?thesis unfolding shape_def ch nth by simp
qed

theorem dirpath_inverts_walk_witness:
  "\<exists>dv' pl'. add_doc demo_fsenv (0, demo_track ''audio/flac'' ''file:///m/a/1.flac'') (init_root [''/m''], []) = Inr (dv', pl') \<and>
     dirpath (demo_folders\<lparr>fo_dirvec := dv'\<rparr>) ''0$uprcl$folders$d2'' = Inr ''/m/a/''"
proof -
  let ?doc = "demo_track ''audio/flac'' ''file:///m/a/1.flac''"
  let ?dv = "[[(''..'', (0, -1)), (''/m'', (1, -1))], [(''..'', (0, -1)), (''a'', (2, -1))],
              [(''..'', (1, -1)), (''.'', (2, -1)), (''1.flac'', (-1, 0))]]"
  have st: "add_doc demo_fsenv (0, ?doc) (init_root [''/m''], []) = Inr (?dv, [])" by code_simp
  have root: "init_root [''/m''] = [[(''..'', (0, -1)), (''/m'', (1, -1))], [(''..'', (0, -1))]]" by code_simp
  have h: "d_val ?doc ''mtype'' \<in> set audiomtypes" "dirs_only (init_root [''/m'']) 1 [''a'', ''1.flac'']"
    "pathbeyondtopdirs demo_fsenv (init_root [''/m'']) ?doc = Inr (Some (1, [''a'', ''1.flac'']))"
    "fo_rcldocs demo_folders \<noteq> []"
    by code_simp+
  have "child ?dv 0 ''/m'' 1" "child ?dv 1 ''a'' 2" by (simp_all add: child_def dot_def)
  then have "leads ?dv ([] @ [''/m'']) 1" "leads ?dv (([] @ [''/m'']) @ [''a'']) 2"
    by (blast intro: leads.intros)+
  then have leads: "leads ?dv [''/m'', ''a''] 2" by simp
  have "dirpath (demo_folders\<lparr>fo_dirvec := ?dv\<rparr>) (idprefix @ ''$d'' @ str_int (int 2)) =
      Inr (concat (map (\<lambda>nm. nm @ ''/'') [''/m'', ''a'']))"
    by (rule dirpath_inverts_walk [where fe = demo_fsenv and doc = ?doc and k = 0 and nd = 1
          and dv = "init_root [''/m'']" and pl = "[]" and f = 1 and path = "[''a'', ''1.flac'']" and pl' = "[]", THEN conjunct2])
      (use h st leads shape_demo init_root_ok [of "Suc 0" "[''/m'']"] in \<open>simp_all add: root\<close>)
  moreover have "idprefix @ ''$d'' @ str_int (int 2) = ''0$uprcl$folders$d2''" by code_simp
  ultimately show ?thesis using st by auto
qed

text \<open>A top directory also claims what is in a sibling whose name starts with its own: the name is
  matched without regard to where it ends, so the rest of the sibling's name is taken for the
  first, dropped, element of the path, and the document is filed as if it were in the top
  directory itself.\<close>

theorem topdir_claims_sibling:
  assumes "docpath fe doc = d @ x @ ''/'' @ rest" and "is_ascii (docpath fe doc)" and "isabs d"
    and "x \<noteq> []" and "CHR ''/'' \<notin> set x" and "d_val doc ''group'' = []"
  shows "pathbeyondtopdirs fe (init_root [d]) doc = Inr (Some (1, split_on (CHR ''/'') rest))"
proof -
  obtain d' where d: "d = CHR ''/'' # d'" using assms(3) by (auto simp: isabs_iff)
  have root: "init_root [d] = [[(''..'', (0, -1)), (d, (1, -1))], [(''..'', (0, -1))]]"
    by (simp add: init_root_def Let_def d)
  have url: "utf8_fix r (docpath fe doc) = d @ x @ ''/'' @ rest" for r
    using utf8_fix_ascii [OF assms(2)] assms(1) by simp
  have "tl (split_on (CHR ''/'') (x @ ''/'' @ rest)) = split_on (CHR ''/'') rest"
    using split_on_append [OF assms(5), of rest] by simp
  then show ?thesis
    unfolding pathbeyondtopdirs_def url root using assms(4,6)
    by (simp add: py_index_def nth_res_def d Let_def)
qed

theorem topdir_claims_sibling_witness:
  "pathbeyondtopdirs demo_fsenv (init_root [''/music'']) (demo_track ''audio/flac'' ''file:///music-old/a/1.flac'') =
     Inr (Some (1, [''a'', ''1.flac'']))"
proof -
  let ?doc = "demo_track ''audio/flac'' ''file:///music-old/a/1.flac''"
  have "docpath demo_fsenv ?doc = ''/music'' @ ''-old'' @ ''/'' @ ''a/1.flac''" by code_simp
  moreover have "is_ascii (docpath demo_fsenv ?doc)" "isabs ''/music''"
    "''-old'' \<noteq> []" "CHR ''/'' \<notin> set ''-old''" "d_val ?doc ''group'' = []" by code_simp+
  ultimately have "pathbeyondtopdirs demo_fsenv (init_root [''/music'']) ?doc = Inr (Some (1, split_on (CHR ''/'') ''a/1.flac''))"
    by (rule topdir_claims_sibling [where d = "''/music''" and x = "''-old''" and rest = "''a/1.flac''"])
  also have "split_on (CHR ''/'') ''a/1.flac'' = [''a'', ''1.flac'']" by code_simp
  finally show ?thesis .
qed

end
