(* ===== verification/TagsCreate.thy ===== *)
theory TagsCreate
  imports UprclUtils
begin

text \<open>
  The tag database of the local media library, \<open>uprcl/uprcltagscreate.py\<close>: it is filled from the
  documents of the index, albums are created by title, folder and disc, given artists and covers,
  and the discs of an album are merged. A table of the database is the list of its rows in the order
  of their row identifiers, a statement is a function on them; the text column that collects the
  artist sets of an album, written with \<open>repr\<close> and read with \<open>eval\<close>, is the list of these sets.
  Which element of a set comes first is the parameter \<open>pick\<close>.
\<close>

section \<open>The tables\<close>

record album =
  al_id :: int
  al_artist :: "int option"
  al_title :: string
  al_folder :: string
  al_date :: string
  al_arturi :: "string option"
  al_alb :: "int option"
  al_tdisc :: "int option"
  al_artists :: "int list list"

record track =
  tr_docidx :: int
  tr_album :: int
  tr_trackno :: int
  tr_title :: string
  tr_path :: string

record tagdb =
  db_albums :: "album list"
  db_tracks :: "track list"
  db_aux :: "string \<Rightarrow> (int \<times> string) list"
  db_junct :: "string \<Rightarrow> (int \<times> int) list"

definition createsqdb :: tagdb where
  "createsqdb = \<lparr>db_albums = [], db_tracks = [], db_aux = (\<lambda>_. []), db_junct = (\<lambda>_. [])\<rparr>"

text \<open>The identifier SQLite gives a new row.\<close>

definition next_rowid :: "int list \<Rightarrow> int" where
  "next_rowid ids = foldr max ids 0 + 1"

section \<open>SQL statements that fail\<close>

text \<open>
  Names of tags are put into the text of statements as names of tables, and numbers of tracks and
  discs are bound to columns of integers; both can make a statement raise. A schema has the columns
  of every table there is. Which (lower case) names SQLite takes as the name of a table in
  \<open>CREATE TABLE\<close> is the parameter \<open>accepts\<close>: it refuses its keywords, names with a blank,
  those that begin with a digit, and others. A name that ends the statement and begins another text
  (with a comment, for instance) is not modelled. An integer is bound when it has 64 bits.
\<close>

type_synonym schema = "string \<rightharpoonup> string list"

abbreviation SqlError :: py_error where
  "SqlError \<equiv> Raised ''OperationalError''"

definition need_columns :: "schema \<Rightarrow> string \<Rightarrow> string list \<Rightarrow> unit res" where
  "need_columns sch tb cols =
     (case sch tb of None \<Rightarrow> Inl SqlError
      | Some cs \<Rightarrow> if set cols \<subseteq> set cs then Inr () else Inl SqlError)"

definition sql_int :: "int \<Rightarrow> unit res" where
  "sql_int n = (if - (2 ^ 63) \<le> n \<and> n < 2 ^ 63 then Inr () else Inl (Raised ''OverflowError''))"

definition album_columns :: "string list" where
  "album_columns = [''album_id'', ''artist_id'', ''albtitle'', ''albfolder'', ''albdate'', ''albarturi'', ''albalb'',
     ''albtdisc'', ''artists'']"

definition track_columns :: "string list" where
  "track_columns = [''docidx'', ''album_id'', ''trackno'', ''title'', ''path'']"

section \<open>Which tags\<close>

definition alltagtotable :: "(string \<times> string) list" where
  "alltagtotable =
     [(''AlbumArtist'', ''albumartist''), (''All Artists'', ''allartists''), (''Artist'', ''artist''),
      (''Comment'', ''comment''), (''Composer'', ''composer''), (''Conductor'', ''conductor''),
      (''Date'', ''date''), (''Genre'', ''genre''), (''Group'', ''cgroup''), (''Label'', ''label''),
      (''Lyricist'', ''lyricist''), (''Orchestra'', ''orchestra''), (''Performer'', ''performer'')]"

definition coltorclfield :: "string \<Rightarrow> string" where
  "coltorclfield tb = (if tb = ''allartists'' then ''artist'' else tb)"

definition clid :: "string \<Rightarrow> string" where
  "clid tb = tb @ ''_id''"

definition junctb :: "string \<Rightarrow> string" where
  "junctb tb = ''tracks_'' @ tb @ ''s''"

text \<open>The two tables of a tag, which replace tables of these names: those of another tag, or even the
  tables of albums and tracks.\<close>

definition value_columns :: "string \<Rightarrow> string list" where
  "value_columns tb = [clid tb, ''value'']"

definition junct_columns :: "string \<Rightarrow> string list" where
  "junct_columns tb = [''docidx'', clid tb]"

definition createTagTables :: "(string \<Rightarrow> bool) \<Rightarrow> string \<Rightarrow> schema \<Rightarrow> schema res" where
  "createTagTables accepts tgnm sch =
     (if accepts tgnm then Inr (sch(tgnm \<mapsto> value_columns tgnm, junctb tgnm \<mapsto> junct_columns tgnm))
      else Inl SqlError)"

definition create_tables :: "(string \<Rightarrow> bool) \<Rightarrow> (string \<times> string) list \<Rightarrow> schema res" where
  "create_tables accepts alltags =
     foldR (createTagTables accepts) (map snd alltags)
       [''albums'' \<mapsto> album_columns, ''tracks'' \<mapsto> track_columns]"

text \<open>A tag outside the predefined set gets the tables of its lower case name. (When they cannot be
  made, the tag stays in the set all the same, and so the next filling fails too.)\<close>

definition addCustomTable ::
  "(string \<Rightarrow> bool) \<Rightarrow> string \<Rightarrow> schema \<times> (string \<times> string) list \<Rightarrow> (schema \<times> (string \<times> string) list) res" where
  "addCustomTable accepts indextag st =
     (case st of (sch, tags) \<Rightarrow>
       let tb = py_lower indextag in
       bindR (createTagTables accepts tb sch) (\<lambda>sch. Inr (sch, AList.update indextag tb tags)))"

fun choose_tags :: "(string \<times> string) list \<Rightarrow> string list \<Rightarrow> (string \<times> string) list \<Rightarrow>
    string list \<times> (string \<times> string) list" where
  "choose_tags [] indextags display = (indextags, display)"
| "choose_tags ((v, d) # ps) indextags display =
     (if py_lower v = ''none'' then ([], [])
      else choose_tags ps (indextags @ [v]) (AList.update v (if d \<noteq> [] then d else v) display))"

record tagconf =
  tc_alltags :: "(string \<times> string) list"
  tc_indextags :: "string list"
  tc_display :: "(string \<times> string) list"
  tc_tagtotable :: "(string \<times> string) list"
  tc_fields :: "(string \<times> string) list"

definition with_table ::
  "(string \<Rightarrow> bool) \<Rightarrow> string \<Rightarrow> schema \<times> (string \<times> string) list \<Rightarrow> (schema \<times> (string \<times> string) list) res" where
  "with_table accepts nm st = (if has_key (snd st) nm then Inr st else addCustomTable accepts nm st)"

definition use_tag :: "(string \<Rightarrow> bool) \<Rightarrow> bool \<Rightarrow> string \<Rightarrow> schema \<times> tagconf \<Rightarrow> (schema \<times> tagconf) res" where
  "use_tag accepts index nm st =
     (case st of (sch, tc) \<Rightarrow>
       bindR (with_table accepts nm (sch, tc_alltags tc)) (\<lambda>(sch, tags).
       let tb = the (map_of tags nm)
       in Inr (sch, tc\<lparr>tc_alltags := tags,
            tc_tagtotable := (if index then AList.update nm tb (tc_tagtotable tc) else tc_tagtotable tc),
            tc_fields := tc_fields tc @ [(tb, coltorclfield tb)]\<rparr>)))"

text \<open>What is configured: the tags shown as containers, and the tags shown with a track.\<close>

record tagsource =
  tg_accepts :: "string \<Rightarrow> bool"
  tg_alltags :: "(string \<times> string) list"
  tg_indextags :: "(string \<times> string) list"
  tg_itemtags :: "string list"

definition chosen_tags :: "tagsource \<Rightarrow> string list \<times> (string \<times> string) list" where
  "chosen_tags tg =
     choose_tags (if tg_indextags tg = []
                  then [(''Artist'', []), (''Date'', []), (''Genre'', []), (''Composer'', [])] else tg_indextags tg) [] []"

definition prepareTags :: "tagsource \<Rightarrow> schema \<Rightarrow> (schema \<times> tagconf) res" where
  "prepareTags tg sch =
     (let (indextags, display) = chosen_tags tg;
          tc = \<lparr>tc_alltags = tg_alltags tg, tc_indextags = indextags, tc_display = display,
                tc_tagtotable = [], tc_fields = []\<rparr>
      in bindR (foldR (use_tag (tg_accepts tg) True) indextags (sch, tc)) (foldR (use_tag (tg_accepts tg) False) (tg_itemtags tg)))"

section \<open>Values of tags\<close>

text \<open>The identifier of a value, which is inserted when it is not in the table yet.\<close>

definition aux_find :: "(int \<times> string) list \<Rightarrow> string \<Rightarrow> int option" where
  "aux_find rows value = map_option fst (List.find (\<lambda>(i, v). v = value) rows)"

definition auxtableinsert :: "string \<Rightarrow> string \<Rightarrow> tagdb \<Rightarrow> int \<times> tagdb" where
  "auxtableinsert tb value db =
     (case aux_find (db_aux db tb) value of
        Some rowid \<Rightarrow> (rowid, db)
      | None \<Rightarrow>
          (let rowid = next_rowid (map fst (db_aux db tb))
           in (rowid, db\<lparr>db_aux := (db_aux db)(tb := db_aux db tb @ [(rowid, value)])\<rparr>)))"

definition tracknofordoc :: "doc \<Rightarrow> int" where
  "tracknofordoc doc =
     (case py_int (hd (split_on (CHR ''/'') (d_val doc ''tracknumber''))) of Inl _ \<Rightarrow> 1 | Inr n \<Rightarrow> n)"

definition parsedate :: "string \<Rightarrow> string option" where
  "parsedate dt0 =
     (let dt = take 10 dt0; l = split_on (CHR ''-'') dt
      in if 3 < length l \<or> length l = 2 \<or> length (hd l) \<noteq> 4 \<or> hd l = ''0000'' then None else Some dt)"

section \<open>Disc numbers\<close>

definition number_then :: "(string \<Rightarrow> bool) \<Rightarrow> string \<Rightarrow> nat option" where
  "number_then ok s =
     (let ds = takeWhile is_digit s in
      if ds \<noteq> [] \<and> ok (dropWhile is_digit s) then digits_val 0 True ds else None)"

definition only_blanks :: "string \<Rightarrow> bool" where
  "only_blanks s \<longleftrightarrow> list_all (\<lambda>c. c = CHR '' '') s"

text \<open>\<open>\[disc ([0-9]+)\]|\(disc ([0-9]+)\)|[ ]+disc[ ]+([0-9]+)\<close>, then blanks up to the end, in
  any case. The text is that of a line.\<close>

definition disc_tail :: "string \<Rightarrow> nat option" where
  "disc_tail s0 =
     (let s = py_lower s0; blank = (\<lambda>c. c = CHR '' '') in
      if startswith s ''[disc '' then number_then (\<lambda>r. startswith r '']'' \<and> only_blanks (drop 1 r)) (drop 6 s)
      else if startswith s ''(disc '' then number_then (\<lambda>r. startswith r '')'' \<and> only_blanks (drop 1 r)) (drop 6 s)
      else if startswith s '' '' \<and> startswith (dropWhile blank s) ''disc '' then
        number_then only_blanks (dropWhile blank (drop 4 (dropWhile blank s)))
      else None)"

text \<open>The greedy \<open>(.*)\<close> before it takes all it can: the last position at which the rest matches.\<close>

fun albtit_search :: "string \<Rightarrow> (string \<times> nat) option" where
  "albtit_search [] = None"
| "albtit_search (c # s) =
     (case albtit_search s of
        Some (g1, n) \<Rightarrow> Some (c # g1, n)
      | None \<Rightarrow> map_option (\<lambda>n. ([], n)) (disc_tail (c # s)))"

text \<open>\<open>(cd|disc)[ ]*([0-9]+)(.*)\<close>, the first match\<close>

fun folder_search :: "string \<Rightarrow> nat option" where
  "folder_search [] = None"
| "folder_search (c # s) =
     (let t = py_lower (c # s); num = (\<lambda>r. number_then (\<lambda>_. True) (dropWhile (\<lambda>c. c = CHR '' '') r))
      in case (if startswith t ''cd'' then num (drop 2 t)
               else if startswith t ''disc'' then num (drop 4 t) else None) of
           Some n \<Rightarrow> Some n
         | None \<Rightarrow> folder_search s)"

text \<open>The title and the disc number of the album of a document: the number of the document, else
  that at the end of the title, else that of the folder; the title loses its number when it agrees.
  A number 0 counts as none.\<close>

definition no_disc :: "int option \<Rightarrow> bool" where
  "no_disc d \<longleftrightarrow> d = None \<or> d = Some 0"

definition album_disc :: "doc \<Rightarrow> string \<Rightarrow> string \<Rightarrow> (string \<times> int option) res" where
  "album_disc doc folder album0 =
     (let discnum = (if d_val doc ''discnumber'' \<noteq> []
                     then (case py_int (d_val doc ''discnumber'') of Inl _ \<Rightarrow> None | Inr n \<Rightarrow> Some n) else None);
          (album, discnum) =
            (case albtit_search album0 of
               None \<Rightarrow> (album0, discnum)
             | Some (g1, n) \<Rightarrow>
                 let discnum = (if no_disc discnum then Some (int n) else discnum)
                 in (if Some (int n) = discnum then g1 else album0, discnum))
      in if no_disc discnum then
           bindR (utl_basename folder) (\<lambda>b.
             Inr (album, case folder_search b of Some n \<Rightarrow> Some (int n) | None \<Rightarrow> discnum))
         else Inr (album, discnum))"

section \<open>Albums\<close>

definition find_album :: "string \<Rightarrow> string \<Rightarrow> int option \<Rightarrow> album list \<Rightarrow> album option" where
  "find_album title folder discnum =
     List.find (\<lambda>a. al_title a = title \<and> al_folder a = folder \<and> (no_disc discnum \<or> al_tdisc a = discnum))"

text \<open>The album with this title, folder and disc, made when there is none yet.\<close>

definition album_for ::
  "int option \<Rightarrow> string \<Rightarrow> string \<Rightarrow> string \<Rightarrow> int option \<Rightarrow> tagdb \<Rightarrow> int \<times> tagdb" where
  "album_for albartist title folder date discnum db =
     (case find_album title folder discnum (db_albums db) of
        Some a \<Rightarrow> (al_id a, db)
      | None \<Rightarrow>
          (let i = next_rowid (map al_id (db_albums db));
               a = \<lparr>al_id = i, al_artist = albartist, al_title = title, al_folder = folder,
                    al_date = date, al_arturi = None, al_alb = None, al_tdisc = discnum, al_artists = []\<rparr>
           in (i, db\<lparr>db_albums := db_albums db @ [a]\<rparr>)))"

definition albumartist_row :: "doc \<Rightarrow> tagdb \<Rightarrow> int option \<times> tagdb" where
  "albumartist_row doc db =
     (if d_val doc ''albumartist'' \<noteq> []
      then apfst Some (auxtableinsert ''artist'' (d_val doc ''albumartist'') db) else (None, db))"

definition maybecreatealbum :: "fsenv \<Rightarrow> schema \<Rightarrow> doc \<Rightarrow> tagdb \<Rightarrow> (int \<times> tagdb) res" where
  "maybecreatealbum fe sch doc db =
     bindR (docfolder fe doc) (\<lambda>bfolder.
     let folder = utf8_fix [CHR 0xEF, CHR 0xBF, CHR 0xBD] bfolder in
     bindR (if d_val doc ''album'' = [] then utl_basename folder else Inr (d_val doc ''album'')) (\<lambda>album0.
     bindR (if d_val doc ''albumartist'' \<noteq> [] then need_columns sch ''artist'' (value_columns ''artist'') else Inr ()) (\<lambda>_.
     let (albartist, db) = albumartist_row doc db in
     bindR (album_disc doc folder album0) (\<lambda>(title, discnum).
     bindR (need_columns sch ''albums'' album_columns) (\<lambda>_.
     bindR (case discnum of None \<Rightarrow> Inr () | Some n \<Rightarrow> sql_int n) (\<lambda>_.
       Inr (album_for albartist title folder (d_val doc ''date'') discnum db)))))))"

definition update_albums :: "(album \<Rightarrow> bool) \<Rightarrow> (album \<Rightarrow> album) \<Rightarrow> album list \<Rightarrow> album list" where
  "update_albums P f = map (\<lambda>a. if P a then f a else a)"

definition updatealbartistlist :: "int \<Rightarrow> int list \<Rightarrow> tagdb \<Rightarrow> tagdb" where
  "updatealbartistlist album_id rowids db =
     (if rowids = [] then db
      else db\<lparr>db_albums := update_albums (\<lambda>a. al_id a = album_id)
                (\<lambda>a. a\<lparr>al_artists := al_artists a @ [rowids]\<rparr>) (db_albums db)\<rparr>)"

text \<open>The cover of an album is the first found for its tracks in the order of their paths.\<close>

fun first_art ::
  "fsenv \<Rightarrow> string \<Rightarrow> string \<Rightarrow> doc list \<Rightarrow> string \<Rightarrow> int list \<Rightarrow> artcache \<Rightarrow> (string option \<times> artcache) res" where
  "first_art fe httphp pp docs title [] cache = Inr (None, cache)"
| "first_art fe httphp pp docs title (i # is) cache =
     bindR (py_index docs i) (\<lambda>doc.
     bindR (docarturi fe doc httphp pp True (Some title) cache) (\<lambda>(arturi, cache).
       if truthy arturi then Inr (arturi, cache) else first_art fe httphp pp docs title is cache))"

definition setalbumcover ::
  "fsenv \<Rightarrow> string \<Rightarrow> string \<Rightarrow> doc list \<Rightarrow> album \<Rightarrow> tagdb \<times> artcache \<Rightarrow> (tagdb \<times> artcache) res" where
  "setalbumcover fe httphp pp docs r st =
     (case st of (db, cache) \<Rightarrow>
       let docidxs = map tr_docidx (sort_key tr_path (filter (\<lambda>t. tr_album t = al_id r) (db_tracks db))) in
       bindR (first_art fe httphp pp docs (al_title r) docidxs cache) (\<lambda>(arturi, cache).
         Inr (if truthy arturi
              then db\<lparr>db_albums := update_albums (\<lambda>a. al_id a = al_id r) (\<lambda>a. a\<lparr>al_arturi := arturi\<rparr>) (db_albums db)\<rparr>
              else db, cache)))"

definition setalbumcovers ::
  "fsenv \<Rightarrow> string \<Rightarrow> string \<Rightarrow> doc list \<Rightarrow> tagdb \<times> artcache \<Rightarrow> (tagdb \<times> artcache) res" where
  "setalbumcovers fe httphp pp docs st = foldR (setalbumcover fe httphp pp docs) (db_albums (fst st)) st"

text \<open>An album without artist gets one that all its tracks share, else the various artists.\<close>

definition common_artist :: "(int list \<Rightarrow> int) \<Rightarrow> int \<Rightarrow> int list list \<Rightarrow> int" where
  "common_artist pick various artsets =
     (case artsets of
        [] \<Rightarrow> various
      | s # ss \<Rightarrow>
          (let intersect = filter (\<lambda>v. list_all (\<lambda>t. v \<in> set t) ss) s
           in if intersect = [] then various else pick intersect))"

definition setalbumartists :: "(int list \<Rightarrow> int) \<Rightarrow> int \<Rightarrow> tagdb \<Rightarrow> tagdb" where
  "setalbumartists pick various db =
     db\<lparr>db_albums := update_albums (\<lambda>a. al_artist a = None)
          (\<lambda>a. a\<lparr>al_artist := Some (common_artist pick various (al_artists a))\<rparr>) (db_albums db)\<rparr>"

section \<open>Merging the discs of an album\<close>

fun seq_from :: "int \<Rightarrow> int list \<Rightarrow> bool" where
  "seq_from num [] = True"
| "seq_from num (e # es) = (e = num + 1 \<and> seq_from e es)"

definition checkseq :: "int list \<Rightarrow> bool" where
  "checkseq seq = (case seq of [] \<Rightarrow> False | num # es \<Rightarrow> num \<noteq> 0 \<and> seq_from num es)"

definition mergealbumsfilterfolders :: "string \<Rightarrow> album list \<Rightarrow> album list res" where
  "mergealbumsfilterfolders folder rows =
     bindR (utl_dirname folder) (\<lambda>parent.
     bindR (mapR (\<lambda>row. if al_folder row = folder then Inr (True, row)
                        else bindR (utl_dirname (al_folder row)) (\<lambda>d. Inr (d = parent, row))) rows) (\<lambda>ps.
       Inr (map snd (filter fst ps))))"

definition membertotopalbum :: "int \<Rightarrow> album list \<Rightarrow> (int \<times> album list) res" where
  "membertotopalbum member albums =
     (case List.find (\<lambda>a. al_id a = member) albums of
        None \<Rightarrow> Inl TypeError
      | Some a \<Rightarrow>
          (let i = next_rowid (map al_id albums)
           in Inr (i, albums @ [a\<lparr>al_id := i, al_tdisc := None\<rparr>])))"

definition mergeable :: "album \<Rightarrow> album \<Rightarrow> bool" where
  "mergeable r a \<longleftrightarrow> al_title a = al_title r \<and>
     (case al_artist r of
        None \<Rightarrow> al_artist a = None
      | Some i \<Rightarrow> al_artist a = (if i = 0 then None else Some i)) \<and>
     al_alb a = None \<and> al_tdisc a \<noteq> None"

text \<open>The step for one album of the scan: \<open>i\<close> is its identifier. It is skipped when it is no longer
  a candidate, because it was merged or lost its disc number.\<close>

definition merge_step :: "int \<Rightarrow> album list \<Rightarrow> album list res" where
  "merge_step i albums =
     (case List.find (\<lambda>a. al_id a = i \<and> al_alb a = None \<and> al_tdisc a \<noteq> None) albums of
        None \<Rightarrow> Inr albums
      | Some r \<Rightarrow>
          bindR (mergealbumsfilterfolders (al_folder r) (filter (mergeable r) albums)) (\<lambda>rows1.
          let albids = map al_id rows1; dnos = sort (map (\<lambda>a. the (al_tdisc a)) rows1) in
          if 1 < length rows1 then
            (if \<not> checkseq dnos then
               Inr (update_albums (\<lambda>a. al_id a \<in> set albids) (\<lambda>a. a\<lparr>al_tdisc := None\<rparr>) albums)
             else
               bindR (membertotopalbum (hd albids) albums) (\<lambda>(top, albums).
                 Inr (update_albums (\<lambda>a. al_id a \<in> set albids) (\<lambda>a. a\<lparr>al_alb := Some top\<rparr>) albums)))
          else if length rows1 = 1 then
            Inr (update_albums (\<lambda>a. al_id a = i) (\<lambda>a. a\<lparr>al_tdisc := None\<rparr>) albums)
          else Inr albums))"

definition createmergedalbums :: "album list \<Rightarrow> album list res" where
  "createmergedalbums albums =
     bindR (foldR merge_step (map al_id albums) albums) (\<lambda>albums.
       Inr (update_albums (\<lambda>a. al_tdisc a = None) (\<lambda>a. a\<lparr>al_alb := Some (al_id a)\<rparr>) albums))"

section \<open>Filling the database\<close>

text \<open>The value of a tag: the date is cut out of two possible fields, the artist is the album's artist
  if there is one.\<close>

definition tag_value :: "doc \<Rightarrow> string \<Rightarrow> string option" where
  "tag_value doc rclfld =
     (if rclfld = ''date'' then
        (let v = (if d_val doc ''date'' \<noteq> [] then d_val doc ''date'' else d_val doc ''dmtime'')
         in if v \<noteq> [] then parsedate v else None)
      else
        let v = (if rclfld = ''artist''
                 then (if d_val doc ''albumartist'' \<noteq> [] then d_val doc ''albumartist'' else d_val doc ''artist'')
                 else d_val doc rclfld)
        in if v \<noteq> [] then Some v else None)"

text \<open>One value: its row, and the row that joins it with the document.\<close>

definition store_value :: "string \<Rightarrow> int \<Rightarrow> string \<Rightarrow> int list \<times> tagdb \<Rightarrow> int list \<times> tagdb" where
  "store_value tb docidx value st =
     (case st of (rowids, db) \<Rightarrow>
       let (rowid, db) = auxtableinsert tb value db
       in (if rowid \<in> set rowids then rowids else rowids @ [rowid],
           db\<lparr>db_junct := (db_junct db)(tb := db_junct db tb @ [(docidx, rowid)])\<rparr>))"

definition put_values :: "int \<Rightarrow> int \<Rightarrow> string \<Rightarrow> string \<Rightarrow> tagdb \<Rightarrow> tagdb" where
  "put_values docidx album_id tb value db =
     (let (rowids, db) = fold (store_value tb docidx) (split_str '' | '' value) ([], db)
      in if tb = ''artist'' then updatealbartistlist album_id rowids db else db)"

definition store_tag :: "schema \<Rightarrow> doc \<Rightarrow> int \<Rightarrow> int \<Rightarrow> string \<times> string \<Rightarrow> tagdb \<Rightarrow> tagdb res" where
  "store_tag sch doc docidx album_id field db =
     (case field of (tb, rclfld) \<Rightarrow>
       case tag_value doc rclfld of
         None \<Rightarrow> Inr db
       | Some value \<Rightarrow>
           bindR (need_columns sch tb (value_columns tb)) (\<lambda>_.
           bindR (need_columns sch (junctb tb) (junct_columns tb)) (\<lambda>_.
             Inr (put_values docidx album_id tb value db))))"

definition is_audio_track :: "doc \<Rightarrow> bool" where
  "is_audio_track doc \<longleftrightarrow>
     d_val doc ''mtype'' \<in> set audiomtypes \<and> d_val doc ''mtype'' \<noteq> ''inode/directory'' \<and>
     d_val doc ''mtype'' \<noteq> ''audio/x-mpegurl''"

definition store_doc :: "fsenv \<Rightarrow> schema \<Rightarrow> (string \<times> string) list \<Rightarrow> nat \<times> doc \<Rightarrow> tagdb \<Rightarrow> tagdb res" where
  "store_doc fe sch flds idoc db =
     (case idoc of (docidx, doc) \<Rightarrow>
       if \<not> is_audio_track doc then Inr db
       else
         bindR (maybecreatealbum fe sch doc db) (\<lambda>(album_id, db).
           let trackno = tracknofordoc doc;
               path = (if startswith (d_val doc ''url'') ''file://'' then drop 7 (d_val doc ''url'') else [])
           in bindR (foldR (store_tag sch doc (int docidx) album_id) flds db) (\<lambda>db.
              bindR (need_columns sch ''tracks'' track_columns) (\<lambda>_.
              bindR (sql_int trackno) (\<lambda>_.
                Inr (db\<lparr>db_tracks := db_tracks db @
                  [\<lparr>tr_docidx = int docidx, tr_album = album_id, tr_trackno = trackno,
                    tr_title = d_val doc ''title'', tr_path = path\<rparr>]\<rparr>))))))"

definition recolltosql ::
  "fsenv \<Rightarrow> string \<Rightarrow> string \<Rightarrow> (int list \<Rightarrow> int) \<Rightarrow> tagsource \<Rightarrow> doc list \<Rightarrow> artcache \<Rightarrow>
   (tagconf \<times> tagdb \<times> artcache) res" where
  "recolltosql fe httphp pp pick tg docs cache =
     bindR (create_tables (tg_accepts tg) (tg_alltags tg)) (\<lambda>sch.
     bindR (prepareTags tg sch) (\<lambda>(sch, tc).
     bindR (need_columns sch ''artist'' (value_columns ''artist'')) (\<lambda>_.
     let (various, db) = auxtableinsert ''artist'' ''Various Artists'' createsqdb in
     bindR (foldR (store_doc fe sch (tc_fields tc)) (List.enumerate 0 docs) db) (\<lambda>db.
     bindR (need_columns sch ''albums'' album_columns) (\<lambda>_.
     bindR (setalbumcovers fe httphp pp docs (setalbumartists pick various db, cache)) (\<lambda>(db, cache).
     bindR (createmergedalbums (db_albums db)) (\<lambda>albums.
       Inr (tc, db\<lparr>db_albums := albums\<rparr>, cache))))))))"

text \<open>The documents put into the index so that albums and artists can be searched for.\<close>

definition artist_name :: "tagdb \<Rightarrow> int option \<Rightarrow> string" where
  "artist_name db i =
     (case i of None \<Rightarrow> [] | Some k \<Rightarrow> (case map_of (db_aux db ''artist'') k of None \<Rightarrow> [] | Some v \<Rightarrow> v))"

definition albumstorecoll :: "tagdb \<Rightarrow> (string \<times> doc) list" where
  "albumstorecoll db =
     map (\<lambda>a. (''albid'' @ str_int (al_id a),
            \<lparr>d_val = (\<lambda>_. [])(''album'' := al_title a, ''title'' := al_title a, ''mtype'' := ''inode/directory'',
                ''albumartist'' := artist_name db (al_artist a), ''artist'' := artist_name db (al_artist a),
                ''url'' := ''file://'' @ al_folder a), d_binurl = []\<rparr>))
       (filter (\<lambda>a. al_tdisc a = None) (db_albums db))"

definition artiststorecoll :: "tagdb \<Rightarrow> (string \<times> doc) list" where
  "artiststorecoll db =
     map (\<lambda>(i, v). (''artid'' @ str_int i,
            \<lparr>d_val = (\<lambda>_. [])(''title'' := v, ''mtype'' := ''inode/directory'', ''url'' := ''file://artists/'' @ v),
             d_binurl = []\<rparr>))
       (db_aux db ''artist'')"

section \<open>The database is consistent\<close>

lemma next_rowid_greater: "i \<in> set ids \<Longrightarrow> i < next_rowid ids"
proof -
  have "i \<le> foldr max ids 0" if "i \<in> set ids" using that by (induction ids) auto
  then show "i \<in> set ids \<Longrightarrow> i < next_rowid ids" by (force simp: next_rowid_def)
qed

lemma next_rowid_fresh [simp]: "next_rowid ids \<notin> set ids"
  using next_rowid_greater by blast

lemma next_rowid_pos [simp]: "0 < next_rowid ids"
proof -
  have "0 \<le> foldr max ids (0 :: int)" by (induction ids) auto
  then show ?thesis by (simp add: next_rowid_def)
qed

text \<open>A table of values: identifiers are positive and distinct, values are distinct.\<close>

definition aux_ok :: "(int \<times> string) list \<Rightarrow> bool" where
  "aux_ok rows \<longleftrightarrow> distinct (map fst rows) \<and> distinct (map snd rows) \<and> list_all (\<lambda>i. 0 < i) (map fst rows)"

definition aux_ids :: "tagdb \<Rightarrow> string \<Rightarrow> int set" where
  "aux_ids db tb = fst ` set (db_aux db tb)"

lemma aux_find_Some: "aux_find rows v = Some i \<Longrightarrow> (i, v) \<in> set rows"
  unfolding aux_find_def by (induction rows) (auto split: if_splits)

lemma aux_find_None: "aux_find rows v = None \<Longrightarrow> v \<notin> snd ` set rows"
  unfolding aux_find_def by (induction rows) (auto split: if_splits)

text \<open>Inserting a value: its row is there afterwards, no row is lost, nothing else changes.\<close>

lemma auxtableinsert_facts:
  assumes "auxtableinsert tb v db = (i, db')"
  shows "(i, v) \<in> set (db_aux db' tb)" and "\<exists>more. db_aux db' tb = db_aux db tb @ more"
    and "tb' \<noteq> tb \<Longrightarrow> db_aux db' tb' = db_aux db tb'"
    and "db_albums db' = db_albums db" and "db_tracks db' = db_tracks db" and "db_junct db' = db_junct db"
    and "aux_ok (db_aux db tb) \<Longrightarrow> aux_ok (db_aux db' tb)"
proof -
  have "aux_ok (db_aux db tb) \<Longrightarrow> aux_find (db_aux db tb) v = None \<Longrightarrow>
      aux_ok (db_aux db tb @ [(next_rowid (map fst (db_aux db tb)), v)])"
    using next_rowid_fresh [of "map fst (db_aux db tb)"] aux_find_None [of "db_aux db tb" v]
    by (simp add: aux_ok_def)
  then show "aux_ok (db_aux db tb) \<Longrightarrow> aux_ok (db_aux db' tb)"
    using assms by (auto simp: auxtableinsert_def Let_def split: option.splits)
qed (use assms aux_find_Some in \<open>force simp: auxtableinsert_def Let_def split: option.splits\<close>)+

definition folder_of :: "fsenv \<Rightarrow> doc \<Rightarrow> string res" where
  "folder_of fe doc = map_sum id (utf8_fix [CHR 0xEF, CHR 0xBF, CHR 0xBD]) (docfolder fe doc)"

text \<open>The album of a track exists and is in the folder of the document of the track.\<close>

definition track_home :: "fsenv \<Rightarrow> doc list \<Rightarrow> album list \<Rightarrow> track \<Rightarrow> bool" where
  "track_home fe docs albums t \<longleftrightarrow>
     0 \<le> tr_docidx t \<and> tr_docidx t < int (length docs) \<and> is_audio_track (docs ! nat (tr_docidx t)) \<and>
     (\<exists>a \<in> set albums. al_id a = tr_album t \<and> folder_of fe (docs ! nat (tr_docidx t)) = Inr (al_folder a))"

definition album_ok :: "int set \<Rightarrow> album \<Rightarrow> bool" where
  "album_ok artists a \<longleftrightarrow> al_folder a \<noteq> [] \<and> al_alb a = None \<and>
     (\<forall>i. al_artist a = Some i \<longrightarrow> i \<in> artists) \<and> (\<forall>s \<in> set (al_artists a). set s \<subseteq> artists)"

definition db_ok :: "fsenv \<Rightarrow> doc list \<Rightarrow> tagdb \<Rightarrow> bool" where
  "db_ok fe docs db \<longleftrightarrow>
     distinct (map al_id (db_albums db)) \<and> (\<forall>a \<in> set (db_albums db). album_ok (aux_ids db ''artist'') a) \<and>
     (\<forall>t \<in> set (db_tracks db). track_home fe docs (db_albums db) t) \<and>
     (\<forall>tb. aux_ok (db_aux db tb)) \<and> (\<forall>tb. snd ` set (db_junct db tb) \<subseteq> aux_ids db tb)"

lemma album_ok_mono: "album_ok A a \<Longrightarrow> A \<subseteq> B \<Longrightarrow> album_ok B a"
  by (auto simp: album_ok_def)

lemma track_home_mono:
  "track_home fe docs albums t \<Longrightarrow>
   (\<And>a. a \<in> set albums \<Longrightarrow> \<exists>b \<in> set albums'. al_id b = al_id a \<and> al_folder b = al_folder a) \<Longrightarrow>
   track_home fe docs albums' t"
  unfolding track_home_def by metis

lemma aux_insert_ids:
  assumes "auxtableinsert tb v db = (i, db')"
  shows "aux_ids db tb' \<subseteq> aux_ids db' tb'" and "i \<in> aux_ids db' tb"
  using auxtableinsert_facts(1,2) [OF assms] auxtableinsert_facts(3) [OF assms, of tb']
  by (cases "tb' = tb"; force simp: aux_ids_def)+

lemma db_ok_aux_insert:
  assumes "db_ok fe docs db" and "auxtableinsert tb v db = (i, db')"
  shows "db_ok fe docs db'"
proof -
  note f = auxtableinsert_facts [OF assms(2)] and ids = aux_insert_ids(1) [OF assms(2)]
  have "aux_ok (db_aux db' tb')" for tb'
    using f(3) [of tb'] f(7) assms(1) by (cases "tb' = tb") (auto simp: db_ok_def)
  moreover have "snd ` set (db_junct db' tb') \<subseteq> aux_ids db' tb'" for tb'
    using assms(1) order_trans [OF _ ids [of tb']] unfolding f(6) by (simp add: db_ok_def)
  moreover have "\<forall>a \<in> set (db_albums db'). album_ok (aux_ids db' ''artist'') a"
    using assms(1) album_ok_mono [OF _ ids] unfolding f(4) by (simp add: db_ok_def)
  ultimately show ?thesis using assms(1) by (simp add: db_ok_def f(4,5))
qed

text \<open>What the steps on one document keep: rows of the value tables and albums with their folders.\<close>

definition keeps :: "tagdb \<Rightarrow> tagdb \<Rightarrow> bool" where
  "keeps db db' \<longleftrightarrow> db_tracks db' = db_tracks db \<and> (\<forall>tb. aux_ids db tb \<subseteq> aux_ids db' tb) \<and>
     (\<exists>more. map (\<lambda>a. (al_id a, al_folder a)) (db_albums db') =
             map (\<lambda>a. (al_id a, al_folder a)) (db_albums db) @ more)"

lemma keeps_refl [simp]: "keeps db db"
  by (simp add: keeps_def)

lemma keeps_trans: "keeps a b \<Longrightarrow> keeps b c \<Longrightarrow> keeps a c"
  unfolding keeps_def by (elim conjE exE) (simp, blast)

lemma keeps_aux_insert: "auxtableinsert tb v db = (i, db') \<Longrightarrow> keeps db db'"
  using auxtableinsert_facts(4,5) aux_insert_ids(1) by (simp add: keeps_def)

lemma utf8_fix_nonempty: "s \<noteq> [] \<Longrightarrow> r \<noteq> [] \<Longrightarrow> utf8_fix r s \<noteq> []"
  by (cases s) (auto simp: Let_def)

lemma folder_of_nonempty: "folder_of fe doc = Inr f \<Longrightarrow> f \<noteq> []"
  by (cases "docfolder fe doc") (auto simp: folder_of_def utf8_fix_nonempty docfolder_def Let_def split: if_splits)

lemma utl_basename_total: "p \<noteq> [] \<Longrightarrow> \<exists>b. utl_basename p = Inr b"
  by (simp add: utl_basename_def)

lemma utl_dirname_total: "p \<noteq> [] \<Longrightarrow> \<exists>b. utl_dirname p = Inr b"
  by (simp add: utl_dirname_def)

lemma album_disc_total: "folder \<noteq> [] \<Longrightarrow> \<exists>t d. album_disc doc folder album = Inr (t, d)"
  using utl_basename_total [of folder] by (auto simp: album_disc_def Let_def split: prod.splits)

definition id_folder :: "album \<Rightarrow> int \<times> string" where
  "id_folder a = (al_id a, al_folder a)"

lemma album_for_ok:
  assumes "db_ok fe docs db" and "\<forall>i. aa = Some i \<longrightarrow> i \<in> aux_ids db ''artist''" and "folder \<noteq> []"
    and "album_for aa title folder date d db = (i, db')"
  shows "db_ok fe docs db'" and "keeps db db'" and "(i, folder) \<in> id_folder ` set (db_albums db')"
proof -
  have "db_ok fe docs db' \<and> keeps db db' \<and> (i, folder) \<in> id_folder ` set (db_albums db')"
  proof (cases "find_album title folder d (db_albums db)")
    case (Some a)
    then have "a \<in> set (db_albums db)" "al_folder a = folder"
      by (auto simp: find_album_def find_Some_iff in_set_conv_nth)
    then show ?thesis using Some assms(1,4) by (force simp: album_for_def id_folder_def)
  next
    case None
    let ?i = "next_rowid (map al_id (db_albums db))"
    let ?a = "\<lparr>al_id = ?i, al_artist = aa, al_title = title, al_folder = folder,
        al_date = date, al_arturi = None, al_alb = None, al_tdisc = d, al_artists = []\<rparr>"
    let ?db = "db\<lparr>db_albums := db_albums db @ [?a]\<rparr>"
    have "track_home fe docs (db_albums ?db) t" if "t \<in> set (db_tracks db)" for t
      by (rule track_home_mono [of fe docs "db_albums db"]) (use assms(1) that in \<open>auto simp: db_ok_def\<close>)
    moreover have "album_ok (aux_ids db ''artist'') ?a"
      using assms(2,3) by (simp add: album_ok_def)
    moreover have "?i \<notin> al_id ` set (db_albums db)"
      using next_rowid_fresh [of "map al_id (db_albums db)"] by simp
    ultimately have "db_ok fe docs ?db"
      using assms(1) by (auto simp: db_ok_def aux_ids_def)
    moreover have "keeps db ?db" by (auto simp: keeps_def aux_ids_def)
    ultimately show ?thesis using None assms(4) by (auto simp: album_for_def Let_def id_folder_def)
  qed
  then show "db_ok fe docs db'" and "keeps db db'" and "(i, folder) \<in> id_folder ` set (db_albums db')" by blast+
qed

lemma albumartist_row_ok:
  assumes "db_ok fe docs db" and "albumartist_row doc db = (aa, db')"
  shows "db_ok fe docs db'" and "keeps db db'" and "\<forall>i. aa = Some i \<longrightarrow> i \<in> aux_ids db' ''artist''"
  using assms db_ok_aux_insert [OF assms(1)] keeps_aux_insert aux_insert_ids(2)
  by (cases "auxtableinsert ''artist'' (d_val doc ''albumartist'') db"; fastforce simp: albumartist_row_def split: if_splits)+

text \<open>The tables the statements on documents use are there.\<close>

definition schema_ok :: "string set \<Rightarrow> schema \<Rightarrow> bool" where
  "schema_ok T sch \<longleftrightarrow> sch ''albums'' = Some album_columns \<and> sch ''tracks'' = Some track_columns \<and>
     (\<forall>t \<in> T. sch t = Some (value_columns t) \<and> sch (junctb t) = Some (junct_columns t))"

lemma need_columns_ok [simp]:
  assumes "schema_ok T sch"
  shows "need_columns sch ''albums'' album_columns = Inr ()" and "need_columns sch ''tracks'' track_columns = Inr ()"
    and "t \<in> T \<Longrightarrow> need_columns sch t (value_columns t) = Inr ()"
    and "t \<in> T \<Longrightarrow> need_columns sch (junctb t) (junct_columns t) = Inr ()"
  using assms by (auto simp: schema_ok_def need_columns_def)

text \<open>The disc number of a document, and numbers that fit in the columns of the database.\<close>

definition disc_of_doc :: "fsenv \<Rightarrow> doc \<Rightarrow> int option res" where
  "disc_of_doc fe doc =
     bindR (folder_of fe doc) (\<lambda>folder.
     bindR (if d_val doc ''album'' = [] then utl_basename folder else Inr (d_val doc ''album'')) (\<lambda>album.
     bindR (album_disc doc folder album) (\<lambda>(title, discnum). Inr discnum)))"

definition fits64 :: "int \<Rightarrow> bool" where
  "fits64 n \<longleftrightarrow> - (2 ^ 63) \<le> n \<and> n < 2 ^ 63"

definition numbers_fit :: "fsenv \<Rightarrow> doc \<Rightarrow> bool" where
  "numbers_fit fe doc \<longleftrightarrow> fits64 (tracknofordoc doc) \<and>
     (case disc_of_doc fe doc of Inr (Some n) \<Rightarrow> fits64 n | _ \<Rightarrow> True)"

lemma sql_int_eq: "sql_int n = (if fits64 n then Inr () else Inl (Raised ''OverflowError''))"
  by (simp add: sql_int_def fits64_def)

lemma maybecreatealbum_ok:
  assumes "db_ok fe docs db" and "folder_of fe doc = Inr folder" and sch: "schema_ok T sch" "''artist'' \<in> T"
  shows "\<exists>i db'. maybecreatealbum fe sch doc db =
        (case disc_of_doc fe doc of Inr (Some n) \<Rightarrow> if fits64 n then Inr (i, db') else Inl (Raised ''OverflowError'')
         | _ \<Rightarrow> Inr (i, db')) \<and> db_ok fe docs db' \<and> keeps db db' \<and>
    (i, folder) \<in> id_folder ` set (db_albums db')"
proof -
  have ne: "folder \<noteq> []" using folder_of_nonempty [OF assms(2)] .
  obtain bf where bf: "docfolder fe doc = Inr bf" "utf8_fix [CHR 0xEF, CHR 0xBF, CHR 0xBD] bf = folder"
    using assms(2) by (cases "docfolder fe doc") (auto simp: folder_of_def)
  obtain album0 where album0: "(if d_val doc ''album'' = [] then utl_basename folder else Inr (d_val doc ''album'')) = Inr album0"
    using utl_basename_total [OF ne] by (cases "d_val doc ''album'' = []") auto
  obtain aa db1 where aa: "albumartist_row doc db = (aa, db1)" by (cases "albumartist_row doc db")
  obtain title d where td: "album_disc doc folder album0 = Inr (title, d)"
    using album_disc_total [OF ne] by blast
  obtain i db2 where i: "album_for aa title folder (d_val doc ''date'') d db1 = (i, db2)"
    by (cases "album_for aa title folder (d_val doc ''date'') d db1")
  have disc: "disc_of_doc fe doc = Inr d"
    unfolding disc_of_doc_def assms(2) bindR_Inr album0 td prod.case ..
  have "maybecreatealbum fe sch doc db =
      (case d of None \<Rightarrow> Inr (i, db2) | Some n \<Rightarrow> if fits64 n then Inr (i, db2) else Inl (Raised ''OverflowError''))"
    unfolding maybecreatealbum_def bf(1) bindR_Inr Let_def bf(2) album0 aa prod.case td need_columns_ok [OF sch(1)]
      need_columns_ok(3) [OF sch] if_cancel i
    by (auto simp: sql_int_eq split: option.split)
  moreover note a = albumartist_row_ok [OF assms(1) aa]
  moreover note album_for_ok [OF a(1,3) ne i]
  ultimately have "maybecreatealbum fe sch doc db =
      (case disc_of_doc fe doc of Inr (Some n) \<Rightarrow> if fits64 n then Inr (i, db2) else Inl (Raised ''OverflowError'')
       | _ \<Rightarrow> Inr (i, db2))" "db_ok fe docs db2" "keeps db db2" "(i, folder) \<in> id_folder ` set (db_albums db2)"
    using keeps_trans [of db db1 db2] by (simp_all add: disc)
  then show ?thesis by blast
qed

lemma keeps_id_folder: "keeps db db' \<Longrightarrow> x \<in> id_folder ` set (db_albums db) \<Longrightarrow> x \<in> id_folder ` set (db_albums db')"
proof -
  assume "keeps db db'" and x: "x \<in> id_folder ` set (db_albums db)"
  then obtain more where "map id_folder (db_albums db') = map id_folder (db_albums db) @ more"
    unfolding keeps_def id_folder_def by blast
  then have "id_folder ` set (db_albums db') = id_folder ` set (db_albums db) \<union> set more"
    by (metis list.set_map set_append)
  with x show ?thesis by blast
qed

lemma store_value_ok:
  assumes "db_ok fe docs db" and "set rowids \<subseteq> aux_ids db tb" and "store_value tb k v (rowids, db) = (rowids', db')"
  shows "db_ok fe docs db' \<and> keeps db db' \<and> set rowids' \<subseteq> aux_ids db' tb"
proof -
  obtain i db1 where i: "auxtableinsert tb v db = (i, db1)" by (cases "auxtableinsert tb v db")
  have ok1: "db_ok fe docs db1" using db_ok_aux_insert [OF assms(1) i] .
  have rows: "set rowids' \<subseteq> insert i (set rowids)"
    and db': "db' = db1\<lparr>db_junct := (db_junct db1)(tb := db_junct db1 tb @ [(k, i)])\<rparr>"
    using assms(3) i by (auto simp: store_value_def split: if_splits)
  have "db_ok fe docs db'"
    using ok1 aux_insert_ids(2) [OF i] unfolding db' by (auto simp: db_ok_def aux_ids_def)
  moreover have "keeps db db'"
    using keeps_aux_insert [OF i] unfolding db' by (auto simp: keeps_def aux_ids_def)
  moreover have "set rowids' \<subseteq> aux_ids db1 tb"
    using rows assms(2) aux_insert_ids(1) [OF i, of tb] aux_insert_ids(2) [OF i] by blast
  then have "set rowids' \<subseteq> aux_ids db' tb" by (simp add: db' aux_ids_def)
  ultimately show ?thesis by blast
qed

lemma store_values_ok:
  assumes "db_ok fe docs db" and "set rowids \<subseteq> aux_ids db tb"
    and "fold (store_value tb k) vs (rowids, db) = (rowids', db')"
  shows "db_ok fe docs db' \<and> keeps db db' \<and> set rowids' \<subseteq> aux_ids db' tb"
  using assms
proof (induction vs arbitrary: rowids db)
  case (Cons v vs)
  obtain rowids1 db1 where v: "store_value tb k v (rowids, db) = (rowids1, db1)" by fastforce
  note 1 = store_value_ok [OF Cons.prems(1,2) v]
  have "fold (store_value tb k) vs (rowids1, db1) = (rowids', db')" using Cons.prems(3) v by simp
  with Cons.IH 1 keeps_trans show ?case by blast
qed simp

lemma update_albums_id [simp]:
  "(\<And>a. al_id (f a) = al_id a) \<Longrightarrow> map al_id (update_albums P f as) = map al_id as"
  by (simp add: update_albums_def)

lemma update_albums_folder:
  "(\<And>a. id_folder (f a) = id_folder a) \<Longrightarrow> map id_folder (update_albums P f as) = map id_folder as"
  by (simp add: update_albums_def)

lemma track_home_folders:
  assumes "map id_folder as' = map id_folder as" and "track_home fe docs as t"
  shows "track_home fe docs as' t"
proof (rule track_home_mono [OF assms(2)])
  fix a assume "a \<in> set as"
  then have "id_folder a \<in> id_folder ` set as'" by (metis assms(1) image_eqI list.set_map)
  then show "\<exists>b \<in> set as'. al_id b = al_id a \<and> al_folder b = al_folder a" by (auto simp: id_folder_def)
qed

text \<open>Changing albums in place, without changing their folders.\<close>

lemma db_ok_update:
  assumes "db_ok fe docs db" and "\<And>a. id_folder (f a) = id_folder a"
    and "\<And>a. album_ok (aux_ids db ''artist'') a \<Longrightarrow> a \<in> set (db_albums db) \<Longrightarrow> P a \<Longrightarrow> album_ok (aux_ids db ''artist'') (f a)"
  shows "db_ok fe docs (db\<lparr>db_albums := update_albums P f (db_albums db)\<rparr>)"
    and "keeps db (db\<lparr>db_albums := update_albums P f (db_albums db)\<rparr>)"
proof -
  let ?as = "update_albums P f (db_albums db)"
  have "map id_folder ?as = map id_folder (db_albums db)" using assms(2) by (rule update_albums_folder)
  note folders = this track_home_folders [OF this]
  have ids: "map al_id ?as = map al_id (db_albums db)"
    using assms(2) by (intro update_albums_id) (auto simp: id_folder_def)
  have "\<forall>a \<in> set ?as. album_ok (aux_ids db ''artist'') a"
    using assms(1,3) by (auto simp: db_ok_def update_albums_def)
  then show "db_ok fe docs (db\<lparr>db_albums := ?as\<rparr>)"
    using assms(1) folders(2) ids by (simp add: db_ok_def aux_ids_def)
  show "keeps db (db\<lparr>db_albums := ?as\<rparr>)"
    using folders(1) by (auto simp: keeps_def aux_ids_def id_folder_def [abs_def])
qed

lemma put_values_ok:
  assumes "db_ok fe docs db"
  shows "db_ok fe docs (put_values k album_id tb v db) \<and> keeps db (put_values k album_id tb v db)"
proof -
  obtain rowids db1 where st: "fold (store_value tb k) (split_str '' | '' v) ([], db) = (rowids, db1)" by fastforce
  note s = store_values_ok [OF assms _ st, simplified]
  show ?thesis
  proof (cases "tb = ''artist'' \<and> rowids \<noteq> []")
    case True
    have "album_ok (aux_ids db1 ''artist'') (a\<lparr>al_artists := al_artists a @ [rowids]\<rparr>)"
      if "album_ok (aux_ids db1 ''artist'') a" for a
      using that s True by (auto simp: album_ok_def)
    from db_ok_update [of fe docs db1 "\<lambda>a. a\<lparr>al_artists := al_artists a @ [rowids]\<rparr>" "\<lambda>a. al_id a = album_id", OF _ _ this]
    show ?thesis
      using True s st keeps_trans by (auto simp: put_values_def updatealbartistlist_def id_folder_def)
  next
    case False
    then show ?thesis using s st by (auto simp: put_values_def updatealbartistlist_def)
  qed
qed

lemma store_tag_ok:
  assumes "db_ok fe docs db" and "schema_ok T sch" and "fst field \<in> T"
  shows "\<exists>db'. store_tag sch doc k album_id field db = Inr db' \<and> db_ok fe docs db' \<and> keeps db db'"
  using assms put_values_ok [OF assms(1)]
  by (auto simp: store_tag_def split: prod.split option.split)

lemma store_tags_ok:
  "db_ok fe docs db \<Longrightarrow> schema_ok T sch \<Longrightarrow> fst ` set flds \<subseteq> T \<Longrightarrow>
   \<exists>db'. foldR (store_tag sch doc k album_id) flds db = Inr db' \<and> db_ok fe docs db' \<and> keeps db db'"
proof (induction flds arbitrary: db)
  case (Cons x flds)
  then obtain db1 where 1: "store_tag sch doc k album_id x db = Inr db1" "db_ok fe docs db1" "keeps db db1"
    using store_tag_ok [of fe docs db T sch x doc k album_id] by auto
  from Cons.IH [OF 1(2) Cons.prems(2)] Cons.prems(3) obtain db2 where
    2: "foldR (store_tag sch doc k album_id) flds db1 = Inr db2" "db_ok fe docs db2" "keeps db1 db2" by auto
  then show ?case using 1(1) keeps_trans [OF 1(3) 2(3)] by simp
qed simp

text \<open>A document whose numbers fit is stored, another makes a statement overflow.\<close>

lemma store_doc_ok:
  assumes "db_ok fe docs db" and "k < length docs" and "is_audio_track (docs ! k) \<Longrightarrow> is_ok (folder_of fe (docs ! k))"
    and sch: "schema_ok T sch" "''artist'' \<in> T" "fst ` set flds \<subseteq> T"
  shows "(is_audio_track (docs ! k) \<longrightarrow> numbers_fit fe (docs ! k)) \<Longrightarrow>
      \<exists>db'. store_doc fe sch flds (k, docs ! k) db = Inr db' \<and> db_ok fe docs db' \<and>
        aux_ids db ''artist'' \<subseteq> aux_ids db' ''artist'' \<and>
        map tr_docidx (db_tracks db') = map tr_docidx (db_tracks db) @ (if is_audio_track (docs ! k) then [int k] else [])"
    and "is_audio_track (docs ! k) \<Longrightarrow> \<not> numbers_fit fe (docs ! k) \<Longrightarrow>
      store_doc fe sch flds (k, docs ! k) db = Inl (Raised ''OverflowError'')"
proof -
  let ?doc = "docs ! k"
  have main: "(numbers_fit fe ?doc \<longrightarrow> (\<exists>db'. store_doc fe sch flds (k, ?doc) db = Inr db' \<and> db_ok fe docs db' \<and>
        aux_ids db ''artist'' \<subseteq> aux_ids db' ''artist'' \<and>
        map tr_docidx (db_tracks db') = map tr_docidx (db_tracks db) @ [int k])) \<and>
      (\<not> numbers_fit fe ?doc \<longrightarrow> store_doc fe sch flds (k, ?doc) db = Inl (Raised ''OverflowError''))"
    if audio: "is_audio_track ?doc"
  proof -
    obtain folder where folder: "folder_of fe ?doc = Inr folder" using assms(3) audio by (auto simp: is_ok_iff)
    obtain i db1 where i: "maybecreatealbum fe sch ?doc db =
        (case disc_of_doc fe ?doc of Inr (Some n) \<Rightarrow> if fits64 n then Inr (i, db1) else Inl (Raised ''OverflowError'')
         | _ \<Rightarrow> Inr (i, db1))" "db_ok fe docs db1" "keeps db db1" "(i, folder) \<in> id_folder ` set (db_albums db1)"
      using maybecreatealbum_ok [OF assms(1) folder sch(1,2)] by blast
    obtain db2 where db2: "foldR (store_tag sch ?doc (int k) i) flds db1 = Inr db2" "db_ok fe docs db2" "keeps db1 db2"
      using store_tags_ok [OF i(2) sch(1,3)] by blast
    from keeps_id_folder [OF db2(3) i(4)] obtain a where a: "a \<in> set (db_albums db2)" "al_id a = i" "al_folder a = folder"
      by (auto simp: id_folder_def)
    have tracks: "db_tracks db2 = db_tracks db" using i(3) db2(3) by (simp add: keeps_def)
    have artists: "aux_ids db ''artist'' \<subseteq> aux_ids db2 ''artist''" using keeps_trans [OF i(3) db2(3)] by (simp add: keeps_def)
    define path where "path = (if startswith (d_val ?doc ''url'') ''file://'' then drop 7 (d_val ?doc ''url'') else [])"
    define t where "t = \<lparr>tr_docidx = int k, tr_album = i, tr_trackno = tracknofordoc ?doc,
        tr_title = d_val ?doc ''title'', tr_path = path\<rparr>"
    have eq: "store_doc fe sch flds (k, ?doc) db =
        (if numbers_fit fe ?doc then Inr (db2\<lparr>db_tracks := db_tracks db2 @ [t]\<rparr>) else Inl (Raised ''OverflowError''))"
      using audio i(1) db2(1) sch(1)
      by (auto simp: store_doc_def Let_def t_def path_def numbers_fit_def sql_int_eq split: sum.splits option.splits)
    have "track_home fe docs (db_albums db2) t"
      using audio a assms(2) folder by (auto simp: track_home_def t_def)
    then have "db_ok fe docs (db2\<lparr>db_tracks := db_tracks db2 @ [t]\<rparr>)"
      using db2(2) by (auto simp: db_ok_def aux_ids_def)
    then show ?thesis unfolding eq using tracks artists by (simp add: aux_ids_def t_def)
  qed
  show "\<exists>db'. store_doc fe sch flds (k, docs ! k) db = Inr db' \<and> db_ok fe docs db' \<and>
      aux_ids db ''artist'' \<subseteq> aux_ids db' ''artist'' \<and>
      map tr_docidx (db_tracks db') = map tr_docidx (db_tracks db) @ (if is_audio_track (docs ! k) then [int k] else [])"
    if "is_audio_track ?doc \<longrightarrow> numbers_fit fe ?doc"
  proof (cases "is_audio_track ?doc")
    case True
    then show ?thesis using main that by simp
  qed (simp add: store_doc_def assms(1))
  show "is_audio_track ?doc \<Longrightarrow> \<not> numbers_fit fe ?doc \<Longrightarrow>
      store_doc fe sch flds (k, ?doc) db = Inl (Raised ''OverflowError'')"
    using main by simp
qed

lemma store_docs_ok:
  assumes "\<And>d. d \<in> set docs \<Longrightarrow> is_audio_track d \<Longrightarrow> is_ok (folder_of fe d)"
    and sch: "schema_ok T sch" "''artist'' \<in> T" "fst ` set flds \<subseteq> T"
  shows "db_ok fe docs db \<Longrightarrow> set ks \<subseteq> {..< length docs} \<Longrightarrow>
   (if \<forall>k \<in> set ks. is_audio_track (docs ! k) \<longrightarrow> numbers_fit fe (docs ! k)
    then \<exists>db'. foldR (store_doc fe sch flds) (map (\<lambda>k. (k, docs ! k)) ks) db = Inr db' \<and> db_ok fe docs db' \<and>
      aux_ids db ''artist'' \<subseteq> aux_ids db' ''artist'' \<and>
      map tr_docidx (db_tracks db') =
        map tr_docidx (db_tracks db) @ map int (filter (\<lambda>k. is_audio_track (docs ! k)) ks)
    else foldR (store_doc fe sch flds) (map (\<lambda>k. (k, docs ! k)) ks) db = Inl (Raised ''OverflowError''))"
proof (induction ks arbitrary: db)
  case (Cons k ks)
  have k: "k < length docs" using Cons.prems(2) by simp
  note doc = store_doc_ok [OF Cons.prems(1) k assms(1) [OF nth_mem [OF k]] sch]
  show ?case
  proof (cases "is_audio_track (docs ! k) \<longrightarrow> numbers_fit fe (docs ! k)")
    case True
    from doc(1) [OF _ this] obtain db1 where db1: "store_doc fe sch flds (k, docs ! k) db = Inr db1" "db_ok fe docs db1"
        "aux_ids db ''artist'' \<subseteq> aux_ids db1 ''artist''"
        "map tr_docidx (db_tracks db1) = map tr_docidx (db_tracks db) @ (if is_audio_track (docs ! k) then [int k] else [])"
      by blast
    have "set ks \<subseteq> {..< length docs}" using Cons.prems(2) by simp
    from Cons.IH [OF db1(2) this] True db1 show ?thesis by (auto split: if_splits)
  next
    case False
    then show ?thesis using doc(2) by auto
  qed
qed simp

section \<open>The tables of the tags\<close>

text \<open>The tables there will be for the tags: those of the predefined tags, and those of other tags
  that are configured.\<close>

definition used_tags :: "tagsource \<Rightarrow> string list" where
  "used_tags tg = fst (chosen_tags tg) @ tg_itemtags tg"

definition tag_tables :: "tagsource \<Rightarrow> string set" where
  "tag_tables tg = snd ` set (tg_alltags tg) \<union> py_lower ` (set (used_tags tg) - fst ` set (tg_alltags tg))"

text \<open>No table of a tag takes the place of another table.\<close>

definition tables_apart :: "string set \<Rightarrow> bool" where
  "tables_apart T \<longleftrightarrow> (\<forall>t \<in> T. t \<noteq> ''albums'' \<and> t \<noteq> ''tracks'' \<and> (\<forall>u \<in> T. t \<noteq> junctb u))"

lemma junctb_simps [simp]:
  "junctb t = junctb u \<longleftrightarrow> t = u" "junctb t \<noteq> ''albums''" "junctb t \<noteq> ''tracks''"
  by (simp_all add: junctb_def)

lemma createTagTables_ok:
  assumes "tables_apart T" and "schema_ok U sch" and "U \<subseteq> T" and "t \<in> T"
  shows "schema_ok (insert t U) (sch(t \<mapsto> value_columns t, junctb t \<mapsto> junct_columns t))"
proof -
  let ?sch = "sch(t \<mapsto> value_columns t, junctb t \<mapsto> junct_columns t)"
  have t: "t \<noteq> ''albums''" "t \<noteq> ''tracks''" using assms(1,4) by (simp_all add: tables_apart_def)
  have U: "u \<in> T" if "u \<in> insert t U" for u using that assms(3,4) by blast
  have apart: "t \<noteq> junctb u" "u \<noteq> junctb t" if "u \<in> insert t U" for u
    using assms(1,4) U [OF that] by (simp_all add: tables_apart_def)
  have "?sch u = Some (value_columns u) \<and> ?sch (junctb u) = Some (junct_columns u)" if u: "u \<in> insert t U" for u
  proof (cases "u = t")
    case True
    then show ?thesis using apart(1) [of t] by (simp del: fun_upd_apply add: fun_upd_same fun_upd_other)
  next
    case False
    then have "sch u = Some (value_columns u)" "sch (junctb u) = Some (junct_columns u)"
      using assms(2) u by (simp_all add: schema_ok_def)
    then show ?thesis using False apart [OF u] not_sym [OF apart(1) [OF u]] by (simp add: fun_upd_other)
  qed
  moreover have "?sch ''albums'' = Some album_columns" "?sch ''tracks'' = Some track_columns"
    using assms(2) not_sym [OF t(1)] not_sym [OF t(2)] not_sym [OF junctb_simps(2)] not_sym [OF junctb_simps(3)]
    unfolding schema_ok_def by (simp_all only: fun_upd_other not_False_eq_True)
  ultimately show ?thesis by (simp add: schema_ok_def)
qed

lemma create_tables_loop:
  "tables_apart T \<Longrightarrow> schema_ok U sch \<Longrightarrow> U \<union> set tbs \<subseteq> T \<Longrightarrow>
   (if \<forall>t \<in> set tbs. accepts t
    then \<exists>sch'. foldR (createTagTables accepts) tbs sch = Inr sch' \<and> schema_ok (U \<union> set tbs) sch'
    else foldR (createTagTables accepts) tbs sch = Inl SqlError)"
proof (induction tbs arbitrary: U sch)
  case (Cons t tbs)
  have "schema_ok (insert t U) (sch(t \<mapsto> value_columns t, junctb t \<mapsto> junct_columns t))"
    using createTagTables_ok [OF Cons.prems(1,2), of t] Cons.prems(3) by simp
  note ih = Cons.IH [OF Cons.prems(1) this]
  have step: "createTagTables accepts t sch =
      (if accepts t then Inr (sch(t \<mapsto> value_columns t, junctb t \<mapsto> junct_columns t)) else Inl SqlError)"
    by (simp add: createTagTables_def)
  have T: "insert t U \<union> set tbs \<subseteq> T" using Cons.prems(3) by simp
  show ?case
  proof (cases "accepts t")
    case True
    then have *: "foldR (createTagTables accepts) (t # tbs) sch =
        foldR (createTagTables accepts) tbs (sch(t \<mapsto> value_columns t, junctb t \<mapsto> junct_columns t))"
      by (simp add: step)
    have **: "(\<forall>x \<in> set (t # tbs). accepts x) \<longleftrightarrow> (\<forall>x \<in> set tbs. accepts x)" "U \<union> set (t # tbs) = insert t U \<union> set tbs"
      using True by auto
    show ?thesis unfolding * ** by (rule ih [OF T])
  qed (simp add: step)
qed simp

lemma create_tables_ok:
  assumes "tables_apart T" and "snd ` set alltags \<subseteq> T"
  shows "if \<forall>t \<in> snd ` set alltags. accepts t
    then \<exists>sch. create_tables accepts alltags = Inr sch \<and> schema_ok (snd ` set alltags) sch
    else create_tables accepts alltags = Inl SqlError"
proof -
  have "schema_ok {} [''albums'' \<mapsto> album_columns, ''tracks'' \<mapsto> track_columns]"
    by (simp add: schema_ok_def)
  from create_tables_loop [OF assms(1) this, of "map snd alltags" accepts] assms(2)
  show ?thesis unfolding create_tables_def list.set_map Un_empty_left by blast
qed

text \<open>While the tags are taken one by one: the tables of all tags of the set are there, and the fields
  are of tags of the set.\<close>

definition tags_inv :: "string set \<Rightarrow> schema \<times> tagconf \<Rightarrow> bool" where
  "tags_inv T st \<longleftrightarrow>
     (case st of (sch, tc) \<Rightarrow>
       schema_ok (snd ` set (tc_alltags tc)) sch \<and> snd ` set (tc_alltags tc) \<subseteq> T \<and>
       fst ` set (tc_fields tc) \<subseteq> snd ` set (tc_alltags tc))"

abbreviation tag_names :: "schema \<times> tagconf \<Rightarrow> string set" where
  "tag_names st \<equiv> fst ` set (tc_alltags (snd st))"

lemma update_new_key: "k \<notin> fst ` set al \<Longrightarrow> AList.update k v al = al @ [(k, v)]"
  by (induction al) auto

lemma map_of_table: "nm \<in> fst ` set tags \<Longrightarrow> the (map_of tags nm) \<in> snd ` set tags"
  by (metis imageI map_of_SomeD map_of_eq_None_iff option.exhaust_sel snd_conv)

lemma use_tag_ok:
  assumes "tables_apart T" and "tags_inv T st" and "nm \<in> tag_names st \<or> py_lower nm \<in> T"
  shows "if nm \<in> tag_names st \<or> accepts (py_lower nm)
    then \<exists>st'. use_tag accepts b nm st = Inr st' \<and> tags_inv T st' \<and> tag_names st' = insert nm (tag_names st) \<and>
      snd ` set (tc_alltags (snd st)) \<subseteq> snd ` set (tc_alltags (snd st')) \<and>
      tc_indextags (snd st') = tc_indextags (snd st) \<and>
      dom (map_of (tc_tagtotable (snd st))) \<subseteq> dom (map_of (tc_tagtotable (snd st'))) \<and>
      (b \<longrightarrow> nm \<in> dom (map_of (tc_tagtotable (snd st'))))
    else use_tag accepts b nm st = Inl SqlError"
proof -
  obtain sch tc where st: "st = (sch, tc)" by (cases st)
  show ?thesis
  proof (cases "nm \<in> tag_names st")
    case True
    then have nm: "nm \<in> fst ` set (tc_alltags tc)" by (simp add: st)
    define tb where "tb = the (map_of (tc_alltags tc) nm)"
    let ?tc = "tc\<lparr>tc_tagtotable := if b then AList.update nm tb (tc_tagtotable tc) else tc_tagtotable tc,
        tc_fields := tc_fields tc @ [(tb, coltorclfield tb)]\<rparr>"
    have "has_key (tc_alltags tc) nm" using nm by (simp add: has_key_iff)
    then have "use_tag accepts b nm st = Inr (sch, ?tc)"
      by (simp add: use_tag_def with_table_def st tb_def Let_def)
    moreover have "tags_inv T (sch, ?tc)"
      using assms(2) map_of_table [OF nm] by (simp add: tags_inv_def st tb_def)
    moreover have "tag_names (sch, ?tc) = insert nm (tag_names st)" using nm by (simp add: st insert_absorb)
    moreover have "dom (map_of (tc_tagtotable tc)) \<subseteq> dom (map_of (tc_tagtotable ?tc))"
        "b \<longrightarrow> nm \<in> dom (map_of (tc_tagtotable ?tc))"
      by (auto simp: update_conv')
    ultimately show ?thesis using True by (simp add: st)
  next
    case False
    let ?t = "py_lower nm"
    let ?tags = "tc_alltags tc @ [(nm, ?t)]"
    have new: "AList.update nm ?t (tc_alltags tc) = ?tags" using False update_new_key by (simp add: st)
    have key: "\<not> has_key (tc_alltags tc) nm" using False by (simp add: st has_key_iff)
    have tb: "map_of ?tags nm = Some ?t" using False by (simp add: st map_add_def map_of_eq_None_iff [THEN iffD2])
    have "schema_ok (insert ?t (snd ` set (tc_alltags tc))) (sch(?t \<mapsto> value_columns ?t, junctb ?t \<mapsto> junct_columns ?t))"
      using assms False by (intro createTagTables_ok [OF assms(1)]) (auto simp: tags_inv_def st)
    then show ?thesis
      using False assms(2,3) tb
      by (auto simp: use_tag_def with_table_def addCustomTable_def createTagTables_def key new tags_inv_def st
          update_conv' Let_def)
  qed
qed

lemma use_tags_ok:
  assumes "tables_apart T"
  shows "tags_inv T st \<Longrightarrow> (\<forall>nm \<in> set nms. nm \<in> tag_names st \<or> py_lower nm \<in> T) \<Longrightarrow>
   (if \<forall>nm \<in> set nms. nm \<in> tag_names st \<or> accepts (py_lower nm)
    then \<exists>st'. foldR (use_tag accepts b) nms st = Inr st' \<and> tags_inv T st' \<and> tag_names st' = set nms \<union> tag_names st \<and>
      snd ` set (tc_alltags (snd st)) \<subseteq> snd ` set (tc_alltags (snd st')) \<and>
      tc_indextags (snd st') = tc_indextags (snd st) \<and>
      dom (map_of (tc_tagtotable (snd st))) \<subseteq> dom (map_of (tc_tagtotable (snd st'))) \<and>
      (b \<longrightarrow> set nms \<subseteq> dom (map_of (tc_tagtotable (snd st'))))
    else foldR (use_tag accepts b) nms st = Inl SqlError)"
proof (induction nms arbitrary: st)
  case (Cons nm nms)
  have nm: "nm \<in> tag_names st \<or> py_lower nm \<in> T" using Cons.prems(2) by simp
  note step = use_tag_ok [OF assms Cons.prems(1) nm, of accepts b]
  show ?case
  proof (cases "nm \<in> tag_names st \<or> accepts (py_lower nm)")
    case True
    with step obtain st1 where st1: "use_tag accepts b nm st = Inr st1" "tags_inv T st1"
        "tag_names st1 = insert nm (tag_names st)"
        "snd ` set (tc_alltags (snd st)) \<subseteq> snd ` set (tc_alltags (snd st1))"
        "tc_indextags (snd st1) = tc_indextags (snd st)"
        "dom (map_of (tc_tagtotable (snd st))) \<subseteq> dom (map_of (tc_tagtotable (snd st1)))"
        "b \<longrightarrow> nm \<in> dom (map_of (tc_tagtotable (snd st1)))"
      unfolding if_P [OF True] by blast
    have "\<forall>m \<in> set nms. m \<in> tag_names st1 \<or> py_lower m \<in> T" using Cons.prems(2) st1(3) by simp
    note ih = Cons.IH [OF st1(2) this]
    have cond: "(\<forall>m \<in> set nms. m \<in> tag_names st1 \<or> accepts (py_lower m)) \<longleftrightarrow>
        (\<forall>m \<in> set (nm # nms). m \<in> tag_names st \<or> accepts (py_lower m))"
      using True st1(3) by auto
    show ?thesis
    proof (cases "\<forall>m \<in> set (nm # nms). m \<in> tag_names st \<or> accepts (py_lower m)")
      case all: True
      with ih cond obtain st2 where st2: "foldR (use_tag accepts b) nms st1 = Inr st2" "tags_inv T st2"
          "tag_names st2 = set nms \<union> tag_names st1"
          "snd ` set (tc_alltags (snd st1)) \<subseteq> snd ` set (tc_alltags (snd st2))"
          "tc_indextags (snd st2) = tc_indextags (snd st1)"
          "dom (map_of (tc_tagtotable (snd st1))) \<subseteq> dom (map_of (tc_tagtotable (snd st2)))"
          "b \<longrightarrow> set nms \<subseteq> dom (map_of (tc_tagtotable (snd st2)))"
        unfolding cond if_P [OF all] by blast
      have "foldR (use_tag accepts b) (nm # nms) st = Inr st2" using st1(1) st2(1) by simp
      moreover have "tag_names st2 = set (nm # nms) \<union> tag_names st" using st1(3) st2(3) by simp
      moreover have "tc_indextags (snd st2) = tc_indextags (snd st)" using st1(5) st2(5) by simp
      moreover have "b \<longrightarrow> set (nm # nms) \<subseteq> dom (map_of (tc_tagtotable (snd st2)))"
        using st1(7) st2(6,7) by auto
      ultimately show ?thesis
        using all st2(2) order_trans [OF st1(4) st2(4)] order_trans [OF st1(6) st2(6)] by simp
    next
      case False
      then have "foldR (use_tag accepts b) nms st1 = Inl SqlError" using ih cond by (simp split: if_splits)
      then show ?thesis using False st1(1) by simp
    qed
  next
    case False
    then have "use_tag accepts b nm st = Inl SqlError" using step by (simp split: if_splits)
    then show ?thesis using False by auto
  qed
qed simp

lemma prepareTags_ok:
  assumes "tables_apart (tag_tables tg)" and "schema_ok (snd ` set (tg_alltags tg)) sch"
    and "\<forall>t \<in> snd ` set (tg_alltags tg). tg_accepts tg t"
  shows "if \<forall>t \<in> tag_tables tg. tg_accepts tg t
    then \<exists>sch' tc. prepareTags tg sch = Inr (sch', tc) \<and> tags_inv (tag_tables tg) (sch', tc) \<and>
      snd ` set (tg_alltags tg) \<subseteq> snd ` set (tc_alltags tc) \<and>
      tc_indextags tc = fst (chosen_tags tg) \<and> set (tc_indextags tc) \<subseteq> dom (map_of (tc_tagtotable tc))
    else prepareTags tg sch = Inl SqlError"
proof -
  obtain indextags display where ch: "chosen_tags tg = (indextags, display)" by fastforce
  let ?tc = "\<lparr>tc_alltags = tg_alltags tg, tc_indextags = indextags, tc_display = display,
      tc_tagtotable = [], tc_fields = []\<rparr>"
  let ?T = "tag_tables tg"
  let ?first = "foldR (use_tag (tg_accepts tg) True) indextags (sch, ?tc)"
  let ?K = "fst ` set (tg_alltags tg)"
  have eq: "prepareTags tg sch = bindR ?first (foldR (use_tag (tg_accepts tg) False) (tg_itemtags tg))"
    by (simp add: prepareTags_def ch)
  have inv: "tags_inv ?T (sch, ?tc)" using assms(2) by (auto simp: tags_inv_def tag_tables_def)
  have all: "(\<forall>t \<in> ?T. tg_accepts tg t) \<longleftrightarrow> (\<forall>nm \<in> set indextags \<union> set (tg_itemtags tg). nm \<in> ?K \<or> tg_accepts tg (py_lower nm))"
    using assms(3) by (auto simp: tag_tables_def used_tags_def ch)
  have T: "nm \<in> ?K \<or> py_lower nm \<in> ?T" if "nm \<in> set indextags \<union> set (tg_itemtags tg)" for nm
    using that by (auto simp: tag_tables_def used_tags_def ch)
  have "\<forall>nm \<in> set indextags. nm \<in> tag_names (sch, ?tc) \<or> py_lower nm \<in> ?T" using T by simp
  note first = use_tags_ok [OF assms(1) inv this, of "tg_accepts tg" True]
  show ?thesis
  proof (cases "\<forall>nm \<in> set indextags. nm \<in> ?K \<or> tg_accepts tg (py_lower nm)")
    case True
    then obtain st1 where st1: "?first = Inr st1" "tags_inv ?T st1" "tag_names st1 = set indextags \<union> ?K"
        "snd ` set (tg_alltags tg) \<subseteq> snd ` set (tc_alltags (snd st1))"
        "tc_indextags (snd st1) = indextags" "set indextags \<subseteq> dom (map_of (tc_tagtotable (snd st1)))"
      using first by auto
    have "\<forall>nm \<in> set (tg_itemtags tg). nm \<in> tag_names st1 \<or> py_lower nm \<in> ?T" using T st1(3) by auto
    note second = use_tags_ok [OF assms(1) st1(2) this, of "tg_accepts tg" False]
    have cond: "(\<forall>nm \<in> set (tg_itemtags tg). nm \<in> tag_names st1 \<or> tg_accepts tg (py_lower nm)) \<longleftrightarrow> (\<forall>t \<in> ?T. tg_accepts tg t)"
      unfolding all using True st1(3) by auto
    show ?thesis
    proof (cases "\<forall>t \<in> ?T. tg_accepts tg t")
      case acc: True
      with second cond obtain st2 where st2: "foldR (use_tag (tg_accepts tg) False) (tg_itemtags tg) st1 = Inr st2"
          "tags_inv ?T st2" "snd ` set (tc_alltags (snd st1)) \<subseteq> snd ` set (tc_alltags (snd st2))"
          "tc_indextags (snd st2) = tc_indextags (snd st1)"
          "dom (map_of (tc_tagtotable (snd st1))) \<subseteq> dom (map_of (tc_tagtotable (snd st2)))"
        by auto
      obtain sch' tc where st2_eq: "st2 = (sch', tc)" by (cases st2)
      have "prepareTags tg sch = Inr (sch', tc)" unfolding eq st1(1) using st2(1) st2_eq by simp
      moreover have "set (tc_indextags tc) \<subseteq> dom (map_of (tc_tagtotable tc))" "tc_indextags tc = indextags"
        using st1(5,6) st2(4,5) st2_eq by auto
      ultimately show ?thesis using acc st2(2) order_trans [OF st1(4) st2(3)] by (simp add: st2_eq ch)
    next
      case False
      then have "foldR (use_tag (tg_accepts tg) False) (tg_itemtags tg) st1 = Inl SqlError"
        using second cond by (simp split: if_splits)
      then show ?thesis unfolding eq st1(1) using False by simp
    qed
  next
    case False
    then have "?first = Inl SqlError" using first by (simp split: if_splits)
    moreover have "\<not> (\<forall>t \<in> ?T. tg_accepts tg t)" unfolding all using False by auto
    ultimately show ?thesis unfolding eq by simp
  qed
qed

section \<open>Merging\<close>

definition album_key :: "album \<Rightarrow> int \<times> string \<times> string \<times> int option" where
  "album_key a = (al_id a, al_folder a, al_title a, al_artist a)"

definition candidates :: "album list \<Rightarrow> int set" where
  "candidates as = al_id ` {a \<in> set as. al_alb a = None \<and> al_tdisc a \<noteq> None}"

definition members :: "int \<Rightarrow> album list \<Rightarrow> album list" where
  "members t = filter (\<lambda>a. al_alb a = Some t \<and> al_tdisc a \<noteq> None)"

definition disc_of :: "album \<Rightarrow> int" where
  "disc_of a = the (al_tdisc a)"

text \<open>An album that belongs to another is a disc of it, and the other has its title and artist and is
  no disc; the discs of an album are numbered without gaps.\<close>

definition merge_inv :: "album list \<Rightarrow> bool" where
  "merge_inv as \<longleftrightarrow>
     distinct (map al_id as) \<and> (\<forall>a \<in> set as. al_folder a \<noteq> [] \<and> al_artist a \<noteq> Some 0) \<and>
     (\<forall>a \<in> set as. al_alb a \<noteq> None \<longrightarrow> al_tdisc a \<noteq> None \<and>
        (\<exists>top \<in> set as. al_alb a = Some (al_id top) \<and> al_tdisc top = None \<and>
           al_title top = al_title a \<and> al_artist top = al_artist a)) \<and>
     (\<forall>t. members t as = [] \<or> checkseq (sort (map disc_of (members t as))))"

lemma merge_invI:
  assumes "distinct (map al_id as)" and "\<And>a. a \<in> set as \<Longrightarrow> al_folder a \<noteq> [] \<and> al_artist a \<noteq> Some 0"
    and "\<And>a t. a \<in> set as \<Longrightarrow> al_alb a = Some t \<Longrightarrow> al_tdisc a \<noteq> None \<and>
        (\<exists>top \<in> set as. t = al_id top \<and> al_tdisc top = None \<and>
           al_title top = al_title a \<and> al_artist top = al_artist a)"
    and "\<And>t. members t as \<noteq> [] \<Longrightarrow> checkseq (sort (map disc_of (members t as)))"
  shows "merge_inv as"
  using assms unfolding merge_inv_def by fastforce

lemma mergealbumsfilterfolders_eq:
  assumes "folder \<noteq> []" and "\<forall>a \<in> set rows. al_folder a \<noteq> []"
  obtains g where "mergealbumsfilterfolders folder rows = Inr (filter g rows)" and "\<And>a. al_folder a = folder \<Longrightarrow> g a"
proof -
  obtain parent where p: "utl_dirname folder = Inr parent" using utl_dirname_total [OF assms(1)] by blast
  define g where "g a \<longleftrightarrow> al_folder a = folder \<or> utl_dirname (al_folder a) = Inr parent" for a :: album
  have "mapR (\<lambda>row. if al_folder row = folder then Inr (True, row)
        else bindR (utl_dirname (al_folder row)) (\<lambda>d. Inr (d = parent, row))) rows = Inr (map (\<lambda>a. (g a, a)) rows)"
  proof (rule mapR_total)
    fix a assume "a \<in> set rows"
    then obtain d where "utl_dirname (al_folder a) = Inr d" using assms(2) utl_dirname_total by blast
    then show "(if al_folder a = folder then Inr (True, a)
        else bindR (utl_dirname (al_folder a)) (\<lambda>d. Inr (d = parent, a))) = Inr (g a, a)"
      by (auto simp: g_def)
  qed
  moreover have "map snd (filter fst (map (\<lambda>a. (g a, a)) rows)) = filter g rows" by (induction rows) auto
  ultimately have "mergealbumsfilterfolders folder rows = Inr (filter g rows)"
    by (simp add: mergealbumsfilterfolders_def p)
  then show ?thesis using that g_def by blast
qed

lemma mergeable_iff:
  assumes "al_artist r \<noteq> Some 0"
  shows "mergeable r a \<longleftrightarrow> al_title a = al_title r \<and> al_artist a = al_artist r \<and> al_alb a = None \<and> al_tdisc a \<noteq> None"
  using assms by (auto simp: mergeable_def split: option.splits)

lemma update_albums_cong:
  "(\<And>a. a \<in> set as \<Longrightarrow> P a \<longleftrightarrow> Q a) \<Longrightarrow> update_albums P f as = update_albums Q f as"
  by (simp add: update_albums_def)

lemma ids_selected:
  "distinct (map al_id as) \<Longrightarrow> a \<in> set as \<Longrightarrow> al_id a \<in> set (map al_id (filter h as)) \<longleftrightarrow> h a"
  by (auto simp: distinct_map inj_on_def)

text \<open>A selection of candidates loses its disc numbers.\<close>

lemma unset_discs:
  fixes as :: "album list" and h and as' defines as': "as' \<equiv> update_albums h (\<lambda>a. a\<lparr>al_tdisc := None\<rparr>) as"
  assumes "merge_inv as" and "\<And>a. h a \<Longrightarrow> al_alb a = None"
  shows "merge_inv as'" and "map album_key as' = map album_key as"
    and "candidates as' \<subseteq> candidates as - al_id ` {a \<in> set as. h a}"
proof -
  have mem: "members t as' = members t as" for t
    unfolding as' using assms(3) by (induction as) (auto simp: members_def update_albums_def)
  show "map album_key as' = map album_key as" by (simp add: as' update_albums_def album_key_def)
  show "merge_inv as'"
  proof (rule merge_invI)
    show "distinct (map al_id as')" using assms(2) by (simp add: as' merge_inv_def)
  next
    fix a assume "a \<in> set as'"
    then show "al_folder a \<noteq> [] \<and> al_artist a \<noteq> Some 0"
      using assms(2) by (auto simp: merge_inv_def as' update_albums_def)
  next
    fix a t assume a: "a \<in> set as'" "al_alb a = Some t"
    then have "a \<in> set as" using assms(3) by (auto simp: as' update_albums_def split: if_splits)
    with a assms(2) obtain top where "al_tdisc a \<noteq> None" "top \<in> set as" "t = al_id top" "al_tdisc top = None"
        "al_title top = al_title a" "al_artist top = al_artist a"
      unfolding merge_inv_def by (metis option.distinct(1) option.inject)
    moreover from this(2,4) have "top \<in> set as'" by (force simp: as' update_albums_def image_iff)
    ultimately show "al_tdisc a \<noteq> None \<and> (\<exists>top \<in> set as'. t = al_id top \<and> al_tdisc top = None \<and>
           al_title top = al_title a \<and> al_artist top = al_artist a)" by blast
  next
    fix t assume "members t as' \<noteq> []"
    then show "checkseq (sort (map disc_of (members t as')))" using assms(2) unfolding mem by (auto simp: merge_inv_def)
  qed
  have "distinct (map al_id as)" using assms(2) by (simp add: merge_inv_def)
  then show "candidates as' \<subseteq> candidates as - al_id ` {a \<in> set as. h a}"
    by (auto simp: candidates_def as' update_albums_def distinct_map inj_on_def split: if_splits)
qed

text \<open>A selection of candidates with consecutive discs gets a new album above it.\<close>

lemma group_discs:
  fixes as :: "album list" and h and r and t and top and as'
  defines t: "t \<equiv> next_rowid (map al_id as)"
    and top: "top \<equiv> (hd (filter h as))\<lparr>al_id := t, al_tdisc := None\<rparr>"
    and as': "as' \<equiv> update_albums h (\<lambda>a. a\<lparr>al_alb := Some t\<rparr>) as @ [top]"
  assumes inv: "merge_inv as" and h: "\<And>a. a \<in> set as \<Longrightarrow> h a \<Longrightarrow> mergeable r a" and r: "r \<in> set as" "h r"
    and seq: "checkseq (sort (map disc_of (filter h as)))"
  shows "merge_inv as'" and "\<exists>more. map album_key as' = map album_key as @ more"
    and "candidates as' \<subseteq> candidates as - al_id ` {a \<in> set as. h a}"
    and "al_artist ` set as' \<subseteq> al_artist ` set as"
proof -
  have hd: "hd (filter h as) \<in> set as" "h (hd (filter h as))"
    using hd_in_set [of "filter h as"] r by (auto simp: filter_empty_conv)
  have r0: "al_artist r \<noteq> Some 0" using inv r by (auto simp: merge_inv_def)
  have same: "al_title a = al_title top \<and> al_artist a = al_artist top \<and> al_alb a = None \<and> al_tdisc a \<noteq> None"
    if "a \<in> set as" "h a" for a
    using h [OF that] h [OF hd] unfolding mergeable_iff [OF r0] by (simp add: top)
  have top_props: "al_id top = t" "al_tdisc top = None" "al_alb top = None"
      "al_artist top \<in> al_artist ` set as" "al_folder top \<noteq> []"
    using same [OF hd] hd inv by (auto simp: top merge_inv_def)
  have fresh: "t \<notin> al_id ` set as" using next_rowid_fresh [of "map al_id as"] by (simp add: t)
  have old: "al_alb a \<noteq> Some t" if "a \<in> set as" for a
    using inv that fresh unfolding merge_inv_def by (metis image_eqI option.distinct(1) option.inject)
  have mem_t: "members t as' = map (\<lambda>a. a\<lparr>al_alb := Some t\<rparr>) (filter h as)"
  proof -
    have "members t (update_albums h (\<lambda>a. a\<lparr>al_alb := Some t\<rparr>) bs) = map (\<lambda>a. a\<lparr>al_alb := Some t\<rparr>) (filter h bs)"
      if "set bs \<subseteq> set as" for bs
      using that same old by (induction bs) (auto simp: members_def update_albums_def)
    then show ?thesis using top_props by (simp add: as' members_def)
  qed
  have mem: "members u as' = members u as" if "u \<noteq> t" for u
  proof -
    have "members u (update_albums h (\<lambda>a. a\<lparr>al_alb := Some t\<rparr>) bs) = members u bs" if "set bs \<subseteq> set as" for bs
      using that same \<open>u \<noteq> t\<close> by (induction bs) (auto simp: members_def update_albums_def)
    then show ?thesis using top_props by (simp add: as' members_def)
  qed
  show "merge_inv as'"
  proof (rule merge_invI)
    show "distinct (map al_id as')" using inv fresh top_props(1) by (simp add: as' merge_inv_def)
  next
    fix a assume "a \<in> set as'"
    then show "al_folder a \<noteq> [] \<and> al_artist a \<noteq> Some 0"
      using inv top_props(4,5) by (auto simp: as' merge_inv_def update_albums_def)
  next
    fix a u assume a: "a \<in> set as'" "al_alb a = Some u"
    then obtain b where b: "b \<in> set as" "a = (if h b then b\<lparr>al_alb := Some t\<rparr> else b)"
      using top_props(3) by (auto simp: as' update_albums_def)
    show "al_tdisc a \<noteq> None \<and> (\<exists>top \<in> set as'. u = al_id top \<and> al_tdisc top = None \<and>
           al_title top = al_title a \<and> al_artist top = al_artist a)"
    proof (cases "h b")
      case True
      then show ?thesis using a b same [OF b(1)] top_props by (auto simp: as')
    next
      case False
      with a b inv obtain p where "al_tdisc a \<noteq> None" "p \<in> set as" "u = al_id p" "al_tdisc p = None"
          "al_title p = al_title a" "al_artist p = al_artist a"
        unfolding merge_inv_def by (metis option.distinct(1) option.inject)
      moreover from this(2,4) have "p \<in> set as'" using same by (force simp: as' update_albums_def image_iff)
      ultimately show ?thesis by blast
    qed
  next
    fix u assume "members u as' \<noteq> []"
    then show "checkseq (sort (map disc_of (members u as')))"
      using inv seq mem mem_t by (cases "u = t") (auto simp: merge_inv_def disc_of_def [abs_def] comp_def)
  qed
  show "\<exists>more. map album_key as' = map album_key as @ more"
    by (auto simp: as' update_albums_def album_key_def)
  show "al_artist ` set as' \<subseteq> al_artist ` set as"
    using top_props(4) by (auto simp: as' update_albums_def)
  have "distinct (map al_id as)" using inv by (simp add: merge_inv_def)
  then show "candidates as' \<subseteq> candidates as - al_id ` {a \<in> set as. h a}"
    using top_props(2) by (auto simp: candidates_def as' update_albums_def distinct_map inj_on_def split: if_splits)
qed

lemma merge_step_ok:
  assumes "merge_inv as"
  shows "\<exists>as'. merge_step i as = Inr as' \<and> merge_inv as' \<and> (\<exists>more. map album_key as' = map album_key as @ more) \<and>
    candidates as' \<subseteq> candidates as - {i} \<and> al_artist ` set as' \<subseteq> al_artist ` set as"
proof (cases "List.find (\<lambda>a. al_id a = i \<and> al_alb a = None \<and> al_tdisc a \<noteq> None) as")
  case None
  then have "i \<notin> candidates as" by (auto simp: find_None_iff candidates_def)
  then show ?thesis using None assms by (auto simp: merge_step_def)
next
  case (Some r)
  then have r: "r \<in> set as" "al_id r = i" "al_alb r = None" "al_tdisc r \<noteq> None"
    by (auto simp: find_Some_iff in_set_conv_nth)
  have r0: "al_artist r \<noteq> Some 0" and fr: "al_folder r \<noteq> []" and dist: "distinct (map al_id as)"
    and frs: "\<forall>a \<in> set (filter (mergeable r) as). al_folder a \<noteq> []"
    using assms r(1) by (auto simp: merge_inv_def)
  obtain g where g: "mergealbumsfilterfolders (al_folder r) (filter (mergeable r) as) = Inr (filter g (filter (mergeable r) as))"
      "\<And>a. al_folder a = al_folder r \<Longrightarrow> g a"
    using mergealbumsfilterfolders_eq [OF fr frs] by blast
  define h where "h a \<longleftrightarrow> mergeable r a \<and> g a" for a
  have rows: "filter g (filter (mergeable r) as) = filter h as"
    unfolding filter_filter by (rule filter_cong) (auto simp: h_def)
  have hr: "h r" using g(2) r mergeable_iff [OF r0] by (simp add: h_def)
  have halb: "h a \<Longrightarrow> al_alb a = None" for a using mergeable_iff [OF r0] by (simp add: h_def)
  have sel: "update_albums (\<lambda>a. al_id a \<in> set (map al_id (filter h as))) f as = update_albums h f as" for f
    by (rule update_albums_cong) (rule ids_selected [OF dist])
  have step: "merge_step i as =
      (if 1 < length (filter h as) then
         (if \<not> checkseq (sort (map disc_of (filter h as))) then Inr (update_albums h (\<lambda>a. a\<lparr>al_tdisc := None\<rparr>) as)
          else bindR (membertotopalbum (hd (map al_id (filter h as))) as) (\<lambda>(top, albums).
                 Inr (update_albums (\<lambda>a. al_id a \<in> set (map al_id (filter h as))) (\<lambda>a. a\<lparr>al_alb := Some top\<rparr>) albums)))
       else if length (filter h as) = 1 then Inr (update_albums (\<lambda>a. al_id a = i) (\<lambda>a. a\<lparr>al_tdisc := None\<rparr>) as)
       else Inr as)"
    unfolding merge_step_def Some option.case g(1) bindR_Inr rows Let_def sel disc_of_def ..
  have i_sel: "{i} \<subseteq> al_id ` {a \<in> set as. h a}" using r hr by blast
  have artists: "al_artist ` set (update_albums h (\<lambda>a. a\<lparr>al_tdisc := None\<rparr>) as) \<subseteq> al_artist ` set as"
    by (auto simp: update_albums_def)
  note unset = unset_discs [OF assms halb, of h]
  consider "1 < length (filter h as)" "\<not> checkseq (sort (map disc_of (filter h as)))"
    | "1 < length (filter h as)" "checkseq (sort (map disc_of (filter h as)))" | "length (filter h as) = 1"
    using r(1) hr by (cases "filter h as") (auto simp: filter_empty_conv)
  then show ?thesis
  proof cases
    case 1
    then have "merge_step i as = Inr (update_albums h (\<lambda>a. a\<lparr>al_tdisc := None\<rparr>) as)"
      by (simp add: step)
    then show ?thesis using unset artists i_sel by auto
  next
    case 2
    let ?t = "next_rowid (map al_id as)"
    let ?top = "(hd (filter h as))\<lparr>al_id := ?t, al_tdisc := None\<rparr>"
    have hd: "hd (filter h as) \<in> set as" "h (hd (filter h as))"
      using hd_in_set [of "filter h as"] r hr by (auto simp: filter_empty_conv)
    have find: "List.find (\<lambda>a. al_id a = al_id (hd (filter h as))) as = Some (hd (filter h as))"
      using dist hd(1) by (induction as) (auto simp: rev_image_eqI)
    have hdid: "hd (map al_id (filter h as)) = al_id (hd (filter h as))"
      using 2(1) by (intro hd_map) auto
    have "?t \<notin> set (map al_id (filter h as))" using next_rowid_fresh [of "map al_id as"] by auto
    then have "merge_step i as = Inr (update_albums h (\<lambda>a. a\<lparr>al_alb := Some ?t\<rparr>) as @ [?top])"
      using 2 find sel [of "\<lambda>a. a\<lparr>al_alb := Some ?t\<rparr>"] 
      by (simp add: step hdid membertotopalbum_def Let_def update_albums_def)
    moreover note group_discs [of as h r, OF assms _ r(1) hr 2(2)]
    ultimately show ?thesis using i_sel by (auto simp: h_def)
  next
    case 3
    then obtain x where x: "filter h as = [x]" by (cases "filter h as") auto
    have "r \<in> set (filter h as)" using r(1) hr by simp
    then have "filter h as = [r]" using x by simp
    then have "set (map al_id (filter h as)) = {i}" using r(2) by simp
    then have "update_albums (\<lambda>a. al_id a = i) f as = update_albums h f as" for f
      using sel [of f] by simp
    then have "merge_step i as = Inr (update_albums h (\<lambda>a. a\<lparr>al_tdisc := None\<rparr>) as)"
      using 3 by (simp add: step)
    then show ?thesis using unset artists i_sel by auto
  qed
qed

lemma merge_scan_ok:
  assumes "merge_inv as"
  shows "\<exists>as'. foldR merge_step is as = Inr as' \<and> merge_inv as' \<and>
    (\<exists>more. map album_key as' = map album_key as @ more) \<and>
    candidates as' \<subseteq> candidates as - set is \<and> al_artist ` set as' \<subseteq> al_artist ` set as"
  using assms
proof (induction "is" arbitrary: as)
  case (Cons i "is")
  obtain as1 more1 where 1: "merge_step i as = Inr as1" "merge_inv as1" "map album_key as1 = map album_key as @ more1"
      "candidates as1 \<subseteq> candidates as - {i}" "al_artist ` set as1 \<subseteq> al_artist ` set as"
    using merge_step_ok [OF Cons.prems, of i] by blast
  obtain as2 more2 where 2: "foldR merge_step is as1 = Inr as2" "merge_inv as2" "map album_key as2 = map album_key as1 @ more2"
      "candidates as2 \<subseteq> candidates as1 - set is" "al_artist ` set as2 \<subseteq> al_artist ` set as1"
    using Cons.IH [OF 1(2)] by blast
  have "map album_key as2 = map album_key as @ (more1 @ more2)" using 1(3) 2(3) by simp
  then show ?case using 1 2 by (simp, blast)
qed auto

lemma createmergedalbums_lemma:
  assumes "distinct (map al_id as)"
    and "\<And>a. a \<in> set as \<Longrightarrow> al_folder a \<noteq> [] \<and> al_alb a = None \<and> al_artist a \<noteq> Some 0"
  shows "\<exists>bs more. createmergedalbums as = Inr bs \<and> map album_key bs = map album_key as @ more \<and>
    distinct (map al_id bs) \<and> al_artist ` set bs \<subseteq> al_artist ` set as \<and>
    (\<forall>b \<in> set bs. al_tdisc b = None \<longrightarrow> al_alb b = Some (al_id b)) \<and>
    (\<forall>b \<in> set bs. al_tdisc b \<noteq> None \<longrightarrow>
       (\<exists>top \<in> set bs. al_alb b = Some (al_id top) \<and> al_tdisc top = None \<and>
          al_title top = al_title b \<and> al_artist top = al_artist b)) \<and>
    (\<forall>t. members t bs = [] \<or> checkseq (sort (map disc_of (members t bs))))"
proof -
  have "members t as = []" for t using assms(2) by (auto simp: members_def filter_empty_conv)
  then have inv: "merge_inv as" using assms by (auto simp: merge_inv_def)
  obtain as' more where s: "foldR merge_step (map al_id as) as = Inr as'" "merge_inv as'"
      "map album_key as' = map album_key as @ more" "candidates as' \<subseteq> candidates as - set (map al_id as)"
      "al_artist ` set as' \<subseteq> al_artist ` set as"
    using merge_scan_ok [OF inv, of "map al_id as"] by blast
  define bs where "bs = update_albums (\<lambda>a. al_tdisc a = None) (\<lambda>a. a\<lparr>al_alb := Some (al_id a)\<rparr>) as'"
  have "candidates as \<subseteq> set (map al_id as)" by (auto simp: candidates_def)
  then have "candidates as' = {}" using s(4) by blast
  then have settled: "al_tdisc a \<noteq> None \<Longrightarrow> al_alb a \<noteq> None" if "a \<in> set as'" for a
    using that by (auto simp: candidates_def)
  have mem: "members t bs = members t as'" for t
    unfolding bs_def by (induction as') (auto simp: members_def update_albums_def)
  have 1: "\<forall>b \<in> set bs. al_tdisc b = None \<longrightarrow> al_alb b = Some (al_id b)"
    by (auto simp: bs_def update_albums_def)
  have 2: "\<exists>top \<in> set bs. al_alb b = Some (al_id top) \<and> al_tdisc top = None \<and>
          al_title top = al_title b \<and> al_artist top = al_artist b" if b: "b \<in> set bs" "al_tdisc b \<noteq> None" for b
  proof -
    have b': "b \<in> set as'" using b by (auto simp: bs_def update_albums_def split: if_splits)
    with settled b(2) s(2) obtain top where top: "top \<in> set as'" "al_alb b = Some (al_id top)" "al_tdisc top = None"
        "al_title top = al_title b" "al_artist top = al_artist b"
      unfolding merge_inv_def by metis
    then have "top\<lparr>al_alb := Some (al_id top)\<rparr> \<in> set bs" by (force simp: bs_def update_albums_def)
    then show ?thesis by (rule bexI [rotated]) (simp add: top)
  qed
  have 3: "createmergedalbums as = Inr bs" by (simp add: createmergedalbums_def s(1) bs_def)
  have 4: "map album_key bs = map album_key as @ more"
    using s(3) [symmetric] by (simp add: bs_def update_albums_def album_key_def)
  have "map al_id bs = map al_id as'" by (simp add: bs_def)
  then have 5: "distinct (map al_id bs)" "al_artist ` set bs \<subseteq> al_artist ` set as"
    using s(2,5) by (simp add: merge_inv_def, auto simp: bs_def update_albums_def)
  have 6: "\<forall>t. members t bs = [] \<or> checkseq (sort (map disc_of (members t bs)))"
    using s(2) unfolding mem merge_inv_def by blast
  show ?thesis using 1 2 3 4 5 6 by blast
qed

text \<open>C19. Merging discs into albums: every album that was there keeps its identifier, folder, title and
  artist; afterwards every album either stands for itself, or is a disc of an album that stands for
  itself and has its title and artist; and the discs of an album are numbered without gaps.\<close>

theorem createmergedalbums_groups:
  assumes "distinct (map al_id as)"
    and "\<And>a. a \<in> set as \<Longrightarrow> al_folder a \<noteq> [] \<and> al_alb a = None \<and> al_artist a \<noteq> Some 0"
  shows "\<exists>bs more. createmergedalbums as = Inr bs \<and> map album_key bs = map album_key as @ more \<and>
    distinct (map al_id bs) \<and> al_artist ` set bs \<subseteq> al_artist ` set as \<and>
    (\<forall>b \<in> set bs. al_tdisc b = None \<longrightarrow> al_alb b = Some (al_id b)) \<and>
    (\<forall>b \<in> set bs. al_tdisc b \<noteq> None \<longrightarrow>
       (\<exists>top \<in> set bs. al_alb b = Some (al_id top) \<and> al_tdisc top = None \<and>
          al_title top = al_title b \<and> al_artist top = al_artist b)) \<and>
    (\<forall>t. members t bs = [] \<or> checkseq (sort (map disc_of (members t bs))))"
  using assms by (rule createmergedalbums_lemma)

definition demo_disc :: "int \<Rightarrow> string \<Rightarrow> int option \<Rightarrow> album" where
  "demo_disc i folder d = \<lparr>al_id = i, al_artist = Some 2, al_title = ''Ring'', al_folder = folder, al_date = [],
     al_arturi = None, al_alb = None, al_tdisc = d, al_artists = []\<rparr>"

theorem createmergedalbums_groups_witness:
  "map_sum id (map (\<lambda>a. (al_id a, al_alb a, al_tdisc a)))
     (createmergedalbums [demo_disc 1 ''/m/r/cd2/'' (Some 2), demo_disc 2 ''/m/r/cd1/'' (Some 1), demo_disc 3 ''/m/x/'' (Some 3)]) =
     Inr [(1, Some 4, Some 2), (2, Some 4, Some 1), (3, Some 3, None), (4, Some 4, None)] \<and>
   (\<exists>bs. createmergedalbums [demo_disc 1 ''/m/r/cd2/'' (Some 2), demo_disc 2 ''/m/r/cd1/'' (Some 1), demo_disc 3 ''/m/x/'' (Some 3)] = Inr bs \<and>
      distinct (map al_id bs))"
proof
  let ?as = "[demo_disc 1 ''/m/r/cd2/'' (Some 2), demo_disc 2 ''/m/r/cd1/'' (Some 1), demo_disc 3 ''/m/x/'' (Some 3)]"
  show "map_sum id (map (\<lambda>a. (al_id a, al_alb a, al_tdisc a))) (createmergedalbums ?as) =
     Inr [(1, Some 4, Some 2), (2, Some 4, Some 1), (3, Some 3, None), (4, Some 4, None)]"
    by code_simp
  have "distinct (map al_id ?as)" by code_simp
  moreover have "al_folder a \<noteq> [] \<and> al_alb a = None \<and> al_artist a \<noteq> Some 0" if "a \<in> set ?as" for a
    using that by (auto simp: demo_disc_def)
  ultimately show "\<exists>bs. createmergedalbums ?as = Inr bs \<and> distinct (map al_id bs)"
    using createmergedalbums_groups [of ?as] by blast
qed

section \<open>The whole database\<close>

lemma docarturi_total:
  assumes "is_ok (folder_of fe doc)"
  shows "\<exists>r. docarturi fe doc httphp pp pf t cache = Inr r"
proof -
  obtain f where "docfolder fe doc = Inr f" using assms by (cases "docfolder fe doc") (auto simp: folder_of_def)
  then have "\<exists>a c. folderart fe doc httphp pp t cache = Inr (a, c)"
    by (auto simp: folderart_def Let_def split: option.split)
  then show ?thesis by (auto simp: docarturi_def Let_def split: option.split)
qed

lemma first_art_total:
  "\<forall>i \<in> set is. 0 \<le> i \<and> i < int (length docs) \<and> is_ok (folder_of fe (docs ! nat i)) \<Longrightarrow>
   \<exists>r. first_art fe httphp pp docs title is cache = Inr r"
proof (induction "is" arbitrary: cache)
  case (Cons i "is")
  then have i: "py_index docs i = Inr (docs ! nat i)" by (auto simp: py_index_def nth_res_def)
  obtain a c where "docarturi fe (docs ! nat i) httphp pp True (Some title) cache = Inr (a, c)"
    using docarturi_total [of fe "docs ! nat i"] Cons.prems by (metis list.set_intros(1) surj_pair)
  with i Cons show ?case by simp
qed simp

definition all_artists :: "tagdb \<Rightarrow> bool" where
  "all_artists db \<longleftrightarrow> list_all (\<lambda>a. al_artist a \<noteq> None) (db_albums db)"

lemma setalbumcover_ok:
  assumes "db_ok fe docs db" and "\<And>d. d \<in> set docs \<Longrightarrow> is_audio_track d \<Longrightarrow> is_ok (folder_of fe d)"
  shows "\<exists>db' c. setalbumcover fe httphp pp docs r (db, cache) = Inr (db', c) \<and> db_ok fe docs db' \<and>
    db_tracks db' = db_tracks db \<and> (all_artists db \<longrightarrow> all_artists db')"
proof -
  let ?is = "map tr_docidx (sort_key tr_path (filter (\<lambda>t. tr_album t = al_id r) (db_tracks db)))"
  have "0 \<le> i \<and> i < int (length docs) \<and> is_ok (folder_of fe (docs ! nat i))" if i: "i \<in> set ?is" for i
  proof -
    obtain t where "t \<in> set (db_tracks db)" "tr_docidx t = i" using i by auto
    then have "track_home fe docs (db_albums db) t" "tr_docidx t = i" using assms(1) by (auto simp: db_ok_def)
    then show ?thesis using assms(2) [of "docs ! nat i"] by (auto simp: track_home_def)
  qed
  then obtain a c where a: "first_art fe httphp pp docs (al_title r) ?is cache = Inr (a, c)"
    using first_art_total [of ?is docs fe httphp pp "al_title r" cache] by auto
  have upd: "db_ok fe docs (db\<lparr>db_albums := update_albums (\<lambda>a. al_id a = al_id r) (\<lambda>b. b\<lparr>al_arturi := a\<rparr>) (db_albums db)\<rparr>)"
    by (rule db_ok_update(1) [OF assms(1)]) (auto simp: id_folder_def album_ok_def)
  show ?thesis
    using assms(1) upd a by (auto simp: setalbumcover_def Let_def all_artists_def update_albums_def list_all_iff)
qed

lemma setalbumcovers_ok:
  assumes "\<And>d. d \<in> set docs \<Longrightarrow> is_audio_track d \<Longrightarrow> is_ok (folder_of fe d)"
  shows "db_ok fe docs db \<Longrightarrow>
    \<exists>db' c. foldR (setalbumcover fe httphp pp docs) rs (db, cache) = Inr (db', c) \<and> db_ok fe docs db' \<and>
      db_tracks db' = db_tracks db \<and> (all_artists db \<longrightarrow> all_artists db')"
proof (induction rs arbitrary: db cache)
  case (Cons r rs)
  obtain db1 c1 where 1: "setalbumcover fe httphp pp docs r (db, cache) = Inr (db1, c1)" "db_ok fe docs db1"
      "db_tracks db1 = db_tracks db" "all_artists db \<longrightarrow> all_artists db1"
    using setalbumcover_ok [OF Cons.prems assms] by blast
  from Cons.IH [OF 1(2), of c1] 1 show ?case by auto
qed simp

lemma common_artist_in:
  assumes "\<And>xs. xs \<noteq> [] \<Longrightarrow> pick xs \<in> set xs" and "various \<in> A" and "\<forall>s \<in> set ss. set s \<subseteq> A"
  shows "common_artist pick various ss \<in> A"
proof (cases ss)
  case (Cons s rest)
  let ?i = "filter (\<lambda>v. list_all (\<lambda>t. v \<in> set t) rest) s"
  have "?i \<noteq> [] \<Longrightarrow> pick ?i \<in> set s" using assms(1) [of ?i] by auto
  then show ?thesis using assms(2,3) Cons by (auto simp: common_artist_def Let_def)
qed (simp add: common_artist_def assms)

lemma setalbumartists_ok:
  assumes "db_ok fe docs db" and "\<And>xs. xs \<noteq> [] \<Longrightarrow> pick xs \<in> set xs" and "various \<in> aux_ids db ''artist''"
  shows "db_ok fe docs (setalbumartists pick various db)" and "all_artists (setalbumartists pick various db)"
    and "db_tracks (setalbumartists pick various db) = db_tracks db"
proof -
  show "db_ok fe docs (setalbumartists pick various db)"
    unfolding setalbumartists_def
    by (rule db_ok_update(1) [OF assms(1)])
      (auto simp: id_folder_def album_ok_def intro!: common_artist_in [OF assms(2,3)])
qed (auto simp: setalbumartists_def all_artists_def update_albums_def list_all_iff)

text \<open>What comes after the documents: artists and covers of albums, and merging their discs.\<close>

lemma finish_albums_ok:
  assumes "db_ok fe docs db1" and "\<And>xs. xs \<noteq> [] \<Longrightarrow> pick xs \<in> set xs"
    and "\<And>d. d \<in> set docs \<Longrightarrow> is_audio_track d \<Longrightarrow> is_ok (folder_of fe d)"
    and "various \<in> aux_ids db1 ''artist''"
  shows "\<exists>db2 c bs. bindR (setalbumcovers fe httphp pp docs (setalbumartists pick various db1, cache)) (\<lambda>(db, cache).
        bindR (createmergedalbums (db_albums db)) (\<lambda>albums. Inr (tc, db\<lparr>db_albums := albums\<rparr>, cache))) =
      Inr (tc, db2\<lparr>db_albums := bs\<rparr>, c) \<and>
    db_ok fe docs db2 \<and> db_tracks db2 = db_tracks db1 \<and> distinct (map al_id bs) \<and>
    (\<forall>t \<in> set (db_tracks db2). track_home fe docs bs t) \<and>
    (\<forall>b \<in> set bs. \<exists>i \<in> aux_ids db2 ''artist''. al_artist b = Some i)"
proof -
  note a = setalbumartists_ok [OF assms(1,2,4)]
  obtain db2 c where db2: "setalbumcovers fe httphp pp docs (setalbumartists pick various db1, cache) = Inr (db2, c)"
      "db_ok fe docs db2" "db_tracks db2 = db_tracks db1" "all_artists db2"
    using setalbumcovers_ok [OF assms(3) a(1), of httphp pp "db_albums (setalbumartists pick various db1)" cache] a(2,3)
    by (auto simp: setalbumcovers_def)
  have albums: "album_ok (aux_ids db2 ''artist'') x \<and> al_artist x \<noteq> None" if "x \<in> set (db_albums db2)" for x
    using that db2(2,4) by (auto simp: db_ok_def all_artists_def list_all_iff)
  have "0 < i" if "i \<in> aux_ids db2 ''artist''" for i
    using that db2(2) by (auto simp: db_ok_def aux_ok_def aux_ids_def list_all_iff)
  then have ok: "al_folder x \<noteq> [] \<and> al_alb x = None \<and> al_artist x \<noteq> Some 0" if "x \<in> set (db_albums db2)" for x
    using albums [OF that] by (force simp: album_ok_def)
  have "distinct (map al_id (db_albums db2))" using db2(2) by (simp add: db_ok_def)
  from createmergedalbums_lemma [OF this ok] obtain bs more where bs: "createmergedalbums (db_albums db2) = Inr bs"
      "map album_key bs = map album_key (db_albums db2) @ more" "distinct (map al_id bs)"
      "al_artist ` set bs \<subseteq> al_artist ` set (db_albums db2)"
    by blast
  have home: "track_home fe docs bs t" if "t \<in> set (db_tracks db2)" for t
  proof (rule track_home_mono)
    show "track_home fe docs (db_albums db2) t" using that db2(2) by (simp add: db_ok_def)
    fix x assume "x \<in> set (db_albums db2)"
    then have "album_key x \<in> set (map album_key bs)" using bs(2) by simp
    then show "\<exists>b \<in> set bs. al_id b = al_id x \<and> al_folder b = al_folder x" by (auto simp: album_key_def)
  qed
  have artist: "\<exists>i \<in> aux_ids db2 ''artist''. al_artist b = Some i" if "b \<in> set bs" for b
  proof -
    have "al_artist b \<in> al_artist ` set (db_albums db2)" using that bs(4) by (meson imageI subsetD)
    then obtain x where x: "x \<in> set (db_albums db2)" "al_artist b = al_artist x" by (elim imageE)
    then show ?thesis using albums [OF x(1)] by (auto simp: album_ok_def)
  qed
  have "bindR (setalbumcovers fe httphp pp docs (setalbumartists pick various db1, cache)) (\<lambda>(db, cache).
        bindR (createmergedalbums (db_albums db)) (\<lambda>albums. Inr (tc, db\<lparr>db_albums := albums\<rparr>, cache))) =
      Inr (tc, db2\<lparr>db_albums := bs\<rparr>, c)"
    by (simp add: db2(1) bs(1))
  then show ?thesis using db2(2,3) home artist bs(3) by blast
qed

text \<open>C2. What filling the database does, on documents with a folder and tags whose tables do not take
  the place of others. When SQLite refuses the name of a table of a tag, it raises
  \<open>OperationalError\<close>; else when an audio track has a track or disc number of more than 64 bits, it
  raises \<open>OverflowError\<close>; else it succeeds and leaves the database consistent: exactly the audio tracks
  are in it, each in an album that exists and is in the folder of the track; album identifiers are
  unique, every album has an artist; in every table of values each value is stored once, and every row
  that joins a document with a value refers to a value that exists; and the tags shown are those
  configured, each with a table.\<close>

theorem recolltosql_consistent:
  assumes "\<And>xs. xs \<noteq> [] \<Longrightarrow> pick xs \<in> set xs"
    and "\<And>d. d \<in> set docs \<Longrightarrow> is_audio_track d \<Longrightarrow> is_ok (folder_of fe d)"
    and "tables_apart (tag_tables tg)" and "''artist'' \<in> snd ` set (tg_alltags tg)"
  shows "if \<exists>t \<in> tag_tables tg. \<not> tg_accepts tg t
    then recolltosql fe httphp pp pick tg docs cache = Inl (Raised ''OperationalError'')
    else if \<exists>d \<in> set docs. is_audio_track d \<and> \<not> numbers_fit fe d
    then recolltosql fe httphp pp pick tg docs cache = Inl (Raised ''OverflowError'')
    else \<exists>tc db c. recolltosql fe httphp pp pick tg docs cache = Inr (tc, db, c) \<and>
      map tr_docidx (db_tracks db) = map int (filter (\<lambda>k. is_audio_track (docs ! k)) [0..<length docs]) \<and>
      list_all (track_home fe docs (db_albums db)) (db_tracks db) \<and>
      distinct (map al_id (db_albums db)) \<and>
      list_all (\<lambda>a. \<exists>i \<in> aux_ids db ''artist''. al_artist a = Some i) (db_albums db) \<and>
      (\<forall>tb. aux_ok (db_aux db tb) \<and> snd ` set (db_junct db tb) \<subseteq> aux_ids db tb) \<and>
      tc_indextags tc = fst (chosen_tags tg) \<and> set (tc_indextags tc) \<subseteq> dom (map_of (tc_tagtotable tc))"
proof -
  let ?T0 = "snd ` set (tg_alltags tg)"
  let ?run = "recolltosql fe httphp pp pick tg docs cache"
  have "?T0 \<subseteq> tag_tables tg" by (auto simp: tag_tables_def)
  note create = create_tables_ok [OF assms(3) this, of "tg_accepts tg"]
  show ?thesis
  proof (cases "\<forall>t \<in> tag_tables tg. tg_accepts tg t")
    case False
    have "?run = Inl SqlError"
    proof (cases "\<forall>t \<in> ?T0. tg_accepts tg t")
      case True
      then obtain sch where sch: "create_tables (tg_accepts tg) (tg_alltags tg) = Inr sch" "schema_ok ?T0 sch"
        using create by auto
      have "prepareTags tg sch = Inl SqlError" using prepareTags_ok [OF assms(3) sch(2) True] False by (simp split: if_splits)
      then show ?thesis by (simp add: recolltosql_def sch(1))
    next
      case False
      then have "create_tables (tg_accepts tg) (tg_alltags tg) = Inl SqlError" using create by (simp split: if_splits)
      then show ?thesis by (simp add: recolltosql_def)
    qed
    then show ?thesis using False by auto
  next
    case acc: True
    then have acc0: "\<forall>t \<in> ?T0. tg_accepts tg t" by (simp add: tag_tables_def)
    then obtain sch0 where sch0: "create_tables (tg_accepts tg) (tg_alltags tg) = Inr sch0" "schema_ok ?T0 sch0"
      using create by auto
    obtain sch tc where tc: "prepareTags tg sch0 = Inr (sch, tc)" "tags_inv (tag_tables tg) (sch, tc)"
        "?T0 \<subseteq> snd ` set (tc_alltags tc)" "tc_indextags tc = fst (chosen_tags tg)"
        "set (tc_indextags tc) \<subseteq> dom (map_of (tc_tagtotable tc))"
      using prepareTags_ok [OF assms(3) sch0(2) acc0] acc by auto
    have sch: "schema_ok (snd ` set (tc_alltags tc)) sch" "''artist'' \<in> snd ` set (tc_alltags tc)"
        "fst ` set (tc_fields tc) \<subseteq> snd ` set (tc_alltags tc)"
      using tc(2,3) assms(4) by (auto simp: tags_inv_def)
    obtain various db0 where v: "auxtableinsert ''artist'' ''Various Artists'' createsqdb = (various, db0)" by fastforce
    have "db_ok fe docs createsqdb" by (simp add: createsqdb_def db_ok_def aux_ok_def)
    from db_ok_aux_insert [OF this v] have db0: "db_ok fe docs db0" .
    have enum: "List.enumerate 0 docs = map (\<lambda>k. (k, docs ! k)) [0..<length docs]"
      by (rule nth_equalityI) (simp_all add: nth_enumerate_eq)
    let ?store = "foldR (store_doc fe sch (tc_fields tc)) (map (\<lambda>k. (k, docs ! k)) [0..<length docs]) db0"
    have run: "?run = bindR ?store (\<lambda>db.
        bindR (setalbumcovers fe httphp pp docs (setalbumartists pick various db, cache)) (\<lambda>(db, cache).
        bindR (createmergedalbums (db_albums db)) (\<lambda>albums. Inr (tc, db\<lparr>db_albums := albums\<rparr>, cache))))"
      by (simp add: recolltosql_def sch0(1) tc(1) v enum need_columns_ok [OF sch(1)] need_columns_ok(3) [OF sch(1,2)])
    have fits: "(\<forall>k \<in> set [0..<length docs]. is_audio_track (docs ! k) \<longrightarrow> numbers_fit fe (docs ! k)) \<longleftrightarrow>
        \<not> (\<exists>d \<in> set docs. is_audio_track d \<and> \<not> numbers_fit fe d)"
      by (auto simp: all_set_conv_all_nth)
    have "set [0..<length docs] \<subseteq> {..< length docs}" by auto
    note stored = store_docs_ok [OF assms(2) sch db0 this, unfolded fits]
    show ?thesis
    proof (cases "\<exists>d \<in> set docs. is_audio_track d \<and> \<not> numbers_fit fe d")
      case True
      then have "?store = Inl (Raised ''OverflowError'')" using stored by (simp only: not_True_eq_False if_False)
      then have "?run = Inl (Raised ''OverflowError'')" unfolding run by simp
      then show ?thesis using True acc by simp
    next
      case False
      have "db_tracks db0 = []" using auxtableinsert_facts(5) [OF v] by (simp add: createsqdb_def)
      then obtain db1 where db1: "?store = Inr db1" "db_ok fe docs db1" "aux_ids db0 ''artist'' \<subseteq> aux_ids db1 ''artist''"
          "map tr_docidx (db_tracks db1) = map int (filter (\<lambda>k. is_audio_track (docs ! k)) [0..<length docs])"
        using stored False by (auto simp only: if_True not_False_eq_True list.map append_Nil)
      obtain db2 c bs where db2: "bindR (setalbumcovers fe httphp pp docs (setalbumartists pick various db1, cache)) (\<lambda>(db, cache).
            bindR (createmergedalbums (db_albums db)) (\<lambda>albums. Inr (tc, db\<lparr>db_albums := albums\<rparr>, cache))) =
          Inr (tc, db2\<lparr>db_albums := bs\<rparr>, c)"
          "db_ok fe docs db2" "db_tracks db2 = db_tracks db1" "distinct (map al_id bs)"
          "\<forall>t \<in> set (db_tracks db2). track_home fe docs bs t"
          "\<forall>b \<in> set bs. \<exists>i \<in> aux_ids db2 ''artist''. al_artist b = Some i"
        using finish_albums_ok [OF db1(2) assms(1,2), of various httphp pp cache tc] aux_insert_ids(2) [OF v] db1(3) by blast
      have "?run = Inr (tc, db2\<lparr>db_albums := bs\<rparr>, c)" unfolding run db1(1) bindR_Inr by (rule db2(1))
      moreover have "\<not> (\<exists>t \<in> tag_tables tg. \<not> tg_accepts tg t)" using acc by blast
      ultimately show ?thesis
        using False db1(4) db2(2-) tc(4,5) by (simp add: db_ok_def aux_ids_def list_all_iff)
    qed
  qed
qed

text \<open>A configuration with the predefined tags, and names that SQLite does not take.\<close>

definition demo_tags :: "(string \<times> string) list \<Rightarrow> tagsource" where
  "demo_tags ps = \<lparr>tg_accepts = (\<lambda>t. CHR '' '' \<notin> set t \<and> t \<notin> {''group'', ''order'', ''index'', ''table''}),
     tg_alltags = alltagtotable, tg_indextags = ps, tg_itemtags = []\<rparr>"

theorem recolltosql_consistent_witness:
  "\<exists>tc db c. recolltosql demo_fs ''h:1'' ''/uprcl'' hd (demo_tags [(''Genre'', []), (''Mood'', [])]) [demo_doc] Map.empty =
       Inr (tc, db, c) \<and>
     map tr_docidx (db_tracks db) = [0] \<and> list_all (track_home demo_fs [demo_doc] (db_albums db)) (db_tracks db) \<and>
     tc_indextags tc = [''Genre'', ''Mood'']"
proof -
  let ?tg = "demo_tags [(''Genre'', []), (''Mood'', [])]"
  have "is_ok (folder_of demo_fs demo_doc)" "is_audio_track demo_doc" "numbers_fit demo_fs demo_doc"
      and "list_all (\<lambda>t. tg_accepts ?tg t) (''mood'' # map snd alltagtotable)"
      "list_all (\<lambda>t. t \<noteq> ''albums'' \<and> t \<noteq> ''tracks'' \<and> list_all (\<lambda>u. t \<noteq> junctb u) (''mood'' # map snd alltagtotable))
         (''mood'' # map snd alltagtotable)"
      "chosen_tags ?tg = ([''Genre'', ''Mood''], [(''Genre'', ''Genre''), (''Mood'', ''Mood'')])"
    by code_simp+
  note facts = this
  have all: "tg_alltags ?tg = alltagtotable" "tg_itemtags ?tg = []" by (simp_all add: demo_tags_def)
  have "''Genre'' \<in> fst ` set alltagtotable" "''Mood'' \<notin> fst ` set alltagtotable" "py_lower ''Mood'' = ''mood''"
    by code_simp+
  then have T: "tag_tables ?tg = set (''mood'' # map snd alltagtotable)"
    unfolding tag_tables_def used_tags_def facts(6) all by auto
  have "''artist'' \<in> snd ` set (tg_alltags ?tg)" unfolding all by code_simp
  moreover have "tables_apart (tag_tables ?tg)"
    using facts(5) unfolding T tables_apart_def list_all_iff by blast
  moreover have "\<not> (\<exists>t \<in> tag_tables ?tg. \<not> tg_accepts ?tg t)"
    using facts(4) unfolding T list_all_iff by blast
  moreover have "\<not> (\<exists>d \<in> set [demo_doc]. is_audio_track d \<and> \<not> numbers_fit demo_fs d)" using facts(3) by simp
  moreover have "map int (filter (\<lambda>k. is_audio_track ([demo_doc] ! k)) [0..<length [demo_doc]]) = [0]"
    using facts(2) by (simp add: upt_rec)
  ultimately obtain tc db c where "recolltosql demo_fs ''h:1'' ''/uprcl'' hd ?tg [demo_doc] Map.empty = Inr (tc, db, c)"
      "map tr_docidx (db_tracks db) = [0]" "list_all (track_home demo_fs [demo_doc] (db_albums db)) (db_tracks db)"
      "tc_indextags tc = fst (chosen_tags ?tg)"
    using recolltosql_consistent [of hd "[demo_doc]" demo_fs ?tg "''h:1''" "''/uprcl''" Map.empty] facts(1) by auto
  then show ?thesis using facts(6) by (intro exI conjI) simp_all
qed

text \<open>Tags that break the filling: a keyword, a name with a blank, and a name that takes the table of
  albums. And a track number that does not fit.\<close>

lemma raised_unit: "bindR r (\<lambda>_. Inr ()) = Inl e \<Longrightarrow> r = Inl e"
  by (cases r) simp_all

lemma custom_tags_break:
  "recolltosql demo_fs ''h:1'' ''/uprcl'' hd (demo_tags [(''group'', [])]) [] Map.empty = Inl SqlError"
  "recolltosql demo_fs ''h:1'' ''/uprcl'' hd (demo_tags [(''Release Country'', [])]) [] Map.empty = Inl SqlError"
  "recolltosql demo_fs ''h:1'' ''/uprcl'' hd (demo_tags [(''Albums'', [])]) [] Map.empty = Inl SqlError"
  by (rule raised_unit, code_simp)+

lemma track_number_overflows:
  assumes "py_int (hd (split_on (CHR ''/'') (d_val doc ''tracknumber''))) = Inr (2 ^ 63)"
  shows "\<not> numbers_fit fe doc"
  using assms by (simp add: numbers_fit_def tracknofordoc_def fits64_def)

section \<open>Disc numbers in titles\<close>

lemma albtit_search_append:
  "albtit_search s = Some (g, n) \<Longrightarrow> albtit_search (t @ s) = Some (t @ g, n)"
  by (induction t) auto

lemma lower_digit: "is_digit c \<Longrightarrow> lower_char c = c"
  by (auto simp: is_digit_def lower_char_def Let_def)

lemma py_lower_digits: "list_all is_digit ds \<Longrightarrow> py_lower (ds @ s) = ds @ py_lower s"
  by (induction ds) (auto simp: py_lower_def lower_digit)

lemma disc_tail_digit: "is_digit c \<Longrightarrow> disc_tail (c # s) = None"
  using lower_digit [of c] by (auto simp: disc_tail_def py_lower_def Let_def is_digit_def)

lemma albtit_search_digits:
  "list_all is_digit ds \<Longrightarrow> albtit_search s = None \<Longrightarrow> albtit_search (ds @ s) = None"
  by (induction ds) (simp_all add: disc_tail_digit)

lemma str_nat_all_digits: "list_all is_digit (str_nat n)"
  using str_nat_digits by (auto simp: list_all_iff)

lemma number_then_str_nat:
  assumes "\<forall>c r. s = c # r \<longrightarrow> \<not> is_digit c"
  shows "number_then ok (str_nat n @ s) = (if ok s then Some n else None)"
proof -
  have d: "\<forall>c \<in> set (str_nat n). is_digit c" by (simp add: str_nat_digits)
  have "takeWhile is_digit s = []" "dropWhile is_digit s = s"
    using assms by (cases s; simp)+
  then have "takeWhile is_digit (str_nat n @ s) = str_nat n" "dropWhile is_digit (str_nat n @ s) = s"
    using d by (simp_all add: takeWhile_append2 dropWhile_append2)
  then show ?thesis
    using digits_val_str_nat [of 0 True n "[]"] by (simp add: number_then_def)
qed

lemma albtit_search_disc:
  "albtit_search (''[disc '' @ str_nat n @ '']'') = Some ([], n)"
proof -
  have tail: "albtit_search (str_nat n @ '']'') = None"
    by (rule albtit_search_digits [OF str_nat_all_digits])
      (simp add: disc_tail_def py_lower_def lower_char_def)
  have "albtit_search (''disc '' @ str_nat n @ '']'') = None"
  proof -
    have "disc_tail ('' '' @ str_nat n @ '']'') = None"
    proof -
      obtain c r where c: "str_nat n = c # r" "is_digit c"
        using str_nat_nonempty [of n] str_nat_digits [of _ n] by (cases "str_nat n") auto
      then show ?thesis using lower_digit [of c]
        by (auto simp: disc_tail_def py_lower_def lower_char_def is_digit_def Let_def)
    qed
    then show ?thesis using tail
      by (simp add: disc_tail_def py_lower_def lower_char_def Let_def)
  qed
  moreover have "disc_tail (''[disc '' @ str_nat n @ '']'') = Some n"
  proof -
    have "py_lower (''[disc '' @ str_nat n @ '']'') = ''[disc '' @ str_nat n @ '']''"
      using py_lower_digits [OF str_nat_all_digits, of n "'']''"] by (simp add: py_lower_def lower_char_def)
    moreover have "number_then (\<lambda>r. startswith r '']'' \<and> only_blanks (drop 1 r)) (str_nat n @ '']'') = Some n"
      by (subst number_then_str_nat) (simp_all add: is_digit_def only_blanks_def)
    ultimately show ?thesis by (simp add: disc_tail_def Let_def)
  qed
  ultimately show ?thesis by simp
qed

text \<open>A title that ends in \<open>[disc N]\<close>, N not 0, in a document whose disc number is
  missing, unreadable, 0 or N: the album gets the title without the suffix and the disc number N,
  whatever the folder is called, so that the discs of a set share one title.\<close>

theorem album_disc_suffix:
  assumes "n \<noteq> 0"
    and "d_val doc ''discnumber'' = [] \<or> (\<forall>d. py_int (d_val doc ''discnumber'') = Inr d \<longrightarrow> d = 0 \<or> d = int n)"
  shows "album_disc doc folder (t @ ''[disc '' @ str_nat n @ '']'') = Inr (t, Some (int n))"
  using assms albtit_search_append [OF albtit_search_disc, of t n]
  by (auto simp: album_disc_def no_disc_def split: sum.splits)

theorem album_disc_suffix_witness:
  "album_disc (demo_doc) ''/m'' (''Live '' @ ''[disc '' @ str_nat 2 @ '']'') = Inr (''Live '', Some 2)"
  using album_disc_suffix [of 2 demo_doc "''/m''" "''Live ''"] by (simp add: demo_doc_def)

text \<open>A release date given as year and month is dropped: only a year alone or a full date is kept.\<close>

theorem parsedate_year_month:
  "CHR ''-'' \<notin> set y \<Longrightarrow> CHR ''-'' \<notin> set m \<Longrightarrow> length y + length m \<le> 9 \<Longrightarrow> parsedate (y @ ''-'' @ m) = None"
  by (simp add: parsedate_def split_on_append split_on_no_sep)

end
