(* ===== verification/Tags.thy ===== *)
theory Tags
  imports TagsCreate "HOL-Library.Option_ord"
begin

text \<open>
  Browsing the local library by tags, \<open>uprcl/uprcltags.py\<close>, class \<open>Tagged\<close>. An SQL selection,
  which the code builds as text, is the record \<open>sel\<close>: the folder it is restricted to and the
  (junction table, value) pairs it demands; \<open>selected\<close> gives its rows. Rows whose order a statement
  leaves open come in the order of the table. The list of the index's documents, the file system
  and the names are fixed in \<open>tagsenv\<close>; what browsing changes, the cache of statement totals and the
  list of hidden views, is the state \<open>tagsst\<close>.
\<close>

section \<open>Selections\<close>

text \<open>SQL's \<open>LIKE\<close>: \<open>%\<close> stands for any text, \<open>_\<close> for one character, ASCII letters match in any case.\<close>

fun sql_like :: "string \<Rightarrow> string \<Rightarrow> bool" where
  "sql_like [] [] = True"
| "sql_like [] (c # s) = False"
| "sql_like (p # ps) [] = (p = CHR ''%'' \<and> sql_like ps [])"
| "sql_like (p # ps) (c # s) =
     (if p = CHR ''%'' then sql_like ps (c # s) \<or> sql_like (p # ps) s
      else if p = CHR ''_'' then sql_like ps (dropWhile is_cont s)
      else lower_char p = lower_char c \<and> sql_like ps s)"

definition under :: "string \<Rightarrow> string \<Rightarrow> bool" where
  "under path p \<longleftrightarrow> path = [] \<or> sql_like (path @ ''%'') p"

record sel =
  sl_path :: string
  sl_conds :: "(string \<times> int) list"
  sl_tables :: "string list"

definition sel_all :: "string \<Rightarrow> sel" where
  "sel_all path = \<lparr>sl_path = path, sl_conds = [], sl_tables = []\<rparr>"

definition add_table :: "string \<Rightarrow> sel \<Rightarrow> sel" where
  "add_table tb s = s\<lparr>sl_tables := sl_tables s @ [junctb tb]\<rparr>"

definition add_cond :: "string \<Rightarrow> int \<Rightarrow> sel \<Rightarrow> sel" where
  "add_cond tb v s = add_table tb (s\<lparr>sl_conds := sl_conds s @ [(tb, v)]\<rparr>)"

text \<open>A track appears once for every row of the junction table that joins it to the value.\<close>

definition join_cond :: "tagdb \<Rightarrow> string \<times> int \<Rightarrow> track list \<Rightarrow> track list" where
  "join_cond db c ts =
     concat (map (\<lambda>t. replicate (length (filter (\<lambda>j. j = (tr_docidx t, snd c)) (db_junct db (fst c)))) t) ts)"

text \<open>A table named twice makes its columns ambiguous, which SQL refuses.\<close>

definition selected :: "tagdb \<Rightarrow> sel \<Rightarrow> track list res" where
  "selected db s =
     (if distinct (sl_tables s)
      then Inr (fold (join_cond db) (sl_conds s) (filter (\<lambda>t. under (sl_path s) (tr_path t)) (db_tracks db)))
      else Inl (Raised ''OperationalError''))"

text \<open>The documents of a selection by track number.\<close>

definition docidsforsel :: "tagdb \<Rightarrow> sel \<Rightarrow> int list res" where
  "docidsforsel db s = bindR (selected db s) (\<lambda>ts. Inr (map tr_docidx (sort_key tr_trackno ts)))"

section \<open>The environment and the state\<close>

record tagsenv =
  te_fs :: fsenv
  te_httphp :: string
  te_pprefix :: string
  te_docs :: "doc list"
  te_conf :: tagconf
  te_prefix :: string

record tagsst =
  ts_cache :: "(string \<times> nat) list"
  ts_queue :: "string list"
  ts_hidden :: "(int \<times> string) list"

definition stmt_cnt_cachesize :: nat where
  "stmt_cnt_cachesize = 20"

definition Tagged_init :: tagsst where
  "Tagged_init = \<lparr>ts_cache = [], ts_queue = [], ts_hidden = []\<rparr>"

text \<open>The entry of a track. Remembering folder art does not change entries, so the cache of that
  component is left empty here.\<close>

definition track_entry :: "tagsenv \<Rightarrow> string \<Rightarrow> string \<Rightarrow> int \<Rightarrow> entry res" where
  "track_entry te i pid docidx =
     bindR (py_index (te_docs te) docidx) (\<lambda>doc.
     bindR (rcldoctoentry (te_fs te) i pid (te_httphp te) (te_pprefix te) doc Map.empty) (\<lambda>(e, c). Inr e))"

section \<open>Tags that still divide a selection\<close>

definition values_of :: "tagdb \<Rightarrow> string \<Rightarrow> track list \<Rightarrow> int list" where
  "values_of db tb ts =
     remdups (map snd (filter (\<lambda>(d, v). \<exists>t \<in> set ts. tr_docidx t = d) (db_junct db tb)))"

fun subtreetags_loop :: "tagconf \<Rightarrow> tagdb \<Rightarrow> sel \<Rightarrow> string list \<Rightarrow> string list res" where
  "subtreetags_loop tc db s [] = Inr []"
| "subtreetags_loop tc db s (tt # tts) =
     bindR (dict_get (tc_tagtotable tc) tt) (\<lambda>tb.
       if junctb tb \<in> set (sl_tables s) then subtreetags_loop tc db s tts
       else bindR (selected db s) (\<lambda>ts.
              bindR (subtreetags_loop tc db s tts) (\<lambda>r.
                Inr (if 1 < length (values_of db tb ts) then tt # r else r))))"

definition subtreetags :: "tagconf \<Rightarrow> tagdb \<Rightarrow> sel \<Rightarrow> string list res" where
  "subtreetags tc db s = subtreetags_loop tc db s (tc_indextags tc)"

definition albcntforfolder :: "tagdb \<Rightarrow> string \<Rightarrow> nat" where
  "albcntforfolder db path =
     (if path \<noteq> []
      then length (remdups (List.map_filter al_alb (filter (\<lambda>a. sql_like (path @ ''%'') (al_folder a)) (db_albums db))))
      else length (filter (\<lambda>a. al_tdisc a = None) (db_albums db)))"

text \<open>The fixed entries at the top and one entry per dividing tag.\<close>

definition rootentries :: "tagsenv \<Rightarrow> tagdb \<Rightarrow> string \<Rightarrow> string \<Rightarrow> entry list res" where
  "rootentries te db pid path =
     (let nitems = length (filter (\<lambda>t. under path (tr_path t)) (db_tracks db)) in
      bindR (subtreetags (te_conf te) db (sel_all path)) (\<lambda>subqs.
      bindR (mapR (\<lambda>tt. bindR (dict_get (tc_display (te_conf te)) tt) (\<lambda>d. Inr (direntry3 (pid @ ''='' @ tt) pid d))) subqs)
        (\<lambda>tags.
        Inr (direntry3 (pid @ ''albums'') pid (str_nat (albcntforfolder db path) @ '' albums'') #
             direntry3 (pid @ ''items'') pid (str_nat nitems @ '' items'') # tags))))"

section \<open>Lists of tracks\<close>

text \<open>The total of a statement, remembered under its text for the last 20 statements.\<close>

definition stmt_total :: "string \<Rightarrow> int list \<Rightarrow> tagsst \<Rightarrow> (nat \<times> tagsst) res" where
  "stmt_total stmt rows st =
     (case map_of (ts_cache st) stmt of
        Some n \<Rightarrow> Inr (n, st)
      | None \<Rightarrow>
          (let n = length rows;
               cache = AList.update stmt n (ts_cache st);
               queue = ts_queue st @ [stmt]
           in if stmt_cnt_cachesize < length queue then
                (if has_key cache (hd queue)
                 then Inr (n, st\<lparr>ts_cache := AList.delete (hd queue) cache, ts_queue := tl queue\<rparr>)
                 else Inl KeyError)
              else Inr (n, st\<lparr>ts_cache := cache, ts_queue := queue\<rparr>)))"

datatype listing =
    Whole "entry list"
  | Slice int nat "entry list"

text \<open>The part of the rows that \<open>LIMIT\<close> and \<open>OFFSET\<close> leave; an offset alone is a syntax error.\<close>

definition slice_rows :: "int \<Rightarrow> int \<Rightarrow> 'a list \<Rightarrow> 'a list res" where
  "slice_rows offset cnt rows =
     (if cnt = 0 then (if offset = 0 then Inr rows else Inl (Raised ''OperationalError''))
      else (let rest = drop (nat offset) rows in Inr (if cnt < 0 then rest else take (nat cnt) rest)))"

definition trackentriesforstmt ::
  "(entry \<Rightarrow> entry \<Rightarrow> int res) \<Rightarrow> tagsenv \<Rightarrow> string \<Rightarrow> int list \<Rightarrow> string \<Rightarrow> int \<Rightarrow> int \<Rightarrow> tagsst \<Rightarrow>
   (listing \<times> tagsst) res" where
  "trackentriesforstmt key te stmt rows pid offset cnt st =
     bindR (if offset \<noteq> 0 \<or> cnt \<noteq> 0 then stmt_total stmt rows st else Inr (0, st)) (\<lambda>(n, st).
       let (offset, cnt) = (if n < 1000 then (0, 0) else (offset, cnt)) in
       bindR (slice_rows offset cnt rows) (\<lambda>rows.
       bindR (mapR (\<lambda>d. track_entry te (pid @ ''$i'' @ str_int d) pid d) rows) (\<lambda>entries.
         if offset \<noteq> 0 \<or> cnt \<noteq> 0 then Inr (Slice offset n entries, st)
         else bindR (sortR key entries) (\<lambda>es. Inr (Whole es, st)))))"

text \<open>The calls without a range: the whole list, sorted.\<close>

definition trackentries_all :: "(entry \<Rightarrow> entry \<Rightarrow> int res) \<Rightarrow> tagsenv \<Rightarrow> string \<Rightarrow> int list \<Rightarrow> entry list res" where
  "trackentries_all key te pid rows =
     bindR (mapR (\<lambda>d. track_entry te (pid @ ''$i'' @ str_int d) pid d) rows) (sortR key)"

section \<open>Albums\<close>

text \<open>Tracks refer to discs; a merged album stands for the discs whose \<open>albalb\<close> it is.\<close>

definition discs_of :: "tagdb \<Rightarrow> int \<Rightarrow> album list" where
  "discs_of db albid = filter (\<lambda>a. al_alb a = Some albid) (db_albums db)"

definition albids2rawalbids :: "tagdb \<Rightarrow> int list \<Rightarrow> int list" where
  "albids2rawalbids db albids =
     concat (map (\<lambda>i. if discs_of db i \<noteq> [] then map al_id (discs_of db i) else [i]) albids)"

text \<open>SQL puts a missing disc number before all others, as the order of options does.\<close>

definition albid2rawalbidssorted :: "tagdb \<Rightarrow> int \<Rightarrow> int list" where
  "albid2rawalbidssorted db albid =
     (if length (discs_of db albid) \<le> 1 then [albid] else map al_id (sort_key al_tdisc (discs_of db albid)))"

text \<open>An identifier that is in no row has no row to read.\<close>

definition rawalbid2albid :: "tagdb \<Rightarrow> int \<Rightarrow> int res" where
  "rawalbid2albid db r =
     (case List.find (\<lambda>a. al_id a = r) (db_albums db) of
        None \<Rightarrow> Inl TypeError
      | Some a \<Rightarrow> (case al_alb a of
                    None \<Rightarrow> Inr (al_id a)
                  | Some i \<Rightarrow> Inr (if i \<noteq> 0 then i else al_id a)))"

definition rawalbids2albids :: "tagdb \<Rightarrow> int list \<Rightarrow> int list res" where
  "rawalbids2albids db rs = bindR (mapR (rawalbid2albid db) rs) (\<lambda>is. Inr (remdups is))"

definition subtreealbums :: "tagdb \<Rightarrow> sel \<Rightarrow> int list res" where
  "subtreealbums db s = bindR (selected db s) (\<lambda>ts. rawalbids2albids db (remdups (map tr_album ts)))"

text \<open>Track numbers that would not grow are raised above the one before; 0 counts as none.\<close>

definition set_trackno :: "int \<Rightarrow> entry \<Rightarrow> entry" where
  "set_trackno n e = e(''upnp:originalTrackNumber'' \<mapsto> str_int n)"

fun renumber :: "int option \<Rightarrow> entry list \<Rightarrow> entry list res" where
  "renumber tno [] = Inr []"
| "renumber tno (e # es) =
     bindR (case e ''upnp:originalTrackNumber'' of None \<Rightarrow> Inr 1 | Some v \<Rightarrow> py_int v) (\<lambda>tn.
       let n = (case tno of
                  None \<Rightarrow> tn
                | Some k \<Rightarrow> if k \<noteq> 0 then (if tn \<le> k then k + 1 else tn) else tn)
       in bindR (renumber (Some n) es) (\<lambda>r. Inr (set_trackno n e # r)))"

definition album_tracks :: "tagdb \<Rightarrow> int \<Rightarrow> int list" where
  "album_tracks db albid = map tr_docidx (sort_key tr_trackno (filter (\<lambda>t. tr_album t = albid) (db_tracks db)))"

definition trackentriesforalbum :: "tagsenv \<Rightarrow> tagdb \<Rightarrow> int \<Rightarrow> string \<Rightarrow> entry list res" where
  "trackentriesforalbum te db albid pid =
     bindR (mapR (\<lambda>r. trackentries_all cmpentries_func te pid (album_tracks db r)) (albid2rawalbidssorted db albid))
       (\<lambda>tracks. renumber None (concat tracks))"

text \<open>The name of the album's artist, from the outer join with the artist table\<close>

definition albartist_name :: "tagdb \<Rightarrow> album \<Rightarrow> string option" where
  "albartist_name db a = Option.bind (al_artist a) (map_of (db_aux db ''artist''))"

definition album_entry :: "tagdb \<Rightarrow> string \<Rightarrow> string \<Rightarrow> album \<Rightarrow> entry" where
  "album_entry db i pid a =
     direntry i pid (al_title a) (al_arturi a) (albartist_name db a) (Some ''object.container.album.musicAlbum'')
       ''1'' (Some (al_date a)) None"

text \<open>The albums listed: those asked for, or all; below a folder, those with a disc there. \<open>ids\<close> is
  the condition on identifiers that the caller gives.\<close>

definition albums_where :: "tagdb \<Rightarrow> int list option \<Rightarrow> string \<Rightarrow> album list" where
  "albums_where db ids path =
     (let asked = (\<lambda>a. case ids of None \<Rightarrow> True | Some l \<Rightarrow> al_id a \<in> set l) in
      if path \<noteq> []
      then (let tops = List.map_filter al_alb
                         (filter (\<lambda>a. asked a \<and> sql_like (path @ ''%'') (al_folder a)) (db_albums db))
            in filter (\<lambda>a. al_id a \<in> set tops) (db_albums db))
      else filter (\<lambda>a. asked a \<and> al_tdisc a = None) (db_albums db))"

definition direntriesforalbums :: "tagdb \<Rightarrow> string \<Rightarrow> int list option \<Rightarrow> string \<Rightarrow> entry list" where
  "direntriesforalbums db pid ids path =
     map (\<lambda>a. album_entry db (pid @ ''$'' @ str_int (al_id a)) pid a)
       (sort_key al_title (albums_where db ids path))"

definition direntryforalbid :: "tagsenv \<Rightarrow> tagdb \<Rightarrow> string \<Rightarrow> entry option res" where
  "direntryforalbid te db albid =
     bindR (py_int albid) (\<lambda>n.
       case List.find (\<lambda>a. al_id a = n \<and> al_tdisc a = None) (db_albums db) of
         None \<Rightarrow> Inr None
       | Some a \<Rightarrow> (let pid = te_prefix te @ ''albums'' in Inr (Some (album_entry db (pid @ ''$'' @ albid) pid a))))"

definition direntryforartid :: "tagsenv \<Rightarrow> tagdb \<Rightarrow> string \<Rightarrow> entry option res" where
  "direntryforartid te db artid =
     bindR (py_int artid) (\<lambda>n.
       case map_of (db_aux db ''artist'') n of
         None \<Rightarrow> Inr None
       | Some v \<Rightarrow> (let pid = te_prefix te @ ''=Artist'' in
                    Inr (Some (direntry (pid @ ''$'' @ artid) pid v None None
                           (Some ''object.container.person.musicArtist'') ''1'' None None))))"

section \<open>Browsing below albums and items\<close>

definition complete_album :: "string \<Rightarrow> string \<Rightarrow> entry" where
  "complete_album i pid = direntry3 i pid ''>> Complete Album''"

text \<open>\<open>i\<close> is the position of \<open>albums\<close> in the path: the last element lists albums, the one before
  it the selected tracks of an album, the one before that all its tracks.\<close>

definition album_selection ::
  "tagsenv \<Rightarrow> tagdb \<Rightarrow> string \<Rightarrow> int \<Rightarrow> sel \<Rightarrow> entry list res" where
  "album_selection te db pid albid s =
     (let raw = albids2rawalbids db [albid];
          ntracks = length (filter (\<lambda>t. tr_album t \<in> set raw) (db_tracks db)) in
      bindR (docidsforsel db s) (\<lambda>docids.
        let rows = map tr_docidx (filter (\<lambda>t. tr_album t \<in> set raw \<and> tr_docidx t \<in> set docids) (db_tracks db)) in
        bindR (trackentries_all cmpentries_func te pid rows) (\<lambda>entries.
          Inr (if ntracks \<noteq> length entries then complete_album (pid @ ''$showca'') pid # entries else entries))))"

definition tagsbrowsealbums ::
  "tagsenv \<Rightarrow> tagdb \<Rightarrow> string \<Rightarrow> string list \<Rightarrow> nat \<Rightarrow> sel \<Rightarrow> entry list res" where
  "tagsbrowsealbums te db pid qpath i s =
     (if i + 1 = length qpath then
        bindR (subtreealbums db s) (\<lambda>albids. Inr (direntriesforalbums db pid (Some albids) []))
      else if i + 2 = length qpath then
        bindR (py_int (last qpath)) (\<lambda>albid. album_selection te db pid albid s)
      else if i + 3 = length qpath then
        bindR (py_int (qpath ! (length qpath - 2))) (\<lambda>albid. trackentriesforalbum te db albid pid)
      else Inr [])"

text \<open>When all tracks are from one album and more of its tracks exist, an entry leads to it.\<close>

definition tagsbrowseitems :: "tagsenv \<Rightarrow> tagdb \<Rightarrow> string \<Rightarrow> sel \<Rightarrow> entry list res" where
  "tagsbrowseitems te db pid s =
     bindR (selected db s) (\<lambda>ts.
     bindR (subtreealbums db s) (\<lambda>albids.
     let docids = map tr_docidx ts in
     bindR (if length albids = 1
            then bindR (trackentriesforalbum te db (hd albids) pid) (\<lambda>tlist.
                   let i = replace_str ''$items'' ''$albums'' pid @ ''$'' @ str_int (hd albids) @ ''$showca'' in
                   Inr (if length tlist \<noteq> length docids then [complete_album i pid] else []))
            else Inr []) (\<lambda>ca.
     bindR (trackentries_all cmpitems_func te pid docids) (\<lambda>tracks. Inr (ca @ tracks)))))"

section \<open>Browsing by tags\<close>

text \<open>What a path of tags and values leads to.\<close>

datatype tagspot =
    AtAlbums nat sel
  | AtItems sel
  | AtValues string sel
  | AtContent sel

definition walk_col :: "tagconf \<Rightarrow> string \<Rightarrow> string option \<Rightarrow> string res" where
  "walk_col tc elt col =
     (if startswith elt ''='' then dict_get (tc_tagtotable tc) (tl elt)
      else (case col of None \<Rightarrow> Inl UnboundLocalError | Some tb \<Rightarrow> Inr tb))"

fun tags_walk :: "tagconf \<Rightarrow> nat \<Rightarrow> string list \<Rightarrow> string option \<Rightarrow> sel \<Rightarrow> tagspot res" where
  "tags_walk tc i [] col s = (if sl_conds s = [] then Inl UnboundLocalError else Inr (AtContent s))"
| "tags_walk tc i [elt] col s =
     (if elt = ''albums'' then Inr (AtAlbums i s)
      else if elt = ''items'' then Inr (AtItems s)
      else bindR (walk_col tc elt col) (\<lambda>tb. Inr (AtValues tb (add_table tb s))))"
| "tags_walk tc i (elt # v # es) col s =
     (if elt = ''albums'' then Inr (AtAlbums i s)
      else if elt = ''items'' then Inr (AtItems s)
      else bindR (walk_col tc elt col) (\<lambda>tb.
             bindR (py_int v) (\<lambda>n. tags_walk tc (i + 2) es (Some tb) (add_cond tb n s))))"

text \<open>The values that the tracks of the selection have, one row per value, in the order of the values.\<close>

fun one_per_value :: "(int \<times> string) list \<Rightarrow> (int \<times> string) list" where
  "one_per_value [] = []"
| "one_per_value (r # rs) = r # one_per_value (filter (\<lambda>q. snd q \<noteq> snd r) rs)"

definition column_values :: "tagdb \<Rightarrow> string \<Rightarrow> track list \<Rightarrow> (int \<times> string) list" where
  "column_values db tb ts =
     sort_key snd (one_per_value (filter (\<lambda>(i, v). i \<in> set (values_of db tb ts)) (db_aux db tb)))"

definition show_values :: "tagdb \<Rightarrow> string \<Rightarrow> string \<Rightarrow> sel \<Rightarrow> entry list res" where
  "show_values db pid tb s =
     bindR (selected db s) (\<lambda>ts.
       Inr (map (\<lambda>(i, v). direntry3 (pid @ ''$'' @ str_int i) pid v) (column_values db tb ts)))"

text \<open>The entry for the albums of the selection, and whether its tracks are shown too.\<close>

definition content_albums ::
  "tagsenv \<Rightarrow> tagdb \<Rightarrow> string \<Rightarrow> int list \<Rightarrow> int list \<Rightarrow> (entry list \<times> bool) res" where
  "content_albums te db pid docids albids =
     (if 1 < length albids
      then Inr ([direntry3 (pid @ ''$albums'') pid (str_nat (length albids) @ '' albums'')], True)
      else if length albids = 1 then
        (let albid = hd albids; i = pid @ ''$albums$'' @ str_int albid @ ''$showca'' in
         bindR (trackentriesforalbum te db albid pid) (\<lambda>tlist.
           if length tlist \<noteq> length docids then Inr ([complete_album i pid], True)
           else (case direntriesforalbums db pid (Some [albid]) [] of
                   [] \<Rightarrow> Inl IndexError
                 | el # els \<Rightarrow> Inr ([el(''id'' \<mapsto> i)], False))))
      else Inr ([], True))"

definition show_content :: "tagsenv \<Rightarrow> tagdb \<Rightarrow> string \<Rightarrow> sel \<Rightarrow> entry list res" where
  "show_content te db pid s =
     bindR (docidsforsel db s) (\<lambda>docids.
     bindR (subtreealbums db s) (\<lambda>albids.
     bindR (subtreetags (te_conf te) db s) (\<lambda>subqs.
     bindR (content_albums te db pid docids albids) (\<lambda>(top, displaytracks).
       if subqs \<noteq> [] then
         bindR (mapR (\<lambda>tt. bindR (dict_get (tc_display (te_conf te)) tt)
                             (\<lambda>d. Inr (direntry3 (pid @ ''$='' @ tt) pid d))) subqs) (\<lambda>tags.
           Inr (top @ direntry3 (pid @ ''$items'') pid (str_nat (length docids) @ '' items'') # tags))
       else if displaytracks then
         bindR (mapR (\<lambda>d. track_entry te (pid @ ''$*i'' @ str_int d) pid d) docids) (\<lambda>tracks.
         bindR (sortR cmpitems_func tracks) (\<lambda>es. Inr (top @ es)))
       else Inr top))))"

definition tagsbrowse :: "tagsenv \<Rightarrow> tagdb \<Rightarrow> string \<Rightarrow> string list \<Rightarrow> string \<Rightarrow> entry list res" where
  "tagsbrowse te db pid qpath path =
     bindR (tags_walk (te_conf te) 0 qpath None (sel_all path)) (\<lambda>spot.
       case spot of
         AtAlbums i s \<Rightarrow> tagsbrowsealbums te db pid qpath i s
       | AtItems s \<Rightarrow> tagsbrowseitems te db pid s
       | AtValues tb s \<Rightarrow> show_values db pid tb s
       | AtContent s \<Rightarrow> show_content te db pid s)"

definition albumsbrowse :: "tagsenv \<Rightarrow> tagdb \<Rightarrow> string \<Rightarrow> string list \<Rightarrow> string \<Rightarrow> entry list res" where
  "albumsbrowse te db pid qpath path =
     (if length qpath = 1 then Inr (direntriesforalbums db pid None path)
      else if length qpath = 2 then
        bindR (py_int (qpath ! 1)) (\<lambda>album_id. trackentriesforalbum te db album_id pid)
      else Inl (Raised ''Exception''))"

section \<open>The browse routines\<close>

definition whole :: "tagsst \<Rightarrow> entry list res \<Rightarrow> (listing \<times> tagsst) res" where
  "whole st r = bindR r (\<lambda>es. Inr (Whole es, st))"

definition dobrowse ::
  "tagsenv \<Rightarrow> tagdb \<Rightarrow> string \<Rightarrow> string list \<Rightarrow> string \<Rightarrow> int \<Rightarrow> int \<Rightarrow> tagsst \<Rightarrow> (listing \<times> tagsst) res" where
  "dobrowse te db pid qpath folder offset cnt st =
     (if hd qpath = ''items'' then
        (let folderwhere = (if folder \<noteq> [] then '' WHERE tracks.path LIKE ? '' else '' '');
             rows = map tr_docidx (filter (\<lambda>t. under folder (tr_path t)) (db_tracks db))
         in trackentriesforstmt cmpitems_func te (''SELECT docidx FROM tracks'' @ folderwhere) rows pid offset cnt st)
      else if hd qpath = ''albums'' then whole st (albumsbrowse te db pid qpath folder)
      else if startswith (hd qpath) ''='' then whole st (tagsbrowse te db pid qpath folder)
      else Inl (Raised ''Exception''))"

text \<open>The view of a folder by tags. An entry of the list of hidden views is the time it was hidden
  and the identifier of the view; entries older than two seconds are dropped.\<close>

fun hidden_scan :: "int \<Rightarrow> string \<Rightarrow> (int \<times> string) list \<Rightarrow> (int \<times> string) list \<times> bool" where
  "hidden_scan now ppid [] = ([], False)"
| "hidden_scan now ppid ((t, p) # hs) =
     (if t \<le> now - 2 then ([], False)
      else if p = ppid then ((t, p) # hs, True)
      else (let (r, found) = hidden_scan now ppid hs in ((t, p) # r, found)))"

definition browseFolder ::
  "tagsenv \<Rightarrow> tagdb \<Rightarrow> int \<Rightarrow> string \<Rightarrow> string \<Rightarrow> string \<Rightarrow> tagsst \<Rightarrow> (listing \<times> tagsst) res" where
  "browseFolder te db now pid pthremain folder st =
     (let l = split_on (CHR ''$'') pthremain in
      if length l < 2 then Inr (Whole [], st)
      else if length l = 2 then
        bindR (utl_basename folder) (\<lambda>b.
          Inr (Whole [direntry3 (pid @ ''$hchide'') pid ''>> Hide Contents'', direntry3 (pid @ ''$hctags'') pid b], st))
      else if length l = 3 then
        (let ppid = join_with ''$'' (butlast (split_on (CHR ''$'') pid)) in
         if last l = ''hchide'' then Inr (Whole [], st\<lparr>ts_hidden := (now, ppid) # ts_hidden st\<rparr>)
         else (let (h, found) = hidden_scan now ppid (ts_hidden st); st = st\<lparr>ts_hidden := h\<rparr> in
               if found then Inr (Whole [], st)
               else whole st (rootentries te db (pid @ ''$'') folder)))
      else dobrowse te db pid (drop 3 l) folder 0 0 st)"

definition browse_children ::
  "tagsenv \<Rightarrow> tagdb \<Rightarrow> string \<Rightarrow> int \<Rightarrow> int \<Rightarrow> tagsst \<Rightarrow> (listing \<times> tagsst) res" where
  "browse_children te db pid offset cnt st =
     dobrowse te db pid (split_on (CHR ''$'') (replace_first (te_prefix te) [] pid)) [] offset cnt st"

text \<open>The metadata of an item is looked up in the list of its parent.\<close>

fun find_entry :: "string \<Rightarrow> entry list \<Rightarrow> entry list res" where
  "find_entry objid [] = Inr []"
| "find_entry objid (e # es) =
     bindR (map_get e ''id'') (\<lambda>i. if i = objid then Inr [e] else find_entry objid es)"

definition item_split :: "string \<Rightarrow> (string \<times> string) option" where
  "item_split objid =
     (case py_rfind objid ''$i'' of
        Some p \<Rightarrow> if drop p objid = ''$items'' then None else Some (take p objid, drop (p + 2) objid)
      | None \<Rightarrow>
          (case py_rfind objid ''$*i'' of
             None \<Rightarrow> None
           | Some p \<Rightarrow> Some (take p objid, drop (p + 3) objid)))"

definition tags_browsemeta :: "tagsenv \<Rightarrow> tagdb \<Rightarrow> string \<Rightarrow> tagsst \<Rightarrow> (listing \<times> tagsst) res" where
  "tags_browsemeta te db objid st =
     (case item_split objid of
        None \<Rightarrow> Inr (Whole [], st)
      | Some (pid, n) \<Rightarrow>
          (if is_ok (py_int n)
           then bindR (browse_children te db pid 0 0 st) (\<lambda>(l, st).
                  case l of
                    Whole es \<Rightarrow> whole st (find_entry objid es)
                  | Slice off n es \<Rightarrow> Inl TypeError)
           else Inr (Whole [], st)))"

definition tags_browse ::
  "tagsenv \<Rightarrow> tagdb \<Rightarrow> string \<Rightarrow> string \<Rightarrow> int \<Rightarrow> int \<Rightarrow> tagsst \<Rightarrow> (listing \<times> tagsst) res" where
  "tags_browse te db pid flag offset cnt st =
     (if flag = ''meta'' then tags_browsemeta te db pid st else browse_children te db pid offset cnt st)"

section \<open>What a selection selects\<close>

lemma join_cond_set: "t \<in> set (join_cond db (tb, v) ts) \<longleftrightarrow> t \<in> set ts \<and> (tr_docidx t, v) \<in> set (db_junct db tb)"
  by (auto simp: join_cond_def filter_empty_conv)

lemma fold_join_set:
  "t \<in> set (fold (join_cond db) cs ts) \<longleftrightarrow> t \<in> set ts \<and> list_all (\<lambda>(tb, v). (tr_docidx t, v) \<in> set (db_junct db tb)) cs"
proof (induction cs arbitrary: ts)
  case (Cons c cs)
  then show ?case by (cases c) (simp add: join_cond_set conj_assoc)
qed simp

lemma selected_set:
  "selected db s = Inr ts \<Longrightarrow>
     t \<in> set ts \<longleftrightarrow> t \<in> set (db_tracks db) \<and> under (sl_path s) (tr_path t) \<and>
       list_all (\<lambda>(tb, v). (tr_docidx t, v) \<in> set (db_junct db tb)) (sl_conds s)"
  by (auto simp: selected_def fold_join_set split: if_splits)

lemma sql_like_prefix: "CHR ''%'' \<notin> set p \<Longrightarrow> CHR ''_'' \<notin> set p \<Longrightarrow> sql_like (p @ ''%'') (p @ s)"
proof (induction p)
  case Nil
  show ?case by (induction s) simp_all
next
  case (Cons c p)
  then show ?case by (cases "c = CHR ''%'' \<or> c = CHR ''_''") auto
qed

lemma values_of_set: "v \<in> set (values_of db tb ts) \<longleftrightarrow> (\<exists>t \<in> set ts. (tr_docidx t, v) \<in> set (db_junct db tb))"
  by (force simp: values_of_def)

lemma one_per_value_subset: "set (one_per_value rs) \<subseteq> set rs"
  by (induction rs rule: one_per_value.induct) auto

lemma one_per_value_complete: "(i, v) \<in> set rs \<Longrightarrow> \<exists>j. (j, v) \<in> set (one_per_value rs)"
proof (induction rs rule: one_per_value.induct)
  case (2 r rs)
  show ?case
  proof (cases "snd r = v")
    case True
    then show ?thesis by (cases r) auto
  next
    case False
    then have "(i, v) \<in> set (filter (\<lambda>q. snd q \<noteq> snd r) rs)" using "2.prems" by auto
    with 2 show ?thesis by auto
  qed
qed simp

lemma one_per_value_distinct: "distinct (map snd (one_per_value rs))"
proof (induction rs rule: one_per_value.induct)
  case (2 r rs)
  have "snd r \<notin> snd ` set (one_per_value (filter (\<lambda>q. snd q \<noteq> snd r) rs))"
    using one_per_value_subset [of "filter (\<lambda>q. snd q \<noteq> snd r) rs"] by auto
  with 2 show ?case by simp
qed simp

lemma column_values_sound: "(i, v) \<in> set (column_values db tb ts) \<Longrightarrow> i \<in> set (values_of db tb ts)"
  using one_per_value_subset by (fastforce simp: column_values_def)

section \<open>Paths\<close>

text \<open>A path that ends in a tag and the same path with a value of that tag after it.\<close>

lemma tags_walk_value:
  assumes "tags_walk tc i (q @ [elt]) col s0 = Inr (AtValues tb s)"
  shows "\<exists>s1. s = add_table tb s1 \<and> tags_walk tc i (q @ [elt, str_int n]) col s0 = Inr (AtContent (add_cond tb n s1))"
  using assms
proof (induction tc i q col s0 rule: tags_walk.induct)
  case (1 tc i col s)
  then show ?case
    by (auto simp: bindR_eq_Inr add_cond_def add_table_def split: if_splits)
next
  case (2 tc i e col s0)
  then show ?case by (auto simp: bindR_eq_Inr split: if_splits)
next
  case (3 tc i e v es col s0)
  then show ?case by (auto simp: bindR_eq_Inr split: if_splits)
qed

lemma selected_value:
  assumes "selected db (add_table tb s) = Inr ts" and "n \<in> set (values_of db tb ts)"
  shows "\<exists>ts'. selected db (add_cond tb n s) = Inr ts' \<and> ts' \<noteq> [] \<and>
    (\<forall>t. t \<in> set ts' \<longleftrightarrow> t \<in> set ts \<and> (tr_docidx t, n) \<in> set (db_junct db tb))"
proof -
  have d: "distinct (sl_tables (add_table tb s))" using assms(1) by (auto simp: selected_def split: if_splits)
  then obtain ts' where ts': "selected db (add_cond tb n s) = Inr ts'"
    by (auto simp: selected_def add_cond_def add_table_def)
  have iff: "t \<in> set ts' \<longleftrightarrow> t \<in> set ts \<and> (tr_docidx t, n) \<in> set (db_junct db tb)" for t
    using selected_set [OF ts', of t] selected_set [OF assms(1), of t] by (auto simp: add_cond_def add_table_def)
  obtain t where "t \<in> set ts" "(tr_docidx t, n) \<in> set (db_junct db tb)"
    using assms(2) by (auto simp: values_of_set)
  then have "t \<in> set ts'" by (simp add: iff)
  then show ?thesis using ts' iff by (intro exI [of _ ts']) auto
qed

lemma column_values_complete:
  assumes "aux_ok (db_aux db tb)" and "snd ` set (db_junct db tb) \<subseteq> aux_ids db tb"
    and "i \<in> set (values_of db tb ts)"
  shows "\<exists>v. (i, v) \<in> set (column_values db tb ts)"
proof -
  have "i \<in> aux_ids db tb" using assms(2,3) by (force simp: values_of_set)
  then obtain v where v: "(i, v) \<in> set (db_aux db tb)" by (auto simp: aux_ids_def)
  define rows where "rows = filter (\<lambda>(i, v). i \<in> set (values_of db tb ts)) (db_aux db tb)"
  have "(i, v) \<in> set rows" using v assms(3) by (simp add: rows_def)
  from one_per_value_complete [OF this] obtain j where j: "(j, v) \<in> set (one_per_value rows)" by blast
  then have "(j, v) \<in> set (db_aux db tb)" using one_per_value_subset by (fastforce simp: rows_def)
  then have "j = i" using v assms(1) by (metis aux_ok_def distinct_map inj_onD snd_conv prod.inject)
  then show ?thesis using j by (auto simp: column_values_def rows_def)
qed

text \<open>C7. Walking down the tags never ends in an empty list and loses no track: every value listed
  for a tag leads, when it is appended to the path, to a selection that is not empty; and in a
  consistent database a track of the selection that has a value for the tag is found again below
  the entry of this value.\<close>

theorem tag_values_lead_to_tracks:
  assumes "tags_walk (te_conf te) 0 (q @ [elt]) None (sel_all path) = Inr (AtValues tb s)"
    and "selected db s = Inr ts" and "tagsbrowse te db pid (q @ [elt]) path = Inr es"
    and "aux_ok (db_aux db tb)" and "snd ` set (db_junct db tb) \<subseteq> aux_ids db tb"
  shows "(\<forall>e \<in> set es. \<exists>i s' ts'. e ''id'' = Some (pid @ ''$'' @ str_int i) \<and>
       tags_walk (te_conf te) 0 (q @ [elt, str_int i]) None (sel_all path) = Inr (AtContent s') \<and>
       selected db s' = Inr ts' \<and> ts' \<noteq> [] \<and> set ts' \<subseteq> set ts) \<and>
    (\<forall>t \<in> set ts. \<forall>i. (tr_docidx t, i) \<in> set (db_junct db tb) \<longrightarrow>
       (\<exists>e \<in> set es. e ''id'' = Some (pid @ ''$'' @ str_int i)) \<and>
       (\<exists>s' ts'. tags_walk (te_conf te) 0 (q @ [elt, str_int i]) None (sel_all path) = Inr (AtContent s') \<and>
          selected db s' = Inr ts' \<and> t \<in> set ts'))"
proof -
  have es: "es = map (\<lambda>(i, v). direntry3 (pid @ ''$'' @ str_int i) pid v) (column_values db tb ts)"
    using assms(1-3) by (simp add: tagsbrowse_def show_values_def)
  have step: "\<exists>s' ts'. tags_walk (te_conf te) 0 (q @ [elt, str_int i]) None (sel_all path) = Inr (AtContent s') \<and>
      selected db s' = Inr ts' \<and> ts' \<noteq> [] \<and> (\<forall>t. t \<in> set ts' \<longleftrightarrow> t \<in> set ts \<and> (tr_docidx t, i) \<in> set (db_junct db tb))"
    if "i \<in> set (values_of db tb ts)" for i
  proof -
    obtain s1 where s1: "s = add_table tb s1"
        "tags_walk (te_conf te) 0 (q @ [elt, str_int i]) None (sel_all path) = Inr (AtContent (add_cond tb i s1))"
      using tags_walk_value [OF assms(1), of i] by blast
    with selected_value [of db tb s1 ts i] assms(2) that show ?thesis by blast
  qed
  show ?thesis
  proof (intro conjI ballI allI impI)
    fix e assume "e \<in> set es"
    then obtain i v where iv: "(i, v) \<in> set (column_values db tb ts)" "e = direntry3 (pid @ ''$'' @ str_int i) pid v"
      by (auto simp: es)
    from step [OF column_values_sound [OF iv(1)]]
    show "\<exists>i s' ts'. e ''id'' = Some (pid @ ''$'' @ str_int i) \<and>
        tags_walk (te_conf te) 0 (q @ [elt, str_int i]) None (sel_all path) = Inr (AtContent s') \<and>
        selected db s' = Inr ts' \<and> ts' \<noteq> [] \<and> set ts' \<subseteq> set ts"
      using iv(2) by (metis direntry3_fields(1) subsetI)
  next
    fix t i assume t: "t \<in> set ts" "(tr_docidx t, i) \<in> set (db_junct db tb)"
    then have i: "i \<in> set (values_of db tb ts)" by (auto simp: values_of_set)
    from column_values_complete [OF assms(4,5) i] obtain v where "(i, v) \<in> set (column_values db tb ts)" ..
    then show "\<exists>e \<in> set es. e ''id'' = Some (pid @ ''$'' @ str_int i)"
      by (intro bexI [of _ "direntry3 (pid @ ''$'' @ str_int i) pid v"]) (force simp: es)+
    show "\<exists>s' ts'. tags_walk (te_conf te) 0 (q @ [elt, str_int i]) None (sel_all path) = Inr (AtContent s') \<and>
        selected db s' = Inr ts' \<and> t \<in> set ts'"
      using step [OF i] t by blast
  qed
qed

definition demo_tagdb :: tagdb where
  "demo_tagdb = createsqdb\<lparr>
     db_tracks := [\<lparr>tr_docidx = 0, tr_album = 1, tr_trackno = 1, tr_title = ''a'', tr_path = ''/m/a''\<rparr>,
                   \<lparr>tr_docidx = 1, tr_album = 1, tr_trackno = 2, tr_title = ''b'', tr_path = ''/m/b''\<rparr>],
     db_aux := (\<lambda>tb. if tb = ''genre'' then [(1, ''Jazz''), (2, ''Folk'')] else []),
     db_junct := (\<lambda>tb. if tb = ''genre'' then [(0, 1), (1, 2)] else [])\<rparr>"

definition demo_tagsenv :: tagsenv where
  "demo_tagsenv = \<lparr>te_fs = demo_fs, te_httphp = ''h:1'', te_pprefix = ''/uprcl'', te_docs = [demo_doc, demo_doc],
     te_conf = snd (projr (prepareTags (demo_tags []) Map.empty)), te_prefix = ''0$uprcl$''\<rparr>"

theorem tag_values_lead_to_tracks_witness:
  "\<exists>es s' ts'. tagsbrowse demo_tagsenv demo_tagdb ''0$uprcl$=Genre'' [''=Genre''] [] = Inr es \<and>
     map (\<lambda>e. e ''tt'') es = [Some ''Folk'', Some ''Jazz''] \<and>
     tags_walk (te_conf demo_tagsenv) 0 [''=Genre'', str_int 2] None (sel_all []) = Inr (AtContent s') \<and>
     selected demo_tagdb s' = Inr ts' \<and>
     \<lparr>tr_docidx = 1, tr_album = 1, tr_trackno = 2, tr_title = ''b'', tr_path = ''/m/b''\<rparr> \<in> set ts'"
proof -
  let ?s = "\<lparr>sl_path = [], sl_conds = [], sl_tables = [''tracks_genres'']\<rparr>"
  let ?t = "\<lparr>tr_docidx = 1, tr_album = 1, tr_trackno = 2, tr_title = ''b'', tr_path = ''/m/b''\<rparr> :: track"
  have w: "tags_walk (te_conf demo_tagsenv) 0 ([] @ [''=Genre'']) None (sel_all []) = Inr (AtValues ''genre'' ?s)"
    by code_simp
  have sel: "selected demo_tagdb ?s = Inr (db_tracks demo_tagdb)" by code_simp
  have "map_sum id (map (\<lambda>e. e ''tt'')) (tagsbrowse demo_tagsenv demo_tagdb ''0$uprcl$=Genre'' ([] @ [''=Genre'']) []) =
      Inr [Some ''Folk'', Some ''Jazz'']"
    by code_simp
  then obtain es where es: "tagsbrowse demo_tagsenv demo_tagdb ''0$uprcl$=Genre'' ([] @ [''=Genre'']) [] = Inr es"
      "map (\<lambda>e. e ''tt'') es = [Some ''Folk'', Some ''Jazz'']"
    by (cases "tagsbrowse demo_tagsenv demo_tagdb ''0$uprcl$=Genre'' ([] @ [''=Genre'']) []") auto
  have ok: "aux_ok (db_aux demo_tagdb ''genre'')"
      "snd ` set (db_junct demo_tagdb ''genre'') \<subseteq> aux_ids demo_tagdb ''genre''"
    by (simp_all add: demo_tagdb_def aux_ok_def aux_ids_def)
  have t: "?t \<in> set (db_tracks demo_tagdb)" "(tr_docidx ?t, 2) \<in> set (db_junct demo_tagdb ''genre'')"
    by (simp_all add: demo_tagdb_def)
  show ?thesis
    using tag_values_lead_to_tracks [OF w sel es(1) ok, THEN conjunct2] t es by (metis append_Nil)
qed

section \<open>Track numbers of an album\<close>

definition number_of :: "entry \<Rightarrow> int option" where
  "number_of e = (case e ''upnp:originalTrackNumber'' of
                    None \<Rightarrow> None
                  | Some v \<Rightarrow> (case py_int v of Inl _ \<Rightarrow> None | Inr n \<Rightarrow> Some n))"

text \<open>A number that is missing counts as 1.\<close>

definition good_number :: "entry \<Rightarrow> bool" where
  "good_number e \<longleftrightarrow> e ''upnp:originalTrackNumber'' = None \<or> (\<exists>n. number_of e = Some n \<and> 0 < n)"

lemma number_of_set_trackno [simp]: "number_of (set_trackno n e) = Some n"
  by (simp add: number_of_def set_trackno_def)

lemma good_number_value:
  "good_number e \<Longrightarrow>
     \<exists>tn. 0 < tn \<and> (case e ''upnp:originalTrackNumber'' of None \<Rightarrow> Inr 1 | Some v \<Rightarrow> py_int v) = Inr tn"
  by (auto simp: good_number_def number_of_def split: option.splits sum.splits)

lemma renumber_good:
  assumes "list_all good_number es" and "\<And>k. tno = Some k \<Longrightarrow> 0 < k"
  shows "\<exists>ns. renumber tno es = Inr (map2 set_trackno ns es) \<and> length ns = length es \<and>
    sorted_wrt (<) ns \<and> list_all (\<lambda>n. 0 < n \<and> (\<forall>k. tno = Some k \<longrightarrow> k < n)) ns"
  using assms
proof (induction tno es rule: renumber.induct)
  case (1 tno)
  show ?case by simp
next
  case (2 tno e es)
  from good_number_value [of e] "2.prems"(1) obtain tn
    where tn: "0 < tn" "(case e ''upnp:originalTrackNumber'' of None \<Rightarrow> Inr 1 | Some v \<Rightarrow> py_int v) = Inr tn"
    by auto
  define n where "n = (case tno of None \<Rightarrow> tn | Some k \<Rightarrow> if k \<noteq> 0 then (if tn \<le> k then k + 1 else tn) else tn)"
  have n: "0 < n" "tno = Some k \<Longrightarrow> k < n" for k
    using tn(1) "2.prems"(2) by (auto simp: n_def split: option.splits)
  have "\<exists>ns. renumber (Some n) es = Inr (map2 set_trackno ns es) \<and> length ns = length es \<and>
      sorted_wrt (<) ns \<and> list_all (\<lambda>m. 0 < m \<and> (\<forall>k. Some n = Some k \<longrightarrow> k < m)) ns"
    using "2.IH" [OF n_def] "2.prems"(1) n(1) by simp
  then obtain ns where ns: "renumber (Some n) es = Inr (map2 set_trackno ns es)" "length ns = length es"
      "sorted_wrt (<) ns" "list_all (\<lambda>m. n < m) ns"
    by (auto simp: list_all_iff)
  show ?case
  proof (intro exI [of _ "n # ns"] conjI)
    show "renumber tno (e # es) = Inr (map2 set_trackno (n # ns) (e # es))"
      using tn(2) ns(1) by (simp add: Let_def n_def)
    show "list_all (\<lambda>m. 0 < m \<and> (\<forall>k. tno = Some k \<longrightarrow> k < m)) (n # ns)"
      using n ns(4) by (auto simp: list_all_iff)
  qed (use ns in \<open>auto simp: list_all_iff\<close>)
qed

lemma number_of_map2: "length ns = length es \<Longrightarrow> map number_of (map2 set_trackno ns es) = map Some ns"
  by (induction ns es rule: list_induct2) simp_all

text \<open>The track list of an album, several discs put together: when the track numbers of the
  documents are positive or missing, renumbering succeeds, changes nothing but the track numbers,
  and these strictly increase over the whole list, so that a control point that sorts by them
  keeps the discs in order.\<close>

theorem album_tracks_strictly_numbered:
  assumes "mapR (\<lambda>r. trackentries_all cmpentries_func te pid (album_tracks db r)) (albid2rawalbidssorted db albid) = Inr discs"
    and "list_all good_number (concat discs)"
  shows "\<exists>ns. trackentriesforalbum te db albid pid = Inr (map2 set_trackno ns (concat discs)) \<and>
    map number_of (map2 set_trackno ns (concat discs)) = map Some ns \<and>
    length ns = length (concat discs) \<and> sorted_wrt (<) ns"
  using renumber_good [OF assms(2), of None] assms(1) number_of_map2
  by (auto simp: trackentriesforalbum_def)

definition demo_albumdb :: tagdb where
  "demo_albumdb = demo_tagdb\<lparr>
     db_albums := [demo_disc 1 ''/m/1'' (Some 2)\<lparr>al_alb := Some 3\<rparr>, demo_disc 2 ''/m/2'' (Some 1)\<lparr>al_alb := Some 3\<rparr>,
                   demo_disc 3 [] None\<lparr>al_alb := Some 3\<rparr>],
     db_tracks := [\<lparr>tr_docidx = 0, tr_album = 1, tr_trackno = 1, tr_title = ''a'', tr_path = ''/m/a''\<rparr>,
                   \<lparr>tr_docidx = 1, tr_album = 2, tr_trackno = 1, tr_title = ''b'', tr_path = ''/m/b''\<rparr>]\<rparr>"

theorem album_tracks_strictly_numbered_witness:
  "\<exists>discs ns. map (map (\<lambda>e. e ''id'')) discs = [[], [Some ''p$i1''], [Some ''p$i0'']] \<and>
     trackentriesforalbum demo_tagsenv demo_albumdb 3 ''p'' = Inr (map2 set_trackno ns (concat discs)) \<and>
     map number_of (map2 set_trackno ns (concat discs)) = [Some 1, Some 2]"
proof -
  let ?r = "mapR (\<lambda>r. trackentries_all cmpentries_func demo_tagsenv ''p'' (album_tracks demo_albumdb r))
      (albid2rawalbidssorted demo_albumdb 3)"
  have "map_sum id (\<lambda>ds. (map (map (\<lambda>e. (e ''id'', e ''upnp:originalTrackNumber''))) ds)) ?r =
      Inr [[], [(Some ''p$i1'', None)], [(Some ''p$i0'', None)]]"
    by code_simp
  then obtain discs where d: "?r = Inr discs" "map (map (\<lambda>e. (e ''id'', e ''upnp:originalTrackNumber''))) discs =
      [[], [(Some ''p$i1'', None)], [(Some ''p$i0'', None)]]"
    by (cases ?r) auto
  then have ids: "map (map (\<lambda>e. e ''id'')) discs = [[], [Some ''p$i1''], [Some ''p$i0'']]"
    by (auto simp: map_eq_Cons_conv)
  obtain e f where ef: "discs = [[], [e], [f]]" "e ''upnp:originalTrackNumber'' = None" "f ''upnp:originalTrackNumber'' = None"
    using d(2) by (auto simp: map_eq_Cons_conv)
  then have "list_all good_number (concat discs)" by (simp add: good_number_def)
  from album_tracks_strictly_numbered [OF d(1) this] obtain ns
    where ns: "trackentriesforalbum demo_tagsenv demo_albumdb 3 ''p'' = Inr (map2 set_trackno ns (concat discs))" by blast
  have "trackentriesforalbum demo_tagsenv demo_albumdb 3 ''p'' = Inr [set_trackno 1 e, set_trackno 2 f]"
    using d(1) ef by (simp add: trackentriesforalbum_def)
  then have "map number_of (map2 set_trackno ns (concat discs)) = [Some 1, Some 2]" using ns by simp
  then show ?thesis using ids ns by (intro exI conjI)
qed

section \<open>The cache of totals\<close>

text \<open>The queue lists the statements of the cache from the oldest on; what is remembered of a
  statement is its total.\<close>

definition cache_inv :: "(string \<Rightarrow> nat) \<Rightarrow> tagsst \<Rightarrow> bool" where
  "cache_inv tot st \<longleftrightarrow> map fst (ts_cache st) = ts_queue st \<and> distinct (ts_queue st) \<and>
     length (ts_queue st) \<le> stmt_cnt_cachesize \<and> list_all (\<lambda>(k, n). n = tot k) (ts_cache st)"

lemma stmt_total_cached:
  assumes "cache_inv tot st" and "tot stmt = length rows"
  shows "\<exists>st'. stmt_total stmt rows st = Inr (length rows, st') \<and> cache_inv tot st'"
proof (cases "map_of (ts_cache st) stmt")
  case (Some n)
  then have "(stmt, n) \<in> set (ts_cache st)" by (rule map_of_SomeD)
  then have "n = length rows" using assms by (auto simp: cache_inv_def list_all_iff)
  then show ?thesis using Some assms(1) by (simp add: stmt_total_def)
next
  case None
  then have fresh: "stmt \<notin> fst ` set (ts_cache st)" by (simp add: map_of_eq_None_iff)
  then have new: "stmt \<notin> set (ts_queue st)" using assms(1) by (metis cache_inv_def list.set_map)
  obtain q qs where q: "ts_queue st @ [stmt] = q # qs" by (cases "ts_queue st @ [stmt]") auto
  define cache where "cache = AList.update stmt (length rows) (ts_cache st)"
  have cache: "cache = ts_cache st @ [(stmt, length rows)]"
    unfolding cache_def by (rule dict_set_new [OF fresh])
  have keys: "map fst cache = q # qs" using assms(1) q by (simp add: cache cache_inv_def)
  have dist: "distinct (q # qs)" unfolding q [symmetric] using assms(1) new by (simp add: cache_inv_def)
  have vals: "list_all (\<lambda>(k, n). n = tot k) cache" using assms by (simp add: cache cache_inv_def)
  have len: "length (ts_queue st) = length qs" "length (ts_queue st) \<le> stmt_cnt_cachesize"
    using arg_cong [OF q, of length] assms(1) by (simp_all add: cache_inv_def)
  have rem: "removeAll q qs = qs" using dist by (simp add: removeAll_id)
  have "list_all (\<lambda>(k, n). n = tot k) (AList.delete q cache)"
    using vals by (auto simp: list_all_iff AList.delete_eq)
  moreover have "has_key cache q" using keys by (cases cache) (auto simp: has_key_iff)
  ultimately show ?thesis
  proof (cases "stmt_cnt_cachesize < length (q # qs)")
    case True
    have "stmt_total stmt rows st = Inr (length rows, st\<lparr>ts_cache := AList.delete q cache, ts_queue := qs\<rparr>)"
      unfolding stmt_total_def Let_def q cache_def [symmetric] using None True \<open>has_key cache q\<close> by simp
    moreover have "map fst (AList.delete q cache) = qs" by (simp add: delete_keys keys rem)
    ultimately show ?thesis
      using \<open>list_all (\<lambda>(k, n). n = tot k) (AList.delete q cache)\<close> dist len by (simp add: cache_inv_def)
  next
    case False
    then have "stmt_total stmt rows st = Inr (length rows, st\<lparr>ts_cache := cache, ts_queue := q # qs\<rparr>)"
      unfolding stmt_total_def Let_def q cache_def [symmetric] using None by simp
    then show ?thesis using keys dist vals False by (simp add: cache_inv_def)
  qed
qed

definition items_stmt :: string where
  "items_stmt = ''SELECT docidx FROM tracks ''"

lemma slice_rows_range:
  "0 \<le> offset \<Longrightarrow> 0 < cnt \<Longrightarrow> slice_rows offset cnt rows = Inr (take (nat cnt) (drop (nat offset) rows))"
  by (simp add: slice_rows_def)

lemma browse_items_eq:
  "tags_browse te db (te_prefix te @ ''items'') ''children'' offset cnt st =
     trackentriesforstmt cmpitems_func te items_stmt (map tr_docidx (db_tracks db)) (te_prefix te @ ''items'') offset cnt st"
  by (simp add: tags_browse_def browse_children_def dobrowse_def items_stmt_def under_def)

text \<open>The list of all tracks, asked for by range: a library of less than 1000 tracks is sent
  whole, sorted by title; a larger one as the asked range of the rows, with the right total; and
  the bounded cache of totals keeps its order, its bound and right totals.\<close>

theorem items_listing:
  assumes "cache_inv tot st" and "tot items_stmt = length (db_tracks db)"
    and "0 \<le> offset" and "0 < cnt"
    and "\<And>t. t \<in> set (db_tracks db) \<Longrightarrow>
      track_entry te (te_prefix te @ ''items$i'' @ str_int (tr_docidx t)) (te_prefix te @ ''items'') (tr_docidx t) =
        Inr (ent (tr_docidx t))"
  shows "\<exists>l st'. tags_browse te db (te_prefix te @ ''items'') ''children'' offset cnt st = Inr (l, st') \<and>
    cache_inv tot st' \<and>
    (if length (db_tracks db) < 1000
     then \<exists>es. l = Whole es \<and> mset es = mset (map (ent \<circ> tr_docidx) (db_tracks db)) \<and> sorted_wrt items_order.le es
     else l = Slice offset (length (db_tracks db))
                (map (ent \<circ> tr_docidx) (take (nat cnt) (drop (nat offset) (db_tracks db)))))"
proof -
  let ?rows = "map tr_docidx (db_tracks db)"
  obtain st' where st': "stmt_total items_stmt ?rows st = Inr (length ?rows, st')" "cache_inv tot st'"
    using stmt_total_cached [OF assms(1), of items_stmt ?rows] assms(2) by auto
  have mk: "mapR (\<lambda>d. track_entry te ((te_prefix te @ ''items'') @ ''$i'' @ str_int d) (te_prefix te @ ''items'') d)
      (map tr_docidx ts) = Inr (map ent (map tr_docidx ts))" if "set ts \<subseteq> set (db_tracks db)" for ts
    by (rule mapR_total) (use that assms(5) in auto)
  have range: "set (take (nat cnt) (drop (nat offset) (db_tracks db))) \<subseteq> set (db_tracks db)"
    by (meson order_trans set_drop_subset set_take_subset)
  obtain es where es: "sortR cmpitems_func (map ent ?rows) = Inr es" "sorted_wrt items_order.le es"
    using items_order.sort_sorted [of "map ent ?rows"] by auto
  show ?thesis
    using st' assms(3,4) mk [OF range] mk [OF subset_refl] es sortR_mset [OF es(1)]
    by (auto simp: browse_items_eq trackentriesforstmt_def slice_rows_range slice_rows_def [of 0 0]
        take_map drop_map comp_def)
qed

theorem items_listing_witness:
  "\<exists>es st. tags_browse demo_tagsenv demo_tagdb ''0$uprcl$items'' ''children'' 0 100 Tagged_init = Inr (Whole es, st) \<and>
     length es = 2 \<and> sorted_wrt items_order.le es"
proof -
  let ?te = demo_tagsenv and ?f = "\<lambda>t. track_entry demo_tagsenv (te_prefix demo_tagsenv @ ''items$i'' @ str_int (tr_docidx t))
      (te_prefix demo_tagsenv @ ''items'') (tr_docidx t)"
  define ent where "ent d = (case ?f \<lparr>tr_docidx = d, tr_album = 0, tr_trackno = 0, tr_title = [], tr_path = []\<rparr> of
      Inr e \<Rightarrow> e)" for d
  have "list_all (\<lambda>t. is_ok (?f t)) (db_tracks demo_tagdb)" by code_simp
  then have ent: "?f t = Inr (ent (tr_docidx t))" if "t \<in> set (db_tracks demo_tagdb)" for t
    using that by (auto simp: ent_def list_all_iff is_ok_iff)
  have "cache_inv (\<lambda>_. 2) Tagged_init" by code_simp
  moreover have tracks: "length (db_tracks demo_tagdb) = 2" by (simp add: demo_tagdb_def)
  ultimately have "\<exists>l st. tags_browse ?te demo_tagdb (te_prefix ?te @ ''items'') ''children'' 0 100 Tagged_init = Inr (l, st) \<and>
      cache_inv (\<lambda>_. 2) st \<and>
      (if length (db_tracks demo_tagdb) < 1000
       then \<exists>es. l = Whole es \<and> mset es = mset (map (ent \<circ> tr_docidx) (db_tracks demo_tagdb)) \<and> sorted_wrt items_order.le es
       else l = Slice 0 (length (db_tracks demo_tagdb))
                  (map (ent \<circ> tr_docidx) (take (nat 100) (drop (nat 0) (db_tracks demo_tagdb)))))"
    by (intro items_listing ent) simp_all
  moreover have small: "(2 :: nat) < 1000" by simp
  ultimately obtain es st where r:
    "tags_browse ?te demo_tagdb (te_prefix ?te @ ''items'') ''children'' 0 100 Tagged_init = Inr (Whole es, st)"
    "mset es = mset (map (ent \<circ> tr_docidx) (db_tracks demo_tagdb))" "sorted_wrt items_order.le es"
    unfolding tracks if_P [OF small] by blast
  have "length es = 2" using arg_cong [OF r(2), of size] tracks by simp
  moreover have "te_prefix ?te @ ''items'' = ''0$uprcl$items''" by (simp add: demo_tagsenv_def)
  ultimately show ?thesis using r(1,3) by metis
qed

section \<open>The view of a folder by tags\<close>

lemma butlast_split_on: "c \<notin> set w \<Longrightarrow> butlast (split_on c (v @ c # w)) = split_on c v"
proof (induction v)
  case Nil
  then show ?case by (simp add: split_on_no_sep)
next
  case (Cons x v)
  have "split_on c (v @ c # w) \<noteq> []" "split_on c v \<noteq> []" by simp_all
  moreover obtain y ys z zs where "split_on c (v @ c # w) = y # ys" "split_on c v = z # zs"
    using calculation by (meson list.exhaust)
  ultimately show ?case using Cons by (auto split: if_splits)
qed

text \<open>Visiting the entry that hides the view of a folder and then, at the time \<open>t1\<close>, the view
  itself: within two seconds the view is empty, so that a control point that walks the whole tree
  does not walk it twice; later it is the tree of tags of the folder, and nothing is remembered.\<close>

theorem hidden_view:
  "bindR (browseFolder te db t0 (v @ ''$hchide'') ''$tagview.0$hchide'' folder st)
     (\<lambda>(l, st1). browseFolder te db t1 (v @ ''$hctags'') ''$tagview.0$hctags'' folder st1) =
   (if t1 < t0 + 2 then Inr (Whole [], st\<lparr>ts_hidden := (t0, v) # ts_hidden st\<rparr>)
    else whole (st\<lparr>ts_hidden := []\<rparr>) (rootentries te db (v @ ''$hctags$'') folder))"
proof -
  have "join_with ''$'' (butlast (split_on CHR ''$'' (v @ ''$hchide''))) = v"
    "join_with ''$'' (butlast (split_on CHR ''$'' (v @ ''$hctags''))) = v"
    using butlast_split_on [of "CHR ''$''" "''hchide''" v] butlast_split_on [of "CHR ''$''" "''hctags''" v] by simp_all
  then show ?thesis by (simp add: browseFolder_def)
qed

end
