(* ===== verification/Search.thy ===== *)
theory Search
  imports Tags Folders ConfStrings
begin

text \<open>
  Searching the local library, \<open>uprcl/uprclsearch.py\<close>: the translation of a UPnP search text into the
  query language of the index, and the entries made of what the query finds. A position in the text
  is the rest of the text from there. The main loop of the translation is a \<open>partial_function\<close>: None
  would be a text on which it never ends. The index is a parameter: the function from a query to the
  documents found, or None where the query raises.
\<close>

section \<open>Reading the text\<close>

text \<open>\<open>_readword\<close>: a word goes up to white space; a single character left after it is skipped too.\<close>

definition readword :: "string \<Rightarrow> string \<times> string" where
  "readword s =
     (let w = takeWhile (\<lambda>c. \<not> is_space c) s; rest = dropWhile (\<lambda>c. \<not> is_space c) s
      in (w, if length rest = 1 then [] else rest))"

text \<open>The loop of \<open>_parsestring\<close>, with its flags \<open>escape\<close> and \<open>instring\<close>: the text collected, and the
  rest after the closing quote, if there is one.\<close>

fun parse_quoted :: "bool \<Rightarrow> bool \<Rightarrow> string \<Rightarrow> string \<times> string option" where
  "parse_quoted escape instring [] = ([], None)"
| "parse_quoted escape True (c # s) =
     (if escape then
        (if c = CHR 0x22 then apfst ((@) [CHR 0x22]) (parse_quoted False False s)
         else apfst ((@) [CHR 0x5C, c]) (parse_quoted False True s))
      else if c = CHR 0x5C then parse_quoted True True s
      else apfst ((#) c) (parse_quoted False True s))"
| "parse_quoted escape False (c # s) =
     (if escape then apfst ((#) c) (parse_quoted False (c = CHR 0x22) s)
      else if c = CHR 0x5C then parse_quoted True False s
      else if c = CHR 0x22 then ([], Some s)
      else apfst ((#) c) (parse_quoted False False s))"

text \<open>Without a closing quote the position stays on the last character; with nothing after the opening
  quote the loop variable has no value.\<close>

definition parsestring :: "string \<Rightarrow> (string \<times> string list) res" where
  "parsestring s =
     (let (str, rest) = parse_quoted False False s in
      bindR (stringToStrings_dflt str) (\<lambda>tokens.
        case rest of
          Some r \<Rightarrow> Inr (r, tokens)
        | None \<Rightarrow> if s = [] then Inl UnboundLocalError else Inr ([last s], tokens)))"

section \<open>Clauses of the query\<close>

definition is_word :: "string \<Rightarrow> bool" where
  "is_word w \<longleftrightarrow> length (split_ws is_space w) = 1"

definition separatePhrasesAndWords :: "string list \<Rightarrow> string \<times> string list" where
  "separatePhrasesAndWords v = (join_with '','' (filter is_word v), filter (\<lambda>w. \<not> is_word w) v)"

definition searchClauses :: "bool \<Rightarrow> string \<Rightarrow> string \<Rightarrow> string \<Rightarrow> string list \<Rightarrow> string list" where
  "searchClauses neg field oper words phrases =
     (let minus = (if neg then [''-''] else []) in
      (if words \<noteq> [] then minus @ [field, oper, words] else []) @
      concat (map (\<lambda>ph. minus @ [field, oper, [CHR 0x22] @ ph @ [CHR 0x22]]) phrases))"

text \<open>Classes of objects are searched for as directories and as what is not a directory.\<close>

definition class_values :: "string list \<Rightarrow> string \<Rightarrow> bool \<Rightarrow> string list \<times> bool" where
  "class_values v oper neg =
     (if (oper = '':'' \<or> oper = ''='') \<and> length v = 1 then
        (if startswith (hd v) ''object.container'' then ([''inode/directory''], neg)
         else if startswith (hd v) ''object.item'' then ([''inode/directory''], True)
         else (v, neg))
      else (v, neg))"

text \<open>What is appended to the query: a title is also looked for in file names.\<close>

definition makeSearchExp :: "string list \<Rightarrow> string \<Rightarrow> string \<Rightarrow> bool \<Rightarrow> string list" where
  "makeSearchExp v0 field oper neg0 =
     (if oper = ''I'' then []
      else
        let (v, neg) = class_values v0 oper neg0;
            (swords, phrases) = separatePhrasesAndWords v;
            clause = (\<lambda>f. '' ('' # searchClauses neg f oper swords phrases @ ['')''])
        in if field = ''title''
           then [ '' ('' ] @ clause field @ [if neg then '' AND '' else '' OR ''] @ clause ''filename'' @ [ '') '' ]
           else clause field)"

definition fieldaliases :: "(string \<times> string) list" where
  "fieldaliases = [(''dc:creator'', ''upnp:artist'')]"

definition search_field :: "string \<Rightarrow> string option" where
  "search_field w =
     (let w = (case map_of fieldaliases w of Some a \<Rightarrow> a | None \<Rightarrow> w) in map_of upnp2rclfields w)"

section \<open>The translation\<close>

record tstate =
  st_out :: "string list"
  st_field :: string
  st_oper :: string
  st_neg :: bool

datatype tstep =
    Continue string tstate
  | Stop "string list option res"

text \<open>An unquoted word: an operator, a connective, or a field. An unknown field gives up.\<close>

definition word_step :: "string \<Rightarrow> string \<Rightarrow> tstate \<Rightarrow> tstep" where
  "word_step w0 rest st =
     (let w = py_lower w0 in
      if w = ''contains'' then Continue rest (st\<lparr>st_oper := '':''\<rparr>)
      else if w = ''doesnotcontain'' then Continue rest (st\<lparr>st_neg := True, st_oper := '':''\<rparr>)
      else if w = ''derivedfrom'' then Continue rest (st\<lparr>st_oper := '':''\<rparr>)
      else if w = ''exists'' then Continue rest (st\<lparr>st_oper := ''I''\<rparr>)
      else if w = ''true'' \<or> w = ''false'' then Continue rest st
      else if w = ''and'' then Continue rest st
      else if w = ''or'' then Continue rest (st\<lparr>st_out := st_out st @ [''OR'']\<rparr>)
      else if w = ''upnp:class'' then Continue rest (st\<lparr>st_field := ''mime''\<rparr>)
      else (case search_field w of
              Some f \<Rightarrow> Continue rest (st\<lparr>st_field := f\<rparr>)
            | None \<Rightarrow> Stop (Inr None)))"

definition only_spaces :: "string \<Rightarrow> bool" where
  "only_spaces s \<longleftrightarrow> s \<noteq> [] \<and> list_all is_space s"

definition translate_step :: "char \<Rightarrow> string \<Rightarrow> tstate \<Rightarrow> tstep" where
  "translate_step c s st =
     (if is_space c then Continue s st
      else if c = CHR ''*'' then
        (if 1 < length (st_out st) \<or> (length (st_out st) = 1 \<and> \<not> only_spaces (last (st_out st))) \<or>
            (s \<noteq> [] \<and> \<not> only_spaces s)
         then Stop (Inl (Raised ''If * is used it must be the only input''))
         else Stop (Inr (Some [''mime:*''])))
      else if c = CHR ''('' \<or> c = CHR '')'' then Continue s (st\<lparr>st_out := st_out st @ [[c]]\<rparr>)
      else if c = CHR ''>'' \<or> c = CHR ''<'' \<or> c = CHR ''='' then Continue s (st\<lparr>st_oper := st_oper st @ [c]\<rparr>)
      else if c = CHR 0x22 then
        (case parsestring s of
           Inl e \<Rightarrow> Stop (Inl e)
         | Inr (rest, v) \<Rightarrow>
             Continue rest \<lparr>st_out = st_out st @ makeSearchExp v (st_field st) (st_oper st) (st_neg st),
                            st_field = [], st_oper = [], st_neg = False\<rparr>)
      else (let (w, rest) = readword (c # s) in word_step w rest st))"

partial_function (option) translate_loop :: "string \<Rightarrow> tstate \<Rightarrow> string list option res option" where
  "translate_loop s st =
     (case s of
        [] \<Rightarrow> Some (Inr (Some (st_out st)))
      | c # r \<Rightarrow>
          (case translate_step c r st of
             Stop x \<Rightarrow> Some x
           | Continue s' st' \<Rightarrow> translate_loop s' st'))"

text \<open>White space is simplified first.\<close>

definition is_blank :: "char \<Rightarrow> bool" where
  "is_blank c \<longleftrightarrow> c \<in> {CHR 0x09, CHR 0x0A, CHR 0x0D, CHR 0x0C, CHR '' ''}"

lemma dropWhile_shorter [termination_simp]: "length (dropWhile P s) < Suc (length s)"
  using length_dropWhile_le [of P s] by simp

fun collapse :: "string \<Rightarrow> string" where
  "collapse [] = []"
| "collapse (c # s) =
     (if is_blank c then CHR '' '' # collapse (dropWhile is_blank s) else c # collapse s)"

definition tstart :: tstate where
  "tstart = \<lparr>st_out = [], st_field = [], st_oper = [], st_neg = False\<rparr>"

definition upnpsearchtorecoll :: "string \<Rightarrow> string option res option" where
  "upnpsearchtorecoll s =
     map_option (map_sum id (map_option (join_with '' ''))) (translate_loop (collapse s) tstart)"

section \<open>The search\<close>

text \<open>The results come in batches of \<open>arraysize\<close>; a smaller batch is the last one.\<close>

function batches :: "nat \<Rightarrow> 'a list \<Rightarrow> 'a list" where
  "batches n xs =
     (if n = 0 \<or> length xs < n then take n xs else take n xs @ batches n (drop n xs))"
  by pat_completeness auto
termination by (relation "measure (\<lambda>(n, xs). length xs)") auto

declare batches.simps [simp del]

record searchenv =
  se_tags :: tagsenv
  se_db :: tagdb
  se_folders :: folders
  se_query :: "string \<Rightarrow> doc list option"
  se_arraysize :: nat

text \<open>An empty entry, the only one without an identifier, is dropped.\<close>

definition result_entry :: "searchenv \<Rightarrow> string \<Rightarrow> doc \<Rightarrow> artcache \<Rightarrow> (entry option \<times> artcache) res" where
  "result_entry se inobjid doc cache =
     (let udi = d_val doc ''rcludi''; te = se_tags se in
      if startswith udi ''albid'' then bindR (direntryforalbid te (se_db se) (drop 5 udi)) (\<lambda>e. Inr (e, cache))
      else if startswith udi ''artid'' then bindR (direntryforartid te (se_db se) (drop 5 udi)) (\<lambda>e. Inr (e, cache))
      else bindR (objidfordoc (te_fs te) (se_folders se) doc) (\<lambda>i.
           bindR (rcldoctoentry (te_fs te) i inobjid (te_httphp te) (te_pprefix te) doc cache) (\<lambda>(e, cache).
             Inr (if e ''id'' = None then None else Some e, cache))))"

definition add_result :: "searchenv \<Rightarrow> string \<Rightarrow> doc \<Rightarrow> entry list \<times> artcache \<Rightarrow> (entry list \<times> artcache) res" where
  "add_result se inobjid doc ec =
     bindR (result_entry se inobjid doc (snd ec)) (\<lambda>(e, cache).
       Inr (case e of None \<Rightarrow> fst ec | Some e \<Rightarrow> fst ec @ [e], cache))"

definition dir_filter :: "string \<Rightarrow> string" where
  "dir_filter d = (if d \<noteq> [] \<and> d \<noteq> ''/'' then '' dir:'' @ [CHR 0x22] @ d @ [CHR 0x22] else [])"

definition run_query ::
  "searchenv \<Rightarrow> string \<Rightarrow> string \<Rightarrow> artcache \<Rightarrow> (entry list \<times> artcache) res" where
  "run_query se inobjid rcls cache =
     (case se_query se rcls of
        None \<Rightarrow> Inr ([], cache)
      | Some docs \<Rightarrow>
          if docs = [] then Inr ([], cache)
          else bindR (foldR (add_result se inobjid) (batches (se_arraysize se) docs) ([], cache)) (\<lambda>(es, cache).
               bindR (sortR cmpentries_func es) (\<lambda>es. Inr (es, cache))))"

definition uprcl_search :: "searchenv \<Rightarrow> string \<Rightarrow> string \<Rightarrow> artcache \<Rightarrow> (entry list \<times> artcache) res option" where
  "uprcl_search se inobjid upnps cache =
     map_option (\<lambda>r. bindR r (\<lambda>rcls.
       case rcls of
         None \<Rightarrow> Inr ([], cache)
       | Some rcls \<Rightarrow>
           if rcls = [] then Inr ([], cache)
           else bindR (dirpath (se_folders se) inobjid) (\<lambda>d.
                run_query se inobjid (rcls @ dir_filter d) cache)))
       (upnpsearchtorecoll upnps)"

section \<open>The translation always ends\<close>

lemma parse_quoted_shorter: "parse_quoted e i s = (str, Some r) \<Longrightarrow> length r < length s"
proof (induction e i s arbitrary: str rule: parse_quoted.induct)
  case (2 escape c s)
  then show ?case by (fastforce simp: apfst_def map_prod_def split: if_splits prod.splits)
next
  case (3 escape c s)
  then show ?case by (fastforce simp: apfst_def map_prod_def split: if_splits prod.splits)
qed simp

lemma parsestring_shorter: "parsestring s = Inr (r, v) \<Longrightarrow> length r \<le> length s"
  using parse_quoted_shorter [of False False s]
  by (auto simp: parsestring_def bindR_eq_Inr Suc_le_eq split: prod.splits option.splits if_splits)

lemma readword_shorter: "\<not> is_space c \<Longrightarrow> readword (c # s) = (w, r) \<Longrightarrow> length r \<le> length s"
  using length_dropWhile_le [of "\<lambda>c. \<not> is_space c" s] by (auto simp: readword_def Let_def split: if_splits)

lemma word_step_rest: "word_step w r st = Continue r' st' \<Longrightarrow> r' = r"
  by (auto simp: word_step_def Let_def split: if_splits option.splits)

lemma translate_step_shorter: "translate_step c s st = Continue s' st' \<Longrightarrow> length s' \<le> length s"
  by (auto simp: translate_step_def split: if_splits sum.splits prod.splits
      dest!: word_step_rest dest: parsestring_shorter readword_shorter)

lemma translate_loop_total: "\<exists>r. translate_loop s st = Some r"
proof (induction s arbitrary: st rule: length_induct)
  case (1 s)
  show ?case
  proof (cases s)
    case (Cons c r)
    then show ?thesis using 1 translate_step_shorter [of c r st]
      by (auto simp: translate_loop.simps [of "c # r"] less_Suc_eq_le split: tstep.splits)
  qed (simp add: translate_loop.simps)
qed

text \<open>C20. The translation of a search text ends on every text, the malformed ones included: the loop,
  whose position may step back by one character after an unterminated string, reaches a result.\<close>

theorem upnpsearchtorecoll_ends: "\<exists>r. upnpsearchtorecoll s = Some r"
  using translate_loop_total [of "collapse s" tstart] by (auto simp: upnpsearchtorecoll_def)

section \<open>What a search text means\<close>

text \<open>
  A search text as a list of its tokens, and how it may be written. The terms of a value are words
  and phrases; a phrase is written between escaped quotes. Connectives and operators are written in
  any case of letters. There is white space after a field, after an operator that is a word, and
  after a connective unless the text ends there; everywhere else it may be left out, and there may
  be any amount of it.
\<close>

datatype urel_op =
    Contains
  | DoesNotContain
  | DerivedFrom
  | Compare string

datatype utok =
    UOpen
  | UClose
  | UAnd
  | UOr
  | URel string urel_op "string list"

definition gap :: "string \<Rightarrow> bool" where
  "gap g \<longleftrightarrow> list_all is_space g"

text \<open>An operator and the white space after it.\<close>

primrec op_written :: "urel_op \<Rightarrow> string \<Rightarrow> string \<Rightarrow> bool" where
  "op_written Contains k g \<longleftrightarrow> py_lower k = ''contains'' \<and> g \<noteq> []"
| "op_written DoesNotContain k g \<longleftrightarrow> py_lower k = ''doesnotcontain'' \<and> g \<noteq> []"
| "op_written DerivedFrom k g \<longleftrightarrow> py_lower k = ''derivedfrom'' \<and> g \<noteq> []"
| "op_written (Compare cs) k g \<longleftrightarrow> k = cs"

primrec op_oper :: "urel_op \<Rightarrow> string" where
  "op_oper Contains = '':''"
| "op_oper DoesNotContain = '':''"
| "op_oper DerivedFrom = '':''"
| "op_oper (Compare cs) = cs"

definition op_neg :: "urel_op \<Rightarrow> bool" where
  "op_neg op \<longleftrightarrow> (case op of DoesNotContain \<Rightarrow> True | _ \<Rightarrow> False)"

definition term_text :: "string \<Rightarrow> string" where
  "term_text t = (if needs_quotes t then [CHR 0x5C, CHR 0x22] @ t @ [CHR 0x5C, CHR 0x22] else t)"

definition value_text :: "string list \<Rightarrow> string" where
  "value_text ts = [CHR 0x22] @ join_with '' '' (map term_text ts) @ [CHR 0x22]"

inductive tok_written :: "utok \<Rightarrow> string \<Rightarrow> bool" where
  tw_open: "tok_written UOpen ''(''"
| tw_close: "tok_written UClose '')''"
| tw_and: "py_lower w = ''and'' \<Longrightarrow> tok_written UAnd w"
| tw_or: "py_lower w = ''or'' \<Longrightarrow> tok_written UOr w"
| tw_rel: "gap g1 \<Longrightarrow> g1 \<noteq> [] \<Longrightarrow> gap g2 \<Longrightarrow> op_written op k g2 \<Longrightarrow>
     tok_written (URel f op ts) (f @ g1 @ k @ g2 @ value_text ts)"

inductive written :: "utok list \<Rightarrow> string \<Rightarrow> bool" where
  wr_end: "gap g \<Longrightarrow> written [] g"
| wr_tok: "gap g \<Longrightarrow> tok_written t w \<Longrightarrow> written ts s \<Longrightarrow>
     (t = UAnd \<or> t = UOr \<longrightarrow> s = [] \<or> is_space (hd s)) \<Longrightarrow> written (t # ts) (g @ w @ s)"

inductive_cases tok_writtenE: "tok_written t w"

definition field_of :: "string \<Rightarrow> string option" where
  "field_of f = (if py_lower f = ''upnp:class'' then Some ''mime'' else search_field (py_lower f))"

primrec meaning :: "utok \<Rightarrow> string list" where
  "meaning UOpen = [''('']"
| "meaning UClose = ['')'']"
| "meaning UAnd = []"
| "meaning UOr = [''OR'']"
| "meaning (URel f op ts) = makeSearchExp ts (the (field_of f)) (op_oper op) (op_neg op)"

definition special :: "char \<Rightarrow> bool" where
  "special c \<longleftrightarrow> c \<in> {CHR ''*'', CHR ''('', CHR '')'', CHR ''>'', CHR ''<'', CHR ''='', CHR 0x22}"

definition good_term :: "string \<Rightarrow> bool" where
  "good_term t \<longleftrightarrow> good_word t \<and> CHR 0x22 \<notin> set t \<and> CHR 0x5C \<notin> set t \<and> collapse t = t"

primrec good_tok :: "utok \<Rightarrow> bool" where
  "good_tok UOpen = True"
| "good_tok UClose = True"
| "good_tok UAnd = True"
| "good_tok UOr = True"
| "good_tok (URel f op ts) \<longleftrightarrow>
     f \<noteq> [] \<and> list_all (\<lambda>c. \<not> is_space c) f \<and> \<not> special (hd f) \<and> field_of f \<noteq> None \<and>
     (case op of Compare cs \<Rightarrow> cs \<noteq> [] \<and> list_all (\<lambda>c. c \<in> {CHR ''>'', CHR ''<'', CHR ''=''}) cs | _ \<Rightarrow> True) \<and>
     list_all good_term ts"

lemma translate_loop_Cons:
  "translate_loop (c # r) st =
     (case translate_step c r st of Stop x \<Rightarrow> Some x | Continue s' st' \<Rightarrow> translate_loop s' st')"
  by (subst translate_loop.simps) simp

lemma translate_loop_Nil [simp]: "translate_loop [] st = Some (Inr (Some (st_out st)))"
  by (simp add: translate_loop.simps)

lemma is_space_blank [simp]: "is_space CHR '' ''"
  by code_simp

lemma translate_loop_blank [simp]: "translate_loop (CHR '' '' # s) st = translate_loop s st"
  by (simp add: translate_loop_Cons translate_step_def)

lemma blank_is_space: "is_blank c \<Longrightarrow> is_space c"
  by (auto simp: is_blank_def is_space_def is_bspace_def)

lemma translate_loop_gap: "gap g \<Longrightarrow> translate_loop (g @ s) st = translate_loop s st"
  by (induction g) (simp_all add: gap_def translate_loop_Cons translate_step_def)

lemma gap_hd: "gap g \<Longrightarrow> g \<noteq> [] \<Longrightarrow> is_space (hd g)"
  by (cases g) (simp_all add: gap_def)

text \<open>A word is followed by white space or the end of the text.\<close>

lemma readword_word:
  assumes "list_all (\<lambda>c. \<not> is_space c) w" and "s = [] \<or> is_space (hd s)"
  shows "readword (w @ s) = (w, if length s = 1 then [] else s)"
proof -
  have "takeWhile (\<lambda>c. \<not> is_space c) s = []" "dropWhile (\<lambda>c. \<not> is_space c) s = s"
    using assms(2) by (cases s; simp)+
  then show ?thesis
    using assms(1) by (simp add: readword_def list_all_iff Let_def takeWhile_append2 dropWhile_append2)
qed

lemma translate_loop_word:
  assumes "w \<noteq> []" and "list_all (\<lambda>c. \<not> is_space c) w" and "\<not> special (hd w)"
    and "\<And>r. word_step w r st = Continue r st'" and "s = [] \<or> is_space (hd s)"
  shows "translate_loop (w @ s) st = translate_loop s st'"
proof -
  obtain c w' where w: "w = c # w'" using assms(1) by (cases w) auto
  have "translate_step c (w' @ s) st = Continue (if length s = 1 then [] else s) st'"
    using assms(2-4) readword_word [OF assms(2,5)] by (simp add: w translate_step_def special_def)
  then have eq: "translate_loop (w @ s) st = translate_loop (if length s = 1 then [] else s) st'"
    by (simp add: w translate_loop_Cons [of c])
  show ?thesis
  proof (cases "length s = 1")
    case True
    then obtain d where "s = [d]" by (auto simp: length_Suc_conv)
    then show ?thesis using eq assms(5) translate_loop_gap [of "[d]" "[]" st'] by (simp add: gap_def)
  qed (simp add: eq)
qed

text \<open>A keyword in any case of letters is a word that begins with a letter.\<close>

lemma lower_space: "is_space c \<Longrightarrow> lower_char c = c"
  by (auto simp: is_space_def is_bspace_def lower_char_def Let_def)

lemma lower_special: "special c \<Longrightarrow> lower_char c = c"
  by (auto simp: special_def lower_char_def Let_def)

lemma keyword_word:
  assumes "py_lower w = k" and "k \<noteq> []" and "list_all (\<lambda>c. \<not> is_space c) k" and "\<not> special (hd k)"
  shows "w \<noteq> []" and "list_all (\<lambda>c. \<not> is_space c) w" and "\<not> special (hd w)"
proof -
  show w: "w \<noteq> []" using assms(1,2) by (auto simp: py_lower_def)
  have "\<not> is_space c" if "c \<in> set w" for c
  proof
    assume "is_space c"
    then have "c \<in> set (py_lower w)" using that lower_space [of c] by (force simp: py_lower_def)
    then show False using assms(1,3) \<open>is_space c\<close> by (auto simp: list_all_iff)
  qed
  then show "list_all (\<lambda>c. \<not> is_space c) w" by (simp add: list_all_iff)
  have "hd k = lower_char (hd w)" using w assms(1) by (auto simp: py_lower_def hd_map)
  then show "\<not> special (hd w)" using assms(4) lower_special [of "hd w"] by auto
qed

lemma term_text_parse:
  assumes "good_term t"
  shows "parse_quoted False False (term_text t @ r) = apfst ((@) (quote_string t)) (parse_quoted False False r)"
proof -
  have plain: "parse_quoted False i (u @ r) = apfst ((@) u) (parse_quoted False i r)"
    if "CHR 0x22 \<notin> set u" "CHR 0x5C \<notin> set u" for u r i
    using that by (induction u; cases i) (auto simp: apfst_def map_prod_def split: prod.splits)
  have esc: "CHR 0x22 \<notin> set u \<Longrightarrow> CHR 0x5C \<notin> set u \<Longrightarrow> concat (map esc_char u) = u" for u
    by (induction u) (auto simp: esc_char_def)
  have same: "replace_char (CHR 0x22) [CHR 0x5C, CHR 0x22] (replace_char (CHR 0x5C) [CHR 0x5C, CHR 0x5C] t) = t"
    using assms esc [of t] unfolding escape_chars good_term_def by simp
  show ?thesis
    using assms same plain [of t False r] plain [of t True "[CHR 0x5C, CHR 0x22] @ r"]
    by (auto simp: term_text_def quote_string_def good_term_def apfst_def map_prod_def split: prod.splits)
qed

lemma value_text_parse:
  assumes "list_all good_term ts"
  shows "parse_quoted False False (join_with '' '' (map term_text ts) @ CHR 0x22 # r) = (stringsToString ts, Some r)"
  using assms
proof (induction ts)
  case Nil
  show ?case by (simp add: stringsToString_def)
next
  case (Cons t ts)
  show ?case
  proof (cases ts)
    case Nil
    then show ?thesis using Cons.prems term_text_parse [of t "CHR 0x22 # r"] by (simp add: stringsToString_def)
  next
    case (Cons u us)
    then show ?thesis
      using Cons.IH Cons.prems term_text_parse [of t "CHR '' '' # join_with '' '' (map term_text ts) @ CHR 0x22 # r"]
      by (simp add: stringsToString_def)
  qed
qed

lemma parsestring_value:
  assumes "list_all good_term ts"
  shows "parsestring (join_with '' '' (map term_text ts) @ CHR 0x22 # r) = Inr (r, ts)"
proof -
  have "list_all good_word ts" using assms by (auto simp: list_all_iff good_term_def)
  then show ?thesis
    using value_text_parse [OF assms] split_joined_words by (simp add: parsestring_def)
qed

lemma translate_loop_value:
  assumes "list_all good_term ts"
  shows "translate_loop (value_text ts @ s) st =
    translate_loop s \<lparr>st_out = st_out st @ makeSearchExp ts (st_field st) (st_oper st) (st_neg st),
                      st_field = [], st_oper = [], st_neg = False\<rparr>"
proof -
  have "\<not> is_space CHR 0x22" by code_simp
  then show ?thesis
    using parsestring_value [OF assms, of s] by (simp add: value_text_def translate_loop_Cons translate_step_def)
qed

lemma keyword_no_field:
  "search_field ''contains'' = None" "search_field ''doesnotcontain'' = None" "search_field ''derivedfrom'' = None"
  "search_field ''exists'' = None" "search_field ''true'' = None" "search_field ''false'' = None"
  "search_field ''and'' = None" "search_field ''or'' = None"
  by code_simp+

lemma word_step_field:
  assumes "field_of f = Some fld"
  shows "word_step f r st = Continue r (st\<lparr>st_field := fld\<rparr>)"
proof -
  have "py_lower f \<notin> {''contains'', ''doesnotcontain'', ''derivedfrom'', ''exists'', ''true'', ''false'', ''and'', ''or''}"
    using assms keyword_no_field by (auto simp: field_of_def split: if_splits)
  then show ?thesis using assms by (auto simp: word_step_def field_of_def Let_def split: if_splits)
qed

lemma translate_loop_compare:
  "list_all (\<lambda>c. c \<in> {CHR ''>'', CHR ''<'', CHR ''=''}) cs \<Longrightarrow>
     translate_loop (cs @ s) st = translate_loop s (st\<lparr>st_oper := st_oper st @ cs\<rparr>)"
proof (induction cs arbitrary: st)
  case (Cons c cs)
  have "\<not> is_space CHR ''<''" "\<not> is_space CHR ''>''" "\<not> is_space CHR ''=''" by code_simp+
  with Cons show ?case by (auto simp: translate_loop_Cons translate_step_def)
qed simp

lemma same_neg: "\<not> st_neg st \<Longrightarrow> st\<lparr>st_oper := x, st_neg := False\<rparr> = st\<lparr>st_oper := x\<rparr>"
  by (cases st) simp

lemma translate_loop_op:
  assumes "(case op of Compare cs \<Rightarrow> list_all (\<lambda>c. c \<in> {CHR ''>'', CHR ''<'', CHR ''=''}) cs | _ \<Rightarrow> True)"
    and "st_oper st = []" and "\<not> st_neg st" and "op_written op k g" and "gap g"
  shows "translate_loop (k @ g @ s) st = translate_loop s (st\<lparr>st_oper := op_oper op, st_neg := op_neg op\<rparr>)"
proof (cases op)
  case (Compare cs)
  then show ?thesis using assms translate_loop_compare [of cs "g @ s" st] translate_loop_gap [of g]
    by (simp add: op_neg_def same_neg)
next
  case Contains
  then have k: "py_lower k = ''contains''" "g \<noteq> []" using assms(4) by simp_all
  have "list_all (\<lambda>c. \<not> is_space c) ''contains''" "\<not> special (hd ''contains'')" by code_simp+
  note w = keyword_word [OF k(1) _ this]
  have "translate_loop (k @ g @ s) st = translate_loop (g @ s) (st\<lparr>st_oper := '':''\<rparr>)"
    using assms(5) k by (intro translate_loop_word) (simp_all add: w word_step_def gap_hd)
  then show ?thesis using assms(3,5) Contains by (simp add: translate_loop_gap op_neg_def same_neg)
next
  case DoesNotContain
  then have k: "py_lower k = ''doesnotcontain''" "g \<noteq> []" using assms(4) by simp_all
  have "list_all (\<lambda>c. \<not> is_space c) ''doesnotcontain''" "\<not> special (hd ''doesnotcontain'')" by code_simp+
  note w = keyword_word [OF k(1) _ this]
  have "translate_loop (k @ g @ s) st = translate_loop (g @ s) (st\<lparr>st_neg := True, st_oper := '':''\<rparr>)"
    using assms(5) k by (intro translate_loop_word) (simp_all add: w word_step_def gap_hd)
  then show ?thesis using assms(3,5) DoesNotContain by (cases st) (simp add: translate_loop_gap op_neg_def)
next
  case DerivedFrom
  then have k: "py_lower k = ''derivedfrom''" "g \<noteq> []" using assms(4) by simp_all
  have "list_all (\<lambda>c. \<not> is_space c) ''derivedfrom''" "\<not> special (hd ''derivedfrom'')" by code_simp+
  note w = keyword_word [OF k(1) _ this]
  have "translate_loop (k @ g @ s) st = translate_loop (g @ s) (st\<lparr>st_oper := '':''\<rparr>)"
    using assms(5) k by (intro translate_loop_word) (simp_all add: w word_step_def gap_hd)
  then show ?thesis using assms(3,5) DerivedFrom by (simp add: translate_loop_gap op_neg_def same_neg)
qed

definition tstate_at :: "string list \<Rightarrow> tstate" where
  "tstate_at out = \<lparr>st_out = out, st_field = [], st_oper = [], st_neg = False\<rparr>"

lemma translate_loop_tok:
  assumes "tok_written t w" and "good_tok t" and s: "t = UAnd \<or> t = UOr \<longrightarrow> s = [] \<or> is_space (hd s)"
  shows "translate_loop (w @ s) (tstate_at out) = translate_loop s (tstate_at (out @ meaning t))"
  using assms(1)
proof cases
  case (tw_rel g1 g2 op k f ts)
  then obtain fld where f: "f \<noteq> []" "list_all (\<lambda>c. \<not> is_space c) f" "\<not> special (hd f)" "field_of f = Some fld"
      "(case op of Compare cs \<Rightarrow> list_all (\<lambda>c. c \<in> {CHR ''>'', CHR ''<'', CHR ''=''}) cs | _ \<Rightarrow> True)"
      "list_all good_term ts"
    using assms(2) by (auto split: urel_op.splits)
  let ?s = "k @ g2 @ value_text ts @ s"
  have "g1 @ ?s = [] \<or> is_space (hd (g1 @ ?s))"
    using tw_rel(3,4) by (simp add: gap_def hd_append list_all_iff)
  note word = translate_loop_word [OF f(1-3) word_step_field [OF f(4)] this]
  have "translate_loop (w @ s) (tstate_at out) = translate_loop (g1 @ ?s) (tstate_at out\<lparr>st_field := fld\<rparr>)"
    using word by (simp add: tw_rel(2))
  also have "\<dots> = translate_loop ?s (tstate_at out\<lparr>st_field := fld\<rparr>)"
    by (rule translate_loop_gap [OF tw_rel(3)])
  also have "\<dots> = translate_loop (value_text ts @ s)
      (tstate_at out\<lparr>st_field := fld, st_oper := op_oper op, st_neg := op_neg op\<rparr>)"
    using translate_loop_op [OF f(5) _ _ tw_rel(6,5), of "tstate_at out\<lparr>st_field := fld\<rparr>" "value_text ts @ s"]
    by (simp add: tstate_at_def)
  also have "\<dots> = translate_loop s (tstate_at (out @ meaning t))"
    using f(4) by (simp add: translate_loop_value [OF f(6)] tstate_at_def tw_rel(1))
  finally show ?thesis .
next
  case tw_and
  have "list_all (\<lambda>c. \<not> is_space c) ''and''" "\<not> special (hd ''and'')" by code_simp+
  note w = keyword_word [OF tw_and(2) _ this]
  have "translate_loop (w @ s) (tstate_at out) = translate_loop s (tstate_at out)"
    using s tw_and by (intro translate_loop_word) (simp_all add: w word_step_def)
  then show ?thesis by (simp add: tw_and(1))
next
  case tw_or
  have "list_all (\<lambda>c. \<not> is_space c) ''or''" "\<not> special (hd ''or'')" by code_simp+
  note w = keyword_word [OF tw_or(2) _ this]
  have "translate_loop (w @ s) (tstate_at out) = translate_loop s (tstate_at (out @ [''OR'']))"
    using s tw_or by (intro translate_loop_word) (simp_all add: w word_step_def tstate_at_def)
  then show ?thesis by (simp add: tw_or(1))
next
  case tw_open
  have "\<not> is_space CHR ''(''" by code_simp
  then show ?thesis using tw_open by (simp add: translate_loop_Cons translate_step_def tstate_at_def)
next
  case tw_close
  have "\<not> is_space CHR '')''" by code_simp
  then show ?thesis using tw_close by (simp add: translate_loop_Cons translate_step_def tstate_at_def)
qed

lemma translate_loop_written:
  "written ts s \<Longrightarrow> list_all good_tok ts \<Longrightarrow>
     translate_loop s (tstate_at out) = Some (Inr (Some (out @ concat (map meaning ts))))"
proof (induction arbitrary: out rule: written.induct)
  case (wr_end g)
  then show ?case using translate_loop_gap [of g "[]"] by (simp add: tstate_at_def)
next
  case (wr_tok g t w ts s)
  then show ?case using translate_loop_tok [of t w s out] by (simp add: translate_loop_gap)
qed

text \<open>Simplifying white space leaves a text written as it was.\<close>

lemma collapse_same: "list_all (\<lambda>c. \<not> is_blank c) s \<Longrightarrow> collapse s = s"
  by (induction s) auto

lemma collapse_append_Cons: "\<not> is_blank c \<Longrightarrow> collapse (u @ c # s) = collapse u @ collapse (c # s)"
proof (induction u rule: collapse.induct)
  case (2 d u)
  show ?case
  proof (cases "is_blank d")
    case True
    have "dropWhile is_blank (u @ c # s) = dropWhile is_blank u @ c # s"
      using 2(3) by (induction u) simp_all
    then show ?thesis using True 2 by simp
  qed (use 2 in simp)
qed simp

lemma collapse_append:
  "u = [] \<or> \<not> is_blank (last u) \<or> s = [] \<or> \<not> is_blank (hd s) \<Longrightarrow> collapse (u @ s) = collapse u @ collapse s"
proof -
  have *: "\<not> is_blank c \<Longrightarrow> collapse ((u @ [c]) @ s) = collapse (u @ [c]) @ collapse s" for u c
    using collapse_append_Cons [of c u s] collapse_append_Cons [of c u "[]"] by simp
  show ?thesis if "u = [] \<or> \<not> is_blank (last u) \<or> s = [] \<or> \<not> is_blank (hd s)"
  proof (cases "s = [] \<or> \<not> is_blank (hd s)")
    case True
    then show ?thesis using collapse_append_Cons [of "hd s" u "tl s"] by (cases s) auto
  next
    case False
    then show ?thesis using that * [of "last u" "butlast u"] by (cases "u = []") auto
  qed
qed

lemma gap_collapse: "gap g \<Longrightarrow> gap (collapse g)" and collapse_empty: "collapse g = [] \<longleftrightarrow> g = []"
proof -
  have "set (collapse g) \<subseteq> insert CHR '' '' (set g)"
    by (induction g rule: collapse.induct) (auto dest: set_dropWhileD)
  then show "gap g \<Longrightarrow> gap (collapse g)" by (auto simp: gap_def list_all_iff)
  show "collapse g = [] \<longleftrightarrow> g = []" by (cases g) simp_all
qed

lemma hd_collapse: "s \<noteq> [] \<Longrightarrow> is_space (hd s) \<Longrightarrow> is_space (hd (collapse s))"
  by (cases s) simp_all

lemma term_text_collapse:
  assumes "good_term t"
  shows "collapse (term_text t) = term_text t" and "term_text t \<noteq> []" and "\<not> is_blank (last (term_text t))"
proof -
  have q: "\<not> is_blank CHR 0x5C" "\<not> is_blank CHR 0x22" by code_simp+
  have t: "t \<noteq> []" "collapse t = t" using assms by (auto simp: good_term_def good_word_def)
  have plain: "list_all (\<lambda>c. \<not> is_blank c) t" if "\<not> needs_quotes t"
  proof -
    have "CHR '' '' \<notin> set (collapse u) \<Longrightarrow> list_all (\<lambda>c. \<not> is_blank c) u" for u
      by (induction u rule: collapse.induct) (auto split: if_splits)
    then show ?thesis using that t(2) by (metis needs_quotes_def)
  qed
  show "collapse (term_text t) = term_text t"
    using t(2) q collapse_append [of t "[CHR 0x5C, CHR 0x22]"] by (simp add: term_text_def)
  show "term_text t \<noteq> []" using t(1) by (simp add: term_text_def)
  show "\<not> is_blank (last (term_text t))"
    using t(1) q plain by (auto simp: term_text_def list_all_iff)
qed

lemma value_text_collapse: "list_all good_term ts \<Longrightarrow> collapse (value_text ts) = value_text ts"
proof -
  have q: "\<not> is_blank CHR 0x22" by code_simp
  have sp: "is_blank CHR '' ''" by code_simp
  have hd: "\<not> is_blank (hd (term_text t))" if "good_term t" for t
  proof -
    have "collapse (term_text t) = term_text t" "term_text t \<noteq> []" using term_text_collapse [OF that] by simp_all
    moreover have "\<not> is_blank (hd t)" if "\<not> needs_quotes t"
    proof
      assume "is_blank (hd t)"
      then have "hd (collapse t) = CHR '' ''" "t \<noteq> []" using \<open>good_term t\<close> by (cases t; simp add: good_term_def good_word_def)+
      then have "CHR '' '' \<in> set t" using \<open>good_term t\<close> by (metis good_term_def hd_in_set)
      then show False using that by (simp add: needs_quotes_def)
    qed
    ultimately show ?thesis by (auto simp: term_text_def is_blank_def)
  qed
  have "collapse (join_with '' '' (map term_text ts)) = join_with '' '' (map term_text ts)" if "list_all good_term ts"
    using that
  proof (induction ts)
    case (Cons t ts)
    show ?case
    proof (cases ts)
      case Nil
      then show ?thesis using Cons.prems term_text_collapse(1) by simp
    next
      case (Cons u us)
      let ?j = "join_with '' '' (map term_text ts)"
      have u: "good_term t" "good_term u" using Cons.prems \<open>ts = u # us\<close> by simp_all
      have "hd ?j = hd (term_text u)" "?j \<noteq> []"
        using \<open>ts = u # us\<close> term_text_collapse(2) [OF u(2)] by (cases us; simp)+
      then have "dropWhile is_blank ?j = ?j" using hd [OF u(2)] by (cases ?j) auto
      then have "collapse (CHR '' '' # ?j) = CHR '' '' # ?j" using Cons.IH Cons.prems sp by simp
      then show ?thesis
        using collapse_append [of "term_text t" "CHR '' '' # ?j"] term_text_collapse [OF u(1)] \<open>ts = u # us\<close> by simp
    qed
  qed simp
  then show "list_all good_term ts \<Longrightarrow> ?thesis"
    using q collapse_append [of "join_with '' '' (map term_text ts)" "[CHR 0x22]"] by (simp add: value_text_def)
qed

text \<open>What is written of a token begins and ends with a character that is not white space.\<close>

lemma nonblank_word: "list_all (\<lambda>c. \<not> is_space c) w \<Longrightarrow> list_all (\<lambda>c. \<not> is_blank c) w"
  using blank_is_space by (auto simp: list_all_iff)

lemma op_written_plain:
  assumes "op_written op k g"
    and "(case op of Compare cs \<Rightarrow> cs \<noteq> [] \<and> list_all (\<lambda>c. c \<in> {CHR ''>'', CHR ''<'', CHR ''=''}) cs | _ \<Rightarrow> True)"
  shows "list_all (\<lambda>c. \<not> is_blank c) k" and "k \<noteq> []"
proof -
  have p: "\<not> is_blank CHR ''>''" "\<not> is_blank CHR ''<''" "\<not> is_blank CHR ''=''"
    "list_all (\<lambda>c. \<not> is_space c) ''contains''" "\<not> special (hd ''contains'')"
    "list_all (\<lambda>c. \<not> is_space c) ''doesnotcontain''" "\<not> special (hd ''doesnotcontain'')"
    "list_all (\<lambda>c. \<not> is_space c) ''derivedfrom''" "\<not> special (hd ''derivedfrom'')"
    by code_simp+
  have "list_all (\<lambda>c. \<not> is_blank c) k \<and> k \<noteq> []"
  proof (cases op)
    case (Compare cs)
    then have k: "k = cs" "cs \<noteq> []" "list_all (\<lambda>c. c \<in> {CHR ''>'', CHR ''<'', CHR ''=''}) cs" using assms by simp_all
    have "list_all (\<lambda>c. \<not> is_blank c) cs" by (rule list.pred_mono_strong [OF k(3)]) (use p(1-3) in auto)
    then show ?thesis using k by simp
  next
    case Contains
    then have "py_lower k = ''contains''" using assms(1) by simp
    from keyword_word(1,2) [OF this _ p(4,5)] show ?thesis using nonblank_word by simp
  next
    case DoesNotContain
    then have "py_lower k = ''doesnotcontain''" using assms(1) by simp
    from keyword_word(1,2) [OF this _ p(6,7)] show ?thesis using nonblank_word by simp
  next
    case DerivedFrom
    then have "py_lower k = ''derivedfrom''" using assms(1) by simp
    from keyword_word(1,2) [OF this _ p(8,9)] show ?thesis using nonblank_word by simp
  qed
  then show "list_all (\<lambda>c. \<not> is_blank c) k" and "k \<noteq> []" by simp_all
qed

lemma tok_written_collapse:
  assumes "tok_written t w" and "good_tok t"
  shows "tok_written t (collapse w)" and "w \<noteq> []" and "\<not> is_blank (hd w)" and "\<not> is_blank (last w)"
proof -
  have p: "\<not> is_blank CHR ''(''" "\<not> is_blank CHR '')''" "\<not> is_blank CHR 0x22"
    "list_all (\<lambda>c. \<not> is_space c) ''and''" "\<not> special (hd ''and'')"
    "list_all (\<lambda>c. \<not> is_space c) ''or''" "\<not> special (hd ''or'')"
    by code_simp+
  have "tok_written t (collapse w) \<and> w \<noteq> [] \<and> \<not> is_blank (hd w) \<and> \<not> is_blank (last w)"
    using assms(1)
  proof cases
    case (tw_rel g1 g2 op k f ts)
    have f: "f \<noteq> []" "list_all (\<lambda>c. \<not> is_blank c) f" and ts: "list_all good_term ts"
      and op: "(case op of Compare cs \<Rightarrow> cs \<noteq> [] \<and> list_all (\<lambda>c. c \<in> {CHR ''>'', CHR ''<'', CHR ''=''}) cs | _ \<Rightarrow> True)"
      using assms(2) nonblank_word [of f] by (simp_all add: tw_rel(1))
    note k = op_written_plain [OF tw_rel(6) op]
    have ends: "\<not> is_blank (last f)" "\<not> is_blank (hd f)" "\<not> is_blank (last k)" "\<not> is_blank (hd k)"
      using f k by (simp_all add: list_all_iff)
    have v: "value_text ts \<noteq> []" "hd (value_text ts) = CHR 0x22" "last (value_text ts) = CHR 0x22"
      by (simp_all add: value_text_def)
    have "collapse w = f @ collapse g1 @ k @ collapse g2 @ value_text ts"
      unfolding tw_rel(2) using ends v(2) p(3) k(2)
      by (simp add: collapse_append collapse_same [OF f(2)] collapse_same [OF k(1)] value_text_collapse [OF ts])
    moreover have "op_written op k (collapse g2)"
      using tw_rel(6) by (cases op) (simp_all add: collapse_empty)
    ultimately have "tok_written t (collapse w)"
      using tw_rel(3-5) tok_written.tw_rel [of "collapse g1" "collapse g2" op k f ts]
      by (simp add: tw_rel(1) gap_collapse collapse_empty)
    then show ?thesis using f(1) v ends(2) p(3) by (simp add: tw_rel(2))
  next
    case tw_and
    note w = keyword_word [OF tw_and(2) _ p(4,5)]
    have "list_all (\<lambda>c. \<not> is_blank c) w" by (rule nonblank_word) (simp add: w)
    then show ?thesis using w(1) tw_and by (auto simp: collapse_same list_all_iff intro: tok_written.intros)
  next
    case tw_or
    note w = keyword_word [OF tw_or(2) _ p(6,7)]
    have "list_all (\<lambda>c. \<not> is_blank c) w" by (rule nonblank_word) (simp add: w)
    then show ?thesis using w(1) tw_or by (auto simp: collapse_same list_all_iff intro: tok_written.intros)
  qed (use p in \<open>auto intro: tok_written.intros\<close>)
  then show "tok_written t (collapse w)" and "w \<noteq> []" and "\<not> is_blank (hd w)" and "\<not> is_blank (last w)" by simp_all
qed

lemma written_collapse: "written ts s \<Longrightarrow> list_all good_tok ts \<Longrightarrow> written ts (collapse s)"
proof (induction rule: written.induct)
  case (wr_end g)
  then show ?case by (simp add: written.wr_end gap_collapse)
next
  case (wr_tok g t w ts s)
  then have "good_tok t" by simp
  note w = tok_written_collapse [OF wr_tok(2) this]
  have "collapse (g @ w @ s) = collapse g @ collapse w @ collapse s"
    using w(2-4) by (simp add: collapse_append)
  moreover have "t = UAnd \<or> t = UOr \<longrightarrow> collapse s = [] \<or> is_space (hd (collapse s))"
    using wr_tok(4) hd_collapse [of s] by (auto simp: collapse_empty)
  ultimately show ?case
    using wr_tok w(1) written.wr_tok [of "collapse g" t "collapse w" ts "collapse s"] by (simp add: gap_collapse)
qed

text \<open>C3. The translation of a search text that is built of relations, connectives and parentheses,
  with any white space where the grammar allows it and none where it may be left out: every relation
  becomes its clauses, with its own field, operator and negation; what one relation sets does not
  leak into the next; the connectives and parentheses are kept in place. Fields, connectives and
  operators match in any case of letters; values are lists of words and of phrases between escaped
  quotes.\<close>

theorem upnpsearchtorecoll_meaning:
  assumes "written ts s" and "list_all good_tok ts"
  shows "upnpsearchtorecoll s = Some (Inr (Some (join_with '' '' (concat (map meaning ts)))))"
  using translate_loop_written [OF written_collapse [OF assms] assms(2), of "[]"]
  by (simp add: upnpsearchtorecoll_def tstart_def tstate_at_def)

definition demo_toks :: "utok list" where
  "demo_toks = [UOpen, URel ''upnp:class'' DerivedFrom [''object.container.album''], UClose, UAnd,
     URel ''dc:title'' DoesNotContain [''b c'', ''d''], UOr, URel ''UPNP:artist'' (Compare ''='') [''e'']]"

definition demo_text :: string where
  "demo_text = ''(upnp:class derivedFrom '' @ [CHR 0x22] @ ''object.container.album'' @ [CHR 0x22] @ '')and dc:title  doesNotContain '' @
     [CHR 0x22, CHR 0x5C, CHR 0x22] @ ''b c'' @ [CHR 0x5C, CHR 0x22] @ '' d'' @ [CHR 0x22, CHR 0x0A] @ ''OR UPNP:artist ='' @
     [CHR 0x22] @ ''e'' @ [CHR 0x22]"

lemma demo_text_written: "written demo_toks demo_text"
proof -
  have g: "gap []" "gap '' ''" "gap ''  ''" "gap [CHR 0x0A]" by code_simp+
  have l: "py_lower ''derivedFrom'' = ''derivedfrom''" "py_lower ''doesNotContain'' = ''doesnotcontain''"
    "py_lower ''and'' = ''and''" "py_lower ''OR'' = ''or''"
    by code_simp+
  have sp: "is_space CHR '' ''" by code_simp
  note rel = tok_written.tw_rel
  have r1: "tok_written (URel ''upnp:class'' DerivedFrom [''object.container.album''])
      (''upnp:class'' @ '' '' @ ''derivedFrom'' @ '' '' @ value_text [''object.container.album''])"
    by (rule rel [OF g(2) _ g(2)]) (simp_all add: l)
  have r2: "tok_written (URel ''dc:title'' DoesNotContain [''b c'', ''d''])
      (''dc:title'' @ ''  '' @ ''doesNotContain'' @ '' '' @ value_text [''b c'', ''d''])"
    by (rule rel [OF g(3) _ g(2)]) (simp_all add: l)
  have r3: "tok_written (URel ''UPNP:artist'' (Compare ''='') [''e'']) (''UPNP:artist'' @ '' '' @ ''='' @ [] @ value_text [''e''])"
    by (rule rel [OF g(2) _ g(1)]) simp_all
  note w7 = written.wr_tok [OF g(2) r3 written.wr_end [OF g(1)]]
  note w6 = written.wr_tok [OF g(4) tok_written.tw_or [OF l(4)] w7]
  note w5 = written.wr_tok [OF g(2) r2 w6]
  note w4 = written.wr_tok [OF g(1) tok_written.tw_and [OF l(3)] w5]
  note w3 = written.wr_tok [OF g(1) tok_written.tw_close w4]
  note w2 = written.wr_tok [OF g(1) r1 w3]
  note w1 = written.wr_tok [OF g(1) tok_written.tw_open w2]
  have "value_text [''object.container.album''] = [CHR 0x22] @ ''object.container.album'' @ [CHR 0x22]"
    "value_text [''b c'', ''d''] = [CHR 0x22, CHR 0x5C, CHR 0x22] @ ''b c'' @ [CHR 0x5C, CHR 0x22] @ '' d'' @ [CHR 0x22]"
    "value_text [''e''] = [CHR 0x22] @ ''e'' @ [CHR 0x22]"
    by code_simp+
  with w1 show ?thesis by (simp add: demo_toks_def demo_text_def sp)
qed

theorem upnpsearchtorecoll_meaning_witness:
  "upnpsearchtorecoll demo_text = Some (Inr (Some (join_with '' '' (concat (map meaning demo_toks))))) \<and>
   concat (map meaning demo_toks) =
     [''('', '' ('', ''mime'', '':'', ''inode/directory'', '')'', '')'',
      '' ('', '' ('', ''-'', ''title'', '':'', ''d'', ''-'', ''title'', '':'', CHR 0x22 # ''b c'' @ [CHR 0x22], '')'', '' AND '',
      '' ('', ''-'', ''filename'', '':'', ''d'', ''-'', ''filename'', '':'', CHR 0x22 # ''b c'' @ [CHR 0x22], '')'', '') '',
      ''OR'', '' ('', ''artist'', ''='', ''e'', '')'']"
proof
  have "list_all good_tok demo_toks" by code_simp
  with demo_text_written show "upnpsearchtorecoll demo_text = Some (Inr (Some (join_with '' '' (concat (map meaning demo_toks)))))"
    by (rule upnpsearchtorecoll_meaning)
qed code_simp

text \<open>Words are put in lower case before they are looked up, so a field whose name in the table has
  capitals is never found and the whole search is given up; and the operator that \<open>exists\<close> sets is
  still there at the next comparison.\<close>

lemma search_capital_field: "search_field (py_lower ''upnp:originalTrackNumber'') = None"
  by code_simp

lemma exists_leaves_operator:
  "translate_loop (''exists'' @ CHR '' '' # ''true'' @ CHR '' '' # ''='' @ s) st =
   translate_loop s (st\<lparr>st_oper := ''I=''\<rparr>)"
proof -
  have w: "list_all (\<lambda>c. \<not> is_space c) ''exists''" "\<not> special (hd ''exists'')" "py_lower ''exists'' = ''exists''"
    "list_all (\<lambda>c. \<not> is_space c) ''true''" "\<not> special (hd ''true'')" "py_lower ''true'' = ''true''"
    by code_simp+
  have "translate_loop (''exists'' @ CHR '' '' # ''true'' @ CHR '' '' # ''='' @ s) st =
      translate_loop (CHR '' '' # ''true'' @ CHR '' '' # ''='' @ s) (st\<lparr>st_oper := ''I''\<rparr>)"
    by (rule translate_loop_word [OF _ w(1,2)]) (simp_all add: word_step_def w)
  also have "\<dots> = translate_loop (CHR '' '' # ''='' @ s) (st\<lparr>st_oper := ''I''\<rparr>)"
    by (subst translate_loop_blank, rule translate_loop_word [OF _ w(4,5)]) (simp_all add: word_step_def w)
  also have "\<dots> = translate_loop s (st\<lparr>st_oper := ''I=''\<rparr>)"
    by (subst translate_loop_blank, subst translate_loop_compare) simp_all
  finally show ?thesis .
qed

end
