(* ===== verification/Playlists.thy ===== *)
theory Playlists
  imports Tags Folders Radios
begin

text \<open>
  The playlists and the untagged sections of the local library, \<open>uprcl/uprclplaylists.py\<close> and
  \<open>uprcl/uprcluntagged.py\<close>. Both keep the positions of their documents in the list of the index,
  with -1 at position 0, which stands for the root of the section; an identifier holds the position
  in this list. The list of radios is one more playlist, one beyond the others.
\<close>

section \<open>The playlists\<close>

record playlists =
  pl_docs :: "doc list"
  pl_idx :: "int list"
  pl_radios :: "entry list"

record plenv =
  pe_tags :: tagsenv
  pe_folders :: folders
  pe_readfile :: "string \<Rightarrow> string option"

definition pl_prefix :: string where
  "pl_prefix = ''0$uprcl$playlists''"

definition doc_entry :: "tagsenv \<Rightarrow> string \<Rightarrow> string \<Rightarrow> doc \<Rightarrow> entry res" where
  "doc_entry te i pid doc =
     bindR (rcldoctoentry (te_fs te) i pid (te_httphp te) (te_pprefix te) doc Map.empty) (\<lambda>(e, c). Inr e)"

definition recoll2playlists :: "doc list \<Rightarrow> int list" where
  "recoll2playlists docs =
     -1 # map int (filter (\<lambda>k. d_val (docs ! k) ''mtype'' = ''audio/x-mpegurl'') [0..<length docs])"

definition Playlists_init :: "conf \<Rightarrow> (string \<rightharpoonup> string) \<Rightarrow> radio list \<Rightarrow> doc list \<Rightarrow> playlists res" where
  "Playlists_init upconfig environ radios docs =
     (let idx = recoll2playlists docs; radiolistid = pl_prefix @ ''$p'' @ str_nat (length idx) in
      bindR (getOptionValue upconfig environ ''uprclnoradioconf'' None) (\<lambda>no.
      bindR (if valToBool (case no of None \<Rightarrow> [] | Some v \<Rightarrow> v) then Inr []
             else bindR (radio_iter radios) (mapR (radioToEntry radiolistid None))) (\<lambda>es.
        Inr \<lparr>pl_docs = docs, pl_idx = idx, pl_radios = es\<rparr>)))"

definition pl_rootentries :: "playlists \<Rightarrow> string \<Rightarrow> entry list" where
  "pl_rootentries pl pid = [direntry3 (pid @ ''playlists'') pid (str_nat (length (pl_idx pl)) @ '' playlists'')]"

text \<open>The playlist and the element that an identifier names; -1 stands for no element.\<close>

definition pl_objidtoidx :: "playlists \<Rightarrow> string \<Rightarrow> (int \<times> int) res" where
  "pl_objidtoidx pl objid =
     (if \<not> startswith objid pl_prefix then Inl (Raised ''playlists:browse: bad objid prefix'')
      else
        let path = drop (length pl_prefix) objid in
        bindR (if path = [] then Inr (0, -1)
               else bindR (nth_res path 1) (\<lambda>c.
                 if c \<noteq> CHR ''p'' then Inl (Raised ''playlists:browse: no $p'')
                 else (case py_find path ''$e'' of
                         Some epos \<Rightarrow>
                           bindR (py_int (drop 2 (take epos path))) (\<lambda>idx0.
                           bindR (py_int (drop (epos + 2) path)) (\<lambda>idx1. Inr (idx0, idx1)))
                       | None \<Rightarrow> bindR (py_int (drop 2 path)) (\<lambda>idx0. Inr (idx0, -1))))) (\<lambda>(idx0, idx1).
          if int (length (pl_idx pl)) < idx0 then Inl (Raised ''playlists:browse: not in range'')
          else Inr (idx0, idx1)))"

definition pl_title :: "doc \<Rightarrow> string" where
  "pl_title doc = (if d_val doc ''title'' \<noteq> [] then d_val doc ''title'' else d_val doc ''filename'')"

definition pl_container :: "int \<Rightarrow> string \<Rightarrow> entry" where
  "pl_container idx title =
     direntry (pl_prefix @ ''$p'' @ str_int idx) pl_prefix title None None
       (Some ''object.container.playlistContainer'') ''1'' None None"

definition idxtoentry :: "playlists \<Rightarrow> int \<Rightarrow> entry option res" where
  "idxtoentry pl idx =
     (if idx = int (length (pl_idx pl)) then Inr (Some (pl_container idx ''*Upmpdcli Radios*''))
      else if 1 \<le> idx \<and> idx < int (length (pl_idx pl)) then
        bindR (py_index (pl_docs pl) (pl_idx pl ! nat idx)) (\<lambda>doc. Inr (Some (pl_container idx (pl_title doc))))
      else Inr None)"

text \<open>The elements of a playlist. An element that names no document of the index is left out, as is
  the document at position 0, which is taken for none.\<close>

definition element_doc :: "plenv \<Rightarrow> playlists \<Rightarrow> string \<Rightarrow> string \<Rightarrow> doc option res" where
  "element_doc pe pl plpath url =
     (if urlRE_match url then Inr (Some (docforurl url))
      else bindR (statpath (te_fs (pe_tags pe)) (pe_folders pe) plpath url) (\<lambda>docidx.
             case docidx of
               None \<Rightarrow> Inr None
             | Some i \<Rightarrow> if i = 0 then Inr None else bindR (py_index (pl_docs pl) i) (\<lambda>d. Inr (Some d))))"

definition add_element :: "plenv \<Rightarrow> playlists \<Rightarrow> int \<Rightarrow> string \<Rightarrow> string \<Rightarrow> entry list \<Rightarrow> entry list res" where
  "add_element pe pl idx plpath url entries =
     bindR (element_doc pe pl plpath url) (\<lambda>d.
       case d of
         None \<Rightarrow> Inr entries
       | Some doc \<Rightarrow>
           (let pid = pl_prefix @ ''$p'' @ str_int idx in
            bindR (doc_entry (pe_tags pe) (pid @ ''$e'' @ str_nat (length entries)) pid doc) (\<lambda>e.
              Inr (if e ''id'' = None then entries else entries @ [e]))))"

definition playlistatidx :: "plenv \<Rightarrow> playlists \<Rightarrow> int \<Rightarrow> entry list res" where
  "playlistatidx pe pl idx =
     bindR (py_index (pl_idx pl) idx) (\<lambda>i.
     bindR (py_index (pl_docs pl) i) (\<lambda>pldoc.
       let plpath = docpath (te_fs (pe_tags pe)) pldoc in
       case pe_readfile pe plpath of
         None \<Rightarrow> Inr []
       | Some data \<Rightarrow> foldR (add_element pe pl idx plpath) (M3u plpath data) []))"

text \<open>The metadata of the root: the call passes the object itself as an argument too many.\<close>

definition pl_meta :: "plenv \<Rightarrow> playlists \<Rightarrow> int \<Rightarrow> int \<Rightarrow> entry option list res" where
  "pl_meta pe pl idx0 idx1 =
     (if idx0 = 0 then Inl TypeError
      else if idx0 < int (length (pl_idx pl)) then
        (if idx1 = -1 then bindR (idxtoentry pl idx0) (\<lambda>e. Inr [e])
         else bindR (playlistatidx pe pl idx0) (\<lambda>entries.
                Inr (if 0 \<le> idx1 \<and> idx1 < int (length entries) then [Some (entries ! nat idx1)] else [])))
      else if idx0 = int (length (pl_idx pl)) then
        (if idx1 = -1 then bindR (idxtoentry pl idx0) (\<lambda>e. Inr [e])
         else Inr (if 0 < idx1 \<and> idx1 < int (length (pl_radios pl)) then [Some (pl_radios pl ! nat idx1)] else []))
      else Inr [])"

definition pl_children :: "plenv \<Rightarrow> playlists \<Rightarrow> int \<Rightarrow> entry option list res" where
  "pl_children pe pl idx0 =
     (if idx0 = 0 then mapR (idxtoentry pl) (map int [1..<length (pl_idx pl) + 1])
      else if idx0 = int (length (pl_idx pl)) then Inr (map Some (pl_radios pl))
      else bindR (playlistatidx pe pl idx0) (\<lambda>es. Inr (map Some es)))"

definition pl_browse :: "plenv \<Rightarrow> playlists \<Rightarrow> string \<Rightarrow> string \<Rightarrow> entry option list res" where
  "pl_browse pe pl pid flag =
     bindR (pl_objidtoidx pl pid) (\<lambda>(idx0, idx1).
       if flag = ''meta'' then pl_meta pe pl idx0 idx1 else pl_children pe pl idx0)"

section \<open>The untagged tracks\<close>

definition ut_prefix :: string where
  "ut_prefix = ''0$uprcl$untagged''"

definition recoll2untagged :: "doc list \<Rightarrow> int list" where
  "recoll2untagged docs =
     -1 # map int (filter (\<lambda>k. d_val (docs ! k) ''mtype'' \<noteq> ''inode/directory'' \<and>
                               d_val (docs ! k) ''mtype'' \<noteq> ''audio/x-mpegurl'' \<and> d_val (docs ! k) ''title'' = [])
                    [0..<length docs])"

definition ut_objidtoidx :: "int list \<Rightarrow> string \<Rightarrow> int res" where
  "ut_objidtoidx utidx pid =
     (if \<not> startswith pid ut_prefix then Inl (Raised ''untagged:browse: bad pid'')
      else
        let path = drop (length ut_prefix) pid in
        bindR (if path = [] then Inr 0
               else bindR (nth_res path 1) (\<lambda>c.
                      if c \<noteq> CHR ''u'' then Inl (Raised ''untagged:browse: called on bad objid'')
                      else py_int (drop 2 path))) (\<lambda>idx.
          if int (length utidx) \<le> idx then Inl (Raised ''untagged:browse: bad pid'') else Inr idx))"

definition ut_rootentries :: "string \<Rightarrow> entry list" where
  "ut_rootentries pid = [direntry3 (pid @ ''untagged'') pid ''[untagged]'']"

definition ut_entry :: "tagsenv \<Rightarrow> int list \<Rightarrow> string \<Rightarrow> int \<Rightarrow> entry list res" where
  "ut_entry te utidx pid i =
     bindR (py_index utidx i) (\<lambda>d. bindR (py_index (te_docs te) d) (\<lambda>doc.
     bindR (doc_entry te (ut_prefix @ ''$u'' @ str_int i) pid doc) (\<lambda>e.
       Inr (if e ''id'' = None then [] else [e]))))"

definition ut_sorted :: "entry list \<Rightarrow> entry list res" where
  "ut_sorted es =
     bindR (mapR (\<lambda>e. map_get e ''tt'') es) (\<lambda>_. Inr (sort_key (\<lambda>e. py_lower (key_or_empty ''tt'' e)) es))"

definition ut_browse :: "tagsenv \<Rightarrow> int list \<Rightarrow> string \<Rightarrow> string \<Rightarrow> entry list res" where
  "ut_browse te utidx pid flag =
     bindR (ut_objidtoidx utidx pid) (\<lambda>idx.
       if idx = 0 then
         (if flag = ''meta'' then Inr (ut_rootentries ''0$uprcl$'')
          else bindR (mapR (ut_entry te utidx pid) (map int [1..<length utidx])) (\<lambda>es. ut_sorted (concat es)))
       else bindR (ut_entry te utidx pid idx) ut_sorted)"

section \<open>Identifiers lead back\<close>

lemma str_int_of_nat [simp]: "str_int (int n) = str_nat n"
  by (simp add: str_int_def)

lemma doc_entry_id: "doc_entry te i pid doc = Inr e \<Longrightarrow> e ''id'' = Some k \<Longrightarrow> k = i"
  by (auto simp: doc_entry_def rcldoctoentry_def bindR_eq_Inr finish_entry_keeps Let_def split: if_splits)

definition element_id :: "int \<Rightarrow> nat \<Rightarrow> string" where
  "element_id idx j = pl_prefix @ ''$p'' @ str_int idx @ ''$e'' @ str_nat j"

definition numbered :: "int \<Rightarrow> entry list \<Rightarrow> bool" where
  "numbered idx es \<longleftrightarrow> (\<forall>j < length es. (es ! j) ''id'' = Some (element_id idx j))"

lemma add_element_numbered:
  assumes "add_element pe pl idx plpath url es = Inr es'" and "numbered idx es"
  shows "numbered idx es'"
proof -
  have "es' = es \<or> (\<exists>e doc. es' = es @ [e] \<and> e ''id'' \<noteq> None \<and>
      doc_entry (pe_tags pe) (element_id idx (length es)) (pl_prefix @ ''$p'' @ str_int idx) doc = Inr e)"
    using assms(1) by (auto simp: add_element_def bindR_eq_Inr element_id_def Let_def split: option.splits if_splits)
  then have "es' = es \<or> (\<exists>e. es' = es @ [e] \<and> e ''id'' = Some (element_id idx (length es)))"
    using doc_entry_id by fast
  then show ?thesis using assms(2) by (auto simp: numbered_def nth_append less_Suc_eq)
qed

lemma playlistatidx_numbered:
  assumes "playlistatidx pe pl idx = Inr es"
  shows "numbered idx es"
proof -
  obtain plpath where p: "es = [] \<or> (\<exists>data. foldR (add_element pe pl idx plpath) (M3u plpath data) [] = Inr es)"
    using assms by (auto simp: playlistatidx_def bindR_eq_Inr Let_def split: option.splits)
  show ?thesis
  proof (cases "es = []")
    case False
    with p obtain data where f: "foldR (add_element pe pl idx plpath) (M3u plpath data) [] = Inr es" by auto
    show ?thesis
      by (rule foldR_invariant [OF _ _ f, of "numbered idx"]) (auto simp: numbered_def [of _ "[]"] intro: add_element_numbered)
  qed (simp add: numbered_def)
qed

lemma objidtoidx_element:
  assumes "0 \<le> idx" and "idx \<le> int (length (pl_idx pl))"
  shows "pl_objidtoidx pl (element_id idx j) = Inr (idx, int j)"
    and "pl_objidtoidx pl (pl_prefix @ ''$p'' @ str_int idx) = Inr (idx, -1)"
proof -
  have find: "py_find (CHR ''$'' # CHR ''p'' # str_int idx @ ''$e'' @ w) ''$e'' = Some (length (str_int idx) + 2)" for w
    using py_find_append_notin [of "CHR ''$''" "CHR ''p'' # str_int idx" "CHR ''e'' # w" "''e''"] by simp
  have none: "py_find (CHR ''$'' # CHR ''p'' # str_int idx) ''$e'' = None"
    by (simp add: py_find_notin)
  show "pl_objidtoidx pl (element_id idx j) = Inr (idx, int j)"
    using find [of "str_nat j"] assms py_int_str_int [of "int j"]
    by (simp add: pl_objidtoidx_def element_id_def nth_res_def)
  show "pl_objidtoidx pl (pl_prefix @ ''$p'' @ str_int idx) = Inr (idx, -1)"
    using none assms by (simp add: pl_objidtoidx_def nth_res_def)
qed

text \<open>C30. The identifiers of a playlist lead back: every element listed for a playlist is found again
  under the identifier it was listed with; elements of the file that were left out, because they
  name no document, do not shift the identifiers of those after them.\<close>

theorem playlist_identifiers:
  assumes "1 \<le> n" and "n < length (pl_idx pl)"
    and "pl_browse pe pl (pl_prefix @ ''$p'' @ str_nat n) ''children'' = Inr es"
  shows "\<forall>j < length es. \<exists>e i. es ! j = Some e \<and> e ''id'' = Some i \<and> pl_browse pe pl i ''meta'' = Inr [Some e]"
proof -
  have b: "pl_objidtoidx pl (pl_prefix @ ''$p'' @ str_nat n) = Inr (int n, -1)"
    using objidtoidx_element(2) [of "int n" pl] assms(2) by simp
  then obtain es0 where es: "playlistatidx pe pl (int n) = Inr es0" "es = map Some es0"
    using assms by (auto simp: pl_browse_def pl_children_def bindR_eq_Inr)
  show ?thesis
  proof (intro allI impI)
    fix j assume j: "j < length es"
    then have "(es0 ! j) ''id'' = Some (element_id (int n) j)"
      using playlistatidx_numbered [OF es(1)] by (simp add: numbered_def es(2))
    moreover have "pl_browse pe pl (element_id (int n) j) ''meta'' = Inr [Some (es0 ! j)]"
      using objidtoidx_element(1) [of "int n" pl j] assms(1,2) es j by (simp add: pl_browse_def pl_meta_def)
    ultimately show "\<exists>e i. es ! j = Some e \<and> e ''id'' = Some i \<and> pl_browse pe pl i ''meta'' = Inr [Some e]"
      using j es(2) by simp
  qed
qed

definition demo_pldoc :: doc where
  "demo_pldoc = \<lparr>d_val = (\<lambda>k. if k = ''mtype'' then ''audio/x-mpegurl'' else if k = ''url'' then ''file:///m/l.m3u'' else []),
     d_binurl = []\<rparr>"

definition demo_playlists :: playlists where
  "demo_playlists = \<lparr>pl_docs = [demo_doc, demo_pldoc], pl_idx = recoll2playlists [demo_doc, demo_pldoc], pl_radios = []\<rparr>"

definition demo_plenv :: plenv where
  "demo_plenv = \<lparr>pe_tags = demo_tagsenv,
     pe_folders = \<lparr>fo_rcldocs = [demo_doc, demo_pldoc], fo_moredocs = [], fo_dirvec = init_root [''/m''], fo_playlists = []\<rparr>,
     pe_readfile = (\<lambda>p. Some (''http://r/a'' @ [CHR 0x0A] @ ''missing'' @ [CHR 0x0A] @ ''http://r/b''))\<rparr>"

theorem playlist_identifiers_witness:
  "\<exists>e. pl_browse demo_plenv demo_playlists ''0$uprcl$playlists$p1$e1'' ''meta'' = Inr [Some e] \<and> e ''tt'' = Some ''b''"
proof -
  let ?r = "pl_browse demo_plenv demo_playlists (pl_prefix @ ''$p'' @ str_nat 1) ''children''"
  have "map_sum id (map (map_option (\<lambda>e. (e ''id'', e ''tt'')))) ?r =
      Inr [Some (Some ''0$uprcl$playlists$p1$e0'', Some ''a''), Some (Some ''0$uprcl$playlists$p1$e1'', Some ''b'')]"
    by code_simp
  then obtain es where es: "?r = Inr es" "map (map_option (\<lambda>e. (e ''id'', e ''tt''))) es =
      [Some (Some ''0$uprcl$playlists$p1$e0'', Some ''a''), Some (Some ''0$uprcl$playlists$p1$e1'', Some ''b'')]"
    by (cases ?r) auto
  have "1 < length (pl_idx demo_playlists)" by code_simp
  note lead = playlist_identifiers [OF le_refl this es(1), rule_format, of 1]
  obtain a b where ab: "es = [Some a, Some b]" "b ''id'' = Some ''0$uprcl$playlists$p1$e1''" "b ''tt'' = Some ''b''"
    using es(2) by (auto simp: map_eq_Cons_conv)
  then show ?thesis using lead by auto
qed

text \<open>The first radio is listed, but its identifier is refused.\<close>

lemma radio_0_refused:
  "pl_browse pe pl (element_id (int (length (pl_idx pl))) 0) ''meta'' = (if pl_idx pl = [] then Inl TypeError else Inr [])"
  using objidtoidx_element(1) [of "int (length (pl_idx pl))" pl 0] by (simp add: pl_browse_def pl_meta_def)

end
