(* ===== verification/RwLock.thy ===== *)
theory RwLock
  imports Main
begin

text \<open>
  The lock for many readers and one writer, \<open>uprcl/rwlock.py\<close>, as a step relation. The state holds the
  owner of the mutex of the condition variable, the count of readers, and for every thread where it
  is in the methods: a thread steps from one statement to the next, and any thread may step at any
  time. The mutex and the condition behave as Python documents: \<open>acquire\<close> waits until the mutex is
  free, \<open>wait\<close> frees it and blocks until \<open>notifyAll\<close>, then takes it again.
\<close>

datatype place =
    Idle
  | ReadAcquire
  | ReadCount
  | ReadUnlock
  | Reading
  | UnreadAcquire
  | UnreadCount
  | UnreadUnlock
  | WriteAcquire
  | WriteTest
  | WriteWait
  | WriteNotified
  | Writing

record rwlock =
  rw_owner :: "nat option"
  rw_readers :: int
  rw_at :: "nat \<Rightarrow> place"

definition ReadWriteLock_init :: rwlock where
  "ReadWriteLock_init = \<lparr>rw_owner = None, rw_readers = 0, rw_at = (\<lambda>_. Idle)\<rparr>"

abbreviation goto :: "nat \<Rightarrow> place \<Rightarrow> rwlock \<Rightarrow> rwlock" where
  "goto t p s \<equiv> s\<lparr>rw_at := (rw_at s)(t := p)\<rparr>"

text \<open>\<open>notifyAll\<close>: every waiting thread may go on once it gets the mutex.\<close>

definition notifyAll :: "rwlock \<Rightarrow> rwlock" where
  "notifyAll s = s\<lparr>rw_at := (\<lambda>t. if rw_at s t = WriteWait then WriteNotified else rw_at s t)\<rparr>"

text \<open>The body of \<open>release_read\<close>, with the mutex held\<close>

definition release_read_body :: "rwlock \<Rightarrow> rwlock" where
  "release_read_body s =
     (let s = s\<lparr>rw_readers := rw_readers s - 1\<rparr> in if rw_readers s = 0 then notifyAll s else s)"

section \<open>The steps\<close>

inductive read_step :: "nat \<Rightarrow> rwlock \<Rightarrow> rwlock \<Rightarrow> bool" where
  acquire_read: "rw_at s t = Idle \<Longrightarrow> read_step t s (goto t ReadAcquire s)"
| read_acquire: "rw_at s t = ReadAcquire \<Longrightarrow> rw_owner s = None \<Longrightarrow>
    read_step t s (goto t ReadCount (s\<lparr>rw_owner := Some t\<rparr>))"
| read_count: "rw_at s t = ReadCount \<Longrightarrow>
    read_step t s (goto t ReadUnlock (s\<lparr>rw_readers := rw_readers s + 1\<rparr>))"
| read_unlock: "rw_at s t = ReadUnlock \<Longrightarrow> read_step t s (goto t Reading (s\<lparr>rw_owner := None\<rparr>))"
| release_read: "rw_at s t = Reading \<Longrightarrow> read_step t s (goto t UnreadAcquire s)"
| unread_acquire: "rw_at s t = UnreadAcquire \<Longrightarrow> rw_owner s = None \<Longrightarrow>
    read_step t s (goto t UnreadCount (s\<lparr>rw_owner := Some t\<rparr>))"
| unread_count: "rw_at s t = UnreadCount \<Longrightarrow> read_step t s (goto t UnreadUnlock (release_read_body s))"
| unread_unlock: "rw_at s t = UnreadUnlock \<Longrightarrow> read_step t s (goto t Idle (s\<lparr>rw_owner := None\<rparr>))"

inductive write_step :: "nat \<Rightarrow> rwlock \<Rightarrow> rwlock \<Rightarrow> bool" where
  acquire_write: "rw_at s t = Idle \<Longrightarrow> write_step t s (goto t WriteAcquire s)"
| write_acquire: "rw_at s t = WriteAcquire \<Longrightarrow> rw_owner s = None \<Longrightarrow>
    write_step t s (goto t WriteTest (s\<lparr>rw_owner := Some t\<rparr>))"
| write_wait: "rw_at s t = WriteTest \<Longrightarrow> 0 < rw_readers s \<Longrightarrow>
    write_step t s (goto t WriteWait (s\<lparr>rw_owner := None\<rparr>))"
| write_wake: "rw_at s t = WriteNotified \<Longrightarrow> rw_owner s = None \<Longrightarrow>
    write_step t s (goto t WriteTest (s\<lparr>rw_owner := Some t\<rparr>))"
| write_enter: "rw_at s t = WriteTest \<Longrightarrow> \<not> 0 < rw_readers s \<Longrightarrow> write_step t s (goto t Writing s)"
| release_write: "rw_at s t = Writing \<Longrightarrow> write_step t s (goto t Idle (s\<lparr>rw_owner := None\<rparr>))"

definition rw_step :: "nat \<Rightarrow> rwlock \<Rightarrow> rwlock \<Rightarrow> bool" where
  "rw_step t s s' \<longleftrightarrow> read_step t s s' \<or> write_step t s s'"

inductive rw_reach :: "rwlock \<Rightarrow> bool" where
  start: "rw_reach ReadWriteLock_init"
| step: "rw_reach s \<Longrightarrow> rw_step t s s' \<Longrightarrow> rw_reach s'"


section \<open>The invariant\<close>

text \<open>The places at which a thread holds the mutex, and those at which it is counted as a reader\<close>

definition has_mutex :: "place \<Rightarrow> bool" where
  "has_mutex p \<longleftrightarrow> p \<in> {ReadCount, ReadUnlock, UnreadCount, UnreadUnlock, WriteTest, Writing}"

definition counted :: "place \<Rightarrow> bool" where
  "counted p \<longleftrightarrow> p \<in> {ReadUnlock, Reading, UnreadAcquire, UnreadCount}"

definition readers_of :: "rwlock \<Rightarrow> nat set" where
  "readers_of s = {t. counted (rw_at s t)}"

definition rw_inv :: "rwlock \<Rightarrow> bool" where
  "rw_inv s \<longleftrightarrow> finite (readers_of s) \<and> rw_readers s = int (card (readers_of s)) \<and>
     (\<forall>t. has_mutex (rw_at s t) \<longleftrightarrow> rw_owner s = Some t) \<and>
     (\<forall>t. rw_at s t = WriteWait \<longrightarrow> 0 < rw_readers s) \<and>
     (\<forall>t. rw_at s t = Writing \<longrightarrow> rw_readers s = 0)"

lemmas place_simps = has_mutex_def counted_def

lemma readers_goto:
  "readers_of (s\<lparr>rw_at := (rw_at s)(t := p)\<rparr>) = (if counted p then insert t (readers_of s) else readers_of s - {t})"
  by (auto simp: readers_of_def)

lemma readers_update [simp]:
  "readers_of (s\<lparr>rw_owner := x\<rparr>) = readers_of s" "readers_of (s\<lparr>rw_readers := n\<rparr>) = readers_of s"
  by (simp_all add: readers_of_def)

lemma notifyAll_facts [simp]:
  "rw_owner (notifyAll s) = rw_owner s" "rw_readers (notifyAll s) = rw_readers s"
  "readers_of (notifyAll s) = readers_of s" "rw_at (notifyAll s) t \<noteq> WriteWait"
  "has_mutex (rw_at (notifyAll s) t) = has_mutex (rw_at s t)"
  "rw_at (notifyAll s) t = Writing \<longleftrightarrow> rw_at s t = Writing"
  by (auto simp: notifyAll_def readers_of_def place_simps)

lemma rw_inv_init: "rw_inv ReadWriteLock_init"
  by (simp add: rw_inv_def ReadWriteLock_init_def readers_of_def place_simps)

lemma rw_invD:
  assumes "rw_inv s"
  shows "finite (readers_of s)" "rw_readers s = int (card (readers_of s))"
    "has_mutex (rw_at s t) \<longleftrightarrow> rw_owner s = Some t" "rw_at s t = WriteWait \<Longrightarrow> 0 < rw_readers s"
    "rw_at s t = Writing \<Longrightarrow> rw_readers s = 0"
  using assms by (auto simp: rw_inv_def)

lemma mem_readers: "t \<in> readers_of s \<longleftrightarrow> counted (rw_at s t)"
  by (simp add: readers_of_def)

text \<open>A thread \<open>t\<close> that moves to \<open>p\<close>: what is to be shown of the new state.\<close>

lemma rw_inv_move:
  assumes "rw_inv s" and "rw_at s' = (rw_at s)(t := p)"
    and "has_mutex p \<longleftrightarrow> rw_owner s' = Some t"
    and "\<And>u. u \<noteq> t \<Longrightarrow> rw_owner s' = Some u \<longleftrightarrow> rw_owner s = Some u"
    and "rw_readers s' = rw_readers s + of_bool (counted p) - of_bool (counted (rw_at s t))"
    and "\<And>u. (if u = t then p else rw_at s u) = WriteWait \<Longrightarrow> 0 < rw_readers s'"
    and "\<And>u. (if u = t then p else rw_at s u) = Writing \<Longrightarrow> rw_readers s' = 0"
  shows "rw_inv s'"
proof -
  note inv = rw_invD [OF assms(1)]
  have readers: "readers_of s' = (if counted p then insert t (readers_of s) else readers_of s - {t})"
    using assms(2) by (auto simp: readers_of_def)
  have t: "t \<in> readers_of s \<longleftrightarrow> counted (rw_at s t)" by (rule mem_readers)
  then have "counted (rw_at s t) \<Longrightarrow> 0 < card (readers_of s)" using inv(1) card_gt_0_iff by blast
  then have "rw_readers s' = int (card (readers_of s'))"
    using t inv(1,2) assms(5) by (auto simp: readers card_insert_if card_Diff_singleton)
  moreover have "has_mutex (rw_at s' u) \<longleftrightarrow> rw_owner s' = Some u" for u
    using assms(2-4) inv(3) [of u] by auto
  moreover have "rw_at s' u = (if u = t then p else rw_at s u)" for u
    using assms(2) by simp
  ultimately show ?thesis using readers inv(1) assms(6,7) by (simp add: rw_inv_def)
qed

lemma rw_inv_notify: "rw_inv s \<Longrightarrow> rw_inv (notifyAll s)"
  by (auto simp: rw_inv_def)

lemma notifyAll_readers: "notifyAll (s\<lparr>rw_readers := n\<rparr>) = (notifyAll s)\<lparr>rw_readers := n\<rparr>"
  by (cases s) (simp add: notifyAll_def cong: if_cong)

lemma rw_inv_read_step:
  assumes "rw_inv s" and "read_step t s s'"
  shows "rw_inv s'"
proof -
  note inv = rw_invD [OF assms(1)]
  from assms(2) show ?thesis
  proof (cases rule: read_step.cases)
    case acquire_read
    with inv(3) [of t] inv(4,5) show ?thesis
      by (intro rw_inv_move [OF assms(1), of _ t ReadAcquire]) (auto simp: place_simps split: if_splits)
  next
    case read_acquire
    with inv(3) [of t] inv(4,5) show ?thesis
      by (intro rw_inv_move [OF assms(1), of _ t ReadCount]) (auto simp: place_simps split: if_splits)
  next
    case read_count
    then have own: "rw_owner s = Some t" using inv(3) [of t] by (simp add: has_mutex_def)
    then have "rw_at s u \<noteq> Writing" for u using inv(3) [of u] read_count by (auto simp: has_mutex_def)
    moreover have "0 \<le> rw_readers s" using inv(2) by simp
    ultimately show ?thesis using read_count own
      by (intro rw_inv_move [OF assms(1), of _ t ReadUnlock]) (auto simp: place_simps split: if_splits)
  next
    case read_unlock
    then have own: "rw_owner s = Some t" using inv(3) [of t] by (simp add: has_mutex_def)
    then show ?thesis using read_unlock inv(4,5)
      by (intro rw_inv_move [OF assms(1), of _ t Reading]) (auto simp: place_simps split: if_splits)
  next
    case release_read
    with inv(3) [of t] inv(4,5) show ?thesis
      by (intro rw_inv_move [OF assms(1), of _ t UnreadAcquire]) (auto simp: place_simps split: if_splits)
  next
    case unread_acquire
    with inv(3) [of t] inv(4,5) show ?thesis
      by (intro rw_inv_move [OF assms(1), of _ t UnreadCount]) (auto simp: place_simps split: if_splits)
  next
    case unread_count
    then have own: "rw_owner s = Some t" using inv(3) [of t] by (simp add: has_mutex_def)
    then have no: "rw_at s u \<noteq> Writing" for u using inv(3) [of u] unread_count by (auto simp: has_mutex_def)
    have "t \<in> readers_of s" using unread_count by (simp add: mem_readers counted_def)
    then have pos: "0 < rw_readers s" using inv(1,2) card_gt_0_iff by (auto simp: card_gt_0_iff)
    show ?thesis
    proof (cases "rw_readers s - 1 = 0")
      case True
      have "rw_at (notifyAll s) t = UnreadCount" using unread_count by (simp add: notifyAll_def)
      then show ?thesis using unread_count own no True
        by (intro rw_inv_move [OF rw_inv_notify [OF assms(1)], of _ t UnreadUnlock])
          (auto simp: release_read_body_def notifyAll_readers place_simps split: if_splits)
    next
      case False
      then show ?thesis using unread_count own no pos
        by (intro rw_inv_move [OF assms(1), of _ t UnreadUnlock])
          (auto simp: release_read_body_def place_simps split: if_splits)
    qed
  next
    case unread_unlock
    then have own: "rw_owner s = Some t" using inv(3) [of t] by (simp add: has_mutex_def)
    then show ?thesis using unread_unlock inv(4,5)
      by (intro rw_inv_move [OF assms(1), of _ t Idle]) (auto simp: place_simps split: if_splits)
  qed
qed

lemma rw_inv_write_step:
  assumes "rw_inv s" and "write_step t s s'"
  shows "rw_inv s'"
proof -
  note inv = rw_invD [OF assms(1)]
  from assms(2) show ?thesis
  proof (cases rule: write_step.cases)
    case acquire_write
    with inv(3) [of t] inv(4,5) show ?thesis
      by (intro rw_inv_move [OF assms(1), of _ t WriteAcquire]) (auto simp: place_simps split: if_splits)
  next
    case write_acquire
    with inv(3) [of t] inv(4,5) show ?thesis
      by (intro rw_inv_move [OF assms(1), of _ t WriteTest]) (auto simp: place_simps split: if_splits)
  next
    case write_wait
    then have own: "rw_owner s = Some t" using inv(3) [of t] by (simp add: has_mutex_def)
    then show ?thesis using write_wait inv(4,5)
      by (intro rw_inv_move [OF assms(1), of _ t WriteWait]) (auto simp: place_simps split: if_splits)
  next
    case write_wake
    with inv(3) [of t] inv(4,5) show ?thesis
      by (intro rw_inv_move [OF assms(1), of _ t WriteTest]) (auto simp: place_simps split: if_splits)
  next
    case write_enter
    then have own: "rw_owner s = Some t" using inv(3) [of t] by (simp add: has_mutex_def)
    moreover have "rw_readers s = 0" using write_enter inv(2) by simp
    ultimately show ?thesis using write_enter inv(4,5)
      by (intro rw_inv_move [OF assms(1), of _ t Writing]) (auto simp: place_simps split: if_splits)
  next
    case release_write
    then have own: "rw_owner s = Some t" using inv(3) [of t] by (simp add: has_mutex_def)
    then show ?thesis using release_write inv(4,5)
      by (intro rw_inv_move [OF assms(1), of _ t Idle]) (auto simp: place_simps split: if_splits)
  qed
qed

lemma rw_reach_inv: "rw_reach s \<Longrightarrow> rw_inv s"
proof (induction rule: rw_reach.induct)
  case start
  show ?case by (rule rw_inv_init)
next
  case (step s t s')
  then show ?case using rw_inv_read_step rw_inv_write_step unfolding rw_step_def by blast
qed

section \<open>The properties of the lock\<close>

text \<open>C4. Mutual exclusion, for any number of threads and any interleaving of their steps: while one
  thread has the write lock, no other thread has the write lock or a read lock, and the count of
  readers is always the number of threads that have a read lock or are giving it back.\<close>

theorem rw_mutual_exclusion:
  assumes "rw_reach s"
  shows "(\<forall>t u. rw_at s t = Writing \<longrightarrow> u \<noteq> t \<longrightarrow> rw_at s u \<notin> {Writing, Reading}) \<and>
    finite (readers_of s) \<and> rw_readers s = int (card (readers_of s))"
proof -
  note inv = rw_invD [OF rw_reach_inv [OF assms]]
  have "rw_at s u \<notin> {Writing, Reading}" if w: "rw_at s t = Writing" "u \<noteq> t" for t u
  proof -
    have "readers_of s = {}" using inv(5) [OF w(1)] inv(1,2) by simp
    then have "rw_at s u \<noteq> Reading" by (auto simp: readers_of_def counted_def)
    moreover have "rw_at s u \<noteq> Writing" using inv(3) [of t] inv(3) [of u] w by (auto simp: has_mutex_def)
    ultimately show ?thesis by simp
  qed
  then show ?thesis using inv(1,2) by blast
qed

definition demo_writing :: rwlock where
  "demo_writing = goto 3 Writing (goto 3 WriteTest ((goto 3 WriteAcquire ReadWriteLock_init)\<lparr>rw_owner := Some 3\<rparr>))"

lemma demo_writing_reach: "rw_reach demo_writing"
proof -
  let ?s1 = "goto 3 WriteAcquire ReadWriteLock_init"
  let ?s2 = "goto 3 WriteTest (?s1\<lparr>rw_owner := Some 3\<rparr>)"
  have "rw_step 3 ReadWriteLock_init ?s1"
    unfolding rw_step_def by (intro disjI2 acquire_write) (simp add: ReadWriteLock_init_def)
  moreover have "rw_step 3 ?s1 ?s2"
    unfolding rw_step_def by (intro disjI2 write_acquire) (simp_all add: ReadWriteLock_init_def)
  moreover have "rw_step 3 ?s2 demo_writing"
    unfolding rw_step_def demo_writing_def by (intro disjI2 write_enter) (simp_all add: ReadWriteLock_init_def)
  ultimately show ?thesis by (meson rw_reach.intros)
qed

theorem rw_mutual_exclusion_witness:
  "rw_at demo_writing 3 = Writing \<and> rw_at demo_writing 4 \<notin> {Writing, Reading} \<and> rw_readers demo_writing = 0"
proof -
  have "rw_at demo_writing 3 = Writing" by (simp add: demo_writing_def)
  moreover have "readers_of demo_writing = {}"
    by (auto simp: demo_writing_def ReadWriteLock_init_def readers_of_def counted_def)
  ultimately show ?thesis using rw_mutual_exclusion [OF demo_writing_reach] by (metis card.empty numeral_eq_iff of_nat_0 semiring_norm(87,89) num.distinct(1))
qed

text \<open>C11. The lock never gets stuck: as long as some thread is inside a method, waiting or holding a
  lock, some thread that is not idle can step, if only to give its lock back; in particular no
  wake-up of a waiting writer is ever lost.\<close>

theorem rw_no_deadlock:
  assumes "rw_reach s" and "rw_at s t \<noteq> Idle"
  shows "\<exists>u s'. rw_at s u \<noteq> Idle \<and> rw_step u s s'"
proof -
  note inv = rw_invD [OF rw_reach_inv [OF assms(1)]]
  show ?thesis
  proof (cases "rw_owner s")
    case (Some u)
    then have "has_mutex (rw_at s u)" using inv(3) by simp
    then have "\<exists>s'. rw_step u s s'"
      unfolding rw_step_def has_mutex_def by (auto intro: read_step.intros write_step.intros)
        (metis write_step.write_wait write_step.write_enter)
    moreover have "rw_at s u \<noteq> Idle" using \<open>has_mutex (rw_at s u)\<close> by (auto simp: has_mutex_def)
    ultimately show ?thesis by blast
  next
    case None
    have go: "\<exists>s'. rw_step u s s'" if "rw_at s u \<notin> {Idle, WriteWait}" for u
      using that None inv(3) [of u] unfolding rw_step_def has_mutex_def
      by (cases "rw_at s u") (auto intro: read_step.intros write_step.intros)
    show ?thesis
    proof (cases "rw_at s t = WriteWait")
      case True
      then have "readers_of s \<noteq> {}" using inv(1,2,4) by fastforce
      then obtain u where "counted (rw_at s u)" by (auto simp: readers_of_def)
      then have "rw_at s u \<notin> {Idle, WriteWait}" by (auto simp: counted_def)
      then show ?thesis using go by blast
    next
      case False
      then show ?thesis using go assms(2) by blast
    qed
  qed
qed

theorem rw_no_deadlock_witness: "\<exists>u s'. rw_at demo_writing u \<noteq> Idle \<and> rw_step u demo_writing s'"
  by (rule rw_no_deadlock [OF demo_writing_reach, of 3]) (simp add: demo_writing_def)

end
