(* ===== verification/Minim.thy ===== *)
theory Minim
  imports ConfTree PyPath
begin

text \<open>
  The MinimServer configuration and what is made of it: \<open>uprcl/minimconfig.py\<close>, and the correction of
  tags while indexing, \<open>uprcl/minimtagfixer.py\<close>. A value of a tag is a string; a dictionary of tags is
  an association list.
\<close>

section \<open>Values\<close>

definition minim_get :: "conf \<Rightarrow> string \<Rightarrow> string option res" where
  "minim_get conf nm = simple_get conf nm []"

definition getsimplevalue :: "conf \<Rightarrow> string \<Rightarrow> string option res" where
  "getsimplevalue conf nm = bindR (minim_get conf nm) (\<lambda>s. Inr (map_option (strip is_space) s))"

definition getboolvalue :: "conf \<Rightarrow> string \<Rightarrow> bool \<Rightarrow> bool res" where
  "getboolvalue conf nm dflt =
     bindR (getsimplevalue conf nm) (\<lambda>val.
       case val of
         None \<Rightarrow> Inr dflt
       | Some [] \<Rightarrow> Inr dflt
       | Some (c # v) \<Rightarrow> Inr (\<not> (c # v = ''0'' \<or> lower_char c = CHR ''f'' \<or> lower_char c = CHR ''n'')))"

text \<open>A list of pairs, with commas and colons; the colons come escaped from the file.\<close>

definition split_pair :: "string \<Rightarrow> string \<times> string" where
  "split_pair e =
     (let l = split_on (CHR '':'') e
      in (strip is_space (hd l), strip is_space (if 1 < length l then l ! 1 else [])))"

definition minimsplitsplit :: "string option \<Rightarrow> (string \<times> string) list" where
  "minimsplitsplit str =
     (if str = None \<or> str = Some [] then []
      else map split_pair (split_on (CHR '','') (replace_str [CHR 0x5C, CHR '':''] '':'' (the str))))"

text \<open>Joining the parts inside braces again. The test for the closing brace is that its position is
  not 0.\<close>

fun rejoin_braces :: "bool \<Rightarrow> string \<Rightarrow> string list \<Rightarrow> string list" where
  "rejoin_braces inbraces accum [] = []"
| "rejoin_braces inbraces accum (e # es) =
     (if inbraces then
        (let accum = accum @ '', '' @ e in
         if py_find e ''}'' \<noteq> Some 0 then accum # rejoin_braces False [] es else rejoin_braces True accum es)
      else if contains e ''{'' \<and> \<not> contains e ''}'' then rejoin_braces True e es
      else e # rejoin_braces False accum es)"

record tagopt =
  to_tag :: string
  to_neg :: bool
  to_opt :: string
  to_values :: "string list"

definition parse_tagopt :: "string \<Rightarrow> tagopt" where
  "parse_tagopt e =
     (let lhsrhs = split_str [CHR 0x5C, CHR ''=''] e;
          values = (if length lhsrhs = 2
                    then map (\<lambda>v. py_lower (strip is_space v))
                           (split_on (CHR '','') (rstrip (\<lambda>c. c = CHR ''}'') (lstrip (\<lambda>c. c = CHR ''{'') (lhsrhs ! 1))))
                    else []);
          tagopt = split_on (CHR ''.'') (hd lhsrhs);
          tag = strip is_space (hd tagopt);
          neg = startswith tag ''-''
      in \<lparr>to_tag = (if neg then drop 1 tag else tag), to_neg = neg,
          to_opt = join_with ''.'' (tl tagopt), to_values = values\<rparr>)"

definition minimsplitbraceslist :: "string \<Rightarrow> tagopt list" where
  "minimsplitbraceslist value = map parse_tagopt (rejoin_braces False [] (split_on (CHR '','') value))"

definition getexcludepatterns :: "conf \<Rightarrow> string option res" where
  "getexcludepatterns conf =
     bindR (minim_get conf ''minimserver.excludePattern'') (\<lambda>spats.
       case spats of
         None \<Rightarrow> Inr None
       | Some [] \<Rightarrow> Inr (Some [])
       | Some (c # s) \<Rightarrow>
           bindR (stringToStrings (c # s) (Some [CHR 0x22, CHR 0x27]) (Some []) (Some [CHR 0x22]) (Some '', ''))
             (\<lambda>lpats. Inr (Some (stringsToString lpats))))"

definition gettagvalue :: "conf \<Rightarrow> tagopt list option res" where
  "gettagvalue conf =
     bindR (minim_get conf ''minimserver.tagValue'') (\<lambda>s.
       Inr (case s of None \<Rightarrow> None | Some v \<Rightarrow> if v = [] then None else Some (minimsplitbraceslist v)))"

definition alias_of :: "string \<times> string \<Rightarrow> string \<times> string \<times> bool" where
  "alias_of p =
     (let orig = py_lower (fst p); target = py_lower (snd p); rep = startswith target ''-''
      in (orig, if rep then drop 1 target else target, rep))"

definition getaliastags :: "conf \<Rightarrow> (string \<times> string \<times> bool) list res" where
  "getaliastags conf =
     bindR (minim_get conf ''minimserver.aliasTags'') (\<lambda>s. Inr (map alias_of (minimsplitsplit s)))"

definition getindextags :: "conf \<Rightarrow> (string \<times> string) list res" where
  "getindextags conf = bindR (minim_get conf ''minimserver.indexTags'') (\<lambda>s. Inr (minimsplitsplit s))"

definition getitemtags :: "conf \<Rightarrow> string list res" where
  "getitemtags conf =
     bindR (minim_get conf ''minimserver.itemTags'') (\<lambda>s.
       Inr (case s of None \<Rightarrow> [] | Some v \<Rightarrow> if v = [] then [] else map (strip is_space) (split_on (CHR '','') v)))"

text \<open>Directories are separated by a backslash and an \<open>n\<close>.\<close>

definition getcontentdirs :: "conf \<Rightarrow> string list res" where
  "getcontentdirs conf =
     bindR (minim_get conf ''minimserver.contentDir'') (\<lambda>s.
       Inr (case s of None \<Rightarrow> []
            | Some v \<Rightarrow> if v = [] then []
                        else split_on (CHR 0x0A) (replace_str [CHR 0x5C, CHR ''n''] [CHR 0x0A] v)))"

section \<open>The tag update file\<close>

type_synonym tagval = "string \<times> string"

record taggroup =
  tg_sel :: "tagval list"
  tg_filter :: "tagval list"
  tg_adds :: "tagval list"
  tg_dels :: "tagval list"

definition empty_group :: taggroup where
  "empty_group = \<lparr>tg_sel = [], tg_filter = [], tg_adds = [], tg_dels = []\<rparr>"

text \<open>\<open>[-]\<close> lines get an equal sign; a line without one has an empty name.\<close>

definition update_tagval :: "string \<Rightarrow> tagval" where
  "update_tagval line0 =
     (let line = (if hd line0 = CHR ''-'' \<and> last line0 \<noteq> CHR ''='' then line0 @ ''='' else line0) in
      case py_find (drop 1 line) ''='' of
        Some eq \<Rightarrow> (py_lower (strip is_space (take eq (drop 1 line))), strip is_space (drop (eq + 2) line))
      | None \<Rightarrow> ([], strip is_space (drop 1 line)))"

definition update_char :: "char \<Rightarrow> bool" where
  "update_char c \<longleftrightarrow> c \<in> {CHR ''@'', CHR ''&'', CHR ''='', CHR ''-'', CHR ''+''}"

record updstate =
  us_groups :: "taggroup list"
  us_group :: taggroup
  us_seldone :: bool

definition update_start :: updstate where
  "update_start = \<lparr>us_groups = [], us_group = empty_group, us_seldone = False\<rparr>"

definition update_line :: "string \<Rightarrow> updstate \<Rightarrow> updstate" where
  "update_line line st =
     (let tv = update_tagval line; c = hd line; g = us_group st in
      if c = CHR ''@'' then
        (if us_seldone st
         then \<lparr>us_groups = us_groups st @ [g], us_group = empty_group\<lparr>tg_sel := [tv]\<rparr>, us_seldone = False\<rparr>
         else st\<lparr>us_group := g\<lparr>tg_sel := tg_sel g @ [tv]\<rparr>\<rparr>)
      else
        (let g' = (if c = CHR ''&'' then g\<lparr>tg_filter := tg_filter g @ [tv]\<rparr>
                   else if c = CHR ''-'' then g\<lparr>tg_dels := tg_dels g @ [(fst tv, [])]\<rparr>
                   else g\<lparr>tg_adds := tg_adds g @ [tv]\<rparr>)
         in st\<lparr>us_group := g', us_seldone := True\<rparr>))"

text \<open>A line of the file: blanks stripped, decoded, skipped unless it starts with a directive.\<close>

definition update_raw :: "string \<Rightarrow> updstate \<Rightarrow> updstate res" where
  "update_raw raw st =
     (let line = strip is_bspace raw in
      if \<not> valid_utf8 line then Inl ValueError
      else if line = [] \<or> \<not> update_char (hd line) then Inr st
      else Inr (update_line line st))"

definition update_groups :: "string list \<Rightarrow> taggroup list res" where
  "update_groups ls =
     bindR (foldR update_raw ls update_start) (\<lambda>st.
       Inr (if us_seldone st then us_groups st @ [us_group st] else us_groups st))"

section \<open>Correcting tags\<close>

record tagupd =
  tu_file :: "string option"
  tu_aliases :: "(string \<times> string \<times> bool) list option"

definition makeabs :: "string \<Rightarrow> string \<Rightarrow> string" where
  "makeabs cnffn fn =
     (if fn = [] \<or> isabs fn then fn
      else path_join (path_join (os_dirname (os_dirname cnffn)) ''data'') fn)"

text \<open>A missing update file ends the initialisation, before the alias tags are read.\<close>

definition TagUpdateData_init ::
  "(string \<Rightarrow> bool) \<Rightarrow> (string \<Rightarrow> conf) \<Rightarrow> string option \<Rightarrow> tagupd res" where
  "TagUpdateData_init exists readconf minimcnffn =
     (case minimcnffn of
        None \<Rightarrow> Inr \<lparr>tu_file = None, tu_aliases = None\<rparr>
      | Some [] \<Rightarrow> Inr \<lparr>tu_file = None, tu_aliases = None\<rparr>
      | Some (c # s) \<Rightarrow>
          (let fn = c # s; conf = readconf fn in
           bindR (getsimplevalue conf ''minimserver.tagUpdate'') (\<lambda>tf.
             let tf = (case tf of Some (x # xs) \<Rightarrow> Some (makeabs fn (x # xs)) | _ \<Rightarrow> tf) in
             if tf \<noteq> None \<and> tf \<noteq> Some [] \<and> \<not> exists (the tf) then Inr \<lparr>tu_file = tf, tu_aliases = None\<rparr>
             else bindR (getaliastags conf) (\<lambda>al.
                  bindR (gettagvalue conf) (\<lambda>_. Inr \<lparr>tu_file = tf, tu_aliases = Some al\<rparr>)))))"

text \<open>None is returned, in place of a list, when the file cannot be opened.\<close>

definition gettagupdate :: "(string \<Rightarrow> string list option) \<Rightarrow> tagupd \<Rightarrow> taggroup list option res" where
  "gettagupdate readlines tu =
     (if tu_file tu = None \<or> tu_file tu = Some [] then Inr (Some [])
      else (case readlines (the (tu_file tu)) of
              None \<Rightarrow> Inr None
            | Some ls \<Rightarrow> bindR (update_groups ls) (\<lambda>g. Inr (Some g))))"

type_synonym tags = "(string \<times> string) list"

definition matches_sel :: "taggroup \<Rightarrow> tags \<Rightarrow> bool" where
  "matches_sel g tags \<longleftrightarrow> list_ex (\<lambda>(tag, val). map_of tags tag = Some val) (tg_sel g)"

definition matches_filter :: "taggroup \<Rightarrow> tags \<Rightarrow> bool" where
  "matches_filter g tags \<longleftrightarrow> list_all (\<lambda>(tag, val). map_of tags tag = Some val) (tg_filter g)"

definition del_tag :: "tagval \<Rightarrow> tags \<Rightarrow> tags res" where
  "del_tag tv tags = (if has_key tags (fst tv) then Inr (AList.delete (fst tv) tags) else Inl KeyError)"

definition apply_group :: "taggroup \<Rightarrow> tags \<Rightarrow> tags res" where
  "apply_group g tags = foldR del_tag (tg_dels g) (fold (\<lambda>(tag, val). AList.update tag val) (tg_adds g) tags)"

text \<open>The result is the dictionary afterwards. A group that does not match ends the whole correction.\<close>

fun tagupdate_groups :: "taggroup list \<Rightarrow> tags \<Rightarrow> tags res" where
  "tagupdate_groups [] tags = Inr tags"
| "tagupdate_groups (g # gs) tags =
     (if \<not> matches_sel g tags \<or> \<not> matches_filter g tags then Inr tags
      else bindR (apply_group g tags) (tagupdate_groups gs))"

definition tagupdate :: "taggroup list option \<Rightarrow> tags \<Rightarrow> tags res" where
  "tagupdate groups tags =
     (case groups of None \<Rightarrow> Inl TypeError | Some gs \<Rightarrow> tagupdate_groups gs tags)"

definition aliastag :: "string \<times> string \<times> bool \<Rightarrow> tags \<Rightarrow> tags" where
  "aliastag a tags =
     (case a of (orig, target, rep) \<Rightarrow>
       case map_of tags orig of
         None \<Rightarrow> tags
       | Some val \<Rightarrow>
           (if val \<noteq> [] \<and> (rep \<or> map_of tags target = None \<or> map_of tags target = Some [])
            then AList.update target val tags else tags))"

definition aliastags :: "tagupd \<Rightarrow> tags \<Rightarrow> tags" where
  "aliastags tu tags = (case tu_aliases tu of None \<Rightarrow> tags | Some al \<Rightarrow> fold aliastag al tags)"

definition tagfix :: "tagupd \<Rightarrow> taggroup list option \<Rightarrow> tags \<Rightarrow> tags res" where
  "tagfix tu groups tags = tagupdate groups (aliastags tu tags)"

section \<open>Writing an update file\<close>

definition tv_line :: "char \<Rightarrow> tagval \<Rightarrow> string" where
  "tv_line c tv = c # fst tv @ ''='' @ snd tv"

definition group_lines :: "taggroup \<Rightarrow> string list" where
  "group_lines g =
     map (tv_line (CHR ''@'')) (tg_sel g) @ map (tv_line (CHR ''&'')) (tg_filter g) @
     map (tv_line (CHR ''='')) (tg_adds g) @ map (tv_line (CHR ''-'')) (tg_dels g)"

definition good_tv :: "char \<Rightarrow> tagval \<Rightarrow> bool" where
  "good_tv c tv \<longleftrightarrow> CHR ''='' \<notin> set (fst tv) \<and> py_lower (fst tv) = fst tv \<and> strip is_space (fst tv) = fst tv \<and>
     strip is_space (snd tv) = snd tv \<and> strip is_bspace (tv_line c tv) = tv_line c tv \<and> valid_utf8 (tv_line c tv)"

definition good_group :: "taggroup \<Rightarrow> bool" where
  "good_group g \<longleftrightarrow> tg_sel g \<noteq> [] \<and> tg_filter g @ tg_adds g @ tg_dels g \<noteq> [] \<and>
     list_all (good_tv (CHR ''@'')) (tg_sel g) \<and> list_all (good_tv (CHR ''&'')) (tg_filter g) \<and>
     list_all (good_tv (CHR ''='')) (tg_adds g) \<and> list_all (\<lambda>tv. good_tv (CHR ''-'') tv \<and> snd tv = []) (tg_dels g)"

lemma update_tagval_line:
  assumes "good_tv c tv" and "c \<noteq> CHR ''-'' \<or> snd tv = []"
  shows "update_tagval (tv_line c tv) = tv"
proof -
  have "py_find (fst tv @ CHR ''='' # snd tv) ''='' = Some (length (fst tv))"
    using assms(1) py_find_append_notin [of "CHR ''=''" "fst tv" "snd tv" "[]"] by (simp add: good_tv_def)
  then show ?thesis using assms by (auto simp: update_tagval_def tv_line_def good_tv_def prod_eq_iff)
qed

lemma hd_tv_line [simp]: "hd (tv_line c tv) = c"
  by (simp add: tv_line_def)

lemma update_raw_line:
  "good_tv c tv \<Longrightarrow> update_char c \<Longrightarrow> update_raw (tv_line c tv) st = Inr (update_line (tv_line c tv) st)"
  by (simp add: update_raw_def good_tv_def) (simp add: tv_line_def)

text \<open>The lines of one kind.\<close>

lemma update_sel_lines:
  "list_all (good_tv (CHR ''@'')) tvs \<Longrightarrow> \<not> us_seldone st \<Longrightarrow>
     foldR update_raw (map (tv_line (CHR ''@'')) tvs) st =
       Inr (st\<lparr>us_group := (us_group st)\<lparr>tg_sel := tg_sel (us_group st) @ tvs\<rparr>\<rparr>)"
proof (induction tvs arbitrary: st)
  case (Cons tv tvs)
  then show ?case
    by (simp add: update_raw_line update_char_def update_line_def update_tagval_line Let_def)
qed simp

lemma update_filter_lines:
  "list_all (good_tv (CHR ''&'')) tvs \<Longrightarrow>
     foldR update_raw (map (tv_line (CHR ''&'')) tvs) st =
       Inr (if tvs = [] then st
            else st\<lparr>us_group := (us_group st)\<lparr>tg_filter := tg_filter (us_group st) @ tvs\<rparr>, us_seldone := True\<rparr>)"
proof (induction tvs arbitrary: st)
  case (Cons tv tvs)
  then show ?case
    by (simp add: update_raw_line update_char_def update_line_def update_tagval_line Let_def)
qed simp

lemma update_add_lines:
  "list_all (good_tv (CHR ''='')) tvs \<Longrightarrow>
     foldR update_raw (map (tv_line (CHR ''='')) tvs) st =
       Inr (if tvs = [] then st
            else st\<lparr>us_group := (us_group st)\<lparr>tg_adds := tg_adds (us_group st) @ tvs\<rparr>, us_seldone := True\<rparr>)"
proof (induction tvs arbitrary: st)
  case (Cons tv tvs)
  then show ?case
    by (simp add: update_raw_line update_char_def update_line_def update_tagval_line Let_def)
qed simp

lemma update_del_lines:
  "list_all (\<lambda>tv. good_tv (CHR ''-'') tv \<and> snd tv = []) tvs \<Longrightarrow>
     foldR update_raw (map (tv_line (CHR ''-'')) tvs) st =
       Inr (if tvs = [] then st
            else st\<lparr>us_group := (us_group st)\<lparr>tg_dels := tg_dels (us_group st) @ tvs\<rparr>, us_seldone := True\<rparr>)"
proof (induction tvs arbitrary: st)
  case (Cons tv tvs)
  then show ?case
    by (cases tv) (simp add: update_raw_line update_char_def update_line_def update_tagval_line Let_def)
qed simp

definition finished :: "updstate \<Rightarrow> taggroup list" where
  "finished st = (if us_seldone st then us_groups st @ [us_group st] else us_groups st)"

lemma update_group_lines:
  assumes "good_group g" and "us_seldone st \<or> us_group st = empty_group"
  shows "foldR update_raw (group_lines g) st =
    Inr \<lparr>us_groups = finished st, us_group = g, us_seldone = True\<rparr>"
proof -
  obtain tv tvs where sel: "tg_sel g = tv # tvs" using assms(1) by (cases "tg_sel g") (auto simp: good_group_def)
  define st1 where "st1 = \<lparr>us_groups = finished st, us_group = empty_group\<lparr>tg_sel := [tv]\<rparr>, us_seldone = False\<rparr>"
  have "update_raw (tv_line (CHR ''@'') tv) st = Inr st1"
    using assms sel by (simp add: good_group_def update_raw_line update_char_def update_line_def update_tagval_line Let_def)
      (auto simp: st1_def finished_def empty_group_def)
  moreover have "foldR update_raw (map (tv_line (CHR ''@'')) tvs) st1 =
      Inr (st1\<lparr>us_group := empty_group\<lparr>tg_sel := tg_sel g\<rparr>\<rparr>)"
    using update_sel_lines [of tvs st1] assms(1) sel by (simp add: good_group_def st1_def)
  ultimately show ?thesis
    using assms(1) sel
    by (auto simp: group_lines_def foldR_append good_group_def update_filter_lines update_add_lines update_del_lines
        st1_def empty_group_def)
qed

text \<open>C25. A tag update file is read back as the groups it was written from: the order of the groups, and
  within a group of the selections, filters, additions and deletions, is kept, and a new group
  starts where a selection follows another directive.\<close>

theorem update_groups_roundtrip:
  assumes "list_all good_group gs"
  shows "update_groups (concat (map group_lines gs)) = Inr gs"
proof -
  have fin: "foldR update_raw (concat (map group_lines gs)) st = Inr st' \<Longrightarrow> finished st' = finished st @ gs"
    if "us_seldone st \<or> us_group st = empty_group" for st st'
    using assms that
  proof (induction gs arbitrary: st)
    case (Cons g gs)
    let ?st1 = "\<lparr>us_groups = finished st, us_group = g, us_seldone = True\<rparr>"
    have "foldR update_raw (concat (map group_lines gs)) ?st1 = Inr st'"
      using Cons.prems update_group_lines [of g st] by (simp add: foldR_append)
    then have "finished st' = finished ?st1 @ gs" using Cons.IH [of ?st1] Cons.prems(2) by simp
    then show ?case by (simp add: finished_def)
  qed simp
  have ex: "\<exists>st'. foldR update_raw (concat (map group_lines gs)) st = Inr st'"
    if "us_seldone st \<or> us_group st = empty_group" for st
    using assms that by (induction gs arbitrary: st) (auto simp: foldR_append update_group_lines)
  have start: "us_seldone update_start \<or> us_group update_start = empty_group" by (simp add: update_start_def)
  from ex [OF start] obtain st' where st': "foldR update_raw (concat (map group_lines gs)) update_start = Inr st'" ..
  with fin [OF start] have "finished st' = finished update_start @ gs" by blast
  with st' show ?thesis by (simp add: update_groups_def finished_def update_start_def)
qed

definition demo_groups :: "taggroup list" where
  "demo_groups =
     [\<lparr>tg_sel = [(''composer'', ''Johann Sebastian Bach''), (''artist'', ''J. S. Bach'')], tg_filter = [],
       tg_adds = [(''composer'', ''Bach, J.S.'')], tg_dels = []\<rparr>,
      \<lparr>tg_sel = [(''genre'', ''Jazz'')], tg_filter = [(''date'', ''1959'')], tg_adds = [], tg_dels = [(''comment'', [])]\<rparr>]"

theorem update_groups_roundtrip_witness:
  "concat (map group_lines demo_groups) =
     [''@composer=Johann Sebastian Bach'', ''@artist=J. S. Bach'', ''=composer=Bach, J.S.'',
      ''@genre=Jazz'', ''&date=1959'', ''-comment=''] \<and>
   update_groups (concat (map group_lines demo_groups)) = Inr demo_groups"
proof
  have "list_all good_group demo_groups" by code_simp
  then show "update_groups (concat (map group_lines demo_groups)) = Inr demo_groups" by (rule update_groups_roundtrip)
qed code_simp

text \<open>A group whose selection is not met hides the groups after it; and a brace list of three or more
  values is cut after the second, because the test for the closing brace is not a test for it.\<close>

lemma tagupdate_stops: "\<not> matches_sel g tags \<Longrightarrow> tagupdate (Some (g # gs)) tags = Inr tags"
  by (simp add: tagupdate_def)

lemma braces_cut: "map to_tag (minimsplitbraceslist (''a'' @ [CHR 0x5C] @ ''={x,y,z}'')) = [''a'', ''z}'']"
  by code_simp

end
