(* ===== verification/Uprcl.thy ===== *)
theory Uprcl
  imports Search Playlists Minim RwLock
begin

text \<open>
  The plugin of the local library as a whole: its initialisation (\<open>uprcl/uprclinit.py\<close>), the
  configuration it writes for the indexer (\<open>uprcl/uprclindex.py\<close>) and the handlers of the requests
  (\<open>uprcl/uprcl-app.py\<close>), which choose the tree that answers. The file system, the environment and the
  results of the index are parameters.
\<close>

section \<open>Configuration\<close>

text \<open>The names of the index tags. The list of pairs is stored to as if it were a dictionary as soon
  as there are item tags; the error is swallowed, and the result is empty.\<close>

definition allMinimTags :: "conf \<Rightarrow> string list" where
  "allMinimTags conf =
     (case getindextags conf of
        Inl _ \<Rightarrow> []
      | Inr stored \<Rightarrow>
          (case getitemtags conf of
             Inl _ \<Rightarrow> []
           | Inr items \<Rightarrow>
               if items \<noteq> [] then []
               else takeWhile (\<lambda>v. v \<noteq> ''none'') (map (py_lower \<circ> fst) stored)))"

record initenv =
  ie_environ :: "string \<rightharpoonup> string"
  ie_upconfig :: conf
  ie_minim :: conf
  ie_isdir :: "string \<Rightarrow> bool"

definition ie_option :: "initenv \<Rightarrow> string \<Rightarrow> string option res" where
  "ie_option ie nm = getOptionValue (ie_upconfig ie) (ie_environ ie) nm None"

definition require :: "initenv \<Rightarrow> string \<Rightarrow> string res" where
  "require ie k = (case ie_environ ie k of None \<Rightarrow> Inl (Raised (''No '' @ k @ '' in environment'')) | Some v \<Rightarrow> Inr v)"

definition host_port :: "initenv \<Rightarrow> string res" where
  "host_port ie =
     bindR (ie_option ie ''uprclhostport'') (\<lambda>hp.
       case hp of
         Some v \<Rightarrow> Inr v
       | None \<Rightarrow>
           bindR (require ie ''UPMPD_HTTPHOSTPORT'') (\<lambda>upmpdhttphp.
           bindR (ie_option ie ''uprclport'') (\<lambda>port.
             Inr (hd (split_on (CHR '':'') upmpdhttphp) @ '':'' @ (case port of None \<Rightarrow> ''9090'' | Some p \<Rightarrow> p)))))"

definition media_dirs :: "initenv \<Rightarrow> string list res" where
  "media_dirs ie =
     bindR (ie_option ie ''uprclmediadirs'') (\<lambda>d.
       case d of
         Some (c # s) \<Rightarrow> stringToStrings_dflt (c # s)
       | _ \<Rightarrow> getcontentdirs (ie_minim ie))"

text \<open>The translation of paths: every pair must have a colon. Only the text is used.\<close>

definition path_spec :: "initenv \<Rightarrow> string list \<Rightarrow> string res" where
  "path_spec ie topdirs =
     bindR (ie_option ie ''uprclpaths'') (\<lambda>p.
       let pthstr = (case p of
                       Some v \<Rightarrow> v
                     | None \<Rightarrow> rstrip (\<lambda>c. c = CHR '','') (concat (map (\<lambda>d. d @ '':'' @ d @ '','') topdirs)))
       in bindR (mapR (\<lambda>ptt. nth_res (split_on (CHR '':'') ptt) 1) (split_on (CHR '','') pthstr)) (\<lambda>_. Inr pthstr))"

record settings =
  se_pathprefix :: string
  se_friendlyname :: string
  se_httphp :: string
  se_topdirs :: string
  se_pthstr :: string
  se_host :: string
  se_port :: int

datatype initresult =
    Refused string
  | Started settings

definition split_host :: "string \<Rightarrow> (string \<times> string) res" where
  "split_host hp =
     (case split_on (CHR '':'') hp of [h, p] \<Rightarrow> Inr (h, p) | _ \<Rightarrow> Inl ValueError)"

definition uprcl_init :: "initenv \<Rightarrow> initresult res" where
  "uprcl_init ie =
     bindR (require ie ''UPMPD_PATHPREFIX'') (\<lambda>pathprefix.
     bindR (require ie ''UPMPD_CONFIG'') (\<lambda>_.
     let fname = (case ie_environ ie ''UPMPD_FNAME'' of None \<Rightarrow> ''UpMpd-mediaserver'' | Some f \<Rightarrow> f) in
     bindR (host_port ie) (\<lambda>httphp.
     bindR (media_dirs ie) (\<lambda>topdirs.
       if topdirs = [] then Inr (Refused ''No media directories were set in configuration'')
       else
         let good = filter (ie_isdir ie) topdirs in
         if good = [] then Inr (Refused ''No accessible media directories in configuration'')
         else
           bindR (path_spec ie topdirs) (\<lambda>pthstr.
           bindR (split_host httphp) (\<lambda>(host, port).
           bindR (py_int port) (\<lambda>p.
             Inr (Started \<lparr>se_pathprefix = pathprefix, se_friendlyname = fname, se_httphp = httphp,
                           se_topdirs = stringsToString good, se_pthstr = pthstr, se_host = host, se_port = p\<rparr>))))))))"

section \<open>The indexer\<close>

text \<open>The configuration file of the indexer, as its lines.\<close>

definition recoll_conf :: "string \<Rightarrow> string \<Rightarrow> string option \<Rightarrow> string list \<Rightarrow> string list" where
  "recoll_conf datadir topdirs exclpats userlines =
     [''topdirs = '' @ topdirs, ''idxabsmlen = 0'', ''loglevel = 2'', ''noaspell = 1'',
      ''nomd5types = rclaudio rclaudio.py rclimg rclimg.py'', ''testmodifusemtime = 1'',
      ''idxmetastoredlen = 20000'', ''indexStoreDocText = 1'',
      ''audiotagfixerscript = '' @ path_join datadir ''minimtagfixer.py'', ''indexallfilenames = 0'',
      ''noContentSuffixes+ = .png .jp2 .jpg .jpeg .gif .tiff .tif .xcf .bmp .xpm .svg .djvu'',
      ''skippedNames+ = '' @ (if truthy exclpats then the exclpats else [])] @ userlines"

text \<open>Every index tag is declared as a stored field.\<close>

definition stored_fields :: "conf \<Rightarrow> conf \<Rightarrow> conf res" where
  "stored_fields minim fldconf =
     foldR (\<lambda>fld c. bindR (conf_set fld [] ''stored'' c) (\<lambda>(c', f). Inr c')) (allMinimTags minim) fldconf"

record indexer =
  ix_running :: bool
  ix_last :: "int option"

definition index_command :: "string \<Rightarrow> bool \<Rightarrow> string list" where
  "index_command confdir rebuild = [''recollindex'', ''-c'', confdir] @ (if rebuild then [''-z''] else [])"

text \<open>\<open>cf\<close> is the configuration just written.\<close>

definition runindexer ::
  "conf \<Rightarrow> string \<Rightarrow> string \<Rightarrow> bool \<Rightarrow> indexer \<Rightarrow> (string list \<times> conf \<times> indexer) res" where
  "runindexer cf confdir topdirs rebuild ix =
     (if ix_running ix then Inl (Raised ''uprclrunindexer: already running'')
      else bindR (simple_get cf ''topdirs'' []) (\<lambda>td.
           bindR (if (case td of None \<Rightarrow> [] | Some v \<Rightarrow> v) \<noteq> topdirs
                  then bindR (conf_set ''topdirs'' topdirs [] cf) (\<lambda>(c, f). Inr c) else Inr cf) (\<lambda>cf.
             Inr (index_command confdir rebuild, cf, ix\<lparr>ix_running := True\<rparr>))))"

text \<open>\<open>poll\<close> is the exit status of the process, None while it runs.\<close>

definition indexerdone :: "int option \<Rightarrow> indexer \<Rightarrow> bool \<times> indexer" where
  "indexerdone poll ix =
     (if \<not> ix_running ix then (True, ix)
      else if poll = None then (False, ix\<lparr>ix_last := None\<rparr>)
      else (True, \<lparr>ix_running = False, ix_last = poll\<rparr>))"

section \<open>Updating the index\<close>

record trees =
  tr_folders :: folders
  tr_untagged :: "int list"
  tr_playlists :: playlists
  tr_tagdb :: tagdb
  tr_tagconf :: tagconf
  tr_tagsst :: tagsst

record uprcl =
  up_running :: string
  up_status :: bool
  up_message :: string
  up_trees :: "trees option"
  up_rootmap :: "(string \<times> string) list"
  up_cache :: artcache

definition uprcl_start :: uprcl where
  "uprcl_start = \<lparr>up_running = [], up_status = False, up_message = [], up_trees = None, up_rootmap = [],
     up_cache = Map.empty\<rparr>"

record buildenv =
  be_fc :: fo_conf
  be_topdirs :: "string list"
  be_pick :: "int list \<Rightarrow> int"
  be_tags :: tagsource
  be_upconfig :: conf
  be_environ :: "string \<rightharpoonup> string"
  be_radios :: "radio list"
  be_prefix :: string

text \<open>The trees are built one after the other from the documents of the index.\<close>

definition build_trees :: "buildenv \<Rightarrow> doc list \<Rightarrow> artcache \<Rightarrow> (trees \<times> artcache) res" where
  "build_trees be docs cache =
     (let fc = be_fc be in
      bindR (rcl2folders fc (be_topdirs be) docs) (\<lambda>fo.
      bindR (Playlists_init (be_upconfig be) (be_environ be) (be_radios be) docs) (\<lambda>pl.
      bindR (recolltosql (fc_fs fc) (fc_httphp fc) (fc_pprefix fc) (be_pick be) (be_tags be) docs cache) (\<lambda>(tc, db, cache).
        Inr (\<lparr>tr_folders = fo, tr_untagged = recoll2untagged docs, tr_playlists = pl, tr_tagdb = db,
             tr_tagconf = tc, tr_tagsst = Tagged_init\<rparr>, cache)))))"

text \<open>The two ends of \<open>_update_index\<close>, each made under the write lock, and what is stored in between.\<close>

definition update_begin :: "bool \<Rightarrow> uprcl \<Rightarrow> uprcl" where
  "update_begin rebuild up = up\<lparr>up_running := (if rebuild then ''Rebuilding'' else ''Updating'')\<rparr>"

definition update_result :: "(py_error \<Rightarrow> string) \<Rightarrow> (trees \<times> artcache) res \<Rightarrow> uprcl \<Rightarrow> uprcl" where
  "update_result err_text r up =
     (case r of
        Inr (t, cache) \<Rightarrow> up\<lparr>up_trees := Some t, up_status := True, up_cache := cache\<rparr>
      | Inl e \<Rightarrow> up\<lparr>up_status := False, up_message := err_text e\<rparr>)"

definition update_end :: "uprcl \<Rightarrow> uprcl" where
  "update_end up = up\<lparr>up_running := []\<rparr>"

definition initdone :: "uprcl \<Rightarrow> bool" where
  "initdone up \<longleftrightarrow> up_running up = []"

text \<open>A request for an update while one is running does nothing.\<close>

definition start_index_update :: "bool \<Rightarrow> uprcl \<Rightarrow> uprcl" where
  "start_index_update rebuild up = (if initdone up then update_begin rebuild up else up)"

section \<open>The handlers of requests\<close>

definition tags_env :: "buildenv \<Rightarrow> trees \<Rightarrow> tagsenv" where
  "tags_env be t =
     \<lparr>te_fs = fc_fs (be_fc be), te_httphp = fc_httphp (be_fc be), te_pprefix = fc_pprefix (be_fc be),
      te_docs = fo_rcldocs (tr_folders t), te_conf = tr_tagconf t, te_prefix = be_prefix be\<rparr>"

definition pl_env :: "buildenv \<Rightarrow> trees \<Rightarrow> plenv" where
  "pl_env be t = \<lparr>pe_tags = tags_env be t, pe_folders = tr_folders t, pe_readfile = fc_readfile (be_fc be)\<rparr>"

definition search_env :: "buildenv \<Rightarrow> (string \<Rightarrow> doc list option) \<Rightarrow> nat \<Rightarrow> trees \<Rightarrow> searchenv" where
  "search_env be query arraysize t =
     \<lparr>se_tags = tags_env be t, se_db = tr_tagdb t, se_folders = tr_folders t, se_query = query,
      se_arraysize = arraysize\<rparr>"

text \<open>The answer to a browse request: the entries (None is Python's, sent as null), and the slice.\<close>

record browse_answer =
  an_entries :: "entry option list option"
  an_offset :: int
  an_total :: int

definition whole_answer :: "entry option list option \<Rightarrow> browse_answer" where
  "whole_answer es = \<lparr>an_entries = es, an_offset = 0, an_total = -1\<rparr>"

primrec listing_answer :: "listing \<Rightarrow> browse_answer" where
  "listing_answer (Whole es) = whole_answer (Some (map Some es))"
| "listing_answer (Slice offset n es) = \<lparr>an_entries = Some (map Some es), an_offset = offset, an_total = int n\<rparr>"

primrec listing_entries :: "listing \<Rightarrow> entry list" where
  "listing_entries (Whole es) = es"
| "listing_entries (Slice offset n es) = es"

text \<open>Which trees there are, in the order of the root, and their entries in the root.\<close>

definition trees_order :: "string list" where
  "trees_order = [''folders'', ''playlists'', ''tags'', ''untagged'']"

definition tree_rootentries :: "buildenv \<Rightarrow> trees \<Rightarrow> string \<Rightarrow> entry list res" where
  "tree_rootentries be t name =
     (let pid = be_prefix be in
      if name = ''folders'' then Inr (fo_rootentries pid)
      else if name = ''playlists'' then Inr (pl_rootentries (tr_playlists t) pid)
      else if name = ''tags'' then Tags.rootentries (tags_env be t) (tr_tagdb t) pid []
      else if name = ''untagged'' then Inr (ut_rootentries pid)
      else Inl KeyError)"

definition note_ids :: "string \<Rightarrow> entry list \<Rightarrow> (string \<times> string) list \<Rightarrow> (string \<times> string) list" where
  "note_ids name es rootmap = fold (\<lambda>e m. AList.update (key_or_empty ''id'' e) name m) es rootmap"

definition app_rootentries ::
  "buildenv \<Rightarrow> trees \<Rightarrow> (string \<times> string) list \<Rightarrow> (entry list \<times> (string \<times> string) list) res" where
  "app_rootentries be t rootmap =
     foldR (\<lambda>name (entries, m). bindR (tree_rootentries be t name) (\<lambda>nents.
              Inr (entries @ nents, note_ids name nents m)))
       trees_order ([], rootmap)"

text \<open>Browsing one tree. The folder tree hands views by tags to the tag tree, which then changes its
  list of hidden views.\<close>

definition tagview :: "buildenv \<Rightarrow> trees \<Rightarrow> int \<Rightarrow> string \<Rightarrow> string \<Rightarrow> string \<Rightarrow> (listing \<times> tagsst) res" where
  "tagview be t now pid rem path = browseFolder (tags_env be t) (tr_tagdb t) now pid rem path (tr_tagsst t)"

definition tagview_state :: "buildenv \<Rightarrow> trees \<Rightarrow> int \<Rightarrow> string \<Rightarrow> tagsst" where
  "tagview_state be t now pid =
     (case objidtoidx (tr_folders t) pid of
        Inr (isitem, idx, Some (c # rem)) \<Rightarrow>
          (case bindR (dirpath (tr_folders t) pid) (tagview be t now pid (c # rem)) of
             Inr (l, st) \<Rightarrow> st
           | Inl _ \<Rightarrow> tr_tagsst t)
      | _ \<Rightarrow> tr_tagsst t)"

definition browse_folders ::
  "buildenv \<Rightarrow> int \<Rightarrow> string \<Rightarrow> string \<Rightarrow> trees \<Rightarrow> artcache \<Rightarrow> (browse_answer \<times> trees \<times> artcache) res" where
  "browse_folders be now objid flag t cache =
     bindR (fo_browse (be_fc be)
              (\<lambda>pid flag rem path. bindR (tagview be t now pid rem path) (\<lambda>(l, st). Inr (listing_entries l)))
              (tr_folders t) objid flag cache) (\<lambda>(es, cache).
       Inr (whole_answer (map_option (map Some) es), t\<lparr>tr_tagsst := tagview_state be t now objid\<rparr>, cache))"

definition browse_tree ::
  "buildenv \<Rightarrow> int \<Rightarrow> string \<Rightarrow> string \<Rightarrow> string \<Rightarrow> int \<Rightarrow> int \<Rightarrow> trees \<Rightarrow> artcache \<Rightarrow> (browse_answer \<times> trees \<times> artcache) res" where
  "browse_tree be now name objid flag offset cnt t cache =
     (if name = ''folders'' then browse_folders be now objid flag t cache
      else if name = ''playlists'' then
        bindR (pl_browse (pl_env be t) (tr_playlists t) objid flag) (\<lambda>es. Inr (whole_answer (Some es), t, cache))
      else if name = ''tags'' then
        bindR (tags_browse (tags_env be t) (tr_tagdb t) objid flag offset cnt (tr_tagsst t)) (\<lambda>(l, st).
          Inr (listing_answer l, t\<lparr>tr_tagsst := st\<rparr>, cache))
      else if name = ''untagged'' then
        bindR (ut_browse (tags_env be t) (tr_untagged t) objid flag) (\<lambda>es.
          Inr (whole_answer (Some (map Some es)), t, cache))
      else Inl KeyError)"

text \<open>The first identifier of the root that the identifier starts with decides.\<close>

fun find_tree :: "string \<Rightarrow> (string \<times> string) list \<Rightarrow> string option" where
  "find_tree objid [] = None"
| "find_tree objid ((i, name) # m) = (if startswith objid i then Some name else find_tree objid m)"

definition browsedispatch ::
  "buildenv \<Rightarrow> int \<Rightarrow> string \<Rightarrow> string \<Rightarrow> int \<Rightarrow> int \<Rightarrow> (string \<times> string) list \<Rightarrow> trees \<Rightarrow> artcache \<Rightarrow>
   (browse_answer \<times> trees \<times> artcache) res" where
  "browsedispatch be now objid flag offset cnt rootmap t cache =
     (case find_tree objid rootmap of
        None \<Rightarrow> Inl (Raised ''Browse: dispatch: bad objid not in rootmap'')
      | Some name \<Rightarrow> browse_tree be now name objid flag offset cnt t cache)"

definition wait_answer :: "buildenv \<Rightarrow> string \<Rightarrow> string \<Rightarrow> browse_answer" where
  "wait_answer be objid msg =
     whole_answer (Some [Some (waitentry (objid @ ''notready'') objid (fc_httphp (be_fc be)) msg)])"

definition int_arg :: "(string \<rightharpoonup> string) \<Rightarrow> string \<Rightarrow> int res" where
  "int_arg a k = (case a k of None \<Rightarrow> Inr 0 | Some v \<Rightarrow> py_int v)"

text \<open>What is answered once the arguments are read, under the read lock.\<close>

definition browse_ready ::
  "buildenv \<Rightarrow> int \<Rightarrow> string \<Rightarrow> string \<Rightarrow> int \<Rightarrow> int \<Rightarrow> uprcl \<Rightarrow> (browse_answer \<times> uprcl) res" where
  "browse_ready be now objid flag offset cnt up =
     (case up_trees up of
        None \<Rightarrow> Inl KeyError
      | Some t \<Rightarrow>
          if replace_first (be_prefix be) [] objid = [] then
            bindR (app_rootentries be t (up_rootmap up)) (\<lambda>(es, m).
              Inr (whole_answer (Some (map Some es)), up\<lparr>up_rootmap := m\<rparr>))
          else
            bindR (if up_rootmap up = [] then bindR (app_rootentries be t []) (\<lambda>(es, m). Inr m)
                   else Inr (up_rootmap up)) (\<lambda>m.
            bindR (browsedispatch be now objid flag offset cnt m t (up_cache up)) (\<lambda>(an, t, cache).
              Inr (an, up\<lparr>up_rootmap := m, up_trees := Some t, up_cache := cache\<rparr>))))"

definition uprcl_browse :: "buildenv \<Rightarrow> int \<Rightarrow> (string \<rightharpoonup> string) \<Rightarrow> uprcl \<Rightarrow> (browse_answer \<times> uprcl) res" where
  "uprcl_browse be now a up =
     (case a ''objid'' of
        None \<Rightarrow> Inl (Raised ''No objid in args'')
      | Some objid \<Rightarrow>
          bindR (int_arg a ''offset'') (\<lambda>offset.
          bindR (int_arg a ''count'') (\<lambda>cnt.
          if \<not> startswith objid (be_prefix be) then Inl (Raised ''bad objid'')
          else if \<not> initdone up then Inr (wait_answer be objid ''Initializing...'', up)
          else if \<not> up_status up then Inr (wait_answer be objid (''Uprcl init error: '' @ up_message up), up)
          else browse_ready be now objid (case a ''flag'' of None \<Rightarrow> ''children'' | Some f \<Rightarrow> f) offset cnt up)))"

definition uprcl_search_request ::
  "buildenv \<Rightarrow> (string \<Rightarrow> doc list option) \<Rightarrow> nat \<Rightarrow> (string \<rightharpoonup> string) \<Rightarrow> uprcl \<Rightarrow> (entry list \<times> uprcl) res option" where
  "uprcl_search_request be query arraysize a up =
     (case bindR (map_get a ''objid'') (\<lambda>objid.
           if \<not> startswith objid ''0$uprcl$'' then Inl (Raised ''bad objid'')
           else bindR (map_get a ''origsearch'') (\<lambda>upnps. Inr (objid, upnps))) of
        Inl e \<Rightarrow> Some (Inl e)
      | Inr (objid, upnps) \<Rightarrow>
          let wait = (\<lambda>msg. waitentry (objid @ ''notready'') objid (fc_httphp (be_fc be)) msg) in
          if \<not> initdone up then Some (Inr ([wait ''Initializing...''], up))
          else if \<not> up_status up then Some (Inr ([wait (''Uprcl init error: '' @ up_message up)], up))
          else (case up_trees up of
                  None \<Rightarrow> Some (Inl KeyError)
                | Some t \<Rightarrow>
                    map_option (\<lambda>r. bindR r (\<lambda>(es, cache). Inr (es, up\<lparr>up_cache := cache\<rparr>)))
                      (uprcl_search (search_env be query arraysize t) objid upnps (up_cache up))))"

definition uprcl_trackuri :: "'a \<Rightarrow> 'b res" where
  "uprcl_trackuri a = Inl (Raised ''trackuri: should not be called for uprcl!'')"

section \<open>Identifiers of the root lead to their tree\<close>

text \<open>The tree of an identifier shows in its first character after the prefix.\<close>

definition tree_char :: "char \<Rightarrow> string option" where
  "tree_char c =
     (if c = CHR ''f'' then Some ''folders'' else if c = CHR ''p'' then Some ''playlists''
      else if c = CHR ''u'' then Some ''untagged''
      else if c = CHR ''a'' \<or> c = CHR ''i'' \<or> c = CHR ''='' then Some ''tags'' else None)"

definition rootmap_ok :: "string \<Rightarrow> (string \<times> string) list \<Rightarrow> bool" where
  "rootmap_ok p m \<longleftrightarrow> (\<forall>i name. (i, name) \<in> set m \<longrightarrow> (\<exists>c r. i = p @ c # r \<and> tree_char c = Some name))"

definition ids_ok :: "string \<Rightarrow> string \<Rightarrow> entry list \<Rightarrow> bool" where
  "ids_ok p name es \<longleftrightarrow> (\<forall>e \<in> set es. \<exists>c r. e ''id'' = Some (p @ c # r) \<and> tree_char c = Some name)"

lemma rootmap_okD:
  "rootmap_ok p m \<Longrightarrow> (i, name) \<in> set m \<Longrightarrow> \<exists>c r. i = p @ c # r \<and> tree_char c = Some name"
  by (simp add: rootmap_ok_def)

lemma find_tree_ok:
  assumes "rootmap_ok p m" and "(i, name) \<in> set m"
  shows "find_tree (i @ s) m = Some name"
  using assms(1) assms(2)
proof -
  obtain c r where i: "i = p @ c # r" "tree_char c = Some name" using rootmap_okD [OF assms] by blast
  have same: "name' = name" if mem: "(j, name') \<in> set m" and pre: "startswith (i @ s) j" for j name'
  proof -
    obtain d u where j: "j = p @ d # u" "tree_char d = Some name'" using rootmap_okD [OF assms(1) mem] by blast
    have "d = c" using pre i j by (auto simp: startswith_iff)
    then show ?thesis using i j by simp
  qed
  have "set m' \<subseteq> set m \<Longrightarrow> (i, name) \<in> set m' \<Longrightarrow> find_tree (i @ s) m' = Some name" for m'
  proof (induction m')
    case (Cons jn m')
    obtain j n where jn: "jn = (j, n)" by (cases jn)
    show ?case
    proof (cases "startswith (i @ s) j")
      case True
      then show ?thesis using same [of j n] Cons.prems(1) jn by simp
    next
      case False
      then have "jn \<noteq> (i, name)" using jn by auto
      then show ?thesis using Cons False jn by auto
    qed
  qed simp
  then show ?thesis using assms(2) by simp
qed

lemma AList_update_set: "(a, b) \<in> set (AList.update k v m) \<Longrightarrow> (a, b) = (k, v) \<or> (a, b) \<in> set m"
  by (induction m) (auto split: if_splits)

lemma note_ids_ok:
  assumes "ids_ok p name es" and "rootmap_ok p m"
  shows "rootmap_ok p (note_ids name es m)"
  using assms
proof (induction es arbitrary: m)
  case (Cons e es)
  obtain c r where e: "e ''id'' = Some (p @ c # r)" "tree_char c = Some name"
    using Cons.prems(1) by (auto simp: ids_ok_def)
  have "rootmap_ok p (AList.update (key_or_empty ''id'' e) name m)"
    using Cons.prems(2) e by (fastforce simp: rootmap_ok_def key_or_empty_def dest: AList_update_set)
  then show ?case using Cons by (simp add: note_ids_def ids_ok_def)
qed (simp add: note_ids_def)

lemma note_ids_keep:
  "map_of m i = Some n \<Longrightarrow> n = name \<or> i \<notin> (\<lambda>e. key_or_empty ''id'' e) ` set es \<Longrightarrow>
     map_of (note_ids name es m) i = Some n"
  by (induction es arbitrary: m) (auto simp: note_ids_def)

lemma note_ids_mem: "e \<in> set es \<Longrightarrow> map_of (note_ids name es m) (key_or_empty ''id'' e) = Some name"
proof (induction es arbitrary: m)
  case (Cons x es)
  show ?case
  proof (cases "e \<in> set es")
    case False
    then have "e = x" using Cons.prems by simp
    then show ?thesis
      using note_ids_keep [of "AList.update (key_or_empty ''id'' x) name m" "key_or_empty ''id'' x" name name es]
      by (simp add: note_ids_def)
  qed (use Cons in \<open>simp add: note_ids_def\<close>)
qed simp

lemma direntry3_id_ok: "tree_char c = Some name \<Longrightarrow> ids_ok p name [direntry3 (p @ c # r) q t]"
  by (simp add: ids_ok_def)

lemma ids_ok_Cons: "ids_ok p name (e # es) \<longleftrightarrow> ids_ok p name [e] \<and> ids_ok p name es"
  by (simp add: ids_ok_def)

lemma tags_rootentries_ids:
  assumes "Tags.rootentries te db pid path = Inr es"
  shows "ids_ok pid ''tags'' es"
proof -
  let ?entry = "\<lambda>tt. bindR (dict_get (tc_display (te_conf te)) tt) (\<lambda>d. Inr (direntry3 (pid @ ''='' @ tt) pid d))"
  obtain ts es' where es': "mapR ?entry ts = Inr es'" and
    es: "\<exists>x y. es = direntry3 (pid @ ''albums'') pid x # direntry3 (pid @ ''items'') pid y # es'"
    using assms unfolding Tags.rootentries_def Let_def bindR_eq_Inr by blast
  have "\<exists>c r. e ''id'' = Some (pid @ c # r) \<and> tree_char c = Some ''tags''" if e: "e \<in> set es'" for e
  proof -
    obtain tt where "?entry tt = Inr e" using mapR_set [OF es' e] by blast
    then have "e ''id'' = Some (pid @ CHR ''='' # tt)" by (auto simp: bindR_eq_Inr)
    moreover have "tree_char (CHR ''='') = Some ''tags''" by (simp add: tree_char_def)
    ultimately show ?thesis by blast
  qed
  then have "ids_ok pid ''tags'' es'" by (simp add: ids_ok_def)
  moreover obtain x y where "es = direntry3 (pid @ ''albums'') pid x # direntry3 (pid @ ''items'') pid y # es'"
    using es by blast
  ultimately show ?thesis
    by (simp add: ids_ok_Cons [of _ _ _ "_ # _"] ids_ok_Cons [of _ _ _ es'] direntry3_id_ok tree_char_def)
qed

lemma tree_rootentries_ids:
  assumes "tree_rootentries be t name = Inr es"
  shows "ids_ok (be_prefix be) name es"
proof -
  consider "name = ''folders''" | "name = ''playlists''" | "name = ''tags''" | "name = ''untagged''"
    using assms by (auto simp: tree_rootentries_def Let_def split: if_splits)
  then show ?thesis
  proof cases
    case 1
    with assms show ?thesis
      by (auto simp: tree_rootentries_def fo_rootentries_def Let_def intro!: direntry3_id_ok) (simp add: tree_char_def)
  next
    case 2
    with assms show ?thesis
      by (auto simp: tree_rootentries_def pl_rootentries_def Let_def intro!: direntry3_id_ok) (simp add: tree_char_def)
  next
    case 3
    with assms show ?thesis by (auto simp: tree_rootentries_def Let_def intro: tags_rootentries_ids)
  next
    case 4
    with assms show ?thesis
      by (auto simp: tree_rootentries_def ut_rootentries_def Let_def intro!: direntry3_id_ok) (simp add: tree_char_def)
  qed
qed

text \<open>An entry of the root that the map of identifiers knows with the tree it comes from.\<close>

definition tracked :: "buildenv \<Rightarrow> trees \<Rightarrow> (string \<times> string) list \<Rightarrow> entry \<Rightarrow> bool" where
  "tracked be t m e \<longleftrightarrow>
     (\<exists>i name es. e ''id'' = Some i \<and> map_of m i = Some name \<and> tree_rootentries be t name = Inr es \<and> e \<in> set es)"

lemma trackedE:
  assumes "tracked be t m e"
  obtains i name es where "e ''id'' = Some i" and "map_of m i = Some name"
    and "tree_rootentries be t name = Inr es" and "e \<in> set es"
  using assms unfolding tracked_def by (elim exE conjE)

lemma ids_okE:
  assumes "ids_ok p name es" and "e \<in> set es"
  obtains c r where "e ''id'' = Some (p @ c # r)" and "tree_char c = Some name"
  using assms(1)[unfolded ids_ok_def, rule_format, OF assms(2)] by (elim exE conjE)

lemma tracked_note:
  assumes "tracked be t m e" and "rootmap_ok (be_prefix be) m" and "ids_ok (be_prefix be) name' es'"
  shows "tracked be t (note_ids name' es' m) e"
proof -
  obtain i name es where e: "e ''id'' = Some i" "map_of m i = Some name" "tree_rootentries be t name = Inr es" "e \<in> set es"
    using assms(1) unfolding tracked_def by blast
  obtain c r where i: "i = be_prefix be @ c # r" "tree_char c = Some name"
    using rootmap_okD [OF assms(2) map_of_SomeD [OF e(2)]] by blast
  have "name = name' \<or> i \<notin> (\<lambda>x. key_or_empty ''id'' x) ` set es'"
  proof (rule ccontr)
    assume neg: "\<not> (name = name' \<or> i \<notin> (\<lambda>x. key_or_empty ''id'' x) ` set es')"
    then obtain x where x: "x \<in> set es'" "i = key_or_empty ''id'' x" by blast
    obtain d u where "x ''id'' = Some (be_prefix be @ d # u)" "tree_char d = Some name'"
      using assms(3) x(1) unfolding ids_ok_def by blast
    then show False using x(2) i neg by (simp add: key_or_empty_def)
  qed
  then have "map_of (note_ids name' es' m) i = Some name" using e(2) by (rule note_ids_keep [rotated])
  then show ?thesis using e unfolding tracked_def by blast
qed

lemma app_rootentries_loop:
  assumes "foldR (\<lambda>name (entries, m). bindR (tree_rootentries be t name) (\<lambda>nents.
             Inr (entries @ nents, note_ids name nents m))) names (es0, m0) = Inr (es, m)"
    and "rootmap_ok (be_prefix be) m0" and "\<forall>e \<in> set es0. tracked be t m0 e"
  shows "rootmap_ok (be_prefix be) m \<and> (\<forall>e \<in> set es. tracked be t m e)"
  using assms
proof (induction names arbitrary: es0 m0)
  case (Cons name names)
  let ?step = "\<lambda>name (entries, m). bindR (tree_rootentries be t name) (\<lambda>nents. Inr (entries @ nents, note_ids name nents m))"
  obtain nents where n: "tree_rootentries be t name = Inr nents"
      "foldR ?step names (es0 @ nents, note_ids name nents m0) = Inr (es, m)"
    using Cons.prems(1) unfolding foldR.simps bindR_eq_Inr prod.case by blast
  note ids = tree_rootentries_ids [OF n(1)]
  have "tracked be t (note_ids name nents m0) e" if mem: "e \<in> set nents" for e
  proof -
    obtain c r where i: "e ''id'' = Some (be_prefix be @ c # r)" by (rule ids_okE [OF ids mem])
    have "map_of (note_ids name nents m0) (be_prefix be @ c # r) = Some name"
      using note_ids_mem [OF mem, of name m0] i by (simp add: key_or_empty_def)
    then show ?thesis unfolding tracked_def using i n(1) mem by (intro exI conjI)
  qed
  then show ?case
    using Cons.IH [OF n(2)] note_ids_ok [OF ids Cons.prems(2)] tracked_note [OF _ Cons.prems(2) ids] Cons.prems(3)
    by auto
qed simp

text \<open>C8. Every entry of the root leads to the tree that listed it: the identifier of the entry, and
  every identifier made by extending it, is dispatched to this tree, whatever the order in which the
  trees were noted; and listing the root again keeps this.\<close>

theorem root_entries_dispatch:
  assumes "rootmap_ok (be_prefix be) m" and "app_rootentries be t m = Inr (es, m')"
  shows "rootmap_ok (be_prefix be) m' \<and>
    (\<forall>e \<in> set es. \<exists>i name nents. e ''id'' = Some i \<and> tree_rootentries be t name = Inr nents \<and> e \<in> set nents \<and>
       (\<forall>s. find_tree (i @ s) m' = Some name))"
proof -
  have ok: "rootmap_ok (be_prefix be) m'" and tr: "\<forall>e \<in> set es. tracked be t m' e"
    using app_rootentries_loop [OF assms(2) [unfolded app_rootentries_def] assms(1)] by simp_all
  have "\<exists>i name nents. e ''id'' = Some i \<and> tree_rootentries be t name = Inr nents \<and> e \<in> set nents \<and>
       (\<forall>s. find_tree (i @ s) m' = Some name)" if mem: "e \<in> set es" for e
  proof -
    obtain i name nents where e: "e ''id'' = Some i" "map_of m' i = Some name" "tree_rootentries be t name = Inr nents"
        "e \<in> set nents"
      by (rule trackedE [OF tr [rule_format, OF mem]])
    have "\<forall>s. find_tree (i @ s) m' = Some name"
      using find_tree_ok [OF ok map_of_SomeD [OF e(2)]] by simp
    then show ?thesis using e(1,3,4) by (intro exI conjI)
  qed
  then show ?thesis using ok by blast
qed

definition demo_be :: buildenv where
  "demo_be = \<lparr>be_fc = \<lparr>fc_fs = demo_fs, fc_httphp = ''h:1'', fc_pprefix = ''/uprcl'', fc_enabletags = True,
       fc_notagview = False, fc_readfile = (\<lambda>_. None)\<rparr>, be_topdirs = [''/m''], be_pick = hd,
     be_tags = demo_tags [], be_upconfig = empty_conf False True True, be_environ = Map.empty,
     be_radios = [], be_prefix = ''0$uprcl$''\<rparr>"

definition demo_trees :: trees where
  "demo_trees = \<lparr>tr_folders = pe_folders demo_plenv, tr_untagged = [-1], tr_playlists = demo_playlists,
     tr_tagdb = demo_tagdb, tr_tagconf = te_conf demo_tagsenv, tr_tagsst = Tagged_init\<rparr>"

theorem root_entries_dispatch_witness:
  "\<exists>es m. app_rootentries demo_be demo_trees [] = Inr (es, m) \<and>
     map (\<lambda>e. e ''id'') es = [Some ''0$uprcl$folders'', Some ''0$uprcl$playlists'', Some ''0$uprcl$albums'',
       Some ''0$uprcl$items'', Some ''0$uprcl$=Genre'', Some ''0$uprcl$untagged''] \<and>
     rootmap_ok ''0$uprcl$'' m"
proof -
  let ?r = "app_rootentries demo_be demo_trees []"
  have "map_sum id (\<lambda>(es, m). map (\<lambda>e. e ''id'') es) ?r =
      Inr [Some ''0$uprcl$folders'', Some ''0$uprcl$playlists'', Some ''0$uprcl$albums'',
       Some ''0$uprcl$items'', Some ''0$uprcl$=Genre'', Some ''0$uprcl$untagged'']"
    by code_simp
  then obtain x where "?r = Inr x" "(\<lambda>(es, m). map (\<lambda>e. e ''id'') es) x =
      [Some ''0$uprcl$folders'', Some ''0$uprcl$playlists'', Some ''0$uprcl$albums'',
       Some ''0$uprcl$items'', Some ''0$uprcl$=Genre'', Some ''0$uprcl$untagged'']"
    by (cases ?r) simp_all
  then obtain es m where r: "?r = Inr (es, m)" "map (\<lambda>e. e ''id'') es =
      [Some ''0$uprcl$folders'', Some ''0$uprcl$playlists'', Some ''0$uprcl$albums'',
       Some ''0$uprcl$items'', Some ''0$uprcl$=Genre'', Some ''0$uprcl$untagged'']"
    by (cases x) simp
  have "rootmap_ok (be_prefix demo_be) []" by (simp add: rootmap_ok_def)
  from root_entries_dispatch [OF this r(1), THEN conjunct1] r show ?thesis by (simp add: demo_be_def)
qed

end
