(* ===== verification/PyJson.thy ===== *)
theory PyJson
  imports PyInt PyUrl
begin

text \<open>
  JSON as \<open>json.dumps\<close> and \<open>json.loads\<close> of the standard library have it, for objects whose members
  are texts, integers, truth values or null. Written text is ASCII: a character outside it is
  written by its code points in UTF-16, so the UTF-8 text of the model is decoded for it and encoded
  again after reading. The reader accepts any JSON object of this kind; nested and fractional values
  are refused (the sources never write them). Reading inverts writing.
\<close>

section \<open>Code points\<close>

fun code_points :: "string \<Rightarrow> nat list" where
  "code_points [] = []"
| "code_points (a # r) =
     (let n = (of_char a :: nat) in
      if n < 128 then n # code_points r
      else (case r of
        [] \<Rightarrow> []
      | b # r1 \<Rightarrow>
          let m = (of_char b :: nat) - 128 in
          if n < 224 then ((n - 192) * 64 + m) # code_points r1
          else (case r1 of
            [] \<Rightarrow> []
          | c # r2 \<Rightarrow>
              let k = (of_char c :: nat) - 128 in
              if n < 240 then ((n - 224) * 4096 + (m * 64 + k)) # code_points r2
              else (case r2 of
                [] \<Rightarrow> []
              | d # r3 \<Rightarrow>
                  let l = (of_char d :: nat) - 128 in
                  ((n - 240) * 262144 + (m * 4096 + (k * 64 + l))) # code_points r3))))"

definition utf8_of :: "nat \<Rightarrow> string" where
  "utf8_of u =
     (if u < 128 then [char_of u]
      else if u < 2048 then [char_of (192 + u div 64), char_of (128 + u mod 64)]
      else if u < 65536 then
        [char_of (224 + u div 4096), char_of (128 + u div 64 mod 64), char_of (128 + u mod 64)]
      else [char_of (240 + u div 262144), char_of (128 + u div 4096 mod 64),
            char_of (128 + u div 64 mod 64), char_of (128 + u mod 64)])"

definition scalar :: "nat \<Rightarrow> bool" where
  "scalar u \<longleftrightarrow> u < 1114112 \<and> \<not> (55296 \<le> u \<and> u \<le> 57343)"

lemma base_div [simp]: "b < k \<Longrightarrow> (a * k + b) div k = (a :: nat)" "b < k \<Longrightarrow> (a * k + b) mod k = (b :: nat)"
  by auto

lemma utf8_of_1: "u < 128 \<Longrightarrow> utf8_of u = [char_of u] \<and> scalar u"
  by (simp add: utf8_of_def scalar_def)

lemma utf8_of_2:
  assumes "2 \<le> x" "x < 32" "y < 64"
  shows "utf8_of (x * 64 + y) = [char_of (192 + x), char_of (128 + y)] \<and> scalar (x * 64 + y)"
  using assms by (auto simp: utf8_of_def scalar_def)

lemma base64_3:
  assumes "y < 64" "z < (64 :: nat)"
  shows "(x * 4096 + (y * 64 + z)) div 4096 = x" "(x * 4096 + (y * 64 + z)) div 64 mod 64 = y"
    "(x * 4096 + (y * 64 + z)) mod 64 = z"
proof -
  have r: "x * 4096 + (y * 64 + z) = (x * 64 + y) * 64 + z" by simp
  show "(x * 4096 + (y * 64 + z)) div 4096 = x" using assms by (intro base_div) linarith
  show "(x * 4096 + (y * 64 + z)) div 64 mod 64 = y" "(x * 4096 + (y * 64 + z)) mod 64 = z"
    unfolding r using assms by (simp_all only: base_div)
qed

lemma utf8_of_3:
  assumes "x < 16" "y < 64" "z < 64" "x = 0 \<longrightarrow> 32 \<le> y" "x = 13 \<longrightarrow> y < 32"
  shows "utf8_of (x * 4096 + (y * 64 + z)) = [char_of (224 + x), char_of (128 + y), char_of (128 + z)]
    \<and> scalar (x * 4096 + (y * 64 + z))"
proof -
  let ?u = "x * 4096 + (y * 64 + z)"
  have "2048 \<le> ?u" using assms(4) by (cases x) auto
  moreover have "?u < 65536" using assms(1-3) by linarith
  moreover have "\<not> (55296 \<le> ?u \<and> ?u \<le> 57343)"
  proof
    assume "55296 \<le> ?u \<and> ?u \<le> 57343"
    then have "x = 13" using assms(2,3) by linarith
    with assms show False using \<open>55296 \<le> ?u \<and> ?u \<le> 57343\<close> by linarith
  qed
  ultimately show ?thesis using base64_3 [OF assms(2,3), of x] by (simp add: utf8_of_def scalar_def)
qed

lemma base64_4:
  assumes "y < 64" "z < 64" "w < (64 :: nat)"
  shows "(x * 262144 + (y * 4096 + (z * 64 + w))) div 262144 = x"
    "(x * 262144 + (y * 4096 + (z * 64 + w))) div 4096 mod 64 = y"
    "(x * 262144 + (y * 4096 + (z * 64 + w))) div 64 mod 64 = z"
    "(x * 262144 + (y * 4096 + (z * 64 + w))) mod 64 = w"
proof -
  have r: "x * 262144 + (y * 4096 + (z * 64 + w)) = (x * 64 + y) * 4096 + (z * 64 + w)" by simp
  show "(x * 262144 + (y * 4096 + (z * 64 + w))) div 262144 = x" using assms by (intro base_div) linarith
  show "(x * 262144 + (y * 4096 + (z * 64 + w))) div 4096 mod 64 = y"
    unfolding r base64_3 [OF assms(2,3)] using assms(1) by (rule base_div)
  show "(x * 262144 + (y * 4096 + (z * 64 + w))) div 64 mod 64 = z"
    "(x * 262144 + (y * 4096 + (z * 64 + w))) mod 64 = w"
    unfolding r by (rule base64_3 [OF assms(2,3)])+
qed

lemma utf8_of_4:
  assumes "x < 5" "y < 64" "z < 64" "w < 64" "x = 0 \<longrightarrow> 16 \<le> y" "x = 4 \<longrightarrow> y < 16"
  shows "utf8_of (x * 262144 + (y * 4096 + (z * 64 + w))) =
      [char_of (240 + x), char_of (128 + y), char_of (128 + z), char_of (128 + w)]
    \<and> scalar (x * 262144 + (y * 4096 + (z * 64 + w)))"
proof -
  let ?u = "x * 262144 + (y * 4096 + (z * 64 + w))"
  have "65536 \<le> ?u" using assms(5) by (cases x) auto
  moreover have "?u < 1114112"
  proof (cases "x = 4")
    case True
    with assms(3,4,6) show ?thesis by linarith
  next
    case False
    with assms(1-4) show ?thesis by linarith
  qed
  ultimately show ?thesis using base64_4 [OF assms(2-4), of x] by (simp add: utf8_of_def scalar_def)
qed

lemma char_minus [simp]: "k \<le> (of_char c :: nat) \<Longrightarrow> char_of (k + ((of_char c :: nat) - k)) = c"
  by simp

lemma valid_utf8_cases:
  assumes "valid_utf8 (a # r)"
  obtains (one) "(of_char a :: nat) < 128" "valid_utf8 r"
  | (two) b r1 where "r = b # r1" "valid_utf8 r1" "194 \<le> (of_char a :: nat)" "(of_char a :: nat) \<le> 223" "is_cont b"
  | (three) b c r2 where "r = b # c # r2" "valid_utf8 r2" "224 \<le> (of_char a :: nat)" "(of_char a :: nat) \<le> 239"
      "is_cont b" "is_cont c" "of_char a = (224 :: nat) \<longrightarrow> 160 \<le> (of_char b :: nat)"
      "of_char a = (237 :: nat) \<longrightarrow> (of_char b :: nat) < 160"
  | (four) b c d r3 where "r = b # c # d # r3" "valid_utf8 r3" "240 \<le> (of_char a :: nat)" "(of_char a :: nat) \<le> 244"
      "is_cont b" "is_cont c" "is_cont d" "of_char a = (240 :: nat) \<longrightarrow> 144 \<le> (of_char b :: nat)"
      "of_char a = (244 :: nat) \<longrightarrow> (of_char b :: nat) < 144"
  using assms unfolding valid_utf8.simps(2) Let_def
  by (simp only: split: if_splits list.splits) (metis+)?

lemma cont_bounds: "is_cont b \<Longrightarrow> 128 \<le> (of_char b :: nat) \<and> (of_char b :: nat) - 128 < 64"
  by (auto simp: is_cont_def Let_def)

lemma code_points_valid:
  "valid_utf8 s \<Longrightarrow> concat (map utf8_of (code_points s)) = s \<and> list_all scalar (code_points s)"
proof (induction s rule: length_induct)
  case (1 s)
  then have IH: "valid_utf8 r \<Longrightarrow> length r < length s \<Longrightarrow>
    concat (map utf8_of (code_points r)) = r \<and> list_all scalar (code_points r)" for r by blast
  show ?case
  proof (cases s)
    case (Cons a r)
    with "1.prems" have "valid_utf8 (a # r)" by simp
    then show ?thesis
    proof (cases rule: valid_utf8_cases)
      case one
      with utf8_of_1 [of "of_char a"] IH [of r] show ?thesis by (simp add: Cons)
    next
      case (two b r1)
      with utf8_of_2 [of "of_char a - 192" "of_char b - 128"] cont_bounds [of b] IH [of r1]
      show ?thesis by (simp add: Cons)
    next
      case (three b c r2)
      then have "of_char a - 224 < (16 :: nat)" "of_char a - (224 :: nat) = 0 \<longrightarrow> 32 \<le> of_char b - (128 :: nat)"
        "of_char a - (224 :: nat) = 13 \<longrightarrow> of_char b - (128 :: nat) < 32" by auto
      with utf8_of_3 [of "of_char a - 224" "of_char b - 128" "of_char c - 128"]
        cont_bounds [of b] cont_bounds [of c] IH [of r2] three
      show ?thesis by (simp add: Cons)
    next
      case (four b c d r3)
      then have "of_char a - 240 < (5 :: nat)" "of_char a - (240 :: nat) = 0 \<longrightarrow> 16 \<le> of_char b - (128 :: nat)"
        "of_char a - (240 :: nat) = 4 \<longrightarrow> of_char b - (128 :: nat) < 16" by auto
      with utf8_of_4 [of "of_char a - 240" "of_char b - 128" "of_char c - 128" "of_char d - 128"]
        cont_bounds [of b] cont_bounds [of c] cont_bounds [of d] IH [of r3] four
      show ?thesis by (simp add: Cons)
    qed
  qed simp
qed

section \<open>Writing\<close>

datatype jval = JNull | JBool bool | JInt int | JStr string

definition hex_lower :: "nat \<Rightarrow> char" where
  "hex_lower d = (if d < 10 then char_of (48 + d) else char_of (87 + d))"

definition hex4_text :: "nat \<Rightarrow> string" where
  "hex4_text u = [hex_lower (u div 4096), hex_lower (u div 256 mod 16), hex_lower (u div 16 mod 16), hex_lower (u mod 16)]"

definition json_escape :: "nat \<Rightarrow> string" where
  "json_escape u =
     (if u = 34 then [CHR 0x5C, CHR 0x22] else if u = 92 then [CHR 0x5C, CHR 0x5C]
      else if u = 10 then [CHR 0x5C, CHR ''n''] else if u = 13 then [CHR 0x5C, CHR ''r'']
      else if u = 9 then [CHR 0x5C, CHR ''t''] else if u = 12 then [CHR 0x5C, CHR ''f'']
      else if u = 8 then [CHR 0x5C, CHR ''b'']
      else if 32 \<le> u \<and> u \<le> 126 then [char_of u]
      else if u < 65536 then [CHR 0x5C, CHR ''u''] @ hex4_text u
      else [CHR 0x5C, CHR ''u''] @ hex4_text (55296 + (u - 65536) div 1024)
        @ [CHR 0x5C, CHR ''u''] @ hex4_text (56320 + (u - 65536) mod 1024))"

definition json_string :: "string \<Rightarrow> string" where
  "json_string s = CHR 0x22 # concat (map json_escape (code_points s)) @ [CHR 0x22]"

fun json_value :: "jval \<Rightarrow> string" where
  "json_value JNull = ''null''"
| "json_value (JBool b) = (if b then ''true'' else ''false'')"
| "json_value (JInt i) = str_int i"
| "json_value (JStr s) = json_string s"

definition json_member :: "string \<times> jval \<Rightarrow> string" where
  "json_member kv = json_string (fst kv) @ '': '' @ json_value (snd kv)"

definition json_dumps :: "(string \<times> jval) list \<Rightarrow> string" where
  "json_dumps d = ''{'' @ join_with '', '' (map json_member d) @ ''}''"

section \<open>Reading\<close>

fun hex4 :: "string \<Rightarrow> (nat \<times> string) option" where
  "hex4 (a # b # c # d # r) =
     (case (hex_val a, hex_val b, hex_val c, hex_val d) of
        (Some h, Some i, Some j, Some k) \<Rightarrow> Some (((h * 16 + i) * 16 + j) * 16 + k, r)
      | _ \<Rightarrow> None)"
| "hex4 _ = None"

text \<open>After the backslash: the character that the escape stands for. A high surrogate joins the low
  surrogate escaped after it.\<close>

definition read_u :: "string \<Rightarrow> (string \<times> string) option" where
  "read_u s =
     (case hex4 s of
        None \<Rightarrow> None
      | Some (n, r) \<Rightarrow>
          if 55296 \<le> n \<and> n \<le> 56319 \<and> startswith r [CHR 0x5C, CHR ''u''] then
            (case hex4 (drop 2 r) of
               None \<Rightarrow> None
             | Some (m, r2) \<Rightarrow>
                 if 56320 \<le> m \<and> m \<le> 57343
                 then Some (utf8_of (65536 + (n - 55296) * 1024 + (m - 56320)), r2)
                 else Some (utf8_of n, r))
          else Some (utf8_of n, r))"

definition read_escape :: "string \<Rightarrow> (string \<times> string) option" where
  "read_escape s =
     (case s of
        [] \<Rightarrow> None
      | c # r \<Rightarrow>
          if c = CHR ''u'' then read_u r
          else map_option (\<lambda>t. ([t], r))
            (map_of [(CHR 0x22, CHR 0x22), (CHR 0x5C, CHR 0x5C), (CHR ''/'', CHR ''/''), (CHR ''b'', CHR 0x08),
               (CHR ''f'', CHR 0x0C), (CHR ''n'', CHR 0x0A), (CHR ''r'', CHR 0x0D), (CHR ''t'', CHR 0x09)] c))"

lemma hex4_shorter: "hex4 s = Some (n, r) \<Longrightarrow> length r < length s"
  by (cases s rule: hex4.cases) (auto split: option.splits)

lemma read_escape_shorter: "read_escape s = Some (t, r) \<Longrightarrow> length r < length s"
  by (fastforce simp: read_escape_def read_u_def split: option.splits list.splits if_splits prod.splits dest: hex4_shorter)

text \<open>The text up to the closing quote, and what follows it.\<close>

function read_string :: "string \<Rightarrow> (string \<times> string) res" where
  "read_string [] = Inl ValueError"
| "read_string (c # s) =
     (if c = CHR 0x22 then Inr ([], s)
      else if c = CHR 0x5C then
        (case read_escape s of
           None \<Rightarrow> Inl ValueError
         | Some (t, r) \<Rightarrow> bindR (read_string r) (\<lambda>(u, q). Inr (t @ u, q)))
      else if (of_char c :: nat) < 32 then Inl ValueError
      else bindR (read_string s) (\<lambda>(u, q). Inr (c # u, q)))"
  by pat_completeness auto
termination
  by (relation "measure length") (auto dest!: read_escape_shorter)

definition json_space :: "char \<Rightarrow> bool" where
  "json_space c \<longleftrightarrow> c \<in> {CHR '' '', CHR 0x09, CHR 0x0A, CHR 0x0D}"

definition skip_space :: "string \<Rightarrow> string" where
  "skip_space s = dropWhile json_space s"

text \<open>A number: a zero or digits not starting with one; a fraction or an exponent is refused.\<close>

definition read_digits :: "string \<Rightarrow> string" where
  "read_digits t = (if startswith t ''0'' then ''0'' else takeWhile is_digit t)"

definition read_int :: "string \<Rightarrow> (int \<times> string) res" where
  "read_int s =
     (let neg = startswith s ''-''; t = (if neg then tl s else s);
          ds = read_digits t; r = drop (length ds) t
      in if ds = [] then Inl ValueError
         else if r \<noteq> [] \<and> hd r \<in> {CHR ''.'', CHR ''e'', CHR ''E''} then Inl (Raised ''json: not an integer'')
         else bindR (nat_res ds) (\<lambda>n. Inr (if neg then - int n else int n, r)))"

definition read_value :: "string \<Rightarrow> (jval \<times> string) res" where
  "read_value s =
     (if startswith s [CHR 0x22] then bindR (read_string (tl s)) (\<lambda>(t, r). Inr (JStr t, r))
      else if startswith s ''true'' then Inr (JBool True, drop 4 s)
      else if startswith s ''false'' then Inr (JBool False, drop 5 s)
      else if startswith s ''null'' then Inr (JNull, drop 4 s)
      else if startswith s ''{'' \<or> startswith s ''['' then Inl (Raised ''json: nested value'')
      else bindR (read_int s) (\<lambda>(i, r). Inr (JInt i, r)))"

definition read_member :: "string \<Rightarrow> ((string \<times> jval) \<times> string) res" where
  "read_member s =
     (if \<not> startswith s [CHR 0x22] then Inl ValueError
      else bindR (read_string (tl s)) (\<lambda>(k, r).
        if \<not> startswith (skip_space r) '':'' then Inl ValueError
        else bindR (read_value (skip_space (tl (skip_space r)))) (\<lambda>(v, q). Inr ((k, v), skip_space q))))"

lemma read_string_shorter: "read_string s = Inr (t, r) \<Longrightarrow> length r < length s"
proof (induction s arbitrary: t r rule: read_string.induct)
  case (2 c s)
  then show ?case
    by (fastforce simp: bindR_eq_Inr split: if_splits option.splits dest!: read_escape_shorter)
qed simp

lemma skip_space_length: "length (skip_space s) \<le> length s"
  by (simp add: skip_space_def length_dropWhile_le)

lemma read_value_shorter: "read_value s = Inr (v, r) \<Longrightarrow> length r \<le> length s"
  by (auto simp: read_value_def bindR_eq_Inr read_int_def Let_def split: if_splits dest!: read_string_shorter)

lemma read_member_shorter:
  assumes "read_member s = Inr (m, r)"
  shows "length r < length s"
proof -
  from assms obtain k r1 v q where 1: "startswith s [CHR 0x22]" "read_string (tl s) = Inr (k, r1)"
    and 2: "read_value (skip_space (tl (skip_space r1))) = Inr (v, q)" and 3: "r = skip_space q"
    by (auto simp: read_member_def bindR_eq_Inr split: if_splits)
  have "length r \<le> length (skip_space (tl (skip_space r1)))"
    using read_value_shorter [OF 2] skip_space_length [of q] 3 by simp
  also have "\<dots> \<le> length (tl (skip_space r1))" by (rule skip_space_length)
  also have "\<dots> \<le> length r1" using skip_space_length [of r1] by simp
  also have "\<dots> < length (tl s)" by (rule read_string_shorter [OF 1(2)])
  finally show ?thesis by simp
qed

function read_members :: "(string \<times> jval) list \<Rightarrow> string \<Rightarrow> ((string \<times> jval) list \<times> string) res" where
  "read_members d s =
     (case read_member s of
        Inl e \<Rightarrow> Inl e
      | Inr (m, r) \<Rightarrow>
          let d = AList.update (fst m) (snd m) d in
          if startswith r ''}'' then Inr (d, tl r)
          else if startswith r '','' then read_members d (skip_space (tl r))
          else Inl ValueError)"
  by pat_completeness auto
termination
proof (relation "measure (\<lambda>(_, s). length s)")
  fix d s p m r and d' :: "(string \<times> jval) list"
  assume "read_member s = Inr p" "(m, r) = p"
  then have "length r < length s" using read_member_shorter [of s m r] by simp
  then show "((d', skip_space (tl r)), d, s) \<in> measure (\<lambda>(_, s). length s)"
    using skip_space_length [of "tl r"] by auto
qed simp

text \<open>What is not an object is refused: no identifier can be made of it.\<close>

definition json_loads :: "string \<Rightarrow> (string \<times> jval) list res" where
  "json_loads s =
     (let s = skip_space s in
      if \<not> startswith s ''{'' then Inl (Raised ''json: not an object'')
      else let r = skip_space (tl s) in
        bindR (if startswith r ''}'' then Inr ([], tl r) else read_members [] r) (\<lambda>(d, q).
          if skip_space q = [] then Inr d else Inl ValueError))"

section \<open>Reading inverts writing\<close>

lemma hex_val_lower [simp]: "d < 16 \<Longrightarrow> hex_val (hex_lower d) = Some d"
  by (auto simp: hex_val_def hex_lower_def Let_def)

lemma hex4_text [simp]: "u < 65536 \<Longrightarrow> hex4 (hex4_text u @ r) = Some (u, r)"
proof -
  assume u: "u < 65536"
  then have "u div 4096 < 16" by auto
  moreover have "u div 4096 = u div 256 div 16" "u div 256 = u div 16 div 16" by (simp_all add: div_mult2_eq [symmetric])
  then have "u div 4096 * 16 + u div 256 mod 16 = u div 256" "u div 256 * 16 + u div 16 mod 16 = u div 16"
    by (metis div_mult_mod_eq)+
  ultimately show ?thesis by (simp add: hex4_text_def)
qed

lemma read_string_u:
  assumes "read_u s = Some (t, r)"
  shows "read_string (CHR 0x5C # CHR ''u'' # s) = bindR (read_string r) (\<lambda>(u, q). Inr (t @ u, q))"
  using assms by (simp add: read_escape_def)

lemma utf8_of_ascii: "32 \<le> u \<Longrightarrow> u \<le> 126 \<Longrightarrow> utf8_of u = [char_of u]"
  by (simp add: utf8_of_1)

lemma read_string_short:
  "read_string (CHR 0x5C # CHR 0x22 # r) = bindR (read_string r) (\<lambda>(t, q). Inr (CHR 0x22 # t, q))"
  "read_string (CHR 0x5C # CHR 0x5C # r) = bindR (read_string r) (\<lambda>(t, q). Inr (CHR 0x5C # t, q))"
  "read_string (CHR 0x5C # CHR ''n'' # r) = bindR (read_string r) (\<lambda>(t, q). Inr (CHR 0x0A # t, q))"
  "read_string (CHR 0x5C # CHR ''r'' # r) = bindR (read_string r) (\<lambda>(t, q). Inr (CHR 0x0D # t, q))"
  "read_string (CHR 0x5C # CHR ''t'' # r) = bindR (read_string r) (\<lambda>(t, q). Inr (CHR 0x09 # t, q))"
  "read_string (CHR 0x5C # CHR ''f'' # r) = bindR (read_string r) (\<lambda>(t, q). Inr (CHR 0x0C # t, q))"
  "read_string (CHR 0x5C # CHR ''b'' # r) = bindR (read_string r) (\<lambda>(t, q). Inr (CHR 0x08 # t, q))"
  by (simp_all add: read_escape_def)

lemma char_neq: "(of_char c :: nat) \<noteq> of_char d \<Longrightarrow> c \<noteq> d"
  by auto

lemma read_string_plain:
  fixes u :: nat
  assumes "32 \<le> u" "u \<le> 126" "u \<noteq> 34" "u \<noteq> 92"
  shows "read_string (char_of u # r) = bindR (read_string r) (\<lambda>(t, q). Inr (char_of u # t, q))"
proof -
  have o: "of_char (char_of u :: char) = u" using assms by simp
  have "char_of u \<noteq> CHR 0x22" by (rule char_neq) (use o assms(3) in simp)
  moreover have "char_of u \<noteq> CHR 0x5C" by (rule char_neq) (use o assms(4) in simp)
  ultimately show ?thesis using o assms(1) by simp
qed

lemma surrogates:
  fixes u :: nat
  assumes "65536 \<le> u" "u < 1114112"
  defines "v \<equiv> u - 65536"
  shows "55296 \<le> 55296 + v div 1024" "55296 + v div 1024 \<le> 56319" "56320 \<le> 56320 + v mod 1024"
    "56320 + v mod 1024 \<le> 57343" "65536 + (55296 + v div 1024 - 55296) * 1024 + (56320 + v mod 1024 - 56320) = u"
proof -
  have "v div 1024 < 1024" using assms by (simp add: less_mult_imp_div_less)
  then show "55296 + v div 1024 \<le> 56319" by simp
  have "v mod 1024 < 1024" by simp
  then show "56320 + v mod 1024 \<le> 57343" by linarith
  have "v div 1024 * 1024 + v mod 1024 = v" by simp
  then show "65536 + (55296 + v div 1024 - 55296) * 1024 + (56320 + v mod 1024 - 56320) = u"
    using assms by (simp del: div_mult_mod_eq)
qed simp_all

lemma read_u_single: "scalar u \<Longrightarrow> u < 65536 \<Longrightarrow> read_u (hex4_text u @ r) = Some (utf8_of u, r)"
  by (auto simp: read_u_def scalar_def)

lemma read_u_pair:
  assumes "65536 \<le> u" "u < 1114112"
  shows "read_u (hex4_text (55296 + (u - 65536) div 1024) @
      CHR 0x5C # CHR ''u'' # hex4_text (56320 + (u - 65536) mod 1024) @ r) = Some (utf8_of u, r)"
proof -
  note s = surrogates [OF assms]
  have "55296 + (u - 65536) div 1024 < 65536" "56320 + (u - 65536) mod 1024 < 65536" using s(2,4) by linarith+
  then show ?thesis using s by (simp add: read_u_def del: add_diff_cancel_left')
qed

lemma read_string_escape:
  assumes "scalar u"
  shows "read_string (json_escape u @ r) = bindR (read_string r) (\<lambda>(t, q). Inr (utf8_of u @ t, q))"
proof (cases "u \<in> {34, 92, 10, 13, 9, 12, 8}")
  case True
  moreover have "char_of (34 :: nat) = CHR 0x22" "char_of (92 :: nat) = CHR 0x5C" "char_of (10 :: nat) = CHR 0x0A"
    "char_of (13 :: nat) = CHR 0x0D" "char_of (9 :: nat) = CHR 0x09" "char_of (12 :: nat) = CHR 0x0C"
    "char_of (8 :: nat) = CHR 0x08" by code_simp+
  ultimately show ?thesis
    using utf8_of_1 [of 34] utf8_of_1 [of 92] utf8_of_1 [of 10] utf8_of_1 [of 13] utf8_of_1 [of 9] utf8_of_1 [of 12]
      utf8_of_1 [of 8]
    by (elim insertE emptyE) (simp_all add: json_escape_def read_string_short del: read_string.simps)
next
  case special: False
  show ?thesis
  proof (cases "32 \<le> u \<and> u \<le> 126")
    case True
    with special show ?thesis
      by (simp add: json_escape_def read_string_plain utf8_of_ascii del: read_string.simps)
  next
    case False
    show ?thesis
    proof (cases "u < 65536")
      case True
      with False special have "json_escape u @ r = CHR 0x5C # CHR ''u'' # hex4_text u @ r"
        by (simp add: json_escape_def)
      then show ?thesis using read_string_u [OF read_u_single [OF assms True, of r]] by simp
    next
      case big: False
      with False special have "json_escape u @ r = CHR 0x5C # CHR ''u'' # hex4_text (55296 + (u - 65536) div 1024) @
          CHR 0x5C # CHR ''u'' # hex4_text (56320 + (u - 65536) mod 1024) @ r"
        by (simp add: json_escape_def)
      moreover have "65536 \<le> u" "u < 1114112" using big assms by (auto simp: scalar_def)
      ultimately show ?thesis using read_string_u [OF read_u_pair [of u r]] by simp
    qed
  qed
qed

lemma read_string_text:
  "list_all scalar us \<Longrightarrow>
   read_string (concat (map json_escape us) @ CHR 0x22 # r) = Inr (concat (map utf8_of us), r)"
  by (induction us) (simp_all add: read_string_escape)

lemma read_json_string [simp]: "valid_utf8 t \<Longrightarrow> read_string (tl (json_string t @ r)) = Inr (t, r)"
  using code_points_valid [of t] read_string_text [of "code_points t" r] by (simp add: json_string_def)

lemma json_string_quote [simp]: "startswith (json_string t @ r) [CHR 0x22]"
  by (simp add: json_string_def)

definition ends_value :: "string \<Rightarrow> bool" where
  "ends_value r \<longleftrightarrow> (\<exists>c r'. r = c # r' \<and> c \<in> {CHR '','', CHR ''}''})"

lemma hd_str_nat: "hd (str_nat n) = CHR ''0'' \<Longrightarrow> n = 0"
proof (induction n rule: str_nat.induct)
  case (1 n)
  have "digit_char d = CHR ''0'' \<Longrightarrow> d < 10 \<Longrightarrow> d = 0" for d
    using of_char_digit_char [of d] by auto
  then show ?case using 1 by (cases "n < 10") (simp_all add: hd_append str_nat.simps [of n])
qed

lemma takeWhile_digits: "ends_value r \<Longrightarrow> takeWhile is_digit (str_nat n @ r) = str_nat n"
  by (subst takeWhile_append2) (auto simp: ends_value_def is_digit_def [of "CHR '',''"] is_digit_def [of "CHR ''}''"]
      dest: str_nat_digits)

lemma read_int_nat:
  assumes "ends_value r" "\<not> startswith (str_nat n @ r) ''-''"
  shows "read_int (str_nat n @ r) = Inr (int n, r)" "read_int (CHR ''-'' # str_nat n @ r) = Inr (- int n, r)"
proof -
  have ds: "read_digits (str_nat n @ r) = str_nat n"
  proof (cases "startswith (str_nat n @ r) ''0''")
    case True
    then have "hd (str_nat n) = CHR ''0''" by (cases "str_nat n") (auto simp: startswith_def)
    then have "n = 0" by (rule hd_str_nat)
    then show ?thesis using True by (simp add: read_digits_def str_nat.simps [of 0] digit_char_def)
  next
    case False
    then show ?thesis using takeWhile_digits [OF assms(1)] by (simp add: read_digits_def)
  qed
  have e: "hd r \<notin> {CHR ''.'', CHR ''e'', CHR ''E''}" using assms(1) by (auto simp: ends_value_def)
  show "read_int (str_nat n @ r) = Inr (int n, r)" using assms ds e by (simp add: read_int_def Let_def)
  show "read_int (CHR ''-'' # str_nat n @ r) = Inr (- int n, r)" using ds e by (simp add: read_int_def Let_def)
qed

lemma str_nat_start: "\<exists>c t. str_nat n = c # t \<and> is_digit c"
  using str_nat_nonempty [of n] str_nat_digits [of "hd (str_nat n)" n] by (cases "str_nat n") auto

lemma read_value_json [simp]:
  assumes "ends_value r" and "\<And>t. v = JStr t \<Longrightarrow> valid_utf8 t"
  shows "read_value (json_value v @ r) = Inr (v, r)"
proof (cases v)
  case (JInt i)
  obtain c t where n: "str_nat (nat \<bar>i\<bar>) = c # t" "is_digit c" using str_nat_start by blast
  then have c: "c \<noteq> CHR ''-'' \<and> c \<noteq> CHR 0x22 \<and> c \<noteq> CHR ''t'' \<and> c \<noteq> CHR ''f'' \<and> c \<noteq> CHR ''n'' \<and> c \<noteq> CHR ''{''
      \<and> c \<noteq> CHR ''[''"
    by (auto simp: is_digit_def)
  with n have "read_int (str_int i @ r) = Inr (i, r)"
    using read_int_nat [OF assms(1), of "nat \<bar>i\<bar>"] by (auto simp: str_int_def)
  then show ?thesis using c n by (auto simp: JInt read_value_def str_int_def)
next
  case (JStr t)
  with assms(2) show ?thesis by (simp add: read_value_def)
next
  case (JBool b)
  then show ?thesis by (simp add: read_value_def)
next
  case JNull
  then show ?thesis by (simp add: read_value_def)
qed

definition json_ok :: "(string \<times> jval) list \<Rightarrow> bool" where
  "json_ok d \<longleftrightarrow> distinct (map fst d) \<and> list_all (\<lambda>(k, v). valid_utf8 k \<and> (case v of JStr t \<Rightarrow> valid_utf8 t | _ \<Rightarrow> True)) d"

lemma read_member_json:
  assumes "valid_utf8 k" and "\<And>t. v = JStr t \<Longrightarrow> valid_utf8 t" and "ends_value r"
  shows "read_member (json_member (k, v) @ r) = Inr ((k, v), r)"
proof -
  have "skip_space r = r" using assms(3) by (auto simp: ends_value_def skip_space_def json_space_def)
  moreover have "skip_space (json_value v @ r) = json_value v @ r"
  proof (cases v)
    case (JInt i)
    obtain c t where "str_nat (nat \<bar>i\<bar>) = c # t" "is_digit c" using str_nat_start by blast
    then show ?thesis by (auto simp: JInt skip_space_def json_space_def str_int_def is_digit_def)
  qed (auto simp: skip_space_def json_space_def json_string_def)
  moreover have "skip_space ('': '' @ s) = '': '' @ s" "skip_space ('' '' @ s) = skip_space s" for s
    by (simp_all add: skip_space_def json_space_def)
  ultimately show ?thesis using assms by (simp add: read_member_def json_member_def)
qed

lemma join_members_start: "ms \<noteq> [] \<Longrightarrow> \<exists>t. join_with '', '' (map json_member ms) = CHR 0x22 # t"
  by (cases ms; cases "tl ms") (auto simp: json_member_def json_string_def)

lemma read_members_json:
  "ms \<noteq> [] \<Longrightarrow> json_ok (d @ ms) \<Longrightarrow>
   read_members d (join_with '', '' (map json_member ms) @ ''}'' @ r) = Inr (d @ ms, r)"
proof (induction ms arbitrary: d)
  case (Cons m ms)
  obtain k v where m: "m = (k, v)" by fastforce
  have ok: "valid_utf8 k" "\<And>t. v = JStr t \<Longrightarrow> valid_utf8 t" "k \<notin> fst ` set d"
    using Cons.prems(2) by (auto simp: json_ok_def m)
  have upd: "AList.update k v d = d @ [(k, v)]" by (rule dict_set_new [OF ok(3)])
  show ?case
  proof (cases ms)
    case Nil
    have "ends_value (''}'' @ r)" by (simp add: ends_value_def)
    from read_member_json [OF ok(1,2) this] show ?thesis
      by (subst read_members.simps) (simp add: Nil m upd)
  next
    case (Cons m' ms')
    let ?rest = "'', '' @ join_with '', '' (map json_member ms) @ ''}'' @ r"
    have "ends_value ?rest" by (simp add: ends_value_def)
    note rm = read_member_json [OF ok(1,2) this]
    have sp: "skip_space (tl ?rest) = join_with '', '' (map json_member ms) @ ''}'' @ r"
      using join_members_start [of ms] by (auto simp: skip_space_def json_space_def Cons)
    have IH: "read_members (d @ [(k, v)]) (join_with '', '' (map json_member ms) @ ''}'' @ r) = Inr ((d @ [(k, v)]) @ ms, r)"
      using Cons Cons.prems by (intro Cons.IH) (simp_all add: m)
    have "join_with '', '' (map json_member (m # ms)) @ ''}'' @ r = json_member (k, v) @ ?rest"
      by (simp add: Cons m)
    then show ?thesis using rm sp IH by (subst read_members.simps) (simp add: upd m)
  qed
qed simp

theorem json_loads_dumps: "json_ok d \<Longrightarrow> json_loads (json_dumps d) = Inr d"
proof (cases "d = []")
  case True
  then show ?thesis by (simp add: json_loads_def json_dumps_def skip_space_def json_space_def)
next
  case False
  let ?m = "join_with '', '' (map json_member d) @ ''}''"
  assume "json_ok d"
  then have r: "read_members [] ?m = Inr (d, [])" using read_members_json [OF False, of "[]" "[]"] by simp
  obtain t where t: "?m = CHR 0x22 # t" using join_members_start [OF False] by auto
  have "skip_space (json_dumps d) = ''{'' @ ?m" "skip_space ?m = ?m"
    using t by (simp_all add: json_dumps_def skip_space_def json_space_def)
  then show ?thesis using r t by (simp add: json_loads_def Let_def skip_space_def)
qed

section \<open>The characters of written text\<close>

definition printable :: "char \<Rightarrow> bool" where
  "printable c \<longleftrightarrow> 32 \<le> (of_char c :: nat) \<and> (of_char c :: nat) < 127"

lemma hex_lower_printable: "d < 16 \<Longrightarrow> printable (hex_lower d) \<and> hex_lower d \<noteq> CHR ''?''"
  by (auto simp: hex_lower_def printable_def intro!: char_neq)

lemma json_escape_printable:
  assumes "u < 1114112" and "c \<in> set (json_escape u)"
  shows "printable c \<and> (c = CHR ''?'' \<longrightarrow> u = 63)"
proof -
  have hex: "printable d \<and> d \<noteq> CHR ''?''" if mem: "d \<in> set (hex4_text v)" "v < 65536" for d v
  proof -
    have "v div 4096 < 16" using mem(2) by auto
    then show ?thesis using mem(1) by (auto simp: hex4_text_def hex_lower_printable)
  qed
  have ascii: "printable (char_of u) \<and> (char_of u = CHR ''?'' \<longrightarrow> u = 63)" if u: "32 \<le> u \<and> u \<le> 126"
  proof -
    have o: "(of_char (char_of u :: char) :: nat) = u" using u by simp
    show ?thesis
    proof
      show "printable (char_of u)" using u o by (simp add: printable_def)
      show "char_of u = CHR ''?'' \<longrightarrow> u = 63"
      proof
        assume "char_of u = CHR ''?''"
        then have "(of_char (char_of u :: char) :: nat) = of_char (CHR ''?'')" by (rule arg_cong)
        then show "u = 63" using o by simp
      qed
    qed
  qed
  have b: "55296 + (u - 65536) div 1024 < 65536" "56320 + (u - 65536) mod 1024 < 65536"
    using surrogates(2,4) [of u] assms(1) by (cases "65536 \<le> u"; simp)+
  consider "u \<in> {34, 92, 10, 13, 9, 12, 8}" | "u \<notin> {34, 92, 10, 13, 9, 12, 8}" "32 \<le> u \<and> u \<le> 126"
    | "u \<notin> {34, 92, 10, 13, 9, 12, 8}" "\<not> (32 \<le> u \<and> u \<le> 126)" "u < 65536"
    | "u \<notin> {34, 92, 10, 13, 9, 12, 8}" "\<not> (32 \<le> u \<and> u \<le> 126)" "\<not> u < 65536"
    by fastforce
  then show ?thesis
  proof cases
    case 1
    then have "c \<in> {CHR 0x5C, CHR 0x22, CHR ''n'', CHR ''r'', CHR ''t'', CHR ''f'', CHR ''b''}"
      using assms(2) by (elim insertE emptyE) (auto simp: json_escape_def)
    then show ?thesis by (elim insertE emptyE) (simp_all add: printable_def)
  next
    case 2
    then have "c = char_of u" using assms(2) by (auto simp: json_escape_def)
    then show ?thesis using ascii [OF 2(2)] by simp
  next
    case 3
    then have "c \<in> {CHR 0x5C, CHR ''u''} \<or> c \<in> set (hex4_text u)" using assms(2) by (auto simp: json_escape_def)
    then show ?thesis using hex [OF _ 3(3), of c] by (auto simp: printable_def)
  next
    case 4
    then have "c \<in> {CHR 0x5C, CHR ''u''} \<or> c \<in> set (hex4_text (55296 + (u - 65536) div 1024)) \<or>
        c \<in> set (hex4_text (56320 + (u - 65536) mod 1024))"
      using assms(2) by (auto simp: json_escape_def)
    then show ?thesis using hex [OF _ b(1), of c] hex [OF _ b(2), of c] by (auto simp: printable_def)
  qed
qed

lemma json_string_printable:
  assumes "valid_utf8 t" and "c \<in> set (json_string t)"
  shows "printable c \<and> (c = CHR ''?'' \<longrightarrow> CHR ''?'' \<in> set t)"
proof -
  have cp: "concat (map utf8_of (code_points t)) = t" "list_all scalar (code_points t)"
    using code_points_valid [OF assms(1)] by simp_all
  have q: "u = 63 \<Longrightarrow> utf8_of u = ''?''" for u
  proof -
    have "char_of (63 :: nat) = CHR ''?''" by code_simp
    then show "u = 63 \<Longrightarrow> utf8_of u = ''?''" by (simp add: utf8_of_1)
  qed
  from assms(2) consider "c = CHR 0x22" | u where "u \<in> set (code_points t)" "c \<in> set (json_escape u)"
    by (auto simp: json_string_def)
  then show ?thesis
  proof cases
    case 1
    then show ?thesis by (simp add: printable_def)
  next
    case 2
    have "u < 1114112" using 2(1) cp(2) by (auto simp: list_all_iff scalar_def)
    note p = json_escape_printable [OF this 2(2)]
    have "CHR ''?'' \<in> set (concat (map utf8_of (code_points t)))" if "u = 63" using 2(1) q [OF that] by force
    then show ?thesis using p cp(1) by auto
  qed
qed

lemma json_value_printable:
  assumes "\<And>t. v = JStr t \<Longrightarrow> valid_utf8 t" and "c \<in> set (json_value v)"
  shows "printable c \<and> (c = CHR ''?'' \<longrightarrow> (\<exists>t. v = JStr t \<and> CHR ''?'' \<in> set t))"
proof (cases v)
  case (JInt i)
  then have "is_digit c \<or> c = CHR ''-''" using assms(2) set_str_int by simp
  then show ?thesis by (auto simp: printable_def is_digit_def Let_def)
next
  case (JStr t)
  then show ?thesis using assms json_string_printable [of t c] by auto
next
  case (JBool b)
  then show ?thesis using assms(2) by (auto simp: printable_def split: if_splits)
next
  case JNull
  then show ?thesis using assms(2) by (auto simp: printable_def)
qed

lemma set_join_with: "set (join_with sep xs) \<subseteq> set sep \<union> \<Union> (set ` set xs)"
  by (induction sep xs rule: join_with.induct) auto

definition no_question :: "(string \<times> jval) list \<Rightarrow> bool" where
  "no_question d \<longleftrightarrow>
     list_all (\<lambda>(k, v). CHR ''?'' \<notin> set k \<and> (case v of JStr t \<Rightarrow> CHR ''?'' \<notin> set t | _ \<Rightarrow> True)) d"

lemma json_member_printable:
  assumes "json_ok d" and "(k, v) \<in> set d" and "c \<in> set (json_member (k, v))"
  shows "printable c \<and> (c = CHR ''?'' \<longrightarrow> \<not> no_question d)"
proof -
  have k: "valid_utf8 k" and v: "\<And>t. v = JStr t \<Longrightarrow> valid_utf8 t"
    using assms(1,2) by (auto simp: json_ok_def list_all_iff)
  from assms(3) consider "c \<in> set (json_string k)" | "c \<in> set '': ''" | "c \<in> set (json_value v)"
    by (auto simp: json_member_def)
  then show ?thesis
  proof cases
    case 1
    then show ?thesis using json_string_printable [OF k 1] assms(2) by (auto simp: no_question_def list_all_iff)
  next
    case 2
    then show ?thesis by (auto simp: printable_def)
  next
    case 3
    then show ?thesis using json_value_printable [OF v 3] assms(2) by (fastforce simp: no_question_def list_all_iff)
  qed
qed

lemma json_dumps_chars:
  assumes "json_ok d" and "c \<in> set (json_dumps d)"
  shows "printable c \<and> (c = CHR ''?'' \<longrightarrow> \<not> no_question d)"
proof -
  have "c \<in> set ''{}, '' \<or> (\<exists>m \<in> set d. c \<in> set (json_member m))"
    using assms(2) set_join_with [of "'', ''" "map json_member d"] by (auto simp: json_dumps_def)
  then show ?thesis
  proof
    assume "c \<in> set ''{}, ''"
    then show ?thesis by (auto simp: printable_def)
  next
    assume "\<exists>m \<in> set d. c \<in> set (json_member m)"
    then obtain k v where "(k, v) \<in> set d" "c \<in> set (json_member (k, v))" by auto
    then show ?thesis by (rule json_member_printable [OF assms(1)])
  qed
qed

lemma json_dumps_printable:
  "json_ok d \<Longrightarrow> no_question d \<Longrightarrow> c \<in> set (json_dumps d) \<Longrightarrow> printable c \<and> c \<noteq> CHR ''?''"
  using json_dumps_chars by blast

lemma json_dumps_ascii: "json_ok d \<Longrightarrow> is_ascii (json_dumps d)"
  using json_dumps_chars [of d] by (fastforce simp: list_all_iff is_ascii_def printable_def)

text \<open>A stored value keeps a dictionary writable.\<close>

lemma json_ok_update:
  assumes "json_ok d" and "valid_utf8 k" and "\<And>t. v = JStr t \<Longrightarrow> valid_utf8 t"
  shows "json_ok (AList.update k v d)"
proof -
  have "m = (k, v) \<or> m \<in> set d" if "m \<in> set (AList.update k v d)" for m
    using that by (induction d) (auto split: if_splits)
  then show ?thesis using assms by (fastforce simp: json_ok_def list_all_iff split: jval.splits)
qed

end
