(* ===== verification/PyBase64.thy ===== *)
theory PyBase64
  imports PyString
begin

text \<open>
  Base64 as \<open>base64.b64encode\<close> and \<open>base64.b64decode\<close> of the standard library have it. Decoding
  is the loop of \<open>binascii.a2b_base64\<close> in its lenient mode: characters outside the alphabet are
  skipped, padding that completes a group ends the text, and an incomplete group is an error
  (\<open>binascii.Error\<close>, a \<open>ValueError\<close>). Decoding inverts encoding, and a slash occurs in the encoding
  of printable ASCII text only where the text has a question mark.
\<close>

section \<open>The alphabet\<close>

definition b64_char :: "nat \<Rightarrow> char" where
  "b64_char v =
     (if v < 26 then char_of (65 + v) else if v < 52 then char_of (71 + v)
      else if v < 62 then char_of (v - 4) else if v = 62 then CHR ''+'' else CHR ''/'')"

definition b64_val :: "char \<Rightarrow> nat option" where
  "b64_val c =
     (let n = (of_char c :: nat) in
      if 65 \<le> n \<and> n \<le> 90 then Some (n - 65) else if 97 \<le> n \<and> n \<le> 122 then Some (n - 71)
      else if 48 \<le> n \<and> n \<le> 57 then Some (n + 4)
      else if c = CHR ''+'' then Some 62 else if c = CHR ''/'' then Some 63 else None)"

definition b64_safe :: "char \<Rightarrow> bool" where
  "b64_safe c \<longleftrightarrow> c \<notin> set [CHR ''='', CHR ''&'', CHR ''<'', CHR ''>'', CHR 0x22, CHR 0x27]"

lemma b64_val_char [simp]: "v < 64 \<Longrightarrow> b64_val (b64_char v) = Some v"
  by (auto simp: b64_char_def b64_val_def Let_def)

lemma of_char_b64_char:
  "v < 64 \<Longrightarrow> of_char (b64_char v) =
     (if v < 26 then 65 + v else if v < 52 then 71 + v else if v < 62 then v - 4
      else if v = 62 then 43 else 47 :: nat)"
  by (auto simp: b64_char_def)

lemma of_char_neq: "of_char c \<noteq> (of_char d :: nat) \<Longrightarrow> c \<noteq> d"
  by auto

lemma b64_char_safe: "v < 64 \<Longrightarrow> b64_safe (b64_char v)"
  unfolding b64_safe_def using of_char_b64_char [of v] by (auto split: if_splits)

lemma b64_char_pad [simp]: "v < 64 \<Longrightarrow> b64_char v \<noteq> CHR ''=''"
  using b64_char_safe [of v] by (auto simp: b64_safe_def)

lemma b64_char_slash: "v < 64 \<Longrightarrow> b64_char v = CHR ''/'' \<Longrightarrow> v = 63"
  using of_char_b64_char [of v] by (auto split: if_splits)

section \<open>Encoding and decoding\<close>

fun b64encode :: "string \<Rightarrow> string" where
  "b64encode [] = []"
| "b64encode [a] =
     (let x = of_char a in [b64_char (x div 4), b64_char (x mod 4 * 16), CHR ''='', CHR ''=''])"
| "b64encode [a, b] =
     (let x = of_char a; y = of_char b in
      [b64_char (x div 4), b64_char (x mod 4 * 16 + y div 16), b64_char (y mod 16 * 4), CHR ''=''])"
| "b64encode (a # b # c # s) =
     (let x = of_char a; y = of_char b; z = of_char c in
      b64_char (x div 4) # b64_char (x mod 4 * 16 + y div 16) # b64_char (y mod 16 * 4 + z div 64)
        # b64_char (z mod 64) # b64encode s)"

definition cons_res :: "nat \<Rightarrow> string res \<Rightarrow> string res" where
  "cons_res n r = bindR r (\<lambda>s. Inr (char_of n # s))"

text \<open>The arguments are the position in the group of four, the padding seen and the bits left over.\<close>

fun a2b_base64 :: "nat \<Rightarrow> nat \<Rightarrow> nat \<Rightarrow> string \<Rightarrow> string res" where
  "a2b_base64 q pads left [] = (if q = 0 then Inr [] else Inl ValueError)"
| "a2b_base64 q pads left (c # s) =
     (if c = CHR ''='' then
        if 2 \<le> q \<and> 4 \<le> q + (pads + 1) then Inr []
        else a2b_base64 q (if 2 \<le> q then pads + 1 else pads) left s
      else (case b64_val c of
              None \<Rightarrow> a2b_base64 q pads left s
            | Some v \<Rightarrow>
                if q = 0 then a2b_base64 1 0 v s
                else if q = 1 then cons_res (left * 4 + v div 16) (a2b_base64 2 0 (v mod 16) s)
                else if q = 2 then cons_res (left * 16 + v div 4) (a2b_base64 3 0 (v mod 4) s)
                else cons_res (left * 64 + v) (a2b_base64 0 0 0 s)))"

definition b64decode :: "string \<Rightarrow> string res" where
  "b64decode s = a2b_base64 0 0 0 s"

section \<open>Decoding inverts encoding\<close>

lemma of_char_256 [simp]: "(of_char (c :: char) :: nat) < 256"
  by (simp add: of_char_def)

lemma small_div [simp]:
  "x < 256 \<Longrightarrow> x div 4 < (64 :: nat)" "y < 256 \<Longrightarrow> y div 16 < (16 :: nat)" "z < 256 \<Longrightarrow> z div 64 < (4 :: nat)"
  by auto

lemma sextets [simp]:
  "b < 16 \<Longrightarrow> x mod 4 * 16 + b < (64 :: nat)" "b < 4 \<Longrightarrow> y mod 16 * 4 + b < (64 :: nat)"
  "x mod 4 * 16 < (64 :: nat)" "y mod 16 * 4 < (64 :: nat)"
  using mod_less_divisor [of 4 x] mod_less_divisor [of 16 y] by linarith+

lemma regroup [simp]:
  "y < 256 \<Longrightarrow> y div 16 div 16 = (0 :: nat)" "y < 256 \<Longrightarrow> y div 16 mod 16 = (y div 16 :: nat)"
  "z < 256 \<Longrightarrow> z div 64 div 4 = (0 :: nat)" "z < 256 \<Longrightarrow> z div 64 mod 4 = (z div 64 :: nat)"
  by auto

lemma cons_res_Inr [simp]: "cons_res (of_char c) (Inr s) = Inr (c # s)"
  by (simp add: cons_res_def)

theorem b64decode_b64encode [simp]: "b64decode (b64encode s) = Inr s"
  unfolding b64decode_def
  by (induction s rule: b64encode.induct) (simp_all add: Let_def del: One_nat_def)

section \<open>The characters of an encoding\<close>

lemma b64encode_safe: "c \<in> set (b64encode s) \<Longrightarrow> c = CHR ''='' \<or> b64_safe c"
  by (induction s rule: b64encode.induct) (auto simp: Let_def b64_char_safe)

definition slash_free :: "char \<Rightarrow> bool" where
  "slash_free c \<longleftrightarrow> (of_char c :: nat) < 127 \<and> c \<noteq> CHR ''?''"

lemma slash_free_63: "slash_free c \<Longrightarrow> (of_char c :: nat) mod 64 \<noteq> 63"
proof -
  assume c: "slash_free c"
  have q: "char_of (63 :: nat) = CHR ''?''" by code_simp
  have "(of_char c :: nat) \<noteq> 63"
  proof
    assume "of_char c = (63 :: nat)"
    then have "c = char_of (63 :: nat)" by (metis char_of_char)
    with c q show False by (simp add: slash_free_def)
  qed
  moreover have "(of_char c :: nat) mod 64 = (if of_char c < (64 :: nat) then of_char c else of_char c - 64)"
    using c by (cases "(of_char c :: nat) < 64") (auto simp: slash_free_def le_mod_geq)
  ultimately show ?thesis using c unfolding slash_free_def by (cases "(of_char c :: nat) < 64") auto
qed

lemma sextets_63:
  "x < 127 \<Longrightarrow> x div 4 \<noteq> (63 :: nat)" "y < 127 \<Longrightarrow> x mod 4 * 16 + y div 16 \<noteq> (63 :: nat)"
  "z < 127 \<Longrightarrow> y mod 16 * 4 + z div 64 \<noteq> (63 :: nat)" "x mod 4 * 16 \<noteq> (63 :: nat)" "y mod 16 * 4 \<noteq> (63 :: nat)"
proof -
  show "x < 127 \<Longrightarrow> x div 4 \<noteq> (63 :: nat)" by auto
  show "y < 127 \<Longrightarrow> x mod 4 * 16 + y div 16 \<noteq> (63 :: nat)"
  proof -
    assume "y < 127"
    then have "y div 16 < 8" by auto
    then show ?thesis using mod_less_divisor [of 4 x] by linarith
  qed
  show "z < 127 \<Longrightarrow> y mod 16 * 4 + z div 64 \<noteq> (63 :: nat)"
  proof -
    assume "z < 127"
    then have "z div 64 < 2" by auto
    then show ?thesis using mod_less_divisor [of 16 y] by linarith
  qed
qed presburger+

lemma b64_char_no_slash: "v < 64 \<Longrightarrow> v \<noteq> 63 \<Longrightarrow> CHR ''/'' \<noteq> b64_char v"
  using b64_char_slash [of v] by metis

lemma b64encode_no_slash: "list_all slash_free s \<Longrightarrow> CHR ''/'' \<notin> set (b64encode s)"
proof (induction s rule: b64encode.induct)
  case (2 a)
  then have "(of_char a :: nat) < 127" by (simp add: slash_free_def)
  then show ?case by (simp add: Let_def b64_char_no_slash sextets_63)
next
  case (3 a b)
  then have "(of_char a :: nat) < 127" "(of_char b :: nat) < 127" by (simp_all add: slash_free_def)
  then show ?case by (simp add: Let_def b64_char_no_slash sextets_63)
next
  case (4 a b c s)
  then have "(of_char a :: nat) < 127" "(of_char b :: nat) < 127" "(of_char c :: nat) < 127"
    "(of_char c :: nat) mod 64 \<noteq> 63" by (simp_all add: slash_free_def slash_free_63)
  then show ?case using 4 by (simp add: Let_def b64_char_no_slash sextets_63)
qed simp

lemma b64encode_Nil_iff [simp]: "b64encode s = [] \<longleftrightarrow> s = []"
  by (cases s rule: b64encode.cases) (simp_all add: Let_def)

end
