(* ===== verification/SubIds.thy ===== *)
theory SubIds
  imports PlgUtils PyJson PyBase64
begin

text \<open>
  The identifiers of the Subsonic plugin: \<open>subsonic/element_type.py\<close>, \<open>tag_type.py\<close>,
  \<open>search_type.py\<close>, \<open>item_identifier_key.py\<close>, \<open>item_identifier.py\<close>, \<open>identifier_util.py\<close>,
  \<open>codec.py\<close>, and how \<open>browse\<close> of \<open>subsonic-app.py\<close> reads them back. An enumeration is a datatype of
  class \<open>enum\<close>, whose list is the order of the members. An identifier is a dictionary that is written as
  JSON and then in Base64, and appended to the identifier of its parent. Lemmas: names and numbers are
  unique, dictionaries survive the way out and back, and what stands in the way of it.
\<close>

section \<open>The enumerations\<close>

datatype ElementType =
    TAG | ALBUM | GENRE | GENRE_ARTIST_LIST | GENRE_ALBUM_LIST | ARTIST | GENRE_ARTIST | ARTIST_INITIAL
  | TRACK | PLAYLIST | INTERNET_RADIO | SONG_ENTRY_NAVIGABLE | SONG_ENTRY_THE_SONG | NEXT_RANDOM_SONGS
  | NAVIGABLE_ALBUM | ARTIST_TOP_SONGS | ARTIST_TOP_SONGS_LIST | ARTIST_SIMILAR | ARTIST_ALBUMS | RADIO
  | RADIO_SONG_LIST | GENRE_ARTIST_ALBUMS

fun element_value :: "ElementType \<Rightarrow> int \<times> string" where
  "element_value TAG = (0, ''tag'')"
| "element_value ALBUM = (1, ''lbm'')"
| "element_value GENRE = (3, ''gnr'')"
| "element_value GENRE_ARTIST_LIST = (4, ''gnr_rtsts'')"
| "element_value GENRE_ALBUM_LIST = (5, ''gnr_lbus'')"
| "element_value ARTIST = (6, ''rtst'')"
| "element_value GENRE_ARTIST = (7, ''gnr_rtst'')"
| "element_value ARTIST_INITIAL = (8, ''rtst_ntl'')"
| "element_value TRACK = (9, ''trk'')"
| "element_value PLAYLIST = (10, ''pl'')"
| "element_value INTERNET_RADIO = (11, ''i_rd'')"
| "element_value SONG_ENTRY_NAVIGABLE = (12, ''sngntr_n'')"
| "element_value SONG_ENTRY_THE_SONG = (13, ''sngntr_s'')"
| "element_value NEXT_RANDOM_SONGS = (14, ''nxt_rndm_sngs'')"
| "element_value NAVIGABLE_ALBUM = (15, ''sprs_lbm'')"
| "element_value ARTIST_TOP_SONGS = (16, ''rtsttp'')"
| "element_value ARTIST_TOP_SONGS_LIST = (17, ''rtsttp_sl'')"
| "element_value ARTIST_SIMILAR = (18, ''rtst_smlr'')"
| "element_value ARTIST_ALBUMS = (19, ''rtst_lbms'')"
| "element_value RADIO = (20, ''rd'')"
| "element_value RADIO_SONG_LIST = (21, ''rd_sl'')"
| "element_value GENRE_ARTIST_ALBUMS = (22, ''gnr_rtst_lbms'')"

definition getName :: "ElementType \<Rightarrow> string" where
  "getName e = snd (element_value e)"

definition element_types :: "ElementType list" where
  "element_types =
    [TAG, ALBUM, GENRE, GENRE_ARTIST_LIST, GENRE_ALBUM_LIST, ARTIST, GENRE_ARTIST, ARTIST_INITIAL,
     TRACK, PLAYLIST, INTERNET_RADIO, SONG_ENTRY_NAVIGABLE, SONG_ENTRY_THE_SONG, NEXT_RANDOM_SONGS,
     NAVIGABLE_ALBUM, ARTIST_TOP_SONGS, ARTIST_TOP_SONGS_LIST, ARTIST_SIMILAR, ARTIST_ALBUMS, RADIO,
     RADIO_SONG_LIST, GENRE_ARTIST_ALBUMS]"

lemma element_types_univ: "(UNIV :: ElementType set) = set element_types"
  unfolding element_types_def by (auto intro: ElementType.exhaust)

lemma element_types_distinct: "distinct element_types"
  by (simp add: element_types_def)

instantiation ElementType :: enum
begin

definition enum_ElementType :: "ElementType list" where
  "enum_ElementType = element_types"

definition enum_all_ElementType :: "(ElementType \<Rightarrow> bool) \<Rightarrow> bool" where
  "enum_all_ElementType P \<longleftrightarrow> list_all P element_types"

definition enum_ex_ElementType :: "(ElementType \<Rightarrow> bool) \<Rightarrow> bool" where
  "enum_ex_ElementType P \<longleftrightarrow> list_ex P element_types"

instance
  by standard
    (simp_all add: enum_ElementType_def enum_all_ElementType_def enum_ex_ElementType_def element_types_univ element_types_distinct
      list_all_iff list_ex_iff)

end

datatype TagType =
    TALBUMS | NEWEST | RECENTLY_PLAYED | HIGHEST_RATED | FAVOURITES | MOST_PLAYED | RANDOM | TARTISTS
  | ARTISTS_ALL | ARTISTS_INDEXED | FAVOURITE_ARTISTS | SONGS | RANDOM_SONGS | RANDOM_SONGS_LIST
  | FAVOURITE_SONGS | FAVOURITE_SONGS_LIST | GENRES | PLAYLISTS | INTERNET_RADIOS

fun tag_value :: "TagType \<Rightarrow> int \<times> string \<times> string \<times> string option" where
  "tag_value TALBUMS = (100, ''glbms'', ''Albums'', None)"
| "tag_value NEWEST = (110, ''n'', ''Newest Albums'', Some ''newest'')"
| "tag_value RECENTLY_PLAYED = (120, ''rp'', ''Recently Played Albums'', Some ''recent'')"
| "tag_value HIGHEST_RATED = (130, ''hr'', ''Highest Rated Albums'', Some ''highest'')"
| "tag_value FAVOURITES = (140, ''fav'', ''Favourite Albums'', Some ''starred'')"
| "tag_value MOST_PLAYED = (150, ''mp'', ''Most Played Albums'', Some ''frequent'')"
| "tag_value RANDOM = (160, ''r'', ''Random Albums'', Some ''random'')"
| "tag_value TARTISTS = (200, ''grtsts'', ''Artists'', None)"
| "tag_value ARTISTS_ALL = (210, ''a_all'', ''Artists (All)'', None)"
| "tag_value ARTISTS_INDEXED = (220, ''a_ndx'', ''Artists (By Initial)'', None)"
| "tag_value FAVOURITE_ARTISTS = (230, ''fav_rtsts'', ''Favourite Artists'', Some ''starred'')"
| "tag_value SONGS = (300, ''gsngs'', ''Songs'', None)"
| "tag_value RANDOM_SONGS = (310, ''rs'', ''Random Songs'', None)"
| "tag_value RANDOM_SONGS_LIST = (320, ''rsl'', ''Random Songs (List)'', None)"
| "tag_value FAVOURITE_SONGS = (330, ''fs'', ''Favourite Songs'', None)"
| "tag_value FAVOURITE_SONGS_LIST = (340, ''fsl'', ''Favourite Songs (List)'', None)"
| "tag_value GENRES = (400, ''g'', ''Genres'', None)"
| "tag_value PLAYLISTS = (500, ''pl'', ''Playlists'', None)"
| "tag_value INTERNET_RADIOS = (600, ''ir'', ''Internet Radios'', None)"

definition getTagName :: "TagType \<Rightarrow> string" where
  "getTagName t = fst (snd (tag_value t))"

definition getTagTitle :: "TagType \<Rightarrow> string" where
  "getTagTitle t = fst (snd (snd (tag_value t)))"

definition getQueryType :: "TagType \<Rightarrow> string option" where
  "getQueryType t = snd (snd (snd (tag_value t)))"

definition tag_types :: "TagType list" where
  "tag_types =
    [TALBUMS, NEWEST, RECENTLY_PLAYED, HIGHEST_RATED, FAVOURITES, MOST_PLAYED, RANDOM, TARTISTS,
     ARTISTS_ALL, ARTISTS_INDEXED, FAVOURITE_ARTISTS, SONGS, RANDOM_SONGS, RANDOM_SONGS_LIST,
     FAVOURITE_SONGS, FAVOURITE_SONGS_LIST, GENRES, PLAYLISTS, INTERNET_RADIOS]"

lemma tag_types_univ: "(UNIV :: TagType set) = set tag_types"
  unfolding tag_types_def by (auto intro: TagType.exhaust)

lemma tag_types_distinct: "distinct tag_types"
  by (simp add: tag_types_def)

instantiation TagType :: enum
begin

definition enum_TagType :: "TagType list" where
  "enum_TagType = tag_types"

definition enum_all_TagType :: "(TagType \<Rightarrow> bool) \<Rightarrow> bool" where
  "enum_all_TagType P \<longleftrightarrow> list_all P tag_types"

definition enum_ex_TagType :: "(TagType \<Rightarrow> bool) \<Rightarrow> bool" where
  "enum_ex_TagType P \<longleftrightarrow> list_ex P tag_types"

instance
  by standard
    (simp_all add: enum_TagType_def enum_all_TagType_def enum_ex_TagType_def tag_types_univ tag_types_distinct
      list_all_iff list_ex_iff)

end

text \<open>The modules refuse to load when a name or a number is used twice: they never do.\<close>

lemma element_names_distinct: "distinct (map getName enum_class.enum)" "distinct (map (fst \<circ> element_value) enum_class.enum)"
  by code_simp+

lemma tag_names_distinct: "distinct (map getTagName enum_class.enum)" "distinct (map (fst \<circ> tag_value) enum_class.enum)"
  by code_simp+

lemma getName_inj [simp]: "getName a = getName b \<longleftrightarrow> a = b"
  using element_names_distinct(1) by (auto simp: distinct_map inj_on_def enum_UNIV)

lemma getTagName_inj [simp]: "getTagName a = getTagName b \<longleftrightarrow> a = b"
  using tag_names_distinct(1) by (auto simp: distinct_map inj_on_def enum_UNIV)

definition get_tag_Type_by_name :: "string \<Rightarrow> TagType res" where
  "get_tag_Type_by_name nm =
     (case find (\<lambda>t. nm = getTagName t) enum_class.enum of
        Some t \<Rightarrow> Inr t
      | None \<Rightarrow> Inl (Raised ''get_tag_Type_by_name: not found''))"

lemma get_tag_Type_by_name_inverse [simp]: "get_tag_Type_by_name (getTagName t) = Inr t"
  by (cases t) (simp_all add: get_tag_Type_by_name_def enum_TagType_def tag_types_def getTagName_def)

datatype SearchType = SALBUM | SARTIST | STRACK

fun search_name :: "SearchType \<Rightarrow> string" where
  "search_name SALBUM = ''album''"
| "search_name SARTIST = ''artist''"
| "search_name STRACK = ''track''"

datatype ItemIdentifierKey =
    THING_NAME | THING_VALUE | GENRE_NAME | PAGE_NUMBER | ALBUM_ID | OFFSET | TAG_TYPE
  | ALBUM_VERSION_PATH_BASE64 | RADIO_NAME | SONG_AS_ENTRY

fun key_name :: "ItemIdentifierKey \<Rightarrow> string" where
  "key_name THING_NAME = ''n''"
| "key_name THING_VALUE = ''v''"
| "key_name GENRE_NAME = ''g''"
| "key_name PAGE_NUMBER = ''p''"
| "key_name ALBUM_ID = ''a''"
| "key_name OFFSET = ''o''"
| "key_name TAG_TYPE = ''t''"
| "key_name ALBUM_VERSION_PATH_BASE64 = ''ap''"
| "key_name RADIO_NAME = ''rn''"
| "key_name SONG_AS_ENTRY = ''sntr''"

lemma key_name_inj [simp]: "key_name a = key_name b \<longleftrightarrow> a = b"
  by (cases a; cases b) simp_all

lemma key_name_ok [simp]: "key_name k \<noteq> []" "valid_utf8 (key_name k)" "CHR ''?'' \<notin> set (key_name k)"
  by (cases k; simp)+

section \<open>Identifiers\<close>

type_synonym ident = "(string \<times> jval) list"

fun jtruthy :: "jval \<Rightarrow> bool" where
  "jtruthy JNull = False"
| "jtruthy (JBool b) = b"
| "jtruthy (JInt i) = (i \<noteq> 0)"
| "jtruthy (JStr s) = (s \<noteq> [])"

definition ident_has_name :: "ident \<Rightarrow> string \<Rightarrow> bool" where
  "ident_has_name d nm = has_key d nm"

definition ident_has :: "ident \<Rightarrow> ItemIdentifierKey \<Rightarrow> bool" where
  "ident_has d k = ident_has_name d (key_name k)"

definition ident_get :: "ident \<Rightarrow> ItemIdentifierKey \<Rightarrow> jval \<Rightarrow> jval" where
  "ident_get d k dflt = (case map_of d (key_name k) of Some v \<Rightarrow> v | None \<Rightarrow> dflt)"

definition ident_set_name :: "string \<Rightarrow> jval \<Rightarrow> ident \<Rightarrow> ident res" where
  "ident_set_name nm v d =
     (if nm \<noteq> [] \<and> \<not> has_key d nm then Inr (AList.update nm v d) else Inl (Raised ''Key already set''))"

definition ident_set :: "ItemIdentifierKey \<Rightarrow> jval \<Rightarrow> ident \<Rightarrow> ident res" where
  "ident_set k v d = ident_set_name (key_name k) v d"

definition new_identifier :: "jval \<Rightarrow> jval \<Rightarrow> ident res" where
  "new_identifier nm v =
     (if \<not> jtruthy nm then Inl (Raised ''name cannot be empty'')
      else if \<not> jtruthy v then Inl (Raised ''value cannot be empty'')
      else bindR (ident_set THING_NAME nm []) (ident_set THING_VALUE v))"

definition check_mandatory :: "ident \<Rightarrow> ItemIdentifierKey \<Rightarrow> jval res" where
  "check_mandatory d k =
     (case map_of d (key_name k) of Some v \<Rightarrow> Inr v | None \<Rightarrow> Inl (Raised ''Mandatory missing''))"

definition from_dict :: "ident \<Rightarrow> ident res" where
  "from_dict d =
     bindR (check_mandatory d THING_NAME) (\<lambda>nm. bindR (check_mandatory d THING_VALUE) (\<lambda>v.
     bindR (new_identifier nm v)
       (foldR (\<lambda>(k, v) i. if ident_has_name i k then Inr i else ident_set_name k v i) d)))"

section \<open>From an identifier to text and back\<close>

definition codec_decode :: "string \<Rightarrow> string res" where
  "codec_decode s = bindR (b64decode s) (\<lambda>t. if valid_utf8 t then Inr t else Inl ValueError)"

definition codec_encode :: "string \<Rightarrow> string" where
  "codec_encode s = b64encode s"

definition html_escape_char :: "char \<Rightarrow> string" where
  "html_escape_char c =
     (if c = CHR ''&'' then ''&amp;'' else if c = CHR ''<'' then ''&lt;'' else if c = CHR ''>'' then ''&gt;''
      else if c = CHR 0x22 then ''&quot;'' else if c = CHR 0x27 then ''&#x27;'' else [c])"

definition escape_objid :: "string \<Rightarrow> string" where
  "escape_objid s = concat (map html_escape_char s)"

definition create_objid :: "string \<Rightarrow> string \<Rightarrow> string" where
  "create_objid objid i = objid @ ''/'' @ escape_objid i"

definition create_id_from_identifier :: "ident \<Rightarrow> string" where
  "create_id_from_identifier d = codec_encode (json_dumps d)"

definition sub_prefix :: string where
  "sub_prefix = ''0$subsonic$''"

definition objidtopath :: "string \<Rightarrow> string res" where
  "objidtopath objid =
     (if \<not> startswith objid sub_prefix then Inl (Raised ''subsonic: bad objid: bad prefix'')
      else Inr (lstrip (\<lambda>c. c = CHR ''/'') (drop (length sub_prefix) objid)))"

text \<open>What \<open>browse\<close> makes of its argument: the page of tags, or an identifier. Every element of the path
  is decoded, the ones before the last for the log.\<close>

definition browse_identifier :: "string \<Rightarrow> ident option res" where
  "browse_identifier objid =
     bindR (objidtopath objid) (\<lambda>_.
       let path_list = split_on (CHR ''/'') objid; last_item = last path_list in
       bindR (mapR (\<lambda>p. if p = sub_prefix then Inr [] else codec_decode p) path_list) (\<lambda>_.
         if length path_list = 1 \<and> last_item = sub_prefix then Inr None
         else bindR (codec_decode last_item) (\<lambda>txt. bindR (json_loads txt) (\<lambda>d.
           bindR (from_dict d) (\<lambda>i. Inr (Some i))))))"

section \<open>Well-formed identifiers\<close>

text \<open>The name and the value come first, every other key is there once.\<close>

fun ident_head :: "ident \<Rightarrow> bool" where
  "ident_head ((n, nm) # (v, val) # rest) \<longleftrightarrow>
     n = key_name THING_NAME \<and> v = key_name THING_VALUE \<and> jtruthy nm \<and> jtruthy val"
| "ident_head _ \<longleftrightarrow> False"

definition ident_ok :: "ident \<Rightarrow> bool" where
  "ident_ok d \<longleftrightarrow> ident_head d \<and> json_ok d \<and> [] \<notin> fst ` set d"

lemma ident_head_append: "ident_head d \<Longrightarrow> ident_head (d @ e)"
  by (cases d rule: ident_head.cases) auto

lemma ident_headE:
  assumes "ident_head d"
  obtains nm v rest where "d = [(''n'', nm), (''v'', v)] @ rest" "jtruthy nm" "jtruthy v"
  using assms by (cases d rule: ident_head.cases) auto

lemma new_identifier_Inr:
  "new_identifier nm v = Inr d \<longleftrightarrow>
     jtruthy nm \<and> jtruthy v \<and> d = [(key_name THING_NAME, nm), (key_name THING_VALUE, v)]"
  by (auto simp: new_identifier_def ident_set_def ident_set_name_def has_key_def)

definition jval_ok :: "jval \<Rightarrow> bool" where
  "jval_ok v \<longleftrightarrow> (case v of JStr t \<Rightarrow> valid_utf8 t | _ \<Rightarrow> True)"

lemma new_identifier_ok:
  "new_identifier nm v = Inr d \<Longrightarrow> jval_ok nm \<Longrightarrow> jval_ok v \<Longrightarrow> ident_ok d"
  by (auto simp: new_identifier_Inr ident_ok_def json_ok_def jval_ok_def)

lemma ident_set_ok:
  assumes "ident_set k v d = Inr d'" and "ident_ok d" and "jval_ok v"
  shows "ident_ok d'"
proof -
  have d': "d' = d @ [(key_name k, v)]" and new: "key_name k \<notin> fst ` set d"
    using assms(1) by (auto simp: ident_set_def ident_set_name_def has_key_iff dict_set_new split: if_splits)
  then show ?thesis using assms(2,3)
    using key_name_ok(1) [of k, symmetric] by (auto simp: ident_ok_def ident_head_append json_ok_def jval_ok_def)
qed

lemma ident_set_get:
  "ident_set k v d = Inr d' \<Longrightarrow> ident_get d' k' dflt = (if k' = k then v else ident_get d k' dflt)"
  by (auto simp: ident_set_def ident_set_name_def ident_get_def split: if_splits option.splits)

lemma from_dict_step:
  "distinct (map fst (d @ e)) \<Longrightarrow> [] \<notin> fst ` set e \<Longrightarrow>
   foldR (\<lambda>(k, v) i. if ident_has_name i k then Inr i else ident_set_name k v i) e d = Inr (d @ e)"
proof (induction e arbitrary: d)
  case (Cons kv e)
  obtain k v where kv: "kv = (k, v)" by fastforce
  have "k \<notin> fst ` set d" "k \<noteq> []" using Cons.prems by (auto simp: kv)
  then have "ident_set_name k v d = Inr (d @ [(k, v)])" "\<not> ident_has_name d k"
    by (simp_all add: ident_set_name_def ident_has_name_def has_key_iff dict_set_new)
  then show ?case using Cons.IH [of "d @ [(k, v)]"] Cons.prems by (simp add: kv)
qed simp

lemma from_dict_ok [simp]: "ident_ok d \<Longrightarrow> from_dict d = Inr d"
proof -
  assume ok: "ident_ok d"
  then have "ident_head d" by (simp add: ident_ok_def)
  then obtain nm v rest where d: "d = [(''n'', nm), (''v'', v)] @ rest" and t: "jtruthy nm" "jtruthy v"
    by (rule ident_headE)
  have dist: "distinct (map fst ([(''n'', nm), (''v'', v)] @ rest))" "[] \<notin> fst ` set rest"
    using ok d by (auto simp: ident_ok_def json_ok_def)
  have "new_identifier nm v = Inr [(''n'', nm), (''v'', v)]" using t by (simp add: new_identifier_Inr)
  then show ?thesis
    using from_dict_step [OF dist] dist(1)
    by (simp add: from_dict_def check_mandatory_def d ident_has_name_def has_key_def)
qed

section \<open>Every identifier leads back\<close>

lemma split_on_app: "split_on c (a @ c # b) = split_on c a @ split_on c b"
  by (induction a) (auto simp: hd_append tl_append split: list.splits)

lemma escape_objid_b64 [simp]: "escape_objid (b64encode s) = b64encode s"
proof -
  have "html_escape_char c = [c]" if "c \<in> set (b64encode s)" for c
    using b64encode_safe [OF that] by (auto simp: html_escape_char_def b64_safe_def)
  then show ?thesis by (simp add: escape_objid_def map_idI concat_map_singleton cong: map_cong)
qed

definition decodes :: "string \<Rightarrow> bool" where
  "decodes p \<longleftrightarrow> p = sub_prefix \<or> is_ok (codec_decode p)"

definition browsable :: "string \<Rightarrow> bool" where
  "browsable objid \<longleftrightarrow> startswith objid sub_prefix \<and> list_all decodes (split_on (CHR ''/'') objid)"

lemma json_dumps_slash_free: "json_ok d \<Longrightarrow> no_question d \<Longrightarrow> list_all slash_free (json_dumps d)"
  using json_dumps_printable [of d] by (auto simp: list_all_iff slash_free_def printable_def)

lemma codec_decode_id:
  "json_ok d \<Longrightarrow> no_question d \<Longrightarrow> codec_decode (create_id_from_identifier d) = Inr (json_dumps d)"
  by (simp add: codec_decode_def create_id_from_identifier_def codec_encode_def json_dumps_ascii valid_utf8_ascii)

lemma create_objid_split:
  assumes "json_ok d" and "no_question d"
  shows "split_on (CHR ''/'') (create_objid objid (create_id_from_identifier d)) =
    split_on (CHR ''/'') objid @ [create_id_from_identifier d]"
proof -
  have "CHR ''/'' \<notin> set (b64encode (json_dumps d))"
    by (rule b64encode_no_slash [OF json_dumps_slash_free [OF assms]])
  then show ?thesis
    by (simp add: create_objid_def create_id_from_identifier_def codec_encode_def split_on_app split_on_no_sep)
qed

lemma browse_identifier_inverse:
  assumes "browsable objid" and "ident_ok d" and "no_question d"
  shows "browse_identifier (create_objid objid (create_id_from_identifier d)) = Inr (Some d)"
    and "browsable (create_objid objid (create_id_from_identifier d))"
proof -
  let ?i = "create_id_from_identifier d" and ?o = "create_objid objid (create_id_from_identifier d)"
  have j: "json_ok d" using assms(2) by (simp add: ident_ok_def)
  note split = create_objid_split [OF j assms(3)] and dec = codec_decode_id [OF j assms(3)]
  obtain rest where pre: "objid = sub_prefix @ rest" using assms(1) by (auto simp: browsable_def startswith_iff)
  then have st: "startswith ?o sub_prefix" by (simp add: create_objid_def)
  let ?f = "\<lambda>p. if p = sub_prefix then Inr [] else codec_decode p"
  have all: "list_all decodes (split_on (CHR ''/'') ?o)"
    using assms(1) dec by (simp add: split browsable_def decodes_def)
  then have "\<And>p. p \<in> set (split_on (CHR ''/'') ?o) \<Longrightarrow> ?f p = Inr (projr (?f p))"
    by (auto simp: list_all_iff decodes_def is_ok_iff)
  then have m: "mapR ?f (split_on (CHR ''/'') ?o) = Inr (map (projr \<circ> ?f) (split_on (CHR ''/'') ?o))"
    unfolding comp_def by (rule mapR_total)
  have "length (split_on (CHR ''/'') ?o) \<noteq> 1" by (simp add: split)
  then show "browse_identifier ?o = Inr (Some d)"
    unfolding browse_identifier_def m Let_def using st dec assms(2)
    by (simp add: objidtopath_def split json_loads_dumps [OF j])
  show "browsable ?o" using st all by (simp add: browsable_def)
qed

text \<open>C16. An identifier made for an entry under any container, at any depth, is read back as the
  dictionary it was made of, and is again one under which entries can be made: text of any language,
  numbers and truth values survive, as long as no text in it has a question mark.\<close>

theorem identifier_roundtrip:
  assumes "browsable objid" and "ident_ok d" and "no_question d"
  shows "browse_identifier (create_objid objid (create_id_from_identifier d)) = Inr (Some d)
    \<and> browsable (create_objid objid (create_id_from_identifier d))"
  using browse_identifier_inverse [OF assms] by simp

definition demo_ident :: ident where
  "demo_ident = [(''n'', JStr ''gnr_lbus''), (''v'', JStr (''Caf'' @ [CHR 0xC3, CHR 0xA9])), (''o'', JInt 36),
     (''sntr'', JBool True)]"

theorem identifier_roundtrip_witness:
  "browsable sub_prefix \<and> ident_ok demo_ident \<and> no_question demo_ident \<and>
   browse_identifier (create_objid sub_prefix (create_id_from_identifier demo_ident)) = Inr (Some demo_ident)"
proof -
  have h: "browsable sub_prefix" "ident_ok demo_ident" "no_question demo_ident" by code_simp+
  show ?thesis using h identifier_roundtrip [OF h] by simp
qed

text \<open>A question mark that falls on the third byte of a group gives a slash, at which the identifier is
  cut: the genre of this name cannot be opened.\<close>

definition what_ident :: ident where
  "what_ident = [(''n'', JStr ''gnr''), (''v'', JStr ''What?'')]"

lemma question_mark_lost:
  "ident_ok what_ident \<and> browsable sub_prefix \<and>
   browse_identifier (create_objid sub_prefix (create_id_from_identifier what_ident)) = Inl ValueError"
  by code_simp

end
