(* ===== verification/SubAlbum.thy ===== *)
theory SubAlbum
  imports PlgUtils PyPath PySort "HOL-Library.Product_Lexorder"
begin

text \<open>
  Songs and albums in the Subsonic plugin, \<open>subsonic/album_util.py\<close>, \<open>codec_delimiter_style.py\<close>:
  the order of the songs of an album, the directory an album has under the directories of its discs,
  the codecs found under each, display names. Songs and albums come from the client library of the
  server; they are records of what its getters return. A set of codecs is the list of its elements in
  the order they were added. The comparison of songs is an interpretation of \<open>cmp_order\<close>, so that
  sorting is stable and total.
\<close>

section \<open>What the server returns\<close>

record song =
  sg_id :: string
  sg_title :: string
  sg_artist :: "string option"
  sg_artistId :: "string option"
  sg_album :: "string option"
  sg_albumId :: "string option"
  sg_disc :: "int option"
  sg_track :: "int option"
  sg_path :: "string option"
  sg_suffix :: string
  sg_genre :: "string option"
  sg_year :: "string option"
  sg_duration :: "int option"
  sg_contentType :: "string option"

record album =
  al_id :: string
  al_title :: string
  al_artist :: "string option"
  al_artistId :: "string option"
  al_genre :: "string option"
  al_year :: "string option"
  al_coverArt :: "string option"
  al_songs :: "song list"

section \<open>The directory of an album\<close>

definition starters :: "string list" where
  "starters = [''CD'', ''DISC'', ''DISCO'', ''DISK'', ''D'']"

definition is_int :: "string \<Rightarrow> bool" where
  "is_int value = is_ok (py_int value)"

definition split_string :: "string \<Rightarrow> string list" where
  "split_string s = split_on (CHR '' '') (map (\<lambda>c. if c = CHR ''-'' \<or> c = CHR ''_'' then CHR '' '' else c) s)"

definition ignorable :: "string \<Rightarrow> bool" where
  "ignorable last_path \<longleftrightarrow>
     list_ex (\<lambda>nm. startswith (py_upper last_path) nm \<and> length nm < length last_path
                \<and> is_int [last_path ! length nm]) starters
     \<or> list_ex (\<lambda>nm. startswith (py_upper last_path) nm \<and> 2 \<le> length (split_string last_path)
                \<and> is_int (split_string last_path ! 1)) starters"

definition get_last_path_element :: "string \<Rightarrow> string" where
  "get_last_path_element path = os_basename (normpath path)"

definition get_dir_from_path :: "string option \<Rightarrow> string res" where
  "get_dir_from_path path = (case path of Some p \<Rightarrow> Inr (os_dirname p) | None \<Rightarrow> Inl TypeError)"

definition get_album_base_path :: "string \<Rightarrow> string" where
  "get_album_base_path path =
     (let last_path = os_basename (normpath path)
      in if ignorable last_path then fst (path_split path) else path)"

section \<open>The order of songs\<close>

record decorated_song =
  ds_song :: song
  ds_disc :: int
  ds_track :: int
  ds_path :: string

definition or_zero :: "int option \<Rightarrow> int" where
  "or_zero n = (case n of Some k \<Rightarrow> k | None \<Rightarrow> 0)"

definition or_empty :: "string option \<Rightarrow> string" where
  "or_empty s = (case s of Some t \<Rightarrow> t | None \<Rightarrow> [])"

definition decorate :: "song \<Rightarrow> decorated_song res" where
  "decorate s =
     bindR (get_dir_from_path (sg_path s)) (\<lambda>path.
       let last_path = os_basename (normpath path) in
       Inr \<lparr>ds_song = s, ds_disc = or_zero (sg_disc s), ds_track = or_zero (sg_track s),
            ds_path = (if ignorable last_path then fst (path_split path) else path)\<rparr>)"

definition compare_decorated_song :: "decorated_song \<Rightarrow> decorated_song \<Rightarrow> int res" where
  "compare_decorated_song l r =
     (let c = cmp_key (or_empty (sg_artist (ds_song l))) (or_empty (sg_artist (ds_song r)));
          c = (if c = 0 then cmp_key (or_empty (sg_album (ds_song l))) (or_empty (sg_album (ds_song r))) else c);
          c = (if c = 0 then cmp_key (ds_path l) (ds_path r) else c);
          c = (if c = 0 then cmp_key (ds_disc l) (ds_disc r) else c);
          c = (if c = 0 then cmp_key (ds_track l) (ds_track r) else c)
      in Inr c)"

type_synonym codec_sets = "(string \<times> string list) list"

record sorted_songs =
  ss_codecs :: codec_sets
  ss_songs :: "song list"
  ss_multi :: bool

definition add_codec :: "string \<Rightarrow> string \<Rightarrow> codec_sets \<Rightarrow> codec_sets" where
  "add_codec path suffix cs =
     (let cs = (if has_key cs path then cs else AList.update path [] cs);
          st = the (map_of cs path)
      in if suffix \<in> set st then cs else AList.update path (st @ [suffix]) cs)"

definition count_codec :: "string \<Rightarrow> (string \<times> int) list \<Rightarrow> (string \<times> int) list" where
  "count_codec suffix cd =
     (case map_of cd suffix of
        None \<Rightarrow> AList.update suffix 1 cd
      | Some n \<Rightarrow> AList.update suffix (n + 1) cd)"

fun decorate_songs ::
  "song list \<Rightarrow> decorated_song list \<Rightarrow> codec_sets \<Rightarrow> (string \<times> int) list \<Rightarrow>
   (decorated_song list \<times> codec_sets \<times> (string \<times> int) list) res" where
  "decorate_songs [] ds cs cd = Inr (ds, cs, cd)"
| "decorate_songs (s # songs) ds cs cd =
     bindR (decorate s) (\<lambda>dec.
       decorate_songs songs (ds @ [dec]) (add_codec (ds_path dec) (sg_suffix s) cs) (count_codec (sg_suffix s) cd))"

definition sort_song_list :: "song list \<Rightarrow> sorted_songs res" where
  "sort_song_list songs =
     bindR (decorate_songs songs [] [] []) (\<lambda>(ds, cs, cd).
     bindR (sortR compare_decorated_song ds) (\<lambda>ds.
       Inr \<lparr>ss_codecs = cs, ss_songs = map ds_song ds, ss_multi = 1 < length cd\<rparr>))"

section \<open>Names for display\<close>

definition get_display_artist :: "string option \<Rightarrow> string" where
  "get_display_artist artist =
     (if \<not> truthy artist then [] else join_with '', '' (split_on (CHR '';'') (the artist)))"

datatype CodecDelimiterStyle = SQUARE | ROUND

fun get_left :: "CodecDelimiterStyle \<Rightarrow> string" where
  "get_left SQUARE = ''[''"
| "get_left ROUND = ''(''"

fun get_right :: "CodecDelimiterStyle \<Rightarrow> string" where
  "get_right SQUARE = '']''"
| "get_right ROUND = '')''"

text \<open>The pattern is a regular expression whose delimiters are escaped. For the name of a codec, made of
  letters and digits, it matches just the text without the backslashes.\<close>

definition to_codec_pattern :: "string \<Rightarrow> CodecDelimiterStyle \<Rightarrow> string" where
  "to_codec_pattern codec style =
     '' '' @ [CHR 0x5C] @ get_left style @ codec @ [CHR 0x5C] @ get_right style"

definition re_search :: "string \<Rightarrow> string \<Rightarrow> (nat \<times> nat) option" where
  "re_search pattern s =
     (let lit = filter (\<lambda>c. c \<noteq> CHR 0x5C) pattern
      in map_option (\<lambda>i. (i, i + length lit)) (py_find s lit))"

definition strip_substring :: "string \<Rightarrow> string \<Rightarrow> string" where
  "strip_substring s pattern =
     (case re_search pattern s of
        None \<Rightarrow> s
      | Some (i, j) \<Rightarrow>
          (if 0 < i then take i s else []) @ (if int j < int (length s) - 1 then drop j s else []))"

definition strip_codec_from_album :: "string \<Rightarrow> string list \<Rightarrow> string" where
  "strip_codec_from_album title codecs =
     (if length codecs = 1 then
        foldl (\<lambda>stripped style.
            let pattern = to_codec_pattern (hd codecs) ROUND in
            if startswith title pattern then stripped else strip_substring title pattern)
          title [SQUARE, ROUND]
      else title)"

section \<open>Sorting\<close>

text \<open>The five keys, compared one after the other.\<close>

definition song_order :: "decorated_song \<Rightarrow> decorated_song \<Rightarrow> int" where
  "song_order l r =
     then_cmp (cmp_key (or_empty (sg_artist (ds_song l))) (or_empty (sg_artist (ds_song r))))
       (then_cmp (cmp_key (or_empty (sg_album (ds_song l))) (or_empty (sg_album (ds_song r))))
         (then_cmp (cmp_key (ds_path l) (ds_path r))
           (then_cmp (cmp_key (ds_disc l) (ds_disc r)) (cmp_key (ds_track l) (ds_track r)))))"

lemma compare_decorated_song_eq: "compare_decorated_song l r = Inr (song_order l r)"
  by (simp add: compare_decorated_song_def song_order_def then_cmp_def Let_def)

interpretation songs_order: cmp_order compare_decorated_song "\<lambda>_. True"
  by (rule cmp_order_of_good [of song_order])
    (unfold song_order_def, (intro good_then_cmp good_cmp_key), simp add: compare_decorated_song_eq song_order_def)

definition base_path :: "song \<Rightarrow> string" where
  "base_path s = get_album_base_path (os_dirname (the (sg_path s)))"

definition song_key :: "song \<Rightarrow> string \<times> string \<times> string \<times> int \<times> int" where
  "song_key s =
     (or_empty (sg_artist s), or_empty (sg_album s), base_path s, or_zero (sg_disc s), or_zero (sg_track s))"

definition dec_song :: "song \<Rightarrow> decorated_song" where
  "dec_song s = \<lparr>ds_song = s, ds_disc = or_zero (sg_disc s), ds_track = or_zero (sg_track s), ds_path = base_path s\<rparr>"

lemma decorate_path [simp]: "sg_path s \<noteq> None \<Longrightarrow> decorate s = Inr (dec_song s)"
  by (auto simp: decorate_def dec_song_def base_path_def get_album_base_path_def get_dir_from_path_def Let_def)

lemma dec_song_simps [simp]: "ds_song (dec_song s) = s" "ds_path (dec_song s) = base_path s"
  by (simp_all add: dec_song_def)

lemma song_order_key: "song_order (dec_song a) (dec_song b) \<le> 0 \<longleftrightarrow> song_key a \<le> song_key b"
  by (auto simp: song_order_def song_key_def dec_song_def then_cmp_def)

lemma decorate_songs_eq:
  "\<forall>s \<in> set songs. sg_path s \<noteq> None \<Longrightarrow>
   decorate_songs songs ds cs cd =
     Inr (ds @ map dec_song songs, fold (\<lambda>s. add_codec (base_path s) (sg_suffix s)) songs cs,
          fold (\<lambda>s. count_codec (sg_suffix s)) songs cd)"
  by (induction songs arbitrary: ds cs cd) auto

lemma count_codecs: "fst ` set (fold (\<lambda>s. count_codec (sg_suffix s)) songs cd) = fst ` set cd \<union> sg_suffix ` set songs"
  by (induction songs arbitrary: cd) (auto simp: count_codec_def split: option.splits)

lemma count_codecs_distinct:
  "distinct (map fst cd) \<Longrightarrow> distinct (map fst (fold (\<lambda>s. count_codec (sg_suffix s)) songs cd))"
  by (induction songs arbitrary: cd) (auto simp: count_codec_def split: option.splits)

lemma count_codecs_length: "length (fold (\<lambda>s. count_codec (sg_suffix s)) songs []) = card (sg_suffix ` set songs)"
  using count_codecs [of songs "[]"] count_codecs_distinct [of "[]" songs] by (metis distinct_card length_map
      list.set_map list.simps(8) distinct.simps(1) image_empty list.set(1) sup_bot_left)

lemma add_codec_get:
  "map_of (add_codec p x cs) q =
     (if q = p then Some (let st = (case map_of cs p of Some st \<Rightarrow> st | None \<Rightarrow> []) in if x \<in> set st then st else st @ [x])
      else map_of cs q)"
  by (cases "map_of cs p") (auto simp: add_codec_def has_key_def Let_def update_conv' split: if_splits)

lemma fold_codecs:
  "map_option set (map_of (fold (\<lambda>s. add_codec (base_path s) (sg_suffix s)) songs []) p) =
     (if p \<in> base_path ` set songs then Some (sg_suffix ` {s \<in> set songs. base_path s = p}) else None)"
proof (induction songs rule: rev_induct)
  case (snoc s songs)
  let ?cs = "fold (\<lambda>s. add_codec (base_path s) (sg_suffix s)) songs []"
  show ?case
  proof (cases "p = base_path s")
    case True
    then have S: "{t \<in> set (songs @ [s]). base_path t = p} = insert s {t \<in> set songs. base_path t = p}" by auto
    have none: "base_path s \<notin> base_path ` set songs \<Longrightarrow> {t \<in> set songs. base_path t = p} = {}"
      unfolding True by (metis (mono_tags, lifting) Collect_empty_eq imageI)
    show ?thesis
    proof (cases "map_of ?cs (base_path s)")
      case None
      with snoc True have new: "base_path s \<notin> base_path ` set songs" by (simp split: if_splits)
      show ?thesis unfolding S none [OF new] using None True by (simp add: add_codec_get)
    next
      case (Some st)
      with snoc True have "set st = sg_suffix ` {t \<in> set songs. base_path t = p}" by (simp split: if_splits)
      with Some show ?thesis unfolding S using True by (auto simp: add_codec_get Let_def)
    qed
  next
    case False
    then have "{t \<in> set (songs @ [s]). base_path t = p} = {t \<in> set songs. base_path t = p}" by auto
    with False snoc show ?thesis by (simp add: add_codec_get)
  qed
qed simp

lemma sort_song_list_sorted:
  assumes "\<forall>s \<in> set songs. sg_path s \<noteq> None"
  shows "\<exists>r. sort_song_list songs = Inr r \<and> mset (ss_songs r) = mset songs \<and>
    sorted (map song_key (ss_songs r)) \<and>
    (\<forall>k. filter (\<lambda>s. song_key s = k) (ss_songs r) = filter (\<lambda>s. song_key s = k) songs) \<and>
    (\<forall>p. map_option set (map_of (ss_codecs r) p) =
       (if p \<in> base_path ` set songs then Some (sg_suffix ` {s \<in> set songs. base_path s = p}) else None)) \<and>
    (ss_multi r \<longleftrightarrow> 1 < card (sg_suffix ` set songs))"
proof -
  let ?ds = "map dec_song songs"
  obtain zs where zs: "sortR compare_decorated_song ?ds = Inr zs" "sorted_wrt songs_order.le zs"
    using songs_order.sort_sorted [of ?ds] by auto
  have "set zs = dec_song ` set songs" using sortR_set [OF zs(1)] by simp
  then have "dec_song (ds_song z) = z" if "z \<in> set zs" for z using that by auto
  then have dz: "zs = map dec_song (map ds_song zs)" by (simp add: comp_def map_idI)
  let ?r = "map ds_song zs"
  have le: "songs_order.le (dec_song a) (dec_song b) \<longleftrightarrow> song_key a \<le> song_key b" for a b
    by (simp add: songs_order.le_def compare_decorated_song_eq song_order_key)
  have "mset (map ds_song zs) = mset (map ds_song ?ds)" using sortR_mset [OF zs(1)] by (metis mset_map)
  then have m: "mset ?r = mset songs" by (simp add: comp_def)
  have "sorted_wrt (\<lambda>a b. song_key a \<le> song_key b) ?r"
    using zs(2) by (subst (asm) dz) (simp add: sorted_wrt_map le)
  then have s: "sorted (map song_key ?r)" by (simp only: sorted_map)
  have st: "filter (\<lambda>s. song_key s = song_key a) ?r = filter (\<lambda>s. song_key s = song_key a) songs" for a
  proof -
    have "songs_order.equiv (dec_song a) (dec_song b) \<longleftrightarrow> song_key b = song_key a" for b
      by (auto simp: songs_order.equiv_def le)
    moreover have "filter (songs_order.equiv (dec_song a)) (map dec_song ?r) = filter (songs_order.equiv (dec_song a)) ?ds"
      using songs_order.sort_stable [OF _ _ zs(1), of "dec_song a"] dz by simp
    ultimately have "map dec_song (filter (\<lambda>s. song_key s = song_key a) ?r) =
        map dec_song (filter (\<lambda>s. song_key s = song_key a) songs)"
      by (simp add: filter_map comp_def)
    then have "map ds_song (map dec_song (filter (\<lambda>s. song_key s = song_key a) ?r)) =
        map ds_song (map dec_song (filter (\<lambda>s. song_key s = song_key a) songs))" by (rule arg_cong)
    then show ?thesis by (simp add: comp_def)
  qed
  have st': "filter (\<lambda>s. song_key s = k) ?r = filter (\<lambda>s. song_key s = k) songs" for k
  proof (cases "\<exists>a \<in> set songs. song_key a = k")
    case True
    then show ?thesis using st by auto
  next
    case False
    moreover have "set ?r = set songs" using m by (metis set_mset_mset)
    ultimately show ?thesis by (simp add: filter_empty_conv)
  qed
  show ?thesis
    unfolding sort_song_list_def decorate_songs_eq [OF assms]
    using zs(1) m s st' fold_codecs [of songs] by (simp add: count_codecs_length)
qed

text \<open>C23. The songs of an album are listed once each, ordered by artist, album, directory of the album,
  disc and track, and songs that agree in all of these stay in the order the server has them; the album
  is known under the directories its songs are in without the directories of discs, each with the
  codecs found there; and it counts as one of several codecs when there are.\<close>

theorem sort_song_list_result:
  assumes "\<forall>s \<in> set songs. sg_path s \<noteq> None"
  shows "\<exists>r. sort_song_list songs = Inr r \<and> mset (ss_songs r) = mset songs \<and>
    sorted (map song_key (ss_songs r)) \<and>
    (\<forall>k. filter (\<lambda>s. song_key s = k) (ss_songs r) = filter (\<lambda>s. song_key s = k) songs) \<and>
    (\<forall>p. map_option set (map_of (ss_codecs r) p) =
       (if p \<in> base_path ` set songs then Some (sg_suffix ` {s \<in> set songs. base_path s = p}) else None)) \<and>
    (ss_multi r \<longleftrightarrow> 1 < card (sg_suffix ` set songs))"
  using assms by (rule sort_song_list_sorted)

definition demo_song :: "string \<Rightarrow> string \<Rightarrow> int option \<Rightarrow> int option \<Rightarrow> song" where
  "demo_song i path disc track =
     \<lparr>sg_id = i, sg_title = ''t'', sg_artist = Some ''a'', sg_artistId = None, sg_album = Some ''b'', sg_albumId = None,
      sg_disc = disc, sg_track = track, sg_path = Some path, sg_suffix = ''flac'', sg_genre = None, sg_year = None,
      sg_duration = None, sg_contentType = None\<rparr>"

definition demo_album_songs :: "song list" where
  "demo_album_songs =
     [demo_song ''3'' ''x/b/CD2/1.flac'' (Some 2) (Some 1), demo_song ''2'' ''x/b/CD1/2.flac'' (Some 1) (Some 2),
      demo_song ''1'' ''x/b/CD1/1.flac'' (Some 1) (Some 1)]"

theorem sort_song_list_result_witness:
  "list_all (\<lambda>s. sg_path s \<noteq> None) demo_album_songs \<and>
   (\<exists>r. sort_song_list demo_album_songs = Inr r \<and> mset (ss_songs r) = mset demo_album_songs) \<and>
   map_sum id (\<lambda>r. (map sg_id (ss_songs r), ss_codecs r)) (sort_song_list demo_album_songs) =
     Inr ([''1'', ''2'', ''3''], [(''x/b'', [''flac''])])"
proof (intro conjI)
  show "list_all (\<lambda>s. sg_path s \<noteq> None) demo_album_songs" by code_simp
  then have h: "\<forall>s \<in> set demo_album_songs. sg_path s \<noteq> None" by (simp add: list_all_iff)
  show "\<exists>r. sort_song_list demo_album_songs = Inr r \<and> mset (ss_songs r) = mset demo_album_songs"
    using sort_song_list_result [OF h] by blast
  show "map_sum id (\<lambda>r. (map sg_id (ss_songs r), ss_codecs r)) (sort_song_list demo_album_songs) =
     Inr ([''1'', ''2'', ''3''], [(''x/b'', [''flac''])])" by code_simp
qed

section \<open>What the names are taken for\<close>

text \<open>The single letter D starts the directory of a disc, so that an album whose name starts with it and
  has a number as its second word is taken for a disc; and what follows a codec is lost when it is one
  character.\<close>

lemma ignorable_examples:
  "ignorable ''CD1'' \<and> ignorable ''Disc 2 - Live'' \<and> \<not> ignorable ''Live'' \<and> ignorable ''Doolittle 1989''"
  by code_simp

lemma strip_codec_loses_character:
  "strip_codec_from_album ''A (flac) b'' [''flac''] = ''A b'' \<and> strip_codec_from_album ''A (flac)!'' [''flac''] = ''A''"
  by code_simp

end
