(* ===== verification/SubServer.thy ===== *)
theory SubServer
  imports SubIds SubAlbum
begin

text \<open>
  The state of the Subsonic plugin and what fills it: \<open>subsonic/config.py\<close>, \<open>caching.py\<close>,
  \<open>artist_initial_cache.py\<close>, \<open>subsonic_util.py\<close>, \<open>subsonic_init.py\<close>, \<open>art_retriever.py\<close>,
  \<open>converter.py\<close>, \<open>selector.py\<close>. The server, behind its client library, is a record of functions
  from requests to answers; an answer that is not OK is \<open>None\<close>, and the same request always gets the
  same answer. A computation takes the state to a result and a new state, or does not return: the
  paging loops ask the server until it sends a short page. Theorem: when loading ends, and that a
  library of a multiple of 500 albums, or an empty one, never lets it end.
\<close>

section \<open>The server\<close>

datatype list_type = BY_GENRE | RECENT | FREQUENT | HIGHEST | STARRED

record artist_ref =
  at_id :: string
  at_name :: string

record artist =
  ar_id :: string
  ar_name :: string
  ar_albums :: "album list"

record artists_initial =
  in_name :: string
  in_items :: "artist_ref list"

record genre =
  ge_name :: string
  ge_albumCount :: int

record playlist_entry =
  pe_id :: string
  pe_title :: string
  pe_track :: "int option"
  pe_artist :: "string option"
  pe_album :: "string option"
  pe_contentType :: "string option"
  pe_duration :: "int option"

record playlist =
  sp_id :: string
  sp_name :: string
  sp_coverArt :: "string option"
  sp_entries :: "playlist_entry list"

record station =
  ir_id :: string
  ir_name :: string
  ir_streamUrl :: string

record search_result =
  sr_artists :: "artist_ref list"
  sr_albums :: "album list"
  sr_songs :: "song list"

record server =
  sv_albumList :: "list_type \<Rightarrow> string option \<Rightarrow> int \<Rightarrow> int \<Rightarrow> album list option"
  sv_newest :: "int \<Rightarrow> int \<Rightarrow> album list option"
  sv_random :: "int \<Rightarrow> int \<Rightarrow> album list option"
  sv_album :: "string \<Rightarrow> album option"
  sv_song :: "string \<Rightarrow> song option"
  sv_artist :: "string \<Rightarrow> artist option"
  sv_artists :: "artists_initial list option"
  sv_starred :: "(song list \<times> artist_ref list) option"
  sv_genres :: "genre list option"
  sv_playlists :: "playlist list option"
  sv_playlist :: "string \<Rightarrow> playlist option"
  sv_stations :: "station list option"
  sv_randomSongs :: "int \<Rightarrow> song list option"
  sv_topSongs :: "string option \<Rightarrow> song list option"
  sv_similarSongs :: "string \<Rightarrow> int option \<Rightarrow> song list option"
  sv_similarArtists :: "string option \<Rightarrow> artist_ref list option"
  sv_search :: "string \<Rightarrow> int \<Rightarrow> int \<Rightarrow> int \<Rightarrow> search_result"
  sv_coverUrl :: "string \<Rightarrow> string"
  sv_songUrl :: "string \<Rightarrow> string"
  sv_artistCover :: "string option \<Rightarrow> string option option"
  sv_mime :: "string \<Rightarrow> string option"
  sv_draw :: "nat \<Rightarrow> nat"

section \<open>The configuration\<close>

definition subsonic_max_return_size :: int where
  "subsonic_max_return_size = 500"

record sub_config =
  cf_items_per_page :: int
  cf_append_year :: int
  cf_append_codecs :: int
  cf_whitelist :: "string list"
  cf_allow_blacklisted :: int
  cf_disable_navigable :: int

definition int_option :: "(string \<Rightarrow> string option \<Rightarrow> string option res) \<Rightarrow> string \<Rightarrow> string \<Rightarrow> int res" where
  "int_option opt nm dflt =
     bindR (opt nm (Some dflt)) (\<lambda>v. case v of Some t \<Rightarrow> py_int t | None \<Rightarrow> Inl TypeError)"

definition read_sub_config :: "(string \<Rightarrow> string option \<Rightarrow> string option res) \<Rightarrow> sub_config res" where
  "read_sub_config opt =
     bindR (int_option opt ''subsonicitemsperpage'' ''36'') (\<lambda>items.
     bindR (int_option opt ''subsonicappendyeartoalbum'' ''1'') (\<lambda>year.
     bindR (int_option opt ''subsonicappendcodecstoalbum'' ''1'') (\<lambda>codecs.
     bindR (opt ''subsonicwhitelistcodecs'' (Some ''alac,wav,flac,dsf'')) (\<lambda>wl.
     bindR (int_option opt ''subsonicallowblacklistedcodecinsong'' ''1'') (\<lambda>allow.
     bindR (int_option opt ''subsonicdisablenavigablealbumview'' ''0'') (\<lambda>nav.
       Inr \<lparr>cf_items_per_page = min subsonic_max_return_size items, cf_append_year = year,
            cf_append_codecs = codecs,
            cf_whitelist = split_on (CHR '','') (case wl of Some t \<Rightarrow> t | None \<Rightarrow> ''None''),
            cf_allow_blacklisted = allow, cf_disable_navigable = nav\<rparr>))))))"

section \<open>Computations\<close>

record sub_state =
  st_caches :: "(string \<times> (string option \<times> string) list) list"
  st_initials :: "(string \<times> string) list"
  st_draws :: nat

type_synonym 'a sub = "sub_state \<Rightarrow> ('a res \<times> sub_state) option"

definition returnS :: "'a \<Rightarrow> 'a sub" where
  "returnS x s = Some (Inr x, s)"

definition raiseS :: "py_error \<Rightarrow> 'a sub" where
  "raiseS e s = Some (Inl e, s)"

definition liftS :: "'a res \<Rightarrow> 'a sub" where
  "liftS r s = Some (r, s)"

definition bindS :: "'a sub \<Rightarrow> ('a \<Rightarrow> 'b sub) \<Rightarrow> 'b sub" where
  "bindS m f s =
     (case m s of
        None \<Rightarrow> None
      | Some (Inl e, s') \<Rightarrow> Some (Inl e, s')
      | Some (Inr x, s') \<Rightarrow> f x s')"

fun foldS :: "('a \<Rightarrow> 'b \<Rightarrow> 'b sub) \<Rightarrow> 'a list \<Rightarrow> 'b \<Rightarrow> 'b sub" where
  "foldS f [] b = returnS b"
| "foldS f (x # xs) b = bindS (f x b) (foldS f xs)"

text \<open>An answer that must be OK, else the exception.\<close>

definition okS :: "'a option \<Rightarrow> string \<Rightarrow> 'a sub" where
  "okS r msg = (case r of Some x \<Rightarrow> returnS x | None \<Rightarrow> raiseS (Raised msg))"

text \<open>An attribute of an answer that was not OK\<close>

definition attrS :: "'a option \<Rightarrow> 'a sub" where
  "attrS r = (case r of Some x \<Rightarrow> returnS x | None \<Rightarrow> raiseS AttributeError)"

text \<open>\<open>secrets.choice\<close>: the draws of the random generator are one after the other.\<close>

definition draw :: "server \<Rightarrow> 'a list \<Rightarrow> 'a sub" where
  "draw sv xs s =
     (if xs = [] then Some (Inl IndexError, s)
      else Some (Inr (xs ! (sv_draw sv (st_draws s) mod length xs)), s\<lparr>st_draws := st_draws s + 1\<rparr>))"

section \<open>The caches\<close>

definition element_cache :: "ElementType \<Rightarrow> sub_state \<Rightarrow> (string option \<times> string) list \<times> sub_state" where
  "element_cache e s =
     (case map_of (st_caches s) (getName e) of
        Some c \<Rightarrow> (c, s)
      | None \<Rightarrow> ([], s\<lparr>st_caches := AList.update (getName e) [] (st_caches s)\<rparr>))"

definition cache_element_value :: "ElementType \<Rightarrow> string option \<Rightarrow> string \<Rightarrow> unit sub" where
  "cache_element_value e k v s =
     (case element_cache e s of (c, s) \<Rightarrow>
        Some (Inr (), s\<lparr>st_caches := AList.update (getName e) (AList.update k v c) (st_caches s)\<rparr>))"

definition is_element_cached :: "ElementType \<Rightarrow> string option \<Rightarrow> bool sub" where
  "is_element_cached e k s = (case element_cache e s of (c, s) \<Rightarrow> Some (Inr (has_key c k), s))"

definition get_cached_element :: "ElementType \<Rightarrow> string option \<Rightarrow> string option sub" where
  "get_cached_element e k s = (case element_cache e s of (c, s) \<Rightarrow> Some (Inr (map_of c k), s))"

definition get_cache_size :: "ElementType \<Rightarrow> nat sub" where
  "get_cache_size e s = (case element_cache e s of (c, s) \<Rightarrow> Some (Inr (length c), s))"

definition initial_get :: "string option \<Rightarrow> string option sub" where
  "initial_get artist_id s =
     Some (Inr (case artist_id of Some i \<Rightarrow> map_of (st_initials s) i | None \<Rightarrow> None), s)"

definition initial_set :: "string \<Rightarrow> string \<Rightarrow> unit sub" where
  "initial_set artist_id artist_initial s =
     Some (Inr (), s\<lparr>st_initials := AList.update artist_id artist_initial (st_initials s)\<rparr>)"

section \<open>Rules\<close>

named_theorems sub_simps "evaluation of computations"

lemma returnS_app [sub_simps]: "returnS x s = Some (Inr x, s)"
  by (simp add: returnS_def)

lemma raiseS_app [sub_simps]: "raiseS e s = Some (Inl e, s)"
  by (simp add: raiseS_def)

lemma bindS_returnS [simp, sub_simps]: "bindS (returnS x) f = f x"
  by (rule ext) (simp add: bindS_def returnS_def)

lemma bindS_raiseS [simp, sub_simps]: "bindS (raiseS e) f = raiseS e"
  by (rule ext) (simp add: bindS_def raiseS_def)

lemma bindS_Some [sub_simps]: "m s = Some (Inr x, s') \<Longrightarrow> bindS m f s = f x s'"
  by (simp add: bindS_def)

lemma bindS_fails: "m s = Some (Inl e, s') \<Longrightarrow> bindS m f s = Some (Inl e, s')"
  by (simp add: bindS_def)

lemma bindS_None [sub_simps]: "m s = None \<Longrightarrow> bindS m f s = None"
  by (simp add: bindS_def)

lemma bindS_assoc: "bindS (bindS m f) g = bindS m (\<lambda>x. bindS (f x) g)"
  by (rule ext) (auto simp: bindS_def split: option.splits sum.splits)

lemma bindS_Inr:
  "bindS m f s = Some (Inr y, s'') \<longleftrightarrow> (\<exists>x s'. m s = Some (Inr x, s') \<and> f x s' = Some (Inr y, s''))"
  by (auto simp: bindS_def split: option.splits sum.splits)

lemma foldS_append: "foldS f (xs @ ys) b = bindS (foldS f xs b) (foldS f ys)"
proof (induction xs arbitrary: b)
  case (Cons x xs)
  then have "foldS f (xs @ ys) = (\<lambda>b. bindS (foldS f xs b) (foldS f ys))" by (intro ext) simp
  then show ?case by (simp add: bindS_assoc)
qed simp

text \<open>\<open>ensures m P\<close>: whatever \<open>m\<close> returns satisfies \<open>P\<close>.\<close>

definition ensures :: "'a sub \<Rightarrow> ('a \<Rightarrow> bool) \<Rightarrow> bool" where
  "ensures m P \<longleftrightarrow> (\<forall>s x s'. m s = Some (Inr x, s') \<longrightarrow> P x)"

named_theorems ensures_intros "what computations return"

lemma ensures_returnS [ensures_intros]: "P x \<Longrightarrow> ensures (returnS x) P"
  by (simp add: ensures_def returnS_def)

lemma ensures_raiseS [ensures_intros]: "ensures (raiseS e) P"
  by (simp add: ensures_def raiseS_def)

lemma ensures_bindS: "ensures m Q \<Longrightarrow> (\<And>x. Q x \<Longrightarrow> ensures (f x) P) \<Longrightarrow> ensures (bindS m f) P"
  unfolding ensures_def bindS_Inr by blast

lemma ensures_True [ensures_intros]: "ensures m (\<lambda>_. True)"
  by (simp add: ensures_def)

lemma ensures_bindS_any [ensures_intros]: "(\<And>x. ensures (f x) P) \<Longrightarrow> ensures (bindS m f) P"
  by (rule ensures_bindS [OF ensures_True])

lemma ensures_foldS:
  "(\<And>x b. x \<in> set xs \<Longrightarrow> P b \<Longrightarrow> ensures (f x b) P) \<Longrightarrow> P b \<Longrightarrow> ensures (foldS f xs b) P"
proof (induction xs arbitrary: b)
  case Nil
  then show ?case by (simp add: ensures_returnS)
next
  case (Cons x xs)
  have "ensures (f x b) P" by (rule Cons.prems) (use Cons.prems in simp_all)
  moreover have "ensures (foldS f xs b') P" if "P b'" for b' by (rule Cons.IH) (use Cons.prems that in auto)
  ultimately show ?case by (simp add: ensures_bindS)
qed

section \<open>Paging\<close>

text \<open>The loops that ask for page after page as long as the last one was empty or full. The body gets the
  offset and what was collected, and returns what is collected now and the length of the page, or no
  length to leave the loop.\<close>

partial_function (option) page_loop ::
  "(int \<Rightarrow> 'b \<Rightarrow> ('b \<times> nat option) sub) \<Rightarrow> int \<Rightarrow> 'b \<Rightarrow> sub_state \<Rightarrow> ('b res \<times> sub_state) option" where
  "page_loop body offset b s =
     (case body offset b s of
        None \<Rightarrow> None
      | Some (r, s') \<Rightarrow>
          (case r of
             Inl e \<Rightarrow> Some (Inl e, s')
           | Inr (b', n) \<Rightarrow>
               (case n of
                  None \<Rightarrow> Some (Inr b', s')
                | Some k \<Rightarrow>
                    if k = 0 \<or> int k = subsonic_max_return_size then page_loop body (offset + int k) b' s'
                    else Some (Inr b', s'))))"

section \<open>Requests\<close>

definition albums_of_type :: "server \<Rightarrow> string option \<Rightarrow> int \<Rightarrow> int \<Rightarrow> album list option res" where
  "albums_of_type sv query_type sz offset =
     (if query_type = getQueryType NEWEST then Inr (sv_newest sv sz offset)
      else if query_type = getQueryType RANDOM then Inr (sv_random sv sz offset)
      else if query_type = getQueryType RECENTLY_PLAYED then Inr (sv_albumList sv RECENT None sz offset)
      else if query_type = getQueryType MOST_PLAYED then Inr (sv_albumList sv FREQUENT None sz offset)
      else if query_type = getQueryType HIGHEST_RATED then Inr (sv_albumList sv HIGHEST None sz offset)
      else if query_type = getQueryType FAVOURITES then Inr (sv_albumList sv STARRED None sz offset)
      else Inl UnboundLocalError)"

definition get_albums :: "server \<Rightarrow> string option \<Rightarrow> int \<Rightarrow> int \<Rightarrow> album list sub" where
  "get_albums sv query_type sz offset =
     bindS (liftS (albums_of_type sv query_type sz offset)) (\<lambda>r. okS r ''Cannot execute query'')"

definition get_random_art_by_genre :: "server \<Rightarrow> string option \<Rightarrow> string option sub" where
  "get_random_art_by_genre sv genre =
     (case sv_albumList sv BY_GENRE genre 100 0 of
        None \<Rightarrow> returnS None
      | Some als \<Rightarrow> bindS (draw sv als) (\<lambda>al. returnS (Some (al_id al))))"

record album_tracks =
  at_codecs :: codec_sets
  at_album :: album
  at_songs :: "song list"
  at_artUri :: string
  at_multi :: bool

definition get_album_tracks :: "server \<Rightarrow> string \<Rightarrow> album_tracks sub" where
  "get_album_tracks sv album_id =
     bindS (okS (sv_album sv album_id) ''Album not found'') (\<lambda>al.
     bindS (liftS (sort_song_list (al_songs al))) (\<lambda>r.
       returnS \<lparr>at_codecs = ss_codecs r, at_album = al, at_songs = ss_songs r,
                at_artUri = sv_coverUrl sv (al_id al), at_multi = ss_multi r\<rparr>))"

text \<open>All artists of a genre: the set that is collected, and for each page whether it cached an album.\<close>

definition genre_album :: "string option \<Rightarrow> album \<Rightarrow> string option list \<times> bool \<Rightarrow> (string option list \<times> bool) sub" where
  "genre_album genre al sc =
     (case sc of (ids, cached) \<Rightarrow>
        if al_artistId al \<in> set ids then returnS (ids, cached)
        else if cached then returnS (ids @ [al_artistId al], True)
        else bindS (cache_element_value GENRE_ARTIST_LIST genre (al_id al)) (\<lambda>_.
               returnS (ids @ [al_artistId al], True)))"

definition genre_page :: "server \<Rightarrow> string option \<Rightarrow> int \<Rightarrow> string option list \<Rightarrow> (string option list \<times> nat option) sub" where
  "genre_page sv genre offset ids =
     (case sv_albumList sv BY_GENRE genre subsonic_max_return_size offset of
        None \<Rightarrow> returnS ([], None)
      | Some als \<Rightarrow>
          bindS (foldS (genre_album genre) als (ids, False)) (\<lambda>(ids, _). returnS (ids, Some (length als))))"

definition load_all_artists_by_genre :: "server \<Rightarrow> string option \<Rightarrow> string option list sub" where
  "load_all_artists_by_genre sv genre = page_loop (genre_page sv genre) 0 []"

definition artist_album :: "string \<Rightarrow> album \<Rightarrow> album list \<Rightarrow> album list sub" where
  "artist_album artist_name al result =
     (case al_artist al of
        None \<Rightarrow> raiseS TypeError
      | Some a \<Rightarrow> returnS (if contains a artist_name then result @ [al] else result))"

definition artist_genre_page :: "server \<Rightarrow> string \<Rightarrow> string option \<Rightarrow> int \<Rightarrow> album list \<Rightarrow> (album list \<times> nat option) sub" where
  "artist_genre_page sv artist_name genre offset result =
     bindS (okS (sv_albumList sv BY_GENRE genre subsonic_max_return_size offset) ''Failed to load albums for genre'') (\<lambda>als.
     bindS (foldS (artist_album artist_name) als result) (\<lambda>result. returnS (result, Some (length als))))"

definition get_album_list_by_artist_genre :: "server \<Rightarrow> artist \<Rightarrow> string option \<Rightarrow> album list sub" where
  "get_album_list_by_artist_genre sv artist genre = page_loop (artist_genre_page sv (ar_name artist) genre) 0 []"

section \<open>Filling the caches\<close>

definition newest_album :: "album \<Rightarrow> bool \<Rightarrow> bool sub" where
  "newest_album al first_processed =
     bindS (if first_processed then returnS ()
            else bindS (cache_element_value TAG (Some (getTagName GENRES)) (al_id al)) (\<lambda>_.
                 bindS (cache_element_value TAG (Some (getTagName ARTISTS_ALL)) (al_id al)) (\<lambda>_.
                   cache_element_value TAG (Some (getTagName ARTISTS_INDEXED)) (al_id al)))) (\<lambda>_.
     bindS (is_element_cached GENRE (al_genre al)) (\<lambda>c.
     bindS (if c then returnS () else cache_element_value GENRE (al_genre al) (al_id al)) (\<lambda>_.
     bindS (is_element_cached ARTIST (al_artistId al)) (\<lambda>c.
     bindS (if c then returnS () else cache_element_value ARTIST (al_artistId al) (al_id al)) (\<lambda>_.
       returnS True)))))"

definition newest_page :: "server \<Rightarrow> int \<Rightarrow> bool \<Rightarrow> (bool \<times> nat option) sub" where
  "newest_page sv offset first_processed =
     bindS (get_albums sv (getQueryType NEWEST) subsonic_max_return_size offset) (\<lambda>als.
     bindS (foldS newest_album als first_processed) (\<lambda>fp. returnS (fp, Some (length als))))"

definition load_by_newest :: "server \<Rightarrow> unit sub" where
  "load_by_newest sv = bindS (page_loop (newest_page sv) 0 False) (\<lambda>_. returnS ())"

fun load_by_artist_initial :: "string \<Rightarrow> artist_ref list \<Rightarrow> unit sub" where
  "load_by_artist_initial nm [] = returnS ()"
| "load_by_artist_initial nm (a # items) =
     bindS (is_element_cached ARTIST (Some (at_id a))) (\<lambda>c.
       if c then
         bindS (get_cached_element ARTIST (Some (at_id a))) (\<lambda>v.
           cache_element_value ARTIST_INITIAL (Some nm) (the v))
       else load_by_artist_initial nm items)"

definition load_by_artists :: "server \<Rightarrow> unit sub" where
  "load_by_artists sv =
     (case sv_artists sv of
        None \<Rightarrow> returnS ()
      | Some initials \<Rightarrow> foldS (\<lambda>i _. load_by_artist_initial (in_name i) (in_items i)) initials ())"

definition load_single_genre :: "server \<Rightarrow> string \<Rightarrow> unit sub" where
  "load_single_genre sv genre =
     bindS (is_element_cached GENRE (Some genre)) (\<lambda>c.
       if c then returnS ()
       else (case sv_albumList sv BY_GENRE (Some genre) subsonic_max_return_size 0 of
               None \<Rightarrow> returnS ()
             | Some als \<Rightarrow>
                 if als = [] then returnS ()
                 else bindS (draw sv als) (\<lambda>al. cache_element_value GENRE (Some genre) (al_id al))))"

definition load_genres :: "server \<Rightarrow> unit sub" where
  "load_genres sv =
     (case sv_genres sv of
        None \<Rightarrow> returnS ()
      | Some gs \<Rightarrow> foldS (\<lambda>g _. if ge_name g \<noteq> [] then load_single_genre sv (ge_name g) else returnS ()) gs ())"

definition initial_caching :: "server \<Rightarrow> unit sub" where
  "initial_caching sv =
     bindS (load_by_newest sv) (\<lambda>_. bindS (load_by_artists sv) (\<lambda>_. load_genres sv))"

text \<open>At the start, a failure is only logged.\<close>

definition subsonic_init :: "server \<Rightarrow> bool sub" where
  "subsonic_init sv s =
     (case initial_caching sv s of
        None \<Rightarrow> None
      | Some (Inl e, s') \<Rightarrow> Some (Inr False, s')
      | Some (Inr _, s') \<Rightarrow> Some (Inr True, s'))"

section \<open>When loading ends\<close>

text \<open>An empty page that changes nothing is asked for again and again.\<close>

lemma page_loop_stuck:
  assumes "body off b s = Some (Inr (b, Some 0), s)"
  shows "page_loop body off b s = None"
proof -
  have "page_loop body off b s = Some y \<Longrightarrow> body off b s \<noteq> Some (Inr (b, Some 0), s)" for y
    by (rule page_loop.raw_induct [where P = "\<lambda>body off b s y. body off b s \<noteq> Some (Inr (b, Some 0), s)"])
      (auto split: option.splits)
  with assms show ?thesis by (cases "page_loop body off b s") auto
qed

text \<open>The pages of a library: the loop goes through all of it, and returns when the last page is neither
  empty nor full.\<close>

definition pages_of :: "'a list \<Rightarrow> ('a \<Rightarrow> 'b \<Rightarrow> 'b sub) \<Rightarrow> (int \<Rightarrow> 'b \<Rightarrow> ('b \<times> nat option) sub) \<Rightarrow> bool" where
  "pages_of lib f body \<longleftrightarrow>
     (\<forall>k b. k \<le> length lib \<longrightarrow>
        body (int k) b =
          bindS (foldS f (take 500 (drop k lib)) b) (\<lambda>b'. returnS (b', Some (length (take 500 (drop k lib))))))"

definition never_if :: "bool \<Rightarrow> ('b res \<times> sub_state) option \<Rightarrow> ('b res \<times> sub_state) option" where
  "never_if c r = (case r of Some (Inr _, _) \<Rightarrow> if c then None else r | _ \<Rightarrow> r)"

lemma page_loop_pages:
  assumes "pages_of lib f body" and "k \<le> length lib"
  shows "page_loop body (int k) b s = never_if ((length lib - k) mod 500 = 0) (foldS f (drop k lib) b s)"
  using assms(2)
proof (induction "length lib - k" arbitrary: k b s rule: less_induct)
  case less
  let ?page = "take 500 (drop k lib)"
  have body: "body (int k) b = bindS (foldS f ?page b) (\<lambda>b'. returnS (b', Some (length ?page)))"
    using assms(1) less.prems unfolding pages_of_def by blast
  consider "k = length lib" | "k < length lib" "length lib - k < 500" | "500 \<le> length lib - k"
    using less.prems by linarith
  then show ?case
  proof cases
    case 1
    have "body (int k) b s = Some (Inr (b, Some 0), s)" unfolding body by (simp add: 1 returnS_app)
    from page_loop_stuck [of body, OF this] show ?thesis by (simp add: 1 never_if_def returnS_app)
  next
    case 2
    then have page: "?page = drop k lib" "length ?page = length lib - k" "(length lib - k) mod 500 \<noteq> 0" by auto
    show ?thesis
      using 2 by (subst page_loop.simps, unfold body page)
        (auto simp: bindS_def returnS_app never_if_def subsonic_max_return_size_def split: option.splits sum.splits)
  next
    case 3
    then have len: "length ?page = 500" by simp
    have m: "(length lib - (k + 500)) mod 500 = (length lib - k) mod 500"
      using 3 le_mod_geq [of 500 "length lib - k"] by simp
    have split: "foldS f (drop k lib) b = bindS (foldS f ?page b) (foldS f (drop (k + 500) lib))"
    proof -
      have "drop k lib = ?page @ drop (k + 500) lib" by (metis append_take_drop_id drop_drop add.commute)
      then have "foldS f (drop k lib) b = foldS f (?page @ drop (k + 500) lib) b" by (rule arg_cong)
      then show ?thesis by (simp only: foldS_append)
    qed
    have IH: "page_loop body (int k + 500) b' s' = never_if ((length lib - k) mod 500 = 0) (foldS f (drop (k + 500) lib) b' s')"
      for b' s'
      using less.hyps [of "k + 500" b' s'] 3 by (simp add: m)
    show ?thesis
      by (subst page_loop.simps, unfold body len split)
        (auto simp: bindS_def returnS_app never_if_def subsonic_max_return_size_def IH split: option.splits sum.splits)
  qed
qed

section \<open>What the caches hold\<close>

definition cached :: "sub_state \<Rightarrow> ElementType \<Rightarrow> string option \<Rightarrow> string option" where
  "cached s e k = Option.bind (map_of (st_caches s) (getName e)) (\<lambda>c. map_of c k)"

definition touch :: "ElementType \<Rightarrow> sub_state \<Rightarrow> sub_state" where
  "touch e s = snd (element_cache e s)"

definition store :: "ElementType \<Rightarrow> string option \<Rightarrow> string \<Rightarrow> sub_state \<Rightarrow> sub_state" where
  "store e k v s =
     (case element_cache e s of (c, s) \<Rightarrow> s\<lparr>st_caches := AList.update (getName e) (AList.update k v c) (st_caches s)\<rparr>)"

lemma cached_touch [simp]: "cached (touch e s) e' k = cached s e' k"
  by (auto simp: cached_def touch_def element_cache_def update_conv' split: option.splits)

lemma cached_store [simp]: "cached (store e k v s) e' k' = (if e' = e \<and> k' = k then Some v else cached s e' k')"
  by (auto simp: cached_def store_def element_cache_def update_conv' split: option.splits)

lemma cache_app [sub_simps]:
  "cache_element_value e k v s = Some (Inr (), store e k v s)"
  "is_element_cached e k s = Some (Inr (cached s e k \<noteq> None), touch e s)"
  "get_cached_element e k s = Some (Inr (cached s e k), touch e s)"
  by (auto simp: cache_element_value_def store_def is_element_cached_def get_cached_element_def touch_def cached_def
      element_cache_def has_key_def split: option.splits prod.splits)

lemma newest_album_returns:
  "\<exists>s'. newest_album al fp s = Some (Inr True, s') \<and>
     (\<forall>g. cached s' GENRE g = (case cached s GENRE g of Some v \<Rightarrow> Some v
        | None \<Rightarrow> if al_genre al = g then Some (al_id al) else None)) \<and>
     (\<forall>i. cached s' ARTIST i = (case cached s ARTIST i of Some v \<Rightarrow> Some v
        | None \<Rightarrow> if al_artistId al = i then Some (al_id al) else None))"
  by (cases fp; cases "cached s GENRE (al_genre al)"; cases "cached s ARTIST (al_artistId al)")
    (auto simp: newest_album_def bindS_def returnS_app cache_app split: option.splits)

lemma newest_albums_return:
  "\<exists>fp' s'. foldS newest_album lib fp s = Some (Inr fp', s') \<and>
     (\<forall>g. cached s' GENRE g = (case cached s GENRE g of Some v \<Rightarrow> Some v
        | None \<Rightarrow> map_option al_id (find (\<lambda>al. al_genre al = g) lib))) \<and>
     (\<forall>i. cached s' ARTIST i = (case cached s ARTIST i of Some v \<Rightarrow> Some v
        | None \<Rightarrow> map_option al_id (find (\<lambda>al. al_artistId al = i) lib)))"
proof (induction lib arbitrary: fp s)
  case Nil
  show ?case by (auto simp: returnS_app split: option.splits)
next
  case (Cons al lib)
  obtain s1 where s1: "newest_album al fp s = Some (Inr True, s1)"
    "\<And>g. cached s1 GENRE g = (case cached s GENRE g of Some v \<Rightarrow> Some v
        | None \<Rightarrow> if al_genre al = g then Some (al_id al) else None)"
    "\<And>i. cached s1 ARTIST i = (case cached s ARTIST i of Some v \<Rightarrow> Some v
        | None \<Rightarrow> if al_artistId al = i then Some (al_id al) else None)"
    using newest_album_returns [of al fp s] by blast
  obtain fp' s' where s': "foldS newest_album lib True s1 = Some (Inr fp', s')"
     "\<And>g. cached s' GENRE g = (case cached s1 GENRE g of Some v \<Rightarrow> Some v
        | None \<Rightarrow> map_option al_id (find (\<lambda>al. al_genre al = g) lib))"
     "\<And>i. cached s' ARTIST i = (case cached s1 ARTIST i of Some v \<Rightarrow> Some v
        | None \<Rightarrow> map_option al_id (find (\<lambda>al. al_artistId al = i) lib))"
    using Cons.IH [of True s1] by blast
  have "foldS newest_album (al # lib) fp s = Some (Inr fp', s')" using s1(1) s'(1) by (simp add: bindS_def)
  moreover have "cached s' GENRE g = (case cached s GENRE g of Some v \<Rightarrow> Some v
        | None \<Rightarrow> map_option al_id (find (\<lambda>al. al_genre al = g) (al # lib)))" for g
    by (simp add: s'(2) s1(2) split: option.splits)
  moreover have "cached s' ARTIST i = (case cached s ARTIST i of Some v \<Rightarrow> Some v
        | None \<Rightarrow> map_option al_id (find (\<lambda>al. al_artistId al = i) (al # lib)))" for i
    by (simp add: s'(3) s1(3) split: option.splits)
  ultimately show ?case by blast
qed

text \<open>C17. Loading the library at the start goes through all albums, newest first, and leaves for every genre
  and every artist the first album that has it, unless one was known before - provided it ends. It does
  exactly if the number of albums is no multiple of the page size: an empty library, and one of 500, or 1000
  albums, is asked for an empty page again and again, and the plugin never starts.\<close>

theorem load_by_newest_ends:
  assumes "\<forall>k. sv_newest sv 500 (int k) = Some (take 500 (drop k lib))"
  shows "if length lib mod 500 = 0 then load_by_newest sv s = None
    else \<exists>s'. load_by_newest sv s = Some (Inr (), s') \<and>
      (\<forall>g. cached s' GENRE g = (case cached s GENRE g of Some v \<Rightarrow> Some v
         | None \<Rightarrow> map_option al_id (find (\<lambda>al. al_genre al = g) lib))) \<and>
      (\<forall>i. cached s' ARTIST i = (case cached s ARTIST i of Some v \<Rightarrow> Some v
         | None \<Rightarrow> map_option al_id (find (\<lambda>al. al_artistId al = i) lib)))"
proof -
  have "pages_of lib newest_album (newest_page sv)"
    using assms unfolding pages_of_def
    by (simp add: newest_page_def get_albums_def albums_of_type_def liftS_def okS_def subsonic_max_return_size_def
        bindS_def returnS_app fun_eq_iff)
  from page_loop_pages [OF this, of 0 False s]
  have loop: "page_loop (newest_page sv) 0 False s = never_if (length lib mod 500 = 0) (foldS newest_album lib False s)"
    by simp
  obtain fp' s' where "foldS newest_album lib False s = Some (Inr fp', s')"
    and "\<forall>g. cached s' GENRE g = (case cached s GENRE g of Some v \<Rightarrow> Some v
        | None \<Rightarrow> map_option al_id (find (\<lambda>al. al_genre al = g) lib))"
    and "\<forall>i. cached s' ARTIST i = (case cached s ARTIST i of Some v \<Rightarrow> Some v
        | None \<Rightarrow> map_option al_id (find (\<lambda>al. al_artistId al = i) lib))"
    using newest_albums_return [of lib False s] by blast
  then show ?thesis
    by (simp add: load_by_newest_def bindS_def loop never_if_def returnS_app)
qed

definition demo_album :: "string \<Rightarrow> string \<Rightarrow> album" where
  "demo_album i g =
     \<lparr>al_id = i, al_title = ''T'', al_artist = Some ''A'', al_artistId = Some ''7'', al_genre = Some g,
      al_year = None, al_coverArt = None, al_songs = []\<rparr>"

definition demo_server :: "album list \<Rightarrow> server" where
  "demo_server lib =
     \<lparr>sv_albumList = (\<lambda>_ _ n off. Some (take (nat n) (drop (nat off) lib))),
      sv_newest = (\<lambda>n off. Some (take (nat n) (drop (nat off) lib))),
      sv_random = (\<lambda>n off. Some (take (nat n) (drop (nat off) lib))),
      sv_album = (\<lambda>i. find (\<lambda>al. al_id al = i) lib), sv_song = (\<lambda>_. None), sv_artist = (\<lambda>_. None),
      sv_artists = Some [], sv_starred = Some ([], []), sv_genres = Some [], sv_playlists = Some [],
      sv_playlist = (\<lambda>_. None), sv_stations = Some [], sv_randomSongs = (\<lambda>_. Some []),
      sv_topSongs = (\<lambda>_. Some []), sv_similarSongs = (\<lambda>_ _. Some []), sv_similarArtists = (\<lambda>_. Some []),
      sv_search = (\<lambda>_ _ _ _. \<lparr>sr_artists = [], sr_albums = [], sr_songs = []\<rparr>),
      sv_coverUrl = (\<lambda>i. ''http://s/cover/'' @ i), sv_songUrl = (\<lambda>i. ''http://s/song/'' @ i),
      sv_artistCover = (\<lambda>_. None), sv_mime = (\<lambda>_. None), sv_draw = (\<lambda>_. 0)\<rparr>"

definition sub_start :: sub_state where
  "sub_start = \<lparr>st_caches = [], st_initials = [], st_draws = 0\<rparr>"

theorem load_by_newest_ends_witness:
  "load_by_newest (demo_server []) sub_start = None \<and>
   (\<exists>s'. load_by_newest (demo_server [demo_album ''1'' ''Jazz'', demo_album ''2'' ''Jazz'']) sub_start = Some (Inr (), s')
      \<and> cached s' GENRE (Some ''Jazz'') = Some ''1'')"
proof -
  have h: "\<forall>k. sv_newest (demo_server lib) 500 (int k) = Some (take 500 (drop k lib))" for lib
    by (simp add: demo_server_def)
  have "cached sub_start e k = None" for e k by (simp add: cached_def sub_start_def)
  with load_by_newest_ends [OF h, of "[]" sub_start]
    load_by_newest_ends [OF h, of "[demo_album ''1'' ''Jazz'', demo_album ''2'' ''Jazz'']" sub_start]
  show ?thesis by (auto simp: demo_album_def)
qed

end
