(* ===== verification/SubEntries.thy ===== *)
theory SubEntries
  imports SubServer
begin

text \<open>
  The entries of the Subsonic plugin: \<open>subsonic/art_retriever.py\<close>, \<open>converter.py\<close>, \<open>selector.py\<close>,
  \<open>upnp_util.py\<close>, \<open>entry_creator.py\<close> and \<open>get_artist_art\<close> of \<open>subsonic_util.py\<close>. An entry is a
  dictionary of JSON values. Every entry carries an identifier, made under the container it is in;
  \<open>leads_to\<close> says that the identifier is that of an element or a tag, and the lemmas of this theory
  that each maker of entries ensures it.
\<close>

section \<open>Cover art\<close>

definition first_cover :: "album list option \<Rightarrow> string option" where
  "first_cover r = (case r of Some (al # _) \<Rightarrow> al_coverArt al | _ \<Rightarrow> None)"

definition get_artist_cover :: "server \<Rightarrow> string option \<Rightarrow> string option" where
  "get_artist_cover sv artist_id = (case sv_artistCover sv artist_id of None \<Rightarrow> None | Some art \<Rightarrow> art)"

definition newest_albums_art :: "server \<Rightarrow> string option sub" where
  "newest_albums_art sv = returnS (first_cover (sv_newest sv 1 0))"

definition random_albums_art :: "server \<Rightarrow> string option sub" where
  "random_albums_art sv = returnS (first_cover (sv_random sv 1 0))"

definition listed_albums_art :: "server \<Rightarrow> list_type \<Rightarrow> string option sub" where
  "listed_albums_art sv ltype = returnS (first_cover (sv_albumList sv ltype None 1 0))"

definition genre_art :: "server \<Rightarrow> string \<Rightarrow> string option sub" where
  "genre_art sv genre_name = returnS (first_cover (sv_albumList sv BY_GENRE (Some genre_name) 1 0))"

definition genres_art :: "server \<Rightarrow> string option sub" where
  "genres_art sv =
     (case sv_genres sv of
        None \<Rightarrow> returnS None
      | Some gs \<Rightarrow> bindS (draw sv gs) (\<lambda>g. genre_art sv (ge_name g)))"

definition random_cover_by_initial :: "server \<Rightarrow> artists_initial \<Rightarrow> string option sub" where
  "random_cover_by_initial sv i =
     bindS (draw sv (in_items i)) (\<lambda>a. returnS (get_artist_cover sv (Some (at_id a))))"

definition random_artist_art :: "server \<Rightarrow> string option sub" where
  "random_artist_art sv =
     (case sv_artists sv of
        None \<Rightarrow> returnS None
      | Some initials \<Rightarrow> bindS (draw sv initials) (random_cover_by_initial sv))"

definition favourite_artist_art :: "server \<Rightarrow> string option sub" where
  "favourite_artist_art sv =
     (case sv_starred sv of
        Some (_, a # _) \<Rightarrow> returnS (get_artist_cover sv (Some (at_id a)))
      | _ \<Rightarrow> returnS None)"

definition get_favourite_song_id :: "server \<Rightarrow> bool \<Rightarrow> string option sub" where
  "get_favourite_song_id sv random =
     (case sv_starred sv of
        None \<Rightarrow> returnS None
      | Some (songs, _) \<Rightarrow>
          if songs = [] then returnS None
          else bindS (if random then draw sv songs else returnS (hd songs)) (\<lambda>s. returnS (Some (sg_id s))))"

definition playlists_art :: "server \<Rightarrow> string option sub" where
  "playlists_art sv =
     (case sv_playlists sv of
        None \<Rightarrow> returnS None
      | Some ps \<Rightarrow> bindS (draw sv ps) (\<lambda>p. returnS (sp_coverArt p)))"

definition artist_initial_art :: "server \<Rightarrow> string \<Rightarrow> string option sub" where
  "artist_initial_art sv initial_name =
     (case sv_artists sv of
        None \<Rightarrow> returnS None
      | Some initials \<Rightarrow>
          (case find (\<lambda>i. in_name i = initial_name) initials of
             None \<Rightarrow> returnS None
           | Some i \<Rightarrow> random_cover_by_initial sv i))"

definition first_or_else :: "string option sub \<Rightarrow> string option sub \<Rightarrow> string option sub" where
  "first_or_else m n = bindS m (\<lambda>art. if truthy art then returnS art else n)"

fun tag_art_retriever :: "server \<Rightarrow> TagType \<Rightarrow> string option sub option" where
  "tag_art_retriever sv TALBUMS = Some (first_or_else (listed_albums_art sv STARRED) (random_albums_art sv))"
| "tag_art_retriever sv TARTISTS = Some (first_or_else (favourite_artist_art sv) (random_artist_art sv))"
| "tag_art_retriever sv SONGS = Some (first_or_else (get_favourite_song_id sv False) (random_albums_art sv))"
| "tag_art_retriever sv NEWEST = Some (newest_albums_art sv)"
| "tag_art_retriever sv RECENTLY_PLAYED = Some (listed_albums_art sv RECENT)"
| "tag_art_retriever sv HIGHEST_RATED = Some (listed_albums_art sv HIGHEST)"
| "tag_art_retriever sv FAVOURITES = Some (listed_albums_art sv STARRED)"
| "tag_art_retriever sv MOST_PLAYED = Some (listed_albums_art sv FREQUENT)"
| "tag_art_retriever sv RANDOM = Some (random_albums_art sv)"
| "tag_art_retriever sv RANDOM_SONGS = Some (random_albums_art sv)"
| "tag_art_retriever sv RANDOM_SONGS_LIST = Some (random_albums_art sv)"
| "tag_art_retriever sv GENRES = Some (genres_art sv)"
| "tag_art_retriever sv ARTISTS_ALL = Some (random_artist_art sv)"
| "tag_art_retriever sv ARTISTS_INDEXED = Some (random_artist_art sv)"
| "tag_art_retriever sv FAVOURITE_ARTISTS = Some (favourite_artist_art sv)"
| "tag_art_retriever sv PLAYLISTS = Some (playlists_art sv)"
| "tag_art_retriever sv FAVOURITE_SONGS = Some (get_favourite_song_id sv True)"
| "tag_art_retriever sv FAVOURITE_SONGS_LIST = Some (get_favourite_song_id sv True)"
| "tag_art_retriever sv INTERNET_RADIOS = None"

text \<open>The identifier made on the way holds the member of the enumeration instead of its name; it is only
  asked for its value, which must not be empty.\<close>

definition get_artist_art :: "server \<Rightarrow> string \<Rightarrow> string option sub" where
  "get_artist_art sv artist_id =
     bindS (get_cache_size ARTIST) (\<lambda>n.
     bindS (if n = 0 then initial_caching sv else returnS ()) (\<lambda>_.
     bindS (get_cached_element ARTIST (Some artist_id)) (\<lambda>art.
       if truthy art then returnS art
       else
         bindS (if n = 0 then initial_caching sv else returnS ()) (\<lambda>_.
         bindS (liftS (new_identifier (JStr (getName ARTIST)) (JStr artist_id))) (\<lambda>_.
           let art = get_artist_cover sv (Some artist_id) in
           bindS (if truthy art then cache_element_value ARTIST (Some artist_id) (the art) else returnS ()) (\<lambda>_.
             returnS art))))))"

definition select_album_id_for_genre_artist :: "server \<Rightarrow> string \<Rightarrow> string option sub" where
  "select_album_id_for_genre_artist sv artist_id =
     bindS (get_cached_element GENRE_ARTIST (Some artist_id)) (\<lambda>art.
       if truthy art then returnS art else get_artist_art sv artist_id)"

section \<open>The fields of an entry\<close>

type_synonym sub_entry = "string \<rightharpoonup> jval"

definition of_direntry :: "entry \<Rightarrow> sub_entry" where
  "of_direntry e k = map_option JStr (e k)"

definition jopt :: "string option \<Rightarrow> jval" where
  "jopt v = (case v of Some t \<Rightarrow> JStr t | None \<Rightarrow> JNull)"

definition jint :: "int option \<Rightarrow> jval" where
  "jint v = (case v of Some n \<Rightarrow> JInt n | None \<Rightarrow> JNull)"

definition str_opt_int :: "int option \<Rightarrow> string" where
  "str_opt_int v = (case v of Some n \<Rightarrow> str_int n | None \<Rightarrow> ''None'')"

definition set_track_number :: "jval \<Rightarrow> sub_entry \<Rightarrow> sub_entry" where
  "set_track_number track_number target = target(''upnp:originalTrackNumber'' \<mapsto> track_number)"

definition set_album_art_from_uri :: "string \<Rightarrow> sub_entry \<Rightarrow> sub_entry" where
  "set_album_art_from_uri uri target = target(''upnp:albumArtURI'' \<mapsto> JStr uri)"

definition set_album_title :: "string \<Rightarrow> sub_entry \<Rightarrow> sub_entry" where
  "set_album_title title target = target(''tt'' \<mapsto> JStr title)"

definition set_album_id :: "string \<Rightarrow> sub_entry \<Rightarrow> sub_entry" where
  "set_album_id album_id target = target(''album_id'' \<mapsto> JStr album_id)"

definition set_class :: "string \<Rightarrow> sub_entry \<Rightarrow> sub_entry" where
  "set_class upnp_class target = target(''upnp:class'' \<mapsto> JStr upnp_class)"

definition set_artist :: "string \<Rightarrow> sub_entry \<Rightarrow> sub_entry" where
  "set_artist artist target = target(''upnp:artist'' \<mapsto> JStr artist)"

definition set_class_music_track :: "sub_entry \<Rightarrow> sub_entry" where
  "set_class_music_track target = target(''upnp:class'' \<mapsto> JStr ''object.item.audioItem.musicTrack'')"

definition album_id_to_url :: "server \<Rightarrow> string option \<Rightarrow> string option" where
  "album_id_to_url sv album_id = (if truthy album_id then Some (sv_coverUrl sv (the album_id)) else None)"

definition set_album_art_from_album_id :: "server \<Rightarrow> string option \<Rightarrow> sub_entry \<Rightarrow> sub_entry" where
  "set_album_art_from_album_id sv album_id target =
     (let art_uri = (if truthy album_id then album_id_to_url sv album_id else None)
      in if truthy art_uri then set_album_art_from_uri (the art_uri) target else target)"

section \<open>Makers of entries\<close>

text \<open>The identifier of an element under a container, with further keys.\<close>

definition element_id :: "string \<Rightarrow> ElementType \<Rightarrow> string option \<Rightarrow> (ItemIdentifierKey \<times> jval) list \<Rightarrow> string res" where
  "element_id objid e v extra =
     bindR (new_identifier (JStr (getName e)) (jopt v)) (\<lambda>i.
     bindR (foldR (\<lambda>(k, x) i. ident_set k x i) extra i) (\<lambda>i.
       Inr (create_objid objid (create_id_from_identifier i))))"

definition dir_of :: "string \<Rightarrow> string \<Rightarrow> string \<Rightarrow> string option \<Rightarrow> sub_entry" where
  "dir_of i objid title artist = of_direntry (direntry i objid title None artist None ''1'' None None)"

definition genre_artist_to_entry :: "server \<Rightarrow> string \<Rightarrow> string option \<Rightarrow> string \<Rightarrow> string \<Rightarrow> sub_entry sub" where
  "genre_artist_to_entry sv objid genre artist_id artist_name =
     bindS (liftS (element_id objid GENRE_ARTIST (Some artist_id) [(GENRE_NAME, jopt genre)])) (\<lambda>i.
     bindS (select_album_id_for_genre_artist sv artist_id) (\<lambda>art.
       returnS (set_album_art_from_album_id sv art (dir_of i objid artist_name None))))"

definition album_to_navigable_entry :: "server \<Rightarrow> string \<Rightarrow> album \<Rightarrow> sub_entry sub" where
  "album_to_navigable_entry sv objid al =
     bindS (liftS (element_id objid NAVIGABLE_ALBUM (Some (al_id al)) [])) (\<lambda>i.
       returnS (set_album_id (al_id al)
         (set_album_art_from_album_id sv (Some (al_id al)) (dir_of i objid (al_title al) (al_artist al)))))"

definition genre_to_entry :: "server \<Rightarrow> string \<Rightarrow> genre \<Rightarrow> sub_entry sub" where
  "genre_to_entry sv objid g =
     bindS (get_cached_element GENRE (Some (ge_name g))) (\<lambda>art.
     bindS (liftS (element_id objid GENRE (Some (ge_name g)) [])) (\<lambda>i.
       returnS (set_album_art_from_album_id sv art (dir_of i objid (ge_name g) None))))"

definition artist_to_entry :: "server \<Rightarrow> string \<Rightarrow> string \<Rightarrow> string \<Rightarrow> sub_entry sub" where
  "artist_to_entry sv objid artist_id entry_name =
     bindS (liftS (element_id objid ARTIST (Some artist_id) [])) (\<lambda>i.
     bindS (get_artist_art sv artist_id) (\<lambda>art.
       returnS (set_album_art_from_album_id sv art (dir_of i objid entry_name None))))"

definition artist_initial_to_entry :: "server \<Rightarrow> string \<Rightarrow> string \<Rightarrow> sub_entry sub" where
  "artist_initial_to_entry sv objid artist_initial =
     bindS (liftS (element_id objid ARTIST_INITIAL (Some artist_initial) [])) (\<lambda>i.
     bindS (get_cached_element ARTIST_INITIAL (Some artist_initial)) (\<lambda>art.
     bindS (if truthy art then returnS art
            else bindS (artist_initial_art sv artist_initial) (\<lambda>art.
                 bindS (if truthy art then cache_element_value ARTIST_INITIAL (Some artist_initial) (the art)
                        else returnS ()) (\<lambda>_. returnS art))) (\<lambda>art.
       returnS (set_album_art_from_album_id sv art (dir_of i objid artist_initial None)))))"

definition song_title :: "sub_config \<Rightarrow> song \<Rightarrow> bool \<Rightarrow> string" where
  "song_title cf s multi =
     (if multi \<and> cf_allow_blacklisted cf = 1 \<and> sg_suffix s \<notin> set (cf_whitelist cf)
      then sg_title s @ '' ['' @ sg_suffix s @ '']'' else sg_title s)"

definition song_to_entry ::
  "server \<Rightarrow> sub_config \<Rightarrow> string \<Rightarrow> song \<Rightarrow> string option \<Rightarrow> bool \<Rightarrow> string option \<Rightarrow> sub_entry sub" where
  "song_to_entry sv cf objid s albumArtURI multi track_num =
     bindS (liftS (element_id objid TRACK (Some (sg_id s)) [])) (\<lambda>i.
       let e = set_class_music_track [''id'' \<mapsto> JStr i, ''pid'' \<mapsto> JStr (sg_id s)];
           e = set_album_title (song_title cf s multi) (e(''uri'' \<mapsto> JStr (sv_songUrl sv (sg_id s))));
           e = e(''tp'' \<mapsto> JStr ''it'', ''discnumber'' \<mapsto> jint (sg_disc s));
           e = set_track_number (case track_num of Some t \<Rightarrow> JStr t | None \<Rightarrow> jint (sg_track s)) e;
           e = set_artist (get_display_artist (sg_artist s)) e;
           e = e(''upnp:album'' \<mapsto> jopt (sg_album s), ''upnp:genre'' \<mapsto> jopt (sg_genre s),
                 ''res:mime'' \<mapsto> jopt (sg_contentType s));
           e = set_album_art_from_uri (if truthy albumArtURI then the albumArtURI else sv_coverUrl sv (sg_id s)) e
       in returnS (e(''duration'' \<mapsto> JStr (str_opt_int (sg_duration s)))))"

definition playlist_to_entry :: "server \<Rightarrow> string \<Rightarrow> playlist \<Rightarrow> sub_entry sub" where
  "playlist_to_entry sv objid p =
     bindS (liftS (element_id objid PLAYLIST (Some (sp_id p)) [])) (\<lambda>i.
       let art_uri = (if truthy (sp_coverArt p) then Some (sv_coverUrl sv (the (sp_coverArt p))) else None);
           e = dir_of i objid (sp_name p) None
       in returnS (if truthy art_uri then set_album_art_from_uri (the art_uri) e else e))"

definition with_year :: "sub_config \<Rightarrow> album \<Rightarrow> string \<Rightarrow> string" where
  "with_year cf al title =
     (if cf_append_year cf = 1 \<and> al_year al \<noteq> None then title @ '' ['' @ the (al_year al) @ '']'' else title)"

text \<open>The codecs of the songs, in the order they are met, and how many of them are in the white list.\<close>

fun count_codecs :: "sub_config \<Rightarrow> song list \<Rightarrow> string list \<Rightarrow> nat \<Rightarrow> nat \<Rightarrow> string list \<times> nat \<times> nat" where
  "count_codecs cf [] codecs white black = (codecs, white, black)"
| "count_codecs cf (s # songs) codecs white black =
     (if sg_suffix s \<in> set codecs then count_codecs cf songs codecs white black
      else if sg_suffix s \<notin> set (cf_whitelist cf) then
        count_codecs cf songs (codecs @ [sg_suffix s]) white (black + 1)
      else count_codecs cf songs (codecs @ [sg_suffix s]) (white + 1) black)"

definition with_codecs :: "server \<Rightarrow> sub_config \<Rightarrow> album \<Rightarrow> string \<Rightarrow> string sub" where
  "with_codecs sv cf al title =
     (if cf_append_codecs cf \<noteq> 1 then returnS title
      else bindS (get_album_tracks sv (al_id al)) (\<lambda>tracks.
        case count_codecs cf (at_songs tracks) [] 0 0 of (codecs, white, black) \<Rightarrow>
          let versions = length (at_codecs tracks);
              title = (if 1 < versions then title @ '' ['' @ str_nat versions @ '' versions]'' else title)
          in if 1 < length codecs \<or> length codecs \<noteq> white then
               let codecs = sort codecs;
                   title = (if length codecs = 1 then strip_codec_from_album title codecs else title)
               in returnS (title @ '' ['' @ join_with '','' codecs @ '']'')
             else returnS title))"

definition cache_album :: "album \<Rightarrow> unit sub" where
  "cache_album al =
     bindS (cache_element_value GENRE (al_genre al) (al_id al)) (\<lambda>_.
     bindS (cache_element_value ARTIST (al_artistId al) (al_id al)) (\<lambda>_.
     bindS (initial_get (al_artistId al)) (\<lambda>initial.
       if truthy initial then cache_element_value ARTIST_INITIAL initial (al_id al) else returnS ())))"

definition album_to_entry :: "server \<Rightarrow> sub_config \<Rightarrow> string \<Rightarrow> album \<Rightarrow> sub_entry sub" where
  "album_to_entry sv cf objid al =
     bindS (with_codecs sv cf al (with_year cf al (al_title al))) (\<lambda>title.
     bindS (cache_album al) (\<lambda>_.
     bindS (liftS (element_id objid ALBUM (Some (al_id al)) [])) (\<lambda>i.
       returnS (set_album_id (al_id al)
         (set_album_art_from_album_id sv (Some (al_id al)) (dir_of i objid title (al_artist al)))))))"

definition album_version_to_entry ::
  "server \<Rightarrow> sub_config \<Rightarrow> string \<Rightarrow> album \<Rightarrow> nat \<Rightarrow> string \<Rightarrow> string list \<Rightarrow> sub_entry sub" where
  "album_version_to_entry sv cf objid al version_number path codec_set =
     bindS (liftS (element_id objid ALBUM (Some (al_id al))
       [(ALBUM_VERSION_PATH_BASE64, JStr (codec_encode path))])) (\<lambda>i.
       let title = with_year cf al (''Version #'' @ str_nat version_number);
           title = title @ '' ['' @ join_with '','' codec_set @ '']'';
           title = title @ '' ['' @ get_last_path_element path @ '']''
       in bindS (cache_album al) (\<lambda>_.
            returnS (set_album_art_from_album_id sv (Some (al_id al)) (dir_of i objid title (al_artist al)))))"

end
