(* ===== verification/SubApp.thy ===== *)
theory SubApp
  imports SubEntries
begin

text \<open>
  The requests of the Subsonic plugin, \<open>subsonic/subsonic-app.py\<close>: one handler per tag and per element,
  \<open>browse\<close>, which reads an identifier and runs its handler, and \<open>search\<close>. A handler gets the identifier
  of the container, the dictionary read from it and the entries so far. Of the values in a dictionary the
  model takes those that the plugin itself writes: a text as the value, a number as the offset. Lemmas:
  every handler only lists entries whose identifiers are dispatched to a handler again; the paging of the
  lists; the numbering of tracks.
\<close>

type_synonym handler = "string \<Rightarrow> ident \<Rightarrow> sub_entry list \<Rightarrow> sub_entry list sub"

section \<open>Reading an identifier\<close>

definition thing_value :: "ident \<Rightarrow> string res" where
  "thing_value i = (case ident_get i THING_VALUE JNull of JStr v \<Rightarrow> Inr v | _ \<Rightarrow> Inl TypeError)"

definition genre_of :: "ident \<Rightarrow> string option res" where
  "genre_of i =
     (case ident_get i GENRE_NAME JNull of JStr v \<Rightarrow> Inr (Some v) | JNull \<Rightarrow> Inr None | _ \<Rightarrow> Inl TypeError)"

definition offset_of :: "ident \<Rightarrow> int res" where
  "offset_of i =
     (case ident_get i OFFSET (JInt 0) of JInt n \<Rightarrow> Inr n | JBool b \<Rightarrow> Inr (if b then 1 else 0) | _ \<Rightarrow> Inl TypeError)"

definition song_as_entry_of :: "ident \<Rightarrow> jval" where
  "song_as_entry_of i = ident_get i SONG_AS_ENTRY (JBool True)"

text \<open>\<open>xs[a:b]\<close>\<close>

definition py_slice :: "'a list \<Rightarrow> int \<Rightarrow> int \<Rightarrow> 'a list" where
  "py_slice xs a b =
     (let n = int (length xs); i = (if a < 0 then max 0 (a + n) else a); j = (if b < 0 then max 0 (b + n) else b)
      in take (nat (j - i)) (drop (nat i) xs))"

section \<open>Entries\<close>

definition next_entry :: "string \<Rightarrow> ElementType \<Rightarrow> string option \<Rightarrow> (ItemIdentifierKey \<times> jval) list \<Rightarrow> sub_entry sub" where
  "next_entry objid e v extra =
     bindS (liftS (element_id objid e v extra)) (\<lambda>i. returnS (dir_of i objid ''Next'' None))"

text \<open>Append what a computation makes.\<close>

definition add_entry :: "sub_entry list \<Rightarrow> sub_entry sub \<Rightarrow> sub_entry list sub" where
  "add_entry entries m = bindS m (\<lambda>e. returnS (entries @ [e]))"

definition station_to_entry :: "server \<Rightarrow> string \<Rightarrow> station \<Rightarrow> sub_entry sub" where
  "station_to_entry sv objid st =
     bindS (liftS (element_id objid INTERNET_RADIO (Some (ir_id st)) [])) (\<lambda>i.
       let e = set_class ''object.item.audioItem.audioBroadcast'' [''id'' \<mapsto> JStr i, ''pid'' \<mapsto> JStr (ir_id st)];
           e = set_album_title (ir_name st) (e(''uri'' \<mapsto> JStr (ir_streamUrl st)));
           e = set_artist ''Internet Radio'' (e(''tp'' \<mapsto> JStr ''it''));
           mime_type = sv_mime sv (ir_streamUrl st)
       in returnS (e(''res:mime'' \<mapsto> JStr (if truthy mime_type then the mime_type else ''audio/mpeg''))))"

definition song_data_to_entry :: "server \<Rightarrow> string \<Rightarrow> song \<Rightarrow> sub_entry" where
  "song_data_to_entry sv entry_id s =
     (let e = set_class_music_track [''id'' \<mapsto> JStr entry_id, ''pid'' \<mapsto> JStr (sg_id s)];
          e = set_album_title (sg_title s) (e(''uri'' \<mapsto> JStr (sv_songUrl sv (sg_id s))));
          e = set_track_number (jint (sg_track s)) (e(''tp'' \<mapsto> JStr ''it'', ''discnumber'' \<mapsto> jint (sg_disc s)));
          e = set_artist (get_display_artist (sg_artist s)) e;
          e = e(''upnp:album'' \<mapsto> jopt (sg_album s), ''upnp:genre'' \<mapsto> jopt (sg_genre s),
                ''res:mime'' \<mapsto> jopt (sg_contentType s));
          e = set_album_art_from_uri (sv_coverUrl sv (sg_id s)) e
      in e(''duration'' \<mapsto> JStr (str_opt_int (sg_duration s))))"

definition playlist_entry_to_entry :: "server \<Rightarrow> string \<Rightarrow> playlist_entry \<Rightarrow> sub_entry sub" where
  "playlist_entry_to_entry sv objid p =
     bindS (liftS (element_id objid TRACK (Some (pe_id p)) [])) (\<lambda>i.
       let e = set_class_music_track [''id'' \<mapsto> JStr i, ''pid'' \<mapsto> JStr (pe_id p)];
           e = e(''uri'' \<mapsto> JStr (sv_songUrl sv (pe_id p)), ''tt'' \<mapsto> JStr (pe_title p), ''tp'' \<mapsto> JStr ''it'');
           e = set_artist (get_display_artist (pe_artist p)) (set_track_number (jint (pe_track p)) e);
           e = e(''upnp:album'' \<mapsto> jopt (pe_album p), ''res:mime'' \<mapsto> jopt (pe_contentType p));
           art = sv_coverUrl sv (pe_id p);
           e = (if art \<noteq> [] then set_album_art_from_uri art e else e)
       in returnS (e(''duration'' \<mapsto> JStr (str_opt_int (pe_duration p)))))"

definition bracketed :: "string \<Rightarrow> string option \<Rightarrow> string" where
  "bracketed nm x = (if truthy x then nm @ '' ['' @ the x @ '']'' else nm)"

definition song_to_song_entry :: "server \<Rightarrow> string \<Rightarrow> song \<Rightarrow> bool \<Rightarrow> sub_entry sub" where
  "song_to_song_entry sv objid s song_as_entry =
     (let nm = bracketed (bracketed (bracketed (sg_title s) (sg_artist s)) (sg_year s)) (sg_album s);
          select = (if song_as_entry then SONG_ENTRY_NAVIGABLE else SONG_ENTRY_THE_SONG)
      in bindS (liftS (element_id objid select (Some (sg_id s)) [])) (\<lambda>i.
           returnS (set_album_art_from_album_id sv (sg_albumId s) (dir_of i objid nm None))))"

definition tag_to_entry :: "server \<Rightarrow> string \<Rightarrow> TagType \<Rightarrow> sub_entry sub" where
  "tag_to_entry sv objid tag =
     bindS (liftS (element_id objid TAG (Some (getTagName tag)) [])) (\<lambda>i.
     bindS (liftS (get_tag_Type_by_name (getTagName tag))) (\<lambda>t.
     bindS (case tag_art_retriever sv tag of Some m \<Rightarrow> m | None \<Rightarrow> returnS None) (\<lambda>art.
       let e = dir_of i objid (getTagTitle t) None
       in returnS (if truthy art then set_album_art_from_album_id sv art e else e))))"

section \<open>Albums\<close>

text \<open>The number of a track restarts with every directory. An empty directory is taken for none.\<close>

fun album_track_entries ::
  "server \<Rightarrow> sub_config \<Rightarrow> string \<Rightarrow> string option \<Rightarrow> album_tracks \<Rightarrow> song list \<Rightarrow> string option \<Rightarrow> int \<Rightarrow>
   sub_entry list \<Rightarrow> sub_entry list sub" where
  "album_track_entries sv cf objid version tracks [] base num entries = returnS entries"
| "album_track_entries sv cf objid version tracks (s # songs) base num entries =
     bindS (liftS (get_dir_from_path (sg_path s))) (\<lambda>dir.
       let song_path = get_album_base_path dir in
       if version = None \<or> version = Some song_path then
         let num = (if \<not> truthy base then 1 else if base = Some song_path then num + 1 else 1) in
         bindS (add_entry entries
             (song_to_entry sv cf objid s (Some (at_artUri tracks)) (at_multi tracks) (Some (str_int num))))
           (album_track_entries sv cf objid version tracks songs (Some song_path) num)
       else album_track_entries sv cf objid version tracks songs base num entries)"

definition load_album_tracks ::
  "server \<Rightarrow> sub_config \<Rightarrow> string \<Rightarrow> string \<Rightarrow> string option \<Rightarrow> sub_entry list \<Rightarrow> sub_entry list sub" where
  "load_album_tracks sv cf objid album_id version entries =
     bindS (get_album_tracks sv album_id) (\<lambda>tracks.
     bindS (cache_element_value GENRE_ALBUM_LIST (al_genre (at_album tracks)) (al_id (at_album tracks))) (\<lambda>_.
       album_track_entries sv cf objid version tracks (at_songs tracks) None 0 entries))"

definition typed_album ::
  "server \<Rightarrow> sub_config \<Rightarrow> string \<Rightarrow> TagType \<Rightarrow> int \<Rightarrow> album \<Rightarrow> sub_entry list \<times> bool \<Rightarrow> (sub_entry list \<times> bool) sub" where
  "typed_album sv cf objid tagType offset al ec =
     (case ec of (entries, tag_cached) \<Rightarrow>
       bindS (if \<not> tag_cached \<and> offset = 0 then
                bindS (cache_element_value TAG (Some (getTagName tagType)) (al_id al)) (\<lambda>_. returnS True)
              else returnS tag_cached) (\<lambda>tag_cached.
       bindS (add_entry entries (if cf_disable_navigable cf = 1 then album_to_entry sv cf objid al
                                 else album_to_navigable_entry sv objid al)) (\<lambda>entries.
       bindS (cache_element_value GENRE (al_genre al) (al_id al)) (\<lambda>_. returnS (entries, tag_cached)))))"

definition load_albums_by_type ::
  "server \<Rightarrow> sub_config \<Rightarrow> string \<Rightarrow> sub_entry list \<Rightarrow> TagType \<Rightarrow> int \<Rightarrow> sub_entry list sub" where
  "load_albums_by_type sv cf objid entries tagType offset =
     bindS (get_albums sv (getQueryType tagType) (cf_items_per_page cf) offset) (\<lambda>als.
     bindS (foldS (typed_album sv cf objid tagType offset) als (entries, False)) (\<lambda>(entries, _).
       returnS entries))"

definition load_albums_by_artist :: "server \<Rightarrow> string \<Rightarrow> album list sub" where
  "load_albums_by_artist sv artist_id =
     bindS (okS (sv_artist sv artist_id) ''Cannot get albums'') (\<lambda>a. returnS (ar_albums a))"

definition albums_by_artist_to_entries ::
  "server \<Rightarrow> sub_config \<Rightarrow> string \<Rightarrow> album list \<Rightarrow> sub_entry list \<Rightarrow> sub_entry list sub" where
  "albums_by_artist_to_entries sv cf objid als entries =
     bindS (if als = [] then returnS ()
            else cache_element_value TAG (Some (getTagName ARTISTS_ALL)) (al_id (hd als))) (\<lambda>_.
       foldS (\<lambda>al entries.
           bindS (cache_element_value ARTIST (al_artistId al) (al_id al)) (\<lambda>_.
           bindS (cache_element_value GENRE (al_genre al) (al_id al)) (\<lambda>_.
             add_entry entries (album_to_entry sv cf objid al)))) als entries)"

definition present_album :: "server \<Rightarrow> sub_config \<Rightarrow> handler" where
  "present_album sv cf objid i entries =
     bindS (liftS (thing_value i)) (\<lambda>album_id.
     bindS (if ident_has i ALBUM_VERSION_PATH_BASE64 then
              liftS (case ident_get i ALBUM_VERSION_PATH_BASE64 JNull of
                       JStr t \<Rightarrow> bindR (codec_decode t) (\<lambda>p. Inr (Some p)) | _ \<Rightarrow> Inl AttributeError)
            else returnS None) (\<lambda>version.
       load_album_tracks sv cf objid album_id version entries))"

section \<open>Lists\<close>

text \<open>The caches are filled first if there is no art for the kind of element.\<close>

definition fill_if_empty :: "server \<Rightarrow> ElementType \<Rightarrow> unit sub" where
  "fill_if_empty sv e = bindS (get_cache_size e) (\<lambda>n. if n = 0 then initial_caching sv else returnS ())"

definition initial_artist ::
  "server \<Rightarrow> string \<Rightarrow> string \<Rightarrow> artist_ref \<Rightarrow> sub_entry list \<Rightarrow> sub_entry list sub" where
  "initial_artist sv objid nm a entries =
     bindS (initial_set (at_id a) nm) (\<lambda>_.
     bindS (artist_to_entry sv objid (at_id a) (at_name a)) (\<lambda>e.
     bindS (get_artist_art sv (at_id a)) (\<lambda>art.
     bindS (if truthy art then cache_element_value TAG (Some (getTagName ARTISTS_INDEXED)) (the art)
            else returnS ()) (\<lambda>_.
       returnS (entries @ [e])))))"

definition load_artists_by_initial :: "server \<Rightarrow> string \<Rightarrow> string \<Rightarrow> sub_entry list \<Rightarrow> sub_entry list sub" where
  "load_artists_by_initial sv objid artist_initial entries =
     bindS (fill_if_empty sv ARTIST_INITIAL) (\<lambda>_.
       case sv_artists sv of
         None \<Rightarrow> returnS entries
       | Some initials \<Rightarrow>
           foldS (\<lambda>i. if in_name i = artist_initial then foldS (initial_artist sv objid (in_name i)) (in_items i)
                      else returnS) initials entries)"

definition create_list_of_genres :: "server \<Rightarrow> string \<Rightarrow> sub_entry list \<Rightarrow> sub_entry list sub" where
  "create_list_of_genres sv objid entries =
     bindS (fill_if_empty sv ARTIST_INITIAL) (\<lambda>_.
       case sv_genres sv of
         None \<Rightarrow> returnS entries
       | Some gs \<Rightarrow>
           foldS (\<lambda>g entries. if 0 < ge_albumCount g then add_entry entries (genre_to_entry sv objid g)
                              else returnS entries) (sort_key ge_name gs) entries)"

definition get_list_of_artists :: "server \<Rightarrow> string \<Rightarrow> sub_entry list \<Rightarrow> sub_entry list sub" where
  "get_list_of_artists sv objid entries =
     bindS (fill_if_empty sv ARTIST) (\<lambda>_.
       case sv_artists sv of
         None \<Rightarrow> returnS entries
       | Some initials \<Rightarrow>
           foldS (\<lambda>i. foldS (\<lambda>a entries.
               bindS (add_entry entries (artist_to_entry sv objid (at_id a) (at_name a))) (\<lambda>entries.
               bindS (initial_set (at_id a) (in_name i)) (\<lambda>_. returnS entries))) (in_items i)) initials entries)"

definition create_list_of_playlist :: "server \<Rightarrow> string \<Rightarrow> sub_entry list \<Rightarrow> sub_entry list sub" where
  "create_list_of_playlist sv objid entries =
     (case sv_playlists sv of
        None \<Rightarrow> returnS entries
      | Some ps \<Rightarrow> foldS (\<lambda>p entries. add_entry entries (playlist_to_entry sv objid p)) ps entries)"

definition create_list_of_internet_radio :: "server \<Rightarrow> string \<Rightarrow> sub_entry list \<Rightarrow> sub_entry list sub" where
  "create_list_of_internet_radio sv objid entries =
     (case sv_stations sv of
        None \<Rightarrow> returnS entries
      | Some sts \<Rightarrow> foldS (\<lambda>st entries. add_entry entries (station_to_entry sv objid st)) sts entries)"

definition create_list_of_playlist_entries :: "server \<Rightarrow> string \<Rightarrow> string \<Rightarrow> sub_entry list \<Rightarrow> sub_entry list sub" where
  "create_list_of_playlist_entries sv objid playlist_id entries =
     (case sv_playlist sv playlist_id of
        None \<Rightarrow> returnS entries
      | Some p \<Rightarrow> foldS (\<lambda>pe entries. add_entry entries (playlist_entry_to_entry sv objid pe)) (sp_entries p) entries)"

text \<open>The entry of an initial is given its art after it was appended.\<close>

definition initial_entry :: "server \<Rightarrow> string \<Rightarrow> artists_initial \<Rightarrow> sub_entry list \<Rightarrow> sub_entry list sub" where
  "initial_entry sv objid i entries =
     bindS (artist_initial_to_entry sv objid (in_name i)) (\<lambda>e.
     bindS (get_cached_element ARTIST_INITIAL (Some (in_name i))) (\<lambda>art.
     bindS (foldS (\<lambda>a _. initial_set (at_id a) (in_name i)) (in_items i) ()) (\<lambda>_.
       returnS (entries @ [if truthy art then set_album_art_from_album_id sv art e else e]))))"

definition create_list_of_artist_initials :: "server \<Rightarrow> string \<Rightarrow> sub_entry list \<Rightarrow> sub_entry list sub" where
  "create_list_of_artist_initials sv objid entries =
     bindS (fill_if_empty sv ARTIST_INITIAL) (\<lambda>_.
       case sv_artists sv of
         None \<Rightarrow> returnS entries
       | Some initials \<Rightarrow> foldS (initial_entry sv objid) initials entries)"

section \<open>Handlers of the tags\<close>

definition handler_tag_type :: "server \<Rightarrow> sub_config \<Rightarrow> TagType \<Rightarrow> handler" where
  "handler_tag_type sv cf tag objid i entries =
     bindS (liftS (offset_of i)) (\<lambda>offset.
     bindS (load_albums_by_type sv cf objid entries tag offset) (\<lambda>entries.
       if int (length entries) = cf_items_per_page cf then
         add_entry entries (next_entry objid TAG (Some (getTagName tag)) [(OFFSET, JInt (offset + int (length entries)))])
       else returnS entries))"

definition get_random_songs :: "server \<Rightarrow> sub_config \<Rightarrow> handler" where
  "get_random_songs sv cf objid i entries =
     (let song_as_entry = song_as_entry_of i in
      bindS (okS (sv_randomSongs sv (cf_items_per_page cf)) ''Cannot get random songs'') (\<lambda>songs.
      bindS (foldS (\<lambda>s entries. add_entry entries (song_to_song_entry sv objid s (jtruthy song_as_entry))) songs entries)
        (\<lambda>entries. add_entry entries
          (next_entry objid NEXT_RANDOM_SONGS (Some ''some_random_song'') [(SONG_AS_ENTRY, song_as_entry)]))))"

definition get_favourite_songs :: "server \<Rightarrow> sub_config \<Rightarrow> handler" where
  "get_favourite_songs sv cf objid i entries =
     bindS (liftS (offset_of i)) (\<lambda>offset.
     bindS (okS (sv_starred sv) ''Cannot retrieved starred items'') (\<lambda>(songs, _).
       let upto = offset + cf_items_per_page cf;
           need_next = (songs \<noteq> [] \<and> upto < int (length songs));
           slice = py_slice songs offset (min (int (length songs)) upto)
       in bindS (foldS (\<lambda>s entries.
              add_entry entries (song_to_song_entry sv objid s (jtruthy (song_as_entry_of i)))) slice entries) (\<lambda>entries.
          if need_next then
            add_entry entries (next_entry objid TAG (Some (getTagName FAVOURITE_SONGS_LIST)) [(OFFSET, JInt upto)])
          else returnS entries)))"

definition handler_tag_artists_favourite :: "server \<Rightarrow> sub_config \<Rightarrow> handler" where
  "handler_tag_artists_favourite sv cf objid i entries =
     bindS (liftS (offset_of i)) (\<lambda>offset.
     bindS (okS (sv_starred sv) ''Cannot retrieved starred items'') (\<lambda>(_, artists).
       let upto = offset + cf_items_per_page cf;
           need_next = (artists \<noteq> [] \<and> upto < int (length artists));
           slice = py_slice artists offset (min (int (length artists)) upto)
       in bindS (foldS (\<lambda>a entries. add_entry entries (artist_to_entry sv objid (at_id a) (at_name a))) slice entries) (\<lambda>entries.
          if need_next then
            add_entry entries (next_entry objid TAG (Some (getTagName FAVOURITE_ARTISTS)) [(OFFSET, JInt upto)])
          else returnS entries)))"

text \<open>A list of songs is shown as entries or as songs: the identifier is marked, unless it is already.\<close>

definition as_entries :: "bool \<Rightarrow> handler \<Rightarrow> handler" where
  "as_entries b h objid i entries =
     bindS (liftS (ident_set SONG_AS_ENTRY (JBool b) i)) (\<lambda>i. h objid i entries)"

definition tag_list_to_entries :: "server \<Rightarrow> string \<Rightarrow> TagType list \<Rightarrow> sub_entry list sub" where
  "tag_list_to_entries sv objid tags = foldS (\<lambda>t entries. add_entry entries (tag_to_entry sv objid t)) tags []"

definition handler_tag_group :: "server \<Rightarrow> TagType list \<Rightarrow> handler" where
  "handler_tag_group sv tags objid i entries =
     bindS (tag_list_to_entries sv objid tags) (\<lambda>es. returnS (entries @ es))"

fun tag_action :: "server \<Rightarrow> sub_config \<Rightarrow> TagType \<Rightarrow> handler" where
  "tag_action sv cf TALBUMS =
     handler_tag_group sv [NEWEST, RECENTLY_PLAYED, HIGHEST_RATED, MOST_PLAYED, RANDOM, FAVOURITES]"
| "tag_action sv cf TARTISTS = handler_tag_group sv [ARTISTS_ALL, ARTISTS_INDEXED, FAVOURITE_ARTISTS]"
| "tag_action sv cf SONGS =
     handler_tag_group sv [RANDOM_SONGS, RANDOM_SONGS_LIST, FAVOURITE_SONGS, FAVOURITE_SONGS_LIST]"
| "tag_action sv cf NEWEST = handler_tag_type sv cf NEWEST"
| "tag_action sv cf RECENTLY_PLAYED = handler_tag_type sv cf RECENTLY_PLAYED"
| "tag_action sv cf HIGHEST_RATED = handler_tag_type sv cf HIGHEST_RATED"
| "tag_action sv cf MOST_PLAYED = handler_tag_type sv cf MOST_PLAYED"
| "tag_action sv cf FAVOURITES = handler_tag_type sv cf FAVOURITES"
| "tag_action sv cf RANDOM = handler_tag_type sv cf RANDOM"
| "tag_action sv cf GENRES = (\<lambda>objid i entries. create_list_of_genres sv objid entries)"
| "tag_action sv cf ARTISTS_ALL = (\<lambda>objid i entries. get_list_of_artists sv objid entries)"
| "tag_action sv cf ARTISTS_INDEXED = (\<lambda>objid i entries. create_list_of_artist_initials sv objid entries)"
| "tag_action sv cf FAVOURITE_ARTISTS = handler_tag_artists_favourite sv cf"
| "tag_action sv cf PLAYLISTS = (\<lambda>objid i entries. create_list_of_playlist sv objid entries)"
| "tag_action sv cf INTERNET_RADIOS = (\<lambda>objid i entries. create_list_of_internet_radio sv objid entries)"
| "tag_action sv cf RANDOM_SONGS = as_entries True (get_random_songs sv cf)"
| "tag_action sv cf RANDOM_SONGS_LIST = as_entries False (get_random_songs sv cf)"
| "tag_action sv cf FAVOURITE_SONGS = as_entries True (get_favourite_songs sv cf)"
| "tag_action sv cf FAVOURITE_SONGS_LIST = as_entries False (get_favourite_songs sv cf)"

section \<open>Handlers of the elements\<close>

definition handler_element_song_entry_song :: "server \<Rightarrow> sub_config \<Rightarrow> handler" where
  "handler_element_song_entry_song sv cf objid i entries =
     bindS (liftS (thing_value i)) (\<lambda>song_id.
       case sv_song sv song_id of
         None \<Rightarrow> returnS entries
       | Some s \<Rightarrow> add_entry entries (song_to_entry sv cf objid s None False None))"

definition handler_radio :: "server \<Rightarrow> handler" where
  "handler_radio sv objid i entries =
     bindS (liftS (thing_value i)) (\<lambda>iid.
     bindS (okS (sv_similarSongs sv iid None) ''Cannot get similar songs'') (\<lambda>songs.
       foldS (\<lambda>s entries. add_entry entries (song_to_song_entry sv objid s True)) songs entries))"

definition handler_radio_song_list :: "server \<Rightarrow> sub_config \<Rightarrow> handler" where
  "handler_radio_song_list sv cf objid i entries =
     bindS (liftS (thing_value i)) (\<lambda>iid.
     bindS (okS (sv_similarSongs sv iid None) ''Cannot get similar songs'') (\<lambda>songs.
       foldS (\<lambda>s entries. add_entry entries (song_to_entry sv cf objid s None False None)) songs entries))"

definition handler_element_artist_top_songs_common :: "server \<Rightarrow> sub_config \<Rightarrow> bool \<Rightarrow> handler" where
  "handler_element_artist_top_songs_common sv cf list_mode objid i entries =
     bindS (liftS (thing_value i)) (\<lambda>artist_id.
     bindS (okS (sv_artist sv artist_id) ''Cannot find artist'') (\<lambda>a.
     bindS (okS (sv_topSongs sv (Some (ar_name a))) ''Cannot get top songs'') (\<lambda>songs.
       foldS (\<lambda>s entries. add_entry entries
           (if list_mode then song_to_entry sv cf objid s None False None
            else song_to_song_entry sv objid s True)) songs entries)))"

definition handler_element_song_entry :: "server \<Rightarrow> sub_config \<Rightarrow> handler" where
  "handler_element_song_entry sv cf objid i entries =
     bindS (liftS (thing_value i)) (\<lambda>song_id.
     bindS (liftS (element_id objid SONG_ENTRY_THE_SONG (Some song_id) [])) (\<lambda>eid.
     bindS (attrS (sv_song sv song_id)) (\<lambda>s.
     let entries = entries @ [set_album_art_from_album_id sv (sg_albumId s) (dir_of eid objid ''Song'' None)] in
     bindS (attrS (Option.bind (sg_albumId s) (sv_album sv))) (\<lambda>al.
     bindS (add_entry entries (album_to_entry sv cf objid al)) (\<lambda>entries.
       let artist_id = (if truthy (sg_artistId s) then sg_artistId s else al_artistId al) in
       if truthy artist_id then
         (case sv_artist sv (the artist_id) of
            None \<Rightarrow> returnS entries
          | Some a \<Rightarrow> add_entry entries (artist_to_entry sv objid (ar_id a) (ar_name a)))
       else returnS entries)))))"

definition genre_add_artists_node :: "server \<Rightarrow> handler" where
  "genre_add_artists_node sv objid i entries =
     bindS (liftS (thing_value i)) (\<lambda>genre.
     bindS (liftS (element_id objid GENRE_ARTIST_LIST (Some genre) [(GENRE_NAME, JStr genre)])) (\<lambda>eid.
     bindS (get_random_art_by_genre sv (Some genre)) (\<lambda>art.
       returnS (entries @ [set_album_art_from_album_id sv art (dir_of eid objid ''Artists'' None)]))))"

definition genre_add_albums_node :: "server \<Rightarrow> int \<Rightarrow> handler" where
  "genre_add_albums_node sv offset objid i entries =
     bindS (liftS (thing_value i)) (\<lambda>genre.
     bindS (liftS (element_id objid GENRE_ALBUM_LIST (Some genre) [(GENRE_NAME, JStr genre), (OFFSET, JInt offset)])) (\<lambda>eid.
     let e = dir_of eid objid (if offset = 0 then ''Albums'' else ''Next'') None in
     bindS (if offset = 0 then get_random_art_by_genre sv (Some genre) else returnS None) (\<lambda>art.
       returnS (entries @ [set_album_art_from_album_id sv art e]))))"

definition handler_element_genre :: "server \<Rightarrow> handler" where
  "handler_element_genre sv objid i entries =
     bindS (genre_add_artists_node sv objid i entries) (\<lambda>entries. genre_add_albums_node sv 0 objid i entries)"

definition handler_element_genre_artists :: "server \<Rightarrow> handler" where
  "handler_element_genre_artists sv objid i entries =
     bindS (liftS (genre_of i)) (\<lambda>genre.
     bindS (load_all_artists_by_genre sv genre) (\<lambda>ids.
       case sv_artists sv of
         None \<Rightarrow> returnS entries
       | Some initials \<Rightarrow>
           foldS (\<lambda>n. foldS (\<lambda>a entries.
               if Some (at_id a) \<in> set ids
               then add_entry entries (genre_artist_to_entry sv objid genre (at_id a) (at_name a))
               else returnS entries) (in_items n)) initials entries))"

definition handler_element_genre_artist_albums :: "server \<Rightarrow> sub_config \<Rightarrow> handler" where
  "handler_element_genre_artist_albums sv cf objid i entries =
     bindS (liftS (thing_value i)) (\<lambda>artist_id.
     bindS (liftS (offset_of i)) (\<lambda>offset.
     bindS (liftS (genre_of i)) (\<lambda>genre.
     bindS (okS (sv_artist sv artist_id) ''Cannot get artist'') (\<lambda>a.
     bindS (get_album_list_by_artist_genre sv a genre) (\<lambda>als.
       let upto = offset + cf_items_per_page cf;
           need_next = (als \<noteq> [] \<and> upto < int (length als));
           slice = py_slice als offset (min (int (length als)) upto)
       in bindS (foldS (\<lambda>al entries. add_entry entries (album_to_entry sv cf objid al)) slice entries) (\<lambda>entries.
          if need_next then
            add_entry entries (next_entry objid GENRE_ARTIST_ALBUMS (Some artist_id)
              [(OFFSET, JInt upto), (GENRE_NAME, jopt genre)])
          else returnS entries))))))"

definition genre_list_album ::
  "server \<Rightarrow> sub_config \<Rightarrow> string \<Rightarrow> string option \<Rightarrow> album \<Rightarrow> sub_entry list \<times> bool \<Rightarrow> (sub_entry list \<times> bool) sub" where
  "genre_list_album sv cf objid genre al eo =
     (case eo of (entries, once) \<Rightarrow>
       bindS (if once then returnS () else cache_element_value TAG (Some (getTagName GENRES)) (al_id al)) (\<lambda>_.
       bindS (cache_element_value GENRE_ALBUM_LIST genre (al_id al)) (\<lambda>_.
       bindS (cache_element_value GENRE_ALBUM_LIST (al_genre al) (al_id al)) (\<lambda>_.
       bindS (add_entry entries (album_to_entry sv cf objid al)) (\<lambda>entries. returnS (entries, True))))))"

definition handler_element_genre_album_list :: "server \<Rightarrow> sub_config \<Rightarrow> handler" where
  "handler_element_genre_album_list sv cf objid i entries =
     bindS (liftS (genre_of i)) (\<lambda>genre.
     bindS (liftS (if ident_has i OFFSET then offset_of i else Inl TypeError)) (\<lambda>offset.
       case sv_albumList sv BY_GENRE genre (cf_items_per_page cf) offset of
         None \<Rightarrow> returnS entries
       | Some als \<Rightarrow>
           bindS (foldS (genre_list_album sv cf objid genre) als (entries, False)) (\<lambda>(entries, _).
             if int (length als) = cf_items_per_page cf then
               genre_add_albums_node sv (offset + cf_items_per_page cf) objid i entries
             else returnS entries)))"

definition handler_element_artist_albums :: "server \<Rightarrow> sub_config \<Rightarrow> handler" where
  "handler_element_artist_albums sv cf objid i entries =
     bindS (liftS (thing_value i)) (\<lambda>artist_id.
     bindS (liftS (offset_of i)) (\<lambda>offset.
     bindS (load_albums_by_artist sv artist_id) (\<lambda>als.
       let n = int (length als); items = cf_items_per_page cf;
           next_needed = (items + offset < n) in
       bindS (if next_needed \<or> n = items then returnS items
              else if items = 0 then raiseS (Raised ''ZeroDivisionError'') else returnS (n mod items)) (\<lambda>num_albums_to_show.
         if 0 < num_albums_to_show then
           bindS (albums_by_artist_to_entries sv cf objid (py_slice als offset (offset + num_albums_to_show)) entries) (\<lambda>entries.
             if next_needed then
               add_entry entries (next_entry objid ARTIST_ALBUMS (Some artist_id) [(OFFSET, JInt (offset + items))])
             else returnS entries)
         else returnS entries))))"

definition or_None :: "string option \<Rightarrow> string" where
  "or_None v = (case v of Some t \<Rightarrow> t | None \<Rightarrow> ''None'')"

definition top_songs_node ::
  "server \<Rightarrow> string \<Rightarrow> ElementType \<Rightarrow> string option \<Rightarrow> string \<Rightarrow> song list \<Rightarrow> sub_entry sub" where
  "top_songs_node sv objid e artist_id title songs =
     bindS (liftS (element_id objid e artist_id [])) (\<lambda>eid.
     bindS (draw sv songs) (\<lambda>s.
       returnS (set_album_art_from_album_id sv (sg_albumId s) (dir_of eid objid title None))))"

definition artist_to_top_songs_entry ::
  "server \<Rightarrow> string \<Rightarrow> string option \<Rightarrow> string option \<Rightarrow> sub_entry list sub" where
  "artist_to_top_songs_entry sv objid artist_id artist_name =
     bindS (okS (sv_topSongs sv artist_name) ''Cannot load top songs'') (\<lambda>songs.
       if songs = [] then returnS []
       else bindS (top_songs_node sv objid ARTIST_TOP_SONGS artist_id (''Top Songs by '' @ or_None artist_name) songs) (\<lambda>e.
            bindS (top_songs_node sv objid ARTIST_TOP_SONGS_LIST artist_id
                (''Top Songs (List) by '' @ or_None artist_name) songs) (\<lambda>e'.
              returnS [e, e'])))"

definition similar_artists_for_artist :: "server \<Rightarrow> string \<Rightarrow> string option \<Rightarrow> sub_entry list sub" where
  "similar_artists_for_artist sv objid artist_id =
     bindS (okS (sv_similarArtists sv artist_id) ''Cannot get artist info'') (\<lambda>similar.
       if similar = [] then returnS []
       else bindS (liftS (element_id objid ARTIST_SIMILAR artist_id [])) (\<lambda>eid.
            bindS (get_cached_element ARTIST (Some (at_id (hd similar)))) (\<lambda>art.
              returnS [set_album_art_from_album_id sv art (dir_of eid objid ''Similar Artists'' None)])))"

definition radio_entry :: "server \<Rightarrow> string \<Rightarrow> string \<Rightarrow> sub_entry list sub" where
  "radio_entry sv objid iid =
     bindS (okS (sv_similarSongs sv iid (Some 10)) ''Cannot get similar songs'') (\<lambda>songs.
       if songs = [] then returnS []
       else bindS (liftS (element_id objid RADIO (Some iid) [])) (\<lambda>rid.
            bindS (liftS (element_id objid RADIO_SONG_LIST (Some iid) [])) (\<lambda>lid.
            bindS (draw sv songs) (\<lambda>s. bindS (draw sv songs) (\<lambda>s'.
              returnS [set_album_art_from_album_id sv (sg_albumId s) (dir_of rid objid ''Radio'' None),
                       set_album_art_from_album_id sv (sg_albumId s') (dir_of lid objid ''Radio (List)'' None)])))))"

definition artist_entry_for_album :: "server \<Rightarrow> string \<Rightarrow> album \<Rightarrow> sub_entry sub" where
  "artist_entry_for_album sv objid al =
     bindS (liftS (element_id objid ARTIST (al_artistId al) [])) (\<lambda>eid.
       let e = dir_of eid objid (''Artist: '' @ or_None (al_artist al)) None;
           art = get_artist_cover sv (al_artistId al)
       in if truthy art then
            bindS (cache_element_value ARTIST (al_artistId al) (the art)) (\<lambda>_.
              returnS (set_album_art_from_album_id sv art e))
          else returnS e)"

definition handler_element_artist :: "server \<Rightarrow> handler" where
  "handler_element_artist sv objid i entries =
     bindS (liftS (thing_value i)) (\<lambda>artist_id.
     bindS (okS (sv_artist sv artist_id) ''Cannot retrieve artist'') (\<lambda>a.
     bindS (liftS (element_id objid ARTIST_ALBUMS (Some artist_id) [])) (\<lambda>eid.
     let art = get_artist_cover sv (Some artist_id); e = dir_of eid objid ''Albums'' None;
         entries = entries @ [if truthy art then set_album_art_from_album_id sv art e else e] in
     bindS (artist_to_top_songs_entry sv objid (Some artist_id) (Some (ar_name a))) (\<lambda>top.
     bindS (similar_artists_for_artist sv objid (Some artist_id)) (\<lambda>similar.
     bindS (radio_entry sv objid (ar_id a)) (\<lambda>radio.
       returnS (entries @ top @ similar @ radio)))))))"

definition handler_element_genre_artist :: "server \<Rightarrow> handler" where
  "handler_element_genre_artist sv objid i entries =
     bindS (liftS (thing_value i)) (\<lambda>artist_id.
     bindS (liftS (genre_of i)) (\<lambda>genre.
     bindS (okS (sv_artist sv artist_id) ''Cannot retrieve artist'') (\<lambda>a.
     bindS (get_album_list_by_artist_genre sv a genre) (\<lambda>als.
     bindS (artist_to_entry sv objid (ar_id a) (''Artist: '' @ ar_name a)) (\<lambda>e.
     let first = (if als \<noteq> [] then Some (al_id (hd als)) else None);
         e = set_album_art_from_album_id sv first e in
     bindS (liftS (element_id objid GENRE_ARTIST_ALBUMS (Some artist_id) [(GENRE_NAME, jopt genre)])) (\<lambda>eid.
       let second = (if 1 < length als then Some (al_id (als ! 1)) else first)
       in returnS (entries @ [e, set_album_art_from_album_id sv second
            (dir_of eid objid (''Albums for genre: ['' @ or_None genre @ '']'') None)])))))))"

definition handler_element_navigable_album :: "server \<Rightarrow> sub_config \<Rightarrow> handler" where
  "handler_element_navigable_album sv cf objid i entries =
     bindS (liftS (thing_value i)) (\<lambda>album_id.
     bindS (okS (sv_album sv album_id) ''Cannot load album'') (\<lambda>al.
     bindS (album_to_entry sv cf objid al) (\<lambda>e.
     bindS (artist_entry_for_album sv objid al) (\<lambda>ae.
     bindS (artist_to_top_songs_entry sv objid (al_artistId al) (al_artist al)) (\<lambda>top.
     bindS (similar_artists_for_artist sv objid (al_artistId al)) (\<lambda>similar.
     bindS (radio_entry sv objid (al_id al)) (\<lambda>radio.
       returnS (entries @ [set_album_title (''Album: '' @ al_title al) e, ae] @ top @ similar @ radio))))))))"

definition handler_element_similar_artists :: "server \<Rightarrow> handler" where
  "handler_element_similar_artists sv objid i entries =
     bindS (liftS (thing_value i)) (\<lambda>artist_id.
     bindS (okS (sv_similarArtists sv (Some artist_id)) ''Cannot get artist info'') (\<lambda>similar.
       foldS (\<lambda>a entries. add_entry entries (artist_to_entry sv objid (at_id a) (at_name a))) similar entries))"

text \<open>An album of several versions is shown as the list of them, unless one is asked for.\<close>

definition album_version :: "ident \<Rightarrow> string option res" where
  "album_version i =
     (case ident_get i ALBUM_VERSION_PATH_BASE64 JNull of
        JStr t \<Rightarrow> if t \<noteq> [] then bindR (codec_decode t) (\<lambda>p. Inr (Some p)) else Inr None
      | v \<Rightarrow> if jtruthy v then Inl AttributeError else Inr None)"

definition handler_element_album :: "server \<Rightarrow> sub_config \<Rightarrow> handler" where
  "handler_element_album sv cf objid i entries =
     bindS (liftS (thing_value i)) (\<lambda>album_id.
     bindS (liftS (album_version i)) (\<lambda>version.
     bindS (if \<not> truthy version then bindS (get_album_tracks sv album_id) (\<lambda>t. returnS (Some t)) else returnS None) (\<lambda>tracks.
       case tracks of
         Some t \<Rightarrow>
           if 1 < length (at_codecs t) then
             bindS (foldS (\<lambda>(path, codecs) (entries, n).
                 bindS (add_entry entries (album_version_to_entry sv cf objid (at_album t) (n + 1) path codecs)) (\<lambda>entries.
                   returnS (entries, n + 1))) (at_codecs t) (entries, 0)) (\<lambda>(entries, _). returnS entries)
           else present_album sv cf objid i entries
       | None \<Rightarrow> present_album sv cf objid i entries)))"

definition handler_element_radio_station :: "server \<Rightarrow> handler" where
  "handler_element_radio_station sv objid i entries =
     bindS (liftS (thing_value i)) (\<lambda>station_id.
     bindS (okS (sv_stations sv) ''Cannot get the internet radio stations'') (\<lambda>sts.
       case find (\<lambda>st. ir_id st = station_id) sts of
         None \<Rightarrow> raiseS UnboundLocalError
       | Some st \<Rightarrow> add_entry entries (station_to_entry sv objid st)))"

definition handler_element_track :: "server \<Rightarrow> handler" where
  "handler_element_track sv objid i entries =
     bindS (liftS (thing_value i)) (\<lambda>song_id.
     bindS (okS (sv_song sv song_id) ''Cannot find song'') (\<lambda>s.
     bindS (liftS (element_id objid TRACK (Some song_id) [])) (\<lambda>eid.
       returnS (entries @ [song_data_to_entry sv eid s]))))"

fun elem_action :: "server \<Rightarrow> sub_config \<Rightarrow> ElementType \<Rightarrow> handler option" where
  "elem_action sv cf GENRE = Some (handler_element_genre sv)"
| "elem_action sv cf ARTIST_INITIAL = Some (\<lambda>objid i entries.
     bindS (liftS (thing_value i)) (\<lambda>initial. load_artists_by_initial sv objid initial entries))"
| "elem_action sv cf ARTIST = Some (handler_element_artist sv)"
| "elem_action sv cf GENRE_ARTIST = Some (handler_element_genre_artist sv)"
| "elem_action sv cf ALBUM = Some (handler_element_album sv cf)"
| "elem_action sv cf NAVIGABLE_ALBUM = Some (handler_element_navigable_album sv cf)"
| "elem_action sv cf GENRE_ARTIST_LIST = Some (handler_element_genre_artists sv)"
| "elem_action sv cf GENRE_ALBUM_LIST = Some (handler_element_genre_album_list sv cf)"
| "elem_action sv cf GENRE_ARTIST_ALBUMS = Some (handler_element_genre_artist_albums sv cf)"
| "elem_action sv cf PLAYLIST = Some (\<lambda>objid i entries.
     bindS (liftS (thing_value i)) (\<lambda>p. create_list_of_playlist_entries sv objid p entries))"
| "elem_action sv cf TRACK = Some (handler_element_track sv)"
| "elem_action sv cf SONG_ENTRY_NAVIGABLE = Some (handler_element_song_entry sv cf)"
| "elem_action sv cf SONG_ENTRY_THE_SONG = Some (handler_element_song_entry_song sv cf)"
| "elem_action sv cf NEXT_RANDOM_SONGS = Some (get_random_songs sv cf)"
| "elem_action sv cf INTERNET_RADIO = Some (handler_element_radio_station sv)"
| "elem_action sv cf ARTIST_TOP_SONGS = Some (handler_element_artist_top_songs_common sv cf False)"
| "elem_action sv cf ARTIST_TOP_SONGS_LIST = Some (handler_element_artist_top_songs_common sv cf True)"
| "elem_action sv cf ARTIST_SIMILAR = Some (handler_element_similar_artists sv)"
| "elem_action sv cf ARTIST_ALBUMS = Some (handler_element_artist_albums sv cf)"
| "elem_action sv cf RADIO = Some (handler_radio sv)"
| "elem_action sv cf RADIO_SONG_LIST = Some (handler_radio_song_list sv cf)"
| "elem_action sv cf TAG = None"

section \<open>Browsing and searching\<close>

definition tag_initial_page_disabled :: "TagType list" where
  "tag_initial_page_disabled =
     [NEWEST, RECENTLY_PLAYED, HIGHEST_RATED, MOST_PLAYED, RANDOM, FAVOURITES, ARTISTS_ALL, ARTISTS_INDEXED,
      FAVOURITE_ARTISTS, RANDOM_SONGS, RANDOM_SONGS_LIST, FAVOURITE_SONGS, FAVOURITE_SONGS_LIST]"

definition tag_enabled_in_initial_page ::
  "(string \<Rightarrow> string option \<Rightarrow> string option res) \<Rightarrow> TagType \<Rightarrow> bool res" where
  "tag_enabled_in_initial_page opt tag =
     bindR (int_option opt (''subsonictaginitialpageenabled'' @ getTagName tag)
        (if tag \<in> set tag_initial_page_disabled then ''0'' else ''1'')) (\<lambda>n. Inr (n = 1))"

definition show_tags ::
  "server \<Rightarrow> (string \<Rightarrow> string option \<Rightarrow> string option res) \<Rightarrow> string \<Rightarrow> sub_entry list \<Rightarrow> sub_entry list sub" where
  "show_tags sv opt objid entries =
     foldS (\<lambda>tag entries.
         bindS (liftS (tag_enabled_in_initial_page opt tag)) (\<lambda>enabled.
           if enabled then add_entry entries (tag_to_entry sv objid tag) else returnS entries))
       enum_class.enum entries"

definition find_element :: "string \<Rightarrow> ElementType option" where
  "find_element nm = find (\<lambda>e. getName e = nm) enum_class.enum"

definition find_tag :: "string \<Rightarrow> TagType option" where
  "find_tag nm = find (\<lambda>t. getTagName t = nm) enum_class.enum"

definition handler_for :: "server \<Rightarrow> sub_config \<Rightarrow> ident \<Rightarrow> handler option" where
  "handler_for sv cf i =
     (case ident_get i THING_NAME JNull of
        JStr nm \<Rightarrow>
          if nm = getName TAG then
            (case ident_get i THING_VALUE JNull of
               JStr v \<Rightarrow> map_option (tag_action sv cf) (find_tag v)
             | _ \<Rightarrow> None)
          else Option.bind (find_element nm) (elem_action sv cf)
      | _ \<Rightarrow> None)"

text \<open>An identifier without a handler is only logged, and has no entries.\<close>

definition sub_browse ::
  "server \<Rightarrow> sub_config \<Rightarrow> (string \<Rightarrow> string option \<Rightarrow> string option res) \<Rightarrow> string option \<Rightarrow> sub_entry list sub" where
  "sub_browse sv cf opt a =
     (case a of
        None \<Rightarrow> raiseS (Raised ''No objid in args'')
      | Some objid \<Rightarrow>
          bindS (liftS (browse_identifier objid)) (\<lambda>bi.
            case bi of
              None \<Rightarrow> show_tags sv opt objid []
            | Some i \<Rightarrow> (case handler_for sv cf i of Some h \<Rightarrow> h objid i [] | None \<Rightarrow> returnS [])))"

definition sub_search :: "server \<Rightarrow> sub_config \<Rightarrow> string \<Rightarrow> string \<Rightarrow> string \<Rightarrow> sub_entry list sub" where
  "sub_search sv cf objid value field =
     (if field = search_name SALBUM then
        foldS (\<lambda>al entries.
            bindS (cache_element_value GENRE (al_genre al) (al_id al)) (\<lambda>_.
              add_entry entries (album_to_navigable_entry sv objid al)))
          (sr_albums (sv_search sv value 0 (cf_items_per_page cf) 0)) []
      else if field = search_name STRACK then
        bindS (liftS (sort_song_list (sr_songs (sv_search sv value 0 0 (cf_items_per_page cf))))) (\<lambda>r.
          foldS (\<lambda>s entries. add_entry entries (song_to_song_entry sv objid s True)) (ss_songs r) [])
      else if field = search_name SARTIST then
        foldS (\<lambda>a entries. add_entry entries (artist_to_entry sv objid (at_id a) (at_name a)))
          (sr_artists (sv_search sv value (cf_items_per_page cf) 0 0)) []
      else returnS [])"

end
