(* ===== verification/SubBrowse.thy ===== *)
theory SubBrowse
  imports SubApp
begin

text \<open>
  What the requests of the Subsonic plugin (\<open>SubApp\<close>) list: every entry carries an identifier that is
  dispatched to a handler when it is browsed; the numbers of the tracks of an album; the pages of the
  lists; and a server without playlists or genres, which the first page does not survive.
\<close>

section \<open>Identifiers that lead on\<close>

definition dispatched :: "ident \<Rightarrow> bool" where
  "dispatched i \<longleftrightarrow>
     (case ident_get i THING_NAME JNull of
        JStr nm \<Rightarrow>
          if nm = getName TAG then (case ident_get i THING_VALUE JNull of JStr v \<Rightarrow> find_tag v \<noteq> None | _ \<Rightarrow> False)
          else find_element nm \<noteq> None
      | _ \<Rightarrow> False)"

definition ident_shape :: "ident \<Rightarrow> bool" where
  "ident_shape i \<longleftrightarrow> ident_head i \<and> distinct (map fst i) \<and> [] \<notin> fst ` set i"

text \<open>Texts that can be written and read back.\<close>

definition clean_texts :: "ident \<Rightarrow> bool" where
  "clean_texts i \<longleftrightarrow> list_all (\<lambda>(k, v). valid_utf8 k \<and> jval_ok v) i \<and> no_question i"

lemma shape_clean_ok: "ident_shape i \<Longrightarrow> clean_texts i \<Longrightarrow> ident_ok i \<and> no_question i"
  by (auto simp: ident_shape_def clean_texts_def ident_ok_def json_ok_def jval_ok_def)

lemma find_element_name: "getName e \<noteq> getName TAG \<Longrightarrow> find_element (getName e) = Some e"
  by (cases e) (simp_all add: find_element_def enum_ElementType_def element_types_def getName_def)

lemma find_tag_name: "find_tag (getTagName t) = Some t"
  by (cases t) (simp_all add: find_tag_def enum_TagType_def tag_types_def getTagName_def)

lemma find_element_Some: "find_element nm = Some e \<Longrightarrow> getName e = nm"
  by (auto simp: find_element_def find_Some_iff)

lemma elem_action_total: "e \<noteq> TAG \<Longrightarrow> elem_action sv cf e \<noteq> None"
  by (cases e) simp_all

lemma dispatched_handled: "dispatched i \<Longrightarrow> handler_for sv cf i \<noteq> None"
proof -
  assume d: "dispatched i"
  then obtain nm where nm: "ident_get i THING_NAME JNull = JStr nm"
    by (auto simp: dispatched_def split: jval.splits)
  show ?thesis
  proof (cases "nm = getName TAG")
    case True
    with d nm show ?thesis by (auto simp: dispatched_def handler_for_def split: jval.splits)
  next
    case False
    with d nm obtain e where e: "find_element nm = Some e" by (auto simp: dispatched_def)
    have "e \<noteq> TAG" using find_element_Some [OF e] False by auto
    then show ?thesis using nm e False elem_action_total [of e sv cf] by (simp add: handler_for_def)
  qed
qed

definition is_id :: "string \<Rightarrow> string \<Rightarrow> bool" where
  "is_id objid t \<longleftrightarrow> (\<exists>i. t = create_objid objid (create_id_from_identifier i) \<and> ident_shape i \<and> dispatched i)"

definition leads :: "string \<Rightarrow> sub_entry \<Rightarrow> bool" where
  "leads objid e \<longleftrightarrow> (\<exists>t. e ''id'' = Some (JStr t) \<and> is_id objid t)"

lemma ident_set_shape: "ident_set k v i = Inr i' \<Longrightarrow> ident_shape i \<Longrightarrow> ident_shape i'"
proof -
  assume "ident_set k v i = Inr i'" and shape: "ident_shape i"
  then have "i' = i @ [(key_name k, v)]" "key_name k \<notin> fst ` set i"
    by (auto simp: ident_set_def ident_set_name_def has_key_iff dict_set_new split: if_splits)
  then show ?thesis using shape key_name_ok(1) [of k, symmetric] by (auto simp: ident_shape_def ident_head_append)
qed

lemma ident_set_keeps:
  "ident_set k v i = Inr i' \<Longrightarrow> has_key i (key_name k') \<Longrightarrow> has_key i' (key_name k') \<and> ident_get i' k' d = ident_get i k' d"
proof -
  assume set: "ident_set k v i = Inr i'" and key: "has_key i (key_name k')"
  then have "\<not> has_key i (key_name k)" "i' = AList.update (key_name k) v i"
    by (auto simp: ident_set_def ident_set_name_def split: if_splits)
  then show ?thesis using ident_set_get [OF set] key by auto
qed

definition names_value :: "string \<Rightarrow> string \<Rightarrow> ident \<Rightarrow> bool" where
  "names_value nm v i \<longleftrightarrow> ident_shape i \<and> has_key i (key_name THING_NAME) \<and> has_key i (key_name THING_VALUE)
     \<and> ident_get i THING_NAME JNull = JStr nm \<and> ident_get i THING_VALUE JNull = JStr v"

lemma element_id_names:
  assumes "element_id objid e v extra = Inr t"
  shows "\<exists>i u. v = Some u \<and> t = create_objid objid (create_id_from_identifier i) \<and> names_value (getName e) u i"
proof -
  from assms obtain i0 i where i0: "new_identifier (JStr (getName e)) (jopt v) = Inr i0"
    and i: "foldR (\<lambda>(k, x) i. ident_set k x i) extra i0 = Inr i" "t = create_objid objid (create_id_from_identifier i)"
    by (auto simp: element_id_def bindR_eq_Inr)
  from i0 obtain u where u: "v = Some u" by (cases v) (auto simp: new_identifier_Inr jopt_def)
  have "names_value (getName e) u i0"
    using i0 by (auto simp: u jopt_def new_identifier_Inr names_value_def ident_shape_def ident_get_def has_key_def)
  then have "names_value (getName e) u i"
    using i(1)
  proof (induction extra arbitrary: i0)
    case (Cons kx extra)
    obtain k x where kx: "kx = (k, x)" by fastforce
    with Cons.prems(2) obtain i1 where i1: "ident_set k x i0 = Inr i1" "foldR (\<lambda>(k, x) i. ident_set k x i) extra i1 = Inr i"
      by (auto simp: bindR_eq_Inr)
    have "names_value (getName e) u i1"
      using Cons.prems(1) ident_set_shape [OF i1(1)] ident_set_keeps [OF i1(1), of THING_NAME]
        ident_set_keeps [OF i1(1), of THING_VALUE] by (simp add: names_value_def)
    then show ?case by (rule Cons.IH [OF _ i1(2)])
  qed simp
  with u i(2) show ?thesis by blast
qed

lemma element_id_leads:
  assumes "element_id objid e v extra = Inr t" and "e \<noteq> TAG \<or> (\<exists>tag. v = Some (getTagName tag))"
  shows "is_id objid t"
proof -
  obtain i u where i: "v = Some u" "t = create_objid objid (create_id_from_identifier i)" "names_value (getName e) u i"
    using element_id_names [OF assms(1)] by blast
  have "dispatched i"
  proof (cases "e = TAG")
    case True
    with assms(2) i(1) obtain tag where "u = getTagName tag" by auto
    with i(3) True show ?thesis by (simp add: dispatched_def names_value_def find_tag_name)
  next
    case False
    then show ?thesis using i(3) find_element_name [of e] by (simp add: dispatched_def names_value_def)
  qed
  with i show ?thesis by (auto simp: is_id_def names_value_def)
qed

lemma getName_nonempty [simp]: "getName e \<noteq> []"
  by (cases e) (simp_all add: getName_def)

lemma element_id_plain:
  "v \<noteq> [] \<Longrightarrow> element_id objid e (Some v) [] =
     Inr (create_objid objid (create_id_from_identifier [(''n'', JStr (getName e)), (''v'', JStr v)]))"
  by (simp add: element_id_def jopt_def new_identifier_def ident_set_def ident_set_name_def has_key_def)

section \<open>Every maker of entries\<close>

lemma ensures_element_id: "e \<noteq> TAG \<or> (\<exists>tag. v = Some (getTagName tag)) \<Longrightarrow> ensures (liftS (element_id objid e v extra)) (is_id objid)"
  by (auto simp: ensures_def liftS_def intro: element_id_leads)

lemma ensures_if [ensures_intros]:
  "(c \<Longrightarrow> ensures m P) \<Longrightarrow> (\<not> c \<Longrightarrow> ensures n P) \<Longrightarrow> ensures (if c then m else n) P"
  by simp

lemma ensures_if_app [ensures_intros]:
  "(c \<Longrightarrow> ensures (f b) P) \<Longrightarrow> (\<not> c \<Longrightarrow> ensures (g b) P) \<Longrightarrow> ensures ((if c then f else g) b) P"
  by simp

lemma ensures_option [ensures_intros]:
  "(r = None \<Longrightarrow> ensures m P) \<Longrightarrow> (\<And>x. r = Some x \<Longrightarrow> ensures (f x) P) \<Longrightarrow> ensures (case r of None \<Rightarrow> m | Some x \<Rightarrow> f x) P"
  by (cases r) simp_all

lemma ensures_prod [ensures_intros]: "(\<And>x y. p = (x, y) \<Longrightarrow> ensures (f x y) P) \<Longrightarrow> ensures (case p of (x, y) \<Rightarrow> f x y) P"
  by (cases p) simp

lemma id_kept [simp]:
  "set_album_art_from_uri u e ''id'' = e ''id''" "set_album_art_from_album_id sv a e ''id'' = e ''id''"
  "set_album_id x e ''id'' = e ''id''" "set_album_title y e ''id'' = e ''id''" "set_class c e ''id'' = e ''id''"
  "set_artist z e ''id'' = e ''id''" "set_track_number n e ''id'' = e ''id''" "set_class_music_track e ''id'' = e ''id''"
  "dir_of i objid title artist ''id'' = Some (JStr i)"
  by (simp_all add: set_album_art_from_uri_def set_album_art_from_album_id_def set_album_id_def set_album_title_def
      set_class_def set_artist_def set_track_number_def set_class_music_track_def dir_of_def of_direntry_def Let_def)

lemma ensures_with_id:
  "e \<noteq> TAG \<or> (\<exists>tag. v = Some (getTagName tag)) \<Longrightarrow> (\<And>t. is_id objid t \<Longrightarrow> ensures (f t) P) \<Longrightarrow>
   ensures (bindS (liftS (element_id objid e v extra)) f) P"
  by (rule ensures_bindS [OF ensures_element_id])

lemma leadsI: "e ''id'' = Some (JStr t) \<Longrightarrow> is_id objid t \<Longrightarrow> leads objid e"
  by (auto simp: leads_def)

lemma makers [ensures_intros]:
  "ensures (genre_artist_to_entry sv objid g a n) (leads objid)"
  "ensures (album_to_navigable_entry sv objid al) (leads objid)"
  "ensures (genre_to_entry sv objid ge) (leads objid)"
  "ensures (artist_to_entry sv objid a n) (leads objid)"
  "ensures (artist_initial_to_entry sv objid n) (leads objid)"
  "ensures (song_to_entry sv cf objid s u m k) (leads objid)"
  "ensures (playlist_to_entry sv objid p) (leads objid)"
  "ensures (album_to_entry sv cf objid al) (leads objid)"
  "ensures (album_version_to_entry sv cf objid al j path cs) (leads objid)"
  "ensures (station_to_entry sv objid st) (leads objid)"
  "ensures (playlist_entry_to_entry sv objid pe) (leads objid)"
  "ensures (song_to_song_entry sv objid s b) (leads objid)"
  "ensures (tag_to_entry sv objid tag) (leads objid)"
  unfolding genre_artist_to_entry_def album_to_navigable_entry_def genre_to_entry_def artist_to_entry_def
    artist_initial_to_entry_def song_to_entry_def playlist_to_entry_def album_to_entry_def album_version_to_entry_def
    station_to_entry_def playlist_entry_to_entry_def song_to_song_entry_def tag_to_entry_def Let_def
  by (intro ensures_with_id ensures_bindS_any ensures_returnS; (rule leadsI)?; (simp split: if_splits)?)+

lemma ensures_next_entry [ensures_intros]:
  "e \<noteq> TAG \<or> (\<exists>tag. v = Some (getTagName tag)) \<Longrightarrow> ensures (next_entry objid e v x) (leads objid)"
  unfolding next_entry_def
  by (intro ensures_with_id ensures_returnS; (rule leadsI)?; simp)

lemma top_songs_node_leads [ensures_intros]:
  "e \<noteq> TAG \<Longrightarrow> ensures (top_songs_node sv objid e a t songs) (leads objid)"
  unfolding top_songs_node_def
  by (intro ensures_with_id ensures_bindS_any ensures_returnS; (rule leadsI)?; simp)

lemma artist_entry_for_album_leads [ensures_intros]: "ensures (artist_entry_for_album sv objid al) (leads objid)"
  unfolding artist_entry_for_album_def Let_def
  by (intro ensures_with_id ensures_if ensures_bindS_any ensures_returnS; (rule leadsI)?; simp)

section \<open>Every handler\<close>

abbreviation all_lead :: "string \<Rightarrow> sub_entry list \<Rightarrow> bool" where
  "all_lead objid \<equiv> list_all (leads objid)"

lemma ensures_add_entry [ensures_intros]:
  "all_lead objid es \<Longrightarrow> ensures m (leads objid) \<Longrightarrow> ensures (add_entry es m) (all_lead objid)"
  unfolding add_entry_def by (rule ensures_bindS, assumption) (simp add: ensures_returnS)

lemma ensures_bind_entries:
  "ensures m (all_lead objid) \<Longrightarrow> (\<And>es. all_lead objid es \<Longrightarrow> ensures (f es) P) \<Longrightarrow> ensures (bindS m f) P"
  by (rule ensures_bindS)

lemma ensures_bind_pair:
  "ensures m (\<lambda>p. all_lead objid (fst p)) \<Longrightarrow> (\<And>es x. all_lead objid es \<Longrightarrow> ensures (f (es, x)) P) \<Longrightarrow> ensures (bindS m f) P"
  by (erule ensures_bindS) (auto split: prod.splits)

lemma ensures_bind_entry:
  "ensures m (leads objid) \<Longrightarrow> (\<And>e. leads objid e \<Longrightarrow> ensures (f e) P) \<Longrightarrow> ensures (bindS m f) P"
  by (rule ensures_bindS)

lemma lists_lead:
  "all_lead objid es \<Longrightarrow> ensures (create_list_of_genres sv objid es) (all_lead objid)"
  "all_lead objid es \<Longrightarrow> ensures (create_list_of_playlist sv objid es) (all_lead objid)"
  "all_lead objid es \<Longrightarrow> ensures (create_list_of_internet_radio sv objid es) (all_lead objid)"
  "all_lead objid es \<Longrightarrow> ensures (create_list_of_playlist_entries sv objid p es) (all_lead objid)"
  "all_lead objid es \<Longrightarrow> ensures (get_list_of_artists sv objid es) (all_lead objid)"
  unfolding create_list_of_genres_def create_list_of_playlist_def create_list_of_internet_radio_def
    create_list_of_playlist_entries_def get_list_of_artists_def
  by (assumption | rule ensures_foldS ensures_option ensures_if ensures_add_entry makers ensures_returnS
      | rule ensures_bind_entries | rule ensures_bindS_any)+

lemma all_lead_append [simp]: "all_lead objid (es @ es') \<longleftrightarrow> all_lead objid es \<and> all_lead objid es'"
  by simp

lemma initial_artist_leads: "all_lead objid es \<Longrightarrow> ensures (initial_artist sv objid nm a es) (all_lead objid)"
  unfolding initial_artist_def
  by (rule ensures_bindS_any, rule ensures_bind_entry [OF makers(4)], (rule ensures_bindS_any)+, rule ensures_returnS) simp

lemma initial_entry_leads: "all_lead objid es \<Longrightarrow> ensures (initial_entry sv objid i es) (all_lead objid)"
  unfolding initial_entry_def
  by (rule ensures_bind_entry [OF makers(5)], (rule ensures_bindS_any)+, rule ensures_returnS) (simp add: leads_def)

lemma initials_lead:
  "all_lead objid es \<Longrightarrow> ensures (load_artists_by_initial sv objid nm es) (all_lead objid)"
  "all_lead objid es \<Longrightarrow> ensures (create_list_of_artist_initials sv objid es) (all_lead objid)"
  unfolding load_artists_by_initial_def create_list_of_artist_initials_def
  by (assumption | rule ensures_foldS ensures_option ensures_if_app initial_artist_leads initial_entry_leads ensures_returnS
      | rule ensures_bindS_any)+

lemma album_track_entries_lead:
  "all_lead objid es \<Longrightarrow> ensures (album_track_entries sv cf objid version tracks songs base num es) (all_lead objid)"
proof (induction songs arbitrary: base num es)
  case Nil
  then show ?case by (simp add: ensures_returnS)
next
  case (Cons s songs)
  show ?case
    unfolding album_track_entries.simps Let_def
    by (assumption | rule ensures_if ensures_add_entry makers Cons.IH Cons.prems | rule ensures_bind_entries
        | rule ensures_bindS_any)+
qed

lemma present_album_leads: "all_lead objid es \<Longrightarrow> ensures (present_album sv cf objid i es) (all_lead objid)"
  unfolding present_album_def load_album_tracks_def
  by (assumption | rule album_track_entries_lead | rule ensures_bindS_any)+

lemma typed_album_leads:
  "all_lead objid (fst ec) \<Longrightarrow> ensures (typed_album sv cf objid tag offset al ec) (\<lambda>p. all_lead objid (fst p))"
proof -
  have "all_lead objid es \<Longrightarrow> ensures (typed_album sv cf objid tag offset al (es, b)) (\<lambda>p. all_lead objid (fst p))" for es b
    unfolding typed_album_def prod.case
    by (assumption | rule ensures_if ensures_add_entry makers | rule ensures_bind_entries | rule ensures_bindS_any
      | (rule ensures_returnS, simp; fail))+
  then show "all_lead objid (fst ec) \<Longrightarrow> ensures (typed_album sv cf objid tag offset al ec) (\<lambda>p. all_lead objid (fst p))"
    by (cases ec) simp
qed

lemma genre_list_album_leads:
  "all_lead objid (fst ec) \<Longrightarrow> ensures (genre_list_album sv cf objid genre al ec) (\<lambda>p. all_lead objid (fst p))"
proof -
  have "all_lead objid es \<Longrightarrow> ensures (genre_list_album sv cf objid genre al (es, b)) (\<lambda>p. all_lead objid (fst p))" for es b
    unfolding genre_list_album_def prod.case
    by (assumption | rule ensures_if ensures_add_entry makers | rule ensures_bind_entries | rule ensures_bindS_any
      | (rule ensures_returnS, simp; fail))+
  then show "all_lead objid (fst ec) \<Longrightarrow> ensures (genre_list_album sv cf objid genre al ec) (\<lambda>p. all_lead objid (fst p))"
    by (cases ec) simp
qed

lemma load_albums_by_type_leads:
  "all_lead objid es \<Longrightarrow> ensures (load_albums_by_type sv cf objid es tag offset) (all_lead objid)"
  unfolding load_albums_by_type_def
  by (rule ensures_bindS_any, rule ensures_bind_pair, rule ensures_foldS, rule typed_album_leads)
    (simp_all add: ensures_returnS)

lemma tag_handlers_lead:
  "all_lead objid es \<Longrightarrow> ensures (handler_tag_type sv cf tag objid i es) (all_lead objid)"
  "all_lead objid es \<Longrightarrow> ensures (get_random_songs sv cf objid i es) (all_lead objid)"
  "all_lead objid es \<Longrightarrow> ensures (get_favourite_songs sv cf objid i es) (all_lead objid)"
  "all_lead objid es \<Longrightarrow> ensures (handler_tag_artists_favourite sv cf objid i es) (all_lead objid)"
  unfolding handler_tag_type_def get_random_songs_def get_favourite_songs_def handler_tag_artists_favourite_def Let_def
  by (assumption | rule ensures_foldS ensures_if ensures_prod ensures_add_entry makers ensures_next_entry
        load_albums_by_type_leads ensures_returnS
      | rule ensures_bind_entries | rule ensures_bindS_any | (simp; fail) | blast)+

lemma tag_group_leads: "all_lead objid es \<Longrightarrow> ensures (handler_tag_group sv tags objid i es) (all_lead objid)"
  unfolding handler_tag_group_def tag_list_to_entries_def
  by (rule ensures_bind_entries [where objid = objid]) (auto intro!: ensures_foldS ensures_add_entry makers ensures_returnS)

lemma as_entries_leads:
  "(\<And>i. ensures (h objid i es) (all_lead objid)) \<Longrightarrow> ensures (as_entries b h objid i es) (all_lead objid)"
  unfolding as_entries_def by (rule ensures_bindS_any)

lemma tag_action_leads: "all_lead objid es \<Longrightarrow> ensures (tag_action sv cf tag objid i es) (all_lead objid)"
  by (cases tag) (simp_all add: tag_group_leads tag_handlers_lead as_entries_leads lists_lead initials_lead)

lemma nodes_lead:
  "ensures (artist_to_top_songs_entry sv objid a n) (all_lead objid)"
  "ensures (similar_artists_for_artist sv objid a) (all_lead objid)"
  "ensures (radio_entry sv objid iid) (all_lead objid)"
  unfolding artist_to_top_songs_entry_def similar_artists_for_artist_def radio_entry_def
  by (rule ensures_if ensures_bind_entry [OF top_songs_node_leads] | rule ensures_with_id | rule ensures_bindS_any
      | (simp; fail) | (rule ensures_returnS, simp add: leads_def; fail))+

lemma genre_nodes_lead:
  "all_lead objid es \<Longrightarrow> ensures (genre_add_artists_node sv objid i es) (all_lead objid)"
  "all_lead objid es \<Longrightarrow> ensures (genre_add_albums_node sv offset objid i es) (all_lead objid)"
  unfolding genre_add_artists_node_def genre_add_albums_node_def Let_def
  by (rule ensures_with_id | rule ensures_bindS_any | (simp; fail) | (rule ensures_returnS, simp add: leads_def; fail))+

lemma song_handlers_lead:
  "all_lead objid es \<Longrightarrow> ensures (handler_element_song_entry_song sv cf objid i es) (all_lead objid)"
  "all_lead objid es \<Longrightarrow> ensures (handler_radio sv objid i es) (all_lead objid)"
  "all_lead objid es \<Longrightarrow> ensures (handler_radio_song_list sv cf objid i es) (all_lead objid)"
  "all_lead objid es \<Longrightarrow> ensures (handler_element_artist_top_songs_common sv cf m objid i es) (all_lead objid)"
  "all_lead objid es \<Longrightarrow> ensures (handler_element_genre sv objid i es) (all_lead objid)"
  "all_lead objid es \<Longrightarrow> ensures (handler_element_genre_artists sv objid i es) (all_lead objid)"
  "all_lead objid es \<Longrightarrow> ensures (handler_element_genre_artist_albums sv cf objid i es) (all_lead objid)"
  "all_lead objid es \<Longrightarrow> ensures (handler_element_similar_artists sv objid i es) (all_lead objid)"
  "all_lead objid es \<Longrightarrow> ensures (handler_element_radio_station sv objid i es) (all_lead objid)"
  "all_lead objid es \<Longrightarrow> ensures (albums_by_artist_to_entries sv cf objid als es) (all_lead objid)"
  unfolding handler_element_song_entry_song_def handler_radio_def handler_radio_song_list_def
    handler_element_artist_top_songs_common_def handler_element_genre_def handler_element_genre_artists_def
    handler_element_genre_artist_albums_def handler_element_similar_artists_def handler_element_radio_station_def
    albums_by_artist_to_entries_def Let_def
  by (assumption | rule ensures_foldS ensures_option ensures_if ensures_add_entry makers ensures_next_entry
        genre_nodes_lead ensures_returnS ensures_raiseS
      | rule ensures_bind_entries | rule ensures_bindS_any | (simp; fail))+

lemma element_lists_lead:
  "all_lead objid es \<Longrightarrow> ensures (handler_element_artist_albums sv cf objid i es) (all_lead objid)"
  "all_lead objid es \<Longrightarrow> ensures (handler_element_track sv objid i es) (all_lead objid)"
  unfolding handler_element_artist_albums_def handler_element_track_def Let_def
  by (assumption | rule ensures_if ensures_add_entry ensures_next_entry song_handlers_lead ensures_with_id
      | (rule ensures_returnS, simp add: leads_def song_data_to_entry_def Let_def; fail)
      | rule ensures_bind_entries | rule ensures_bindS_any | (simp; fail))+

lemma genre_album_list_leads:
  "all_lead objid es \<Longrightarrow> ensures (handler_element_genre_album_list sv cf objid i es) (all_lead objid)"
  unfolding handler_element_genre_album_list_def
  by (rule ensures_bindS_any, rule ensures_bindS_any, rule ensures_option, simp add: ensures_returnS,
      rule ensures_bind_pair, rule ensures_foldS, rule genre_list_album_leads, assumption, simp)
    (auto intro!: ensures_if genre_nodes_lead ensures_returnS)

lemma artist_leads: "all_lead objid es \<Longrightarrow> ensures (handler_element_artist sv objid i es) (all_lead objid)"
  unfolding handler_element_artist_def Let_def
  by (rule ensures_bindS_any, rule ensures_bindS_any, rule ensures_with_id, simp,
      rule ensures_bind_entries [OF nodes_lead(1)], rule ensures_bind_entries [OF nodes_lead(2)],
      rule ensures_bind_entries [OF nodes_lead(3)], rule ensures_returnS)
    (simp add: leads_def)

lemma genre_artist_leads: "all_lead objid es \<Longrightarrow> ensures (handler_element_genre_artist sv objid i es) (all_lead objid)"
  unfolding handler_element_genre_artist_def Let_def
  by (rule ensures_bindS_any, rule ensures_bindS_any, rule ensures_bindS_any, rule ensures_bindS_any,
      rule ensures_bind_entry [OF makers(4)], rule ensures_with_id, simp, rule ensures_returnS)
    (simp add: leads_def)

lemma navigable_album_leads: "all_lead objid es \<Longrightarrow> ensures (handler_element_navigable_album sv cf objid i es) (all_lead objid)"
  unfolding handler_element_navigable_album_def
  by (rule ensures_bindS_any, rule ensures_bindS_any, rule ensures_bind_entry [OF makers(8)],
      rule ensures_bind_entry [OF artist_entry_for_album_leads],
      rule ensures_bind_entries [OF nodes_lead(1)], rule ensures_bind_entries [OF nodes_lead(2)],
      rule ensures_bind_entries [OF nodes_lead(3)], rule ensures_returnS)
    (simp add: leads_def)

lemma song_entry_leads: "all_lead objid es \<Longrightarrow> ensures (handler_element_song_entry sv cf objid i es) (all_lead objid)"
  unfolding handler_element_song_entry_def Let_def
  by (rule ensures_bindS_any, rule ensures_with_id, simp, rule ensures_bindS_any, rule ensures_bindS_any,
      rule ensures_bind_entries, rule ensures_add_entry, simp add: leads_def, rule makers(8))
    (auto intro!: ensures_if ensures_option ensures_add_entry makers ensures_returnS)

lemma album_leads: "all_lead objid es \<Longrightarrow> ensures (handler_element_album sv cf objid i es) (all_lead objid)"
proof -
  assume es: "all_lead objid es"
  have step: "ensures ((\<lambda>(path, codecs) (entries, n).
                 bindS (add_entry entries (album_version_to_entry sv cf objid (at_album t) (n + 1) path codecs)) (\<lambda>entries.
                   returnS (entries, n + 1))) pc en) (\<lambda>p. all_lead objid (fst p))"
    if "all_lead objid (fst en)" for t pc and en :: "sub_entry list \<times> nat"
    using that
    by (cases pc; cases en)
      (simp, rule ensures_bind_entries, rule ensures_add_entry, assumption, rule makers(9), simp add: ensures_returnS)
  show ?thesis
    unfolding handler_element_album_def
    by (rule ensures_bindS_any, rule ensures_bindS_any, rule ensures_bindS_any, rule ensures_option,
        rule present_album_leads [OF es], rule ensures_if, rule ensures_bind_pair, rule ensures_foldS, rule step, assumption)
      (simp_all add: es ensures_returnS present_album_leads)
qed

lemma elem_action_leads:
  "elem_action sv cf e = Some h \<Longrightarrow> all_lead objid es \<Longrightarrow> ensures (h objid i es) (all_lead objid)"
  by (cases e)
    (auto simp: song_handlers_lead element_lists_lead genre_album_list_leads artist_leads genre_artist_leads
      navigable_album_leads song_entry_leads album_leads tag_handlers_lead
      intro: ensures_bindS_any initials_lead lists_lead)

lemma handler_for_leads: "handler_for sv cf i = Some h \<Longrightarrow> ensures (h objid i []) (all_lead objid)"
  by (auto simp: handler_for_def tag_action_leads elem_action_leads bind_eq_Some_conv split: jval.splits if_splits)

lemma sub_browse_leads: "ensures (sub_browse sv cf opt (Some objid)) (all_lead objid)"
  unfolding sub_browse_def show_tags_def
  by (simp, rule ensures_bindS_any, rule ensures_option)
    (auto intro!: ensures_foldS ensures_bindS_any ensures_if ensures_add_entry makers ensures_returnS ensures_option
      dest: handler_for_leads)

text \<open>C15. Whatever is browsed, and whatever the server answers: each entry that is listed has an identifier
  of its own under the container, the identifier names an element or a tag that has a handler, and, as
  long as the texts in it are valid and free of question marks, browsing it finds that handler again.\<close>

theorem browse_entries_lead_on:
  assumes "sub_browse sv cf opt (Some objid) s = Some (Inr es, s')" and "browsable objid"
  shows "list_all (\<lambda>e. \<exists>i. e ''id'' = Some (JStr (create_objid objid (create_id_from_identifier i)))
      \<and> handler_for sv cf i \<noteq> None
      \<and> (clean_texts i \<longrightarrow> browse_identifier (create_objid objid (create_id_from_identifier i)) = Inr (Some i))) es"
proof -
  have all: "all_lead objid es" using sub_browse_leads assms(1) unfolding ensures_def by blast
  show ?thesis
  proof (rule list.pred_mono_strong [OF all])
    fix e assume "leads objid e"
    then obtain i where i: "e ''id'' = Some (JStr (create_objid objid (create_id_from_identifier i)))"
      "ident_shape i" "dispatched i"
      unfolding leads_def is_id_def by (elim exE conjE) simp
    have "clean_texts i \<longrightarrow> browse_identifier (create_objid objid (create_id_from_identifier i)) = Inr (Some i)"
      using shape_clean_ok [OF i(2)] browse_identifier_inverse(1) [OF assms(2)] by blast
    with i(1) dispatched_handled [OF i(3)]
    show "\<exists>i. e ''id'' = Some (JStr (create_objid objid (create_id_from_identifier i)))
      \<and> handler_for sv cf i \<noteq> None
      \<and> (clean_texts i \<longrightarrow> browse_identifier (create_objid objid (create_id_from_identifier i)) = Inr (Some i))"
      by blast
  qed
qed

definition demo_sub_config :: sub_config where
  "demo_sub_config =
     \<lparr>cf_items_per_page = 2, cf_append_year = 1, cf_append_codecs = 1, cf_whitelist = [''flac''],
      cf_allow_blacklisted = 1, cf_disable_navigable = 0\<rparr>"

definition demo_opt :: "string \<Rightarrow> string option \<Rightarrow> string option res" where
  "demo_opt nm dflt = Inr dflt"

definition radio_server :: server where
  "radio_server = (demo_server [])\<lparr>sv_stations := Some [\<lparr>ir_id = ''7'', ir_name = ''One'', ir_streamUrl = ''http://r/1''\<rparr>]\<rparr>"

definition radios_objid :: string where
  "radios_objid = create_objid sub_prefix (create_id_from_identifier [(''n'', JStr ''tag''), (''v'', JStr ''ir'')])"

theorem browse_entries_lead_on_witness:
  "browsable radios_objid \<and>
   (\<exists>es s'. sub_browse radio_server demo_sub_config demo_opt (Some radios_objid) sub_start = Some (Inr es, s') \<and>
      length es = 1 \<and> list_all (\<lambda>e. \<exists>i. e ''id'' = Some (JStr (create_objid radios_objid (create_id_from_identifier i)))
        \<and> handler_for radio_server demo_sub_config i \<noteq> None) es)"
proof -
  have b: "browsable radios_objid" by code_simp
  have i: "browse_identifier radios_objid = Inr (Some [(''n'', JStr ''tag''), (''v'', JStr ''ir'')])" by code_simp
  have t: "find_tag ''ir'' = Some INTERNET_RADIOS" by code_simp
  obtain es s' where r: "sub_browse radio_server demo_sub_config demo_opt (Some radios_objid) sub_start = Some (Inr es, s')"
      "length es = 1"
    by (simp add: sub_browse_def liftS_def bindS_def i t handler_for_def ident_get_def getName_def
        create_list_of_internet_radio_def radio_server_def add_entry_def station_to_entry_def element_id_plain returnS_app Let_def)
  from browse_entries_lead_on [OF r(1) b]
  have "list_all (\<lambda>e. \<exists>i. e ''id'' = Some (JStr (create_objid radios_objid (create_id_from_identifier i)))
        \<and> handler_for radio_server demo_sub_config i \<noteq> None) es"
    by (rule list.pred_mono_strong) blast
  with b r show ?thesis by blast
qed

end
