(* ===== verification/SubPages.thy ===== *)
theory SubPages
  imports SubBrowse
begin

text \<open>
  Three things about the pages of the Subsonic plugin: how the tracks of an album are numbered, which
  albums of an artist a page shows, and when the first page cannot be shown at all.
\<close>

section \<open>The numbers of the tracks\<close>

fun numbers :: "string option \<Rightarrow> int \<Rightarrow> string list \<Rightarrow> int list" where
  "numbers b n [] = []"
| "numbers b n (p # ps) = (let n' = (if b = Some p then n + 1 else 1) in n' # numbers (Some p) n' ps)"

text \<open>How many of the last elements of a list are the same.\<close>

definition run_length :: "'a list \<Rightarrow> nat" where
  "run_length ps = length (takeWhile (\<lambda>p. p = last ps) (rev ps))"

lemma run_length_snoc:
  "run_length (qs @ [p]) = (if qs \<noteq> [] \<and> last qs = p then run_length qs + 1 else 1)"
  by (cases qs rule: rev_cases) (auto simp: run_length_def)

lemma numbers_run:
  "qs \<noteq> [] \<Longrightarrow> numbers (Some (last qs)) (int (run_length qs)) ps =
     map (\<lambda>i. int (run_length (qs @ take (Suc i) ps))) [0..<length ps]"
proof (induction ps arbitrary: qs)
  case (Cons p ps)
  have n: "(if last qs = p then int (run_length qs) + 1 else 1) = int (run_length (qs @ [p]))"
    using Cons.prems by (simp add: run_length_snoc)
  have "numbers (Some (last qs)) (int (run_length qs)) (p # ps) =
      int (run_length (qs @ [p])) # numbers (Some (last (qs @ [p]))) (int (run_length (qs @ [p]))) ps"
    by (simp add: n [symmetric] Let_def)
  also have "\<dots> = int (run_length (qs @ [p])) #
      map (\<lambda>i. int (run_length ((qs @ [p]) @ take (Suc i) ps))) [0..<length ps]"
    by (subst Cons.IH) simp_all
  also have "\<dots> = map (\<lambda>i. int (run_length (qs @ take (Suc i) (p # ps)))) [0..<length (p # ps)]"
    by (simp add: upt_conv_Cons map_Suc_upt [symmetric] comp_def del: upt_Suc)
  finally show ?case .
qed simp

lemma numbers_spec: "numbers None 0 ps = map (\<lambda>i. int (run_length (take (Suc i) ps))) [0..<length ps]"
proof (cases ps)
  case (Cons p qs)
  have "numbers None 0 ps = int (run_length [p]) # numbers (Some (last [p])) (int (run_length [p])) qs"
    by (simp add: Cons run_length_def)
  also have "\<dots> = int (run_length [p]) # map (\<lambda>i. int (run_length ([p] @ take (Suc i) qs))) [0..<length qs]"
    by (subst numbers_run) simp_all
  also have "\<dots> = map (\<lambda>i. int (run_length (take (Suc i) ps))) [0..<length ps]"
    by (simp add: Cons upt_conv_Cons map_Suc_upt [symmetric] comp_def del: upt_Suc)
  finally show ?thesis .
qed simp

definition track_number :: "sub_entry \<Rightarrow> jval option" where
  "track_number e = e ''upnp:originalTrackNumber''"

lemma song_to_entry_returns:
  assumes "sg_id s \<noteq> []"
  shows "\<exists>e. song_to_entry sv cf objid s art multi (Some n) st = Some (Inr e, st) \<and> track_number e = Some (JStr n)
    \<and> e ''pid'' = Some (JStr (sg_id s))"
  using assms
  by (simp add: song_to_entry_def element_id_plain liftS_def bindS_def returnS_app Let_def track_number_def
      set_class_music_track_def set_album_title_def set_track_number_def set_artist_def set_album_art_from_uri_def)

lemma liftS_Inr: "liftS (Inr x) = returnS x"
  by (rule ext) (simp add: liftS_def returnS_def)

definition numbered :: "song \<Rightarrow> bool" where
  "numbered s \<longleftrightarrow> sg_id s \<noteq> [] \<and> sg_path s \<noteq> None \<and> base_path s \<noteq> []"

lemma album_track_entries_numbers:
  assumes "list_all numbered songs" and "b \<noteq> Some []"
  shows "\<exists>es'. album_track_entries sv cf objid version tracks songs b n es st = Some (Inr (es @ es'), st) \<and>
    map track_number es' =
      map (\<lambda>k. Some (JStr (str_int k)))
        (numbers b n (map base_path (filter (\<lambda>s. version = None \<or> version = Some (base_path s)) songs))) \<and>
    map (\<lambda>e. e ''pid'') es' =
      map (\<lambda>s. Some (JStr (sg_id s))) (filter (\<lambda>s. version = None \<or> version = Some (base_path s)) songs)"
  using assms
proof (induction songs arbitrary: b n es)
  case Nil
  show ?case by (simp add: returnS_app)
next
  case (Cons s songs)
  then have "numbered s" and songs: "list_all numbered songs" by simp_all
  then have s: "sg_id s \<noteq> []" "sg_path s \<noteq> None" "base_path s \<noteq> []" by (simp_all add: numbered_def)
  then have dir: "get_dir_from_path (sg_path s) = Inr (os_dirname (the (sg_path s)))"
    and base: "get_album_base_path (os_dirname (the (sg_path s))) = base_path s"
    by (auto simp: get_dir_from_path_def base_path_def)
  show ?case
  proof (cases "version = None \<or> version = Some (base_path s)")
    case True
    let ?n = "if b = Some (base_path s) then n + 1 else 1"
    have n: "(if \<not> truthy b then 1 else if b = Some (base_path s) then n + 1 else 1) = ?n"
      using s(3) by auto
    obtain e where e: "song_to_entry sv cf objid s (Some (at_artUri tracks)) (at_multi tracks) (Some (str_int ?n)) st = Some (Inr e, st)"
        "track_number e = Some (JStr (str_int ?n))" "e ''pid'' = Some (JStr (sg_id s))"
      using song_to_entry_returns [OF s(1)] by blast
    obtain es' where es': "album_track_entries sv cf objid version tracks songs (Some (base_path s)) ?n (es @ [e]) st =
          Some (Inr ((es @ [e]) @ es'), st)"
        "map track_number es' = map (\<lambda>k. Some (JStr (str_int k)))
          (numbers (Some (base_path s)) ?n (map base_path (filter (\<lambda>s. version = None \<or> version = Some (base_path s)) songs)))"
        "map (\<lambda>e. e ''pid'') es' =
          map (\<lambda>s. Some (JStr (sg_id s))) (filter (\<lambda>s. version = None \<or> version = Some (base_path s)) songs)"
      using Cons.IH [OF songs, of "Some (base_path s)" ?n "es @ [e]"] s(3) by blast
    have step: "album_track_entries sv cf objid version tracks (s # songs) b n es =
        bindS (add_entry es (song_to_entry sv cf objid s (Some (at_artUri tracks)) (at_multi tracks) (Some (str_int ?n))))
          (album_track_entries sv cf objid version tracks songs (Some (base_path s)) ?n)"
      by (simp only: album_track_entries.simps dir liftS_Inr bindS_returnS Let_def base n True if_True)
    have "album_track_entries sv cf objid version tracks (s # songs) b n es st = Some (Inr (es @ (e # es')), st)"
      unfolding step using es'(1) by (simp add: bindS_def add_entry_def e(1) returnS_app)
    moreover have shown: "filter (\<lambda>s. version = None \<or> version = Some (base_path s)) (s # songs) =
        s # filter (\<lambda>s. version = None \<or> version = Some (base_path s)) songs"
      using True by simp
    moreover have "map track_number (e # es') = map (\<lambda>k. Some (JStr (str_int k)))
        (numbers b n (map base_path (s # filter (\<lambda>s. version = None \<or> version = Some (base_path s)) songs)))"
      unfolding list.map numbers.simps Let_def e(2) es'(2) ..
    ultimately show ?thesis
      unfolding shown by (intro exI [of _ "e # es'"] conjI) (assumption | simp only: list.map e(3) es'(3))+
  next
    case False
    have "album_track_entries sv cf objid version tracks (s # songs) b n es =
        album_track_entries sv cf objid version tracks songs b n es"
      by (simp only: album_track_entries.simps dir liftS_Inr bindS_returnS Let_def base False if_False)
    moreover have "filter (\<lambda>s. version = None \<or> version = Some (base_path s)) (s # songs) =
        filter (\<lambda>s. version = None \<or> version = Some (base_path s)) songs"
      using False by simp
    moreover note Cons.IH [OF songs Cons.prems(2), of n es]
    ultimately show ?thesis by (simp only:)
  qed
qed

text \<open>C24. An album is shown with its songs in their sorted order, all of them or those of the version asked
  for, and the number of a track is its place among the tracks of the same directory that stand together:
  it goes up by one from song to song and starts again with one where the directory changes.\<close>

theorem album_tracks_numbered:
  assumes "sv_album sv album_id = Some al" and "list_all numbered (al_songs al)"
    and "sort_song_list (al_songs al) = Inr r"
  shows "\<exists>es st'. load_album_tracks sv cf objid album_id version [] st = Some (Inr es, st') \<and>
    (let shown = filter (\<lambda>s. version = None \<or> version = Some (base_path s)) (ss_songs r); dirs = map base_path shown in
      map (\<lambda>e. e ''pid'') es = map (\<lambda>s. Some (JStr (sg_id s))) shown \<and>
      map track_number es =
        map (\<lambda>i. Some (JStr (str_int (int (run_length (take (Suc i) dirs)))))) [0..<length dirs])"
proof -
  have "mset (ss_songs r) = mset (al_songs al)"
  proof -
    have "\<forall>s \<in> set (al_songs al). sg_path s \<noteq> None" using assms(2) by (auto simp: list_all_iff numbered_def)
    from sort_song_list_sorted [OF this] assms(3) show ?thesis by auto
  qed
  then have "set (ss_songs r) = set (al_songs al)" by (metis set_mset_mset)
  then have num: "list_all numbered (ss_songs r)" using assms(2) by (simp add: list_all_iff)
  let ?t = "\<lparr>at_codecs = ss_codecs r, at_album = al, at_songs = ss_songs r, at_artUri = sv_coverUrl sv (al_id al),
    at_multi = ss_multi r\<rparr>"
  have t: "get_album_tracks sv album_id st = Some (Inr ?t, st)"
    by (simp add: get_album_tracks_def okS_def assms(1,3) liftS_def bindS_def returnS_app)
  let ?st = "store GENRE_ALBUM_LIST (al_genre al) (al_id al) st"
  obtain es where es: "album_track_entries sv cf objid version ?t (ss_songs r) None 0 [] ?st = Some (Inr ([] @ es), ?st)"
    "map track_number es = map (\<lambda>k. Some (JStr (str_int k)))
        (numbers None 0 (map base_path (filter (\<lambda>s. version = None \<or> version = Some (base_path s)) (ss_songs r))))"
    "map (\<lambda>e. e ''pid'') es = map (\<lambda>s. Some (JStr (sg_id s)))
        (filter (\<lambda>s. version = None \<or> version = Some (base_path s)) (ss_songs r))"
    using album_track_entries_numbers [OF num, of None sv cf objid version ?t 0 "[]" ?st] by auto
  have "load_album_tracks sv cf objid album_id version [] st = Some (Inr es, ?st)"
    using es(1) by (simp add: load_album_tracks_def bindS_def t cache_app)
  then show ?thesis using es(2,3) by (auto simp: numbers_spec Let_def comp_def)
qed

definition two_directories :: "song list" where
  "two_directories =
     [demo_song ''3'' ''y/1.flac'' None (Some 1), demo_song ''1'' ''x/1.flac'' None (Some 1),
      demo_song ''2'' ''x/2.flac'' None (Some 2)]"

theorem album_tracks_numbered_witness:
  "\<exists>es st'. load_album_tracks ((demo_server [])\<lparr>sv_album := \<lambda>_. Some (demo_album ''5'' ''Jazz'' \<lparr>al_songs := two_directories\<rparr>)\<rparr>)
      demo_sub_config ''x'' ''5'' None [] sub_start = Some (Inr es, st') \<and>
    map track_number es = [Some (JStr ''1''), Some (JStr ''2''), Some (JStr ''1'')]"
proof -
  let ?al = "demo_album ''5'' ''Jazz'' \<lparr>al_songs := two_directories\<rparr>"
  have songs: "al_songs ?al = two_directories" by simp
  have num: "list_all numbered two_directories" by code_simp
  have r: "map_sum id (\<lambda>r. map base_path (ss_songs r)) (sort_song_list two_directories)
    = Inr [''x'', ''x'', ''y'']" by code_simp
  then obtain r where r: "sort_song_list two_directories = Inr r"
      "map base_path (ss_songs r) = [''x'', ''x'', ''y'']"
    by (cases "sort_song_list two_directories") simp_all
  have runs: "map (\<lambda>i. Some (JStr (str_int (int (run_length (take (Suc i) [''x'', ''x'', ''y'']))))))
      [0..<length [''x'', ''x'', ''y'']] = [Some (JStr ''1''), Some (JStr ''2''), Some (JStr ''1'')]"
    by code_simp
  show ?thesis
    using album_tracks_numbered [of "(demo_server [])\<lparr>sv_album := \<lambda>_. Some ?al\<rparr>" "''5''" ?al r demo_sub_config "''x''" None sub_start]
      num r runs
    by (auto simp: songs Let_def)
qed

section \<open>The albums of an artist\<close>

lemma foldS_length:
  assumes "\<And>x b s b' s'. x \<in> set xs \<Longrightarrow> f x b s = Some (Inr b', s') \<Longrightarrow> length b' = Suc (length b)"
    and "foldS f xs b s = Some (Inr b', s')"
  shows "length b' = length b + length xs"
  using assms
proof (induction xs arbitrary: b s)
  case (Cons x xs)
  then obtain b1 s1 where x: "f x b s = Some (Inr b1, s1)" and xs: "foldS f xs b1 s1 = Some (Inr b', s')"
    by (auto simp: bindS_Inr)
  have "length b1 = Suc (length b)" by (rule Cons.prems(1) [OF _ x]) simp
  moreover have "length b' = length b1 + length xs"
    by (rule Cons.IH [OF _ xs]) (rule Cons.prems(1), simp_all)
  ultimately show ?case by simp
qed (simp add: returnS_app)

lemma add_entry_length: "add_entry es m s = Some (Inr es', s') \<Longrightarrow> length es' = Suc (length es)"
  by (auto simp: add_entry_def bindS_Inr returnS_app)

lemma album_entries_length:
  assumes "albums_by_artist_to_entries sv cf objid als es s = Some (Inr es', s')"
  shows "length es' = length es + length als"
proof -
  obtain s1 where "foldS (\<lambda>al entries.
           bindS (cache_element_value ARTIST (al_artistId al) (al_id al)) (\<lambda>_.
           bindS (cache_element_value GENRE (al_genre al) (al_id al)) (\<lambda>_.
             add_entry entries (album_to_entry sv cf objid al)))) als es s1 = Some (Inr es', s')"
    using assms unfolding albums_by_artist_to_entries_def bindS_Inr by (elim exE conjE)
  then show ?thesis
    by (rule foldS_length [rotated]) (auto simp: bindS_Inr dest: add_entry_length)
qed

lemma page_slice:
  assumes "0 \<le> a" and "0 \<le> m" and "a + m \<le> int (length xs)"
  shows "length (py_slice xs a (a + m)) = nat m"
  using assms by (simp add: py_slice_def Let_def)

lemma last_page:
  assumes "int k * m < n" and "n \<le> m + int k * m" and "0 < m"
  shows "n mod m = (if m dvd n then 0 else n - int k * m)"
proof (cases "m dvd n")
  case False
  then have "n \<noteq> m + int k * m" by auto
  then have "0 \<le> n - int k * m" "n - int k * m < m" using assms by simp_all
  then have "(n - int k * m) mod m = n - int k * m" by (rule mod_pos_pos_trivial)
  moreover have "(n - int k * m) mod m = n mod m" by (simp add: mod_diff_right_eq [symmetric])
  ultimately show ?thesis using False by simp
qed simp

text \<open>A page of the albums of an artist, the \<open>k\<close>-th for \<open>k\<close> pages before it, shows a full page and a
  link to the next one as long as albums are left after it; the last page shows the rest. But it shows
  nothing when the albums fill several pages without a rest: the last albums cannot be reached then.\<close>

theorem artist_albums_page:
  assumes "thing_value i = Inr a" and "sv_artist sv a = Some ar"
    and "0 < cf_items_per_page cf" and "offset_of i = Inr (int k * cf_items_per_page cf)"
    and "int k * cf_items_per_page cf < int (length (ar_albums ar))"
    and "handler_element_artist_albums sv cf objid i [] st = Some (Inr es, st')"
  shows "int (length es) =
    (let n = int (length (ar_albums ar)); m = cf_items_per_page cf in
      if m + int k * m < n then m + 1 else if m dvd n \<and> m \<noteq> n then 0 else n - int k * m)"
proof -
  let ?n = "int (length (ar_albums ar))" and ?m = "cf_items_per_page cf"
  let ?o = "int k * ?m"
  have als: "load_albums_by_artist sv a = returnS (ar_albums ar)"
    by (simp add: load_albums_by_artist_def assms(2) okS_def)
  note h = assms(6) [unfolded handler_element_artist_albums_def assms(1,4) liftS_Inr bindS_returnS als Let_def]
  have o: "0 \<le> ?o" using assms(3) by simp
  consider (more) "?m + ?o < ?n" | (one) "\<not> ?m + ?o < ?n" "?n = ?m" | (last) "\<not> ?m + ?o < ?n" "?n \<noteq> ?m" by blast
  then show ?thesis
  proof cases
    case more
    then obtain es1 s1 s2 where "albums_by_artist_to_entries sv cf objid (py_slice (ar_albums ar) ?o (?o + ?m)) [] st = Some (Inr es1, s1)"
        "add_entry es1 (next_entry objid ARTIST_ALBUMS (Some a) [(OFFSET, JInt (?o + ?m))]) s1 = Some (Inr es, s2)"
      using h assms(3) by (auto simp: bindS_Inr)
    then have "length es = Suc (length (py_slice (ar_albums ar) ?o (?o + ?m)))"
      by (auto dest!: album_entries_length add_entry_length)
    then show ?thesis using more o assms(3) by (simp add: page_slice Let_def)
  next
    case one
    then have k: "?o = 0" using assms(3,5) o by auto
    obtain s1 where "albums_by_artist_to_entries sv cf objid (py_slice (ar_albums ar) ?o (?o + ?m)) [] st = Some (Inr es, s1)"
      using h assms(3) one by (auto simp: bindS_Inr returnS_app)
    from album_entries_length [OF this] show ?thesis
      using one assms(3) page_slice [of 0 ?m "ar_albums ar"] by (simp add: Let_def k)
  next
    case last
    then have m: "?n mod ?m = (if ?m dvd ?n then 0 else ?n - ?o)" using assms(3,5) by (simp add: last_page)
    show ?thesis
    proof (cases "?m dvd ?n")
      case True
      then show ?thesis using h last assms(3) m by (simp add: returnS_app Let_def)
    next
      case False
      then obtain s1 where "albums_by_artist_to_entries sv cf objid (py_slice (ar_albums ar) ?o (?o + (?n - ?o))) [] st = Some (Inr es, s1)"
        using h assms(3,5) last m by (auto simp: bindS_Inr returnS_app)
      from album_entries_length [OF this] show ?thesis
        using page_slice [of ?o "?n - ?o" "ar_albums ar"] last False assms(5) o by (simp add: Let_def)
    qed
  qed
qed

definition artist_server :: server where
  "artist_server = (demo_server [])\<lparr>sv_artist := \<lambda>_. Some \<lparr>ar_id = ''7'', ar_name = ''A'',
     ar_albums = map (\<lambda>i. demo_album i ''Jazz'') [''1'', ''2'', ''3'', ''4'']\<rparr>\<rparr>"

theorem artist_albums_page_witness:
  "\<exists>es st'. handler_element_artist_albums artist_server demo_sub_config ''x''
      [(''v'', JStr ''7''), (''o'', JInt 2)] [] sub_start = Some (Inr es, st') \<and> es = []"
proof -
  let ?i = "[(''v'', JStr ''7''), (''o'', JInt 2)]"
  have h: "thing_value ?i = Inr ''7''" "offset_of ?i = Inr (int 1 * cf_items_per_page demo_sub_config)" by code_simp+
  obtain ar where ar: "sv_artist artist_server ''7'' = Some ar" "length (ar_albums ar) = 4"
    by (simp add: artist_server_def)
  have items: "cf_items_per_page demo_sub_config = 2" by (simp add: demo_sub_config_def)
  have "load_albums_by_artist artist_server ''7'' = returnS (ar_albums ar)"
    by (simp add: load_albums_by_artist_def ar okS_def)
  then have run: "handler_element_artist_albums artist_server demo_sub_config ''x'' ?i [] sub_start = Some (Inr [], sub_start)"
    by (simp add: handler_element_artist_albums_def h liftS_Inr items ar returnS_app)
  have "int (length ([] :: sub_entry list)) = 0"
    using artist_albums_page [OF h(1) ar(1) _ h(2) _ run] by (simp add: items ar)
  then show ?thesis using run by blast
qed

end
