(* ===== verification/Routing.thy ===== *)
theory Routing
  imports PyUrl
begin

text \<open>
  URL rules and their dispatch, \<open>pycommon/routing.py\<close>, which the plugins of the streaming services
  share. A rule is made of a pattern as \<open>/artist/<artist_id>/similar\<close>: the text of the pattern is scanned
  for keywords as the regular expressions of the code do, and what is compiled from it is a list of
  literal characters and keyword groups, matched with the backtracking of the lazy and the greedy
  repetition. Patterns are taken to have no braces, percent signs or characters that are special in a
  regular expression. Theorems: on rules whose keywords are whole components of the path, matching is
  matching component by component; and if the rules of a plugin are apart from each other, the URL made
  for a view and its arguments is dispatched to this view with these arguments.
\<close>

section \<open>Patterns\<close>

text \<open>The characters of the class \<open>[A-z]\<close>, which has six more than the letters.\<close>

definition kw_char :: "char \<Rightarrow> bool" where
  "kw_char c \<longleftrightarrow> (let n = (of_char c :: nat) in 65 \<le> n \<and> n \<le> 122)"

text \<open>\<open>([A-z]+)>\<close> at the head of a text: the name, and what follows.\<close>

definition name_at :: "string \<Rightarrow> (string \<times> string) option" where
  "name_at s =
     (let nm = takeWhile kw_char s; r = dropWhile kw_char s in
      if nm \<noteq> [] \<and> r \<noteq> [] \<and> hd r = CHR ''>'' then Some (nm, tl r) else None)"

text \<open>\<open>(?:[^:]+:)?([A-z]+)>\<close>: with the part before a colon, if that can be.\<close>

definition kw_at :: "string \<Rightarrow> (string \<times> string) option" where
  "kw_at s =
     (let a = takeWhile (\<lambda>c. c \<noteq> CHR '':'') s in
      if a \<noteq> [] \<and> length a < length s then
        (case name_at (drop (length a + 1) s) of Some r \<Rightarrow> Some r | None \<Rightarrow> name_at s)
      else name_at s)"

lemma name_at_shrinks: "name_at s = Some (nm, r) \<Longrightarrow> length r < length s"
  using length_dropWhile_le [of kw_char s]
  by (cases "dropWhile kw_char s") (auto simp: name_at_def Let_def split: if_splits)

lemma kw_at_shrinks: "kw_at s = Some (nm, r) \<Longrightarrow> length r < length s"
  by (auto simp: kw_at_def Let_def split: if_splits option.splits dest!: name_at_shrinks)

datatype fmt = FChar char | FKey string

text \<open>The pattern with the keywords as the fields of a format text, and the keywords.\<close>

function url_format :: "string \<Rightarrow> fmt list" where
  "url_format [] = []"
| "url_format (c # s) =
     (if c = CHR ''<'' then
        (case kw_at s of
           Some (nm, r) \<Rightarrow> FKey nm # url_format r
         | None \<Rightarrow> FChar c # url_format s)
      else FChar c # url_format s)"
  by pat_completeness auto
termination
  by (relation "measure length") (auto dest!: kw_at_shrinks)

fun fmt_keys :: "fmt list \<Rightarrow> string list" where
  "fmt_keys [] = []"
| "fmt_keys (FChar c # f) = fmt_keys f"
| "fmt_keys (FKey n # f) = n # fmt_keys f"

text \<open>The regular expression: \<open><name>\<close> and \<open><string:name>\<close> are \<open>[^/]+?\<close>, \<open><path:name>\<close> is \<open>.*\<close>.\<close>

datatype segment = Lit char | StrSeg string | PathSeg string

definition seg_at :: "string \<Rightarrow> (segment \<times> string) option" where
  "seg_at s =
     (case name_at s of
        Some (nm, r) \<Rightarrow> Some (StrSeg nm, r)
      | None \<Rightarrow>
          if startswith s ''string:'' then map_option (\<lambda>(nm, r). (StrSeg nm, r)) (name_at (drop 7 s))
          else if startswith s ''path:'' then map_option (\<lambda>(nm, r). (PathSeg nm, r)) (name_at (drop 5 s))
          else None)"

lemma seg_at_shrinks: "seg_at s = Some (g, r) \<Longrightarrow> length r < length s"
  by (auto simp: seg_at_def split: if_splits option.splits dest!: name_at_shrinks)

function url_segments :: "string \<Rightarrow> segment list" where
  "url_segments [] = []"
| "url_segments (c # s) =
     (if c = CHR ''<'' then
        (case seg_at s of
           Some (g, r) \<Rightarrow> g # url_segments r
         | None \<Rightarrow> Lit c # url_segments s)
      else Lit c # url_segments s)"
  by pat_completeness auto
termination
  by (relation "measure length") (auto dest!: seg_at_shrinks)

fun seg_names :: "segment list \<Rightarrow> string list" where
  "seg_names [] = []"
| "seg_names (Lit c # p) = seg_names p"
| "seg_names (StrSeg n # p) = n # seg_names p"
| "seg_names (PathSeg n # p) = n # seg_names p"

section \<open>Rules\<close>

record url_rule =
  ur_format :: "fmt list"
  ur_keywords :: "string list"
  ur_segments :: "segment list"

text \<open>The name of a group must be an identifier and not be used twice.\<close>

definition group_name :: "string \<Rightarrow> bool" where
  "group_name n \<longleftrightarrow> list_all (\<lambda>c. let k = (of_char c :: nat) in k \<le> 90 \<or> k = 95 \<or> 97 \<le> k) n"

definition UrlRule_init :: "string \<Rightarrow> url_rule res" where
  "UrlRule_init pattern =
     (let p = url_segments pattern in
      if list_all group_name (seg_names p) \<and> distinct (seg_names p) then
        Inr \<lparr>ur_format = url_format pattern, ur_keywords = fmt_keys (url_format pattern), ur_segments = p\<rparr>
      else Inl (Raised ''re.error''))"

fun first_some :: "('a \<Rightarrow> 'b option) \<Rightarrow> 'a list \<Rightarrow> 'b option" where
  "first_some f [] = None"
| "first_some f (x # xs) = (case f x of Some y \<Rightarrow> Some y | None \<Rightarrow> first_some f xs)"

text \<open>The lazy group tries short texts first, the greedy one long ones; the expression ends with \<open>$\<close>,
  which also matches before a line end at the end.\<close>

fun match_segs :: "segment list \<Rightarrow> string \<Rightarrow> (string \<times> string) list option" where
  "match_segs [] s = (if s = [] \<or> s = [CHR 0x0A] then Some [] else None)"
| "match_segs (Lit c # p) s = (if s \<noteq> [] \<and> hd s = c then match_segs p (tl s) else None)"
| "match_segs (StrSeg n # p) s =
     first_some (\<lambda>k. map_option (Cons (n, take k s)) (match_segs p (drop k s)))
       [1..<Suc (length (takeWhile (\<lambda>c. c \<noteq> CHR ''/'') s))]"
| "match_segs (PathSeg n # p) s =
     first_some (\<lambda>k. map_option (Cons (n, take k s)) (match_segs p (drop k s)))
       (rev [0..<Suc (length (takeWhile (\<lambda>c. c \<noteq> CHR 0x0A) s))])"

definition rule_match :: "url_rule \<Rightarrow> string \<Rightarrow> (string \<times> string) list option" where
  "rule_match r path = match_segs (ur_segments r) path"

text \<open>\<open>urlencode\<close>\<close>

definition quote_plus :: "string \<Rightarrow> string" where
  "quote_plus s =
     concat (map (\<lambda>c. if c = CHR '' '' then ''+'' else if c = CHR ''/'' then ''%2F'' else quote_char c) s)"

definition urlencode :: "(string \<times> string) list \<Rightarrow> string" where
  "urlencode kv = join_with ''&'' (map (\<lambda>(k, v). quote_plus k @ ''='' @ quote_plus v) kv)"

text \<open>\<open>% args\<close> wants as many arguments as fields; \<open>format\<close> a value for every field.\<close>

fun fill_args :: "fmt list \<Rightarrow> string list \<Rightarrow> string option" where
  "fill_args [] [] = Some []"
| "fill_args [] (a # args) = None"
| "fill_args (FChar c # f) args = map_option (Cons c) (fill_args f args)"
| "fill_args (FKey n # f) [] = None"
| "fill_args (FKey n # f) (a # args) = map_option (append a) (fill_args f args)"

fun fill_kwargs :: "fmt list \<Rightarrow> (string \<times> string) list \<Rightarrow> string option" where
  "fill_kwargs [] kw = Some []"
| "fill_kwargs (FChar c # f) kw = map_option (Cons c) (fill_kwargs f kw)"
| "fill_kwargs (FKey n # f) kw =
     (case map_of kw n of None \<Rightarrow> None | Some v \<Rightarrow> map_option (append v) (fill_kwargs f kw))"

definition make_path :: "url_rule \<Rightarrow> string list \<Rightarrow> (string \<times> string) list \<Rightarrow> string option" where
  "make_path r args kwargs =
     (if args \<noteq> [] \<and> kwargs \<noteq> [] then None
      else if args \<noteq> [] then fill_args (ur_format r) args
      else
        (let url_kwargs = filter (\<lambda>(k, v). k \<in> set (ur_keywords r)) kwargs;
             qs_kwargs = filter (\<lambda>(k, v). k \<notin> set (ur_keywords r)) kwargs;
             query = (if qs_kwargs \<noteq> [] then ''?'' @ urlencode qs_kwargs else [])
         in map_option (\<lambda>p. p @ query) (fill_kwargs (ur_format r) url_kwargs)))"

section \<open>Plugins\<close>

text \<open>The views, by name, with their rules, in the order of registration.\<close>

record route_plugin =
  rp_rules :: "(string \<times> url_rule list) list"
  rp_base_url :: string

definition add_route :: "string \<Rightarrow> string \<Rightarrow> route_plugin \<Rightarrow> route_plugin res" where
  "add_route func pattern pl =
     bindR (UrlRule_init pattern) (\<lambda>rule.
       let rules = (case map_of (rp_rules pl) func of Some rs \<Rightarrow> rs | None \<Rightarrow> [])
       in Inr (pl\<lparr>rp_rules := AList.update func (rules @ [rule]) (rp_rules pl)\<rparr>))"

definition url_for_path :: "route_plugin \<Rightarrow> string \<Rightarrow> string" where
  "url_for_path pl path = rp_base_url pl @ (if startswith path ''/'' then path else ''/'' @ path)"

definition url_for :: "route_plugin \<Rightarrow> string \<Rightarrow> string list \<Rightarrow> (string \<times> string) list \<Rightarrow> string res" where
  "url_for pl func args kwargs =
     (case Option.bind (map_of (rp_rules pl) func) (first_some (\<lambda>r. make_path r args kwargs)) of
        Some path \<Rightarrow> Inr (url_for_path pl path)
      | None \<Rightarrow> Inl (Raised ''RoutingError''))"

text \<open>The first rule that matches, view by view.\<close>

definition route_dispatch :: "route_plugin \<Rightarrow> string \<Rightarrow> (string \<times> (string \<times> string) list) res" where
  "route_dispatch pl path =
     (case first_some (\<lambda>(f, rules). map_option (Pair f) (first_some (\<lambda>r. rule_match r path) rules)) (rp_rules pl) of
        Some d \<Rightarrow> Inr d
      | None \<Rightarrow> Inl (Raised ''RoutingError''))"

text \<open>Splitting at an empty text raises.\<close>

definition route_for :: "route_plugin \<Rightarrow> string \<Rightarrow> string option res" where
  "route_for pl path =
     bindR (if startswith path (rp_base_url pl)
            then (if rp_base_url pl = [] then Inl ValueError else Inr (drop (length (rp_base_url pl)) path))
            else Inr path) (\<lambda>path.
       Inr (first_some (\<lambda>(f, rules). map_option (\<lambda>_. f) (first_some (\<lambda>r. rule_match r path) rules)) (rp_rules pl)))"

text \<open>\<open>urlsplit\<close>: the path of a URL. Leading control characters and spaces, tabs and line ends are
  dropped; then a scheme, a network location, a fragment and a query are cut off.\<close>

definition scheme_char :: "char \<Rightarrow> bool" where
  "scheme_char c \<longleftrightarrow>
     (let n = (of_char c :: nat) in (65 \<le> n \<and> n \<le> 90) \<or> (97 \<le> n \<and> n \<le> 122) \<or> (48 \<le> n \<and> n \<le> 57)) \<or>
     c \<in> {CHR ''+'', CHR ''-'', CHR ''.''}"

definition ascii_letter :: "char \<Rightarrow> bool" where
  "ascii_letter c \<longleftrightarrow> (let n = (of_char c :: nat) in (65 \<le> n \<and> n \<le> 90) \<or> (97 \<le> n \<and> n \<le> 122))"

definition cut_scheme :: "string \<Rightarrow> string" where
  "cut_scheme url =
     (let a = takeWhile (\<lambda>c. c \<noteq> CHR '':'') url in
      if a \<noteq> [] \<and> length a < length url \<and> ascii_letter (hd a) \<and> list_all scheme_char a
      then drop (length a + 1) url else url)"

definition cut_netloc :: "string \<Rightarrow> string res" where
  "cut_netloc url =
     (if startswith url ''//'' then
        (let rest = drop 2 url;
             netloc = takeWhile (\<lambda>c. c \<notin> {CHR ''/'', CHR ''?'', CHR ''#''}) rest
         in if (CHR ''['' \<in> set netloc) \<noteq> (CHR '']'' \<in> set netloc) then Inl ValueError
            else Inr (drop (length netloc) rest))
      else Inr url)"

definition urlsplit_path :: "string \<Rightarrow> string res" where
  "urlsplit_path url =
     (let url = filter (\<lambda>c. c \<notin> {CHR 0x09, CHR 0x0A, CHR 0x0D}) (lstrip (\<lambda>c. (of_char c :: nat) \<le> 32) url)
      in bindR (cut_netloc (cut_scheme url)) (\<lambda>url.
           Inr (takeWhile (\<lambda>c. c \<noteq> CHR ''?'') (takeWhile (\<lambda>c. c \<noteq> CHR ''#'') url))))"

text \<open>\<open>run([url])\<close>\<close>

definition route_run :: "route_plugin \<Rightarrow> string \<Rightarrow> (string \<times> (string \<times> string) list) res" where
  "route_run pl url =
     bindR (urlsplit_path url) (\<lambda>path. route_dispatch pl (if path \<noteq> [] then path else ''/''))"

section \<open>Matching by components\<close>

datatype comp = LitC string | KeyC string

definition comp_of :: "segment list \<Rightarrow> comp option" where
  "comp_of p =
     (case p of
        [StrSeg n] \<Rightarrow> Some (KeyC n)
      | _ \<Rightarrow> if list_all (\<lambda>g. case g of Lit _ \<Rightarrow> True | _ \<Rightarrow> False) p
            then Some (LitC (map (\<lambda>g. case g of Lit c \<Rightarrow> c | _ \<Rightarrow> CHR ''/'') p)) else None)"

fun all_some :: "'a option list \<Rightarrow> 'a list option" where
  "all_some [] = Some []"
| "all_some (None # xs) = None"
| "all_some (Some x # xs) = map_option (Cons x) (all_some xs)"

definition comps_of :: "segment list \<Rightarrow> comp list option" where
  "comps_of p = all_some (map comp_of (split_on (Lit (CHR ''/'')) p))"

fun match_comps :: "comp list \<Rightarrow> string list \<Rightarrow> (string \<times> string) list option" where
  "match_comps [] [] = Some []"
| "match_comps [] (x # xs) = None"
| "match_comps (c # cs) [] = None"
| "match_comps (LitC t # cs) (x # xs) = (if x = t then match_comps cs xs else None)"
| "match_comps (KeyC n # cs) (x # xs) =
     (if x \<noteq> [] then map_option (Cons (n, x)) (match_comps cs xs) else None)"

lemma first_some_None: "first_some f xs = None \<longleftrightarrow> list_all (\<lambda>x. f x = None) xs"
  by (induction xs) (auto split: option.splits)

lemma first_some_only:
  assumes "x \<in> set xs" and "\<And>y. y \<in> set xs \<Longrightarrow> y \<noteq> x \<Longrightarrow> f y = None"
  shows "first_some f xs = f x"
  using assms
proof (induction xs)
  case (Cons y xs)
  show ?case
  proof (cases "y = x")
    case True
    have "first_some f xs = None" if "f x = None"
      unfolding first_some_None list_all_iff using Cons.prems(2) that by (metis list.set_intros(2))
    with True show ?thesis by (cases "f x") auto
  next
    case False
    then show ?thesis using Cons by auto
  qed
qed simp

lemma match_lits: "match_segs (map Lit t @ p) s = (if startswith s t then match_segs p (drop (length t) s) else None)"
proof (induction t arbitrary: s)
  case (Cons c t)
  then show ?case by (cases s) auto
qed simp

lemma match_last_lits: "CHR 0x0A \<notin> set s \<Longrightarrow> match_segs (map Lit t) s = (if s = t then Some [] else None)"
  using match_lits [of t "[]" s] by (auto simp: startswith_iff)

lemma match_lits_slash:
  assumes "CHR ''/'' \<notin> set t" and "CHR ''/'' \<notin> set a"
  shows "match_segs (map Lit t @ Lit (CHR ''/'') # p) (a @ CHR ''/'' # s) = (if a = t then match_segs p s else None)"
  using assms
proof (induction t arbitrary: a)
  case Nil
  then show ?case by (cases a) auto
next
  case (Cons d t)
  then show ?case by (cases a) auto
qed

lemma match_lits_no_slash:
  "CHR ''/'' \<notin> set a \<Longrightarrow> match_segs (map Lit t @ Lit (CHR ''/'') # p) a = None"
proof (induction t arbitrary: a)
  case Nil
  then show ?case by (cases a) auto
next
  case (Cons d t)
  then show ?case by (cases a) auto
qed

lemma no_slash_takeWhile:
  "CHR ''/'' \<notin> set a \<Longrightarrow> takeWhile (\<lambda>c. c \<noteq> CHR ''/'') a = a"
  "CHR ''/'' \<notin> set a \<Longrightarrow> takeWhile (\<lambda>c. c \<noteq> CHR ''/'') (a @ CHR ''/'' # s) = a"
  by (induction a) auto

lemma match_key_last:
  assumes "CHR ''/'' \<notin> set a" and "CHR 0x0A \<notin> set a"
  shows "match_segs [StrSeg n] a = (if a \<noteq> [] then Some [(n, a)] else None)"
proof (cases "a = []")
  case False
  have "first_some (\<lambda>k. map_option (Cons (n, take k a)) (match_segs [] (drop k a))) [1..<Suc (length a)] =
      map_option (Cons (n, take (length a) a)) (match_segs [] (drop (length a) a))"
  proof (rule first_some_only)
    show "length a \<in> set [1..<Suc (length a)]" using False by (cases a) auto
    fix k assume "k \<in> set [1..<Suc (length a)]" "k \<noteq> length a"
    then have "drop k a \<noteq> []" by auto
    moreover have "drop k a \<noteq> [CHR 0x0A]" using assms(2) by (metis in_set_dropD list.set_intros(1))
    ultimately show "map_option (Cons (n, take k a)) (match_segs [] (drop k a)) = None" by simp
  qed
  then show ?thesis
    unfolding match_segs.simps(3) no_slash_takeWhile(1) [OF assms(1)] using False by simp
qed simp

lemma match_key_slash:
  assumes "CHR ''/'' \<notin> set a"
  shows "match_segs (StrSeg n # Lit (CHR ''/'') # p) (a @ CHR ''/'' # s) =
    (if a \<noteq> [] then map_option (Cons (n, a)) (match_segs p s) else None)"
proof (cases "a = []")
  case False
  have "first_some (\<lambda>k. map_option (Cons (n, take k (a @ CHR ''/'' # s)))
        (match_segs (Lit (CHR ''/'') # p) (drop k (a @ CHR ''/'' # s)))) [1..<Suc (length a)] =
      map_option (Cons (n, take (length a) (a @ CHR ''/'' # s)))
        (match_segs (Lit (CHR ''/'') # p) (drop (length a) (a @ CHR ''/'' # s)))"
  proof (rule first_some_only)
    show "length a \<in> set [1..<Suc (length a)]" using False by (cases a) auto
    fix k assume k: "k \<in> set [1..<Suc (length a)]" "k \<noteq> length a"
    then obtain c a' where "drop k a = c # a'" by (cases "drop k a") auto
    moreover from this have "c \<noteq> CHR ''/''" using assms by (metis in_set_dropD list.set_intros(1))
    ultimately have "match_segs (Lit (CHR ''/'') # p) (drop k (a @ CHR ''/'' # s)) = None" using k by simp
    then show "map_option (Cons (n, take k (a @ CHR ''/'' # s)))
        (match_segs (Lit (CHR ''/'') # p) (drop k (a @ CHR ''/'' # s))) = None" by simp
  qed
  then show ?thesis
    unfolding match_segs.simps(3) no_slash_takeWhile(2) [OF assms] using False by simp
qed simp

lemma match_key_no_slash:
  assumes "CHR ''/'' \<notin> set a"
  shows "match_segs (StrSeg n # Lit (CHR ''/'') # p) a = None"
proof -
  have "match_segs (Lit (CHR ''/'') # p) (drop k a) = None" for k
    using assms by (cases "drop k a") (auto, metis in_set_dropD list.set_intros(1))
  then show ?thesis by (simp add: first_some_None list_all_iff)
qed

lemma match_key_last_slash:
  assumes "CHR ''/'' \<notin> set a"
  shows "match_segs [StrSeg n] (a @ CHR ''/'' # s) = None"
proof -
  have none: "match_segs [] (drop k (a @ CHR ''/'' # s)) = None" if "k \<le> length a" for k
  proof -
    obtain d where d: "d = drop k (a @ CHR ''/'' # s)" by simp
    then have "CHR ''/'' \<in> set d" using that by simp
    then show ?thesis unfolding d [symmetric] by auto
  qed
  show ?thesis
    unfolding match_segs.simps(3) no_slash_takeWhile(2) [OF assms] first_some_None list_all_iff
    by (auto simp: none simp del: match_segs.simps drop_append)
qed

lemma comp_of_KeyC: "comp_of p = Some (KeyC n) \<longleftrightarrow> p = [StrSeg n]"
  by (auto simp: comp_of_def split: list.splits segment.splits if_splits)

lemma all_lits: "list_all (\<lambda>g. case g of Lit _ \<Rightarrow> True | _ \<Rightarrow> False) p \<Longrightarrow>
    p = map Lit (map (\<lambda>g. case g of Lit c \<Rightarrow> c | _ \<Rightarrow> CHR ''/'') p)"
  by (induction p) (auto split: segment.splits)

lemma comp_of_LitC: "comp_of p = Some (LitC t) \<Longrightarrow> p = map Lit t"
  using all_lits [of p] by (auto simp: comp_of_def split: list.splits segment.splits if_splits)

lemma split_cases:
  obtains (one) "CHR ''/'' \<notin> set s" "split_on (CHR ''/'') s = [s]"
  | (more) a s' where "CHR ''/'' \<notin> set a" "s = a @ CHR ''/'' # s'"
      "split_on (CHR ''/'') s = a # split_on (CHR ''/'') s'"
proof (cases "CHR ''/'' \<in> set s")
  case True
  then obtain a s' where "s = a @ CHR ''/'' # s'" "CHR ''/'' \<notin> set a" by (metis split_list_first)
  then show ?thesis by (intro more) (simp_all add: split_on_append)
next
  case False
  then show ?thesis by (intro one) (simp_all add: split_on_no_sep)
qed

lemma match_pieces:
  assumes "ps \<noteq> []" and "all_some (map comp_of ps) = Some cs"
    and "\<And>p. p \<in> set ps \<Longrightarrow> Lit (CHR ''/'') \<notin> set p" and "CHR 0x0A \<notin> set s"
  shows "match_segs (join_with [Lit (CHR ''/'')] ps) s = match_comps cs (split_on (CHR ''/'') s)"
  using assms
proof (induction ps arbitrary: cs s)
  case (Cons p ps)
  then obtain c cs' where c: "comp_of p = Some c" and cs': "all_some (map comp_of ps) = Some cs'" and cs: "cs = c # cs'"
    by (cases "comp_of p") auto
  have lit: "p = map Lit t \<and> CHR ''/'' \<notin> set t" if "c = LitC t" for t
    using comp_of_LitC [of p t] c that Cons.prems(3) [of p] by auto
  have key: "p = [StrSeg n]" if "c = KeyC n" for n
    using c that comp_of_KeyC by simp
  show ?case
  proof (cases ps)
    case Nil
    then have "cs' = []" using cs' by simp
    show ?thesis
    proof (cases rule: split_cases [of s])
      case one
      then show ?thesis
        using lit key Cons.prems(4) cs Nil \<open>cs' = []\<close> match_last_lits match_key_last
        by (cases c) auto
    next
      case (more a s')
      then show ?thesis
        using lit key Cons.prems(4) cs Nil \<open>cs' = []\<close> match_last_lits [of s] match_key_last_slash [of a]
        by (cases c; cases "split_on (CHR ''/'') s'") auto
    qed
  next
    case (Cons q qs)
    have join: "join_with [Lit (CHR ''/'')] (p # ps) = p @ Lit (CHR ''/'') # join_with [Lit (CHR ''/'')] ps"
      using Cons by simp
    obtain d ds where cs'': "cs' = d # ds" using cs' Cons by (cases "comp_of q") auto
    show ?thesis
    proof (cases rule: split_cases [of s])
      case one
      then show ?thesis
        unfolding join using lit key cs cs'' match_lits_no_slash match_key_no_slash
        by (cases c) auto
    next
      case (more a s')
      have IH: "match_segs (join_with [Lit (CHR ''/'')] ps) s' = match_comps cs' (split_on (CHR ''/'') s')"
        by (rule Cons.IH) (use cs' Cons Cons.prems more in auto)
      show ?thesis
        unfolding join using lit key cs more IH match_lits_slash match_key_slash [of a]
        by (cases c) auto
    qed
  qed
qed simp

text \<open>C29. On a rule whose keywords are whole components of the path, the regular expression matches a
  path exactly when its components are those of the rule one by one, a keyword standing for any
  component that is not empty, and the groups are these components.\<close>

theorem rule_match_components:
  assumes "comps_of (ur_segments r) = Some cs" and "CHR 0x0A \<notin> set path"
  shows "rule_match r path = match_comps cs (split_on (CHR ''/'') path)"
proof -
  have "match_segs (join_with [Lit (CHR ''/'')] (split_on (Lit (CHR ''/'')) (ur_segments r))) path =
      match_comps cs (split_on (CHR ''/'') path)"
    by (rule match_pieces) (use assms in \<open>auto simp: comps_of_def dest: split_on_parts\<close>)
  then show ?thesis by (simp add: rule_match_def join_split_on)
qed

section \<open>From a view to its URL and back\<close>

fun fill_comps :: "comp list \<Rightarrow> string list \<Rightarrow> string list" where
  "fill_comps [] args = []"
| "fill_comps (LitC t # cs) args = t # fill_comps cs args"
| "fill_comps (KeyC n # cs) [] = [] # fill_comps cs []"
| "fill_comps (KeyC n # cs) (a # args) = a # fill_comps cs args"

fun comp_keys :: "comp list \<Rightarrow> string list" where
  "comp_keys [] = []"
| "comp_keys (LitC t # cs) = comp_keys cs"
| "comp_keys (KeyC n # cs) = n # comp_keys cs"

text \<open>No path of the first rule is matched by the second.\<close>

fun apart :: "comp list \<Rightarrow> comp list \<Rightarrow> bool" where
  "apart [] [] = False"
| "apart [] (d # ds) = True"
| "apart (c # cs) [] = True"
| "apart (LitC t # cs) (LitC u # ds) = (t \<noteq> u \<or> apart cs ds)"
| "apart (LitC t # cs) (KeyC n # ds) = (t = [] \<or> apart cs ds)"
| "apart (KeyC n # cs) (LitC u # ds) = (u = [] \<or> apart cs ds)"
| "apart (KeyC n # cs) (KeyC m # ds) = apart cs ds"

definition url_plain :: "char \<Rightarrow> bool" where
  "url_plain c \<longleftrightarrow> c \<notin> {CHR ''?'', CHR ''#'', CHR 0x09, CHR 0x0A, CHR 0x0D}"

definition good_arg :: "string \<Rightarrow> bool" where
  "good_arg a \<longleftrightarrow> a \<noteq> [] \<and> CHR ''/'' \<notin> set a \<and> list_all url_plain a"

lemma match_fill:
  "list_all (\<lambda>a. a \<noteq> []) args \<Longrightarrow> length args = length (comp_keys cs) \<Longrightarrow>
   match_comps cs (fill_comps cs args) = Some (zip (comp_keys cs) args)"
  by (induction cs args rule: fill_comps.induct) auto

lemma apart_none:
  "apart cs ds \<Longrightarrow> list_all (\<lambda>a. a \<noteq> []) args \<Longrightarrow> length args = length (comp_keys cs) \<Longrightarrow>
   match_comps ds (fill_comps cs args) = None"
proof (induction cs ds arbitrary: args rule: apart.induct)
  case (3 c cs)
  then show ?case by (cases c; cases args) auto
next
  case (6 n cs u ds)
  then show ?case by (cases args) auto
next
  case (7 n cs m ds)
  then show ?case by (cases args) auto
qed auto

fun seg_fmt :: "segment \<Rightarrow> fmt" where
  "seg_fmt (Lit c) = FChar c"
| "seg_fmt (StrSeg n) = FKey n"
| "seg_fmt (PathSeg n) = FKey n"

definition plain_comp :: "comp \<Rightarrow> bool" where
  "plain_comp c = (case c of LitC t \<Rightarrow> list_all url_plain t | KeyC n \<Rightarrow> True)"

definition rule_ok :: "url_rule \<Rightarrow> bool" where
  "rule_ok r =
     (case comps_of (ur_segments r) of
        None \<Rightarrow> False
      | Some cs \<Rightarrow>
          list_all plain_comp cs \<and> ur_format r = map seg_fmt (ur_segments r) \<and>
          ur_keywords r = comp_keys cs \<and> fmt_keys (ur_format r) = comp_keys cs \<and> distinct (comp_keys cs) \<and>
          (case cs of LitC [] # c # cs' \<Rightarrow> c \<noteq> LitC [] \<or> cs' = [] | _ \<Rightarrow> False))"

definition flat_rules :: "route_plugin \<Rightarrow> (string \<times> url_rule) list" where
  "flat_rules pl = concat (map (\<lambda>(f, rules). map (Pair f) rules) (rp_rules pl))"

fun earlier_apart :: "comp list list \<Rightarrow> (string \<times> url_rule) list \<Rightarrow> bool" where
  "earlier_apart seen [] = True"
| "earlier_apart seen ((f, r) # rules) =
     (case comps_of (ur_segments r) of
        None \<Rightarrow> False
      | Some cs \<Rightarrow> list_all (apart cs) seen \<and> earlier_apart (cs # seen) rules)"

definition routes_ok :: "route_plugin \<Rightarrow> bool" where
  "routes_ok pl \<longleftrightarrow>
     rp_base_url pl = [] \<and> distinct (map fst (rp_rules pl)) \<and>
     list_all (\<lambda>(f, rules). length rules = 1 \<and> list_all rule_ok rules) (rp_rules pl) \<and>
     earlier_apart [] (flat_rules pl)"

lemma fill_lits: "fill_args (map FChar t @ f) args = map_option (append t) (fill_args f args)"
  by (induction t) (auto simp: option.map_comp comp_def option.map_ident)

lemma map_seg_fmt_lits: "map seg_fmt (map Lit t) = map FChar t"
  by simp

lemma fill_pieces:
  assumes "ps \<noteq> []" and "all_some (map comp_of ps) = Some cs" and "length args = length (comp_keys cs)"
  shows "fill_args (map seg_fmt (join_with [Lit (CHR ''/'')] ps)) args = Some (join_with ''/'' (fill_comps cs args))"
  using assms
proof (induction ps arbitrary: cs args)
  case (Cons p ps)
  then obtain c cs' where c: "comp_of p = Some c" and cs': "all_some (map comp_of ps) = Some cs'" and cs: "cs = c # cs'"
    by (cases "comp_of p") auto
  have lit: "map seg_fmt p = map FChar t" if "c = LitC t" for t
    using comp_of_LitC [of p t] c that by simp
  have key: "p = [StrSeg n]" if "c = KeyC n" for n
    using c that comp_of_KeyC by simp
  show ?case
  proof (cases ps)
    case Nil
    then have "cs' = []" using cs' by simp
    then show ?thesis
      using lit key cs Nil Cons.prems(3) fill_lits [of _ "[]"]
      by (cases c; cases args) auto
  next
    case (Cons q qs)
    have join: "join_with [Lit (CHR ''/'')] (p # ps) = p @ Lit (CHR ''/'') # join_with [Lit (CHR ''/'')] ps"
      using Cons by simp
    obtain d ds where cs'': "cs' = d # ds" using cs' Cons by (cases "comp_of q") auto
    have joined: "join_with ''/'' (x # fill_comps cs' as) = x @ CHR ''/'' # join_with ''/'' (fill_comps cs' as)" for x as
      unfolding cs'' by (cases d; cases as) auto
    have IH: "fill_args (map seg_fmt (join_with [Lit (CHR ''/'')] ps)) as = Some (join_with ''/'' (fill_comps cs' as))"
      if "length as = length (comp_keys cs')" for as
      by (rule Cons.IH) (use cs' Cons that in auto)
    show ?thesis
    proof (cases c)
      case (LitC t)
      then show ?thesis
        unfolding join using lit IH [of args] Cons.prems(3) cs joined by (simp add: fill_lits)
    next
      case (KeyC n)
      then obtain a as where as: "args = a # as" using Cons.prems(3) cs by (cases args) auto
      then show ?thesis
        unfolding join using key KeyC IH [of as] Cons.prems(3) cs joined by simp
    qed
  qed
qed simp

lemma takeWhile_all: "list_all P s \<Longrightarrow> takeWhile P s = s"
  by (induction s) auto

lemma urlsplit_plain:
  assumes "list_all url_plain (CHR ''/'' # s)" and "\<not> startswith s ''/''"
  shows "urlsplit_path (CHR ''/'' # s) = Inr (CHR ''/'' # s)"
proof -
  have "lstrip (\<lambda>c. (of_char c :: nat) \<le> 32) (CHR ''/'' # s) = CHR ''/'' # s" by (simp add: lstrip_def)
  moreover have "filter (\<lambda>c. c \<notin> {CHR 0x09, CHR 0x0A, CHR 0x0D}) (CHR ''/'' # s) = CHR ''/'' # s"
    using assms(1) by (auto simp: filter_id_conv list_all_iff url_plain_def)
  moreover have "cut_scheme (CHR ''/'' # s) = CHR ''/'' # s" by (simp add: cut_scheme_def ascii_letter_def Let_def)
  moreover have "cut_netloc (CHR ''/'' # s) = Inr (CHR ''/'' # s)" using assms(2) by (simp add: cut_netloc_def)
  moreover have "takeWhile (\<lambda>c. c \<noteq> CHR ''#'') (CHR ''/'' # s) = CHR ''/'' # s"
    by (rule takeWhile_all) (use assms(1) in \<open>auto simp: list_all_iff url_plain_def\<close>)
  moreover have "takeWhile (\<lambda>c. c \<noteq> CHR ''?'') (CHR ''/'' # s) = CHR ''/'' # s"
    by (rule takeWhile_all) (use assms(1) in \<open>auto simp: list_all_iff url_plain_def\<close>)
  ultimately show ?thesis unfolding urlsplit_path_def Let_def by (simp only: bindR_Inr)
qed

lemma all_some_map: "all_some (map f xs) = Some ys \<Longrightarrow> y \<in> set ys \<Longrightarrow> \<exists>x \<in> set xs. f x = Some y"
proof (induction xs arbitrary: ys)
  case (Cons x xs)
  then show ?case by (cases "f x") auto
qed simp

lemma comps_of_no_slash: "comps_of p = Some cs \<Longrightarrow> LitC t \<in> set cs \<Longrightarrow> CHR ''/'' \<notin> set t"
  using split_on_parts [of _ "Lit (CHR ''/'')" p] comp_of_LitC
  by (fastforce simp: comps_of_def dest!: all_some_map)

definition clean_part :: "string \<Rightarrow> bool" where
  "clean_part x \<longleftrightarrow> CHR ''/'' \<notin> set x \<and> list_all url_plain x"

lemma fill_comps_clean:
  assumes "\<And>t. LitC t \<in> set cs \<Longrightarrow> clean_part t" and "list_all good_arg args" and "length args = length (comp_keys cs)"
  shows "list_all clean_part (fill_comps cs args)"
  using assms by (induction cs args rule: fill_comps.induct) (auto simp: good_arg_def clean_part_def)

lemma join_clean: "list_all clean_part xs \<Longrightarrow> list_all url_plain (join_with ''/'' xs)"
  by (induction "''/''" xs rule: join_with.induct) (auto simp: clean_part_def url_plain_def)

lemma make_path_args:
  assumes "rule_ok r" and "comps_of (ur_segments r) = Some cs" and "length args = length (comp_keys cs)"
  shows "make_path r args [] = Some (join_with ''/'' (fill_comps cs args))"
proof -
  have fmt: "ur_format r = map seg_fmt (join_with [Lit (CHR ''/'')] (split_on (Lit (CHR ''/'')) (ur_segments r)))"
    using assms(1,2) by (simp add: rule_ok_def)
  have "fill_args (ur_format r) args = Some (join_with ''/'' (fill_comps cs args))"
    unfolding fmt by (rule fill_pieces) (use assms in \<open>simp_all add: comps_of_def\<close>)
  moreover have "fill_kwargs f [] = fill_args f []" for f
    by (induction f) (auto split: fmt.splits, (case_tac a; simp)+)
  ultimately show ?thesis by (cases args) (simp_all add: make_path_def option.map_ident)
qed

lemma fill_kwargs_zip:
  assumes "distinct (fmt_keys f)" and "length args = length (fmt_keys f)"
    and "\<And>n v. (n, v) \<in> set (zip (fmt_keys f) args) \<Longrightarrow> map_of kw n = Some v"
  shows "fill_kwargs f kw = fill_args f args"
  using assms
proof (induction f args rule: fill_args.induct)
  case (5 n f a args)
  have "map_of kw n = Some a" using 5(4) [of n a] by simp
  moreover have "fill_kwargs f kw = fill_args f args" using 5 by simp
  ultimately show ?case by simp
qed auto

lemma fmt_keys_segs: "fmt_keys (map seg_fmt p) = seg_names p"
  by (induction p rule: seg_names.induct) auto

lemma make_path_kwargs:
  assumes "rule_ok r" and "comps_of (ur_segments r) = Some cs" and "length args = length (comp_keys cs)"
  shows "make_path r [] (zip (comp_keys cs) args) = Some (join_with ''/'' (fill_comps cs args))"
proof (cases "args = []")
  case True
  then show ?thesis using make_path_args [OF assms] by simp
next
  case False
  have r: "ur_keywords r = comp_keys cs" "fmt_keys (ur_format r) = comp_keys cs" "distinct (comp_keys cs)"
    using assms(1,2) by (auto simp: rule_ok_def)
  have all: "filter (\<lambda>(k, v). k \<in> set (ur_keywords r)) (zip (comp_keys cs) args) = zip (comp_keys cs) args"
    "filter (\<lambda>(k, v). k \<notin> set (ur_keywords r)) (zip (comp_keys cs) args) = []"
    by (auto simp: filter_id_conv filter_empty_conv r dest: set_zip_leftD)
  have "fill_kwargs (ur_format r) (zip (comp_keys cs) args) = fill_args (ur_format r) args"
    by (rule fill_kwargs_zip) (use assms(3) r in \<open>auto intro: map_of_is_SomeI\<close>)
  then show ?thesis
    using False make_path_args [OF assms] all by (simp add: make_path_def option.map_ident)
qed

lemma first_some_append:
  "first_some f (xs @ ys) = (case first_some f xs of Some y \<Rightarrow> Some y | None \<Rightarrow> first_some f ys)"
  by (induction xs) (auto split: option.splits)

lemma first_some_map: "first_some f (map g xs) = first_some (\<lambda>x. f (g x)) xs"
  by (induction xs) (auto split: option.splits)

lemma map_option_first_some: "map_option h (first_some f xs) = first_some (\<lambda>x. map_option h (f x)) xs"
  by (induction xs) (auto split: option.splits)

lemma dispatch_flat:
  "route_dispatch pl path =
    (case first_some (\<lambda>(f, r). map_option (Pair f) (rule_match r path)) (flat_rules pl) of
       Some d \<Rightarrow> Inr d | None \<Rightarrow> Inl (Raised ''RoutingError''))"
proof -
  have flat: "first_some (\<lambda>(f, rules). map_option (Pair f) (first_some (\<lambda>r. rule_match r path) rules)) fs =
      first_some (\<lambda>(f, r). map_option (Pair f) (rule_match r path)) (concat (map (\<lambda>(f, rules). map (Pair f) rules) fs))" for fs
    by (induction fs) (auto simp: first_some_append first_some_map map_option_first_some split: option.splits)
  show ?thesis by (simp add: route_dispatch_def flat_rules_def flat)
qed

lemma earlier_apart_split:
  assumes "earlier_apart seen (pre @ (f, r) # post)"
  obtains cs where "comps_of (ur_segments r) = Some cs" "list_all (apart cs) seen"
    "list_all (\<lambda>(g, q). \<exists>ds. comps_of (ur_segments q) = Some ds \<and> apart cs ds) pre"
proof -
  have "\<exists>cs. comps_of (ur_segments r) = Some cs \<and> list_all (apart cs) seen \<and>
      list_all (\<lambda>(g, q). \<exists>ds. comps_of (ur_segments q) = Some ds \<and> apart cs ds) pre"
    using assms
  proof (induction pre arbitrary: seen)
    case Nil
    then show ?case by (auto split: option.splits)
  next
    case (Cons x pre)
    obtain g q where x: "x = (g, q)" by force
    with Cons.prems obtain ds where ds: "comps_of (ur_segments q) = Some ds" "earlier_apart (ds # seen) (pre @ (f, r) # post)"
      by (auto split: option.splits)
    from Cons.IH [OF ds(2)] ds(1) show ?case by (auto simp: x)
  qed
  then show ?thesis using that by blast
qed

lemma routes_run_url:
  assumes "routes_ok pl" and "map_of (rp_rules pl) f = Some [r]"
    and "list_all good_arg args" and "length args = length (ur_keywords r)"
  shows "\<exists>url. url_for pl f args [] = Inr url \<and> url_for pl f [] (zip (ur_keywords r) args) = Inr url \<and>
    route_run pl url = Inr (f, zip (ur_keywords r) args)"
proof -
  have in_rules: "(f, [r]) \<in> set (rp_rules pl)" using assms(2) by (rule map_of_SomeD)
  then have ok: "rule_ok r" using assms(1) by (auto simp: routes_ok_def list_all_iff)
  have "(f, r) \<in> set (flat_rules pl)" using in_rules by (force simp: flat_rules_def)
  then obtain pre post where flat: "flat_rules pl = pre @ (f, r) # post" by (metis split_list)
  moreover have "earlier_apart [] (flat_rules pl)" using assms(1) by (simp add: routes_ok_def)
  ultimately obtain cs where cs: "comps_of (ur_segments r) = Some cs"
      "list_all (\<lambda>(g, q). \<exists>ds. comps_of (ur_segments q) = Some ds \<and> apart cs ds) pre"
    by (auto elim: earlier_apart_split)
  have keys: "ur_keywords r = comp_keys cs" and plain: "list_all plain_comp cs"
    using ok cs(1) by (simp_all add: rule_ok_def)
  have len: "length args = length (comp_keys cs)" using assms(4) keys by simp
  have args: "list_all (\<lambda>a. a \<noteq> []) args" using assms(3) by (auto simp: list_all_iff good_arg_def)
  let ?parts = "fill_comps cs args" and ?path = "join_with ''/'' (fill_comps cs args)"
  obtain c cs' where shape: "cs = LitC [] # c # cs'" "c \<noteq> LitC [] \<or> cs' = []"
    using ok cs(1) by (auto simp: rule_ok_def split: list.splits comp.splits)
  have "clean_part t" if "LitC t \<in> set cs" for t
    using that plain comps_of_no_slash [OF cs(1)] by (auto simp: clean_part_def plain_comp_def list_all_iff)
  then have clean: "list_all clean_part ?parts" using assms(3) len by (rule fill_comps_clean)
  obtain x xs where parts: "?parts = [] # x # xs" "x \<noteq> [] \<or> xs = []"
    using shape len args by (cases c; cases args) auto
  then have path: "?path = CHR ''/'' # join_with ''/'' (x # xs)" by simp
  have "\<not> startswith (join_with ''/'' (x # xs)) ''/''"
    using parts(2) clean parts(1) by (cases x; cases xs) (auto simp: clean_part_def)
  with join_clean [OF clean] have split: "urlsplit_path ?path = Inr ?path"
    unfolding path by (rule urlsplit_plain)
  have comps: "split_on (CHR ''/'') ?path = ?parts"
    by (rule split_join_on) (use clean parts in \<open>auto simp: list_all_iff clean_part_def\<close>)
  have lf: "CHR 0x0A \<notin> set ?path" using join_clean [OF clean] by (auto simp: list_all_iff url_plain_def)
  have "first_some (\<lambda>(f, r). map_option (Pair f) (rule_match r ?path)) pre = None"
    unfolding first_some_None list_all_iff
  proof
    fix gq assume "gq \<in> set pre"
    moreover obtain g q where gq: "gq = (g, q)" by force
    ultimately obtain ds where "comps_of (ur_segments q) = Some ds" "apart cs ds" using cs(2) by (auto simp: list_all_iff)
    then show "(case gq of (f, r) \<Rightarrow> map_option (Pair f) (rule_match r ?path)) = None"
      using rule_match_components [OF _ lf] apart_none [OF _ args len] by (simp add: comps gq)
  qed
  moreover have "rule_match r ?path = Some (zip (comp_keys cs) args)"
    using rule_match_components [OF cs(1) lf] match_fill [OF args len] by (simp add: comps)
  ultimately have "route_dispatch pl ?path = Inr (f, zip (comp_keys cs) args)"
    by (simp add: dispatch_flat flat first_some_append)
  then have "route_run pl ?path = Inr (f, zip (comp_keys cs) args)"
    using path unfolding route_run_def split by simp
  moreover have "url_for pl f args [] = Inr ?path" "url_for pl f [] (zip (comp_keys cs) args) = Inr ?path"
    using assms(1,2) make_path_args [OF ok cs(1) len] make_path_kwargs [OF ok cs(1) len] path
    by (simp_all add: url_for_def url_for_path_def routes_ok_def)
  ultimately show ?thesis by (auto simp: keys)
qed

text \<open>C14. If the rules of a plugin are well formed and apart from each other, the URL made for a view and
  its arguments is dispatched to this view, and the keyword arguments are these arguments: no other view
  takes the URL, in whatever order the rules were registered. It does not matter whether the arguments
  are given by position or by name.\<close>

theorem routes_roundtrip:
  assumes "routes_ok pl" and "map_of (rp_rules pl) f = Some [r]"
    and "list_all good_arg args" and "length args = length (ur_keywords r)"
  shows "\<exists>url. url_for pl f args [] = Inr url \<and> url_for pl f [] (zip (ur_keywords r) args) = Inr url \<and>
    route_run pl url = Inr (f, zip (ur_keywords r) args)"
  using assms by (rule routes_run_url)

text \<open>Rules from a table of views and patterns, in the order of their decorators.\<close>

definition routes :: "(string \<times> string) list \<Rightarrow> route_plugin res" where
  "routes table = foldR (\<lambda>(f, p). add_route f p) table \<lparr>rp_rules = [], rp_base_url = []\<rparr>"

definition the_plugin :: "(string \<times> string) list \<Rightarrow> route_plugin" where
  "the_plugin table = (case routes table of Inr pl \<Rightarrow> pl | Inl _ \<Rightarrow> \<lparr>rp_rules = [], rp_base_url = []\<rparr>)"

text \<open>Two rules of the Tidal plugin.\<close>

definition demo_routes :: "(string \<times> string) list" where
  "demo_routes =
     [(''artist_view'', ''/artist/<artist_id>''), (''featured'', ''/featured/<group>/<content_type>'')]"

theorem rule_match_components_witness:
  "map_sum id (\<lambda>r. comps_of (ur_segments r)) (UrlRule_init ''/artist/<id>'') = Inr (Some [LitC [], LitC ''artist'', KeyC ''id'']) \<and>
   map_sum id (\<lambda>r. rule_match r ''/artist/42'') (UrlRule_init ''/artist/<id>'') = Inr (Some [(''id'', ''42'')])"
proof -
  have c: "map_sum id (\<lambda>r. comps_of (ur_segments r)) (UrlRule_init ''/artist/<id>'') = Inr (Some [LitC [], LitC ''artist'', KeyC ''id''])"
    by code_simp
  then obtain r where r: "UrlRule_init ''/artist/<id>'' = Inr r" "comps_of (ur_segments r) = Some [LitC [], LitC ''artist'', KeyC ''id'']"
    by (cases "UrlRule_init ''/artist/<id>''") auto
  have "match_comps [LitC [], LitC ''artist'', KeyC ''id''] (split_on (CHR ''/'') ''/artist/42'') = Some [(''id'', ''42'')]"
    by code_simp
  with rule_match_components [OF r(2), of "''/artist/42''"] c show ?thesis by (simp add: r(1))
qed

theorem routes_roundtrip_witness:
  "routes_ok (the_plugin demo_routes) \<and>
   (\<exists>url. url_for (the_plugin demo_routes) ''featured'' [''new'', ''albums''] [] = Inr url \<and>
      route_run (the_plugin demo_routes) url = Inr (''featured'', [(''group'', ''new''), (''content_type'', ''albums'')]))"
proof -
  have ok: "routes_ok (the_plugin demo_routes)" by code_simp
  have r: "map_option (map ur_keywords) (map_of (rp_rules (the_plugin demo_routes)) ''featured'') = Some [[''group'', ''content_type'']]"
    by code_simp
  then obtain r where "map_of (rp_rules (the_plugin demo_routes)) ''featured'' = Some [r]" "ur_keywords r = [''group'', ''content_type'']"
    by auto
  moreover have "list_all good_arg [''new'', ''albums'']" by code_simp
  ultimately show ?thesis using ok routes_roundtrip [OF ok, of "''featured''" r "[''new'', ''albums'']"] by auto
qed

text \<open>A keyword with a type swallows the text before it, back to the keyword before it.\<close>

lemma typed_keyword_swallows:
  "fmt_keys (url_format ''/a/<x>/<path:y>'') = [''y''] \<and> seg_names (url_segments ''/a/<x>/<path:y>'') = [''x'', ''y'']"
  by code_simp

text \<open>With the empty base URL of all plugins \<open>route_for\<close> raises.\<close>

lemma route_for_empty_base: "rp_base_url pl = [] \<Longrightarrow> route_for pl path = Inl ValueError"
  by (simp add: route_for_def)

end
