(* ===== verification/Service.thy ===== *)
theory Service
  imports PlgUtils Routing
begin

text \<open>
  What the plugins of the streaming services have in common: the object of \<open>pycommon/xbmcplug.py\<close> that
  collects the entries, the objects of a service as items of a view, and the frame of a \<open>browse\<close> request:
  the identifier of a directory is the prefix of the plugin and a URL, which is dispatched to a view. The
  locale \<open>routed_service\<close> states what a plugin promises: every directory that a view lists was made for a
  view of the plugin with good arguments; from it follows that browsing always leads on.
\<close>

section \<open>Collecting entries\<close>

text \<open>The plugin object gets the routes as an optional argument, and one plugin does not pass it.\<close>

record xbmc_plugin =
  xp_idprefix :: string
  xp_routeplug :: "route_plugin option"
  xp_objid :: string

record svc_env =
  se_httphp :: string
  se_pathprefix :: string
  se_mime :: string
  se_samplerate :: string

definition xp_url :: "xbmc_plugin \<Rightarrow> string \<Rightarrow> string list \<Rightarrow> string res" where
  "xp_url xp func args =
     (case xp_routeplug xp of None \<Rightarrow> Inl AttributeError | Some pl \<Rightarrow> url_for pl func args [])"

definition xp_entry :: "xbmc_plugin \<Rightarrow> string \<Rightarrow> string \<Rightarrow> entry" where
  "xp_entry xp title url = direntry (xp_idprefix xp @ url) (xp_objid xp) title None None None ''1'' None None"

text \<open>\<open>add_directory\<close> with a view\<close>

definition add_view :: "xbmc_plugin \<Rightarrow> string \<Rightarrow> string \<Rightarrow> entry res" where
  "add_view xp title func = bindR (xp_url xp func []) (\<lambda>url. Inr (xp_entry xp title url))"

text \<open>\<open>add_directory\<close> with a URL that \<open>plugin.url_for\<close> made, from positional or named arguments\<close>

definition add_url :: "xbmc_plugin \<Rightarrow> route_plugin \<Rightarrow> string \<Rightarrow> string \<Rightarrow> string list \<Rightarrow> (string \<times> string) list \<Rightarrow> entry res" where
  "add_url xp pl title func args kwargs =
     bindR (url_for pl func args kwargs) (\<lambda>url. Inr (xp_entry xp title url))"

text \<open>\<open>view(items, urls_from_id(func, items))\<close>\<close>

definition xp_items :: "xbmc_plugin \<Rightarrow> string \<Rightarrow> item_model list \<Rightarrow> entry list res" where
  "xp_items xp func items =
     bindR (urls_from_id (\<lambda>i. xp_url xp func [i]) items) (\<lambda>urls.
       Inr (view (xp_idprefix xp) (xp_objid xp) items urls []))"

definition xp_tracks :: "xbmc_plugin \<Rightarrow> svc_env \<Rightarrow> track_model list \<Rightarrow> entry list res" where
  "xp_tracks xp env tracks =
     trackentries (se_mime env) (se_samplerate env) (se_httphp env) (se_pathprefix env) (xp_objid xp) tracks"

text \<open>Listings one after the other.\<close>

fun concatR :: "'a list res list \<Rightarrow> 'a list res" where
  "concatR [] = Inr []"
| "concatR (m # ms) = bindR m (\<lambda>xs. bindR (concatR ms) (\<lambda>ys. Inr (xs @ ys)))"

section \<open>Objects as items of a view\<close>

definition artist_item :: "artist_model \<Rightarrow> item_model" where
  "artist_item a =
     \<lparr>it_id = art_id a, it_name = art_name a, it_maxsamprate = ''44.1'', it_maxbitdepth = ''16'',
      it_image = art_image a, it_upnpclass = Some ''object.container.person.musicArtist'', it_artname = None,
      it_description = None\<rparr>"

definition album_item :: "album_model \<Rightarrow> item_model" where
  "album_item a =
     \<lparr>it_id = alb_id a, it_name = alb_name a, it_maxsamprate = alb_maxsamprate a,
      it_maxbitdepth = alb_maxbitdepth a, it_image = alb_image a,
      it_upnpclass = Some ''object.container.album.musicAlbum'', it_artname = map_option art_name (alb_artist a),
      it_description = alb_description a\<rparr>"

definition playlist_item :: "playlist_model \<Rightarrow> item_model" where
  "playlist_item p =
     \<lparr>it_id = pl_id p, it_name = pl_name p, it_maxsamprate = ''44.1'', it_maxbitdepth = ''16'',
      it_image = pl_image p, it_upnpclass = Some ''object.container.album'',
      it_artname = map_option art_name (pl_artist p), it_description = pl_description p\<rparr>"

text \<open>Genres, categories and users are containers with a name.\<close>

definition plain_item :: "string \<Rightarrow> string \<Rightarrow> string option \<Rightarrow> item_model" where
  "plain_item i nm img =
     \<lparr>it_id = i, it_name = nm, it_maxsamprate = ''44.1'', it_maxbitdepth = ''16'', it_image = img,
      it_upnpclass = Some ''object.container'', it_artname = None, it_description = None\<rparr>"

section \<open>Browse\<close>

text \<open>\<open>re.match('.*\$(.+)$', idpath)\<close>: what follows the last dollar sign that something follows.\<close>

definition meta_track_id :: "string \<Rightarrow> string option" where
  "meta_track_id idpath =
     (let line = takeWhile (\<lambda>c. c \<noteq> CHR 0x0A) idpath in
      if drop (length line) idpath \<in> {[], [CHR 0x0A]}
      then map_option (\<lambda>i. drop (i + 1) line) (py_rfind (butlast line) ''$'') else None)"

text \<open>The frame: the checks, then the track of the identifier or the view of the URL. Some views fetch page
  after page, and \<open>None\<close> is a view that never returns.\<close>

definition svc_browse ::
  "string \<Rightarrow> route_plugin \<Rightarrow> unit res \<Rightarrow> (string \<Rightarrow> string \<Rightarrow> entry list res) \<Rightarrow>
   (string \<Rightarrow> string \<Rightarrow> (string \<times> string) list \<Rightarrow> entry list res option) \<Rightarrow> (string \<rightharpoonup> string) \<Rightarrow>
   entry list res option" where
  "svc_browse prefix pl maybelogin meta views a =
     (case a ''objid'' of
        None \<Rightarrow> Some (Inl (Raised ''No objid in args''))
      | Some objid \<Rightarrow>
          let bflg = (case a ''flag'' of Some f \<Rightarrow> f | None \<Rightarrow> ''children'') in
          if \<not> startswith objid prefix then Some (Inl (Raised ''bad objid''))
          else
            case maybelogin of
              Inl e \<Rightarrow> Some (Inl e)
            | Inr _ \<Rightarrow>
                let idpath = replace_first prefix [] objid in
                if bflg = ''meta'' then Some (case meta_track_id idpath of Some t \<Rightarrow> meta objid t | None \<Rightarrow> Inr [])
                else case route_run pl idpath of
                       Inl e \<Rightarrow> Some (Inl e)
                     | Inr (f, kwargs) \<Rightarrow> views objid f kwargs)"

text \<open>What a view does with the keyword arguments of its URL, and with a result that may not come.\<close>

definition kw_arg :: "(string \<times> string) list \<Rightarrow> string \<Rightarrow> string res" where
  "kw_arg kwargs k = (case map_of kwargs k of Some v \<Rightarrow> Inr v | None \<Rightarrow> Inl TypeError)"

definition thenR :: "'a res option \<Rightarrow> ('a \<Rightarrow> 'b res) \<Rightarrow> 'b res option" where
  "thenR m f = map_option (\<lambda>r. bindR r f) m"

section \<open>Browsing leads on\<close>

text \<open>A directory made for a view of the plugin with good arguments.\<close>

definition made_for :: "route_plugin \<Rightarrow> string \<Rightarrow> entry \<Rightarrow> bool" where
  "made_for pl prefix e \<longleftrightarrow>
     (\<exists>f r args url. map_of (rp_rules pl) f = Some [r] \<and> list_all good_arg args \<and>
        length args = length (ur_keywords r) \<and> url_for pl f args [] = Inr url \<and> e ''id'' = Some (prefix @ url))"

definition is_dir :: "entry \<Rightarrow> bool" where
  "is_dir e \<longleftrightarrow> e ''tp'' = Some ''ct''"

definition dirs_made_for :: "route_plugin \<Rightarrow> string \<Rightarrow> entry list \<Rightarrow> bool" where
  "dirs_made_for pl prefix es \<longleftrightarrow> list_all (\<lambda>e. is_dir e \<longrightarrow> made_for pl prefix e) es"

text \<open>What a request for the directory does: it runs this view with these arguments.\<close>

definition dispatched_to :: "route_plugin \<Rightarrow> string \<Rightarrow> entry \<Rightarrow> string \<Rightarrow> (string \<times> string) list \<Rightarrow> bool" where
  "dispatched_to pl prefix e f kwargs \<longleftrightarrow>
     (\<exists>i. e ''id'' = Some i \<and> startswith i prefix \<and> route_run pl (replace_first prefix [] i) = Inr (f, kwargs))"

lemma made_for_dispatched:
  assumes "routes_ok pl" and "made_for pl prefix e"
  obtains f r args where "map_of (rp_rules pl) f = Some [r]" "list_all good_arg args"
    "dispatched_to pl prefix e f (zip (ur_keywords r) args)"
proof -
  from assms(2) obtain f r args url where f: "map_of (rp_rules pl) f = Some [r]" "list_all good_arg args"
      "length args = length (ur_keywords r)" "url_for pl f args [] = Inr url" "e ''id'' = Some (prefix @ url)"
    by (auto simp: made_for_def)
  from routes_run_url [OF assms(1) f(1,2,3)] f(4)
  have "route_run pl url = Inr (f, zip (ur_keywords r) args)" by auto
  then have "dispatched_to pl prefix e f (zip (ur_keywords r) args)" using f(5) by (simp add: dispatched_to_def)
  with f(1,2) show ?thesis using that by blast
qed

locale routed_service =
  fixes pl :: route_plugin and prefix :: string
    and good :: "'api \<Rightarrow> bool"
    and views :: "'api \<Rightarrow> string \<Rightarrow> string \<Rightarrow> (string \<times> string) list \<Rightarrow> entry list res option"
  assumes routes: "routes_ok pl"
    and lists: "good api \<Longrightarrow> views api objid f kwargs = Some (Inr es) \<Longrightarrow> list_all (\<lambda>(k, v). good_arg v) kwargs \<Longrightarrow>
      dirs_made_for pl prefix es"
begin

lemma listing_dispatched:
  assumes "good api" and "views api objid f kwargs = Some (Inr es)" and "list_all (\<lambda>(k, v). good_arg v) kwargs"
    and "e \<in> set es" and "is_dir e"
  shows "\<exists>g kw. map_of (rp_rules pl) g \<noteq> None \<and> list_all (\<lambda>(k, v). good_arg v) kw \<and> dispatched_to pl prefix e g kw"
proof -
  have "made_for pl prefix e"
    using lists [OF assms(1-3)] assms(4,5) by (auto simp: dirs_made_for_def list_all_iff)
  from made_for_dispatched [OF routes this] obtain g r args where
    g: "map_of (rp_rules pl) g = Some [r]" "list_all good_arg args" "dispatched_to pl prefix e g (zip (ur_keywords r) args)" .
  have "list_all (\<lambda>(k, v). good_arg v) (zip (ur_keywords r) args)"
    using g(2) by (auto simp: list_all_iff dest: set_zip_rightD)
  with g show ?thesis by auto
qed

text \<open>Directories that can be reached from the root by requests for what was listed before.\<close>

inductive reached :: "'api \<Rightarrow> entry \<Rightarrow> bool" for api where
  at_root: "views api objid f [] = Some (Inr es) \<Longrightarrow> e \<in> set es \<Longrightarrow> is_dir e \<Longrightarrow> reached api e"
| below: "reached api e \<Longrightarrow> dispatched_to pl prefix e f kwargs \<Longrightarrow> e ''id'' = Some objid \<Longrightarrow>
    views api objid f kwargs = Some (Inr es) \<Longrightarrow> e' \<in> set es \<Longrightarrow> is_dir e' \<Longrightarrow> reached api e'"

lemma dispatched_unique:
  "dispatched_to pl prefix e f kw \<Longrightarrow> dispatched_to pl prefix e g kw' \<Longrightarrow> f = g \<and> kw = kw'"
  by (auto simp: dispatched_to_def)

theorem reached_dispatched:
  assumes "good api" and "reached api e"
  shows "\<exists>g kw. map_of (rp_rules pl) g \<noteq> None \<and> list_all (\<lambda>(k, v). good_arg v) kw \<and> dispatched_to pl prefix e g kw"
  using assms(2)
proof induction
  case (at_root objid f es e)
  show ?case by (rule listing_dispatched [OF assms(1) at_root(1) _ at_root(2,3)]) simp
next
  case (below e f kwargs objid es e')
  then have "list_all (\<lambda>(k, v). good_arg v) kwargs" using dispatched_unique by blast
  then show ?case by (rule listing_dispatched [OF assms(1) below(4) _ below(5,6)])
qed

end

text \<open>What leads on: a browse request with the identifier of the directory runs a view of the plugin.\<close>

definition leads_on ::
  "string \<Rightarrow> route_plugin \<Rightarrow> (string \<Rightarrow> string \<Rightarrow> entry list res) \<Rightarrow>
   (string \<Rightarrow> string \<Rightarrow> (string \<times> string) list \<Rightarrow> entry list res option) \<Rightarrow> entry \<Rightarrow> bool" where
  "leads_on prefix pl meta views e \<longleftrightarrow>
     (\<exists>i g kw. e ''id'' = Some i \<and> map_of (rp_rules pl) g \<noteq> None \<and>
        route_run pl (replace_first prefix '''' i) = Inr (g, kw) \<and>
        svc_browse prefix pl (Inr ()) meta views [''objid'' \<mapsto> i] = views i g kw)"

lemma dispatched_leads_on:
  "dispatched_to pl prefix e g kw \<Longrightarrow> map_of (rp_rules pl) g \<noteq> None \<Longrightarrow> leads_on prefix pl meta views e"
proof -
  assume d: "dispatched_to pl prefix e g kw" and g: "map_of (rp_rules pl) g \<noteq> None"
  from d obtain i where i: "e ''id'' = Some i" "startswith i prefix" "route_run pl (replace_first prefix '''' i) = Inr (g, kw)"
    by (auto simp: dispatched_to_def)
  then have "svc_browse prefix pl (Inr ()) meta views [''objid'' \<mapsto> i] = views i g kw"
    by (simp add: svc_browse_def)
  with i g show "leads_on prefix pl meta views e" unfolding leads_on_def by blast
qed

context routed_service
begin

corollary reached_leads_on:
  assumes "good api" and "reached api e"
  shows "leads_on prefix pl meta (views api) e"
  using reached_dispatched [OF assms] dispatched_leads_on by blast

end

section \<open>Listings\<close>

text \<open>The keywords of the one rule of a view.\<close>

definition view_keys :: "route_plugin \<Rightarrow> string \<Rightarrow> string list option" where
  "view_keys pl f = (case map_of (rp_rules pl) f of Some [r] \<Rightarrow> Some (ur_keywords r) | _ \<Rightarrow> None)"

definition lists_ok :: "route_plugin \<Rightarrow> string \<Rightarrow> entry list res \<Rightarrow> bool" where
  "lists_ok pl prefix m \<longleftrightarrow> (\<forall>es. m = Inr es \<longrightarrow> dirs_made_for pl prefix es)"

definition routed :: "route_plugin \<Rightarrow> string \<Rightarrow> xbmc_plugin \<Rightarrow> bool" where
  "routed pl prefix xp \<longleftrightarrow> routes_ok pl \<and> xp_idprefix xp = prefix \<and> xp_routeplug xp = Some pl"

named_theorems listings "listings of directories that were made for views"

lemma view_keys_Some: "view_keys pl f = Some ks \<longleftrightarrow> (\<exists>r. map_of (rp_rules pl) f = Some [r] \<and> ur_keywords r = ks)"
  by (auto simp: view_keys_def split: option.splits list.splits)

lemma url_made_for:
  assumes "routes_ok pl" and "view_keys pl f = Some ks" and "list_all good_arg args" and "length args = length ks"
  obtains url where "url_for pl f args [] = Inr url" "url_for pl f [] (zip ks args) = Inr url"
    "\<And>e. e ''id'' = Some (prefix @ url) \<Longrightarrow> made_for pl prefix e"
proof -
  obtain r where r: "map_of (rp_rules pl) f = Some [r]" "ur_keywords r = ks"
    using assms(2) by (auto simp: view_keys_Some)
  from routes_run_url [OF assms(1) r(1) assms(3)] r(2) assms(4)
  obtain url where "url_for pl f args [] = Inr url" "url_for pl f [] (zip ks args) = Inr url" by auto
  moreover from this r assms have "made_for pl prefix e" if "e ''id'' = Some (prefix @ url)" for e
    using that unfolding made_for_def by blast
  ultimately show ?thesis using that by blast
qed

lemma lists_Nil [listings]: "lists_ok pl prefix (Inr [])"
  by (simp add: lists_ok_def dirs_made_for_def)

lemma lists_Inl [listings]: "lists_ok pl prefix (Inl e)"
  by (simp add: lists_ok_def)

lemma lists_bind [listings]: "(\<And>x. m = Inr x \<Longrightarrow> lists_ok pl prefix (f x)) \<Longrightarrow> lists_ok pl prefix (bindR m f)"
  by (auto simp: lists_ok_def bindR_eq_Inr)

lemma lists_concat [listings]: "list_all (lists_ok pl prefix) ms \<Longrightarrow> lists_ok pl prefix (concatR ms)"
proof (induction ms)
  case (Cons m ms)
  show ?case unfolding lists_ok_def
  proof (intro allI impI)
    fix es assume "concatR (m # ms) = Inr es"
    then obtain xs ys where "m = Inr xs" "concatR ms = Inr ys" "es = xs @ ys" by (auto simp: bindR_eq_Inr)
    moreover from Cons have "lists_ok pl prefix m" "lists_ok pl prefix (concatR ms)" by simp_all
    ultimately show "dirs_made_for pl prefix es" by (simp add: lists_ok_def dirs_made_for_def)
  qed
qed (simp add: lists_Nil)

lemma mapR_elem: "mapR f xs = Inr ys \<Longrightarrow> y \<in> set ys \<Longrightarrow> \<exists>x \<in> set xs. f x = Inr y"
  by (induction xs arbitrary: ys) (auto simp: bindR_eq_Inr)

lemma mapR_all:
  assumes "mapR f xs = Inr ys" and "\<And>x y. x \<in> set xs \<Longrightarrow> f x = Inr y \<Longrightarrow> P y"
  shows "list_all P ys"
  unfolding list_all_iff using mapR_elem [OF assms(1)] assms(2) by blast

lemma xp_entry_id: "xp_entry xp title url ''id'' = Some (xp_idprefix xp @ url)"
  by (simp add: xp_entry_def)

lemma lists_views [listings]:
  assumes "routed pl prefix xp" and "list_all (\<lambda>(t, f). view_keys pl f = Some []) tfs"
  shows "lists_ok pl prefix (mapR (\<lambda>(t, f). add_view xp t f) tfs)"
  unfolding lists_ok_def dirs_made_for_def
proof (intro allI impI)
  fix es assume "mapR (\<lambda>(t, f). add_view xp t f) tfs = Inr es"
  then show "list_all (\<lambda>e. is_dir e \<longrightarrow> made_for pl prefix e) es"
  proof (rule mapR_all)
    fix tf e assume "tf \<in> set tfs" "(case tf of (t, f) \<Rightarrow> add_view xp t f) = Inr e"
    moreover obtain t f where tf: "tf = (t, f)" by force
    ultimately have f: "view_keys pl f = Some []" "add_view xp t f = Inr e" using assms(2) by (auto simp: list_all_iff)
    have "routes_ok pl" "list_all good_arg []" "length ([] :: string list) = length ([] :: string list)"
      using assms(1) by (simp_all add: routed_def)
    with f(1) obtain url where "url_for pl f [] [] = Inr url"
        "\<And>e. e ''id'' = Some (prefix @ url) \<Longrightarrow> made_for pl prefix e"
      using url_made_for [where prefix = prefix and args = "[]"] by metis
    then show "is_dir e \<longrightarrow> made_for pl prefix e"
      using assms(1) f(2) by (auto simp: add_view_def xp_url_def routed_def xp_entry_id)
  qed
qed

text \<open>Directories given as title, view, keyword names and values; positional arguments are the same.\<close>

lemma lists_given_urls:
  assumes "routes_ok pl" and "xp_idprefix xp = prefix"
    and "list_all (\<lambda>(t, f, ks, args). view_keys pl f = Some ks \<and> length args = length ks \<and> list_all good_arg args) dirs"
  shows "lists_ok pl prefix (mapR (\<lambda>(t, f, ks, args). add_url xp pl t f [] (zip ks args)) dirs)"
    and "lists_ok pl prefix (mapR (\<lambda>(t, f, ks, args). add_url xp pl t f args []) dirs)"
proof -
  have made: "made_for pl prefix e"
    if "(t, f, ks, args) \<in> set dirs"
      and "add_url xp pl t f [] (zip ks args) = Inr e \<or> add_url xp pl t f args [] = Inr e" for t f ks args e
  proof -
    have "routes_ok pl" "view_keys pl f = Some ks" "list_all good_arg args" "length args = length ks"
      using assms that(1) by (auto simp: list_all_iff)
    then obtain url where "url_for pl f args [] = Inr url" "url_for pl f [] (zip ks args) = Inr url"
        "\<And>e. e ''id'' = Some (prefix @ url) \<Longrightarrow> made_for pl prefix e"
      using url_made_for [where prefix = prefix] by metis
    then show ?thesis using assms(2) that(2) by (auto simp: add_url_def xp_entry_id)
  qed
  show "lists_ok pl prefix (mapR (\<lambda>(t, f, ks, args). add_url xp pl t f [] (zip ks args)) dirs)"
    unfolding lists_ok_def dirs_made_for_def by (intro allI impI, erule mapR_all) (auto intro: made)
  show "lists_ok pl prefix (mapR (\<lambda>(t, f, ks, args). add_url xp pl t f args []) dirs)"
    unfolding lists_ok_def dirs_made_for_def by (intro allI impI, erule mapR_all) (auto intro: made)
qed

lemma lists_urls [listings]:
  assumes "routed pl prefix xp"
    and "list_all (\<lambda>(t, f, ks, args). view_keys pl f = Some ks \<and> length args = length ks \<and> list_all good_arg args) dirs"
  shows "lists_ok pl prefix (mapR (\<lambda>(t, f, ks, args). add_url xp pl t f [] (zip ks args)) dirs)"
    and "lists_ok pl prefix (mapR (\<lambda>(t, f, ks, args). add_url xp pl t f args []) dirs)"
  using assms by (auto simp: routed_def intro: lists_given_urls)

lemma lists_items [listings]:
  assumes "routed pl prefix xp" and "view_keys pl f = Some [k]" and "list_all (\<lambda>i. good_arg (it_id i)) items"
  shows "lists_ok pl prefix (xp_items xp f items)"
  unfolding lists_ok_def dirs_made_for_def
proof (intro allI impI)
  fix es assume "xp_items xp f items = Inr es"
  then obtain urls where urls: "urls_from_id (\<lambda>i. xp_url xp f [i]) items = Inr urls"
      "es = view (xp_idprefix xp) (xp_objid xp) items urls []"
    by (auto simp: xp_items_def bindR_eq_Inr)
  have made: "made_for pl prefix (view_entry (xp_idprefix xp) (xp_objid xp) item url)" if u: "url \<in> set urls" for item url
  proof -
    obtain i where i: "i \<in> set items" "xp_url xp f [it_id i] = Inr url"
      using mapR_elem [OF urls(1) [unfolded urls_from_id_def] u] by auto
    have "routes_ok pl" "list_all good_arg [it_id i]" "length [it_id i] = length [k]"
      using assms(1,3) i(1) by (auto simp: routed_def list_all_iff)
    then obtain url' where "url_for pl f [it_id i] [] = Inr url'"
        "\<And>e. e ''id'' = Some (prefix @ url') \<Longrightarrow> made_for pl prefix e"
      using url_made_for [OF _ assms(2), where prefix = prefix] by metis
    then show ?thesis using i(2) assms(1) by (simp add: xp_url_def routed_def view_entry_def)
  qed
  then show "list_all (\<lambda>e. is_dir e \<longrightarrow> made_for pl prefix e) es"
    unfolding urls(2) view_def by (auto simp: list_all_iff dest: set_zip_rightD)
qed

text \<open>A view with URLs of any origin.\<close>

lemma lists_view:
  assumes "xp_idprefix xp = prefix"
    and "\<And>url e. url \<in> set urls \<Longrightarrow> e ''id'' = Some (prefix @ url) \<Longrightarrow> made_for pl prefix e"
  shows "lists_ok pl prefix (Inr (view (xp_idprefix xp) (xp_objid xp) items urls []))"
  using assms by (auto simp: lists_ok_def dirs_made_for_def view_def view_entry_def list_all_iff dest: set_zip_rightD)

lemma lists_tracks [listings]: "lists_ok pl prefix (xp_tracks xp env tracks)"
  unfolding lists_ok_def dirs_made_for_def xp_tracks_def trackentries_def
  by (intro allI impI, erule mapR_all) (auto simp: is_dir_def dest: trackentry_fields(4))

definition returns_ok :: "route_plugin \<Rightarrow> string \<Rightarrow> entry list res option \<Rightarrow> bool" where
  "returns_ok pl prefix v \<longleftrightarrow> (\<forall>m. v = Some m \<longrightarrow> lists_ok pl prefix m)"

lemma returns_Some [listings]: "lists_ok pl prefix m \<Longrightarrow> returns_ok pl prefix (Some m)"
  by (simp add: returns_ok_def)

lemma returns_then [listings]:
  "(\<And>x. m = Some (Inr x) \<Longrightarrow> lists_ok pl prefix (f x)) \<Longrightarrow> returns_ok pl prefix (thenR m f)"
  by (auto simp: returns_ok_def thenR_def intro: lists_bind)

lemma lists_tracks_bind [listings]: "lists_ok pl prefix (bindR m (xp_tracks xp env))"
  by (rule lists_bind) (rule lists_tracks)

lemma returns_tracks [listings]: "returns_ok pl prefix (thenR m (xp_tracks xp env))"
  by (rule returns_then) (rule lists_tracks)

lemma lists_if [listings]:
  "(b \<Longrightarrow> lists_ok pl prefix m) \<Longrightarrow> (\<not> b \<Longrightarrow> lists_ok pl prefix m') \<Longrightarrow> lists_ok pl prefix (if b then m else m')"
  by simp

lemma kw_arg_good: "kw_arg kw k = Inr v \<Longrightarrow> list_all (\<lambda>(k, v). good_arg v) kw \<Longrightarrow> good_arg v"
  by (auto simp: kw_arg_def list_all_iff split: option.splits dest!: map_of_SomeD)

lemma lists_arg [listings]:
  "list_all (\<lambda>(k, v). good_arg v) kw \<Longrightarrow> (\<And>v. good_arg v \<Longrightarrow> lists_ok pl prefix (f v)) \<Longrightarrow>
   lists_ok pl prefix (bindR (kw_arg kw k) f)"
  by (rule lists_bind) (auto dest: kw_arg_good)

lemma returns_if [listings]:
  "(b \<Longrightarrow> returns_ok pl prefix m) \<Longrightarrow> (\<not> b \<Longrightarrow> returns_ok pl prefix m') \<Longrightarrow> returns_ok pl prefix (if b then m else m')"
  by simp

lemma returns_arg [listings]:
  "(\<And>v. returns_ok pl prefix (f v)) \<Longrightarrow>
   returns_ok pl prefix (case kw_arg kw k of Inl e \<Rightarrow> Some (Inl e) | Inr v \<Rightarrow> f v)"
  by (auto split: sum.split intro: returns_Some lists_Inl)

section \<open>Identifiers in the answers of a service\<close>

text \<open>Every field of a dictionary, at any depth, has a property.\<close>

fun fields_ok :: "(string \<Rightarrow> json \<Rightarrow> bool) \<Rightarrow> json \<Rightarrow> bool" where
  "fields_ok P (ArrJ xs) = list_all (fields_ok P) xs"
| "fields_ok P (ObjJ d) = list_all (\<lambda>kv. P (fst kv) (snd kv) \<and> fields_ok P (snd kv)) d"
| "fields_ok P _ = True"

lemma fields_ok_get: "fields_ok P v \<Longrightarrow> jt_get v k = Inr w \<Longrightarrow> P k w \<and> fields_ok P w"
  by (cases v) (auto simp: dict_get_def list_all_iff split: option.splits dest!: map_of_SomeD)

lemma fields_ok_path: "fields_ok P v \<Longrightarrow> jt_path v ps = Inr w \<Longrightarrow> fields_ok P w"
  by (induction ps arbitrary: v) (auto simp: bindR_eq_Inr dest: fields_ok_get)

lemma fields_ok_iter: "fields_ok P v \<Longrightarrow> jt_iter v = Inr xs \<Longrightarrow> x \<in> set xs \<Longrightarrow> fields_ok P x"
  by (cases v) (auto simp: list_all_iff)

lemma fields_ok_map:
  assumes "fields_ok P v" and "jt_map parse v ps = Inr ys"
    and "\<And>d y. fields_ok P d \<Longrightarrow> parse d = Inr y \<Longrightarrow> Q y"
  shows "list_all Q ys"
proof -
  obtain w xs where w: "jt_path v ps = Inr w" "jt_iter w = Inr xs" "mapR parse xs = Inr ys"
    using assms(2) by (auto simp: jt_map_def bindR_eq_Inr)
  show ?thesis
    using w(3) by (rule mapR_all) (rule assms(3) [OF fields_ok_iter [OF fields_ok_path [OF assms(1) w(1)] w(2)]])
qed

text \<open>A value that can be an argument of a URL, and answers whose identifiers all can.\<close>

definition id_ok :: "json \<Rightarrow> bool" where
  "id_ok v \<longleftrightarrow> (case jt_str v of Inr s \<Rightarrow> good_arg s | Inl _ \<Rightarrow> True)"

definition ids_ok :: "string list \<Rightarrow> json \<Rightarrow> bool" where
  "ids_ok ks = fields_ok (\<lambda>k v. k \<in> set ks \<longrightarrow> id_ok v)"

lemma id_ok_str: "id_ok w \<Longrightarrow> jt_str w = Inr i \<Longrightarrow> good_arg i"
  by (simp add: id_ok_def)

lemma ids_ok_get_id: "ids_ok ks v \<Longrightarrow> jt_get v k = Inr w \<Longrightarrow> k \<in> set ks \<Longrightarrow> jt_str w = Inr i \<Longrightarrow> good_arg i"
  unfolding ids_ok_def by (auto dest: fields_ok_get id_ok_str)

lemma ids_ok_map:
  "ids_ok ks v \<Longrightarrow> jt_map parse v ps = Inr ys \<Longrightarrow> (\<And>d y. ids_ok ks d \<Longrightarrow> parse d = Inr y \<Longrightarrow> P y) \<Longrightarrow> list_all P ys"
  unfolding ids_ok_def by (rule fields_ok_map)

lemma ids_ok_null [simp]: "ids_ok ks NullJ" "ids_ok ks (ObjJ [])"
  by (simp_all add: ids_ok_def)

section \<open>Replies and search results\<close>

text \<open>A reply has a status, a content that may be empty, and the value of the content unless it is not JSON.\<close>

record http_reply =
  hr_status :: int
  hr_content :: bool
  hr_json :: "json option"

record search_result =
  sr_artists :: "artist_model list"
  sr_albums :: "album_model list"
  sr_tracks :: "track_model list"
  sr_playlists :: "playlist_model list"

definition sr_empty :: search_result where
  "sr_empty = \<lparr>sr_artists = [], sr_albums = [], sr_tracks = [], sr_playlists = []\<rparr>"

end
