(* ===== verification/QobuzApi.thy ===== *)
theory QobuzApi
  imports Service PyBase64 "HOL-Library.Word"
begin

unbundle bit_operations_syntax

text \<open>
  The Qobuz service as the plugin calls it (\<open>qobuz/api/raw.py\<close>): the table of the methods with their
  parameter checks, the request with its error cases, the application secret and the login. The service
  itself, the time and the hash function are parameters: the service is a function from a request to a
  reply, or to no reply where the connection fails. Logging is left out, except where it raises.
\<close>

section \<open>Requests\<close>

type_synonym params = "(string \<times> json) list"

definition user_agent :: string where
  "user_agent = ''Mozilla/5.0 (Windows NT 10.0; Win64; x64; rv:67.0) Gecko/20100101 Firefox/67.0''"

type_synonym http = "string \<Rightarrow> params \<Rightarrow> (string \<times> json) list \<Rightarrow> http_reply option"

text \<open>What the object knows after a request about its failure.\<close>

datatype api_error = NoError | PostFail | BadStatus int | NoContent | ServiceError

record raw_api =
  ra_appid :: string
  ra_s4 :: "string option"
  ra_secrets :: "(string \<times> string) list option"
  ra_token :: json
  ra_user_id :: json
  ra_label :: json

definition base_url :: string where
  "base_url = ''https://www.qobuz.com/api.json/0.2''"

section \<open>The application secret\<close>

definition xor_char :: "char \<Rightarrow> char \<Rightarrow> char" where
  "xor_char x y = char_of ((of_char x :: nat) XOR of_char y)"

text \<open>\<open>zip(sec, cycle(key))\<close>: with an empty key there are no pairs.\<close>

fun xor_cycle :: "string \<Rightarrow> string \<Rightarrow> string \<Rightarrow> string" where
  "xor_cycle key [] [] = []"
| "xor_cycle key (k # ks) (x # xs) = xor_char x k # xor_cycle key ks xs"
| "xor_cycle key ks [] = []"
| "xor_cycle key [] (x # xs) = (case key of [] \<Rightarrow> [] | k # ks \<Rightarrow> xor_char x k # xor_cycle key ks xs)"

definition set_s4 :: "string \<Rightarrow> string \<Rightarrow> string res" where
  "set_s4 appid configvalue =
     (if \<not> is_ascii configvalue then Inl ValueError
      else bindR (b64decode configvalue) (\<lambda>s3s.
             if \<not> is_ascii appid then Inl ValueError else Inr (xor_cycle appid [] s3s)))"

text \<open>The inverse; \<open>b2a_base64\<close> ends the line.\<close>

definition unset_s4 :: "string \<Rightarrow> string \<Rightarrow> string" where
  "unset_s4 i sec = b64encode (xor_cycle i [] sec) @ [CHR 0x0A]"

text \<open>\<open>RawApi(appid, configvalue)\<close>: the spoofer finds an application and its secrets, unless both are given.\<close>

definition RawApi_init ::
  "(string \<times> (string \<times> string) list) \<Rightarrow> string option \<Rightarrow> string option \<Rightarrow> raw_api res" where
  "RawApi_init spoofer appid configvalue =
     (if truthy appid \<and> truthy configvalue then
        bindR (set_s4 (the appid) (the configvalue)) (\<lambda>s4.
          Inr \<lparr>ra_appid = the appid, ra_s4 = Some s4, ra_secrets = None, ra_token = NullJ, ra_user_id = NullJ,
               ra_label = NullJ\<rparr>)
      else
        Inr \<lparr>ra_appid = fst spoofer, ra_s4 = None, ra_secrets = Some (snd spoofer), ra_token = NullJ,
             ra_user_id = NullJ, ra_label = NullJ\<rparr>)"

section \<open>The request\<close>

definition is_error_reply :: "json \<Rightarrow> bool" where
  "is_error_reply v = (jt_get v ''status'' = Inr (StrJ ''error''))"

text \<open>The value of the reply, or \<open>None\<close> if something went wrong. A content that is not JSON raises: the
  warning before the second attempt has one argument too many.\<close>

definition api_request :: "http \<Rightarrow> raw_api \<Rightarrow> params \<Rightarrow> string \<Rightarrow> bool \<Rightarrow> (json \<times> api_error) res" where
  "api_request http st params uri noToken =
     (let headers = [(''User-Agent'', StrJ user_agent)] @ (if \<not> noToken \<and> jt_true (ra_token st) then [(''X-User-Auth-Token'', ra_token st)] else [])
            @ [(''X-App-Id'', StrJ (ra_appid st))]
      in case http (base_url @ uri) params headers of
           None \<Rightarrow> Inr (NullJ, PostFail)
         | Some r \<Rightarrow>
             if hr_status r \<noteq> 200 then Inr (NullJ, BadStatus (hr_status r))
             else if \<not> hr_content r then Inr (NullJ, NoContent)
             else case hr_json r of
                    None \<Rightarrow> Inl TypeError
                  | Some v \<Rightarrow> if is_error_reply v then Inr (NullJ, ServiceError) else Inr (v, NoError))"

definition request :: "http \<Rightarrow> raw_api \<Rightarrow> params \<Rightarrow> string \<Rightarrow> json res" where
  "request http st params uri = bindR (api_request http st params uri False) (\<lambda>(v, err). Inr v)"

fun check_ka :: "params \<Rightarrow> string list \<Rightarrow> string list \<Rightarrow> unit res" where
  "check_ka ka mandatory allowed =
     (case filter (\<lambda>l. \<not> has_key ka l) mandatory of
        l # _ \<Rightarrow> Inl (Raised (''Qobuz: missing parameter ['' @ l @ '']''))
      | [] \<Rightarrow>
          (case filter (\<lambda>(l, v). l \<notin> set mandatory \<and> l \<notin> set allowed) ka of
             (l, v) # _ \<Rightarrow> Inl (Raised (''Qobuz: invalid parameter ['' @ l @ '']''))
           | [] \<Rightarrow> Inr ()))"

section \<open>The methods\<close>

text \<open>Most methods check their parameters and make the request: the name, the mandatory and the other
  parameters, and the address.\<close>

type_synonym method_spec = "string \<times> string list \<times> string list \<times> string"

definition user_track_get :: "method_spec list" where
  "user_track_get =
     [(''user_update'', [], [''player_settings''], ''/user/update''),
      (''track_get'', [''track_id''], [], ''/track/get'')]"

definition search_methods :: "method_spec list" where
  "search_methods =
     [(''track_search'', [''query''], [''limit''], ''/track/search''),
      (''catalog_search'', [''query''], [''type'', ''offset'', ''limit''], ''/catalog/search'')]"

text \<open>These two are not checked.\<close>

definition free_methods :: "(string \<times> string) list" where
  "free_methods =
     [(''catalog_getFeatured'', ''/catalog/getFeatured''),
      (''catalog_getFeaturedTypes'', ''/catalog/getFeaturedTypes'')]"

definition album_methods :: "method_spec list" where
  "album_methods =
     [(''album_get'', [''album_id''], [], ''/album/get''),
      (''album_getFeatured'', [], [''type'', ''genre_id'', ''limit'', ''offset''], ''/album/getFeatured''),
      (''purchase_getUserPurchases'', [], [''order_id'', ''order_line_id'', ''flat'', ''limit'', ''offset''],
        ''/purchase/getUserPurchases''),
      (''search_getResults'', [''query'', ''type''], [''limit'', ''offset''], ''/search/getResults''),
      (''favorite_getUserFavorites'', [], [''user_id'', ''type'', ''limit'', ''offset''],
        ''/favorite/getUserFavorites'')]"

definition playlist_methods :: "method_spec list" where
  "playlist_methods =
     [(''playlist_get'', [''playlist_id''], [''extra'', ''limit'', ''offset''], ''/playlist/get''),
      (''playlist_getFeatured'', [''type''], [''genre_id'', ''limit'', ''offset''], ''/playlist/getFeatured'')]"

definition playlist_edit_methods :: "method_spec list" where
  "playlist_edit_methods =
     [(''playlist_addTracks'', [''playlist_id'', ''track_ids''], [], ''/playlist/addTracks''),
      (''playlist_deleteTracks'', [''playlist_id''], [''playlist_track_ids''], ''/playlist/deleteTracks''),
      (''playlist_subscribe'', [''playlist_id''], [''playlist_track_ids''], ''/playlist/subscribe''),
      (''playlist_unsubscribe'', [''playlist_id''], [], ''/playlist/unsubscribe'')]"

definition list_methods :: "method_spec list" where
  "list_methods =
     [(''playlist_delete'', [''playlist_id''], [], ''/playlist/delete''),
      (''playlist_update'', [''playlist_id''], [''name'', ''description'', ''is_public'', ''is_collaborative'', ''tracks_id''],
        ''/playlist/update''),
      (''playlist_getPublicPlaylists'', [], [''type'', ''limit'', ''offset''], ''/playlist/getPublicPlaylists''),
      (''artist_getSimilarArtists'', [''artist_id''], [''limit'', ''offset''], ''/artist/getSimilarArtists''),
      (''artist_get'', [''artist_id''], [''extra'', ''limit'', ''offset''], ''/artist/get''),
      (''genre_list'', [], [''parent_id'', ''limit'', ''offset''], ''/genre/list''),
      (''label_list'', [], [''limit'', ''offset''], ''/label/list''),
      (''article_listRubrics'', [], [''extra'', ''limit'', ''offset''], ''/article/listRubrics''),
      (''article_listLastArticles'', [], [''rubric_ids'', ''offset'', ''limit''], ''/article/listLastArticles''),
      (''article_get'', [''article_id''], [], ''/article/get''),
      (''collection_getAlbums'', [], [''source'', ''artist_id'', ''query'', ''limit'', ''offset''], ''/collection/getAlbums''),
      (''collection_getArtists'', [], [''source'', ''query'', ''limit'', ''offset''], ''/collection/getArtists''),
      (''collection_getTracks'', [], [''source'', ''artist_id'', ''album_id'', ''query'', ''limit'', ''offset''],
        ''/collection/getTracks'')]"

definition methods :: "method_spec list" where
  "methods = user_track_get @ search_methods @ album_methods @ playlist_methods @ playlist_edit_methods @ list_methods"

text \<open>The methods that do more.\<close>

definition playlist_getUserPlaylists :: "http \<Rightarrow> raw_api \<Rightarrow> params \<Rightarrow> json res" where
  "playlist_getUserPlaylists http st ka =
     bindR (check_ka ka [] [''user_id'', ''username'', ''order'', ''offset'', ''limit'']) (\<lambda>_.
       let ka = (if \<not> has_key ka ''user_id'' \<and> \<not> has_key ka ''username''
                 then AList.update ''user_id'' (ra_user_id st) ka else ka)
       in request http st ka ''/playlist/getUserPlaylists'')"

definition playlist_create :: "http \<Rightarrow> raw_api \<Rightarrow> params \<Rightarrow> json res" where
  "playlist_create http st ka =
     bindR (check_ka ka [''name''] [''is_public'', ''is_collaborative'', ''tracks_id'', ''album_id'']) (\<lambda>_.
       let ka = (if \<not> has_key ka ''is_public'' then AList.update ''is_public'' (BoolJ True) ka else ka);
           ka = (if \<not> has_key ka ''is_collaborative'' then AList.update ''is_collaborative'' (BoolJ False) ka else ka)
       in request http st ka ''/playlist/create'')"

definition favorite_edit :: "http \<Rightarrow> raw_api \<Rightarrow> string \<Rightarrow> params \<Rightarrow> json res" where
  "favorite_edit http st uri ka =
     (if list_all (\<lambda>l. \<not> has_key ka l) [''artist_ids'', ''album_ids'', ''track_ids'']
      then Inl (Raised ''Qobuz: missing parameter: artist_ids|albums_ids|track_ids'')
      else request http st ka uri)"

definition favorite_create :: "http \<Rightarrow> raw_api \<Rightarrow> params \<Rightarrow> json res" where
  "favorite_create http st = favorite_edit http st ''/favorite/create''"

definition favorite_delete :: "http \<Rightarrow> raw_api \<Rightarrow> params \<Rightarrow> json res" where
  "favorite_delete http st = favorite_edit http st ''/favorite/delete''"

text \<open>A call of a method by its name.\<close>

definition raw_call :: "http \<Rightarrow> raw_api \<Rightarrow> string \<Rightarrow> params \<Rightarrow> json res" where
  "raw_call http st nm ka =
     (case map_of methods nm of
        Some (mandatory, allowed, uri) \<Rightarrow> bindR (check_ka ka mandatory allowed) (\<lambda>_. request http st ka uri)
      | None \<Rightarrow>
          (case map_of free_methods nm of
             Some uri \<Rightarrow> request http st ka uri
           | None \<Rightarrow>
               if nm = ''playlist_getUserPlaylists'' then playlist_getUserPlaylists http st ka
               else if nm = ''playlist_create'' then playlist_create http st ka
               else if nm = ''favorite_create'' then favorite_create http st ka
               else if nm = ''favorite_delete'' then favorite_delete http st ka
               else Inl AttributeError))"

definition track_resportStreamingStart :: "http \<Rightarrow> raw_api \<Rightarrow> json \<Rightarrow> json res" where
  "track_resportStreamingStart http st track_id =
     request http st [(''user_id'', ra_user_id st), (''track_id'', track_id)] ''/track/reportStreamingStart''"

text \<open>The warning for a short play has an argument too many.\<close>

definition track_resportStreamingEnd :: "http \<Rightarrow> raw_api \<Rightarrow> json \<Rightarrow> json \<Rightarrow> json res" where
  "track_resportStreamingEnd http st track_id duration =
     bindR (jt_int duration) (\<lambda>duration.
       if duration < 5 then Inl TypeError
       else request http st [(''user_id'', ra_user_id st), (''track_id'', track_id), (''duration'', IntJ duration)]
              ''/track/reportStreamingEnd'')"

text \<open>The request for the URL of a track is signed with the secret.\<close>

definition track_getFileUrl ::
  "http \<Rightarrow> (string \<Rightarrow> string) \<Rightarrow> string \<Rightarrow> raw_api \<Rightarrow> string \<Rightarrow> params \<Rightarrow> json res" where
  "track_getFileUrl http md5 ts st intent ka =
     bindR (check_ka ka [''format_id'', ''track_id''] []) (\<lambda>_.
     bindR (bindR (dict_get ka ''track_id'') jt_str) (\<lambda>track_id.
     bindR (bindR (dict_get ka ''format_id'') jt_str) (\<lambda>fmt_id.
       let stringvalue = ''trackgetFileUrlformat_id'' @ fmt_id @ ''intent'' @ intent @ ''track_id'' @ track_id @ ts in
       if \<not> is_ascii stringvalue then Inl ValueError
       else case ra_s4 st of
              None \<Rightarrow> Inl AttributeError
            | Some s4 \<Rightarrow>
                request http st
                  [(''format_id'', StrJ fmt_id), (''intent'', StrJ intent), (''request_ts'', StrJ ts),
                   (''request_sig'', StrJ (md5 (stringvalue @ s4))), (''track_id'', StrJ track_id)]
                  ''/track/getFileUrl'')))"

section \<open>Login\<close>

text \<open>The signature is over \<open>str\<close> of the secret, which is a bytes object: for a secret without quotes and
  control characters that is the secret in quotes, with a leading b.\<close>

definition userlib_getAlbums :: "http \<Rightarrow> (string \<Rightarrow> string) \<Rightarrow> string \<Rightarrow> raw_api \<Rightarrow> string \<Rightarrow> json res" where
  "userlib_getAlbums http md5 ts st sec =
     request http st
       [(''app_id'', StrJ (ra_appid st)), (''user_auth_token'', ra_token st), (''request_ts'', StrJ ts),
        (''request_sig'', StrJ (md5 (''userLibrarygetAlbumsList'' @ ts @ ''b'' @ [CHR 0x27] @ sec @ [CHR 0x27])))]
       ''/userLibrary/getAlbumsList''"

text \<open>Each secret in turn, until one is accepted; then the name of an unknown variable is used.\<close>

fun try_secrets :: "http \<Rightarrow> (string \<Rightarrow> string) \<Rightarrow> string \<Rightarrow> (string \<times> string) list \<Rightarrow> raw_api \<Rightarrow> raw_api \<times> unit res" where
  "try_secrets http md5 ts [] st = (st, Inr ())"
| "try_secrets http md5 ts ((tz, value) # secrets) st =
     (let st = st\<lparr>ra_s4 := Some value\<rparr> in
      case userlib_getAlbums http md5 ts st value of
        Inl e \<Rightarrow> (st, Inl e)
      | Inr v \<Rightarrow> if v \<noteq> NullJ then (st, Inl NameError) else try_secrets http md5 ts secrets st)"

definition setSec :: "http \<Rightarrow> (string \<Rightarrow> string) \<Rightarrow> string \<Rightarrow> raw_api \<Rightarrow> raw_api \<times> unit res" where
  "setSec http md5 ts st =
     (case ra_secrets st of None \<Rightarrow> (st, Inl AttributeError) | Some secrets \<Rightarrow> try_secrets http md5 ts secrets st)"

definition raw_logout :: "raw_api \<Rightarrow> raw_api" where
  "raw_logout st = st\<lparr>ra_token := NullJ, ra_user_id := NullJ\<rparr>"

text \<open>\<open>not data or not 'user' in data or ...\<close>\<close>

definition login_incomplete :: "json \<Rightarrow> bool res" where
  "login_incomplete data =
     (if \<not> jt_true data then Inr True
      else bindR (jt_in ''user'' data) (\<lambda>b. if \<not> b then Inr True
      else bindR (jt_get data ''user'') (\<lambda>user.
           bindR (jt_in ''credential'' user) (\<lambda>b. if \<not> b then Inr True
      else bindR (jt_in ''id'' user) (\<lambda>b. if \<not> b then Inr True
      else bindR (bindR (jt_get user ''credential'') (jt_in ''parameters'')) (\<lambda>b. Inr (\<not> b)))))))"

text \<open>The data is returned without the name and the address of the user.\<close>

definition blank_user :: "json \<Rightarrow> json" where
  "blank_user data =
     (case data of
        ObjJ d \<Rightarrow>
          (case map_of d ''user'' of
             Some (ObjJ u) \<Rightarrow>
               ObjJ (AList.update ''user''
                 (ObjJ (fold (\<lambda>k. AList.update k (StrJ [])) [''email'', ''firstname'', ''lastname''] u)) d)
           | _ \<Rightarrow> data)
      | _ \<Rightarrow> data)"

definition user_login ::
  "http \<Rightarrow> (string \<Rightarrow> string) \<Rightarrow> string \<Rightarrow> raw_api \<Rightarrow> params \<Rightarrow> raw_api \<times> json res" where
  "user_login http md5 ts st ka =
     (case bindR (check_ka ka [''username'', ''password''] [''email'']) (\<lambda>_.
             bindR (api_request http st ka ''/user/login'' True) (\<lambda>(data, err).
               bindR (login_incomplete data) (\<lambda>b. Inr (data, b)))) of
        Inl e \<Rightarrow> (st, Inl e)
      | Inr (data, True) \<Rightarrow> (raw_logout st, Inr NullJ)
      | Inr (data, False) \<Rightarrow>
          (case jt_path data [''user'', ''credential'', ''parameters''] of
             Inl e \<Rightarrow> (st, Inl e)
           | Inr par \<Rightarrow>
               if \<not> jt_true par then (st, Inr NullJ)
               else
                 case jt_path data [''user'', ''id''] of
                   Inl e \<Rightarrow> (st, Inl e)
                 | Inr uid \<Rightarrow>
                     let st = st\<lparr>ra_user_id := uid\<rparr> in
                     case jt_get data ''user_auth_token'' of
                       Inl e \<Rightarrow> (st, Inl e)
                     | Inr token \<Rightarrow>
                         let st = st\<lparr>ra_token := token\<rparr> in
                         case jt_get par ''short_label'' of
                           Inl e \<Rightarrow> (st, Inl e)
                         | Inr label \<Rightarrow>
                             let st = st\<lparr>ra_label := label\<rparr> in
                             let data = blank_user data in
                             (case setSec http md5 ts st of (st, r) \<Rightarrow> (st, bindR r (\<lambda>_. Inr data)))))"

section \<open>The secret comes back\<close>

lemma xor_char_twice [simp]: "xor_char (xor_char x y) y = x"
proof -
  have "((of_char x :: nat) XOR of_char y) mod 256 = of_char x XOR of_char y"
    using take_bit_xor [of 8 "of_char x :: nat" "of_char y"] by (simp add: take_bit_eq_mod)
  then have "of_char (xor_char x y) = ((of_char x :: nat) XOR of_char y)" by (simp add: xor_char_def)
  then show ?thesis by (simp add: xor_char_def [of "xor_char x y"] xor.assoc)
qed

lemma xor_cycle_twice: "key \<noteq> [] \<Longrightarrow> xor_cycle key ks (xor_cycle key ks xs) = xs"
  by (induction key ks xs rule: xor_cycle.induct) (auto split: list.splits)

lemma set_s4_encode:
  "is_ascii (b64encode sec) \<Longrightarrow> is_ascii appid \<Longrightarrow> set_s4 appid (b64encode sec) = Inr (xor_cycle appid [] sec)"
  by (simp add: set_s4_def)

text \<open>The secret of an application that is stored in the configuration is what the application
  identifier takes out again: removing the mask from it gives the configured text back, with a line end.\<close>

theorem secret_comes_back:
  assumes "appid \<noteq> []" and "set_s4 appid (b64encode sec) = Inr s4"
  shows "unset_s4 appid s4 = b64encode sec @ [CHR 0x0A]"
  using assms by (auto simp: set_s4_def unset_s4_def xor_cycle_twice bindR_eq_Inr split: if_splits)

theorem secret_comes_back_witness:
  "set_s4 ''950096963'' (b64encode ''abcdefghijk'') = Inr (xor_cycle ''950096963'' [] ''abcdefghijk'') \<and>
   unset_s4 ''950096963'' (xor_cycle ''950096963'' [] ''abcdefghijk'') = b64encode ''abcdefghijk'' @ [CHR 0x0A]"
proof -
  have s: "set_s4 ''950096963'' (b64encode ''abcdefghijk'') = Inr (xor_cycle ''950096963'' [] ''abcdefghijk'')"
    by (rule set_s4_encode) code_simp+
  have "''950096963'' \<noteq> []" by simp
  from s secret_comes_back [OF this s] show ?thesis by (rule conjI)
qed

section \<open>Who can log in\<close>

definition refused :: "http \<Rightarrow> (string \<Rightarrow> string) \<Rightarrow> string \<Rightarrow> raw_api \<Rightarrow> string \<Rightarrow> bool" where
  "refused http md5 ts st sec \<longleftrightarrow> userlib_getAlbums http md5 ts st sec = Inr NullJ"

lemma userlib_s4 [simp]: "userlib_getAlbums http md5 ts (st\<lparr>ra_s4 := s\<rparr>) sec = userlib_getAlbums http md5 ts st sec"
  by (simp add: userlib_getAlbums_def request_def api_request_def)

lemma try_secrets_ok:
  "try_secrets http md5 ts secrets st = (st', Inr ()) \<Longrightarrow>
   list_all (\<lambda>(tz, sec). refused http md5 ts st sec) secrets \<and>
   st' = st\<lparr>ra_s4 := (case rev secrets of [] \<Rightarrow> ra_s4 st | (tz, sec) # _ \<Rightarrow> Some sec)\<rparr>"
proof (induction http md5 ts secrets st rule: try_secrets.induct)
  case (2 http md5 ts tz sec secrets st)
  have r: "userlib_getAlbums http md5 ts st sec = Inr NullJ"
      "try_secrets http md5 ts secrets (st\<lparr>ra_s4 := Some sec\<rparr>) = (st', Inr ())"
    using 2(2) by (auto simp: Let_def split: sum.splits if_splits)
  from 2(1) [OF refl _ _ r(2)] r(1)
  have "list_all (\<lambda>(tz, sec'). refused http md5 ts (st\<lparr>ra_s4 := Some sec\<rparr>) sec') secrets"
    and st': "st' = st\<lparr>ra_s4 := Some sec\<rparr>\<lparr>ra_s4 := (case rev secrets of [] \<Rightarrow> ra_s4 (st\<lparr>ra_s4 := Some sec\<rparr>) | (tz, sec) # _ \<Rightarrow> Some sec)\<rparr>"
    by simp_all
  then show ?case using r(1) by (cases "rev secrets") (simp_all add: refused_def split: prod.splits)
qed simp

lemma login_refused:
  assumes "user_login http md5 ts st ka = (st', Inr data)" and "data \<noteq> NullJ"
  shows "\<exists>secrets. ra_secrets st = Some secrets \<and> list_all (\<lambda>(tz, sec). refused http md5 ts st' sec) secrets \<and>
    (secrets \<noteq> [] \<longrightarrow> ra_s4 st' = Some (snd (last secrets)))"
proof -
  obtain st1 where st1: "setSec http md5 ts st1 = (st', Inr ())" "ra_secrets st1 = ra_secrets st"
    using assms unfolding user_login_def
    by (auto simp: Let_def bindR_eq_Inr split: sum.splits prod.splits bool.splits if_splits)
  then obtain secrets where s: "ra_secrets st = Some secrets" "try_secrets http md5 ts secrets st1 = (st', Inr ())"
    by (auto simp: setSec_def split: option.splits)
  from try_secrets_ok [OF s(2)]
  have r: "list_all (\<lambda>(tz, sec). refused http md5 ts st1 sec) secrets"
    and st': "st' = st1\<lparr>ra_s4 := (case rev secrets of [] \<Rightarrow> ra_s4 st1 | (tz, sec) # _ \<Rightarrow> Some sec)\<rparr>"
    by blast+
  have "refused http md5 ts st' sec = refused http md5 ts st1 sec" for sec by (simp add: st' refused_def)
  moreover have "ra_s4 st' = Some (snd (last secrets))" if "secrets \<noteq> []"
    using that by (cases secrets rule: rev_cases) (auto simp: st' split: prod.splits)
  ultimately show ?thesis using s(1) r by simp
qed

text \<open>The reply of a service that knows the user, and what is kept of it.\<close>

definition good_reply :: "json \<Rightarrow> json \<Rightarrow> json \<Rightarrow> json \<Rightarrow> bool" where
  "good_reply data uid token label \<longleftrightarrow>
     jt_path data [''user'', ''id''] = Inr uid \<and> jt_get data ''user_auth_token'' = Inr token \<and>
     (case jt_path data [''user'', ''credential'', ''parameters''] of
        Inr par \<Rightarrow> jt_true par \<and> jt_get par ''short_label'' = Inr label | Inl _ \<Rightarrow> False)"

definition logged_in :: "raw_api \<Rightarrow> json \<Rightarrow> json \<Rightarrow> json \<Rightarrow> raw_api" where
  "logged_in st uid token label = st\<lparr>ra_user_id := uid, ra_token := token, ra_label := label\<rparr>"

lemma jt_get_obj: "jt_get v k = Inr w \<Longrightarrow> \<exists>d. v = ObjJ d \<and> map_of d k = Some w"
  by (cases v) (auto simp: dict_get_def split: option.splits)

lemma good_reply_complete:
  assumes "good_reply data uid token label"
  shows "login_incomplete data = Inr False"
proof -
  obtain user cred par where u: "jt_get data ''user'' = Inr user" "jt_get user ''id'' = Inr uid"
      "jt_get user ''credential'' = Inr cred" "jt_get cred ''parameters'' = Inr par"
    using assms by (auto simp: good_reply_def bindR_eq_Inr split: sum.splits)
  obtain d where "data = ObjJ d" "map_of d ''user'' = Some user" using jt_get_obj [OF u(1)] by blast
  moreover obtain e where "user = ObjJ e" "map_of e ''id'' = Some uid" using jt_get_obj [OF u(2)] by blast
  moreover from this(1) have "map_of e ''credential'' = Some cred" using jt_get_obj [OF u(3)] by auto
  moreover obtain f where "cred = ObjJ f" "map_of f ''parameters'' = Some par" using jt_get_obj [OF u(4)] by blast
  ultimately show ?thesis by (cases d) (auto simp: login_incomplete_def has_key_def dict_get_def)
qed

lemma try_secrets_eq:
  "try_secrets http md5 ts secrets st =
     (case List.find (\<lambda>(tz, sec). \<not> refused http md5 ts st sec) secrets of
        None \<Rightarrow> (st\<lparr>ra_s4 := (if secrets = [] then ra_s4 st else Some (snd (last secrets)))\<rparr>, Inr ())
      | Some (tz, sec) \<Rightarrow>
          (st\<lparr>ra_s4 := Some sec\<rparr>,
           Inl (case userlib_getAlbums http md5 ts st sec of Inl e \<Rightarrow> e | Inr _ \<Rightarrow> NameError)))"
proof (induction secrets arbitrary: st)
  case (Cons s secrets)
  obtain tz sec where s: "s = (tz, sec)" by (cases s)
  let ?st = "st\<lparr>ra_s4 := Some sec\<rparr>"
  have same: "refused http md5 ts ?st x = refused http md5 ts st x" for x by (simp add: refused_def)
  show ?case
  proof (cases "refused http md5 ts st sec")
    case True
    then show ?thesis
      using Cons.IH [of ?st] by (auto simp: s same refused_def Let_def split: option.splits)
  next
    case False
    then show ?thesis by (auto simp: s refused_def Let_def split: sum.splits)
  qed
qed simp

text \<open>C18. What a login does once the service has answered that it knows the user. It succeeds exactly
  when the service refuses every secret that was found for the application; the secret that the
  requests for track URLs are signed with is then the last one, a refused one. The first secret that
  is not refused is kept, and the login raises: the name of an unknown variable when the secret was
  accepted, else what the request raised. With a configured application and secret the login always
  raises.\<close>

theorem login_only_with_refused_secrets:
  assumes "check_ka ka [''username'', ''password''] [''email''] = Inr ()"
    and "api_request http st ka ''/user/login'' True = Inr (data, err)"
    and "good_reply data uid token label"
  shows "user_login http md5 ts st ka =
    (let st = logged_in st uid token label in
     case ra_secrets st of
       None \<Rightarrow> (st, Inl AttributeError)
     | Some secrets \<Rightarrow>
         (case List.find (\<lambda>(tz, sec). \<not> refused http md5 ts st sec) secrets of
            None \<Rightarrow> (st\<lparr>ra_s4 := (if secrets = [] then ra_s4 st else Some (snd (last secrets)))\<rparr>, Inr (blank_user data))
          | Some (tz, sec) \<Rightarrow>
              (st\<lparr>ra_s4 := Some sec\<rparr>,
               Inl (case userlib_getAlbums http md5 ts st sec of Inl e \<Rightarrow> e | Inr _ \<Rightarrow> NameError))))"
proof -
  obtain par where r: "jt_path data [''user'', ''id''] = Inr uid" "jt_get data ''user_auth_token'' = Inr token"
      "jt_path data [''user'', ''credential'', ''parameters''] = Inr par" "jt_true par" "jt_get par ''short_label'' = Inr label"
    using assms(3) unfolding good_reply_def
    by (cases "jt_path data [''user'', ''credential'', ''parameters'']") (simp_all del: jt_path.simps)
  have "user_login http md5 ts st ka = (case setSec http md5 ts (logged_in st uid token label) of
      (st, r) \<Rightarrow> (st, bindR r (\<lambda>_. Inr (blank_user data))))"
    by (simp add: user_login_def assms(1,2) good_reply_complete [OF assms(3)] r logged_in_def Let_def del: jt_path.simps check_ka.simps)
  also have "setSec http md5 ts (logged_in st uid token label) =
      (case ra_secrets st of None \<Rightarrow> (logged_in st uid token label, Inl AttributeError)
       | Some secrets \<Rightarrow> try_secrets http md5 ts secrets (logged_in st uid token label))"
    by (simp add: setSec_def logged_in_def split: option.split)
  finally show ?thesis
    by (auto simp: Let_def logged_in_def try_secrets_eq split: option.split)
qed

text \<open>A service that knows one user and refuses every secret.\<close>

definition demo_http :: http where
  "demo_http uri ka headers =
     (if uri = base_url @ ''/user/login''
      then Some \<lparr>hr_status = 200, hr_content = True, hr_json = Some (ObjJ
        [(''user'', ObjJ [(''id'', IntJ 5), (''credential'', ObjJ [(''parameters'', ObjJ [(''short_label'', StrJ ''hifi'')])])]),
         (''user_auth_token'', StrJ ''tok'')])\<rparr>
      else Some \<lparr>hr_status = 400, hr_content = True, hr_json = None\<rparr>)"

definition demo_raw :: raw_api where
  "demo_raw = (case RawApi_init (''950096963'', [(''berlin'', ''s1''), (''london'', ''s2'')]) None None of Inr st \<Rightarrow> st)"

theorem login_only_with_refused_secrets_witness:
  "let l = user_login demo_http id ''1'' demo_raw [(''username'', StrJ ''u''), (''password'', StrJ ''p'')] in
     ra_s4 (fst l) = Some ''s2'' \<and> ra_token (fst l) = StrJ ''tok'' \<and> is_ok (snd l)"
proof -
  let ?ka = "[(''username'', StrJ ''u''), (''password'', StrJ ''p'')]"
  let ?user = "ObjJ [(''id'', IntJ 5), (''credential'', ObjJ [(''parameters'', ObjJ [(''short_label'', StrJ ''hifi'')])])]"
  let ?data = "ObjJ [(''user'', ?user), (''user_auth_token'', StrJ ''tok'')]"
  have "check_ka ?ka [''username'', ''password''] [''email''] = Inr ()"
    "api_request demo_http demo_raw ?ka ''/user/login'' True = Inr (?data, NoError)"
    "good_reply ?data (IntJ 5) (StrJ ''tok'') (StrJ ''hifi'')"
    by code_simp+
  note l = login_only_with_refused_secrets [OF this, of id "''1''"]
  have "ra_secrets (logged_in demo_raw (IntJ 5) (StrJ ''tok'') (StrJ ''hifi'')) = Some [(''berlin'', ''s1''), (''london'', ''s2'')]"
    "List.find (\<lambda>(tz, sec). \<not> refused demo_http id ''1'' (logged_in demo_raw (IntJ 5) (StrJ ''tok'') (StrJ ''hifi'')) sec)
       [(''berlin'', ''s1''), (''london'', ''s2'')] = None"
    by code_simp+
  then show ?thesis unfolding l by (simp add: Let_def logged_in_def)
qed

text \<open>With a configured secret there is no list of secrets to try.\<close>

lemma configured_login_raises:
  "RawApi_init spoofer (Some appid) (Some cf) = Inr st \<Longrightarrow> appid \<noteq> [] \<Longrightarrow> cf \<noteq> [] \<Longrightarrow>
   user_login http md5 ts st ka = (st', Inr data) \<Longrightarrow> data = NullJ"
  using login_refused [of http md5 ts st ka st' data] by (cases "data = NullJ") (auto simp: RawApi_init_def bindR_eq_Inr)

end
