(* ===== verification/Qobuz.thy ===== *)
theory Qobuz
  imports QobuzApi
begin

text \<open>
  The Qobuz plugin: the objects made of the answers (\<open>qobuz/session.py\<close>) and the views
  (\<open>qobuz/qobuz-app.py\<close>). The service is the function from a method and its parameters to the answer,
  \<open>raw_call\<close> of the theory before. The favourites are fetched page after page without a limit, so such a
  view is a partial function.
\<close>

section \<open>Objects of the answers\<close>

definition image_large :: "json \<Rightarrow> string option res" where
  "image_large img = bindR (jt_in ''large'' img) (\<lambda>b.
     if b then bindR (jt_get img ''large'') jt_opt_text else Inr None)"

definition parse_artist :: "json \<Rightarrow> artist_model res" where
  "parse_artist data =
     bindR (bindR (jt_get data ''id'') jt_str) (\<lambda>i.
     bindR (bindR (jt_get data ''name'') jt_text) (\<lambda>nm.
     bindR (jt_in ''image'' data) (\<lambda>b.
     bindR (if b then bindR (jt_get data ''image'') (\<lambda>im. if jt_true im then image_large im else Inr None)
            else Inr None) (\<lambda>image.
       Inr (artist_defaults\<lparr>art_id := i, art_name := nm, art_image := image\<rparr>)))))"

definition parse_genre :: "json \<Rightarrow> item_model res" where
  "parse_genre data =
     bindR (bindR (jt_get data ''id'') jt_str) (\<lambda>i.
     bindR (bindR (jt_get data ''name'') jt_text) (\<lambda>nm. Inr (plain_item i nm None)))"

text \<open>An optional field of an answer: \<open>if k in data: field = data[k]\<close>\<close>

definition opt_field :: "json \<Rightarrow> string \<Rightarrow> (json \<Rightarrow> 'a res) \<Rightarrow> 'a \<Rightarrow> 'a res" where
  "opt_field data k f dflt = bindR (jt_in k data) (\<lambda>b. if b then bindR (jt_get data k) f else Inr dflt)"

definition parse_album :: "json \<Rightarrow> artist_model option \<Rightarrow> album_model res" where
  "parse_album data artist =
     bindR (if artist = None then opt_field data ''artist'' (\<lambda>a. bindR (parse_artist a) (\<lambda>a. Inr (Some a))) None
            else Inr artist) (\<lambda>artist.
     bindR (opt_field data ''streamable'' (\<lambda>v. Inr (jt_true v)) False) (\<lambda>available.
     bindR (bindR (jt_get data ''id'') jt_str) (\<lambda>i.
     bindR (bindR (jt_get data ''title'') jt_text) (\<lambda>nm.
     bindR (jt_find data ''tracks_count'') (\<lambda>num_tracks.
     bindR (jt_find data ''duration'') (\<lambda>duration.
     bindR (opt_field data ''image'' image_large None) (\<lambda>image.
     bindR (opt_field data ''maximum_bit_depth'' jt_str ''16'') (\<lambda>maxbitdepth.
     bindR (opt_field data ''maximum_sampling_rate'' jt_str ''44.1'') (\<lambda>maxsamprate.
     bindR (opt_field data ''description'' jt_opt_text None) (\<lambda>description.
     bindR (opt_field data ''releaseDate'' jt_opt_text None) (\<lambda>release_date.
       Inr \<lparr>alb_id = i, alb_name = nm, alb_image = image, alb_artist = artist, alb_num_tracks = num_tracks,
            alb_duration = duration, alb_release_date = release_date, alb_description = description,
            alb_available = available, alb_maxsamprate = maxsamprate, alb_maxbitdepth = maxbitdepth\<rparr>)))))))))))"

text \<open>The first image of the largest size that has one.\<close>

fun first_image :: "json \<Rightarrow> string list \<Rightarrow> string option res" where
  "first_image data [] = Inr None"
| "first_image data (suff # suffs) =
     (case bindR (jt_get data (''images'' @ suff)) jt_first of
        Inr v \<Rightarrow> jt_opt_text v
      | Inl _ \<Rightarrow> first_image data suffs)"

definition parse_playlist :: "json \<Rightarrow> playlist_model res" where
  "parse_playlist data =
     bindR (bindR (jt_get data ''id'') jt_str) (\<lambda>i.
     bindR (bindR (jt_get data ''name'') jt_text) (\<lambda>nm.
     bindR (jt_find data ''tracks_count'') (\<lambda>num_tracks.
     bindR (jt_find data ''duration'') (\<lambda>duration.
     bindR (first_image data [''300'', ''150'', []]) (\<lambda>image.
       Inr ((playlist_defaults i nm)\<lparr>pl_num_tracks := num_tracks, pl_duration := duration, pl_image := image\<rparr>))))))"

definition parse_track :: "json \<Rightarrow> album_model option \<Rightarrow> track_model res" where
  "parse_track data albumarg =
     bindR (bindR (jt_in ''performer'' data) (\<lambda>b.
        if b then bindR (jt_get data ''performer'') parse_artist
        else bindR (jt_in ''artist'' data) (\<lambda>b.
          if b then bindR (jt_get data ''artist'') parse_artist
          else Inr (case albumarg of Some alb \<Rightarrow> (case alb_artist alb of Some a \<Rightarrow> a | None \<Rightarrow> artist_defaults)
                    | None \<Rightarrow> artist_defaults)))) (\<lambda>artist.
     bindR (opt_field data ''album'' (\<lambda>a. bindR (parse_album a (Some artist)) (\<lambda>a. Inr (Some a))) albumarg) (\<lambda>album.
     bindR (bindR (jt_in ''streamable'' data) (\<lambda>b.
        if b then bindR (jt_get data ''streamable'') (\<lambda>v. Inr (jt_true v)) else Inl NameError)) (\<lambda>available.
     bindR (bindR (jt_get data ''id'') jt_str) (\<lambda>i.
     bindR (bindR (jt_get data ''title'') jt_text) (\<lambda>nm.
     bindR (jt_get data ''duration'') (\<lambda>duration.
     bindR (jt_get data ''track_number'') (\<lambda>track_num.
     bindR (jt_get data ''media_number'') (\<lambda>disc_num.
       Inr ((track_defaults i nm)\<lparr>trk_duration := duration, trk_track_num := track_num, trk_disc_num := disc_num,
              trk_artist := Some artist, trk_album := album, trk_available := available\<rparr>)))))))))"

definition parse_track0 :: "json \<Rightarrow> track_model res" where
  "parse_track0 data = parse_track data None"

definition parse_album0 :: "json \<Rightarrow> album_model res" where
  "parse_album0 data = parse_album data None"

section \<open>The session\<close>

type_synonym qapi = "string \<Rightarrow> params \<Rightarrow> json res"

text \<open>Pages of 20. The parser stops the loop when it fails, and the getter may raise.\<close>

partial_function (option) loopget ::
  "nat \<Rightarrow> (nat \<Rightarrow> nat \<Rightarrow> json res) \<Rightarrow> (json \<Rightarrow> 'a list res) \<Rightarrow> nat \<Rightarrow> 'a list \<Rightarrow> 'a list res option" where
  "loopget mx getter parser offset all =
     (if mx = 0 \<or> offset < mx then
        (case getter 20 offset of
           Inl e \<Rightarrow> Some (Inl e)
         | Inr jsdata \<Rightarrow>
             (case parser jsdata of
                Inl _ \<Rightarrow> Some (Inr all)
              | Inr ndata \<Rightarrow>
                  if length ndata < 20 then Some (Inr (all @ ndata))
                  else loopget mx getter parser (offset + 20) (all @ ndata)))
      else Some (Inr all))"

definition page_ka :: "params \<Rightarrow> nat \<Rightarrow> nat \<Rightarrow> params" where
  "page_ka ka limit offset = AList.update ''offset'' (IntJ (int offset)) (AList.update ''limit'' (IntJ (int limit)) ka)"

definition get_album_tracks :: "qapi \<Rightarrow> string \<Rightarrow> track_model list res" where
  "get_album_tracks api albid =
     bindR (api ''album_get'' [(''album_id'', StrJ albid)]) (\<lambda>data.
     bindR (parse_album0 data) (\<lambda>album.
       jt_map (\<lambda>t. parse_track t (Some album)) data [''tracks'', ''items'']))"

definition get_track :: "qapi \<Rightarrow> string \<Rightarrow> track_model option res" where
  "get_track api trackid =
     bindR (api ''track_get'' [(''track_id'', StrJ trackid)]) (\<lambda>data.
       if jt_true data then bindR (parse_track0 data) (\<lambda>t. Inr (Some t)) else Inr None)"

definition get_playlist_tracks :: "qapi \<Rightarrow> string \<Rightarrow> track_model list res option" where
  "get_playlist_tracks api plid =
     loopget 1000 (\<lambda>l off. api ''playlist_get'' (page_ka [(''playlist_id'', StrJ plid), (''extra'', StrJ ''tracks'')] l off))
       (\<lambda>js. jt_map parse_track0 js [''tracks'', ''items'']) 0 []"

definition get_artist_albums :: "qapi \<Rightarrow> string \<Rightarrow> album_model list res" where
  "get_artist_albums api artid =
     bindR (api ''artist_get'' [(''artist_id'', StrJ artid), (''extra'', StrJ ''albums'')]) (\<lambda>data.
     bindR (jt_in ''albums'' data) (\<lambda>b.
       if b then bindR (jt_map parse_album0 data [''albums'', ''items'']) (\<lambda>albums. Inr (filter alb_available albums))
       else Inr []))"

definition get_artist_similar :: "qapi \<Rightarrow> string \<Rightarrow> artist_model list res" where
  "get_artist_similar api artid =
     bindR (api ''artist_getSimilarArtists'' [(''artist_id'', StrJ artid)]) (\<lambda>data.
     bindR (bindR (jt_in ''artists'' data) (\<lambda>b. if b then bindR (jt_get data ''artists'') (jt_in ''items'') else Inr False)) (\<lambda>b.
       if b then jt_map parse_artist data [''artists'', ''items''] else Inr []))"

definition general_slice :: json where
  "general_slice = IntJ 100"

definition get_featured_albums :: "qapi \<Rightarrow> string \<Rightarrow> string \<Rightarrow> album_model list res" where
  "get_featured_albums api genre_id tp =
     bindR (api ''album_getFeatured''
              ([(''type'', StrJ tp)] @ (if genre_id \<noteq> ''None'' then [(''genre_id'', StrJ genre_id)] else [])
               @ [(''limit'', general_slice)])) (\<lambda>data.
       case jt_map parse_album0 data [''albums'', ''items''] of
         Inr albums \<Rightarrow> Inr (filter alb_available albums)
       | Inl _ \<Rightarrow> Inr [])"

definition get_featured_playlists :: "qapi \<Rightarrow> string \<Rightarrow> playlist_model list res" where
  "get_featured_playlists api genre_id =
     bindR (api ''playlist_getFeatured''
              ([(''type'', StrJ ''editor-picks'')]
               @ (if genre_id \<noteq> ''None'' then [(''genre_id'', StrJ genre_id)] else []) @ [(''limit'', general_slice)])) (\<lambda>data.
     bindR (if jt_true data then jt_in ''playlists'' data else Inr False) (\<lambda>b.
       if b then jt_map parse_playlist data [''playlists'', ''items''] else Inr []))"

text \<open>The items of one kind in the featured catalog; the objects are shown right away.\<close>

definition featured_of :: "json \<Rightarrow> string \<Rightarrow> (json \<Rightarrow> 'a res) \<Rightarrow> 'a list res" where
  "featured_of data k parse = bindR (jt_in k data) (\<lambda>b. if b then jt_map parse data [k, ''items''] else Inr [])"

definition get_featured_items :: "qapi \<Rightarrow> string \<Rightarrow> item_model list res" where
  "get_featured_items api content_type =
     bindR (api ''catalog_getFeatured'' [(''limit'', general_slice)]) (\<lambda>data.
       if content_type = ''artists'' then bindR (featured_of data ''artists'' parse_artist) (\<lambda>xs. Inr (map artist_item xs))
       else if content_type = ''playlists''
       then bindR (featured_of data ''playlists'' parse_playlist) (\<lambda>xs. Inr (map playlist_item xs))
       else if content_type = ''albums''
       then bindR (featured_of data ''albums'' parse_album0) (\<lambda>xs. Inr (map album_item xs))
       else Inr [])"

definition get_genres :: "qapi \<Rightarrow> item_model list res" where
  "get_genres api =
     bindR (api ''genre_list'' [(''parent_id'', NullJ)]) (\<lambda>data.
     bindR (jt_map parse_genre data [''genres'', ''items'']) (\<lambda>genres.
       Inr (plain_item ''None'' ''All Genres'' None # genres)))"

section \<open>Search\<close>

definition search_limits :: "string \<Rightarrow> nat \<times> nat" where
  "search_limits tp =
     (if tp = ''artists'' then (20, 20) else if tp = ''albums'' \<or> tp = ''playlists'' then (50, 50) else (200, 200))"

lemma search_slice_pos [simp]: "0 < snd (search_limits tp)"
  by (simp add: search_limits_def)

text \<open>The objects of one page, and how many there were before the unavailable albums were dropped.\<close>

definition search_page :: "string \<Rightarrow> json \<Rightarrow> (nat \<times> search_result) res" where
  "search_page tp data =
     (if tp = ''artists'' then
        bindR (bindR (jt_path data [''artists'', ''items'']) jt_len) (\<lambda>n.
        bindR (jt_map parse_artist data [''artists'', ''items'']) (\<lambda>xs. Inr (n, sr_empty\<lparr>sr_artists := xs\<rparr>)))
      else if tp = ''albums'' then
        bindR (bindR (jt_path data [''albums'', ''items'']) jt_len) (\<lambda>n.
        bindR (jt_map parse_album0 data [''albums'', ''items'']) (\<lambda>xs.
          Inr (n, sr_empty\<lparr>sr_albums := filter alb_available xs\<rparr>)))
      else if tp = ''playlists'' then
        bindR (bindR (jt_path data [''playlists'', ''items'']) jt_len) (\<lambda>n.
        bindR (jt_map parse_playlist data [''playlists'', ''items'']) (\<lambda>xs. Inr (n, sr_empty\<lparr>sr_playlists := xs\<rparr>)))
      else if tp = ''tracks'' then
        bindR (bindR (jt_path data [''tracks'', ''items'']) jt_len) (\<lambda>n.
        bindR (jt_map parse_track0 data [''tracks'', ''items'']) (\<lambda>xs. Inr (n, sr_empty\<lparr>sr_tracks := xs\<rparr>)))
      else Inr (0, sr_empty))"

definition sr_append :: "search_result \<Rightarrow> search_result \<Rightarrow> search_result" where
  "sr_append r s =
     \<lparr>sr_artists = sr_artists r @ sr_artists s, sr_albums = sr_albums r @ sr_albums s,
      sr_tracks = sr_tracks r @ sr_tracks s, sr_playlists = sr_playlists r @ sr_playlists s\<rparr>"

function search_loop :: "qapi \<Rightarrow> string \<Rightarrow> string \<Rightarrow> nat \<Rightarrow> search_result \<Rightarrow> search_result res" where
  "search_loop api query tp offset all =
     (if offset < fst (search_limits tp) then
        bindR (api ''catalog_search'' [(''query'', StrJ query), (''type'', StrJ tp), (''offset'', IntJ (int offset)),
                 (''limit'', IntJ (int (snd (search_limits tp))))]) (\<lambda>data.
          case search_page tp data of
            Inl _ \<Rightarrow> Inr all
          | Inr (ncnt, ndata) \<Rightarrow>
              let all = sr_append all ndata in
              if ncnt < snd (search_limits tp) then Inr all
              else search_loop api query tp (offset + snd (search_limits tp)) all)
      else Inr all)"
  by pat_completeness auto
termination
  by (relation "measure (\<lambda>(api, query, tp, offset, all). fst (search_limits tp) - offset)")
    (simp_all add: diff_less_mono2)

declare search_loop.simps [simp del]

text \<open>For another kind the search returns nothing, and its caller fails on it.\<close>

definition search1 :: "qapi \<Rightarrow> string \<Rightarrow> string \<Rightarrow> search_result res" where
  "search1 api query tp =
     bindR (search_loop api query tp 0 sr_empty) (\<lambda>r.
       if tp \<in> set [''artists'', ''albums'', ''playlists'', ''tracks''] then Inr r else Inl AttributeError)"

definition session_search :: "qapi \<Rightarrow> string \<Rightarrow> string option \<Rightarrow> search_result res" where
  "session_search api query tp =
     (if truthy tp then search1 api query (the tp)
      else bindR (search1 api query ''artists'') (\<lambda>r1.
           bindR (search1 api query ''albums'') (\<lambda>r2.
           bindR (search1 api query ''tracks'') (\<lambda>r3.
           bindR (search1 api query ''playlists'') (\<lambda>r4.
             Inr \<lparr>sr_artists = sr_artists r1, sr_albums = sr_albums r2, sr_tracks = sr_tracks r3,
                  sr_playlists = sr_playlists r4\<rparr>)))))"

section \<open>Favourites\<close>

definition favorite_pages :: "qapi \<Rightarrow> json \<Rightarrow> string \<Rightarrow> (json \<Rightarrow> 'a res) \<Rightarrow> 'a list res option" where
  "favorite_pages api user tp parse =
     loopget 0 (\<lambda>l off. api ''favorite_getUserFavorites'' (page_ka [(''user_id'', user), (''type'', StrJ tp)] l off))
       (\<lambda>r. jt_map parse r [tp, ''items'']) 0 []"

definition fav_artists :: "qapi \<Rightarrow> json \<Rightarrow> artist_model list res option" where
  "fav_artists api user = favorite_pages api user ''artists'' parse_artist"

definition fav_albums :: "qapi \<Rightarrow> json \<Rightarrow> album_model list res option" where
  "fav_albums api user = thenR (favorite_pages api user ''albums'' parse_album0) (\<lambda>xs. Inr (filter alb_available xs))"

definition fav_playlists :: "qapi \<Rightarrow> json \<Rightarrow> playlist_model list res option" where
  "fav_playlists api user =
     loopget 0 (\<lambda>l off. api ''playlist_getUserPlaylists'' (page_ka [(''user_id'', user)] l off))
       (\<lambda>r. jt_map parse_playlist r [''playlists'', ''items'']) 0 []"

definition fav_tracks :: "qapi \<Rightarrow> json \<Rightarrow> track_model list res option" where
  "fav_tracks api user = thenR (favorite_pages api user ''tracks'' parse_track0) (\<lambda>xs. Inr (filter trk_available xs))"

section \<open>The plugin\<close>

definition qobidprefix :: string where
  "qobidprefix = ''0$qobuz$''"

definition qobuz_routes :: "(string \<times> string) list" where
  "qobuz_routes =
     [(''root'', ''/''), (''root_genres'', ''/root_genres''), (''genre_view'', ''/genre/<genre_id>''),
      (''genre_view_type'', ''/featured/<genre_id>/<type>''), (''genre_view_playlists'', ''/featured_playlists/<genre_id>''),
      (''whats_new'', ''/whats_new''), (''featured'', ''/featured/<content_type>''), (''my_music'', ''/my_music''),
      (''album_view'', ''/album/<album_id>''), (''playlist_view'', ''/playlist/<playlist_id>''),
      (''artist_view'', ''/artist/<artist_id>''), (''similar_artists'', ''/artist/<artist_id>/similar''),
      (''favourite_tracks'', ''/favourite_tracks''), (''favourite_artists'', ''/favourite_artists''),
      (''favourite_albums'', ''/favourite_albums''), (''favourite_playlists'', ''/favourite_playlists'')]"

definition qobuz_plugin :: route_plugin where
  "qobuz_plugin = the_plugin qobuz_routes"

text \<open>A logged in session: the service, the user, and what the entries of tracks need.\<close>

record qobuz_session =
  qs_env :: svc_env
  qs_api :: qapi
  qs_user :: "json option"

definition qobuz_xp :: "string \<Rightarrow> xbmc_plugin" where
  "qobuz_xp objid = \<lparr>xp_idprefix = qobidprefix, xp_routeplug = Some qobuz_plugin, xp_objid = objid\<rparr>"

definition q_albums :: "xbmc_plugin \<Rightarrow> album_model list \<Rightarrow> entry list res" where
  "q_albums xp items = xp_items xp ''album_view'' (map album_item items)"

definition q_artists :: "xbmc_plugin \<Rightarrow> artist_model list \<Rightarrow> entry list res" where
  "q_artists xp items = xp_items xp ''artist_view'' (map artist_item items)"

definition q_playlists :: "xbmc_plugin \<Rightarrow> playlist_model list \<Rightarrow> entry list res" where
  "q_playlists xp items = xp_items xp ''playlist_view'' (map playlist_item items)"

definition root :: "xbmc_plugin \<Rightarrow> entry list res" where
  "root xp = mapR (\<lambda>(t, f). add_view xp t f)
     [(''Discover Catalog'', ''whats_new''), (''Discover Genres'', ''root_genres''), (''Favourites'', ''my_music'')]"

definition root_genres :: "xbmc_plugin \<Rightarrow> qobuz_session \<Rightarrow> entry list res" where
  "root_genres xp s = bindR (get_genres (qs_api s)) (xp_items xp ''genre_view'')"

definition genre_dirs :: "string \<Rightarrow> (string \<times> string \<times> string list \<times> string list) list" where
  "genre_dirs genre_id =
     [(''New Releases'', ''genre_view_type'', [''genre_id'', ''type''], [genre_id, ''new-releases'']),
      (''Qobuz Playlists'', ''genre_view_playlists'', [''genre_id''], [genre_id]),
      (''Most Streamed'', ''genre_view_type'', [''genre_id'', ''type''], [genre_id, ''most-streamed'']),
      (''Most Downloaded'', ''genre_view_type'', [''genre_id'', ''type''], [genre_id, ''best-sellers'']),
      (''Editor Picks'', ''genre_view_type'', [''genre_id'', ''type''], [genre_id, ''editor-picks'']),
      (''Press Awards'', ''genre_view_type'', [''genre_id'', ''type''], [genre_id, ''press-awards''])]"

definition genre_view :: "xbmc_plugin \<Rightarrow> qobuz_session \<Rightarrow> string \<Rightarrow> entry list res" where
  "genre_view xp s genre_id =
     concatR
       [mapR (\<lambda>(t, f, ks, args). add_url xp qobuz_plugin t f [] (zip ks args)) (genre_dirs genre_id),
        bindR (get_featured_albums (qs_api s) genre_id ''new-releases'') (q_albums xp)]"

definition genre_view_type :: "xbmc_plugin \<Rightarrow> qobuz_session \<Rightarrow> string \<Rightarrow> string \<Rightarrow> entry list res" where
  "genre_view_type xp s genre_id tp = bindR (get_featured_albums (qs_api s) genre_id tp) (q_albums xp)"

definition genre_view_playlists :: "xbmc_plugin \<Rightarrow> qobuz_session \<Rightarrow> string \<Rightarrow> entry list res" where
  "genre_view_playlists xp s genre_id = bindR (get_featured_playlists (qs_api s) genre_id) (q_playlists xp)"

definition whats_new_dirs :: "(string \<times> string \<times> string list \<times> string list) list" where
  "whats_new_dirs =
     [(''Playlists'', ''featured'', [''content_type''], [''playlists'']),
      (''Albums'', ''featured'', [''content_type''], [''albums'']),
      (''Artists'', ''featured'', [''content_type''], [''artists''])]"

definition whats_new :: "xbmc_plugin \<Rightarrow> entry list res" where
  "whats_new xp = mapR (\<lambda>(t, f, ks, args). add_url xp qobuz_plugin t f [] (zip ks args)) whats_new_dirs"

definition featured :: "xbmc_plugin \<Rightarrow> qobuz_session \<Rightarrow> string \<Rightarrow> entry list res" where
  "featured xp s content_type =
     bindR (get_featured_items (qs_api s) content_type) (\<lambda>items.
       if content_type = ''artists'' then xp_items xp ''artist_view'' items
       else if content_type = ''albums'' then xp_items xp ''album_view'' items
       else if content_type = ''playlists'' then xp_items xp ''playlist_view'' items
       else Inr [])"

definition my_music :: "xbmc_plugin \<Rightarrow> entry list res" where
  "my_music xp = mapR (\<lambda>(t, f). add_view xp t f)
     [(''Albums'', ''favourite_albums''), (''Tracks'', ''favourite_tracks''), (''Artists'', ''favourite_artists''),
      (''Playlists'', ''favourite_playlists'')]"

definition album_view :: "xbmc_plugin \<Rightarrow> qobuz_session \<Rightarrow> string \<Rightarrow> entry list res" where
  "album_view xp s album_id = bindR (get_album_tracks (qs_api s) album_id) (xp_tracks xp (qs_env s))"

definition playlist_view :: "xbmc_plugin \<Rightarrow> qobuz_session \<Rightarrow> string \<Rightarrow> entry list res option" where
  "playlist_view xp s playlist_id = thenR (get_playlist_tracks (qs_api s) playlist_id) (xp_tracks xp (qs_env s))"

definition artist_view :: "xbmc_plugin \<Rightarrow> qobuz_session \<Rightarrow> string \<Rightarrow> entry list res" where
  "artist_view xp s artist_id =
     concatR
       [mapR (\<lambda>(t, f, ks, args). add_url xp qobuz_plugin t f args [])
          [(''Similar Artists'', ''similar_artists'', [''artist_id''], [artist_id])],
        bindR (get_artist_albums (qs_api s) artist_id) (q_albums xp)]"

definition similar_artists :: "xbmc_plugin \<Rightarrow> qobuz_session \<Rightarrow> string \<Rightarrow> entry list res" where
  "similar_artists xp s artist_id = bindR (get_artist_similar (qs_api s) artist_id) (q_artists xp)"

text \<open>Without a login there is no user to ask for favourites.\<close>

definition with_user :: "qobuz_session \<Rightarrow> (json \<Rightarrow> 'a res option) \<Rightarrow> 'a res option" where
  "with_user s f = (case qs_user s of None \<Rightarrow> Some (Inl AttributeError) | Some user \<Rightarrow> f user)"

definition favourite_tracks :: "xbmc_plugin \<Rightarrow> qobuz_session \<Rightarrow> entry list res option" where
  "favourite_tracks xp s = thenR (with_user s (fav_tracks (qs_api s))) (xp_tracks xp (qs_env s))"

text \<open>Here an exception is caught, and nothing is listed.\<close>

definition favourite_artists :: "xbmc_plugin \<Rightarrow> qobuz_session \<Rightarrow> entry list res option" where
  "favourite_artists xp s =
     map_option (\<lambda>r. case r of Inl _ \<Rightarrow> Inr [] | Inr items \<Rightarrow> if items \<noteq> [] then q_artists xp items else Inr [])
       (with_user s (fav_artists (qs_api s)))"

definition favourite_albums :: "xbmc_plugin \<Rightarrow> qobuz_session \<Rightarrow> entry list res option" where
  "favourite_albums xp s = thenR (with_user s (fav_albums (qs_api s))) (q_albums xp)"

definition favourite_playlists :: "xbmc_plugin \<Rightarrow> qobuz_session \<Rightarrow> entry list res option" where
  "favourite_playlists xp s = thenR (with_user s (fav_playlists (qs_api s))) (q_playlists xp)"

text \<open>The call of the view that a URL was dispatched to.\<close>

definition qobuz_views :: "qobuz_session \<Rightarrow> string \<Rightarrow> string \<Rightarrow> (string \<times> string) list \<Rightarrow> entry list res option" where
  "qobuz_views s objid f kw =
     (let xp = qobuz_xp objid in
      if f = ''root'' then Some (root xp)
      else if f = ''root_genres'' then Some (root_genres xp s)
      else if f = ''genre_view'' then Some (bindR (kw_arg kw ''genre_id'') (genre_view xp s))
      else if f = ''genre_view_type''
      then Some (bindR (kw_arg kw ''genre_id'') (\<lambda>g. bindR (kw_arg kw ''type'') (genre_view_type xp s g)))
      else if f = ''genre_view_playlists'' then Some (bindR (kw_arg kw ''genre_id'') (genre_view_playlists xp s))
      else if f = ''whats_new'' then Some (whats_new xp)
      else if f = ''featured'' then Some (bindR (kw_arg kw ''content_type'') (featured xp s))
      else if f = ''my_music'' then Some (my_music xp)
      else if f = ''album_view'' then Some (bindR (kw_arg kw ''album_id'') (album_view xp s))
      else if f = ''playlist_view''
      then (case kw_arg kw ''playlist_id'' of Inl e \<Rightarrow> Some (Inl e) | Inr p \<Rightarrow> playlist_view xp s p)
      else if f = ''artist_view'' then Some (bindR (kw_arg kw ''artist_id'') (artist_view xp s))
      else if f = ''similar_artists'' then Some (bindR (kw_arg kw ''artist_id'') (similar_artists xp s))
      else if f = ''favourite_tracks'' then favourite_tracks xp s
      else if f = ''favourite_artists'' then favourite_artists xp s
      else if f = ''favourite_albums'' then favourite_albums xp s
      else if f = ''favourite_playlists'' then favourite_playlists xp s
      else Some (Inl NameError))"

text \<open>\<open>track_list([session.get_track(trackid)])\<close>; no track has no \<open>available\<close>.\<close>

definition qobuz_meta :: "qobuz_session \<Rightarrow> string \<Rightarrow> string \<Rightarrow> entry list res" where
  "qobuz_meta s objid trackid =
     bindR (get_track (qs_api s) trackid) (\<lambda>t.
       case t of None \<Rightarrow> Inl AttributeError | Some t \<Rightarrow> xp_tracks (qobuz_xp objid) (qs_env s) [t])"

text \<open>An unknown kind is searched as tracks; a search for albums also lists the playlists.\<close>

definition qobuz_search :: "qobuz_session \<Rightarrow> string \<Rightarrow> string \<Rightarrow> string option \<Rightarrow> entry list res" where
  "qobuz_search s objid value objkind =
     (let xp = qobuz_xp objid;
          objkind = (if \<not> truthy objkind then None
                     else if the objkind \<in> set [''artist'', ''album'', ''playlist'', ''track''] then objkind
                     else Some ''track'') in
      bindR (session_search (qs_api s) value (map_option (\<lambda>k. k @ ''s'') objkind)) (\<lambda>r.
        concatR
          [if objkind = None \<or> objkind = Some ''artist'' then q_artists xp (sr_artists r) else Inr [],
           if objkind = None \<or> objkind = Some ''album'' then q_albums xp (sr_albums r) else Inr [],
           if objkind = Some ''album''
           then bindR (session_search (qs_api s) value (Some ''playlists'')) (\<lambda>r. q_playlists xp (sr_playlists r))
           else if objkind = None \<or> objkind = Some ''playlist'' then q_playlists xp (sr_playlists r) else Inr [],
           if objkind = None \<or> objkind = Some ''track'' then xp_tracks xp (qs_env s) (sr_tracks r) else Inr []]))"

section \<open>Logging in\<close>

text \<open>What the process keeps: the service object with its login, the user, and the settings.\<close>

record qobuz_app =
  qa_api :: "raw_api option"
  qa_user :: "json option"
  qa_loginok :: bool
  qa_formatid :: int
  qa_env :: svc_env

text \<open>The service outside: requests, hash function, clock and spoofer.\<close>

record qobuz_world =
  qw_http :: http
  qw_md5 :: "string \<Rightarrow> string"
  qw_time :: string
  qw_spoofer :: "string \<times> (string \<times> string) list"

definition session_login ::
  "qobuz_world \<Rightarrow> string \<Rightarrow> string \<Rightarrow> string option \<Rightarrow> string option \<Rightarrow> qobuz_app \<Rightarrow> qobuz_app \<times> bool res" where
  "session_login w username password appid cfvalue app =
     (case (case qa_api app of Some api \<Rightarrow> Inr api | None \<Rightarrow> RawApi_init (qw_spoofer w) appid cfvalue) of
        Inl e \<Rightarrow> (app, Inl e)
      | Inr api \<Rightarrow>
          (case user_login (qw_http w) (qw_md5 w) (qw_time w) api
                  [(''username'', StrJ username), (''password'', StrJ password)] of
             (api, Inl e) \<Rightarrow> (app\<lparr>qa_api := Some api\<rparr>, Inl e)
           | (api, Inr data) \<Rightarrow>
               if jt_true data then (app\<lparr>qa_api := Some api, qa_user := Some (ra_user_id api)\<rparr>, Inr True)
               else (app\<lparr>qa_api := Some api\<rparr>, Inr False)))"

definition session_get_appid :: "qobuz_world \<Rightarrow> qobuz_app \<Rightarrow> qobuz_app \<times> string res" where
  "session_get_appid w app =
     (case qa_api app of
        Some api \<Rightarrow> (app, Inr (ra_appid api))
      | None \<Rightarrow>
          (case RawApi_init (qw_spoofer w) None None of
             Inl e \<Rightarrow> (app, Inl e)
           | Inr api \<Rightarrow> (app\<lparr>qa_api := Some api\<rparr>, Inr (ra_appid api))))"

text \<open>The environment and the configuration, as \<open>maybelogin\<close> reads them.\<close>

record qobuz_conf =
  qc_environ :: "string \<rightharpoonup> string"
  qc_upconfig :: conf
  qc_altconf :: conf

definition qobuz_option :: "qobuz_conf \<Rightarrow> string \<Rightarrow> string option res" where
  "qobuz_option c nm = getOptionValue (qc_upconfig c) (qc_environ c) nm None"

definition need_env :: "qobuz_conf \<Rightarrow> string \<Rightarrow> string res" where
  "need_env c k = (case qc_environ c k of Some v \<Rightarrow> Inr v | None \<Rightarrow> Inl (Raised (''No '' @ k @ '' in environment'')))"

text \<open>All that is read before the login: the settings, the user and password, the application.\<close>

definition qobuz_settings ::
  "qobuz_conf \<Rightarrow> (string \<rightharpoonup> string) \<Rightarrow>
   (svc_env \<times> int \<times> string option \<times> string option \<times> string option \<times> string option) res" where
  "qobuz_settings c a =
     bindR (need_env c ''UPMPD_HTTPHOSTPORT'') (\<lambda>httphp.
     bindR (need_env c ''UPMPD_PATHPREFIX'') (\<lambda>pathprefix.
     bindR (need_env c ''UPMPD_CONFIG'') (\<lambda>_.
     bindR (qobuz_option c ''qobuzformatid'') (\<lambda>fid.
     bindR (qobuz_option c ''qobuzappid'') (\<lambda>appid.
     bindR (qobuz_option c ''qobuzcfvalue'') (\<lambda>cfvalue.
     bindR (case a ''user'' of
              Some u \<Rightarrow> (case a ''password'' of Some p \<Rightarrow> Inr (Some u, Some p) | None \<Rightarrow> Inl KeyError)
            | None \<Rightarrow> getserviceuserpass (qc_upconfig c) (qc_environ c) (qc_altconf c) ''qobuz'') (\<lambda>(username, password).
     bindR (if truthy fid then py_int (the fid) else Inr 6) (\<lambda>formatid.
       Inr (\<lparr>se_httphp = httphp, se_pathprefix = pathprefix,
             se_mime = (if formatid = 5 then ''audio/mpeg'' else ''application/flac''), se_samplerate = ''44100''\<rparr>,
            formatid, username, password, appid, cfvalue)))))))))"

definition maybelogin ::
  "qobuz_world \<Rightarrow> qobuz_conf \<Rightarrow> (string \<rightharpoonup> string) \<Rightarrow> qobuz_app \<Rightarrow> qobuz_app \<times> unit res" where
  "maybelogin w c a app =
     (if qa_loginok app then (app, Inr ())
      else case qobuz_settings c a of
             Inl e \<Rightarrow> (app, Inl e)
           | Inr (env, formatid, username, password, appid, cfvalue) \<Rightarrow>
               let app = app\<lparr>qa_env := env, qa_formatid := formatid\<rparr> in
               if \<not> truthy username \<or> \<not> truthy password
               then (app, Inl (Raised ''maybelogin: qobuzuser and/or qobuzpass not set.''))
               else case session_login w (the username) (the password) appid cfvalue app of
                      (app, Inl e) \<Rightarrow> (app, Inl e)
                    | (app, Inr ok) \<Rightarrow> (app\<lparr>qa_loginok := ok\<rparr>, Inr ()))"

text \<open>The session that the views see after \<open>maybelogin\<close>.\<close>

definition qobuz_session_of :: "qobuz_world \<Rightarrow> qobuz_app \<Rightarrow> qobuz_session" where
  "qobuz_session_of w app =
     \<lparr>qs_env = qa_env app,
      qs_api = (case qa_api app of Some api \<Rightarrow> raw_call (qw_http w) api | None \<Rightarrow> (\<lambda>_ _. Inl AttributeError)),
      qs_user = qa_user app\<rparr>"

definition getappid :: "qobuz_world \<Rightarrow> qobuz_conf \<Rightarrow> qobuz_app \<Rightarrow> qobuz_app \<times> (string \<times> string) list res" where
  "getappid w c app =
     (case qobuz_option c ''qobuzappid'' of
        Inl e \<Rightarrow> (app, Inl e)
      | Inr appid \<Rightarrow>
          if truthy appid then (app, Inr [(''appid'', the appid)])
          else case session_get_appid w app of (app, r) \<Rightarrow> (app, bindR r (\<lambda>i. Inr [(''appid'', i)])))"

definition login ::
  "qobuz_world \<Rightarrow> qobuz_conf \<Rightarrow> (string \<rightharpoonup> string) \<Rightarrow> qobuz_app \<Rightarrow> qobuz_app \<times> (string \<times> json) list res" where
  "login w c a app =
     (case maybelogin w c a app of
        (app, Inl e) \<Rightarrow> (app, Inl e)
      | (app, Inr _) \<Rightarrow>
          (app, case qa_api app of
                  None \<Rightarrow> Inl AttributeError
                | Some api \<Rightarrow> Inr [(''appid'', StrJ (ra_appid api)),
                                (''token'', if ra_token api = NullJ then StrJ [] else ra_token api)]))"

definition get_media_url :: "qobuz_world \<Rightarrow> raw_api \<Rightarrow> string \<Rightarrow> int \<Rightarrow> json res" where
  "get_media_url w api trackid format_id =
     bindR (track_getFileUrl (qw_http w) (qw_md5 w) (qw_time w) api ''stream''
              [(''track_id'', StrJ trackid), (''format_id'', IntJ format_id)]) (\<lambda>url.
     bindR (if jt_true url then jt_in ''url'' url else Inr False) (\<lambda>b.
       if b then jt_get url ''url'' else Inr NullJ))"

definition trackuri ::
  "qobuz_world \<Rightarrow> qobuz_conf \<Rightarrow> (string \<rightharpoonup> string) \<Rightarrow> qobuz_app \<Rightarrow> qobuz_app \<times> (string \<times> json) list res" where
  "trackuri w c a app =
     (case maybelogin w c (\<lambda>_. None) app of
        (app, Inl e) \<Rightarrow> (app, Inl e)
      | (app, Inr _) \<Rightarrow>
          (app, bindR (trackid_from_urlpath (se_pathprefix (qa_env app)) a) (\<lambda>trackid.
            bindR (case qa_api app of None \<Rightarrow> Inl AttributeError | Some api \<Rightarrow> get_media_url w api trackid (qa_formatid app))
              (\<lambda>media_url.
                Inr [(''media_url'', if jt_true media_url then media_url else StrJ []),
                     (''mimetype'', StrJ (if qa_formatid app = 5 then ''audio/mpeg'' else ''application/flac'')),
                     (''kbs'', StrJ (if qa_formatid app = 5 then ''320'' else ''1410''))]))))"

definition browse ::
  "qobuz_world \<Rightarrow> qobuz_conf \<Rightarrow> (string \<rightharpoonup> string) \<Rightarrow> qobuz_app \<Rightarrow> qobuz_app \<times> entry list res option" where
  "browse w c a app =
     (case a ''objid'' of
        None \<Rightarrow> (app, Some (Inl (Raised ''No objid in args'')))
      | Some objid \<Rightarrow>
          if \<not> startswith objid qobidprefix then (app, Some (Inl (Raised ''bad objid'')))
          else case maybelogin w c (\<lambda>_. None) app of
                 (app, r) \<Rightarrow>
                   let s = qobuz_session_of w app in
                   (app, svc_browse qobidprefix qobuz_plugin r (qobuz_meta s) (qobuz_views s) a))"

definition search ::
  "qobuz_world \<Rightarrow> qobuz_conf \<Rightarrow> (string \<rightharpoonup> string) \<Rightarrow> qobuz_app \<Rightarrow> qobuz_app \<times> entry list res" where
  "search w c a app =
     (case (a ''objid'', a ''value'') of
        (Some objid, Some value) \<Rightarrow>
          if \<not> startswith objid qobidprefix then (app, Inl (Raised ''bad objid''))
          else (case maybelogin w c (\<lambda>_. None) app of
                  (app, Inl e) \<Rightarrow> (app, Inl e)
                | (app, Inr _) \<Rightarrow> (app, qobuz_search (qobuz_session_of w app) objid value (a ''objkind'')))
      | _ \<Rightarrow> (app, Inl KeyError))"

section \<open>Pages\<close>

lemma loopget_all:
  fixes parser :: "json \<Rightarrow> 'a list res"
  assumes "loopget mx getter parser offset all = Some (Inr ys)"
    and "\<And>l off js nd. getter l off = Inr js \<Longrightarrow> parser js = Inr nd \<Longrightarrow> list_all P nd" and "list_all P all"
  shows "list_all P ys"
proof -
  let ?good = "\<lambda>(getter :: nat \<Rightarrow> nat \<Rightarrow> json res) (parser :: json \<Rightarrow> 'a list res). \<forall>l off js nd. getter l off = Inr js \<longrightarrow> parser js = Inr nd \<longrightarrow> list_all P nd"
  let ?Q = "\<lambda>(mx :: nat) getter parser (offset :: nat) all (r :: 'a list res). \<forall>ys. r = Inr ys \<longrightarrow> ?good getter parser \<longrightarrow> list_all P all \<longrightarrow> list_all P ys"
  have "?Q mx getter parser offset all (Inr ys)"
  proof (rule loopget.raw_induct [where P = ?Q, OF _ assms(1)], intro allI impI)
    fix loop mx getter parser offset all r ys
    assume IH: "\<And>mx getter parser offset all r. loop mx getter parser offset all = Some r \<Longrightarrow> ?Q mx getter parser offset all r"
      and body: "(if mx = 0 \<or> offset < mx then case getter 20 offset of Inl e \<Rightarrow> Some (Inl e)
          | Inr jsdata \<Rightarrow> (case parser jsdata of Inl x \<Rightarrow> Some (Inr all)
            | Inr ndata \<Rightarrow> if length ndata < 20 then Some (Inr (all @ ndata)) else loop mx getter parser (offset + 20) (all @ ndata))
          else Some (Inr all)) = Some r"
      and r: "r = Inr ys" and good: "?good getter parser" and p: "list_all P all"
    from body r consider "ys = all"
      | js nd where "getter 20 offset = Inr js" "parser js = Inr nd" "ys = all @ nd"
      | js nd where "getter 20 offset = Inr js" "parser js = Inr nd"
          "loop mx getter parser (offset + 20) (all @ nd) = Some (Inr ys)"
      by (auto split: if_splits sum.splits)
    then show "list_all P ys"
    proof cases
      case 2
      have "list_all P nd" using good 2(1,2) by blast
      with 2(3) p show ?thesis by simp
    next
      case 3
      have "list_all P nd" using good 3(1,2) by blast
      then have "list_all P (all @ nd)" using p by simp
      with IH [OF 3(3)] good show ?thesis by blast
    qed (use p in simp)
  qed
  with assms(2,3) show ?thesis by blast
qed

text \<open>A service that has the list \<open>xs\<close> and gives it out in pages.\<close>

definition serves :: "(nat \<Rightarrow> nat \<Rightarrow> json res) \<Rightarrow> (json \<Rightarrow> 'a list res) \<Rightarrow> 'a list \<Rightarrow> bool" where
  "serves getter parser xs \<longleftrightarrow> (\<forall>off. bindR (getter 20 off) parser = Inr (take 20 (drop off xs)))"

lemma page_begins: "(20 :: nat) * k < mx \<longleftrightarrow> k < (mx + 19) div 20"
proof -
  have "Suc k \<le> (mx + 19) div 20 \<longleftrightarrow> Suc k * 20 \<le> mx + 19" by (rule less_eq_div_iff_mult_less_eq) simp
  then show ?thesis by (simp add: Suc_le_eq) arith
qed

lemma loopget_from:
  assumes "serves getter parser xs" and "20 dvd offset"
  shows "loopget mx getter parser offset all =
    Some (Inr (all @ (if mx = 0 then drop offset xs else take (20 * ((mx + 19) div 20) - offset) (drop offset xs))))"
  using assms(2)
proof (induction "length xs - offset" arbitrary: offset all rule: less_induct)
  case less
  have "bindR (getter 20 offset) parser = Inr (take 20 (drop offset xs))"
    using assms(1) unfolding serves_def by (rule spec)
  then obtain js where js: "getter 20 offset = Inr js" "parser js = Inr (take 20 (drop offset xs))"
    unfolding bindR_eq_Inr by blast
  obtain k where k: "offset = 20 * k" using less.prems by blast
  have below: "offset < mx \<longleftrightarrow> k < (mx + 19) div 20" by (simp add: k page_begins)
  have room: "offset + 20 \<le> 20 * ((mx + 19) div 20)" if "offset < mx"
    using that below by (simp add: k)
  consider "mx \<noteq> 0" "\<not> offset < mx" | "mx = 0 \<or> offset < mx" "length (take 20 (drop offset xs)) < 20"
    | "mx = 0 \<or> offset < mx" "20 \<le> length (drop offset xs)"
    by (cases "mx = 0 \<or> offset < mx"; cases "20 \<le> length (drop offset xs)") auto
  then show ?case
  proof cases
    case 1
    then show ?thesis using below by (subst loopget.simps) (simp add: k)
  next
    case 2
    then have "drop offset xs = take 20 (drop offset xs)" by simp
    moreover have "offset < mx \<Longrightarrow> 20 \<le> 20 * ((mx + 19) div 20) - offset" using room by simp
    ultimately show ?thesis using 2 js by (subst loopget.simps) auto
  next
    case 3
    have "loopget mx getter parser (offset + 20) (all @ take 20 (drop offset xs)) =
        Some (Inr ((all @ take 20 (drop offset xs)) @ (if mx = 0 then drop (offset + 20) xs
          else take (20 * ((mx + 19) div 20) - (offset + 20)) (drop (offset + 20) xs))))"
      by (rule less.hyps) (use 3 less.prems in auto)
    moreover have "take 20 (drop offset xs) @ drop (offset + 20) xs = drop offset xs"
      using append_take_drop_id [of 20 "drop offset xs"] by (simp add: add.commute)
    moreover have "take 20 (drop offset xs) @ take (n - (offset + 20)) (drop (offset + 20) xs) = take (n - offset) (drop offset xs)"
      if "offset + 20 \<le> n" for n
      using that take_add [of 20 "n - (offset + 20)" "drop offset xs"] by (simp add: add.commute)
    ultimately show ?thesis using 3 js room by (subst loopget.simps) auto
  qed
qed

text \<open>C27. The loop over the pages of a listing returns for every service with a finite list, and it returns
  the list, in order and without repetition: all of it if there is no limit, and otherwise the whole
  pages that begin below the limit.\<close>

theorem loopget_collects:
  assumes "serves getter parser xs"
  shows "loopget mx getter parser 0 [] =
    Some (Inr (if mx = 0 then xs else take (20 * ((mx + 19) div 20)) xs))"
  using loopget_from [OF assms, of 0 mx "[]"] by simp

definition demo_page :: "nat \<Rightarrow> nat \<Rightarrow> json res" where
  "demo_page l off = Inr (ArrJ (map IntJ (take 20 (drop off [1..45]))))"

theorem loopget_collects_witness:
  "serves demo_page jt_iter (map IntJ [1..45]) \<and>
   loopget 30 demo_page jt_iter 0 [] = Some (Inr (map IntJ [1..40])) \<and>
   loopget 0 demo_page jt_iter 0 [] = Some (Inr (map IntJ [1..45]))"
proof -
  have s: "serves demo_page jt_iter (map IntJ [1..45])"
    by (simp add: serves_def demo_page_def take_map drop_map)
  have "take 40 (map IntJ [1..45]) = map IntJ [1..40]" by code_simp
  with s loopget_collects [OF s, of 30] loopget_collects [OF s, of 0] show ?thesis by simp
qed

text \<open>Against a service that always has another full page the favourites never come.\<close>

lemma loopget_endless:
  fixes parser :: "json \<Rightarrow> 'a list res"
  assumes "\<And>off. \<exists>xs. bindR (getter 20 off) parser = Inr xs \<and> 20 \<le> length xs"
  shows "loopget 0 getter parser offset all = None"
proof (rule ccontr)
  let ?full = "\<lambda>(getter :: nat \<Rightarrow> nat \<Rightarrow> json res) (parser :: json \<Rightarrow> 'a list res). \<forall>off. \<exists>xs. bindR (getter 20 off) parser = Inr xs \<and> 20 \<le> length xs"
  let ?Q = "\<lambda>(mx :: nat) getter parser (offset :: nat) (all :: 'a list) (r :: 'a list res). \<not> (mx = 0 \<and> ?full getter parser)"
  assume "loopget 0 getter parser offset all \<noteq> None"
  then obtain r where r: "loopget 0 getter parser offset all = Some r" by blast
  have "?Q 0 getter parser offset all r"
  proof (rule loopget.raw_induct [where P = ?Q, OF _ r], rule notI)
    fix loop mx getter parser offset all r
    assume IH: "\<And>mx getter parser offset all r. loop mx getter parser offset all = Some r \<Longrightarrow> ?Q mx getter parser offset all r"
      and body: "(if mx = 0 \<or> offset < mx then case getter 20 offset of Inl e \<Rightarrow> Some (Inl e)
          | Inr jsdata \<Rightarrow> (case parser jsdata of Inl x \<Rightarrow> Some (Inr all)
            | Inr ndata \<Rightarrow> if length ndata < 20 then Some (Inr (all @ ndata)) else loop mx getter parser (offset + 20) (all @ ndata))
          else Some (Inr all)) = Some r"
      and full: "mx = (0 :: nat) \<and> ?full getter parser"
    obtain xs where "bindR (getter 20 offset) parser = Inr xs" "20 \<le> length xs" using full by blast
    moreover from this obtain js where "getter 20 offset = Inr js" "parser js = Inr xs" unfolding bindR_eq_Inr by blast
    ultimately have "loop mx getter parser (offset + 20) (all @ xs) = Some r" using body full by simp
    from IH [OF this] full show False by blast
  qed
  with assms show False by blast
qed

section \<open>Identifiers of the objects\<close>

definition ids_good :: "json \<Rightarrow> bool" where
  "ids_good v \<longleftrightarrow> ids_ok [''id''] v"

lemma ids_good_id: "ids_good v \<Longrightarrow> jt_get v ''id'' = Inr w \<Longrightarrow> jt_str w = Inr i \<Longrightarrow> good_arg i"
  by (auto simp: ids_good_def dest: ids_ok_get_id)

lemma ids_good_map:
  "ids_good v \<Longrightarrow> jt_map parse v ps = Inr ys \<Longrightarrow>
   (\<And>d y. ids_good d \<Longrightarrow> parse d = Inr y \<Longrightarrow> P y) \<Longrightarrow> list_all P ys"
  unfolding ids_good_def by (rule ids_ok_map)

lemma parse_artist_id: "ids_good d \<Longrightarrow> parse_artist d = Inr a \<Longrightarrow> good_arg (art_id a)"
  by (auto simp: parse_artist_def artist_defaults_def bindR_eq_Inr dest: ids_good_id)

lemma parse_genre_id: "ids_good d \<Longrightarrow> parse_genre d = Inr g \<Longrightarrow> good_arg (it_id g)"
  by (auto simp: parse_genre_def plain_item_def bindR_eq_Inr dest: ids_good_id)

lemma parse_album_id: "ids_good d \<Longrightarrow> parse_album0 d = Inr a \<Longrightarrow> good_arg (alb_id a)"
  unfolding parse_album0_def parse_album_def bindR_eq_Inr by (auto dest: ids_good_id)

lemma parse_playlist_id: "ids_good d \<Longrightarrow> parse_playlist d = Inr p \<Longrightarrow> good_arg (pl_id p)"
  by (auto simp: parse_playlist_def playlist_defaults_def bindR_eq_Inr dest: ids_good_id)

lemmas parse_ids = parse_artist_id parse_genre_id parse_album_id parse_playlist_id

definition answers_good :: "qapi \<Rightarrow> bool" where
  "answers_good api \<longleftrightarrow> (\<forall>nm ka v. api nm ka = Inr v \<longrightarrow> ids_good v)"

lemma answers_goodD: "api nm ka = Inr v \<Longrightarrow> answers_good api \<Longrightarrow> ids_good v"
  by (auto simp: answers_good_def)

definition good_albums :: "album_model list \<Rightarrow> bool" where
  "good_albums xs \<longleftrightarrow> list_all (\<lambda>a. good_arg (alb_id a)) xs"

definition good_artists :: "artist_model list \<Rightarrow> bool" where
  "good_artists xs \<longleftrightarrow> list_all (\<lambda>a. good_arg (art_id a)) xs"

definition good_playlists :: "playlist_model list \<Rightarrow> bool" where
  "good_playlists xs \<longleftrightarrow> list_all (\<lambda>p. good_arg (pl_id p)) xs"

lemma good_filter [simp]: "good_albums xs \<Longrightarrow> good_albums (filter P xs)"
  by (auto simp: good_albums_def list_all_iff)

lemma good_append [simp]:
  "good_albums (xs @ ys) \<longleftrightarrow> good_albums xs \<and> good_albums ys"
  "good_artists (as @ bs) \<longleftrightarrow> good_artists as \<and> good_artists bs"
  "good_playlists (ps @ qs) \<longleftrightarrow> good_playlists ps \<and> good_playlists qs"
  "good_albums []" "good_artists []" "good_playlists []"
  by (auto simp: good_albums_def good_artists_def good_playlists_def)

lemma map_good:
  "jt_map parse_album0 v ps = Inr xs \<Longrightarrow> ids_good v \<Longrightarrow> good_albums xs"
  "jt_map parse_artist v ps = Inr as \<Longrightarrow> ids_good v \<Longrightarrow> good_artists as"
  "jt_map parse_playlist v ps = Inr pls \<Longrightarrow> ids_good v \<Longrightarrow> good_playlists pls"
  "jt_map parse_genre v ps = Inr gs \<Longrightarrow> ids_good v \<Longrightarrow> list_all (\<lambda>i. good_arg (it_id i)) gs"
  using ids_good_map [of v parse_album0 ps xs, OF _ _ parse_album_id] ids_good_map [of v parse_artist ps as, OF _ _ parse_artist_id]
    ids_good_map [of v parse_playlist ps pls, OF _ _ parse_playlist_id] ids_good_map [of v parse_genre ps gs, OF _ _ parse_genre_id]
  by (simp_all add: good_albums_def good_artists_def good_playlists_def)

lemma good_items [simp]:
  "list_all (\<lambda>i. good_arg (it_id i)) (map album_item albums) \<longleftrightarrow> good_albums albums"
  "list_all (\<lambda>i. good_arg (it_id i)) (map artist_item artists) \<longleftrightarrow> good_artists artists"
  "list_all (\<lambda>i. good_arg (it_id i)) (map playlist_item playlists) \<longleftrightarrow> good_playlists playlists"
  by (simp_all add: list.pred_map comp_def album_item_def artist_item_def playlist_item_def good_albums_def
      good_artists_def good_playlists_def)

section \<open>Every listing of the plugin leads on\<close>

lemma qobuz_routes_ok: "routes_ok qobuz_plugin"
  by code_simp

lemma qobuz_keys:
  "map (view_keys qobuz_plugin)
     [''root_genres'', ''genre_view'', ''genre_view_type'', ''genre_view_playlists'', ''whats_new'', ''featured'',
      ''my_music'', ''album_view'', ''playlist_view'', ''artist_view'', ''similar_artists'',
      ''favourite_tracks'', ''favourite_artists'', ''favourite_albums'', ''favourite_playlists''] =
   map Some [[], [''genre_id''], [''genre_id'', ''type''], [''genre_id''], [], [''content_type''],
      [], [''album_id''], [''playlist_id''], [''artist_id''], [''artist_id''], [], [], [], []]"
  by code_simp

lemma qobuz_args:
  "list_all good_arg [''new-releases'', ''most-streamed'', ''best-sellers'', ''editor-picks'', ''press-awards'',
     ''playlists'', ''albums'', ''artists'', ''None'']"
  by code_simp

lemmas qobuz_table [simp] = qobuz_keys [simplified] qobuz_args [simplified]

lemma qobuz_routed [simp]: "routed qobuz_plugin qobidprefix (qobuz_xp objid)"
  by (simp add: routed_def qobuz_xp_def qobuz_routes_ok)

lemma q_lists:
  "good_albums albums \<Longrightarrow> lists_ok qobuz_plugin qobidprefix (q_albums (qobuz_xp objid) albums)"
  "good_artists artists \<Longrightarrow> lists_ok qobuz_plugin qobidprefix (q_artists (qobuz_xp objid) artists)"
  "good_playlists playlists \<Longrightarrow> lists_ok qobuz_plugin qobidprefix (q_playlists (qobuz_xp objid) playlists)"
  using lists_items [OF qobuz_routed, of _ _ _ objid]
  by (simp_all add: q_albums_def q_artists_def q_playlists_def)

lemma artist_albums_good: "get_artist_albums api i = Inr albums \<Longrightarrow> answers_good api \<Longrightarrow> good_albums albums"
  by (auto simp: get_artist_albums_def bindR_eq_Inr split: if_splits dest!: answers_goodD map_good(1))

lemma featured_albums_good:
  assumes "get_featured_albums api g t = Inr albums" and "answers_good api"
  shows "good_albums albums"
proof -
  from assms(1) obtain data ka where data: "api ''album_getFeatured'' ka = Inr data"
      "(case jt_map parse_album0 data [''albums'', ''items''] of Inr albums \<Rightarrow> Inr (filter alb_available albums) | Inl _ \<Rightarrow> Inr []) = (Inr albums :: album_model list res)"
    unfolding get_featured_albums_def bindR_eq_Inr by (elim exE conjE) (rule that, assumption+)
  have "ids_good data" using data(1) assms(2) by (rule answers_goodD)
  with data(2) show ?thesis
    by (cases "jt_map parse_album0 data [''albums'', ''items'']") (auto dest!: map_good(1))
qed

lemma artist_similar_good: "get_artist_similar api i = Inr artists \<Longrightarrow> answers_good api \<Longrightarrow> good_artists artists"
  unfolding get_artist_similar_def by (auto simp: bindR_eq_Inr split: if_splits dest!: answers_goodD map_good(2))

lemma featured_playlists_good:
  "get_featured_playlists api g = Inr playlists \<Longrightarrow> answers_good api \<Longrightarrow> good_playlists playlists"
  unfolding get_featured_playlists_def by (auto simp: bindR_eq_Inr split: if_splits dest!: answers_goodD map_good(3))

lemma genres_good: "get_genres api = Inr genres \<Longrightarrow> answers_good api \<Longrightarrow> list_all (\<lambda>i. good_arg (it_id i)) genres"
  by (auto simp: get_genres_def plain_item_def bindR_eq_Inr dest!: answers_goodD map_good(4))

lemma featured_good:
  assumes "get_featured_items api t = Inr items" and "answers_good api"
  shows "list_all (\<lambda>i. good_arg (it_id i)) items"
proof -
  obtain data where "ids_good data"
    and r: "(if t = ''artists'' then bindR (featured_of data ''artists'' parse_artist) (\<lambda>xs. Inr (map artist_item xs))
       else if t = ''playlists''
       then bindR (featured_of data ''playlists'' parse_playlist) (\<lambda>xs. Inr (map playlist_item xs))
       else if t = ''albums''
       then bindR (featured_of data ''albums'' parse_album0) (\<lambda>xs. Inr (map album_item xs))
       else Inr []) = Inr items"
    using assms unfolding get_featured_items_def bindR_eq_Inr [of "api nm ka" for nm ka] by (blast dest: answers_goodD)
  from r show ?thesis
    by (auto simp: featured_of_def bindR_eq_Inr split: if_splits dest!: map_good(1-3) [OF _ \<open>ids_good data\<close>])
qed

lemma fav_artists_good: "fav_artists api user = Some (Inr artists) \<Longrightarrow> answers_good api \<Longrightarrow> good_artists artists"
  unfolding fav_artists_def favorite_pages_def good_artists_def
  by (erule loopget_all) (auto dest!: answers_goodD map_good(2) simp: good_artists_def)

lemma fav_albums_good:
  assumes "fav_albums api user = Some (Inr albums)" and "answers_good api"
  shows "good_albums albums"
proof -
  obtain xs where xs: "favorite_pages api user ''albums'' parse_album0 = Some (Inr xs)" "albums = filter alb_available xs"
    using assms(1) by (auto simp: fav_albums_def thenR_def bindR_eq_Inr)
  have "good_albums xs" using xs(1) unfolding favorite_pages_def good_albums_def
    by (rule loopget_all) (use assms(2) in \<open>auto dest!: answers_goodD map_good(1) simp: good_albums_def\<close>)
  then show ?thesis by (simp add: xs(2))
qed

lemma fav_playlists_good: "fav_playlists api user = Some (Inr playlists) \<Longrightarrow> answers_good api \<Longrightarrow> good_playlists playlists"
  unfolding fav_playlists_def good_playlists_def
  by (erule loopget_all) (auto dest!: answers_goodD map_good(3) simp: good_playlists_def)

lemmas session_good = artist_albums_good featured_albums_good artist_similar_good featured_playlists_good
  genres_good featured_good

text \<open>The views one by one.\<close>

lemma fixed_lists:
  "lists_ok qobuz_plugin qobidprefix (root (qobuz_xp objid))"
  "lists_ok qobuz_plugin qobidprefix (my_music (qobuz_xp objid))"
  "lists_ok qobuz_plugin qobidprefix (whats_new (qobuz_xp objid))"
  unfolding root_def my_music_def whats_new_def whats_new_dirs_def
  by (rule lists_views lists_urls, rule qobuz_routed, simp)+

lemma genre_lists:
  assumes "answers_good (qs_api s)"
  shows "lists_ok qobuz_plugin qobidprefix (root_genres (qobuz_xp objid) s)"
    and "good_arg g \<Longrightarrow> lists_ok qobuz_plugin qobidprefix (genre_view (qobuz_xp objid) s g)"
    and "lists_ok qobuz_plugin qobidprefix (genre_view_type (qobuz_xp objid) s g t)"
    and "lists_ok qobuz_plugin qobidprefix (genre_view_playlists (qobuz_xp objid) s g)"
    and "lists_ok qobuz_plugin qobidprefix (featured (qobuz_xp objid) s t)"
proof -
  have items: "view_keys qobuz_plugin f = Some [k] \<Longrightarrow> list_all (\<lambda>i. good_arg (it_id i)) items \<Longrightarrow>
      lists_ok qobuz_plugin qobidprefix (xp_items (qobuz_xp objid) f items)" for f k items
    by (rule lists_items [OF qobuz_routed])
  have albums: "lists_ok qobuz_plugin qobidprefix (bindR (get_featured_albums (qs_api s) g t) (q_albums (qobuz_xp objid)))" for g t
    by (rule lists_bind) (rule q_lists, erule featured_albums_good, rule assms)
  show "lists_ok qobuz_plugin qobidprefix (root_genres (qobuz_xp objid) s)" unfolding root_genres_def
    by (rule lists_bind) (rule items [where k = "''genre_id''"], simp, erule genres_good, rule assms)
  show "lists_ok qobuz_plugin qobidprefix (genre_view (qobuz_xp objid) s g)" if "good_arg g"
  proof -
    have "lists_ok qobuz_plugin qobidprefix
        (mapR (\<lambda>(t, f, ks, args). add_url (qobuz_xp objid) qobuz_plugin t f [] (zip ks args)) (genre_dirs g))"
      by (rule lists_urls [OF qobuz_routed]) (simp add: genre_dirs_def that)
    with albums show ?thesis unfolding genre_view_def by (intro lists_concat) simp
  qed
  show "lists_ok qobuz_plugin qobidprefix (genre_view_type (qobuz_xp objid) s g t)"
    unfolding genre_view_type_def by (rule albums)
  show "lists_ok qobuz_plugin qobidprefix (genre_view_playlists (qobuz_xp objid) s g)" unfolding genre_view_playlists_def
    by (rule lists_bind) (rule q_lists, erule featured_playlists_good, rule assms)
  show "lists_ok qobuz_plugin qobidprefix (featured (qobuz_xp objid) s t)" unfolding featured_def
    by (intro lists_bind lists_if lists_Nil; (rule items, simp, erule featured_good, rule assms))
qed

lemma artist_lists:
  assumes "answers_good (qs_api s)"
  shows "good_arg i \<Longrightarrow> lists_ok qobuz_plugin qobidprefix (artist_view (qobuz_xp objid) s i)"
    and "lists_ok qobuz_plugin qobidprefix (similar_artists (qobuz_xp objid) s i)"
proof -
  have "lists_ok qobuz_plugin qobidprefix (bindR (get_artist_albums (qs_api s) i) (q_albums (qobuz_xp objid)))"
    by (rule lists_bind) (rule q_lists, erule artist_albums_good, rule assms)
  moreover have "good_arg i \<Longrightarrow> lists_ok qobuz_plugin qobidprefix
      (mapR (\<lambda>(t, f, ks, args). add_url (qobuz_xp objid) qobuz_plugin t f args [])
        [(''Similar Artists'', ''similar_artists'', [''artist_id''], [i])])"
    by (rule lists_urls [OF qobuz_routed]) simp
  ultimately show "good_arg i \<Longrightarrow> lists_ok qobuz_plugin qobidprefix (artist_view (qobuz_xp objid) s i)"
    unfolding artist_view_def by (intro lists_concat) simp
  show "lists_ok qobuz_plugin qobidprefix (similar_artists (qobuz_xp objid) s i)" unfolding similar_artists_def
    by (rule lists_bind) (rule q_lists, erule artist_similar_good, rule assms)
qed

lemma with_user_Inr: "with_user s f = Some (Inr x) \<Longrightarrow> \<exists>user. f user = Some (Inr x)"
  by (auto simp: with_user_def split: option.splits)

lemma favourite_lists:
  assumes "answers_good (qs_api s)"
  shows "returns_ok qobuz_plugin qobidprefix (favourite_artists (qobuz_xp objid) s)"
    and "returns_ok qobuz_plugin qobidprefix (favourite_albums (qobuz_xp objid) s)"
    and "returns_ok qobuz_plugin qobidprefix (favourite_playlists (qobuz_xp objid) s)"
proof -
  show "returns_ok qobuz_plugin qobidprefix (favourite_artists (qobuz_xp objid) s)"
  proof (cases "with_user s (fav_artists (qs_api s))")
    case (Some r)
    have "good_artists items" if "r = Inr items" for items
    proof -
      from Some that obtain user where "fav_artists (qs_api s) user = Some (Inr items)" by (auto dest: with_user_Inr)
      then show ?thesis using assms by (rule fav_artists_good)
    qed
    then show ?thesis
      unfolding favourite_artists_def Some by (cases r) (auto intro!: returns_Some q_lists lists_Nil)
  qed (simp add: favourite_artists_def returns_ok_def)
  show "returns_ok qobuz_plugin qobidprefix (favourite_albums (qobuz_xp objid) s)" unfolding favourite_albums_def
    by (rule returns_then, drule with_user_Inr, elim exE, rule q_lists, erule fav_albums_good, rule assms)
  show "returns_ok qobuz_plugin qobidprefix (favourite_playlists (qobuz_xp objid) s)" unfolding favourite_playlists_def
    by (rule returns_then, drule with_user_Inr, elim exE, rule q_lists, erule fav_playlists_good, rule assms)
qed

lemma qobuz_views_listed:
  assumes "answers_good (qs_api s)" and "list_all (\<lambda>(k, v). good_arg v) kw"
  shows "returns_ok qobuz_plugin qobidprefix (qobuz_views s objid f kw)"
proof -
  have "lists_ok qobuz_plugin qobidprefix (album_view (qobuz_xp objid) s i)"
    "returns_ok qobuz_plugin qobidprefix (playlist_view (qobuz_xp objid) s i)"
    "returns_ok qobuz_plugin qobidprefix (favourite_tracks (qobuz_xp objid) s)" for i
    unfolding album_view_def playlist_view_def favourite_tracks_def
    by (rule lists_tracks_bind returns_tracks)+
  note views = this fixed_lists genre_lists [OF assms(1)] artist_lists [OF assms(1)] favourite_lists [OF assms(1)]
  note args = returns_if returns_Some lists_arg [OF assms(2)] returns_arg
  show ?thesis unfolding qobuz_views_def Let_def
    by (intro args views lists_Inl; assumption)
qed

interpretation qz: routed_service qobuz_plugin qobidprefix "\<lambda>s. answers_good (qs_api s)" qobuz_views
proof unfold_locales
  fix s objid f kw es
  assume "answers_good (qs_api s)" "qobuz_views s objid f kw = Some (Inr es)" "list_all (\<lambda>(k, v). good_arg v) kw"
  then show "dirs_made_for qobuz_plugin qobidprefix es"
    using qobuz_views_listed [of s kw objid f] by (simp add: returns_ok_def lists_ok_def)
qed (rule qobuz_routes_ok)

end
