(* ===== verification/Tidal.thy ===== *)
theory Tidal
  imports Service PyInt
begin

text \<open>
  The Tidal plugin: requests to the service and the objects made of its answers
  (\<open>tidal/tidalapi/__init__.py\<close>, \<open>models.py\<close>) and the views (\<open>tidal/tidal-app.py\<close>). The service and the
  random key are parameters. The plugin makes its collecting object without the routes, so every
  directory that is given by a view or by the identifier of an item fails.
\<close>

section \<open>Requests\<close>

type_synonym params = "(string \<times> json) list"

record t_reply =
  tr_ok :: bool
  tr_content :: bool
  tr_json :: "json option"

text \<open>The arguments are the method, the path under the address of the service, parameters, data and headers.\<close>

type_synonym t_http = "string \<Rightarrow> string \<Rightarrow> params \<Rightarrow> params \<Rightarrow> params \<Rightarrow> t_reply res"

record tidal_session =
  td_quality :: string
  td_api_token :: string
  td_session_id :: json
  td_country :: json
  td_user :: "json option"
  td_key :: "string option"

definition preview_token :: string where
  "preview_token = ''8C7kRFdkaRp0dLBp''"

definition Session_init :: "string \<Rightarrow> string option \<Rightarrow> tidal_session" where
  "Session_init quality apitoken =
     \<lparr>td_quality = quality, td_api_token = (case apitoken of Some t \<Rightarrow> t | None \<Rightarrow> ''pl4Vc0hemlAXD0mN''),
      td_session_id = NullJ, td_country = StrJ ''US'', td_user = None, td_key = None\<rparr>"

definition td_logout :: "tidal_session \<Rightarrow> tidal_session" where
  "td_logout s = s\<lparr>td_session_id := NullJ, td_user := None\<rparr>"

definition is_logged_in :: "tidal_session \<Rightarrow> bool" where
  "is_logged_in s \<longleftrightarrow> jt_true (td_session_id s) \<and> jt_true (td_country s) \<and> td_user s \<noteq> None"

definition reply_json :: "t_reply \<Rightarrow> json res" where
  "reply_json r = (case tr_json r of Some v \<Rightarrow> Inr v | None \<Rightarrow> Inl ValueError)"

text \<open>Of the failures after a login that the service accepted, only the answer that is not JSON gets out: the
  message is made of a variable that is not bound then.\<close>

definition td_login :: "t_http \<Rightarrow> string \<Rightarrow> string \<Rightarrow> string \<Rightarrow> tidal_session \<Rightarrow> tidal_session \<times> bool res" where
  "td_login http key username password s =
     (let s = td_logout s in
      if username = [] \<or> password = [] then (s, Inr False)
      else
        let s = (if \<not> truthy (td_key s) then s\<lparr>td_key := Some key\<rparr> else s) in
        case http ''POST'' ''login/username'' []
               [(''username'', StrJ username), (''password'', StrJ password), (''clientUniqueKey'', StrJ (the (td_key s)))]
               [(''X-Tidal-Token'', StrJ (td_api_token s))] of
          Inl e \<Rightarrow> (s, Inl e)
        | Inr r \<Rightarrow>
            if \<not> tr_ok r then (s, Inr (is_logged_in s))
            else case reply_json r of
                   Inl e \<Rightarrow> (s, Inl UnboundLocalError)
                 | Inr body \<Rightarrow>
                     (case jt_get body ''sessionId'' of
                        Inl e \<Rightarrow> let s = td_logout s in (s, Inr (is_logged_in s))
                      | Inr sid \<Rightarrow>
                          (case jt_get body ''countryCode'' of
                             Inl e \<Rightarrow> let s = td_logout s in (s, Inr (is_logged_in s))
                           | Inr cc \<Rightarrow>
                               let s = s\<lparr>td_session_id := sid, td_country := cc\<rparr> in
                               case jt_get body ''userId'' of
                                 Inl e \<Rightarrow> let s = td_logout s in (s, Inr (is_logged_in s))
                               | Inr uid \<Rightarrow> let s = s\<lparr>td_user := Some uid\<rparr> in (s, Inr (is_logged_in s)))))"

definition local_country_code :: "t_http \<Rightarrow> tidal_session \<Rightarrow> json res" where
  "local_country_code http s =
     bindR (http ''GET'' ''country/context'' [(''countryCode'', StrJ ''WW'')] [] [(''X-Tidal-Token'', StrJ (td_api_token s))]) (\<lambda>r.
       if \<not> tr_ok r then Inr (StrJ ''US'') else bindR (reply_json r) (\<lambda>v. jt_find v ''countryCode''))"

definition load_session ::
  "t_http \<Rightarrow> json \<Rightarrow> json \<Rightarrow> json option \<Rightarrow> string option \<Rightarrow> tidal_session \<Rightarrow> tidal_session \<times> unit res" where
  "load_session http session_id country_code user_id unique_key s =
     (let s = s\<lparr>td_session_id := session_id, td_key := unique_key, td_country := country_code\<rparr> in
      case (if jt_true country_code then Inr country_code else local_country_code http s) of
        Inl e \<Rightarrow> (s, Inl e)
      | Inr cc \<Rightarrow>
          (s\<lparr>td_country := cc,
             td_user := (case user_id of Some u \<Rightarrow> if jt_true u then Some u else None | None \<Rightarrow> None)\<rparr>, Inr ()))"

definition dict_update :: "params \<Rightarrow> params \<Rightarrow> params" where
  "dict_update d e = fold (\<lambda>(k, v) d. AList.update k v d) e d"

text \<open>A request without a login carries a token for previews. An answer with a status that is not good
  raises, and so does, since the answer is always written to the log, one that is not JSON.\<close>

definition t_request ::
  "t_http \<Rightarrow> tidal_session \<Rightarrow> string \<Rightarrow> string \<Rightarrow> params \<Rightarrow> params \<Rightarrow> t_reply res" where
  "t_request http s mthd path prms data =
     (let rp = dict_update [(''sessionId'', td_session_id s), (''countryCode'', td_country s), (''limit'', StrJ ''999'')] prms;
          rp = (if is_logged_in s then rp else dict_update rp [(''token'', StrJ preview_token)]);
          rh = (if is_logged_in s then [(''X-Tidal-SessionId'', td_session_id s)] else [])
      in bindR (http mthd path rp data rh) (\<lambda>r.
           if \<not> tr_ok r then Inl (Raised ''HTTPError'')
           else if tr_content r then bindR (reply_json r) (\<lambda>_. Inr r) else Inr r))"

text \<open>What the views use: the answer to a GET request.\<close>

type_synonym tapi = "string \<Rightarrow> params \<Rightarrow> json res"

definition t_get :: "t_http \<Rightarrow> tidal_session \<Rightarrow> tapi" where
  "t_get http s path prms = bindR (t_request http s ''GET'' path prms []) reply_json"

section \<open>Objects of the answers\<close>

definition img_url :: "string \<Rightarrow> string \<Rightarrow> string" where
  "img_url id_type i = ''http://images.osl.wimpmusic.com/im/im?w=512&h=512&'' @ id_type @ ''='' @ i"

definition parse_artist :: "json \<Rightarrow> artist_model res" where
  "parse_artist data =
     bindR (bindR (jt_get data ''id'') jt_str) (\<lambda>i.
     bindR (bindR (jt_get data ''name'') jt_text) (\<lambda>nm.
       Inr \<lparr>art_id = i, art_name = nm, art_image = Some (img_url ''artistid'' i)\<rparr>))"

definition parse_artists :: "json \<Rightarrow> artist_model list res" where
  "parse_artists data = bindR (jt_iter data) (mapR parse_artist)"

text \<open>The list of all artists is only checked: nothing shows it.\<close>

definition parse_album_of :: "json \<Rightarrow> artist_model option \<Rightarrow> album_model res" where
  "parse_album_of data artist =
     bindR (case artist of Some a \<Rightarrow> Inr a
            | None \<Rightarrow> bindR (bindR (jt_get data ''artist'') parse_artist) (\<lambda>a.
                      bindR (bindR (jt_get data ''artists'') parse_artists) (\<lambda>_. Inr a))) (\<lambda>artist.
     bindR (bindR (jt_get data ''id'') jt_str) (\<lambda>i.
     bindR (bindR (jt_get data ''title'') jt_text) (\<lambda>nm.
     bindR (jt_find data ''numberOfTracks'') (\<lambda>num_tracks.
     bindR (jt_find data ''duration'') (\<lambda>duration.
     bindR (bindR (jt_in ''releaseDate'' data) (\<lambda>b.
        if b then bindR (jt_get data ''releaseDate'') jt_opt_text else Inr None)) (\<lambda>release_date.
       Inr ((album_defaults i)\<lparr>alb_name := nm, alb_image := Some (img_url ''albumid'' i), alb_artist := Some artist,
              alb_num_tracks := num_tracks, alb_duration := duration, alb_release_date := release_date\<rparr>)))))))"

definition parse_album :: "json \<Rightarrow> album_model res" where
  "parse_album data = parse_album_of data None"

definition playlist_of :: "string \<Rightarrow> string \<Rightarrow> playlist_model" where
  "playlist_of i nm = (playlist_defaults i nm)\<lparr>pl_image := Some (img_url ''uuid'' i)\<rparr>"

definition parse_featured_playlist :: "json \<Rightarrow> playlist_model res" where
  "parse_featured_playlist data =
     bindR (bindR (jt_get data ''artifactId'') jt_str) (\<lambda>i.
     bindR (bindR (jt_get data ''header'') jt_text) (\<lambda>nm.
     bindR (bindR (jt_get data ''text'') jt_opt_text) (\<lambda>txt.
       Inr ((playlist_of i nm)\<lparr>pl_description := txt\<rparr>))))"

definition parse_playlist :: "json \<Rightarrow> playlist_model res" where
  "parse_playlist data =
     bindR (bindR (jt_get data ''uuid'') jt_str) (\<lambda>i.
     bindR (bindR (jt_get data ''title'') jt_text) (\<lambda>nm.
     bindR (bindR (jt_get data ''description'') jt_opt_text) (\<lambda>txt.
     bindR (bindR (jt_get data ''numberOfTracks'') jt_int) (\<lambda>num_tracks.
     bindR (bindR (jt_get data ''duration'') jt_int) (\<lambda>duration.
     bindR (jt_get data ''publicPlaylist'') (\<lambda>_.
       Inr ((playlist_of i nm)\<lparr>pl_description := txt, pl_num_tracks := IntJ num_tracks, pl_duration := IntJ duration\<rparr>)))))))"

definition parse_track :: "json \<Rightarrow> track_model res" where
  "parse_track data =
     bindR (bindR (jt_get data ''artist'') parse_artist) (\<lambda>artist.
     bindR (bindR (jt_get data ''artists'') parse_artists) (\<lambda>_.
     bindR (bindR (jt_get data ''album'') (\<lambda>a. parse_album_of a (Some artist))) (\<lambda>album.
     bindR (bindR (jt_get data ''id'') jt_str) (\<lambda>i.
     bindR (bindR (jt_get data ''title'') jt_text) (\<lambda>nm.
     bindR (jt_get data ''duration'') (\<lambda>duration.
     bindR (jt_get data ''trackNumber'') (\<lambda>track_num.
     bindR (jt_get data ''volumeNumber'') (\<lambda>disc_num.
     bindR (jt_get data ''popularity'') (\<lambda>_.
     bindR (jt_get data ''streamReady'') (\<lambda>ready.
       Inr ((track_defaults i nm)\<lparr>trk_duration := duration, trk_track_num := track_num, trk_disc_num := disc_num,
              trk_artist := Some artist, trk_album := Some album, trk_available := jt_true ready\<rparr>)))))))))))"

text \<open>A genre or a mood has no class, and its image is named by the service.\<close>

definition parse_category :: "string \<Rightarrow> json \<Rightarrow> item_model res" where
  "parse_category geometry data =
     bindR (bindR (jt_get data ''image'') jt_text) (\<lambda>img.
     bindR (bindR (jt_get data ''path'') jt_str) (\<lambda>i.
     bindR (bindR (jt_get data ''name'') jt_text) (\<lambda>nm.
       Inr ((plain_item i nm (Some (''http://resources.wimpmusic.com/images/'' @ map (\<lambda>c. if c = CHR ''-'' then CHR ''/'' else c) img
              @ ''/'' @ geometry @ ''.jpg'')))\<lparr>it_upnpclass := None\<rparr>))))"

definition parse_genres :: "json \<Rightarrow> item_model res" where
  "parse_genres = parse_category ''460x306''"

definition parse_moods :: "json \<Rightarrow> item_model res" where
  "parse_moods = parse_category ''342x342''"

text \<open>An answer is a page of items, of items in items, or a single object.\<close>

definition map_request :: "(json \<Rightarrow> 'a res) \<Rightarrow> json \<Rightarrow> ('a + 'a list) res" where
  "map_request parse v =
     bindR (jt_find v ''items'') (\<lambda>items.
       if items = NullJ then bindR (parse v) (\<lambda>x. Inr (Inl x))
       else bindR (jt_len items) (\<lambda>n.
            bindR (if 0 < n then bindR (jt_first items) (jt_in ''item'') else Inr False) (\<lambda>nested.
            bindR (jt_iter items) (\<lambda>xs.
            bindR (if nested then bindR (mapR (\<lambda>x. jt_get x ''item'') xs) (mapR parse) else mapR parse xs) (\<lambda>ys.
              Inr (Inr ys))))))"

text \<open>A single object cannot be listed, and a list is not a track.\<close>

definition the_list :: "('a + 'a list) res \<Rightarrow> 'a list res" where
  "the_list r = bindR r (\<lambda>x. case x of Inr xs \<Rightarrow> Inr xs | Inl _ \<Rightarrow> Inl TypeError)"

definition the_object :: "('a + 'a list) res \<Rightarrow> 'a res" where
  "the_object r = bindR r (\<lambda>x. case x of Inl x \<Rightarrow> Inr x | Inr _ \<Rightarrow> Inl AttributeError)"

definition get_list :: "tapi \<Rightarrow> (json \<Rightarrow> 'a res) \<Rightarrow> string \<Rightarrow> params \<Rightarrow> 'a list res" where
  "get_list api parse path prms = bindR (api path prms) (\<lambda>v. the_list (map_request parse v))"

section \<open>The session\<close>

definition get_playlist_tracks :: "tapi \<Rightarrow> string \<Rightarrow> track_model list res" where
  "get_playlist_tracks api i = get_list api parse_track (''playlists/'' @ i @ ''/tracks'') []"

definition get_album_tracks :: "tapi \<Rightarrow> string \<Rightarrow> track_model list res" where
  "get_album_tracks api i = get_list api parse_track (''albums/'' @ i @ ''/tracks'') []"

definition get_artist_albums :: "tapi \<Rightarrow> string \<Rightarrow> album_model list res" where
  "get_artist_albums api i = get_list api parse_album (''artists/'' @ i @ ''/albums'') []"

definition get_artist_albums_ep_singles :: "tapi \<Rightarrow> string \<Rightarrow> album_model list res" where
  "get_artist_albums_ep_singles api i =
     get_list api parse_album (''artists/'' @ i @ ''/albums'') [(''filter'', StrJ ''EPSANDSINGLES'')]"

definition get_artist_albums_other :: "tapi \<Rightarrow> string \<Rightarrow> album_model list res" where
  "get_artist_albums_other api i =
     get_list api parse_album (''artists/'' @ i @ ''/albums'') [(''filter'', StrJ ''COMPILATIONS'')]"

definition get_artist_top_tracks :: "tapi \<Rightarrow> string \<Rightarrow> track_model list res" where
  "get_artist_top_tracks api i = get_list api parse_track (''artists/'' @ i @ ''/toptracks'') []"

definition get_artist_bio :: "tapi \<Rightarrow> string \<Rightarrow> json res" where
  "get_artist_bio api i = bindR (api (''artists/'' @ i @ ''/bio'') []) (\<lambda>v. jt_get v ''text'')"

definition get_artist_similar :: "tapi \<Rightarrow> string \<Rightarrow> artist_model list res" where
  "get_artist_similar api i = get_list api parse_artist (''artists/'' @ i @ ''/similar'') []"

definition get_artist_radio :: "tapi \<Rightarrow> string \<Rightarrow> track_model list res" where
  "get_artist_radio api i = get_list api parse_track (''artists/'' @ i @ ''/radio'') [(''limit'', IntJ 200)]"

definition get_featured :: "tapi \<Rightarrow> playlist_model list res" where
  "get_featured api =
     bindR (api ''promotions'' []) (\<lambda>v.
     bindR (bindR (jt_get v ''items'') jt_iter) (\<lambda>items.
     bindR (mapR (\<lambda>it. bindR (jt_get it ''type'') (\<lambda>t.
        if t = StrJ ''PLAYLIST'' then bindR (parse_featured_playlist it) (\<lambda>p. Inr [p]) else Inr [])) items) (\<lambda>pls.
       Inr (concat pls))))"

definition get_moods :: "tapi \<Rightarrow> item_model list res" where
  "get_moods api = bindR (bindR (api ''moods'' []) jt_iter) (mapR parse_moods)"

definition get_mood_playlists :: "tapi \<Rightarrow> string \<Rightarrow> playlist_model list res" where
  "get_mood_playlists api i = get_list api parse_playlist (join_with ''/'' [''moods'', i, ''playlists'']) []"

definition get_genres :: "tapi \<Rightarrow> item_model list res" where
  "get_genres api = bindR (bindR (api ''genres'' []) jt_iter) (mapR parse_genres)"

definition genre_path :: "string \<Rightarrow> string \<Rightarrow> string" where
  "genre_path i content_type = join_with ''/'' [''genres'', i, content_type]"

definition featured_path :: "string \<Rightarrow> string \<Rightarrow> string" where
  "featured_path grp content_type = join_with ''/'' [''featured'', grp, content_type]"

definition get_track_radio :: "tapi \<Rightarrow> string \<Rightarrow> track_model list res" where
  "get_track_radio api i = get_list api parse_track (''tracks/'' @ i @ ''/radio'') [(''limit'', IntJ 200)]"

definition get_track :: "tapi \<Rightarrow> string \<Rightarrow> track_model res" where
  "get_track api i = bindR (api (''tracks/'' @ i) []) (\<lambda>v. the_object (map_request parse_track v))"

definition t_media_url :: "tapi \<Rightarrow> string \<Rightarrow> string \<Rightarrow> json res" where
  "t_media_url api quality i =
     bindR (api (''tracks/'' @ i @ ''/streamUrl'') [(''soundQuality'', StrJ quality)]) (\<lambda>v. jt_get v ''url'')"

definition search_get :: "tapi \<Rightarrow> (json \<Rightarrow> 'a res) \<Rightarrow> string \<Rightarrow> string \<Rightarrow> 'a list res" where
  "search_get api parse field val =
     get_list api parse (''search/'' @ field @ ''s'') [(''query'', StrJ val), (''limit'', IntJ 200)]"

text \<open>The favourites of a user.\<close>

definition favorites_url :: "json \<Rightarrow> string res" where
  "favorites_url user = bindR (jt_str user) (\<lambda>u. Inr (''users/'' @ u @ ''/favorites''))"

definition user_playlists :: "tapi \<Rightarrow> json \<Rightarrow> playlist_model list res" where
  "user_playlists api user =
     bindR (jt_str user) (\<lambda>u. get_list api parse_playlist (''users/'' @ u @ ''/playlists'') [])"

definition fav_artists :: "tapi \<Rightarrow> json \<Rightarrow> artist_model list res" where
  "fav_artists api user = bindR (favorites_url user) (\<lambda>u. get_list api parse_artist (u @ ''/artists'') [])"

definition fav_albums :: "tapi \<Rightarrow> json \<Rightarrow> album_model list res" where
  "fav_albums api user = bindR (favorites_url user) (\<lambda>u. get_list api parse_album (u @ ''/albums'') [])"

definition fav_playlists :: "tapi \<Rightarrow> json \<Rightarrow> playlist_model list res" where
  "fav_playlists api user = bindR (favorites_url user) (\<lambda>u. get_list api parse_playlist (u @ ''/playlists'') [])"

definition fav_tracks :: "tapi \<Rightarrow> json \<Rightarrow> track_model list res" where
  "fav_tracks api user =
     bindR (favorites_url user) (\<lambda>u. bindR (api (u @ ''/tracks'') []) (\<lambda>v.
       jt_map (\<lambda>it. bindR (jt_get it ''item'') parse_track) v [''items'']))"

text \<open>Changes of the favourites.\<close>

definition fav_add :: "t_http \<Rightarrow> tidal_session \<Rightarrow> json \<Rightarrow> string \<Rightarrow> json \<Rightarrow> bool res" where
  "fav_add http s user kind i =
     bindR (favorites_url user) (\<lambda>u.
     bindR (t_request http s ''POST'' (u @ ''/'' @ kind @ ''s'') [] [(kind @ ''Id'', i)]) (\<lambda>r. Inr (tr_ok r)))"

definition fav_remove :: "t_http \<Rightarrow> tidal_session \<Rightarrow> json \<Rightarrow> string \<Rightarrow> string \<Rightarrow> bool res" where
  "fav_remove http s user kind i =
     bindR (favorites_url user) (\<lambda>u.
     bindR (t_request http s ''DELETE'' (u @ ''/'' @ kind @ ''s/'' @ i) [] []) (\<lambda>r. Inr (tr_ok r)))"

section \<open>The plugin\<close>

definition tidalidprefix :: string where
  "tidalidprefix = ''0$tidal$''"

definition tidal_routes :: "(string \<times> string) list" where
  "tidal_routes =
     [(''root'', ''/''), (''track_radio'', ''/track_radio/<track_id>''), (''moods'', ''/moods''),
      (''moods_playlists'', ''/moods/<mood>''), (''genres'', ''/genres''), (''genre_view'', ''/genre/<genre_id>''),
      (''genre_playlists'', ''/genre/<genre_id>/playlists''), (''genre_albums'', ''/genre/<genre_id>/albums''),
      (''genre_tracks'', ''/genre/<genre_id>/tracks''), (''featured_playlists'', ''/featured_playlists''),
      (''whats_new'', ''/whats_new''), (''featured'', ''/featured/<group>/<content_type>''), (''my_music'', ''/my_music''),
      (''album_view'', ''/album/<album_id>''), (''artist_view'', ''/artist/<artist_id>''),
      (''artist_radio'', ''/artist/<artist_id>/radio''), (''top_tracks'', ''/artist/<artist_id>/top''),
      (''similar_artists'', ''/artist/<artist_id>/similar''), (''playlist_view'', ''/playlist/<playlist_id>''),
      (''my_playlists'', ''/user_playlists''), (''favourite_playlists'', ''/favourite_playlists''),
      (''favourite_artists'', ''/favourite_artists''), (''favourite_albums'', ''/favourite_albums''),
      (''favourite_tracks'', ''/favourite_tracks'')]"

definition tidal_plugin :: route_plugin where
  "tidal_plugin = the_plugin tidal_routes"

text \<open>\<open>XbmcPlugin(tidalidprefix)\<close>: the routes are not passed.\<close>

definition tidal_xp :: "string \<Rightarrow> xbmc_plugin" where
  "tidal_xp objid = \<lparr>xp_idprefix = tidalidprefix, xp_routeplug = None, xp_objid = objid\<rparr>"

record tidal_ctx =
  tx_env :: svc_env
  tx_api :: tapi
  tx_user :: "json option"
  tx_country :: json

definition t_albums :: "xbmc_plugin \<Rightarrow> album_model list \<Rightarrow> entry list res" where
  "t_albums xp items = xp_items xp ''album_view'' (map album_item items)"

definition t_artists :: "xbmc_plugin \<Rightarrow> artist_model list \<Rightarrow> entry list res" where
  "t_artists xp items = xp_items xp ''artist_view'' (map artist_item items)"

definition t_playlists :: "xbmc_plugin \<Rightarrow> playlist_model list \<Rightarrow> entry list res" where
  "t_playlists xp items = xp_items xp ''playlist_view'' (map playlist_item items)"

definition t_tracks :: "xbmc_plugin \<Rightarrow> tidal_ctx \<Rightarrow> track_model list res \<Rightarrow> entry list res" where
  "t_tracks xp s m = bindR m (xp_tracks xp (tx_env s))"

definition root :: "xbmc_plugin \<Rightarrow> entry list res" where
  "root xp = mapR (\<lambda>(t, f). add_view xp t f)
     [(''My Music'', ''my_music''), (''Featured Playlists'', ''featured_playlists''),
      (''What'' @ [CHR 0x27] @ ''s New'', ''whats_new''), (''Genres'', ''genres''), (''Moods'', ''moods'')]"

definition moods :: "xbmc_plugin \<Rightarrow> tidal_ctx \<Rightarrow> entry list res" where
  "moods xp s = bindR (get_moods (tx_api s)) (xp_items xp ''moods_playlists'')"

definition moods_playlists :: "xbmc_plugin \<Rightarrow> tidal_ctx \<Rightarrow> string \<Rightarrow> entry list res" where
  "moods_playlists xp s mood = bindR (get_mood_playlists (tx_api s) mood) (t_playlists xp)"

definition genres :: "xbmc_plugin \<Rightarrow> tidal_ctx \<Rightarrow> entry list res" where
  "genres xp s = bindR (get_genres (tx_api s)) (xp_items xp ''genre_view'')"

definition genre_dirs :: "string \<Rightarrow> (string \<times> string \<times> string list \<times> string list) list" where
  "genre_dirs genre_id =
     [(''Playlists'', ''genre_playlists'', [''genre_id''], [genre_id]), (''Albums'', ''genre_albums'', [''genre_id''], [genre_id]),
      (''Tracks'', ''genre_tracks'', [''genre_id''], [genre_id])]"

definition genre_view :: "xbmc_plugin \<Rightarrow> string \<Rightarrow> entry list res" where
  "genre_view xp genre_id = mapR (\<lambda>(t, f, ks, args). add_url xp tidal_plugin t f [] (zip ks args)) (genre_dirs genre_id)"

definition genre_playlists :: "xbmc_plugin \<Rightarrow> tidal_ctx \<Rightarrow> string \<Rightarrow> entry list res" where
  "genre_playlists xp s genre_id =
     bindR (get_list (tx_api s) parse_playlist (genre_path genre_id ''playlists'') []) (t_playlists xp)"

definition genre_albums :: "xbmc_plugin \<Rightarrow> tidal_ctx \<Rightarrow> string \<Rightarrow> entry list res" where
  "genre_albums xp s genre_id =
     bindR (get_list (tx_api s) parse_album (genre_path genre_id ''albums'') []) (t_albums xp)"

definition genre_tracks :: "xbmc_plugin \<Rightarrow> tidal_ctx \<Rightarrow> string \<Rightarrow> entry list res" where
  "genre_tracks xp s genre_id = t_tracks xp s (get_list (tx_api s) parse_track (genre_path genre_id ''tracks'') [])"

definition featured_playlists :: "xbmc_plugin \<Rightarrow> tidal_ctx \<Rightarrow> entry list res" where
  "featured_playlists xp s = bindR (get_featured (tx_api s)) (t_playlists xp)"

definition whats_new_dirs :: "bool \<Rightarrow> (string \<times> string \<times> string list \<times> string list) list" where
  "whats_new_dirs local_too =
     map (\<lambda>(t, g, c). (t, ''featured'', [''group'', ''content_type''], [g, c]))
       ([(''Recommended Playlists'', ''recommended'', ''playlists''), (''Recommended Albums'', ''recommended'', ''albums''),
         (''Recommended Tracks'', ''recommended'', ''tracks''), (''New Playlists'', ''new'', ''playlists''),
         (''New Albums'', ''new'', ''albums''), (''New Tracks'', ''new'', ''tracks''), (''Top Albums'', ''top'', ''albums''),
         (''Top Tracks'', ''top'', ''tracks'')]
        @ (if local_too
           then [(''Local Playlists'', ''local'', ''playlists''), (''Local Albums'', ''local'', ''albums''),
                 (''Local Tracks'', ''local'', ''tracks'')] else []))"

definition whats_new :: "xbmc_plugin \<Rightarrow> tidal_ctx \<Rightarrow> entry list res" where
  "whats_new xp s =
     mapR (\<lambda>(t, f, ks, args). add_url xp tidal_plugin t f [] (zip ks args)) (whats_new_dirs (tx_country s \<noteq> StrJ ''US''))"

text \<open>For another type the answer is parsed by what the type begins with, and nothing is listed.\<close>

definition featured_other :: "tidal_ctx \<Rightarrow> string \<Rightarrow> string \<Rightarrow> entry list res" where
  "featured_other s grp content_type =
     bindR (tx_api s (featured_path grp content_type) []) (\<lambda>v.
     bindR (if startswith content_type ''artist'' then bindR (map_request parse_artist v) (\<lambda>_. Inr ())
            else if startswith content_type ''album'' then bindR (map_request parse_album v) (\<lambda>_. Inr ())
            else if startswith content_type ''track'' then bindR (map_request parse_track v) (\<lambda>_. Inr ())
            else if startswith content_type ''user'' then Inl (Raised ''NotImplementedError'')
            else if startswith content_type ''playlist'' then bindR (map_request parse_playlist v) (\<lambda>_. Inr ())
            else bindR (map_request (\<lambda>_. Inl TypeError :: unit res) v) (\<lambda>_. Inr ())) (\<lambda>_. Inr []))"

definition featured :: "xbmc_plugin \<Rightarrow> tidal_ctx \<Rightarrow> string \<Rightarrow> string \<Rightarrow> entry list res" where
  "featured xp s grp content_type =
     (let path = featured_path grp content_type in
      if content_type = ''tracks'' then t_tracks xp s (get_list (tx_api s) parse_track path [])
      else if content_type = ''albums'' then bindR (get_list (tx_api s) parse_album path []) (t_albums xp)
      else if content_type = ''playlists'' then bindR (get_list (tx_api s) parse_playlist path []) (t_playlists xp)
      else featured_other s grp content_type)"

definition my_music :: "xbmc_plugin \<Rightarrow> entry list res" where
  "my_music xp = mapR (\<lambda>(t, f). add_view xp t f)
     [(''My Playlists'', ''my_playlists''), (''Favourite Playlists'', ''favourite_playlists''),
      (''Favourite Artists'', ''favourite_artists''), (''Favourite Albums'', ''favourite_albums''),
      (''Favourite Tracks'', ''favourite_tracks'')]"

definition artist_dirs :: "string \<Rightarrow> (string \<times> string \<times> string list \<times> string list) list" where
  "artist_dirs artist_id =
     [(''Top Tracks'', ''top_tracks'', [''artist_id''], [artist_id]), (''Artist Radio'', ''artist_radio'', [''artist_id''], [artist_id]),
      (''Similar Artists'', ''similar_artists'', [''artist_id''], [artist_id])]"

definition artist_view :: "xbmc_plugin \<Rightarrow> tidal_ctx \<Rightarrow> string \<Rightarrow> entry list res" where
  "artist_view xp s artist_id =
     concatR
       [mapR (\<lambda>(t, f, ks, args). add_url xp tidal_plugin t f args []) (artist_dirs artist_id),
        bindR (get_artist_albums (tx_api s) artist_id) (\<lambda>a1.
        bindR (get_artist_albums_ep_singles (tx_api s) artist_id) (\<lambda>a2.
        bindR (get_artist_albums_other (tx_api s) artist_id) (\<lambda>a3. t_albums xp (a1 @ a2 @ a3))))]"

definition similar_artists :: "xbmc_plugin \<Rightarrow> tidal_ctx \<Rightarrow> string \<Rightarrow> entry list res" where
  "similar_artists xp s artist_id = bindR (get_artist_similar (tx_api s) artist_id) (t_artists xp)"

definition with_user :: "tidal_ctx \<Rightarrow> (json \<Rightarrow> 'a res) \<Rightarrow> 'a res" where
  "with_user s f = (case tx_user s of None \<Rightarrow> Inl AttributeError | Some user \<Rightarrow> f user)"

text \<open>Here exceptions of the request are caught, and there are no artists then.\<close>

definition favourite_artists :: "xbmc_plugin \<Rightarrow> tidal_ctx \<Rightarrow> entry list res" where
  "favourite_artists xp s =
     t_artists xp (case with_user s (fav_artists (tx_api s)) of Inr items \<Rightarrow> items | Inl _ \<Rightarrow> [])"

definition tidal_view :: "xbmc_plugin \<Rightarrow> tidal_ctx \<Rightarrow> string \<Rightarrow> (string \<times> string) list \<Rightarrow> entry list res" where
  "tidal_view xp s f kw =
     (let api = tx_api s in
      if f = ''root'' then root xp
      else if f = ''track_radio'' then bindR (kw_arg kw ''track_id'') (\<lambda>i. t_tracks xp s (get_track_radio api i))
      else if f = ''moods'' then moods xp s
      else if f = ''moods_playlists'' then bindR (kw_arg kw ''mood'') (moods_playlists xp s)
      else if f = ''genres'' then genres xp s
      else if f = ''genre_view'' then bindR (kw_arg kw ''genre_id'') (genre_view xp)
      else if f = ''genre_playlists'' then bindR (kw_arg kw ''genre_id'') (genre_playlists xp s)
      else if f = ''genre_albums'' then bindR (kw_arg kw ''genre_id'') (genre_albums xp s)
      else if f = ''genre_tracks'' then bindR (kw_arg kw ''genre_id'') (genre_tracks xp s)
      else if f = ''featured_playlists'' then featured_playlists xp s
      else if f = ''whats_new'' then whats_new xp s
      else if f = ''featured''
      then bindR (kw_arg kw ''group'') (\<lambda>g. bindR (kw_arg kw ''content_type'') (featured xp s g))
      else if f = ''my_music'' then my_music xp
      else if f = ''album_view'' then bindR (kw_arg kw ''album_id'') (\<lambda>i. t_tracks xp s (get_album_tracks api i))
      else if f = ''artist_view'' then bindR (kw_arg kw ''artist_id'') (artist_view xp s)
      else if f = ''artist_radio'' then bindR (kw_arg kw ''artist_id'') (\<lambda>i. t_tracks xp s (get_artist_radio api i))
      else if f = ''top_tracks'' then bindR (kw_arg kw ''artist_id'') (\<lambda>i. t_tracks xp s (get_artist_top_tracks api i))
      else if f = ''similar_artists'' then bindR (kw_arg kw ''artist_id'') (similar_artists xp s)
      else if f = ''playlist_view'' then bindR (kw_arg kw ''playlist_id'') (\<lambda>i. t_tracks xp s (get_playlist_tracks api i))
      else if f = ''my_playlists'' then bindR (with_user s (user_playlists api)) (t_playlists xp)
      else if f = ''favourite_playlists'' then bindR (with_user s (fav_playlists api)) (t_playlists xp)
      else if f = ''favourite_artists'' then favourite_artists xp s
      else if f = ''favourite_albums'' then bindR (with_user s (fav_albums api)) (t_albums xp)
      else if f = ''favourite_tracks'' then t_tracks xp s (with_user s (fav_tracks api))
      else Inl NameError)"

definition tidal_views :: "tidal_ctx \<Rightarrow> string \<Rightarrow> string \<Rightarrow> (string \<times> string) list \<Rightarrow> entry list res option" where
  "tidal_views s objid f kw = Some (tidal_view (tidal_xp objid) s f kw)"

definition tidal_meta :: "tidal_ctx \<Rightarrow> string \<Rightarrow> string \<Rightarrow> entry list res" where
  "tidal_meta s objid trackid = t_tracks (tidal_xp objid) s (bindR (get_track (tx_api s) trackid) (\<lambda>t. Inr [t]))"

definition tidal_search :: "tidal_ctx \<Rightarrow> string \<Rightarrow> string \<Rightarrow> string option \<Rightarrow> entry list res" where
  "tidal_search s objid val objkind =
     (let xp = tidal_xp objid; api = tx_api s; wanted = (\<lambda>k. \<not> truthy objkind \<or> objkind = Some k) in
      concatR
        [if wanted ''artist'' then bindR (search_get api parse_artist ''artist'' val) (t_artists xp) else Inr [],
         if wanted ''album'' then bindR (search_get api parse_album ''album'' val) (t_albums xp) else Inr [],
         if wanted ''playlist'' then bindR (search_get api parse_playlist ''playlist'' val) (t_playlists xp) else Inr [],
         if wanted ''track'' then t_tracks xp s (search_get api parse_track ''track'' val) else Inr []])"

section \<open>Login and requests of the parent\<close>

record tidal_app =
  ta_session :: tidal_session
  ta_loggedin :: bool
  ta_quality :: string
  ta_env :: svc_env

record tidal_conf =
  tc_environ :: "string \<rightharpoonup> string"
  tc_upconfig :: conf
  tc_altconf :: conf

definition tidal_option :: "tidal_conf \<Rightarrow> string \<Rightarrow> string option res" where
  "tidal_option c nm = getOptionValue (tc_upconfig c) (tc_environ c) nm None"

definition tidal_need_env :: "tidal_conf \<Rightarrow> string \<Rightarrow> string res" where
  "tidal_need_env c k = (case tc_environ c k of Some v \<Rightarrow> Inr v | None \<Rightarrow> Inl (Raised (''No '' @ k @ '' in environment'')))"

definition tidal_quality :: "string option \<Rightarrow> string res" where
  "tidal_quality q =
     (if q = Some ''lossless'' then Inr ''LOSSLESS'' else if q = Some ''high'' then Inr ''HIGH''
      else if q = Some ''low'' then Inr ''LOW'' else if \<not> truthy q then Inr ''HIGH''
      else Inl (Raised ''Bad tidal quality string in config. Must be lossless/high/low''))"

definition tidal_settings ::
  "tidal_conf \<Rightarrow> (string \<rightharpoonup> string) \<Rightarrow> (svc_env \<times> string \<times> string \<times> string \<times> string option) res" where
  "tidal_settings c a =
     bindR (tidal_need_env c ''UPMPD_HTTPHOSTPORT'') (\<lambda>httphp.
     bindR (tidal_need_env c ''UPMPD_PATHPREFIX'') (\<lambda>pathprefix.
     bindR (tidal_need_env c ''UPMPD_CONFIG'') (\<lambda>_.
     bindR (case a ''user'' of
              Some u \<Rightarrow> (case a ''password'' of Some p \<Rightarrow> Inr (Some u, Some p) | None \<Rightarrow> Inl KeyError)
            | None \<Rightarrow> getserviceuserpass (tc_upconfig c) (tc_environ c) (tc_altconf c) ''tidal'') (\<lambda>(username, password).
       if \<not> truthy username \<or> \<not> truthy password
       then Inl (Raised ''tidaluser and/or tidalpass not set in configuration'')
       else bindR (bindR (tidal_option c ''tidalquality'') tidal_quality) (\<lambda>quality.
            bindR (tidal_option c ''tidalapitoken'') (\<lambda>apitoken.
              Inr (\<lparr>se_httphp = httphp, se_pathprefix = pathprefix,
                    se_mime = (if quality = ''LOSSLESS'' then ''audio/flac'' else ''audio/mpeg''), se_samplerate = ''44100''\<rparr>,
                   quality, the username, the password, if truthy apitoken then apitoken else None)))))))"

text \<open>A login that the service refuses is taken for a login.\<close>

definition maybelogin ::
  "t_http \<Rightarrow> string \<Rightarrow> tidal_conf \<Rightarrow> (string \<rightharpoonup> string) \<Rightarrow> tidal_app \<Rightarrow> tidal_app \<times> unit res" where
  "maybelogin http key c a app =
     (if ta_loggedin app then (app, Inr ())
      else case tidal_settings c a of
             Inl e \<Rightarrow> (app, Inl e)
           | Inr (env, quality, username, password, apitoken) \<Rightarrow>
               (case td_login http key username password (Session_init quality apitoken) of
                  (s, Inl e) \<Rightarrow> (app\<lparr>ta_session := s, ta_quality := quality\<rparr>, Inl e)
                | (s, Inr _) \<Rightarrow>
                    (app\<lparr>ta_session := s, ta_quality := quality, ta_loggedin := True, ta_env := env\<rparr>, Inr ())))"

definition get_mimeandkbs :: "string \<Rightarrow> string \<times> string" where
  "get_mimeandkbs quality =
     (if quality = ''LOSSLESS'' then (''audio/flac'', ''1411'')
      else if quality = ''HIGH'' then (''audio/mpeg'', ''320'') else (''audio/mpeg'', ''96''))"

definition tidal_ctx_of :: "t_http \<Rightarrow> tidal_app \<Rightarrow> tidal_ctx" where
  "tidal_ctx_of http app =
     \<lparr>tx_env = ta_env app, tx_api = t_get http (ta_session app), tx_user = td_user (ta_session app),
      tx_country = td_country (ta_session app)\<rparr>"

definition login ::
  "t_http \<Rightarrow> string \<Rightarrow> tidal_conf \<Rightarrow> (string \<rightharpoonup> string) \<Rightarrow> tidal_app \<Rightarrow> tidal_app \<times> (string \<times> json) list res" where
  "login http key c a app =
     (case maybelogin http key c a app of
        (app, Inl e) \<Rightarrow> (app, Inl e)
      | (app, Inr _) \<Rightarrow>
          (app, Inr [(''token'', td_session_id (ta_session app)), (''country'', td_country (ta_session app))]))"

text \<open>An address that is not one of HTTP is cut into the host, the application and the path of RTMP.\<close>

definition rtmp_url :: "string \<Rightarrow> string res" where
  "rtmp_url media_url =
     (if startswith media_url ''http://'' \<or> startswith media_url ''https://'' then Inr media_url
      else case py_find media_url ''/'' of
             None \<Rightarrow> Inl ValueError
           | Some i \<Rightarrow>
               let host = take i media_url; tail = drop (i + 1) media_url in
               case py_find tail ''/mp4:'' of
                 None \<Rightarrow> Inl ValueError
               | Some j \<Rightarrow>
                   Inr (''rtmp://'' @ host @ '' app='' @ take j tail @ '' playpath=mp4:'' @ drop (j + 5) tail))"

definition trackuri ::
  "t_http \<Rightarrow> string \<Rightarrow> tidal_conf \<Rightarrow> (string \<rightharpoonup> string) \<Rightarrow> tidal_app \<Rightarrow> tidal_app \<times> (string \<times> string) list res" where
  "trackuri http key c a app =
     (case maybelogin http key c (\<lambda>_. None) app of
        (app, Inl e) \<Rightarrow> (app, Inl e)
      | (app, Inr _) \<Rightarrow>
          (app, bindR (trackid_from_urlpath (se_pathprefix (ta_env app)) a) (\<lambda>trackid.
            bindR (bindR (t_media_url (t_get http (ta_session app)) (td_quality (ta_session app)) trackid) jt_text) (\<lambda>url.
            bindR (rtmp_url url) (\<lambda>media_url.
              case get_mimeandkbs (ta_quality app) of
                (mime, kbs) \<Rightarrow> Inr [(''media_url'', media_url), (''mimetype'', mime), (''kbs'', kbs)])))))"

definition browse ::
  "t_http \<Rightarrow> string \<Rightarrow> tidal_conf \<Rightarrow> (string \<rightharpoonup> string) \<Rightarrow> tidal_app \<Rightarrow> tidal_app \<times> entry list res option" where
  "browse http key c a app =
     (case a ''objid'' of
        None \<Rightarrow> (app, Some (Inl (Raised ''No objid in args'')))
      | Some objid \<Rightarrow>
          if \<not> startswith objid tidalidprefix then (app, Some (Inl (Raised ''bad objid'')))
          else case maybelogin http key c (\<lambda>_. None) app of
                 (app, r) \<Rightarrow>
                   let s = tidal_ctx_of http app in
                   (app, svc_browse tidalidprefix tidal_plugin r (tidal_meta s) (tidal_views s) a))"

definition search ::
  "t_http \<Rightarrow> string \<Rightarrow> tidal_conf \<Rightarrow> (string \<rightharpoonup> string) \<Rightarrow> tidal_app \<Rightarrow> tidal_app \<times> entry list res" where
  "search http key c a app =
     (case (a ''objid'', a ''value'') of
        (Some objid, Some val) \<Rightarrow>
          if \<not> startswith objid tidalidprefix then (app, Inl (Raised ''bad objid''))
          else (case maybelogin http key c (\<lambda>_. None) app of
                  (app, Inl e) \<Rightarrow> (app, Inl e)
                | (app, Inr _) \<Rightarrow> (app, tidal_search (tidal_ctx_of http app) objid val (a ''objkind'')))
      | _ \<Rightarrow> (app, Inl KeyError))"

section \<open>What cannot be listed\<close>

lemma xp_items_unrouted:
  assumes "xp_routeplug xp = None" and "xp_items xp f items = Inr es"
  shows "es = []"
proof -
  obtain urls where urls: "urls_from_id (\<lambda>i. xp_url xp f [i]) items = Inr urls"
      "es = view (xp_idprefix xp) (xp_objid xp) items urls []"
    using assms(2) by (auto simp: xp_items_def bindR_eq_Inr)
  have "mapR g xs = Inr urls \<Longrightarrow> (\<And>x. g x = Inl AttributeError) \<Longrightarrow> urls = []" for g :: "item_model \<Rightarrow> string res" and xs
    by (cases xs) simp_all
  with urls(1) have "urls = []" unfolding urls_from_id_def by (auto simp: xp_url_def assms(1))
  then show ?thesis by (simp add: urls(2) view_def)
qed

lemma tidal_xp_routes [simp]: "xp_routeplug (tidal_xp objid) = None"
  by (simp add: tidal_xp_def)

lemma t_items_none:
  "t_albums (tidal_xp objid) albums = Inr es \<Longrightarrow> es = []"
  "t_artists (tidal_xp objid) artists = Inr es \<Longrightarrow> es = []"
  "t_playlists (tidal_xp objid) playlists = Inr es \<Longrightarrow> es = []"
  "xp_items (tidal_xp objid) f items = Inr es \<Longrightarrow> es = []"
  using xp_items_unrouted [OF tidal_xp_routes] by (simp_all add: t_albums_def t_artists_def t_playlists_def)

text \<open>What a view lists if it lists something.\<close>

definition gives :: "(entry list \<Rightarrow> bool) \<Rightarrow> entry list res \<Rightarrow> bool" where
  "gives P m \<longleftrightarrow> (\<forall>es. m = Inr es \<longrightarrow> P es)"

text \<open>Entries that are no directories.\<close>

definition no_dirs :: "entry list \<Rightarrow> bool" where
  "no_dirs es \<longleftrightarrow> list_all (\<lambda>e. \<not> is_dir e) es"

lemma tracks_no_dirs: "gives no_dirs (t_tracks (tidal_xp objid) s m)"
  unfolding gives_def no_dirs_def t_tracks_def xp_tracks_def trackentries_def
  by (auto simp: bindR_eq_Inr is_dir_def dest: trackentry_fields(4) intro!: mapR_all)

lemma items_no_dirs:
  "gives no_dirs (t_albums (tidal_xp objid) albums)" "gives no_dirs (t_artists (tidal_xp objid) artists)"
  "gives no_dirs (t_playlists (tidal_xp objid) playlists)" "gives no_dirs (xp_items (tidal_xp objid) f items)"
  by (auto simp: gives_def no_dirs_def dest: t_items_none)

lemma gives_bind: "(\<And>x. gives P (f x)) \<Longrightarrow> gives P (bindR m f)"
  by (auto simp: gives_def bindR_eq_Inr)

lemma gives_if: "gives P m \<Longrightarrow> gives P m' \<Longrightarrow> gives P (if b then m else m')"
  by simp

lemma gives_none: "gives no_dirs (Inr [])" "gives P (Inl e)"
  by (simp_all add: gives_def no_dirs_def)

lemma concat_no_dirs: "list_all (gives no_dirs) ms \<Longrightarrow> gives no_dirs (concatR ms)"
proof (induction ms)
  case (Cons m ms)
  then have "gives no_dirs m" "gives no_dirs (concatR ms)" by simp_all
  then show ?case by (auto simp: gives_def no_dirs_def bindR_eq_Inr)
qed (simp add: gives_none)

text \<open>Only these two views list directories.\<close>

lemma tidal_view_no_dirs:
  assumes "f \<noteq> ''genre_view''" and "f \<noteq> ''whats_new''" and "f \<noteq> ''artist_view''"
  shows "gives no_dirs (tidal_view (tidal_xp objid) s f kw)"
proof -
  have roots: "gives no_dirs (root (tidal_xp objid))" "gives no_dirs (my_music (tidal_xp objid))"
    by (simp_all add: root_def my_music_def add_view_def xp_url_def gives_none)
  note rules = gives_if gives_bind gives_none tracks_no_dirs items_no_dirs roots
  show ?thesis
    using assms
    unfolding tidal_view_def Let_def moods_def moods_playlists_def genres_def genre_playlists_def genre_albums_def
      genre_tracks_def featured_playlists_def featured_def featured_other_def similar_artists_def favourite_artists_def
    by (simp only: if_False) (intro rules)
qed

section \<open>What leads on\<close>

lemma tidal_routes_ok: "routes_ok tidal_plugin"
  by code_simp

lemma tidal_keys:
  "map (view_keys tidal_plugin) [''genre_playlists'', ''genre_albums'', ''genre_tracks'', ''featured'', ''artist_radio'', ''top_tracks'', ''similar_artists''] =
   map Some [[''genre_id''], [''genre_id''], [''genre_id''], [''group'', ''content_type''], [''artist_id''], [''artist_id''], [''artist_id'']]"
  by code_simp

lemma tidal_args:
  "list_all good_arg [''recommended'', ''new'', ''top'', ''local'', ''playlists'', ''albums'', ''tracks'']"
  by code_simp

lemmas tidal_table [simp] = tidal_keys [simplified] tidal_args [simplified]

lemma no_dirs_listed: "gives no_dirs m \<Longrightarrow> lists_ok tidal_plugin tidalidprefix m"
  by (auto simp: gives_def no_dirs_def lists_ok_def dirs_made_for_def list_all_iff)

lemma tidal_dirs:
  "list_all (\<lambda>(t, f, ks, args). view_keys tidal_plugin f = Some ks \<and> length args = length ks \<and> list_all good_arg args) dirs \<Longrightarrow>
   lists_ok tidal_plugin tidalidprefix (mapR (\<lambda>(t, f, ks, args). add_url (tidal_xp objid) tidal_plugin t f [] (zip ks args)) dirs) \<and>
   lists_ok tidal_plugin tidalidprefix (mapR (\<lambda>(t, f, ks, args). add_url (tidal_xp objid) tidal_plugin t f args []) dirs)"
  using lists_given_urls [OF tidal_routes_ok, of "tidal_xp objid" tidalidprefix dirs] by (simp add: tidal_xp_def)

lemma tidal_view_listed:
  assumes "list_all (\<lambda>(k, v). good_arg v) kw"
  shows "lists_ok tidal_plugin tidalidprefix (tidal_view (tidal_xp objid) s f kw)"
proof -
  have genre: "lists_ok tidal_plugin tidalidprefix (genre_view (tidal_xp objid) g)" if "good_arg g" for g
    unfolding genre_view_def by (rule tidal_dirs [THEN conjunct1]) (simp add: genre_dirs_def that)
  have whats_new: "lists_ok tidal_plugin tidalidprefix (whats_new (tidal_xp objid) s)"
    unfolding whats_new_def by (rule tidal_dirs [THEN conjunct1]) (simp add: whats_new_dirs_def)
  have artist: "lists_ok tidal_plugin tidalidprefix (artist_view (tidal_xp objid) s i)" if "good_arg i" for i
  proof -
    have "lists_ok tidal_plugin tidalidprefix
        (mapR (\<lambda>(t, f, ks, args). add_url (tidal_xp objid) tidal_plugin t f args []) (artist_dirs i))"
      by (rule tidal_dirs [THEN conjunct2]) (simp add: artist_dirs_def that)
    then show ?thesis unfolding artist_view_def
      by (intro lists_concat) (simp add: no_dirs_listed gives_bind items_no_dirs)
  qed
  consider "f = ''genre_view''" | "f = ''whats_new''" | "f = ''artist_view''"
    | "f \<noteq> ''genre_view''" "f \<noteq> ''whats_new''" "f \<noteq> ''artist_view''" by blast
  then show ?thesis
  proof cases
    case 4
    then show ?thesis by (intro no_dirs_listed tidal_view_no_dirs)
  qed (simp_all add: tidal_view_def whats_new lists_arg [OF assms] genre artist)
qed

interpretation td: routed_service tidal_plugin tidalidprefix "\<lambda>_. True" tidal_views
proof unfold_locales
  fix s objid f kw es
  assume "tidal_views s objid f kw = Some (Inr es)" "list_all (\<lambda>(k, v). good_arg v) kw"
  then show "dirs_made_for tidal_plugin tidalidprefix es"
    using tidal_view_listed [of kw objid s f] by (simp add: tidal_views_def lists_ok_def)
qed (rule tidal_routes_ok)

lemma tidal_root_route: "route_run tidal_plugin [] = Inr (''root'', [])"
  by code_simp

text \<open>C28. The Tidal plugin cannot be entered: whatever the service answers and whoever is logged in, the
  request for its root raises, and a search lists no artist, no album and no playlist: it raises as soon as
  one is found, so that what it lists are only tracks.\<close>

theorem tidal_cannot_be_entered:
  "(\<exists>e. snd (browse http key c [''objid'' \<mapsto> tidalidprefix] app) = Some (Inl e)) \<and>
   gives no_dirs (snd (search http key c a app))"
proof (rule conjI)
  have "root (tidal_xp objid) = Inl AttributeError" for objid
    by (simp add: root_def add_view_def xp_url_def)
  moreover have "replace_first tidalidprefix [] tidalidprefix = []" "startswith tidalidprefix tidalidprefix" by code_simp+
  ultimately show "\<exists>e. snd (browse http key c [''objid'' \<mapsto> tidalidprefix] app) = Some (Inl e)"
    by (auto simp: browse_def svc_browse_def tidal_root_route tidal_views_def tidal_view_def Let_def split: prod.splits sum.splits)
  have "gives no_dirs (tidal_search s objid val k)" for s objid val k
    unfolding tidal_search_def Let_def
    by (intro concat_no_dirs) (simp add: gives_none gives_bind tracks_no_dirs items_no_dirs)
  then show "gives no_dirs (snd (search http key c a app))"
    by (auto simp: search_def gives_none split: option.splits prod.splits sum.splits)
qed

end
