(* ===== verification/Deezer.thy ===== *)
theory Deezer
  imports Service
begin

text \<open>
  The Deezer plugin: requests and login (\<open>deezer/deezerapi.py\<close>), the objects made of the answers
  (\<open>deezer/deezersession.py\<close>) and the views (\<open>deezer/deezer-app.py\<close>). The service, the hash function and
  the file of the token are parameters or parts of the state.
\<close>

section \<open>Requests\<close>

type_synonym params = "(string \<times> json) list"

type_synonym d_http = "string \<Rightarrow> params \<Rightarrow> http_reply option"

record deezer_api =
  dz_token :: json
  dz_user_id :: json
  dz_cached :: "string option"

definition api_url :: "string \<Rightarrow> string \<Rightarrow> string \<Rightarrow> string" where
  "api_url service i mthd = ''http://api.deezer.com/2.0/'' @ service @ ''/'' @ i @ ''/'' @ mthd"

definition d_isloggedin :: "deezer_api \<Rightarrow> bool" where
  "d_isloggedin st \<longleftrightarrow> dz_token st \<noteq> NullJ"

text \<open>The value of the answer, or \<open>None\<close>; an answer that is not JSON raises.\<close>

definition api_request :: "d_http \<Rightarrow> deezer_api \<Rightarrow> string \<Rightarrow> string \<Rightarrow> string \<Rightarrow> params \<Rightarrow> json res" where
  "api_request http st service i mthd prms =
     (let prms = AList.update ''access_token'' (dz_token st) (AList.update ''output'' (StrJ ''json'') prms) in
      case http (api_url service i mthd) prms of
        None \<Rightarrow> Inr NullJ
      | Some r \<Rightarrow>
          if hr_status r \<noteq> 200 \<or> \<not> hr_content r then Inr NullJ
          else case hr_json r of
                 None \<Rightarrow> Inl ValueError
               | Some js \<Rightarrow>
                   bindR (jt_in ''error'' js) (\<lambda>b.
                     if b then bindR (bindR (jt_get js ''error'') (\<lambda>e. jt_get e ''code'')) (\<lambda>_. Inr NullJ) else Inr js))"

section \<open>Login\<close>

definition d_getUser :: "d_http \<Rightarrow> deezer_api \<Rightarrow> deezer_api \<times> bool res" where
  "d_getUser http st =
     (case bindR (api_request http st ''user'' ''me'' [] []) (\<lambda>data. bindR (jt_in ''id'' data) (\<lambda>b. Inr (data, b))) of
        Inl e \<Rightarrow> (st, Inl e)
      | Inr (data, False) \<Rightarrow> (st, Inr False)
      | Inr (data, True) \<Rightarrow>
          (case jt_get data ''id'' of Inl e \<Rightarrow> (st, Inl e) | Inr i \<Rightarrow> (st\<lparr>dz_user_id := i\<rparr>, Inr True)))"

text \<open>The token is read from its file, or it is asked for and written there. The result is the opposite of
  what \<open>getUser\<close> says.\<close>

definition d_user_login ::
  "d_http \<Rightarrow> (params \<Rightarrow> json res) \<Rightarrow> (string \<Rightarrow> string) \<Rightarrow> string \<Rightarrow> string \<Rightarrow> deezer_api \<Rightarrow> deezer_api \<times> bool res" where
  "d_user_login http auth md5 username password st =
     (case (case dz_cached st of
              Some tok \<Rightarrow> (st\<lparr>dz_token := StrJ tok\<rparr>, Inr True)
            | None \<Rightarrow>
                (case bindR (auth [(''login'', StrJ username), (''password'', StrJ (md5 password)), (''device'', StrJ ''panasonic'')])
                        (\<lambda>js. bindR (jt_in ''access_token'' js) (\<lambda>b. Inr (js, b))) of
                   Inl e \<Rightarrow> (st, Inl e)
                 | Inr (js, False) \<Rightarrow> (st\<lparr>dz_token := NullJ, dz_user_id := NullJ\<rparr>, Inr False)
                 | Inr (js, True) \<Rightarrow>
                     (case jt_get js ''access_token'' of
                        Inl e \<Rightarrow> (st, Inl e)
                      | Inr tok \<Rightarrow>
                          (case jt_text tok of
                             Inl e \<Rightarrow> (st\<lparr>dz_token := tok, dz_cached := Some []\<rparr>, Inl e)
                           | Inr t \<Rightarrow> (st\<lparr>dz_token := tok, dz_cached := Some t\<rparr>, Inr True))))) of
        (st, Inl e) \<Rightarrow> (st, Inl e)
      | (st, Inr False) \<Rightarrow> (st, Inr False)
      | (st, Inr True) \<Rightarrow> (case d_getUser http st of (st, r) \<Rightarrow> (st, bindR r (\<lambda>b. Inr (\<not> b)))))"

section \<open>Lists of the service\<close>

definition getUserFollowings :: "d_http \<Rightarrow> deezer_api \<Rightarrow> json res" where
  "getUserFollowings http st =
     (if \<not> d_isloggedin st then Inr (ObjJ [])
      else bindR (jt_str (dz_user_id st)) (\<lambda>u. api_request http st ''user'' u ''followings'' []))"

text \<open>Playlists, albums, artists and tracks of a user.\<close>

definition getUserList :: "d_http \<Rightarrow> deezer_api \<Rightarrow> string \<Rightarrow> string \<Rightarrow> nat \<Rightarrow> json res" where
  "getUserList http st mthd i offset =
     (if \<not> d_isloggedin st then Inr (ObjJ [])
      else bindR (if i = ''me'' then jt_str (dz_user_id st) else Inr i) (\<lambda>u.
             api_request http st ''user'' u mthd [(''index'', IntJ (int offset))]))"

definition getUserPlaylists :: "d_http \<Rightarrow> deezer_api \<Rightarrow> string \<Rightarrow> nat \<Rightarrow> json res" where
  "getUserPlaylists http st = getUserList http st ''playlists''"

definition getUserAlbums :: "d_http \<Rightarrow> deezer_api \<Rightarrow> string \<Rightarrow> nat \<Rightarrow> json res" where
  "getUserAlbums http st = getUserList http st ''albums''"

definition getUserArtists :: "d_http \<Rightarrow> deezer_api \<Rightarrow> string \<Rightarrow> nat \<Rightarrow> json res" where
  "getUserArtists http st = getUserList http st ''artists''"

definition getUserTracks :: "d_http \<Rightarrow> deezer_api \<Rightarrow> string \<Rightarrow> nat \<Rightarrow> json res" where
  "getUserTracks http st = getUserList http st ''tracks''"

definition getArtistAlbums :: "d_http \<Rightarrow> deezer_api \<Rightarrow> string \<Rightarrow> nat \<Rightarrow> json res" where
  "getArtistAlbums http st artid offset =
     (if \<not> d_isloggedin st then Inr (ObjJ [])
      else api_request http st ''artist'' artid ''albums'' [(''index'', IntJ (int offset))])"

definition getUserPlaylist :: "d_http \<Rightarrow> deezer_api \<Rightarrow> string \<Rightarrow> nat \<Rightarrow> json res" where
  "getUserPlaylist http st i offset =
     (if \<not> d_isloggedin st then Inr NullJ
      else api_request http st ''playlist'' i ''tracks'' [(''index'', IntJ (int offset))])"

definition d_api_search :: "d_http \<Rightarrow> deezer_api \<Rightarrow> string \<Rightarrow> string \<Rightarrow> nat \<Rightarrow> json res" where
  "d_api_search http st query filt offset =
     (if \<not> d_isloggedin st then Inr NullJ
      else api_request http st ''search'' [] filt [(''q'', StrJ query), (''index'', IntJ (int offset))])"

definition getAlbum :: "d_http \<Rightarrow> deezer_api \<Rightarrow> string \<Rightarrow> json res" where
  "getAlbum http st i = api_request http st ''album'' i [] []"

section \<open>Objects of the answers\<close>

text \<open>The first of the keys that is there; if it is, the image is set.\<close>

fun image_key :: "json \<Rightarrow> string list \<Rightarrow> string option res" where
  "image_key data [] = Inr None"
| "image_key data (k # ks) = bindR (jt_in k data) (\<lambda>b. if b then Inr (Some k) else image_key data ks)"

definition set_image :: "json \<Rightarrow> string option res" where
  "set_image data =
     bindR (image_key data [''picture_big'', ''picture'', ''cover_big'', ''cover'']) (\<lambda>k.
       case k of None \<Rightarrow> Inr None | Some k \<Rightarrow> bindR (jt_get data k) jt_opt_text)"

definition parse_playlist :: "json \<Rightarrow> playlist_model res" where
  "parse_playlist data =
     bindR (bindR (jt_get data ''id'') jt_str) (\<lambda>i.
     bindR (bindR (jt_get data ''title'') jt_text) (\<lambda>nm.
     bindR (jt_find data ''nb_tracks'') (\<lambda>num_tracks.
     bindR (jt_find data ''duration'') (\<lambda>duration.
     bindR (set_image data) (\<lambda>image.
       Inr ((playlist_defaults i nm)\<lparr>pl_num_tracks := num_tracks, pl_duration := duration, pl_image := image\<rparr>))))))"

definition parse_artist :: "json \<Rightarrow> artist_model res" where
  "parse_artist data =
     bindR (bindR (jt_get data ''id'') jt_str) (\<lambda>i.
     bindR (bindR (jt_get data ''name'') jt_text) (\<lambda>nm.
     bindR (set_image data) (\<lambda>image. Inr \<lparr>art_id = i, art_name = nm, art_image = image\<rparr>)))"

definition parse_user :: "json \<Rightarrow> item_model res" where
  "parse_user data =
     bindR (bindR (jt_get data ''id'') jt_str) (\<lambda>i.
     bindR (bindR (jt_get data ''name'') jt_text) (\<lambda>nm.
     bindR (bindR (jt_get data ''picture'') jt_opt_text) (\<lambda>picture. Inr (plain_item i nm picture))))"

text \<open>The artist of an album is kept as a text, which has no name to show.\<close>

definition parse_album :: "json \<Rightarrow> album_model res" where
  "parse_album data =
     bindR (bindR (jt_get data ''id'') jt_str) (\<lambda>i.
     bindR (bindR (jt_get data ''title'') jt_text) (\<lambda>nm.
     bindR (bindR (jt_in ''artist'' data) (\<lambda>b.
        if b then bindR (jt_path data [''artist'', ''name'']) (\<lambda>_. Inr ()) else Inr ())) (\<lambda>_.
     bindR (set_image data) (\<lambda>image. Inr ((album_defaults i)\<lparr>alb_name := nm, alb_image := image\<rparr>)))))"

text \<open>Without \<open>readable\<close> the alternative is taken, which may not be there.\<close>

definition readable_track :: "json \<Rightarrow> json res" where
  "readable_track data =
     bindR (jt_in ''readable'' data) (\<lambda>b.
       if \<not> b then jt_get data ''alternative''
       else bindR (jt_get data ''readable'') (\<lambda>v.
              if jt_true v then Inr data
              else bindR (jt_in ''alternative'' data) (\<lambda>b. if b then jt_get data ''alternative'' else Inr data)))"

definition track_artist :: "json \<Rightarrow> artist_model res" where
  "track_artist data =
     bindR (jt_in ''artist'' data) (\<lambda>b.
       if \<not> b then Inr artist_defaults
       else bindR (jt_get data ''artist'') (\<lambda>dt.
            bindR (bindR (jt_in ''id'' dt) (\<lambda>b. if b then bindR (jt_get dt ''id'') jt_str else Inr ''None'')) (\<lambda>i.
            bindR (bindR (jt_in ''name'' dt) (\<lambda>b. if b then bindR (jt_get dt ''name'') jt_text else Inr ''Unknown'')) (\<lambda>nm.
              Inr (artist_defaults\<lparr>art_id := i, art_name := nm\<rparr>)))))"

text \<open>Of the covers of the album of a track the last one counts.\<close>

definition track_album :: "json \<Rightarrow> album_model option \<Rightarrow> album_model option res" where
  "track_album data albumarg =
     (case albumarg of
        Some a \<Rightarrow> Inr (Some a)
      | None \<Rightarrow>
          bindR (jt_in ''album'' data) (\<lambda>b.
            if \<not> b then Inr None
            else bindR (jt_get data ''album'') (\<lambda>alb.
                 bindR (image_key alb [''cover'', ''cover_big'']) (\<lambda>k.
                 bindR (case k of None \<Rightarrow> Inr None | Some k \<Rightarrow> bindR (jt_get alb k) jt_opt_text) (\<lambda>image.
                 bindR (bindR (jt_get alb ''title'') jt_text) (\<lambda>nm.
                   Inr (Some ((album_defaults ''None'')\<lparr>alb_name := nm, alb_image := image\<rparr>))))))))"

definition parse_track :: "json \<Rightarrow> album_model option \<Rightarrow> track_model res" where
  "parse_track data albumarg =
     bindR (readable_track data) (\<lambda>data.
     bindR (track_artist data) (\<lambda>artist.
     bindR (bindR (jt_get data ''id'') jt_str) (\<lambda>i.
     bindR (bindR (jt_get data ''title'') jt_text) (\<lambda>nm.
     bindR (jt_get data ''duration'') (\<lambda>duration.
     bindR (jt_get data ''readable'') (\<lambda>readable.
     bindR (bindR (jt_in ''track_position'' data) (\<lambda>b. if b then jt_get data ''track_position'' else Inr (IntJ 0))) (\<lambda>num.
     bindR (track_album data albumarg) (\<lambda>album.
     bindR (set_image data) (\<lambda>image.
       Inr ((track_defaults i nm)\<lparr>trk_duration := duration, trk_artist := Some artist, trk_available := jt_true readable,
              trk_track_num := num, trk_album := album, trk_image := image\<rparr>))))))))))"

definition parse_track0 :: "json \<Rightarrow> track_model res" where
  "parse_track0 data = parse_track data None"

section \<open>The session\<close>

text \<open>Pages of any size, until one is empty or the limit is reached.\<close>

function loopit :: "(nat \<Rightarrow> json res) \<Rightarrow> (json \<Rightarrow> 'a res) \<Rightarrow> nat \<Rightarrow> nat \<Rightarrow> 'a list \<Rightarrow> 'a list res" where
  "loopit getfunc parse limit offset all =
     (if offset < limit then
        bindR (bindR (getfunc offset) (\<lambda>data. jt_map parse data [''data''])) (\<lambda>ndata.
          if ndata = [] then Inr all else loopit getfunc parse limit (offset + length ndata) (all @ ndata))
      else Inr all)"
  by pat_completeness auto
termination
  by (relation "measure (\<lambda>(getfunc, parse, limit, offset, all). limit - offset)") (auto simp: diff_less_mono2)

declare loopit.simps [simp del]

definition d_followings :: "d_http \<Rightarrow> deezer_api \<Rightarrow> item_model list res" where
  "d_followings http st = bindR (getUserFollowings http st) (\<lambda>data. jt_map parse_user data [''data''])"

definition get_favourite_playlists :: "d_http \<Rightarrow> deezer_api \<Rightarrow> string \<Rightarrow> playlist_model list res" where
  "get_favourite_playlists http st i = loopit (getUserPlaylists http st i) parse_playlist 1000 0 []"

definition get_favourite_albums :: "d_http \<Rightarrow> deezer_api \<Rightarrow> string \<Rightarrow> album_model list res" where
  "get_favourite_albums http st i = loopit (getUserAlbums http st i) parse_album 1000 0 []"

definition get_favourite_artists :: "d_http \<Rightarrow> deezer_api \<Rightarrow> string \<Rightarrow> artist_model list res" where
  "get_favourite_artists http st i = loopit (getUserArtists http st i) parse_artist 1000 0 []"

definition get_artist_albums :: "d_http \<Rightarrow> deezer_api \<Rightarrow> string \<Rightarrow> album_model list res" where
  "get_artist_albums http st i = loopit (getArtistAlbums http st i) parse_album 500 0 []"

definition get_favourite_tracks :: "d_http \<Rightarrow> deezer_api \<Rightarrow> string \<Rightarrow> track_model list res" where
  "get_favourite_tracks http st i = loopit (getUserTracks http st i) parse_track0 2000 0 []"

definition get_user_playlist :: "d_http \<Rightarrow> deezer_api \<Rightarrow> string \<Rightarrow> track_model list res" where
  "get_user_playlist http st i = loopit (getUserPlaylist http st i) parse_track0 2000 0 []"

text \<open>\<open>v == 0\<close>\<close>

fun is_zero :: "json \<Rightarrow> bool" where
  "is_zero (IntJ i) = (i = 0)"
| "is_zero (BoolJ b) = (\<not> b)"
| "is_zero (FloatJ t) = float_zero t"
| "is_zero _ = False"

definition number_tracks :: "track_model list \<Rightarrow> track_model list" where
  "number_tracks tracks =
     map (\<lambda>(i, t). if is_zero (trk_track_num t) then t\<lparr>trk_track_num := IntJ (int i + 1)\<rparr> else t) (enumerate 0 tracks)"

text \<open>Without tracks the result is \<open>None\<close>, which the view cannot list.\<close>

definition get_album_tracks :: "d_http \<Rightarrow> deezer_api \<Rightarrow> string \<Rightarrow> track_model list res" where
  "get_album_tracks http st albumid =
     bindR (getAlbum http st albumid) (\<lambda>data.
     bindR (parse_album data) (\<lambda>album.
     bindR (jt_in ''tracks'' data) (\<lambda>b.
       if b then bindR (jt_map (\<lambda>t. parse_track t (Some album)) data [''tracks'', ''data'']) (\<lambda>tracks. Inr (number_tracks tracks))
       else Inl TypeError)))"

definition search_limit :: "string \<Rightarrow> nat" where
  "search_limit tp = (if tp = ''artist'' then 30 else if tp = ''album'' \<or> tp = ''playlist'' then 50 else 200)"

definition sr_append :: "search_result \<Rightarrow> search_result \<Rightarrow> search_result" where
  "sr_append r s =
     \<lparr>sr_artists = sr_artists r @ sr_artists s, sr_albums = sr_albums r @ sr_albums s,
      sr_tracks = sr_tracks r @ sr_tracks s, sr_playlists = sr_playlists r @ sr_playlists s\<rparr>"

text \<open>The objects of a page; a page of another kind counts as empty.\<close>

definition search_page :: "string \<Rightarrow> json \<Rightarrow> (nat \<times> search_result) res" where
  "search_page tp data =
     (if tp = ''artist'' then
        bindR (jt_map parse_artist data [''data'']) (\<lambda>xs. Inr (length xs, sr_empty\<lparr>sr_artists := xs\<rparr>))
      else if tp = ''album'' then
        bindR (jt_map parse_album data [''data'']) (\<lambda>xs. Inr (length xs, sr_empty\<lparr>sr_albums := xs\<rparr>))
      else if tp = ''track'' then
        bindR (jt_map parse_track0 data [''data'']) (\<lambda>xs. Inr (length xs, sr_empty\<lparr>sr_tracks := xs\<rparr>))
      else Inr (0, sr_empty))"

function search_loop :: "d_http \<Rightarrow> deezer_api \<Rightarrow> string \<Rightarrow> string \<Rightarrow> nat \<Rightarrow> search_result \<Rightarrow> search_result res" where
  "search_loop http st query tp offset all =
     (if offset < search_limit tp then
        bindR (d_api_search http st query tp offset) (\<lambda>data.
        bindR (bindR (jt_get data ''data'') jt_len) (\<lambda>_.
          case search_page tp data of
            Inl _ \<Rightarrow> Inr all
          | Inr (ncnt, ndata) \<Rightarrow>
              let all = sr_append all ndata in
              if ncnt = 0 then Inr all else search_loop http st query tp (offset + ncnt) all))
      else Inr all)"
  by pat_completeness auto
termination
  by (relation "measure (\<lambda>(http, st, query, tp, offset, all). search_limit tp - offset)") (auto simp: diff_less_mono2)

declare search_loop.simps [simp del]

text \<open>For another kind the search returns nothing, and its caller fails on it.\<close>

definition search1 :: "d_http \<Rightarrow> deezer_api \<Rightarrow> string \<Rightarrow> string \<Rightarrow> search_result res" where
  "search1 http st query tp =
     bindR (search_loop http st query tp 0 sr_empty) (\<lambda>r.
       if tp \<in> set [''artist'', ''album'', ''track''] then Inr r else Inl AttributeError)"

definition session_search :: "d_http \<Rightarrow> deezer_api \<Rightarrow> string \<Rightarrow> string option \<Rightarrow> search_result res" where
  "session_search http st query tp =
     (if truthy tp then search1 http st query (the tp)
      else bindR (search1 http st query ''artist'') (\<lambda>r1.
           bindR (search1 http st query ''album'') (\<lambda>r2.
           bindR (search1 http st query ''track'') (\<lambda>r3.
             Inr (sr_empty\<lparr>sr_artists := sr_artists r1, sr_albums := sr_albums r2, sr_tracks := sr_tracks r3\<rparr>)))))"

section \<open>The plugin\<close>

definition deezer_rootid :: string where
  "deezer_rootid = ''0$deezer$''"

definition deezer_routes :: "(string \<times> string) list" where
  "deezer_routes =
     [(''root'', ''/''), (''my_family'', ''/my_family''), (''my_favourite_albums'', ''/my_favourite_albums''),
      (''my_favourite_playlists'', ''/my_favourite_playlists''), (''my_favourite_artists'', ''/my_favourite_artists''),
      (''my_favourite_tracks'', ''/my_favourite_tracks''), (''favourite_albums'', ''/favourite_albums/<id>''),
      (''favourite_playlists'', ''/favourite_playlists/<id>''), (''favourite_artists'', ''/favourite_artists/<id>''),
      (''favourite_tracks'', ''/favourite_tracks/<id>''), (''playlist_view'', ''/userplaylist/<id>''),
      (''user_view'', ''/user/<id>''), (''artist_view'', ''/artist/<artist_id>''), (''album_view'', ''/album/<album_id>'')]"

definition deezer_plugin :: route_plugin where
  "deezer_plugin = the_plugin deezer_routes"

definition deezer_xp :: "string \<Rightarrow> xbmc_plugin" where
  "deezer_xp objid = \<lparr>xp_idprefix = deezer_rootid, xp_routeplug = Some deezer_plugin, xp_objid = objid\<rparr>"

record deezer_session =
  dx_env :: svc_env
  dx_http :: d_http
  dx_api :: deezer_api

definition d_albums :: "xbmc_plugin \<Rightarrow> album_model list \<Rightarrow> entry list res" where
  "d_albums xp items = xp_items xp ''album_view'' (map album_item items)"

definition d_artists :: "xbmc_plugin \<Rightarrow> artist_model list \<Rightarrow> entry list res" where
  "d_artists xp items = xp_items xp ''artist_view'' (map artist_item items)"

definition d_playlists :: "xbmc_plugin \<Rightarrow> playlist_model list \<Rightarrow> entry list res" where
  "d_playlists xp items = xp_items xp ''playlist_view'' (map playlist_item items)"

text \<open>The root logs in once more; with a token that does nothing, and without one it asks again.\<close>

definition root :: "xbmc_plugin \<Rightarrow> deezer_session \<Rightarrow> bool res \<Rightarrow> entry list res" where
  "root xp s relogin =
     bindR (if d_isloggedin (dx_api s) then Inr True else relogin) (\<lambda>ok.
       if \<not> ok then Inr []
       else mapR (\<lambda>(t, f). add_view xp t f)
              [(''My Favourites Albums'', ''my_favourite_albums''), (''My Favourites Playlists'', ''my_favourite_playlists''),
               (''My Favourites Tracks'', ''my_favourite_tracks''), (''My Favourites Artists'', ''my_favourite_artists''),
               (''Family'', ''my_family'')])"

definition my_family :: "xbmc_plugin \<Rightarrow> deezer_session \<Rightarrow> entry list res" where
  "my_family xp s = bindR (d_followings (dx_http s) (dx_api s)) (xp_items xp ''user_view'')"

definition favourite_albums :: "xbmc_plugin \<Rightarrow> deezer_session \<Rightarrow> string \<Rightarrow> entry list res" where
  "favourite_albums xp s i = bindR (get_favourite_albums (dx_http s) (dx_api s) i) (d_albums xp)"

definition favourite_playlists :: "xbmc_plugin \<Rightarrow> deezer_session \<Rightarrow> string \<Rightarrow> entry list res" where
  "favourite_playlists xp s i = bindR (get_favourite_playlists (dx_http s) (dx_api s) i) (d_playlists xp)"

definition favourite_artists :: "xbmc_plugin \<Rightarrow> deezer_session \<Rightarrow> string \<Rightarrow> entry list res" where
  "favourite_artists xp s i = bindR (get_favourite_artists (dx_http s) (dx_api s) i) (d_artists xp)"

definition favourite_tracks :: "xbmc_plugin \<Rightarrow> deezer_session \<Rightarrow> string \<Rightarrow> entry list res" where
  "favourite_tracks xp s i = bindR (get_favourite_tracks (dx_http s) (dx_api s) i) (xp_tracks xp (dx_env s))"

definition playlist_view :: "xbmc_plugin \<Rightarrow> deezer_session \<Rightarrow> string \<Rightarrow> entry list res" where
  "playlist_view xp s i = bindR (get_user_playlist (dx_http s) (dx_api s) i) (xp_tracks xp (dx_env s))"

definition user_dirs :: "string \<Rightarrow> (string \<times> string \<times> string list \<times> string list) list" where
  "user_dirs i =
     [(''Albums'', ''favourite_albums'', [''id''], [i]), (''Playlists'', ''favourite_playlists'', [''id''], [i]),
      (''Tracks'', ''favourite_tracks'', [''id''], [i]), (''Artists'', ''favourite_artists'', [''id''], [i])]"

definition user_view :: "xbmc_plugin \<Rightarrow> string \<Rightarrow> entry list res" where
  "user_view xp i = mapR (\<lambda>(t, f, ks, args). add_url xp deezer_plugin t f args []) (user_dirs i)"

definition artist_view :: "xbmc_plugin \<Rightarrow> deezer_session \<Rightarrow> string \<Rightarrow> entry list res" where
  "artist_view xp s i = bindR (get_artist_albums (dx_http s) (dx_api s) i) (d_albums xp)"

definition album_view :: "xbmc_plugin \<Rightarrow> deezer_session \<Rightarrow> string \<Rightarrow> entry list res" where
  "album_view xp s i = bindR (get_album_tracks (dx_http s) (dx_api s) i) (xp_tracks xp (dx_env s))"

definition deezer_view ::
  "bool res \<Rightarrow> deezer_session \<Rightarrow> xbmc_plugin \<Rightarrow> string \<Rightarrow> (string \<times> string) list \<Rightarrow> entry list res" where
  "deezer_view relogin s xp f kw =
     (if f = ''root'' then root xp s relogin
      else if f = ''my_family'' then my_family xp s
      else if f = ''my_favourite_albums'' then favourite_albums xp s ''me''
      else if f = ''my_favourite_playlists'' then favourite_playlists xp s ''me''
      else if f = ''my_favourite_artists'' then favourite_artists xp s ''me''
      else if f = ''my_favourite_tracks'' then favourite_tracks xp s ''me''
      else if f = ''favourite_albums'' then bindR (kw_arg kw ''id'') (favourite_albums xp s)
      else if f = ''favourite_playlists'' then bindR (kw_arg kw ''id'') (favourite_playlists xp s)
      else if f = ''favourite_artists'' then bindR (kw_arg kw ''id'') (favourite_artists xp s)
      else if f = ''favourite_tracks'' then bindR (kw_arg kw ''id'') (favourite_tracks xp s)
      else if f = ''playlist_view'' then bindR (kw_arg kw ''id'') (playlist_view xp s)
      else if f = ''user_view'' then bindR (kw_arg kw ''id'') (user_view xp)
      else if f = ''artist_view'' then bindR (kw_arg kw ''artist_id'') (artist_view xp s)
      else if f = ''album_view'' then bindR (kw_arg kw ''album_id'') (album_view xp s)
      else Inl NameError)"

definition deezer_views ::
  "bool res \<times> deezer_session \<Rightarrow> string \<Rightarrow> string \<Rightarrow> (string \<times> string) list \<Rightarrow> entry list res option" where
  "deezer_views rs objid f kw = Some (deezer_view (fst rs) (snd rs) (deezer_xp objid) f kw)"

definition deezer_search :: "deezer_session \<Rightarrow> string \<Rightarrow> string \<Rightarrow> string option \<Rightarrow> entry list res" where
  "deezer_search s objid val objkind =
     (let xp = deezer_xp objid;
          objkind = (if \<not> truthy objkind then None
                     else if the objkind \<in> set [''album'', ''artist'', ''track''] then objkind else Some ''album'') in
      bindR (session_search (dx_http s) (dx_api s) val objkind) (\<lambda>r.
        concatR
          [if (objkind = None \<or> objkind = Some ''artist'') \<and> sr_artists r \<noteq> [] then d_artists xp (sr_artists r) else Inr [],
           if (objkind = None \<or> objkind = Some ''album'') \<and> sr_albums r \<noteq> [] then d_albums xp (sr_albums r) else Inr [],
           if (objkind = None \<or> objkind = Some ''track'') \<and> sr_tracks r \<noteq> []
           then xp_tracks xp (dx_env s) (sr_tracks r) else Inr []]))"

section \<open>Requests of the parent\<close>

record deezer_world =
  dw_http :: d_http
  dw_auth :: "params \<Rightarrow> json res"
  dw_md5 :: "string \<Rightarrow> string"
  dw_stream :: "params \<Rightarrow> string res"

record deezer_conf =
  dc_environ :: "string \<rightharpoonup> string"
  dc_upconfig :: conf

record deezer_app =
  da_api :: deezer_api
  da_env :: svc_env

definition deezer_need_env :: "deezer_conf \<Rightarrow> string \<Rightarrow> string res" where
  "deezer_need_env c k = (case dc_environ c k of Some v \<Rightarrow> Inr v | None \<Rightarrow> Inl (Raised (''No '' @ k @ '' in environment'')))"

definition deezer_settings :: "deezer_conf \<Rightarrow> (svc_env \<times> string \<times> string) res" where
  "deezer_settings c =
     bindR (deezer_need_env c ''UPMPD_HTTPHOSTPORT'') (\<lambda>httphp.
     bindR (deezer_need_env c ''UPMPD_PATHPREFIX'') (\<lambda>pathprefix.
     bindR (deezer_need_env c ''UPMPD_CONFIG'') (\<lambda>_.
     bindR (getOptionValue (dc_upconfig c) (dc_environ c) ''deezeruser'' None) (\<lambda>username.
     bindR (getOptionValue (dc_upconfig c) (dc_environ c) ''deezerpass'' None) (\<lambda>password.
       if \<not> truthy username \<or> \<not> truthy password
       then Inl (Raised ''deezeruser and/or deezerpass not set in configuration'')
       else Inr (\<lparr>se_httphp = httphp, se_pathprefix = pathprefix, se_mime = ''audio/mpeg'', se_samplerate = ''44100''\<rparr>,
                 the username, the password))))))"

definition maybelogin :: "deezer_world \<Rightarrow> deezer_conf \<Rightarrow> deezer_app \<Rightarrow> deezer_app \<times> bool res" where
  "maybelogin w c app =
     (if d_isloggedin (da_api app) then (app, Inr True)
      else case deezer_settings c of
             Inl e \<Rightarrow> (app, Inl e)
           | Inr (env, username, password) \<Rightarrow>
               (case d_user_login (dw_http w) (dw_auth w) (dw_md5 w) username password (da_api app) of
                  (api, r) \<Rightarrow> (app\<lparr>da_api := api, da_env := env\<rparr>, r)))"

definition request_stream :: "deezer_world \<Rightarrow> deezer_api \<Rightarrow> string \<Rightarrow> string res" where
  "request_stream w st i =
     dw_stream w [(''access_token'', dz_token st), (''track_id'', StrJ i), (''device'', StrJ ''panasonic'')]"

definition trackuri :: "deezer_world \<Rightarrow> deezer_conf \<Rightarrow> (string \<rightharpoonup> string) \<Rightarrow> deezer_app \<Rightarrow> deezer_app \<times> (string \<times> string) list res" where
  "trackuri w c a app =
     (case maybelogin w c app of
        (app, Inl e) \<Rightarrow> (app, Inl e)
      | (app, Inr _) \<Rightarrow>
          (app, bindR (trackid_from_urlpath (se_pathprefix (da_env app)) a) (\<lambda>trackid.
             bindR (request_stream w (da_api app) trackid) (\<lambda>url. Inr [(''media_url'', url)]))))"

text \<open>There is no special answer for a request of metadata.\<close>

definition browse ::
  "deezer_world \<Rightarrow> deezer_conf \<Rightarrow> (string \<rightharpoonup> string) \<Rightarrow> deezer_app \<Rightarrow> deezer_app \<times> entry list res option" where
  "browse w c a app =
     (case a ''objid'' of
        None \<Rightarrow> (app, Some (Inl (Raised ''No objid in args'')))
      | Some objid \<Rightarrow>
          if \<not> startswith objid deezer_rootid then (app, Some (Inl (Raised ''bad objid'')))
          else case maybelogin w c app of
                 (app, r) \<Rightarrow>
                   let s = \<lparr>dx_env = da_env app, dx_http = dw_http w, dx_api = da_api app\<rparr> in
                   (app, svc_browse deezer_rootid deezer_plugin (bindR r (\<lambda>_. Inr ())) (\<lambda>_ _. Inr [])
                           (deezer_views (snd (maybelogin w c app), s)) (a(''flag'' := None))))"

definition search ::
  "deezer_world \<Rightarrow> deezer_conf \<Rightarrow> (string \<rightharpoonup> string) \<Rightarrow> deezer_app \<Rightarrow> deezer_app \<times> entry list res" where
  "search w c a app =
     (case (a ''objid'', a ''value'') of
        (Some objid, Some val) \<Rightarrow>
          if \<not> startswith objid deezer_rootid then (app, Inl (Raised ''bad objid''))
          else (case maybelogin w c app of
                  (app, Inl e) \<Rightarrow> (app, Inl e)
                | (app, Inr _) \<Rightarrow>
                    (app, deezer_search \<lparr>dx_env = da_env app, dx_http = dw_http w, dx_api = da_api app\<rparr> objid val (a ''objkind'')))
      | _ \<Rightarrow> (app, Inl KeyError))"

section \<open>Pages of any size\<close>

text \<open>A service that has the list \<open>xs\<close> and gives out a page of at least one object from any offset in it.\<close>

definition serves :: "(nat \<Rightarrow> json res) \<Rightarrow> (json \<Rightarrow> 'a res) \<Rightarrow> (nat \<Rightarrow> nat) \<Rightarrow> 'a list \<Rightarrow> bool" where
  "serves getfunc parse n xs \<longleftrightarrow>
     (\<forall>off. bindR (getfunc off) (\<lambda>data. jt_map parse data [''data'']) = Inr (take (Suc (n off)) (drop off xs)))"

lemma loopit_from:
  assumes "serves getfunc parse n xs"
  shows "\<exists>k. loopit getfunc parse limit offset all = Inr (all @ take k (drop offset xs)) \<and>
    (length xs \<le> offset + k \<or> limit \<le> offset + k)"
proof (induction "limit - offset" arbitrary: offset all rule: less_induct)
  case less
  let ?page = "take (Suc (n offset)) (drop offset xs)"
  have page: "bindR (getfunc offset) (\<lambda>data. jt_map parse data [''data'']) = Inr ?page"
    using assms unfolding serves_def by (rule spec)
  show ?case
  proof (cases "offset < limit \<and> ?page \<noteq> []")
    case True
    let ?m = "length ?page"
    have step: "loopit getfunc parse limit offset all = loopit getfunc parse limit (offset + ?m) (all @ ?page)"
      using True page by (subst loopit.simps) simp
    have "0 < ?m" using True by simp
    then have "limit - (offset + ?m) < limit - offset" using True by linarith
    from less.hyps [OF this, of "all @ ?page"] obtain k where
      k: "loopit getfunc parse limit (offset + ?m) (all @ ?page) = Inr ((all @ ?page) @ take k (drop (offset + ?m) xs))"
        "length xs \<le> offset + ?m + k \<or> limit \<le> offset + ?m + k" by blast
    have "?page = take ?m (drop offset xs)" by (metis append_take_drop_id append_eq_conv_conj)
    then have "?page @ take k (drop (offset + ?m) xs) = take (?m + k) (drop offset xs)"
      by (metis take_add drop_drop add.commute)
    with step k show ?thesis by (intro exI [of _ "?m + k"]) (simp add: add.assoc)
  next
    case False
    then have "loopit getfunc parse limit offset all = Inr all" using page by (subst loopit.simps) auto
    then show ?thesis using False by (intro exI [of _ 0]) auto
  qed
qed

text \<open>However the service cuts a list into pages, as long as no page before the end is empty, what is
  collected is a beginning of the list, in order and without a gap or a repetition; it is the whole list
  unless it reached the limit.\<close>

theorem loopit_collects:
  assumes "serves getfunc parse n xs"
  shows "\<exists>ys rest. loopit getfunc parse limit 0 [] = Inr ys \<and> xs = ys @ rest \<and> (rest = [] \<or> limit \<le> length ys)"
proof -
  from loopit_from [OF assms, of limit 0 "[]"] obtain k where
    k: "loopit getfunc parse limit 0 [] = Inr (take k xs)" "length xs \<le> k \<or> limit \<le> k" by auto
  show ?thesis
  proof (intro exI conjI)
    show "xs = take k xs @ drop k xs" by simp
    show "drop k xs = [] \<or> limit \<le> length (take k xs)" using k(2) by auto
  qed (rule k(1))
qed

definition demo_pages :: "nat \<Rightarrow> json res" where
  "demo_pages off = Inr (ObjJ [(''data'', ArrJ (map IntJ (take (Suc (off mod 3)) (drop off [1..10]))))])"

theorem loopit_collects_witness:
  "serves demo_pages jt_int (\<lambda>off. off mod 3) [1..10] \<and>
   (\<exists>ys rest. loopit demo_pages jt_int 6 0 [] = Inr ys \<and> [1..10] = ys @ rest \<and> 6 \<le> length ys)"
proof -
  have "mapR jt_int (map IntJ is) = Inr is" for "is" by (induction "is") simp_all
  then have s: "serves demo_pages jt_int (\<lambda>off. off mod 3) [1..10]"
    by (simp add: serves_def demo_pages_def jt_map_def dict_get_def)
  from loopit_collects [OF s, of 6] obtain ys rest where
    r: "loopit demo_pages jt_int 6 0 [] = Inr ys" "[1..10] = ys @ rest" "rest = [] \<or> 6 \<le> length ys" by blast
  have "6 \<le> length ys" using r(2,3) arg_cong [OF r(2), of length] by auto
  with s r show ?thesis by blast
qed

lemma loopit_all:
  assumes "\<And>off ndata. bindR (getfunc off) (\<lambda>data. jt_map parse data [''data'']) = Inr ndata \<Longrightarrow> list_all P ndata"
  shows "loopit getfunc parse limit offset all = Inr ys \<Longrightarrow> list_all P all \<Longrightarrow> list_all P ys"
  using assms
proof (induction getfunc parse limit offset all rule: loopit.induct)
  case (1 getfunc parse limit offset all)
  show ?case
  proof (cases "offset < limit")
    case True
    then obtain ndata where nd: "bindR (getfunc offset) (\<lambda>data. jt_map parse data [''data'']) = Inr ndata"
        "(if ndata = [] then Inr all else loopit getfunc parse limit (offset + length ndata) (all @ ndata)) = Inr ys"
      using 1(2) by (subst (asm) loopit.simps) (auto simp: bindR_eq_Inr)
    with 1(3,4) have p: "list_all P (all @ ndata)" by simp
    show ?thesis
    proof (cases "ndata = []")
      case False
      with nd(2) have "loopit getfunc parse limit (offset + length ndata) (all @ ndata) = Inr ys" by simp
      from 1(1) [OF True False this p] 1(4) show ?thesis by blast
    qed (use nd(2) 1(3) in simp)
  next
    case False
    then show ?thesis using 1(2,3) by (subst (asm) loopit.simps) simp
  qed
qed

section \<open>Track numbers\<close>

text \<open>The tracks of an album come in the order of the service, a track without a number, or with the
  number 0, gets its position, and the other tracks keep theirs: no track of an album has the number 0.\<close>

theorem deezer_album_numbered:
  assumes "get_album_tracks http st i = Inr tracks"
  shows "\<exists>data album ts. getAlbum http st i = Inr data \<and> jt_map (\<lambda>t. parse_track t (Some album)) data [''tracks'', ''data''] = Inr ts \<and>
    list_all (\<lambda>t. \<not> is_zero (trk_track_num t)) tracks \<and> map trk_id tracks = map trk_id ts \<and>
    list_all2 (\<lambda>t t'. is_zero (trk_track_num t) \<or> t' = t) ts tracks"
proof -
  obtain data album ts where t: "getAlbum http st i = Inr data"
      "jt_map (\<lambda>t. parse_track t (Some album)) data [''tracks'', ''data''] = Inr ts" "tracks = number_tracks ts"
    using assms by (auto simp: get_album_tracks_def bindR_eq_Inr split: if_splits)
  have "list_all (\<lambda>t. \<not> is_zero (trk_track_num t)) (number_tracks ts)"
    by (auto simp: number_tracks_def list_all_iff split: if_splits)
  moreover have "map trk_id (number_tracks ts) = map trk_id ts"
    by (rule nth_equalityI) (simp_all add: number_tracks_def nth_enumerate_eq)
  moreover have "list_all2 (\<lambda>t t'. is_zero (trk_track_num t) \<or> t' = t) ts (number_tracks ts)"
    by (simp add: list_all2_conv_all_nth number_tracks_def nth_enumerate_eq)
  ultimately show ?thesis using t by blast
qed

definition demo_track :: "int \<Rightarrow> params \<Rightarrow> json" where
  "demo_track i rest =
     ObjJ ([(''id'', IntJ i), (''title'', StrJ ''T''), (''duration'', IntJ 200), (''readable'', BoolJ True)] @ rest)"

definition demo_http :: d_http where
  "demo_http url prms = Some \<lparr>hr_status = 200, hr_content = True, hr_json = Some (ObjJ
     [(''id'', IntJ 3), (''title'', StrJ ''A''), (''tracks'', ObjJ [(''data'', ArrJ
        [demo_track 31 [], demo_track 32 [(''track_position'', IntJ 7)]])])])\<rparr>"

definition demo_api :: deezer_api where
  "demo_api = \<lparr>dz_token = StrJ ''t'', dz_user_id = IntJ 1, dz_cached = Some ''t''\<rparr>"

theorem deezer_album_numbered_witness:
  "\<exists>tracks. get_album_tracks demo_http demo_api ''3'' = Inr tracks \<and>
     list_all (\<lambda>t. \<not> is_zero (trk_track_num t)) tracks \<and>
     map (\<lambda>t. (trk_id t, trk_track_num t)) tracks = [(''31'', IntJ 1), (''32'', IntJ 7)]"
proof -
  have e: "map_sum id (map (\<lambda>t. (trk_id t, trk_track_num t))) (get_album_tracks demo_http demo_api ''3'')
      = Inr [(''31'', IntJ 1), (''32'', IntJ 7)]" by code_simp
  then obtain tracks where t: "get_album_tracks demo_http demo_api ''3'' = Inr tracks"
      "map (\<lambda>t. (trk_id t, trk_track_num t)) tracks = [(''31'', IntJ 1), (''32'', IntJ 7)]"
    by (cases "get_album_tracks demo_http demo_api ''3''") auto
  from deezer_album_numbered [OF t(1)] have "list_all (\<lambda>t. \<not> is_zero (trk_track_num t)) tracks" by (elim exE conjE)
  with t show ?thesis by (intro exI [of _ tracks] conjI)
qed

section \<open>Login\<close>

text \<open>With a token the login says no exactly if the user was found.\<close>

lemma login_says_opposite:
  assumes "dz_cached st = Some tok" and "d_user_login http auth md5 u p st = (st', Inr ok)"
  shows "snd (d_getUser http (st\<lparr>dz_token := StrJ tok\<rparr>)) = Inr (\<not> ok)"
  using assms by (auto simp: d_user_login_def bindR_eq_Inr split: prod.splits)

section \<open>Every listing of the plugin leads on\<close>

definition ids_good :: "json \<Rightarrow> bool" where
  "ids_good v \<longleftrightarrow> ids_ok [''id''] v"

definition answers_good :: "d_http \<Rightarrow> bool" where
  "answers_good http \<longleftrightarrow> (\<forall>url prms r v. http url prms = Some r \<longrightarrow> hr_json r = Some v \<longrightarrow> ids_good v)"

lemma api_request_good: "api_request http st sv i m prms = Inr v \<Longrightarrow> answers_good http \<Longrightarrow> ids_good v"
  by (auto simp: api_request_def answers_good_def Let_def bindR_eq_Inr ids_good_def split: option.splits if_splits)

lemma list_good:
  assumes "answers_good http"
  shows "getUserFollowings http st = Inr v \<Longrightarrow> ids_good v" "getUserList http st m i off = Inr v \<Longrightarrow> ids_good v"
    "getArtistAlbums http st i off = Inr v \<Longrightarrow> ids_good v"
  using assms api_request_good
  by (auto simp: getUserFollowings_def getUserList_def getArtistAlbums_def bindR_eq_Inr ids_good_def split: if_splits)

lemma d_ids_good_id: "ids_good v \<Longrightarrow> jt_get v ''id'' = Inr w \<Longrightarrow> jt_str w = Inr i \<Longrightarrow> good_arg i"
  by (auto simp: ids_good_def dest: ids_ok_get_id)

lemma d_parse_ids:
  "ids_good d \<Longrightarrow> parse_artist d = Inr a \<Longrightarrow> good_arg (art_id a)"
  "ids_good d \<Longrightarrow> parse_album d = Inr al \<Longrightarrow> good_arg (alb_id al)"
  "ids_good d \<Longrightarrow> parse_playlist d = Inr p \<Longrightarrow> good_arg (pl_id p)"
  "ids_good d \<Longrightarrow> parse_user d = Inr u \<Longrightarrow> good_arg (it_id u)"
  by (auto simp: parse_artist_def parse_album_def parse_playlist_def parse_user_def album_defaults_def
      playlist_defaults_def plain_item_def bindR_eq_Inr dest: d_ids_good_id)

lemma pages_good:
  assumes "loopit getfunc parse limit 0 [] = Inr ys"
    and "\<And>off v. getfunc off = Inr v \<Longrightarrow> ids_good v" and "\<And>d y. ids_good d \<Longrightarrow> parse d = Inr y \<Longrightarrow> P y"
  shows "list_all P ys"
proof (rule loopit_all [OF _ assms(1)])
  fix off ndata assume "bindR (getfunc off) (\<lambda>data. jt_map parse data [''data'']) = Inr ndata"
  then obtain data where "getfunc off = Inr data" "jt_map parse data [''data''] = Inr ndata" by (auto simp: bindR_eq_Inr)
  then show "list_all P ndata"
    using ids_ok_map [of "[''id'']" data parse] assms(2,3) unfolding ids_good_def by blast
qed simp

lemma deezer_routes_ok: "routes_ok deezer_plugin"
  by code_simp

lemma deezer_keys:
  "map (view_keys deezer_plugin)
     [''my_family'', ''my_favourite_albums'', ''my_favourite_playlists'', ''my_favourite_artists'', ''my_favourite_tracks'',
      ''favourite_albums'', ''favourite_playlists'', ''favourite_artists'', ''favourite_tracks'', ''playlist_view'',
      ''user_view'', ''artist_view'', ''album_view''] =
   map Some [[], [], [], [], [], [''id''], [''id''], [''id''], [''id''], [''id''], [''id''], [''artist_id''], [''album_id'']]"
  by code_simp

lemmas deezer_table [simp] = deezer_keys [simplified]

lemma deezer_routed [simp]: "routed deezer_plugin deezer_rootid (deezer_xp objid)"
  by (simp add: routed_def deezer_xp_def deezer_routes_ok)

lemma d_lists:
  "list_all (\<lambda>a. good_arg (alb_id a)) albums \<Longrightarrow> lists_ok deezer_plugin deezer_rootid (d_albums (deezer_xp objid) albums)"
  "list_all (\<lambda>a. good_arg (art_id a)) artists \<Longrightarrow> lists_ok deezer_plugin deezer_rootid (d_artists (deezer_xp objid) artists)"
  "list_all (\<lambda>p. good_arg (pl_id p)) playlists \<Longrightarrow> lists_ok deezer_plugin deezer_rootid (d_playlists (deezer_xp objid) playlists)"
  using lists_items [OF deezer_routed, of _ _ _ objid]
  by (simp_all add: d_albums_def d_artists_def d_playlists_def list.pred_map comp_def album_item_def artist_item_def playlist_item_def)

lemma favourites_listed:
  assumes "answers_good (dx_http s)"
  shows "lists_ok deezer_plugin deezer_rootid (favourite_albums (deezer_xp objid) s i)"
    and "lists_ok deezer_plugin deezer_rootid (favourite_artists (deezer_xp objid) s i)"
    and "lists_ok deezer_plugin deezer_rootid (favourite_playlists (deezer_xp objid) s i)"
    and "lists_ok deezer_plugin deezer_rootid (artist_view (deezer_xp objid) s i)"
    and "lists_ok deezer_plugin deezer_rootid (my_family (deezer_xp objid) s)"
proof -
  show "lists_ok deezer_plugin deezer_rootid (favourite_albums (deezer_xp objid) s i)"
    unfolding favourite_albums_def get_favourite_albums_def getUserAlbums_def
    by (rule lists_bind, rule d_lists(1), erule pages_good, erule list_good(2) [OF assms], erule (1) d_parse_ids(2))
  show "lists_ok deezer_plugin deezer_rootid (favourite_artists (deezer_xp objid) s i)"
    unfolding favourite_artists_def get_favourite_artists_def getUserArtists_def
    by (rule lists_bind, rule d_lists(2), erule pages_good, erule list_good(2) [OF assms], erule (1) d_parse_ids(1))
  show "lists_ok deezer_plugin deezer_rootid (favourite_playlists (deezer_xp objid) s i)"
    unfolding favourite_playlists_def get_favourite_playlists_def getUserPlaylists_def
    by (rule lists_bind, rule d_lists(3), erule pages_good, erule list_good(2) [OF assms], erule (1) d_parse_ids(3))
  show "lists_ok deezer_plugin deezer_rootid (artist_view (deezer_xp objid) s i)"
    unfolding artist_view_def get_artist_albums_def
    by (rule lists_bind, rule d_lists(1), erule pages_good, erule list_good(3) [OF assms], erule (1) d_parse_ids(2))
  show "lists_ok deezer_plugin deezer_rootid (my_family (deezer_xp objid) s)"
    unfolding my_family_def d_followings_def
  proof (rule lists_bind, rule lists_items [OF deezer_routed])
    fix items
    assume "bindR (getUserFollowings (dx_http s) (dx_api s)) (\<lambda>data. jt_map parse_user data [''data'']) = Inr items"
    then obtain data where "getUserFollowings (dx_http s) (dx_api s) = Inr data" "jt_map parse_user data [''data''] = Inr items"
      by (auto simp: bindR_eq_Inr)
    with list_good(1) [OF assms] d_parse_ids(4) show "list_all (\<lambda>i. good_arg (it_id i)) items"
      unfolding ids_good_def by (intro ids_ok_map) blast+
  qed simp
qed

lemma deezer_view_listed:
  assumes "answers_good (dx_http s)" and "list_all (\<lambda>(k, v). good_arg v) kw"
  shows "lists_ok deezer_plugin deezer_rootid (deezer_view relogin s (deezer_xp objid) f kw)"
proof -
  have root: "lists_ok deezer_plugin deezer_rootid (root (deezer_xp objid) s relogin)"
    unfolding root_def by (intro lists_bind lists_if lists_Nil lists_views [OF deezer_routed]) simp
  have user: "lists_ok deezer_plugin deezer_rootid (user_view (deezer_xp objid) i)" if "good_arg i" for i
    unfolding user_view_def by (rule lists_urls [OF deezer_routed]) (simp add: user_dirs_def that)
  have tracks: "lists_ok deezer_plugin deezer_rootid (favourite_tracks (deezer_xp objid) s i)"
    "lists_ok deezer_plugin deezer_rootid (playlist_view (deezer_xp objid) s i)"
    "lists_ok deezer_plugin deezer_rootid (album_view (deezer_xp objid) s i)" for i
    unfolding favourite_tracks_def playlist_view_def album_view_def by (rule lists_tracks_bind)+
  show ?thesis unfolding deezer_view_def
    by (intro lists_if lists_arg [OF assms(2)] root user tracks favourites_listed [OF assms(1)] lists_Inl; assumption)
qed

interpretation dz: routed_service deezer_plugin deezer_rootid "\<lambda>(relogin, s). answers_good (dx_http s)" deezer_views
proof unfold_locales
  fix rs objid f kw es
  assume "case rs of (relogin, s) \<Rightarrow> answers_good (dx_http s)" "deezer_views rs objid f kw = Some (Inr es)"
    "list_all (\<lambda>(k, v). good_arg v) kw"
  then show "dirs_made_for deezer_plugin deezer_rootid es"
    using deezer_view_listed [of "snd rs" kw "fst rs" objid f] by (auto simp: deezer_views_def lists_ok_def split: prod.splits)
qed (rule deezer_routes_ok)

end
