(* ===== verification/Hra.thy ===== *)
theory Hra
  imports Service PyBase64
begin

text \<open>
  The HighResAudio plugin: requests and login (\<open>hra/hraapi.py\<close>), the objects made of the answers
  (\<open>hra/session.py\<close>) and the views (\<open>hra/hra-app.py\<close>). A login is renewed after twenty minutes, so every
  call can change the state: calls are functions from a state to a state and a result. The service and the
  clock are parameters; the clock does not advance during a request of the parent.
\<close>

section \<open>State and calls\<close>

type_synonym params = "(string \<times> json) list"

type_synonym h_http = "string \<Rightarrow> string \<Rightarrow> params \<Rightarrow> http_reply option"

text \<open>\<open>user_data\<close> is sent as its text.\<close>

record hra_api =
  ha_session_id :: json
  ha_user_id :: json
  ha_user_data :: "json option"
  ha_logged_on :: "int option"
  ha_lang :: string

record hra_world =
  hw_http :: h_http
  hw_now :: int

type_synonym 'a hra = "hra_api \<Rightarrow> hra_api \<times> 'a res"

definition bindH :: "'a hra \<Rightarrow> ('a \<Rightarrow> 'b hra) \<Rightarrow> 'b hra" where
  "bindH m f = (\<lambda>st. case m st of (st, Inl e) \<Rightarrow> (st, Inl e) | (st, Inr x) \<Rightarrow> f x st)"

definition liftH :: "'a res \<Rightarrow> 'a hra" where
  "liftH r = (\<lambda>st. (st, r))"

definition hra_init :: hra_api where
  "hra_init = \<lparr>ha_session_id = NullJ, ha_user_id = NullJ, ha_user_data = None, ha_logged_on = None, ha_lang = ''en''\<rparr>"

text \<open>The value of a reply. An answer that is not JSON raises: the warning about it has one argument too many.\<close>

definition reply_value :: "http_reply option \<Rightarrow> json res" where
  "reply_value reply =
     (case reply of
        None \<Rightarrow> Inr NullJ
      | Some r \<Rightarrow>
          if hr_status r \<noteq> 200 \<or> \<not> hr_content r then Inr NullJ
          else case hr_json r of
                 None \<Rightarrow> Inl TypeError
               | Some js \<Rightarrow> if jt_get js ''response_status'' = Inr (StrJ ''OK'') then Inr js else Inr NullJ)"

definition request_params :: "hra_api \<Rightarrow> params \<Rightarrow> params" where
  "request_params st iparams =
     (let prms = (case ha_user_data st of Some u \<Rightarrow> [(''userData'', u), (''lang'', StrJ (ha_lang st))] | None \<Rightarrow> []);
          prms = fold (\<lambda>(k, v) d. AList.update k v d) iparams prms
      in if \<not> has_key prms ''limit'' then AList.update ''limit'' (IntJ 300) prms else prms)"

definition api_request :: "hra_world \<Rightarrow> params \<Rightarrow> string \<Rightarrow> string \<Rightarrow> json hra" where
  "api_request w iparams uri mthd = (\<lambda>st.
     (st, reply_value (hw_http w mthd (''https://streaming.highresaudio.com:8182/vault3'' @ uri) (request_params st iparams))))"

text \<open>\<open>not data or 'user_id' not in data or 'session_id' not in data or ...\<close>\<close>

definition login_data :: "json \<Rightarrow> (json \<times> json) option res" where
  "login_data data =
     (if \<not> jt_true data then Inr None
      else bindR (jt_in ''user_id'' data) (\<lambda>b. if \<not> b then Inr None
      else bindR (jt_in ''session_id'' data) (\<lambda>b. if \<not> b then Inr None
      else bindR (jt_get data ''user_id'') (\<lambda>u. if \<not> jt_true u then Inr None
      else bindR (jt_get data ''session_id'') (\<lambda>s. Inr (if jt_true s then Some (u, s) else None))))))"

definition set_login :: "hra_world \<Rightarrow> json \<times> json \<Rightarrow> hra_api \<Rightarrow> hra_api" where
  "set_login w us st =
     st\<lparr>ha_session_id := snd us, ha_user_id := fst us,
        ha_user_data := Some (ObjJ [(''user_id'', fst us), (''session_id'', snd us)]), ha_logged_on := Some (hw_now w)\<rparr>"

text \<open>The data of the old login stays in \<open>user_data\<close>.\<close>

definition clear_login :: "hra_api \<Rightarrow> hra_api" where
  "clear_login st = st\<lparr>ha_user_id := NullJ, ha_logged_on := None\<rparr>"

definition renew_session :: "hra_world \<Rightarrow> json hra" where
  "renew_session w =
     bindH (api_request w [] ''/user/keepalive/'' ''POST'') (\<lambda>data.
     bindH (liftH (login_data data)) (\<lambda>us. \<lambda>st.
       case us of None \<Rightarrow> (st\<lparr>ha_logged_on := None\<rparr>, Inr NullJ) | Some us \<Rightarrow> (set_login w us st, Inr data)))"

definition isloggedin :: "hra_world \<Rightarrow> bool hra" where
  "isloggedin w = (\<lambda>st.
     case ha_logged_on st of
       None \<Rightarrow> (st, Inr False)
     | Some t \<Rightarrow>
         if hw_now w - t > 20 * 60
         then bindH (renew_session w) (\<lambda>_ st. (st, Inr (ha_logged_on st \<noteq> None))) st
         else (st, Inr True))"

definition user_login :: "hra_world \<Rightarrow> string \<Rightarrow> string \<Rightarrow> json hra" where
  "user_login w username password =
     bindH (api_request w [(''username'', StrJ username), (''password'', StrJ password)] ''/user/login'' ''POST'') (\<lambda>data.
     bindH (liftH (login_data data)) (\<lambda>us. \<lambda>st.
       case us of None \<Rightarrow> (clear_login st, Inr NullJ) | Some us \<Rightarrow> (set_login w us st, Inr data)))"

definition hra_logout :: "hra_world \<Rightarrow> unit hra" where
  "hra_logout w = bindH (api_request w [] ''/user/logout'' ''POST'') (\<lambda>_ st. (clear_login st, Inr ()))"

section \<open>The methods\<close>

text \<open>A call that needs a login returns the given value without one.\<close>

definition when_loggedin :: "hra_world \<Rightarrow> json \<Rightarrow> json hra \<Rightarrow> json hra" where
  "when_loggedin w dflt m = bindH (isloggedin w) (\<lambda>b. if b then m else liftH (Inr dflt))"

text \<open>\<open>not data or 'data' not in data or k not in data['data']\<close>\<close>

definition under_data :: "string \<Rightarrow> json \<Rightarrow> json option res" where
  "under_data k data =
     (if \<not> jt_true data then Inr None
      else bindR (jt_in ''data'' data) (\<lambda>b. if \<not> b then Inr None
      else bindR (jt_get data ''data'') (\<lambda>d.
           bindR (jt_in k d) (\<lambda>b. if b then bindR (jt_get d k) (\<lambda>v. Inr (Some v)) else Inr None))))"

definition or_else :: "json \<Rightarrow> json option \<Rightarrow> json" where
  "or_else dflt v = (case v of Some v \<Rightarrow> v | None \<Rightarrow> dflt)"

definition get_results :: "hra_world \<Rightarrow> params \<Rightarrow> string \<Rightarrow> json \<Rightarrow> json hra" where
  "get_results w ka uri dflt =
     bindH (api_request w ka uri ''GET'') (\<lambda>data. liftH (bindR (under_data ''results'' data) (\<lambda>v. Inr (or_else dflt v))))"

definition getAllCategories :: "hra_world \<Rightarrow> json hra" where
  "getAllCategories w =
     when_loggedin w NullJ
       (bindH (api_request w [] ''/vault/categories/ListAllCategories/'' ''GET'') (\<lambda>data.
          liftH (bindR (under_data ''results'' data) (\<lambda>v. case v of None \<Rightarrow> Inr (ObjJ [])
            | Some v \<Rightarrow> bindR (jt_items v) (\<lambda>items. Inr (ArrJ (map snd items)))))))"

definition getAllGenres :: "hra_world \<Rightarrow> json hra" where
  "getAllGenres w = when_loggedin w NullJ (get_results w [] ''/vault/categories/ListAllGenre'' (ObjJ []))"

definition listCategoryContent :: "hra_world \<Rightarrow> string \<Rightarrow> json hra" where
  "listCategoryContent w category =
     when_loggedin w NullJ (get_results w [(''category'', StrJ category)] ''/vault/categories/ListCategorieContent/'' (ObjJ []))"

text \<open>The results, if they have tracks.\<close>

definition with_tracks :: "json option \<Rightarrow> json option res" where
  "with_tracks v =
     (case v of None \<Rightarrow> Inr None
      | Some v \<Rightarrow> bindR (jt_in ''tracks'' v) (\<lambda>b. Inr (if b then Some v else None)))"

definition getAlbumDetails :: "hra_world \<Rightarrow> string \<Rightarrow> json hra" where
  "getAlbumDetails w album_id =
     when_loggedin w NullJ
       (bindH (api_request w [(''album_id'', StrJ album_id)] ''/vault/album/'' ''GET'') (\<lambda>data.
          liftH (bindR (bindR (under_data ''results'' data) with_tracks) (\<lambda>v. Inr (or_else NullJ v)))))"

definition getTrackById :: "hra_world \<Rightarrow> string \<Rightarrow> json hra" where
  "getTrackById w track_id =
     when_loggedin w NullJ
       (bindH (api_request w [(''track_id'', StrJ track_id)] ''/vault/track/'' ''GET'') (\<lambda>data.
          liftH (bindR (bindR (under_data ''results'' data) with_tracks) (\<lambda>v.
            case v of None \<Rightarrow> Inr NullJ | Some v \<Rightarrow> jt_get v ''tracks''))))"

definition quickSearch :: "hra_world \<Rightarrow> string \<Rightarrow> json hra" where
  "quickSearch w txt =
     bindH (api_request w [(''search'', StrJ txt)] ''/vault/search/quickSearch/'' ''GET'') (\<lambda>data.
       liftH (if \<not> jt_true data then Inr (ObjJ [])
              else bindR (jt_in ''data'' data) (\<lambda>b. if \<not> b then Inr (ObjJ [])
              else bindR (jt_get data ''data'') (\<lambda>d. Inr (if jt_true d then d else ObjJ [])))))"

definition api_searchCategory :: "hra_world \<Rightarrow> string \<Rightarrow> string \<Rightarrow> json hra" where
  "api_searchCategory w category txt =
     get_results w [(''category'', StrJ category), (''search'', StrJ txt)] ''/vault/SearchInCategory/'' (ObjJ [])"

definition getAvailableMoods :: "hra_world \<Rightarrow> json hra" where
  "getAvailableMoods w = get_results w [] ''/vault/getEditorPlaylistsMoods/'' (ObjJ [])"

definition getAvailableGenres :: "hra_world \<Rightarrow> json hra" where
  "getAvailableGenres w = get_results w [] ''/vault/getEditorPlaylistsGenres/'' (ObjJ [])"

definition getAvailableThemes :: "hra_world \<Rightarrow> json hra" where
  "getAvailableThemes w = get_results w [] ''/vault/getEditorPlaylistsThemes/'' (ObjJ [])"

definition getAllEditorPlaylists :: "hra_world \<Rightarrow> json hra" where
  "getAllEditorPlaylists w = get_results w [] ''/vault/editorPlaylists/'' NullJ"

definition getEditorPlaylist :: "hra_world \<Rightarrow> string \<Rightarrow> json hra" where
  "getEditorPlaylist w i =
     when_loggedin w NullJ
       (bindH (api_request w [(''id'', StrJ i)] ''/vault/getSingleEditorPlaylists/'' ''GET'') (\<lambda>data.
          liftH (bindR (bindR (under_data ''results'' data) (\<lambda>v. case v of None \<Rightarrow> Inr None
              | Some v \<Rightarrow> bindR (jt_first v) (\<lambda>x. with_tracks (Some x)))) (\<lambda>v. Inr (or_else NullJ v)))))"

definition listAllUserPlaylists :: "hra_world \<Rightarrow> json hra" where
  "listAllUserPlaylists w =
     when_loggedin w (ObjJ [])
       (bindH (api_request w [] ''/user/ListAllUserPlaylists'' ''GET'') (\<lambda>data.
          liftH (bindR (under_data ''data'' data) (\<lambda>v. Inr (or_else NullJ v)))))"

definition api_getUserPlaylist :: "hra_world \<Rightarrow> string \<Rightarrow> json hra" where
  "api_getUserPlaylist w playlist_id =
     when_loggedin w NullJ
       (bindH (api_request w [(''playlist_id'', StrJ playlist_id)] ''/user/ListSingleUserPlaylist/'' ''GET'') (\<lambda>data.
          liftH (bindR (under_data ''data'' data) (\<lambda>v. Inr (or_else NullJ v)))))"

definition listAllUserAlbums :: "hra_world \<Rightarrow> json hra" where
  "listAllUserAlbums w =
     when_loggedin w (ObjJ []) (get_results w [(''limit'', IntJ 1000)] ''/user/list/MyAlbum'' NullJ)"

definition listAllUserTracks :: "hra_world \<Rightarrow> json hra" where
  "listAllUserTracks w =
     when_loggedin w (ObjJ [])
       (bindH (api_request w [(''limit'', IntJ 2000)] ''/user/list/MyTracks'' ''GET'') (\<lambda>data.
          liftH (bindR (under_data ''data'' data) (\<lambda>v. case v of None \<Rightarrow> Inr NullJ
            | Some v \<Rightarrow> bindR (jt_in ''results'' v) (\<lambda>b. if b then jt_get v ''results'' else Inr NullJ)))))"

section \<open>Objects of the answers\<close>

text \<open>The identifier of a category is its prefix in the alphabet of Base64 for URLs.\<close>

definition url_b64 :: "char \<Rightarrow> char" where
  "url_b64 c = (if c = CHR ''+'' then CHR ''-'' else if c = CHR ''/'' then CHR ''_'' else c)"

definition std_b64 :: "char \<Rightarrow> char" where
  "std_b64 c = (if c = CHR ''-'' then CHR ''+'' else if c = CHR ''_'' then CHR ''/'' else c)"

definition encode_prefix :: "string \<Rightarrow> string" where
  "encode_prefix p = map url_b64 (b64encode p)"

definition decode_prefix :: "string \<Rightarrow> string res" where
  "decode_prefix p = bindR (b64decode (map std_b64 p)) (\<lambda>s. if valid_utf8 s then Inr s else Inl ValueError)"

definition parse_category :: "json \<Rightarrow> item_model res" where
  "parse_category data =
     bindR (bindR (jt_get data ''prefix'') jt_text) (\<lambda>prefix.
     bindR (bindR (jt_get data ''title'') jt_text) (\<lambda>nm.
     bindR (jt_get data ''id'') (\<lambda>_. Inr (plain_item (encode_prefix prefix) nm None))))"

definition parse_genre :: "json \<Rightarrow> item_model res" where
  "parse_genre = parse_category"

text \<open>The first of the covers that is there.\<close>

fun cover_of :: "json \<Rightarrow> string list \<Rightarrow> string option res" where
  "cover_of cover [] = Inr None"
| "cover_of cover (k # ks) = bindR (jt_in k cover) (\<lambda>b.
     if b then bindR (bindR (jt_path cover [k, ''file_url'']) jt_text) (\<lambda>u. Inr (Some (''https://'' @ u)))
     else cover_of cover ks)"

definition is_dict :: "json \<Rightarrow> bool" where
  "is_dict v \<longleftrightarrow> (case v of ObjJ _ \<Rightarrow> True | _ \<Rightarrow> False)"

definition album_cover :: "json \<Rightarrow> string option res" where
  "album_cover data =
     bindR (jt_in ''cover'' data) (\<lambda>b.
       if b then bindR (jt_get data ''cover'') (\<lambda>cover.
              if is_dict cover then cover_of cover [''preview'', ''master'', ''thumbnail''] else jt_opt_text cover)
       else bindR (jt_in ''playlistCover'' data) (\<lambda>b. if b then bindR (jt_get data ''playlistCover'') jt_opt_text else Inr None))"

text \<open>The artist of an album is a text, which has no name to show.\<close>

definition parse_album :: "json \<Rightarrow> album_model res" where
  "parse_album data =
     bindR (bindR (jt_get data ''id'') jt_str) (\<lambda>i.
     bindR (bindR (jt_get data ''title'') jt_text) (\<lambda>nm.
     bindR (jt_in ''artist'' data) (\<lambda>_.
     bindR (album_cover data) (\<lambda>image. Inr ((album_defaults i)\<lparr>alb_name := nm, alb_image := image\<rparr>)))))"

definition opt_cover :: "json \<Rightarrow> string option res" where
  "opt_cover data = bindR (jt_in ''cover'' data) (\<lambda>b. if b then bindR (jt_get data ''cover'') jt_opt_text else Inr None)"

definition track_album :: "json \<Rightarrow> album_model option \<Rightarrow> album_model option res" where
  "track_album data albumarg =
     (case albumarg of
        Some a \<Rightarrow> Inr (Some a)
      | None \<Rightarrow>
          bindR (bindR (jt_in ''cover'' data) (\<lambda>b. if b then jt_in ''album'' data else Inr False)) (\<lambda>b.
            if \<not> b then Inr None
            else bindR (opt_cover data) (\<lambda>image.
                 bindR (bindR (jt_get data ''album'') jt_text) (\<lambda>nm.
                   Inr (Some ((album_defaults ''None'')\<lparr>alb_name := nm, alb_image := image\<rparr>))))))"

definition parse_track :: "json \<Rightarrow> album_model option \<Rightarrow> track_model res" where
  "parse_track data albumarg =
     bindR (bindR (jt_get data ''artist'') jt_text) (\<lambda>artist.
     bindR (bindR (jt_get data ''playlistAdd'') jt_str) (\<lambda>i.
     bindR (bindR (jt_get data ''title'') jt_text) (\<lambda>nm.
     bindR (jt_get data ''playtime'') (\<lambda>duration.
     bindR (jt_get data ''format'') (\<lambda>_.
     bindR (bindR (jt_in ''trackNumber'' data) (\<lambda>b. if b then jt_get data ''trackNumber'' else Inr (IntJ 0))) (\<lambda>num.
     bindR (track_album data albumarg) (\<lambda>album.
     bindR (opt_cover data) (\<lambda>image.
       Inr ((track_defaults i nm)\<lparr>trk_duration := duration, trk_track_num := num,
              trk_artist := Some (artist_defaults\<lparr>art_name := artist\<rparr>), trk_album := album, trk_image := image\<rparr>)))))))))"

definition parse_track0 :: "json \<Rightarrow> track_model res" where
  "parse_track0 data = parse_track data None"

definition parse_playlist :: "json \<Rightarrow> playlist_model res" where
  "parse_playlist data =
     bindR (bindR (jt_get data ''playlist_id'') jt_str) (\<lambda>i.
     bindR (bindR (jt_get data ''playlist_title'') jt_text) (\<lambda>nm.
     bindR (jt_find data ''count_track'') (\<lambda>num_tracks.
     bindR (jt_find data ''duration'') (\<lambda>duration.
       Inr ((playlist_defaults i nm)\<lparr>pl_num_tracks := num_tracks, pl_duration := duration\<rparr>)))))"

section \<open>The session\<close>

definition parse_all :: "(json \<Rightarrow> 'a res) \<Rightarrow> json hra \<Rightarrow> 'a list hra" where
  "parse_all parse m = bindH m (\<lambda>data. liftH (jt_map parse data []))"

text \<open>\<open>if not data: return []\<close>\<close>

definition parse_some :: "(json \<Rightarrow> 'a res) \<Rightarrow> json hra \<Rightarrow> 'a list hra" where
  "parse_some parse m = bindH m (\<lambda>data. liftH (if \<not> jt_true data then Inr [] else jt_map parse data []))"

text \<open>An album or a playlist of the editor with its tracks.\<close>

definition album_with_tracks :: "json hra \<Rightarrow> track_model list hra" where
  "album_with_tracks m =
     bindH m (\<lambda>data. liftH (if \<not> jt_true data then Inr []
       else bindR (parse_album data) (\<lambda>album. jt_map (\<lambda>t. parse_track t (Some album)) data [''tracks''])))"

definition get_album_tracks :: "hra_world \<Rightarrow> string \<Rightarrow> track_model list hra" where
  "get_album_tracks w i = album_with_tracks (getAlbumDetails w i)"

definition get_editor_playlist :: "hra_world \<Rightarrow> string \<Rightarrow> track_model list hra" where
  "get_editor_playlist w i = album_with_tracks (getEditorPlaylist w i)"

definition get_media_url :: "hra_world \<Rightarrow> string \<Rightarrow> json hra" where
  "get_media_url w trackid =
     bindH (getTrackById w trackid) (\<lambda>data. liftH
       (if \<not> jt_true data then Inr NullJ
        else bindR (jt_in ''url'' data) (\<lambda>b. if b then jt_get data ''url'' else Inr NullJ)))"

text \<open>The albums of a quick search get the keys of the answer as their identifiers.\<close>

fun set_id :: "string \<times> json \<Rightarrow> json res" where
  "set_id (k, ObjJ d) = Inr (ObjJ (AList.update ''id'' (StrJ k) d))"
| "set_id (k, v) = Inl TypeError"

definition session_search :: "hra_world \<Rightarrow> string \<Rightarrow> album_model list hra" where
  "session_search w txt =
     bindH (quickSearch w txt) (\<lambda>data. liftH
       (bindR (jt_items data) (\<lambda>items. bindR (mapR set_id items) (mapR parse_album))))"

section \<open>The plugin\<close>

definition hra_rootid :: string where
  "hra_rootid = ''0$hra$''"

definition hra_routes :: "(string \<times> string) list" where
  "hra_routes =
     [(''root'', ''/''), (''allCategories'', ''/allcategories''), (''allGenres'', ''/allgenres''),
      (''category_view'', ''/category/<catg_id>''), (''allEditorGenres'', ''/alleditorgenres''),
      (''allEditorMoods'', ''/alleditormoods''), (''allEditorThemes'', ''/alleditorthemes''),
      (''allEditorPlaylists'', ''/alleditorplaylists''), (''edplaylist_view'', ''/editorplaylist/<id>''),
      (''allUserPlaylists'', ''/alluserplaylists''), (''allUserAlbums'', ''/alluseralbums''),
      (''allUserTracks'', ''/allusertracks''), (''userplaylist_view'', ''/userplaylist/<id>''),
      (''album_view'', ''/album/<album_id>'')]"

definition hra_plugin :: route_plugin where
  "hra_plugin = the_plugin hra_routes"

definition hra_xp :: "string \<Rightarrow> xbmc_plugin" where
  "hra_xp objid = \<lparr>xp_idprefix = hra_rootid, xp_routeplug = Some hra_plugin, xp_objid = objid\<rparr>"

definition h_albums :: "xbmc_plugin \<Rightarrow> album_model list \<Rightarrow> entry list res" where
  "h_albums xp items = xp_items xp ''album_view'' (map album_item items)"

definition h_edplaylists :: "xbmc_plugin \<Rightarrow> album_model list \<Rightarrow> entry list res" where
  "h_edplaylists xp items = xp_items xp ''edplaylist_view'' (map album_item items)"

definition h_userplaylists :: "xbmc_plugin \<Rightarrow> playlist_model list \<Rightarrow> entry list res" where
  "h_userplaylists xp items = xp_items xp ''userplaylist_view'' (map playlist_item items)"

definition showH :: "'a hra \<Rightarrow> ('a \<Rightarrow> entry list res) \<Rightarrow> entry list hra" where
  "showH m f = bindH m (\<lambda>x. liftH (f x))"

text \<open>\<open>add_directory('LOGIN FAILED', '/')\<close>: a directory that is the root again.\<close>

definition root :: "xbmc_plugin \<Rightarrow> bool hra \<Rightarrow> entry list hra" where
  "root xp relogin =
     showH relogin (\<lambda>ok.
       if \<not> ok then Inr [xp_entry xp ''LOGIN FAILED'' ''/'']
       else mapR (\<lambda>(t, f). add_view xp t f)
              [(''Categories'', ''allCategories''), (''Genres'', ''allGenres''), (''Editor Playlists'', ''allEditorPlaylists''),
               (''My Playlists'', ''allUserPlaylists''), (''My Albums'', ''allUserAlbums''), (''My Tracks'', ''allUserTracks'')])"

definition category_view :: "xbmc_plugin \<Rightarrow> hra_world \<Rightarrow> string \<Rightarrow> entry list hra" where
  "category_view xp w catg_id =
     bindH (liftH (decode_prefix catg_id)) (\<lambda>prefix. showH (parse_all parse_album (listCategoryContent w prefix)) (h_albums xp))"

definition hra_view ::
  "svc_env \<Rightarrow> hra_world \<Rightarrow> bool hra \<Rightarrow> xbmc_plugin \<Rightarrow> string \<Rightarrow> (string \<times> string) list \<Rightarrow> entry list hra" where
  "hra_view env w relogin xp f kw =
     (if f = ''root'' then root xp relogin
      else if f = ''allCategories'' then showH (parse_all parse_category (getAllCategories w)) (xp_items xp ''category_view'')
      else if f = ''allGenres'' then showH (parse_all parse_genre (getAllGenres w)) (xp_items xp ''category_view'')
      else if f = ''category_view'' then bindH (liftH (kw_arg kw ''catg_id'')) (category_view xp w)
      else if f = ''allEditorGenres'' then showH (parse_all parse_album (getAvailableGenres w)) (h_edplaylists xp)
      else if f = ''allEditorMoods'' then showH (parse_all parse_album (getAvailableMoods w)) (h_edplaylists xp)
      else if f = ''allEditorThemes'' then showH (parse_all parse_album (getAvailableThemes w)) (h_edplaylists xp)
      else if f = ''allEditorPlaylists'' then showH (parse_all parse_album (getAllEditorPlaylists w)) (h_edplaylists xp)
      else if f = ''edplaylist_view''
      then bindH (liftH (kw_arg kw ''id'')) (\<lambda>i. showH (get_editor_playlist w i) (xp_tracks xp env))
      else if f = ''allUserPlaylists'' then showH (parse_some parse_playlist (listAllUserPlaylists w)) (h_userplaylists xp)
      else if f = ''allUserAlbums'' then showH (parse_some parse_album (listAllUserAlbums w)) (h_albums xp)
      else if f = ''allUserTracks'' then showH (parse_some parse_track0 (listAllUserTracks w)) (xp_tracks xp env)
      else if f = ''userplaylist_view''
      then bindH (liftH (kw_arg kw ''id'')) (\<lambda>i. showH (parse_some parse_track0 (api_getUserPlaylist w i)) (xp_tracks xp env))
      else if f = ''album_view''
      then bindH (liftH (kw_arg kw ''album_id'')) (\<lambda>i. showH (get_album_tracks w i) (xp_tracks xp env))
      else liftH (Inl NameError))"

text \<open>The category that a search is made in: the one of the container, if that is a category.\<close>

definition search_catg :: "string \<Rightarrow> string res" where
  "search_catg idpath =
     (if startswith idpath ''/category'' then decode_prefix (replace_first ''/category/'' [] idpath) else Inr [])"

definition hra_search :: "hra_world \<Rightarrow> string \<Rightarrow> string \<Rightarrow> entry list hra" where
  "hra_search w objid val =
     bindH (liftH (search_catg (replace_first hra_rootid [] objid))) (\<lambda>catg.
       showH (if catg \<noteq> [] then parse_all parse_album (api_searchCategory w catg val) else session_search w val)
         (h_albums (hra_xp objid)))"

section \<open>Requests of the parent\<close>

record hra_conf =
  hc_environ :: "string \<rightharpoonup> string"
  hc_upconfig :: conf
  hc_altconf :: conf

definition hra_need_env :: "hra_conf \<Rightarrow> string \<Rightarrow> string res" where
  "hra_need_env c k = (case hc_environ c k of Some v \<Rightarrow> Inr v | None \<Rightarrow> Inl (Raised (''No '' @ k @ '' in environment'')))"

definition hra_settings :: "hra_conf \<Rightarrow> (svc_env \<times> string \<times> string \<times> string) res" where
  "hra_settings c =
     bindR (hra_need_env c ''UPMPD_HTTPHOSTPORT'') (\<lambda>httphp.
     bindR (hra_need_env c ''UPMPD_PATHPREFIX'') (\<lambda>pathprefix.
     bindR (hra_need_env c ''UPMPD_CONFIG'') (\<lambda>_.
     bindR (getserviceuserpass (hc_upconfig c) (hc_environ c) (hc_altconf c) ''hra'') (\<lambda>(username, password).
       if \<not> truthy username \<or> \<not> truthy password then Inl (Raised ''hrauser and/or hrapass not set in configuration'')
       else bindR (getOptionValue (hc_upconfig c) (hc_environ c) ''hralang'' None) (\<lambda>lang.
              Inr (\<lparr>se_httphp = httphp, se_pathprefix = pathprefix, se_mime = ''application/flac'', se_samplerate = ''44100''\<rparr>,
                   the username, the password, if truthy lang then the lang else ''en''))))))"

text \<open>The result is whether there is a login, with the settings if they were read.\<close>

definition maybelogin :: "hra_world \<Rightarrow> hra_conf \<Rightarrow> (bool \<times> svc_env option) hra" where
  "maybelogin w c =
     bindH (isloggedin w) (\<lambda>b.
       if b then liftH (Inr (True, None))
       else bindH (liftH (hra_settings c)) (\<lambda>(env, username, password, lang).
            bindH (\<lambda>st. user_login w username password (st\<lparr>ha_lang := lang\<rparr>)) (\<lambda>data.
              liftH (Inr (jt_true data, Some env)))))"

text \<open>The environment is kept between requests.\<close>

definition keep_env :: "svc_env \<Rightarrow> svc_env option \<Rightarrow> svc_env" where
  "keep_env env new = (case new of Some e \<Rightarrow> e | None \<Rightarrow> env)"

definition hra_views ::
  "hra_world \<times> hra_conf \<times> svc_env \<times> hra_api \<Rightarrow> string \<Rightarrow> string \<Rightarrow> (string \<times> string) list \<Rightarrow> entry list res option" where
  "hra_views ctx objid f kw =
     (case ctx of (w, c, env, st) \<Rightarrow>
        Some (snd (hra_view env w (bindH (maybelogin w c) (\<lambda>(ok, _). liftH (Inr ok))) (hra_xp objid) f kw st)))"

text \<open>Requests for metadata ask the session for a method that it does not have.\<close>

definition browse ::
  "hra_world \<Rightarrow> hra_conf \<Rightarrow> (string \<rightharpoonup> string) \<Rightarrow> svc_env \<Rightarrow> hra_api \<Rightarrow> svc_env \<times> hra_api \<times> entry list res option" where
  "browse w c a env st =
     (case a ''objid'' of
        None \<Rightarrow> (env, st, Some (Inl (Raised ''No objid in args'')))
      | Some objid \<Rightarrow>
          if \<not> startswith objid hra_rootid then (env, st, Some (Inl (Raised ''bad objid'')))
          else case maybelogin w c st of
                 (st, Inl e) \<Rightarrow> (env, st, Some (Inl e))
               | (st, Inr (ok, new)) \<Rightarrow>
                   let env = keep_env env new;
                       st' = (case route_run hra_plugin (replace_first hra_rootid [] objid) of
                                Inr (f, kw) \<Rightarrow>
                                  if a ''flag'' = Some ''meta'' then st
                                  else fst (hra_view env w (bindH (maybelogin w c) (\<lambda>(ok, _). liftH (Inr ok))) (hra_xp objid) f kw st)
                              | Inl _ \<Rightarrow> st)
                   in (env, st', svc_browse hra_rootid hra_plugin (Inr ()) (\<lambda>_ _. Inl AttributeError)
                         (hra_views (w, c, env, st)) a))"

definition search ::
  "hra_world \<Rightarrow> hra_conf \<Rightarrow> (string \<rightharpoonup> string) \<Rightarrow> svc_env \<Rightarrow> hra_api \<Rightarrow> svc_env \<times> hra_api \<times> entry list res" where
  "search w c a env st =
     (case (a ''objid'', a ''value'') of
        (Some objid, Some val) \<Rightarrow>
          if \<not> startswith objid hra_rootid then (env, st, Inl (Raised ''bad objid''))
          else (case maybelogin w c st of
                  (st, Inl e) \<Rightarrow> (env, st, Inl e)
                | (st, Inr (ok, new)) \<Rightarrow> (keep_env env new, hra_search w objid val st))
      | _ \<Rightarrow> (env, st, Inl KeyError))"

text \<open>The path is read before the login.\<close>

definition trackuri ::
  "hra_world \<Rightarrow> hra_conf \<Rightarrow> (string \<rightharpoonup> string) \<Rightarrow> string option \<Rightarrow> (string \<times> json) list hra" where
  "trackuri w c a pathprefix =
     bindH (liftH (case pathprefix of None \<Rightarrow> Inl NameError | Some p \<Rightarrow> trackid_from_urlpath p a)) (\<lambda>trackid.
     bindH (maybelogin w c) (\<lambda>_.
     bindH (get_media_url w trackid) (\<lambda>url. liftH (Inr [(''media_url'', if jt_true url then url else StrJ [])]))))"

section \<open>The identifier of a category\<close>

definition b64_alpha :: "char \<Rightarrow> bool" where
  "b64_alpha c \<longleftrightarrow> c = CHR ''='' \<or> (\<exists>v < 64. c = b64_char v)"

lemma b64_alpha_char: "v < 64 \<Longrightarrow> b64_alpha (b64_char v)" "b64_alpha (CHR ''='')"
  by (auto simp: b64_alpha_def)

lemma b64encode_chars: "c \<in> set (b64encode s) \<Longrightarrow> b64_alpha c"
  by (induction s rule: b64encode.induct) (auto simp: Let_def b64_alpha_char)

lemma b64_char_not: "v < 64 \<Longrightarrow> b64_char v \<notin> {CHR ''-'', CHR ''_'', CHR ''?'', CHR ''#'', CHR 0x09, CHR 0x0A, CHR 0x0D}"
  using of_char_b64_char [of v] by (auto split: if_splits)

lemma std_url_b64: "list_all (\<lambda>c. c \<noteq> CHR ''-'' \<and> c \<noteq> CHR ''_'') s \<Longrightarrow> map std_b64 (map url_b64 s) = s"
  by (induction s) (auto simp: std_b64_def url_b64_def)

lemma b64encode_std: "list_all (\<lambda>c. c \<noteq> CHR ''-'' \<and> c \<noteq> CHR ''_'') (b64encode s)"
  using b64encode_chars b64_char_not by (fastforce simp: list_all_iff b64_alpha_def)

lemma decode_encode_prefix: "valid_utf8 p \<Longrightarrow> decode_prefix (encode_prefix p) = Inr p"
  by (simp only: decode_prefix_def encode_prefix_def std_url_b64 [OF b64encode_std] b64decode_b64encode bindR_Inr if_True)

lemma url_b64_good:
  assumes "c \<in> set (b64encode p)"
  shows "url_b64 c \<noteq> CHR ''/'' \<and> url_plain (url_b64 c)"
  using b64encode_chars [OF assms] b64_char_not by (auto simp: url_b64_def url_plain_def b64_alpha_def)

lemma encode_prefix_good:
  assumes "p \<noteq> []"
  shows "good_arg (encode_prefix p)"
proof -
  have "b64encode p \<noteq> []" using assms by (cases p rule: b64encode.cases) (simp_all add: Let_def)
  moreover have "list_all (\<lambda>c. c \<noteq> CHR ''/'' \<and> url_plain c) (encode_prefix p)"
    by (simp add: encode_prefix_def list.pred_map comp_def list_all_iff url_b64_good)
  ultimately show ?thesis by (auto simp: good_arg_def encode_prefix_def list_all_iff)
qed

lemma hra_routes_ok: "routes_ok hra_plugin"
  by code_simp

lemma hra_keys:
  "map (view_keys hra_plugin)
     [''allCategories'', ''allGenres'', ''category_view'', ''allEditorPlaylists'', ''edplaylist_view'', ''allUserPlaylists'',
      ''allUserAlbums'', ''allUserTracks'', ''userplaylist_view'', ''album_view''] =
   map Some [[], [], [''catg_id''], [], [''id''], [], [], [], [''id''], [''album_id'']]"
  by code_simp

lemmas hra_table [simp] = hra_keys [simplified]

lemma category_url: "url_for hra_plugin ''category_view'' [x] [] = Inr (''/category/'' @ x)"
proof -
  have "map_option (map ur_format) (map_of (rp_rules hra_plugin) ''category_view'') =
      Some [map FChar ''/category/'' @ [FKey ''catg_id'']]" by code_simp
  then obtain r where "map_of (rp_rules hra_plugin) ''category_view'' = Some [r]"
      "ur_format r = map FChar ''/category/'' @ [FKey ''catg_id'']" by auto
  moreover have "rp_base_url hra_plugin = []" by code_simp
  ultimately show ?thesis by (simp add: url_for_def make_path_def url_for_path_def)
qed

lemma category_dispatch:
  assumes "good_arg x"
  shows "route_run hra_plugin (''/category/'' @ x) = Inr (''category_view'', [(''catg_id'', x)])"
proof -
  have "map_option (map ur_keywords) (map_of (rp_rules hra_plugin) ''category_view'') = Some [[''catg_id'']]" by code_simp
  then obtain r where r: "map_of (rp_rules hra_plugin) ''category_view'' = Some [r]" "ur_keywords r = [''catg_id'']" by auto
  show ?thesis using routes_run_url [OF hra_routes_ok r(1), of "[x]"] assms r(2) category_url [of x] by simp
qed

text \<open>A category whose prefix is any text, with slashes or without, is listed under a URL that a browse
  request dispatches to the view of categories, and the view asks the service for exactly this prefix;
  a search in this container is made in the category of this prefix too.\<close>

theorem category_prefix_roundtrip:
  assumes "parse_category data = Inr item" and "jt_get data ''prefix'' = Inr (StrJ p)" and "p \<noteq> []" and "valid_utf8 p"
  shows "\<exists>url catg. url_for hra_plugin ''category_view'' [it_id item] [] = Inr url \<and>
    route_run hra_plugin url = Inr (''category_view'', [(''catg_id'', catg)]) \<and>
    decode_prefix catg = Inr p \<and> search_catg url = Inr p"
proof -
  have i: "it_id item = encode_prefix p" using assms(1,2) by (auto simp: parse_category_def plain_item_def bindR_eq_Inr)
  have "search_catg (''/category/'' @ encode_prefix p) = decode_prefix (encode_prefix p)"
    using replace_first_prefix [of "''/category/''" "encode_prefix p"] by (simp add: search_catg_def)
  then show ?thesis
    using category_url category_dispatch [OF encode_prefix_good [OF assms(3)]] decode_encode_prefix [OF assms(4)]
    by (auto simp: i)
qed

theorem category_prefix_roundtrip_witness:
  "\<exists>item url catg. parse_category (ObjJ [(''prefix'', StrJ ''/Jazz/Be-Bop''), (''title'', StrJ ''B''), (''id'', IntJ 1)]) = Inr item \<and>
    url_for hra_plugin ''category_view'' [it_id item] [] = Inr url \<and>
    route_run hra_plugin url = Inr (''category_view'', [(''catg_id'', catg)]) \<and> decode_prefix catg = Inr ''/Jazz/Be-Bop''"
proof -
  let ?d = "ObjJ [(''prefix'', StrJ ''/Jazz/Be-Bop''), (''title'', StrJ ''B''), (''id'', IntJ 1)]"
  have "is_ok (parse_category ?d)" by code_simp
  then obtain item where i: "parse_category ?d = Inr item" by (auto simp: is_ok_iff)
  have g: "jt_get ?d ''prefix'' = Inr (StrJ ''/Jazz/Be-Bop'')" "valid_utf8 ''/Jazz/Be-Bop''" by code_simp+
  show ?thesis using category_prefix_roundtrip [OF i g(1) _ g(2)] i by blast
qed

section \<open>Every listing of the plugin leads on\<close>

text \<open>What a call returns if it returns.\<close>

definition givesH :: "('a \<Rightarrow> bool) \<Rightarrow> 'a hra \<Rightarrow> bool" where
  "givesH P m \<longleftrightarrow> (\<forall>st st' x. m st = (st', Inr x) \<longrightarrow> P x)"

named_theorems returns_rules "what calls return"

lemma givesH_bind:
  assumes "givesH Q m" and "\<And>x. Q x \<Longrightarrow> givesH P (f x)"
  shows "givesH P (bindH m f)"
  unfolding givesH_def
proof (intro allI impI)
  fix st st' x assume "bindH m f st = (st', Inr x)"
  then obtain st1 y where y: "m st = (st1, Inr y)" "f y st1 = (st', Inr x)"
    by (auto simp: bindH_def split: prod.splits sum.splits)
  then have "Q y" using assms(1) unfolding givesH_def by blast
  with assms(2) y(2) show "P x" unfolding givesH_def by blast
qed

lemma givesH_any: "givesH (\<lambda>_. True) m"
  by (simp add: givesH_def)

lemma givesH_lift: "(\<And>x. r = Inr x \<Longrightarrow> P x) \<Longrightarrow> givesH P (liftH r)"
  by (simp add: givesH_def liftH_def)

lemma givesH_if: "givesH P m \<Longrightarrow> givesH P m' \<Longrightarrow> givesH P (if b then m else m')"
  by simp

text \<open>The identifiers of the answers, and prefixes that are not empty.\<close>

definition hra_field :: "string \<Rightarrow> json \<Rightarrow> bool" where
  "hra_field k v \<longleftrightarrow> ((k = ''id'' \<or> k = ''playlist_id'') \<longrightarrow> id_ok v) \<and> (k = ''prefix'' \<longrightarrow> v \<noteq> StrJ [])"

definition fields_good :: "json \<Rightarrow> bool" where
  "fields_good v \<longleftrightarrow> fields_ok hra_field v"

lemma fields_good_simps [simp]: "fields_good NullJ" "fields_good (ObjJ [])"
  by (simp_all add: fields_good_def)

definition answers_good :: "h_http \<Rightarrow> bool" where
  "answers_good http \<longleftrightarrow> (\<forall>m url prms r v. http m url prms = Some r \<longrightarrow> hr_json r = Some v \<longrightarrow> fields_good v)"

lemma request_good [returns_rules]:
  assumes "answers_good (hw_http w)"
  shows "givesH fields_good (api_request w ka uri m)"
proof -
  have "fields_good v" if "reply_value (hw_http w m url prms) = Inr v" for url prms v
    using that assms by (cases "hw_http w m url prms")
      (auto simp: reply_value_def answers_good_def split: option.splits if_splits)
  then show ?thesis by (simp add: givesH_def api_request_def)
qed

lemma get_good: "jt_get data k = Inr v \<Longrightarrow> fields_good data \<Longrightarrow> fields_good v"
  unfolding fields_good_def by (auto dest: fields_ok_get)

lemma under_data_good: "under_data k data = Inr (Some v) \<Longrightarrow> fields_good data \<Longrightarrow> fields_good v"
  by (auto simp: under_data_def bindR_eq_Inr split: if_splits dest!: get_good)

lemma or_else_good: "under_data k data = Inr v \<Longrightarrow> fields_good data \<Longrightarrow> fields_good dflt \<Longrightarrow> fields_good (or_else dflt v)"
  using under_data_good [of k data] by (cases v) (simp_all add: or_else_def)

lemma loggedin_good [returns_rules]:
  "fields_good dflt \<Longrightarrow> givesH fields_good m \<Longrightarrow> givesH fields_good (when_loggedin w dflt m)"
  unfolding when_loggedin_def by (rule givesH_bind [OF givesH_any]) (auto intro: givesH_if givesH_lift)

lemma results_good [returns_rules]:
  "answers_good (hw_http w) \<Longrightarrow> fields_good dflt \<Longrightarrow> givesH fields_good (get_results w ka uri dflt)"
  unfolding get_results_def
  by (rule givesH_bind, erule request_good) (auto intro!: givesH_lift or_else_good simp: bindR_eq_Inr)

lemma categories_good:
  assumes "answers_good (hw_http w)"
  shows "givesH fields_good (getAllCategories w)"
  unfolding getAllCategories_def
proof (rule loggedin_good, simp, rule givesH_bind, rule request_good [OF assms], rule givesH_lift)
  fix data r
  assume data: "fields_good data"
    and r: "bindR (under_data ''results'' data) (\<lambda>v. case v of None \<Rightarrow> Inr (ObjJ [])
      | Some v \<Rightarrow> bindR (jt_items v) (\<lambda>items. Inr (ArrJ (map snd items)))) = Inr r"
  then obtain v where v: "under_data ''results'' data = Inr v" by (auto simp: bindR_eq_Inr)
  show "fields_good r"
  proof (cases v)
    case (Some d)
    then have d: "fields_good d" "bindR (jt_items d) (\<lambda>items. Inr (ArrJ (map snd items))) = Inr r"
      using under_data_good data r v by auto
    then show ?thesis by (cases d) (auto simp: fields_good_def list_all_iff)
  qed (use r v in auto)
qed

lemma h_playlists_good:
  assumes "answers_good (hw_http w)"
  shows "givesH fields_good (listAllUserPlaylists w)"
  unfolding listAllUserPlaylists_def
  by (rule loggedin_good, simp, rule givesH_bind, rule request_good [OF assms])
    (auto intro!: givesH_lift or_else_good simp: bindR_eq_Inr)

lemma fields_good_id:
  "jt_get d ''id'' = Inr w \<Longrightarrow> fields_good d \<Longrightarrow> jt_str w = Inr i \<Longrightarrow> good_arg i"
  "jt_get d ''playlist_id'' = Inr w \<Longrightarrow> fields_good d \<Longrightarrow> jt_str w = Inr i \<Longrightarrow> good_arg i"
  using fields_ok_get [of hra_field d _ w] id_ok_str [of w i] by (auto simp: fields_good_def hra_field_def)

lemma h_parse_album_id: "fields_good d \<Longrightarrow> parse_album d = Inr a \<Longrightarrow> good_arg (alb_id a)"
  by (auto simp: parse_album_def album_defaults_def bindR_eq_Inr dest: fields_good_id)

lemma h_parse_playlist_id: "fields_good d \<Longrightarrow> parse_playlist d = Inr p \<Longrightarrow> good_arg (pl_id p)"
  by (auto simp: parse_playlist_def playlist_defaults_def bindR_eq_Inr dest: fields_good_id)

lemma h_parse_category_id:
  assumes "fields_good d" and "parse_category d = Inr i"
  shows "good_arg (it_id i)"
proof -
  obtain v p where v: "jt_get d ''prefix'' = Inr v" "jt_text v = Inr p" "it_id i = encode_prefix p"
    using assms(2) by (auto simp: parse_category_def plain_item_def bindR_eq_Inr)
  have "v \<noteq> StrJ []" using fields_ok_get [of hra_field d "''prefix''" v] assms(1) v(1)
    by (auto simp: fields_good_def hra_field_def)
  then have "p \<noteq> []" using v(2) by (cases v) auto
  with encode_prefix_good v(3) show ?thesis by simp
qed

lemma parse_all_good:
  assumes "givesH fields_good m" and "\<And>d y. fields_good d \<Longrightarrow> parse d = Inr y \<Longrightarrow> P y"
  shows "givesH (list_all P) (parse_all parse m)" and "givesH (list_all P) (parse_some parse m)"
proof -
  have "list_all P ys" if "fields_good data" "jt_map parse data [] = Inr ys" for data ys
    using fields_ok_map [of hra_field data parse "[]" ys P] that assms(2) by (simp add: fields_good_def)
  then show "givesH (list_all P) (parse_all parse m)" "givesH (list_all P) (parse_some parse m)"
    unfolding parse_all_def parse_some_def by (auto intro!: givesH_bind [OF assms(1)] givesH_lift split: if_splits)
qed

definition listsH :: "entry list hra \<Rightarrow> bool" where
  "listsH m \<longleftrightarrow> givesH (dirs_made_for hra_plugin hra_rootid) m"

lemma listsH_show: "givesH P m \<Longrightarrow> (\<And>x. P x \<Longrightarrow> lists_ok hra_plugin hra_rootid (f x)) \<Longrightarrow> listsH (showH m f)"
  unfolding listsH_def showH_def by (erule givesH_bind) (auto intro!: givesH_lift simp: lists_ok_def)

lemma listsH_tracks: "listsH (showH m (xp_tracks xp env))"
  by (rule listsH_show [OF givesH_any]) (rule lists_tracks)

lemma listsH_arg: "(\<And>x. listsH (f x)) \<Longrightarrow> listsH (bindH (liftH r) f)"
  unfolding listsH_def by (rule givesH_bind [OF givesH_any])

lemma listsH_if: "listsH m \<Longrightarrow> listsH m' \<Longrightarrow> listsH (if b then m else m')"
  by simp

lemma listsH_fail: "listsH (liftH (Inl e))"
  by (simp add: listsH_def givesH_def liftH_def)

lemma hra_routed [simp]: "routed hra_plugin hra_rootid (hra_xp objid)"
  by (simp add: routed_def hra_xp_def hra_routes_ok)

lemma h_lists:
  "list_all (\<lambda>a. good_arg (alb_id a)) albums \<Longrightarrow> lists_ok hra_plugin hra_rootid (h_albums (hra_xp objid) albums)"
  "list_all (\<lambda>a. good_arg (alb_id a)) albums \<Longrightarrow> lists_ok hra_plugin hra_rootid (h_edplaylists (hra_xp objid) albums)"
  "list_all (\<lambda>p. good_arg (pl_id p)) playlists \<Longrightarrow> lists_ok hra_plugin hra_rootid (h_userplaylists (hra_xp objid) playlists)"
  "list_all (\<lambda>i. good_arg (it_id i)) items \<Longrightarrow> lists_ok hra_plugin hra_rootid (xp_items (hra_xp objid) ''category_view'' items)"
  using lists_items [OF hra_routed, of _ _ _ objid]
  by (simp_all add: h_albums_def h_edplaylists_def h_userplaylists_def list.pred_map comp_def album_item_def playlist_item_def)

text \<open>The directory of a failed login is the root once more.\<close>

lemma login_failed_entry: "lists_ok hra_plugin hra_rootid (Inr [xp_entry (hra_xp objid) ''LOGIN FAILED'' ''/''])"
proof -
  have "view_keys hra_plugin ''root'' = Some []" and u: "url_for hra_plugin ''root'' [] [] = Inr ''/''" by code_simp+
  with url_made_for [OF hra_routes_ok, of "''root''" "[]" "[]" hra_rootid]
  have "made_for hra_plugin hra_rootid e" if "e ''id'' = Some (hra_rootid @ ''/'')" for e
    using that by fastforce
  then show ?thesis by (simp add: lists_ok_def dirs_made_for_def xp_entry_id hra_xp_def)
qed

lemma root_listed: "listsH (root (hra_xp objid) relogin)"
  unfolding root_def
  by (rule listsH_show [OF givesH_any]) (intro lists_if login_failed_entry lists_views [OF hra_routed]; simp)

lemma hra_view_listed:
  assumes "answers_good (hw_http w)"
  shows "listsH (hra_view env w relogin (hra_xp objid) f kw)"
proof -
  note good = results_good [OF assms] categories_good [OF assms] h_playlists_good [OF assms]
    loggedin_good [OF _ results_good [OF assms]]
  have albums: "listsH (showH (parse_all parse_album m) (h_albums (hra_xp objid)))"
    "listsH (showH (parse_some parse_album m) (h_albums (hra_xp objid)))"
    "listsH (showH (parse_all parse_album m) (h_edplaylists (hra_xp objid)))" if "givesH fields_good m" for m
    by (rule listsH_show [OF parse_all_good(1) [OF that]] listsH_show [OF parse_all_good(2) [OF that]],
        erule (1) h_parse_album_id, erule h_lists)+
  have catgs: "listsH (showH (parse_all parse_category m) (xp_items (hra_xp objid) ''category_view''))"
    if "givesH fields_good m" for m
    by (rule listsH_show [OF parse_all_good(1) [OF that]], erule (1) h_parse_category_id, erule h_lists)
  have playlists: "listsH (showH (parse_some parse_playlist m) (h_userplaylists (hra_xp objid)))"
    if "givesH fields_good m" for m
    by (rule listsH_show [OF parse_all_good(2) [OF that]], erule (1) h_parse_playlist_id, erule h_lists)
  have calls: "givesH fields_good (getAllGenres w)" "givesH fields_good (listCategoryContent w p)"
    "givesH fields_good (getAvailableGenres w)" "givesH fields_good (getAvailableMoods w)"
    "givesH fields_good (getAvailableThemes w)" "givesH fields_good (getAllEditorPlaylists w)"
    "givesH fields_good (listAllUserAlbums w)" for p
    unfolding getAllGenres_def listCategoryContent_def getAvailableGenres_def getAvailableMoods_def
      getAvailableThemes_def getAllEditorPlaylists_def listAllUserAlbums_def
    by (intro good fields_good_simps)+
  have category: "listsH (category_view (hra_xp objid) w i)" for i
    unfolding category_view_def by (intro listsH_arg albums calls)
  show ?thesis unfolding hra_view_def parse_genre_def
    by (intro listsH_if listsH_arg listsH_fail listsH_tracks root_listed category albums catgs playlists calls good)
qed

interpretation hr: routed_service hra_plugin hra_rootid "\<lambda>(w, c, env, st). answers_good (hw_http w)" hra_views
proof unfold_locales
  fix ctx objid f kw es
  assume a: "case ctx of (w, c, env, st) \<Rightarrow> answers_good (hw_http w)" "hra_views ctx objid f kw = Some (Inr es)"
  obtain w c env st where ctx: "ctx = (w, c, env, st)" by (cases ctx) auto
  have "listsH (hra_view env w (bindH (maybelogin w c) (\<lambda>(ok, _). liftH (Inr ok))) (hra_xp objid) f kw)"
    by (rule hra_view_listed) (use a(1) ctx in simp)
  moreover have "snd (hra_view env w (bindH (maybelogin w c) (\<lambda>(ok, _). liftH (Inr ok))) (hra_xp objid) f kw st) = Inr es"
    using a(2) by (simp add: ctx hra_views_def)
  ultimately show "dirs_made_for hra_plugin hra_rootid es"
    unfolding listsH_def givesH_def by (metis prod.collapse)
qed (rule hra_routes_ok)

text \<open>A request for the metadata of a track always fails.\<close>

lemma hra_meta_fails:
  "a ''flag'' = Some ''meta'' \<Longrightarrow> browse w c a env st = (env', st', Some (Inr es)) \<Longrightarrow> es = []"
  by (auto simp: browse_def svc_browse_def Let_def split: option.splits if_splits sum.splits prod.splits)

end
