(* ===== verification/Spotify.thy ===== *)
theory Spotify
  imports Service
begin

text \<open>
  The Spotify plugin: the requests of the client library in the repository that the plugin makes
  (\<open>spotify/spotipy/client.py\<close>), the objects made of the answers (\<open>spotify/session.py\<close>) and the views
  (\<open>spotify/spotify-app.py\<close>). The service is a parameter; it may answer the attempts of a request
  differently. Authorization is left to it.
\<close>

section \<open>Requests\<close>

type_synonym params = "(string \<times> json) list"

text \<open>A reply has a status, a text that may be empty or \<open>null\<close>, its value if it is JSON, and perhaps a time to
  wait.\<close>

record sp_reply =
  sp_status :: int
  sp_text :: bool
  sp_json :: "json option"
  sp_retry_after :: "string option"

text \<open>The arguments are the number of the attempt, the method, the address and the parameters.\<close>

type_synonym sp_http = "nat \<Rightarrow> string \<Rightarrow> string \<Rightarrow> params \<Rightarrow> sp_reply res"

datatype call_result = Answer json | SpotifyException int "string option" | OtherException py_error

definition full_url :: "string \<Rightarrow> string" where
  "full_url url = (if startswith url ''http'' then url else ''https://api.spotify.com/v1/'' @ url)"

text \<open>An error with a text that has no message raises something else than its exception.\<close>

definition internal_call :: "sp_reply res \<Rightarrow> call_result" where
  "internal_call reply =
     (case reply of
        Inl e \<Rightarrow> OtherException e
      | Inr r \<Rightarrow>
          if 400 \<le> sp_status r \<and> sp_status r < 600 then
            (if sp_text r then
               (case sp_json r of
                  None \<Rightarrow> OtherException ValueError
                | Some v \<Rightarrow> (case jt_path v [''error'', ''message''] of
                    Inl e \<Rightarrow> OtherException e | Inr _ \<Rightarrow> SpotifyException (sp_status r) (sp_retry_after r)))
             else SpotifyException (sp_status r) (sp_retry_after r))
          else if sp_text r then (case sp_json r of Some v \<Rightarrow> Answer v | None \<Rightarrow> OtherException ValueError)
          else Answer NullJ)"

text \<open>The attempts. When they are used up nothing is raised, and the answer is \<open>None\<close>.\<close>

fun get_attempts :: "(nat \<Rightarrow> sp_reply res) \<Rightarrow> nat \<Rightarrow> nat \<Rightarrow> json res" where
  "get_attempts reply attempt 0 = Inr NullJ"
| "get_attempts reply attempt (Suc retries) =
     (case internal_call (reply attempt) of
        Answer v \<Rightarrow> Inr v
      | OtherException e \<Rightarrow> Inl e
      | SpotifyException status wait \<Rightarrow>
          if status = 429 \<or> (status \<ge> 500 \<and> status < 600) then
            bindR (case wait of Some t \<Rightarrow> bindR (py_int t) (\<lambda>_. Inr ()) | None \<Rightarrow> Inr ())
              (\<lambda>_. get_attempts reply (attempt + 1) retries)
          else Inl (Raised ''SpotifyException''))"

definition sp_get :: "sp_http \<Rightarrow> string \<Rightarrow> params \<Rightarrow> json res" where
  "sp_get http url prms = get_attempts (\<lambda>n. http n ''GET'' (full_url url) prms) 0 10"

definition sp_next :: "sp_http \<Rightarrow> json \<Rightarrow> json res" where
  "sp_next http result =
     bindR (jt_get result ''next'') (\<lambda>nx.
       if jt_true nx then bindR (jt_text nx) (\<lambda>url. sp_get http url []) else Inr NullJ)"

text \<open>An identifier can be given as a URI or as a path: what counts is its last part.\<close>

definition sp_get_id :: "string \<Rightarrow> string" where
  "sp_get_id i =
     (let uri = split_on (CHR '':'') i; path = split_on (CHR ''/'') i in
      if 3 \<le> length uri then last uri else if 3 \<le> length path then last path else i)"

definition page_params :: "nat \<Rightarrow> nat \<Rightarrow> params" where
  "page_params limit offset = [(''limit'', IntJ (int limit)), (''offset'', IntJ (int offset))]"

definition sp_artist_albums :: "sp_http \<Rightarrow> string \<Rightarrow> nat \<Rightarrow> json res" where
  "sp_artist_albums http i limit =
     sp_get http (''artists/'' @ sp_get_id i @ ''/albums'')
       ([(''album_type'', NullJ), (''country'', NullJ)] @ page_params limit 0)"

definition sp_album :: "sp_http \<Rightarrow> string \<Rightarrow> json res" where
  "sp_album http i = sp_get http (''albums/'' @ sp_get_id i) []"

definition sp_album_tracks :: "sp_http \<Rightarrow> string \<Rightarrow> nat \<Rightarrow> json res" where
  "sp_album_tracks http i limit = sp_get http (''albums/'' @ sp_get_id i @ ''/tracks/'') (page_params limit 0)"

definition sp_search :: "sp_http \<Rightarrow> string \<Rightarrow> string \<Rightarrow> nat \<Rightarrow> nat \<Rightarrow> json res" where
  "sp_search http q tp offset limit =
     sp_get http ''search'' ([(''q'', StrJ q)] @ page_params limit offset @ [(''type'', StrJ tp), (''market'', NullJ)])"

definition sp_current_user_playlists :: "sp_http \<Rightarrow> json res" where
  "sp_current_user_playlists http = sp_get http ''me/playlists'' (page_params 50 0)"

definition sp_user_playlist_tracks :: "sp_http \<Rightarrow> string \<Rightarrow> string \<Rightarrow> json res" where
  "sp_user_playlist_tracks http user plid =
     sp_get http (''users/'' @ user @ ''/playlists/'' @ sp_get_id plid @ ''/tracks'')
       (page_params 100 0 @ [(''fields'', NullJ), (''market'', NullJ)])"

definition sp_saved_albums :: "sp_http \<Rightarrow> nat \<Rightarrow> json res" where
  "sp_saved_albums http limit = sp_get http ''me/albums'' (page_params limit 0)"

definition sp_saved_tracks :: "sp_http \<Rightarrow> nat \<Rightarrow> nat \<Rightarrow> json res" where
  "sp_saved_tracks http limit offset = sp_get http ''me/tracks'' (page_params limit offset)"

definition sp_followed_artists :: "sp_http \<Rightarrow> nat \<Rightarrow> json res" where
  "sp_followed_artists http limit =
     sp_get http ''me/following'' [(''type'', StrJ ''artist''), (''limit'', IntJ (int limit)), (''after'', NullJ)]"

definition sp_recently_played :: "sp_http \<Rightarrow> json res" where
  "sp_recently_played http = sp_get http ''me/player/recently-played'' [(''limit'', IntJ 50)]"

definition sp_featured_playlists :: "sp_http \<Rightarrow> json res" where
  "sp_featured_playlists http =
     sp_get http ''browse/featured-playlists''
       ([(''locale'', NullJ), (''country'', NullJ), (''timestamp'', NullJ)] @ page_params 20 0)"

definition sp_new_releases :: "sp_http \<Rightarrow> json res" where
  "sp_new_releases http = sp_get http ''browse/new-releases'' ([(''country'', NullJ)] @ page_params 20 0)"

definition sp_categories :: "sp_http \<Rightarrow> nat \<Rightarrow> json res" where
  "sp_categories http limit =
     sp_get http ''browse/categories'' ([(''country'', NullJ), (''locale'', NullJ)] @ page_params limit 0)"

definition sp_category_playlists :: "sp_http \<Rightarrow> string \<Rightarrow> json res" where
  "sp_category_playlists http i =
     sp_get http (''browse/categories/'' @ i @ ''/playlists'') ([(''country'', NullJ)] @ page_params 20 0)"

section \<open>Objects of the answers\<close>

definition parse_artist :: "json \<Rightarrow> artist_model res" where
  "parse_artist data =
     bindR (bindR (jt_get data ''id'') jt_str) (\<lambda>i.
     bindR (bindR (jt_get data ''name'') jt_text) (\<lambda>nm. Inr (artist_defaults\<lparr>art_id := i, art_name := nm\<rparr>)))"

text \<open>The owner is shown as an artist, with the display name or else the identifier.\<close>

definition owner_name :: "json \<Rightarrow> string res" where
  "owner_name owner =
     bindR (jt_in ''display_name'' owner) (\<lambda>b.
     bindR (if b then jt_get owner ''display_name'' else Inr NullJ) (\<lambda>dn.
       if jt_true dn then jt_text dn
       else bindR (jt_in ''id'' owner) (\<lambda>b. if b then bindR (jt_get owner ''id'') jt_str else Inr [])))"

definition parse_playlist :: "json \<Rightarrow> playlist_model res" where
  "parse_playlist data =
     bindR (jt_get data ''owner'') (\<lambda>owner.
     bindR (owner_name owner) (\<lambda>display_name.
     bindR (bindR (jt_get data ''id'') jt_str) (\<lambda>i.
     bindR (bindR (jt_get owner ''id'') jt_str) (\<lambda>userid.
     bindR (bindR (jt_get data ''name'') jt_text) (\<lambda>nm.
     bindR (jt_path data [''tracks'', ''total'']) (\<lambda>num_tracks.
       Inr ((playlist_defaults i nm)\<lparr>pl_userid := Some userid, pl_num_tracks := num_tracks,
              pl_artist := Some (artist_defaults\<lparr>art_name := display_name\<rparr>)\<rparr>)))))))"

definition album_fields :: "json \<Rightarrow> album_model res" where
  "album_fields data =
     bindR (bindR (jt_in ''artists'' data) (\<lambda>b.
        if b then bindR (bindR (bindR (jt_get data ''artists'') jt_first) parse_artist) (\<lambda>a. Inr (Some a)) else Inr None)) (\<lambda>artist.
     bindR (bindR (jt_get data ''id'') jt_str) (\<lambda>i.
     bindR (bindR (jt_get data ''name'') jt_text) (\<lambda>nm.
     bindR (bindR (bindR (jt_in ''images'' data) (\<lambda>b. if b then jt_get data ''images'' else Inr NullJ)) (\<lambda>images.
        if jt_true images then bindR (bindR (jt_first images) (\<lambda>im. jt_get im ''url'')) jt_opt_text else Inr None)) (\<lambda>image.
     bindR (bindR (jt_in ''releaseDate'' data) (\<lambda>b.
        if b then bindR (jt_get data ''releaseDate'') jt_opt_text else Inr None)) (\<lambda>release_date.
       Inr ((album_defaults i)\<lparr>alb_name := nm, alb_artist := artist, alb_image := image,
              alb_release_date := release_date\<rparr>))))))"

text \<open>An album that cannot be parsed is no album; no exception gets out.\<close>

definition parse_album :: "json \<Rightarrow> album_model option" where
  "parse_album data = (case album_fields data of Inr a \<Rightarrow> Some a | Inl _ \<Rightarrow> None)"

definition parse_track :: "json \<Rightarrow> album_model option \<Rightarrow> track_model res" where
  "parse_track data albumarg =
     bindR (bindR (jt_in ''artists'' data) (\<lambda>b.
        if b then bindR (bindR (jt_get data ''artists'') jt_first) parse_artist
        else Inr (case Option.bind albumarg alb_artist of Some a \<Rightarrow> a | None \<Rightarrow> artist_defaults))) (\<lambda>artist.
     bindR (bindR (jt_in ''duration_ms'' data) (\<lambda>b.
        if b then bindR (bindR (jt_get data ''duration_ms'') jt_int) (\<lambda>ms. Inr (StrJ (str_int (ms div 1000))))
        else Inr (IntJ 0))) (\<lambda>duration.
     bindR (bindR (jt_get data ''id'') jt_str) (\<lambda>i.
     bindR (bindR (jt_get data ''name'') jt_text) (\<lambda>nm.
     bindR (jt_get data ''track_number'') (\<lambda>track_num.
     bindR (jt_get data ''disc_number'') (\<lambda>disc_num.
     bindR (case albumarg of Some a \<Rightarrow> Inr (Some a)
            | None \<Rightarrow> bindR (jt_in ''album'' data) (\<lambda>b.
                if b then bindR (jt_get data ''album'') (\<lambda>a. Inr (parse_album a)) else Inr None)) (\<lambda>album.
       Inr ((track_defaults i nm)\<lparr>trk_duration := duration, trk_track_num := track_num, trk_disc_num := disc_num,
              trk_artist := Some artist, trk_album := album\<rparr>))))))))"

definition parse_track_in :: "json \<Rightarrow> track_model res" where
  "parse_track_in item = bindR (jt_get item ''track'') (\<lambda>t. parse_track t None)"

definition parse_track0 :: "json \<Rightarrow> track_model res" where
  "parse_track0 data = parse_track data None"

text \<open>The albums that can be parsed.\<close>

definition parse_albums :: "json list \<Rightarrow> album_model list" where
  "parse_albums items = concat (map (\<lambda>d. case parse_album d of Some a \<Rightarrow> [a] | None \<Rightarrow> []) items)"

section \<open>The session\<close>

text \<open>The items of a page and of the pages after it, as long as there is an address of a next page.\<close>

partial_function (option) next_pages :: "sp_http \<Rightarrow> json \<Rightarrow> json list \<Rightarrow> json list res option" where
  "next_pages http data acc =
     (case jt_get data ''next'' of
        Inl e \<Rightarrow> Some (Inl e)
      | Inr nx \<Rightarrow>
          if \<not> jt_true nx then Some (Inr acc)
          else (case bindR (sp_next http data) (\<lambda>d. bindR (bindR (jt_get d ''items'') jt_iter) (\<lambda>items. Inr (d, items))) of
                  Inl e \<Rightarrow> Some (Inl e)
                | Inr (d, items) \<Rightarrow> next_pages http d (acc @ items)))"

definition all_pages :: "sp_http \<Rightarrow> json res \<Rightarrow> json list res option" where
  "all_pages http first =
     (case bindR first (\<lambda>d. bindR (bindR (jt_get d ''items'') jt_iter) (\<lambda>items. Inr (d, items))) of
        Inl e \<Rightarrow> Some (Inl e)
      | Inr (d, items) \<Rightarrow> next_pages http d items)"

definition recent_tracks :: "sp_http \<Rightarrow> track_model list res" where
  "recent_tracks http = bindR (sp_recently_played http) (\<lambda>data. jt_map parse_track_in data [''items''])"

definition get_favourite_tracks :: "sp_http \<Rightarrow> track_model list res" where
  "get_favourite_tracks http = bindR (sp_saved_tracks http 50 0) (\<lambda>data. jt_map parse_track_in data [''items''])"

definition get_favourite_albums :: "sp_http \<Rightarrow> album_model list res option" where
  "get_favourite_albums http =
     thenR (all_pages http (sp_saved_albums http 50)) (\<lambda>items.
       bindR (mapR (\<lambda>it. jt_get it ''album'') items) (\<lambda>ds. Inr (parse_albums ds)))"

definition get_my_playlists :: "sp_http \<Rightarrow> playlist_model list res" where
  "get_my_playlists http =
     bindR (sp_current_user_playlists http) (\<lambda>data.
       case jt_map parse_playlist data [''items''] of Inr xs \<Rightarrow> Inr xs | Inl _ \<Rightarrow> Inr [])"

definition get_featured_playlists :: "sp_http \<Rightarrow> playlist_model list res" where
  "get_featured_playlists http =
     bindR (sp_featured_playlists http) (\<lambda>data.
       case jt_map parse_playlist data [''playlists'', ''items''] of Inr xs \<Rightarrow> Inr xs | Inl _ \<Rightarrow> Inr [])"

definition get_favourite_artists :: "sp_http \<Rightarrow> artist_model list res option" where
  "get_favourite_artists http =
     thenR (all_pages http (bindR (sp_followed_artists http 50) (\<lambda>data. jt_get data ''artists''))) (mapR parse_artist)"

definition parse_category :: "json \<Rightarrow> item_model res" where
  "parse_category data =
     bindR (bindR (jt_get data ''id'') jt_str) (\<lambda>i.
     bindR (bindR (jt_get data ''name'') jt_text) (\<lambda>nm. Inr (plain_item i nm None)))"

definition get_categories :: "sp_http \<Rightarrow> item_model list res" where
  "get_categories http = bindR (sp_categories http 50) (\<lambda>data. jt_map parse_category data [''categories'', ''items''])"

definition get_category_playlists :: "sp_http \<Rightarrow> string \<Rightarrow> playlist_model list res" where
  "get_category_playlists http catgid =
     bindR (sp_category_playlists http catgid) (\<lambda>data. jt_map parse_playlist data [''playlists'', ''items''])"

definition get_artist_albums :: "sp_http \<Rightarrow> string \<Rightarrow> album_model list res option" where
  "get_artist_albums http i = thenR (all_pages http (sp_artist_albums http i 50)) (\<lambda>items. Inr (parse_albums items))"

definition get_new_releases :: "sp_http \<Rightarrow> album_model list res" where
  "get_new_releases http =
     bindR (sp_new_releases http) (\<lambda>data.
     bindR (bindR (jt_path data [''albums'', ''items'']) jt_iter) (\<lambda>items. Inr (parse_albums items)))"

definition get_album_tracks :: "sp_http \<Rightarrow> string \<Rightarrow> track_model list res option" where
  "get_album_tracks http albid =
     (case sp_album http albid of
        Inl e \<Rightarrow> Some (Inl e)
      | Inr data \<Rightarrow>
          (case parse_album data of
             None \<Rightarrow> Some (Inr [])
           | Some album \<Rightarrow>
               thenR (all_pages http (sp_album_tracks http albid 50)) (mapR (\<lambda>t. parse_track t (Some album)))))"

definition get_playlist_tracks :: "sp_http \<Rightarrow> string \<Rightarrow> string \<Rightarrow> track_model list res" where
  "get_playlist_tracks http userid plid =
     bindR (sp_user_playlist_tracks http userid plid) (\<lambda>data. jt_map parse_track_in data [''items''])"

definition search_limits :: "string \<Rightarrow> nat \<times> nat" where
  "search_limits tp =
     (if tp = ''artist'' then (20, 20) else if tp = ''album'' \<or> tp = ''playlist'' then (50, 50) else (150, 50))"

lemma s_search_slice_pos [simp]: "0 < snd (search_limits tp)"
  by (simp add: search_limits_def)

definition search_page :: "string \<Rightarrow> json \<Rightarrow> (nat \<times> search_result) res" where
  "search_page tp data =
     (if tp = ''artist'' then
        bindR (bindR (jt_path data [''artists'', ''items'']) jt_len) (\<lambda>n.
        bindR (jt_map parse_artist data [''artists'', ''items'']) (\<lambda>xs. Inr (n, sr_empty\<lparr>sr_artists := xs\<rparr>)))
      else if tp = ''album'' then
        bindR (bindR (jt_path data [''albums'', ''items'']) jt_iter) (\<lambda>items.
          Inr (length items, sr_empty\<lparr>sr_albums := parse_albums items\<rparr>))
      else if tp = ''playlist'' then
        bindR (bindR (jt_path data [''playlists'', ''items'']) jt_len) (\<lambda>n.
        bindR (jt_map parse_playlist data [''playlists'', ''items'']) (\<lambda>xs. Inr (n, sr_empty\<lparr>sr_playlists := xs\<rparr>)))
      else if tp = ''track'' then
        bindR (bindR (jt_path data [''tracks'', ''items'']) jt_len) (\<lambda>n.
        bindR (jt_map parse_track0 data [''tracks'', ''items'']) (\<lambda>xs. Inr (n, sr_empty\<lparr>sr_tracks := xs\<rparr>)))
      else Inr (0, sr_empty))"

definition sr_append :: "search_result \<Rightarrow> search_result \<Rightarrow> search_result" where
  "sr_append r s =
     \<lparr>sr_artists = sr_artists r @ sr_artists s, sr_albums = sr_albums r @ sr_albums s,
      sr_tracks = sr_tracks r @ sr_tracks s, sr_playlists = sr_playlists r @ sr_playlists s\<rparr>"

function search_loop :: "sp_http \<Rightarrow> string \<Rightarrow> string \<Rightarrow> nat \<Rightarrow> search_result \<Rightarrow> search_result res" where
  "search_loop http query tp offset all =
     (if offset < fst (search_limits tp) then
        bindR (sp_search http query tp offset (snd (search_limits tp))) (\<lambda>data.
          case search_page tp data of
            Inl _ \<Rightarrow> Inr all
          | Inr (ncnt, ndata) \<Rightarrow>
              let all = sr_append all ndata in
              if ncnt < snd (search_limits tp) then Inr all
              else search_loop http query tp (offset + snd (search_limits tp)) all)
      else Inr all)"
  by pat_completeness auto
termination
  by (relation "measure (\<lambda>(http, query, tp, offset, all). fst (search_limits tp) - offset)")
    (simp_all add: diff_less_mono2)

declare search_loop.simps [simp del]

definition search1 :: "sp_http \<Rightarrow> string \<Rightarrow> string \<Rightarrow> search_result res" where
  "search1 http query tp =
     bindR (search_loop http query tp 0 sr_empty) (\<lambda>r.
       if tp \<in> set [''artist'', ''album'', ''playlist'', ''track''] then Inr r else Inl AttributeError)"

definition session_search :: "sp_http \<Rightarrow> string \<Rightarrow> string option \<Rightarrow> search_result res" where
  "session_search http query tp =
     (if truthy tp then search1 http query (the tp)
      else bindR (search1 http query ''artist'') (\<lambda>r1.
           bindR (search1 http query ''album'') (\<lambda>r2.
           bindR (search1 http query ''track'') (\<lambda>r3.
           bindR (search1 http query ''playlist'') (\<lambda>r4.
             Inr \<lparr>sr_artists = sr_artists r1, sr_albums = sr_albums r2, sr_tracks = sr_tracks r3,
                  sr_playlists = sr_playlists r4\<rparr>)))))"

section \<open>The plugin\<close>

definition spotidprefix :: string where
  "spotidprefix = ''0$spotify$''"

definition spotify_routes :: "(string \<times> string) list" where
  "spotify_routes =
     [(''root'', ''/''), (''my_music'', ''/my_music''), (''album_view'', ''/album/<album_id>''),
      (''playlist_view'', ''/playlist/<playlist_id>/<user_id>''), (''category_view'', ''/category/<category_id>''),
      (''artist_view'', ''/artist/<artist_id>''), (''new_releases'', ''/new_releases''),
      (''recently_played'', ''/recently_played''), (''favourite_tracks'', ''/favourite_tracks''),
      (''favourite_albums'', ''/favourite_albums''), (''featured_playlists'', ''/featured_playlists''),
      (''genres_and_moods'', ''/genres_and_moods''), (''my_playlists'', ''/my_playlists''),
      (''favourite_artists'', ''/favourite_artists'')]"

definition spotify_plugin :: route_plugin where
  "spotify_plugin = the_plugin spotify_routes"

definition spotify_xp :: "string \<Rightarrow> xbmc_plugin" where
  "spotify_xp objid = \<lparr>xp_idprefix = spotidprefix, xp_routeplug = Some spotify_plugin, xp_objid = objid\<rparr>"

definition s_albums :: "xbmc_plugin \<Rightarrow> album_model list \<Rightarrow> entry list res" where
  "s_albums xp items = xp_items xp ''album_view'' (map album_item items)"

definition s_artists :: "xbmc_plugin \<Rightarrow> artist_model list \<Rightarrow> entry list res" where
  "s_artists xp items = xp_items xp ''artist_view'' (map artist_item items)"

text \<open>The URL of a playlist has the identifiers of the playlist and of its owner.\<close>

definition playlist_kwargs :: "playlist_model \<Rightarrow> (string \<times> string) list" where
  "playlist_kwargs p =
     [(''playlist_id'', pl_id p), (''user_id'', case pl_userid p of Some u \<Rightarrow> u | None \<Rightarrow> ''None'')]"

definition s_playlists :: "xbmc_plugin \<Rightarrow> playlist_model list \<Rightarrow> entry list res" where
  "s_playlists xp items =
     bindR (mapR (\<lambda>p. url_for spotify_plugin ''playlist_view'' [] (playlist_kwargs p)) items) (\<lambda>urls.
       Inr (view (xp_idprefix xp) (xp_objid xp) (map playlist_item items) urls []))"

definition root :: "xbmc_plugin \<Rightarrow> entry list res" where
  "root xp = mapR (\<lambda>(t, f). add_view xp t f)
     [(''Your Library'', ''my_music''), (''New Releases'', ''new_releases''), (''Featured Playlists'', ''featured_playlists''),
      (''Genres and Moods'', ''genres_and_moods'')]"

definition my_music :: "xbmc_plugin \<Rightarrow> entry list res" where
  "my_music xp = mapR (\<lambda>(t, f). add_view xp t f)
     [(''Recently Played'', ''recently_played''), (''Songs'', ''favourite_tracks''), (''Albums'', ''favourite_albums''),
      (''Artists'', ''favourite_artists''), (''Playlists'', ''my_playlists'')]"

definition spotify_view ::
  "svc_env \<Rightarrow> sp_http \<Rightarrow> xbmc_plugin \<Rightarrow> string \<Rightarrow> (string \<times> string) list \<Rightarrow> entry list res option" where
  "spotify_view env http xp f kw =
     (if f = ''root'' then Some (root xp)
      else if f = ''my_music'' then Some (my_music xp)
      else if f = ''album_view''
      then (case kw_arg kw ''album_id'' of Inl e \<Rightarrow> Some (Inl e)
            | Inr i \<Rightarrow> thenR (get_album_tracks http i) (xp_tracks xp env))
      else if f = ''playlist_view''
      then Some (bindR (kw_arg kw ''playlist_id'') (\<lambda>p. bindR (kw_arg kw ''user_id'') (\<lambda>u.
             bindR (get_playlist_tracks http u p) (xp_tracks xp env))))
      else if f = ''category_view''
      then Some (bindR (kw_arg kw ''category_id'') (\<lambda>i. bindR (get_category_playlists http i) (s_playlists xp)))
      else if f = ''artist_view''
      then (case kw_arg kw ''artist_id'' of Inl e \<Rightarrow> Some (Inl e)
            | Inr i \<Rightarrow> thenR (get_artist_albums http i) (s_albums xp))
      else if f = ''new_releases'' then Some (bindR (get_new_releases http) (s_albums xp))
      else if f = ''recently_played'' then Some (bindR (recent_tracks http) (xp_tracks xp env))
      else if f = ''favourite_tracks'' then Some (bindR (get_favourite_tracks http) (xp_tracks xp env))
      else if f = ''favourite_albums'' then thenR (get_favourite_albums http) (s_albums xp)
      else if f = ''featured_playlists'' then Some (bindR (get_featured_playlists http) (s_playlists xp))
      else if f = ''genres_and_moods'' then Some (bindR (get_categories http) (xp_items xp ''category_view''))
      else if f = ''my_playlists'' then Some (bindR (get_my_playlists http) (s_playlists xp))
      else if f = ''favourite_artists'' then thenR (get_favourite_artists http) (s_artists xp)
      else Some (Inl NameError))"

definition spotify_views ::
  "svc_env \<times> sp_http \<Rightarrow> string \<Rightarrow> string \<Rightarrow> (string \<times> string) list \<Rightarrow> entry list res option" where
  "spotify_views s objid f kw = spotify_view (fst s) (snd s) (spotify_xp objid) f kw"

definition spotify_search :: "svc_env \<Rightarrow> sp_http \<Rightarrow> string \<Rightarrow> string \<Rightarrow> string option \<Rightarrow> entry list res" where
  "spotify_search env http objid val objkind =
     (let xp = spotify_xp objid;
          objkind = (if \<not> truthy objkind then None
                     else if the objkind \<in> set [''artist'', ''album'', ''playlist'', ''track''] then objkind
                     else Some ''track'') in
      bindR (session_search http val objkind) (\<lambda>r.
        concatR
          [if objkind = None \<or> objkind = Some ''artist'' then s_artists xp (sr_artists r) else Inr [],
           if objkind = None \<or> objkind = Some ''album'' then s_albums xp (sr_albums r) else Inr [],
           if objkind = Some ''album''
           then bindR (session_search http val (Some ''playlist'')) (\<lambda>r. s_playlists xp (sr_playlists r))
           else if objkind = None \<or> objkind = Some ''playlist'' then s_playlists xp (sr_playlists r) else Inr [],
           if objkind = None \<or> objkind = Some ''track'' then xp_tracks xp env (sr_tracks r) else Inr []]))"

section \<open>Requests of the parent\<close>

record spotify_conf =
  sc_environ :: "string \<rightharpoonup> string"
  sc_upconfig :: conf

text \<open>The settings are kept after the first request that found them; the login itself cannot fail.\<close>

definition spotify_need_env :: "spotify_conf \<Rightarrow> string \<Rightarrow> string res" where
  "spotify_need_env c k = (case sc_environ c k of Some v \<Rightarrow> Inr v | None \<Rightarrow> Inl (Raised (''No '' @ k @ '' in environment'')))"

definition spotify_settings :: "spotify_conf \<Rightarrow> (string \<rightharpoonup> string) \<Rightarrow> svc_env res" where
  "spotify_settings c a =
     bindR (spotify_need_env c ''UPMPD_HTTPHOSTPORT'') (\<lambda>httphp.
     bindR (spotify_need_env c ''UPMPD_PATHPREFIX'') (\<lambda>pathprefix.
     bindR (spotify_need_env c ''UPMPD_CONFIG'') (\<lambda>_.
     bindR (case a ''user'' of Some u \<Rightarrow> Inr (Some u)
            | None \<Rightarrow> getOptionValue (sc_upconfig c) (sc_environ c) ''spotifyuser'' None) (\<lambda>username.
       if \<not> truthy username then Inl (Raised ''spotifyuser not set in configuration'')
       else Inr \<lparr>se_httphp = httphp, se_pathprefix = pathprefix, se_mime = ''audio/wav'', se_samplerate = ''44100''\<rparr>))))"

definition maybelogin :: "spotify_conf \<Rightarrow> (string \<rightharpoonup> string) \<Rightarrow> svc_env option \<Rightarrow> svc_env option \<times> svc_env res" where
  "maybelogin c a kept =
     (case kept of
        Some env \<Rightarrow> (kept, Inr env)
      | None \<Rightarrow> (case spotify_settings c a of Inl e \<Rightarrow> (None, Inl e) | Inr env \<Rightarrow> (Some env, Inr env)))"

definition trackuri :: "spotify_conf \<Rightarrow> (string \<rightharpoonup> string) \<Rightarrow> svc_env option \<Rightarrow> svc_env option \<times> (string \<times> string) list res" where
  "trackuri c a kept =
     (case maybelogin c (\<lambda>_. None) kept of
        (kept, Inl e) \<Rightarrow> (kept, Inl e)
      | (kept, Inr env) \<Rightarrow>
          (kept, bindR (trackid_from_urlpath (se_pathprefix env) a) (\<lambda>media_url.
             Inr [(''media_url'', media_url), (''mimetype'', ''audio/wav''), (''kbs'', ''1411'')])))"

text \<open>The session has no method for the metadata of a track.\<close>

definition browse ::
  "sp_http \<Rightarrow> spotify_conf \<Rightarrow> (string \<rightharpoonup> string) \<Rightarrow> svc_env option \<Rightarrow> svc_env option \<times> entry list res option" where
  "browse http c a kept =
     (case a ''objid'' of
        None \<Rightarrow> (kept, Some (Inl (Raised ''No objid in args'')))
      | Some objid \<Rightarrow>
          if \<not> startswith objid spotidprefix then (kept, Some (Inl (Raised ''bad objid'')))
          else case maybelogin c (\<lambda>_. None) kept of
                 (kept, Inl e) \<Rightarrow> (kept, Some (Inl e))
               | (kept, Inr env) \<Rightarrow>
                   (kept, svc_browse spotidprefix spotify_plugin (Inr ()) (\<lambda>_ _. Inl AttributeError)
                            (spotify_views (env, http)) a))"

definition search ::
  "sp_http \<Rightarrow> spotify_conf \<Rightarrow> (string \<rightharpoonup> string) \<Rightarrow> svc_env option \<Rightarrow> svc_env option \<times> entry list res" where
  "search http c a kept =
     (case (a ''objid'', a ''value'') of
        (Some objid, Some val) \<Rightarrow>
          if \<not> startswith objid spotidprefix then (kept, Inl (Raised ''bad objid''))
          else (case maybelogin c (\<lambda>_. None) kept of
                  (kept, Inl e) \<Rightarrow> (kept, Inl e)
                | (kept, Inr env) \<Rightarrow> (kept, spotify_search env http objid val (a ''objkind'')))
      | _ \<Rightarrow> (kept, Inl KeyError))"

section \<open>The attempts of a request\<close>

definition server_error :: "sp_reply res \<Rightarrow> bool" where
  "server_error r = (case internal_call r of
     SpotifyException status None \<Rightarrow> status = 429 \<or> 500 \<le> status \<and> status < 600 | _ \<Rightarrow> False)"

lemma get_attempts_errors:
  assumes "\<And>i. i < n \<Longrightarrow> server_error (reply (attempt + i))"
  shows "get_attempts reply attempt (n + m) = get_attempts reply (attempt + n) m"
  using assms
proof (induction n arbitrary: attempt)
  case (Suc n)
  have "server_error (reply attempt)" using Suc(2) [of 0] by simp
  then have "get_attempts reply attempt (Suc n + m) = get_attempts reply (attempt + 1) (n + m)"
    by (auto simp: server_error_def split: call_result.splits option.splits)
  also have "\<dots> = get_attempts reply (attempt + 1 + n) m"
    using Suc(2) [of "Suc i" for i] by (intro Suc.IH) simp
  finally show ?case by simp
qed simp

text \<open>C31. A request is repeated while the service says that it is busy or broken: the answer of the first
  attempt that is not refused like this is the answer, if it comes within ten attempts. After ten refusals
  no exception is raised: the request returns as if the answer were empty.\<close>

theorem request_attempts:
  assumes "list_all (\<lambda>i. server_error (http i ''GET'' (full_url url) prms)) [0..<n]"
  shows "(n < 10 \<and> internal_call (http n ''GET'' (full_url url) prms) = Answer v \<longrightarrow> sp_get http url prms = Inr v) \<and>
    (10 \<le> n \<longrightarrow> sp_get http url prms = Inr NullJ)"
proof -
  let ?reply = "\<lambda>i. http i ''GET'' (full_url url) prms"
  have err: "server_error (?reply (0 + i))" if "i < n" for i
    using assms that by (simp add: list_all_iff)
  have "get_attempts ?reply 0 10 = get_attempts ?reply n (10 - n)" if "n < 10"
    using get_attempts_errors [of n ?reply 0 "10 - n", OF err] that by simp
  moreover have "get_attempts ?reply 0 (10 + 0) = get_attempts ?reply (0 + 10) 0" if "10 \<le> n"
    by (rule get_attempts_errors, rule err) (use that in simp)
  ultimately show ?thesis
    by (auto simp: sp_get_def dest!: Suc_diff_Suc [THEN sym])
qed

definition busy_twice :: sp_http where
  "busy_twice n mthd url prms =
     Inr (if n < 2 then \<lparr>sp_status = 503, sp_text = False, sp_json = None, sp_retry_after = None\<rparr>
          else \<lparr>sp_status = 200, sp_text = True, sp_json = Some (IntJ 7), sp_retry_after = None\<rparr>)"

theorem request_attempts_witness:
  "list_all (\<lambda>i. server_error (busy_twice i ''GET'' (full_url ''me/tracks'') [])) [0..<2] \<and>
   sp_get busy_twice ''me/tracks'' [] = Inr (IntJ 7)"
proof -
  have e: "list_all (\<lambda>i. server_error (busy_twice i ''GET'' (full_url ''me/tracks'') [])) [0..<2]" by code_simp
  have "internal_call (busy_twice 2 ''GET'' (full_url ''me/tracks'') []) = Answer (IntJ 7)" by code_simp
  with e request_attempts [of busy_twice "''me/tracks''" "[]" 2 "IntJ 7"] show ?thesis by simp
qed

section \<open>Every listing of the plugin leads on\<close>

definition ids_good :: "json \<Rightarrow> bool" where
  "ids_good v \<longleftrightarrow> ids_ok [''id''] v"

lemma s_ids_good_id: "jt_get v ''id'' = Inr w \<Longrightarrow> ids_good v \<Longrightarrow> jt_str w = Inr i \<Longrightarrow> good_arg i"
  by (auto simp: ids_good_def dest: ids_ok_get_id)

lemma ids_good_get: "jt_get v k = Inr w \<Longrightarrow> ids_good v \<Longrightarrow> ids_good w"
  by (auto simp: ids_good_def ids_ok_def dest: fields_ok_get)

lemma ids_good_path: "jt_path v ks = Inr w \<Longrightarrow> ids_good v \<Longrightarrow> ids_good w"
  by (auto simp: ids_good_def ids_ok_def dest: fields_ok_path)

lemma ids_good_iter: "jt_iter v = Inr xs \<Longrightarrow> ids_good v \<Longrightarrow> list_all ids_good xs"
  by (auto simp: ids_good_def ids_ok_def list_all_iff dest: fields_ok_iter)

lemma ids_good_null [simp]: "ids_good NullJ"
  by (simp add: ids_good_def)

definition answers_good :: "sp_http \<Rightarrow> bool" where
  "answers_good http \<longleftrightarrow>
     (\<forall>n m url prms r v. http n m url prms = Inr r \<longrightarrow> sp_json r = Some v \<longrightarrow> ids_good v)"

lemma internal_call_good:
  assumes "internal_call reply = Answer v" and "\<And>r w. reply = Inr r \<Longrightarrow> sp_json r = Some w \<Longrightarrow> ids_good w"
  shows "ids_good v"
  using assms by (cases reply) (auto simp: internal_call_def split: if_splits option.splits sum.splits)

lemma attempts_good:
  assumes "\<And>n r w. reply n = Inr r \<Longrightarrow> sp_json r = Some w \<Longrightarrow> ids_good w"
  shows "get_attempts reply attempt retries = Inr v \<Longrightarrow> ids_good v"
proof (induction retries arbitrary: attempt)
  case (Suc retries)
  show ?case
  proof (cases "internal_call (reply attempt)")
    case (Answer w)
    with Suc(2) have "v = w" by simp
    moreover have "ids_good w" using Answer by (rule internal_call_good) (rule assms)
    ultimately show ?thesis by simp
  next
    case (SpotifyException status wait)
    then show ?thesis using Suc by (auto simp: bindR_eq_Inr split: if_splits)
  qed (use Suc(2) in simp)
qed simp

lemma sp_get_good: "sp_get http url prms = Inr v \<Longrightarrow> answers_good http \<Longrightarrow> ids_good v"
  unfolding sp_get_def answers_good_def by (erule attempts_good [rotated]) blast

lemma sp_next_good: "sp_next http d = Inr v \<Longrightarrow> answers_good http \<Longrightarrow> ids_good v"
  by (auto simp: sp_next_def bindR_eq_Inr split: if_splits dest: sp_get_good)

lemma next_pages_good:
  assumes "answers_good http" and "next_pages http data acc = Some (Inr items)" and "list_all ids_good acc"
  shows "list_all ids_good items"
proof -
  let ?Q = "\<lambda>http (data :: json) acc (r :: json list res). answers_good http \<longrightarrow> list_all ids_good acc \<longrightarrow>
    (\<forall>items. r = Inr items \<longrightarrow> list_all ids_good items)"
  have "?Q http data acc (Inr items)"
  proof (rule next_pages.raw_induct [where P = ?Q, OF _ assms(2)], intro allI impI)
    fix loop http data acc r items
    assume IH: "\<And>http data acc r. loop http data acc = Some r \<Longrightarrow> ?Q http data acc r"
      and body: "(case jt_get data ''next'' of Inl e \<Rightarrow> Some (Inl e)
        | Inr nx \<Rightarrow> if \<not> jt_true nx then Some (Inr acc)
          else case bindR (sp_next http data) (\<lambda>d. bindR (bindR (jt_get d ''items'') jt_iter) (\<lambda>items. Inr (d, items))) of
              Inl e \<Rightarrow> Some (Inl e) | Inr (d, items) \<Rightarrow> loop http d (acc @ items)) = Some r"
      and http: "answers_good http" and acc: "list_all ids_good acc" and r: "r = Inr items"
    from body r consider "items = acc"
      | d xs where "bindR (sp_next http data) (\<lambda>d. bindR (bindR (jt_get d ''items'') jt_iter) (\<lambda>items. Inr (d, items))) = Inr (d, xs)"
          "loop http d (acc @ xs) = Some (Inr items)"
      by (auto split: if_splits sum.splits prod.splits)
    then show "list_all ids_good items"
    proof cases
      case 2
      then obtain w where "sp_next http data = Inr d" "jt_get d ''items'' = Inr w" "jt_iter w = Inr xs"
        by (auto simp: bindR_eq_Inr)
      then have "list_all ids_good (acc @ xs)"
        using acc http by (auto dest!: sp_next_good ids_good_get ids_good_iter)
      with IH [OF 2(2)] http show ?thesis by blast
    qed (use acc in simp)
  qed
  with assms show ?thesis by blast
qed

lemma all_pages_good:
  assumes "all_pages http first = Some (Inr items)" and "answers_good http" and "\<And>d. first = Inr d \<Longrightarrow> ids_good d"
  shows "list_all ids_good items"
proof -
  obtain d w xs where d: "first = Inr d" "jt_get d ''items'' = Inr w" "jt_iter w = Inr xs" "next_pages http d xs = Some (Inr items)"
    using assms(1) by (auto simp: all_pages_def bindR_eq_Inr split: sum.splits)
  have "list_all ids_good xs" by (rule ids_good_iter [OF d(3) ids_good_get [OF d(2) assms(3) [OF d(1)]]])
  with next_pages_good [OF assms(2) d(4)] show ?thesis .
qed

section \<open>Identifiers of the objects\<close>

definition good_albums :: "album_model list \<Rightarrow> bool" where
  "good_albums xs \<longleftrightarrow> list_all (\<lambda>a. good_arg (alb_id a)) xs"

definition good_playlist :: "playlist_model \<Rightarrow> bool" where
  "good_playlist p \<longleftrightarrow> good_arg (pl_id p) \<and> (case pl_userid p of Some u \<Rightarrow> good_arg u | None \<Rightarrow> True)"

lemma s_parse_artist_id: "ids_good d \<Longrightarrow> parse_artist d = Inr a \<Longrightarrow> good_arg (art_id a)"
  by (auto simp: parse_artist_def artist_defaults_def bindR_eq_Inr dest: s_ids_good_id)

lemma s_parse_category_id: "ids_good d \<Longrightarrow> parse_category d = Inr i \<Longrightarrow> good_arg (it_id i)"
  by (auto simp: parse_category_def plain_item_def bindR_eq_Inr dest: s_ids_good_id)

lemma s_parse_playlist_id: "ids_good d \<Longrightarrow> parse_playlist d = Inr p \<Longrightarrow> good_playlist p"
  unfolding parse_playlist_def bindR_eq_Inr good_playlist_def playlist_defaults_def
  by (auto dest: s_ids_good_id ids_good_get)

lemma album_fields_id: "ids_good d \<Longrightarrow> album_fields d = Inr a \<Longrightarrow> good_arg (alb_id a)"
  unfolding album_fields_def bindR_eq_Inr by (auto simp: album_defaults_def dest: s_ids_good_id)

lemma parse_albums_good: "list_all ids_good items \<Longrightarrow> good_albums (parse_albums items)"
  by (induction items)
    (auto simp: parse_albums_def good_albums_def parse_album_def album_fields_id split: sum.splits option.splits)

lemma s_map_good:
  "jt_map parse v ks = Inr ys \<Longrightarrow> ids_good v \<Longrightarrow> (\<And>d y. ids_good d \<Longrightarrow> parse d = Inr y \<Longrightarrow> P y) \<Longrightarrow> list_all P ys"
  unfolding ids_good_def by (rule ids_ok_map)

lemma mapR_good: "mapR parse ds = Inr ys \<Longrightarrow> list_all ids_good ds \<Longrightarrow> (\<And>d y. ids_good d \<Longrightarrow> parse d = Inr y \<Longrightarrow> P y) \<Longrightarrow> list_all P ys"
  by (erule mapR_all) (auto simp: list_all_iff)

lemma spotify_routes_ok: "routes_ok spotify_plugin"
  by code_simp

lemma spotify_keys:
  "map (view_keys spotify_plugin)
     [''my_music'', ''album_view'', ''playlist_view'', ''category_view'', ''artist_view'', ''new_releases'',
      ''recently_played'', ''favourite_tracks'', ''favourite_albums'', ''featured_playlists'', ''genres_and_moods'',
      ''my_playlists'', ''favourite_artists''] =
   map Some [[], [''album_id''], [''playlist_id'', ''user_id''], [''category_id''], [''artist_id''], [], [], [], [], [], [], [], []]"
  by code_simp

lemmas spotify_table [simp] = spotify_keys [simplified]

lemma spotify_routed [simp]: "routed spotify_plugin spotidprefix (spotify_xp objid)"
  by (simp add: routed_def spotify_xp_def spotify_routes_ok)

lemma s_lists:
  "good_albums albums \<Longrightarrow> lists_ok spotify_plugin spotidprefix (s_albums (spotify_xp objid) albums)"
  "list_all (\<lambda>a. good_arg (art_id a)) artists \<Longrightarrow> lists_ok spotify_plugin spotidprefix (s_artists (spotify_xp objid) artists)"
  "list_all (\<lambda>i. good_arg (it_id i)) items \<Longrightarrow>
   lists_ok spotify_plugin spotidprefix (xp_items (spotify_xp objid) ''category_view'' items)"
  using lists_items [OF spotify_routed, of _ _ _ objid]
  by (simp_all add: s_albums_def s_artists_def good_albums_def list.pred_map comp_def album_item_def artist_item_def)

lemma none_good: "good_arg ''None''"
  by code_simp

lemma s_playlists_listed:
  assumes "list_all good_playlist items"
  shows "lists_ok spotify_plugin spotidprefix (s_playlists (spotify_xp objid) items)"
  unfolding s_playlists_def
proof (rule lists_bind, rule lists_view)
  fix urls url e
  assume urls: "mapR (\<lambda>p. url_for spotify_plugin ''playlist_view'' [] (playlist_kwargs p)) items = Inr urls"
    and url: "url \<in> set urls" and e: "e ''id'' = Some (spotidprefix @ url)"
  obtain p where p: "p \<in> set items" "url_for spotify_plugin ''playlist_view'' [] (playlist_kwargs p) = Inr url"
    using mapR_elem [OF urls url] by blast
  let ?u = "case pl_userid p of Some u \<Rightarrow> u | None \<Rightarrow> ''None''"
  have "list_all good_arg [pl_id p, ?u]"
    using assms p(1) none_good by (auto simp: list_all_iff good_playlist_def split: option.splits)
  moreover have "view_keys spotify_plugin ''playlist_view'' = Some [''playlist_id'', ''user_id'']" by simp
  moreover have "zip [''playlist_id'', ''user_id''] [pl_id p, ?u] = playlist_kwargs p" by (simp add: playlist_kwargs_def)
  ultimately obtain url' where "url_for spotify_plugin ''playlist_view'' [] (playlist_kwargs p) = Inr url'"
      "\<And>e. e ''id'' = Some (spotidprefix @ url') \<Longrightarrow> made_for spotify_plugin spotidprefix e"
    using url_made_for [OF spotify_routes_ok, of "''playlist_view''" "[''playlist_id'', ''user_id'']" "[pl_id p, ?u]" spotidprefix]
    by (metis length_Cons)
  with p(2) e show "made_for spotify_plugin spotidprefix e" by simp
qed (simp add: spotify_xp_def)

section \<open>The views\<close>

lemma albums_pages_good:
  assumes "answers_good http"
  shows "get_artist_albums http i = Some (Inr albums) \<Longrightarrow> good_albums albums"
    and "get_favourite_albums http = Some (Inr albums) \<Longrightarrow> good_albums albums"
    and "get_new_releases http = Inr albums \<Longrightarrow> good_albums albums"
proof -
  show "good_albums albums" if g: "get_artist_albums http i = Some (Inr albums)"
  proof -
    obtain items where items: "all_pages http (sp_artist_albums http i 50) = Some (Inr items)" "albums = parse_albums items"
      using g by (auto simp: get_artist_albums_def thenR_def bindR_eq_Inr)
    have "list_all ids_good items" using items(1) assms
      by (rule all_pages_good) (auto simp: sp_artist_albums_def intro: sp_get_good assms)
    then show ?thesis unfolding items(2) by (rule parse_albums_good)
  qed
  show "good_albums albums" if g: "get_favourite_albums http = Some (Inr albums)"
  proof -
    obtain items ds where items: "all_pages http (sp_saved_albums http 50) = Some (Inr items)"
        "mapR (\<lambda>it. jt_get it ''album'') items = Inr ds" "albums = parse_albums ds"
      using g by (auto simp: get_favourite_albums_def thenR_def bindR_eq_Inr)
    have "list_all ids_good items" using items(1) assms
      by (rule all_pages_good) (auto simp: sp_saved_albums_def intro: sp_get_good assms)
    with items(2) have "list_all ids_good ds" by (rule mapR_good) (rule ids_good_get)
    then show ?thesis unfolding items(3) by (rule parse_albums_good)
  qed
  show "good_albums albums" if g: "get_new_releases http = Inr albums"
  proof -
    obtain data w items where d: "sp_new_releases http = Inr data" "jt_path data [''albums'', ''items''] = Inr w"
        "jt_iter w = Inr items" "albums = parse_albums items"
      using g unfolding get_new_releases_def bindR_eq_Inr by auto
    have "ids_good data" using d(1) assms unfolding sp_new_releases_def by (rule sp_get_good)
    with d(2) have "ids_good w" by (rule ids_good_path)
    with d(3) have "list_all ids_good items" by (rule ids_good_iter)
    then show ?thesis unfolding d(4) by (rule parse_albums_good)
  qed
qed

lemma artists_pages_good:
  assumes "get_favourite_artists http = Some (Inr artists)" and "answers_good http"
  shows "list_all (\<lambda>a. good_arg (art_id a)) artists"
proof -
  obtain items where items: "all_pages http (bindR (sp_followed_artists http 50) (\<lambda>data. jt_get data ''artists'')) = Some (Inr items)"
      "mapR parse_artist items = Inr artists"
    using assms(1) by (auto simp: get_favourite_artists_def thenR_def bindR_eq_Inr)
  have "list_all ids_good items" using items(1) assms(2)
    by (rule all_pages_good)
      (auto simp: sp_followed_artists_def bindR_eq_Inr dest: ids_good_get intro: sp_get_good assms)
  with items(2) show ?thesis by (rule mapR_good) (rule s_parse_artist_id)
qed

lemma s_playlists_good:
  assumes "answers_good http"
  shows "get_my_playlists http = Inr playlists \<Longrightarrow> list_all good_playlist playlists"
    and "get_featured_playlists http = Inr playlists \<Longrightarrow> list_all good_playlist playlists"
    and "get_category_playlists http i = Inr playlists \<Longrightarrow> list_all good_playlist playlists"
    and "get_categories http = Inr items \<Longrightarrow> list_all (\<lambda>i. good_arg (it_id i)) items"
proof -
  have maps: "list_all good_playlist ys" if "jt_map parse_playlist data ks = Inr ys" "ids_good data" for data ks ys
    using that by (rule s_map_good) (rule s_parse_playlist_id)
  have caught: "list_all good_playlist playlists"
    if "(case jt_map parse_playlist data ks of Inr xs \<Rightarrow> Inr xs | Inl _ \<Rightarrow> Inr []) = (Inr playlists :: playlist_model list res)"
      and "ids_good data" for data ks
    using that maps [of data ks] by (cases "jt_map parse_playlist data ks") auto
  show "list_all good_playlist playlists" if "get_my_playlists http = Inr playlists"
    using that unfolding get_my_playlists_def sp_current_user_playlists_def bindR_eq_Inr
    by (elim exE conjE) (rule caught, assumption, erule sp_get_good, rule assms)
  show "list_all good_playlist playlists" if "get_featured_playlists http = Inr playlists"
    using that unfolding get_featured_playlists_def sp_featured_playlists_def bindR_eq_Inr
    by (elim exE conjE) (rule caught, assumption, erule sp_get_good, rule assms)
  show "list_all good_playlist playlists" if "get_category_playlists http i = Inr playlists"
    using that unfolding get_category_playlists_def sp_category_playlists_def bindR_eq_Inr
    by (elim exE conjE) (rule maps, assumption, erule sp_get_good, rule assms)
  show "list_all (\<lambda>i. good_arg (it_id i)) items" if "get_categories http = Inr items"
    using that unfolding get_categories_def sp_categories_def bindR_eq_Inr
    by (elim exE conjE) (erule s_map_good, erule sp_get_good, rule assms, rule s_parse_category_id)
qed

lemma s_fixed_lists:
  "lists_ok spotify_plugin spotidprefix (root (spotify_xp objid))"
  "lists_ok spotify_plugin spotidprefix (my_music (spotify_xp objid))"
  unfolding root_def my_music_def by (rule lists_views, rule spotify_routed, simp)+

lemma spotify_view_listed:
  assumes "answers_good http"
  shows "returns_ok spotify_plugin spotidprefix (spotify_view env http (spotify_xp objid) f kw)"
proof -
  note albums = albums_pages_good [OF assms] and playlists = s_playlists_good [OF assms]
  have pages: "returns_ok spotify_plugin spotidprefix (thenR (get_artist_albums http i) (s_albums (spotify_xp objid)))"
    "returns_ok spotify_plugin spotidprefix (thenR (get_favourite_albums http) (s_albums (spotify_xp objid)))"
    "returns_ok spotify_plugin spotidprefix (thenR (get_favourite_artists http) (s_artists (spotify_xp objid)))" for i
    by (rule returns_then, rule s_lists, erule albums artists_pages_good [OF _ assms])+
  have singles: "lists_ok spotify_plugin spotidprefix (bindR (get_new_releases http) (s_albums (spotify_xp objid)))"
    "lists_ok spotify_plugin spotidprefix (bindR (get_my_playlists http) (s_playlists (spotify_xp objid)))"
    "lists_ok spotify_plugin spotidprefix (bindR (get_featured_playlists http) (s_playlists (spotify_xp objid)))"
    "lists_ok spotify_plugin spotidprefix (bindR (get_category_playlists http i) (s_playlists (spotify_xp objid)))"
    "lists_ok spotify_plugin spotidprefix (bindR (get_categories http) (xp_items (spotify_xp objid) ''category_view''))" for i
    by (rule lists_bind, rule s_lists s_playlists_listed, erule albums playlists)+
  have arg: "lists_ok spotify_plugin spotidprefix (bindR (kw_arg kw k) m)"
    if "\<And>v. lists_ok spotify_plugin spotidprefix (m v)" for k m
    using that by (rule lists_bind)
  show ?thesis unfolding spotify_view_def
    by (intro returns_if returns_Some returns_arg s_fixed_lists pages singles arg lists_tracks_bind returns_tracks lists_Inl)
qed

interpretation sp: routed_service spotify_plugin spotidprefix "\<lambda>(env, http). answers_good http" spotify_views
proof unfold_locales
  fix s objid f kw es
  assume "case s of (env, http) \<Rightarrow> answers_good http" "spotify_views s objid f kw = Some (Inr es)"
  then show "dirs_made_for spotify_plugin spotidprefix es"
    using spotify_view_listed [of "snd s" "fst s" objid f kw]
    by (auto simp: spotify_views_def returns_ok_def lists_ok_def split: prod.splits)
qed (rule spotify_routes_ok)

end
