(* ===== verification/BbcFetch.thy ===== *)
theory BbcFetch
  imports PyTree
begin

text \<open>
  The programme data of the BBC plugin (\<open>bbc/bbc-app.py\<close>): what one thread fetches about a programme, and
  the loop that starts a thread per programme and waits for them. All threads store into one dictionary.
  The loop and the threads are a step relation; a schedule is a sequence of steps.
\<close>

section \<open>The data of a programme\<close>

record bbc_meta =
  bm_url :: string
  bm_encoding :: string
  bm_bitrate :: string
  bm_thumb :: string

text \<open>A request is never answered, or fails, or brings an answer; an answer that is not JSON raises.\<close>

datatype bbc_reply = NoAnswer | RequestFails | Answer "json res"

type_synonym bbc_http = "string \<Rightarrow> bbc_reply"

definition programme_url :: "string \<Rightarrow> string" where
  "programme_url progid = ''https://www.bbc.co.uk/programmes/'' @ progid @ ''.json''"

definition media_url :: "string \<Rightarrow> string" where
  "media_url vpid =
     ''https://open.live.bbc.co.uk/mediaselector/6/select/version/2.0/mediaset/iptv-all/vpid/'' @ vpid @ ''/format/json''"

text \<open>\<open>sort(key = bitrate, reverse = True)\<close> keeps the order of equal elements. Numbers or texts can be
  compared, a mixture cannot; other values are an error here.\<close>

fun bitrate_int :: "json \<Rightarrow> int res" where
  "bitrate_int (IntJ i) = Inr i"
| "bitrate_int _ = Inl TypeError"

definition keyed :: "(json \<Rightarrow> 'k res) \<Rightarrow> json list \<Rightarrow> ('k \<times> json) list res" where
  "keyed key items = mapR (\<lambda>x. bindR (jt_get x ''bitrate'') (\<lambda>b. bindR (key b) (\<lambda>k. Inr (k, x)))) items"

definition sort_desc :: "('k::linorder \<times> json) list \<Rightarrow> json list" where
  "sort_desc kxs = map snd (rev (sort_key fst (rev kxs)))"

definition sort_by_bitrate :: "json list \<Rightarrow> json list res" where
  "sort_by_bitrate items =
     (case keyed bitrate_int items of
        Inr kxs \<Rightarrow> Inr (sort_desc kxs)
      | Inl _ \<Rightarrow> bindR (keyed jt_text items) (\<lambda>kxs. Inr (sort_desc kxs)))"

definition is_audio :: "json \<Rightarrow> bool res" where
  "is_audio item = bindR (jt_get item ''kind'') (\<lambda>k. Inr (k = StrJ ''audio''))"

fun filterR :: "('a \<Rightarrow> bool res) \<Rightarrow> 'a list \<Rightarrow> 'a list res" where
  "filterR p [] = Inr []"
| "filterR p (x # xs) = bindR (p x) (\<lambda>b. bindR (filterR p xs) (\<lambda>ys. Inr (if b then x # ys else ys)))"

text \<open>The first stream of the audio item with the highest bitrate; fields that nothing shows must be there
  too.\<close>

definition picked_meta :: "json \<Rightarrow> json \<Rightarrow> bbc_meta res" where
  "picked_meta programme playlist =
     bindR (jt_get playlist ''media'') (\<lambda>m. bindR (jt_iter m) (\<lambda>items.
     bindR (filterR is_audio items) (\<lambda>audio.
     bindR (sort_by_bitrate audio) (\<lambda>audio_items.
     bindR (nth_res audio_items 0) (\<lambda>picked.
     bindR (jt_get picked ''connection'') (\<lambda>c. bindR (jt_iter c) (\<lambda>cs.
     bindR (nth_res cs 1) (\<lambda>conn. bindR (jt_get conn ''href'') (\<lambda>h. bindR (jt_text h) (\<lambda>url.
     bindR (jt_get picked ''encoding'') (\<lambda>encoding.
     bindR (jt_get picked ''bitrate'') (\<lambda>b. bindR (jt_str b) (\<lambda>bitrate.
     bindR (jt_path programme [''image'', ''pid'']) (\<lambda>p. bindR (jt_text p) (\<lambda>pid.
     bindR (jt_path programme [''display_title'', ''title'']) (\<lambda>_.
     bindR (bindR (jt_path programme [''display_title'', ''subtitle'']) jt_text) (\<lambda>_.
     bindR (jt_path programme [''ownership'', ''service'', ''title'']) (\<lambda>_.
     bindR (jt_get programme ''short_synopsis'') (\<lambda>_.
       Inr \<lparr>bm_url = url, bm_encoding = (if encoding = StrJ ''aac'' then ''audio/aac'' else ''audio/mpeg''),
            bm_bitrate = bitrate, bm_thumb = ''https://ichef.bbci.co.uk/images/ic/480xn/'' @ pid @ ''.jpg''\<rparr>)))))))))))))))))))"

text \<open>The versions of the programme in turn, until one has media. A request for the media that fails ends the
  thread. It has no timeout: when it is never answered, the thread never ends, and this is None.\<close>

fun first_version :: "bbc_http \<Rightarrow> json \<Rightarrow> json list \<Rightarrow> bbc_meta option res option" where
  "first_version http programme [] = Some (Inr None)"
| "first_version http programme (version # vs) =
     (case bindR (jt_get version ''pid'') jt_text of
        Inl e \<Rightarrow> Some (Inl e)
      | Inr vpid \<Rightarrow>
          (case http (media_url vpid) of
             NoAnswer \<Rightarrow> None
           | RequestFails \<Rightarrow> Some (Inl (Raised ''ConnectionError''))
           | Answer r \<Rightarrow>
               (case bindR r (\<lambda>playlist. bindR (jt_in ''media'' playlist) (\<lambda>b. Inr (playlist, b))) of
                  Inl e \<Rightarrow> Some (Inl e)
                | Inr (playlist, b) \<Rightarrow>
                    if \<not> b then first_version http programme vs
                    else Some (bindR (picked_meta programme playlist) (\<lambda>m. Inr (Some m))))))"

text \<open>What is stored for a programme in the end. The request for the programme is given up after five
  seconds; after that, or when it failed, the variable of its answer has no value.\<close>

definition programmedetails :: "bbc_http \<Rightarrow> string \<Rightarrow> bbc_meta option res option" where
  "programmedetails http progid =
     (case http (programme_url progid) of
        Answer r \<Rightarrow>
          (case bindR r (\<lambda>js. bindR (jt_get js ''programme'') (\<lambda>programme.
             bindR (jt_get programme ''versions'') (\<lambda>v. bindR (jt_iter v) (\<lambda>vs. Inr (programme, vs))))) of
             Inl e \<Rightarrow> Some (Inl e)
           | Inr (programme, vs) \<Rightarrow> first_version http programme vs)
      | _ \<Rightarrow> Some (Inl UnboundLocalError))"

text \<open>The slot of a programme after its thread: a thread that raised, or hangs, leaves it empty.\<close>

definition fetched_slot :: "(string \<Rightarrow> bbc_meta option res option) \<Rightarrow> string \<Rightarrow> bbc_meta option" where
  "fetched_slot details k = (case details k of Some (Inr m) \<Rightarrow> m | _ \<Rightarrow> None)"

section \<open>The threads\<close>

text \<open>A thread has emptied the slot of its programme, or has not yet. The loop starts a thread, waits for all
  of them when it has started as many as it may, counts the slots that are filled, and in the end waits for
  the rest.\<close>

datatype bbc_place = Loop | Joining | Counting | Final | Finished

record bbc_state =
  bs_data :: "(string \<times> bbc_meta option) list"
  bs_todo :: "string list"
  bs_threads :: "(string \<times> bool) list"
  bs_place :: bbc_place
  bs_thrcount :: int
  bs_nthreads :: int

definition datacount :: "(string \<times> bbc_meta option) list \<Rightarrow> nat" where
  "datacount d = length (filter (\<lambda>(k, m). m \<noteq> None) d)"

definition fetch_start :: "string list \<Rightarrow> bbc_state" where
  "fetch_start keys =
     \<lparr>bs_data = map (\<lambda>k. (k, None)) keys, bs_todo = keys, bs_threads = [], bs_place = Loop, bs_thrcount = 0,
      bs_nthreads = 20\<rparr>"

inductive fetch_step :: "(string \<Rightarrow> bbc_meta option res option) \<Rightarrow> int \<Rightarrow> bbc_state \<Rightarrow> bbc_state \<Rightarrow> bool"
  for details reqcount where
  thread_begin: "bs_threads s = us @ (k, False) # vs \<Longrightarrow>
    fetch_step details reqcount s (s\<lparr>bs_threads := us @ (k, True) # vs, bs_data := AList.update k None (bs_data s)\<rparr>)"
| thread_end: "bs_threads s = us @ (k, True) # vs \<Longrightarrow> details k = Some r \<Longrightarrow>
    fetch_step details reqcount s (s\<lparr>bs_threads := us @ vs,
      bs_data := (case r of Inr (Some m) \<Rightarrow> AList.update k (Some m) (bs_data s) | _ \<Rightarrow> bs_data s)\<rparr>)"
| loop_thread: "bs_place s = Loop \<Longrightarrow> bs_todo s = k # ks \<Longrightarrow>
    fetch_step details reqcount s (s\<lparr>bs_todo := ks, bs_threads := bs_threads s @ [(k, False)],
      bs_thrcount := bs_thrcount s + 1, bs_place := (if bs_thrcount s + 1 = bs_nthreads s then Joining else Counting)\<rparr>)"
| loop_join: "bs_place s = Joining \<Longrightarrow> bs_threads s = [] \<Longrightarrow>
    fetch_step details reqcount s (s\<lparr>bs_thrcount := 0, bs_place := Counting\<rparr>)"
| loop_count: "bs_place s = Counting \<Longrightarrow> dc = int (datacount (bs_data s)) \<Longrightarrow>
    fetch_step details reqcount s (s\<lparr>bs_nthreads := min (bs_nthreads s) (reqcount - dc),
      bs_place := (if reqcount \<le> dc then Final else Loop)\<rparr>)"
| loop_end: "bs_place s = Loop \<Longrightarrow> bs_todo s = [] \<Longrightarrow> fetch_step details reqcount s (s\<lparr>bs_place := Final\<rparr>)"
| final_join: "bs_place s = Final \<Longrightarrow> bs_threads s = [] \<Longrightarrow> fetch_step details reqcount s (s\<lparr>bs_place := Finished\<rparr>)"

inductive_cases fetch_stepE: "fetch_step details reqcount s s'"

inductive fetch_reaches :: "(string \<Rightarrow> bbc_meta option res option) \<Rightarrow> int \<Rightarrow> bbc_state \<Rightarrow> bbc_state \<Rightarrow> bool"
  for details reqcount where
  refl: "fetch_reaches details reqcount s s"
| step: "fetch_reaches details reqcount s s' \<Longrightarrow> fetch_step details reqcount s' s'' \<Longrightarrow> fetch_reaches details reqcount s s''"

section \<open>The schedule does not matter\<close>

text \<open>The programmes without their data yet.\<close>

definition waiting :: "bbc_state \<Rightarrow> string set" where
  "waiting s = set (bs_todo s) \<union> fst ` set (bs_threads s)"

definition slots :: "string list \<Rightarrow> (string \<Rightarrow> bbc_meta option) \<Rightarrow> (string \<times> bbc_meta option) list" where
  "slots keys f = map (\<lambda>k. (k, f k)) keys"

definition fetch_inv :: "(string \<Rightarrow> bbc_meta option res option) \<Rightarrow> int \<Rightarrow> string list \<Rightarrow> bbc_state \<Rightarrow> bool" where
  "fetch_inv details reqcount keys s \<longleftrightarrow>
     (\<exists>started. keys = started @ bs_todo s \<and> fst ` set (bs_threads s) \<subseteq> set started) \<and>
     distinct (map fst (bs_threads s)) \<and>
     bs_data s = slots keys (\<lambda>k. if k \<in> waiting s then None else fetched_slot details k) \<and>
     (bs_place s = Finished \<longrightarrow> bs_threads s = []) \<and>
     (bs_place s \<in> {Final, Finished} \<longrightarrow> bs_todo s = [] \<or> reqcount \<le> int (datacount (bs_data s)))"

lemma fetch_invD:
  assumes "fetch_inv details reqcount keys s"
  shows "\<exists>started. keys = started @ bs_todo s \<and> fst ` set (bs_threads s) \<subseteq> set started"
    and "distinct (map fst (bs_threads s))"
    and "bs_data s = slots keys (\<lambda>k. if k \<in> waiting s then None else fetched_slot details k)"
    and "bs_place s = Finished \<Longrightarrow> bs_threads s = []"
    and "bs_place s \<in> {Final, Finished} \<Longrightarrow> bs_todo s = [] \<or> reqcount \<le> int (datacount (bs_data s))"
  using assms unfolding fetch_inv_def by blast+

lemma fetch_invI:
  assumes "keys = started @ bs_todo s" and "fst ` set (bs_threads s) \<subseteq> set started" and "distinct (map fst (bs_threads s))"
    and "bs_data s = slots keys (\<lambda>k. if k \<in> waiting s then None else fetched_slot details k)"
    and "bs_place s = Finished \<Longrightarrow> bs_threads s = []"
    and "bs_place s \<in> {Final, Finished} \<Longrightarrow> bs_todo s = [] \<or> reqcount \<le> int (datacount (bs_data s))"
  shows "fetch_inv details reqcount keys s"
  using assms unfolding fetch_inv_def by blast

lemma update_slots:
  "distinct keys \<Longrightarrow> k \<in> set keys \<Longrightarrow> AList.update k v (slots keys f) = slots keys (f(k := v))"
  by (induction keys) (auto simp: slots_def)

lemma slots_cong: "(\<And>k. k \<in> set keys \<Longrightarrow> f k = g k) \<Longrightarrow> slots keys f = slots keys g"
  by (simp add: slots_def)

lemma datacount_mono:
  "(\<And>k. f k \<noteq> None \<Longrightarrow> g k \<noteq> None) \<Longrightarrow> datacount (slots keys f) \<le> datacount (slots keys g)"
proof (induction keys)
  case (Cons k keys)
  then show ?case by (cases "f k"; cases "g k") (auto simp: datacount_def slots_def simp del: not_None_eq)
qed (simp add: slots_def datacount_def)

lemma datacount_length: "datacount (slots keys f) \<le> length keys"
  unfolding datacount_def slots_def by (rule order_trans [OF length_filter_le]) simp

lemma fetch_inv_start: "fetch_inv details reqcount keys (fetch_start keys)"
  by (auto simp: fetch_inv_def fetch_start_def waiting_def slots_def)

text \<open>The steps of a thread.\<close>

lemma fetch_inv_begin:
  assumes i: "fetch_inv details reqcount keys s" and "distinct keys" and t: "bs_threads s = us @ (k, False) # vs"
  shows "fetch_inv details reqcount keys (s\<lparr>bs_threads := us @ (k, True) # vs, bs_data := AList.update k None (bs_data s)\<rparr>)"
proof -
  let ?s = "s\<lparr>bs_threads := us @ (k, True) # vs, bs_data := AList.update k None (bs_data s)\<rparr>"
  have w: "waiting ?s = waiting s" by (simp add: waiting_def t)
  have k: "k \<in> waiting s" "k \<in> set keys" using fetch_invD(1) [OF i] t by (auto simp: waiting_def)
  note data = fetch_invD(3) [OF i]
  then have "bs_data ?s = slots keys ((\<lambda>k. if k \<in> waiting s then None else fetched_slot details k)(k := None))"
    using update_slots [OF assms(2) k(2)] by simp
  also have "\<dots> = bs_data s" unfolding data using k(1) by (intro slots_cong) auto
  finally have ds: "bs_data ?s = bs_data s" .
  obtain started where st: "keys = started @ bs_todo s" "fst ` set (bs_threads s) \<subseteq> set started"
    using fetch_invD(1) [OF i] by blast
  show ?thesis
  proof (rule fetch_invI [of keys started])
    show "keys = started @ bs_todo ?s" "fst ` set (bs_threads ?s) \<subseteq> set started" using st t by auto
    show "distinct (map fst (bs_threads ?s))" using fetch_invD(2) [OF i] t by simp
    show "bs_data ?s = slots keys (\<lambda>k. if k \<in> waiting ?s then None else fetched_slot details k)"
      unfolding ds w by (rule fetch_invD(3) [OF i])
    show "bs_place ?s = Finished \<Longrightarrow> bs_threads ?s = []" using fetch_invD(4) [OF i] t by auto
    show "bs_place ?s \<in> {Final, Finished} \<Longrightarrow> bs_todo ?s = [] \<or> reqcount \<le> int (datacount (bs_data ?s))"
      using fetch_invD(5) [OF i] unfolding ds by simp
  qed
qed

lemma fetch_inv_end:
  assumes i: "fetch_inv details reqcount keys s" and "distinct keys" and t: "bs_threads s = us @ (k, True) # vs"
    and r: "details k = Some r"
  shows "fetch_inv details reqcount keys (s\<lparr>bs_threads := us @ vs,
    bs_data := (case r of Inr (Some m) \<Rightarrow> AList.update k (Some m) (bs_data s) | _ \<Rightarrow> bs_data s)\<rparr>)"
proof -
  let ?d = "case r of Inr (Some m) \<Rightarrow> AList.update k (Some m) (bs_data s) | _ \<Rightarrow> bs_data s"
  let ?s = "s\<lparr>bs_threads := us @ vs, bs_data := ?d\<rparr>"
  let ?f = "\<lambda>k. if k \<in> waiting s then None else fetched_slot details k"
  let ?g = "\<lambda>k. if k \<in> waiting ?s then None else fetched_slot details k"
  obtain started where st: "keys = started @ bs_todo s" "fst ` set (bs_threads s) \<subseteq> set started"
    using fetch_invD(1) [OF i] by blast
  have d: "distinct (map fst (us @ (k, True) # vs))" using fetch_invD(2) [OF i] t by simp
  have k: "k \<in> set keys" "k \<notin> set (bs_todo s)" using st t assms(2) by auto
  have w: "waiting ?s = waiting s - {k}" using d k(2) t by (auto simp: waiting_def)
  have k': "k \<in> waiting s" using t by (simp add: waiting_def)
  have ds: "bs_data s = slots keys ?f" by (rule fetch_invD(3) [OF i])
  have "?d = slots keys (?f(k := fetched_slot details k))"
  proof (cases "fetched_slot details k")
    case None
    then have "?d = bs_data s" using r by (auto simp: fetched_slot_def split: sum.splits option.splits)
    also have "\<dots> = slots keys (?f(k := fetched_slot details k))" unfolding ds using None by (intro slots_cong) simp
    finally show ?thesis .
  next
    case (Some m)
    then have "r = Inr (Some m)" using r by (auto simp: fetched_slot_def split: sum.splits)
    then have "?d = AList.update k (Some m) (bs_data s)" by simp
    also have "\<dots> = slots keys (?f(k := fetched_slot details k))" unfolding ds Some by (rule update_slots [OF assms(2) k(1)])
    finally show ?thesis .
  qed
  also have "\<dots> = slots keys ?g"
  proof (rule slots_cong)
    fix x
    show "(?f(k := fetched_slot details k)) x = ?g x" unfolding w by (cases "x = k") simp_all
  qed
  finally have data: "?d = slots keys ?g" .
  have "datacount (slots keys ?f) \<le> datacount (slots keys ?g)" unfolding w by (rule datacount_mono) (auto split: if_splits)
  then have "datacount (bs_data s) \<le> datacount ?d"
    using arg_cong [OF ds, of datacount] arg_cong [OF data, of datacount] by linarith
  with fetch_invD(5) [OF i] have c: "bs_place s \<in> {Final, Finished} \<Longrightarrow> bs_todo s = [] \<or> reqcount \<le> int (datacount ?d)"
    by linarith
  have n: "bs_place s \<noteq> Finished" using fetch_invD(4) [OF i] t by auto
  show ?thesis
  proof (rule fetch_invI [of keys started])
    show "keys = started @ bs_todo ?s" "fst ` set (bs_threads ?s) \<subseteq> set started" "distinct (map fst (bs_threads ?s))"
      using st d t by auto
    show "bs_data ?s = slots keys ?g" using data by simp
  qed (use n c in simp_all)
qed

text \<open>The steps of the loop.\<close>

lemma fetch_inv_loop:
  assumes i: "fetch_inv details reqcount keys s"
    and eq: "bs_todo s' = bs_todo s" "bs_threads s' = bs_threads s" "bs_data s' = bs_data s"
    and p: "bs_place s' = Finished \<Longrightarrow> bs_threads s = []"
      "bs_place s' \<in> {Final, Finished} \<Longrightarrow> bs_todo s = [] \<or> reqcount \<le> int (datacount (bs_data s))"
  shows "fetch_inv details reqcount keys s'"
proof -
  obtain started where st: "keys = started @ bs_todo s" "fst ` set (bs_threads s) \<subseteq> set started"
    using fetch_invD(1) [OF i] by blast
  have w: "waiting s' = waiting s" by (simp add: waiting_def eq)
  show ?thesis
    by (rule fetch_invI [of keys started]) (unfold eq w, (fact st fetch_invD(2,3) [OF i] p | (erule p))+)
qed

lemma fetch_inv_step:
  assumes "fetch_step details reqcount s s'" and "fetch_inv details reqcount keys s" and "distinct keys"
  shows "fetch_inv details reqcount keys s'"
  using assms(1)
proof cases
  case (thread_begin us k vs)
  then show ?thesis using fetch_inv_begin assms(2,3) by blast
next
  case (thread_end us k vs r)
  then show ?thesis using fetch_inv_end assms(2,3) by blast
next
  case (loop_thread k ks)
  obtain started where st: "keys = started @ bs_todo s" "fst ` set (bs_threads s) \<subseteq> set started"
    using fetch_invD(1) [OF assms(2)] by blast
  have w: "waiting s' = waiting s" using loop_thread by (auto simp: waiting_def)
  have k: "k \<notin> fst ` set (bs_threads s)" using st loop_thread assms(3) by auto
  show ?thesis
  proof (rule fetch_invI [of keys "started @ [k]"])
    show "keys = (started @ [k]) @ bs_todo s'" "fst ` set (bs_threads s') \<subseteq> set (started @ [k])"
      using st loop_thread by auto
    show "distinct (map fst (bs_threads s'))" using k loop_thread fetch_invD(2) [OF assms(2)] by simp
    show "bs_data s' = slots keys (\<lambda>k. if k \<in> waiting s' then None else fetched_slot details k)"
      using fetch_invD(3) [OF assms(2)] w loop_thread by simp
  qed (use loop_thread in \<open>auto split: if_splits\<close>)
next
  case loop_join
  then show ?thesis by (intro fetch_inv_loop [OF assms(2)]) simp_all
next
  case (loop_count dc)
  then show ?thesis by (intro fetch_inv_loop [OF assms(2)]) (auto split: if_splits)
next
  case loop_end
  then show ?thesis by (intro fetch_inv_loop [OF assms(2)]) simp_all
next
  case final_join
  then show ?thesis using fetch_invD(5) [OF assms(2)] by (intro fetch_inv_loop [OF assms(2)]) simp_all
qed

lemma fetch_inv_reaches:
  "fetch_reaches details reqcount s s' \<Longrightarrow> fetch_inv details reqcount keys s \<Longrightarrow> distinct keys \<Longrightarrow>
   fetch_inv details reqcount keys s'"
  by (induction rule: fetch_reaches.induct) (auto intro: fetch_inv_step)

lemma fetch_finished_slots:
  assumes "distinct keys" and "fetch_reaches details reqcount (fetch_start keys) s" and "bs_place s = Finished"
  shows "map fst (bs_data s) = keys \<and> (\<forall>(k, m) \<in> set (bs_data s). m = None \<or> m = fetched_slot details k) \<and>
    (int (length keys) \<le> reqcount \<longrightarrow> bs_data s = map (\<lambda>k. (k, fetched_slot details k)) keys)"
proof -
  have i: "fetch_inv details reqcount keys s" using fetch_inv_reaches [OF assms(2) fetch_inv_start assms(1)] .
  let ?f = "\<lambda>k. if k \<in> waiting s then None else fetched_slot details k"
  note data = fetch_invD(3) [OF i]
  have th: "bs_threads s = []" using fetch_invD(4) [OF i] assms(3) by simp
  have "bs_data s = map (\<lambda>k. (k, fetched_slot details k)) keys" if r: "int (length keys) \<le> reqcount"
  proof (cases "bs_todo s")
    case Nil
    with th have "waiting s = {}" by (simp add: waiting_def)
    with data show ?thesis by (simp add: slots_def)
  next
    case (Cons k ks)
    then have "reqcount \<le> int (datacount (slots keys ?f))" using fetch_invD(5) [OF i] assms(3) data by simp
    moreover obtain started where st: "keys = started @ bs_todo s" using fetch_invD(1) [OF i] by blast
    have "datacount (slots (k # ks) ?f) = 0" using Cons by (auto simp: datacount_def slots_def waiting_def filter_empty_conv)
    then have "datacount (slots keys ?f) \<le> length started"
      using datacount_length [of started ?f] st Cons by (simp add: datacount_def slots_def)
    ultimately show ?thesis using r st Cons by simp
  qed
  moreover have "map fst (bs_data s) = keys" unfolding data by (simp add: slots_def comp_def)
  moreover have "\<forall>(k, m) \<in> set (bs_data s). m = None \<or> m = fetched_slot details k" unfolding data by (auto simp: slots_def)
  ultimately show ?thesis by blast
qed

text \<open>C35. However the threads are scheduled: when the fetching has finished, every slot is empty or has the data of
  its programme; and if no more programmes are asked for than there may be, every slot has what its thread
  found, as if they had been fetched one after the other.\<close>

theorem fetch_schedule_independent:
  assumes "distinct keys" and "fetch_reaches details reqcount (fetch_start keys) s" and "bs_place s = Finished"
  shows "map fst (bs_data s) = keys \<and> (\<forall>(k, m) \<in> set (bs_data s). m = None \<or> m = fetched_slot details k) \<and>
    (int (length keys) \<le> reqcount \<longrightarrow> bs_data s = map (\<lambda>k. (k, fetched_slot details k)) keys)"
  using fetch_finished_slots [OF assms] .

section \<open>The fetching ends\<close>

definition place_weight :: "bbc_place \<Rightarrow> nat" where
  "place_weight p = (case p of Finished \<Rightarrow> 0 | Final \<Rightarrow> 1 | Loop \<Rightarrow> 2 | Counting \<Rightarrow> 3 | Joining \<Rightarrow> 4)"

definition fetch_weight :: "bbc_state \<Rightarrow> nat" where
  "fetch_weight s =
     5 * length (bs_todo s) + sum_list (map (\<lambda>(k, b). if b then 1 else 2) (bs_threads s)) + place_weight (bs_place s)"

lemma fetch_weight_step: "fetch_step details reqcount s s' \<Longrightarrow> fetch_weight s' < fetch_weight s"
  by (induction rule: fetch_step.induct) (simp_all add: fetch_weight_def place_weight_def)

text \<open>A thread that has emptied its slot and whose request for media is never answered.\<close>

definition hanging :: "(string \<Rightarrow> bbc_meta option res option) \<Rightarrow> string \<times> bool \<Rightarrow> bool" where
  "hanging details t \<longleftrightarrow> (case t of (k, begun) \<Rightarrow> begun \<and> details k = None)"

lemma thread_steps:
  assumes "t \<in> set (bs_threads s)" and "\<not> hanging details t"
  shows "\<exists>s'. fetch_step details reqcount s s'"
proof -
  obtain us vs where s: "bs_threads s = us @ t # vs" using assms(1) by (meson split_list)
  obtain k b where t: "t = (k, b)" by force
  show ?thesis
  proof (cases b)
    case True
    then obtain r where "details k = Some r" using assms(2) t by (auto simp: hanging_def)
    with thread_end [of s us k vs details] s t True show ?thesis by auto
  next
    case False
    with thread_begin [of s us k vs details] s t show ?thesis by auto
  qed
qed

lemma no_step_iff:
  "(\<nexists>s'. fetch_step details reqcount s s') \<longleftrightarrow>
     list_all (hanging details) (bs_threads s) \<and>
     (bs_place s = Finished \<or> bs_place s \<in> {Joining, Final} \<and> bs_threads s \<noteq> [])"
proof
  assume none: "\<nexists>s'. fetch_step details reqcount s s'"
  then have "list_all (hanging details) (bs_threads s)"
    using thread_steps unfolding list_all_iff by blast
  moreover have "bs_place s \<noteq> Loop" using none loop_thread loop_end by (cases "bs_todo s") blast+
  moreover have "bs_place s \<noteq> Counting" using none loop_count by blast
  moreover have "bs_threads s \<noteq> []" if "bs_place s \<in> {Joining, Final}"
    using that none loop_join [of s details reqcount] final_join [of s details reqcount] by auto
  ultimately show "list_all (hanging details) (bs_threads s) \<and>
      (bs_place s = Finished \<or> bs_place s \<in> {Joining, Final} \<and> bs_threads s \<noteq> [])"
    by (cases "bs_place s") auto
next
  assume r: "list_all (hanging details) (bs_threads s) \<and>
      (bs_place s = Finished \<or> bs_place s \<in> {Joining, Final} \<and> bs_threads s \<noteq> [])"
  show "\<nexists>s'. fetch_step details reqcount s s'"
  proof
    assume "\<exists>s'. fetch_step details reqcount s s'"
    then obtain s' where "fetch_step details reqcount s s'" ..
    then show False using r by cases (auto simp: hanging_def)
  qed
qed

text \<open>A thread that hangs stays, and the loop never finishes.\<close>

lemma hanging_stays:
  assumes "fetch_reaches details reqcount s s'" and "k \<in> fst ` set (bs_threads s)" and "details k = None"
  shows "k \<in> fst ` set (bs_threads s')"
  using assms
proof (induction rule: fetch_reaches.induct)
  case (step s s' s'')
  then have "k \<in> fst ` set (bs_threads s')" by blast
  with step.hyps(2) step.prems(2) show ?case by cases (auto simp: image_iff)
qed

lemma fetch_steps_bound:
  assumes "(fetch_step details reqcount ^^ n) (fetch_start keys) s"
  shows "n \<le> 5 * length keys + 2"
proof -
  have "(fetch_step details reqcount ^^ n) s0 s \<Longrightarrow> n + fetch_weight s \<le> fetch_weight s0" for s0
  proof (induction n arbitrary: s)
    case (Suc n)
    then obtain u where "(fetch_step details reqcount ^^ n) s0 u" "fetch_step details reqcount u s" by auto
    with Suc.IH [of u] fetch_weight_step [of details reqcount u s] show ?case by linarith
  qed simp
  then have "n \<le> fetch_weight (fetch_start keys)" using assms by (meson add_leD1)
  then show ?thesis by (simp add: fetch_weight_def fetch_start_def place_weight_def)
qed

lemma fetch_steps_reach: "(fetch_step details reqcount ^^ n) s s' \<Longrightarrow> fetch_reaches details reqcount s s'"
  by (induction n arbitrary: s') (auto intro: fetch_reaches.intros)

text \<open>C36. How the fetching ends. No schedule has more than five steps for each programme and two more. Where
  no step is possible, the loop has finished; or it waits for threads that are all waiting for media
  that is never sent, since that request has no timeout. Such a thread keeps the loop from finishing,
  on every schedule; and when the requests of all the programmes are answered or fail, the loop has
  finished wherever no step is possible.\<close>

theorem fetch_ends:
  assumes "distinct keys" and "(fetch_step details reqcount ^^ n) (fetch_start keys) s"
  shows "n \<le> 5 * length keys + 2 \<and>
    ((\<nexists>s'. fetch_step details reqcount s s') \<longleftrightarrow>
       bs_place s = Finished \<or>
       bs_place s \<in> {Joining, Final} \<and> bs_threads s \<noteq> [] \<and> list_all (hanging details) (bs_threads s)) \<and>
    (\<forall>s'. fetch_reaches details reqcount s s' \<and> (\<exists>(k, b) \<in> set (bs_threads s). details k = None) \<longrightarrow> bs_place s' \<noteq> Finished) \<and>
    ((\<forall>k \<in> set keys. details k \<noteq> None) \<and> (\<nexists>s'. fetch_step details reqcount s s') \<longrightarrow> bs_place s = Finished)"
proof -
  have r: "fetch_reaches details reqcount (fetch_start keys) s" by (rule fetch_steps_reach [OF assms(2)])
  have i: "fetch_inv details reqcount keys s" by (rule fetch_inv_reaches [OF r fetch_inv_start assms(1)])
  have stuck: "(\<nexists>s'. fetch_step details reqcount s s') \<longleftrightarrow>
       bs_place s = Finished \<or>
       bs_place s \<in> {Joining, Final} \<and> bs_threads s \<noteq> [] \<and> list_all (hanging details) (bs_threads s)"
    unfolding no_step_iff using fetch_invD(4) [OF i] by auto
  have never: "bs_place s' \<noteq> Finished"
    if s': "fetch_reaches details reqcount s s'" and k: "(k, b) \<in> set (bs_threads s)" "details k = None" for s' k b
  proof
    assume f: "bs_place s' = Finished"
    have "fetch_inv details reqcount keys s'" by (rule fetch_inv_reaches [OF s' i assms(1)])
    then have "bs_threads s' = []" using f by (rule fetch_invD(4))
    moreover have "k \<in> fst ` set (bs_threads s')" using k by (intro hanging_stays [OF s']) force+
    ultimately show False by simp
  qed
  have "bs_place s = Finished" if d: "\<forall>k \<in> set keys. details k \<noteq> None" and "\<nexists>s'. fetch_step details reqcount s s'"
  proof (rule ccontr)
    assume "bs_place s \<noteq> Finished"
    then have h: "bs_threads s \<noteq> []" "list_all (hanging details) (bs_threads s)" using stuck that(2) by blast+
    then obtain k b ts where "bs_threads s = (k, b) # ts" by (cases "bs_threads s") auto
    with h(2) have "details k = None" "k \<in> fst ` set (bs_threads s)" by (auto simp: hanging_def)
    moreover have "fst ` set (bs_threads s) \<subseteq> set keys" using fetch_invD(1) [OF i] by auto
    ultimately show False using d by blast
  qed
  with stuck never fetch_steps_bound [OF assms(2)] show ?thesis by blast
qed

lemma fetch_reaches_front:
  "fetch_reaches details reqcount s' s'' \<Longrightarrow> fetch_step details reqcount s s' \<Longrightarrow> fetch_reaches details reqcount s s''"
  by (induction rule: fetch_reaches.induct) (auto intro: fetch_reaches.intros)

text \<open>Without a hanging request there is always a schedule on which the loop finishes.\<close>

lemma fetch_finishes:
  assumes "\<And>k. details k \<noteq> None"
  shows "\<exists>s'. fetch_reaches details reqcount s s' \<and> bs_place s' = Finished"
proof (induction "fetch_weight s" arbitrary: s rule: less_induct)
  case less
  show ?case
  proof (cases "bs_place s = Finished")
    case True
    then show ?thesis using fetch_reaches.refl by blast
  next
    case False
    have "bs_threads s = []" if "list_all (hanging details) (bs_threads s)"
      using that assms by (cases "bs_threads s") (auto simp: hanging_def)
    then obtain s' where st: "fetch_step details reqcount s s'" using no_step_iff False by blast
    with less [OF fetch_weight_step] obtain u where "fetch_reaches details reqcount s' u" "bs_place u = Finished" by blast
    then show ?thesis using fetch_reaches_front st by blast
  qed
qed

text \<open>What the threads leave in the dictionary is one of these.\<close>

definition fetch_outcome :: "(string \<Rightarrow> bbc_meta option res option) \<Rightarrow> int \<Rightarrow> string list \<Rightarrow> (string \<times> bbc_meta option) list \<Rightarrow> bool" where
  "fetch_outcome details reqcount keys d \<longleftrightarrow>
     (\<exists>s. fetch_reaches details reqcount (fetch_start keys) s \<and> bs_place s = Finished \<and> d = bs_data s)"

lemma fetch_outcome_exists: "(\<And>k. details k \<noteq> None) \<Longrightarrow> \<exists>d. fetch_outcome details reqcount keys d"
  unfolding fetch_outcome_def using fetch_finishes by blast

lemma fetch_outcome_slots:
  "fetch_outcome details reqcount keys d \<Longrightarrow> distinct keys \<Longrightarrow> int (length keys) \<le> reqcount \<Longrightarrow>
   d = map (\<lambda>k. (k, fetched_slot details k)) keys"
  unfolding fetch_outcome_def using fetch_finished_slots by blast

section \<open>The number of threads\<close>

definition threads_inv :: "bbc_state \<Rightarrow> bool" where
  "threads_inv s \<longleftrightarrow>
     bs_nthreads s = 20 \<and> int (length (bs_threads s)) \<le> bs_thrcount s \<and>
     (if bs_place s = Joining then bs_thrcount s = 20 else bs_thrcount s < 20)"

lemma threads_inv_step:
  assumes "fetch_step details reqcount s s'" and "fetch_inv details reqcount keys s" and "threads_inv s"
    and "int (length keys) + 20 \<le> reqcount"
  shows "threads_inv s'"
proof -
  have "datacount (bs_data s) \<le> length keys" unfolding fetch_invD(3) [OF assms(2)] by (rule datacount_length)
  with assms(4) have dc: "20 \<le> reqcount - int (datacount (bs_data s))" by linarith
  from assms(1) show ?thesis
  proof cases
    case (loop_count dc)
    with \<open>20 \<le> _\<close> assms(3) show ?thesis by (simp add: threads_inv_def)
  qed (use assms(3) in \<open>auto simp: threads_inv_def split: if_splits\<close>)
qed

text \<open>At most 20 threads run at a time, as long as the programmes asked for are fewer than the limit by as many.\<close>

lemma threads_bounded:
  assumes "fetch_reaches details reqcount (fetch_start keys) s" and "distinct keys" and "int (length keys) + 20 \<le> reqcount"
  shows "length (bs_threads s) \<le> 20"
proof -
  have "fetch_reaches details reqcount s0 s \<Longrightarrow> fetch_inv details reqcount keys s0 \<Longrightarrow> threads_inv s0 \<Longrightarrow> threads_inv s" for s0
  proof (induction rule: fetch_reaches.induct)
    case (step s s' s'')
    then show ?case using threads_inv_step fetch_inv_reaches assms(2,3) by blast
  qed
  moreover have "threads_inv (fetch_start keys)" by (simp add: threads_inv_def fetch_start_def)
  ultimately have "threads_inv s" using assms(1) fetch_inv_start by blast
  then show ?thesis by (auto simp: threads_inv_def split: if_splits)
qed

section \<open>An example\<close>

definition demo_details :: "string \<Rightarrow> bbc_meta option res option" where
  "demo_details k =
     Some (if k = ''a'' then Inr (Some \<lparr>bm_url = ''u'', bm_encoding = ''audio/aac'', bm_bitrate = ''320'', bm_thumb = ''t''\<rparr>)
      else if k = ''b'' then Inl KeyError else Inr None)"

theorem fetch_schedule_independent_witness:
  "\<exists>s. fetch_reaches demo_details 1000 (fetch_start [''a'', ''b'', ''c'']) s \<and> bs_place s = Finished \<and>
     bs_data s = [(''a'', Some \<lparr>bm_url = ''u'', bm_encoding = ''audio/aac'', bm_bitrate = ''320'', bm_thumb = ''t''\<rparr>),
       (''b'', None), (''c'', None)]"
proof -
  have d: "distinct [''a'', ''b'', ''c'']" by simp
  obtain s where s: "fetch_reaches demo_details 1000 (fetch_start [''a'', ''b'', ''c'']) s" "bs_place s = Finished"
    using fetch_finishes [of demo_details] by (auto simp: demo_details_def)
  from fetch_schedule_independent [OF d s] s show ?thesis
    by (intro exI [of _ s]) (simp add: fetched_slot_def demo_details_def)
qed

text \<open>A programme whose media is never sent: its thread is started and begins, and the loop waits for it.\<close>

theorem fetch_ends_witness:
  "\<exists>s. (fetch_step (\<lambda>_. None) 1000 ^^ 4) (fetch_start [''a'']) s \<and> bs_place s = Final \<and>
     (\<nexists>s'. fetch_step (\<lambda>_. None) 1000 s s') \<and> (\<forall>s'. fetch_reaches (\<lambda>_. None) 1000 s s' \<longrightarrow> bs_place s' \<noteq> Finished)"
proof -
  let ?st = "fetch_step (\<lambda>_. None) 1000"
  define s1 where "s1 = (fetch_start [''a''])\<lparr>bs_todo := [], bs_threads := [(''a'', False)], bs_thrcount := 1, bs_place := Counting\<rparr>"
  define s2 where "s2 = s1\<lparr>bs_place := Loop\<rparr>"
  define s3 where "s3 = s2\<lparr>bs_place := Final\<rparr>"
  define s4 where "s4 = s3\<lparr>bs_threads := [(''a'', True)]\<rparr>"
  have 1: "?st (fetch_start [''a'']) s1"
    using loop_thread [of "fetch_start [''a'']" "''a''" "[]" "\<lambda>_. None" 1000] by (simp add: fetch_start_def s1_def)
  have 2: "?st s1 s2"
    using loop_count [of s1 0 "\<lambda>_. None" 1000] by (simp add: s2_def s1_def fetch_start_def datacount_def)
  have 3: "?st s2 s3" using loop_end [of s2 "\<lambda>_. None" 1000] by (simp add: s3_def s2_def s1_def)
  have 4: "?st s3 s4"
    using thread_begin [of s3 "[]" "''a''" "[]" "\<lambda>_. None" 1000] by (simp add: s4_def s3_def s2_def s1_def fetch_start_def)
  have r: "(?st ^^ 4) (fetch_start [''a'']) s4"
    using 1 2 3 4 by (auto simp: numeral_eq_Suc relcompp.simps)
  have s4: "bs_place s4 = Final" "bs_threads s4 = [(''a'', True)]" by (simp_all add: s4_def s3_def)
  have d: "distinct [''a'']" by simp
  note e = fetch_ends [OF d r]
  have "(\<nexists>s'. ?st s4 s')" using e s4 by (simp add: hanging_def)
  moreover have "\<forall>s'. fetch_reaches (\<lambda>_. None) 1000 s4 s' \<longrightarrow> bs_place s' \<noteq> Finished" using e s4 by simp
  ultimately show ?thesis using r s4(1) by (intro exI [of _ s4]) simp
qed

end
