(* ===== verification/Bbc.thy ===== *)
theory Bbc
  imports Service BbcFetch
begin

text \<open>
  The BBC plugin (\<open>bbc/bbc-app.py\<close>): stations, the days of a station, the programmes of a day, podcasts and
  their episodes. Web pages, feeds and their parsers are not in the repository and are parameters, and so is
  what the threads of \<open>BbcFetch\<close> leave for a list of programmes. The switch for slices is off in the code:
  whole listings are read.
\<close>

section \<open>Dates\<close>

record date =
  dt_year :: nat
  dt_month :: nat
  dt_day :: nat

definition is_leap :: "nat \<Rightarrow> bool" where
  "is_leap y \<longleftrightarrow> y mod 4 = 0 \<and> (y mod 100 \<noteq> 0 \<or> y mod 400 = 0)"

definition days_in_month :: "nat \<Rightarrow> nat \<Rightarrow> nat" where
  "days_in_month y m = (if m = 2 then (if is_leap y then 29 else 28) else if m \<in> {4, 6, 9, 11} then 30 else 31)"

definition days_before_year :: "nat \<Rightarrow> nat" where
  "days_before_year y = (y - 1) * 365 + (y - 1) div 4 - (y - 1) div 100 + (y - 1) div 400"

definition days_before_month :: "nat \<Rightarrow> nat \<Rightarrow> nat" where
  "days_before_month y m = sum_list (map (days_in_month y) [1..<m])"

text \<open>The number of a day, where the first day of the year 1 is 1; and the day before, which the first day has
  not.\<close>

definition toordinal :: "date \<Rightarrow> nat" where
  "toordinal d = days_before_year (dt_year d) + days_before_month (dt_year d) (dt_month d) + dt_day d"

definition prev_day :: "date \<Rightarrow> date res" where
  "prev_day d =
     (if 1 < dt_day d then Inr (d\<lparr>dt_day := dt_day d - 1\<rparr>)
      else if 1 < dt_month d then
        Inr (d\<lparr>dt_month := dt_month d - 1, dt_day := days_in_month (dt_year d) (dt_month d - 1)\<rparr>)
      else if 1 < dt_year d then Inr \<lparr>dt_year = dt_year d - 1, dt_month = 12, dt_day = 31\<rparr>
      else Inl (Raised ''OverflowError''))"

fun minus_days :: "date \<Rightarrow> nat \<Rightarrow> date res" where
  "minus_days d 0 = Inr d"
| "minus_days d (Suc n) = bindR (minus_days d n) prev_day"

definition weekday :: "date \<Rightarrow> nat" where
  "weekday d = (toordinal d + 6) mod 7"

definition zero_pad :: "nat \<Rightarrow> string \<Rightarrow> string" where
  "zero_pad n s = replicate (n - length s) (CHR ''0'') @ s"

text \<open>\<open>strftime('%a, %-d %b')\<close>\<close>

definition day_title :: "date \<Rightarrow> string" where
  "day_title d =
     [''Mon'', ''Tue'', ''Wed'', ''Thu'', ''Fri'', ''Sat'', ''Sun''] ! weekday d @ '', '' @ str_nat (dt_day d) @ '' '' @
     [''Jan'', ''Feb'', ''Mar'', ''Apr'', ''May'', ''Jun'', ''Jul'', ''Aug'', ''Sep'', ''Oct'', ''Nov'', ''Dec''] ! (dt_month d - 1)"

section \<open>Stations\<close>

definition stations :: "(string \<times> string \<times> string) list" where
  "stations =
     [(''p00fzl68'', ''BBC Asian Network'', ''bbc_asian_network_colour''),
      (''p00fzl78'', ''BBC Coventry & Warwickshire'', ''bbc_radio_coventry_warwickshire_colour''),
      (''p00fzl7f'', ''BBC Essex'', ''bbc_radio_essex_colour''),
      (''p00fzl7q'', ''BBC Hereford & Worcester'', ''bbc_radio_hereford_worcester_colour''),
      (''p00fzl82'', ''BBC Newcastle'', ''bbc_radio_newcastle_colour''),
      (''p00fzl86'', ''BBC Radio 1'', ''bbc_radio_one_colour''),
      (''p00fzl64'', ''BBC Radio 1Xtra'', ''bbc_1xtra_colour''),
      (''p00fzl8v'', ''BBC Radio 2'', ''bbc_radio_two_colour''),
      (''p00fzl8t'', ''BBC Radio 3'', ''bbc_radio_three_colour''),
      (''p00fzl7j'', ''BBC Radio 4 FM'', ''bbc_radio_fourfm_colour''),
      (''p00fzl7k'', ''BBC Radio 4 LW'', ''bbc_radio_four_colour''),
      (''p00fzl7l'', ''BBC Radio 4 Extra'', ''bbc_radio_four_extra_colour''),
      (''p00fzl7g'', ''BBC Radio 5 live'', ''bbc_radio_five_live_colour''),
      (''p00fzl7h'', ''BBC Radio 5 live sports extra'', ''bbc_radio_five_live_sports_extra_colour''),
      (''p00fzl65'', ''BBC Radio 6 Music'', ''bbc_6music_colour''),
      (''p00fzl74'', ''BBC Radio Berkshire'', ''bbc_radio_berkshire_colour''),
      (''p00fzl75'', ''BBC Radio Bristol'', ''bbc_radio_bristol_colour''),
      (''p00fzl76'', ''BBC Radio Cambridgeshire'', ''bbc_radio_cambridge_colour''),
      (''p00fzl77'', ''BBC Radio Cornwall'', ''bbc_radio_cornwall_colour''),
      (''p00fzl79'', ''BBC Radio Cumbria'', ''bbc_radio_cumbria_colour''),
      (''p00fzl7b'', ''BBC Radio Cymru'', ''bbc_radio_cymru_colour''),
      (''p00fzl7c'', ''BBC Radio Derby'', ''bbc_radio_derby_colour''),
      (''p00fzl7d'', ''BBC Radio Devon'', ''bbc_radio_devon_colour''),
      (''p00fzl7m'', ''BBC Radio Foyle'', ''bbc_radio_foyle_colour''),
      (''p00fzl7n'', ''BBC Radio Gloucestershire'', ''bbc_radio_gloucestershire_colour''),
      (''p00fzl7p'', ''BBC Radio Guernsey'', ''bbc_radio_guernsey_colour''),
      (''p00fzl7r'', ''BBC Radio Humberside'', ''bbc_radio_humberside_colour''),
      (''p00fzl7s'', ''BBC Radio Jersey'', ''bbc_radio_jersey_colour''),
      (''p00fzl7t'', ''BBC Radio Kent'', ''bbc_radio_kent_colour''),
      (''p00fzl7v'', ''BBC Radio Lancashire'', ''bbc_radio_lancashire_colour''),
      (''p00fzl7w'', ''BBC Radio Leeds'', ''bbc_radio_leeds_colour''),
      (''p00fzl7x'', ''BBC Radio Leicester'', ''bbc_radio_leicester_colour''),
      (''p00fzl7y'', ''BBC Radio Lincolnshire'', ''bbc_radio_lincolnshire_colour''),
      (''p00fzl6f'', ''BBC Radio London'', ''bbc_london_colour''),
      (''p00fzl7z'', ''BBC Radio Manchester'', ''bbc_radio_manchester_colour''),
      (''p00fzl80'', ''BBC Radio Merseyside'', ''bbc_radio_merseyside_colour''),
      (''p00fzl81'', ''BBC Radio Nan Gaidheal'', ''bbc_radio_nan_gaidheal_colour''),
      (''p00fzl83'', ''BBC Radio Norfolk'', ''bbc_radio_norfolk_colour''),
      (''p00fzl84'', ''BBC Radio Northampton'', ''bbc_radio_northampton_colour''),
      (''p00fzl85'', ''BBC Radio Nottingham'', ''bbc_radio_nottingham_colour''),
      (''p00fzl8c'', ''BBC Radio Oxford'', ''bbc_radio_oxford_colour''),
      (''p00fzl8d'', ''BBC Radio Scotland (FM)'', ''bbc_radio_scotland_fm_colour''),
      (''p00fzl8g'', ''BBC Radio Scotland (MW)'', ''bbc_radio_scotland_colour''),
      (''p00fzl8b'', ''BBC Radio Scotland (Orkney)'', ''bbc_radio_scotland_colour''),
      (''p00fzl8j'', ''BBC Radio Scotland (Shetland)'', ''bbc_radio_scotland_colour''),
      (''p00fzl8h'', ''BBC Radio Sheffield'', ''bbc_radio_sheffield_colour''),
      (''p00fzl8k'', ''BBC Radio Shropshire'', ''bbc_radio_shropshire_colour''),
      (''p00fzl8l'', ''BBC Radio Solent'', ''bbc_radio_solent_colour''),
      (''p00fzl8n'', ''BBC Radio Stoke'', ''bbc_radio_stoke_colour''),
      (''p00fzl8p'', ''BBC Radio Suffolk'', ''bbc_radio_suffolk_colour''),
      (''p00fzl8w'', ''BBC Radio Ulster'', ''bbc_radio_ulster_colour''),
      (''p00fzl8y'', ''BBC Radio Wales (FM)'', ''bbc_radio_wales_fm_colour''),
      (''p00fzl8x'', ''BBC Radio Wales (LW)'', ''bbc_radio_wales_colour''),
      (''p00fzl90'', ''BBC Radio York'', ''bbc_radio_york_colour''),
      (''p00fzl8m'', ''BBC Somerset'', ''bbc_radio_somerset_sound_colour''),
      (''p00fzl8q'', ''BBC Surrey'', ''bbc_radio_surrey_colour''),
      (''p00fzl8r'', ''BBC Sussex'', ''bbc_radio_sussex_colour''),
      (''p00fzl93'', ''BBC Tees'', ''bbc_tees_colour''),
      (''p00fzl96'', ''BBC Three Counties Radio'', ''bbc_three_counties_radio_colour''),
      (''p00fzl8z'', ''BBC Wiltshire'', ''bbc_radio_wiltshire_colour''),
      (''p00fzl9f'', ''BBC WM 95.6'', ''bbc_wm_colour''),
      (''p02zbmb3'', ''BBC World Service'', ''bbc_world_service_colour''),
      (''p02jf21y'', ''CBeebies Radio'', ''cbeebies_radio_colour'')]"

section \<open>Initialisation\<close>

text \<open>The state: whether it was done, and the number of days to show.\<close>

record bbc_app =
  ba_initok :: bool
  ba_fetchdays :: int

definition bbc_app_start :: bbc_app where
  "bbc_app_start = \<lparr>ba_initok = False, ba_fetchdays = 30\<rparr>"

definition maybeinit :: "conf \<Rightarrow> (string \<rightharpoonup> string) \<Rightarrow> bbc_app \<Rightarrow> bbc_app \<times> unit res" where
  "maybeinit upconfig environ app =
     (if ba_initok app then (app, Inr ())
      else if environ ''UPMPD_HTTPHOSTPORT'' = None then (app, Inl (Raised ''No UPMPD_HTTPHOSTPORT in environment''))
      else if environ ''UPMPD_PATHPREFIX'' = None then (app, Inl (Raised ''No UPMPD_PATHPREFIX in environment''))
      else if environ ''UPMPD_CONFIG'' = None then (app, Inl (Raised ''No UPMPD_CONFIG in environment''))
      else case bindR (getOptionValue upconfig environ ''bbcprogrammedays'' None) (\<lambda>val.
                  if truthy val then py_int (the val) else Inr (ba_fetchdays app)) of
             Inl e \<Rightarrow> (app, Inl e)
           | Inr days \<Rightarrow> (\<lparr>ba_initok = True, ba_fetchdays = days\<rparr>, Inr ()))"

section \<open>Views\<close>

definition bbcidprefix :: string where
  "bbcidprefix = ''0$bbc$''"

definition bbc_routes :: "(string \<times> string) list" where
  "bbc_routes =
     [(''root'', ''/''), (''root_stations'', ''/root_stations''), (''station_view'', ''/station/<station_id>''),
      (''station_date_view'', ''/station/<station_id>/<year>/<month>/<day>''), (''root_podcasts'', ''/root_podcasts''),
      (''podcast_view'', ''/podcast/<podcast_id>'')]"

definition bbc_plugin :: route_plugin where
  "bbc_plugin = the_plugin bbc_routes"

definition bbc_xp :: "string \<Rightarrow> xbmc_plugin" where
  "bbc_xp objid = \<lparr>xp_idprefix = bbcidprefix, xp_routeplug = Some bbc_plugin, xp_objid = objid\<rparr>"

text \<open>An entry of a feed; an attribute that is not there raises.\<close>

record feed_entry =
  fe_ppg_canonical :: "string option"
  fe_link :: "string option"
  fe_date :: "string option"
  fe_title :: "string option"

record bbc_feed =
  fd_image_url :: "string option"
  fd_entries :: "feed_entry list"

record bbc_world =
  bw_hasfeedparser :: bool
  bw_today :: date
  bw_scripts :: "string \<Rightarrow> string list res"
  bw_loads :: "string \<Rightarrow> json res"
  bw_time :: "string \<Rightarrow> string res"
  bw_podcasts :: "json res"
  bw_feed :: "string \<Rightarrow> bbc_feed res"
  bw_fetch :: "string list \<Rightarrow> (string \<times> bbc_meta option) list"

definition root :: "bbc_world \<Rightarrow> xbmc_plugin \<Rightarrow> entry list res" where
  "root w xp =
     mapR (\<lambda>(t, f). add_view xp t f)
       ((''Stations'', ''root_stations'') # (if bw_hasfeedparser w then [(''Podcasts'', ''root_podcasts'')] else []))"

definition root_stations :: "xbmc_plugin \<Rightarrow> entry list res" where
  "root_stations xp =
     xp_items xp ''station_view'' (map (\<lambda>(i, nm, _). playlist_item (playlist_defaults i nm)) stations)"

text \<open>The directories of the last days: title, view, keywords and values.\<close>

definition station_day :: "string \<Rightarrow> date \<Rightarrow> string \<times> string \<times> string list \<times> string list" where
  "station_day station_id d =
     (day_title d, ''station_date_view'', [''station_id'', ''year'', ''month'', ''day''],
      [station_id, zero_pad 4 (str_nat (dt_year d)), zero_pad 2 (str_nat (dt_month d)), zero_pad 2 (str_nat (dt_day d))])"

definition station_view :: "bbc_world \<Rightarrow> int \<Rightarrow> xbmc_plugin \<Rightarrow> string \<Rightarrow> entry list res" where
  "station_view w fetchdays xp station_id =
     bindR (mapR (minus_days (bw_today w)) [0..<nat fetchdays]) (\<lambda>days.
       mapR (\<lambda>(t, f, ks, args). add_url xp bbc_plugin t f [] (zip ks args)) (map (station_day station_id) days))"

section \<open>Programmes\<close>

text \<open>The keys of the dictionary, in the order of their insertion.\<close>

definition dict_keys :: "string list \<Rightarrow> string list" where
  "dict_keys ks = map fst (fold (\<lambda>k. AList.update k ()) ks [])"

text \<open>The tracks of what has data, numbered, until there are as many as asked for.\<close>

fun listed_tracks :: "nat \<Rightarrow> (nat \<Rightarrow> 'e \<Rightarrow> entry option res) \<Rightarrow> nat \<Rightarrow> 'e list \<Rightarrow> entry list res" where
  "listed_tracks reqcount track n [] = Inr []"
| "listed_tracks reqcount track n (x # xs) =
     bindR (track n x) (\<lambda>t.
       case t of
         None \<Rightarrow> listed_tracks reqcount track n xs
       | Some e \<Rightarrow> if reqcount \<le> n then Inr [e] else bindR (listed_tracks reqcount track (n + 1) xs) (\<lambda>es. Inr (e # es)))"

definition bbc_track :: "string \<Rightarrow> string \<Rightarrow> nat \<Rightarrow> string \<Rightarrow> string \<Rightarrow> bbc_meta \<Rightarrow> entry" where
  "bbc_track objid progid trackno title art m =
     [''pid'' \<mapsto> objid, ''id'' \<mapsto> objid @ ''$'' @ progid, ''tt'' \<mapsto> title, ''dc:title'' \<mapsto> title, ''uri'' \<mapsto> bm_url m,
      ''tp'' \<mapsto> ''it'', ''upnp:albumArtURI'' \<mapsto> art, ''upnp:originalTrackNumber'' \<mapsto> str_nat trackno,
      ''duration'' \<mapsto> ''0'', ''upnp:class'' \<mapsto> ''object.item.audioItem.musicTrack'', ''res:mime'' \<mapsto> bm_encoding m,
      ''res:samplefreq'' \<mapsto> ''48000'', ''res:bitrate'' \<mapsto> bm_bitrate m]"

text \<open>The last of the scripts of the page that tell of episodes; all of those are read.\<close>

definition schedule_graph :: "bbc_world \<Rightarrow> string \<Rightarrow> json option res" where
  "schedule_graph w url =
     bindR (bw_scripts w url) (\<lambda>scripts.
       foldR (\<lambda>text _. bindR (bw_loads w text) (\<lambda>js. Inr (Some js)))
         (filter (\<lambda>text. contains text ''RadioEpisode'') scripts) None)"

definition episode_id :: "json \<Rightarrow> string res" where
  "episode_id episode = bindR (jt_get episode ''identifier'') jt_text"

definition episode_title :: "bbc_world \<Rightarrow> json \<Rightarrow> string res" where
  "episode_title w episode =
     bindR (bindR (jt_path episode [''publication'', ''startDate'']) jt_text) (\<lambda>start.
     bindR (bw_time w start) (\<lambda>time.
     bindR (jt_in ''partOfSeries'' episode) (\<lambda>b.
     bindR (if b then bindR (bindR (jt_path episode [''partOfSeries'', ''name'']) jt_text) (\<lambda>nm. Inr (nm @ '' - '')) else Inr []) (\<lambda>series.
     bindR (bindR (jt_get episode ''name'') jt_text) (\<lambda>nm. Inr (time @ '': '' @ series @ nm))))))"

definition episode_track :: "bbc_world \<Rightarrow> string \<Rightarrow> (string \<times> bbc_meta option) list \<Rightarrow> nat \<Rightarrow> json \<Rightarrow> entry option res" where
  "episode_track w objid data n episode =
     bindR (episode_id episode) (\<lambda>progid.
       case map_of data progid of
         Some (Some m) \<Rightarrow> bindR (episode_title w episode) (\<lambda>title. Inr (Some (bbc_track objid progid n title (bm_thumb m) m)))
       | _ \<Rightarrow> Inr None)"

definition schedule_url :: "string \<Rightarrow> string \<Rightarrow> string \<Rightarrow> string \<Rightarrow> string" where
  "schedule_url station_id year month day =
     ''https://www.bbc.co.uk/schedules/'' @ station_id @ ''/'' @ year @ ''/'' @ month @ ''/'' @ day"

definition station_date_view :: "bbc_world \<Rightarrow> xbmc_plugin \<Rightarrow> string \<Rightarrow> string \<Rightarrow> string \<Rightarrow> string \<Rightarrow> entry list res" where
  "station_date_view w xp station_id year month day =
     bindR (schedule_graph w (schedule_url station_id year month day)) (\<lambda>result.
       case result of
         None \<Rightarrow> Inr []
       | Some js \<Rightarrow>
           bindR (bindR (jt_get js ''@graph'') jt_iter) (\<lambda>episodes.
           bindR (mapR episode_id episodes) (\<lambda>progids.
             listed_tracks 1000 (episode_track w (xp_objid xp) (bw_fetch w (dict_keys progids))) 1 episodes)))"

section \<open>Podcasts\<close>

definition podcast_dir :: "xbmc_plugin \<Rightarrow> json \<Rightarrow> entry list res" where
  "podcast_dir xp podcast =
     bindR (jt_in ''imageUrl'' podcast) (\<lambda>b.
       if \<not> b then Inr []
       else bindR (bindR (jt_get podcast ''imageUrl'') jt_text) (\<lambda>img.
            bindR (bindR (jt_get podcast ''title'') jt_text) (\<lambda>title.
            bindR (bindR (jt_get podcast ''shortTitle'') jt_text) (\<lambda>i.
            bindR (url_for bbc_plugin ''podcast_view'' [] [(''podcast_id'', i)]) (\<lambda>url.
              Inr [direntry (xp_idprefix xp @ url) (xp_objid xp) title (Some (replace_str ''{recipe}'' ''624x624'' img))
                     None None ''1'' None None])))))"

definition root_podcasts :: "bbc_world \<Rightarrow> xbmc_plugin \<Rightarrow> entry list res" where
  "root_podcasts w xp =
     bindR (bindR (bindR (bw_podcasts w) (\<lambda>js. jt_get js ''podcasts'')) jt_iter) (\<lambda>podcasts.
     bindR (mapR (\<lambda>p. bindR (bindR (jt_get p ''title'') jt_text) (\<lambda>t. Inr (t, p))) podcasts) (\<lambda>titled.
       concatR (map (\<lambda>tp. podcast_dir xp (snd tp)) (sort_key fst titled))))"

definition attr :: "string option \<Rightarrow> string res" where
  "attr a = (case a of Some s \<Rightarrow> Inr s | None \<Rightarrow> Inl AttributeError)"

text \<open>The programme of an entry is the third part of its canonical path; without one it is left out, and the
  link is logged.\<close>

definition podcast_pid :: "feed_entry \<Rightarrow> string option res" where
  "podcast_pid entry =
     bindR (attr (fe_ppg_canonical entry)) (\<lambda>canonical.
       let entry_pid = split_on (CHR ''/'') canonical in
       Inr (if length entry_pid \<le> 2 then None else Some (entry_pid ! 2)))"

definition podcast_key :: "feed_entry \<Rightarrow> string list res" where
  "podcast_key entry =
     bindR (podcast_pid entry) (\<lambda>p.
       case p of Some progid \<Rightarrow> Inr [progid] | None \<Rightarrow> bindR (attr (fe_link entry)) (\<lambda>_. Inr []))"

definition podcast_track ::
  "string \<Rightarrow> string \<Rightarrow> (string \<times> bbc_meta option) list \<Rightarrow> nat \<Rightarrow> feed_entry \<Rightarrow> entry option res" where
  "podcast_track objid image_url data n entry =
     bindR (podcast_pid entry) (\<lambda>p.
       case p of
         None \<Rightarrow> Inr None
       | Some progid \<Rightarrow>
           (case map_of data progid of
              Some (Some m) \<Rightarrow>
                bindR (attr (fe_date entry)) (\<lambda>entry_date.
                bindR (attr (fe_title entry)) (\<lambda>title.
                  Inr (Some (bbc_track objid progid n (entry_date @ '': '' @ title) image_url m))))
            | _ \<Rightarrow> Inr None))"

definition podcast_view :: "bbc_world \<Rightarrow> xbmc_plugin \<Rightarrow> string \<Rightarrow> entry list res" where
  "podcast_view w xp podcast_id =
     bindR (bw_feed w (''https://podcasts.files.bbci.co.uk/'' @ podcast_id @ ''.rss'')) (\<lambda>podcast.
     bindR (mapR podcast_key (fd_entries podcast)) (\<lambda>keys.
       let image_url = (case fd_image_url podcast of Some u \<Rightarrow> u | None \<Rightarrow> []) in
       listed_tracks 1000 (podcast_track (xp_objid xp) image_url (bw_fetch w (dict_keys (concat keys)))) 1
         (fd_entries podcast)))"

section \<open>Requests\<close>

definition bbc_view :: "bbc_world \<Rightarrow> int \<Rightarrow> xbmc_plugin \<Rightarrow> string \<Rightarrow> (string \<times> string) list \<Rightarrow> entry list res" where
  "bbc_view w fetchdays xp f kw =
     (if f = ''root'' then root w xp
      else if f = ''root_stations'' then root_stations xp
      else if f = ''station_view'' then bindR (kw_arg kw ''station_id'') (station_view w fetchdays xp)
      else if f = ''station_date_view'' then
        bindR (kw_arg kw ''station_id'') (\<lambda>station_id. bindR (kw_arg kw ''year'') (\<lambda>year.
        bindR (kw_arg kw ''month'') (\<lambda>month. bindR (kw_arg kw ''day'') (\<lambda>day.
          station_date_view w xp station_id year month day))))
      else if f = ''root_podcasts'' then root_podcasts w xp
      else if f = ''podcast_view'' then bindR (kw_arg kw ''podcast_id'') (podcast_view w xp)
      else Inl KeyError)"

definition bbc_views :: "bbc_world \<times> int \<Rightarrow> string \<Rightarrow> string \<Rightarrow> (string \<times> string) list \<Rightarrow> entry list res option" where
  "bbc_views = (\<lambda>(w, fetchdays) objid f kw. Some (bbc_view w fetchdays (bbc_xp objid) f kw))"

text \<open>Metadata requests are not told apart.\<close>

definition bbc_browse ::
  "bbc_world \<Rightarrow> conf \<Rightarrow> (string \<rightharpoonup> string) \<Rightarrow> bbc_app \<Rightarrow> (string \<rightharpoonup> string) \<Rightarrow> bbc_app \<times> entry list res" where
  "bbc_browse w upconfig environ app a =
     (case a ''objid'' of
        None \<Rightarrow> (app, Inl (Raised ''No objid in args''))
      | Some objid \<Rightarrow>
          if \<not> startswith objid bbcidprefix then (app, Inl (Raised ''bad objid''))
          else
            case maybeinit upconfig environ app of
              (app', Inl e) \<Rightarrow> (app', Inl e)
            | (app', Inr _) \<Rightarrow>
                (app',
                 bindR (case a ''offset'' of Some v \<Rightarrow> py_int v | None \<Rightarrow> Inr 0) (\<lambda>_.
                 bindR (case a ''count'' of Some v \<Rightarrow> py_int v | None \<Rightarrow> Inr 0) (\<lambda>_.
                 bindR (route_run bbc_plugin (replace_first bbcidprefix [] objid)) (\<lambda>(f, kw).
                   bbc_view w (ba_fetchdays app') (bbc_xp objid) f kw)))))"

definition bbc_search :: "(string \<rightharpoonup> string) \<Rightarrow> entry list res" where
  "bbc_search a = Inr []"

section \<open>The days of a station\<close>

definition valid_date :: "date \<Rightarrow> bool" where
  "valid_date d \<longleftrightarrow>
     1 \<le> dt_year d \<and> 1 \<le> dt_month d \<and> dt_month d \<le> 12 \<and> 1 \<le> dt_day d \<and>
     dt_day d \<le> days_in_month (dt_year d) (dt_month d)"

lemma days_in_month_pos: "28 \<le> days_in_month y m"
  by (simp add: days_in_month_def)

lemma days_before_month_Suc: "1 \<le> m \<Longrightarrow> days_before_month y (Suc m) = days_before_month y m + days_in_month y m"
  by (simp add: days_before_month_def)

lemma days_of_year: "days_before_month y 12 + 31 = (if is_leap y then 366 else 365)"
proof -
  have "[1..<12] = [1, 2, 3, 4, 5, 6, 7, 8, 9, 10, 11 :: nat]" by (simp add: upt_rec)
  then show ?thesis by (simp add: days_before_month_def days_in_month_def)
qed

lemma div_Suc_step: "Suc n div k = n div k + (if Suc n mod k = 0 then 1 else (0 :: nat))"
  by (simp add: div_Suc)

lemma leap_cases:
  "(c \<Longrightarrow> b) \<Longrightarrow> (b \<Longrightarrow> a) \<Longrightarrow> y \<le> x \<Longrightarrow>
   x + (if a then 1 else 0) - (y + (if b then 1 else 0)) + (z + (if c then 1 else 0)) =
   x - y + z + (if a \<and> (\<not> b \<or> c) then 1 else (0 :: nat))"
  by (cases a; cases b; cases c) auto

lemma leap_days:
  "Suc n div 4 - Suc n div 100 + Suc n div 400 = n div 4 - n div 100 + n div 400 + (if is_leap (Suc n) then 1 else (0 :: nat))"
proof -
  have "Suc n mod 400 = 0 \<Longrightarrow> Suc n mod 100 = 0" "Suc n mod 100 = 0 \<Longrightarrow> Suc n mod 4 = 0"
    using dvd_trans [of 100 400 "Suc n"] dvd_trans [of 4 100 "Suc n"] by (simp_all add: mod_eq_0_iff_dvd)
  moreover have "n div 100 \<le> n div 4" by (intro div_le_mono2) simp_all
  ultimately show ?thesis
    unfolding div_Suc_step [of n 4] div_Suc_step [of n 100] div_Suc_step [of n 400] is_leap_def by (rule leap_cases)
qed

lemma days_before_year_Suc:
  "1 \<le> y \<Longrightarrow> days_before_year (Suc y) = days_before_year y + (if is_leap y then 366 else 365)"
proof -
  assume "1 \<le> y"
  then obtain n where y: "y = Suc n" by (cases y) simp_all
  have "n div 100 \<le> n div 4" "Suc n div 100 \<le> Suc n div 4" by (intro div_le_mono2; simp)+
  moreover have "b \<le> a \<Longrightarrow> b' \<le> a' \<Longrightarrow> a' - b' + c' = a - b + c + (if l then 1 else 0) \<Longrightarrow>
      (k + 1) * 365 + a' - b' + c' = k * 365 + a - b + c + (if l then 366 else 365)" for a b c a' b' c' k :: nat and l
    by (cases l) simp_all
  ultimately show ?thesis using leap_days [of n] unfolding days_before_year_def y by simp
qed

text \<open>The day before is the day before: a date again, with the number before.\<close>

lemma prev_day_ordinal:
  assumes "valid_date d" and "prev_day d = Inr d'"
  shows "valid_date d' \<and> toordinal d' + 1 = toordinal d"
proof (cases "1 < dt_day d")
  case True
  with assms show ?thesis by (auto simp: prev_day_def valid_date_def toordinal_def)
next
  case d1: False
  then have day: "dt_day d = 1" using assms(1) by (simp add: valid_date_def)
  show ?thesis
  proof (cases "1 < dt_month d")
    case True
    then obtain m where m: "dt_month d = Suc m" "1 \<le> m" by (cases "dt_month d") auto
    then have d': "d' = d\<lparr>dt_month := m, dt_day := days_in_month (dt_year d) m\<rparr>"
      using assms(2) d1 by (simp add: prev_day_def)
    show ?thesis
      using assms(1) m day days_before_month_Suc [OF m(2)] days_in_month_pos [of "dt_year d" m]
      by (simp add: d' valid_date_def toordinal_def)
  next
    case False
    then have month: "dt_month d = 1" using assms(1) by (simp add: valid_date_def)
    then obtain y where y: "dt_year d = Suc y" "1 \<le> y" "d' = \<lparr>dt_year = y, dt_month = 12, dt_day = 31\<rparr>"
      using assms d1 by (cases "dt_year d") (auto simp: prev_day_def valid_date_def split: if_splits)
    have "days_before_month (Suc y) 1 = 0" by (simp add: days_before_month_def)
    then show ?thesis
      using y day month days_before_year_Suc [OF y(2)] days_of_year [of y]
      by (simp add: valid_date_def toordinal_def days_in_month_def split: if_splits)
  qed
qed

lemma minus_days_ordinal:
  "valid_date d \<Longrightarrow> minus_days d n = Inr d' \<Longrightarrow> valid_date d' \<and> toordinal d' + n = toordinal d"
proof (induction n arbitrary: d')
  case (Suc n)
  then obtain e where "minus_days d n = Inr e" "prev_day e = Inr d'" by (auto simp: bindR_eq_Inr)
  with Suc.IH [of e] Suc.prems(1) prev_day_ordinal [of e d'] show ?case by auto
qed simp

lemma prev_day_total: "valid_date d \<Longrightarrow> 1 < toordinal d \<Longrightarrow> \<exists>d'. prev_day d = Inr d'"
  by (auto simp: prev_day_def valid_date_def toordinal_def days_before_year_def days_before_month_def)

lemma minus_days_total: "valid_date d \<Longrightarrow> n < toordinal d \<Longrightarrow> \<exists>d'. minus_days d n = Inr d'"
proof (induction n)
  case (Suc n)
  then obtain e where e: "minus_days d n = Inr e" by auto
  with minus_days_ordinal Suc.prems have "valid_date e" "1 < toordinal e" by fastforce+
  with prev_day_total e show ?case by auto
qed simp

end
