(* ===== verification/BbcViews.thy ===== *)
theory BbcViews
  imports Bbc
begin

text \<open>
  What the views of the BBC plugin list: the last days of a station, the programmes of a day, whatever the
  schedule of the threads that fetched them, and that every directory leads on, as an interpretation of
  \<open>routed_service\<close>.
\<close>

section \<open>The routes\<close>

lemma bbc_routes_ok: "routes_ok bbc_plugin"
  by code_simp

lemma bbc_keys:
  "map (view_keys bbc_plugin) [''root_stations'', ''station_view'', ''station_date_view'', ''root_podcasts'', ''podcast_view''] =
   map Some [[], [''station_id''], [''station_id'', ''year'', ''month'', ''day''], [], [''podcast_id'']]"
  by code_simp

lemmas bbc_table [simp] = bbc_keys [simplified]

lemma bbc_routed [simp]: "routed bbc_plugin bbcidprefix (bbc_xp objid)"
  by (simp add: routed_def bbc_xp_def bbc_routes_ok)

lemma bbc_xp_simps [simp]: "xp_idprefix (bbc_xp objid) = bbcidprefix" "xp_objid (bbc_xp objid) = objid"
  by (simp_all add: bbc_xp_def)

text \<open>A directory of a view with good arguments, which are given by name, and the request for it.\<close>

lemma named_url_dispatched:
  assumes "view_keys bbc_plugin f = Some ks" and "list_all good_arg args" and "length args = length ks"
    and "add_url (bbc_xp objid) bbc_plugin t f [] (zip ks args) = r"
  shows "\<exists>e. r = Inr e \<and> e ''tt'' = Some t \<and> dispatched_to bbc_plugin bbcidprefix e f (zip ks args)"
proof -
  obtain rule where rule: "map_of (rp_rules bbc_plugin) f = Some [rule]" "ur_keywords rule = ks"
    using assms(1) by (auto simp: view_keys_Some)
  from routes_run_url [OF bbc_routes_ok rule(1) assms(2)] rule(2) assms(3)
  obtain url where url: "url_for bbc_plugin f [] (zip ks args) = Inr url" "route_run bbc_plugin url = Inr (f, zip ks args)"
    by auto
  then have "r = Inr (xp_entry (bbc_xp objid) t url)" using assms(4) by (simp add: add_url_def)
  moreover have "dispatched_to bbc_plugin bbcidprefix (xp_entry (bbc_xp objid) t url) f (zip ks args)"
    using url(2) by (simp add: dispatched_to_def xp_entry_id)
  ultimately show ?thesis by (simp add: xp_entry_def)
qed

lemma good_digits: "s \<noteq> [] \<Longrightarrow> (\<And>c. c \<in> set s \<Longrightarrow> is_digit c) \<Longrightarrow> good_arg s"
  by (fastforce simp: good_arg_def url_plain_def is_digit_def list_all_iff)

lemma good_padded: "good_arg (zero_pad n (str_nat k))"
  using str_nat_digits by (intro good_digits) (auto simp: zero_pad_def is_digit_def split: if_splits)

section \<open>The days of a station\<close>

text \<open>The view of a station lists one directory for each of the last days that are to be shown, today first,
  and opening the one of a day asks for the schedule of that station and day.\<close>

theorem station_days_listed:
  assumes "valid_date (bw_today w)" and "nat fetchdays \<le> toordinal (bw_today w)" and "good_arg station_id"
  shows "\<exists>es. station_view w fetchdays (bbc_xp objid) station_id = Inr es \<and> length es = nat fetchdays \<and>
    (\<forall>i < nat fetchdays. \<exists>d. valid_date d \<and> toordinal d + i = toordinal (bw_today w) \<and>
       (es ! i) ''tt'' = Some (day_title d) \<and>
       dispatched_to bbc_plugin bbcidprefix (es ! i) ''station_date_view''
         [(''station_id'', station_id), (''year'', zero_pad 4 (str_nat (dt_year d))),
          (''month'', zero_pad 2 (str_nat (dt_month d))), (''day'', zero_pad 2 (str_nat (dt_day d)))])"
proof -
  define day where "day i = (case minus_days (bw_today w) i of Inr d \<Rightarrow> d | Inl _ \<Rightarrow> bw_today w)" for i
  have day: "minus_days (bw_today w) i = Inr (day i)" if "i < nat fetchdays" for i
    using minus_days_total [OF assms(1), of i] that assms(2) by (auto simp: day_def)
  have days: "mapR (minus_days (bw_today w)) [0..<nat fetchdays] = Inr (map day [0..<nat fetchdays])"
    by (rule mapR_total) (simp add: day)
  define dir where "dir i = (case station_day station_id (day i) of (t, f, ks, args) \<Rightarrow>
    case add_url (bbc_xp objid) bbc_plugin t f [] (zip ks args) of Inr e \<Rightarrow> e | Inl _ \<Rightarrow> (\<lambda>_. None))" for i
  have dir: "add_url (bbc_xp objid) bbc_plugin (day_title (day i)) ''station_date_view'' []
      (zip [''station_id'', ''year'', ''month'', ''day''] [station_id, zero_pad 4 (str_nat (dt_year (day i))),
        zero_pad 2 (str_nat (dt_month (day i))), zero_pad 2 (str_nat (dt_day (day i)))]) = Inr (dir i) \<and>
      dir i ''tt'' = Some (day_title (day i)) \<and>
      dispatched_to bbc_plugin bbcidprefix (dir i) ''station_date_view''
        (zip [''station_id'', ''year'', ''month'', ''day''] [station_id, zero_pad 4 (str_nat (dt_year (day i))),
          zero_pad 2 (str_nat (dt_month (day i))), zero_pad 2 (str_nat (dt_day (day i)))])" for i
    using named_url_dispatched [of "''station_date_view''" "[''station_id'', ''year'', ''month'', ''day'']"
        "[station_id, zero_pad 4 (str_nat (dt_year (day i))), zero_pad 2 (str_nat (dt_month (day i))),
          zero_pad 2 (str_nat (dt_day (day i)))]" objid "day_title (day i)"] assms(3) good_padded
    by (auto simp: dir_def station_day_def)
  have "mapR (\<lambda>(t, f, ks, args). add_url (bbc_xp objid) bbc_plugin t f [] (zip ks args))
      (map (station_day station_id) (map day [0..<nat fetchdays])) = Inr (map dir [0..<nat fetchdays])"
    using dir unfolding map_map mapR_map by (intro mapR_total) (simp add: station_day_def)
  with days have "station_view w fetchdays (bbc_xp objid) station_id = Inr (map dir [0..<nat fetchdays])"
    by (simp add: station_view_def)
  moreover have "valid_date (day i) \<and> toordinal (day i) + i = toordinal (bw_today w)" if "i < nat fetchdays" for i
    using minus_days_ordinal [OF assms(1) day [OF that]] .
  ultimately show ?thesis using dir by (intro exI [of _ "map dir [0..<nat fetchdays]"]) auto
qed

definition demo_http :: bbc_http where
  "demo_http url =
     (if url = programme_url ''a'' then Answer (Inr (ObjJ [(''programme'', ObjJ
        [(''versions'', ArrJ [ObjJ [(''pid'', StrJ ''v'')]]), (''image'', ObjJ [(''pid'', StrJ ''i'')]),
         (''display_title'', ObjJ [(''title'', StrJ ''T''), (''subtitle'', StrJ ''U'')]),
         (''ownership'', ObjJ [(''service'', ObjJ [(''title'', StrJ ''R'')])]), (''short_synopsis'', StrJ ''S'')])]))
      else if url = media_url ''v'' then Answer (Inr (ObjJ [(''media'', ArrJ (map (\<lambda>rate.
         ObjJ [(''kind'', StrJ ''audio''), (''bitrate'', StrJ rate), (''encoding'', StrJ ''aac''),
               (''connection'', ArrJ [ObjJ [], ObjJ [(''href'', StrJ (''http://m/'' @ rate))]])]) [''320'', ''96'']))]))
      else RequestFails)"

lemma demo_no_hang: "programmedetails demo_http k \<noteq> None"
proof -
  have "first_version demo_http p vs \<noteq> None" for p vs
    by (induction vs) (auto simp: demo_http_def split: sum.split prod.split)
  then show ?thesis by (auto simp: programmedetails_def split: bbc_reply.split sum.split)
qed

text \<open>A service with one schedule of two episodes, one of which is not there.\<close>

definition demo_bbc :: bbc_world where
  "demo_bbc =
     \<lparr>bw_hasfeedparser = True, bw_today = \<lparr>dt_year = 2024, dt_month = 3, dt_day = 1\<rparr>,
      bw_scripts = (\<lambda>url. Inr [''{RadioEpisode}'']),
      bw_loads = (\<lambda>text. Inr (ObjJ [(''@graph'', ArrJ (map (\<lambda>i. ObjJ [(''identifier'', StrJ i), (''name'', StrJ ''N''),
        (''publication'', ObjJ [(''startDate'', StrJ ''06:00'')])]) [''b'', ''a'']))])),
      bw_time = Inr, bw_podcasts = Inr NullJ, bw_feed = (\<lambda>_. Inl KeyError),
      bw_fetch = map (\<lambda>k. (k, fetched_slot (programmedetails demo_http) k))\<rparr>"

lemma leap_day_example:
  "minus_days \<lparr>dt_year = 2024, dt_month = 3, dt_day = 1\<rparr> 1 = Inr \<lparr>dt_year = 2024, dt_month = 2, dt_day = 29\<rparr>"
  by code_simp

theorem station_days_listed_witness:
  "\<exists>es d. station_view demo_bbc 2 (bbc_xp ''0$bbc$/station/p00fzl68'') ''p00fzl68'' = Inr es \<and> length es = 2 \<and>
     toordinal d + 1 = toordinal \<lparr>dt_year = 2024, dt_month = 3, dt_day = 1\<rparr> \<and>
     dispatched_to bbc_plugin bbcidprefix (es ! 1) ''station_date_view''
       [(''station_id'', ''p00fzl68''), (''year'', zero_pad 4 (str_nat (dt_year d))),
        (''month'', zero_pad 2 (str_nat (dt_month d))), (''day'', zero_pad 2 (str_nat (dt_day d)))]"
proof -
  have v: "valid_date (bw_today demo_bbc)" "nat 2 \<le> toordinal (bw_today demo_bbc)"
    by (simp_all add: demo_bbc_def valid_date_def days_in_month_def toordinal_def days_before_year_def)
  have g: "good_arg ''p00fzl68''" by code_simp
  from station_days_listed [OF v g, of "''0$bbc$/station/p00fzl68''"]
  obtain es where es: "station_view demo_bbc 2 (bbc_xp ''0$bbc$/station/p00fzl68'') ''p00fzl68'' = Inr es" "length es = nat 2"
    "\<forall>i < nat 2. \<exists>d. valid_date d \<and> toordinal d + i = toordinal (bw_today demo_bbc) \<and> (es ! i) ''tt'' = Some (day_title d) \<and>
       dispatched_to bbc_plugin bbcidprefix (es ! i) ''station_date_view''
         [(''station_id'', ''p00fzl68''), (''year'', zero_pad 4 (str_nat (dt_year d))),
          (''month'', zero_pad 2 (str_nat (dt_month d))), (''day'', zero_pad 2 (str_nat (dt_day d)))]"
    by blast
  have "1 < nat 2" by simp
  with es(3) obtain d where "toordinal d + 1 = toordinal (bw_today demo_bbc)"
       "dispatched_to bbc_plugin bbcidprefix (es ! 1) ''station_date_view''
         [(''station_id'', ''p00fzl68''), (''year'', zero_pad 4 (str_nat (dt_year d))),
          (''month'', zero_pad 2 (str_nat (dt_month d))), (''day'', zero_pad 2 (str_nat (dt_day d)))]" by blast
  with es(1,2) show ?thesis by (intro exI [of _ es] exI [of _ d]) (simp add: demo_bbc_def)
qed

section \<open>Numbered tracks\<close>

lemma listed_tracks_all:
  assumes "listed_tracks reqcount track n xs = Inr es" and "n + length xs \<le> reqcount + 1"
    and "\<And>k x t. x \<in> set xs \<Longrightarrow> track k x = Inr t \<Longrightarrow> (t \<noteq> None \<longleftrightarrow> p x) \<and> (\<forall>e. t = Some e \<longrightarrow> P k x e)"
  shows "length es = length (filter p xs) \<and> (\<forall>i < length es. P (n + i) (filter p xs ! i) (es ! i))"
  using assms
proof (induction xs arbitrary: n es)
  case (Cons x xs)
  obtain t where t: "track n x = Inr t" using Cons.prems(1) by (auto simp: bindR_eq_Inr)
  note pt = Cons.prems(3) [OF _ t]
  show ?case
  proof (cases t)
    case None
    with t Cons.prems(1) have "listed_tracks reqcount track n xs = Inr es" by simp
    from Cons.IH [OF this] Cons.prems(2,3) None pt show ?thesis by simp
  next
    case (Some e)
    show ?thesis
    proof (cases "reqcount \<le> n")
      case True
      with Cons.prems(2) have "xs = []" by (cases xs) auto
      with True Some t Cons.prems(1) pt show ?thesis by auto
    next
      case False
      then obtain es' where es': "listed_tracks reqcount track (n + 1) xs = Inr es'" "es = e # es'"
        using Some t Cons.prems(1) by (auto simp: bindR_eq_Inr)
      from Cons.IH [OF es'(1)] Cons.prems(2,3)
      have IH: "length es' = length (filter p xs)" "\<forall>i < length es'. P (n + 1 + i) (filter p xs ! i) (es' ! i)" by simp_all
      have "P (n + i) ((x # filter p xs) ! i) ((e # es') ! i)" if "i < length (e # es')" for i
        using that IH(2) pt Some by (cases i) simp_all
      with IH(1) es'(2) pt Some show ?thesis by simp
    qed
  qed
qed simp

lemma bbc_keys_facts: "set (dict_keys ks) = set ks" "distinct (dict_keys ks)"
proof -
  have "set (map fst (fold (\<lambda>k. AList.update k ()) ks d)) = set (map fst d) \<union> set ks \<and>
      (distinct (map fst d) \<longrightarrow> distinct (map fst (fold (\<lambda>k. AList.update k ()) ks d)))" for d :: "(string \<times> unit) list"
    by (induction ks arbitrary: d) (auto simp: distinct_update dom_update)
  from this [of "[]"] show "set (dict_keys ks) = set ks" "distinct (dict_keys ks)" by (simp_all add: dict_keys_def)
qed

lemma dict_keys_length: "length (dict_keys ks) \<le> length ks"
  using bbc_keys_facts by (metis card_length distinct_card)

section \<open>The programmes of a day\<close>

lemma bbc_track_fields:
  "bbc_track objid p n title art m ''id'' = Some (objid @ ''$'' @ p)"
  "bbc_track objid p n title art m ''upnp:originalTrackNumber'' = Some (str_nat n)"
  "bbc_track objid p n title art m ''uri'' = Some (bm_url m)"
  "bbc_track objid p n title art m ''tp'' = Some ''it''"
  by (simp_all add: bbc_track_def)

lemma map_of_slots: "k \<in> set keys \<Longrightarrow> map_of (map (\<lambda>k. (k, f k)) keys) k = Some (f k)"
  by (induction keys) auto

text \<open>C37. The listing of a day has exactly the episodes whose data could be fetched, in the order of the schedule,
  numbered from one, each with the stream of its programme, and it is the same however the threads that
  fetch the data are scheduled.\<close>

theorem schedule_listed:
  assumes "station_date_view w (bbc_xp objid) station_id year month day = Inr es"
    and "schedule_graph w (schedule_url station_id year month day) = Inr (Some js)"
    and "bindR (jt_get js ''@graph'') jt_iter = Inr episodes" and "mapR episode_id episodes = Inr progids"
    and "length episodes \<le> 1000"
    and "fetch_outcome (programmedetails http) 1000 (dict_keys progids) (bw_fetch w (dict_keys progids))"
  shows "let there = filter (\<lambda>p. fetched_slot (programmedetails http) p \<noteq> None) progids in
    map (\<lambda>e. (e ''id'', e ''uri'', e ''upnp:originalTrackNumber'')) es =
    map (\<lambda>(p, n). (Some (objid @ ''$'' @ p), map_option bm_url (fetched_slot (programmedetails http) p), Some (str_nat n)))
      (zip there [1..<length there + 1])"
proof -
  let ?slot = "fetched_slot (programmedetails http)"
  let ?keys = "dict_keys progids"
  define ident where "ident e = (case episode_id e of Inr p \<Rightarrow> p | Inl _ \<Rightarrow> [])" for e
  have len: "length progids = length episodes" using mapR_Inr_length [OF assms(4)] .
  then have "int (length ?keys) \<le> 1000" using assms(5) dict_keys_length [of progids] by linarith
  with fetch_outcome_slots [OF assms(6) bbc_keys_facts(2)]
  have data: "bw_fetch w ?keys = map (\<lambda>k. (k, ?slot k)) ?keys" by blast
  have lt: "listed_tracks 1000 (episode_track w objid (bw_fetch w ?keys)) 1 episodes = Inr es"
    using assms(1-4) by (simp add: station_date_view_def)
  have ids: "episode_id e = Inr (ident e) \<and> ident e \<in> set progids" if "e \<in> set episodes" for e
    using assms(4) that by (induction episodes arbitrary: progids) (auto simp: ident_def bindR_eq_Inr)
  have progids: "progids = map ident episodes"
    using assms(4) by (induction episodes arbitrary: progids) (auto simp: ident_def bindR_eq_Inr)
  have t: "(t \<noteq> None \<longleftrightarrow> ?slot (ident e) \<noteq> None) \<and>
      (\<forall>x. t = Some x \<longrightarrow> x ''id'' = Some (objid @ ''$'' @ ident e) \<and> x ''uri'' = map_option bm_url (?slot (ident e)) \<and>
         x ''upnp:originalTrackNumber'' = Some (str_nat k))"
    if "e \<in> set episodes" "episode_track w objid (bw_fetch w ?keys) k e = Inr t" for k e t
  proof -
    have "map_of (bw_fetch w ?keys) (ident e) = Some (?slot (ident e))"
      using ids [OF that(1)] map_of_slots [of "ident e" ?keys ?slot] by (simp add: data bbc_keys_facts)
    with that(2) ids [OF that(1)] show ?thesis
      by (cases "?slot (ident e)") (auto simp: episode_track_def bindR_eq_Inr bbc_track_fields)
  qed
  let ?there = "filter (\<lambda>e. ?slot (ident e) \<noteq> None) episodes"
  have l: "length es = length ?there" and
    n: "\<forall>i < length es. (es ! i) ''id'' = Some (objid @ ''$'' @ ident (?there ! i)) \<and>
      (es ! i) ''uri'' = map_option bm_url (?slot (ident (?there ! i))) \<and>
      (es ! i) ''upnp:originalTrackNumber'' = Some (str_nat (1 + i))"
    using listed_tracks_all [OF lt _ t] assms(5) by simp_all
  have "filter (\<lambda>p. ?slot p \<noteq> None) progids = map ident ?there" by (simp add: progids filter_map comp_def)
  then show ?thesis using l n by (auto simp: Let_def intro!: nth_equalityI simp del: upt_Suc)
qed

text \<open>Two episodes, one of them with two streams. Bitrates that are texts are compared as texts: 96 counts as
  more than 320.\<close>

theorem schedule_listed_witness:
  "\<exists>es. station_date_view demo_bbc (bbc_xp ''o'') ''s'' ''2024'' ''03'' ''01'' = Inr es \<and>
     map (\<lambda>e. (e ''id'', e ''uri'', e ''upnp:originalTrackNumber'')) es = [(Some ''o$a'', Some ''http://m/96'', Some ''1'')]"
proof -
  let ?url = "schedule_url ''s'' ''2024'' ''03'' ''01''"
  let ?eps = "map (\<lambda>i. ObjJ [(''identifier'', StrJ i), (''name'', StrJ ''N''), (''publication'', ObjJ [(''startDate'', StrJ ''06:00'')])])
    [''b'', ''a'']"
  have slots: "map (fetched_slot (programmedetails demo_http)) [''b'', ''a''] = [None,
      Some \<lparr>bm_url = ''http://m/96'', bm_encoding = ''audio/aac'', bm_bitrate = ''96'',
        bm_thumb = ''https://ichef.bbci.co.uk/images/ic/480xn/i.jpg''\<rparr>]"
    by code_simp
  have g: "schedule_graph demo_bbc ?url = Inr (Some (ObjJ [(''@graph'', ArrJ ?eps)]))"
    "bindR (jt_get (ObjJ [(''@graph'', ArrJ ?eps)]) ''@graph'') jt_iter = Inr ?eps"
    "mapR episode_id ?eps = Inr [''b'', ''a'']" "dict_keys [''b'', ''a''] = [''b'', ''a'']" by code_simp+
  have one: "str_nat (Suc 0) = ''1''" by code_simp
  obtain d where d: "fetch_outcome (programmedetails demo_http) 1000 (dict_keys [''b'', ''a'']) d" 
    using fetch_outcome_exists [of "programmedetails demo_http"] demo_no_hang by blast
  have "d = bw_fetch demo_bbc (dict_keys [''b'', ''a''])"
    using fetch_outcome_slots [OF d] g(4) by (simp add: demo_bbc_def)
  with d have o: "fetch_outcome (programmedetails demo_http) 1000 (dict_keys [''b'', ''a'']) (bw_fetch demo_bbc (dict_keys [''b'', ''a'']))"
    by simp
  have "is_ok (station_date_view demo_bbc (bbc_xp ''o'') ''s'' ''2024'' ''03'' ''01'')" by code_simp
  then obtain es where es: "station_date_view demo_bbc (bbc_xp ''o'') ''s'' ''2024'' ''03'' ''01'' = Inr es" by (auto simp: is_ok_iff)
  from schedule_listed [OF es g(1-3) _ o] slots es one show ?thesis by (intro exI [of _ es]) simp
qed

section \<open>Every listing of the plugin leads on\<close>

definition bbc_answers_good :: "bbc_world \<Rightarrow> bool" where
  "bbc_answers_good w \<longleftrightarrow> (\<forall>v. bw_podcasts w = Inr v \<longrightarrow> ids_ok [''shortTitle''] v)"

lemma stations_good: "list_all (\<lambda>(i, nm, img). good_arg i) stations"
  by code_simp

lemma root_stations_listed: "lists_ok bbc_plugin bbcidprefix (root_stations (bbc_xp objid))"
  unfolding root_stations_def
  by (rule lists_items [OF bbc_routed])
    (use stations_good in \<open>auto simp: list_all_iff playlist_item_def playlist_defaults_def\<close>)

lemma station_view_listed:
  assumes "good_arg station_id"
  shows "lists_ok bbc_plugin bbcidprefix (station_view w fetchdays (bbc_xp objid) station_id)"
  unfolding station_view_def
  by (rule lists_bind, rule lists_urls(1) [OF bbc_routed]) (simp add: list_all_iff station_day_def assms good_padded)

lemma listed_tracks_items:
  assumes "listed_tracks reqcount track n xs = Inr es" and "\<And>k x e. track k x = Inr (Some e) \<Longrightarrow> e ''tp'' = Some ''it''"
  shows "list_all (\<lambda>e. \<not> is_dir e) es"
  using assms
proof (induction xs arbitrary: n es)
  case (Cons x xs)
  obtain t where t: "track n x = Inr t" using Cons.prems(1) by (auto simp: bindR_eq_Inr)
  show ?case
  proof (cases t)
    case None
    with t Cons show ?thesis by simp
  next
    case (Some e)
    then have "e ''tp'' = Some ''it''" using Cons.prems(2) [of n x e] t by simp
    then have "\<not> is_dir e" by (simp add: is_dir_def)
    with Cons t Some show ?thesis by (auto simp: bindR_eq_Inr split: if_splits)
  qed
qed simp

lemma tracks_listed:
  assumes "\<And>k x e. track k x = Inr (Some e) \<Longrightarrow> e ''tp'' = Some ''it''"
  shows "lists_ok bbc_plugin bbcidprefix (listed_tracks reqcount track n xs)"
proof -
  have "list_all (\<lambda>e. \<not> is_dir e) es" if "listed_tracks reqcount track n xs = Inr es" for es
    using that assms by (rule listed_tracks_items)
  then show ?thesis by (fastforce simp: lists_ok_def dirs_made_for_def list_all_iff)
qed

lemma slot_case:
  assumes "(case slot of Some (Some m) \<Rightarrow> f m | _ \<Rightarrow> Inr None) = Inr (Some e)"
  obtains m where "f m = Inr (Some e)"
  using assms by (cases slot rule: option.exhaust; cases "the slot") auto

lemma episode_track_item: "episode_track w objid data k x = Inr (Some e) \<Longrightarrow> e ''tp'' = Some ''it''"
  unfolding episode_track_def by (auto simp: bindR_eq_Inr bbc_track_fields elim!: slot_case)

lemma podcast_track_item: "podcast_track objid img data k x = Inr (Some e) \<Longrightarrow> e ''tp'' = Some ''it''"
proof -
  assume "podcast_track objid img data k x = Inr (Some e)"
  then obtain p where "podcast_pid x = Inr p" "(case p of None \<Rightarrow> Inr None | Some progid \<Rightarrow>
      (case map_of data progid of
         Some (Some m) \<Rightarrow> bindR (attr (fe_date x)) (\<lambda>entry_date. bindR (attr (fe_title x)) (\<lambda>title.
           Inr (Some (bbc_track objid progid k (entry_date @ '': '' @ title) img m))))
       | _ \<Rightarrow> Inr None)) = Inr (Some e)"
    unfolding podcast_track_def by (auto simp only: bindR_eq_Inr)
  then show ?thesis by (cases p) (auto simp: bindR_eq_Inr bbc_track_fields elim!: slot_case)
qed

lemma podcast_dir_listed:
  assumes "ids_ok [''shortTitle''] p"
  shows "lists_ok bbc_plugin bbcidprefix (podcast_dir (bbc_xp objid) p)"
  unfolding podcast_dir_def
proof (intro lists_bind lists_if lists_Nil)
  fix b img title i url
  assume "bindR (jt_get p ''shortTitle'') jt_text = Inr i" and u: "url_for bbc_plugin ''podcast_view'' [] [(''podcast_id'', i)] = Inr url"
  then obtain v where "jt_get p ''shortTitle'' = Inr v" "jt_text v = Inr i" by (auto simp: bindR_eq_Inr)
  then have "good_arg i" using ids_ok_get_id [OF assms] by (cases v) auto
  then have "list_all good_arg [i]" "length [i] = length [''podcast_id'']" by simp_all
  with u obtain url' where "url = url'" "\<And>e. e ''id'' = Some (bbcidprefix @ url') \<Longrightarrow> made_for bbc_plugin bbcidprefix e"
    using url_made_for [OF bbc_routes_ok, of "''podcast_view''" "[''podcast_id'']" "[i]" bbcidprefix] by force
  then show "lists_ok bbc_plugin bbcidprefix (Inr [direntry (xp_idprefix (bbc_xp objid) @ url) (xp_objid (bbc_xp objid)) title
      (Some (replace_str ''{recipe}'' ''624x624'' img)) None None ''1'' None None])"
    by (simp add: lists_ok_def dirs_made_for_def)
qed

lemma root_podcasts_listed:
  assumes "bbc_answers_good w"
  shows "lists_ok bbc_plugin bbcidprefix (root_podcasts w (bbc_xp objid))"
  unfolding root_podcasts_def
proof (intro lists_bind lists_concat)
  fix podcasts titled
  assume p: "bindR (bindR (bw_podcasts w) (\<lambda>js. jt_get js ''podcasts'')) jt_iter = Inr podcasts"
    and t: "mapR (\<lambda>p. bindR (bindR (jt_get p ''title'') jt_text) (\<lambda>t. Inr (t, p))) podcasts = Inr titled"
  have "ids_ok [''shortTitle''] x" if "x \<in> set podcasts" for x
    using p assms that unfolding bbc_answers_good_def ids_ok_def
    by (auto simp: bindR_eq_Inr dest: fields_ok_get fields_ok_iter)
  moreover have "snd tp \<in> set podcasts" if "tp \<in> set titled" for tp
    using mapR_elem [OF t that] by (auto simp: bindR_eq_Inr)
  ultimately show "list_all (lists_ok bbc_plugin bbcidprefix) (map (\<lambda>tp. podcast_dir (bbc_xp objid) (snd tp)) (sort_key fst titled))"
    using podcast_dir_listed by (auto simp: list_all_iff)
qed

lemma bbc_view_listed:
  assumes "bbc_answers_good w" and "list_all (\<lambda>(k, v). good_arg v) kw"
  shows "lists_ok bbc_plugin bbcidprefix (bbc_view w fetchdays (bbc_xp objid) f kw)"
proof -
  have root: "lists_ok bbc_plugin bbcidprefix (root w (bbc_xp objid))"
    unfolding root_def by (rule lists_views [OF bbc_routed]) simp
  have date: "lists_ok bbc_plugin bbcidprefix (station_date_view w (bbc_xp objid) s y m d)" for s y m d
    unfolding station_date_view_def
    by (intro lists_bind) (auto intro!: lists_Nil lists_bind tracks_listed split: option.split dest: episode_track_item)
  have podcast: "lists_ok bbc_plugin bbcidprefix (podcast_view w (bbc_xp objid) p)" for p
    unfolding podcast_view_def Let_def by (intro lists_bind tracks_listed) (erule podcast_track_item)
  show ?thesis unfolding bbc_view_def
    by (intro lists_if lists_arg [OF assms(2)] root root_stations_listed station_view_listed date root_podcasts_listed [OF assms(1)]
        podcast lists_Inl; assumption)
qed

interpretation bbc: routed_service bbc_plugin bbcidprefix "\<lambda>(w, days). bbc_answers_good w" bbc_views
proof unfold_locales
  fix api objid f kw es
  assume "case api of (w, days) \<Rightarrow> bbc_answers_good w" "bbc_views api objid f kw = Some (Inr es)"
    "list_all (\<lambda>(k, v). good_arg v) kw"
  then show "dirs_made_for bbc_plugin bbcidprefix es"
    using bbc_view_listed [of "fst api" kw "snd api" objid f] by (auto simp: bbc_views_def lists_ok_def split: prod.splits)
qed (rule bbc_routes_ok)

text \<open>A request after the initialisation is a request of the common frame that is not for metadata.\<close>

lemma bbc_browse_frame:
  assumes "ba_initok app" and "a ''offset'' = None" and "a ''count'' = None"
  shows "Some (snd (bbc_browse w upconfig environ app a)) =
    svc_browse bbcidprefix bbc_plugin (Inr ()) meta (bbc_views (w, ba_fetchdays app)) (a(''flag'' := None))"
  using assms
  by (auto simp: bbc_browse_def maybeinit_def svc_browse_def bbc_views_def Let_def split: option.splits sum.splits)

end
