(* ===== verification/Services.thy ===== *)
theory Services
  imports Qobuz Tidal Deezer Hra Spotify BbcViews
begin

text \<open>
  The plugins of the streaming services together: browsing what they listed always leads on. The facts are
  those of the locale \<open>routed_service\<close>, interpreted for each plugin in its theory.
\<close>

text \<open>C12. In the plugins for Qobuz, Deezer, HighResAudio, Spotify and the BBC every directory that can be reached from a
  view without arguments, by browse requests for directories that were listed before, leads on: a browse
  request with its identifier runs a view of the plugin. It is enough that the identifiers in the answers
  of the service are not empty and have no slash, question mark, hash or control character.\<close>

theorem service_directories_lead_on:
  "(Qobuz.answers_good (qs_api s1) \<and> qz.reached s1 e1 \<longrightarrow>
      leads_on qobidprefix qobuz_plugin (qobuz_meta s1) (qobuz_views s1) e1) \<and>
   (Deezer.answers_good (dx_http s2) \<and> dz.reached (relogin, s2) e2 \<longrightarrow>
      leads_on deezer_rootid deezer_plugin (\<lambda>_ _. Inr []) (deezer_views (relogin, s2)) e2) \<and>
   (Hra.answers_good (hw_http w) \<and> hr.reached (w, c, env, st) e3 \<longrightarrow>
      leads_on hra_rootid hra_plugin (\<lambda>_ _. Inl AttributeError) (hra_views (w, c, env, st)) e3) \<and>
   (Spotify.answers_good http \<and> sp.reached (env', http) e4 \<longrightarrow>
      leads_on spotidprefix spotify_plugin (\<lambda>_ _. Inl AttributeError) (spotify_views (env', http)) e4) \<and>
   (bbc_answers_good bw \<and> bbc.reached (bw, days) e5 \<longrightarrow>
      leads_on bbcidprefix bbc_plugin (\<lambda>_ _. Inr []) (bbc_views (bw, days)) e5)"
  by (simp add: qz.reached_leads_on dz.reached_leads_on hr.reached_leads_on sp.reached_leads_on bbc.reached_leads_on)

text \<open>The directories of a listing, by their identifiers.\<close>

definition listed_dirs :: "entry list res option \<Rightarrow> string list option" where
  "listed_dirs v = (case v of Some (Inr es) \<Rightarrow> Some (map (\<lambda>e. the (e ''id'')) (filter is_dir es)) | _ \<Rightarrow> None)"

lemma listed_dir:
  assumes "listed_dirs v = Some ids" and "i \<in> set ids"
  obtains es e where "v = Some (Inr es)" "e \<in> set es" "is_dir e" "the (e ''id'') = i"
  using assms by (auto simp: listed_dirs_def split: option.splits sum.splits)

lemma made_for_id: "made_for pl prefix e \<Longrightarrow> \<exists>i. e ''id'' = Some i"
  by (auto simp: made_for_def)

text \<open>A service of Qobuz that knows one artist in its featured catalog, and services that answer nothing.\<close>

definition demo_env :: svc_env where
  "demo_env = \<lparr>se_httphp = ''h:1'', se_pathprefix = ''/qobuz'', se_mime = ''audio/mpeg'', se_samplerate = ''44100''\<rparr>"

definition demo_qobuz :: qobuz_session where
  "demo_qobuz =
     \<lparr>qs_env = demo_env,
      qs_api = (\<lambda>nm ka. Inr (ObjJ [(''artists'', ObjJ [(''items'', ArrJ [ObjJ [(''id'', IntJ 5), (''name'', StrJ ''A'')]])])])),
      qs_user = None\<rparr>"

definition demo_deezer :: deezer_session where
  "demo_deezer =
     \<lparr>dx_env = demo_env, dx_http = (\<lambda>url prms. None),
      dx_api = \<lparr>dz_token = StrJ ''t'', dz_user_id = StrJ ''7'', dz_cached = None\<rparr>\<rparr>"

definition demo_hra :: "hra_conf \<Rightarrow> hra_world \<times> hra_conf \<times> svc_env \<times> hra_api" where
  "demo_hra c =
     (\<lparr>hw_http = (\<lambda>m url prms. None), hw_now = 0\<rparr>, c, demo_env,
      \<lparr>ha_session_id = StrJ ''s'', ha_user_id = StrJ ''u'', ha_user_data = Some (StrJ ''d''), ha_logged_on = Some 0,
       ha_lang = ''en''\<rparr>)"

definition demo_spotify :: "svc_env \<times> sp_http" where
  "demo_spotify = (demo_env, \<lambda>n m url prms. Inl TypeError)"

lemma demo_good:
  "Qobuz.answers_good (qs_api demo_qobuz)" "Deezer.answers_good (dx_http demo_deezer)"
  "Spotify.answers_good (snd demo_spotify)"
  by (simp_all add: Qobuz.answers_good_def demo_qobuz_def Qobuz.ids_good_def ids_ok_def id_ok_def
      Deezer.answers_good_def demo_deezer_def Spotify.answers_good_def demo_spotify_def) code_simp

lemma demo_hra_good: "Hra.answers_good (hw_http (fst (demo_hra c)))"
  by (simp add: demo_hra_def Hra.answers_good_def)

lemma demo_lists:
  "listed_dirs (qobuz_views demo_qobuz ''0$qobuz$/whats_new'' ''whats_new'' []) =
     Some [''0$qobuz$/featured/playlists'', ''0$qobuz$/featured/albums'', ''0$qobuz$/featured/artists'']"
  "listed_dirs (qobuz_views demo_qobuz ''0$qobuz$/featured/artists'' ''featured'' [(''content_type'', ''artists'')]) =
     Some [''0$qobuz$/artist/5'']"
  "startswith ''0$qobuz$/featured/artists'' qobidprefix"
  "route_run qobuz_plugin (replace_first qobidprefix [] ''0$qobuz$/featured/artists'') =
     Inr (''featured'', [(''content_type'', ''artists'')])"
  by code_simp+

lemma demo_lists_fixed:
  "listed_dirs (spotify_views demo_spotify ''0$spotify$/'' ''root'' []) =
     Some [''0$spotify$/my_music'', ''0$spotify$/new_releases'', ''0$spotify$/featured_playlists'',
       ''0$spotify$/genres_and_moods'']"
  "listed_dirs (deezer_views (Inr True, demo_deezer) ''0$deezer$/'' ''root'' []) =
     Some [''0$deezer$/my_favourite_albums'', ''0$deezer$/my_favourite_playlists'', ''0$deezer$/my_favourite_tracks'',
       ''0$deezer$/my_favourite_artists'', ''0$deezer$/my_family'']"
  by code_simp+

lemma demo_lists_hra:
  "listed_dirs (hra_views (demo_hra c) ''0$hra$/'' ''root'' []) =
     Some [''0$hra$/allcategories'', ''0$hra$/allgenres'', ''0$hra$/alleditorplaylists'', ''0$hra$/alluserplaylists'',
       ''0$hra$/alluseralbums'', ''0$hra$/allusertracks'']"
  by code_simp

lemma demo_artist:
  "\<exists>e. qz.reached demo_qobuz e \<and> the (e ''id'') = ''0$qobuz$/artist/5''"
proof -
  obtain es e where e: "qobuz_views demo_qobuz ''0$qobuz$/whats_new'' ''whats_new'' [] = Some (Inr es)" "e \<in> set es"
      "is_dir e" "the (e ''id'') = ''0$qobuz$/featured/artists''"
    by (rule listed_dir [OF demo_lists(1), of "''0$qobuz$/featured/artists''"]) simp_all
  then have r: "qz.reached demo_qobuz e" by (intro qz.at_root)
  obtain f kw where "dispatched_to qobuz_plugin qobidprefix e f kw"
    using qz.reached_dispatched [OF demo_good(1) r] by blast
  then obtain i where i: "e ''id'' = Some i" by (auto simp: dispatched_to_def)
  have d: "dispatched_to qobuz_plugin qobidprefix e ''featured'' [(''content_type'', ''artists'')]"
    using i e(4) demo_lists(3,4) by (simp add: dispatched_to_def)
  obtain es' e' where "qobuz_views demo_qobuz i ''featured'' [(''content_type'', ''artists'')] = Some (Inr es')"
      "e' \<in> set es'" "is_dir e'" "the (e' ''id'') = ''0$qobuz$/artist/5''"
    using i e(4) by (auto intro: listed_dir [OF demo_lists(2), of "''0$qobuz$/artist/5''"])
  then show ?thesis using qz.below [OF r d i] by blast
qed

lemma demo_spotify_reached: "\<exists>e. sp.reached demo_spotify e \<and> the (e ''id'') = ''0$spotify$/genres_and_moods''"
proof -
  obtain es e where "spotify_views demo_spotify ''0$spotify$/'' ''root'' [] = Some (Inr es)" "e \<in> set es" "is_dir e"
      "the (e ''id'') = ''0$spotify$/genres_and_moods''"
    by (rule listed_dir [OF demo_lists_fixed(1), of "''0$spotify$/genres_and_moods''"]) simp_all
  from sp.at_root [OF this(1-3)] this(4) show ?thesis by blast
qed

lemma demo_deezer_reached: "\<exists>e. dz.reached (Inr True, demo_deezer) e \<and> the (e ''id'') = ''0$deezer$/my_family''"
proof -
  obtain es e where "deezer_views (Inr True, demo_deezer) ''0$deezer$/'' ''root'' [] = Some (Inr es)" "e \<in> set es" "is_dir e"
      "the (e ''id'') = ''0$deezer$/my_family''"
    by (rule listed_dir [OF demo_lists_fixed(2), of "''0$deezer$/my_family''"]) simp_all
  from dz.at_root [OF this(1-3)] this(4) show ?thesis by blast
qed

lemma demo_hra_reached: "\<exists>e. hr.reached (demo_hra c) e \<and> the (e ''id'') = ''0$hra$/allgenres''"
proof -
  obtain es e where "hra_views (demo_hra c) ''0$hra$/'' ''root'' [] = Some (Inr es)" "e \<in> set es" "is_dir e"
      "the (e ''id'') = ''0$hra$/allgenres''"
    by (rule listed_dir [OF demo_lists_hra, of "''0$hra$/allgenres''"]) simp_all
  from hr.at_root [OF this(1-3)] this(4) show ?thesis by blast
qed

lemma demo_bbc_lists:
  "listed_dirs (bbc_views (demo_bbc, 30) ''0$bbc$/'' ''root'' []) = Some [''0$bbc$/root_stations'', ''0$bbc$/root_podcasts'']"
  by code_simp

lemma demo_bbc_reached: "\<exists>e. bbc.reached (demo_bbc, 30) e \<and> the (e ''id'') = ''0$bbc$/root_stations''"
proof -
  obtain es e where "bbc_views (demo_bbc, 30) ''0$bbc$/'' ''root'' [] = Some (Inr es)" "e \<in> set es" "is_dir e"
      "the (e ''id'') = ''0$bbc$/root_stations''"
    by (rule listed_dir [OF demo_bbc_lists, of "''0$bbc$/root_stations''"]) simp_all
  from bbc.at_root [OF this(1-3)] this(4) show ?thesis by blast
qed

lemma demo_bbc_good: "bbc_answers_good demo_bbc"
  by (simp add: bbc_answers_good_def demo_bbc_def)

theorem service_directories_lead_on_witness:
  "\<forall>c. \<exists>e1 e2 e3 e4 e5.
     the (e1 ''id'') = ''0$qobuz$/artist/5'' \<and> the (e2 ''id'') = ''0$deezer$/my_family'' \<and>
     the (e3 ''id'') = ''0$hra$/allgenres'' \<and> the (e4 ''id'') = ''0$spotify$/genres_and_moods'' \<and>
     the (e5 ''id'') = ''0$bbc$/root_stations'' \<and>
     leads_on qobidprefix qobuz_plugin (qobuz_meta demo_qobuz) (qobuz_views demo_qobuz) e1 \<and>
     leads_on deezer_rootid deezer_plugin (\<lambda>_ _. Inr []) (deezer_views (Inr True, demo_deezer)) e2 \<and>
     leads_on hra_rootid hra_plugin (\<lambda>_ _. Inl AttributeError) (hra_views (demo_hra c)) e3 \<and>
     leads_on spotidprefix spotify_plugin (\<lambda>_ _. Inl AttributeError) (spotify_views demo_spotify) e4 \<and>
     leads_on bbcidprefix bbc_plugin (\<lambda>_ _. Inr []) (bbc_views (demo_bbc, 30)) e5"
proof
  fix c
  obtain e1 where e1: "qz.reached demo_qobuz e1" "the (e1 ''id'') = ''0$qobuz$/artist/5''" using demo_artist by blast
  obtain e2 where e2: "dz.reached (Inr True, demo_deezer) e2" "the (e2 ''id'') = ''0$deezer$/my_family''"
    using demo_deezer_reached by blast
  obtain e3 where e3: "hr.reached (demo_hra c) e3" "the (e3 ''id'') = ''0$hra$/allgenres''" using demo_hra_reached by blast
  obtain e4 where e4: "sp.reached demo_spotify e4" "the (e4 ''id'') = ''0$spotify$/genres_and_moods''"
    using demo_spotify_reached by blast
  obtain e5 where e5: "bbc.reached (demo_bbc, 30) e5" "the (e5 ''id'') = ''0$bbc$/root_stations''"
    using demo_bbc_reached by blast
  obtain w c' env st where w: "demo_hra c = (w, c', env, st)" by (cases "demo_hra c")
  obtain env' http where s: "demo_spotify = (env', http)" by (cases demo_spotify)
  have h: "Spotify.answers_good http" using s demo_good(3) by (metis snd_conv)
  from service_directories_lead_on [of demo_qobuz e1 demo_deezer "Inr True" e2 w c' env st e3 http env' e4 demo_bbc 30 e5]
    e1 e2 e3 e4 e5 w s h demo_good demo_hra_good [of c] demo_bbc_good
  have "leads_on qobidprefix qobuz_plugin (qobuz_meta demo_qobuz) (qobuz_views demo_qobuz) e1"
    "leads_on deezer_rootid deezer_plugin (\<lambda>_ _. Inr []) (deezer_views (Inr True, demo_deezer)) e2"
    "leads_on hra_rootid hra_plugin (\<lambda>_ _. Inl AttributeError) (hra_views (demo_hra c)) e3"
    "leads_on spotidprefix spotify_plugin (\<lambda>_ _. Inl AttributeError) (spotify_views demo_spotify) e4"
    "leads_on bbcidprefix bbc_plugin (\<lambda>_ _. Inr []) (bbc_views (demo_bbc, 30)) e5"
    by simp_all
  with e1(2) e2(2) e3(2) e4(2) e5(2) show "\<exists>e1 e2 e3 e4 e5.
     the (e1 ''id'') = ''0$qobuz$/artist/5'' \<and> the (e2 ''id'') = ''0$deezer$/my_family'' \<and>
     the (e3 ''id'') = ''0$hra$/allgenres'' \<and> the (e4 ''id'') = ''0$spotify$/genres_and_moods'' \<and>
     the (e5 ''id'') = ''0$bbc$/root_stations'' \<and>
     leads_on qobidprefix qobuz_plugin (qobuz_meta demo_qobuz) (qobuz_views demo_qobuz) e1 \<and>
     leads_on deezer_rootid deezer_plugin (\<lambda>_ _. Inr []) (deezer_views (Inr True, demo_deezer)) e2 \<and>
     leads_on hra_rootid hra_plugin (\<lambda>_ _. Inl AttributeError) (hra_views (demo_hra c)) e3 \<and>
     leads_on spotidprefix spotify_plugin (\<lambda>_ _. Inl AttributeError) (spotify_views demo_spotify) e4 \<and>
     leads_on bbcidprefix bbc_plugin (\<lambda>_ _. Inr []) (bbc_views (demo_bbc, 30)) e5" by blast
qed

end
