(* ===== verification/PyUrlJoin.thy ===== *)
theory PyUrlJoin
  imports Routing
begin

text \<open>
  \<open>urllib.parse.urljoin\<close> of Python's library: a reference is resolved against the URL that it was found at.
  The parts of a URL are cut off as in \<open>Routing\<close>. A reference is split into its components, the empty ones
  in the middle are dropped, and the dots are resolved.
\<close>

record url_parts =
  u_scheme :: string
  u_netloc :: string
  u_path :: string
  u_params :: string
  u_query :: string
  u_fragment :: string

definition uses_relative :: "string list" where
  "uses_relative =
     [[], ''ftp'', ''http'', ''gopher'', ''nntp'', ''imap'', ''wais'', ''file'', ''https'', ''shttp'', ''mms'',
      ''prospero'', ''rtsp'', ''rtspu'', ''sftp'', ''svn'', ''svn+ssh'', ''ws'', ''wss'']"

definition uses_netloc :: "string list" where
  "uses_netloc =
     [[], ''ftp'', ''http'', ''gopher'', ''nntp'', ''telnet'', ''imap'', ''wais'', ''file'', ''mms'', ''https'', ''shttp'',
      ''snews'', ''prospero'', ''rtsp'', ''rtspu'', ''rsync'', ''svn'', ''svn+ssh'', ''sftp'', ''nfs'', ''git'', ''git+ssh'',
      ''ws'', ''wss'']"

definition uses_params :: "string list" where
  "uses_params =
     [[], ''ftp'', ''hdl'', ''prospero'', ''http'', ''imap'', ''https'', ''shttp'', ''rtsp'', ''rtspu'', ''sip'', ''sips'',
      ''mms'', ''sftp'', ''tel'']"

section \<open>Splitting\<close>

definition url_scheme :: "string \<Rightarrow> string option" where
  "url_scheme url =
     (let a = takeWhile (\<lambda>c. c \<noteq> CHR '':'') url in
      if a \<noteq> [] \<and> length a < length url \<and> ascii_letter (hd a) \<and> list_all scheme_char a then Some (py_lower a) else None)"

definition url_netloc :: "string \<Rightarrow> string" where
  "url_netloc url =
     (if startswith url ''//'' then takeWhile (\<lambda>c. c \<notin> {CHR ''/'', CHR ''?'', CHR ''#''}) (drop 2 url) else [])"

definition cut_at :: "char \<Rightarrow> string \<Rightarrow> string \<times> string" where
  "cut_at c s = (takeWhile (\<lambda>x. x \<noteq> c) s, drop 1 (dropWhile (\<lambda>x. x \<noteq> c) s))"

text \<open>The parameters follow the first semicolon of the last component.\<close>

definition split_params :: "string \<Rightarrow> string \<times> string" where
  "split_params path =
     (let i = (case py_rfind path ''/'' of Some i \<Rightarrow> i | None \<Rightarrow> 0);
          (front, prms) = cut_at (CHR '';'') (drop i path)
      in (take i path @ front, prms))"

definition urlparse :: "string \<Rightarrow> string \<Rightarrow> url_parts res" where
  "urlparse url default_scheme =
     (let url = filter (\<lambda>c. c \<notin> {CHR 0x09, CHR 0x0A, CHR 0x0D}) (lstrip (\<lambda>c. (of_char c :: nat) \<le> 32) url);
          scheme = (case url_scheme url of Some s \<Rightarrow> s | None \<Rightarrow> default_scheme);
          url = cut_scheme url
      in bindR (cut_netloc url) (\<lambda>rest.
           let (rest, fragment) = cut_at (CHR ''#'') rest;
               (path, query) = cut_at (CHR ''?'') rest;
               (path, prms) = (if scheme \<in> set uses_params \<and> CHR '';'' \<in> set path then split_params path else (path, []))
           in Inr \<lparr>u_scheme = scheme, u_netloc = url_netloc url, u_path = path, u_params = prms,
                   u_query = query, u_fragment = fragment\<rparr>))"

definition urlunparse :: "url_parts \<Rightarrow> string" where
  "urlunparse u =
     (let url = u_path u @ (if u_params u \<noteq> [] then CHR '';'' # u_params u else []);
          url = (if u_netloc u \<noteq> [] \<or> (u_scheme u \<noteq> [] \<and> u_scheme u \<in> set uses_netloc \<and> \<not> startswith url ''//'')
                 then ''//'' @ u_netloc u @ (if url \<noteq> [] \<and> \<not> startswith url ''/'' then CHR ''/'' # url else url)
                 else url);
          url = (if u_scheme u \<noteq> [] then u_scheme u @ CHR '':'' # url else url);
          url = (if u_query u \<noteq> [] then url @ CHR ''?'' # u_query u else url)
      in if u_fragment u \<noteq> [] then url @ CHR ''#'' # u_fragment u else url)"

section \<open>Joining\<close>

fun resolve_dots :: "string list \<Rightarrow> string list \<Rightarrow> string list" where
  "resolve_dots acc [] = rev acc"
| "resolve_dots acc (seg # segs) =
     (if seg = ''..'' then resolve_dots (tl acc) segs
      else if seg = ''.'' then resolve_dots acc segs
      else resolve_dots (seg # acc) segs)"

definition drop_empty_middle :: "string list \<Rightarrow> string list" where
  "drop_empty_middle segs =
     (if length segs < 2 then segs else hd segs # filter (\<lambda>s. s \<noteq> []) (butlast (tl segs)) @ [last segs])"

definition join_path :: "string \<Rightarrow> string \<Rightarrow> string" where
  "join_path bpath path =
     (let base_parts = split_on (CHR ''/'') bpath;
          base_parts = (if last base_parts \<noteq> [] then butlast base_parts else base_parts);
          segments = (if startswith path ''/'' then split_on (CHR ''/'') path
                      else drop_empty_middle (base_parts @ split_on (CHR ''/'') path));
          resolved = resolve_dots [] segments @ (if last segments \<in> {''.'', ''..''} then [[]] else []);
          p = join_with ''/'' resolved
      in if p = [] then ''/'' else p)"

definition urljoin :: "string \<Rightarrow> string \<Rightarrow> string res" where
  "urljoin base url =
     (if base = [] then Inr url
      else if url = [] then Inr base
      else
        bindR (urlparse base []) (\<lambda>b.
        bindR (urlparse url (u_scheme b)) (\<lambda>u.
          if u_scheme u \<noteq> u_scheme b \<or> u_scheme u \<notin> set uses_relative then Inr url
          else if u_scheme u \<in> set uses_netloc \<and> u_netloc u \<noteq> [] then Inr (urlunparse u)
          else
            let u = (if u_scheme u \<in> set uses_netloc then u\<lparr>u_netloc := u_netloc b\<rparr> else u) in
            if u_path u = [] \<and> u_params u = [] then
              Inr (urlunparse (u\<lparr>u_path := u_path b, u_params := u_params b,
                                u_query := (if u_query u = [] then u_query b else u_query u)\<rparr>))
            else Inr (urlunparse (u\<lparr>u_path := join_path (u_path b) (u_path u)\<rparr>)))))"

text \<open>The examples of RFC 3986, section 5.4.\<close>

definition rfc_base :: string where
  "rfc_base = ''http://a/b/c/d;p?q''"

lemma urljoin_rfc_normal:
  "map (urljoin rfc_base)
     [''g:h'', ''g'', ''./g'', ''g/'', ''/g'', ''//g'', ''?y'', ''g?y'', ''#s'', ''g#s'', '';x'', ''g;x'', '''',
      ''.'', ''./'', ''..'', ''../'', ''../g'', ''../..'', ''../../'', ''../../g''] =
   map Inr
     [''g:h'', ''http://a/b/c/g'', ''http://a/b/c/g'', ''http://a/b/c/g/'', ''http://a/g'', ''http://g'',
      ''http://a/b/c/d;p?y'', ''http://a/b/c/g?y'', ''http://a/b/c/d;p?q#s'', ''http://a/b/c/g#s'', ''http://a/b/c/;x'',
      ''http://a/b/c/g;x'', ''http://a/b/c/d;p?q'', ''http://a/b/c/'', ''http://a/b/c/'', ''http://a/b/'',
      ''http://a/b/'', ''http://a/b/g'', ''http://a/'', ''http://a/'', ''http://a/g'']"
  by code_simp

lemma urljoin_rfc_abnormal:
  "map (urljoin rfc_base) [''../../../g'', ''/./g'', ''/../g'', ''g.'', ''..g'', ''./../g'', ''./g/.'', ''g/../h''] =
   map Inr [''http://a/g'', ''http://a/g'', ''http://a/g'', ''http://a/b/c/g.'', ''http://a/b/c/..g'', ''http://a/b/g'',
      ''http://a/b/c/g/'', ''http://a/b/c/h'']"
  by code_simp

end
