(* ===== verification/StreamFetch.thy ===== *)
theory StreamFetch
  imports PyUrlJoin
begin

text \<open>
  The program that finds the stream of a radio (\<open>rdpl2stream/\<close>, outside the plugins, started by
  \<open>upradioconf.py\<close> for each radio): a URL is requested, the decoders of playlist formats are asked in turn
  whether they know the reply, and as long as one does, the first entry of its playlist is requested next.
  The network and the XML parser (expat, not in the repository) are parameters. The network may answer
  otherwise at each round. Log output is left out.
\<close>

section \<open>Bytes\<close>

text \<open>\<open>bytes.splitlines()\<close>, and the stripping of bytes.\<close>

fun splitlines_acc :: "string \<Rightarrow> string \<Rightarrow> string list" where
  "splitlines_acc acc [] = (if acc = [] then [] else [rev acc])"
| "splitlines_acc acc (c # s) =
     (if c = CHR 0x0A then rev acc # splitlines_acc [] s
      else if c = CHR 0x0D then rev acc # splitlines_acc [] (if startswith s [CHR 0x0A] then tl s else s)
      else splitlines_acc (c # acc) s)"

definition bytes_splitlines :: "string \<Rightarrow> string list" where
  "bytes_splitlines s = splitlines_acc [] s"

definition bytes_strip :: "string \<Rightarrow> string" where
  "bytes_strip s = strip is_bspace s"

definition endswith :: "string \<Rightarrow> string \<Rightarrow> bool" where
  "endswith s p = startswith (rev s) (rev p)"

text \<open>The second part of \<open>line.split(b"=", 1)\<close>.\<close>

definition after_equals :: "string \<Rightarrow> string res" where
  "after_equals line = (if CHR ''='' \<in> set line then Inr (snd (cut_at (CHR ''='') line)) else Inl IndexError)"

section \<open>XML\<close>

datatype xml = Elem (xml_tag: string) (xml_attrs: "(string \<times> string) list") (xml_text: "string option")
  (xml_children: "xml list")

fun xml_descendants :: "xml \<Rightarrow> xml list" where
  "xml_descendants (Elem tg as tx ch) = concat (map (\<lambda>x. x # xml_descendants x) ch)"

section \<open>The decoders\<close>

datatype decoder = Pls | Asx | Asf | Xspf | Ram | M3u

text \<open>The entry of a playlist is bytes, or a text, or no text where an XML element is empty.\<close>

datatype pl_url = UBytes string | UStr string | UNone

definition wm_suffix :: string where
  "wm_suffix = ''?MSWMExt=.asf''"

subsection \<open>Which decoder knows the reply\<close>

definition pls_valid :: "string \<Rightarrow> string \<Rightarrow> bool res" where
  "pls_valid contentType firstBytes =
     Inr (contains contentType ''audio/x-scpls'' \<or> contains contentType ''application/pls+xml'' \<or>
          startswith (py_lower (bytes_strip firstBytes)) ''[playlist]'')"

definition asx_valid :: "string \<Rightarrow> string \<Rightarrow> bool res" where
  "asx_valid contentType firstBytes =
     Inr ((contains contentType ''audio/x-ms-wax'' \<or> contains contentType ''video/x-ms-wvx'' \<or>
           contains contentType ''video/x-ms-asf'' \<or> contains contentType ''video/x-ms-wmv'') \<and>
          startswith (py_lower (bytes_strip firstBytes)) ''<asx'')"

text \<open>Bytes cannot be searched for a text.\<close>

definition asf_valid :: "string \<Rightarrow> string \<Rightarrow> bool res" where
  "asf_valid contentType firstBytes = (if contains contentType ''video/x-ms-asf'' then Inl TypeError else Inr False)"

definition xspf_valid :: "string \<Rightarrow> string \<Rightarrow> bool res" where
  "xspf_valid contentType firstBytes = Inr (contains contentType ''application/xspf+xml'')"

definition ram_valid :: "string \<Rightarrow> string \<Rightarrow> bool res" where
  "ram_valid contentType firstBytes =
     Inr (contains contentType ''audio/x-pn-realaudio'' \<or> contains contentType ''audio/vnd.rn-realaudio'')"

definition m3u_valid :: "string \<Rightarrow> string \<Rightarrow> bool res" where
  "m3u_valid contentType firstBytes =
     (let contentType = py_lower contentType;
          lines = bytes_splitlines firstBytes in
      if (contains contentType ''audio/mpegurl'' \<or> contains contentType ''application/vnd.apple.mpegurl'') \<and>
         (lines = [] \<or> startswith (hd lines) ''#EXTM3U'')
      then Inr False
      else if contains contentType ''audio/mpegurl'' \<or> contains contentType ''audio/x-mpegurl'' \<or>
              contains contentType ''application/x-mpegurl'' \<or> contains contentType ''application/vnd.apple.mpegurl''
      then Inr True
      else Inr (list_ex (\<lambda>line. startswith line ''http://'') lines))"

fun stream_valid :: "decoder \<Rightarrow> string \<Rightarrow> string \<Rightarrow> bool res" where
  "stream_valid Pls = pls_valid"
| "stream_valid Asx = asx_valid"
| "stream_valid Asf = asf_valid"
| "stream_valid Xspf = xspf_valid"
| "stream_valid Ram = ram_valid"
| "stream_valid M3u = m3u_valid"

definition decoders :: "decoder list" where
  "decoders = [Pls, Asx, Asf, Xspf, Ram, M3u]"

subsection \<open>The entries of a playlist\<close>

definition pls_playlist :: "string \<Rightarrow> pl_url list res" where
  "pls_playlist str =
     mapR (\<lambda>line. bindR (after_equals line) (\<lambda>u. Inr (UBytes u)))
       (filter (\<lambda>line. startswith line ''File'') (bytes_splitlines str))"

definition asf_playlist :: "string \<Rightarrow> pl_url list res" where
  "asf_playlist str =
     mapR (\<lambda>line. bindR (after_equals line) (\<lambda>u.
         let tmp = bytes_strip u in Inr (UBytes (if endswith tmp wm_suffix then replace_str ''http'' ''mms'' tmp else tmp))))
       (filter (\<lambda>line. startswith line ''Ref'') (bytes_splitlines str))"

text \<open>\<open>urljoin\<close> of bytes takes them as ASCII.\<close>

definition m3u_entry :: "string \<Rightarrow> string \<Rightarrow> pl_url res" where
  "m3u_entry url line =
     (if startswith line ''http'' then Inr (UBytes line)
      else if \<not> is_ascii url \<or> \<not> is_ascii line then Inl ValueError
      else bindR (urljoin url line) (\<lambda>u. Inr (UBytes u)))"

definition m3u_playlist :: "string \<Rightarrow> string \<Rightarrow> pl_url list res" where
  "m3u_playlist url str =
     mapR (m3u_entry url) (filter (\<lambda>line. \<not> startswith line ''#'' \<and> line \<noteq> []) (bytes_splitlines str))"

text \<open>Adding the lower case names to the attributes while their names are run through fails, unless all are
  there already. The second attempt at a document that is not well formed searches bytes for a text.\<close>

fun lower_attrs :: "(string \<times> string) list \<Rightarrow> string list \<Rightarrow> (string \<times> string) list res" where
  "lower_attrs attrs [] = Inr attrs"
| "lower_attrs attrs (k # ks) =
     (if has_key attrs (py_lower k)
      then bindR (dict_get attrs k) (\<lambda>v. lower_attrs (AList.update (py_lower k) v attrs) ks)
      else Inl (Raised ''RuntimeError''))"

lemma mapR_fun_cong [fundef_cong]:
  "xs = ys \<Longrightarrow> (\<And>x. x \<in> set ys \<Longrightarrow> f x = g x) \<Longrightarrow> mapR f xs = mapR g ys"
  by (induction xs arbitrary: ys) auto

fun normalize :: "xml \<Rightarrow> xml res" where
  "normalize (Elem tg as tx ch) =
     bindR (lower_attrs as (map fst as)) (\<lambda>as. bindR (mapR normalize ch) (\<lambda>ch. Inr (Elem (py_lower tg) as tx ch)))"

definition asx_playlist :: "(string \<Rightarrow> xml option) \<Rightarrow> string \<Rightarrow> pl_url list res" where
  "asx_playlist parse str =
     (case parse str of
        None \<Rightarrow> Inl TypeError
      | Some root \<Rightarrow>
          bindR (normalize root) (\<lambda>root.
            Inr (map (\<lambda>tmp. UStr (if endswith tmp wm_suffix then replace_str ''http'' ''mms'' tmp else tmp))
              (List.map_filter (\<lambda>x. if xml_tag x = ''ref'' then map_of (xml_attrs x) ''href'' else None)
                (xml_descendants root)))))"

definition xspf_tag :: "string \<Rightarrow> string" where
  "xspf_tag nm = ''{http://xspf.org/ns/0/}'' @ nm"

definition xspf_playlist :: "(string \<Rightarrow> xml option) \<Rightarrow> string \<Rightarrow> pl_url list res" where
  "xspf_playlist parse str =
     (case parse str of
        None \<Rightarrow> Inl (Raised ''ParseError'')
      | Some root \<Rightarrow>
          Inr (map (\<lambda>x. case xml_text x of Some t \<Rightarrow> UStr t | None \<Rightarrow> UNone)
            (concat (map (\<lambda>track. filter (\<lambda>x. xml_tag x = xspf_tag ''location'') (xml_children track))
              (filter (\<lambda>x. xml_tag x = xspf_tag ''track'') (xml_descendants root))))))"

text \<open>The RAM decoder never gets to decoding: it asks for its playlist under a misspelled name.\<close>

fun decode_playlist :: "(string \<Rightarrow> xml option) \<Rightarrow> decoder \<Rightarrow> string \<Rightarrow> string \<Rightarrow> pl_url list res" where
  "decode_playlist parse Pls url = pls_playlist"
| "decode_playlist parse Asx url = asx_playlist parse"
| "decode_playlist parse Asf url = asf_playlist"
| "decode_playlist parse Xspf url = xspf_playlist parse"
| "decode_playlist parse Ram url = (\<lambda>_. Inl NameError)"
| "decode_playlist parse M3u url = m3u_playlist url"

section \<open>Requests\<close>

text \<open>What comes of a request: a reply with its type and its content, or a failure; or a redirection of
  status 302, which the program looks at before the library follows it.\<close>

datatype fetched = Reply "string option" string | HTTPFail | URLFail string | BadStatus string | OtherFail
  | Redirect302 "string option" fetched

definition mms_mark :: string where
  "mms_mark = ''MMS REDIRECT:''"

fun http_error_302 :: "fetched \<Rightarrow> fetched" where
  "http_error_302 (Redirect302 (Some newurl) rest) =
     (if startswith newurl ''mms:'' then URLFail (mms_mark @ newurl) else http_error_302 rest)"
| "http_error_302 (Redirect302 None rest) = http_error_302 rest"
| "http_error_302 f = f"

record url_info =
  ui_url :: string
  ui_playlist :: bool
  ui_type :: "string option"
  ui_decoder :: "decoder option"

definition direct :: "string \<Rightarrow> string option \<Rightarrow> url_info" where
  "direct url ctype = \<lparr>ui_url = url, ui_playlist = False, ui_type = ctype, ui_decoder = None\<rparr>"

definition url_text :: "pl_url \<Rightarrow> string res" where
  "url_text u =
     (case u of UStr s \<Rightarrow> Inr s | UBytes s \<Rightarrow> (if valid_utf8 s then Inr s else Inl ValueError) | UNone \<Rightarrow> Inl AttributeError)"

fun find_decoder :: "string \<Rightarrow> string \<Rightarrow> decoder list \<Rightarrow> decoder option res" where
  "find_decoder contentType firstbytes [] = Inr None"
| "find_decoder contentType firstbytes (d # ds) =
     bindR (stream_valid d contentType firstbytes) (\<lambda>b. if b then Inr (Some d) else find_decoder contentType firstbytes ds)"

text \<open>A reply without a content type has \<open>None\<close> as its type, and the first decoder fails on it.\<close>

definition media_stream_info :: "(string \<Rightarrow> fetched) \<Rightarrow> pl_url \<Rightarrow> url_info option res" where
  "media_stream_info web u =
     bindR (url_text u) (\<lambda>url.
       if \<not> startswith url ''http'' then Inr (Some (direct url None))
       else case http_error_302 (web url) of
              HTTPFail \<Rightarrow> Inr None
            | URLFail reason \<Rightarrow>
                if startswith reason ''MMS REDIRECT''
                then (if contains reason mms_mark
                      then Inr (Some (direct (join_with mms_mark (tl (split_str mms_mark reason))) None))
                      else Inl IndexError)
                else Inr None
            | BadStatus line \<Rightarrow> Inr (if startswith line ''ICY 200'' then Some (direct url None) else None)
            | OtherFail \<Rightarrow> Inr None
            | Redirect302 _ _ \<Rightarrow> Inr None
            | Reply None _ \<Rightarrow> Inl TypeError
            | Reply (Some contentType) content \<Rightarrow>
                bindR (find_decoder contentType (take 500 content) decoders) (\<lambda>d.
                  case d of
                    Some d \<Rightarrow> Inr (Some \<lparr>ui_url = url, ui_playlist = True, ui_type = Some contentType, ui_decoder = Some d\<rparr>)
                  | None \<Rightarrow> Inr (Some (direct url (Some contentType)))))"

section \<open>The program\<close>

text \<open>The network at a round: requests with the handler of redirections and a timeout, and the plain
  requests for playlists, which raise, and which have no timeout: None when no answer ever comes.\<close>

record network =
  nw_open :: "nat \<Rightarrow> string \<Rightarrow> fetched"
  nw_read :: "nat \<Rightarrow> string \<Rightarrow> string res option"
  nw_xml :: "string \<Rightarrow> xml option"

definition get_playlist :: "network \<Rightarrow> nat \<Rightarrow> url_info \<Rightarrow> pl_url list res option" where
  "get_playlist nw n ui =
     (case ui_decoder ui of
        None \<Rightarrow> Some (Inl AttributeError)
      | Some d \<Rightarrow>
          if d = Ram then Some (Inl NameError)
          else map_option (\<lambda>r. bindR r (decode_playlist (nw_xml nw) d (ui_url ui))) (nw_read nw n (ui_url ui)))"

text \<open>One round of the loop; an empty playlist ends the program with status 1.\<close>

definition round1 :: "network \<Rightarrow> nat \<Rightarrow> url_info \<Rightarrow> url_info option res option" where
  "round1 nw n ui =
     map_option (\<lambda>r. bindR r (\<lambda>playlist.
       case playlist of
         [] \<Rightarrow> Inl (SystemExit 1)
       | stream # _ \<Rightarrow> media_stream_info (nw_open nw (n + 1)) stream)) (get_playlist nw n ui)"

text \<open>What is printed at the end: a URL, or an empty line.\<close>

partial_function (option) fetch_loop :: "network \<Rightarrow> nat \<Rightarrow> url_info option \<Rightarrow> string option res option" where
  "fetch_loop nw n u =
     (case u of
        None \<Rightarrow> Some (Inr None)
      | Some ui \<Rightarrow>
          if \<not> ui_playlist ui then Some (Inr (Some (ui_url ui)))
          else case round1 nw n ui of
                 None \<Rightarrow> None
               | Some (Inl e) \<Rightarrow> Some (Inl e)
               | Some (Inr u') \<Rightarrow> fetch_loop nw (n + 1) u')"

definition fetch_stream_main :: "network \<Rightarrow> string \<Rightarrow> string option res option" where
  "fetch_stream_main nw url =
     (case media_stream_info (nw_open nw 0) (UStr url) of
        Inl e \<Rightarrow> Some (Inl e)
      | Inr u \<Rightarrow> fetch_loop nw 0 u)"

section \<open>How the program ends\<close>

text \<open>
  What becomes of a URL at a round, without the program: it is the URL of a playlist that a decoder
  knows, and then it leads to the first entry of the playlist; or the search stops with a result; or
  the playlist never comes.
\<close>

inductive playlist_at :: "network \<Rightarrow> nat \<Rightarrow> pl_url \<Rightarrow> string \<Rightarrow> decoder \<Rightarrow> bool" for nw n where
  "url_text u = Inr url \<Longrightarrow> startswith url ''http'' \<Longrightarrow>
   http_error_302 (nw_open nw n url) = Reply (Some ctype) content \<Longrightarrow>
   find_decoder ctype (take 500 content) decoders = Inr (Some d) \<Longrightarrow> playlist_at nw n u url d"

inductive playlist_step :: "network \<Rightarrow> nat \<Rightarrow> pl_url \<Rightarrow> pl_url \<Rightarrow> bool" for nw n where
  "playlist_at nw n u url d \<Longrightarrow> d \<noteq> Ram \<Longrightarrow> nw_read nw n url = Some (Inr str) \<Longrightarrow>
   decode_playlist (nw_xml nw) d url str = Inr (v # vs) \<Longrightarrow> playlist_step nw n u v"

inductive read_hangs :: "network \<Rightarrow> nat \<Rightarrow> pl_url \<Rightarrow> bool" for nw n where
  "playlist_at nw n u url d \<Longrightarrow> d \<noteq> Ram \<Longrightarrow> nw_read nw n url = None \<Longrightarrow> read_hangs nw n u"

text \<open>What a request that brings no reply with a type comes to: nothing usable, the stream of an MMS
  redirection or of an old radio server, or an error.\<close>

inductive no_reply :: "string \<Rightarrow> fetched \<Rightarrow> string option res \<Rightarrow> bool" for url where
  "no_reply url HTTPFail (Inr None)"
| "no_reply url OtherFail (Inr None)"
| "\<not> startswith reason ''MMS REDIRECT'' \<Longrightarrow> no_reply url (URLFail reason) (Inr None)"
| "startswith reason ''MMS REDIRECT'' \<Longrightarrow> py_find reason mms_mark = Some k \<Longrightarrow>
   no_reply url (URLFail reason) (Inr (Some (drop (k + length mms_mark) reason)))"
| "startswith reason ''MMS REDIRECT'' \<Longrightarrow> py_find reason mms_mark = None \<Longrightarrow>
   no_reply url (URLFail reason) (Inl IndexError)"
| "startswith line ''ICY 200'' \<Longrightarrow> no_reply url (BadStatus line) (Inr (Some url))"
| "\<not> startswith line ''ICY 200'' \<Longrightarrow> no_reply url (BadStatus line) (Inr None)"
| "no_reply url (Reply None content) (Inl TypeError)"

inductive stops :: "network \<Rightarrow> nat \<Rightarrow> pl_url \<Rightarrow> string option res \<Rightarrow> bool" for nw n where
  st_text: "url_text u = Inl e \<Longrightarrow> stops nw n u (Inl e)"
| st_scheme: "url_text u = Inr url \<Longrightarrow> \<not> startswith url ''http'' \<Longrightarrow> stops nw n u (Inr (Some url))"
| st_failed: "url_text u = Inr url \<Longrightarrow> startswith url ''http'' \<Longrightarrow>
     no_reply url (http_error_302 (nw_open nw n url)) r \<Longrightarrow> stops nw n u r"
| st_undecided: "url_text u = Inr url \<Longrightarrow> startswith url ''http'' \<Longrightarrow>
     http_error_302 (nw_open nw n url) = Reply (Some ctype) content \<Longrightarrow>
     find_decoder ctype (take 500 content) decoders = Inl e \<Longrightarrow> stops nw n u (Inl e)"
| st_stream: "url_text u = Inr url \<Longrightarrow> startswith url ''http'' \<Longrightarrow>
     http_error_302 (nw_open nw n url) = Reply (Some ctype) content \<Longrightarrow>
     find_decoder ctype (take 500 content) decoders = Inr None \<Longrightarrow> stops nw n u (Inr (Some url))"
| st_ram: "playlist_at nw n u url Ram \<Longrightarrow> stops nw n u (Inl NameError)"
| st_read: "playlist_at nw n u url d \<Longrightarrow> d \<noteq> Ram \<Longrightarrow> nw_read nw n url = Some (Inl e) \<Longrightarrow> stops nw n u (Inl e)"
| st_decode: "playlist_at nw n u url d \<Longrightarrow> d \<noteq> Ram \<Longrightarrow> nw_read nw n url = Some (Inr str) \<Longrightarrow>
     decode_playlist (nw_xml nw) d url str = Inl e \<Longrightarrow> stops nw n u (Inl e)"
| st_empty: "playlist_at nw n u url d \<Longrightarrow> d \<noteq> Ram \<Longrightarrow> nw_read nw n url = Some (Inr str) \<Longrightarrow>
     decode_playlist (nw_xml nw) d url str = Inr [] \<Longrightarrow> stops nw n u (Inl (SystemExit 1))"

text \<open>The URLs on the way, from round \<open>n\<close> on.\<close>

inductive chain :: "network \<Rightarrow> nat \<Rightarrow> pl_url \<Rightarrow> nat \<Rightarrow> pl_url \<Rightarrow> bool" for nw where
  ch_here: "chain nw n u n u"
| ch_step: "playlist_step nw n u v \<Longrightarrow> chain nw (Suc n) v k w \<Longrightarrow> chain nw n u k w"

lemma http_error_302_final: "http_error_302 f \<noteq> Redirect302 a b"
  by (induction f rule: http_error_302.induct) auto

lemma mms_rest:
  assumes "py_find reason mms_mark = Some k"
  shows "join_with mms_mark (tl (split_str mms_mark reason)) = drop (k + length mms_mark) reason"
  using assms join_split_str [of mms_mark] by (subst split_str.simps) (simp add: mms_mark_def)

text \<open>The program at a URL: what \<open>media_stream_info\<close> makes of it, and one round.\<close>

lemma media_playlist:
  assumes "playlist_at nw n u url d"
  obtains ctype where "media_stream_info (nw_open nw n) u =
    Inr (Some \<lparr>ui_url = url, ui_playlist = True, ui_type = Some ctype, ui_decoder = Some d\<rparr>)"
  using assms by cases (simp add: media_stream_info_def)

lemma media_no_reply:
  assumes "url_text u = Inr url" and "startswith url ''http''" and "no_reply url (http_error_302 (nw_open nw n url)) r"
  shows "\<exists>x. media_stream_info (nw_open nw n) u = x \<and>
    (case x of Inl e \<Rightarrow> r = Inl e | Inr None \<Rightarrow> r = Inr None | Inr (Some ui) \<Rightarrow> \<not> ui_playlist ui \<and> r = Inr (Some (ui_url ui)))"
  using assms(3) assms(1,2) mms_rest
  by cases (auto simp: media_stream_info_def direct_def contains_def)

text \<open>The loop, entered at a URL.\<close>

definition visit :: "network \<Rightarrow> nat \<Rightarrow> pl_url \<Rightarrow> string option res option" where
  "visit nw n u = (case media_stream_info (nw_open nw n) u of Inl e \<Rightarrow> Some (Inl e) | Inr x \<Rightarrow> fetch_loop nw n x)"

definition halts :: "network \<Rightarrow> nat \<Rightarrow> url_info option res \<Rightarrow> string option res \<Rightarrow> bool" where
  "halts nw n x r \<longleftrightarrow>
     (case x of
        Inl e \<Rightarrow> r = Inl e
      | Inr None \<Rightarrow> r = Inr None
      | Inr (Some ui) \<Rightarrow>
          if ui_playlist ui then (\<exists>e. round1 nw n ui = Some (Inl e) \<and> r = Inl e) \<and>
            (\<nexists>v vs. get_playlist nw n ui = Some (Inr (v # vs)))
          else r = Inr (Some (ui_url ui)))"

lemma stops_halts:
  assumes "stops nw n u r"
  shows "halts nw n (media_stream_info (nw_open nw n) u) r"
  using assms
proof cases
  case (st_failed url)
  from media_no_reply [OF this] show ?thesis
    by (auto simp: halts_def split: sum.splits option.splits)
next
  case (st_ram url)
  from media_playlist [OF st_ram(2)] obtain ctype where m: "media_stream_info (nw_open nw n) u =
    Inr (Some \<lparr>ui_url = url, ui_playlist = True, ui_type = Some ctype, ui_decoder = Some Ram\<rparr>)" .
  show ?thesis unfolding m using st_ram(1) by (simp add: halts_def round1_def get_playlist_def)
next
  case (st_read url d e)
  from media_playlist [OF st_read(2)] obtain ctype where m: "media_stream_info (nw_open nw n) u =
    Inr (Some \<lparr>ui_url = url, ui_playlist = True, ui_type = Some ctype, ui_decoder = Some d\<rparr>)" .
  show ?thesis unfolding m using st_read by (simp add: halts_def round1_def get_playlist_def)
next
  case (st_decode url d str e)
  from media_playlist [OF st_decode(2)] obtain ctype where m: "media_stream_info (nw_open nw n) u =
    Inr (Some \<lparr>ui_url = url, ui_playlist = True, ui_type = Some ctype, ui_decoder = Some d\<rparr>)" .
  show ?thesis unfolding m using st_decode by (simp add: halts_def round1_def get_playlist_def)
next
  case (st_empty url d str)
  from media_playlist [OF st_empty(2)] obtain ctype where m: "media_stream_info (nw_open nw n) u =
    Inr (Some \<lparr>ui_url = url, ui_playlist = True, ui_type = Some ctype, ui_decoder = Some d\<rparr>)" .
  show ?thesis unfolding m using st_empty by (simp add: halts_def round1_def get_playlist_def)
qed (simp_all add: halts_def media_stream_info_def direct_def)

lemma step_round:
  assumes "playlist_step nw n u v"
  obtains ui where "media_stream_info (nw_open nw n) u = Inr (Some ui)" and "ui_playlist ui"
    and "\<exists>vs. get_playlist nw n ui = Some (Inr (v # vs))" and "round1 nw n ui = Some (media_stream_info (nw_open nw (Suc n)) v)"
  using assms
proof cases
  case (1 url d str vs)
  from media_playlist [OF 1(1)] obtain ctype where m: "media_stream_info (nw_open nw n) u =
    Inr (Some \<lparr>ui_url = url, ui_playlist = True, ui_type = Some ctype, ui_decoder = Some d\<rparr>)" .
  show thesis by (rule that [OF m]) (use 1 in \<open>simp_all add: round1_def get_playlist_def\<close>)
qed

lemma hang_round:
  assumes "read_hangs nw n u"
  obtains ui where "media_stream_info (nw_open nw n) u = Inr (Some ui)" and "ui_playlist ui" and "get_playlist nw n ui = None"
    and "round1 nw n ui = None"
  using assms
proof cases
  case (1 url d)
  from media_playlist [OF 1(1)] obtain ctype where m: "media_stream_info (nw_open nw n) u =
    Inr (Some \<lparr>ui_url = url, ui_playlist = True, ui_type = Some ctype, ui_decoder = Some d\<rparr>)" .
  show thesis by (rule that [OF m]) (use 1 in \<open>simp_all add: round1_def get_playlist_def\<close>)
qed

text \<open>One of the three always happens, and only one.\<close>

lemma url_fate: "(\<exists>r. stops nw n u r) \<or> read_hangs nw n u \<or> (\<exists>v. playlist_step nw n u v)"
proof (cases "url_text u")
  case (Inl e)
  then show ?thesis by (blast intro: st_text)
next
  case (Inr url)
  show ?thesis
  proof (cases "startswith url ''http''")
    case False
    with Inr show ?thesis by (blast intro: st_scheme)
  next
    case http: True
    have failed: "no_reply url f r \<Longrightarrow> f = http_error_302 (nw_open nw n url) \<Longrightarrow> ?thesis" for f r
      using st_failed [OF Inr http] by blast
    show ?thesis
    proof (cases "http_error_302 (nw_open nw n url)")
      case (Reply ct content)
      show ?thesis
      proof (cases ct)
        case None
        then show ?thesis using failed [OF no_reply.intros(8)] Reply by simp
      next
        case (Some ctype)
        note reply = Reply [unfolded Some]
        show ?thesis
        proof (cases "find_decoder ctype (take 500 content) decoders")
          case (Inl e)
          with Inr http reply show ?thesis by (blast intro: st_undecided)
        next
          case dec: (Inr dd)
          show ?thesis
          proof (cases dd)
            case None
            with Inr http reply dec show ?thesis by (blast intro: st_stream)
          next
            case (Some d)
            have at: "playlist_at nw n u url d" using Inr http reply dec Some by (auto intro: playlist_at.intros)
            show ?thesis
            proof (cases "d = Ram")
              case True
              with at show ?thesis by (blast intro: st_ram)
            next
              case ram: False
              consider "nw_read nw n url = None" | e where "nw_read nw n url = Some (Inl e)"
                | str e where "nw_read nw n url = Some (Inr str)" "decode_playlist (nw_xml nw) d url str = Inl e"
                | str where "nw_read nw n url = Some (Inr str)" "decode_playlist (nw_xml nw) d url str = Inr []"
                | str v vs where "nw_read nw n url = Some (Inr str)" "decode_playlist (nw_xml nw) d url str = Inr (v # vs)"
                by (metis list.exhaust option.exhaust sum.exhaust)
              then show ?thesis
                using at ram by cases (blast intro: read_hangs.intros st_read st_decode st_empty playlist_step.intros)+
            qed
          qed
        qed
      qed
    next
      case (URLFail reason)
      have "\<exists>r. no_reply url (URLFail reason) r"
        by (cases "startswith reason ''MMS REDIRECT''"; cases "py_find reason mms_mark") (blast intro: no_reply.intros)+
      then show ?thesis using failed URLFail by metis
    next
      case (BadStatus line)
      have "\<exists>r. no_reply url (BadStatus line) r"
        by (cases "startswith line ''ICY 200''") (blast intro: no_reply.intros)+
      then show ?thesis using failed BadStatus by metis
    next
      case HTTPFail
      then show ?thesis using failed [OF no_reply.intros(1)] by simp
    next
      case OtherFail
      then show ?thesis using failed [OF no_reply.intros(2)] by simp
    next
      case (Redirect302 a b)
      then show ?thesis using http_error_302_final by metis
    qed
  qed
qed

lemma step_deterministic:
  assumes "playlist_step nw n u v" and "playlist_step nw n u w"
  shows "v = w"
proof -
  obtain ui where "media_stream_info (nw_open nw n) u = Inr (Some ui)" "\<exists>vs. get_playlist nw n ui = Some (Inr (v # vs))"
    using step_round [OF assms(1)] by metis
  moreover obtain uj where "media_stream_info (nw_open nw n) u = Inr (Some uj)" "\<exists>vs. get_playlist nw n uj = Some (Inr (w # vs))"
    using step_round [OF assms(2)] by metis
  ultimately show ?thesis by auto
qed

lemma stops_no_step: "stops nw n u r \<Longrightarrow> \<not> playlist_step nw n u v"
proof
  assume "stops nw n u r" and "playlist_step nw n u v"
  note s = this
  obtain ui where "media_stream_info (nw_open nw n) u = Inr (Some ui)" "ui_playlist ui"
      "\<exists>vs. get_playlist nw n ui = Some (Inr (v # vs))"
    by (rule step_round [OF s(2)]) blast
  with stops_halts [OF s(1)] show False by (simp add: halts_def)
qed

lemma hangs_no_step: "read_hangs nw n u \<Longrightarrow> \<not> playlist_step nw n u v"
proof
  assume "read_hangs nw n u" and "playlist_step nw n u v"
  note s = this
  obtain ui where "media_stream_info (nw_open nw n) u = Inr (Some ui)" "\<exists>vs. get_playlist nw n ui = Some (Inr (v # vs))"
    by (rule step_round [OF s(2)]) blast
  moreover obtain uj where "media_stream_info (nw_open nw n) u = Inr (Some uj)" "get_playlist nw n uj = None"
    by (rule hang_round [OF s(1)]) blast
  ultimately show False by simp
qed

text \<open>What the loop does in each case.\<close>

lemma visit_stops: "stops nw n u r \<Longrightarrow> visit nw n u = Some r" (is "_ \<Longrightarrow> ?thesis")
proof -
  assume "stops nw n u r"
  note h = stops_halts [OF this]
  show ?thesis
  proof (cases "media_stream_info (nw_open nw n) u")
    case (Inl e)
    with h show ?thesis by (simp add: halts_def visit_def)
  next
    case (Inr x)
    show ?thesis
    proof (cases x)
      case None
      with h Inr fetch_loop.simps [of nw n None] show ?thesis by (simp add: halts_def visit_def)
    next
      case (Some ui)
      with h Inr fetch_loop.simps [of nw n "Some ui"] show ?thesis
        by (cases "ui_playlist ui") (auto simp: halts_def visit_def)
    qed
  qed
qed


lemma visit_step:
  assumes "playlist_step nw n u v"
  shows "visit nw n u = visit nw (Suc n) v"
proof -
  obtain ui where "media_stream_info (nw_open nw n) u = Inr (Some ui)" "ui_playlist ui"
      "round1 nw n ui = Some (media_stream_info (nw_open nw (Suc n)) v)"
    using step_round [OF assms] by metis
  then show ?thesis
    using fetch_loop.simps [of nw n "Some ui"] by (simp add: visit_def split: sum.split)
qed

lemma visit_chain: "chain nw n u k v \<Longrightarrow> visit nw n u = visit nw k v"
  by (induction rule: chain.induct) (simp_all add: visit_step)

text \<open>A search that returns went along a chain to where it stops.\<close>

lemma fetch_loop_returns:
  assumes "fetch_loop nw n x = Some r"
  shows "media_stream_info (nw_open nw n) u = Inr x \<Longrightarrow> \<exists>k v r'. chain nw n u k v \<and> stops nw k v r'"
proof -
  let ?P = "\<lambda>nw n x (r :: string option res). \<forall>u. media_stream_info (nw_open nw n) u = Inr x \<longrightarrow>
      (\<exists>k v r'. chain nw n u k v \<and> stops nw k v r')"
  have "?P nw n x r"
  proof (rule fetch_loop.raw_induct [where P = ?P, OF _ assms], intro allI impI)
    fix loop nw n x r u
    assume IH: "\<And>nw n x r. loop nw n x = Some r \<Longrightarrow> ?P nw n x r"
      and body: "(case x of
        None \<Rightarrow> Some (Inr None)
      | Some ui \<Rightarrow>
          if \<not> ui_playlist ui then Some (Inr (Some (ui_url ui)))
          else case round1 nw n ui of
                 None \<Rightarrow> None
               | Some (Inl e) \<Rightarrow> Some (Inl e)
               | Some (Inr u') \<Rightarrow> loop nw (n + 1) u') = Some r"
      and u: "media_stream_info (nw_open nw n) u = Inr x"
    consider r' where "stops nw n u r'" | "read_hangs nw n u" | v where "playlist_step nw n u v" using url_fate by blast
    then show "\<exists>k v r'. chain nw n u k v \<and> stops nw k v r'"
    proof cases
      case 1
      then show ?thesis by (blast intro: ch_here)
    next
      case 2
      obtain ui where "media_stream_info (nw_open nw n) u = Inr (Some ui)" "ui_playlist ui" "round1 nw n ui = None"
        using hang_round [OF 2] by metis
      moreover from this(1) have "x = Some ui" using u by simp
      ultimately show ?thesis using body by simp
    next
      case (3 v)
      obtain ui where ui: "media_stream_info (nw_open nw n) u = Inr (Some ui)" "ui_playlist ui"
          "round1 nw n ui = Some (media_stream_info (nw_open nw (Suc n)) v)"
        using step_round [OF 3] by metis
      have "\<exists>k w r'. chain nw (Suc n) v k w \<and> stops nw k w r'"
      proof (cases "media_stream_info (nw_open nw (Suc n)) v")
        case (Inl e)
        then have "\<not> read_hangs nw (Suc n) v" "\<nexists>w. playlist_step nw (Suc n) v w"
          using hang_round step_round by (metis Inl_Inr_False)+
        then show ?thesis using url_fate [of nw "Suc n" v] by (blast intro: ch_here)
      next
        case (Inr x')
        have "x = Some ui" using u ui(1) by simp
        then have "loop nw (n + 1) x' = Some r" using body ui Inr by simp
        from IH [OF this] Inr show ?thesis by simp
      qed
      then show ?thesis using ch_step [OF 3] by blast
    qed
  qed
  then show "media_stream_info (nw_open nw n) u = Inr x \<Longrightarrow> \<exists>k v r'. chain nw n u k v \<and> stops nw k v r'" by blast
qed

lemma visit_returns:
  assumes "visit nw n u = Some r"
  shows "\<exists>k v. chain nw n u k v \<and> stops nw k v r"
proof -
  have "\<exists>k v r'. chain nw n u k v \<and> stops nw k v r'"
  proof (cases "media_stream_info (nw_open nw n) u")
    case (Inl e)
    then have "\<not> read_hangs nw n u" "\<nexists>w. playlist_step nw n u w"
      using hang_round step_round by (metis Inl_Inr_False)+
    then show ?thesis using url_fate [of nw n u] by (blast intro: ch_here)
  next
    case (Inr x)
    then show ?thesis using assms fetch_loop_returns [of nw n x r u] by (simp add: visit_def)
  qed
  then obtain k v r' where c: "chain nw n u k v" "stops nw k v r'" by blast
  then have "r' = r" using assms visit_chain visit_stops by fastforce
  with c show ?thesis by blast
qed

lemma chain_along: "chain nw n u k v \<Longrightarrow> f n = u \<Longrightarrow> \<forall>j. playlist_step nw j (f j) (f (Suc j)) \<Longrightarrow> v = f k"
proof (induction rule: chain.induct)
  case (ch_step n u v k w)
  then have "f (Suc n) = v" using step_deterministic by metis
  with ch_step show ?case by blast
qed simp




text \<open>A playlist that leads back to itself, and a RAM playlist.\<close>

lemma playlist_circle:
  assumes "\<And>n. playlist_step nw n (UStr url) (UStr url)"
  shows "fetch_stream_main nw url = None"
proof -
  have "fetch_stream_main nw url = visit nw 0 (UStr url)" by (simp add: fetch_stream_main_def visit_def)
  moreover have "visit nw 0 (UStr url) = None"
  proof (rule ccontr)
    assume "visit nw 0 (UStr url) \<noteq> None"
    then obtain k v r where c: "chain nw 0 (UStr url) k v" "stops nw k v r" using visit_returns by blast
    have "v = UStr url" using chain_along [OF c(1), of "\<lambda>_. UStr url"] assms by simp
    then show False using stops_no_step [OF c(2)] assms by blast
  qed
  ultimately show ?thesis by simp
qed

lemma ram_playlist_fails:
  assumes "startswith url ''http''" and "http_error_302 (nw_open nw 0 url) = Reply (Some ''audio/x-pn-realaudio'') content"
    and "\<not> startswith (py_lower (bytes_strip (take 500 content))) ''[playlist]''"
  shows "fetch_stream_main nw url = Some (Inl NameError)"
proof -
  have c: "\<not> contains ''audio/x-pn-realaudio'' ''audio/x-scpls''" "\<not> contains ''audio/x-pn-realaudio'' ''application/pls+xml''"
    "\<not> contains ''audio/x-pn-realaudio'' ''audio/x-ms-wax''" "\<not> contains ''audio/x-pn-realaudio'' ''video/x-ms-wvx''"
    "\<not> contains ''audio/x-pn-realaudio'' ''video/x-ms-asf''" "\<not> contains ''audio/x-pn-realaudio'' ''video/x-ms-wmv''"
    "\<not> contains ''audio/x-pn-realaudio'' ''application/xspf+xml''" "contains ''audio/x-pn-realaudio'' ''audio/x-pn-realaudio''"
    by code_simp+
  have "find_decoder ''audio/x-pn-realaudio'' (take 500 content) decoders = Inr (Some Ram)"
    using assms(3) by (simp add: decoders_def pls_valid_def asx_valid_def asf_valid_def xspf_valid_def ram_valid_def c)
  then have "playlist_at nw 0 (UStr url) url Ram"
    using assms(1,2) by (intro playlist_at.intros) (simp_all add: url_text_def)
  then have "visit nw 0 (UStr url) = Some (Inl NameError)" by (intro visit_stops st_ram)
  then show ?thesis by (simp add: fetch_stream_main_def visit_def)
qed

section \<open>Playlists that are read back\<close>

text \<open>A line without line ends.\<close>

definition one_line :: "string \<Rightarrow> bool" where
  "one_line s \<longleftrightarrow> CHR 0x0A \<notin> set s \<and> CHR 0x0D \<notin> set s"

lemma splitlines_line: "one_line s \<Longrightarrow> splitlines_acc acc (s @ CHR 0x0A # r) = (rev acc @ s) # splitlines_acc [] r"
  by (induction s arbitrary: acc) (auto simp: one_line_def)

lemma splitlines_lines:
  "list_all one_line ls \<Longrightarrow> bytes_splitlines (concat (map (\<lambda>l. l @ [CHR 0x0A]) ls)) = ls"
  by (induction ls) (auto simp: bytes_splitlines_def splitlines_line)

definition pls_lines :: "nat \<times> string \<times> string \<Rightarrow> string list" where
  "pls_lines e = (case e of (i, url, title) \<Rightarrow> [''File'' @ str_nat i @ ''='' @ url, ''Title'' @ str_nat i @ ''='' @ title])"

definition pls_file :: "(string \<times> string) list \<Rightarrow> string" where
  "pls_file es =
     concat (map (\<lambda>l. l @ [CHR 0x0A]) (''[playlist]'' # concat (map pls_lines (enumerate 1 es))))"

lemma strip_front:
  assumes "a \<noteq> []" and "\<not> P (hd a)" and "\<not> P (last a)"
  shows "\<exists>t. strip P (a @ s) = a @ t"
proof -
  have "lstrip P (a @ s) = a @ s" using assms(1,2) by (simp add: lstrip_hd)
  moreover have "\<exists>t. rstrip P (a @ s) = a @ t"
  proof (cases "\<forall>c \<in> set s. P c")
    case True
    moreover have "dropWhile P (rev a) = rev a"
      using assms(1,3) by (cases a rule: rev_cases) auto
    ultimately have "rstrip P (a @ s) = a @ []" by (simp add: rstrip_def dropWhile_append)
    then show ?thesis by blast
  next
    case False
    then have "rstrip P (a @ s) = a @ rstrip P s" by (auto simp: rstrip_def dropWhile_append)
    then show ?thesis by blast
  qed
  ultimately show ?thesis by (simp add: strip_def)
qed

lemma pls_lines_one_line:
  "list_all (\<lambda>(u, t). one_line u \<and> one_line t) es \<Longrightarrow>
   list_all one_line (''[playlist]'' # concat (map pls_lines (enumerate k es)))"
proof -
  have d: "one_line (str_nat i)" for i using str_nat_digits by (fastforce simp: one_line_def is_digit_def)
  show "list_all (\<lambda>(u, t). one_line u \<and> one_line t) es \<Longrightarrow> ?thesis"
    by (induction es arbitrary: k) (use d in \<open>auto simp: pls_lines_def one_line_def\<close>)
qed

lemma after_equals_numbered:
  "after_equals (''File'' @ str_nat i @ ''='' @ url) = Inr url"
proof -
  have "c \<noteq> CHR ''=''" if "c \<in> set (str_nat i)" for c
    using str_nat_digits [OF that] by (auto simp: is_digit_def)
  then have "dropWhile (\<lambda>x. x \<noteq> CHR ''='') (str_nat i @ CHR ''='' # url) = CHR ''='' # url"
    by (subst dropWhile_append2) auto
  then show ?thesis by (simp add: after_equals_def cut_at_def)
qed

lemma pls_entries:
  "mapR (\<lambda>line. bindR (after_equals line) (\<lambda>u. Inr (UBytes u)))
     (filter (\<lambda>line. startswith line ''File'') (concat (map pls_lines (enumerate k es)))) =
   Inr (map (\<lambda>e. UBytes (fst e)) es)"
proof (induction es arbitrary: k)
  case (Cons e es)
  obtain u t where e: "e = (u, t)" by (cases e)
  have "\<not> startswith (''Title'' @ str_nat k @ ''='' @ t) ''File''" by simp
  then have "filter (\<lambda>line. startswith line ''File'') (pls_lines (k, e)) = [''File'' @ str_nat k @ ''='' @ u]"
    by (simp add: pls_lines_def e)
  with Cons.IH [of "Suc k"] show ?case
    using after_equals_numbered [of k u] by (simp add: e)
qed simp

lemma pls_file_known: "find_decoder ctype (take 500 (pls_file es)) decoders = Inr (Some Pls)"
proof -
  have "pls_file es = ''[playlist]'' @ (CHR 0x0A # concat (map (\<lambda>l. l @ [CHR 0x0A]) (concat (map pls_lines (enumerate 1 es)))))"
    by (simp add: pls_file_def)
  then obtain s where "take 500 (pls_file es) = ''[playlist]'' @ s" by (simp add: take_Cons')
  then obtain t where "bytes_strip (take 500 (pls_file es)) = ''[playlist]'' @ t"
    using strip_front [of "''[playlist]''" is_bspace s] by (auto simp: bytes_strip_def is_bspace_def)
  then have "startswith (py_lower (bytes_strip (take 500 (pls_file es)))) ''[playlist]''"
    by (simp add: py_lower_def lower_char_def)
  then show ?thesis by (simp add: decoders_def pls_valid_def)
qed

lemma pls_file_urls:
  assumes "list_all (\<lambda>(u, t). one_line u \<and> one_line t) es"
  shows "decode_playlist parse Pls url (pls_file es) = Inr (map (\<lambda>e. UBytes (fst e)) es)"
proof -
  have "bytes_splitlines (pls_file es) = ''[playlist]'' # concat (map pls_lines (enumerate 1 es))"
    unfolding pls_file_def by (rule splitlines_lines [OF pls_lines_one_line [OF assms]])
  then show ?thesis using pls_entries [of 1 es] by (simp add: pls_playlist_def)
qed

text \<open>C34. A PLS file is known as such by its content, whatever content type it is sent with, and its URLs
  are read back from it in order, for any URLs and titles without line ends.\<close>

theorem pls_file_read_back:
  assumes "list_all (\<lambda>(u, t). one_line u \<and> one_line t) es"
  shows "find_decoder ctype (take 500 (pls_file es)) decoders = Inr (Some Pls) \<and>
    decode_playlist parse Pls url (pls_file es) = Inr (map (\<lambda>e. UBytes (fst e)) es)"
  using pls_file_known pls_file_urls [OF assms] by simp

theorem pls_file_read_back_witness:
  "list_all (\<lambda>(u, t). one_line u \<and> one_line t) [(''http://h/a=b'', ''A''), (''http://h/c'', ''File'')] \<and>
   find_decoder ''text/html'' (take 500 (pls_file [(''http://h/a=b'', ''A''), (''http://h/c'', ''File'')])) decoders = Inr (Some Pls) \<and>
   decode_playlist (\<lambda>_. None) Pls [] (pls_file [(''http://h/a=b'', ''A''), (''http://h/c'', ''File'')]) =
     Inr [UBytes ''http://h/a=b'', UBytes ''http://h/c'']"
proof -
  have a: "list_all (\<lambda>(u, t). one_line u \<and> one_line t) [(''http://h/a=b'', ''A''), (''http://h/c'', ''File'')]" by code_simp
  from pls_file_read_back [OF a] a show ?thesis by simp
qed

section \<open>Relative entries of M3U files\<close>

text \<open>A component of a path without characters that have a meaning in URLs.\<close>

definition plain_name :: "string \<Rightarrow> bool" where
  "plain_name s \<longleftrightarrow> s \<noteq> [] \<and> s \<notin> {''.'', ''..''} \<and>
     list_all (\<lambda>c. is_digit c \<or> ascii_letter c \<or> c \<in> {CHR ''.'', CHR ''-'', CHR ''_''}) s"

lemma plain_chars:
  "plain_name s \<Longrightarrow> c \<in> set s \<Longrightarrow> 32 < (of_char c :: nat) \<and> (of_char c :: nat) < 128 \<and>
     c \<notin> set [CHR '':'', CHR ''/'', CHR ''?'', CHR ''#'', CHR '';'', CHR ''['', CHR '']'', CHR 0x0D, CHR 0x0A, CHR 0x09]"
  by (auto simp: plain_name_def list_all_iff is_digit_def ascii_letter_def Let_def)

definition slashed :: "string list \<Rightarrow> string" where
  "slashed ds = concat (map (\<lambda>d. CHR ''/'' # d) ds)"

lemma slashed_simps [simp]: "slashed [] = []" "slashed (d # ds) = CHR ''/'' # d @ slashed ds"
  "slashed (ds @ es) = slashed ds @ slashed es"
  by (simp_all add: slashed_def)

lemma split_on_end: "c \<notin> set a \<Longrightarrow> split_on c a = [a]"
  by (induction a) auto

lemma split_on_front: "c \<notin> set a \<Longrightarrow> split_on c (a @ c # s) = a # split_on c s"
  by (induction a) auto

lemma split_slashed: "list_all plain_name ds \<Longrightarrow> split_on (CHR ''/'') (slashed ds) = [] # ds"
proof (induction ds)
  case (Cons d ds)
  then have d: "CHR ''/'' \<notin> set d" by (auto dest: plain_chars)
  show ?case
  proof (cases ds)
    case Nil
    with d show ?thesis by (simp add: split_on_end)
  next
    case (Cons e es)
    then have "split_on (CHR ''/'') (d @ slashed ds) = d # split_on (CHR ''/'') (e @ slashed es)"
      using split_on_front [OF d] by simp
    moreover have "split_on (CHR ''/'') (slashed ds) = [] # split_on (CHR ''/'') (e @ slashed es)"
      using Cons by simp
    ultimately show ?thesis using Cons.IH Cons.prems by simp
  qed
qed simp

lemma url_char_facts:
  assumes "list_all plain_name ds" and "c \<in> set (slashed ds)"
  shows "c \<notin> set [CHR ''?'', CHR ''#'', CHR '';'', CHR ''['', CHR '']'', CHR 0x0D, CHR 0x0A, CHR 0x09]"
  using assms by (induction ds) (auto dest: plain_chars)

lemma cut_at_absent: "c \<notin> set s \<Longrightarrow> cut_at c s = (s, [])"
proof -
  assume "c \<notin> set s"
  then have c: "takeWhile (\<lambda>x. x \<noteq> c) s = s" "dropWhile (\<lambda>x. x \<noteq> c) s = []"
    by (auto simp: takeWhile_eq_all_conv dropWhile_eq_Nil_conv)
  show ?thesis unfolding cut_at_def c by simp
qed

lemma takeWhile_slashed:
  "list_all Q host \<Longrightarrow> \<not> Q (CHR ''/'') \<Longrightarrow> ds \<noteq> [] \<Longrightarrow> takeWhile Q (host @ slashed ds) = host"
  by (cases ds) (auto simp: list_all_iff takeWhile_append2)

lemma urlparse_absolute:
  assumes "plain_name host" and "list_all plain_name ds" and "ds \<noteq> []"
  shows "urlparse (''http://'' @ host @ slashed ds) [] =
    Inr \<lparr>u_scheme = ''http'', u_netloc = host, u_path = slashed ds, u_params = [], u_query = [], u_fragment = []\<rparr>"
proof -
  let ?url = "''http://'' @ host @ slashed ds"
  have f: "filter (\<lambda>c. c \<notin> {CHR 0x09, CHR 0x0A, CHR 0x0D}) ?url = ?url"
    using plain_chars [OF assms(1)] url_char_facts [OF assms(2)] by (auto simp: filter_id_conv)
  have l: "lstrip (\<lambda>c. (of_char c :: nat) \<le> 32) ?url = ?url" by (simp add: lstrip_def)
  have s: "url_scheme ?url = Some ''http''" "cut_scheme ?url = ''//'' @ host @ slashed ds"
    by (simp_all add: url_scheme_def cut_scheme_def ascii_letter_def scheme_char_def py_lower_def lower_char_def)
  have h: "list_all (\<lambda>c. c \<notin> {CHR ''/'', CHR ''?'', CHR ''#''}) host"
    using plain_chars [OF assms(1)] by (auto simp: list_all_iff)
  have n: "takeWhile (\<lambda>c. c \<notin> {CHR ''/'', CHR ''?'', CHR ''#''}) (host @ slashed ds) = host"
    by (rule takeWhile_slashed [OF h _ assms(3)]) simp
  have b: "CHR ''['' \<notin> set host" "CHR '']'' \<notin> set host" using plain_chars [OF assms(1)] by auto
  have c: "cut_netloc (''//'' @ host @ slashed ds) = Inr (slashed ds)"
    using n b by (simp add: cut_netloc_def Let_def)
  have a: "CHR ''#'' \<notin> set (slashed ds)" "CHR ''?'' \<notin> set (slashed ds)" "CHR '';'' \<notin> set (slashed ds)"
    using url_char_facts [OF assms(2)] by auto
  show ?thesis
    unfolding urlparse_def Let_def f l s c using n a by (simp add: cut_at_absent url_netloc_def)
qed

lemma urlparse_name:
  assumes "plain_name nm"
  shows "urlparse nm scheme =
    Inr \<lparr>u_scheme = scheme, u_netloc = [], u_path = nm, u_params = [], u_query = [], u_fragment = []\<rparr>"
proof -
  have p: "c \<notin> set [CHR '':'', CHR ''/'', CHR ''?'', CHR ''#'', CHR '';'', CHR 0x0D, CHR 0x0A, CHR 0x09]" if "c \<in> set nm" for c
    using plain_chars [OF assms that] by auto
  have ne: "nm \<noteq> []" using assms by (simp add: plain_name_def)
  have "32 < (of_char (hd nm) :: nat)" using ne plain_chars [OF assms, of "hd nm"] by simp
  then have l: "lstrip (\<lambda>c. (of_char c :: nat) \<le> 32) nm = nm" using ne by (simp add: lstrip_hd)
  have f: "filter (\<lambda>c. c \<notin> {CHR 0x09, CHR 0x0A, CHR 0x0D}) nm = nm" using p by (auto simp: filter_id_conv)
  have tw: "takeWhile (\<lambda>c. c \<noteq> CHR '':'') nm = nm" using p by (auto simp: takeWhile_eq_all_conv)
  have s: "url_scheme nm = None" "cut_scheme nm = nm" unfolding url_scheme_def cut_scheme_def tw Let_def by simp_all
  have "hd nm \<noteq> CHR ''/''" using ne p [of "hd nm"] by simp
  then have n: "\<not> startswith nm ''//''" using ne by (cases nm) auto
  have a: "CHR ''#'' \<notin> set nm" "CHR ''?'' \<notin> set nm" "CHR '';'' \<notin> set nm" using p by auto
  show ?thesis
    unfolding urlparse_def Let_def l f s using n a by (simp add: cut_netloc_def cut_at_absent url_netloc_def)
qed

lemma resolve_plain: "list_all plain_name ds \<Longrightarrow> resolve_dots acc ds = rev acc @ ds"
  by (induction ds arbitrary: acc) (auto simp: plain_name_def)

lemma join_slashed: "join_with ''/'' (a # ds) = a @ slashed ds"
  by (induction ds arbitrary: a) auto

lemma join_path_sibling:
  assumes "list_all plain_name (ds @ [f, nm])"
  shows "join_path (slashed (ds @ [f])) nm = slashed (ds @ [nm])"
proof -
  have b: "split_on (CHR ''/'') (slashed (ds @ [f])) = [] # ds @ [f]" using assms by (intro split_slashed) simp
  have "CHR ''/'' \<notin> set nm" using assms by (auto dest: plain_chars)
  then have n: "split_on (CHR ''/'') nm = [nm]" "\<not> startswith nm ''/''" by (auto simp: split_on_end startswith_iff)
  have f: "f \<noteq> []" and nm: "nm \<notin> {''.'', ''..''}" using assms by (auto simp: plain_name_def)
  have "filter (\<lambda>s. s \<noteq> []) ds = ds" using assms by (auto simp: filter_id_conv list_all_iff plain_name_def)
  then have d: "drop_empty_middle ([] # ds @ [nm]) = [] # ds @ [nm]" by (simp add: drop_empty_middle_def)
  have r: "resolve_dots [] ([] # ds @ [nm]) = [] # ds @ [nm]" using assms resolve_plain [of "ds @ [nm]" "[[]]"] by simp
  show ?thesis
    using b n f nm d r by (simp add: join_path_def Let_def join_slashed)
qed

lemma urljoin_sibling:
  assumes "plain_name host" and "list_all plain_name (ds @ [f, nm])"
  shows "urljoin (''http://'' @ host @ slashed (ds @ [f])) nm = Inr (''http://'' @ host @ slashed (ds @ [nm]))"
proof -
  have nm: "plain_name nm" and ds: "list_all plain_name (ds @ [f])" "ds @ [f] \<noteq> []" using assms(2) by simp_all
  have ne: "nm \<noteq> []" "host \<noteq> []" using nm assms(1) by (auto simp: plain_name_def)
  have h: "startswith (slashed (ds @ [nm])) ''/''" by (cases ds) auto
  show ?thesis
    unfolding urljoin_def urlparse_absolute [OF assms(1) ds] urlparse_name [OF nm]
    using ne h join_path_sibling [OF assms(2)]
    by (simp add: uses_relative_def uses_netloc_def urlunparse_def)
qed

text \<open>An entry of an M3U file that is a plain name is taken for a file beside it.\<close>

lemma m3u_sibling:
  assumes "plain_name host" and "list_all plain_name (ds @ [f, nm])" and "\<not> startswith nm ''http''"
  shows "m3u_entry (''http://'' @ host @ slashed (ds @ [f])) nm = Inr (UBytes (''http://'' @ host @ slashed (ds @ [nm])))"
proof -
  have a: "is_ascii s" if "plain_name s" for s using plain_chars [OF that] by (auto simp: is_ascii_def list_all_iff)
  have sl: "is_ascii (slashed es)" if "list_all plain_name es" for es
    using that a by (induction es) (auto simp: is_ascii_def)
  have "is_ascii (slashed (ds @ [f]))" by (rule sl) (use assms(2) in simp)
  moreover have "is_ascii host" "is_ascii nm" using assms(1,2) a by simp_all
  ultimately have "is_ascii (''http://'' @ host @ slashed (ds @ [f]))" "is_ascii nm" by (simp_all add: is_ascii_def)
  then show ?thesis using urljoin_sibling [OF assms(1,2)] assms(3) by (simp add: m3u_entry_def)
qed

section \<open>Failures\<close>

text \<open>A reply without a content type is meant to be a direct stream, but the program fails.\<close>

lemma no_type_fails:
  "startswith url ''http'' \<Longrightarrow> web url = Reply None content \<Longrightarrow> media_stream_info web (UStr url) = Inl TypeError"
  by (simp add: media_stream_info_def url_text_def)

text \<open>An ASF playlist is never read: its decoder fails on every reply of its type that is not ASX or PLS.\<close>

lemma asf_type_fails:
  "\<not> startswith (py_lower (bytes_strip content)) ''[playlist]'' \<Longrightarrow> \<not> startswith (py_lower (bytes_strip content)) ''<asx'' \<Longrightarrow>
   find_decoder ''video/x-ms-asf'' content decoders = Inl TypeError"
  by (simp add: decoders_def pls_valid_def asx_valid_def asf_valid_def)
     (simp add: contains_def)

text \<open>An attribute in capitals, which the normalisation is made for, makes it fail.\<close>

lemma capital_attribute_fails:
  "\<not> has_key attrs (py_lower k) \<Longrightarrow> normalize (Elem tg ((k, v) # attrs) tx ch) = Inl (Raised ''RuntimeError'') \<or> py_lower k = k"
  by (auto simp: has_key_def)

end
