(* ===== verification/RadioStreams.thy ===== *)
theory RadioStreams
  imports Radios StreamFetch PyJson
begin

text \<open>
  The radios of the configuration together with the program that finds their streams: \<open>upradioconf.py\<close>
  starts \<open>rdpl2stream/fetchStream.py\<close> for each radio and takes what it prints.
\<close>

text \<open>What a thread gets of the program: its output with the line end that \<open>print\<close> adds; nothing when the
  program fails, or when it cannot be started because the radio has no URL. \<open>None\<close> when it never returns.\<close>

definition stream_helper :: "network \<Rightarrow> string option \<Rightarrow> string option option" where
  "stream_helper nw uri =
     (case uri of
        None \<Rightarrow> Some None
      | Some url \<Rightarrow>
          (case fetch_stream_main nw url of
             None \<Rightarrow> None
           | Some (Inl e) \<Rightarrow> Some None
           | Some (Inr u) \<Rightarrow> Some (Some ((case u of Some s \<Rightarrow> s | None \<Rightarrow> []) @ [CHR 0x0A]))))"

text \<open>A thread whose helper returned.\<close>

definition fetch_radio :: "network \<Rightarrow> radio_task \<Rightarrow> radio option list \<Rightarrow> radio option list option" where
  "fetch_radio nw t radios =
     map_option (\<lambda>out. fetchStream (\<lambda>_. out) t radios) (stream_helper nw (tk_uri t))"

lemma valid_utf8_ascii_end: "valid_utf8 s \<Longrightarrow> (of_char c :: nat) < 128 \<Longrightarrow> valid_utf8 (s @ [c])"
proof (induction s rule: length_induct)
  case (1 s)
  show ?case
  proof (cases s)
    case Nil
    with 1 show ?thesis by simp
  next
    case (Cons a r)
    with 1 have v: "valid_utf8 (a # r)" by simp
    show ?thesis
      using v
    proof (cases rule: valid_utf8_cases)
      case one
      with 1 Cons show ?thesis by simp
    next
      case (two b r1)
      with 1 Cons have "valid_utf8 (r1 @ [c])" by simp
      with two Cons show ?thesis by (simp add: Let_def)
    next
      case (three b d r2)
      with 1 Cons have "valid_utf8 (r2 @ [c])" by simp
      with three Cons v show ?thesis by (simp add: Let_def)
    next
      case (four b d e r3)
      with 1 Cons have "valid_utf8 (r3 @ [c])" by simp
      with four Cons v show ?thesis by (simp add: Let_def)
    qed
  qed
qed

lemma fetchStream_line:
  assumes "valid_utf8 s" and "one_line s" and "s \<noteq> []"
  shows "fetchStream (\<lambda>_. Some (s @ [CHR 0x0A])) t radios =
    radios[tk_index t := Some \<lparr>rd_title = tk_title t, rd_streamUri = s, rd_uri = tk_uri t, rd_artUri = tk_artUri t,
      rd_mime = tk_mime t\<rparr>]"
proof -
  have "valid_utf8 (s @ [CHR 0x0A])" using valid_utf8_ascii_end [OF assms(1)] by simp
  moreover have "\<not> is_crlf (hd s)" "\<not> is_crlf (last s)"
    using assms(2,3) by (auto simp: one_line_def is_crlf_def) (metis hd_in_set, metis hd_in_set, metis last_in_set, metis last_in_set)
  ultimately show ?thesis
    using assms(3) rstrip_line_end [of s] lstrip_hd [of "s @ [CHR 0x0A]" is_crlf] by (simp add: fetchStream_def strip_def)
qed

text \<open>A reply is a direct stream when no decoder knows it.\<close>

lemma stream_helper_pls:
  assumes es: "list_all (\<lambda>(u, t). one_line u \<and> one_line t) ((s, t) # es)"
    and url: "startswith url ''http''" "http_error_302 (nw_open nw 0 url) = Reply (Some ctype) (pls_file ((s, t) # es))"
      "nw_read nw 0 url = Some (Inr (pls_file ((s, t) # es)))"
    and direct: "media_stream_info (nw_open nw 1) (UBytes s) = Inr (Some ui)" "\<not> ui_playlist ui"
  shows "stream_helper nw (Some url) = Some (Some (ui_url ui @ [CHR 0x0A]))"
proof -
  let ?ui = "\<lparr>ui_url = url, ui_playlist = True, ui_type = Some ctype, ui_decoder = Some Pls\<rparr>"
  have m: "media_stream_info (nw_open nw 0) (UStr url) = Inr (Some ?ui)"
    using url pls_file_known [of ctype] by (simp add: media_stream_info_def url_text_def)
  have r: "round1 nw 0 ?ui = Some (Inr (Some ui))"
    using url(3) direct(1) pls_file_urls [OF es] by (simp add: round1_def get_playlist_def)
  then have "fetch_loop nw 0 (Some ?ui) = fetch_loop nw 1 (Some ui)"
    by (subst fetch_loop.simps) simp
  also have "\<dots> = Some (Inr (Some (ui_url ui)))" using direct(2) by (subst fetch_loop.simps) simp
  finally have "fetch_loop nw 0 (Some ?ui) = Some (Inr (Some (ui_url ui)))" .
  with m show ?thesis by (simp add: stream_helper_def fetch_stream_main_def)
qed

text \<open>C32. A radio whose configured URL leads to a PLS file, sent with any content type, gets the first URL of
  the file as its stream, when that URL answers with something that is no playlist, and its slot is the only
  one that changes.\<close>

theorem radio_gets_stream:
  assumes "list_all (\<lambda>(u, t). one_line u \<and> one_line t) ((s, t) # es)" and "s \<noteq> []" and "valid_utf8 s"
    and "tk_uri task = Some url" and "startswith url ''http''"
    and "http_error_302 (nw_open nw 0 url) = Reply (Some ctype) (pls_file ((s, t) # es))"
    and "nw_read nw 0 url = Some (Inr (pls_file ((s, t) # es)))"
    and "startswith s ''http'' \<Longrightarrow> http_error_302 (nw_open nw 1 s) = Reply (Some stype) content"
    and "find_decoder stype (take 500 content) decoders = Inr None"
  shows "fetch_radio nw task radios = Some (radios[tk_index task := Some \<lparr>rd_title = tk_title task,
    rd_streamUri = s, rd_uri = Some url, rd_artUri = tk_artUri task, rd_mime = tk_mime task\<rparr>])"
proof -
  have "\<exists>ui. media_stream_info (nw_open nw 1) (UBytes s) = Inr (Some ui) \<and> \<not> ui_playlist ui \<and> ui_url ui = s"
    using assms(3,8,9) by (auto simp: media_stream_info_def url_text_def direct_def)
  then obtain ui where ui: "media_stream_info (nw_open nw 1) (UBytes s) = Inr (Some ui)" "\<not> ui_playlist ui" "ui_url ui = s"
    by blast
  have "stream_helper nw (Some url) = Some (Some (s @ [CHR 0x0A]))"
    using stream_helper_pls [OF assms(1,5-7) ui(1,2)] ui(3) by simp
  then show ?thesis using fetchStream_line [OF assms(3) _ assms(2)] assms(1,4) by (simp add: fetch_radio_def)
qed

theorem radio_gets_stream_witness:
  "\<exists>nw. fetch_radio nw \<lparr>tk_index = 1, tk_title = ''FIP'', tk_uri = Some ''http://r/fip.pls'', tk_artUri = None, tk_mime = None\<rparr>
     [None, None] = Some [None, Some \<lparr>rd_title = ''FIP'', rd_streamUri = ''http://r/s.mp3'',
       rd_uri = Some ''http://r/fip.pls'', rd_artUri = None, rd_mime = None\<rparr>]"
proof -
  define body where "body = pls_file [(''http://r/s.mp3'', ''hi''), (''http://r/t.mp3'', ''lo'')]"
  define nw where "nw = \<lparr>nw_open = (\<lambda>n u. if n = 0 then Redirect302 (Some ''http://r/x'') (Reply (Some ''text/plain'') body)
     else Reply (Some ''audio/mpeg'') ''ID3''), nw_read = (\<lambda>n u. Some (Inr body)), nw_xml = (\<lambda>_. None)\<rparr>"
  have o: "http_error_302 (nw_open nw 0 ''http://r/fip.pls'') = Reply (Some ''text/plain'') body"
    "http_error_302 (nw_open nw 1 ''http://r/s.mp3'') = Reply (Some ''audio/mpeg'') ''ID3''"
    "nw_read nw 0 ''http://r/fip.pls'' = Some (Inr body)" by (simp_all add: nw_def)
  have c: "list_all (\<lambda>(u, t). one_line u \<and> one_line t) [(''http://r/s.mp3'', ''hi''), (''http://r/t.mp3'', ''lo'')]"
    "valid_utf8 ''http://r/s.mp3''" "find_decoder ''audio/mpeg'' (take 500 ''ID3'') decoders = Inr None" by code_simp+
  show ?thesis
    using radio_gets_stream [OF c(1) _ c(2), of "\<lparr>tk_index = 1, tk_title = ''FIP'', tk_uri = Some ''http://r/fip.pls'',
        tk_artUri = None, tk_mime = None\<rparr>" "''http://r/fip.pls''" nw "''text/plain''" "''audio/mpeg''" "''ID3''" "[None, None]"]
      o [unfolded body_def] c(3) by (intro exI [of _ nw]) simp
qed

end
