(* ===== verification/PyHtml.thy ===== *)
theory PyHtml
  imports PyUrl PyJson
begin

text \<open>
  \<open>escape\<close> and \<open>unescape\<close> of the standard library's \<open>html\<close>. The table of the named characters of HTML 5, with
  more than two thousand names, is a parameter; what is used of it is that it has the four names that
  \<open>escape\<close> writes. The limit of 32 characters of a name counts bytes here, which is exact for ASCII.
\<close>

section \<open>Escaping\<close>

definition html_char :: "char \<Rightarrow> string" where
  "html_char c =
     (if c = CHR ''&'' then ''&amp;'' else if c = CHR ''<'' then ''&lt;'' else if c = CHR ''>'' then ''&gt;''
      else if c = CHR 0x22 then ''&quot;'' else if c = CHR 0x27 then ''&#x27;'' else [c])"

text \<open>\<open>escape(s, quote=True)\<close>; the ampersand is replaced first, so that each character is replaced once.\<close>

definition html_escape :: "string \<Rightarrow> string" where
  "html_escape s = concat (map html_char s)"

section \<open>Character references\<close>

text \<open>The references to characters that HTML 5 does not allow: those of an old code page, and those that
  stand for nothing.\<close>

definition old_charrefs :: "nat list" where
  "old_charrefs =
     [8364, 129, 8218, 402, 8222, 8230, 8224, 8225, 710, 8240, 352, 8249, 338, 141, 381, 143,
      144, 8216, 8217, 8220, 8221, 8226, 8211, 8212, 732, 8482, 353, 8250, 339, 157, 382, 376]"

definition invalid_charref :: "nat \<Rightarrow> nat option" where
  "invalid_charref n =
     (if n = 0 then Some 65533 else if n = 13 then Some 13
      else if 128 \<le> n \<and> n < 160 then Some (old_charrefs ! (n - 128)) else None)"

definition invalid_codepoint :: "nat \<Rightarrow> bool" where
  "invalid_codepoint n \<longleftrightarrow>
     (1 \<le> n \<and> n \<le> 8) \<or> n = 11 \<or> (14 \<le> n \<and> n \<le> 31) \<or> (127 \<le> n \<and> n \<le> 159) \<or>
     (64976 \<le> n \<and> n \<le> 65007) \<or> (65534 \<le> n \<and> n \<le> 1114111 \<and> n mod 65536 \<ge> 65534)"

definition charref_text :: "nat \<Rightarrow> string" where
  "charref_text n =
     (case invalid_charref n of
        Some m \<Rightarrow> utf8_of m
      | None \<Rightarrow>
          if (55296 \<le> n \<and> n \<le> 57343) \<or> 1114111 < n then utf8_of 65533
          else if invalid_codepoint n then [] else utf8_of n)"

definition digits_num :: "nat \<Rightarrow> string \<Rightarrow> nat" where
  "digits_num b s = fold (\<lambda>c n. n * b + (case hex_val c of Some d \<Rightarrow> d | None \<Rightarrow> 0)) s 0"

text \<open>A name that is not in the table is searched for the longest beginning that is, of two characters at
  least.\<close>

definition named_text :: "(string \<Rightarrow> string option) \<Rightarrow> string \<Rightarrow> string" where
  "named_text html5 s =
     (case html5 s of
        Some t \<Rightarrow> t
      | None \<Rightarrow>
          (case filter (\<lambda>x. html5 (take x s) \<noteq> None) (rev [2..<length s]) of
             [] \<Rightarrow> CHR ''&'' # s
           | x # _ \<Rightarrow> the (html5 (take x s)) @ drop x s))"

text \<open>The characters of a match with what they stand for, after an ampersand; and the rest.\<close>

definition take_semi :: "string \<Rightarrow> string \<times> string" where
  "take_semi s = (case s of c # r \<Rightarrow> if c = CHR '';'' then ('';'', r) else ([], s) | [] \<Rightarrow> ([], []))"

definition name_char :: "char \<Rightarrow> bool" where
  "name_char c \<longleftrightarrow> c \<notin> {CHR 0x09, CHR 0x0A, CHR 0x0C, CHR '' '', CHR ''<'', CHR ''&'', CHR ''#'', CHR '';''}"

definition charref_at :: "(string \<Rightarrow> string option) \<Rightarrow> string \<Rightarrow> (string \<times> string) option" where
  "charref_at html5 s =
     (case s of
        [] \<Rightarrow> None
      | c # r \<Rightarrow>
          if c = CHR ''#'' then
            (let ds = takeWhile is_digit r in
             if ds \<noteq> [] then Some (charref_text (digits_num 10 ds), snd (take_semi (drop (length ds) r)))
             else case r of
                    [] \<Rightarrow> None
                  | x # r1 \<Rightarrow>
                      let hs = takeWhile (\<lambda>c. hex_val c \<noteq> None) r1 in
                      if x \<in> {CHR ''x'', CHR ''X''} \<and> hs \<noteq> []
                      then Some (charref_text (digits_num 16 hs), snd (take_semi (drop (length hs) r1)))
                      else None)
          else
            let nm = takeWhile name_char (take 32 s); semi = take_semi (drop (length nm) s) in
            if nm \<noteq> [] then Some (named_text html5 (nm @ fst semi), snd semi) else None)"

lemma take_semi_shrink: "length (snd (take_semi s)) \<le> length s"
  by (auto simp: take_semi_def split: list.splits)

lemma charref_at_shrink: "charref_at html5 s = Some (t, r) \<Longrightarrow> length r < length s"
proof -
  assume h: "charref_at html5 s = Some (t, r)"
  have *: "length (snd (take_semi (drop (length w) u))) < length u" if "w \<noteq> []" "u \<noteq> []" for w u
    using take_semi_shrink [of "drop (length w) u"] that by (cases w; cases u) auto
  obtain c s' where s: "s = c # s'" using h by (cases s) (simp_all add: charref_at_def)
  show ?thesis
  proof (cases "c = CHR ''#''")
    case False
    then have "takeWhile name_char (take 32 s) \<noteq> []" "r = snd (take_semi (drop (length (takeWhile name_char (take 32 s))) s))"
      using h s by (auto simp: charref_at_def Let_def split: if_splits)
    then show ?thesis using * s by blast
  next
    case True
    show ?thesis
    proof (cases "takeWhile is_digit s' = []")
      case False
      then have "r = snd (take_semi (drop (length (takeWhile is_digit s')) s'))"
        using h s True by (simp add: charref_at_def Let_def)
      moreover have "s' \<noteq> []" using False by (metis takeWhile.simps(1))
      ultimately show ?thesis using * [OF False, of s'] s by simp
    next
      case digits: True
      then obtain x s1 where s1: "s' = x # s1" using h s True by (cases s') (auto simp: charref_at_def)
      let ?h = "takeWhile (\<lambda>c. hex_val c \<noteq> None) s1"
      have "?h \<noteq> []" "r = snd (take_semi (drop (length ?h) s1))"
        using h s s1 True digits by (auto simp: charref_at_def Let_def split: if_splits)
      moreover have "s1 \<noteq> []" using calculation(1) by (metis takeWhile.simps(1))
      ultimately show ?thesis using * [of ?h s1] s s1 by simp
    qed
  qed
qed

function html_unescape :: "(string \<Rightarrow> string option) \<Rightarrow> string \<Rightarrow> string" where
  "html_unescape html5 [] = []"
| "html_unescape html5 (c # s) =
     (if c = CHR ''&'' then
        (case charref_at html5 s of
           None \<Rightarrow> c # html_unescape html5 s
         | Some (t, r) \<Rightarrow> t @ html_unescape html5 r)
      else c # html_unescape html5 s)"
  by pat_completeness auto
termination
  by (relation "measure (\<lambda>(h, s). length s)") (auto dest: charref_at_shrink)

section \<open>Escaping is undone\<close>

definition has_escapes :: "(string \<Rightarrow> string option) \<Rightarrow> bool" where
  "has_escapes html5 \<longleftrightarrow>
     html5 ''amp;'' = Some ''&'' \<and> html5 ''lt;'' = Some ''<'' \<and> html5 ''gt;'' = Some ''>'' \<and>
     html5 ''quot;'' = Some [CHR 0x22]"

lemma charref_39: "charref_text (digits_num 16 ''27'') = [CHR 0x27]"
proof -
  have "(char_of (39 :: nat) :: char) = CHR 0x27" by code_simp
  then show ?thesis
    by (simp add: digits_num_def hex_val_def charref_text_def invalid_charref_def invalid_codepoint_def utf8_of_def)
qed

lemma name_chars:
  "name_char CHR ''a''" "name_char CHR ''m''" "name_char CHR ''p''" "name_char CHR ''l''" "name_char CHR ''t''"
  "name_char CHR ''g''" "name_char CHR ''q''" "name_char CHR ''u''" "name_char CHR ''o''" "\<not> name_char CHR '';''"
  by code_simp+

lemma named_at:
  assumes "list_all name_char nm" and "nm \<noteq> []" and "length nm < 32" and "html5 (nm @ '';'') = Some t"
  shows "charref_at html5 (nm @ CHR '';'' # s) = Some (t, s)"
proof -
  have "take 32 (nm @ CHR '';'' # s) = nm @ CHR '';'' # take (31 - length nm) s"
    using assms(3) by (simp add: take_Cons' Suc_diff_Suc)
  then have "takeWhile name_char (take 32 (nm @ CHR '';'' # s)) = nm"
    using assms(1) name_chars(10) by (simp add: takeWhile_append2 list_all_iff)
  moreover have "hd nm \<noteq> CHR ''#''" using assms(1,2) by (cases nm) (auto simp: name_char_def)
  ultimately show ?thesis
    using assms(2,4) by (cases nm) (simp_all add: charref_at_def take_semi_def named_text_def)
qed

lemma charref_at_escapes:
  assumes "has_escapes html5"
  shows "charref_at html5 (''amp;'' @ s) = Some (''&'', s)" "charref_at html5 (''lt;'' @ s) = Some (''<'', s)"
    "charref_at html5 (''gt;'' @ s) = Some (''>'', s)" "charref_at html5 (''quot;'' @ s) = Some ([CHR 0x22], s)"
    "charref_at html5 (''#x27;'' @ s) = Some ([CHR 0x27], s)"
proof -
  show "charref_at html5 (''#x27;'' @ s) = Some ([CHR 0x27], s)"
    using charref_39 by (simp add: charref_at_def take_semi_def is_digit_def hex_val_def Let_def)
qed (use assms named_at [of "''amp''" html5 "''&''" s] named_at [of "''lt''" html5 "''<''" s]
    named_at [of "''gt''" html5 "''>''" s] named_at [of "''quot''" html5 "[CHR 0x22]" s]
    in \<open>simp_all add: has_escapes_def name_chars\<close>)

lemma unescape_escape:
  assumes "has_escapes html5"
  shows "html_unescape html5 (html_escape s) = s"
proof (induction s)
  case Nil
  then show ?case by (simp add: html_escape_def)
next
  case (Cons c s)
  have u: "html_escape (c # s) = html_char c @ html_escape s" by (simp add: html_escape_def)
  show ?case
    using charref_at_escapes [OF assms, of "html_escape s"] Cons.IH
    by (simp add: u html_char_def)
qed

text \<open>The characters that escaping leaves.\<close>

lemma html_escape_chars: "c \<in> set (html_escape s) \<Longrightarrow> c \<in> set s \<or> c \<in> set ''&;amplgtquox27#''"
  by (auto simp: html_escape_def html_char_def split: if_splits)

lemma html_char_nonempty: "html_char c \<noteq> []"
  by (simp add: html_char_def)

lemma escape_Nil_iff [simp]: "html_escape s = [] \<longleftrightarrow> s = []"
  using html_char_nonempty by (cases s) (simp_all add: html_escape_def)

end
