(* ===== verification/RadioBrowser.thy ===== *)
theory RadioBrowser
  imports PyHtml PyTree PlgUtils
begin

text \<open>
  The plugin for the radio-browser service (\<open>radio-browser/radio-browser-app.py\<close>): the identifier of a
  directory is a path of criteria and chosen values, which is parsed back into the filters of a query. The
  client library of the service (pyradios) is not in the repository: a record of functions from requests
  to answers, each of which may raise.
\<close>

section \<open>The service\<close>

text \<open>A filtered set of radios: the radios, the values of the criteria among them, and its truth value.\<close>

record rb_facet =
  rf_result :: "json list"
  rf_countrycodes :: "json list"
  rf_languages :: "json list"
  rf_tags :: "json list"
  rf_true :: bool

record rb_world =
  rb_new :: "unit res"
  rb_countries :: "json list res"
  rb_facets :: "(string \<times> string) list \<Rightarrow> rb_facet res"
  rb_station_by_uuid :: "string \<Rightarrow> json list res"
  rb_search_radios :: "(string \<times> string) list \<Rightarrow> json res"
  rb_html5 :: "string \<Rightarrow> string option"

text \<open>The state: the names of the countries by their codes, once there is a client.\<close>

type_synonym rb_state = "(string \<times> string) list option"

fun store_countries :: "json list \<Rightarrow> (string \<times> string) list \<Rightarrow> (string \<times> string) list \<times> unit res" where
  "store_countries [] d = (d, Inr ())"
| "store_countries (c # cs) d =
     (case bindR (jt_get c ''name'') (\<lambda>v. bindR (jt_text v) (\<lambda>nm.
             bindR (jt_get c ''iso_3166_1'') (\<lambda>k. bindR (jt_text k) (\<lambda>code. Inr (code, nm))))) of
        Inl e \<Rightarrow> (d, Inl e)
      | Inr (code, nm) \<Rightarrow> store_countries cs (AList.update code nm d))"

definition initradios :: "rb_world \<Rightarrow> rb_state \<Rightarrow> rb_state \<times> unit res" where
  "initradios w st =
     (case st of
        Some d \<Rightarrow> (Some d, Inr ())
      | None \<Rightarrow>
          (case rb_new w of
             Inl e \<Rightarrow> (None, Inl e)
           | Inr _ \<Rightarrow>
               (case rb_countries w of
                  Inl e \<Rightarrow> (Some [], Inl e)
                | Inr cs \<Rightarrow> (let (d, r) = store_countries cs [] in (Some d, r)))))"

section \<open>Entries of radios\<close>

definition rb_prefix :: string where
  "rb_prefix = ''0$radio-browser$''"

fun jt_lower :: "json \<Rightarrow> string res" where
  "jt_lower (StrJ s) = Inr (py_lower s)"
| "jt_lower _ = Inl AttributeError"

definition rb_mime :: "string \<Rightarrow> string" where
  "rb_mime codec =
     (if codec = ''flac'' then ''audio/flac'' else if startswith codec ''aac'' then ''audio/aac''
      else if codec = ''ogg'' then ''audio/ogg'' else ''audio/mpeg'')"

text \<open>A value None is sent as null: the key is absent from the map.\<close>

definition rb_radiotoentry :: "string \<Rightarrow> string option \<Rightarrow> json \<Rightarrow> entry res" where
  "rb_radiotoentry pid i radio =
     bindR (case i of
         None \<Rightarrow>
           (if pid = [] then Inl IndexError
            else bindR (jt_get radio ''stationuuid'') (\<lambda>u. bindR (jt_str u) (\<lambda>uuid.
                   Inr ((if last pid \<noteq> CHR ''$'' then pid @ ''$'' else pid) @ uuid))))
       | Some objid \<Rightarrow> Inr objid) (\<lambda>objid.
     bindR (jt_in ''codec'' radio) (\<lambda>has_codec.
     bindR (if has_codec then bindR (jt_get radio ''codec'') (\<lambda>c. bindR (jt_lower c) (\<lambda>l. Inr (rb_mime l, c)))
            else Inr (''audio/mpeg'', StrJ ''Unknown'')) (\<lambda>(mime, codec).
     bindR (jt_get radio ''url_resolved'') (\<lambda>u. bindR (jt_opt_text u) (\<lambda>uri.
     bindR (jt_opt_text codec) (\<lambda>album.
     bindR (jt_get radio ''name'') (\<lambda>n. bindR (jt_opt_text n) (\<lambda>title.
     bindR (jt_in ''favicon'' radio) (\<lambda>has_icon.
     bindR (if has_icon then bindR (jt_get radio ''favicon'') jt_opt_text else Inr None) (\<lambda>icon.
       Inr ([''pid'' \<mapsto> pid, ''id'' \<mapsto> objid, ''tp'' \<mapsto> ''it'', ''res:mime'' \<mapsto> mime,
             ''upnp:class'' \<mapsto> ''object.item.audioItem.audioBroadcast'', ''upnp:artist'' \<mapsto> ''Internet Radio'']
            (''uri'' := uri, ''upnp:album'' := album, ''tt'' := title, ''upnp:albumArtURI'' := icon))))))))))))"

section \<open>Identifiers\<close>

definition crittotitle :: "(string \<times> string) list" where
  "crittotitle = [(''tags'', ''tags''), (''countrycodes'', ''countries''), (''languages'', ''languages'')]"

definition argtrans :: "(string \<times> string) list" where
  "argtrans = [(''tags'', ''tag''), (''countrycodes'', ''countrycode''), (''languages'', ''language'')]"

text \<open>The criterion and value that the path ends with, the criteria that have values, and the filters.\<close>

record crits =
  cr_last :: "string option"
  cr_value :: "string option"
  cr_set :: "string list"
  cr_args :: "(string \<times> string) list"

definition no_crits :: crits where
  "no_crits = \<lparr>cr_last = None, cr_value = None, cr_set = [], cr_args = []\<rparr>"

fun crit_loop :: "(string \<Rightarrow> string option) \<Rightarrow> string list \<Rightarrow> crits \<Rightarrow> crits res" where
  "crit_loop html5 [] c = Inr c"
| "crit_loop html5 [crit] c = Inr (c\<lparr>cr_last := Some crit, cr_value := None\<rparr>)"
| "crit_loop html5 (crit # v # rest) c =
     (let value = html_unescape html5 v in
      bindR (dict_get argtrans crit) (\<lambda>a.
        crit_loop html5 rest \<lparr>cr_last = Some crit, cr_value = Some value, cr_set = cr_set c @ [crit],
          cr_args = AList.update a value (cr_args c)\<rparr>))"

definition pathtocrits :: "(string \<Rightarrow> string option) \<Rightarrow> string \<Rightarrow> crits res" where
  "pathtocrits html5 path = crit_loop html5 (if path \<noteq> [] then split_on (CHR ''/'') path else []) no_crits"

definition objidtopath :: "string \<Rightarrow> string res" where
  "objidtopath objid =
     (if \<not> startswith objid rb_prefix then Inl (Raised ''bad objid: bad prefix'')
      else Inr (lstrip (\<lambda>c. c = CHR ''/'') (drop (length rb_prefix) objid)))"

definition rb_crits :: "(string \<Rightarrow> string option) \<Rightarrow> string \<Rightarrow> crits res" where
  "rb_crits html5 objid = bindR (objidtopath objid) (pathtocrits html5)"

section \<open>Requests\<close>

text \<open>A value of a criterion, with its title if that is another text. Values that are empty are left out.\<close>

definition value_entries :: "string \<Rightarrow> json \<times> string option \<Rightarrow> entry list res" where
  "value_entries objid vt =
     (case vt of (value, title) \<Rightarrow>
        if \<not> jt_true value then Inr []
        else case value of
               StrJ s \<Rightarrow> Inr [direntry3 (objid @ ''/'' @ html_escape s) objid (case title of Some t \<Rightarrow> t | None \<Rightarrow> s)]
             | _ \<Rightarrow> Inl AttributeError)"

text \<open>The codes of the countries that are known by name, which are sorted by it.\<close>

definition country_value :: "(string \<times> string) list \<Rightarrow> json \<Rightarrow> (string \<times> string) list res" where
  "country_value names e =
     bindR (jt_get e ''name'') (\<lambda>v.
       if \<not> jt_true v then Inr []
       else case v of
              StrJ s \<Rightarrow> Inr (case map_of names s of Some t \<Rightarrow> [(s, t)] | None \<Rightarrow> [])
            | ArrJ _ \<Rightarrow> Inl TypeError
            | ObjJ _ \<Rightarrow> Inl TypeError
            | _ \<Rightarrow> Inr [])"

definition named_values :: "json list \<Rightarrow> (json \<times> string option) list res" where
  "named_values es = mapR (\<lambda>e. bindR (jt_get e ''name'') (\<lambda>v. Inr (v, None))) es"

definition crit_values :: "(string \<times> string) list \<Rightarrow> rb_facet \<Rightarrow> string \<Rightarrow> (json \<times> string option) list res" where
  "crit_values names f crit =
     (if crit = ''countrycodes'' then
        bindR (mapR (country_value names) (rf_countrycodes f)) (\<lambda>vss.
          Inr (map (\<lambda>(code, t). (StrJ code, Some t)) (sort_key snd (concat vss))))
      else if crit = ''languages'' then named_values (rf_languages f)
      else if crit = ''tags'' then named_values (rf_tags f)
      else Inl (Raised ''Bad objid: bad tagname''))"

definition crit_entries :: "string \<Rightarrow> string list \<Rightarrow> entry list res" where
  "crit_entries objid setcrits =
     mapR (\<lambda>tagname. bindR (dict_get crittotitle tagname) (\<lambda>t. Inr (direntry3 (objid @ ''/'' @ tagname) objid t)))
       (filter (\<lambda>tagname. tagname \<notin> set setcrits) [''countrycodes'', ''languages'', ''tags''])"

definition radios_link :: "string \<Rightarrow> rb_facet option \<Rightarrow> string option \<Rightarrow> entry list" where
  "radios_link objid flt value =
     (case flt of
        Some f \<Rightarrow>
          if rf_true f \<and> truthy value
          then [direntry3 (objid @ ''/radios'') objid (str_nat (length (rf_result f)) @ '' radios'')] else []
      | None \<Rightarrow> [])"

definition rb_list :: "rb_world \<Rightarrow> (string \<times> string) list \<Rightarrow> string \<Rightarrow> crits \<Rightarrow> entry list res" where
  "rb_list w names objid c =
     bindR (if truthy (cr_last c) then bindR (rb_facets w (cr_args c)) (\<lambda>f. Inr (Some f)) else Inr None) (\<lambda>flt.
       if cr_last c = Some ''radios'' then mapR (rb_radiotoentry objid None) (case flt of Some f \<Rightarrow> rf_result f | None \<Rightarrow> [])
       else
         bindR (case (cr_value c, cr_last c) of
             (None, Some crit) \<Rightarrow>
               (case flt of
                  None \<Rightarrow> Inl (Raised ''Bad objid: bad tagname'')
                | Some f \<Rightarrow> bindR (crit_values names f crit) (\<lambda>vs.
                    bindR (mapR (value_entries objid) vs) (\<lambda>ess. Inr (concat ess))))
           | _ \<Rightarrow> crit_entries objid (cr_set c)) (\<lambda>es.
         Inr (es @ radios_link objid flt (cr_value c))))"

text \<open>The metadata of a directory names a variable that has no value yet.\<close>

definition rb_meta :: "rb_world \<Rightarrow> string \<Rightarrow> string \<Rightarrow> entry list res" where
  "rb_meta w objid path =
     (case py_find path ''$'' of
        Some uuidpos \<Rightarrow>
          bindR (rb_station_by_uuid w (drop (uuidpos + 1) path)) (\<lambda>radios.
          bindR (nth_res radios 0) (\<lambda>radio.
          bindR (rb_radiotoentry objid None radio) (\<lambda>e. Inr [e])))
      | None \<Rightarrow> Inl UnboundLocalError)"

definition rb_browse :: "rb_world \<Rightarrow> rb_state \<Rightarrow> (string \<rightharpoonup> string) \<Rightarrow> rb_state \<times> entry list res" where
  "rb_browse w st a =
     (case initradios w st of
        (st', Inl e) \<Rightarrow> (st', Inl e)
      | (st', Inr _) \<Rightarrow>
          (st',
           case a ''objid'' of
             None \<Rightarrow> Inl (Raised ''No objid in args'')
           | Some objid \<Rightarrow>
               bindR (objidtopath objid) (\<lambda>path.
                 if a ''flag'' = Some ''meta'' then rb_meta w objid path
                 else bindR (pathtocrits (rb_html5 w) path) (rb_list w (case st' of Some d \<Rightarrow> d | None \<Rightarrow> []) objid))))"

definition rb_search :: "rb_world \<Rightarrow> rb_state \<Rightarrow> (string \<rightharpoonup> string) \<Rightarrow> rb_state \<times> entry list res" where
  "rb_search w st a =
     (case bindR (map_get a ''objid'') (\<lambda>objid. bindR (rb_crits (rb_html5 w) objid) (\<lambda>c. Inr (objid, c))) of
        Inl e \<Rightarrow> (st, Inl e)
      | Inr (objid, c) \<Rightarrow>
          (case initradios w st of
             (st', Inl e) \<Rightarrow> (st', Inl e)
           | (st', Inr _) \<Rightarrow>
               (st',
                bindR (map_get a ''value'') (\<lambda>sstr.
                bindR (rb_search_radios w (AList.update ''name'' sstr (cr_args c))) (\<lambda>result.
                bindR (if jt_true result then jt_iter result else Inr []) (mapR (rb_radiotoentry objid None)))))))"

section \<open>Identifiers stand for selections\<close>

text \<open>A selection: criteria with their chosen values. Its identifier, and the filters it means.\<close>

definition criteria :: "string list" where
  "criteria = [''countrycodes'', ''languages'', ''tags'']"

definition good_value :: "string \<Rightarrow> bool" where
  "good_value v \<longleftrightarrow> v \<noteq> [] \<and> CHR ''/'' \<notin> set v"

definition good_selection :: "(string \<times> string) list \<Rightarrow> bool" where
  "good_selection sel \<longleftrightarrow>
     distinct (map fst sel) \<and> list_all (\<lambda>(c, v). c \<in> set criteria \<and> good_value v) sel"

definition sel_parts :: "(string \<times> string) list \<Rightarrow> string list" where
  "sel_parts sel = concat (map (\<lambda>(c, v). [c, html_escape v]) sel)"

definition id_of :: "string list \<Rightarrow> string" where
  "id_of ps = rb_prefix @ concat (map (\<lambda>p. CHR ''/'' # p) ps)"

definition filter_name :: "string \<Rightarrow> string" where
  "filter_name c = (if c = ''countrycodes'' then ''countrycode'' else if c = ''languages'' then ''language'' else ''tag'')"

definition sel_filters :: "(string \<times> string) list \<Rightarrow> (string \<times> string) list" where
  "sel_filters sel = map (\<lambda>(c, v). (filter_name c, v)) sel"

definition sel_crits :: "(string \<times> string) list \<Rightarrow> crits" where
  "sel_crits sel =
     \<lparr>cr_last = (if sel = [] then None else Some (fst (last sel))),
      cr_value = (if sel = [] then None else Some (snd (last sel))),
      cr_set = map fst sel, cr_args = sel_filters sel\<rparr>"

lemma id_of_snoc: "id_of ps @ ''/'' @ p = id_of (ps @ [p])"
  by (simp add: id_of_def)

lemma sel_parts_snoc: "sel_parts (sel @ [(c, v)]) = sel_parts sel @ [c, html_escape v]"
  by (simp add: sel_parts_def)

lemma criteria_facts:
  "c \<in> set criteria \<Longrightarrow> c \<noteq> [] \<and> CHR ''/'' \<notin> set c \<and> map_of argtrans c = Some (filter_name c)"
  by (auto simp: criteria_def argtrans_def filter_name_def)

lemma escape_no_slash: "CHR ''/'' \<notin> set v \<Longrightarrow> CHR ''/'' \<notin> set (html_escape v)"
  using html_escape_chars [of "CHR ''/''" v] by auto

lemma join_slashes: "concat (map (\<lambda>p. CHR ''/'' # p) (p # ps)) = CHR ''/'' # join_with ''/'' (p # ps)"
proof (induction ps arbitrary: p)
  case (Cons q ps)
  show ?case using Cons.IH [of q] by simp
qed simp

lemma path_of_id:
  assumes "list_all (\<lambda>p. p \<noteq> [] \<and> CHR ''/'' \<notin> set p) ps"
  shows "rb_crits html5 (id_of ps) = crit_loop html5 ps no_crits"
proof (cases ps)
  case Nil
  then show ?thesis
    by (simp add: rb_crits_def objidtopath_def id_of_def startswith_def lstrip_def pathtocrits_def)
next
  case (Cons p qs)
  let ?path = "join_with ''/'' ps"
  have hd: "?path \<noteq> [] \<and> hd ?path \<noteq> CHR ''/''"
    using assms Cons by (cases p; cases qs) auto
  have "drop (length rb_prefix) (id_of ps) = CHR ''/'' # ?path"
    using join_slashes [of p qs] Cons by (simp add: id_of_def)
  then have "objidtopath (id_of ps) = Inr ?path"
    using hd by (cases ?path) (simp_all add: objidtopath_def id_of_def startswith_def lstrip_def)
  moreover have "split_on (CHR ''/'') ?path = ps"
    using split_join_on [of ps "CHR ''/''"] assms Cons by (auto simp: list_all_iff)
  ultimately show ?thesis using hd by (simp add: rb_crits_def pathtocrits_def)
qed

lemma update_fresh: "k \<notin> fst ` set d \<Longrightarrow> AList.update k v d = d @ [(k, v)]"
  by (induction d) auto

lemma argtrans_inj: "c \<in> set criteria \<Longrightarrow> c' \<in> set criteria \<Longrightarrow> map_of argtrans c = map_of argtrans c' \<Longrightarrow> c = c'"
  by (auto simp: criteria_def argtrans_def)

text \<open>The loop over a selection, after another one.\<close>

lemma crit_loop_selection:
  assumes "has_escapes html5" and "good_selection (done1 @ sel)"
  shows "crit_loop html5 (sel_parts sel @ rest) (sel_crits done1) = crit_loop html5 rest (sel_crits (done1 @ sel))"
  using assms(2)
proof (induction sel arbitrary: done1)
  case Nil
  then show ?case by (simp add: sel_parts_def)
next
  case (Cons e sel)
  obtain c v where e: "e = (c, v)" by (cases e)
  have g: "c \<in> set criteria" "good_selection (done1 @ [e])"
    using Cons.prems by (auto simp: good_selection_def e)
  obtain a where a: "map_of argtrans c = Some a" using criteria_facts [OF g(1)] by auto
  have "a \<notin> fst ` set (sel_filters done1)"
  proof
    assume "a \<in> fst ` set (sel_filters done1)"
    then obtain c' v' where d: "(c', v') \<in> set done1" "a = filter_name c'" by (auto simp: sel_filters_def)
    then have c': "c' \<in> set criteria" using g(2) by (auto simp: good_selection_def list_all_iff)
    then have "map_of argtrans c' = map_of argtrans c" using criteria_facts [OF c'] d(2) a by auto
    then have "c' = c" using argtrans_inj c' g(1) by blast
    then show False using g(2) d(1) by (force simp: good_selection_def e)
  qed
  then have "AList.update a v (sel_filters done1) = sel_filters (done1 @ [e])"
    using criteria_facts [OF g(1)] a by (simp add: update_fresh) (simp add: sel_filters_def e)
  then have "crit_loop html5 (sel_parts (e # sel) @ rest) (sel_crits done1) =
      crit_loop html5 (sel_parts sel @ rest) (sel_crits (done1 @ [e]))"
    using unescape_escape [OF assms(1), of v] a by (simp add: sel_parts_def e dict_get_def sel_crits_def)
  with Cons.IH [of "done1 @ [e]"] Cons.prems show ?case by simp
qed

lemma sel_parts_ok:
  "good_selection sel \<Longrightarrow> list_all (\<lambda>p. p \<noteq> [] \<and> CHR ''/'' \<notin> set p) (sel_parts sel)"
  using criteria_facts escape_no_slash
  by (fastforce simp: sel_parts_def good_selection_def good_value_def list_all_iff)

lemma crits_of_selection:
  assumes "has_escapes html5" and "good_selection sel"
  shows "rb_crits html5 (id_of (sel_parts sel)) = Inr (sel_crits sel)"
  using path_of_id [OF sel_parts_ok [OF assms(2)]] crit_loop_selection [of html5 "[]" sel "[]"] assms
  by (simp add: sel_crits_def no_crits_def sel_filters_def)

lemma crits_of_open:
  assumes "has_escapes html5" and "good_selection sel" and "c \<noteq> []" and "CHR ''/'' \<notin> set c"
  shows "rb_crits html5 (id_of (sel_parts sel @ [c])) = Inr (sel_crits sel\<lparr>cr_last := Some c, cr_value := None\<rparr>)"
  using path_of_id [of "sel_parts sel @ [c]" html5] sel_parts_ok [OF assms(2)] crit_loop_selection [of html5 "[]" sel "[c]"] assms
  by (simp add: sel_crits_def no_crits_def sel_filters_def)

section \<open>Browsing\<close>

text \<open>Every name that the service lists for a criterion is a text without a slash.\<close>

definition plain_names :: "rb_world \<Rightarrow> bool" where
  "plain_names w \<longleftrightarrow>
     (\<forall>fa f. rb_facets w fa = Inr f \<longrightarrow>
        (\<forall>e \<in> set (rf_countrycodes f @ rf_languages f @ rf_tags f). \<forall>s.
           jt_get e ''name'' = Inr (StrJ s) \<longrightarrow> CHR ''/'' \<notin> set s))"

text \<open>The directories that are reached from the root by requests for directories that were listed before.
  The service may answer otherwise each time, but keeps to the same table of characters.\<close>

inductive rb_reached :: "(string \<Rightarrow> string option) \<Rightarrow> string \<Rightarrow> bool" for html5 where
  root: "rb_reached html5 rb_prefix"
| below: "rb_reached html5 i \<Longrightarrow> plain_names w \<Longrightarrow> rb_html5 w = html5 \<Longrightarrow> a ''objid'' = Some i \<Longrightarrow> a ''flag'' = None \<Longrightarrow>
    snd (rb_browse w st a) = Inr es \<Longrightarrow> e \<in> set es \<Longrightarrow> e ''tp'' = Some ''ct'' \<Longrightarrow> e ''id'' = Some j \<Longrightarrow> rb_reached html5 j"

text \<open>What an identifier stands for: a selection, with a criterion that is being chosen, or its radios.\<close>

definition stands_for :: "string \<Rightarrow> (string \<times> string) list \<Rightarrow> string option \<Rightarrow> bool" where
  "stands_for i sel q \<longleftrightarrow>
     good_selection sel \<and>
     (case q of
        None \<Rightarrow> i = id_of (sel_parts sel)
      | Some c \<Rightarrow> i = id_of (sel_parts sel @ [c]) \<and> (c = ''radios'' \<or> c \<in> set criteria - fst ` set sel))"

definition stands_crits :: "(string \<times> string) list \<Rightarrow> string option \<Rightarrow> crits" where
  "stands_crits sel q = (case q of None \<Rightarrow> sel_crits sel | Some c \<Rightarrow> sel_crits sel\<lparr>cr_last := Some c, cr_value := None\<rparr>)"

lemma stands_for_crits:
  assumes "has_escapes html5" and "stands_for i sel q"
  shows "rb_crits html5 i = Inr (stands_crits sel q)"
proof (cases q)
  case None
  with assms show ?thesis by (simp add: stands_for_def stands_crits_def crits_of_selection)
next
  case (Some c)
  moreover have "c \<noteq> []" "CHR ''/'' \<notin> set c"
    using assms(2) Some criteria_facts [of c] by (auto simp: stands_for_def)
  ultimately show ?thesis using assms by (simp add: stands_for_def stands_crits_def crits_of_open)
qed

lemma rb_browse_list:
  assumes "snd (rb_browse w st a) = Inr es" and "a ''objid'' = Some i" and "a ''flag'' = None"
  shows "\<exists>names c. rb_crits (rb_html5 w) i = Inr c \<and> rb_list w names i c = Inr es"
proof -
  have "\<exists>names path. objidtopath i = Inr path \<and> bindR (pathtocrits (rb_html5 w) path) (rb_list w names i) = Inr es"
    using assms by (auto simp: rb_browse_def bindR_eq_Inr split: prod.splits sum.splits)
  then show ?thesis by (auto simp: rb_crits_def bindR_eq_Inr)
qed

lemma radiotoentry_item: "rb_radiotoentry pid i radio = Inr e \<Longrightarrow> e ''tp'' = Some ''it''"
  by (auto simp: rb_radiotoentry_def bindR_eq_Inr)

lemma country_value_name: "country_value names e = Inr vs \<Longrightarrow> (s, t) \<in> set vs \<Longrightarrow> jt_get e ''name'' = Inr (StrJ s)"
  by (auto simp: country_value_def bindR_eq_Inr split: if_splits json.splits option.splits)

text \<open>The values that are listed are names of the service.\<close>

lemma crit_values_names:
  assumes "crit_values names f c = Inr vs" and "(StrJ s, t) \<in> set vs"
  shows "c \<in> set criteria \<and> (\<exists>e \<in> set (rf_countrycodes f @ rf_languages f @ rf_tags f). jt_get e ''name'' = Inr (StrJ s))"
proof (cases "c = ''countrycodes''")
  case True
  then obtain vss where v: "mapR (country_value names) (rf_countrycodes f) = Inr vss"
      "vs = map (\<lambda>(code, t). (StrJ code, Some t)) (sort_key snd (concat vss))"
    using assms(1) by (auto simp: crit_values_def bindR_eq_Inr)
  then obtain us t' where "us \<in> set vss" "(s, t') \<in> set us" using assms(2) by auto
  with mapR_set [OF v(1)] country_value_name obtain e where "e \<in> set (rf_countrycodes f)" "jt_get e ''name'' = Inr (StrJ s)"
    by metis
  with True show ?thesis by (auto simp: criteria_def)
next
  case False
  have n: "\<exists>e \<in> set es. jt_get e ''name'' = Inr (StrJ s)" if "named_values es = Inr vs" for es
    using mapR_set [OF that [unfolded named_values_def] assms(2)] by (auto simp: bindR_eq_Inr)
  with False assms(1) show ?thesis by (auto simp: crit_values_def criteria_def split: if_splits)
qed

lemma value_entries_dir:
  "value_entries i (v, t) = Inr es \<Longrightarrow> e \<in> set es \<Longrightarrow>
   \<exists>s. v = StrJ s \<and> s \<noteq> [] \<and> e ''id'' = Some (i @ ''/'' @ html_escape s)"
  by (cases v) (auto simp: value_entries_def direntry3_def split: if_splits)

lemma crit_entries_dir:
  "crit_entries i cs = Inr es \<Longrightarrow> e \<in> set es \<Longrightarrow> \<exists>c. c \<in> set criteria - set cs \<and> e ''id'' = Some (i @ ''/'' @ c)"
proof -
  assume "crit_entries i cs = Inr es" "e \<in> set es"
  then obtain c where "c \<in> set (filter (\<lambda>c. c \<notin> set cs) [''countrycodes'', ''languages'', ''tags''])"
      "bindR (dict_get crittotitle c) (\<lambda>t. Inr (direntry3 (i @ ''/'' @ c) i t)) = Inr e"
    unfolding crit_entries_def by (blast dest: mapR_set)
  moreover have "set (filter (\<lambda>c. c \<notin> set cs) [''countrycodes'', ''languages'', ''tags'']) = set criteria - set cs"
    unfolding criteria_def by auto
  moreover have "e ''id'' = Some (i @ ''/'' @ c)"
    using calculation(2) by (auto simp only: bindR_eq_Inr direntry3_def direntry_fields sum.inject)
  ultimately show ?thesis by blast
qed

lemma radios_link_dir:
  "e \<in> set (radios_link i flt v) \<Longrightarrow> e ''id'' = Some (i @ ''/radios'')"
  by (auto simp: radios_link_def direntry3_def split: option.splits if_splits)

lemma rb_list_open:
  assumes "rb_facets w (cr_args c) = Inr f" and "cr_last c = Some crit" and "crit \<noteq> []" and "crit \<noteq> ''radios''"
    and "cr_value c = None"
  shows "rb_list w names i c =
    bindR (crit_values names f crit) (\<lambda>vs. bindR (mapR (value_entries i) vs) (\<lambda>ess. Inr (concat ess)))"
  using assms
  by (simp add: rb_list_def truthy_def radios_link_def bindR_def split: sum.splits)

text \<open>One step: the directories in the listing of a selection.\<close>

lemma listed_stands_for:
  assumes "rb_list w names i (stands_crits sel q) = Inr es" and s: "stands_for i sel q" and "plain_names w"
    and e: "e \<in> set es" "e ''tp'' = Some ''ct''" "e ''id'' = Some j"
  shows "\<exists>sel' q'. stands_for j sel' q'"
proof -
  let ?c = "stands_crits sel q"
  obtain flt where flt: "(if truthy (cr_last ?c) then bindR (rb_facets w (cr_args ?c)) (\<lambda>f. Inr (Some f)) else Inr None) = Inr flt"
    using assms(1) by (auto simp: rb_list_def bindR_eq_Inr)
  have not_radios: "cr_last ?c \<noteq> Some ''radios''"
  proof
    assume r: "cr_last ?c = Some ''radios''"
    then have "\<exists>rs. mapR (rb_radiotoentry i None) rs = Inr es"
      using assms(1) flt by (auto simp: rb_list_def)
    then have "e ''tp'' = Some ''it''" using e(1) radiotoentry_item by (blast dest: mapR_set)
    with e(2) show False by simp
  qed
  show ?thesis
  proof (cases q)
    case None
    then have i: "good_selection sel" "i = id_of (sel_parts sel)" using s by (simp_all add: stands_for_def)
    have "\<exists>es'. crit_entries i (map fst sel) = Inr es' \<and> es = es' @ radios_link i flt (cr_value ?c)"
      using assms(1) flt not_radios None
      by (auto simp: rb_list_def bindR_eq_Inr stands_crits_def sel_crits_def split: if_splits)
    then obtain es' where es: "crit_entries i (map fst sel) = Inr es'" "es = es' @ radios_link i flt (cr_value ?c)" by blast
    have "\<exists>c. (c = ''radios'' \<or> c \<in> set criteria - fst ` set sel) \<and> e ''id'' = Some (i @ ''/'' @ c)"
    proof (cases "e \<in> set es'")
      case True
      from crit_entries_dir [OF es(1) True] show ?thesis by auto
    next
      case False
      then show ?thesis using e(1) es(2) radios_link_dir [of e i flt "cr_value ?c"] by auto
    qed
    then obtain c where c: "c = ''radios'' \<or> c \<in> set criteria - fst ` set sel" "j = i @ ''/'' @ c" using e(3) by auto
    then have "stands_for j sel (Some c)" using i id_of_snoc [of "sel_parts sel" c] by (simp add: stands_for_def)
    then show ?thesis by blast
  next
    case (Some c)
    then have i: "good_selection sel" "i = id_of (sel_parts sel @ [c])" "c \<in> set criteria - fst ` set sel"
      using s not_radios by (auto simp: stands_for_def stands_crits_def)
    obtain f where f: "flt = Some f" "rb_facets w (sel_filters sel) = Inr f"
      using flt criteria_facts [of c] i(3) Some by (auto simp: stands_crits_def sel_crits_def truthy_def bindR_eq_Inr split: if_splits)
    then have "rb_list w names i ?c =
        bindR (crit_values names f c) (\<lambda>vs. bindR (mapR (value_entries i) vs) (\<lambda>ess. Inr (concat ess)))"
      using not_radios criteria_facts [of c] i(3) Some
      by (intro rb_list_open) (auto simp: stands_crits_def sel_crits_def)
    then have "bindR (crit_values names f c) (\<lambda>vs. bindR (mapR (value_entries i) vs) (\<lambda>ess. Inr (concat ess))) = Inr es"
      using assms(1) by simp
    then obtain vs ess where v: "crit_values names f c = Inr vs" "mapR (value_entries i) vs = Inr ess" "es = concat ess"
      by (auto simp: bindR_eq_Inr)
    then obtain us where us: "us \<in> set ess" "e \<in> set us" using e(1) by auto
    then obtain x t where x: "(x, t) \<in> set vs" "value_entries i (x, t) = Inr us" using mapR_set [OF v(2)] by fastforce
    then obtain u where u: "x = StrJ u" "u \<noteq> []" "j = i @ ''/'' @ html_escape u"
      using value_entries_dir [OF x(2) us(2)] e(3) by auto
    have "CHR ''/'' \<notin> set u"
      using crit_values_names [OF v(1), of u t] x(1) u(1) f(2) assms(3) unfolding plain_names_def by metis
    then have "stands_for j (sel @ [(c, u)]) None"
      using i u id_of_snoc [of "sel_parts sel @ [c]" "html_escape u"]
      by (auto simp: stands_for_def sel_parts_snoc good_selection_def good_value_def)
    then show ?thesis by blast
  qed
qed

text \<open>What a directory has to list, said of the selection and not of the identifier. Every criterion that has
  no value yet can be chosen; a selection that is not empty shows how many radios the service has for it, a
  criterion being chosen shows the values that occur among these radios, and \<open>radios\<close> shows the radios.\<close>

definition open_criteria :: "string \<Rightarrow> (string \<times> string) list \<Rightarrow> entry list" where
  "open_criteria i sel =
     map (\<lambda>(c, t). direntry3 (i @ ''/'' @ c) i t)
       (filter (\<lambda>(c, t). c \<notin> fst ` set sel)
         [(''countrycodes'', ''countries''), (''languages'', ''languages''), (''tags'', ''tags'')])"

definition selection_listing ::
  "rb_world \<Rightarrow> (string \<times> string) list \<Rightarrow> string \<Rightarrow> (string \<times> string) list \<Rightarrow> string option \<Rightarrow> entry list res" where
  "selection_listing w names i sel q =
     (if sel = [] \<and> q = None then Inr (open_criteria i [])
      else bindR (rb_facets w (sel_filters sel)) (\<lambda>f.
        case q of
          None \<Rightarrow>
            Inr (open_criteria i sel @
              (if rf_true f then [direntry3 (i @ ''/radios'') i (str_nat (length (rf_result f)) @ '' radios'')] else []))
        | Some c \<Rightarrow>
            if c = ''radios'' then mapR (rb_radiotoentry i None) (rf_result f)
            else bindR (crit_values names f c) (\<lambda>vs. bindR (mapR (value_entries i) vs) (\<lambda>ess. Inr (concat ess)))))"

lemma crit_entries_open: "crit_entries i (map fst sel) = Inr (open_criteria i sel)"
proof -
  have t: "dict_get crittotitle ''countrycodes'' = Inr ''countries''" "dict_get crittotitle ''languages'' = Inr ''languages''"
      "dict_get crittotitle ''tags'' = Inr ''tags''"
    by (simp_all add: dict_get_def crittotitle_def)
  show ?thesis
    by (cases "''countrycodes'' \<in> fst ` set sel"; cases "''languages'' \<in> fst ` set sel"; cases "''tags'' \<in> fst ` set sel")
      (simp_all add: crit_entries_def open_criteria_def t)
qed

lemma rb_list_selection:
  assumes "stands_for i sel q"
  shows "rb_list w names i (stands_crits sel q) = selection_listing w names i sel q"
proof (cases q)
  case None
  have g: "good_selection sel" using assms by (simp add: stands_for_def)
  show ?thesis
  proof (cases "sel = []")
    case True
    with None show ?thesis
      using crit_entries_open [of i "[]"]
      by (simp add: rb_list_def selection_listing_def stands_crits_def sel_crits_def truthy_def radios_link_def)
  next
    case False
    then have "last sel \<in> set sel" by simp
    then have l: "fst (last sel) \<in> set criteria" "snd (last sel) \<noteq> []"
      using g by (auto simp: good_selection_def good_value_def list_all_iff split_beta)
    have "fst (last sel) \<noteq> []" "fst (last sel) \<noteq> ''radios''"
      using criteria_facts [OF l(1)] l(1) by (auto simp: criteria_def)
    with None False l(2) show ?thesis
      by (cases "rb_facets w (sel_filters sel)")
        (simp_all add: rb_list_def selection_listing_def stands_crits_def sel_crits_def truthy_def radios_link_def
          crit_entries_open)
  qed
next
  case (Some c)
  then have c: "c = ''radios'' \<or> c \<in> set criteria" using assms by (auto simp: stands_for_def)
  then have n: "c \<noteq> []" using criteria_facts [of c] by auto
  show ?thesis
  proof (cases "rb_facets w (sel_filters sel)")
    case (Inl e)
    with Some n show ?thesis
      by (simp add: rb_list_def selection_listing_def stands_crits_def sel_crits_def truthy_def)
  next
    case (Inr f)
    show ?thesis
    proof (cases "c = ''radios''")
      case True
      with Some n Inr show ?thesis
        by (simp add: rb_list_def selection_listing_def stands_crits_def sel_crits_def truthy_def)
    next
      case False
      with Some n Inr show ?thesis
        using rb_list_open [of w "stands_crits sel q" f c names i]
        by (simp add: selection_listing_def stands_crits_def sel_crits_def)
    qed
  qed
qed

lemma rb_browse_selection:
  assumes "has_escapes (rb_html5 w)" and "stands_for i sel q" and "a ''objid'' = Some i" and "a ''flag'' \<noteq> Some ''meta''"
  shows "snd (rb_browse w st a) =
    (case initradios w st of
       (st', Inl e) \<Rightarrow> Inl e
     | (st', Inr _) \<Rightarrow> selection_listing w (case st' of Some d \<Rightarrow> d | None \<Rightarrow> []) i sel q)"
proof -
  obtain path where p: "objidtopath i = Inr path" "pathtocrits (rb_html5 w) path = Inr (stands_crits sel q)"
    using stands_for_crits [OF assms(1,2)] by (auto simp: rb_crits_def bindR_eq_Inr)
  show ?thesis
    using assms(3,4) p rb_list_selection [OF assms(2)] by (simp add: rb_browse_def split: prod.splits sum.splits)
qed

lemma reached_stands_for:
  assumes "has_escapes html5" and "rb_reached html5 i"
  shows "\<exists>sel q. stands_for i sel q"
  using assms(2)
proof induction
  case root
  have "stands_for rb_prefix [] None" by (simp add: stands_for_def good_selection_def id_of_def sel_parts_def)
  then show ?case by blast
next
  case (below i w a st es e j)
  from below.IH obtain sel q where s: "stands_for i sel q" by blast
  obtain names c where l: "rb_crits html5 i = Inr c" "rb_list w names i c = Inr es"
    using rb_browse_list [OF below.hyps(6,4,5)] below.hyps(3) by blast
  then have "c = stands_crits sel q" using stands_for_crits [OF assms(1) s] by simp
  with l(2) show ?case using listed_stands_for [OF _ s below.hyps(2,7,8,9)] by simp
qed

text \<open>C38. Every directory of the plugin that can be reached by browsing stands for a selection of values for
  different criteria, perhaps with a criterion being chosen or the radios being listed. Whenever it is
  browsed, the service, whatever it answers now, is asked for the radios of exactly that selection, and
  the directory lists what its answer gives: the criteria that have no value yet and the number of the radios,
  the values of the criterion being chosen, or the radios; an error of the service is the answer. It is enough
  that no name of the service has a slash while the directories are being reached.\<close>

theorem rb_reached_selects:
  assumes "has_escapes html5" and "rb_reached html5 i"
  shows "\<exists>sel q. stands_for i sel q \<and>
    (\<forall>w st a. rb_html5 w = html5 \<and> a ''objid'' = Some i \<and> a ''flag'' \<noteq> Some ''meta'' \<longrightarrow>
       snd (rb_browse w st a) =
         (case initradios w st of
            (st', Inl e) \<Rightarrow> Inl e
          | (st', Inr _) \<Rightarrow> selection_listing w (case st' of Some d \<Rightarrow> d | None \<Rightarrow> []) i sel q))"
proof -
  obtain sel q where s: "stands_for i sel q" using reached_stands_for [OF assms] by (elim exE)
  show ?thesis
  proof (intro exI conjI allI impI)
    show "stands_for i sel q" by (rule s)
  next
    fix w :: rb_world and st a
    assume h: "rb_html5 w = html5 \<and> a ''objid'' = Some i \<and> a ''flag'' \<noteq> Some ''meta''"
    show "snd (rb_browse w st a) =
         (case initradios w st of
            (st', Inl e) \<Rightarrow> Inl e
          | (st', Inr _) \<Rightarrow> selection_listing w (case st' of Some d \<Rightarrow> d | None \<Rightarrow> []) i sel q)"
      using rb_browse_selection [OF _ s] h assms(1) by simp
  qed
qed

text \<open>A service with one tag, whose radios are in one country.\<close>

definition demo_html5 :: "string \<Rightarrow> string option" where
  "demo_html5 s =
     map_of [(''amp;'', ''&''), (''lt;'', ''<''), (''gt;'', ''>''), (''quot;'', [CHR 0x22]), (''amp'', ''&'')] s"

definition demo_rb :: rb_world where
  "demo_rb =
     \<lparr>rb_new = Inr (), rb_countries = Inr [ObjJ [(''name'', StrJ ''France''), (''iso_3166_1'', StrJ ''FR'')]],
      rb_facets = (\<lambda>fa. Inr \<lparr>rf_result = [], rf_countrycodes = [ObjJ [(''name'', StrJ ''FR'')]],
        rf_languages = [], rf_tags = [ObjJ [(''name'', StrJ ''r&b'')]], rf_true = True\<rparr>),
      rb_station_by_uuid = (\<lambda>_. Inr []), rb_search_radios = (\<lambda>_. Inr NullJ), rb_html5 = demo_html5\<rparr>"

definition listed_ids :: "entry list res \<Rightarrow> string list" where
  "listed_ids r = (case r of Inl _ \<Rightarrow> [] | Inr es \<Rightarrow> map (\<lambda>e. the (e ''id'')) (filter (\<lambda>e. e ''tp'' = Some ''ct'' \<and> e ''id'' \<noteq> None) es))"

lemma demo_rb_step:
  assumes "rb_reached demo_html5 i" and "j \<in> set (listed_ids (snd (rb_browse demo_rb st [''objid'' \<mapsto> i])))"
  shows "rb_reached demo_html5 j"
proof -
  have p: "plain_names demo_rb" by (auto simp: plain_names_def demo_rb_def dict_get_def)
  obtain es e where "snd (rb_browse demo_rb st [''objid'' \<mapsto> i]) = Inr es" "e \<in> set es" "e ''tp'' = Some ''ct''" "e ''id'' = Some j"
    using assms(2) by (cases "snd (rb_browse demo_rb st [''objid'' \<mapsto> i])") (auto simp: listed_ids_def)
  moreover have "rb_html5 demo_rb = demo_html5" by (simp add: demo_rb_def)
  ultimately show ?thesis 
    by (intro rb_reached.below [OF assms(1) p, where a = "[''objid'' \<mapsto> i]" and st = st and es = es and e = e]) simp_all
qed

theorem rb_reached_selects_witness:
  "has_escapes demo_html5 \<and> rb_reached demo_html5 ''0$radio-browser$/tags/r&amp;b/countrycodes'' \<and>
   (\<exists>sel q. stands_for ''0$radio-browser$/tags/r&amp;b/countrycodes'' sel q \<and>
      snd (rb_browse demo_rb None [''objid'' \<mapsto> ''0$radio-browser$/tags/r&amp;b/countrycodes'']) =
        selection_listing demo_rb [(''FR'', ''France'')] ''0$radio-browser$/tags/r&amp;b/countrycodes'' sel q)"
proof -
  have l: "''0$radio-browser$/tags'' \<in> set (listed_ids (snd (rb_browse demo_rb None [''objid'' \<mapsto> rb_prefix])))"
    "''0$radio-browser$/tags/r&amp;b'' \<in> set (listed_ids (snd (rb_browse demo_rb None [''objid'' \<mapsto> ''0$radio-browser$/tags''])))"
    "''0$radio-browser$/tags/r&amp;b/countrycodes'' \<in>
       set (listed_ids (snd (rb_browse demo_rb None [''objid'' \<mapsto> ''0$radio-browser$/tags/r&amp;b''])))"
    by code_simp+
  have h: "has_escapes demo_html5" by code_simp
  have r: "rb_reached demo_html5 ''0$radio-browser$/tags/r&amp;b/countrycodes''"
    using demo_rb_step [OF demo_rb_step [OF demo_rb_step [OF rb_reached.root l(1)] l(2)] l(3)] .
  have w: "rb_html5 demo_rb = demo_html5" by (simp add: demo_rb_def)
  have n: "initradios demo_rb None = (Some [(''FR'', ''France'')], Inr ())" by code_simp
  obtain sel q where s: "stands_for ''0$radio-browser$/tags/r&amp;b/countrycodes'' sel q"
      and b: "\<forall>w st a. rb_html5 w = demo_html5 \<and> a ''objid'' = Some ''0$radio-browser$/tags/r&amp;b/countrycodes'' \<and>
        a ''flag'' \<noteq> Some ''meta'' \<longrightarrow>
        snd (rb_browse w st a) =
          (case initradios w st of
             (st', Inl e) \<Rightarrow> Inl e
           | (st', Inr _) \<Rightarrow>
               selection_listing w (case st' of Some d \<Rightarrow> d | None \<Rightarrow> [])
                 ''0$radio-browser$/tags/r&amp;b/countrycodes'' sel q)"
    using rb_reached_selects [OF h r] by (elim exE conjE)
  have "snd (rb_browse demo_rb None [''objid'' \<mapsto> ''0$radio-browser$/tags/r&amp;b/countrycodes'']) =
      selection_listing demo_rb [(''FR'', ''France'')] ''0$radio-browser$/tags/r&amp;b/countrycodes'' sel q"
    using b [rule_format, of demo_rb "[''objid'' \<mapsto> ''0$radio-browser$/tags/r&amp;b/countrycodes'']" None] w n by simp
  with h r s show ?thesis by blast
qed

section \<open>Where the plugin fails\<close>

text \<open>A name with a slash: its directory cannot be listed.\<close>

lemma slash_breaks_identifier:
  "rb_crits html5 (id_of [''tags'', ''a'', ''b'']) =
     Inr \<lparr>cr_last = Some ''b'', cr_value = None, cr_set = [''tags''], cr_args = [(''tag'', html_unescape html5 ''a'')]\<rparr>"
  by (subst path_of_id) (simp_all add: no_crits_def argtrans_def dict_get_def)

lemma unknown_criterion_fails:
  assumes "crit \<notin> set criteria" "crit \<noteq> ''radios''" "cr_last c = Some crit" "cr_value c = None"
  shows "\<exists>e. rb_list w names i c = Inl e"
proof (cases "rb_facets w (cr_args c)")
  case (Inl e)
  with assms show ?thesis by (cases "crit = []") (auto simp: rb_list_def truthy_def)
next
  case (Inr f)
  with assms show ?thesis
    by (cases "crit = []") (auto simp: rb_list_def truthy_def crit_values_def criteria_def)
qed

text \<open>The metadata of any directory, and of a radio found by a search in the root.\<close>

lemma directory_meta_fails:
  assumes "initradios w st = (st', Inr ())" and "a ''objid'' = Some objid" and "a ''flag'' = Some ''meta''"
    and "objidtopath objid = Inr path" and "py_find path ''$'' = None"
  shows "rb_browse w st a = (st', Inl UnboundLocalError)"
  using assms by (simp add: rb_browse_def rb_meta_def)

text \<open>When the countries cannot be fetched the first time, they stay unknown: no country is ever listed.\<close>

lemma countries_stay_unknown:
  assumes "rb_new w = Inr ()" and "rb_countries w = Inl e"
  shows "initradios w None = (Some [], Inl e) \<and> initradios w' (Some []) = (Some [], Inr ())"
  using assms by (simp add: initradios_def)

lemma no_country_listed: "crit_values [] f ''countrycodes'' = Inr vs \<Longrightarrow> vs = []"
proof -
  assume "crit_values [] f ''countrycodes'' = Inr vs"
  then obtain vss where v: "mapR (country_value []) (rf_countrycodes f) = Inr vss"
      "vs = map (\<lambda>(code, t). (StrJ code, Some t)) (sort_key snd (concat vss))"
    by (auto simp: crit_values_def bindR_eq_Inr)
  have n: "us = []" if "country_value [] e = Inr us" for e us
  proof -
    from that obtain v where "jt_get e ''name'' = Inr v" by (auto simp: country_value_def bindR_eq_Inr)
    with that show ?thesis by (cases v) (simp_all add: country_value_def split: if_splits)
  qed
  have "us = []" if "us \<in> set vss" for us using mapR_set [OF v(1) that] n by blast
  then have "concat vss = []" by simp
  with v(2) show ?thesis by simp
qed

end
