(* ===== verification/UprclHttp.thy ===== *)
theory UprclHttp
  imports Uprcl
begin

text \<open>
  The HTTP server of the local library (\<open>uprcl/uprclhttp.py\<close>): the check of the host, the control page, and
  the streaming of files below the media directories. Of the copied framework there is what decides which
  callback a request runs and which file is sent (\<open>uprcl/bottle.py\<close>). The file system, the tag library and the
  reading of embedded images are parameters. Headers of the answer and the page templates are left out.
\<close>

section \<open>Requests and answers\<close>

text \<open>A request as the server hands it over: the path is unquoted already. Only two methods are told apart.\<close>

record http_request =
  rq_post :: bool
  rq_path :: string
  rq_host :: "string option"
  rq_embed :: bool
  rq_what :: "string option"

text \<open>A file is sent with the type of the tag library, or with one guessed from its name.\<close>

datatype response =
    Status nat
  | SendFile string "string option"
  | SendImage string
  | Page string string string
  | ServerError

record http_env =
  he_exists :: "string \<Rightarrow> bool"
  he_isfile :: "string \<Rightarrow> bool"
  he_readable :: "string \<Rightarrow> bool"
  he_mutagen :: "string \<Rightarrow> string option res"
  he_embedded :: "string \<Rightarrow> unit res"
  he_datadir :: string
  he_friendlyname :: string

section \<open>The host\<close>

text \<open>The regular expression of a numeric address with a port. It is not anchored at its end.\<close>

definition digits_then :: "(string \<Rightarrow> bool) \<Rightarrow> string \<Rightarrow> bool" where
  "digits_then p s \<longleftrightarrow> takeWhile is_digit s \<noteq> [] \<and> p (dropWhile is_digit s)"

definition char_then :: "char \<Rightarrow> (string \<Rightarrow> bool) \<Rightarrow> string \<Rightarrow> bool" where
  "char_then c p s \<longleftrightarrow> (case s of d # r \<Rightarrow> d = c \<and> p r | [] \<Rightarrow> False)"

definition host_char :: "char \<Rightarrow> bool" where
  "host_char c \<longleftrightarrow> hex_val c \<noteq> None \<or> c = CHR '':''"

definition hostre :: "string \<Rightarrow> bool" where
  "hostre h \<longleftrightarrow>
     (let dot = (\<lambda>p. digits_then (char_then (CHR ''.'') p)); port = digits_then (\<lambda>_. True) in
      dot (dot (dot (digits_then (char_then (CHR '':'') port)))) h \<or>
      char_then (CHR ''['') (\<lambda>s. takeWhile host_char s \<noteq> [] \<and>
        char_then (CHR '']'') (char_then (CHR '':'') port) (dropWhile host_char s)) h)"

definition checkhost :: "http_request \<Rightarrow> bool" where
  "checkhost rq = (case rq_host rq of Some host \<Rightarrow> hostre host | None \<Rightarrow> True)"

section \<open>Sending files\<close>

text \<open>\<open>os.path.abspath\<close> of an absolute path.\<close>

definition static_file :: "http_env \<Rightarrow> string \<Rightarrow> string \<Rightarrow> string option \<Rightarrow> response" where
  "static_file he filename root mimetype =
     (let root = normpath root @ ''/'';
          filename = normpath (path_join root (strip (\<lambda>c. c = CHR ''/'' \<or> c = CHR 0x5C) filename))
      in if \<not> startswith filename root then Status 403
         else if \<not> he_exists he filename \<or> \<not> he_isfile he filename then Status 404
         else if \<not> he_readable he filename then Status 403
         else SendFile filename mimetype)"

text \<open>The file for a path below a root. An embedded image has its extension appended to the path of its track.
  When the path is not there, the path of the request is tried as bytes; sending it would add a text to
  bytes.\<close>

definition Streamer :: "http_env \<Rightarrow> string \<Rightarrow> http_request \<Rightarrow> string \<Rightarrow> response" where
  "Streamer he root rq filepath =
     (if \<not> checkhost rq then Status 404
      else if rq_embed rq then
        let track = (case py_rfind filepath ''.'' of Some i \<Rightarrow> take i filepath | None \<Rightarrow> butlast filepath);
            apath = path_join root track
        in (case he_embedded he apath of Inl e \<Rightarrow> ServerError | Inr _ \<Rightarrow> SendImage apath)
      else
        let fullpath = path_join root filepath in
        if he_exists he fullpath then
          (case he_mutagen he fullpath of
             Inl e \<Rightarrow> ServerError
           | Inr mime \<Rightarrow> static_file he fullpath ''/'' mime)
        else if he_exists he (rq_path rq) then ServerError
        else Status 404)"

section \<open>The control page\<close>

text \<open>The status that is shown is the one before the update that the request starts.\<close>

definition control_page :: "http_env \<Rightarrow> uprcl \<Rightarrow> http_request \<Rightarrow> uprcl \<times> response" where
  "control_page he up rq =
     (if \<not> checkhost rq then (up, Status 404)
      else
        let status = (if up_running up = [] then ''Ready'' else up_running up);
            page = (\<lambda>reloadsecs. Page status reloadsecs (he_friendlyname he))
        in if rq_what rq = Some ''Update Index'' then (start_index_update False up, page ''1'')
           else if rq_what rq = Some ''Reset Index'' then (start_index_update True up, page ''1'')
           else if rq_what rq = Some ''Refresh Status'' then (up, page [])
           else if \<not> truthy (rq_what rq) then
             (up, page (if status = ''Updating'' then ''2'' else if status = ''Rebuilding'' then ''10'' else []))
           else (up, page ''1''))"

section \<open>Routes\<close>

datatype http_target = StaticFiles | Files string

text \<open>A route with a literal beginning and a path. Directories are taken without the characters that have a
  meaning in the rules of the framework.\<close>

type_synonym http_route = "string \<times> http_target"

definition file_route :: "string \<Rightarrow> http_route res" where
  "file_route ptt =
     (let l = split_on (CHR '':'') ptt in
      bindR (nth_res l 0) (\<lambda>rt.
        if rt = [] then Inl IndexError
        else bindR (nth_res l 1) (\<lambda>root.
               Inr (if last rt \<noteq> CHR ''/'' then rt @ ''/'' else rt, Files root))))"

definition http_routes :: "string \<Rightarrow> http_route list res" where
  "http_routes pthstr =
     bindR (mapR file_route (split_on (CHR '','') pthstr)) (\<lambda>rs. Inr ((''/static/'', StaticFiles) # rs))"

text \<open>\<open>^prefix(.+?)$\<close>: no line end but one at the end, which is not part of the path.\<close>

definition path_match :: "string \<Rightarrow> string \<Rightarrow> string option" where
  "path_match prefix path =
     (if \<not> startswith path prefix then None
      else let rest = drop (length prefix) path; line = takeWhile (\<lambda>c. c \<noteq> CHR 0x0A) rest in
           if line \<noteq> [] \<and> drop (length line) rest \<in> {[], [CHR 0x0A]} then Some line else None)"

fun route_match :: "http_route list \<Rightarrow> string \<Rightarrow> (http_target \<times> string) option" where
  "route_match [] path = None"
| "route_match ((prefix, t) # rs) path =
     (case path_match prefix path of Some filepath \<Rightarrow> Some (t, filepath) | None \<Rightarrow> route_match rs path)"

text \<open>A path that is not UTF-8 is refused before any callback sees it.\<close>

definition http_handle :: "http_env \<Rightarrow> http_route list \<Rightarrow> uprcl \<Rightarrow> http_request \<Rightarrow> uprcl \<times> response" where
  "http_handle he routes up rq =
     (let path = (if rq_path rq = [] then ''/'' else rq_path rq) in
      if \<not> valid_utf8 (rq_path rq) then (up, Status 400)
      else if path = ''/'' then control_page he up rq
      else case route_match routes path of
             None \<Rightarrow> (up, Status 404)
           | Some (t, filepath) \<Rightarrow>
               if rq_post rq then (up, Status 405)
               else (up, case t of
                       StaticFiles \<Rightarrow>
                         if \<not> checkhost rq then Status 404
                         else static_file he filepath (path_join (he_datadir he) ''static'') None
                     | Files root \<Rightarrow> Streamer he root rq filepath))"

section \<open>The files of the library are sent\<close>

text \<open>A path without empty components and dots.\<close>

definition clean_path :: "string \<Rightarrow> bool" where
  "clean_path p \<longleftrightarrow> (\<exists>cs. cs \<noteq> [] \<and> p = ''/'' @ join_with ''/'' cs \<and> list_all (\<lambda>c. real_comp c \<and> CHR ''/'' \<notin> set c) cs)"

text \<open>A media directory that the list of path translations can hold.\<close>

definition plain_dir :: "string \<Rightarrow> bool" where
  "plain_dir d \<longleftrightarrow> d \<noteq> [] \<and> last d \<noteq> CHR ''/'' \<and> CHR '':'' \<notin> set d \<and> CHR '','' \<notin> set d"

lemma norm_comps_real:
  "list_all real_comp cs \<Longrightarrow> list_all real_comp acc \<Longrightarrow> norm_comps sl acc cs = acc @ cs"
proof (induction cs arbitrary: acc)
  case (Cons c cs)
  then have "norm_comps sl acc (c # cs) = norm_comps sl (acc @ [c]) cs" by (simp add: real_comp_def)
  with Cons show ?case by simp
qed simp

lemma join_slash_start: "list_all (\<lambda>c. real_comp c \<and> CHR ''/'' \<notin> set c) cs \<Longrightarrow> cs \<noteq> [] \<Longrightarrow>
    join_with ''/'' cs \<noteq> [] \<and> hd (join_with ''/'' cs) \<noteq> CHR ''/''"
  by (cases cs rule: list.exhaust; cases "hd cs"; cases "tl cs") (auto simp: real_comp_def)

lemma normpath_two_slashes:
  assumes "list_all (\<lambda>c. real_comp c \<and> CHR ''/'' \<notin> set c) cs" and "cs \<noteq> []"
  shows "normpath (''//'' @ join_with ''/'' cs) = ''//'' @ join_with ''/'' cs"
proof -
  let ?j = "join_with ''/'' cs"
  have j: "?j \<noteq> []" "hd ?j \<noteq> CHR ''/''" using join_slash_start [OF assms] by simp_all
  have sl: "initial_slashes (''//'' @ ?j) = 2" using j by (cases ?j) (simp_all add: initial_slashes_def startswith_def)
  have "split_on (CHR ''/'') (''//'' @ ?j) = [] # [] # cs"
    using split_join_on [of cs "CHR ''/''"] assms by (simp add: list_all_iff)
  moreover have "norm_comps 2 [] ([] # [] # cs) = cs" using norm_comps_real [of cs "[]" 2] assms(1) by (simp add: list_all_iff)
  ultimately show ?thesis using sl by (simp add: normpath_def Let_def numeral_2_eq_2)
qed

lemma normpath_root: "normpath ''/'' = ''/''"
  by code_simp

lemma last_join:
  "xs \<noteq> [] \<Longrightarrow> last xs \<noteq> [] \<Longrightarrow> join_with sep xs \<noteq> [] \<and> last (join_with sep xs) = last (last xs)"
  by (induction sep xs rule: join_with.induct) (auto split: if_splits)

lemma last_join_real:
  assumes "list_all (\<lambda>c. real_comp c \<and> CHR ''/'' \<notin> set c) cs" and "cs \<noteq> []"
  shows "last (join_with ''/'' cs) \<noteq> CHR ''/''"
proof -
  have "last cs \<in> set cs" using assms(2) by simp
  then have "last cs \<noteq> [] \<and> CHR ''/'' \<notin> set (last cs)" using assms(1) by (auto simp: list_all_iff real_comp_def)
  then show ?thesis using last_join [OF assms(2)] last_in_set by metis
qed

text \<open>A clean path that is split at a slash is joined again.\<close>

lemma split_double_slash: "[] \<in> set (tl (split_on (CHR ''/'') (a @ ''//'' @ b)))"
proof (induction a)
  case (Cons x a)
  then show ?case by (cases "split_on (CHR ''/'') (a @ ''//'' @ b)") auto
qed simp

lemma no_double_slash:
  "list_all (\<lambda>c. real_comp c \<and> CHR ''/'' \<notin> set c) cs \<Longrightarrow> ''/'' @ join_with ''/'' cs \<noteq> a @ ''//'' @ b"
proof
  assume cs: "list_all (\<lambda>c. real_comp c \<and> CHR ''/'' \<notin> set c) cs" and eq: "''/'' @ join_with ''/'' cs = a @ ''//'' @ b"
  have ne: "cs \<noteq> []" using eq by (cases a) auto
  have "split_on (CHR ''/'') (''/'' @ join_with ''/'' cs) = [] # cs"
    using split_join_on [of cs "CHR ''/''"] cs ne by (simp add: list_all_iff)
  moreover have "[] \<in> set (tl (split_on (CHR ''/'') (a @ ''//'' @ b)))" by (rule split_double_slash)
  ultimately have "[] \<in> set cs" unfolding eq by simp
  then show False using cs by (auto simp: list_all_iff real_comp_def)
qed

lemma join_clean_path:
  assumes "clean_path p" and "p = d @ ''/'' @ r" and "plain_dir d"
  shows "path_join d r = p"
proof -
  obtain cs where cs: "p = ''/'' @ join_with ''/'' cs" "list_all (\<lambda>c. real_comp c \<and> CHR ''/'' \<notin> set c) cs" "cs \<noteq> []"
    using assms(1) unfolding clean_path_def by (elim exE conjE)
  have r: "\<not> startswith r ''/''" using no_double_slash [OF cs(2), of d] assms(2) cs(1) by (auto simp: startswith_iff)
  have "d \<noteq> []" "\<not> endswith_slash d" using assms(3) by (auto simp: plain_dir_def elim: endswith_slash.elims)
  with r assms(2) show ?thesis by (simp add: path_join_def)
qed

lemma strip_leading_slash:
  assumes "s \<noteq> []" and "\<not> P (hd s)" and "\<not> P (last s)" and "P c"
  shows "strip P (c # s) = s"
  using assms by (cases s) (simp_all add: strip_def lstrip_def rstrip_last)

lemma static_file_clean:
  assumes "clean_path p" and "last p \<noteq> CHR 0x5C" and "p \<noteq> CHR ''/'' # CHR 0x5C # drop 2 p"
  shows "static_file he p ''/'' mime =
     (if \<not> he_exists he (''/'' @ p) \<or> \<not> he_isfile he (''/'' @ p) then Status 404
      else if \<not> he_readable he (''/'' @ p) then Status 403
      else SendFile (''/'' @ p) mime)"
proof -
  let ?P = "\<lambda>c. c = CHR ''/'' \<or> c = CHR 0x5C"
  obtain cs where cs: "cs \<noteq> []" "p = ''/'' @ join_with ''/'' cs"
      "list_all (\<lambda>c. real_comp c \<and> CHR ''/'' \<notin> set c) cs"
    using assms(1) unfolding clean_path_def by (elim exE conjE)
  let ?j = "join_with ''/'' cs"
  have j: "?j \<noteq> []" "hd ?j \<noteq> CHR ''/''" "last ?j \<noteq> CHR ''/''"
    using join_slash_start [OF cs(3,1)] last_join_real [OF cs(3,1)] by simp_all
  have "hd ?j \<noteq> CHR 0x5C" using assms(3) j(1) unfolding cs(2) by (cases ?j) simp_all
  moreover have "last ?j \<noteq> CHR 0x5C" using assms(2) j(1) unfolding cs(2) by simp
  ultimately have st: "strip ?P p = ?j"
    using strip_leading_slash [of ?j ?P "CHR ''/''"] j unfolding cs(2) by simp
  have "path_join ''//'' ?j = ''//'' @ ?j"
    using j(1,2) by (cases ?j) (simp_all add: path_join_def)
  then have full: "normpath (path_join (normpath ''/'' @ ''/'') (strip ?P p)) = ''/'' @ p"
    using normpath_two_slashes [OF cs(3,1)] unfolding st normpath_root by (simp add: cs(2))
  have "startswith (''/'' @ p) (normpath ''/'' @ ''/'')" unfolding normpath_root cs(2) by simp
  with full show ?thesis unfolding static_file_def Let_def by simp
qed

section \<open>The default routes\<close>

definition default_routes :: "string list \<Rightarrow> http_route list" where
  "default_routes topdirs = (''/static/'', StaticFiles) # map (\<lambda>d. (d @ ''/'', Files d)) topdirs"

lemma concat_pairs:
  "topdirs \<noteq> [] \<Longrightarrow>
   concat (map (\<lambda>d. d @ '':'' @ d @ '','') topdirs) = join_with '','' (map (\<lambda>d. d @ '':'' @ d) topdirs) @ '',''"
proof (induction topdirs)
  case (Cons d ds)
  then show ?case by (cases ds) simp_all
qed simp

lemma split_pairs:
  assumes "list_all plain_dir topdirs" and "topdirs \<noteq> []"
  shows "split_on (CHR '','') (rstrip (\<lambda>c. c = CHR '','') (concat (map (\<lambda>d. d @ '':'' @ d @ '','') topdirs)))
           = map (\<lambda>d. d @ '':'' @ d) topdirs"
proof -
  let ?ps = "map (\<lambda>d. d @ '':'' @ d) topdirs"
  have sp: "split_on (CHR '','') (join_with '','' ?ps) = ?ps"
    using split_join_on [of ?ps "CHR '',''"] assms by (auto simp: list_all_iff plain_dir_def)
  have "CHR '','' \<notin> set (last ?ps)" and "last ?ps \<noteq> []" and "?ps \<noteq> []"
    using assms by (auto simp: list_all_iff plain_dir_def last_map)
  then have "join_with '','' ?ps \<noteq> []" "last (join_with '','' ?ps) \<noteq> CHR '',''"
    using last_join [of ?ps "'',''"] last_in_set by metis+
  then have "rstrip (\<lambda>c. c = CHR '','') (join_with '','' ?ps) = join_with '','' ?ps" by (simp add: rstrip_last)
  with sp show ?thesis using concat_pairs [OF assms(2)] by (simp add: rstrip_snoc)
qed

lemma file_route_pair: "plain_dir d \<Longrightarrow> file_route (d @ '':'' @ d) = Inr (d @ ''/'', Files d)"
  using split_join_on [of "[d, d]" "CHR '':''"] by (simp add: file_route_def plain_dir_def nth_res_def)

lemma default_routes:
  assumes "ie_option ie ''uprclpaths'' = Inr None" and "list_all plain_dir topdirs" and "topdirs \<noteq> []"
  shows "\<exists>pthstr. path_spec ie topdirs = Inr pthstr \<and> http_routes pthstr = Inr (default_routes topdirs)"
proof -
  let ?s = "rstrip (\<lambda>c. c = CHR '','') (concat (map (\<lambda>d. d @ '':'' @ d @ '','') topdirs))"
  note sp = split_pairs [OF assms(2,3)]
  have "nth_res (split_on (CHR '':'') (d @ '':'' @ d)) 1 = Inr d" if "d \<in> set topdirs" for d
    using split_join_on [of "[d, d]" "CHR '':''"] that assms(2) by (simp add: list_all_iff plain_dir_def nth_res_def)
  then have "mapR (\<lambda>ptt. nth_res (split_on (CHR '':'') ptt) 1) (split_on (CHR '','') ?s) = Inr topdirs"
    unfolding sp using mapR_total [of topdirs "\<lambda>d. nth_res (split_on (CHR '':'') (d @ '':'' @ d)) 1" id]
    by (simp add: mapR_map comp_def)
  then have "path_spec ie topdirs = Inr ?s" using assms(1) by (simp add: path_spec_def)
  moreover have "mapR file_route (split_on (CHR '','') ?s) = Inr (map (\<lambda>d. (d @ ''/'', Files d)) topdirs)"
    unfolding sp using mapR_total [of topdirs "\<lambda>d. file_route (d @ '':'' @ d)" "\<lambda>d. (d @ ''/'', Files d)"]
      file_route_pair assms(2) by (simp add: mapR_map comp_def list_all_iff)
  ultimately show ?thesis by (simp add: http_routes_def default_routes_def)
qed

text \<open>The first directory that holds the path takes it, and joins it again.\<close>

lemma path_match_line:
  assumes "CHR 0x0A \<notin> set path"
  shows "path_match prefix path = Some r \<longleftrightarrow> path = prefix @ r \<and> r \<noteq> []"
proof (cases "startswith path prefix")
  case True
  then obtain t where t: "path = prefix @ t" unfolding startswith_iff by (elim exE)
  have "takeWhile (\<lambda>c. c \<noteq> CHR 0x0A) t = t" using assms unfolding t takeWhile_eq_all_conv by auto
  then have "path_match prefix path = (if t \<noteq> [] then Some t else None)" unfolding path_match_def t by (simp add: Let_def del: takeWhile_eq_all_conv)
  moreover have "path = prefix @ r \<longleftrightarrow> r = t" unfolding t by auto
  ultimately show ?thesis by auto
next
  case False
  then have "path_match prefix path = None" by (simp add: path_match_def)
  moreover have "path \<noteq> prefix @ r" using False by (simp add: startswith_iff)
  ultimately show ?thesis by simp
qed

lemma path_match_None:
  "CHR 0x0A \<notin> set path \<Longrightarrow> path_match prefix path = None \<longleftrightarrow> \<not> (\<exists>r. path = prefix @ r \<and> r \<noteq> [])"
  using path_match_line [of path prefix] by (metis not_None_eq)

lemma directory_route:
  assumes "CHR 0x0A \<notin> set p" and "\<exists>d \<in> set topdirs. \<exists>r. p = d @ ''/'' @ r \<and> r \<noteq> []"
  shows "\<exists>d r. route_match (map (\<lambda>d. (d @ ''/'', Files d)) topdirs) p = Some (Files d, r) \<and> d \<in> set topdirs
    \<and> p = d @ ''/'' @ r"
  using assms(2)
proof (induction topdirs)
  case (Cons d ds)
  show ?case
  proof (cases "path_match (d @ ''/'') p")
    case None
    then have "\<exists>d \<in> set ds. \<exists>r. p = d @ ''/'' @ r \<and> r \<noteq> []"
      using Cons.prems unfolding path_match_None [OF assms(1)] by auto
    from Cons.IH [OF this] None show ?thesis by auto
  next
    case (Some r)
    then have "p = d @ ''/'' @ r" using path_match_line [OF assms(1), of "d @ ''/''" r] by simp
    then show ?thesis using Some by (intro exI [of _ d] exI [of _ r]) simp
  qed
qed simp

section \<open>From the entry of a track to its file\<close>

text \<open>A file of the library that the server can send: its path has no odd components, it lies below a media
  directory, and it is there under the two names the server uses for it.\<close>

definition servable :: "http_env \<Rightarrow> string list \<Rightarrow> string \<Rightarrow> string option \<Rightarrow> bool" where
  "servable he topdirs p mime \<longleftrightarrow>
     clean_path p \<and> last p \<noteq> CHR 0x5C \<and> \<not> startswith p [CHR ''/'', CHR 0x5C] \<and> \<not> startswith p ''/static/'' \<and>
     CHR 0x0A \<notin> set p \<and> valid_utf8 p \<and> list_ex (\<lambda>d. startswith p (d @ ''/'') \<and> p \<noteq> d @ ''/'') topdirs \<and>
     he_exists he p \<and> he_mutagen he p = Inr mime \<and>
     he_exists he (''/'' @ p) \<and> he_isfile he (''/'' @ p) \<and> he_readable he (''/'' @ p)"

lemma servable_static_file:
  assumes "servable he topdirs p mime"
  shows "static_file he p ''/'' mime = SendFile (''/'' @ p) mime"
proof -
  have "clean_path p" and l: "last p \<noteq> CHR 0x5C" and s: "\<not> startswith p [CHR ''/'', CHR 0x5C]"
    and f: "he_exists he (''/'' @ p)" "he_isfile he (''/'' @ p)" "he_readable he (''/'' @ p)"
    using assms unfolding servable_def by simp_all
  moreover have "p \<noteq> CHR ''/'' # CHR 0x5C # drop 2 p" using s startswith_iff [of p "[CHR ''/'', CHR 0x5C]"] by fastforce
  ultimately show ?thesis using static_file_clean [of p he mime] by simp
qed

lemma http_handle_servable:
  assumes "servable he topdirs p mime" and "list_all plain_dir topdirs" and "rq_path rq = p" and "checkhost rq" and "\<not> rq_embed rq" and "\<not> rq_post rq"
  shows "http_handle he (default_routes topdirs) up rq = (up, SendFile (''/'' @ p) mime)"
proof -
  have nl: "CHR 0x0A \<notin> set p" and u: "valid_utf8 p" and st: "\<not> startswith p ''/static/''"
    and ex: "he_exists he p" "he_mutagen he p = Inr mime" and cl: "clean_path p"
    using assms(1) unfolding servable_def by simp_all
  have "\<exists>d \<in> set topdirs. \<exists>r. p = d @ ''/'' @ r \<and> r \<noteq> []"
    using assms(1) unfolding servable_def list_ex_iff startswith_iff by auto
  from directory_route [OF nl this] obtain d r where
    dr: "route_match (map (\<lambda>d. (d @ ''/'', Files d)) topdirs) p = Some (Files d, r)" "p = d @ ''/'' @ r"
      "d \<in> set topdirs" by (elim exE conjE)
  obtain cs where cs: "cs \<noteq> []" "p = ''/'' @ join_with ''/'' cs"
      "list_all (\<lambda>c. real_comp c \<and> CHR ''/'' \<notin> set c) cs"
    using cl unfolding clean_path_def by (elim exE conjE)
  have p: "p \<noteq> []" "p \<noteq> ''/''" using join_slash_start [OF cs(3,1)] unfolding cs(2) by simp_all
  have "path_match ''/static/'' p = None" using st by (simp add: path_match_def)
  then have m: "route_match (default_routes topdirs) p = Some (Files d, r)" using dr(1) by (simp add: default_routes_def)
  have "path_join d r = p" using join_clean_path [OF cl dr(2)] dr(3) assms(2) by (simp add: list_all_iff)
  then have "Streamer he d rq r = SendFile (''/'' @ p) mime"
    using assms(4,5) ex servable_static_file [OF assms(1)] by (simp add: Streamer_def Let_def)
  then show ?thesis using m p u assms(3,6) by (simp add: http_handle_def Let_def)
qed

text \<open>C13. What a control point plays is the file: the URL in the entry of an audio document, unquoted by the
  server and run through the routes made of the media directories, is answered with the file of the document, with
  the type its tags give.\<close>

theorem document_url_streams:
  assumes "rcldoctoentry fe i pid httphp pathprefix doc cache = Inr (e, cache')"
    and "d_val doc ''mtype'' \<in> set audiomtypes" and "startswith (d_val doc ''url'') ''file://''"
    and "ie_option ie ''uprclpaths'' = Inr None" and "list_all plain_dir topdirs"
    and "servable he topdirs (docpath fe doc) mime"
    and "checkhost rq" and "\<not> rq_embed rq" and "\<not> rq_post rq"
  shows "\<exists>pthstr routes q. path_spec ie topdirs = Inr pthstr \<and> http_routes pthstr = Inr routes \<and>
    e ''uri'' = Some (''http://'' @ httphp @ q) \<and>
    http_handle he routes up (rq\<lparr>rq_path := unquote q\<rparr>) = (up, SendFile (''/'' @ docpath fe doc) mime)"
proof -
  obtain arturi where e: "e = finish_entry fe httphp doc arturi (index_entry i pid doc)"
    using rcldoctoentry_eq [OF assms(1,2)] .
  have "topdirs \<noteq> []" using assms(6) by (auto simp: servable_def)
  from default_routes [OF assms(4,5) this] obtain pthstr where
    "path_spec ie topdirs = Inr pthstr" "http_routes pthstr = Inr (default_routes topdirs)" by (elim exE conjE)
  moreover have "e ''uri'' = Some (''http://'' @ httphp @ urlquote (docpath fe doc))"
    using assms(3) by (simp add: e finish_entry_uri httpurl_def)
  moreover have "http_handle he (default_routes topdirs) up (rq\<lparr>rq_path := unquote (urlquote (docpath fe doc))\<rparr>)
      = (up, SendFile (''/'' @ docpath fe doc) mime)"
    using http_handle_servable [OF assms(6,5)] assms(7-9) by (simp add: checkhost_def)
  ultimately show ?thesis by (intro exI conjI)
qed

definition demo_http :: http_env where
  "demo_http = \<lparr>he_exists = (\<lambda>p. p \<in> {''/m/a b.flac'', ''//m/a b.flac'', ''/etc/passwd'', ''//etc/passwd''}),
     he_isfile = (\<lambda>p. p \<in> {''/m/a b.flac'', ''//m/a b.flac'', ''/etc/passwd'', ''//etc/passwd''}),
     he_readable = (\<lambda>p. True), he_mutagen = (\<lambda>p. Inr (if p = ''/m/a b.flac'' then Some ''audio/flac'' else None)),
     he_embedded = (\<lambda>p. Inr ()), he_datadir = ''/usr/share/upmpdcli/cdplugins/uprcl/bottle'',
     he_friendlyname = ''UpMpd''\<rparr>"

definition demo_ienv :: initenv where
  "demo_ienv = \<lparr>ie_environ = (\<lambda>k. None), ie_upconfig = empty_conf False False True, ie_minim = empty_conf False False True,
     ie_isdir = (\<lambda>d. True)\<rparr>"

definition demo_get :: http_request where
  "demo_get = \<lparr>rq_post = False, rq_path = [], rq_host = Some ''192.168.1.2:9090'', rq_embed = False, rq_what = None\<rparr>"

theorem document_url_streams_witness:
  "\<exists>pthstr routes q e c. rcldoctoentry demo_fs ''i1'' ''p'' ''h:1'' ''/uprcl'' demo_doc Map.empty = Inr (e, c) \<and>
     http_routes pthstr = Inr routes \<and> e ''uri'' = Some (''http://h:1'' @ q) \<and>
     http_handle demo_http routes uprcl_start (demo_get\<lparr>rq_path := unquote q\<rparr>)
       = (uprcl_start, SendFile ''//m/a b.flac'' (Some ''audio/flac''))"
proof -
  have "is_ok (rcldoctoentry demo_fs ''i1'' ''p'' ''h:1'' ''/uprcl'' demo_doc Map.empty)" by code_simp
  then obtain e c where e: "rcldoctoentry demo_fs ''i1'' ''p'' ''h:1'' ''/uprcl'' demo_doc Map.empty = Inr (e, c)"
    by (auto simp: is_ok_iff)
  have m: "d_val demo_doc ''mtype'' \<in> set audiomtypes" "startswith (d_val demo_doc ''url'') ''file://''" by code_simp+
  have o: "ie_option demo_ienv ''uprclpaths'' = Inr None" by code_simp
  have d: "list_all plain_dir [''/m'']" by code_simp
  have p: "docpath demo_fs demo_doc = ''/m/a b.flac''" by code_simp
  have "clean_path ''/m/a b.flac''"
    unfolding clean_path_def by (rule exI [of _ "[''m'', ''a b.flac'']"]) (simp add: real_comp_def)
  moreover have "valid_utf8 ''/m/a b.flac''" by code_simp
  ultimately have s: "servable demo_http [''/m''] (docpath demo_fs demo_doc) (Some ''audio/flac'')"
    unfolding p servable_def by (simp add: demo_http_def)
  have g: "checkhost demo_get" "\<not> rq_embed demo_get" "\<not> rq_post demo_get" by code_simp+
  from document_url_streams [OF e m o d s g, of uprcl_start] obtain pthstr routes q where
    "http_routes pthstr = Inr routes" "e ''uri'' = Some (''http://'' @ ''h:1'' @ q)"
    "http_handle demo_http routes uprcl_start (demo_get\<lparr>rq_path := unquote q\<rparr>)
       = (uprcl_start, SendFile (''/'' @ docpath demo_fs demo_doc) (Some ''audio/flac''))" by (elim exE conjE)
  with e show ?thesis unfolding p by (intro exI [of _ pthstr] exI [of _ routes] exI [of _ q] exI [of _ e] exI [of _ c]) simp
qed

text \<open>The streams are not held to the media directories: the path of a request may be absolute, and the file is sent
  from the root of the file system. The host is checked at its beginning only.\<close>

lemma streamer_leaves_directory:
  "snd (http_handle demo_http (default_routes [''/m'']) uprcl_start (demo_get\<lparr>rq_path := ''/m//etc/passwd''\<rparr>))
     = SendFile ''//etc/passwd'' None"
  by code_simp

lemma host_end_unchecked: "hostre ''1.2.3.4:5.example.com''"
  by code_simp

text \<open>A path that the file system does not have, and that is no UTF-8, is not tried as bytes but refused.\<close>

lemma bytes_path_refused:
  "\<not> valid_utf8 p \<Longrightarrow> http_handle he routes up (rq\<lparr>rq_path := p\<rparr>) = (up, Status 400)"
  by (simp add: http_handle_def Let_def)

text \<open>The picture in a track is fetched from the path of the track: the type in the URL is cut off.\<close>

lemma py_rfind_last: "c \<notin> set t \<Longrightarrow> py_rfind (s @ c # t) [c] = Some (length s)"
proof -
  assume "c \<notin> set t"
  then have "py_rfind t [c] = None" by (induction t) auto
  then show ?thesis by (induction s) simp_all
qed

lemma picture_of_track:
  assumes "CHR ''.'' \<notin> set ext" and "he_embedded he (path_join root track) = Inr ()" and "checkhost rq" and "rq_embed rq"
  shows "Streamer he root rq (track @ ''.'' @ ext) = SendImage (path_join root track)"
  using assms py_rfind_last [OF assms(1), of track] by (simp add: Streamer_def)

text \<open>Requests to the streams and static files leave the library alone; a request that fails the host check does
  too.\<close>

lemma http_handle_state:
  "fst (http_handle he routes up rq) = up \<or> (checkhost rq \<and> rq_path rq \<in> {[], ''/''})"
  by (auto simp: http_handle_def control_page_def Let_def split: option.splits)

end
