(* ===== verification/SpotifyAuth.thy ===== *)
theory SpotifyAuth
  imports Spotify PyJson PyBase64
begin

text \<open>
  The authorization of the client library in the Spotify plugin (\<open>spotify/spotipy/oauth2.py\<close>, \<open>util.py\<close>, the
  headers of \<open>client.py\<close>): tokens are asked for, kept in a file, and asked for again when they run out. The
  service, the clock and the file are parameters; the clock is read, and the service asked, at numbered moments.
  A failure of the network or of the file is an \<open>IOError\<close>, which is caught where the file is read.
\<close>

section \<open>Tokens and the world\<close>

text \<open>A token is a dictionary: of texts and numbers, as the service sends it.\<close>

type_synonym token = "(string \<times> jval) list"

record post_reply =
  pr_status :: int
  pr_reason :: string
  pr_json :: "token res"

text \<open>Requests have a payload and a header for the authorization.\<close>

record auth_world =
  aw_time :: "nat \<Rightarrow> int"
  aw_post :: "nat \<Rightarrow> (string \<times> jval) list \<Rightarrow> string \<Rightarrow> post_reply res"
  aw_writable :: bool

record auth_state =
  as_moment :: nat
  as_file :: "string option"

definition io_error :: py_error where
  "io_error = Raised ''IOError''"

text \<open>A truth value counts as a number.\<close>

fun jval_int :: "jval \<Rightarrow> int res" where
  "jval_int (JInt n) = Inr n"
| "jval_int (JBool b) = Inr (of_bool b)"
| "jval_int v = Inl TypeError"

fun jval_str :: "jval \<Rightarrow> string" where
  "jval_str (JStr s) = s"
| "jval_str (JInt n) = str_int n"
| "jval_str (JBool b) = (if b then ''True'' else ''False'')"
| "jval_str JNull = ''None''"

definition jval_opt :: "string option \<Rightarrow> jval" where
  "jval_opt v = (case v of Some s \<Rightarrow> JStr s | None \<Rightarrow> JNull)"

definition make_authorization_headers :: "string \<Rightarrow> string \<Rightarrow> string res" where
  "make_authorization_headers client_id client_secret =
     (let s = client_id @ '':'' @ client_secret in
      if \<not> is_ascii s then Inl ValueError else Inr (''Basic '' @ b64encode s))"

definition tick :: "auth_state \<Rightarrow> auth_state" where
  "tick st = st\<lparr>as_moment := Suc (as_moment st)\<rparr>"

text \<open>Less than a minute left counts as expired.\<close>

definition is_token_expired :: "auth_world \<Rightarrow> token \<Rightarrow> auth_state \<Rightarrow> auth_state \<times> bool res" where
  "is_token_expired w t st =
     (tick st, bindR (dict_get t ''expires_at'') (\<lambda>v. bindR (jval_int v) (\<lambda>e. Inr (e - aw_time w (as_moment st) < 60))))"

section \<open>The token of a user\<close>

record oauth =
  oa_client_id :: string
  oa_client_secret :: "string option"
  oa_redirect_uri :: "string option"
  oa_state :: "string option"
  oa_scope :: "string option"
  oa_cache_path :: "string option"

definition normalize_scope :: "string option \<Rightarrow> string option" where
  "normalize_scope scope =
     (if truthy scope then Some (join_with '' '' (sort (split_ws is_space (the scope)))) else None)"

definition SpotifyOAuth_init ::
  "string \<Rightarrow> string option \<Rightarrow> string option \<Rightarrow> string option \<Rightarrow> string option \<Rightarrow> string option \<Rightarrow> oauth" where
  "SpotifyOAuth_init client_id client_secret redirect_uri state scope cache_path =
     \<lparr>oa_client_id = client_id, oa_client_secret = client_secret, oa_redirect_uri = redirect_uri,
      oa_state = state, oa_scope = normalize_scope scope, oa_cache_path = cache_path\<rparr>"

definition scope_words :: "string option \<Rightarrow> string set" where
  "scope_words s = (if truthy s then set (split_ws is_space (the s)) else {})"

text \<open>The scope in the file may be anything; a number has no words.\<close>

definition is_scope_subset :: "string option \<Rightarrow> jval \<Rightarrow> bool res" where
  "is_scope_subset needle haystack =
     (case haystack of
        JStr s \<Rightarrow> Inr (scope_words needle \<subseteq> scope_words (Some s))
      | JNull \<Rightarrow> Inr (scope_words needle = {})
      | JInt n \<Rightarrow> if n = 0 then Inr (scope_words needle = {}) else Inl AttributeError
      | JBool b \<Rightarrow> if b then Inl AttributeError else Inr (scope_words needle = {}))"

text \<open>What cannot be written is only reported.\<close>

definition save_token_info :: "oauth \<Rightarrow> auth_world \<Rightarrow> token \<Rightarrow> auth_state \<Rightarrow> auth_state" where
  "save_token_info oa w t st =
     (if truthy (oa_cache_path oa) \<and> aw_writable w then st\<lparr>as_file := Some (json_dumps t)\<rparr> else st)"

definition add_custom_values :: "oauth \<Rightarrow> auth_world \<Rightarrow> token \<Rightarrow> auth_state \<Rightarrow> auth_state \<times> token res" where
  "add_custom_values oa w t st =
     (tick st,
      bindR (dict_get t ''expires_in'') (\<lambda>v. bindR (jval_int v) (\<lambda>n.
        Inr (AList.update ''scope'' (jval_opt (oa_scope oa))
              (AList.update ''expires_at'' (JInt (aw_time w (as_moment st) + n)) t)))))"

text \<open>A request for a token.\<close>

definition post_token :: "oauth \<Rightarrow> auth_world \<Rightarrow> (string \<times> jval) list \<Rightarrow> auth_state \<Rightarrow> auth_state \<times> post_reply res" where
  "post_token oa w payload st =
     (case (case oa_client_secret oa of
              None \<Rightarrow> Inl TypeError
            | Some secret \<Rightarrow> make_authorization_headers (oa_client_id oa) secret) of
        Inl e \<Rightarrow> (st, Inl e)
      | Inr h \<Rightarrow> (tick st, aw_post w (as_moment st) payload h))"

definition refresh_access_token :: "oauth \<Rightarrow> auth_world \<Rightarrow> jval \<Rightarrow> auth_state \<Rightarrow> auth_state \<times> token option res" where
  "refresh_access_token oa w refresh_token st =
     (case post_token oa w [(''refresh_token'', refresh_token), (''grant_type'', JStr ''refresh_token'')] st of
        (st, Inl e) \<Rightarrow> (st, Inl e)
      | (st, Inr response) \<Rightarrow>
          if pr_status response \<noteq> 200 then (st, Inr None)
          else case pr_json response of
            Inl e \<Rightarrow> (st, Inl e)
          | Inr t \<Rightarrow> (case add_custom_values oa w t st of
              (st, Inl e) \<Rightarrow> (st, Inl e)
            | (st, Inr t) \<Rightarrow>
                let t = (if \<not> has_key t ''refresh_token'' then AList.update ''refresh_token'' refresh_token t else t)
                in (save_token_info oa w t st, Inr (Some t))))"

text \<open>When an \<open>IOError\<close> ends the refreshing, the token that was read is returned, expired as it is.\<close>

definition cached_or_refreshed :: "oauth \<Rightarrow> auth_world \<Rightarrow> token \<Rightarrow> auth_state \<Rightarrow> auth_state \<times> token option res" where
  "cached_or_refreshed oa w t st =
     (case is_token_expired w t st of
        (st, Inl e) \<Rightarrow> (st, Inl e)
      | (st, Inr False) \<Rightarrow> (st, Inr (Some t))
      | (st, Inr True) \<Rightarrow> (case dict_get t ''refresh_token'' of
          Inl e \<Rightarrow> (st, Inl e)
        | Inr rt \<Rightarrow> (case refresh_access_token oa w rt st of
            (st, Inl e) \<Rightarrow> (st, if e = io_error then Inr (Some t) else Inl e)
          | r \<Rightarrow> r)))"

definition get_cached_token :: "oauth \<Rightarrow> auth_world \<Rightarrow> auth_state \<Rightarrow> auth_state \<times> token option res" where
  "get_cached_token oa w st =
     (if \<not> truthy (oa_cache_path oa) then (st, Inr None)
      else case as_file st of
        None \<Rightarrow> (st, Inr None)
      | Some s \<Rightarrow>
          if \<not> valid_utf8 s then (st, Inl ValueError)
          else case json_loads s of
            Inl e \<Rightarrow> (st, Inl e)
          | Inr t \<Rightarrow>
              if \<not> has_key t ''scope'' then (st, Inr None)
              else case bindR (dict_get t ''scope'') (is_scope_subset (oa_scope oa)) of
                Inl e \<Rightarrow> (st, Inl e)
              | Inr False \<Rightarrow> (st, Inr None)
              | Inr True \<Rightarrow> cached_or_refreshed oa w t st)"

text \<open>Getting a token for a code that the user was given.\<close>

definition opt_param :: "string \<Rightarrow> string option \<Rightarrow> (string \<times> string) list" where
  "opt_param k v = (if truthy v then [(k, the v)] else [])"

definition get_access_token :: "oauth \<Rightarrow> auth_world \<Rightarrow> string option \<Rightarrow> auth_state \<Rightarrow> auth_state \<times> token res" where
  "get_access_token oa w code st =
     (let payload = [(''redirect_uri'', jval_opt (oa_redirect_uri oa)),
                     (''code'', jval_opt code),
                     (''grant_type'', JStr ''authorization_code'')]
                    @ map (map_prod id JStr) (opt_param ''scope'' (oa_scope oa) @ opt_param ''state'' (oa_state oa))
      in case post_token oa w payload st of
        (st, Inl e) \<Rightarrow> (st, Inl e)
      | (st, Inr response) \<Rightarrow>
          if pr_status response \<noteq> 200 then (st, Inl (Raised (''SpotifyOauthError '' @ pr_reason response)))
          else case pr_json response of
            Inl e \<Rightarrow> (st, Inl e)
          | Inr t \<Rightarrow> (case add_custom_values oa w t st of
              (st, Inl e) \<Rightarrow> (st, Inl e)
            | (st, Inr t) \<Rightarrow> (save_token_info oa w t st, Inr t)))"

definition get_authorize_url :: "oauth \<Rightarrow> string option \<Rightarrow> bool \<Rightarrow> string" where
  "get_authorize_url oa state show_dialog =
     (let state = (if state = None then oa_state oa else state);
          payload = [(''client_id'', oa_client_id oa), (''response_type'', ''code''),
                     (''redirect_uri'', jval_str (jval_opt (oa_redirect_uri oa)))]
            @ opt_param ''scope'' (oa_scope oa)
            @ (case state of Some s \<Rightarrow> [(''state'', s)] | None \<Rightarrow> [])
            @ (if show_dialog then [(''show_dialog'', ''True'')] else [])
      in ''https://accounts.spotify.com/authorize?'' @ urlencode payload)"

definition parse_response_code :: "string \<Rightarrow> string option" where
  "parse_response_code url =
     (case split_str ''?code='' url of
        _ # rest # _ \<Rightarrow> Some (hd (split_on (CHR ''&'') rest))
      | _ \<Rightarrow> None)"

section \<open>Users\<close>

text \<open>The answer is the object that gives the tokens. \<open>getenv\<close> has the settings of the environment, \<open>response\<close>
  the address the user was led to.\<close>

definition env_default :: "(string \<rightharpoonup> string) \<Rightarrow> string option \<Rightarrow> string \<Rightarrow> string option" where
  "env_default getenv v k = (if truthy v then v else getenv k)"

definition prompt_for_user_token ::
  "auth_world \<Rightarrow> (string \<rightharpoonup> string) \<Rightarrow> string \<Rightarrow> string option \<Rightarrow> string option \<Rightarrow> string option \<Rightarrow>
   string option \<Rightarrow> string option \<Rightarrow> string \<Rightarrow> auth_state \<Rightarrow> auth_state \<times> oauth option res" where
  "prompt_for_user_token w getenv username scope client_id client_secret redirect_uri cache_path response st =
     (let client_id = env_default getenv client_id ''SPOTIPY_CLIENT_ID'' in
      if \<not> truthy client_id then (st, Inl (Raised ''SpotifyException''))
      else
        let cache_path = (if truthy cache_path then cache_path else Some (''.cache-'' @ username));
            oa = SpotifyOAuth_init (the client_id) (env_default getenv client_secret ''SPOTIPY_CLIENT_SECRET'')
                   (env_default getenv redirect_uri ''SPOTIPY_REDIRECT_URI'') None scope cache_path
        in case get_cached_token oa w st of
          (st, Inl e) \<Rightarrow> (st, Inl e)
        | (st, Inr t) \<Rightarrow>
            if t \<noteq> None \<and> t \<noteq> Some [] then (st, Inr (Some oa))
            else (case get_access_token oa w (parse_response_code response) st of
                    (st, Inl e) \<Rightarrow> (st, Inl e)
                  | (st, Inr t) \<Rightarrow> (st, Inr (if t \<noteq> [] then Some oa else None))))"

definition session_oauth :: "string \<Rightarrow> oauth" where
  "session_oauth cachepath =
     SpotifyOAuth_init ''5b4e1f241a734668aaddf170017d9244'' (Some ''9bd49518f7974f8ebb6f965ae641022b'')
       (Some ''https://www.lesbonscomptes.com/spotify/'') None
       (Some ''playlist-read-private playlist-read-collaborative user-library-read user-read-recently-played user-top-read user-follow-read'')
       (Some cachepath)"

text \<open>The header for the authorization of a request, if there is one.\<close>

definition auth_headers :: "oauth \<Rightarrow> auth_world \<Rightarrow> auth_state \<Rightarrow> auth_state \<times> string option res" where
  "auth_headers oa w st =
     (case get_cached_token oa w st of
        (st, Inl e) \<Rightarrow> (st, Inl e)
      | (st, Inr None) \<Rightarrow> (st, Inr None)
      | (st, Inr (Some t)) \<Rightarrow>
          if t = [] then (st, Inr None)
          else (st, bindR (dict_get t ''access_token'') (\<lambda>v. Inr (Some (''Bearer '' @ jval_str v)))))"

section \<open>The token of the program\<close>

record credentials =
  cc_client_id :: string
  cc_client_secret :: string
  cc_token_info :: "token option"

definition SpotifyClientCredentials_init ::
  "(string \<rightharpoonup> string) \<Rightarrow> string option \<Rightarrow> string option \<Rightarrow> credentials res" where
  "SpotifyClientCredentials_init getenv client_id client_secret =
     (let client_id = env_default getenv client_id ''SPOTIPY_CLIENT_ID'';
          client_secret = env_default getenv client_secret ''SPOTIPY_CLIENT_SECRET''
      in if \<not> truthy client_id then Inl (Raised ''SpotifyOauthError No client id'')
         else if \<not> truthy client_secret then Inl (Raised ''SpotifyOauthError No client secret'')
         else Inr \<lparr>cc_client_id = the client_id, cc_client_secret = the client_secret, cc_token_info = None\<rparr>)"

text \<open>The text of the error has no place for the reason: an answer with another status is a \<open>TypeError\<close>.\<close>

definition request_client_token :: "credentials \<Rightarrow> auth_world \<Rightarrow> auth_state \<Rightarrow> auth_state \<times> token res" where
  "request_client_token cc w st =
     (case make_authorization_headers (cc_client_id cc) (cc_client_secret cc) of
        Inl e \<Rightarrow> (st, Inl e)
      | Inr h \<Rightarrow>
          (tick st,
           bindR (aw_post w (as_moment st) [(''grant_type'', JStr ''client_credentials'')] h) (\<lambda>response.
             if pr_status response \<noteq> 200 then Inl TypeError else pr_json response)))"

definition add_expiry :: "auth_world \<Rightarrow> token \<Rightarrow> auth_state \<Rightarrow> auth_state \<times> token res" where
  "add_expiry w t st =
     (tick st,
      bindR (dict_get t ''expires_in'') (\<lambda>v. bindR (jval_int v) (\<lambda>n.
        Inr (AList.update ''expires_at'' (JInt (aw_time w (as_moment st) + n)) t))))"

definition fetch_client_token ::
  "credentials \<Rightarrow> auth_world \<Rightarrow> auth_state \<Rightarrow> credentials \<times> auth_state \<times> jval res" where
  "fetch_client_token cc w st =
     (case request_client_token cc w st of
        (st, Inl e) \<Rightarrow> (cc, st, Inl e)
      | (st, Inr t) \<Rightarrow> (case add_expiry w t st of
          (st, Inl e) \<Rightarrow> (cc, st, Inl e)
        | (st, Inr t) \<Rightarrow> (cc\<lparr>cc_token_info := Some t\<rparr>, st, dict_get t ''access_token'')))"

definition client_access_token ::
  "credentials \<Rightarrow> auth_world \<Rightarrow> auth_state \<Rightarrow> credentials \<times> auth_state \<times> jval res" where
  "client_access_token cc w st =
     (case cc_token_info cc of
        Some (m # ms) \<Rightarrow>
          (case is_token_expired w (m # ms) st of
             (st, Inl e) \<Rightarrow> (cc, st, Inl e)
           | (st, Inr True) \<Rightarrow> fetch_client_token cc w st
           | (st, Inr False) \<Rightarrow> (cc, st, dict_get (m # ms) ''access_token''))
      | _ \<Rightarrow> fetch_client_token cc w st)"

section \<open>What is stored is used\<close>

lemma tick_moment [simp]: "as_moment (tick st) = as_moment st + 1" "as_file (tick st) = as_file st"
  by (simp_all add: tick_def)

definition jstr_ok :: "jval \<Rightarrow> bool" where
  "jstr_ok v \<longleftrightarrow> (case v of JStr t \<Rightarrow> valid_utf8 t | _ \<Rightarrow> True)"

lemma scope_of_itself: "is_scope_subset s (jval_opt s) = Inr True"
  by (cases s) (simp_all add: is_scope_subset_def jval_opt_def scope_words_def)

text \<open>A token with the scope of the application, that says when it expires, in the file.\<close>

definition stored :: "oauth \<Rightarrow> token \<Rightarrow> auth_state \<Rightarrow> bool" where
  "stored oa t st \<longleftrightarrow>
     as_file st = Some (json_dumps t) \<and> json_ok t \<and> map_of t ''scope'' = Some (jval_opt (oa_scope oa)) \<and>
     (\<exists>n. map_of t ''expires_at'' = Some (JInt n))"

lemma get_cached_stored:
  assumes "truthy (oa_cache_path oa)" and "stored oa t st"
  shows "get_cached_token oa w st = cached_or_refreshed oa w t st"
  using assms scope_of_itself [of "oa_scope oa"] json_loads_dumps [of t] valid_utf8_ascii [OF json_dumps_ascii, of t]
  by (simp add: get_cached_token_def stored_def has_key_def dict_get_def)

text \<open>An answer of the service that is a token.\<close>

definition good_token :: "token \<Rightarrow> bool" where
  "good_token t \<longleftrightarrow> json_ok t \<and> has_key t ''access_token'' \<and> (\<exists>n. map_of t ''expires_in'' = Some (JInt n))"

definition scope_utf8 :: "oauth \<Rightarrow> bool" where
  "scope_utf8 oa \<longleftrightarrow> (case oa_scope oa of Some s \<Rightarrow> valid_utf8 s | None \<Rightarrow> True)"

lemma json_ok_custom: "json_ok t \<Longrightarrow> scope_utf8 oa \<Longrightarrow>
    json_ok (AList.update ''scope'' (jval_opt (oa_scope oa)) (AList.update ''expires_at'' (JInt n) t))"
  by (intro json_ok_update) (auto simp: scope_utf8_def jval_opt_def split: option.splits)

lemma add_custom_good:
  assumes "good_token d" and "scope_utf8 oa"
  obtains t n where "add_custom_values oa w d st = (tick st, Inr t)" and "json_ok t"
    and "map_of d ''expires_in'' = Some (JInt n)" and "map_of t ''expires_at'' = Some (JInt (aw_time w (as_moment st) + n))"
    and "map_of t ''scope'' = Some (jval_opt (oa_scope oa))"
    and "\<And>k. k \<notin> {''scope'', ''expires_at''} \<Longrightarrow> map_of t k = map_of d k"
proof -
  obtain n where n: "map_of d ''expires_in'' = Some (JInt n)" using assms(1) by (auto simp: good_token_def)
  let ?t = "AList.update ''scope'' (jval_opt (oa_scope oa)) (AList.update ''expires_at'' (JInt (aw_time w (as_moment st) + n)) d)"
  show ?thesis
  proof (rule that [of ?t n])
    show "add_custom_values oa w d st = (tick st, Inr ?t)" by (simp add: add_custom_values_def dict_get_def n)
    show "json_ok ?t" using assms json_ok_custom by (simp add: good_token_def)
  qed (simp_all add: n)
qed

text \<open>C40. The token that a login gave is found in the file: until a minute before it expires it is returned again,
  without asking the service.\<close>

theorem login_token_kept:
  assumes "get_access_token oa w code st = (st1, Inr t)"
    and "\<And>i p h r d. aw_post w i p h = Inr r \<Longrightarrow> pr_json r = Inr d \<Longrightarrow> good_token d"
    and "scope_utf8 oa" and "truthy (oa_cache_path oa)" and "aw_writable w"
    and "map_of t ''expires_in'' = Some (JInt n)"
    and "as_file st2 = as_file st1" and "aw_time w' (as_moment st2) + 60 \<le> aw_time w (as_moment st + 1) + n"
  shows "get_cached_token oa w' st2 = (tick st2, Inr (Some t))"
proof -
  obtain st' r where p: "as_moment st' = Suc (as_moment st)" "pr_status r = 200"
    and r: "\<exists>i p h. aw_post w i p h = Inr r" and d: "\<exists>d. pr_json r = Inr d \<and>
      (case add_custom_values oa w d st' of (st, Inl e) \<Rightarrow> (st, Inl e) | (st, Inr t) \<Rightarrow> (save_token_info oa w t st, Inr t)) = (st1, Inr t)"
    using assms(1) unfolding get_access_token_def post_token_def Let_def
    by (force simp: tick_def split: sum.splits option.splits if_splits)
  from d obtain d where d: "pr_json r = Inr d"
    "(case add_custom_values oa w d st' of (st, Inl e) \<Rightarrow> (st, Inl e) | (st, Inr t) \<Rightarrow> (save_token_info oa w t st, Inr t)) = (st1, Inr t)"
    by (elim exE conjE)
  have "good_token d" using assms(2) r d(1) by auto
  from add_custom_good [OF this assms(3), of w st'] obtain u m where
    u: "add_custom_values oa w d st' = (tick st', Inr u)" "json_ok u" "map_of d ''expires_in'' = Some (JInt m)"
      "map_of u ''expires_at'' = Some (JInt (aw_time w (as_moment st') + m))"
      "map_of u ''scope'' = Some (jval_opt (oa_scope oa))"
      "\<And>k. k \<notin> {''scope'', ''expires_at''} \<Longrightarrow> map_of u k = map_of d k" by metis
  have t: "t = u" "st1 = save_token_info oa w u (tick st')" using d(2) unfolding u(1) by auto
  have "m = n" using u(3,6) assms(6) unfolding t(1) by simp
  have "as_file st2 = Some (json_dumps u)" using assms(4,5,7) t(2) by (simp add: save_token_info_def)
  then have s: "stored oa u st2" using u(2,4,5) by (simp add: stored_def)
  show ?thesis
    unfolding get_cached_stored [OF assms(4) s] cached_or_refreshed_def is_token_expired_def t(1)
    using u(4) assms(8) p(1) \<open>m = n\<close> by (simp add: dict_get_def)
qed

section \<open>An authorized user stays authorized\<close>

text \<open>The file has a token that can be used and refreshed.\<close>

definition authorized :: "oauth \<Rightarrow> auth_state \<Rightarrow> bool" where
  "authorized oa st \<longleftrightarrow> (\<exists>t. stored oa t st \<and> has_key t ''access_token'' \<and> has_key t ''refresh_token'')"

text \<open>The service gives a token for every refresh token it is sent.\<close>

definition refreshes :: "auth_world \<Rightarrow> bool" where
  "refreshes w \<longleftrightarrow> (\<forall>i rt h. \<exists>r d.
     aw_post w i [(''refresh_token'', rt), (''grant_type'', JStr ''refresh_token'')] h = Inr r \<and>
     pr_status r = 200 \<and> pr_json r = Inr d \<and> good_token d)"

text \<open>Credentials that can be sent, and a place for the token.\<close>

definition usable_app :: "oauth \<Rightarrow> bool" where
  "usable_app oa \<longleftrightarrow> truthy (oa_cache_path oa) \<and> scope_utf8 oa \<and> is_ascii (oa_client_id oa) \<and>
     (\<exists>s. oa_client_secret oa = Some s \<and> is_ascii s)"

text \<open>The token can be used for another minute, or was just asked for.\<close>

definition fresh_at :: "auth_world \<Rightarrow> auth_state \<Rightarrow> token \<Rightarrow> bool" where
  "fresh_at w st t \<longleftrightarrow> (\<exists>e. map_of t ''expires_at'' = Some (JInt e) \<and>
     (aw_time w (as_moment st) + 60 \<le> e \<or>
      (\<exists>n. map_of t ''expires_in'' = Some (JInt n) \<and> e = aw_time w (as_moment st + 2) + n)))"

lemma refresh_saved:
  assumes "usable_app oa" and "refreshes w" and "aw_writable w" and "jstr_ok rt"
  obtains t st' where "refresh_access_token oa w rt st = (st', Inr (Some t))" and "stored oa t st'"
    and "has_key t ''access_token''" and "has_key t ''refresh_token''"
    and "\<exists>n. map_of t ''expires_in'' = Some (JInt n) \<and> map_of t ''expires_at'' = Some (JInt (aw_time w (as_moment st + 1) + n))"
proof -
  obtain s where app: "truthy (oa_cache_path oa)" "scope_utf8 oa" "oa_client_secret oa = Some s"
      "is_ascii (oa_client_id oa)" "is_ascii s"
    using assms(1) by (auto simp: usable_app_def)
  have a: "is_ascii (oa_client_id oa @ '':'' @ s)" using app(4,5) by (simp add: is_ascii_def)
  let ?h = "''Basic '' @ b64encode (oa_client_id oa @ '':'' @ s)"
  obtain r d where r: "aw_post w (as_moment st) [(''refresh_token'', rt), (''grant_type'', JStr ''refresh_token'')] ?h = Inr r"
      "pr_status r = 200" "pr_json r = Inr d" "good_token d"
    using assms(2) unfolding refreshes_def by meson
  have p: "post_token oa w [(''refresh_token'', rt), (''grant_type'', JStr ''refresh_token'')] st = (tick st, Inr r)"
    using a r(1) by (simp add: post_token_def app(3) make_authorization_headers_def)
  from add_custom_good [OF r(4) app(2), of w "tick st"] obtain u n where
    u: "add_custom_values oa w d (tick st) = (tick (tick st), Inr u)" "json_ok u" "map_of d ''expires_in'' = Some (JInt n)"
      "map_of u ''expires_at'' = Some (JInt (aw_time w (as_moment st + 1) + n))"
      "map_of u ''scope'' = Some (jval_opt (oa_scope oa))"
      "\<And>k. k \<notin> {''scope'', ''expires_at''} \<Longrightarrow> map_of u k = map_of d k" by (metis tick_moment)
  let ?t = "if \<not> has_key u ''refresh_token'' then AList.update ''refresh_token'' rt u else u"
  have "json_ok (AList.update ''refresh_token'' rt u)"
    by (rule json_ok_update [OF u(2)]) (use assms(4) in \<open>simp_all add: jstr_ok_def valid_utf8_ascii is_ascii_def\<close>)
  then have t: "json_ok ?t" using u(2) by simp
  have k: "\<And>k. k \<noteq> ''refresh_token'' \<Longrightarrow> map_of ?t k = map_of u k" by simp
  show ?thesis
  proof (rule that [of "save_token_info oa w ?t (tick (tick st))" ?t])
    show "refresh_access_token oa w rt st = (save_token_info oa w ?t (tick (tick st)), Inr (Some ?t))"
      unfolding refresh_access_token_def p using r(2,3) u(1) by (simp add: Let_def)
    show "stored oa ?t (save_token_info oa w ?t (tick (tick st)))"
      unfolding stored_def using t k [of "''scope''"] k [of "''expires_at''"] u(4,5) app(1) assms(3)
      by (simp add: save_token_info_def)
    show "has_key ?t ''access_token''" using r(4) k [of "''access_token''"] u(6) [of "''access_token''"]
      by (simp add: has_key_def good_token_def)
    show "has_key ?t ''refresh_token''" by simp
    show "\<exists>n. map_of ?t ''expires_in'' = Some (JInt n) \<and> map_of ?t ''expires_at'' = Some (JInt (aw_time w (as_moment st + 1) + n))"
      using u(3,4) k [of "''expires_in''"] k [of "''expires_at''"] u(6) [of "''expires_in''"] by simp
  qed
qed

lemma cached_authorized:
  assumes "usable_app oa" and "refreshes w" and "aw_writable w" and "authorized oa st"
  obtains t st' where "get_cached_token oa w st = (st', Inr (Some t))" and "authorized oa st'"
    and "has_key t ''access_token''" and "fresh_at w st t"
proof -
  obtain t rt e where t: "stored oa t st" "has_key t ''access_token''" "map_of t ''refresh_token'' = Some rt"
      "map_of t ''expires_at'' = Some (JInt e)"
    using assms(4) unfolding authorized_def stored_def has_key_def by auto
  have c: "get_cached_token oa w st = cached_or_refreshed oa w t st"
    using get_cached_stored t(1) assms(1) by (simp add: usable_app_def)
  have x: "is_token_expired w t st = (tick st, Inr (e - aw_time w (as_moment st) < 60))"
    using t(4) by (simp add: is_token_expired_def dict_get_def)
  show ?thesis
  proof (cases "e - aw_time w (as_moment st) < 60")
    case False
    show ?thesis
    proof (rule that [of "tick st" t])
      show "get_cached_token oa w st = (tick st, Inr (Some t))" unfolding c cached_or_refreshed_def x using False by simp
      show "authorized oa (tick st)" using assms(4) by (simp add: authorized_def stored_def tick_def)
      show "fresh_at w st t" using False t(4) by (simp add: fresh_at_def)
    qed (rule t(2))
  next
    case True
    have "jstr_ok rt" using t(1,3) unfolding stored_def by (auto simp: json_ok_def jstr_ok_def list_all_iff dest!: map_of_SomeD)
    from refresh_saved [OF assms(1-3) this, of "tick st"] obtain u st' where
      u: "refresh_access_token oa w rt (tick st) = (st', Inr (Some u))" "stored oa u st'"
        "has_key u ''access_token''" "has_key u ''refresh_token''"
        "\<exists>n. map_of u ''expires_in'' = Some (JInt n) \<and> map_of u ''expires_at'' = Some (JInt (aw_time w (as_moment (tick st) + 1) + n))" .
    show ?thesis
    proof (rule that [of st' u])
      show "get_cached_token oa w st = (st', Inr (Some u))"
        unfolding c cached_or_refreshed_def x using True t(3) u(1) by (simp add: dict_get_def)
      show "authorized oa st'" using u(2-4) by (auto simp: authorized_def)
      show "fresh_at w st u" using u(5) by (auto simp: fresh_at_def tick_def)
    qed (rule u(3))
  qed
qed

text \<open>C39. Once the file has a token that can be refreshed, and as long as the service gives new ones and the file can be
  written, every request has an authorization header, however the clock runs and however many requests there
  were: the user need not log in again.\<close>

theorem authorization_kept:
  assumes "usable_app oa" and "refreshes w" and "aw_writable w" and "authorized oa st"
  shows "\<exists>h. snd (auth_headers oa w (((\<lambda>s. fst (auth_headers oa w s)) ^^ k) st)) = Inr (Some (''Bearer '' @ h))"
proof -
  have step: "authorized oa (fst (auth_headers oa w s)) \<and> (\<exists>h. snd (auth_headers oa w s) = Inr (Some (''Bearer '' @ h)))"
    if s: "authorized oa s" for s
  proof -
    from cached_authorized [OF assms(1-3) s] obtain t s' where
      t: "get_cached_token oa w s = (s', Inr (Some t))" "authorized oa s'" "has_key t ''access_token''" .
    then have "t \<noteq> []" by (auto simp: has_key_def)
    then show ?thesis using t by (auto simp: auth_headers_def has_key_def dict_get_def)
  qed
  have "authorized oa (((\<lambda>s. fst (auth_headers oa w s)) ^^ k) st)"
    using assms(4) step by (induction k) simp_all
  then show ?thesis using step by simp
qed

text \<open>But a failing network does not end in an error: the expired token is used.\<close>

lemma network_failure_gives_expired:
  assumes "truthy (oa_cache_path oa)" and "stored oa t st" and "map_of t ''refresh_token'' = Some rt"
    and "snd (is_token_expired w t st) = Inr True" and "snd (refresh_access_token oa w rt (tick st)) = Inl io_error"
  shows "snd (get_cached_token oa w st) = Inr (Some t)"
proof -
  obtain s' where "refresh_access_token oa w rt (tick st) = (s', Inl io_error)"
    using assms(5) by (cases "refresh_access_token oa w rt (tick st)") simp
  moreover have "is_token_expired w t st = (tick st, Inr True)" using assms(4) by (simp add: is_token_expired_def)
  ultimately show ?thesis
    using assms(3) unfolding get_cached_stored [OF assms(1,2)] cached_or_refreshed_def by (simp add: dict_get_def)
qed

text \<open>A file that is no JSON ends requests with an error, since only input errors are caught.\<close>

lemma bad_file_fails:
  "truthy (oa_cache_path oa) \<Longrightarrow> as_file st = Some s \<Longrightarrow> valid_utf8 s \<Longrightarrow> json_loads s = Inl e \<Longrightarrow>
   auth_headers oa w st = (st, Inl e)"
  by (simp add: auth_headers_def get_cached_token_def)

lemma client_refused_type_error:
  assumes "aw_post w (as_moment st) [(''grant_type'', JStr ''client_credentials'')]
             (''Basic '' @ b64encode (cc_client_id cc @ '':'' @ cc_client_secret cc)) = Inr r"
    and "pr_status r \<noteq> 200" and "is_ascii (cc_client_id cc @ '':'' @ cc_client_secret cc)"
  shows "snd (request_client_token cc w st) = Inl TypeError"
  using assms by (simp add: request_client_token_def make_authorization_headers_def)

text \<open>The address that the user is led to has the code in front, and after it perhaps the state.\<close>

lemma code_of_response:
  assumes "CHR ''?'' \<notin> set uri" and "CHR ''?'' \<notin> set code" and "CHR ''&'' \<notin> set code"
    and "CHR ''?'' \<notin> set state"
  shows "parse_response_code (uri @ ''?code='' @ code @ ''&state='' @ state) = Some code"
proof -
  let ?r = "code @ ''&state='' @ state"
  have f: "py_find (uri @ ''?code='' @ ?r) ''?code='' = Some (length uri)"
    using py_find_append_notin [OF assms(1), of "''code='' @ ?r" "''code=''"] by simp
  have "py_find ?r ''?code='' = None" using assms(2,4) by (intro py_find_notin) simp
  then have "split_str ''?code='' ?r = [?r]" by (subst split_str.simps) simp
  then have "split_str ''?code='' (uri @ ''?code='' @ ?r) = [uri, ?r]"
    using f by (subst split_str.simps) simp
  then show ?thesis using split_on_append [OF assms(3), of "''state='' @ state"] by (simp add: parse_response_code_def)
qed

section \<open>Instances\<close>

definition demo_oauth :: oauth where
  "demo_oauth = SpotifyOAuth_init ''id'' (Some ''key'') (Some ''https://x.org/'') None (Some ''b a'') (Some ''/tmp/token'')"

text \<open>A service that gives a token for an hour, and a clock in which each reading comes a minute after the other.\<close>

definition demo_given :: token where
  "demo_given = [(''access_token'', JStr ''a''), (''refresh_token'', JStr ''r''), (''expires_in'', JInt 3600)]"

definition demo_auth :: auth_world where
  "demo_auth = \<lparr>aw_time = (\<lambda>n. 60 * int n),
     aw_post = (\<lambda>n payload h. Inr \<lparr>pr_status = 200, pr_reason = ''OK'', pr_json = Inr demo_given\<rparr>), aw_writable = True\<rparr>"

definition demo_token :: token where
  "demo_token = [(''access_token'', JStr ''a''), (''refresh_token'', JStr ''r''), (''expires_in'', JInt 3600),
     (''expires_at'', JInt 3660), (''scope'', jval_opt (oa_scope demo_oauth))]"

lemma demo_given_good: "good_token demo_given"
  by (simp add: good_token_def demo_given_def json_ok_def has_key_def valid_utf8_ascii is_ascii_def)

lemma demo_oauth_eq: "demo_oauth = \<lparr>oa_client_id = ''id'', oa_client_secret = Some ''key'', oa_redirect_uri = Some ''https://x.org/'',
    oa_state = None, oa_scope = Some ''a b'', oa_cache_path = Some ''/tmp/token''\<rparr>"
proof -
  have "normalize_scope (Some ''b a'') = Some ''a b''" by code_simp
  then show ?thesis by (simp add: demo_oauth_def SpotifyOAuth_init_def)
qed

lemma demo_scope: "scope_utf8 demo_oauth"
  by (simp add: scope_utf8_def demo_oauth_eq valid_utf8_ascii is_ascii_def)

theorem login_token_kept_witness:
  "get_access_token demo_oauth demo_auth (Some ''c'') \<lparr>as_moment = 0, as_file = None\<rparr>
     = (\<lparr>as_moment = 2, as_file = Some (json_dumps demo_token)\<rparr>, Inr demo_token) \<and>
   get_cached_token demo_oauth demo_auth \<lparr>as_moment = 50, as_file = Some (json_dumps demo_token)\<rparr>
     = (\<lparr>as_moment = 51, as_file = Some (json_dumps demo_token)\<rparr>, Inr (Some demo_token))"
proof -
  have a: "get_access_token demo_oauth demo_auth (Some ''c'') \<lparr>as_moment = 0, as_file = None\<rparr>
     = (\<lparr>as_moment = 2, as_file = Some (json_dumps demo_token)\<rparr>, Inr demo_token)"
    by (simp add: get_access_token_def post_token_def make_authorization_headers_def is_ascii_def demo_auth_def demo_oauth_eq
        demo_given_def demo_token_def add_custom_values_def save_token_info_def dict_get_def tick_def truthy_def Let_def)
  have p: "\<And>i p h r d. aw_post demo_auth i p h = Inr r \<Longrightarrow> pr_json r = Inr d \<Longrightarrow> good_token d"
    using demo_given_good by (auto simp: demo_auth_def)
  have c: "truthy (oa_cache_path demo_oauth)" "aw_writable demo_auth"
    by (simp_all add: demo_oauth_eq demo_auth_def truthy_def)
  have t: "map_of demo_token ''expires_in'' = Some (JInt 3600)" by (simp add: demo_token_def)
  let ?st = "\<lparr>as_moment = 50, as_file = Some (json_dumps demo_token)\<rparr>"
  have f: "as_file ?st = as_file \<lparr>as_moment = 2, as_file = Some (json_dumps demo_token)\<rparr>"
    "aw_time demo_auth (as_moment ?st) + 60 \<le> aw_time demo_auth (as_moment \<lparr>as_moment = 0, as_file = None\<rparr> + 1) + 3600"
    by (simp_all add: demo_auth_def)
  have "get_cached_token demo_oauth demo_auth ?st = (tick ?st, Inr (Some demo_token))"
    by (rule login_token_kept [OF a p demo_scope c t f])
  with a show ?thesis by (simp add: tick_def)
qed

theorem authorization_kept_witness:
  "\<exists>h. snd (auth_headers demo_oauth demo_auth (((\<lambda>s. fst (auth_headers demo_oauth demo_auth s)) ^^ 1000)
      \<lparr>as_moment = 0, as_file = Some (json_dumps demo_token)\<rparr>)) = Inr (Some (''Bearer '' @ h))"
proof (rule authorization_kept)
  show "usable_app demo_oauth" unfolding usable_app_def using demo_scope
    by (simp add: demo_oauth_eq truthy_def is_ascii_def)
  show "refreshes demo_auth" using demo_given_good by (simp add: refreshes_def demo_auth_def)
  show "aw_writable demo_auth" by (simp add: demo_auth_def)
  have "json_ok demo_token"
    by (simp add: json_ok_def demo_token_def jval_opt_def demo_oauth_eq valid_utf8_ascii is_ascii_def)
  then show "authorized demo_oauth \<lparr>as_moment = 0, as_file = Some (json_dumps demo_token)\<rparr>"
    unfolding authorized_def stored_def
    by (intro exI [of _ demo_token]) (simp add: demo_token_def has_key_def)
qed

end
